(* ===== verification/Prelude.thy ===== *)
theory Prelude
  imports Main "HOL-Library.Word"
begin

text \<open>
  What every component theory shares: the machine integers of the Rust sources as words with their
  checked, saturating and narrowing operations, \<open>Result\<close> as a sum type with the \<open>?\<close> operator,
  methods on \<open>&mut self\<close> as functions that return a result together with the state they leave
  behind, the slice helpers (\<open>windows(2)\<close>, \<open>iter().try_for_each\<close>, \<open>collect\<close> of results), and
  three locales for the contracts that the stateful components promise: an invariant that every
  operation keeps, operations that leave the state alone when they fail, and a measure that never
  goes back.
\<close>

unbundle bit_operations_syntax

type_synonym u8 = "8 word"
type_synonym u16 = "16 word"
type_synonym u32 = "32 word"
type_synonym u64 = "64 word"
type_synonym u128 = "128 word"
type_synonym i16 = "16 word"
type_synonym i32 = "32 word"

named_theorems rust_simps \<open>unfolding of the standard library operations\<close>

section \<open>Integer operations\<close>

text \<open>\<open>checked_add\<close>, \<open>checked_sub\<close> and \<open>checked_mul\<close> of an unsigned type: \<open>None\<close> on overflow.\<close>

definition checked_add :: "'a::len word \<Rightarrow> 'a word \<Rightarrow> 'a word option" where
  "checked_add a b = (if unat a + unat b < 2 ^ LENGTH('a) then Some (a + b) else None)"

definition checked_sub :: "'a::len word \<Rightarrow> 'a word \<Rightarrow> 'a word option" where
  "checked_sub a b = (if b \<le> a then Some (a - b) else None)"

definition checked_mul :: "'a::len word \<Rightarrow> 'a word \<Rightarrow> 'a word option" where
  "checked_mul a b = (if unat a * unat b < 2 ^ LENGTH('a) then Some (a * b) else None)"

definition saturating_add :: "'a::len word \<Rightarrow> 'a word \<Rightarrow> 'a word" where
  "saturating_add a b = (if unat a + unat b < 2 ^ LENGTH('a) then a + b else - 1)"

definition saturating_sub :: "'a::len word \<Rightarrow> 'a word \<Rightarrow> 'a word" where
  "saturating_sub a b = (if b \<le> a then a - b else 0)"

definition saturating_mul :: "'a::len word \<Rightarrow> 'a word \<Rightarrow> 'a word" where
  "saturating_mul a b = (if unat a * unat b < 2 ^ LENGTH('a) then a * b else - 1)"

text \<open>\<open>T::try_from(value)\<close> from a wider unsigned type and from \<open>usize\<close> (lengths are \<open>nat\<close>).\<close>

definition try_narrow :: "'a::len word \<Rightarrow> 'b::len word option" where
  "try_narrow a = (if unat a < 2 ^ LENGTH('b) then Some (ucast a) else None)"

definition try_of_len :: "nat \<Rightarrow> 'b::len word option" where
  "try_of_len n = (if n < 2 ^ LENGTH('b) then Some (word_of_nat n) else None)"

lemma unat_plus_no_overflow:
  "unat a + unat b < 2 ^ LENGTH('a) \<Longrightarrow> unat (a + b :: 'a::len word) = unat a + unat b"
  by (simp add: unat_word_ariths)

lemma unat_mult_no_overflow:
  "unat a * unat b < 2 ^ LENGTH('a) \<Longrightarrow> unat (a * b :: 'a::len word) = unat a * unat b"
  by (simp add: unat_word_ariths)

lemma checked_add_Some: "checked_add a b = Some c \<Longrightarrow> unat c = unat a + unat b"
  by (auto simp: checked_add_def unat_plus_no_overflow split: if_splits)

lemma checked_add_None:
  "checked_add (a :: 'a::len word) b = None \<longleftrightarrow> 2 ^ LENGTH('a) \<le> unat a + unat b"
  by (auto simp: checked_add_def)

lemma checked_mul_Some: "checked_mul a b = Some c \<Longrightarrow> unat c = unat a * unat b"
  by (auto simp: checked_mul_def unat_mult_no_overflow split: if_splits)

lemma unat_minus_le: "b \<le> a \<Longrightarrow> unat (a - b :: 'a::len word) = unat a - unat b"
  by (simp add: unat_sub)

lemma checked_sub_Some: "checked_sub a b = Some c \<Longrightarrow> unat b \<le> unat a \<and> unat c = unat a - unat b"
  by (auto simp: checked_sub_def unat_minus_le word_le_nat_alt split: if_splits)

lemma unat_saturating_add:
  "unat (saturating_add a b :: 'a::len word) = min (unat a + unat b) (2 ^ LENGTH('a) - 1)"
proof (cases "unat a + unat b < 2 ^ LENGTH('a)")
  case True
  then show ?thesis by (simp add: saturating_add_def unat_plus_no_overflow)
next
  case False
  have "unat (- 1 :: 'a word) = 2 ^ LENGTH('a) - 1"
    by (simp add: unsigned_minus_1_eq_mask mask_eq_exp_minus_1)
  with False show ?thesis by (simp add: saturating_add_def)
qed

lemma unat_saturating_sub: "unat (saturating_sub a b :: 'a::len word) = unat a - unat b"
  by (auto simp: saturating_sub_def unat_minus_le word_le_nat_alt)

lemma unat_widen: "LENGTH('a) \<le> LENGTH('b) \<Longrightarrow> unat (ucast (a :: 'a::len word) :: 'b::len word) = unat a"
  by (simp add: unsigned_ucast_eq take_bit_nat_eq_self_iff)
    (rule order.strict_trans2 [OF unsigned_less], simp)

lemma try_narrow_Some:
  "try_narrow (a :: 'a::len word) = Some (b :: 'b::len word) \<Longrightarrow> unat b = unat a"
  by (auto simp: try_narrow_def unsigned_ucast_eq take_bit_nat_eq_self split: if_splits)

lemma try_of_len_Some: "try_of_len n = Some (b :: 'b::len word) \<Longrightarrow> unat b = n"
  by (auto simp: try_of_len_def unat_of_nat split: if_splits)

section \<open>Results\<close>

text \<open>
  \<open>Result<T, E>\<close> is \<open>'e + 'a\<close> with \<open>Inl\<close> for \<open>Err\<close>. The \<open>?\<close> operator on a value is \<open>and_then\<close>;
  \<open>ok_or\<close> turns an option into a result.
\<close>

definition and_then :: "'e + 'a \<Rightarrow> ('a \<Rightarrow> 'e + 'b) \<Rightarrow> 'e + 'b" where
  "and_then r f = (case r of Inl e \<Rightarrow> Inl e | Inr a \<Rightarrow> f a)"

definition ok_or :: "'e \<Rightarrow> 'a option \<Rightarrow> 'e + 'a" where
  "ok_or e v = (case v of None \<Rightarrow> Inl e | Some a \<Rightarrow> Inr a)"

definition is_ok :: "'e + 'a \<Rightarrow> bool" where
  "is_ok r = (case r of Inl _ \<Rightarrow> False | Inr _ \<Rightarrow> True)"

lemma and_then_simps [simp]: "and_then (Inl e) f = Inl e" "and_then (Inr a) f = f a"
  by (simp_all add: and_then_def)

lemma and_then_Inr_iff [simp]: "and_then r f = Inr b \<longleftrightarrow> (\<exists>a. r = Inr a \<and> f a = Inr b)"
  by (cases r) simp_all

lemma and_then_Inl_iff:
  "and_then r f = Inl e \<longleftrightarrow> r = Inl e \<or> (\<exists>a. r = Inr a \<and> f a = Inl e)"
  by (cases r) simp_all

lemma ok_or_simps [simp]: "ok_or e None = Inl e" "ok_or e (Some a) = Inr a"
  by (simp_all add: ok_or_def)

lemma ok_or_Inr_iff [simp]: "ok_or e v = Inr a \<longleftrightarrow> v = Some a"
  by (cases v) simp_all

lemma if_Inl_Inr: "(if b then Inl e else r) = Inr x \<longleftrightarrow> \<not> b \<and> r = Inr x"
  by simp

lemma is_ok_simps [simp]: "is_ok (Inl e) = False" "is_ok (Inr a) = True"
  by (simp_all add: is_ok_def)

lemma is_ok_iff: "is_ok r \<longleftrightarrow> (\<exists>a. r = Inr a)"
  by (cases r) simp_all

lemma is_ok_unit_iff: "is_ok r \<longleftrightarrow> r = Inr ()" for r :: "'e + unit"
  by (cases r) simp_all

text \<open>The first failing check of a slice decides (\<open>for x in xs { check(x)?; }\<close>).\<close>

fun check_all :: "('a \<Rightarrow> 'e + unit) \<Rightarrow> 'a list \<Rightarrow> 'e + unit" where
  "check_all f [] = Inr ()"
| "check_all f (x # xs) = and_then (f x) (\<lambda>_. check_all f xs)"

lemma check_all_Inr_iff [simp]: "check_all f xs = Inr () \<longleftrightarrow> (\<forall>x \<in> set xs. f x = Inr ())"
  by (induction xs) auto

text \<open>\<open>collect::<Result<Vec<_>, _>>()\<close>: all the values or the first error.\<close>

fun collect_results :: "('a \<Rightarrow> 'e + 'b) \<Rightarrow> 'a list \<Rightarrow> 'e + 'b list" where
  "collect_results f [] = Inr []"
| "collect_results f (x # xs) =
     and_then (f x) (\<lambda>y. and_then (collect_results f xs) (\<lambda>ys. Inr (y # ys)))"

lemma collect_results_length: "collect_results f xs = Inr ys \<Longrightarrow> length ys = length xs"
  by (induction xs arbitrary: ys) auto

lemma collect_results_nth:
  "collect_results f xs = Inr ys \<Longrightarrow> i < length xs \<Longrightarrow> f (xs ! i) = Inr (ys ! i)"
  by (induction xs arbitrary: ys i) (auto simp: nth_Cons split: nat.splits)

lemma collect_results_map:
  "(\<And>x. x \<in> set xs \<Longrightarrow> f x = Inr (g x)) \<Longrightarrow> collect_results f xs = Inr (map g xs)"
  by (induction xs) auto

text \<open>\<open>xs.windows(2).any(|pair| p(pair[0], pair[1]))\<close>.\<close>

fun windows2_any :: "('a \<Rightarrow> 'a \<Rightarrow> bool) \<Rightarrow> 'a list \<Rightarrow> bool" where
  "windows2_any p (x # y # zs) = (p x y \<or> windows2_any p (y # zs))"
| "windows2_any p _ = False"

lemma windows2_sorted_by:
  fixes key :: "'a \<Rightarrow> 'k::linorder"
  shows "\<not> windows2_any (\<lambda>a b. key b \<le> key a) xs \<longleftrightarrow> sorted_wrt (<) (map key xs)"
proof (induction "\<lambda>a b. key b \<le> key a" xs rule: windows2_any.induct)
  case (1 x y zs)
  have step: "\<not> windows2_any (\<lambda>a b. key b \<le> key a) (x # y # zs) \<longleftrightarrow>
      key x < key y \<and> sorted_wrt (<) (map key (y # zs))"
    using 1 by (simp add: not_le)
  show ?case unfolding step by (auto intro: less_trans)
qed simp_all

section \<open>Methods on \<open>&mut self\<close>\<close>

text \<open>
  A method that can fail after it has written to \<open>self\<close> returns its result together with the state
  it leaves: an early return keeps whatever was written before it.
\<close>

type_synonym ('e, 'a, 's) outcome = "('e + 'a) \<times> 's"

definition op_then ::
  "('e, 'a, 's) outcome \<Rightarrow> ('a \<Rightarrow> 's \<Rightarrow> ('e, 'b, 's) outcome) \<Rightarrow> ('e, 'b, 's) outcome" where
  "op_then m f = (case m of (Inl e, s) \<Rightarrow> (Inl e, s) | (Inr a, s) \<Rightarrow> f a s)"

lemma op_then_simps [simp]:
  "op_then (Inl e, s) f = (Inl e, s)" "op_then (Inr a, s) f = f a s"
  by (simp_all add: op_then_def)

lemma op_then_Inr_iff:
  "op_then m f = (Inr b, s') \<longleftrightarrow> (\<exists>a s. m = (Inr a, s) \<and> f a s = (Inr b, s'))"
  by (auto simp: op_then_def split: prod.splits sum.splits)

text \<open>A sequence of operations, each run on the state the one before left, failed or not.\<close>

definition run_ops :: "('op \<Rightarrow> 's \<Rightarrow> ('e, 'a, 's) outcome) \<Rightarrow> 'op list \<Rightarrow> 's \<Rightarrow> 's" where
  "run_ops step ops s = fold (\<lambda>c s. snd (step c s)) ops s"

lemma run_ops_simps [simp]:
  "run_ops step [] s = s"
  "run_ops step (c # cs) s = run_ops step cs (snd (step c s))"
  by (simp_all add: run_ops_def)

lemma run_ops_append: "run_ops step (xs @ ys) s = run_ops step ys (run_ops step xs s)"
  by (simp add: run_ops_def)

text \<open>The operations of a sequence that returned \<open>Ok\<close>, in order.\<close>

fun accepted_ops :: "('op \<Rightarrow> 's \<Rightarrow> ('e, 'a, 's) outcome) \<Rightarrow> 'op list \<Rightarrow> 's \<Rightarrow> 'op list" where
  "accepted_ops step [] s = []"
| "accepted_ops step (c # cs) s =
     (if is_ok (fst (step c s)) then [c] else []) @ accepted_ops step cs (snd (step c s))"

section \<open>Contracts of stateful components\<close>

locale guarded_machine =
  fixes step :: "'op \<Rightarrow> 's \<Rightarrow> ('e, 'a, 's) outcome"
    and inv :: "'s \<Rightarrow> bool"
  assumes step_keeps: "inv s \<Longrightarrow> inv (snd (step c s))"
begin

lemma run_keeps: "inv s \<Longrightarrow> inv (run_ops step cs s)"
  by (induction cs arbitrary: s) (auto intro: step_keeps)

end

text \<open>Operations that are all-or-nothing: an error leaves the state as it was.\<close>

locale atomic_machine = guarded_machine step inv
  for step :: "'op \<Rightarrow> 's \<Rightarrow> ('e, 'a, 's) outcome" and inv :: "'s \<Rightarrow> bool" +
  assumes failure_keeps: "inv s \<Longrightarrow> fst (step c s) = Inl e \<Longrightarrow> snd (step c s) = s"
begin

lemma rejected_ops_leave_no_trace:
  "inv s \<Longrightarrow> run_ops step (accepted_ops step cs s) s = run_ops step cs s"
proof (induction cs arbitrary: s)
  case Nil
  show ?case by simp
next
  case (Cons c cs)
  have inv': "inv (snd (step c s))" using Cons.prems by (rule step_keeps)
  show ?case
  proof (cases "fst (step c s)")
    case (Inl e)
    then have "snd (step c s) = s" using Cons.prems failure_keeps by blast
    with Inl Cons show ?thesis by simp
  next
    case (Inr a)
    with Cons.IH [OF inv'] show ?thesis by simp
  qed
qed

end

text \<open>A measure of the state that no operation lowers.\<close>

locale ratchet_machine = guarded_machine step inv
  for step :: "'op \<Rightarrow> 's \<Rightarrow> ('e, 'a, 's) outcome" and inv :: "'s \<Rightarrow> bool" +
  fixes level :: "'s \<Rightarrow> 'm::order"
  assumes step_raises: "inv s \<Longrightarrow> level s \<le> level (snd (step c s))"
begin

lemma run_raises: "inv s \<Longrightarrow> level s \<le> level (run_ops step cs s)"
proof (induction cs arbitrary: s)
  case Nil
  show ?case by simp
next
  case (Cons c cs)
  have "level s \<le> level (snd (step c s))" using Cons.prems by (rule step_raises)
  also have "\<dots> \<le> level (run_ops step cs (snd (step c s)))"
    using Cons.prems by (intro Cons.IH step_keeps)
  finally show ?case by simp
qed

end

end
