(* ===== verification/F32.thy ===== *)
theory F32
  imports Prelude
begin

text \<open>
  \<open>f32\<close> as the 32-bit pattern that \<open>f32::to_bits\<close> returns. A pattern has a sign bit, eight exponent
  bits and 23 fraction bits; \<open>f32_scaled\<close> is the value of a finite pattern in units of \<open>2 ^ -149\<close>, an
  exact integer, so comparisons are comparisons of integers. An infinity gets the integer that the
  same formula gives it, which is above every finite one. NaN compares with nothing.
\<close>

type_synonym f32 = "32 word"

definition f32_exponent :: "f32 \<Rightarrow> nat" where
  "f32_exponent x = unat (drop_bit 23 x AND 255)"

definition f32_fraction :: "f32 \<Rightarrow> nat" where
  "f32_fraction x = unat (x AND 8388607)"

definition f32_is_sign_negative :: "f32 \<Rightarrow> bool" where
  "f32_is_sign_negative x \<longleftrightarrow> bit x 31"

definition f32_is_finite :: "f32 \<Rightarrow> bool" where
  "f32_is_finite x \<longleftrightarrow> f32_exponent x \<noteq> 255"

definition f32_is_nan :: "f32 \<Rightarrow> bool" where
  "f32_is_nan x \<longleftrightarrow> f32_exponent x = 255 \<and> f32_fraction x \<noteq> 0"

definition f32_magnitude :: "f32 \<Rightarrow> nat" where
  "f32_magnitude x =
     (if f32_exponent x = 0 then f32_fraction x
      else (f32_fraction x + 2 ^ 23) * 2 ^ (f32_exponent x - 1))"

definition f32_scaled :: "f32 \<Rightarrow> int" where
  "f32_scaled x =
     (if f32_is_sign_negative x then - int (f32_magnitude x) else int (f32_magnitude x))"

text \<open>The operators \<open><\<close>, \<open><=\<close>, \<open>==\<close> and \<open>f32::max\<close>.\<close>

definition f32_lt :: "f32 \<Rightarrow> f32 \<Rightarrow> bool" where
  "f32_lt x y \<longleftrightarrow> \<not> f32_is_nan x \<and> \<not> f32_is_nan y \<and> f32_scaled x < f32_scaled y"

definition f32_le :: "f32 \<Rightarrow> f32 \<Rightarrow> bool" where
  "f32_le x y \<longleftrightarrow> \<not> f32_is_nan x \<and> \<not> f32_is_nan y \<and> f32_scaled x \<le> f32_scaled y"

definition f32_eq :: "f32 \<Rightarrow> f32 \<Rightarrow> bool" where
  "f32_eq x y \<longleftrightarrow> \<not> f32_is_nan x \<and> \<not> f32_is_nan y \<and> f32_scaled x = f32_scaled y"

definition f32_max :: "f32 \<Rightarrow> f32 \<Rightarrow> f32" where
  "f32_max x y =
     (if f32_is_nan x then y else if f32_is_nan y then x else if f32_lt x y then y else x)"

text \<open>The literals the sources use.\<close>

definition f32_zero :: f32 where "f32_zero = 0"
definition f32_one :: f32 where "f32_one = 0x3F800000"
definition f32_minus_one :: f32 where "f32_minus_one = 0xBF800000"

lemmas f32_defs =
  f32_exponent_def f32_fraction_def f32_is_sign_negative_def f32_is_finite_def f32_is_nan_def
  f32_magnitude_def f32_scaled_def f32_lt_def f32_le_def f32_eq_def f32_zero_def f32_one_def
  f32_minus_one_def

lemma f32_finite_not_nan: "f32_is_finite x \<Longrightarrow> \<not> f32_is_nan x"
  by (simp add: f32_is_finite_def f32_is_nan_def)

lemma f32_le_refl: "\<not> f32_is_nan x \<Longrightarrow> f32_le x x"
  by (simp add: f32_le_def)

lemma f32_le_trans: "f32_le x y \<Longrightarrow> f32_le y z \<Longrightarrow> f32_le x z"
  by (auto simp: f32_le_def)

lemma f32_not_lt_iff: "\<not> f32_is_nan x \<Longrightarrow> \<not> f32_is_nan y \<Longrightarrow> \<not> f32_lt x y \<longleftrightarrow> f32_le y x"
  by (auto simp: f32_lt_def f32_le_def)

lemma f32_max_ge:
  "\<not> f32_is_nan x \<Longrightarrow> \<not> f32_is_nan y \<Longrightarrow> f32_le x (f32_max x y) \<and> f32_le y (f32_max x y)"
  by (auto simp: f32_max_def f32_le_def f32_lt_def)

text \<open>\<open>(lo..=hi).contains(&x)\<close> is false on NaN, and true only of finite values for finite bounds.\<close>

definition f32_in_range :: "f32 \<Rightarrow> f32 \<Rightarrow> f32 \<Rightarrow> bool" where
  "f32_in_range lo hi x \<longleftrightarrow> f32_le lo x \<and> f32_le x hi"

end
