(* ===== verification/Contracts.thy ===== *)
theory Contracts
  imports F32
begin

text \<open>
  The vocabulary of \<open>crates/alife_core/src\<close>: \<open>error.rs\<close> (the error every validator returns),
  \<open>version.rs\<close> (schema kinds and the version check), \<open>ids.rs\<close> (ids whose zero is reserved),
  \<open>units.rs\<close> (ticks, durations and bounded scalars) and \<open>math.rs\<close> (vectors, boxes and poses).
\<close>

section \<open>Schema versions (version.rs)\<close>

datatype SchemaKind =
    Chemistry | SensoryAbi | ActionAbi | Experience | Perception | Phenotype | PackedLog | Genome
  | NeuralProjection | Learning | SleepConsolidation | SensorProfile | MemoryQuery | Save
  | TeacherSchool | LineageExport

section \<open>Errors (error.rs)\<close>

datatype (plugins only: code size) ScaffoldContractError =
    BrainClassTooSmall | BrainClassAlignment | LobeTotalMismatch | LobeAlignment
  | LobeRangeCoverage | RoutingReferencesDisabledLobe | RoutingDuplicateMask
  | MissingCanonicalNeuronCount | InvalidId | UnknownBrainClass | NonFiniteFloat
  | ScalarOutOfRange | DenseAlphaRequiresOptIn | LamarckianInheritanceRequiresOptIn
  | InvalidGeneticBounds | IncompatibleGeneticClass | MutationOverflow | NonMonotonicTick
  | InvalidBounds | MissingPhaseData | UnorderedExperiencePhase | MismatchedCreatureId
  | InvalidActionDecision | OutOfRangeDriveHormone
  | IncompatibleAbi SchemaKind u16 u16
  | PackedLogSchemaMismatch u16 u16
  | PackedLogSideBufferOverflow | PackedLogFrameCapacityExceeded | TopologyCapacityExceeded
  | InvalidSparseProjectionSchema | UnsupportedSparseTileFormat | BackendParity
  | InvalidPerceptionFrame | InvalidActionCandidate | InvalidDecisionEvidence
  | EvidenceKindMismatch | PhenotypeCompile | UnsupportedProductionBrainClass
  | GpuLayoutMismatch | SensorProfileMismatch | TrackedObjectIdentityExhausted
  | InvalidMemoryQuery | MemoryModeConflict | MemoryReplayRejected | MemoryCompactionConflict
  | BrainOwnershipMismatch | LearningEvidenceMismatch | LearningReplayRejected
  | ConsolidationGenerationMismatch | BrainActivityPolicyMismatch
  | BrainActivitySequenceMismatch | BrainAtpExhausted | GpuTimestampQueryUnavailable
  | NeuralBackendUnavailable

type_synonym 'a contract = "ScaffoldContractError + 'a"

section \<open>The registry of current versions (version.rs)\<close>

record SchemaVersions =
  sv_chemistry :: u16
  sv_sensory_abi :: u16
  sv_action_abi :: u16
  sv_experience :: u16
  sv_perception :: u16
  sv_phenotype :: u16
  sv_packed_log :: u16
  sv_genome :: u16
  sv_neural_projection :: u16
  sv_learning :: u16
  sv_sleep_consolidation :: u16
  sv_save :: u16
  sv_teacher_school :: u16
  sv_lineage_export :: u16

definition schema_versions_CURRENT :: SchemaVersions where
  "schema_versions_CURRENT = \<lparr>
     sv_chemistry = 3, sv_sensory_abi = 1, sv_action_abi = 2, sv_experience = 4,
     sv_perception = 1, sv_phenotype = 3, sv_packed_log = 2, sv_genome = 3,
     sv_neural_projection = 2, sv_learning = 3, sv_sleep_consolidation = 2, sv_save = 3,
     sv_teacher_school = 3, sv_lineage_export = 1 \<rparr>"

fun current_for :: "SchemaKind \<Rightarrow> u16" where
  "current_for Chemistry = sv_chemistry schema_versions_CURRENT"
| "current_for SensoryAbi = sv_sensory_abi schema_versions_CURRENT"
| "current_for ActionAbi = sv_action_abi schema_versions_CURRENT"
| "current_for Experience = sv_experience schema_versions_CURRENT"
| "current_for Perception = sv_perception schema_versions_CURRENT"
| "current_for Phenotype = sv_phenotype schema_versions_CURRENT"
| "current_for PackedLog = sv_packed_log schema_versions_CURRENT"
| "current_for Genome = sv_genome schema_versions_CURRENT"
| "current_for NeuralProjection = sv_neural_projection schema_versions_CURRENT"
| "current_for Learning = sv_learning schema_versions_CURRENT"
| "current_for SleepConsolidation = sv_sleep_consolidation schema_versions_CURRENT"
| "current_for SensorProfile = 1"
| "current_for MemoryQuery = 2"
| "current_for Save = sv_save schema_versions_CURRENT"
| "current_for TeacherSchool = sv_teacher_school schema_versions_CURRENT"
| "current_for LineageExport = sv_lineage_export schema_versions_CURRENT"

definition require_version :: "SchemaKind \<Rightarrow> u16 \<Rightarrow> u16 \<Rightarrow> unit contract" where
  "require_version kind expected actual =
     (if actual = expected then Inr () else Inl (IncompatibleAbi kind expected actual))"

definition require_current_version :: "SchemaKind \<Rightarrow> u16 \<Rightarrow> unit contract" where
  "require_current_version kind actual =
     (let expected = current_for kind
      in if actual = expected then Inr () else Inl (IncompatibleAbi kind expected actual))"

lemma require_current_version_Inr_iff [simp]:
  "require_current_version kind actual = Inr () \<longleftrightarrow> actual = current_for kind"
  by (simp add: require_current_version_def Let_def)

section \<open>Ids (ids.rs)\<close>

text \<open>
  The macro \<open>impl_nonzero_id\<close> gives ten id types over \<open>u64\<close> the same operations; \<open>BrainClassId\<close>
  (\<open>u16\<close>) and \<open>ActionId\<close> (\<open>u32\<close>) have hand-written copies. An id is its raw word here.
\<close>

definition id_is_valid :: "'a::len word \<Rightarrow> bool" where
  "id_is_valid v \<longleftrightarrow> v \<noteq> 0"

definition id_new :: "'a::len word \<Rightarrow> 'a word option" where
  "id_new v = (if v = 0 then None else Some v)"

definition id_validate :: "'a::len word \<Rightarrow> ('a word) contract" where
  "id_validate v = (if id_is_valid v then Inr v else Inl InvalidId)"

definition brain_class_id_validate :: "u16 \<Rightarrow> u16 contract" where
  "brain_class_id_validate v = (if id_is_valid v then Inr v else Inl InvalidId)"

definition action_id_validate :: "u32 \<Rightarrow> u32 contract" where
  "action_id_validate v = (if id_is_valid v then Inr v else Inl InvalidId)"

definition validate_optional_target :: "u64 option \<Rightarrow> (u64 option) contract" where
  "validate_optional_target target =
     (case target of Some v \<Rightarrow> and_then (id_validate v) (\<lambda>i. Inr (Some i)) | None \<Rightarrow> Inr None)"

lemma id_validate_Inr_iff [simp]: "id_validate v = Inr w \<longleftrightarrow> v \<noteq> 0 \<and> w = v"
  by (auto simp: id_validate_def id_is_valid_def)

lemma id_validate_nonzero: "v \<noteq> 0 \<Longrightarrow> id_validate v = Inr v"
  by simp

lemma id_validate_zero [simp]: "id_validate 0 = Inl InvalidId"
  by (simp add: id_validate_def id_is_valid_def)

lemma action_id_validate_Inr_iff [simp]: "action_id_validate v = Inr w \<longleftrightarrow> v \<noteq> 0 \<and> w = v"
  by (auto simp: action_id_validate_def id_is_valid_def)

section \<open>Units (units.rs)\<close>

type_synonym Tick = u64
type_synonym DurationTicks = u32

definition tick_validate_monotonic :: "Tick \<Rightarrow> Tick \<Rightarrow> Tick contract" where
  "tick_validate_monotonic previous current =
     (if previous \<le> current then Inr current else Inl NonMonotonicTick)"

lemma tick_validate_monotonic_Inr_iff [simp]:
  "tick_validate_monotonic p c = Inr t \<longleftrightarrow> p \<le> c \<and> t = c"
  by (auto simp: tick_validate_monotonic_def)

definition validate_finite :: "f32 \<Rightarrow> f32 contract" where
  "validate_finite x = (if f32_is_finite x then Inr x else Inl NonFiniteFloat)"

definition validate_finite_slice :: "f32 list \<Rightarrow> unit contract" where
  "validate_finite_slice xs = (if list_all f32_is_finite xs then Inr () else Inl NonFiniteFloat)"

definition seconds_new :: "f32 \<Rightarrow> f32 contract" where
  "seconds_new value = and_then (validate_finite value) (\<lambda>_.
     if f32_le f32_zero value then Inr value else Inl ScalarOutOfRange)"

text \<open>The macro \<open>bounded_scalar\<close>, and its instances \<open>NormalizedScalar\<close>, \<open>Confidence\<close>,
  \<open>Intensity\<close> (\<open>0.0 ..= 1.0\<close>) and \<open>SignedValence\<close> (\<open>-1.0 ..= 1.0\<close>).\<close>

definition bounded_scalar_new :: "f32 \<Rightarrow> f32 \<Rightarrow> f32 \<Rightarrow> f32 contract" where
  "bounded_scalar_new lo hi value = and_then (validate_finite value) (\<lambda>_.
     if f32_in_range lo hi value then Inr value else Inl ScalarOutOfRange)"

definition normalized_scalar_new :: "f32 \<Rightarrow> f32 contract" where
  "normalized_scalar_new = bounded_scalar_new f32_zero f32_one"

definition confidence_new :: "f32 \<Rightarrow> f32 contract" where
  "confidence_new = bounded_scalar_new f32_zero f32_one"

definition signed_valence_new :: "f32 \<Rightarrow> f32 contract" where
  "signed_valence_new = bounded_scalar_new f32_minus_one f32_one"

definition fixed_point_scale_new :: "u8 \<Rightarrow> u8 contract" where
  "fixed_point_scale_new fractional_bits =
     (if fractional_bits \<le> 30 then Inr fractional_bits else Inl ScalarOutOfRange)"

lemma validate_finite_Inr_iff [simp]: "validate_finite x = Inr y \<longleftrightarrow> f32_is_finite x \<and> y = x"
  by (auto simp: validate_finite_def)

lemma bounded_scalar_new_Inr_iff [simp]:
  "bounded_scalar_new lo hi v = Inr w \<longleftrightarrow> f32_is_finite v \<and> f32_in_range lo hi v \<and> w = v"
  by (auto simp: bounded_scalar_new_def)

section \<open>Geometry (math.rs)\<close>

record Vec3f =
  v3_x :: f32
  v3_y :: f32
  v3_z :: f32

record Quatf =
  q_x :: f32
  q_y :: f32
  q_z :: f32
  q_w :: f32

record Aabb =
  aabb_min :: Vec3f
  aabb_max :: Vec3f

record Pose =
  pose_translation :: Vec3f
  pose_rotation :: Quatf

record Velocity =
  vel_linear :: Vec3f
  vel_angular :: Vec3f

definition vec3f_to_array :: "Vec3f \<Rightarrow> f32 list" where
  "vec3f_to_array v = [v3_x v, v3_y v, v3_z v]"

definition vec3f_validate :: "Vec3f \<Rightarrow> Vec3f contract" where
  "vec3f_validate v = and_then (validate_finite_slice (vec3f_to_array v)) (\<lambda>_. Inr v)"

definition quatf_validate :: "Quatf \<Rightarrow> Quatf contract" where
  "quatf_validate q =
     and_then (validate_finite_slice [q_x q, q_y q, q_z q, q_w q]) (\<lambda>_.
       if f32_eq (q_x q) f32_zero \<and> f32_eq (q_y q) f32_zero \<and> f32_eq (q_z q) f32_zero
          \<and> f32_eq (q_w q) f32_zero
       then Inl ScalarOutOfRange else Inr q)"

definition aabb_new :: "Vec3f \<Rightarrow> Vec3f \<Rightarrow> Aabb contract" where
  "aabb_new lo hi =
     and_then (vec3f_validate lo) (\<lambda>_. and_then (vec3f_validate hi) (\<lambda>_.
       if f32_le (v3_x lo) (v3_x hi) \<and> f32_le (v3_y lo) (v3_y hi) \<and> f32_le (v3_z lo) (v3_z hi)
       then Inr \<lparr>aabb_min = lo, aabb_max = hi\<rparr> else Inl InvalidBounds))"

definition pose_validate :: "Pose \<Rightarrow> Pose contract" where
  "pose_validate p =
     and_then (vec3f_validate (pose_translation p)) (\<lambda>_.
       and_then (quatf_validate (pose_rotation p)) (\<lambda>_. Inr p))"

definition velocity_validate :: "Velocity \<Rightarrow> Velocity contract" where
  "velocity_validate v =
     and_then (vec3f_validate (vel_linear v)) (\<lambda>_.
       and_then (vec3f_validate (vel_angular v)) (\<lambda>_. Inr v))"

end
