(* ===== verification/Digest.thy ===== *)
theory Digest
  imports Contracts
begin

text \<open>
  \<open>crates/alife_core/src/canonical_digest.rs\<close>: a builder appends tagged little-endian fields to a
  byte buffer; \<open>finish256\<close> folds the buffer, eight bytes at a time, through four \<open>splitmix64\<close> streams
  and closes each with the length. The locale \<open>sealed_record\<close> is the contract the callers share: a
  record that carries the digest of its other fields, which validation recomputes.
\<close>

type_synonym digest4 = "u64 \<times> u64 \<times> u64 \<times> u64"
type_synonym bytes = "u8 list"
type_synonym i8 = "8 word"
type_synonym i64 = "64 word"
type_synonym f64 = "64 word"

abbreviation zero4 :: digest4 where "zero4 \<equiv> (0, 0, 0, 0)"

section \<open>Little-endian bytes\<close>

definition le_bytes :: "nat \<Rightarrow> 'a::len word \<Rightarrow> bytes" where
  "le_bytes n w = map (\<lambda>i. ucast (drop_bit (8 * i) w)) [0..<n]"

fun from_le_bytes :: "bytes \<Rightarrow> u64" where
  "from_le_bytes [] = 0"
| "from_le_bytes (b # bs) = ucast b OR push_bit 8 (from_le_bytes bs)"

lemma length_le_bytes [simp]: "length (le_bytes n w) = n"
  by (simp add: le_bytes_def)

section \<open>Reading little-endian bytes back\<close>

fun nat_value :: "nat list \<Rightarrow> nat" where
  "nat_value [] = 0"
| "nat_value (b # bs) = b + 256 * nat_value bs"

fun nat_le :: "nat \<Rightarrow> nat \<Rightarrow> nat list" where
  "nat_le 0 k = []"
| "nat_le (Suc n) k = (k mod 256) # nat_le n (k div 256)"

lemma unat_u8_bound: "unat (b :: u8) < 256"
  using unsigned_less [of b] by simp

lemma nat_value_bound: "nat_value (map unat (bs :: bytes)) < 256 ^ length bs"
proof (induction bs)
  case Nil
  show ?case by simp
next
  case (Cons b bs)
  have "unat b + 256 * nat_value (map unat bs) < 256 * (nat_value (map unat bs) + 1)"
    using unat_u8_bound [of b] by simp
  also have "\<dots> \<le> 256 * 256 ^ length bs" using Cons.IH by simp
  finally show ?case by simp
qed

lemma unat_from_le_bytes:
  "length bs \<le> 8 \<Longrightarrow> unat (from_le_bytes bs) = nat_value (map unat bs)"
proof (induction bs)
  case Nil
  show ?case by simp
next
  case (Cons b bs)
  let ?r = "from_le_bytes bs"
  have IH: "unat ?r = nat_value (map unat bs)" using Cons by simp
  have "nat_value (map unat bs) < 256 ^ length bs" by (rule nat_value_bound)
  also have "(256::nat) ^ length bs \<le> 256 ^ 7" using Cons.prems by (intro power_increasing) simp_all
  finally have small: "unat ?r < 2 ^ 56" using IH by simp
  have push: "unat (push_bit 8 ?r) = 256 * unat ?r"
    using small by (simp add: push_bit_eq_mult unat_word_ariths)
  have disj: "(ucast b :: u64) AND push_bit 8 ?r = 0"
    by (rule bit_word_eqI) (auto simp: bit_simps dest: bit_imp_le_length)
  have "unat ((ucast b :: u64) OR push_bit 8 ?r) = unat ((ucast b :: u64) + push_bit 8 ?r)"
    using disj by (simp add: disjunctive_add_eq_or)
  also have "\<dots> = unat b + 256 * unat ?r"
    using small unat_u8_bound [of b]
    by (simp add: unat_word_ariths push unsigned_ucast_eq take_bit_nat_eq_self)
  finally show ?case by (simp add: IH)
qed

lemma nat_le_alt: "nat_le n k = map (\<lambda>i. k div 256 ^ i mod 256) [0..<n]"
proof (induction n arbitrary: k)
  case 0
  show ?case by simp
next
  case (Suc n)
  have "map (\<lambda>i. k div 256 ^ i mod 256) [0..<Suc n]
      = (k mod 256) # map (\<lambda>i. k div 256 ^ Suc i mod 256) [0..<n]"
    by (simp add: upt_conv_Cons map_Suc_upt [symmetric] del: upt_Suc)
  also have "map (\<lambda>i. k div 256 ^ Suc i mod 256) [0..<n] = nat_le n (k div 256)"
    by (simp add: Suc.IH div_mult2_eq)
  finally show ?case by simp
qed

lemma map_unat_le_bytes: "map unat (le_bytes n w) = nat_le n (unat w)"
proof -
  have "unat (ucast (drop_bit (8 * i) w) :: u8) = unat w div 256 ^ i mod 256" for i
  proof -
    have "unat (drop_bit (8 * i) w) = unat w div 2 ^ (8 * i)"
      unfolding drop_bit_eq_div [symmetric]
      by (simp add: unsigned_drop_bit_eq take_bit_nat_eq_self)
    also have "(2::nat) ^ (8 * i) = 256 ^ i" by (simp add: power_mult)
    finally show ?thesis by (simp add: unsigned_ucast_eq take_bit_eq_mod)
  qed
  then show ?thesis by (simp add: le_bytes_def nat_le_alt)
qed

lemma nat_value_nat_le: "nat_value (nat_le n k) = k mod 256 ^ n"
proof (induction n arbitrary: k)
  case 0
  show ?case by simp
next
  case (Suc n)
  have "k mod 256 + 256 * (k div 256 mod 256 ^ n) = k mod (256 * 256 ^ n)"
    by (simp add: mod_mult2_eq)
  then show ?case by (simp add: Suc.IH)
qed

lemma le_bytes_inj:
  fixes v w :: "'a::len word"
  assumes "LENGTH('a) \<le> 8 * n" and "le_bytes n v = le_bytes n w"
  shows "v = w"
proof -
  have pow: "(256::nat) ^ n = 2 ^ (8 * n)" by (simp add: power_mult)
  have big: "unat x < 256 ^ n" for x :: "'a word"
    using unsigned_less [of x] assms(1) unfolding pow
    by (meson less_le_trans one_le_numeral power_increasing)
  have "nat_value (nat_le n (unat v)) = nat_value (nat_le n (unat w))"
    using assms(2) by (metis map_unat_le_bytes)
  then have "unat v = unat w" using big [of v] big [of w] by (simp add: nat_value_nat_le)
  then show ?thesis by (simp add: word_unat_eq_iff)
qed

lemma from_le_bytes_le_bytes: "from_le_bytes (le_bytes 8 w) = w"
proof -
  have "unat (from_le_bytes (le_bytes 8 w)) = unat w"
    using unsigned_less [where 'a=nat, of w]
    by (simp add: unat_from_le_bytes map_unat_le_bytes nat_value_nat_le)
  then show ?thesis by (simp add: word_unat_eq_iff)
qed

section \<open>The builder\<close>

definition write_raw_len :: "nat \<Rightarrow> bytes \<Rightarrow> bytes" where
  "write_raw_len len bs = bs @ le_bytes 8 (word_of_nat len :: u64)"

definition digest_new :: "bytes \<Rightarrow> bytes" where
  "digest_new domain = write_raw_len (length domain) [0xd0] @ domain"

definition write_bool :: "bool \<Rightarrow> bytes \<Rightarrow> bytes" where
  "write_bool v bs = bs @ [0x01, (if v then 1 else 0)]"

definition write_u8 :: "u8 \<Rightarrow> bytes \<Rightarrow> bytes" where
  "write_u8 v bs = bs @ [0x02, v]"

definition write_u16 :: "u16 \<Rightarrow> bytes \<Rightarrow> bytes" where
  "write_u16 v bs = bs @ 0x03 # le_bytes 2 v"

definition write_u32 :: "u32 \<Rightarrow> bytes \<Rightarrow> bytes" where
  "write_u32 v bs = bs @ 0x04 # le_bytes 4 v"

definition write_u64 :: "u64 \<Rightarrow> bytes \<Rightarrow> bytes" where
  "write_u64 v bs = bs @ 0x05 # le_bytes 8 v"

definition write_i8 :: "i8 \<Rightarrow> bytes \<Rightarrow> bytes" where
  "write_i8 v bs = bs @ [0x06, v]"

definition write_i16 :: "i16 \<Rightarrow> bytes \<Rightarrow> bytes" where
  "write_i16 v bs = bs @ 0x07 # le_bytes 2 v"

definition write_i32 :: "i32 \<Rightarrow> bytes \<Rightarrow> bytes" where
  "write_i32 v bs = bs @ 0x08 # le_bytes 4 v"

definition write_i64 :: "i64 \<Rightarrow> bytes \<Rightarrow> bytes" where
  "write_i64 v bs = bs @ 0x09 # le_bytes 8 v"

definition write_f32 :: "f32 \<Rightarrow> bytes \<Rightarrow> bytes contract" where
  "write_f32 v bs =
     (if \<not> f32_is_finite v then Inl NonFiniteFloat
      else Inr (bs @ 0x0a # le_bytes 4 (if f32_eq v f32_zero then 0 else v)))"

text \<open>
  \<open>f64\<close> as the 64-bit pattern of \<open>f64::to_bits\<close>: eleven exponent bits and 52 fraction bits under the sign. It
  is finite when the exponent is not all ones, and equals zero when no bit under the sign is set.
\<close>

definition f64_is_finite :: "f64 \<Rightarrow> bool" where
  "f64_is_finite v \<longleftrightarrow> drop_bit 52 v AND 2047 \<noteq> 2047"

definition f64_is_zero :: "f64 \<Rightarrow> bool" where
  "f64_is_zero v \<longleftrightarrow> v = 0 \<or> v = 0x8000000000000000"

definition write_f64 :: "f64 \<Rightarrow> bytes \<Rightarrow> bytes contract" where
  "write_f64 v bs =
     (if \<not> f64_is_finite v then Inl NonFiniteFloat
      else Inr (bs @ 0x0b # le_bytes 8 (if f64_is_zero v then 0 else v)))"

definition write_bytes :: "bytes \<Rightarrow> bytes \<Rightarrow> bytes" where
  "write_bytes v bs = write_raw_len (length v) (bs @ [0x0c]) @ v"

definition write_utf8 :: "bytes \<Rightarrow> bytes \<Rightarrow> bytes" where
  "write_utf8 v bs = write_raw_len (length v) (bs @ [0x10]) @ v"

definition write_sequence_len :: "nat \<Rightarrow> bytes \<Rightarrow> bytes" where
  "write_sequence_len len bs = write_raw_len len (bs @ [0x0d])"

definition write_none :: "bytes \<Rightarrow> bytes" where
  "write_none bs = bs @ [0x0e]"

definition write_some :: "bytes \<Rightarrow> bytes" where
  "write_some bs = bs @ [0x0f]"

text \<open>The helper \<open>write_digest\<close> / \<open>write_digest4\<close> that several callers define: four \<open>u64\<close>s.\<close>

definition write_digest4 :: "digest4 \<Rightarrow> bytes \<Rightarrow> bytes" where
  "write_digest4 d bs =
     (case d of (a, b, c, e) \<Rightarrow> write_u64 e (write_u64 c (write_u64 b (write_u64 a bs))))"

section \<open>Finishing\<close>

definition splitmix64 :: "u64 \<Rightarrow> u64" where
  "splitmix64 value =
     (let v1 = value + 0x9e3779b97f4a7c15;
          v2 = (v1 XOR drop_bit 30 v1) * 0xbf58476d1ce4e5b9;
          v3 = (v2 XOR drop_bit 27 v2) * 0x94d049bb133111eb
      in v3 XOR drop_bit 31 v3)"

text \<open>\<open>chunks(8)\<close>, each chunk padded with zeros and read as a little-endian word.\<close>

fun le_words :: "bytes \<Rightarrow> u64 list" where
  "le_words (a # b # c # d # e # f # g # h # rest) =
     from_le_bytes [a, b, c, d, e, f, g, h] # le_words rest"
| "le_words [] = []"
| "le_words short = [from_le_bytes short]"

definition digest_stream :: "u64 list \<Rightarrow> u64 \<Rightarrow> u64" where
  "digest_stream ws seed = fold (\<lambda>w s. splitmix64 (s XOR w)) ws seed"

definition finish256 :: "bytes \<Rightarrow> digest4" where
  "finish256 bs =
     (let ws = le_words bs;
          length_word = word_of_nat (length bs) XOR 0xf1a1d165e57a0000;
          finish = (\<lambda>seed. splitmix64 (digest_stream ws seed XOR length_word))
      in (finish 0xa11fea7ed00d0001, finish 0xc0decafe51a70002,
          finish 0x9e3779b97f4a7c15, finish 0xd1b54a32d192ed03))"

definition finish128 :: "bytes \<Rightarrow> u64 \<times> u64" where
  "finish128 bs = (case finish256 bs of (a, b, _, _) \<Rightarrow> (a, b))"

section \<open>Records that carry their own digest\<close>

locale sealed_record =
  fixes digest_of :: "'r \<Rightarrow> digest4"
    and with_digest :: "digest4 \<Rightarrow> 'r \<Rightarrow> 'r"
    and recompute :: "'r \<Rightarrow> digest4 contract"
    and accepts :: "'r \<Rightarrow> bool"
  assumes digest_of_with: "digest_of (with_digest d r) = d"
    and with_digest_same: "with_digest (digest_of r) r = r"
    and with_digest_again: "with_digest d (with_digest e r) = with_digest d r"
    and recompute_ignores_seal: "recompute (with_digest d r) = recompute r"
    and accepts_sealed: "accepts r \<Longrightarrow> recompute r = Inr (digest_of r)"
begin

lemma seal_unique: "accepts r \<Longrightarrow> accepts (with_digest d r) \<Longrightarrow> d = digest_of r"
  using accepts_sealed [of r] accepts_sealed [of "with_digest d r"]
  by (simp add: digest_of_with recompute_ignores_seal)

lemma resealed_is_same: "accepts r \<Longrightarrow> recompute r = Inr d \<Longrightarrow> with_digest d r = r"
  using accepts_sealed [of r] with_digest_same [of r] by simp

lemma forged_seal_rejected: "accepts r \<Longrightarrow> d \<noteq> digest_of r \<Longrightarrow> \<not> accepts (with_digest d r)"
  using seal_unique by blast

end

end
