(* ===== verification/Digest_Encoding.thy ===== *)
theory Digest_Encoding
  imports Digest
begin

text \<open>
  What the builder of \<^theory_text>\<open>Digest\<close> guarantees about its bytes: a sequence of typed writes after a
  domain can be read back, so two different sequences never feed the same bytes to the hash. The
  second part evaluates digests on natural numbers, where the simplifier computes quickly.
\<close>

section \<open>Unique readability\<close>

datatype digest_field =
    F_bool bool | F_u8 u8 | F_u16 u16 | F_u32 u32 | F_u64 u64 | F_i8 i8 | F_i16 i16 | F_i32 i32
  | F_i64 i64 | F_f32 f32 | F_f64 f64 | F_bytes bytes | F_utf8 bytes | F_sequence_len nat | F_none | F_some

text \<open>One call of the builder. A float that is not finite is refused, so nothing is written.\<close>

fun write_field :: "digest_field \<Rightarrow> bytes \<Rightarrow> bytes contract" where
  "write_field (F_bool v) bs = Inr (write_bool v bs)"
| "write_field (F_u8 v) bs = Inr (write_u8 v bs)"
| "write_field (F_u16 v) bs = Inr (write_u16 v bs)"
| "write_field (F_u32 v) bs = Inr (write_u32 v bs)"
| "write_field (F_u64 v) bs = Inr (write_u64 v bs)"
| "write_field (F_i8 v) bs = Inr (write_i8 v bs)"
| "write_field (F_i16 v) bs = Inr (write_i16 v bs)"
| "write_field (F_i32 v) bs = Inr (write_i32 v bs)"
| "write_field (F_i64 v) bs = Inr (write_i64 v bs)"
| "write_field (F_f32 v) bs = write_f32 v bs"
| "write_field (F_f64 v) bs = write_f64 v bs"
| "write_field (F_bytes v) bs = Inr (write_bytes v bs)"
| "write_field (F_utf8 v) bs = Inr (write_utf8 v bs)"
| "write_field (F_sequence_len n) bs = Inr (write_sequence_len n bs)"
| "write_field F_none bs = Inr (write_none bs)"
| "write_field F_some bs = Inr (write_some bs)"

fun write_fields :: "digest_field list \<Rightarrow> bytes \<Rightarrow> bytes contract" where
  "write_fields [] bs = Inr bs"
| "write_fields (f # fs) bs = and_then (write_field f bs) (write_fields fs)"

text \<open>
  Lengths are \<open>usize\<close>, below \<open>2 ^ 64\<close>. The two zeros of a float type are one value to the builder: a field
  stands for its canonical form, in which a zero is the positive one.
\<close>

fun field_ok :: "digest_field \<Rightarrow> bool" where
  "field_ok (F_bytes v) = (length v < 2 ^ 64)"
| "field_ok (F_utf8 v) = (length v < 2 ^ 64)"
| "field_ok (F_sequence_len n) = (n < 2 ^ 64)"
| "field_ok _ = True"

fun canonical_field :: "digest_field \<Rightarrow> digest_field" where
  "canonical_field (F_f32 v) = F_f32 (if f32_eq v f32_zero then 0 else v)"
| "canonical_field (F_f64 v) = F_f64 (if f64_is_zero v then 0 else v)"
| "canonical_field f = f"

fun field_bytes :: "digest_field \<Rightarrow> bytes" where
  "field_bytes (F_bool v) = [0x01, (if v then 1 else 0)]"
| "field_bytes (F_u8 v) = [0x02, v]"
| "field_bytes (F_u16 v) = 0x03 # le_bytes 2 v"
| "field_bytes (F_u32 v) = 0x04 # le_bytes 4 v"
| "field_bytes (F_u64 v) = 0x05 # le_bytes 8 v"
| "field_bytes (F_i8 v) = [0x06, v]"
| "field_bytes (F_i16 v) = 0x07 # le_bytes 2 v"
| "field_bytes (F_i32 v) = 0x08 # le_bytes 4 v"
| "field_bytes (F_i64 v) = 0x09 # le_bytes 8 v"
| "field_bytes (F_f32 v) = 0x0a # le_bytes 4 (if f32_eq v f32_zero then 0 else v)"
| "field_bytes (F_f64 v) = 0x0b # le_bytes 8 (if f64_is_zero v then 0 else v)"
| "field_bytes (F_bytes v) = 0x0c # le_bytes 8 (word_of_nat (length v) :: u64) @ v"
| "field_bytes (F_utf8 v) = 0x10 # le_bytes 8 (word_of_nat (length v) :: u64) @ v"
| "field_bytes (F_sequence_len n) = 0x0d # le_bytes 8 (word_of_nat n :: u64)"
| "field_bytes F_none = [0x0e]"
| "field_bytes F_some = [0x0f]"

lemmas writer_defs =
  write_bool_def write_u8_def write_u16_def write_u32_def write_u64_def write_i8_def write_i16_def
  write_i32_def write_i64_def write_f32_def write_f64_def write_bytes_def write_utf8_def write_sequence_len_def write_none_def write_some_def
  write_raw_len_def

lemma write_field_Inr: "write_field f bs = Inr cs \<Longrightarrow> cs = bs @ field_bytes f"
  by (cases f) (auto simp: writer_defs split: if_splits)

lemma write_fields_Inr: "write_fields fs bs = Inr cs \<Longrightarrow> cs = bs @ concat (map field_bytes fs)"
proof (induction fs arbitrary: bs)
  case Nil
  then show ?case by simp
next
  case (Cons f fs)
  then obtain b where "write_field f bs = Inr b" and "write_fields fs b = Inr cs" by auto
  with Cons.IH [of b] show ?case by (simp add: write_field_Inr)
qed

lemma field_bytes_nonempty: "field_bytes f \<noteq> []"
  by (cases f) simp_all

lemma le_bytes_eq_iff [simp]:
  "le_bytes 2 (h :: u16) = le_bytes 2 k \<longleftrightarrow> h = k"
  "le_bytes 4 (v :: u32) = le_bytes 4 w \<longleftrightarrow> v = w"
  "le_bytes 8 (x :: u64) = le_bytes 8 y \<longleftrightarrow> x = y"
  by (auto intro: le_bytes_inj [rotated])

lemma word_of_len_eq:
  assumes "m < 18446744073709551616" and "n < 18446744073709551616"
  shows "(word_of_nat m :: u64) = word_of_nat n \<longleftrightarrow> m = n"
proof
  assume "(word_of_nat m :: u64) = word_of_nat n"
  then have "unat (word_of_nat m :: u64) = unat (word_of_nat n :: u64)" by simp
  with assms show "m = n" by (simp add: unat_of_nat)
qed simp

lemma framed_inj:
  assumes "length v < 2 ^ 64" and "length w < 2 ^ 64"
    and "le_bytes 8 (word_of_nat (length v) :: u64) @ v @ r
       = le_bytes 8 (word_of_nat (length w) :: u64) @ w @ s"
  shows "v = w \<and> r = s"
proof -
  have "(word_of_nat (length v) :: u64) = word_of_nat (length w)" and rest: "v @ r = w @ s"
    using assms(3) by (simp_all add: append_eq_append_conv)
  then have "length v = length w" using assms(1,2) by (simp add: word_of_len_eq)
  with rest show ?thesis by simp
qed

lemma field_bytes_prefix_free:
  assumes "field_ok f" and "field_ok g" and "field_bytes f @ r = field_bytes g @ s"
  shows "canonical_field f = canonical_field g \<and> r = s"
proof (cases f)
  case (F_bytes v)
  with assms(3) obtain w where g: "g = F_bytes w" by (cases g) (simp_all)
  with F_bytes assms framed_inj [of v w r s] show ?thesis by simp
next
  case (F_utf8 v)
  with assms(3) obtain w where g: "g = F_utf8 w" by (cases g) (simp_all)
  with F_utf8 assms framed_inj [of v w r s] show ?thesis by simp
next
  case (F_sequence_len v)
  with assms(3) obtain w where g: "g = F_sequence_len w" by (cases g) (simp_all)
  with F_sequence_len assms show ?thesis by (simp add: word_of_len_eq)
next
  case (F_f32 v)
  with assms(3) obtain w where g: "g = F_f32 w" by (cases g) (simp_all)
  with F_f32 assms show ?thesis by simp
next
  case (F_f64 v)
  with assms(3) obtain w where g: "g = F_f64 w" by (cases g) (simp_all)
  with F_f64 assms show ?thesis by simp
qed (use assms in \<open>cases g; simp split: if_splits\<close>)+

lemma field_sequence_inj:
  assumes "list_all field_ok fs" and "list_all field_ok gs"
    and "concat (map field_bytes fs) = concat (map field_bytes gs)"
  shows "map canonical_field fs = map canonical_field gs"
  using assms
proof (induction fs arbitrary: gs)
  case Nil
  then show ?case by (cases gs) (simp_all add: field_bytes_nonempty)
next
  case (Cons f fs)
  obtain g gs' where gs: "gs = g # gs'"
    using Cons.prems(3) by (cases gs) (simp_all add: field_bytes_nonempty)
  have "canonical_field f = canonical_field g \<and> concat (map field_bytes fs) = concat (map field_bytes gs')"
    using Cons.prems by (intro field_bytes_prefix_free) (simp_all add: gs)
  with Cons.prems(1,2) Cons.IH [of gs'] show ?case by (simp add: gs)
qed

lemma canonical_field_bytes: "field_bytes (canonical_field f) = field_bytes f"
  by (cases f) (simp_all add: f32_eq_def f64_is_zero_def)

text \<open>
  C1. The bytes a caller hashes are the call: two builders hold the same bytes exactly when they were given the
  same domain and the same sequence of typed values, up to the sign of a zero float. So distinct records are
  never hashed as the same message (what remains is the hash function's own collisions), and equal ones always
  are.
\<close>

theorem canonical_bytes_unambiguous:
  assumes "length dom1 < 2 ^ 64" and "length dom2 < 2 ^ 64"
    and "list_all field_ok fs" and "list_all field_ok gs"
    and "write_fields fs (digest_new dom1) = Inr bs"
    and "write_fields gs (digest_new dom2) = Inr cs"
  shows "bs = cs \<longleftrightarrow> dom1 = dom2 \<and> map canonical_field fs = map canonical_field gs"
proof -
  have bs: "bs = digest_new dom1 @ concat (map field_bytes fs)"
    and cs: "cs = digest_new dom2 @ concat (map field_bytes gs)"
    using assms(5,6) by (auto dest: write_fields_Inr)
  have same: "concat (map field_bytes fs) = concat (map field_bytes gs)"
    if "map canonical_field fs = map canonical_field gs"
  proof -
    have "map field_bytes (map canonical_field fs) = map field_bytes (map canonical_field gs)" using that by simp
    then show ?thesis by (simp add: comp_def canonical_field_bytes)
  qed
  have "dom1 = dom2 \<and> concat (map field_bytes fs) = concat (map field_bytes gs)" if "bs = cs"
  proof -
    have "le_bytes 8 (word_of_nat (length dom1) :: u64) @ dom1 @ concat (map field_bytes fs)
        = le_bytes 8 (word_of_nat (length dom2) :: u64) @ dom2 @ concat (map field_bytes gs)"
      using that unfolding bs cs by (simp add: digest_new_def write_raw_len_def)
    then show ?thesis using assms(1,2) framed_inj by metis
  qed
  then show ?thesis using same field_sequence_inj [OF assms(3,4)] unfolding bs cs by blast
qed

theorem canonical_bytes_unambiguous_witness:
  "write_fields [F_i8 7, F_f32 0x80000000, F_bool True] (digest_new [65]) = write_fields [F_i8 7, F_f32 0, F_bool True] (digest_new [65])
   \<and> write_fields [F_i8 7, F_f64 0, F_bool True] (digest_new [65]) \<noteq> write_fields [F_i8 7, F_f64 0, F_u8 1] (digest_new [65])"
proof -
  have fin: "f32_is_finite 0x80000000" "f32_is_finite 0" "f64_is_finite 0" "f32_eq 0x80000000 f32_zero" "f32_eq 0 f32_zero"
    by (simp_all add: f32_defs f64_is_finite_def f32_eq_def f32_zero_def)
  obtain bs cs where w: "write_fields [F_i8 7, F_f32 0x80000000, F_bool True] (digest_new [65]) = Inr bs"
    "write_fields [F_i8 7, F_f32 0, F_bool True] (digest_new [65]) = Inr cs" by (simp add: write_f32_def fin)
  obtain ds es where v: "write_fields [F_i8 7, F_f64 0, F_bool True] (digest_new [65]) = Inr ds"
    "write_fields [F_i8 7, F_f64 0, F_u8 1] (digest_new [65]) = Inr es" by (simp add: write_f64_def fin)
  have "bs = cs" using canonical_bytes_unambiguous [OF _ _ _ _ w] by (simp add: fin)
  moreover have "ds \<noteq> es" using canonical_bytes_unambiguous [OF _ _ _ _ v] by simp
  ultimately show ?thesis unfolding w v by simp
qed

section \<open>Digests by natural-number arithmetic\<close>

text \<open>
  The simplifier computes with numerals of type \<open>nat\<close> much faster than with words, so the streams
  are carried over to \<open>nat\<close>: these equations evaluate a digest of a concrete record in the kernel.
\<close>

definition sm_add :: "nat \<Rightarrow> nat" where "sm_add n = (n + 0x9e3779b97f4a7c15) mod 0x10000000000000000"

definition sm_mul1 :: "nat \<Rightarrow> nat" where
  "sm_mul1 n = ((n XOR (n div 0x40000000)) * 0xbf58476d1ce4e5b9) mod 0x10000000000000000"

definition sm_mul2 :: "nat \<Rightarrow> nat" where
  "sm_mul2 n = ((n XOR (n div 0x8000000)) * 0x94d049bb133111eb) mod 0x10000000000000000"

definition sm_end :: "nat \<Rightarrow> nat" where "sm_end n = n XOR (n div 0x80000000)"

definition nat_splitmix :: "nat \<Rightarrow> nat" where "nat_splitmix n = sm_end (sm_mul2 (sm_mul1 (sm_add n)))"

fun nat_words :: "nat list \<Rightarrow> nat list" where
  "nat_words (a # b # c # d # e # f # g # h # rest) =
     nat_value [a, b, c, d, e, f, g, h] # nat_words rest"
| "nat_words [] = []"
| "nat_words short = [nat_value short]"

fun nat_stream :: "nat list \<Rightarrow> nat \<Rightarrow> nat" where
  "nat_stream [] s = s"
| "nat_stream (w # ws) s = nat_stream ws (nat_splitmix (s XOR w))"

lemma unat_drop_bit_div: "unat (drop_bit k w) = unat w div 2 ^ k"
  unfolding drop_bit_eq_div [symmetric] by (simp add: unsigned_drop_bit_eq take_bit_nat_eq_self)

lemma unat_splitmix64: "unat (splitmix64 v) = nat_splitmix (unat v)"
proof -
  have add: "unat (x + 0x9e3779b97f4a7c15 :: u64) = sm_add (unat x)" for x
    by (simp add: sm_add_def unat_word_ariths)
  have mul1: "unat ((x XOR drop_bit 30 x) * 0xbf58476d1ce4e5b9 :: u64) = sm_mul1 (unat x)" for x
    by (simp add: sm_mul1_def unat_word_ariths unsigned_xor_eq unat_drop_bit_div)
  have mul2: "unat ((x XOR drop_bit 27 x) * 0x94d049bb133111eb :: u64) = sm_mul2 (unat x)" for x
    by (simp add: sm_mul2_def unat_word_ariths unsigned_xor_eq unat_drop_bit_div)
  have fin: "unat (x XOR drop_bit 31 x :: u64) = sm_end (unat x)" for x
    by (simp add: sm_end_def unsigned_xor_eq unat_drop_bit_div)
  show ?thesis by (simp only: splitmix64_def nat_splitmix_def Let_def add mul1 mul2 fin)
qed

lemma unat_digest_stream: "unat (digest_stream ws seed) = nat_stream (map unat ws) (unat seed)"
  by (induction ws arbitrary: seed)
    (simp_all add: digest_stream_def unat_splitmix64 unsigned_xor_eq)

lemma map_unat_le_words: "map unat (le_words bs) = nat_words (map unat bs)"
  by (induction bs rule: le_words.induct) (simp_all add: unat_from_le_bytes del: from_le_bytes.simps)

lemma unat_finish_first:
  assumes "length bs < 0x10000000000000000"
  shows "unat (fst (finish256 bs)) = nat_splitmix (nat_stream (nat_words (map unat bs)) 0xa11fea7ed00d0001
      XOR (length bs XOR 0xf1a1d165e57a0000))"
proof -
  have "unat (word_of_nat (length bs) :: u64) = length bs" using assms by (simp add: unat_of_nat)
  then show ?thesis
    by (simp add: finish256_def Let_def unat_splitmix64 unsigned_xor_eq unat_digest_stream
        map_unat_le_words)
qed

lemma finish256_nonzero:
  assumes "length bs < 0x10000000000000000"
    and "nat_splitmix (nat_stream (nat_words (map unat bs)) 0xa11fea7ed00d0001
      XOR (length bs XOR 0xf1a1d165e57a0000)) \<noteq> 0"
  shows "finish256 bs \<noteq> zero4"
  using assms unat_finish_first [of bs] by (metis fst_conv unsigned_0)

text \<open>An ASCII byte string literal of the sources.\<close>

definition ascii :: "string \<Rightarrow> bytes" where
  "ascii s = map (\<lambda>c. word_of_nat (of_char c)) s"

lemma map_unat_ascii: "map unat (ascii s) = map of_char s"
  by (simp add: ascii_def unat_of_nat of_char_of)

lemma length_ascii [simp]: "length (ascii s) = length s"
  by (simp add: ascii_def)

lemma nat_le_unfold:
  "nat_le 2 k = [k mod 256, k div 256 mod 256]"
  "nat_le 4 k = [k mod 256, k div 256 mod 256, k div 65536 mod 256, k div 16777216 mod 256]"
  "nat_le 8 k = [k mod 256, k div 256 mod 256, k div 65536 mod 256, k div 16777216 mod 256,
     k div 4294967296 mod 256, k div 1099511627776 mod 256, k div 281474976710656 mod 256,
     k div 72057594037927936 mod 256]"
  by (simp_all add: nat_le_alt upt_conv_Cons)

lemmas nat_bytes_simps =
  map_append list.map map_unat_le_bytes map_unat_ascii writer_defs digest_new_def write_digest4_def

lemmas nat_digest_simps =
  nat_splitmix_def sm_add_def sm_mul1_def sm_mul2_def sm_end_def nat_le_unfold

end
