(* ===== verification/Activity.thy ===== *)
theory Activity
  imports Digest_Encoding
begin

text \<open>
  \<open>crates/alife_core/src/activity.rs\<close>: the fixed-point price of neural work, the pressure sample the
  GPU scheduler takes, the throttle decision it derives and the receipt that debits the organism's
  brain ATP. Of \<open>BrainPhenotype\<close> (phenotype/record.rs), \<open>CompiledProjection\<close> (phenotype/compiled.rs)
  and \<open>BrainExecutionBudget\<close> (phenotype/capacity.rs) the records here hold the fields this file reads.
\<close>

section \<open>Lobes, projections and the phenotype's view\<close>

datatype LobeKind =
    PerceptualIntegration | InteroceptiveMotivational | MultimodalAssociation | TemporalPredictive
  | WorkingContextExecutive | MemoryInterface | ActionPlanning | SocialCommunication
  | FlexibleReserve

datatype ProjectionType =
    FeedForward | Feedback | Recurrent | Modulatory | MotorProposal | Homeostatic
  | LateralInhibition

datatype BiologicalPriority = Essential | High | Normal | NonEssential

record CompiledProjection =
  cp_route_index :: u16
  cp_source_lobe :: LobeKind
  cp_target_lobe :: LobeKind
  cp_projection_type :: ProjectionType
  cp_priority :: BiologicalPriority

record BrainPhenotype =
  bp_brain_class_id :: u16
  bp_microstep_count :: u8
  bp_projections :: "CompiledProjection list"
  bp_phenotype_hash :: digest4

record BrainExecutionBudget =
  beb_min_microsteps :: u8
  beb_max_microsteps :: u8

section \<open>Cost model\<close>

definition BRAIN_ATP_Q16_MAX :: u32 where "BRAIN_ATP_Q16_MAX = 65535"
definition BRAIN_ATP_BASAL_DEBIT_Q16 :: u32 where "BRAIN_ATP_BASAL_DEBIT_Q16 = 655"
definition BRAIN_ATP_SLEEP_RECOVERY_Q16 :: u32 where "BRAIN_ATP_SLEEP_RECOVERY_Q16 = 2621"

record BrainWorkCounters =
  wc_microsteps :: u32
  wc_neuron_updates :: u64
  wc_tile_visits :: u64
  wc_synapse_ops :: u64
  wc_decoder_candidate_ops :: u64
  wc_memory_context_ops :: u64

record BrainAtpCostModel =
  cm_schema_version :: u16
  cm_q_fraction_bits :: u8
  cm_rounding_mode_raw :: u8
  cm_neuron_update_q24 :: u64
  cm_tile_visit_q24 :: u64
  cm_synapse_op_q24 :: u64
  cm_decoder_candidate_op_q24 :: u64
  cm_memory_context_op_q24 :: u64

definition cost_production_v1 :: BrainAtpCostModel where
  "cost_production_v1 = \<lparr>
     cm_schema_version = 1, cm_q_fraction_bits = 24, cm_rounding_mode_raw = 1,
     cm_neuron_update_q24 = 32, cm_tile_visit_q24 = 256, cm_synapse_op_q24 = 4,
     cm_decoder_candidate_op_q24 = 128, cm_memory_context_op_q24 = 64 \<rparr>"

definition cost_validate_contract :: "BrainAtpCostModel \<Rightarrow> unit contract" where
  "cost_validate_contract c =
     (if c \<noteq> cost_production_v1 then Inl BrainActivityPolicyMismatch else Inr ())"

text \<open>\<open>terms.iter().try_fold(0_u128, ...)\<close>: \<open>None\<close> as soon as a product or a sum overflows.\<close>

fun cost_try_fold :: "u128 \<Rightarrow> (u64 \<times> u64) list \<Rightarrow> u128 option" where
  "cost_try_fold acc [] = Some acc"
| "cost_try_fold acc ((count, rate) # rest) =
     Option.bind (checked_mul (ucast count) (ucast rate)) (\<lambda>product.
       Option.bind (checked_add acc product) (\<lambda>acc'. cost_try_fold acc' rest))"

definition cost_terms :: "BrainAtpCostModel \<Rightarrow> BrainWorkCounters \<Rightarrow> (u64 \<times> u64) list" where
  "cost_terms c w =
     [(wc_neuron_updates w, cm_neuron_update_q24 c),
      (wc_tile_visits w, cm_tile_visit_q24 c),
      (wc_synapse_ops w, cm_synapse_op_q24 c),
      (wc_decoder_candidate_ops w, cm_decoder_candidate_op_q24 c),
      (wc_memory_context_ops w, cm_memory_context_op_q24 c)]"

definition neural_cost_q24 :: "BrainAtpCostModel \<Rightarrow> BrainWorkCounters \<Rightarrow> u64 contract" where
  "neural_cost_q24 c w =
     and_then (cost_validate_contract c) (\<lambda>_.
       ok_or BrainActivityPolicyMismatch
         (Option.bind (cost_try_fold 0 (cost_terms c w)) try_narrow))"

definition q24_to_atp_q16_round_half_up :: "BrainAtpCostModel \<Rightarrow> u64 \<Rightarrow> u32 contract" where
  "q24_to_atp_q16_round_half_up c cost_q24 =
     and_then (cost_validate_contract c) (\<lambda>_.
     and_then (ok_or BrainActivityPolicyMismatch (checked_add cost_q24 0x80)) (\<lambda>biased.
       ok_or BrainActivityPolicyMismatch (try_narrow (drop_bit 8 biased))))"

section \<open>The policy\<close>

type_synonym 'a array3 = "'a \<times> 'a \<times> 'a"

record BrainActivityPolicyV1 =
  ap_schema_version :: u16
  ap_policy_version :: u16
  ap_cost :: BrainAtpCostModel
  ap_gpu_time_threshold_ns :: "u64 array3"
  ap_queue_depth_thresholds :: "u32 array3"
  ap_logical_heap_pressure_thresholds_q16 :: "u32 array3"
  ap_atp_remaining_thresholds_q16_desc :: "u32 array3"
  ap_policy_digest :: digest4

definition write_u64x3 :: "u64 array3 \<Rightarrow> bytes \<Rightarrow> bytes" where
  "write_u64x3 t bs = (case t of (a, b, c) \<Rightarrow> write_u64 c (write_u64 b (write_u64 a bs)))"

definition write_u32x3 :: "u32 array3 \<Rightarrow> bytes \<Rightarrow> bytes" where
  "write_u32x3 t bs = (case t of (a, b, c) \<Rightarrow> write_u32 c (write_u32 b (write_u32 a bs)))"

definition policy_bytes :: "BrainActivityPolicyV1 \<Rightarrow> bytes" where
  "policy_bytes p =
     write_u32x3 (ap_atp_remaining_thresholds_q16_desc p)
    (write_u32x3 (ap_logical_heap_pressure_thresholds_q16 p)
    (write_u32x3 (ap_queue_depth_thresholds p)
    (write_u64x3 (ap_gpu_time_threshold_ns p)
    (write_u64 (cm_memory_context_op_q24 (ap_cost p))
    (write_u64 (cm_decoder_candidate_op_q24 (ap_cost p))
    (write_u64 (cm_synapse_op_q24 (ap_cost p))
    (write_u64 (cm_tile_visit_q24 (ap_cost p))
    (write_u64 (cm_neuron_update_q24 (ap_cost p))
    (write_u8 (cm_rounding_mode_raw (ap_cost p))
    (write_u8 (cm_q_fraction_bits (ap_cost p))
    (write_u16 (cm_schema_version (ap_cost p))
    (write_u16 (ap_policy_version p)
    (write_u16 (ap_schema_version p)
    (digest_new (ascii ''alife.brain.activity.policy.v1'')))))))))))))))"

definition policy_recompute_digest :: "BrainActivityPolicyV1 \<Rightarrow> digest4" where
  "policy_recompute_digest p = finish256 (policy_bytes p)"

definition policy_production_v1 :: BrainActivityPolicyV1 where
  "policy_production_v1 =
     (let policy = \<lparr>
        ap_schema_version = 1, ap_policy_version = 1, ap_cost = cost_production_v1,
        ap_gpu_time_threshold_ns = (2000000, 4000000, 8000000),
        ap_queue_depth_thresholds = (1, 2, 4),
        ap_logical_heap_pressure_thresholds_q16 = (32768, 49152, 58982),
        ap_atp_remaining_thresholds_q16_desc = (49152, 32768, 16384),
        ap_policy_digest = zero4 \<rparr>
      in policy\<lparr>ap_policy_digest := policy_recompute_digest policy\<rparr>)"

definition policy_validate_contract :: "BrainActivityPolicyV1 \<Rightarrow> unit contract" where
  "policy_validate_contract p =
     and_then (cost_validate_contract (ap_cost p)) (\<lambda>_.
       let expected = policy_production_v1 in
       if ap_schema_version p \<noteq> 1
          \<or> ap_policy_version p \<noteq> 1
          \<or> ap_gpu_time_threshold_ns p \<noteq> ap_gpu_time_threshold_ns expected
          \<or> ap_queue_depth_thresholds p \<noteq> ap_queue_depth_thresholds expected
          \<or> ap_logical_heap_pressure_thresholds_q16 p
              \<noteq> ap_logical_heap_pressure_thresholds_q16 expected
          \<or> ap_atp_remaining_thresholds_q16_desc p
              \<noteq> ap_atp_remaining_thresholds_q16_desc expected
          \<or> ap_policy_digest p = zero4
          \<or> ap_policy_digest p \<noteq> policy_recompute_digest p
       then Inl BrainActivityPolicyMismatch else Inr ())"

section \<open>Fractions and buckets\<close>

definition q16_fraction :: "u64 \<Rightarrow> u64 \<Rightarrow> u32 contract" where
  "q16_fraction numerator denominator =
     (if denominator = 0 \<or> denominator < numerator then Inl BrainActivityPolicyMismatch
      else
        let scaled = push_bit 16 (ucast numerator :: u128) div ucast denominator
        in ok_or BrainActivityPolicyMismatch (try_narrow (min scaled 65535)))"

definition threshold_bucket :: "'a::len word \<Rightarrow> 'a word array3 \<Rightarrow> u8" where
  "threshold_bucket value t =
     (case t of (t0, t1, t2) \<Rightarrow>
        if value < t0 then 0 else if value < t1 then 1 else if value < t2 then 2 else 3)"

definition threshold_bucket_u64 :: "u64 \<Rightarrow> u64 array3 \<Rightarrow> u8" where
  "threshold_bucket_u64 = threshold_bucket"

definition threshold_bucket_u32 :: "u32 \<Rightarrow> u32 array3 \<Rightarrow> u8" where
  "threshold_bucket_u32 = threshold_bucket"

definition descending_atp_bucket :: "u32 \<Rightarrow> u32 array3 \<Rightarrow> u8" where
  "descending_atp_bucket value t =
     (case t of (t0, t1, t2) \<Rightarrow>
        if t0 \<le> value then 0 else if t1 \<le> value then 1 else if t2 \<le> value then 2 else 3)"

section \<open>Pressure samples\<close>

record BrainDispatchIdentity =
  di_organism_id_raw :: u64
  di_tick :: u64
  di_class_id_raw :: u16
  di_handle_slot :: u32
  di_handle_generation :: u32
  di_sequence_cursor :: u64
  di_dispatch_generation :: u64
  di_frame_digest :: digest4

definition identity_validate_contract :: "BrainDispatchIdentity \<Rightarrow> unit contract" where
  "identity_validate_contract i =
     (if di_organism_id_raw i = 0
         \<or> di_class_id_raw i = 0
         \<or> di_handle_generation i = 0
         \<or> di_sequence_cursor i = 0
         \<or> di_dispatch_generation i = 0
         \<or> di_frame_digest i = zero4
      then Inl BrainActivitySequenceMismatch else Inr ())"

record GpuPressureSampleInput =
  pi_identity :: BrainDispatchIdentity
  pi_source_dispatch_generation :: u64
  pi_source_frame_digest :: digest4
  pi_completed_gpu_time_ns :: u64
  pi_queue_depth :: u32
  pi_logical_heap_used :: u64
  pi_logical_heap_capacity :: u64
  pi_brain_atp_remaining_q16 :: u32
  pi_brain_atp_capacity_q16 :: u32

datatype NeuralThrottleLevel = Full | Reduced | EssentialOnly

definition throttle_raw :: "NeuralThrottleLevel \<Rightarrow> u8" where
  "throttle_raw l = (case l of Full \<Rightarrow> 0 | Reduced \<Rightarrow> 1 | EssentialOnly \<Rightarrow> 2)"

record GpuPressureSample =
  ps_schema_version :: u16
  ps_policy_version :: u16
  ps_organism_id_raw :: u64
  ps_tick :: u64
  ps_class_id_raw :: u16
  ps_handle_slot :: u32
  ps_handle_generation :: u32
  ps_sequence_cursor :: u64
  ps_source_dispatch_generation :: u64
  ps_source_frame_digest :: digest4
  ps_completed_gpu_time_ns :: u64
  ps_queue_depth :: u32
  ps_logical_heap_pressure_q16 :: u32
  ps_brain_atp_fraction_q16 :: u32
  ps_completed_gpu_time_bucket :: u16
  ps_queue_depth_bucket :: u8
  ps_neural_heap_pressure_bucket :: u8
  ps_brain_atp_bucket :: u8
  ps_sample_digest :: digest4
  ps_dispatch_generation :: u64
  ps_frame_digest :: digest4

definition sample_bytes :: "GpuPressureSample \<Rightarrow> bytes" where
  "sample_bytes s =
     write_u8 (ps_brain_atp_bucket s)
    (write_u8 (ps_neural_heap_pressure_bucket s)
    (write_u8 (ps_queue_depth_bucket s)
    (write_u16 (ps_completed_gpu_time_bucket s)
    (write_u32 (ps_brain_atp_fraction_q16 s)
    (write_u32 (ps_logical_heap_pressure_q16 s)
    (write_u32 (ps_queue_depth s)
    (write_u64 (ps_completed_gpu_time_ns s)
    (write_digest4 (ps_source_frame_digest s)
    (write_u64 (ps_source_dispatch_generation s)
    (write_digest4 (ps_frame_digest s)
    (write_u64 (ps_dispatch_generation s)
    (write_u64 (ps_sequence_cursor s)
    (write_u32 (ps_handle_generation s)
    (write_u32 (ps_handle_slot s)
    (write_u16 (ps_class_id_raw s)
    (write_u64 (ps_tick s)
    (write_u64 (ps_organism_id_raw s)
    (write_u16 (ps_policy_version s)
    (write_u16 (ps_schema_version s)
    (digest_new (ascii ''alife.brain.activity.pressure.v1'')))))))))))))))))))))"

definition sample_recompute_digest :: "GpuPressureSample \<Rightarrow> digest4" where
  "sample_recompute_digest s = finish256 (sample_bytes s)"

definition dispatch_identity :: "GpuPressureSample \<Rightarrow> BrainDispatchIdentity" where
  "dispatch_identity s = \<lparr>
     di_organism_id_raw = ps_organism_id_raw s, di_tick = ps_tick s,
     di_class_id_raw = ps_class_id_raw s, di_handle_slot = ps_handle_slot s,
     di_handle_generation = ps_handle_generation s, di_sequence_cursor = ps_sequence_cursor s,
     di_dispatch_generation = ps_dispatch_generation s, di_frame_digest = ps_frame_digest s \<rparr>"

definition throttle_level :: "GpuPressureSample \<Rightarrow> NeuralThrottleLevel" where
  "throttle_level s =
     (let m = max (max (max (ps_completed_gpu_time_bucket s) (ucast (ps_queue_depth_bucket s)))
                       (ucast (ps_neural_heap_pressure_bucket s)))
                  (ucast (ps_brain_atp_bucket s))
      in if m = 0 then Full else if m = 1 then Reduced else EssentialOnly)"

definition sample_validate_for :: "BrainActivityPolicyV1 \<Rightarrow> GpuPressureSample \<Rightarrow> unit contract" where
  "sample_validate_for policy s =
     and_then (policy_validate_contract policy) (\<lambda>_.
     and_then (identity_validate_contract (dispatch_identity s)) (\<lambda>_.
       let source_binding_valid =
         ps_source_dispatch_generation s < ps_dispatch_generation s
         \<and> (ps_source_dispatch_generation s = 0) = (ps_source_frame_digest s = zero4) in
       if ps_schema_version s \<noteq> ap_schema_version policy
          \<or> ps_policy_version s \<noteq> ap_policy_version policy
          \<or> BRAIN_ATP_Q16_MAX < ps_logical_heap_pressure_q16 s
          \<or> BRAIN_ATP_Q16_MAX < ps_brain_atp_fraction_q16 s
          \<or> ps_completed_gpu_time_bucket s
              \<noteq> ucast (threshold_bucket_u64 (ps_completed_gpu_time_ns s)
                        (ap_gpu_time_threshold_ns policy))
          \<or> ps_queue_depth_bucket s
              \<noteq> threshold_bucket_u32 (ps_queue_depth s) (ap_queue_depth_thresholds policy)
          \<or> ps_neural_heap_pressure_bucket s
              \<noteq> threshold_bucket_u32 (ps_logical_heap_pressure_q16 s)
                  (ap_logical_heap_pressure_thresholds_q16 policy)
          \<or> ps_brain_atp_bucket s
              \<noteq> descending_atp_bucket (ps_brain_atp_fraction_q16 s)
                  (ap_atp_remaining_thresholds_q16_desc policy)
          \<or> \<not> source_binding_valid
          \<or> ps_sample_digest s = zero4
          \<or> ps_sample_digest s \<noteq> sample_recompute_digest s
       then Inl BrainActivitySequenceMismatch else Inr ()))"

definition sample_try_new ::
  "BrainActivityPolicyV1 \<Rightarrow> GpuPressureSampleInput \<Rightarrow> GpuPressureSample contract" where
  "sample_try_new policy input =
     and_then (policy_validate_contract policy) (\<lambda>_.
     and_then (identity_validate_contract (pi_identity input)) (\<lambda>_.
       if pi_logical_heap_capacity input = 0
          \<or> pi_brain_atp_capacity_q16 input = 0
          \<or> pi_logical_heap_capacity input < pi_logical_heap_used input
          \<or> pi_brain_atp_capacity_q16 input < pi_brain_atp_remaining_q16 input
          \<or> di_dispatch_generation (pi_identity input) \<le> pi_source_dispatch_generation input
          \<or> (pi_source_dispatch_generation input = 0) \<noteq> (pi_source_frame_digest input = zero4)
       then Inl BrainActivitySequenceMismatch
       else
         and_then (q16_fraction (pi_logical_heap_used input) (pi_logical_heap_capacity input))
           (\<lambda>heap_q16.
         and_then (q16_fraction (ucast (pi_brain_atp_remaining_q16 input))
             (ucast (pi_brain_atp_capacity_q16 input))) (\<lambda>atp_q16.
           let sample = \<lparr>
             ps_schema_version = ap_schema_version policy,
             ps_policy_version = ap_policy_version policy,
             ps_organism_id_raw = di_organism_id_raw (pi_identity input),
             ps_tick = di_tick (pi_identity input),
             ps_class_id_raw = di_class_id_raw (pi_identity input),
             ps_handle_slot = di_handle_slot (pi_identity input),
             ps_handle_generation = di_handle_generation (pi_identity input),
             ps_sequence_cursor = di_sequence_cursor (pi_identity input),
             ps_source_dispatch_generation = pi_source_dispatch_generation input,
             ps_source_frame_digest = pi_source_frame_digest input,
             ps_completed_gpu_time_ns = pi_completed_gpu_time_ns input,
             ps_queue_depth = pi_queue_depth input,
             ps_logical_heap_pressure_q16 = heap_q16,
             ps_brain_atp_fraction_q16 = atp_q16,
             ps_completed_gpu_time_bucket =
               ucast (threshold_bucket_u64 (pi_completed_gpu_time_ns input)
                 (ap_gpu_time_threshold_ns policy)),
             ps_queue_depth_bucket =
               threshold_bucket_u32 (pi_queue_depth input) (ap_queue_depth_thresholds policy),
             ps_neural_heap_pressure_bucket =
               threshold_bucket_u32 heap_q16 (ap_logical_heap_pressure_thresholds_q16 policy),
             ps_brain_atp_bucket =
               descending_atp_bucket atp_q16 (ap_atp_remaining_thresholds_q16_desc policy),
             ps_sample_digest = zero4,
             ps_dispatch_generation = di_dispatch_generation (pi_identity input),
             ps_frame_digest = di_frame_digest (pi_identity input) \<rparr> in
           let sealed = sample\<lparr>ps_sample_digest := sample_recompute_digest sample\<rparr> in
           and_then (sample_validate_for policy sealed) (\<lambda>_. Inr sealed)))))"

end
