(* ===== verification/Throttle.thy ===== *)
theory Throttle
  imports Activity
begin

text \<open>
  The second half of \<open>crates/alife_core/src/activity.rs\<close>: from a pressure sample the scheduler derives
  which routes run and how many microsteps, and after the dispatch a receipt charges the work.
\<close>

section \<open>Throttle decisions\<close>

record NeuralThrottleDecision =
  td_schema_version :: u16
  td_policy_version :: u16
  td_organism_id_raw :: u64
  td_tick :: u64
  td_class_id_raw :: u16
  td_handle_slot :: u32
  td_handle_generation :: u32
  td_sequence_cursor :: u64
  td_dispatch_generation :: u64
  td_frame_digest :: digest4
  td_level :: NeuralThrottleLevel
  td_pressure :: GpuPressureSample
  td_microsteps :: u8
  td_enabled_route_ids :: "u16 list"
  td_pressure_digest :: digest4
  td_route_schedule_digest :: digest4
  td_policy_digest :: digest4
  td_decision_digest :: digest4

definition route_is_mandatory :: "CompiledProjection \<Rightarrow> bool" where
  "route_is_mandatory route \<longleftrightarrow>
     cp_source_lobe route \<in> {PerceptualIntegration, SocialCommunication}
     \<or> cp_source_lobe route = FlexibleReserve
     \<or> cp_target_lobe route \<in> {FlexibleReserve, ActionPlanning}
     \<or> cp_projection_type route \<in> {MotorProposal, Homeostatic, LateralInhibition}"

text \<open>\<open>ROUTE_DIGEST_SEEDS\<close>, \<open>ROUTE_DIGEST_SALTS\<close> and the FNV prime of the route schedule digest.\<close>

definition ROUTE_DIGEST_SEEDS :: "u32 list" where
  "ROUTE_DIGEST_SEEDS = [0x811c9dc5, 0x9e3779b9, 0x243f6a88, 0xb7e15163,
     0xa4093822, 0x299f31d0, 0x082efa98, 0xec4e6c89]"

definition ROUTE_DIGEST_SALTS :: "u32 list" where
  "ROUTE_DIGEST_SALTS = [0x00000000, 0x85ebca6b, 0xc2b2ae35, 0x27d4eb2f,
     0x165667b1, 0xd3a2646c, 0xfd7046c5, 0xb55a4f09]"

definition mix_route_digest_word :: "u32 \<Rightarrow> u32 list \<Rightarrow> u32 list" where
  "mix_route_digest_word word digest =
     map2 (\<lambda>value salt. ((value + salt) XOR word) * 16777619) digest ROUTE_DIGEST_SALTS"

definition digest_halves :: "digest4 \<Rightarrow> u32 list" where
  "digest_halves d = (case d of (a, b, c, e) \<Rightarrow>
     concat (map (\<lambda>w. [ucast w, ucast (drop_bit 32 w)]) [a, b, c, e]))"

definition pack_lane_pair :: "u32 list \<Rightarrow> nat \<Rightarrow> u64" where
  "pack_lane_pair digest i = ucast (digest ! i) OR push_bit 32 (ucast (digest ! Suc i))"

definition route_schedule_digest :: "BrainPhenotype \<Rightarrow> u8 \<Rightarrow> u16 list \<Rightarrow> digest4" where
  "route_schedule_digest phenotype microsteps enabled_route_ids =
     (let words = digest_halves (bp_phenotype_hash phenotype)
            @ [ucast microsteps,
               (case try_of_len (length enabled_route_ids) of Some n \<Rightarrow> n | None \<Rightarrow> - 1)]
            @ map ucast enabled_route_ids;
          digest = fold mix_route_digest_word words ROUTE_DIGEST_SEEDS
      in (pack_lane_pair digest 0, pack_lane_pair digest 2, pack_lane_pair digest 4,
          pack_lane_pair digest 6))"

definition route_schedule_digest_words :: "NeuralThrottleDecision \<Rightarrow> u32 list" where
  "route_schedule_digest_words d = digest_halves (td_route_schedule_digest d)"

text \<open>The loop over the projections: which routes a level keeps, or the policy error.\<close>

definition route_enabled :: "NeuralThrottleLevel \<Rightarrow> CompiledProjection \<Rightarrow> bool" where
  "route_enabled level route =
     (case level of
        Full \<Rightarrow> True
      | Reduced \<Rightarrow> cp_priority route \<noteq> NonEssential
      | EssentialOnly \<Rightarrow> cp_priority route = Essential \<or> route_is_mandatory route)"

fun collect_enabled_routes ::
  "NeuralThrottleLevel \<Rightarrow> CompiledProjection list \<Rightarrow> (u16 list) contract" where
  "collect_enabled_routes level [] = Inr []"
| "collect_enabled_routes level (route # rest) =
     (if route_is_mandatory route \<and> cp_priority route = NonEssential
      then Inl BrainActivityPolicyMismatch
      else and_then (collect_enabled_routes level rest) (\<lambda>ids.
        Inr (if route_enabled level route then cp_route_index route # ids else ids)))"

definition throttled_microsteps :: "NeuralThrottleLevel \<Rightarrow> u8 \<Rightarrow> u8 \<Rightarrow> u8" where
  "throttled_microsteps level configured min_microsteps =
     (case level of
        Full \<Rightarrow> configured
      | Reduced \<Rightarrow> max (saturating_sub configured 1) min_microsteps
      | EssentialOnly \<Rightarrow> min_microsteps)"

definition write_u16s :: "u16 list \<Rightarrow> bytes \<Rightarrow> bytes" where
  "write_u16s xs bs = fold write_u16 xs (write_sequence_len (length xs) bs)"

definition decision_bytes :: "NeuralThrottleDecision \<Rightarrow> bytes" where
  "decision_bytes d =
     write_digest4 (td_policy_digest d)
    (write_digest4 (td_route_schedule_digest d)
    (write_digest4 (td_pressure_digest d)
    (write_u16s (td_enabled_route_ids d)
    (write_u8 (td_microsteps d)
    (write_u8 (throttle_raw (td_level d))
    (write_digest4 (td_frame_digest d)
    (write_u64 (td_dispatch_generation d)
    (write_u64 (td_sequence_cursor d)
    (write_u32 (td_handle_generation d)
    (write_u32 (td_handle_slot d)
    (write_u16 (td_class_id_raw d)
    (write_u64 (td_tick d)
    (write_u64 (td_organism_id_raw d)
    (write_u16 (td_policy_version d)
    (write_u16 (td_schema_version d)
    (digest_new (ascii ''alife.brain.activity.decision.v1'')))))))))))))))))"

definition decision_recompute_digest :: "NeuralThrottleDecision \<Rightarrow> digest4" where
  "decision_recompute_digest d = finish256 (decision_bytes d)"

definition derive_unchecked ::
  "BrainActivityPolicyV1 \<Rightarrow> BrainPhenotype \<Rightarrow> BrainExecutionBudget \<Rightarrow> BrainDispatchIdentity
    \<Rightarrow> GpuPressureSample \<Rightarrow> NeuralThrottleDecision contract" where
  "derive_unchecked policy phenotype execution identity pressure =
     (let level = throttle_level pressure;
          min_microsteps = beb_min_microsteps execution;
          max_microsteps = beb_max_microsteps execution;
          configured = bp_microstep_count phenotype
      in if \<not> (min_microsteps \<le> configured \<and> configured \<le> max_microsteps)
         then Inl BrainActivityPolicyMismatch
         else and_then (collect_enabled_routes level (bp_projections phenotype)) (\<lambda>ids.
           let microsteps = throttled_microsteps level configured min_microsteps;
               enabled_route_ids = remdups_adj (sort ids)
           in if enabled_route_ids = [] then Inl BrainActivityPolicyMismatch
              else
                let decision = \<lparr>
                      td_schema_version = ap_schema_version policy,
                      td_policy_version = ap_policy_version policy,
                      td_organism_id_raw = di_organism_id_raw identity,
                      td_tick = di_tick identity,
                      td_class_id_raw = di_class_id_raw identity,
                      td_handle_slot = di_handle_slot identity,
                      td_handle_generation = di_handle_generation identity,
                      td_sequence_cursor = di_sequence_cursor identity,
                      td_dispatch_generation = di_dispatch_generation identity,
                      td_frame_digest = di_frame_digest identity,
                      td_level = level,
                      td_pressure = pressure,
                      td_microsteps = microsteps,
                      td_enabled_route_ids = enabled_route_ids,
                      td_pressure_digest = ps_sample_digest pressure,
                      td_route_schedule_digest =
                        route_schedule_digest phenotype microsteps enabled_route_ids,
                      td_policy_digest = ap_policy_digest policy,
                      td_decision_digest = zero4 \<rparr>;
                    sealed = decision\<lparr>td_decision_digest := decision_recompute_digest decision\<rparr>
                in if td_decision_digest sealed = zero4
                   then Inl BrainActivitySequenceMismatch else Inr sealed))"

definition decision_derive ::
  "BrainActivityPolicyV1 \<Rightarrow> BrainPhenotype \<Rightarrow> BrainExecutionBudget \<Rightarrow> BrainDispatchIdentity
    \<Rightarrow> GpuPressureSample \<Rightarrow> NeuralThrottleDecision contract" where
  "decision_derive policy phenotype execution identity pressure =
     and_then (policy_validate_contract policy) (\<lambda>_.
     and_then (sample_validate_for policy pressure) (\<lambda>_.
       if identity \<noteq> dispatch_identity pressure
          \<or> di_class_id_raw identity \<noteq> bp_brain_class_id phenotype
       then Inl BrainActivitySequenceMismatch
       else derive_unchecked policy phenotype execution identity pressure))"

definition decision_identity :: "NeuralThrottleDecision \<Rightarrow> BrainDispatchIdentity" where
  "decision_identity d = \<lparr>
     di_organism_id_raw = td_organism_id_raw d, di_tick = td_tick d,
     di_class_id_raw = td_class_id_raw d, di_handle_slot = td_handle_slot d,
     di_handle_generation = td_handle_generation d, di_sequence_cursor = td_sequence_cursor d,
     di_dispatch_generation = td_dispatch_generation d, di_frame_digest = td_frame_digest d \<rparr>"

definition decision_validate_for ::
  "NeuralThrottleDecision \<Rightarrow> BrainPhenotype \<Rightarrow> BrainExecutionBudget \<Rightarrow> unit contract" where
  "decision_validate_for d phenotype execution =
     (let policy = policy_production_v1 in
      and_then (sample_validate_for policy (td_pressure d)) (\<lambda>_.
      let identity = decision_identity d in
      and_then (identity_validate_contract identity) (\<lambda>_.
      and_then (derive_unchecked policy phenotype execution identity (td_pressure d)) (\<lambda>expected.
        if td_schema_version d \<noteq> ap_schema_version policy
           \<or> td_policy_version d \<noteq> ap_policy_version policy
           \<or> td_class_id_raw d \<noteq> bp_brain_class_id phenotype
           \<or> dispatch_identity (td_pressure d) \<noteq> identity
           \<or> td_pressure_digest d \<noteq> ps_sample_digest (td_pressure d)
           \<or> td_policy_digest d \<noteq> ap_policy_digest policy
           \<or> td_level d \<noteq> td_level expected
           \<or> td_microsteps d \<noteq> td_microsteps expected
           \<or> td_enabled_route_ids d \<noteq> td_enabled_route_ids expected
           \<or> td_route_schedule_digest d \<noteq> td_route_schedule_digest expected
           \<or> td_decision_digest d = zero4
           \<or> td_decision_digest d \<noteq> decision_recompute_digest d
        then Inl BrainActivitySequenceMismatch else Inr ()))))"

definition decision_validate_runtime_binding ::
  "NeuralThrottleDecision \<Rightarrow> u32 \<Rightarrow> u32 \<Rightarrow> unit contract" where
  "decision_validate_runtime_binding d handle_slot handle_generation =
     (if td_handle_slot d \<noteq> handle_slot \<or> td_handle_generation d \<noteq> handle_generation
      then Inl BrainOwnershipMismatch else Inr ())"

section \<open>Work receipts\<close>

record BrainWorkReceipt =
  wr_schema_version :: u16
  wr_class_id_raw :: u16
  wr_organism_id_raw :: u64
  wr_tick :: u64
  wr_handle_slot :: u32
  wr_handle_generation :: u32
  wr_dispatch_generation :: u64
  wr_frame_digest :: digest4
  wr_sequence_cursor :: u64
  wr_counters :: BrainWorkCounters
  wr_route_schedule_digest :: digest4
  wr_neural_cost_q24 :: u64
  wr_atp_before_q16 :: u32
  wr_atp_debit_q16 :: u32
  wr_atp_after_q16 :: u32
  wr_receipt_digest :: digest4

definition receipt_bytes :: "BrainWorkReceipt \<Rightarrow> bytes" where
  "receipt_bytes r =
     write_u32 (wr_atp_after_q16 r)
    (write_u32 (wr_atp_debit_q16 r)
    (write_u32 (wr_atp_before_q16 r)
    (write_u64 (wr_neural_cost_q24 r)
    (write_digest4 (wr_route_schedule_digest r)
    (write_u64 (wc_memory_context_ops (wr_counters r))
    (write_u64 (wc_decoder_candidate_ops (wr_counters r))
    (write_u64 (wc_synapse_ops (wr_counters r))
    (write_u64 (wc_tile_visits (wr_counters r))
    (write_u64 (wc_neuron_updates (wr_counters r))
    (write_u32 (wc_microsteps (wr_counters r))
    (write_u64 (wr_sequence_cursor r)
    (write_digest4 (wr_frame_digest r)
    (write_u64 (wr_dispatch_generation r)
    (write_u32 (wr_handle_generation r)
    (write_u32 (wr_handle_slot r)
    (write_u64 (wr_tick r)
    (write_u64 (wr_organism_id_raw r)
    (write_u16 (wr_class_id_raw r)
    (write_u16 (wr_schema_version r)
    (digest_new (ascii ''alife.brain.activity.work_receipt.v1'')))))))))))))))))))))"

definition receipt_recompute_digest :: "BrainWorkReceipt \<Rightarrow> digest4" where
  "receipt_recompute_digest r = finish256 (receipt_bytes r)"

definition receipt_validate_for ::
  "BrainActivityPolicyV1 \<Rightarrow> NeuralThrottleDecision \<Rightarrow> BrainWorkReceipt \<Rightarrow> unit contract" where
  "receipt_validate_for policy decision r =
     and_then (policy_validate_contract policy) (\<lambda>_.
     and_then (neural_cost_q24 (ap_cost policy) (wr_counters r)) (\<lambda>expected_cost.
     and_then (q24_to_atp_q16_round_half_up (ap_cost policy) expected_cost) (\<lambda>expected_debit.
       let expected_after = checked_sub (wr_atp_before_q16 r) expected_debit in
       if wr_schema_version r \<noteq> ap_schema_version policy
          \<or> wr_class_id_raw r \<noteq> td_class_id_raw decision
          \<or> wr_organism_id_raw r \<noteq> td_organism_id_raw decision
          \<or> wr_tick r \<noteq> td_tick decision
          \<or> wr_handle_slot r \<noteq> td_handle_slot decision
          \<or> wr_handle_generation r \<noteq> td_handle_generation decision
          \<or> wr_dispatch_generation r \<noteq> td_dispatch_generation decision
          \<or> wr_frame_digest r \<noteq> td_frame_digest decision
          \<or> wr_sequence_cursor r \<noteq> td_sequence_cursor decision
          \<or> wc_microsteps (wr_counters r) \<noteq> ucast (td_microsteps decision)
          \<or> wr_route_schedule_digest r \<noteq> td_route_schedule_digest decision
          \<or> wr_neural_cost_q24 r \<noteq> expected_cost
          \<or> wr_atp_debit_q16 r \<noteq> expected_debit
          \<or> expected_after \<noteq> Some (wr_atp_after_q16 r)
          \<or> wr_receipt_digest r = zero4
          \<or> wr_receipt_digest r \<noteq> receipt_recompute_digest r
       then Inl BrainActivitySequenceMismatch else Inr ())))"

definition receipt_try_new ::
  "BrainActivityPolicyV1 \<Rightarrow> NeuralThrottleDecision \<Rightarrow> BrainWorkCounters \<Rightarrow> u32
    \<Rightarrow> BrainWorkReceipt contract" where
  "receipt_try_new policy decision counters atp_before_q16 =
     and_then (policy_validate_contract policy) (\<lambda>_.
       if wc_microsteps counters \<noteq> ucast (td_microsteps decision)
          \<or> BRAIN_ATP_Q16_MAX < atp_before_q16
       then Inl BrainActivitySequenceMismatch
       else
         and_then (neural_cost_q24 (ap_cost policy) counters) (\<lambda>cost.
         and_then (q24_to_atp_q16_round_half_up (ap_cost policy) cost) (\<lambda>debit.
         and_then (ok_or BrainAtpExhausted (checked_sub atp_before_q16 debit)) (\<lambda>after.
           let receipt = \<lparr>
                 wr_schema_version = ap_schema_version policy,
                 wr_class_id_raw = td_class_id_raw decision,
                 wr_organism_id_raw = td_organism_id_raw decision,
                 wr_tick = td_tick decision,
                 wr_handle_slot = td_handle_slot decision,
                 wr_handle_generation = td_handle_generation decision,
                 wr_dispatch_generation = td_dispatch_generation decision,
                 wr_frame_digest = td_frame_digest decision,
                 wr_sequence_cursor = td_sequence_cursor decision,
                 wr_counters = counters,
                 wr_route_schedule_digest = td_route_schedule_digest decision,
                 wr_neural_cost_q24 = cost,
                 wr_atp_before_q16 = atp_before_q16,
                 wr_atp_debit_q16 = debit,
                 wr_atp_after_q16 = after,
                 wr_receipt_digest = zero4 \<rparr>;
               sealed = receipt\<lparr>wr_receipt_digest := receipt_recompute_digest receipt\<rparr>
           in and_then (receipt_validate_for policy decision sealed) (\<lambda>_. Inr sealed)))))"

definition receipt_validate_runtime_binding ::
  "BrainWorkReceipt \<Rightarrow> u32 \<Rightarrow> u32 \<Rightarrow> unit contract" where
  "receipt_validate_runtime_binding r handle_slot handle_generation =
     (if wr_handle_slot r \<noteq> handle_slot \<or> wr_handle_generation r \<noteq> handle_generation
      then Inl BrainOwnershipMismatch else Inr ())"

end
