(* ===== verification/Activity_Proofs.thy ===== *)
theory Activity_Proofs
  imports Throttle
begin

text \<open>
  What \<^theory_text>\<open>Activity\<close> and \<^theory_text>\<open>Throttle\<close> guarantee: the price of a dispatch is the exact
  weighted sum of its counters, the debit is that price rounded half up, a receipt conserves ATP, the
  throttle only ever tightens as pressure grows, and a tighter level runs a subset of the routes with
  the mandatory ones always in it.
\<close>

section \<open>The production policy is the only valid one\<close>

lemma cost_validate_iff [simp]:
  "cost_validate_contract c = Inr () \<longleftrightarrow> c = cost_production_v1"
  by (simp add: cost_validate_contract_def)

lemma cost_validate_production [simp]: "cost_validate_contract cost_production_v1 = Inr ()"
  by simp

lemma policy_bytes_reseal [simp]: "policy_bytes (p\<lparr>ap_policy_digest := d\<rparr>) = policy_bytes p"
  by (simp add: policy_bytes_def)

lemma policy_recompute_reseal [simp]:
  "policy_recompute_digest (p\<lparr>ap_policy_digest := d\<rparr>) = policy_recompute_digest p"
  by (simp add: policy_recompute_digest_def)

lemmas policy_production_fields =
  policy_production_v1_def Let_def

lemma policy_production_words:
  "nat_words (map unat (policy_bytes policy_production_v1)) =
    [7888, 7074703555175407872, 8386653783142785394, 8029969234780583529, 230094997949737324,
     284773528567809, 35205863839746, 72063091596066816, 289637751035265024, 360287970189639680,
     128, 16389, 131072001280, 67108864327680, 34359738451886080, 1116691496960,
     289356276058686464, 140737555464192, 16601961474407006212, 288231200785694720,
     18014415689383936, 0]"
  by (simp add: policy_production_fields cost_production_v1_def policy_bytes_def write_u32x3_def
      write_u64x3_def nat_bytes_simps nat_le_unfold unat_of_nat)

lemma policy_production_length: "length (policy_bytes policy_production_v1) = 169"
  by (simp add: policy_production_fields cost_production_v1_def policy_bytes_def write_u32x3_def
      write_u64x3_def writer_defs digest_new_def)

lemma policy_production_digest_nonzero: "policy_recompute_digest policy_production_v1 \<noteq> zero4"
proof -
  have "finish256 (policy_bytes policy_production_v1) \<noteq> zero4"
    by (rule finish256_nonzero)
      (simp_all add: policy_production_words policy_production_length nat_digest_simps)
  then show ?thesis by (simp add: policy_recompute_digest_def)
qed

lemma policy_production_sealed:
  "ap_policy_digest policy_production_v1 = policy_recompute_digest policy_production_v1"
  unfolding policy_production_fields policy_recompute_reseal by simp

lemma policy_production_ap [simp]:
  "ap_schema_version policy_production_v1 = 1"
  "ap_policy_version policy_production_v1 = 1"
  "ap_cost policy_production_v1 = cost_production_v1"
  "ap_gpu_time_threshold_ns policy_production_v1 = (2000000, 4000000, 8000000)"
  "ap_queue_depth_thresholds policy_production_v1 = (1, 2, 4)"
  "ap_logical_heap_pressure_thresholds_q16 policy_production_v1 = (32768, 49152, 58982)"
  "ap_atp_remaining_thresholds_q16_desc policy_production_v1 = (49152, 32768, 16384)"
  by (simp_all add: policy_production_fields)

lemma policy_valid_iff [simp]:
  "policy_validate_contract p = Inr () \<longleftrightarrow> p = policy_production_v1"
proof
  assume valid: "policy_validate_contract p = Inr ()"
  let ?q = policy_production_v1
  have same: "p = ?q\<lparr>ap_policy_digest := ap_policy_digest p\<rparr>"
    using valid by (cases p) (simp add: policy_validate_contract_def policy_production_fields split: if_splits)
  have "ap_policy_digest p = policy_recompute_digest p"
    using valid by (simp add: policy_validate_contract_def Let_def split: if_splits)
  also have "\<dots> = policy_recompute_digest ?q"
    by (subst same) simp
  also have "\<dots> = ap_policy_digest ?q" by (simp add: policy_production_sealed)
  finally show "p = ?q" using same by simp
next
  assume "p = policy_production_v1"
  then show "policy_validate_contract p = Inr ()"
    using policy_production_digest_nonzero policy_production_sealed
    by (simp add: policy_validate_contract_def Let_def)
qed

lemma policy_validate_production [simp]: "policy_validate_contract policy_production_v1 = Inr ()"
  by simp

section \<open>The price of a dispatch\<close>

text \<open>The exact price, as a natural number.\<close>

definition exact_cost_q24 :: "BrainWorkCounters \<Rightarrow> nat" where
  "exact_cost_q24 w =
     32 * unat (wc_neuron_updates w) + 256 * unat (wc_tile_visits w) + 4 * unat (wc_synapse_ops w)
     + 128 * unat (wc_decoder_candidate_ops w) + 64 * unat (wc_memory_context_ops w)"

definition terms_total :: "(u64 \<times> u64) list \<Rightarrow> nat" where
  "terms_total ts = sum_list (map (\<lambda>(c, r). unat c * unat r) ts)"

lemma terms_total_simps [simp]:
  "terms_total [] = 0" "terms_total ((c, r) # ts) = unat c * unat r + terms_total ts"
  by (simp_all add: terms_total_def)

lemma unat_ucast_u128 [simp]: "unat (ucast (x :: u64) :: u128) = unat x"
  by (simp add: unat_widen)

lemma cost_try_fold_exact:
  "unat acc + terms_total ts < 2 ^ 128 \<Longrightarrow>
   \<exists>s. cost_try_fold acc ts = Some s \<and> unat s = unat acc + terms_total ts"
proof (induction ts arbitrary: acc)
  case Nil
  then show ?case by simp
next
  case (Cons t ts)
  obtain c r where t: "t = (c, r)" by force
  let ?p = "ucast c * ucast r :: u128"
  have mul: "checked_mul (ucast c :: u128) (ucast r) = Some ?p" and p: "unat ?p = unat c * unat r"
    using Cons.prems by (simp_all add: t checked_mul_def unat_mult_no_overflow)
  have add: "checked_add acc ?p = Some (acc + ?p)" and s: "unat (acc + ?p) = unat acc + unat ?p"
    using Cons.prems p by (simp_all add: t checked_add_def unat_plus_no_overflow)
  with Cons.IH [of "acc + ?p"] Cons.prems p mul show ?case by (auto simp: t)
qed

lemma cost_try_fold_terms:
  "\<exists>s. cost_try_fold 0 (cost_terms cost_production_v1 w) = Some s \<and> unat s = exact_cost_q24 w"
proof -
  have total: "terms_total (cost_terms cost_production_v1 w) = exact_cost_q24 w"
    by (simp add: cost_terms_def cost_production_v1_def exact_cost_q24_def)
  have bound: "unat (x :: u64) < 18446744073709551616" for x
    using unsigned_less [where 'a=nat, of x] by simp
  have "exact_cost_q24 w < 2 ^ 128"
    using bound [of "wc_neuron_updates w"] bound [of "wc_tile_visits w"]
      bound [of "wc_synapse_ops w"] bound [of "wc_decoder_candidate_ops w"]
      bound [of "wc_memory_context_ops w"]
    by (simp add: exact_cost_q24_def)
  with cost_try_fold_exact [of 0 "cost_terms cost_production_v1 w"] show ?thesis
    by (simp add: total)
qed

lemma neural_cost_cases:
  "neural_cost_q24 cost_production_v1 w =
     (if exact_cost_q24 w < 2 ^ 64 then Inr (word_of_nat (exact_cost_q24 w))
      else Inl BrainActivityPolicyMismatch)"
proof -
  obtain s where s: "cost_try_fold 0 (cost_terms cost_production_v1 w) = Some s"
    and v: "unat s = exact_cost_q24 w"
    using cost_try_fold_terms by blast
  have "ucast s = (word_of_nat (exact_cost_q24 w) :: u64)"
    by (simp add: v [symmetric])
  then show ?thesis
    by (simp add: neural_cost_q24_def s try_narrow_def v)
qed

lemma unat_drop8: "unat (drop_bit 8 (x :: u64)) = unat x div 256"
  by (simp add: unat_drop_bit_div)

lemma round_half_up_cases:
  "q24_to_atp_q16_round_half_up cost_production_v1 c =
     (if (unat c + 128) div 256 < 2 ^ 32 \<and> unat c + 128 < 2 ^ 64
      then Inr (word_of_nat ((unat c + 128) div 256)) else Inl BrainActivityPolicyMismatch)"
proof (cases "unat c + 128 < 2 ^ 64")
  case True
  have "unat (c + 0x80) = unat c + 128" using True by (subst unat_plus_no_overflow) simp_all
  then have v: "unat (drop_bit 8 (c + 0x80)) = (unat c + 128) div 256" by (simp add: unat_drop8)
  have "ucast (drop_bit 8 (c + 0x80)) = (word_of_nat ((unat c + 128) div 256) :: u32)"
    by (simp add: v [symmetric])
  with True v show ?thesis
    by (simp add: q24_to_atp_q16_round_half_up_def checked_add_def try_narrow_def)
next
  case False
  then show ?thesis by (simp add: q24_to_atp_q16_round_half_up_def checked_add_def)
qed

text \<open>
  The neural cost of a dispatch is computed only for the production cost model, and it is exactly
  the weighted sum of the counters: no intermediate product or sum overflows, and the only refusal is
  a total that does not fit in \<open>u64\<close>.
\<close>

lemma neural_cost_exact:
  "neural_cost_q24 c w = Inr q \<longleftrightarrow>
     c = cost_production_v1 \<and> exact_cost_q24 w < 2 ^ 64 \<and> unat q = exact_cost_q24 w"
proof (cases "c = cost_production_v1")
  case True
  have "word_of_nat n = q \<longleftrightarrow> unat q = n" if "n < 2 ^ 64" for n
    using that by (auto simp: unat_of_nat)
  then show ?thesis by (auto simp: True neural_cost_cases)
next
  case False
  then show ?thesis by (simp add: neural_cost_q24_def)
qed

text \<open>
  The ATP debit is the Q24 cost scaled to Q16 and rounded half up: it is the only integer within
  half a unit of the cost, ties upwards.
\<close>

lemma atp_debit_rounds_half_up:
  assumes "q24_to_atp_q16_round_half_up cost_production_v1 c = Inr a"
  shows "256 * unat a \<le> unat c + 128 \<and> unat c + 128 < 256 * unat a + 256"
proof -
  have "unat a = (unat c + 128) div 256"
    using assms by (auto simp: round_half_up_cases unat_of_nat split: if_splits)
  then show ?thesis by simp
qed

theorem atp_debit_rounds_half_up_witness:
  "256 * unat (2 :: u32) \<le> unat (384 :: u64) + 128 \<and> unat (384 :: u64) + 128 < 256 * unat (2 :: u32) + 256"
  by (rule atp_debit_rounds_half_up) (simp add: round_half_up_cases)

section \<open>Receipts\<close>

lemma receipt_bytes_reseal [simp]: "receipt_bytes (r\<lparr>wr_receipt_digest := d\<rparr>) = receipt_bytes r"
  by (simp add: receipt_bytes_def)

lemma receipt_validate_sealed:
  "receipt_validate_for p d r = Inr () \<Longrightarrow> wr_receipt_digest r = receipt_recompute_digest r"
  by (auto simp: receipt_validate_for_def Let_def split: if_splits)

interpretation receipt_seal: sealed_record wr_receipt_digest
  "\<lambda>d r. r\<lparr>wr_receipt_digest := d\<rparr>" "\<lambda>r. Inr (receipt_recompute_digest r)"
  "\<lambda>r. receipt_validate_for policy decision r = Inr ()" for policy decision
  by unfold_locales (auto simp: receipt_recompute_digest_def dest: receipt_validate_sealed)

lemma receipt_try_new_Inr:
  assumes "receipt_try_new p d w b = Inr r"
  shows "p = policy_production_v1" and "wc_microsteps w = ucast (td_microsteps d)"
    and "b \<le> BRAIN_ATP_Q16_MAX" and "receipt_validate_for p d r = Inr ()"
    and "wr_counters r = w" and "wr_atp_before_q16 r = b"
  using assms by (auto simp: receipt_try_new_def Let_def not_less split: if_splits)

lemma receipt_validate_debit:
  assumes "receipt_validate_for p d r = Inr ()"
  shows "p = policy_production_v1" and "exact_cost_q24 (wr_counters r) < 2 ^ 64"
    and "unat (wr_neural_cost_q24 r) = exact_cost_q24 (wr_counters r)"
    and "unat (wr_atp_debit_q16 r) = (exact_cost_q24 (wr_counters r) + 128) div 256"
    and "unat (wr_atp_after_q16 r) + unat (wr_atp_debit_q16 r) = unat (wr_atp_before_q16 r)"
proof -
  from assms have p: "p = policy_production_v1" by (simp add: receipt_validate_for_def)
  from assms have cost: "neural_cost_q24 cost_production_v1 (wr_counters r) = Inr (wr_neural_cost_q24 r)"
    and debit: "q24_to_atp_q16_round_half_up cost_production_v1 (wr_neural_cost_q24 r)
      = Inr (wr_atp_debit_q16 r)"
    and after: "checked_sub (wr_atp_before_q16 r) (wr_atp_debit_q16 r) = Some (wr_atp_after_q16 r)"
    by (auto simp: receipt_validate_for_def Let_def split: if_splits)
  show "p = policy_production_v1" by (rule p)
  from cost have small: "exact_cost_q24 (wr_counters r) < 2 ^ 64"
    and "wr_neural_cost_q24 r = word_of_nat (exact_cost_q24 (wr_counters r))"
    by (auto simp: neural_cost_cases split: if_splits)
  then show c: "unat (wr_neural_cost_q24 r) = exact_cost_q24 (wr_counters r)"
    by (simp add: unat_of_nat)
  show "exact_cost_q24 (wr_counters r) < 2 ^ 64" by (rule small)
  from debit have "(unat (wr_neural_cost_q24 r) + 128) div 256 < 2 ^ 32"
    and "wr_atp_debit_q16 r = word_of_nat ((unat (wr_neural_cost_q24 r) + 128) div 256)"
    by (auto simp: round_half_up_cases split: if_splits)
  then show "unat (wr_atp_debit_q16 r) = (exact_cost_q24 (wr_counters r) + 128) div 256"
    by (simp add: unat_of_nat c)
  from checked_sub_Some [OF after]
  show "unat (wr_atp_after_q16 r) + unat (wr_atp_debit_q16 r) = unat (wr_atp_before_q16 r)" by simp
qed

text \<open>
  C2. A work receipt conserves brain ATP: it debits the rounded exact cost of the counters it reports,
  what remains plus the debit is what was there before, the balance was within range, and the receipt
  passes its own validation.
\<close>

theorem work_receipt_conserves_atp:
  assumes "receipt_try_new p d w b = Inr r"
  shows "unat (wr_atp_after_q16 r) + unat (wr_atp_debit_q16 r) = unat b
    \<and> unat (wr_atp_debit_q16 r) = (exact_cost_q24 w + 128) div 256
    \<and> unat b \<le> 65535 \<and> receipt_validate_for p d r = Inr ()"
proof -
  note made = receipt_try_new_Inr [OF assms]
  have "unat b \<le> 65535"
    using made(3) by (simp add: BRAIN_ATP_Q16_MAX_def word_le_nat_alt)
  with receipt_validate_debit [OF made(4)] made(4-6) show ?thesis by simp
qed

text \<open>
  The ATP-exhausted error is precise: a dispatch whose report is otherwise in order is refused with
  it exactly when the rounded cost exceeds the remaining ATP.
\<close>

lemma brain_atp_exhausted_iff:
  "receipt_try_new policy_production_v1 d w b = Inl BrainAtpExhausted \<longleftrightarrow>
     wc_microsteps w = ucast (td_microsteps d) \<and> b \<le> BRAIN_ATP_Q16_MAX
     \<and> (exact_cost_q24 w + 128) div 256 < 2 ^ 32 \<and> unat b < (exact_cost_q24 w + 128) div 256"
proof (cases "wc_microsteps w = ucast (td_microsteps d) \<and> b \<le> BRAIN_ATP_Q16_MAX")
  case False
  then show ?thesis by (auto simp: receipt_try_new_def not_less)
next
  case True
  let ?n = "(exact_cost_q24 w + 128) div 256"
  show ?thesis
  proof (cases "?n < 2 ^ 32")
    case False
    then show ?thesis
      using True by (auto simp: receipt_try_new_def neural_cost_cases round_half_up_cases unat_of_nat not_less)
  next
    case small: True
    then have "exact_cost_q24 w + 128 < 2 ^ 64" by simp
    then have cost: "neural_cost_q24 cost_production_v1 w = Inr (word_of_nat (exact_cost_q24 w))"
      and debit: "q24_to_atp_q16_round_half_up cost_production_v1 (word_of_nat (exact_cost_q24 w))
        = Inr (word_of_nat ?n)"
      using small by (simp_all add: neural_cost_cases round_half_up_cases unat_of_nat)
    have le: "word_of_nat ?n \<le> b \<longleftrightarrow> ?n \<le> unat b"
      using small by (simp add: word_le_nat_alt unat_of_nat)
    show ?thesis
      using True small
      by (auto simp: receipt_try_new_def cost debit checked_sub_def le not_less not_le Let_def
          receipt_validate_for_def and_then_Inl_iff split: if_splits)
  qed
qed

end
