(* ===== verification/Throttle_Proofs.thy ===== *)
theory Throttle_Proofs
  imports Activity_Proofs
begin

text \<open>
  Pressure samples and throttle decisions: exact fractions, monotone buckets, nested route sets, and
  decisions that pass the validation a reader of the log runs on them.
\<close>

section \<open>Fractions and buckets\<close>

text \<open>
  A pressure fraction is the exact quotient in Q16, rounded down and capped at 65535, and it is
  refused exactly for an empty capacity or a use beyond it.
\<close>

lemma q16_fraction_exact:
  "q16_fraction n d = Inr f \<longleftrightarrow>
     d \<noteq> 0 \<and> n \<le> d \<and> unat f = min (unat n * 65536 div unat d) 65535"
proof (cases "d = 0 \<or> d < n")
  case True
  then show ?thesis by (auto simp: q16_fraction_def)
next
  case False
  let ?s = "push_bit 16 (ucast n :: u128) div ucast d"
  have "unat n < 18446744073709551616" using unsigned_less [where 'a=nat, of n] by simp
  then have "unat (push_bit 16 (ucast n :: u128)) = unat n * 65536"
    by (simp add: push_bit_eq_mult unat_word_ariths)
  then have s: "unat ?s = unat n * 65536 div unat d" by (simp add: unat_div_distrib)
  have m: "unat (min ?s 65535) = min (unat n * 65536 div unat d) 65535"
    by (simp add: min_def word_le_nat_alt s)
  have "unat (min ?s 65535) \<le> 65535" unfolding m by simp
  then have small: "unat (min ?s 65535) < 4294967296" by linarith
  have "ucast (min ?s 65535) = f \<longleftrightarrow> unat f = unat (min ?s 65535)"
    using small by (auto simp: word_unat_eq_iff unsigned_ucast_eq take_bit_nat_eq_self)
  then have "ok_or BrainActivityPolicyMismatch (try_narrow (min ?s 65535)) = Inr f
      \<longleftrightarrow> unat f = min (unat n * 65536 div unat d) 65535"
    using small by (simp add: try_narrow_def m)
  moreover have "d \<noteq> 0" and "\<not> d < n" and "n \<le> d" using False by auto
  ultimately show ?thesis by (simp add: q16_fraction_def Let_def)
qed

lemma threshold_bucket_mono: "v \<le> w \<Longrightarrow> threshold_bucket v t \<le> threshold_bucket w t"
  by (auto simp: threshold_bucket_def split: prod.splits)

lemma descending_bucket_antimono: "v \<le> w \<Longrightarrow> descending_atp_bucket w t \<le> descending_atp_bucket v t"
  by (auto simp: descending_atp_bucket_def split: prod.splits)

lemma threshold_bucket_le_3: "threshold_bucket v t \<le> 3"
  by (simp add: threshold_bucket_def split: prod.splits)

lemma ucast_u16_le_iff: "(ucast (a :: u8) :: u16) \<le> ucast b \<longleftrightarrow> a \<le> b"
proof -
  have "unat (ucast x :: u16) = unat x" for x :: u8
    using unat_u8_bound [of x] by (simp add: unsigned_ucast_eq take_bit_nat_eq_self)
  then show ?thesis by (simp add: word_le_nat_alt)
qed

section \<open>Samples\<close>

lemma sample_bytes_reseal [simp]: "sample_bytes (s\<lparr>ps_sample_digest := d\<rparr>) = sample_bytes s"
  by (simp add: sample_bytes_def)

lemma sample_validate_fields:
  assumes "sample_validate_for p s = Inr ()"
  shows "p = policy_production_v1"
    and "ps_completed_gpu_time_bucket s
      = ucast (threshold_bucket_u64 (ps_completed_gpu_time_ns s) (ap_gpu_time_threshold_ns p))"
    and "ps_queue_depth_bucket s
      = threshold_bucket_u32 (ps_queue_depth s) (ap_queue_depth_thresholds p)"
    and "ps_neural_heap_pressure_bucket s
      = threshold_bucket_u32 (ps_logical_heap_pressure_q16 s)
          (ap_logical_heap_pressure_thresholds_q16 p)"
    and "ps_brain_atp_bucket s
      = descending_atp_bucket (ps_brain_atp_fraction_q16 s) (ap_atp_remaining_thresholds_q16_desc p)"
    and "ps_sample_digest s = sample_recompute_digest s"
  using assms by (auto simp: sample_validate_for_def Let_def split: if_splits)

interpretation sample_seal: sealed_record ps_sample_digest
  "\<lambda>d s. s\<lparr>ps_sample_digest := d\<rparr>" "\<lambda>s. Inr (sample_recompute_digest s)"
  "\<lambda>s. sample_validate_for policy s = Inr ()" for policy
  by unfold_locales (auto simp: sample_recompute_digest_def dest: sample_validate_fields(6))

text \<open>
  The throttle is monotone: of two valid samples, the one with at least the GPU time, queue depth
  and heap pressure and at most the brain ATP of the other is throttled at least as hard.
\<close>

lemma throttle_monotone_in_pressure:
  assumes "sample_validate_for p s = Inr ()" and "sample_validate_for p t = Inr ()"
    and "ps_completed_gpu_time_ns s \<le> ps_completed_gpu_time_ns t"
    and "ps_queue_depth s \<le> ps_queue_depth t"
    and "ps_logical_heap_pressure_q16 s \<le> ps_logical_heap_pressure_q16 t"
    and "ps_brain_atp_fraction_q16 t \<le> ps_brain_atp_fraction_q16 s"
  shows "throttle_raw (throttle_level s) \<le> throttle_raw (throttle_level t)"
proof -
  define peak where "peak x = max (max (max (ps_completed_gpu_time_bucket x)
    (ucast (ps_queue_depth_bucket x))) (ucast (ps_neural_heap_pressure_bucket x)))
    (ucast (ps_brain_atp_bucket x))" for x :: GpuPressureSample
  note S = sample_validate_fields [OF assms(1)] and T = sample_validate_fields [OF assms(2)]
  have "ps_completed_gpu_time_bucket s \<le> ps_completed_gpu_time_bucket t"
    and "ps_queue_depth_bucket s \<le> ps_queue_depth_bucket t"
    and "ps_neural_heap_pressure_bucket s \<le> ps_neural_heap_pressure_bucket t"
    and "ps_brain_atp_bucket s \<le> ps_brain_atp_bucket t"
    using assms(3-6) unfolding S(2-5) T(2-5)
    by (simp_all add: threshold_bucket_u64_def threshold_bucket_u32_def threshold_bucket_mono
        descending_bucket_antimono ucast_u16_le_iff)
  then have "peak s \<le> peak t"
    unfolding peak_def by (intro max.mono) (simp_all add: ucast_u16_le_iff)
  moreover have "throttle_raw (throttle_level x) = (if peak x = 0 then 0 else if peak x = 1 then 1 else 2)" for x
    by (simp add: throttle_level_def throttle_raw_def peak_def Let_def)
  moreover have "peak t = 0 \<or> peak t = 1 \<Longrightarrow> peak s \<le> peak t \<Longrightarrow> peak s = 0 \<or> peak s = peak t"
    by (auto simp: word_le_nat_alt word_unat_eq_iff)
  ultimately show ?thesis by (auto split: if_splits)
qed

section \<open>Decisions\<close>

lemma collect_enabled_routes_set:
  "collect_enabled_routes level rs = Inr ids \<Longrightarrow>
   set ids = cp_route_index ` {r \<in> set rs. route_enabled level r}
   \<and> (\<forall>r \<in> set rs. route_is_mandatory r \<longrightarrow> cp_priority r \<noteq> NonEssential)"
  by (induction rs arbitrary: ids) (fastforce split: if_splits)+

lemma collect_enabled_routes_ok:
  "(\<exists>ids. collect_enabled_routes level rs = Inr ids)
   \<longleftrightarrow> (\<forall>r \<in> set rs. route_is_mandatory r \<longrightarrow> cp_priority r \<noteq> NonEssential)"
  by (induction rs) auto

lemma route_enabled_nested:
  assumes "throttle_raw l \<le> throttle_raw m" and "route_enabled m r"
    and "route_is_mandatory r \<longrightarrow> cp_priority r \<noteq> NonEssential"
  shows "route_enabled l r"
  using assms by (cases l; cases m) (auto simp: route_enabled_def throttle_raw_def word_le_nat_alt)

text \<open>
  Shedding is nested: a tighter level runs a subset of the routes a looser one runs.
\<close>

lemma tighter_level_runs_subset:
  assumes "collect_enabled_routes l rs = Inr xs" and "collect_enabled_routes m rs = Inr ys"
    and "throttle_raw l \<le> throttle_raw m"
  shows "set ys \<subseteq> set xs"
  using collect_enabled_routes_set [OF assms(1)] collect_enabled_routes_set [OF assms(2)]
    route_enabled_nested [OF assms(3)] by blast

lemma remdups_adj_sort: "sorted_wrt (<) (remdups_adj (sort (xs :: 'k::linorder list)))"
proof -
  have "sorted_wrt (<) (remdups_adj ys)" if "sorted ys" for ys :: "'k list"
    using that by (induction ys rule: remdups_adj.induct) (auto simp: le_less)
  then show ?thesis by simp
qed

lemma decision_bytes_reseal [simp]:
  "decision_bytes (d\<lparr>td_decision_digest := x\<rparr>) = decision_bytes d"
  by (simp add: decision_bytes_def)

lemma derive_unchecked_Inr:
  assumes "derive_unchecked p ph ex i s = Inr d"
  obtains ids where "collect_enabled_routes (throttle_level s) (bp_projections ph) = Inr ids"
    and "td_enabled_route_ids d = remdups_adj (sort ids)"
    and "td_level d = throttle_level s" and "td_pressure d = s"
    and "beb_min_microsteps ex \<le> bp_microstep_count ph"
    and "bp_microstep_count ph \<le> beb_max_microsteps ex"
    and "td_microsteps d
      = throttled_microsteps (throttle_level s) (bp_microstep_count ph) (beb_min_microsteps ex)"
    and "decision_identity d = i"
    and "td_schema_version d = ap_schema_version p" and "td_policy_version d = ap_policy_version p"
    and "td_pressure_digest d = ps_sample_digest s" and "td_policy_digest d = ap_policy_digest p"
    and "td_decision_digest d \<noteq> zero4" and "td_decision_digest d = decision_recompute_digest d"
  using assms
  by (auto simp: derive_unchecked_def Let_def decision_identity_def decision_recompute_digest_def
      decision_bytes_def split: if_splits)

lemma saturating_sub_le: "saturating_sub a b \<le> (a :: 'a::len word)"
  by (simp add: word_le_nat_alt unat_saturating_sub)

text \<open>
  C3. Every decision is safe to run: its routes are listed once, in order; the essential and the
  mandatory routes of the phenotype are among them at every throttle level; and the number of
  microsteps is within the capacity class and never above what the phenotype configures.
\<close>

theorem decision_keeps_essential_routes:
  assumes "decision_derive p ph ex i s = Inr d"
  shows "sorted_wrt (<) (td_enabled_route_ids d)
    \<and> (\<forall>r \<in> set (bp_projections ph). cp_priority r = Essential \<or> route_is_mandatory r
          \<longrightarrow> cp_route_index r \<in> set (td_enabled_route_ids d))
    \<and> beb_min_microsteps ex \<le> td_microsteps d \<and> td_microsteps d \<le> bp_microstep_count ph"
proof -
  from assms have "derive_unchecked p ph ex i s = Inr d"
    by (auto simp: decision_derive_def split: if_splits)
  then obtain ids where ids: "collect_enabled_routes (throttle_level s) (bp_projections ph) = Inr ids"
    and e: "td_enabled_route_ids d = remdups_adj (sort ids)"
    and lo: "beb_min_microsteps ex \<le> bp_microstep_count ph"
    and m: "td_microsteps d
      = throttled_microsteps (throttle_level s) (bp_microstep_count ph) (beb_min_microsteps ex)"
    by (elim derive_unchecked_Inr) blast
  have "cp_route_index r \<in> set ids" if "r \<in> set (bp_projections ph)"
    and "cp_priority r = Essential \<or> route_is_mandatory r" for r
  proof -
    have "route_enabled (throttle_level s) r"
      using that collect_enabled_routes_set [OF ids]
      by (cases "throttle_level s") (auto simp: route_enabled_def)
    with that(1) collect_enabled_routes_set [OF ids] show ?thesis by blast
  qed
  then show ?thesis
    using lo by (auto simp: e m remdups_adj_sort throttled_microsteps_def saturating_sub_le
        split: NeuralThrottleLevel.splits)
qed

text \<open>
  A derived decision passes the validation that re-derives it from the sample it carries.
\<close>

lemma derived_decision_validates:
  assumes "decision_derive p ph ex i s = Inr d"
  shows "decision_validate_for d ph ex = Inr ()"
proof -
  from assms have valid: "sample_validate_for p s = Inr ()"
    and i: "i = dispatch_identity s" and c: "di_class_id_raw i = bp_brain_class_id ph"
    and d: "derive_unchecked p ph ex i s = Inr d"
    by (auto simp: decision_derive_def split: if_splits)
  have p: "p = policy_production_v1" using valid by (rule sample_validate_fields)
  have i_ok: "identity_validate_contract i = Inr ()"
    using valid by (auto simp: sample_validate_for_def i)
  obtain ids where "decision_identity d = i" and "td_pressure d = s"
    and "td_schema_version d = ap_schema_version p" and "td_policy_version d = ap_policy_version p"
    and "td_pressure_digest d = ps_sample_digest s" and "td_policy_digest d = ap_policy_digest p"
    and "td_decision_digest d \<noteq> zero4" and "td_decision_digest d = decision_recompute_digest d"
    using d by (elim derive_unchecked_Inr) blast
  moreover have "td_class_id_raw d = bp_brain_class_id ph"
    using \<open>decision_identity d = i\<close> c by (auto simp: decision_identity_def)
  ultimately show ?thesis
    using valid i i_ok d by (simp add: decision_validate_for_def p Let_def)
qed

end
