(* ===== verification/Activity_Examples.thy ===== *)
theory Activity_Examples
  imports Throttle_Proofs
begin

text \<open>
  One dispatch worked out in full: an organism with a three-route phenotype, its pressure sample, the
  throttle decision and the work receipt, with every digest evaluated in the kernel. The witnesses of
  the activity properties are the theorems applied to it.
\<close>

section \<open>Evaluating a digest lane\<close>

definition nat_lane :: "nat list \<Rightarrow> nat \<Rightarrow> nat \<Rightarrow> nat" where
  "nat_lane ws n seed = nat_splitmix (nat_stream ws seed XOR (n XOR 0xf1a1d165e57a0000))"

lemma finish256_by_lanes:
  assumes n: "length bs = n" "n < 0x10000000000000000" and ws: "nat_words (map unat bs) = ws"
    and "nat_lane ws n 0xa11fea7ed00d0001 = unat a" and "nat_lane ws n 0xc0decafe51a70002 = unat b"
    and "nat_lane ws n 0x9e3779b97f4a7c15 = unat c" and "nat_lane ws n 0xd1b54a32d192ed03 = unat d"
  shows "finish256 bs = (a, b, c, d)"
proof -
  have "unat (word_of_nat (length bs) :: u64) = n" using n by (simp add: unat_of_nat)
  then show ?thesis
    using assms by (simp add: finish256_def Let_def word_unat_eq_iff unat_splitmix64 unsigned_xor_eq
        unat_digest_stream map_unat_le_words nat_lane_def)
qed

lemma finish256_nonzero_by_lane:
  assumes "length bs = n" "n < 0x10000000000000000" and "nat_words (map unat bs) = ws"
    and "nat_lane ws n 0xa11fea7ed00d0001 \<noteq> 0"
  shows "finish256 bs \<noteq> zero4"
  using assms by (intro finish256_nonzero) (simp_all add: nat_lane_def)

section \<open>The dispatch\<close>

definition ex_identity :: BrainDispatchIdentity where
  "ex_identity = \<lparr> di_organism_id_raw = 7, di_tick = 10, di_class_id_raw = 1, di_handle_slot = 0,
     di_handle_generation = 1, di_sequence_cursor = 5, di_dispatch_generation = 3,
     di_frame_digest = (11, 12, 13, 14) \<rparr>"

definition ex_input :: GpuPressureSampleInput where
  "ex_input = \<lparr> pi_identity = ex_identity, pi_source_dispatch_generation = 2,
     pi_source_frame_digest = (21, 22, 23, 24), pi_completed_gpu_time_ns = 2500000,
     pi_queue_depth = 0, pi_logical_heap_used = 1, pi_logical_heap_capacity = 4,
     pi_brain_atp_remaining_q16 = 65535, pi_brain_atp_capacity_q16 = 65535 \<rparr>"

definition ex_sample :: GpuPressureSample where
  "ex_sample = \<lparr> ps_schema_version = 1, ps_policy_version = 1, ps_organism_id_raw = 7, ps_tick = 10,
     ps_class_id_raw = 1, ps_handle_slot = 0, ps_handle_generation = 1, ps_sequence_cursor = 5,
     ps_source_dispatch_generation = 2, ps_source_frame_digest = (21, 22, 23, 24),
     ps_completed_gpu_time_ns = 2500000, ps_queue_depth = 0, ps_logical_heap_pressure_q16 = 16384,
     ps_brain_atp_fraction_q16 = 65535, ps_completed_gpu_time_bucket = 1, ps_queue_depth_bucket = 0,
     ps_neural_heap_pressure_bucket = 0, ps_brain_atp_bucket = 0,
     ps_sample_digest =
       (15674642167895088778, 16383369091245422387,
        4823290923005708080, 6974949557292589531),
     ps_dispatch_generation = 3, ps_frame_digest = (11, 12, 13, 14) \<rparr>"

definition ex_phenotype :: BrainPhenotype where
  "ex_phenotype = \<lparr> bp_brain_class_id = 1, bp_microstep_count = 4, bp_projections =
     [\<lparr> cp_route_index = 2, cp_source_lobe = PerceptualIntegration,
         cp_target_lobe = MultimodalAssociation, cp_projection_type = FeedForward,
         cp_priority = Essential \<rparr>,
      \<lparr> cp_route_index = 0, cp_source_lobe = WorkingContextExecutive,
         cp_target_lobe = ActionPlanning, cp_projection_type = MotorProposal,
         cp_priority = High \<rparr>,
      \<lparr> cp_route_index = 1, cp_source_lobe = MemoryInterface,
         cp_target_lobe = TemporalPredictive, cp_projection_type = Recurrent,
         cp_priority = NonEssential \<rparr>],
     bp_phenotype_hash = (1, 2, 3, 4) \<rparr>"

definition ex_execution :: BrainExecutionBudget where
  "ex_execution = \<lparr> beb_min_microsteps = 2, beb_max_microsteps = 8 \<rparr>"

definition ex_policy_words :: "nat list" where
  "ex_policy_words =
     [7888, 7074703555175407872, 8386653783142785394, 8029969234780583529, 230094997949737324,
      284773528567809, 35205863839746, 72063091596066816, 289637751035265024, 360287970189639680,
      128, 16389, 131072001280, 67108864327680, 34359738451886080, 1116691496960,
      289356276058686464, 140737555464192, 16601961474407006212, 288231200785694720,
      18014415689383936, 0]"

lemma ex_policy_lane0:
  "nat_lane ex_policy_words 169 0xa11fea7ed00d0001 = 3993468006703066050"
  by (simp add: nat_lane_def ex_policy_words_def nat_digest_simps)

lemma ex_policy_lane1:
  "nat_lane ex_policy_words 169 0xc0decafe51a70002 = 11335034347131096680"
  by (simp add: nat_lane_def ex_policy_words_def nat_digest_simps)

lemma ex_policy_lane2:
  "nat_lane ex_policy_words 169 0x9e3779b97f4a7c15 = 3765222072571844223"
  by (simp add: nat_lane_def ex_policy_words_def nat_digest_simps)

lemma ex_policy_lane3:
  "nat_lane ex_policy_words 169 0xd1b54a32d192ed03 = 6945886014649662854"
  by (simp add: nat_lane_def ex_policy_words_def nat_digest_simps)

definition ex_sample_words :: "nat list" where
  "ex_sample_words =
     [8400, 7074703555175407872, 8386653783142785394, 8246142016894367337, 8515855487675364197,
      360289082586235697, 7, 2565, 17179935488, 361695345073259520, 360287970189639680, 3, 2821,
      787712, 218431488, 60213428224, 2220498092032, 5916472069062656, 1586674443717967872,
      360287970189639680, 23, 6149, 163840001280, 288230376151973888, 72056511706185728,
      562958543422208, 2]"

lemma ex_sample_lane0:
  "nat_lane ex_sample_words 210 0xa11fea7ed00d0001 = 15674642167895088778"
  by (simp add: nat_lane_def ex_sample_words_def nat_digest_simps)

lemma ex_sample_lane1:
  "nat_lane ex_sample_words 210 0xc0decafe51a70002 = 16383369091245422387"
  by (simp add: nat_lane_def ex_sample_words_def nat_digest_simps)

lemma ex_sample_lane2:
  "nat_lane ex_sample_words 210 0x9e3779b97f4a7c15 = 4823290923005708080"
  by (simp add: nat_lane_def ex_sample_words_def nat_digest_simps)

lemma ex_sample_lane3:
  "nat_lane ex_sample_words 210 0xd1b54a32d192ed03 = 6974949557292589531"
  by (simp add: nat_lane_def ex_sample_words_def nat_digest_simps)

lemma ex_policy_digest:
  "ap_policy_digest policy_production_v1 =
     (3993468006703066050, 11335034347131096680,
      3765222072571844223, 6945886014649662854)"
  unfolding policy_production_sealed policy_recompute_digest_def
  by (rule finish256_by_lanes [OF policy_production_length _ policy_production_words])
    (simp_all add: ex_policy_lane0 [unfolded ex_policy_words_def]
      ex_policy_lane1 [unfolded ex_policy_words_def] ex_policy_lane2 [unfolded ex_policy_words_def]
      ex_policy_lane3 [unfolded ex_policy_words_def])

lemma ex_sample_words: "nat_words (map unat (sample_bytes ex_sample)) = ex_sample_words"
  by (simp add: ex_sample_words_def ex_sample_def sample_bytes_def nat_bytes_simps nat_le_unfold
      unat_of_nat)

lemma ex_sample_length: "length (sample_bytes ex_sample) = 210"
  by (simp add: ex_sample_def sample_bytes_def writer_defs digest_new_def write_digest4_def)

lemma ex_sample_sealed: "sample_recompute_digest ex_sample = ps_sample_digest ex_sample"
proof -
  have "finish256 (sample_bytes ex_sample) =
     (15674642167895088778, 16383369091245422387,
      4823290923005708080, 6974949557292589531)"
    by (rule finish256_by_lanes [OF ex_sample_length _ ex_sample_words])
      (simp_all add: ex_sample_lane0 ex_sample_lane1 ex_sample_lane2 ex_sample_lane3)
  then show ?thesis by (simp add: sample_recompute_digest_def ex_sample_def)
qed

lemma ex_sample_fields [simp]:
  "throttle_level ex_sample = Reduced" "dispatch_identity ex_sample = ex_identity"
  by (simp_all add: ex_sample_def throttle_level_def dispatch_identity_def ex_identity_def)

lemma ex_identity_valid [simp]: "identity_validate_contract ex_identity = Inr ()"
  by (simp add: ex_identity_def identity_validate_contract_def)

lemma ex_sample_valid [simp]: "sample_validate_for policy_production_v1 ex_sample = Inr ()"
  unfolding sample_validate_for_def ex_sample_sealed ex_sample_fields
  by (simp add: ex_sample_def threshold_bucket_u64_def threshold_bucket_u32_def threshold_bucket_def
      descending_atp_bucket_def BRAIN_ATP_Q16_MAX_def)

lemma ex_fractions:
  "q16_fraction 1 4 = Inr 16384" "q16_fraction 65535 65535 = Inr 65535"
  by (simp_all add: q16_fraction_exact)

lemma ex_sample_made: "sample_try_new policy_production_v1 ex_input = Inr ex_sample"
proof -
  have seal: "sample_recompute_digest (ex_sample\<lparr>ps_sample_digest := zero4\<rparr>) = ps_sample_digest ex_sample"
    using ex_sample_sealed by (simp add: sample_recompute_digest_def)
  have sample: "\<lparr> ps_schema_version = 1, ps_policy_version = 1, ps_organism_id_raw = 7, ps_tick = 10,
     ps_class_id_raw = 1, ps_handle_slot = 0, ps_handle_generation = 1, ps_sequence_cursor = 5,
     ps_source_dispatch_generation = 2, ps_source_frame_digest = (21, 22, 23, 24),
     ps_completed_gpu_time_ns = 2500000, ps_queue_depth = 0, ps_logical_heap_pressure_q16 = 16384,
     ps_brain_atp_fraction_q16 = 65535, ps_completed_gpu_time_bucket = 1, ps_queue_depth_bucket = 0,
     ps_neural_heap_pressure_bucket = 0, ps_brain_atp_bucket = 0, ps_sample_digest = d,
     ps_dispatch_generation = 3, ps_frame_digest = (11, 12, 13, 14) \<rparr>
     = ex_sample\<lparr>ps_sample_digest := d\<rparr>" for d
    by (simp add: ex_sample_def)
  have buckets: "threshold_bucket_u64 2500000 (2000000, 4000000, 8000000) = 1"
    "threshold_bucket_u32 0 (1, 2, 4) = 0" "threshold_bucket_u32 16384 (32768, 49152, 58982) = 0"
    "descending_atp_bucket 65535 (49152, 32768, 16384) = 0"
    by (simp_all add: threshold_bucket_u64_def threshold_bucket_u32_def threshold_bucket_def
        descending_atp_bucket_def)
  show ?thesis
    by (simp add: sample_try_new_def ex_input_def ex_fractions buckets ex_identity_def
        identity_validate_contract_def sample seal Let_def)
qed

section \<open>The decision\<close>

text \<open>The route digest over natural numbers.\<close>

definition nat_mix :: "nat \<Rightarrow> nat \<Rightarrow> nat \<Rightarrow> nat" where
  "nat_mix w v s = ((((v + s) mod 0x100000000) XOR w) * 16777619) mod 0x100000000"

lemma unat_mix_route: "map unat (mix_route_digest_word w ds)
    = map2 (nat_mix (unat w)) (map unat ds) (map unat ROUTE_DIGEST_SALTS)"
  by (simp add: mix_route_digest_word_def nat_mix_def zip_map_map split_def
      unat_word_ariths unsigned_xor_eq)


lemma word_list_of_unat:
  "map unat (ws :: 'a::len word list) = ns \<Longrightarrow> ws = map word_of_nat ns"
  by (auto intro!: map_idI [symmetric])

lemma unat_pack_lane_pair:
  "unat (pack_lane_pair ds i) = unat (ds ! i) OR push_bit 32 (unat (ds ! Suc i))"
proof -
  have w: "unat (ucast (x :: u32) :: u64) = unat x" for x
    using unsigned_less [where 'a=nat, of x] by (simp add: unsigned_ucast_eq take_bit_nat_eq_self)
  have "unat x * 4294967296 < 18446744073709551616" for x :: u32
    using unsigned_less [where 'a=nat, of x] by simp
  then show ?thesis
    by (simp add: pack_lane_pair_def unsigned_or_eq w push_bit_eq_mult unat_word_ariths)
qed

lemma ex_route_digest:
  "route_schedule_digest ex_phenotype 3 [0, 2] =
     (548012711165103154, 10658166295418134645,
      12887779103609095683, 7368712236378697733)"
proof -
  have "fold mix_route_digest_word [1, 0, 2, 0, 3, 0, 4, 0, 3, 2, 0, 2] ROUTE_DIGEST_SEEDS
    = map word_of_nat [1164250162, 127594152, 3144704117, 2481547718,
      4132603395, 3000669903, 3849138181, 1715662012]"
    by (rule word_list_of_unat)
      (simp add: unat_mix_route nat_mix_def ROUTE_DIGEST_SEEDS_def ROUTE_DIGEST_SALTS_def)
  then show ?thesis
    by (simp add: route_schedule_digest_def ex_phenotype_def digest_halves_def try_of_len_def
        word_unat_eq_iff unat_pack_lane_pair push_bit_eq_mult Let_def)
qed

text \<open>The decision before it is sealed; its digest is not zero, so sealing it succeeds.\<close>

definition ex_unsealed :: NeuralThrottleDecision where
  "ex_unsealed = \<lparr> td_schema_version = 1, td_policy_version = 1, td_organism_id_raw = 7,
     td_tick = 10, td_class_id_raw = 1, td_handle_slot = 0, td_handle_generation = 1,
     td_sequence_cursor = 5, td_dispatch_generation = 3, td_frame_digest = (11, 12, 13, 14),
     td_level = Reduced, td_pressure = ex_sample, td_microsteps = 3, td_enabled_route_ids = [0, 2],
     td_pressure_digest =
       (15674642167895088778, 16383369091245422387,
        4823290923005708080, 6974949557292589531),
     td_route_schedule_digest =
       (548012711165103154, 10658166295418134645,
        12887779103609095683, 7368712236378697733),
     td_policy_digest =
       (3993468006703066050, 11335034347131096680,
        3765222072571844223, 6945886014649662854),
     td_decision_digest = zero4 \<rparr>"

definition ex_decision :: NeuralThrottleDecision where
  "ex_decision = ex_unsealed\<lparr>td_decision_digest := decision_recompute_digest ex_unsealed\<rparr>"

definition ex_decision_words :: "nat list" where
  "ex_decision_words =
     [8400, 7074703555175407872, 8386653783142785394, 7306015594680776297, 8515865370193783139,
      360289082586235697, 7, 2565, 17179935488, 361695345073259520, 360287970189639680, 3, 2821,
      787712, 218431488, 60213428224, 216736840168767488, 525, 360290182097797888,
      15674642167895088778, 6731582626759914245, 14234227088917792227, 12313036415075435247,
      5000416370242931711, 8097600794475032232, 9656568158846830267, 361891996976019026,
      389072002362993968, 3993468006703066050, 5629973293161146373, 13945018129420584349,
      9766491187921105984, 6317246]"

lemma ex_decision_lane0:
  "nat_lane ex_decision_words 259 0xa11fea7ed00d0001 = 8652545950752699810"
  by (simp add: nat_lane_def ex_decision_words_def nat_digest_simps)

lemma ex_decision_words: "nat_words (map unat (decision_bytes ex_unsealed)) = ex_decision_words"
  by (simp add: ex_decision_words_def ex_unsealed_def decision_bytes_def write_u16s_def
      throttle_raw_def nat_bytes_simps nat_le_unfold unat_of_nat)

lemma ex_decision_length: "length (decision_bytes ex_unsealed) = 259"
  by (simp add: ex_unsealed_def decision_bytes_def write_u16s_def writer_defs digest_new_def
      write_digest4_def)

lemma ex_decision_digest: "decision_recompute_digest ex_unsealed \<noteq> zero4"
  unfolding decision_recompute_digest_def
  by (rule finish256_nonzero_by_lane [OF ex_decision_length _ ex_decision_words])
    (simp_all add: ex_decision_lane0)

lemma ex_routes: "collect_enabled_routes Reduced (bp_projections ex_phenotype) = Inr [2, 0]"
  by (simp add: ex_phenotype_def route_is_mandatory_def route_enabled_def)

lemma ex_decision_derived: "derive_unchecked policy_production_v1 ex_phenotype ex_execution
    ex_identity ex_sample = Inr ex_decision"
proof -
  have made: "\<lparr> td_schema_version = 1, td_policy_version = 1, td_organism_id_raw = 7,
     td_tick = 10, td_class_id_raw = 1, td_handle_slot = 0, td_handle_generation = 1,
     td_sequence_cursor = 5, td_dispatch_generation = 3, td_frame_digest = (11, 12, 13, 14),
     td_level = Reduced, td_pressure = ex_sample, td_microsteps = 3, td_enabled_route_ids = [0, 2],
     td_pressure_digest = ps_sample_digest ex_sample,
     td_route_schedule_digest = route_schedule_digest ex_phenotype 3 [0, 2],
     td_policy_digest = ap_policy_digest policy_production_v1, td_decision_digest = d \<rparr>
     = ex_unsealed\<lparr>td_decision_digest := d\<rparr>" for d
    by (simp add: ex_unsealed_def ex_sample_def ex_route_digest ex_policy_digest)
  have steps: "bp_microstep_count ex_phenotype = 4" "beb_min_microsteps ex_execution = 2"
    "beb_max_microsteps ex_execution = 8" "throttled_microsteps Reduced 4 2 = 3"
    by (simp_all add: ex_phenotype_def ex_execution_def throttled_microsteps_def saturating_sub_def)
  have same: "ex_unsealed\<lparr>td_decision_digest := zero4\<rparr> = ex_unsealed" by (simp add: ex_unsealed_def)
  show ?thesis
    by (simp add: derive_unchecked_def ex_routes steps Let_def ex_identity_def made same
        ex_decision_def ex_decision_digest)
qed

lemma ex_decision_made: "decision_derive policy_production_v1 ex_phenotype ex_execution ex_identity
    ex_sample = Inr ex_decision"
proof -
  have "di_class_id_raw ex_identity = bp_brain_class_id ex_phenotype"
    by (simp add: ex_identity_def ex_phenotype_def)
  then show ?thesis by (simp add: decision_derive_def ex_decision_derived)
qed

section \<open>Witnesses\<close>

theorem throttle_monotone_in_pressure_witness:
  "throttle_raw (throttle_level ex_sample) \<le> throttle_raw (throttle_level ex_sample)"
  by (rule throttle_monotone_in_pressure [OF ex_sample_valid ex_sample_valid]) simp_all

theorem tighter_level_runs_subset_witness: "set [2, 0] \<subseteq> set [2, 0, 1 :: u16]"
  by (rule tighter_level_runs_subset [where l = Full and m = Reduced and rs = "bp_projections ex_phenotype"])
    (simp_all add: ex_routes, simp_all add: ex_phenotype_def route_is_mandatory_def
      route_enabled_def throttle_raw_def)

theorem decision_keeps_essential_routes_witness:
  "2 \<in> set (td_enabled_route_ids ex_decision) \<and> td_microsteps ex_decision \<le> 4"
  using decision_keeps_essential_routes [OF ex_decision_made] by (simp add: ex_phenotype_def)

theorem derived_decision_validates_witness:
  "decision_validate_for ex_decision ex_phenotype ex_execution = Inr ()"
  by (rule derived_decision_validates [OF ex_decision_made])

section \<open>The receipt\<close>

definition ex_counters :: BrainWorkCounters where
  "ex_counters = \<lparr> wc_microsteps = 3, wc_neuron_updates = 10, wc_tile_visits = 2,
     wc_synapse_ops = 30, wc_decoder_candidate_ops = 1, wc_memory_context_ops = 1 \<rparr>"

definition ex_open_receipt :: BrainWorkReceipt where
  "ex_open_receipt = \<lparr> wr_schema_version = 1, wr_class_id_raw = 1, wr_organism_id_raw = 7,
     wr_tick = 10, wr_handle_slot = 0, wr_handle_generation = 1, wr_dispatch_generation = 3,
     wr_frame_digest = (11, 12, 13, 14), wr_sequence_cursor = 5, wr_counters = ex_counters,
     wr_route_schedule_digest =
       (548012711165103154, 10658166295418134645,
        12887779103609095683, 7368712236378697733),
     wr_neural_cost_q24 = 1144, wr_atp_before_q16 = 1000, wr_atp_debit_q16 = 4,
     wr_atp_after_q16 = 996, wr_receipt_digest = zero4 \<rparr>"

definition ex_receipt :: BrainWorkReceipt where
  "ex_receipt = ex_open_receipt\<lparr>wr_receipt_digest := receipt_recompute_digest ex_open_receipt\<rparr>"

definition ex_receipt_words :: "nat list" where
  "ex_receipt_words =
     [9424, 7074703555175407872, 8386653783142785394, 8031939559617558121, 7594585633991912306,
      284985947747440, 30148657411, 11016591114240, 4398046511104, 360287970206679040, 3, 2821,
      787712, 218431488, 60213428224, 5519032975360, 848822976643072, 168099840, 8673820672,
      33006823669760, 286972534849536, 73464968921481216, 360287970189639680, 548012711165103154,
      16819192791738381573, 10867175260164392339, 13611405501807309530, 4913533174508,
      1099528807645184, 16430257340554675200, 3]"

lemma ex_receipt_lane0:
  "nat_lane ex_receipt_words 243 0xa11fea7ed00d0001 = 5452009385767458723"
  by (simp add: nat_lane_def ex_receipt_words_def nat_digest_simps)

lemma ex_receipt_words: "nat_words (map unat (receipt_bytes ex_open_receipt)) = ex_receipt_words"
  by (simp add: ex_receipt_words_def ex_open_receipt_def ex_counters_def receipt_bytes_def
      nat_bytes_simps nat_le_unfold unat_of_nat)

lemma ex_receipt_length: "length (receipt_bytes ex_open_receipt) = 243"
  by (simp add: ex_open_receipt_def receipt_bytes_def writer_defs digest_new_def write_digest4_def)

lemma ex_receipt_digest: "receipt_recompute_digest ex_open_receipt \<noteq> zero4"
  unfolding receipt_recompute_digest_def
  by (rule finish256_nonzero_by_lane [OF ex_receipt_length _ ex_receipt_words])
    (simp_all add: ex_receipt_lane0)

lemma ex_cost: "exact_cost_q24 ex_counters = 1144"
  by (simp add: exact_cost_q24_def ex_counters_def)

lemma ex_debit:
  "neural_cost_q24 cost_production_v1 ex_counters = Inr 1144"
  "q24_to_atp_q16_round_half_up cost_production_v1 1144 = Inr 4"
  by (simp_all add: neural_cost_cases ex_cost round_half_up_cases)

lemma ex_receipt_made: "receipt_try_new policy_production_v1 ex_decision ex_counters 1000 = Inr ex_receipt"
proof -
  have made: "\<lparr> wr_schema_version = 1, wr_class_id_raw = 1, wr_organism_id_raw = 7,
     wr_tick = 10, wr_handle_slot = 0, wr_handle_generation = 1, wr_dispatch_generation = 3,
     wr_frame_digest = (11, 12, 13, 14), wr_sequence_cursor = 5, wr_counters = ex_counters,
     wr_route_schedule_digest = td_route_schedule_digest ex_decision,
     wr_neural_cost_q24 = 1144, wr_atp_before_q16 = 1000, wr_atp_debit_q16 = 4,
     wr_atp_after_q16 = 996, wr_receipt_digest = d \<rparr>
     = ex_open_receipt\<lparr>wr_receipt_digest := d\<rparr>" for d
    by (simp add: ex_open_receipt_def ex_decision_def ex_unsealed_def)
  have same: "ex_open_receipt\<lparr>wr_receipt_digest := zero4\<rparr> = ex_open_receipt"
    by (simp add: ex_open_receipt_def)
  have fields: "wc_microsteps ex_counters = ucast (td_microsteps ex_decision)"
    "td_class_id_raw ex_decision = 1" "td_organism_id_raw ex_decision = 7" "td_tick ex_decision = 10"
    "td_handle_slot ex_decision = 0" "td_handle_generation ex_decision = 1"
    "td_dispatch_generation ex_decision = 3" "td_frame_digest ex_decision = (11, 12, 13, 14)"
    "td_sequence_cursor ex_decision = 5"
    by (simp_all add: ex_counters_def ex_decision_def ex_unsealed_def)
  have seal: "receipt_recompute_digest ex_receipt = wr_receipt_digest ex_receipt"
    by (simp add: ex_receipt_def receipt_recompute_digest_def)
  have valid: "receipt_validate_for policy_production_v1 ex_decision ex_receipt = Inr ()"
    unfolding receipt_validate_for_def seal using ex_receipt_digest
    by (simp add: ex_receipt_def ex_open_receipt_def ex_debit checked_sub_def fields Let_def)
      (simp add: ex_decision_def ex_unsealed_def)
  then show ?thesis
    by (simp add: receipt_try_new_def ex_debit fields BRAIN_ATP_Q16_MAX_def checked_sub_def made same
        Let_def ex_receipt_def [symmetric])
qed

theorem work_receipt_conserves_atp_witness:
  "unat (wr_atp_after_q16 ex_receipt) + unat (wr_atp_debit_q16 ex_receipt) = 1000
    \<and> unat (wr_atp_debit_q16 ex_receipt) = 4"
  using work_receipt_conserves_atp [OF ex_receipt_made] by (simp add: ex_cost)

end
