(* ===== verification/Sleep_Contracts.thy ===== *)
theory Sleep_Contracts
  imports Digest_Encoding
begin

text \<open>
  \<open>crates/alife_core/src/sleep/gpu_contracts.rs\<close>: the identities of one GPU sleep transaction. A
  request names the inputs of a consolidation, the staged output answers one request, the durable
  state says how far a cycle has come, and the driver reports progress as events. The digest helpers
  hash the weight banks, the mutable state image and the final commit.
\<close>

type_synonym PhenotypeHash = digest4
type_synonym ConsolidationJobId = u64

section \<open>Digests of the transaction\<close>

fun write_f32s :: "f32 list \<Rightarrow> bytes \<Rightarrow> bytes contract" where
  "write_f32s [] bs = Inr bs"
| "write_f32s (w # ws) bs = and_then (write_f32 w bs) (\<lambda>bs'. write_f32s ws bs')"

definition compute_weight_digest ::
  "bytes \<Rightarrow> PhenotypeHash \<Rightarrow> u16 \<Rightarrow> u64 \<Rightarrow> u8 \<Rightarrow> f32 list \<Rightarrow> f32 list \<Rightarrow> digest4 contract" where
  "compute_weight_digest domain phenotype_hash class_id generation weight_bank lifetime fast =
     (if phenotype_hash = zero4 \<or> generation = 0 \<or> 1 < weight_bank \<or> lifetime = []
         \<or> length lifetime \<noteq> length fast \<or> (try_of_len (length lifetime) :: u32 option) = None
      then Inl ConsolidationGenerationMismatch
      else
        let bs = write_sequence_len (length lifetime)
                (write_u32 (word_of_nat (length lifetime))
                (write_u8 weight_bank
                (write_u64 generation
                (write_u16 class_id
                (write_digest4 phenotype_hash (digest_new domain))))))
        in and_then (write_f32s lifetime bs) (\<lambda>bs.
           and_then (write_f32s fast (write_sequence_len (length fast) bs)) (\<lambda>bs.
             Inr (finish256 bs))))"

definition compute_gpu_sleep_input_weight_digest ::
  "PhenotypeHash \<Rightarrow> u16 \<Rightarrow> u64 \<Rightarrow> u8 \<Rightarrow> f32 list \<Rightarrow> f32 list \<Rightarrow> digest4 contract" where
  "compute_gpu_sleep_input_weight_digest =
     compute_weight_digest (ascii ''ALIFE-GPU-SLEEP-INPUT-V1'')"

definition compute_gpu_sleep_output_weight_digest ::
  "PhenotypeHash \<Rightarrow> u16 \<Rightarrow> u64 \<Rightarrow> u8 \<Rightarrow> f32 list \<Rightarrow> f32 list \<Rightarrow> digest4 contract" where
  "compute_gpu_sleep_output_weight_digest =
     compute_weight_digest (ascii ''ALIFE-GPU-SLEEP-OUTPUT-V1'')"

definition compute_gpu_sleep_mutable_state_digest :: "u32 list \<Rightarrow> digest4" where
  "compute_gpu_sleep_mutable_state_digest ws =
     finish256 (fold write_u32 ws (write_sequence_len (length ws)
       (digest_new (ascii ''ALIFE-GPU-SLEEP-MUTABLE-STATE-V1''))))"

record SleepCommitIdentity =
  sc_staging_digest :: digest4
  sc_phenotype_hash :: PhenotypeHash
  sc_organism_id :: u64
  sc_cycle_id :: u64
  sc_active_weight_generation :: u64
  sc_active_weight_bank :: u8
  sc_active_eligibility_generation :: u64
  sc_active_eligibility_bank :: u8
  sc_replay_journal_generation :: u64
  sc_replay_journal_cursor :: u32
  sc_replay_journal_event_count :: u32
  sc_post_commit_mutable_state_digest :: digest4

text \<open>The twelve arguments of \<open>compute_gpu_sleep_commit_digest\<close> are the fields of the record.\<close>

definition compute_gpu_sleep_commit_digest :: "SleepCommitIdentity \<Rightarrow> digest4 contract" where
  "compute_gpu_sleep_commit_digest c =
     and_then (id_validate (sc_organism_id c)) (\<lambda>_.
       if sc_staging_digest c = zero4 \<or> sc_phenotype_hash c = zero4 \<or> sc_cycle_id c = 0
          \<or> sc_active_weight_generation c = 0 \<or> 1 < sc_active_weight_bank c
          \<or> sc_active_eligibility_generation c = 0 \<or> 1 < sc_active_eligibility_bank c
          \<or> sc_replay_journal_generation c = 0 \<or> sc_post_commit_mutable_state_digest c = zero4
       then Inl ConsolidationGenerationMismatch
       else Inr (finish256
         (write_digest4 (sc_post_commit_mutable_state_digest c)
         (write_u32 (sc_replay_journal_event_count c)
         (write_u32 (sc_replay_journal_cursor c)
         (write_u64 (sc_replay_journal_generation c)
         (write_u8 (sc_active_eligibility_bank c)
         (write_u64 (sc_active_eligibility_generation c)
         (write_u8 (sc_active_weight_bank c)
         (write_u64 (sc_active_weight_generation c)
         (write_u64 (sc_cycle_id c)
         (write_u64 (sc_organism_id c)
         (write_digest4 (sc_phenotype_hash c)
         (write_digest4 (sc_staging_digest c)
         (digest_new (ascii ''ALIFE-GPU-SLEEP-COMMIT-V1''))))))))))))))))"

section \<open>Requests\<close>

record ConsolidationIntent =
  ci_cycle_id :: u64

definition intent_validate :: "ConsolidationIntent \<Rightarrow> unit contract" where
  "intent_validate i = (if ci_cycle_id i = 0 then Inl InvalidId else Inr ())"

definition job_id_try_from_raw :: "u64 \<Rightarrow> ConsolidationJobId contract" where
  "job_id_try_from_raw value = ok_or InvalidId (id_new value)"

record GpuConsolidationRequest =
  cr_schema_version :: u16
  cr_request_flags :: u16
  cr_cycle_id :: u64
  cr_phenotype_hash :: PhenotypeHash
  cr_input_generation :: u64
  cr_expected_output_generation :: u64
  cr_input_digest :: digest4
  cr_replay_digest :: digest4
  cr_max_replay_events :: u32
  cr_max_replay_eligibility_samples :: u32
  cr_request_digest :: digest4

definition request_bytes :: "GpuConsolidationRequest \<Rightarrow> bytes" where
  "request_bytes r =
     write_u32 (cr_max_replay_eligibility_samples r)
    (write_u32 (cr_max_replay_events r)
    (write_digest4 (cr_replay_digest r)
    (write_digest4 (cr_input_digest r)
    (write_u64 (cr_expected_output_generation r)
    (write_u64 (cr_input_generation r)
    (write_digest4 (cr_phenotype_hash r)
    (write_u64 (cr_cycle_id r)
    (write_u16 (cr_request_flags r)
    (write_u16 (cr_schema_version r)
    (digest_new (ascii ''ALIFE-GPU-SLEEP-REQUEST-V1'')))))))))))"

text \<open>The \<open>?\<close> on the overflowing generation is reached only past the four tests before it.\<close>

definition recompute_request_digest :: "GpuConsolidationRequest \<Rightarrow> digest4 contract" where
  "recompute_request_digest r =
     (if cr_schema_version r \<noteq> 1 \<or> cr_request_flags r \<noteq> 0 \<or> cr_cycle_id r = 0
         \<or> cr_phenotype_hash r = zero4 \<or> cr_input_generation r = 0
      then Inl ConsolidationGenerationMismatch
      else and_then (ok_or ConsolidationGenerationMismatch (checked_add (cr_input_generation r) 1))
        (\<lambda>next_generation.
          if cr_expected_output_generation r \<noteq> next_generation
             \<or> cr_input_digest r = zero4 \<or> cr_replay_digest r = zero4
             \<or> cr_max_replay_events r = 0 \<or> 65536 < cr_max_replay_events r
             \<or> cr_max_replay_eligibility_samples r = 0
          then Inl ConsolidationGenerationMismatch
          else Inr (finish256 (request_bytes r))))"

definition request_validate :: "GpuConsolidationRequest \<Rightarrow> unit contract" where
  "request_validate r = and_then (recompute_request_digest r) (\<lambda>d.
     if cr_request_digest r \<noteq> d then Inl ConsolidationGenerationMismatch else Inr ())"

section \<open>Staged outputs\<close>

record ConsolidationStagedOutput =
  so_job_id :: ConsolidationJobId
  so_output_generation :: u64
  so_output_weight_bank :: u8
  so_output_digest :: digest4
  so_eligibility_reset_generation :: u64
  so_output_eligibility_bank :: u8
  so_eligibility_output_digest :: digest4
  so_replay_journal_generation :: u64
  so_replay_journal_cursor :: u32
  so_replay_journal_event_count :: u32
  so_replay_journal_output_digest :: digest4
  so_staging_digest :: digest4
  so_promoted_fast_l1_bits :: u32
  so_replay_induced_fast_l1_bits :: u32

definition staged_validate_fields ::
  "ConsolidationStagedOutput \<Rightarrow> GpuConsolidationRequest \<Rightarrow> unit contract" where
  "staged_validate_fields s r =
     (let promoted = so_promoted_fast_l1_bits s; replay = so_replay_induced_fast_l1_bits s in
      if so_output_generation s \<noteq> cr_expected_output_generation r
         \<or> 1 < so_output_weight_bank s
         \<or> so_output_digest s = zero4
         \<or> so_eligibility_reset_generation s = 0
         \<or> 1 < so_output_eligibility_bank s
         \<or> so_eligibility_output_digest s = zero4
         \<or> so_replay_journal_generation s = 0
         \<or> cr_max_replay_events r < so_replay_journal_cursor s
         \<or> cr_max_replay_events r < so_replay_journal_event_count s
         \<or> so_replay_journal_output_digest s = zero4
         \<or> \<not> f32_is_finite promoted \<or> f32_is_sign_negative promoted
         \<or> \<not> f32_is_finite replay \<or> f32_is_sign_negative replay
      then Inl ConsolidationGenerationMismatch else Inr ())"

definition staging_bytes ::
  "ConsolidationStagedOutput \<Rightarrow> GpuConsolidationRequest \<Rightarrow> u16 \<Rightarrow> u16 \<Rightarrow> bytes" where
  "staging_bytes s r eligibility_reset_policy replay_consume_policy =
     write_u32 (so_replay_induced_fast_l1_bits s)
    (write_u32 (so_promoted_fast_l1_bits s)
    (write_u16 replay_consume_policy
    (write_u16 eligibility_reset_policy
    (write_digest4 (so_replay_journal_output_digest s)
    (write_u32 (so_replay_journal_event_count s)
    (write_u32 (so_replay_journal_cursor s)
    (write_u64 (so_replay_journal_generation s)
    (write_digest4 (so_eligibility_output_digest s)
    (write_u8 (so_output_eligibility_bank s)
    (write_u64 (so_eligibility_reset_generation s)
    (write_digest4 (so_output_digest s)
    (write_u8 (so_output_weight_bank s)
    (write_u64 (so_output_generation s)
    (write_digest4 (cr_phenotype_hash r)
    (write_u64 (cr_cycle_id r)
    (write_u64 (so_job_id s)
    (write_digest4 (cr_request_digest r)
    (digest_new (ascii ''ALIFE-GPU-SLEEP-STAGING-V1'')))))))))))))))))))"

definition recompute_staging_digest ::
  "ConsolidationStagedOutput \<Rightarrow> GpuConsolidationRequest \<Rightarrow> u16 \<Rightarrow> u16 \<Rightarrow> digest4 contract" where
  "recompute_staging_digest s r eligibility_reset_policy replay_consume_policy =
     and_then (request_validate r) (\<lambda>_.
     and_then (staged_validate_fields s r) (\<lambda>_.
       if eligibility_reset_policy \<noteq> 1 \<or> replay_consume_policy \<noteq> 1
       then Inl ConsolidationGenerationMismatch
       else Inr (finish256 (staging_bytes s r eligibility_reset_policy replay_consume_policy))))"

definition staged_validate_against ::
  "ConsolidationStagedOutput \<Rightarrow> GpuConsolidationRequest \<Rightarrow> u16 \<Rightarrow> u16 \<Rightarrow> unit contract" where
  "staged_validate_against s r eligibility_reset_policy replay_consume_policy =
     and_then (recompute_staging_digest s r eligibility_reset_policy replay_consume_policy) (\<lambda>d.
       if so_staging_digest s \<noteq> d then Inl ConsolidationGenerationMismatch else Inr ())"

section \<open>Durable progress\<close>

datatype ConsolidationState =
    CS_None
  | CS_Pending ConsolidationIntent digest4 u32 u32
  | CS_Prepared GpuConsolidationRequest
  | CS_Submitted GpuConsolidationRequest ConsolidationJobId
  | CS_Completed GpuConsolidationRequest ConsolidationStagedOutput
  | CS_Committed u64 u64 digest4

fun consolidation_kind_raw :: "ConsolidationState \<Rightarrow> u16" where
  "consolidation_kind_raw CS_None = 0"
| "consolidation_kind_raw (CS_Pending _ _ _ _) = 1"
| "consolidation_kind_raw (CS_Prepared _) = 2"
| "consolidation_kind_raw (CS_Submitted _ _) = 3"
| "consolidation_kind_raw (CS_Completed _ _) = 4"
| "consolidation_kind_raw (CS_Committed _ _ _) = 5"

fun consolidation_validate_for_cycle :: "ConsolidationState \<Rightarrow> u64 \<Rightarrow> unit contract" where
  "consolidation_validate_for_cycle CS_None active = Inr ()"
| "consolidation_validate_for_cycle (CS_Pending intent replay_digest events samples) active =
     and_then (intent_validate intent) (\<lambda>_.
       if ci_cycle_id intent \<noteq> active \<or> replay_digest = zero4 \<or> (events = 0 \<and> samples \<noteq> 0)
       then Inl ConsolidationGenerationMismatch else Inr ())"
| "consolidation_validate_for_cycle (CS_Prepared request) active =
     and_then (request_validate request) (\<lambda>_.
       if cr_cycle_id request = active then Inr () else Inl ConsolidationGenerationMismatch)"
| "consolidation_validate_for_cycle (CS_Submitted request _) active =
     and_then (request_validate request) (\<lambda>_.
       if cr_cycle_id request = active then Inr () else Inl ConsolidationGenerationMismatch)"
| "consolidation_validate_for_cycle (CS_Completed request staged) active =
     and_then (request_validate request) (\<lambda>_.
     and_then (staged_validate_against staged request 1 1) (\<lambda>_.
       if cr_cycle_id request = active then Inr () else Inl ConsolidationGenerationMismatch))"
| "consolidation_validate_for_cycle (CS_Committed cycle_id output_generation output_digest) active =
     (if cycle_id = active \<and> output_generation \<noteq> 0 \<and> output_digest \<noteq> zero4
      then Inr () else Inl ConsolidationGenerationMismatch)"

datatype ConsolidationDriverEvent =
    EV_ReplayAssetPersisted ConsolidationIntent digest4 u32 u32
  | EV_Prepared GpuConsolidationRequest
  | EV_Submitted GpuConsolidationRequest ConsolidationJobId
  | EV_RecoveredSubmitted GpuConsolidationRequest ConsolidationJobId ConsolidationJobId
  | EV_Completed GpuConsolidationRequest ConsolidationStagedOutput
  | EV_Committed u64 u64 digest4

section \<open>Sealed requests and outputs\<close>

lemma request_bytes_reseal [simp]: "request_bytes (r\<lparr>cr_request_digest := d\<rparr>) = request_bytes r"
  by (simp add: request_bytes_def)

lemma recompute_request_reseal [simp]:
  "recompute_request_digest (r\<lparr>cr_request_digest := d\<rparr>) = recompute_request_digest r"
  by (simp add: recompute_request_digest_def cong: if_cong)

interpretation request_seal: sealed_record cr_request_digest
  "\<lambda>d r. r\<lparr>cr_request_digest := d\<rparr>" recompute_request_digest "\<lambda>r. request_validate r = Inr ()"
  by unfold_locales (auto simp: request_validate_def split: if_splits)

lemma staging_reseal [simp]:
  "recompute_staging_digest (s\<lparr>so_staging_digest := d\<rparr>) r p q = recompute_staging_digest s r p q"
  by (simp add: recompute_staging_digest_def staged_validate_fields_def staging_bytes_def)

interpretation staging_seal: sealed_record so_staging_digest
  "\<lambda>d s. s\<lparr>so_staging_digest := d\<rparr>" "\<lambda>s. recompute_staging_digest s request p q"
  "\<lambda>s. staged_validate_against s request p q = Inr ()" for request p q
  by unfold_locales (auto simp: staged_validate_against_def split: if_splits)

lemma request_validate_fields:
  assumes "request_validate r = Inr ()"
  shows "cr_cycle_id r \<noteq> 0" and "cr_input_generation r \<noteq> 0"
    and "unat (cr_expected_output_generation r) = unat (cr_input_generation r) + 1"
    and "cr_replay_digest r \<noteq> zero4" and "cr_max_replay_events r \<le> 65536"
  using assms
  by (auto simp: request_validate_def recompute_request_digest_def not_less checked_add_Some
      split: if_splits dest!: checked_add_Some)

lemma staged_validate_against_fields:
  assumes "staged_validate_against s r p q = Inr ()"
  shows "request_validate r = Inr ()" and "so_output_generation s = cr_expected_output_generation r"
    and "so_output_digest s \<noteq> zero4" and "so_output_weight_bank s \<le> 1"
    and "so_replay_journal_cursor s \<le> cr_max_replay_events r" and "p = 1" and "q = 1"
  using assms
  by (auto simp: staged_validate_against_def recompute_staging_digest_def staged_validate_fields_def
      Let_def not_less split: if_splits)

end
