(* ===== verification/F32_Arith.thy ===== *)
theory F32_Arith
  imports F32
begin

text \<open>
  The arithmetic of \<open>f32\<close>: sums, differences and products are computed exactly on integers in units
  of \<open>2 ^ -149\<close> and rounded once, to nearest with ties to even, which is what the operators of the
  sources do. A decimal literal is its fraction, rounded the same way. The lemmas bound a rounded
  value by a power of two and say when a result cannot be NaN.
\<close>

section \<open>Rounding\<close>

definition round_even :: "nat \<Rightarrow> nat \<Rightarrow> nat" where
  "round_even n d =
     (let q = n div d; r = n mod d
      in if 2 * r < d \<or> (2 * r = d \<and> even q) then q else Suc q)"

fun bit_length :: "nat \<Rightarrow> nat" where
  "bit_length n = (if n = 0 then 0 else Suc (bit_length (n div 2)))"

declare bit_length.simps [simp del]

text \<open>The bits of the positive value \<open>(n / d) * 2 ^ -149\<close>; 0x7f800000 and above means infinity.\<close>

definition f32_bits_of :: "nat \<Rightarrow> nat \<Rightarrow> nat" where
  "f32_bits_of n d =
     (let q = n div d
      in if q < 2 ^ 24 then round_even n d
         else let e = bit_length q - 24 in e * 2 ^ 23 + round_even n (d * 2 ^ e))"

definition f32_round :: "bool \<Rightarrow> nat \<Rightarrow> nat \<Rightarrow> f32" where
  "f32_round negative n d =
     word_of_nat (min (f32_bits_of n d) 0x7f800000 + (if negative then 0x80000000 else 0))"

section \<open>Operators\<close>

definition f32_is_infinite :: "f32 \<Rightarrow> bool" where
  "f32_is_infinite x \<longleftrightarrow> f32_exponent x = 255 \<and> f32_fraction x = 0"

definition f32_nan :: f32 where "f32_nan = 0x7fc00000"

definition f32_neg :: "f32 \<Rightarrow> f32" where "f32_neg x = x XOR 0x80000000"

definition f32_add :: "f32 \<Rightarrow> f32 \<Rightarrow> f32" where
  "f32_add x y =
     (if f32_is_nan x \<or> f32_is_nan y then f32_nan
      else if f32_is_infinite x then
        (if f32_is_infinite y \<and> f32_is_sign_negative x \<noteq> f32_is_sign_negative y then f32_nan else x)
      else if f32_is_infinite y then y
      else let s = f32_scaled x + f32_scaled y
           in if s = 0 then (if f32_is_sign_negative x \<and> f32_is_sign_negative y then 0x80000000 else 0)
              else f32_round (s < 0) (nat \<bar>s\<bar>) 1)"

definition f32_sub :: "f32 \<Rightarrow> f32 \<Rightarrow> f32" where
  "f32_sub x y = f32_add x (if f32_is_nan y then y else f32_neg y)"

definition f32_mul :: "f32 \<Rightarrow> f32 \<Rightarrow> f32" where
  "f32_mul x y =
     (let negative = (f32_is_sign_negative x \<noteq> f32_is_sign_negative y)
      in if f32_is_nan x \<or> f32_is_nan y then f32_nan
         else if f32_is_infinite x \<or> f32_is_infinite y then
           (if f32_magnitude x = 0 \<or> f32_magnitude y = 0 then f32_nan
            else if negative then 0xff800000 else 0x7f800000)
         else f32_round negative (f32_magnitude x * f32_magnitude y) (2 ^ 149))"

text \<open>\<open>n as f32\<close> of an unsigned integer, and the literal \<open>n / d\<close>.\<close>

definition f32_of_nat :: "nat \<Rightarrow> f32" where
  "f32_of_nat n = f32_round False (n * 2 ^ 149) 1"

definition f32_lit :: "nat \<Rightarrow> nat \<Rightarrow> f32" where
  "f32_lit n d = f32_round False (n * 2 ^ 149) d"

definition f32_min :: "f32 \<Rightarrow> f32 \<Rightarrow> f32" where
  "f32_min x y =
     (if f32_is_nan x then y else if f32_is_nan y then x else if f32_lt y x then y else x)"

text \<open>\<open>f32::clamp\<close>; NaN passes through.\<close>

definition f32_clamp :: "f32 \<Rightarrow> f32 \<Rightarrow> f32 \<Rightarrow> f32" where
  "f32_clamp lo hi x = (if f32_lt x lo then lo else if f32_lt hi x then hi else x)"

section \<open>Rounding lemmas\<close>

lemma round_even_le: "n \<le> m * d \<Longrightarrow> 0 < d \<Longrightarrow> round_even n d \<le> m"
proof -
  assume n: "n \<le> m * d" and d: "0 < d"
  have q: "n div d \<le> m" using div_le_mono [OF n, of d] d by simp
  show ?thesis
  proof (cases "n div d = m")
    case True
    then have "n mod d = 0" using n d
      by (metis add.right_neutral add_le_cancel_left div_mult_mod_eq le_zero_eq)
    with True d show ?thesis by (simp add: round_even_def)
  next
    case False
    with q show ?thesis by (simp add: round_even_def Let_def)
  qed
qed

lemma round_even_ge: "m * d \<le> n \<Longrightarrow> 0 < d \<Longrightarrow> m \<le> round_even n d"
proof -
  assume "m * d \<le> n" "0 < d"
  then have "m \<le> n div d" by (metis div_le_mono div_mult_self_is_m)
  then show ?thesis by (simp add: round_even_def Let_def)
qed

lemma bit_length_bounds: "n \<noteq> 0 \<Longrightarrow> 2 ^ (bit_length n - 1) \<le> n \<and> n < 2 ^ bit_length n \<and> 0 < bit_length n"
proof (induction n rule: bit_length.induct)
  case (1 n)
  show ?case
  proof (cases "n div 2 = 0")
    case True
    with 1 have "n = 1" by simp
    then show ?thesis by (simp add: bit_length.simps)
  next
    case False
    with 1 have IH: "2 ^ (bit_length (n div 2) - 1) \<le> n div 2" "n div 2 < 2 ^ bit_length (n div 2)"
      "0 < bit_length (n div 2)" by auto
    then obtain k where k: "bit_length (n div 2) = Suc k" by (cases "bit_length (n div 2)") auto
    have "bit_length n = Suc (Suc k)" using 1 k by (simp add: bit_length.simps [of n])
    with IH k show ?thesis by simp linarith
  qed
qed

text \<open>The magnitude of a pattern without its sign.\<close>

definition bits_value :: "nat \<Rightarrow> nat" where
  "bits_value b =
     (if b div 2 ^ 23 = 0 then b else (b mod 2 ^ 23 + 2 ^ 23) * 2 ^ (b div 2 ^ 23 - 1))"

lemma bits_value_normal:
  assumes "2 ^ 23 \<le> m" "m \<le> 2 ^ 24"
  shows "bits_value (e * 2 ^ 23 + m) = m * 2 ^ e"
proof (cases "m = 2 ^ 24")
  case True
  then show ?thesis by (simp add: bits_value_def)
next
  case False
  define f where "f = m - 2 ^ 23"
  have f: "m = 2 ^ 23 + f" "f < 2 ^ 23" using assms False by (simp_all add: f_def)
  have "e * 2 ^ 23 + m = f + Suc e * 2 ^ 23" using f by simp
  then have "(e * 2 ^ 23 + m) div 2 ^ 23 = Suc e" "(e * 2 ^ 23 + m) mod 2 ^ 23 = f"
    using f(2) by (simp_all del: mult_Suc)
  then show ?thesis using f by (simp add: bits_value_def)
qed


lemma f32_exponent_unat: "f32_exponent x = unat x div 2 ^ 23 mod 256"
proof -
  have "drop_bit 23 x AND 255 = take_bit 8 (drop_bit 23 x)"
    by (simp add: take_bit_eq_mask mask_eq_exp_minus_1)
  then show ?thesis
    by (simp add: f32_exponent_def take_bit_eq_mod drop_bit_eq_div unat_mod_distrib unat_div_distrib)
qed

lemma f32_fraction_unat: "f32_fraction x = unat x mod 2 ^ 23"
proof -
  have "x AND 8388607 = take_bit 23 x" by (simp add: take_bit_eq_mask mask_eq_exp_minus_1)
  then show ?thesis by (simp add: f32_fraction_def take_bit_eq_mod unat_mod_distrib)
qed

lemma f32_sign_unat: "f32_is_sign_negative x \<longleftrightarrow> 2 ^ 31 \<le> unat x"
proof -
  have "unat x < 2 ^ 32" using unsigned_less [where 'a=nat, of x] by simp
  then have "odd (unat x div 2 ^ 31) \<longleftrightarrow> 2 ^ 31 \<le> unat x"
    by (cases "unat x < 2 ^ 31") (simp_all add: div_nat_eqI [where q = 1])
  moreover have "bit x 31 \<longleftrightarrow> bit (unat x) 31" by (simp add: bit_unsigned_iff)
  ultimately show ?thesis by (simp add: f32_is_sign_negative_def bit_iff_odd)
qed


lemma f32_round_fields:
  fixes n d :: nat
  defines "b \<equiv> min (f32_bits_of n d) 0x7f800000"
  shows "f32_exponent (f32_round s n d) = b div 2 ^ 23"
    and "f32_fraction (f32_round s n d) = b mod 2 ^ 23"
    and "f32_is_sign_negative (f32_round s n d) \<longleftrightarrow> s"
proof -
  have b: "b \<le> 0x7f800000" by (simp add: b_def)
  have u: "unat (f32_round s' n d) = b + (if s' then 0x80000000 else 0)" for s'
    unfolding f32_round_def b_def [symmetric] using b
    by (cases s') (simp_all add: unat_of_nat del: of_nat_add)
  have e: "b div 8388608 < 256" using b by simp
  have shift: "(b + 2147483648) div 8388608 = b div 8388608 + 256"
    and shift': "(b + 2147483648) mod 8388608 = b mod 8388608"
    using div_mult_self1 [of 8388608 b 256] mod_mult_self1 [of b 256 8388608] by simp_all
  show "f32_exponent (f32_round s n d) = b div 2 ^ 23"
    using e shift by (cases s) (simp_all add: f32_exponent_unat u)
  show "f32_fraction (f32_round s n d) = b mod 2 ^ 23"
    using shift' by (cases s) (simp_all add: f32_fraction_unat u)
  show "f32_is_sign_negative (f32_round s n d) \<longleftrightarrow> s"
    using b by (cases s) (simp_all add: f32_sign_unat u)
qed

lemma f32_round_not_nan [simp]: "\<not> f32_is_nan (f32_round s n d)"
proof -
  have "b \<le> 0x7f800000 \<Longrightarrow> b div 8388608 = 255 \<Longrightarrow> b mod 8388608 = 0" for b :: nat
    using div_mult_mod_eq [of b 8388608] by linarith
  then show ?thesis by (simp add: f32_is_nan_def f32_round_fields)
qed

lemma f32_round_magnitude:
  "f32_magnitude (f32_round s n d) = bits_value (min (f32_bits_of n d) 0x7f800000)"
proof -
  have "b div 2 ^ 23 = 0 \<Longrightarrow> b mod 2 ^ 23 = b" for b :: nat by simp
  then show ?thesis by (simp add: f32_magnitude_def f32_round_fields bits_value_def)
qed

lemma f32_round_finite_iff: "f32_is_finite (f32_round s n d) \<longleftrightarrow> f32_bits_of n d < 0x7f800000"
  by (auto simp: f32_is_finite_def f32_round_fields min_def)

lemma bits_value_small: "b \<le> 2 ^ 24 \<Longrightarrow> bits_value b = b"
  using bits_value_normal [of b 0] by (cases "2 ^ 23 \<le> b") (simp_all add: bits_value_def)

text \<open>A value that is at most a power of two stays so when it is rounded.\<close>

lemma f32_bits_bound:
  assumes d: "0 < d" and n: "n \<le> 2 ^ k * d" and k: "24 \<le> k" "k \<le> 276"
  shows "f32_bits_of n d < 0x7f800000 \<and> bits_value (f32_bits_of n d) \<le> 2 ^ k"
proof (cases "n div d < 2 ^ 24")
  case True
  then have "n < 2 ^ 24 * d" by (metis d div_less_iff_less_mult)
  then have "round_even n d \<le> 2 ^ 24" using d by (intro round_even_le) simp_all
  moreover have "(2 :: nat) ^ 24 \<le> 2 ^ k" using k by (intro power_increasing) simp_all
  ultimately show ?thesis using True by (simp add: f32_bits_of_def bits_value_small)
next
  case False
  let ?q = "n div d" and ?e = "bit_length (n div d) - 24"
  let ?m = "round_even n (d * 2 ^ ?e)"
  have q: "2 ^ (bit_length ?q - 1) \<le> ?q" "?q < 2 ^ bit_length ?q" "?q \<le> 2 ^ k"
    using bit_length_bounds [of ?q] False div_le_mono [OF n, of d] d by auto
  have len: "25 \<le> bit_length ?q"
  proof (rule ccontr)
    assume "\<not> 25 \<le> bit_length ?q"
    then have "(2 :: nat) ^ bit_length ?q \<le> 2 ^ 24" by (intro power_increasing) simp_all
    with q False show False by simp
  qed
  then obtain j where j: "bit_length ?q = 25 + j" using le_Suc_ex by blast
  have split: "2 ^ bit_length ?q = (2 :: nat) ^ 24 * 2 ^ ?e"
    "2 ^ (bit_length ?q - 1) = (2 :: nat) ^ 23 * 2 ^ ?e"
    by (simp_all add: j power_add)
  have "2 ^ 23 * 2 ^ ?e * d \<le> ?q * d" using q(1) unfolding split(2) by (rule mult_le_mono1)
  also have "\<dots> \<le> n" by simp
  finally have "2 ^ 23 * (d * 2 ^ ?e) \<le> n" by (simp add: mult_ac)
  then have lo: "2 ^ 23 \<le> ?m" using d by (intro round_even_ge) simp_all
  have "n < 2 ^ 24 * 2 ^ ?e * d" using q(2) unfolding split(1) div_less_iff_less_mult [OF d] .
  then have "n < 2 ^ 24 * (d * 2 ^ ?e)" by (simp add: mult_ac)
  then have hi: "?m \<le> 2 ^ 24" using d by (intro round_even_le) simp_all
  have bits: "f32_bits_of n d = ?e * 2 ^ 23 + ?m" using False by (simp add: f32_bits_of_def Let_def)
  have val: "bits_value (f32_bits_of n d) = ?m * 2 ^ ?e" unfolding bits by (rule bits_value_normal [OF lo hi])
  have "(2 :: nat) ^ (bit_length ?q - 1) \<le> 2 ^ k" using q by linarith
  then have le: "bit_length ?q - 1 \<le> k" by (rule power_le_imp_le_exp [rotated]) simp
  show ?thesis
  proof (cases "bit_length ?q - 1 = k")
    case True
    then have "n \<le> 2 ^ 23 * (d * 2 ^ ?e)"
      using n by (auto simp: j power_add mult_ac)
    then have m: "?m \<le> 2 ^ 23" using d by (intro round_even_le) simp_all
    have "?m * 2 ^ ?e \<le> 2 ^ 23 * 2 ^ ?e" by (rule mult_le_mono1) (rule m)
    also have "\<dots> = 2 ^ k" using True split(2) by simp
    finally have "?m * 2 ^ ?e \<le> 2 ^ k" .
    moreover have "?e \<le> 253" using True k by simp
    then have "f32_bits_of n d < 0x7f800000" unfolding bits using m by simp
    ultimately show ?thesis by (simp only: val)
  next
    case False
    have "?m * 2 ^ ?e \<le> 2 ^ 24 * 2 ^ ?e" by (rule mult_le_mono1) (rule hi)
    also have "\<dots> \<le> 2 ^ k" using False le unfolding split(1) [symmetric] by (intro power_increasing) simp_all
    finally have "?m * 2 ^ ?e \<le> 2 ^ k" .
    moreover have "?e \<le> 252" using False le k by simp
    then have "f32_bits_of n d < 0x7f800000" unfolding bits using hi by simp
    ultimately show ?thesis by (simp only: val)
  qed
qed


section \<open>Bounded values\<close>

text \<open>\<open>f32_bounded k x\<close>: \<open>x\<close> is finite and at most \<open>2 ^ (k - 149)\<close> in magnitude.\<close>

definition f32_bounded :: "nat \<Rightarrow> f32 \<Rightarrow> bool" where
  "f32_bounded k x \<longleftrightarrow> f32_is_finite x \<and> f32_magnitude x \<le> 2 ^ k"

lemma f32_bounded_finite: "f32_bounded k x \<Longrightarrow> f32_is_finite x"
  by (simp add: f32_bounded_def)

lemma f32_bounded_not_nan: "f32_bounded k x \<Longrightarrow> \<not> f32_is_nan x"
  by (simp add: f32_bounded_def f32_finite_not_nan)

lemma f32_finite_not_infinite: "f32_is_finite x \<Longrightarrow> \<not> f32_is_infinite x"
  by (simp add: f32_is_finite_def f32_is_infinite_def)

lemma f32_round_bounded:
  assumes "0 < d" "n \<le> 2 ^ k * d" "24 \<le> k" "k \<le> 276"
  shows "f32_bounded k (f32_round s n d)"
  using f32_bits_bound [OF assms]
  by (simp add: f32_bounded_def f32_round_finite_iff f32_round_magnitude min_def)

lemma f32_scaled_abs: "\<bar>f32_scaled x\<bar> = int (f32_magnitude x)"
  by (simp add: f32_scaled_def)

lemma f32_zero_bounded: "f32_bounded k 0" "f32_bounded k 0x80000000"
  by (simp_all add: f32_bounded_def f32_is_finite_def f32_magnitude_def f32_exponent_unat f32_fraction_unat)

lemma f32_add_bounded:
  assumes "f32_bounded k x" "f32_bounded k y" "24 \<le> k" "k \<le> 275"
  shows "f32_bounded (Suc k) (f32_add x y)"
proof -
  let ?s = "f32_scaled x + f32_scaled y"
  have "\<bar>?s\<bar> \<le> int (f32_magnitude x) + int (f32_magnitude y)"
    unfolding f32_scaled_abs [symmetric] by (rule abs_triangle_ineq)
  moreover have "f32_magnitude x + f32_magnitude y \<le> 2 ^ Suc k"
    using assms(1,2) by (simp add: f32_bounded_def)
  then have "int (f32_magnitude x) + int (f32_magnitude y) \<le> int (2 ^ Suc k)"
    by (simp only: of_nat_add [symmetric] of_nat_le_iff)
  ultimately have "nat \<bar>?s\<bar> \<le> 2 ^ Suc k * 1" by linarith
  then have "f32_bounded (Suc k) (f32_round (?s < 0) (nat \<bar>?s\<bar>) 1)"
    using assms by (intro f32_round_bounded) simp_all
  then show ?thesis
    using assms(1,2) [THEN f32_bounded_not_nan] f32_zero_bounded
      assms(1,2) [THEN f32_bounded_finite, THEN f32_finite_not_infinite]
    by (simp add: f32_add_def Let_def)
qed

lemma f32_mul_bounded:
  assumes "f32_bounded j x" "f32_bounded k y" "j + k \<le> m + 149" "24 \<le> m" "m \<le> 276"
  shows "f32_bounded m (f32_mul x y)"
proof -
  have "f32_magnitude x * f32_magnitude y \<le> 2 ^ j * 2 ^ k"
    using assms(1,2) by (intro mult_le_mono) (simp_all add: f32_bounded_def)
  also have "\<dots> \<le> 2 ^ m * 2 ^ 149"
    unfolding power_add [symmetric] using assms(3) by (intro power_increasing) simp_all
  finally show ?thesis
    using assms(1,2) [THEN f32_bounded_not_nan] assms(4,5)
      assms(1,2) [THEN f32_bounded_finite, THEN f32_finite_not_infinite]
    by (simp only: f32_mul_def Let_def if_False de_Morgan_disj simp_thms)
      (rule f32_round_bounded, simp_all only: zero_less_power zero_less_numeral)
qed

lemma f32_of_nat_bounded: "n \<le> 2 ^ m \<Longrightarrow> m \<le> 127 \<Longrightarrow> f32_bounded (m + 149) (f32_of_nat n)"
  unfolding f32_of_nat_def power_add [symmetric]
proof (rule f32_round_bounded)
  assume "n \<le> 2 ^ m"
  then show "n * 2 ^ 149 \<le> 2 ^ (m + 149) * 1" unfolding power_add mult_1_right by (rule mult_le_mono1)
qed simp_all


section \<open>Negation, differences and clamping\<close>

lemma f32_neg_bit: "bit (f32_neg x) n \<longleftrightarrow> (if n = 31 then \<not> bit x 31 else bit x n)"
proof -
  have c: "(0x80000000 :: f32) = push_bit 31 1" by (simp add: push_bit_eq_mult)
  have flip: "bit (x XOR push_bit m 1) n \<longleftrightarrow> (if n = m then \<not> bit x m else bit x n)" if "m < 32" for m
    using that by (auto simp: bit_xor_iff bit_exp_iff dest: bit_imp_le_length)
  show ?thesis unfolding f32_neg_def c by (rule flip) simp
qed

lemma f32_neg_fields [simp]:
  "f32_exponent (f32_neg x) = f32_exponent x" "f32_fraction (f32_neg x) = f32_fraction x"
  "f32_is_sign_negative (f32_neg x) \<longleftrightarrow> \<not> f32_is_sign_negative x"
proof -
  have m: "(255 :: f32) = mask 8" "(8388607 :: f32) = mask 23" by (simp_all add: mask_eq_exp_minus_1)
  have "drop_bit 23 (f32_neg x) AND mask 8 = drop_bit 23 x AND mask 8"
    by (rule bit_word_eqI) (auto simp: bit_and_iff bit_drop_bit_eq bit_mask_iff f32_neg_bit)
  then show "f32_exponent (f32_neg x) = f32_exponent x" by (simp only: f32_exponent_def m)
  have "f32_neg x AND mask 23 = x AND mask 23"
    by (rule bit_word_eqI) (auto simp: bit_and_iff bit_mask_iff f32_neg_bit)
  then show "f32_fraction (f32_neg x) = f32_fraction x" by (simp only: f32_fraction_def m)
  show "f32_is_sign_negative (f32_neg x) \<longleftrightarrow> \<not> f32_is_sign_negative x"
    by (simp add: f32_is_sign_negative_def f32_neg_bit)
qed

lemma f32_neg_kind [simp]:
  "f32_is_nan (f32_neg x) \<longleftrightarrow> f32_is_nan x" "f32_is_finite (f32_neg x) \<longleftrightarrow> f32_is_finite x"
  "f32_magnitude (f32_neg x) = f32_magnitude x" "f32_bounded k (f32_neg x) \<longleftrightarrow> f32_bounded k x"
  "f32_scaled (f32_neg x) = - f32_scaled x"
  by (simp_all add: f32_is_nan_def f32_is_finite_def f32_magnitude_def f32_bounded_def f32_scaled_def)

lemma f32_nan_iff_kind: "f32_is_nan x \<longleftrightarrow> \<not> f32_is_finite x \<and> \<not> f32_is_infinite x"
  by (auto simp: f32_is_nan_def f32_is_finite_def f32_is_infinite_def)

lemma f32_add_not_nan:
  "f32_is_finite x \<Longrightarrow> \<not> f32_is_nan y \<Longrightarrow> \<not> f32_is_nan (f32_add x y)"
  by (simp add: f32_add_def Let_def f32_finite_not_nan f32_finite_not_infinite
      f32_bounded_not_nan [OF f32_zero_bounded(1)] f32_bounded_not_nan [OF f32_zero_bounded(2)])

lemma f32_sub_not_nan:
  "f32_is_finite x \<Longrightarrow> \<not> f32_is_nan y \<Longrightarrow> \<not> f32_is_nan (f32_sub x y)"
  by (simp add: f32_sub_def f32_add_not_nan)

lemma f32_sub_bounded:
  "f32_bounded k x \<Longrightarrow> f32_bounded k y \<Longrightarrow> 24 \<le> k \<Longrightarrow> k \<le> 275 \<Longrightarrow> f32_bounded (Suc k) (f32_sub x y)"
  by (simp add: f32_sub_def f32_bounded_not_nan f32_add_bounded)

lemma f32_mul_not_nan: "f32_is_finite x \<Longrightarrow> f32_is_finite y \<Longrightarrow> \<not> f32_is_nan (f32_mul x y)"
  by (simp add: f32_mul_def Let_def f32_finite_not_nan f32_finite_not_infinite)

lemma f32_max_not_nan: "\<not> f32_is_nan x \<Longrightarrow> \<not> f32_is_nan y \<Longrightarrow> \<not> f32_is_nan (f32_max x y)"
  by (simp add: f32_max_def)

lemma f32_min_not_nan: "\<not> f32_is_nan x \<Longrightarrow> \<not> f32_is_nan y \<Longrightarrow> \<not> f32_is_nan (f32_min x y)"
  by (simp add: f32_min_def)

lemma f32_clamp_in_range:
  "\<not> f32_is_nan x \<Longrightarrow> f32_le lo hi \<Longrightarrow> f32_in_range lo hi (f32_clamp lo hi x)"
  by (auto simp: f32_clamp_def f32_in_range_def f32_le_def f32_lt_def)

lemma f32_consts [simp]:
  "f32_scaled f32_zero = 0" "f32_scaled f32_one = 2 ^ 149" "f32_scaled f32_minus_one = - (2 ^ 149)"
  "\<not> f32_is_nan f32_zero" "\<not> f32_is_nan f32_one" "\<not> f32_is_nan f32_minus_one"
  by (simp_all add: f32_zero_def f32_one_def f32_minus_one_def f32_scaled_def f32_magnitude_def
      f32_is_nan_def f32_exponent_unat f32_fraction_unat f32_sign_unat)

lemma f32_unit_bounded:
  assumes "f32_in_range f32_minus_one f32_one x"
  shows "f32_bounded 149 x"
proof -
  have s: "- (2 ^ 149) \<le> f32_scaled x" "f32_scaled x \<le> 2 ^ 149" and nn: "\<not> f32_is_nan x"
    using assms by (simp_all add: f32_in_range_def f32_le_def)
  then have m: "int (f32_magnitude x) \<le> 2 ^ 149" unfolding f32_scaled_abs [symmetric] by linarith
  have "f32_is_finite x"
  proof (rule ccontr)
    assume "\<not> f32_is_finite x"
    then have "f32_exponent x = 255" by (simp add: f32_is_finite_def)
    then have "2 ^ 23 * 2 ^ 254 \<le> f32_magnitude x" by (simp add: f32_magnitude_def)
    with m show False by simp
  qed
  with m show ?thesis by (simp add: f32_bounded_def flip: of_nat_le_iff)
qed

lemma f32_in_range_weaken:
  "f32_in_range f32_zero f32_one x \<Longrightarrow> f32_in_range f32_minus_one f32_one x"
  by (auto simp: f32_in_range_def f32_le_def)

end
