(* ===== verification/Chemistry.thy ===== *)
theory Chemistry
  imports Contracts F32_Arith
begin

text \<open>
  \<open>crates/alife_core/src/chemistry.rs\<close>: the drives and hormones of an organism, their drift and decay
  between ticks, the deltas that events apply, the modulation of learning, salience and motor
  confidence, and the assessment that sends an organism to recovery sleep. Every value is an \<open>f32\<close>
  and every operator is the rounded one of \<^theory_text>\<open>F32_Arith\<close>.
\<close>

section \<open>Ranges\<close>

definition validate_unit_values :: "f32 list \<Rightarrow> unit contract" where
  "validate_unit_values values = and_then (validate_finite_slice values) (\<lambda>_.
     if list_all (f32_in_range f32_zero f32_one) values then Inr () else Inl OutOfRangeDriveHormone)"

definition validate_signed_unit_values :: "f32 list \<Rightarrow> unit contract" where
  "validate_signed_unit_values values = and_then (validate_finite_slice values) (\<lambda>_.
     if list_all (f32_in_range f32_minus_one f32_one) values then Inr ()
     else Inl OutOfRangeDriveHormone)"

definition clamp01 :: "f32 \<Rightarrow> f32" where
  "clamp01 = f32_clamp f32_zero f32_one"

definition decay_toward :: "f32 \<Rightarrow> f32 \<Rightarrow> f32 \<Rightarrow> f32" where
  "decay_toward value target amount =
     (if f32_lt target value then f32_max (f32_sub value amount) target
      else if f32_lt value target then f32_min (f32_add value amount) target
      else value)"

definition decay_toward_zero :: "f32 \<Rightarrow> f32 \<Rightarrow> f32" where
  "decay_toward_zero value amount = decay_toward value f32_zero amount"

text \<open>\<open>[f32; 2]::map\<close>.\<close>

definition map_slots :: "(f32 \<Rightarrow> f32) \<Rightarrow> f32 \<times> f32 \<Rightarrow> f32 \<times> f32" where
  "map_slots f e = (f (fst e), f (snd e))"

section \<open>Parameters\<close>

record HomeostaticParameters =
  hp_hunger_drift_per_update :: f32
  hp_fatigue_drift_per_update :: f32
  hp_loneliness_drift_per_update :: f32
  hp_curiosity_drift_per_update :: f32
  hp_reproductive_drift_per_update :: f32
  hp_brain_atp_drain_per_update :: f32
  hp_drive_decay_per_update :: f32
  hp_hormone_decay_per_update :: f32
  hp_sleep_pressure_drift_per_update :: f32
  hp_seizure_adrenaline_threshold :: f32
  hp_seizure_cortisol_threshold :: f32
  hp_catatonia_brain_atp_threshold :: f32
  hp_fatigue_sleep_threshold :: f32
  hp_sleep_pressure_threshold :: f32
  hp_pain_frustration_threshold :: f32
  hp_safe_idle_brain_atp_threshold :: f32
  hp_safe_idle_pain_threshold :: f32

definition parameters_reference :: HomeostaticParameters where
  "parameters_reference = \<lparr>
     hp_hunger_drift_per_update = f32_lit 1 100, hp_fatigue_drift_per_update = f32_lit 1 100,
     hp_loneliness_drift_per_update = f32_lit 3 1000,
     hp_curiosity_drift_per_update = f32_lit 2 1000,
     hp_reproductive_drift_per_update = f32_lit 1 1000,
     hp_brain_atp_drain_per_update = f32_lit 1 100, hp_drive_decay_per_update = f32_lit 4 100,
     hp_hormone_decay_per_update = f32_lit 6 100,
     hp_sleep_pressure_drift_per_update = f32_lit 1 100,
     hp_seizure_adrenaline_threshold = f32_lit 95 100,
     hp_seizure_cortisol_threshold = f32_lit 9 10,
     hp_catatonia_brain_atp_threshold = f32_lit 5 100, hp_fatigue_sleep_threshold = f32_lit 9 10,
     hp_sleep_pressure_threshold = f32_lit 85 100,
     hp_pain_frustration_threshold = f32_lit 85 100,
     hp_safe_idle_brain_atp_threshold = f32_lit 8 100,
     hp_safe_idle_pain_threshold = f32_lit 95 100 \<rparr>"

definition parameters_to_array :: "HomeostaticParameters \<Rightarrow> f32 list" where
  "parameters_to_array p = [
     hp_hunger_drift_per_update p, hp_fatigue_drift_per_update p,
     hp_loneliness_drift_per_update p, hp_curiosity_drift_per_update p,
     hp_reproductive_drift_per_update p, hp_brain_atp_drain_per_update p,
     hp_drive_decay_per_update p, hp_hormone_decay_per_update p,
     hp_sleep_pressure_drift_per_update p, hp_seizure_adrenaline_threshold p,
     hp_seizure_cortisol_threshold p, hp_catatonia_brain_atp_threshold p,
     hp_fatigue_sleep_threshold p, hp_sleep_pressure_threshold p,
     hp_pain_frustration_threshold p, hp_safe_idle_brain_atp_threshold p,
     hp_safe_idle_pain_threshold p]"

definition parameters_validate :: "HomeostaticParameters \<Rightarrow> unit contract" where
  "parameters_validate p = validate_unit_values (parameters_to_array p)"

section \<open>Drives\<close>

record DriveSnapshot =
  ds_hunger :: f32
  ds_fatigue :: f32
  ds_fear :: f32
  ds_pain :: f32
  ds_loneliness :: f32
  ds_curiosity :: f32
  ds_brain_atp :: f32
  ds_temperature_stress :: f32
  ds_reproductive_drive :: f32
  ds_extension :: "f32 \<times> f32"

record DriveDelta =
  dd_hunger :: f32
  dd_fatigue :: f32
  dd_fear :: f32
  dd_pain :: f32
  dd_loneliness :: f32
  dd_curiosity :: f32
  dd_brain_atp :: f32
  dd_temperature_stress :: f32
  dd_reproductive_drive :: f32
  dd_extension :: "f32 \<times> f32"

definition drive_baseline :: DriveSnapshot where
  "drive_baseline = \<lparr>
     ds_hunger = f32_lit 25 100, ds_fatigue = f32_lit 2 10, ds_fear = f32_lit 1 10,
     ds_pain = f32_zero, ds_loneliness = f32_lit 15 100, ds_curiosity = f32_lit 45 100,
     ds_brain_atp = f32_lit 75 100, ds_temperature_stress = f32_zero,
     ds_reproductive_drive = f32_lit 1 10, ds_extension = (f32_zero, f32_zero) \<rparr>"

definition drive_to_array :: "DriveSnapshot \<Rightarrow> f32 list" where
  "drive_to_array s = [
     ds_hunger s, ds_fatigue s, ds_fear s, ds_pain s, ds_loneliness s, ds_curiosity s,
     ds_brain_atp s, ds_temperature_stress s, ds_reproductive_drive s, fst (ds_extension s),
     snd (ds_extension s)]"

definition drive_delta_zero :: DriveDelta where
  "drive_delta_zero = \<lparr>
     dd_hunger = f32_zero, dd_fatigue = f32_zero, dd_fear = f32_zero, dd_pain = f32_zero,
     dd_loneliness = f32_zero, dd_curiosity = f32_zero, dd_brain_atp = f32_zero,
     dd_temperature_stress = f32_zero, dd_reproductive_drive = f32_zero,
     dd_extension = (f32_zero, f32_zero) \<rparr>"

definition drive_delta_to_array :: "DriveDelta \<Rightarrow> f32 list" where
  "drive_delta_to_array s = [
     dd_hunger s, dd_fatigue s, dd_fear s, dd_pain s, dd_loneliness s, dd_curiosity s,
     dd_brain_atp s, dd_temperature_stress s, dd_reproductive_drive s, fst (dd_extension s),
     snd (dd_extension s)]"

definition drive_clamp :: "DriveSnapshot \<Rightarrow> DriveSnapshot" where
  "drive_clamp s = \<lparr>
     ds_hunger = clamp01 (ds_hunger s), ds_fatigue = clamp01 (ds_fatigue s),
     ds_fear = clamp01 (ds_fear s), ds_pain = clamp01 (ds_pain s),
     ds_loneliness = clamp01 (ds_loneliness s), ds_curiosity = clamp01 (ds_curiosity s),
     ds_brain_atp = clamp01 (ds_brain_atp s),
     ds_temperature_stress = clamp01 (ds_temperature_stress s),
     ds_reproductive_drive = clamp01 (ds_reproductive_drive s),
     ds_extension = map_slots clamp01 (ds_extension s) \<rparr>"

definition drive_apply_drift :: "DriveSnapshot \<Rightarrow> HomeostaticParameters \<Rightarrow> f32 \<Rightarrow> DriveSnapshot" where
  "drive_apply_drift s p steps =
     (let decay = f32_mul (hp_drive_decay_per_update p) steps in drive_clamp \<lparr>
     ds_hunger = f32_add (ds_hunger s) (f32_mul (hp_hunger_drift_per_update p) steps),
     ds_fatigue = f32_add (ds_fatigue s) (f32_mul (hp_fatigue_drift_per_update p) steps),
     ds_fear = decay_toward_zero (ds_fear s) decay,
     ds_pain = decay_toward_zero (ds_pain s) decay,
     ds_loneliness = f32_add (ds_loneliness s) (f32_mul (hp_loneliness_drift_per_update p) steps),
     ds_curiosity = f32_add (ds_curiosity s) (f32_mul (hp_curiosity_drift_per_update p) steps),
     ds_brain_atp = f32_sub (ds_brain_atp s) (f32_mul (hp_brain_atp_drain_per_update p) steps),
     ds_temperature_stress = decay_toward_zero (ds_temperature_stress s) decay,
     ds_reproductive_drive = f32_add (ds_reproductive_drive s) (f32_mul (hp_reproductive_drift_per_update p) steps),
     ds_extension = map_slots (\<lambda>v. decay_toward_zero v decay) (ds_extension s) \<rparr>)"

definition drive_apply_delta :: "DriveSnapshot \<Rightarrow> DriveDelta \<Rightarrow> DriveSnapshot" where
  "drive_apply_delta s d = drive_clamp \<lparr>
     ds_hunger = f32_add (ds_hunger s) (dd_hunger d),
     ds_fatigue = f32_add (ds_fatigue s) (dd_fatigue d),
     ds_fear = f32_add (ds_fear s) (dd_fear d), ds_pain = f32_add (ds_pain s) (dd_pain d),
     ds_loneliness = f32_add (ds_loneliness s) (dd_loneliness d),
     ds_curiosity = f32_add (ds_curiosity s) (dd_curiosity d),
     ds_brain_atp = f32_add (ds_brain_atp s) (dd_brain_atp d),
     ds_temperature_stress = f32_add (ds_temperature_stress s) (dd_temperature_stress d),
     ds_reproductive_drive = f32_add (ds_reproductive_drive s) (dd_reproductive_drive d),
     ds_extension = (f32_add (fst (ds_extension s)) (fst (dd_extension d)),
       f32_add (snd (ds_extension s)) (snd (dd_extension d))) \<rparr>"

definition drive_validate :: "DriveSnapshot \<Rightarrow> unit contract" where
  "drive_validate s = validate_unit_values (drive_to_array s)"

definition drive_delta_validate :: "DriveDelta \<Rightarrow> unit contract" where
  "drive_delta_validate d = validate_signed_unit_values (drive_delta_to_array d)"

section \<open>Hormones\<close>

record EndocrineSnapshot =
  es_adrenaline :: f32
  es_cortisol :: f32
  es_dopamine :: f32
  es_oxytocin :: f32
  es_serotonin :: f32
  es_acetylcholine :: f32
  es_learning_modulator :: f32
  es_developmental_hormone :: f32
  es_sleep_pressure :: f32
  es_extension :: "f32 \<times> f32"

record EndocrineDelta =
  ed_adrenaline :: f32
  ed_cortisol :: f32
  ed_dopamine :: f32
  ed_oxytocin :: f32
  ed_serotonin :: f32
  ed_acetylcholine :: f32
  ed_learning_modulator :: f32
  ed_developmental_hormone :: f32
  ed_sleep_pressure :: f32
  ed_extension :: "f32 \<times> f32"

definition endocrine_baseline :: EndocrineSnapshot where
  "endocrine_baseline = \<lparr>
     es_adrenaline = f32_lit 2 10, es_cortisol = f32_lit 2 10, es_dopamine = f32_lit 5 10,
     es_oxytocin = f32_lit 5 10, es_serotonin = f32_lit 6 10, es_acetylcholine = f32_lit 5 10,
     es_learning_modulator = f32_lit 5 10, es_developmental_hormone = f32_lit 5 10,
     es_sleep_pressure = f32_lit 2 10, es_extension = (f32_zero, f32_zero) \<rparr>"

definition endocrine_to_array :: "EndocrineSnapshot \<Rightarrow> f32 list" where
  "endocrine_to_array s = [
     es_adrenaline s, es_cortisol s, es_dopamine s, es_oxytocin s, es_serotonin s,
     es_acetylcholine s, es_learning_modulator s, es_developmental_hormone s,
     es_sleep_pressure s, fst (es_extension s), snd (es_extension s)]"

definition endocrine_delta_zero :: EndocrineDelta where
  "endocrine_delta_zero = \<lparr>
     ed_adrenaline = f32_zero, ed_cortisol = f32_zero, ed_dopamine = f32_zero,
     ed_oxytocin = f32_zero, ed_serotonin = f32_zero, ed_acetylcholine = f32_zero,
     ed_learning_modulator = f32_zero, ed_developmental_hormone = f32_zero,
     ed_sleep_pressure = f32_zero, ed_extension = (f32_zero, f32_zero) \<rparr>"

definition endocrine_delta_to_array :: "EndocrineDelta \<Rightarrow> f32 list" where
  "endocrine_delta_to_array s = [
     ed_adrenaline s, ed_cortisol s, ed_dopamine s, ed_oxytocin s, ed_serotonin s,
     ed_acetylcholine s, ed_learning_modulator s, ed_developmental_hormone s,
     ed_sleep_pressure s, fst (ed_extension s), snd (ed_extension s)]"

definition endocrine_clamp :: "EndocrineSnapshot \<Rightarrow> EndocrineSnapshot" where
  "endocrine_clamp s = \<lparr>
     es_adrenaline = clamp01 (es_adrenaline s), es_cortisol = clamp01 (es_cortisol s),
     es_dopamine = clamp01 (es_dopamine s), es_oxytocin = clamp01 (es_oxytocin s),
     es_serotonin = clamp01 (es_serotonin s), es_acetylcholine = clamp01 (es_acetylcholine s),
     es_learning_modulator = clamp01 (es_learning_modulator s),
     es_developmental_hormone = clamp01 (es_developmental_hormone s),
     es_sleep_pressure = clamp01 (es_sleep_pressure s),
     es_extension = map_slots clamp01 (es_extension s) \<rparr>"

definition endocrine_apply_decay ::
  "EndocrineSnapshot \<Rightarrow> HomeostaticParameters \<Rightarrow> f32 \<Rightarrow> EndocrineSnapshot" where
  "endocrine_apply_decay s p steps =
     (let baseline = endocrine_baseline;
          decay = f32_mul (hp_hormone_decay_per_update p) steps;
          sleep_pressure =
            (if f32_lt (es_sleep_pressure baseline) (es_sleep_pressure s)
             then decay_toward (es_sleep_pressure s) (es_sleep_pressure baseline) decay
             else f32_add (es_sleep_pressure s)
               (f32_mul (hp_sleep_pressure_drift_per_update p) steps))
      in endocrine_clamp \<lparr>
     es_adrenaline = decay_toward (es_adrenaline s) (es_adrenaline baseline) decay,
     es_cortisol = decay_toward (es_cortisol s) (es_cortisol baseline) decay,
     es_dopamine = decay_toward (es_dopamine s) (es_dopamine baseline) decay,
     es_oxytocin = decay_toward (es_oxytocin s) (es_oxytocin baseline) decay,
     es_serotonin = decay_toward (es_serotonin s) (es_serotonin baseline) decay,
     es_acetylcholine = decay_toward (es_acetylcholine s) (es_acetylcholine baseline) decay,
     es_learning_modulator = decay_toward (es_learning_modulator s) (es_learning_modulator baseline) decay,
     es_developmental_hormone = decay_toward (es_developmental_hormone s) (es_developmental_hormone baseline) decay,
     es_sleep_pressure = sleep_pressure,
     es_extension = map_slots (\<lambda>v. decay_toward_zero v decay) (es_extension s) \<rparr>)"

definition endocrine_apply_delta :: "EndocrineSnapshot \<Rightarrow> EndocrineDelta \<Rightarrow> EndocrineSnapshot" where
  "endocrine_apply_delta s d = endocrine_clamp \<lparr>
     es_adrenaline = f32_add (es_adrenaline s) (ed_adrenaline d),
     es_cortisol = f32_add (es_cortisol s) (ed_cortisol d),
     es_dopamine = f32_add (es_dopamine s) (ed_dopamine d),
     es_oxytocin = f32_add (es_oxytocin s) (ed_oxytocin d),
     es_serotonin = f32_add (es_serotonin s) (ed_serotonin d),
     es_acetylcholine = f32_add (es_acetylcholine s) (ed_acetylcholine d),
     es_learning_modulator = f32_add (es_learning_modulator s) (ed_learning_modulator d),
     es_developmental_hormone = f32_add (es_developmental_hormone s) (ed_developmental_hormone d),
     es_sleep_pressure = f32_add (es_sleep_pressure s) (ed_sleep_pressure d),
     es_extension = (f32_add (fst (es_extension s)) (fst (ed_extension d)),
       f32_add (snd (es_extension s)) (snd (ed_extension d))) \<rparr>"

definition endocrine_validate :: "EndocrineSnapshot \<Rightarrow> unit contract" where
  "endocrine_validate s = validate_unit_values (endocrine_to_array s)"

definition endocrine_delta_validate :: "EndocrineDelta \<Rightarrow> unit contract" where
  "endocrine_delta_validate d = validate_signed_unit_values (endocrine_delta_to_array d)"

section \<open>Snapshots\<close>

record HomeostaticDelta =
  hd_drives :: DriveDelta
  hd_hormones :: EndocrineDelta

definition homeostatic_delta_zero :: HomeostaticDelta where
  "homeostatic_delta_zero = \<lparr> hd_drives = drive_delta_zero, hd_hormones = endocrine_delta_zero \<rparr>"

definition sleep_recovery_per_tick :: HomeostaticDelta where
  "sleep_recovery_per_tick = \<lparr>
     hd_drives = drive_delta_zero\<lparr>
       dd_fatigue := f32_neg (f32_lit 5 100), dd_brain_atp := f32_lit 4 100 \<rparr>,
     hd_hormones = endocrine_delta_zero\<lparr> ed_sleep_pressure := f32_neg (f32_lit 6 100) \<rparr> \<rparr>"

definition pain_frustration_spike :: "f32 \<Rightarrow> f32 \<Rightarrow> f32 \<Rightarrow> HomeostaticDelta contract" where
  "pain_frustration_spike pain cortisol adrenaline =
     and_then (validate_unit_values [pain, cortisol, adrenaline]) (\<lambda>_. Inr \<lparr>
       hd_drives = drive_delta_zero\<lparr> dd_pain := pain \<rparr>,
       hd_hormones = endocrine_delta_zero\<lparr> ed_cortisol := cortisol, ed_adrenaline := adrenaline \<rparr> \<rparr>)"

definition homeostatic_delta_validate :: "HomeostaticDelta \<Rightarrow> unit contract" where
  "homeostatic_delta_validate d =
     and_then (drive_delta_validate (hd_drives d)) (\<lambda>_.
     and_then (endocrine_delta_validate (hd_hormones d)) (\<lambda>_. Inr ()))"

record HomeostaticSnapshot =
  hs_schema_version :: u16
  hs_tick :: Tick
  hs_drives :: DriveSnapshot
  hs_hormones :: EndocrineSnapshot

definition homeostatic_validate :: "HomeostaticSnapshot \<Rightarrow> unit contract" where
  "homeostatic_validate s =
     and_then (require_current_version Chemistry (hs_schema_version s)) (\<lambda>_.
     and_then (drive_validate (hs_drives s)) (\<lambda>_.
     and_then (endocrine_validate (hs_hormones s)) (\<lambda>_. Inr ())))"

definition homeostatic_new ::
  "Tick \<Rightarrow> DriveSnapshot \<Rightarrow> EndocrineSnapshot \<Rightarrow> HomeostaticSnapshot contract" where
  "homeostatic_new tick drives hormones =
     (let snapshot = \<lparr> hs_schema_version = sv_chemistry schema_versions_CURRENT, hs_tick = tick,
            hs_drives = drives, hs_hormones = hormones \<rparr>
      in and_then (homeostatic_validate snapshot) (\<lambda>_. Inr snapshot))"

definition homeostatic_baseline :: "Tick \<Rightarrow> HomeostaticSnapshot" where
  "homeostatic_baseline tick = \<lparr> hs_schema_version = sv_chemistry schema_versions_CURRENT,
     hs_tick = tick, hs_drives = drive_baseline, hs_hormones = endocrine_baseline \<rparr>"

definition homeostatic_advance ::
  "HomeostaticSnapshot \<Rightarrow> Tick \<Rightarrow> HomeostaticDelta \<Rightarrow> HomeostaticParameters
    \<Rightarrow> HomeostaticSnapshot contract" where
  "homeostatic_advance s next_tick delta parameters =
     and_then (homeostatic_validate s) (\<lambda>_.
     and_then (homeostatic_delta_validate delta) (\<lambda>_.
     and_then (parameters_validate parameters) (\<lambda>_.
     and_then (tick_validate_monotonic (hs_tick s) next_tick) (\<lambda>_.
       let elapsed_ticks = saturating_sub next_tick (hs_tick s);
           steps = f32_of_nat (unat (min elapsed_ticks 0xffffffff));
           drives = drive_apply_delta (drive_apply_drift (hs_drives s) parameters steps)
             (hd_drives delta);
           hormones = endocrine_apply_delta (endocrine_apply_decay (hs_hormones s) parameters steps)
             (hd_hormones delta)
       in homeostatic_new next_tick drives hormones))))"

record EndocrineProfile =
  ep_baseline :: EndocrineSnapshot
  ep_parameters :: HomeostaticParameters

definition endocrine_profile_baseline :: EndocrineProfile where
  "endocrine_profile_baseline =
     \<lparr> ep_baseline = endocrine_baseline, ep_parameters = parameters_reference \<rparr>"

definition endocrine_profile_validate :: "EndocrineProfile \<Rightarrow> unit contract" where
  "endocrine_profile_validate p =
     and_then (endocrine_validate (ep_baseline p)) (\<lambda>_.
     and_then (parameters_validate (ep_parameters p)) (\<lambda>_. Inr ()))"

section \<open>Modulation\<close>

definition learning_rate_scale :: "HomeostaticSnapshot \<Rightarrow> f32 contract" where
  "learning_rate_scale s = and_then (homeostatic_validate s) (\<lambda>_.
     let stress_penalty = f32_sub f32_one (f32_mul (f32_lit 55 100) (es_cortisol (hs_hormones s)));
         reward_gain = f32_add (f32_lit 5 10) (f32_mul (f32_lit 5 10) (es_dopamine (hs_hormones s)));
         energy_gate = f32_add (f32_lit 25 100) (f32_mul (f32_lit 75 100) (ds_brain_atp (hs_drives s)))
     in validate_finite (clamp01 (f32_mul (f32_mul (f32_mul
          (es_learning_modulator (hs_hormones s)) stress_penalty) reward_gain) energy_gate)))"

definition salience_weight :: "HomeostaticSnapshot \<Rightarrow> f32 contract" where
  "salience_weight s = and_then (homeostatic_validate s) (\<lambda>_.
     validate_finite (clamp01
       (f32_add (f32_add (f32_add (f32_add (f32_add (f32_add (f32_lit 15 100)
         (f32_mul (f32_lit 18 100) (ds_curiosity (hs_drives s))))
         (f32_mul (f32_lit 18 100) (ds_fear (hs_drives s))))
         (f32_mul (f32_lit 2 10) (ds_pain (hs_drives s))))
         (f32_mul (f32_lit 12 100) (ds_hunger (hs_drives s))))
         (f32_mul (f32_lit 1 10) (es_adrenaline (hs_hormones s))))
         (f32_mul (f32_lit 7 100) (es_dopamine (hs_hormones s))))))"

definition motor_confidence :: "f32 \<Rightarrow> HomeostaticSnapshot \<Rightarrow> f32 contract" where
  "motor_confidence base_confidence s = and_then (homeostatic_validate s) (\<lambda>_.
     let fatigue_penalty = f32_sub f32_one (f32_mul (f32_lit 35 100) (ds_fatigue (hs_drives s)));
         pain_penalty = f32_sub f32_one (f32_mul (f32_lit 25 100) (ds_pain (hs_drives s)));
         fear_penalty = f32_sub f32_one (f32_mul (f32_lit 2 10) (ds_fear (hs_drives s)));
         energy_gate = f32_add (f32_lit 35 100) (f32_mul (f32_lit 65 100) (ds_brain_atp (hs_drives s)))
     in confidence_new (clamp01 (f32_mul (f32_mul (f32_mul (f32_mul base_confidence
          fatigue_penalty) pain_penalty) fear_penalty) energy_gate)))"

section \<open>Recovery\<close>

datatype RecoveryTrigger =
    Recovery_SeizureHyperactivity | Recovery_CatatoniaEnergyHypoplasia | Recovery_FatigueSleepEntry
  | Recovery_PainFrustrationSpike | Recovery_SafeIdleFallback

record RecoveryAssessment =
  ra_seizure_hyperactivity :: bool
  ra_catatonia_energy_hypoplasia :: bool
  ra_fatigue_sleep_entry :: bool
  ra_pain_frustration_spike :: bool
  ra_safe_idle_fallback :: bool

definition recovery_none :: RecoveryAssessment where
  "recovery_none = \<lparr> ra_seizure_hyperactivity = False, ra_catatonia_energy_hypoplasia = False,
     ra_fatigue_sleep_entry = False, ra_pain_frustration_spike = False,
     ra_safe_idle_fallback = False \<rparr>"

fun recovery_contains :: "RecoveryAssessment \<Rightarrow> RecoveryTrigger \<Rightarrow> bool" where
  "recovery_contains a Recovery_SeizureHyperactivity = ra_seizure_hyperactivity a"
| "recovery_contains a Recovery_CatatoniaEnergyHypoplasia = ra_catatonia_energy_hypoplasia a"
| "recovery_contains a Recovery_FatigueSleepEntry = ra_fatigue_sleep_entry a"
| "recovery_contains a Recovery_PainFrustrationSpike = ra_pain_frustration_spike a"
| "recovery_contains a Recovery_SafeIdleFallback = ra_safe_idle_fallback a"

definition recovery_any :: "RecoveryAssessment \<Rightarrow> bool" where
  "recovery_any a \<longleftrightarrow> ra_seizure_hyperactivity a \<or> ra_catatonia_energy_hypoplasia a
     \<or> ra_fatigue_sleep_entry a \<or> ra_pain_frustration_spike a \<or> ra_safe_idle_fallback a"

definition recovery_triggers ::
  "HomeostaticSnapshot \<Rightarrow> HomeostaticParameters \<Rightarrow> RecoveryAssessment contract" where
  "recovery_triggers s p =
     and_then (homeostatic_validate s) (\<lambda>_.
     and_then (parameters_validate p) (\<lambda>_.
       let seizure_hyperactivity =
             f32_le (hp_seizure_adrenaline_threshold p) (es_adrenaline (hs_hormones s))
             \<and> f32_le (hp_seizure_cortisol_threshold p) (es_cortisol (hs_hormones s));
           catatonia_energy_hypoplasia =
             f32_le (ds_brain_atp (hs_drives s)) (hp_catatonia_brain_atp_threshold p);
           fatigue_sleep_entry =
             f32_le (hp_fatigue_sleep_threshold p) (ds_fatigue (hs_drives s))
             \<or> f32_le (hp_sleep_pressure_threshold p) (es_sleep_pressure (hs_hormones s));
           pain_frustration_spike =
             f32_le (hp_pain_frustration_threshold p) (ds_pain (hs_drives s));
           safe_idle_fallback =
             seizure_hyperactivity \<or> catatonia_energy_hypoplasia
             \<or> f32_le (ds_brain_atp (hs_drives s)) (hp_safe_idle_brain_atp_threshold p)
             \<or> f32_le (hp_safe_idle_pain_threshold p) (ds_pain (hs_drives s))
       in Inr \<lparr> ra_seizure_hyperactivity = seizure_hyperactivity,
            ra_catatonia_energy_hypoplasia = catatonia_energy_hypoplasia,
            ra_fatigue_sleep_entry = fatigue_sleep_entry,
            ra_pain_frustration_spike = pain_frustration_spike,
            ra_safe_idle_fallback = safe_idle_fallback \<rparr>))"

section \<open>Inherited values\<close>

record BiologicalValueProfile =
  vp_drives :: "f32 list"
  vp_hormones :: "f32 list"
  vp_energy :: f32
  vp_injury :: f32
  vp_disappointment :: f32

definition value_profile_default :: BiologicalValueProfile where
  "value_profile_default =
     (let seventh = f32_lit 1 7; minus_seventh = f32_neg (f32_lit 1 7) in \<lparr>
        vp_drives = [minus_seventh, minus_seventh, minus_seventh, minus_seventh, minus_seventh,
          f32_zero, seventh, minus_seventh, f32_zero, f32_zero, f32_zero],
        vp_hormones = replicate 11 f32_zero,
        vp_energy = seventh, vp_injury = f32_one, vp_disappointment = f32_lit 3 100 \<rparr>)"

text \<open>\<open>sum::<f32>()\<close> of the products: the fold starts from negative zero.\<close>

definition f32_sum :: "f32 list \<Rightarrow> f32" where
  "f32_sum xs = fold (\<lambda>x acc. f32_add acc x) xs 0x80000000"

definition value_change :: "BiologicalValueProfile \<Rightarrow> HomeostaticDelta \<Rightarrow> f32 \<Rightarrow> f32" where
  "value_change v delta energy =
     (let drives = (drive_delta_to_array (hd_drives delta))
            [3 := f32_min (dd_pain (hd_drives delta)) f32_zero];
          hormones = (endocrine_delta_to_array (hd_hormones delta))
            [9 := f32_max (fst (ed_extension (hd_hormones delta))) f32_zero];
          value = f32_add (f32_add
              (f32_sum (map2 f32_mul (vp_drives v) drives))
              (f32_sum (map2 f32_mul (vp_hormones v) hormones)))
            (f32_mul (vp_energy v) energy)
      in f32_clamp f32_minus_one f32_one value)"

fun check_value_range :: "f32 list \<Rightarrow> unit contract" where
  "check_value_range [] = Inr ()"
| "check_value_range (x # xs) = and_then (validate_finite x) (\<lambda>_.
     if f32_in_range (f32_neg (f32_of_nat 2)) (f32_of_nat 2) x then check_value_range xs
     else Inl ScalarOutOfRange)"

definition value_profile_validate :: "BiologicalValueProfile \<Rightarrow> unit contract" where
  "value_profile_validate v =
     and_then (check_value_range (vp_drives v @ vp_hormones v
       @ [vp_energy v, vp_injury v, vp_disappointment v])) (\<lambda>_.
     if f32_lt (vp_injury v) f32_zero \<or> f32_lt (vp_disappointment v) f32_zero
        \<or> f32_lt f32_one (vp_disappointment v)
     then Inl ScalarOutOfRange else Inr ())"

end
