(* ===== verification/Sleep_Control.thy ===== *)
theory Sleep_Control
  imports Sleep_Contracts Chemistry
begin

text \<open>
  \<open>crates/alife_core/src/sleep.rs\<close>: the sleep controller. An organism falls asleep by fatigue or by
  force, consolidates through the driver's events, and wakes only from a committed consolidation. The
  methods on \<open>&mut self\<close> return the controller they leave, also when they fail: \<open>transition_to\<close>
  stores the new state before it validates it.
\<close>

section \<open>Phases, triggers and the durable state\<close>

datatype SleepPhase = Awake | EnteringSleep | Consolidating | Waking | ForcedRecoverySleep

fun sleep_phase_raw :: "SleepPhase \<Rightarrow> u16" where
  "sleep_phase_raw Awake = 1"
| "sleep_phase_raw EnteringSleep = 2"
| "sleep_phase_raw Consolidating = 3"
| "sleep_phase_raw Waking = 4"
| "sleep_phase_raw ForcedRecoverySleep = 5"

definition sleep_phase_try_from_raw :: "u16 \<Rightarrow> SleepPhase contract" where
  "sleep_phase_try_from_raw raw =
     (if raw = 1 then Inr Awake else if raw = 2 then Inr EnteringSleep
      else if raw = 3 then Inr Consolidating else if raw = 4 then Inr Waking
      else if raw = 5 then Inr ForcedRecoverySleep else Inl ScalarOutOfRange)"

datatype SleepTrigger =
    FatigueThreshold | ForcedRequest | RecoveryProtocol | SeizureHyperactivity
  | CatatoniaEnergyHypoplasia | ExtremeFatigue | UnsafeActiveState

record SleepTransition =
  st_from :: SleepPhase
  st_to :: SleepPhase
  st_tick :: Tick
  st_trigger :: SleepTrigger

record SleepState =
  ss_schema_version :: u16
  ss_phase :: SleepPhase
  ss_phase_started_tick :: Tick
  ss_entered_sleep_tick :: "Tick option"
  ss_cycles_completed :: u32
  ss_last_trigger :: "SleepTrigger option"
  ss_active_cycle_id :: u64
  ss_last_consolidated_cycle_id :: u64
  ss_consolidation :: ConsolidationState

definition sleep_state_awake_at :: "Tick \<Rightarrow> SleepState" where
  "sleep_state_awake_at tick = \<lparr>
     ss_schema_version = sv_sleep_consolidation schema_versions_CURRENT, ss_phase = Awake,
     ss_phase_started_tick = tick, ss_entered_sleep_tick = None, ss_cycles_completed = 0,
     ss_last_trigger = None, ss_active_cycle_id = 0, ss_last_consolidated_cycle_id = 0,
     ss_consolidation = CS_None \<rparr>"

definition is_committed :: "ConsolidationState \<Rightarrow> bool" where
  "is_committed c = (case c of CS_Committed _ _ _ \<Rightarrow> True | _ \<Rightarrow> False)"

definition sleep_state_validate :: "SleepState \<Rightarrow> unit contract" where
  "sleep_state_validate s =
     and_then (require_current_version SleepConsolidation (ss_schema_version s)) (\<lambda>_.
     and_then (case ss_entered_sleep_tick s of
         Some entered \<Rightarrow> and_then (tick_validate_monotonic entered (ss_phase_started_tick s)) (\<lambda>_. Inr ())
       | None \<Rightarrow> Inr ()) (\<lambda>_.
       if ucast (ss_cycles_completed s) < ss_last_consolidated_cycle_id s
          \<or> (ss_phase s = Awake \<and> (ss_active_cycle_id s \<noteq> 0 \<or> ss_consolidation s \<noteq> CS_None))
          \<or> (ss_phase s \<noteq> Awake \<and> ss_active_cycle_id s = 0)
          \<or> (ss_phase s \<notin> {Consolidating, Waking} \<and> ss_consolidation s \<noteq> CS_None)
          \<or> (ss_phase s = Waking \<and> \<not> is_committed (ss_consolidation s))
       then Inl ConsolidationGenerationMismatch
       else if ss_phase s \<in> {Consolidating, Waking}
       then consolidation_validate_for_cycle (ss_consolidation s) (ss_active_cycle_id s)
       else Inr ()))"

section \<open>Reading a saved state\<close>

text \<open>The serialized form; the last three fields default when an older save lacks them.\<close>

record SleepStateWire =
  sw_schema_version :: u16
  sw_phase :: SleepPhase
  sw_phase_started_tick :: Tick
  sw_entered_sleep_tick :: "Tick option"
  sw_cycles_completed :: u32
  sw_last_trigger :: "SleepTrigger option"
  sw_active_cycle_id :: "u64 option"
  sw_last_consolidated_cycle_id :: "u64 option"
  sw_consolidation :: "ConsolidationState option"

definition with_default :: "'a \<Rightarrow> 'a option \<Rightarrow> 'a" where
  "with_default d v = (case v of Some x \<Rightarrow> x | None \<Rightarrow> d)"

definition sleep_state_serialize :: "SleepState \<Rightarrow> SleepStateWire" where
  "sleep_state_serialize s = \<lparr>
     sw_schema_version = ss_schema_version s, sw_phase = ss_phase s,
     sw_phase_started_tick = ss_phase_started_tick s,
     sw_entered_sleep_tick = ss_entered_sleep_tick s, sw_cycles_completed = ss_cycles_completed s,
     sw_last_trigger = ss_last_trigger s, sw_active_cycle_id = Some (ss_active_cycle_id s),
     sw_last_consolidated_cycle_id = Some (ss_last_consolidated_cycle_id s),
     sw_consolidation = Some (ss_consolidation s) \<rparr>"

definition sleep_state_deserialize :: "SleepStateWire \<Rightarrow> SleepState contract" where
  "sleep_state_deserialize w =
     (let wire_last = with_default 0 (sw_last_consolidated_cycle_id w);
          wire_active = with_default 0 (sw_active_cycle_id w);
          migrated_last =
            (if wire_last = 0 \<and> sw_cycles_completed w \<noteq> 0 then ucast (sw_cycles_completed w)
             else wire_last);
          migrated_active =
            (if wire_active = 0 \<and> sw_phase w \<noteq> Awake then saturating_add migrated_last 1
             else wire_active);
          state = \<lparr>
            ss_schema_version = sw_schema_version w, ss_phase = sw_phase w,
            ss_phase_started_tick = sw_phase_started_tick w,
            ss_entered_sleep_tick = sw_entered_sleep_tick w,
            ss_cycles_completed = sw_cycles_completed w, ss_last_trigger = sw_last_trigger w,
            ss_active_cycle_id = migrated_active, ss_last_consolidated_cycle_id = migrated_last,
            ss_consolidation = with_default CS_None (sw_consolidation w) \<rparr>
      in and_then (sleep_state_validate state) (\<lambda>_. Inr state))"

section \<open>The controller\<close>

record SleepConsolidationConfig =
  sg_schema_version :: u16
  sg_fatigue_threshold :: f32
  sg_sleep_pressure_threshold :: f32
  sg_entering_duration :: DurationTicks
  sg_waking_duration :: DurationTicks
  sg_forced_recovery_min_duration :: DurationTicks
  sg_memory_max_records_after :: nat
  sg_concept_simplex_consolidation_limit :: nat

definition sleep_config_reference :: SleepConsolidationConfig where
  "sleep_config_reference = \<lparr>
     sg_schema_version = sv_sleep_consolidation schema_versions_CURRENT,
     sg_fatigue_threshold = f32_lit 9 10, sg_sleep_pressure_threshold = f32_lit 85 100,
     sg_entering_duration = 3, sg_waking_duration = 3, sg_forced_recovery_min_duration = 8,
     sg_memory_max_records_after = 64, sg_concept_simplex_consolidation_limit = 64 \<rparr>"

definition sleep_config_validate :: "SleepConsolidationConfig \<Rightarrow> unit contract" where
  "sleep_config_validate g =
     and_then (require_current_version SleepConsolidation (sg_schema_version g)) (\<lambda>_.
     and_then (normalized_scalar_new (sg_fatigue_threshold g)) (\<lambda>_.
     and_then (normalized_scalar_new (sg_sleep_pressure_threshold g)) (\<lambda>_.
       if sg_entering_duration g = 0 \<or> sg_waking_duration g = 0
          \<or> sg_forced_recovery_min_duration g = 0 \<or> sg_memory_max_records_after g = 0
          \<or> sg_concept_simplex_consolidation_limit g = 0
       then Inl ScalarOutOfRange else Inr ())))"

record SleepController =
  sl_config :: SleepConsolidationConfig
  sl_state :: SleepState

type_synonym 'a sleep_outcome = "(ScaffoldContractError, 'a, SleepController) outcome"

definition sleep_controller_new :: "SleepConsolidationConfig \<Rightarrow> SleepController contract" where
  "sleep_controller_new config =
     and_then (sleep_config_validate config) (\<lambda>_.
       Inr \<lparr> sl_config = config, sl_state = sleep_state_awake_at 0 \<rparr>)"

definition sleep_controller_restore ::
  "SleepConsolidationConfig \<Rightarrow> SleepState \<Rightarrow> SleepController contract" where
  "sleep_controller_restore config state =
     and_then (sleep_config_validate config) (\<lambda>_.
     and_then (sleep_state_validate state) (\<lambda>_.
       Inr \<lparr> sl_config = config, sl_state = state \<rparr>))"

text \<open>The cycle fields after a move: active id, last consolidated id and consolidation, or the
  error that returns before anything is stored.\<close>

definition transition_cycle ::
  "SleepState \<Rightarrow> SleepPhase \<Rightarrow> (u64 \<times> u64 \<times> ConsolidationState) contract" where
  "transition_cycle s phase =
     (if ss_phase s = Awake \<and> phase = Awake
      then Inr (0, ss_last_consolidated_cycle_id s, CS_None)
      else if ss_phase s = Awake
      then and_then (ok_or InvalidId (checked_add (ss_last_consolidated_cycle_id s) 1)) (\<lambda>active.
             Inr (active, ss_last_consolidated_cycle_id s, CS_None))
      else if phase = Awake
      then (if \<not> is_committed (ss_consolidation s) then Inl ConsolidationGenerationMismatch
            else Inr (0, ss_active_cycle_id s, CS_None))
      else if phase \<in> {Consolidating, Waking}
      then Inr (ss_active_cycle_id s, ss_last_consolidated_cycle_id s, ss_consolidation s)
      else Inr (ss_active_cycle_id s, ss_last_consolidated_cycle_id s, CS_None))"

definition transition_to ::
  "SleepPhase \<Rightarrow> Tick \<Rightarrow> SleepTrigger \<Rightarrow> SleepController \<Rightarrow> SleepTransition sleep_outcome" where
  "transition_to phase tick trigger c =
     (let s = sl_state c;
          entered =
            (if ss_phase s = Awake \<and> phase = Awake then None
             else if ss_phase s = Awake then Some tick
             else if phase = Awake then None
             else ss_entered_sleep_tick s);
          cycles =
            (if phase = Awake \<and> ss_phase s \<noteq> Awake then saturating_add (ss_cycles_completed s) 1
             else ss_cycles_completed s)
      in case transition_cycle s phase of
           Inl e \<Rightarrow> (Inl e, c)
         | Inr (active, last_id, consolidation) \<Rightarrow>
             let next = \<lparr>
                   ss_schema_version = sv_sleep_consolidation schema_versions_CURRENT,
                   ss_phase = phase, ss_phase_started_tick = tick,
                   ss_entered_sleep_tick = entered, ss_cycles_completed = cycles,
                   ss_last_trigger = Some trigger, ss_active_cycle_id = active,
                   ss_last_consolidated_cycle_id = last_id, ss_consolidation = consolidation \<rparr>
             in (and_then (sleep_state_validate next) (\<lambda>_. Inr \<lparr>
                   st_from = ss_phase s, st_to = phase, st_tick = tick, st_trigger = trigger \<rparr>),
                 c\<lparr>sl_state := next\<rparr>))"

definition some_transition :: "SleepTransition sleep_outcome \<Rightarrow> (SleepTransition option) sleep_outcome" where
  "some_transition m = op_then m (\<lambda>t c. (Inr (Some t), c))"

text \<open>A check on borrowed data: an error leaves the controller alone.\<close>

definition checked_op :: "'x contract \<Rightarrow> ('x \<Rightarrow> SleepController \<Rightarrow> 'a sleep_outcome) \<Rightarrow>
    SleepController \<Rightarrow> 'a sleep_outcome" where
  "checked_op r f c = (case r of Inl e \<Rightarrow> (Inl e, c) | Inr x \<Rightarrow> f x c)"

definition evaluate_homeostasis ::
  "HomeostaticSnapshot \<Rightarrow> HomeostaticParameters \<Rightarrow> Tick \<Rightarrow> SleepController
    \<Rightarrow> (SleepTransition option) sleep_outcome" where
  "evaluate_homeostasis homeostasis parameters tick c =
     checked_op (homeostatic_validate homeostasis) (\<lambda>_.
     checked_op (parameters_validate parameters) (\<lambda>_.
     checked_op (tick_validate_monotonic (ss_phase_started_tick (sl_state c)) tick) (\<lambda>_ c.
       if ss_phase (sl_state c) \<noteq> Awake then (Inr None, c)
       else checked_op (recovery_triggers homeostasis parameters) (\<lambda>recovery c.
         if recovery_contains recovery Recovery_SeizureHyperactivity
         then some_transition (transition_to ForcedRecoverySleep tick SeizureHyperactivity c)
         else if recovery_contains recovery Recovery_CatatoniaEnergyHypoplasia
         then some_transition (transition_to ForcedRecoverySleep tick CatatoniaEnergyHypoplasia c)
         else if f32_le (sg_fatigue_threshold (sl_config c)) (ds_fatigue (hs_drives homeostasis))
            \<or> f32_le (sg_sleep_pressure_threshold (sl_config c))
                 (es_sleep_pressure (hs_hormones homeostasis))
         then some_transition (transition_to EnteringSleep tick FatigueThreshold c)
         else (Inr None, c)) c))) c"

definition force_sleep :: "Tick \<Rightarrow> SleepTrigger \<Rightarrow> SleepController \<Rightarrow> SleepTransition sleep_outcome" where
  "force_sleep tick trigger c =
     checked_op (tick_validate_monotonic (ss_phase_started_tick (sl_state c)) tick) (\<lambda>_ c.
       let trigger = (if trigger = FatigueThreshold then ForcedRequest else trigger)
       in transition_to ForcedRecoverySleep tick trigger c) c"

definition advance_next_phase :: "SleepController \<Rightarrow> Tick \<Rightarrow> SleepPhase option" where
  "advance_next_phase c tick =
     (let s = sl_state c;
          elapsed = ucast (min (saturating_sub tick (ss_phase_started_tick s)) 0xffffffff) :: u32
      in case ss_phase s of
           Awake \<Rightarrow> None
         | EnteringSleep \<Rightarrow>
             if sg_entering_duration (sl_config c) \<le> elapsed then Some Consolidating else None
         | Consolidating \<Rightarrow> if is_committed (ss_consolidation s) then Some Waking else None
         | Waking \<Rightarrow> if sg_waking_duration (sl_config c) \<le> elapsed then Some Awake else None
         | ForcedRecoverySleep \<Rightarrow>
             if sg_forced_recovery_min_duration (sl_config c) \<le> elapsed then Some Consolidating
             else None)"

definition sleep_advance :: "Tick \<Rightarrow> SleepController \<Rightarrow> (SleepTransition option) sleep_outcome" where
  "sleep_advance tick c =
     checked_op (tick_validate_monotonic (ss_phase_started_tick (sl_state c)) tick) (\<lambda>_ c.
       case advance_next_phase c tick of
         None \<Rightarrow> (Inr None, c)
       | Some next_phase \<Rightarrow>
           let trigger = with_default RecoveryProtocol (ss_last_trigger (sl_state c))
           in some_transition (transition_to next_phase tick trigger c)) c"

section \<open>Driver events\<close>

fun next_consolidation ::
  "u64 \<Rightarrow> ConsolidationState \<Rightarrow> ConsolidationDriverEvent \<Rightarrow> ConsolidationState contract" where
  "next_consolidation active CS_None (EV_ReplayAssetPersisted intent digest events samples) =
     (if ci_cycle_id intent = active then Inr (CS_Pending intent digest events samples)
      else Inl ConsolidationGenerationMismatch)"
| "next_consolidation active (CS_Pending intent digest events samples) (EV_Prepared request) =
     (if cr_cycle_id request = ci_cycle_id intent \<and> cr_replay_digest request = digest
         \<and> events \<le> cr_max_replay_events request
         \<and> samples \<le> cr_max_replay_eligibility_samples request
      then and_then (request_validate request) (\<lambda>_. Inr (CS_Prepared request))
      else Inl ConsolidationGenerationMismatch)"
| "next_consolidation active (CS_Prepared expected) (EV_Submitted request job) =
     (if request = expected then Inr (CS_Submitted request job)
      else Inl ConsolidationGenerationMismatch)"
| "next_consolidation active (CS_Submitted expected lost) (EV_RecoveredSubmitted request job recovered) =
     (if request = expected \<and> job = lost \<and> recovered \<noteq> job then Inr (CS_Submitted request recovered)
      else Inl ConsolidationGenerationMismatch)"
| "next_consolidation active (CS_Submitted expected job) (EV_Completed request staged) =
     (if request = expected \<and> so_job_id staged = job
      then and_then (staged_validate_against staged request 1 1) (\<lambda>_. Inr (CS_Completed request staged))
      else Inl ConsolidationGenerationMismatch)"
| "next_consolidation active (CS_Completed request staged) (EV_Committed cycle_id generation digest) =
     (if cycle_id = cr_cycle_id request \<and> generation = so_output_generation staged
         \<and> digest = so_output_digest staged
      then Inr (CS_Committed cycle_id generation digest)
      else Inl ConsolidationGenerationMismatch)"
| "next_consolidation active _ _ = Inl ConsolidationGenerationMismatch"

definition apply_consolidation_driver_event ::
  "ConsolidationDriverEvent \<Rightarrow> SleepController \<Rightarrow> unit sleep_outcome" where
  "apply_consolidation_driver_event event c =
     (let s = sl_state c in
      if ss_phase s \<noteq> Consolidating \<or> ss_active_cycle_id s = 0
      then (Inl ConsolidationGenerationMismatch, c)
      else
        let active = ss_active_cycle_id s in
        checked_op (and_then (next_consolidation active (ss_consolidation s) event) (\<lambda>next.
            and_then (consolidation_validate_for_cycle next active) (\<lambda>_. Inr next))) (\<lambda>next c.
          let s' = s\<lparr>ss_consolidation := next\<rparr> in (sleep_state_validate s', c\<lparr>sl_state := s'\<rparr>)) c)"

definition sleep_controller_validate :: "SleepController \<Rightarrow> unit contract" where
  "sleep_controller_validate c =
     and_then (sleep_config_validate (sl_config c)) (\<lambda>_. sleep_state_validate (sl_state c))"

section \<open>The controller as a machine\<close>

datatype SleepOp =
    EvaluateHomeostasis HomeostaticSnapshot HomeostaticParameters Tick
  | ForceSleep Tick SleepTrigger
  | AdvanceSleep Tick
  | DriverEvent ConsolidationDriverEvent

fun sleep_step :: "SleepOp \<Rightarrow> SleepController \<Rightarrow> (SleepTransition option) sleep_outcome" where
  "sleep_step (EvaluateHomeostasis h p tick) c = evaluate_homeostasis h p tick c"
| "sleep_step (ForceSleep tick trigger) c = some_transition (force_sleep tick trigger c)"
| "sleep_step (AdvanceSleep tick) c = sleep_advance tick c"
| "sleep_step (DriverEvent event) c =
     op_then (apply_consolidation_driver_event event c) (\<lambda>_ c. (Inr None, c))"

end
