(* ===== verification/Sleep_Proofs.thy ===== *)
theory Sleep_Proofs
  imports Sleep_Control
begin

text \<open>
  The sleep controller keeps its durable state valid, follows the phase graph, wakes only from a
  committed consolidation and numbers its cycles without gaps; a failing call leaves no trace. The
  abstract cycle \<open>cycle_move\<close> is the specification, and every step of the controller refines it. The
  completed-cycle counter saturates after \<open>2 ^ 32 - 1\<close> cycles; what holds from then on is stated too.
\<close>

section \<open>The invariant\<close>

definition sleep_wf :: "SleepState \<Rightarrow> bool" where
  "sleep_wf s \<longleftrightarrow> sleep_state_validate s = Inr ()
     \<and> ss_last_consolidated_cycle_id s = ucast (ss_cycles_completed s)
     \<and> (ss_phase s \<noteq> Awake \<longrightarrow> unat (ss_active_cycle_id s) = unat (ss_cycles_completed s) + 1)"

inductive phase_edge :: "SleepPhase \<Rightarrow> SleepPhase \<Rightarrow> bool" where
  fall_asleep: "phase_edge Awake EnteringSleep"
| forced: "phase_edge p ForcedRecoverySleep"
| settle: "phase_edge EnteringSleep Consolidating"
| recover: "phase_edge ForcedRecoverySleep Consolidating"
| begin_waking: "phase_edge Consolidating Waking"
| wake_up: "phase_edge Waking Awake"

inductive_simps phase_edge_iff: "phase_edge p q"

lemma is_committed_simps [simp]:
  "\<not> is_committed CS_None" "\<not> is_committed (CS_Pending i d e n)" "\<not> is_committed (CS_Prepared r)"
  "\<not> is_committed (CS_Submitted r j)" "\<not> is_committed (CS_Completed r o')"
  "is_committed (CS_Committed cycle g d)"
  by (simp_all add: is_committed_def)

lemma is_committed_cases:
  assumes "is_committed c"
  obtains i g d where "c = CS_Committed i g d"
proof (cases c)
  case (CS_Committed i g d)
  then show ?thesis by (rule that)
qed (use assms in simp_all)

lemma unat_ucast_u64 [simp]: "unat (ucast (x :: u32) :: u64) = unat x"
  by (simp add: unat_widen)

lemma unat_u32_limit: "unat (x :: u32) < 4294967296"
  using unsigned_less [where 'a=nat, of x] by simp

lemma unat_max_u32: "x \<noteq> - 1 \<Longrightarrow> unat (x :: u32) < 4294967295"
proof -
  assume "x \<noteq> - 1"
  moreover have "unat (- 1 :: u32) = 4294967295"
    by (simp add: unsigned_minus_1_eq_mask mask_eq_exp_minus_1)
  ultimately have "unat x \<noteq> 4294967295" by (metis word_unat_eq_iff)
  with unat_u32_limit [of x] show ?thesis by linarith
qed

lemma sleep_validate_iff:
  "sleep_state_validate s = Inr () \<longleftrightarrow>
     ss_schema_version s = current_for SleepConsolidation
     \<and> (\<forall>e. ss_entered_sleep_tick s = Some e \<longrightarrow> e \<le> ss_phase_started_tick s)
     \<and> ss_last_consolidated_cycle_id s \<le> ucast (ss_cycles_completed s)
     \<and> (ss_phase s = Awake \<longrightarrow> ss_active_cycle_id s = 0)
     \<and> (ss_phase s \<noteq> Awake \<longrightarrow> ss_active_cycle_id s \<noteq> 0)
     \<and> (ss_phase s \<notin> {Consolidating, Waking} \<longrightarrow> ss_consolidation s = CS_None)
     \<and> (ss_phase s = Waking \<longrightarrow> is_committed (ss_consolidation s))
     \<and> consolidation_validate_for_cycle (ss_consolidation s) (ss_active_cycle_id s) = Inr ()"
proof -
  have entered: "(case ss_entered_sleep_tick s of
      Some e \<Rightarrow> and_then (tick_validate_monotonic e (ss_phase_started_tick s)) (\<lambda>_. Inr ())
    | None \<Rightarrow> Inr ()) = Inr () \<longleftrightarrow> (\<forall>e. ss_entered_sleep_tick s = Some e \<longrightarrow> e \<le> ss_phase_started_tick s)"
    by (cases "ss_entered_sleep_tick s") simp_all
  show ?thesis
    unfolding sleep_state_validate_def and_then_Inr_iff
    by (cases "ss_phase s") (auto simp: entered not_less)
qed

lemma sleep_wf_fields:
  assumes "sleep_wf s"
  shows "ss_last_consolidated_cycle_id s = ucast (ss_cycles_completed s)"
    and "\<And>e. ss_entered_sleep_tick s = Some e \<Longrightarrow> e \<le> ss_phase_started_tick s"
    and "ss_phase s = Awake \<Longrightarrow> ss_active_cycle_id s = 0"
    and "ss_phase s \<notin> {Consolidating, Waking} \<Longrightarrow> ss_consolidation s = CS_None"
    and "ss_phase s = Waking \<Longrightarrow> is_committed (ss_consolidation s)"
    and "consolidation_validate_for_cycle (ss_consolidation s) (ss_active_cycle_id s) = Inr ()"
    and "ss_phase s \<noteq> Awake \<Longrightarrow> ss_active_cycle_id s = ss_last_consolidated_cycle_id s + 1"
proof -
  have v: "sleep_state_validate s = Inr ()"
    and l: "ss_last_consolidated_cycle_id s = ucast (ss_cycles_completed s)"
    and a: "ss_phase s \<noteq> Awake \<Longrightarrow> unat (ss_active_cycle_id s) = unat (ss_cycles_completed s) + 1"
    using assms by (simp_all add: sleep_wf_def)
  note v' = v [unfolded sleep_validate_iff]
  show "ss_last_consolidated_cycle_id s = ucast (ss_cycles_completed s)" by (rule l)
  show "\<And>e. ss_entered_sleep_tick s = Some e \<Longrightarrow> e \<le> ss_phase_started_tick s"
    "ss_phase s = Awake \<Longrightarrow> ss_active_cycle_id s = 0"
    "ss_phase s \<notin> {Consolidating, Waking} \<Longrightarrow> ss_consolidation s = CS_None"
    "ss_phase s = Waking \<Longrightarrow> is_committed (ss_consolidation s)"
    "consolidation_validate_for_cycle (ss_consolidation s) (ss_active_cycle_id s) = Inr ()"
    using v' by blast+
  have "unat (ss_last_consolidated_cycle_id s + 1) = unat (ss_cycles_completed s) + 1"
    using unat_u32_limit [of "ss_cycles_completed s"] by (simp add: l unat_word_ariths)
  with a show "ss_phase s \<noteq> Awake \<Longrightarrow> ss_active_cycle_id s = ss_last_consolidated_cycle_id s + 1"
    by (metis word_unat_eq_iff)
qed

text \<open>The state a move along an edge leaves.\<close>

definition moved :: "SleepState \<Rightarrow> SleepPhase \<Rightarrow> Tick \<Rightarrow> SleepTrigger \<Rightarrow> SleepState" where
  "moved s q tick trigger = \<lparr>
     ss_schema_version = sv_sleep_consolidation schema_versions_CURRENT, ss_phase = q,
     ss_phase_started_tick = tick,
     ss_entered_sleep_tick =
       (if ss_phase s = Awake then Some tick else if q = Awake then None else ss_entered_sleep_tick s),
     ss_cycles_completed = (if q = Awake then ss_cycles_completed s + 1 else ss_cycles_completed s),
     ss_last_trigger = Some trigger,
     ss_active_cycle_id = (if q = Awake then 0 else ss_last_consolidated_cycle_id s + 1),
     ss_last_consolidated_cycle_id =
       (if q = Awake then ss_active_cycle_id s else ss_last_consolidated_cycle_id s),
     ss_consolidation = (if q = Waking then ss_consolidation s else CS_None) \<rparr>"

definition can_move :: "SleepState \<Rightarrow> SleepPhase \<Rightarrow> Tick \<Rightarrow> bool" where
  "can_move s q tick \<longleftrightarrow> phase_edge (ss_phase s) q \<and> (q = Waking \<longrightarrow> is_committed (ss_consolidation s))
     \<and> ss_phase_started_tick s \<le> tick"

lemma moved_counts:
  assumes wf: "sleep_wf s" and move: "can_move s q tick" and room: "ss_cycles_completed s \<noteq> - 1"
  shows "unat (ss_last_consolidated_cycle_id s + 1) = unat (ss_cycles_completed s) + 1"
  "checked_add (ss_last_consolidated_cycle_id s) 1 = Some (ss_last_consolidated_cycle_id s + 1)"
  "saturating_add (ss_cycles_completed s) 1 = ss_cycles_completed s + 1"
  "unat (ss_cycles_completed s + 1) = unat (ss_cycles_completed s) + 1"
  using unat_max_u32 [OF room] sleep_wf_fields(1) [OF wf]
  by (simp_all add: checked_add_def saturating_add_def unat_word_ariths)

lemma moved_cycle:
  assumes wf: "sleep_wf s" and move: "can_move s q tick" and room: "ss_cycles_completed s \<noteq> - 1"
  shows "transition_cycle s q = Inr (ss_active_cycle_id (moved s q tick trigger),
     ss_last_consolidated_cycle_id (moved s q tick trigger), ss_consolidation (moved s q tick trigger))"
  using move moved_counts(2) [OF wf move room] sleep_wf_fields(4,5,7) [OF wf]
  by (auto simp: can_move_def phase_edge_iff transition_cycle_def moved_def)

lemma moved_last:
  assumes wf: "sleep_wf s" and move: "can_move s q tick" and room: "ss_cycles_completed s \<noteq> - 1"
  shows "ss_last_consolidated_cycle_id (moved s q tick trigger) = ucast (ss_cycles_completed (moved s q tick trigger))"
proof (cases "q = Awake")
  case True
  then have "ss_active_cycle_id s = ss_last_consolidated_cycle_id s + 1"
    using move sleep_wf_fields(7) [OF wf] by (auto simp: can_move_def phase_edge_iff)
  moreover have "ss_last_consolidated_cycle_id s + 1 = ucast (ss_cycles_completed s + 1)"
    unfolding word_unat_eq_iff by (simp only: moved_counts [OF wf move room] unat_ucast_u64)
  ultimately show ?thesis using True by (simp add: moved_def)
next
  case False
  then show ?thesis by (simp add: moved_def sleep_wf_fields(1) [OF wf])
qed

lemma moved_wf:
  assumes wf: "sleep_wf s" and move: "can_move s q tick" and room: "ss_cycles_completed s \<noteq> - 1"
  shows "sleep_wf (moved s q tick trigger)"
proof -
  have nz: "ss_last_consolidated_cycle_id s + 1 \<noteq> 0" using moved_counts(1) [OF wf move room] by (metis Suc_eq_plus1 nat.distinct(1) unsigned_0)
  have entered: "\<forall>e. ss_entered_sleep_tick (moved s q tick trigger) = Some e \<longrightarrow> e \<le> tick"
  proof (intro allI impI)
    fix e
    assume "ss_entered_sleep_tick (moved s q tick trigger) = Some e"
    then have "e = tick \<or> ss_entered_sleep_tick s = Some e" by (auto simp: moved_def split: if_splits)
    then show "e \<le> tick"
      using move sleep_wf_fields(2) [OF wf, of e] unfolding can_move_def by (metis order.refl order.trans)
  qed
  have cons: "q = Waking \<Longrightarrow> ss_phase s = Consolidating"
    "q = Waking \<Longrightarrow> is_committed (ss_consolidation s)"
    using move by (simp_all add: can_move_def phase_edge_iff)
  then have waking: "q = Waking \<Longrightarrow>
      consolidation_validate_for_cycle (ss_consolidation s) (ss_last_consolidated_cycle_id s + 1) = Inr ()"
    using sleep_wf_fields(6,7) [OF wf] by simp
  have "ss_last_consolidated_cycle_id (moved s q tick trigger) \<le> ucast (ss_cycles_completed (moved s q tick trigger))"
    unfolding moved_last [OF wf move room] by simp
  then have "sleep_state_validate (moved s q tick trigger) = Inr ()"
    unfolding sleep_validate_iff using entered cons(2) waking nz
    by (simp add: moved_def)
  moreover have "q \<noteq> Awake \<longrightarrow> unat (ss_active_cycle_id (moved s q tick trigger))
      = unat (ss_cycles_completed (moved s q tick trigger)) + 1"
    by (simp add: moved_def moved_counts [OF wf move room])
  ultimately show ?thesis by (simp add: sleep_wf_def moved_last [OF wf move room]) (simp add: moved_def)
qed

lemma transition_moves:
  assumes wf: "sleep_wf s" and move: "can_move s q tick" and room: "ss_cycles_completed s \<noteq> - 1"
    and sl: "sl_state c = s"
  shows "transition_to q tick trigger c = (Inr \<lparr> st_from = ss_phase s, st_to = q, st_tick = tick,
    st_trigger = trigger \<rparr>, c\<lparr>sl_state := moved s q tick trigger\<rparr>)"
proof -
  have v: "sleep_state_validate (moved s q tick trigger) = Inr ()"
    using moved_wf [OF wf move room] by (simp add: sleep_wf_def)
  have edge: "\<not> (ss_phase s = Awake \<and> q = Awake)"
    using move by (auto simp: can_move_def phase_edge_iff)
  have "\<lparr> ss_schema_version = sv_sleep_consolidation schema_versions_CURRENT, ss_phase = q,
     ss_phase_started_tick = tick,
     ss_entered_sleep_tick =
       (if ss_phase s = Awake \<and> q = Awake then None else if ss_phase s = Awake then Some tick
        else if q = Awake then None else ss_entered_sleep_tick s),
     ss_cycles_completed =
       (if q = Awake \<and> ss_phase s \<noteq> Awake then saturating_add (ss_cycles_completed s) 1
        else ss_cycles_completed s),
     ss_last_trigger = Some trigger,
     ss_active_cycle_id = ss_active_cycle_id (moved s q tick trigger),
     ss_last_consolidated_cycle_id = ss_last_consolidated_cycle_id (moved s q tick trigger),
     ss_consolidation = ss_consolidation (moved s q tick trigger) \<rparr> = moved s q tick trigger"
    using edge by (auto simp: moved_def moved_counts [OF wf move room])
  then show ?thesis
    by (simp only: transition_to_def sl Let_def moved_cycle [OF wf move room, where trigger = trigger] sum.case
        prod.case v and_then_simps)
qed


section \<open>The effect of a step\<close>

lemma some_transition_moves:
  assumes "sleep_wf (sl_state c)" and "can_move (sl_state c) q tick"
    and "ss_cycles_completed (sl_state c) \<noteq> - 1"
  shows "some_transition (transition_to q tick trigger c) = (Inr (Some \<lparr> st_from = ss_phase (sl_state c),
    st_to = q, st_tick = tick, st_trigger = trigger \<rparr>), c\<lparr>sl_state := moved (sl_state c) q tick trigger\<rparr>)"
  by (simp add: some_transition_def transition_moves [OF assms refl])

lemma checked_op_simps [simp]:
  "checked_op (Inl e) f c = (Inl e, c)" "checked_op (Inr x) f c = f x c"
  by (simp_all add: checked_op_def)

lemma driven_wf:
  assumes "sleep_wf s" and "ss_phase s = Consolidating"
    and "consolidation_validate_for_cycle k (ss_active_cycle_id s) = Inr ()"
  shows "sleep_wf (s\<lparr>ss_consolidation := k\<rparr>)"
  using assms by (simp add: sleep_wf_def sleep_validate_iff)

text \<open>What one call does: it fails or does nothing, it moves along an edge, or it advances the
  consolidation of the active cycle.\<close>

inductive sleep_effect :: "SleepController \<Rightarrow> (SleepTransition option) sleep_outcome \<Rightarrow> bool"
  for c :: SleepController where
  failed: "sleep_effect c (Inl e, c)"
| idle: "sleep_effect c (Inr None, c)"
| moves: "can_move (sl_state c) q tick \<Longrightarrow>
    sleep_effect c (Inr (Some \<lparr> st_from = ss_phase (sl_state c), st_to = q, st_tick = tick,
      st_trigger = trigger \<rparr>), c\<lparr>sl_state := moved (sl_state c) q tick trigger\<rparr>)"
| driven: "ss_phase (sl_state c) = Consolidating \<Longrightarrow>
    next_consolidation (ss_active_cycle_id (sl_state c)) (ss_consolidation (sl_state c)) event = Inr k \<Longrightarrow>
    consolidation_validate_for_cycle k (ss_active_cycle_id (sl_state c)) = Inr () \<Longrightarrow>
    sleep_effect c (Inr None, c\<lparr>sl_state := (sl_state c)\<lparr>ss_consolidation := k\<rparr>\<rparr>)"

lemma homeostasis_effect:
  assumes "sleep_wf (sl_state c)" and "ss_cycles_completed (sl_state c) \<noteq> - 1"
  shows "sleep_effect c (evaluate_homeostasis h p tick c)"
proof (cases "homeostatic_validate h = Inr () \<and> parameters_validate p = Inr ()
    \<and> ss_phase_started_tick (sl_state c) \<le> tick \<and> ss_phase (sl_state c) = Awake")
  case False
  then show ?thesis
    by (cases "homeostatic_validate h"; cases "parameters_validate p")
      (auto simp: evaluate_homeostasis_def tick_validate_monotonic_def intro: sleep_effect.intros)
next
  case True
  then have go: "can_move (sl_state c) ForcedRecoverySleep tick" "can_move (sl_state c) EnteringSleep tick"
    by (simp_all add: can_move_def phase_edge_iff)
  then have fx: "sleep_effect c (Inr (Some \<lparr> st_from = Awake, st_to = q, st_tick = tick, st_trigger = trigger \<rparr>),
      c\<lparr>sl_state := moved (sl_state c) q tick trigger\<rparr>)" if "can_move (sl_state c) q tick" for q trigger
    using sleep_effect.moves [OF that, of trigger] True by simp
  obtain a where "recovery_triggers h p = Inr a" using True by (auto simp: recovery_triggers_def Let_def)
  with True show ?thesis
    by (simp add: evaluate_homeostasis_def tick_validate_monotonic_def
        some_transition_moves [OF assms(1) go(1) assms(2)] some_transition_moves [OF assms(1) go(2) assms(2)]
        fx go sleep_effect.idle)
qed

lemma force_effect:
  assumes "sleep_wf (sl_state c)" and "ss_cycles_completed (sl_state c) \<noteq> - 1"
  shows "sleep_effect c (some_transition (force_sleep tick trigger c))"
proof (cases "ss_phase_started_tick (sl_state c) \<le> tick")
  case False
  then show ?thesis
    by (auto simp: force_sleep_def tick_validate_monotonic_def some_transition_def intro: sleep_effect.intros)
next
  case True
  then have go: "can_move (sl_state c) ForcedRecoverySleep tick" by (simp add: can_move_def phase_edge_iff)
  show ?thesis
    using True by (simp add: force_sleep_def tick_validate_monotonic_def Let_def
        some_transition_moves [OF assms(1) go assms(2)] sleep_effect.moves go)
qed

lemma next_phase_move:
  assumes "sleep_wf (sl_state c)" and "ss_phase_started_tick (sl_state c) \<le> tick"
    and "advance_next_phase c tick = Some q"
  shows "can_move (sl_state c) q tick"
  using assms(2,3) sleep_wf_fields(5) [OF assms(1)]
  by (cases "ss_phase (sl_state c)")
    (auto simp: advance_next_phase_def can_move_def phase_edge_iff Let_def split: if_splits)

lemma advance_effect:
  assumes "sleep_wf (sl_state c)" and "ss_cycles_completed (sl_state c) \<noteq> - 1"
  shows "sleep_effect c (sleep_advance tick c)"
proof (cases "ss_phase_started_tick (sl_state c) \<le> tick")
  case False
  then show ?thesis
    by (auto simp: sleep_advance_def tick_validate_monotonic_def intro: sleep_effect.intros)
next
  case True
  show ?thesis
  proof (cases "advance_next_phase c tick")
    case None
    with True show ?thesis by (simp add: sleep_advance_def tick_validate_monotonic_def sleep_effect.idle)
  next
    case (Some q)
    note go = next_phase_move [OF assms(1) True Some]
    from True Some show ?thesis
      by (simp add: sleep_advance_def tick_validate_monotonic_def Let_def
          some_transition_moves [OF assms(1) go assms(2)] sleep_effect.moves go)
  qed
qed

lemma driver_effect:
  assumes "sleep_wf (sl_state c)"
  shows "sleep_effect c (sleep_step (DriverEvent event) c)"
proof (cases "ss_phase (sl_state c) = Consolidating \<and> ss_active_cycle_id (sl_state c) \<noteq> 0")
  case False
  then show ?thesis by (auto simp: apply_consolidation_driver_event_def intro: sleep_effect.intros)
next
  case True
  let ?r = "and_then (next_consolidation (ss_active_cycle_id (sl_state c)) (ss_consolidation (sl_state c)) event)
    (\<lambda>k. and_then (consolidation_validate_for_cycle k (ss_active_cycle_id (sl_state c))) (\<lambda>_. Inr k))"
  show ?thesis
  proof (cases ?r)
    case (Inl e)
    with True show ?thesis
      by (simp add: apply_consolidation_driver_event_def Let_def sleep_effect.failed)
  next
    case (Inr k)
    then have k: "next_consolidation (ss_active_cycle_id (sl_state c)) (ss_consolidation (sl_state c)) event = Inr k"
      "consolidation_validate_for_cycle k (ss_active_cycle_id (sl_state c)) = Inr ()" by auto
    have "sleep_state_validate ((sl_state c)\<lparr>ss_consolidation := k\<rparr>) = Inr ()"
      using driven_wf [OF assms _ k(2)] True by (simp add: sleep_wf_def)
    with True Inr k show ?thesis
      by (simp add: apply_consolidation_driver_event_def Let_def sleep_effect.driven del: and_then_Inr_iff)
  qed
qed

lemma sleep_step_effect:
  assumes "sleep_wf (sl_state c)" and "ss_cycles_completed (sl_state c) \<noteq> - 1"
  shows "sleep_effect c (sleep_step op c)"
  using homeostasis_effect [OF assms] force_effect [OF assms] advance_effect [OF assms]
    driver_effect [OF assms(1)]
  by (cases op) simp_all

lemma sleep_effect_keeps:
  assumes "sleep_effect c (r, c')" and "sleep_wf (sl_state c)" and "ss_cycles_completed (sl_state c) \<noteq> - 1"
  shows "sleep_wf (sl_state c')"
  using assms by (cases rule: sleep_effect.cases) (auto intro: moved_wf driven_wf)


section \<open>The controller as a machine\<close>

definition sleep_inv :: "SleepController \<Rightarrow> bool" where
  "sleep_inv c \<longleftrightarrow> ss_cycles_completed (sl_state c) = - 1 \<or> sleep_wf (sl_state c)"

lemma transition_cycles:
  "ss_cycles_completed (sl_state (snd (transition_to q tick trigger c))) \<in>
     {ss_cycles_completed (sl_state c), saturating_add (ss_cycles_completed (sl_state c)) 1}"
  by (auto simp: transition_to_def Let_def split: sum.splits)

lemma snd_some_transition [simp]: "snd (some_transition m) = snd m"
  by (auto simp: some_transition_def op_then_def split: prod.splits sum.splits)

lemma step_cycles:
  "ss_cycles_completed (sl_state (snd (sleep_step op c))) \<in>
     {ss_cycles_completed (sl_state c), saturating_add (ss_cycles_completed (sl_state c)) 1}"
proof (cases op)
  case (EvaluateHomeostasis h p tick)
  show ?thesis
    using transition_cycles [of _ tick _ c]
    by (simp add: EvaluateHomeostasis evaluate_homeostasis_def checked_op_def split: sum.splits)
next
  case (ForceSleep tick trigger)
  show ?thesis
    using transition_cycles [of _ tick _ c]
    by (simp add: ForceSleep force_sleep_def checked_op_def Let_def split: sum.splits)
next
  case (AdvanceSleep tick)
  show ?thesis
    using transition_cycles [of _ tick _ c]
    by (simp add: AdvanceSleep sleep_advance_def checked_op_def Let_def split: sum.splits option.splits)
next
  case (DriverEvent event)
  show ?thesis
    by (auto simp: DriverEvent apply_consolidation_driver_event_def checked_op_def Let_def op_then_def
        split: sum.splits prod.splits)
qed

lemma saturating_succ_ge: "x \<le> saturating_add x (1 :: u32)"
  using unat_u32_limit [of x] by (auto simp: word_le_nat_alt unat_saturating_add)

lemma saturating_succ_max: "saturating_add (- 1) (1 :: u32) = - 1"
  by (simp add: saturating_add_def unsigned_minus_1_eq_mask mask_eq_exp_minus_1)

interpretation sleep_machine: ratchet_machine sleep_step sleep_inv
  "\<lambda>c. ss_cycles_completed (sl_state c)"
proof
  fix op c
  assume inv: "sleep_inv c"
  show "sleep_inv (snd (sleep_step op c))"
  proof (cases "ss_cycles_completed (sl_state c) = - 1")
    case True
    then show ?thesis using step_cycles [of op c] by (auto simp: sleep_inv_def saturating_succ_max)
  next
    case False
    then have wf: "sleep_wf (sl_state c)" using inv by (simp add: sleep_inv_def)
    show ?thesis
      using sleep_effect_keeps [OF _ wf False] sleep_step_effect [OF wf False, of op]
      by (simp add: sleep_inv_def prod.collapse [symmetric]) (metis prod.collapse)
  qed
  show "ss_cycles_completed (sl_state c) \<le> ss_cycles_completed (sl_state (snd (sleep_step op c)))"
    using step_cycles [of op c] saturating_succ_ge by auto
qed

lemma sleep_new_wf: "sleep_controller_new config = Inr c \<Longrightarrow> sleep_wf (sl_state c) \<and> sleep_inv c"
  by (auto simp: sleep_controller_new_def sleep_wf_def sleep_inv_def sleep_validate_iff
      sleep_state_awake_at_def)

section \<open>Beyond the counter\<close>

text \<open>
  The counter of completed cycles saturates, the last consolidated id does not: what every reachable state
  satisfies, also after \<open>2 ^ 32 - 1\<close> cycles, when the state that is stored no longer passes its own validation.
\<close>

definition sleep_shape :: "SleepState \<Rightarrow> bool" where
  "sleep_shape s \<longleftrightarrow> ss_schema_version s = current_for SleepConsolidation
     \<and> (\<forall>e. ss_entered_sleep_tick s = Some e \<longrightarrow> e \<le> ss_phase_started_tick s)
     \<and> (ss_phase s = Awake \<longrightarrow> ss_active_cycle_id s = 0)
     \<and> (ss_phase s \<noteq> Awake \<longrightarrow> unat (ss_active_cycle_id s) = unat (ss_last_consolidated_cycle_id s) + 1)
     \<and> (ss_phase s \<notin> {Consolidating, Waking} \<longrightarrow> ss_consolidation s = CS_None)
     \<and> (ss_phase s = Waking \<longrightarrow> is_committed (ss_consolidation s))
     \<and> consolidation_validate_for_cycle (ss_consolidation s) (ss_active_cycle_id s) = Inr ()
     \<and> unat (ss_cycles_completed s) = min (unat (ss_last_consolidated_cycle_id s)) (2 ^ 32 - 1)"

lemma shape_validate:
  assumes "sleep_shape s"
  shows "sleep_state_validate s =
    (if unat (ss_last_consolidated_cycle_id s) < 2 ^ 32 then Inr () else Inl ConsolidationGenerationMismatch)"
proof (cases "unat (ss_last_consolidated_cycle_id s) < 2 ^ 32")
  case True
  then show ?thesis using assms by (auto simp: sleep_shape_def sleep_validate_iff word_le_nat_alt)
next
  case False
  then have "ucast (ss_cycles_completed s) < ss_last_consolidated_cycle_id s"
    using assms by (simp add: sleep_shape_def word_less_nat_alt)
  moreover have "(case ss_entered_sleep_tick s of
      Some e \<Rightarrow> and_then (tick_validate_monotonic e (ss_phase_started_tick s)) (\<lambda>_. Inr ())
    | None \<Rightarrow> Inr ()) = Inr ()" using assms by (auto simp: sleep_shape_def split: option.split)
  moreover have "require_current_version SleepConsolidation (ss_schema_version s) = Inr ()"
    using assms by (simp add: sleep_shape_def)
  ultimately show ?thesis using False unfolding sleep_state_validate_def by (simp only: and_then_simps if_False simp_thms if_True)
qed

text \<open>The state that a move stores, and when it stores one.\<close>

definition stored :: "SleepState \<Rightarrow> SleepPhase \<Rightarrow> Tick \<Rightarrow> SleepTrigger \<Rightarrow> SleepState" where
  "stored s q tick trigger = (moved s q tick trigger)\<lparr>ss_cycles_completed :=
     if q = Awake then saturating_add (ss_cycles_completed s) 1 else ss_cycles_completed s\<rparr>"

lemma shape_active:
  assumes "sleep_shape s" and "ss_phase s \<noteq> Awake"
  shows "ss_active_cycle_id s = ss_last_consolidated_cycle_id s + 1" "unat (ss_last_consolidated_cycle_id s) + 1 < 2 ^ 64"
proof -
  have a: "unat (ss_active_cycle_id s) = unat (ss_last_consolidated_cycle_id s) + 1" using assms by (simp add: sleep_shape_def)
  then show lt: "unat (ss_last_consolidated_cycle_id s) + 1 < 2 ^ 64"
    using unsigned_less [where 'a = nat, of "ss_active_cycle_id s"] by simp
  show "ss_active_cycle_id s = ss_last_consolidated_cycle_id s + 1"
    using a lt by (simp add: word_unat_eq_iff unat_word_ariths)
qed

lemma shape_transition:
  assumes "sleep_shape (sl_state c)" and "can_move (sl_state c) q tick"
  shows "snd (transition_to q tick trigger c) = c
    \<or> snd (transition_to q tick trigger c) = c\<lparr>sl_state := stored (sl_state c) q tick trigger\<rparr>
      \<and> unat (ss_last_consolidated_cycle_id (sl_state c)) + 1 < 2 ^ 64"
proof (cases "transition_cycle (sl_state c) q")
  case (Inl e)
  then show ?thesis by (simp add: transition_to_def Let_def)
next
  case (Inr ids)
  let ?s = "sl_state c"
  have shape: "ss_phase ?s \<notin> {Consolidating, Waking} \<Longrightarrow> ss_consolidation ?s = CS_None"
    using assms(1) by (simp add: sleep_shape_def)
  have room: "unat (ss_last_consolidated_cycle_id ?s) + 1 < 2 ^ 64"
    using shape_active [OF assms(1)] Inr assms(2)
    by (cases "ss_phase ?s = Awake") (auto simp: transition_cycle_def can_move_def phase_edge_iff checked_add_def split: if_splits)
  have edge: "\<not> (ss_phase ?s = Awake \<and> q = Awake)" using assms(2) by (auto simp: can_move_def phase_edge_iff)
  have "ids = (ss_active_cycle_id (stored ?s q tick trigger), ss_last_consolidated_cycle_id (stored ?s q tick trigger),
      ss_consolidation (stored ?s q tick trigger))"
    using Inr assms(2) shape shape_active(1) [OF assms(1)]
    by (auto simp: can_move_def phase_edge_iff transition_cycle_def moved_def stored_def checked_add_def split: if_splits)
  then have "snd (transition_to q tick trigger c) = c\<lparr>sl_state := stored ?s q tick trigger\<rparr>"
    using Inr edge by (auto simp: transition_to_def Let_def stored_def moved_def)
  with room show ?thesis by blast
qed

lemma stored_shape:
  assumes shape: "sleep_shape s" and move: "can_move s q tick" and room: "unat (ss_last_consolidated_cycle_id s) + 1 < 2 ^ 64"
  shows "sleep_shape (stored s q tick trigger)"
proof -
  have next_id: "unat (ss_last_consolidated_cycle_id s + 1) = unat (ss_last_consolidated_cycle_id s) + 1"
    using room by (simp add: unat_word_ariths)
  have counted: "unat (saturating_add (ss_cycles_completed s) 1) = min (unat (ss_last_consolidated_cycle_id s) + 1) (2 ^ 32 - 1)"
    using shape by (simp add: sleep_shape_def unat_saturating_add)
  have entered: "\<And>e. ss_entered_sleep_tick s = Some e \<Longrightarrow> e \<le> tick"
    using shape move unfolding sleep_shape_def can_move_def by (meson order.trans)
  have active: "ss_phase s \<noteq> Awake \<Longrightarrow> ss_active_cycle_id s = ss_last_consolidated_cycle_id s + 1"
    by (rule shape_active(1) [OF shape])
  have v: "consolidation_validate_for_cycle (ss_consolidation s) (ss_active_cycle_id s) = Inr ()"
    using shape by (simp add: sleep_shape_def)
  have from_sleep: "q = Awake \<Longrightarrow> ss_phase s = Waking" "q = Waking \<Longrightarrow> ss_phase s = Consolidating"
    "q = Waking \<Longrightarrow> is_committed (ss_consolidation s)"
    using move by (auto simp: can_move_def phase_edge_iff)
  show ?thesis
    unfolding sleep_shape_def
    using next_id counted entered active v from_sleep shape
    by (auto simp: stored_def moved_def sleep_shape_def)
qed

text \<open>What a call does to the controller: nothing, a move that is stored, or a step of the consolidation.\<close>

inductive sleep_change :: "SleepController \<Rightarrow> SleepController \<Rightarrow> bool" for c :: SleepController where
  same: "sleep_change c c"
| move: "can_move (sl_state c) q tick \<Longrightarrow> unat (ss_last_consolidated_cycle_id (sl_state c)) + 1 < 2 ^ 64 \<Longrightarrow>
    sleep_change c (c\<lparr>sl_state := stored (sl_state c) q tick trigger\<rparr>)"
| drive: "ss_phase (sl_state c) = Consolidating \<Longrightarrow>
    next_consolidation (ss_active_cycle_id (sl_state c)) (ss_consolidation (sl_state c)) event = Inr k \<Longrightarrow>
    consolidation_validate_for_cycle k (ss_active_cycle_id (sl_state c)) = Inr () \<Longrightarrow>
    sleep_change c (c\<lparr>sl_state := (sl_state c)\<lparr>ss_consolidation := k\<rparr>\<rparr>)"

lemma transition_change:
  assumes "sleep_shape (sl_state c)" and "can_move (sl_state c) q tick"
  shows "sleep_change c (snd (transition_to q tick trigger c))"
  using shape_transition [OF assms, of trigger] sleep_change.move [OF assms(2)] sleep_change.same by metis

lemma step_change:
  assumes "sleep_shape (sl_state c)"
  shows "sleep_change c (snd (sleep_step op c))"
proof (cases op)
  case (EvaluateHomeostasis h p tick)
  have go: "sleep_change c (snd (transition_to q tick trigger c))"
    if "ss_phase (sl_state c) = Awake" "ss_phase_started_tick (sl_state c) \<le> tick" "q \<in> {ForcedRecoverySleep, EnteringSleep}" for q trigger
    using that by (intro transition_change [OF assms]) (auto simp: can_move_def phase_edge_iff)
  show ?thesis
    unfolding EvaluateHomeostasis sleep_step.simps evaluate_homeostasis_def
    by (auto simp: checked_op_def tick_validate_monotonic_def go sleep_change.same split: sum.splits if_splits)
next
  case (ForceSleep tick trigger)
  have "sleep_change c (snd (transition_to ForcedRecoverySleep tick trigger' c))"
    if "ss_phase_started_tick (sl_state c) \<le> tick" for trigger'
    using that by (intro transition_change [OF assms]) (simp add: can_move_def phase_edge_iff)
  then show ?thesis
    by (auto simp: ForceSleep force_sleep_def checked_op_def tick_validate_monotonic_def Let_def sleep_change.same split: sum.splits if_splits)
next
  case (AdvanceSleep tick)
  have "can_move (sl_state c) q tick" if "ss_phase_started_tick (sl_state c) \<le> tick" "advance_next_phase c tick = Some q" for q
    using that assms by (cases "ss_phase (sl_state c)")
      (auto simp: advance_next_phase_def can_move_def phase_edge_iff sleep_shape_def Let_def split: if_splits)
  then show ?thesis
    using transition_change [OF assms]
    by (auto simp: AdvanceSleep sleep_advance_def checked_op_def tick_validate_monotonic_def Let_def sleep_change.same
        split: sum.splits if_splits option.splits)
next
  case (DriverEvent event)
  let ?s = "sl_state c"
  let ?r = "and_then (next_consolidation (ss_active_cycle_id ?s) (ss_consolidation ?s) event)
    (\<lambda>k. and_then (consolidation_validate_for_cycle k (ss_active_cycle_id ?s)) (\<lambda>_. Inr k))"
  have snd_then: "snd (op_then m (\<lambda>_ c. (Inr None, c))) = snd m" for m :: "unit sleep_outcome"
    by (auto simp: op_then_def split: prod.splits sum.splits)
  show ?thesis
  proof (cases "ss_phase ?s = Consolidating \<and> ss_active_cycle_id ?s \<noteq> 0")
    case False
    then show ?thesis by (auto simp: DriverEvent apply_consolidation_driver_event_def sleep_change.same)
  next
    case phase: True
    show ?thesis
    proof (cases ?r)
      case (Inl e)
      then show ?thesis
        using phase by (simp add: DriverEvent snd_then apply_consolidation_driver_event_def Let_def sleep_change.same)
    next
      case (Inr k)
      then have "next_consolidation (ss_active_cycle_id ?s) (ss_consolidation ?s) event = Inr k"
        "consolidation_validate_for_cycle k (ss_active_cycle_id ?s) = Inr ()" by auto
      then have "sleep_change c (c\<lparr>sl_state := ?s\<lparr>ss_consolidation := k\<rparr>\<rparr>)"
        using phase by (intro sleep_change.drive) blast
      then show ?thesis
        using phase Inr by (simp add: DriverEvent snd_then apply_consolidation_driver_event_def Let_def del: and_then_Inr_iff)
    qed
  qed
qed

lemma driven_shape:
  assumes "sleep_shape s" and "ss_phase s = Consolidating"
    and "consolidation_validate_for_cycle k (ss_active_cycle_id s) = Inr ()"
  shows "sleep_shape (s\<lparr>ss_consolidation := k\<rparr>)"
  using assms by (simp add: sleep_shape_def)

lemma change_shape:
  assumes "sleep_change c c'" and "sleep_shape (sl_state c)"
  shows "sleep_shape (sl_state c')"
  using assms(1)
proof (cases rule: sleep_change.cases)
  case (move q tick trigger)
  then show ?thesis using stored_shape [OF assms(2)] by simp
next
  case (drive event k)
  then show ?thesis using driven_shape [OF assms(2)] by simp
qed (use assms(2) in simp)

interpretation sleep_forever: guarded_machine sleep_step "\<lambda>c. sleep_shape (sl_state c)"
  by unfold_locales (rule change_shape [OF step_change])

lemma sleep_new_shape: "sleep_controller_new config = Inr c \<Longrightarrow> sleep_shape (sl_state c)"
  by (auto simp: sleep_controller_new_def sleep_shape_def sleep_state_awake_at_def)

text \<open>
  C5. The durable sleep state is valid exactly as long as cycles can be counted. Whatever is called on a
  controller made by \<open>new\<close>, in any order and with any arguments, failing calls included: while fewer than
  \<open>2 ^ 32\<close> cycles are consolidated the state passes its own validation and the last consolidated id is the number
  of completed cycles; from then on the counter stands at its maximum and the stored state fails its validation.
  A sleeping controller always works on the cycle after the last consolidated one.
\<close>

theorem sleep_state_stays_valid:
  assumes "sleep_controller_new config = Inr c0" and "s = sl_state (run_ops sleep_step ops c0)"
  shows "(if unat (ss_last_consolidated_cycle_id s) < 2 ^ 32
      then sleep_state_validate s = Inr () \<and> ss_last_consolidated_cycle_id s = ucast (ss_cycles_completed s)
      else sleep_state_validate s = Inl ConsolidationGenerationMismatch \<and> ss_cycles_completed s = - 1)
    \<and> (ss_phase s \<noteq> Awake \<longrightarrow> unat (ss_active_cycle_id s) = unat (ss_last_consolidated_cycle_id s) + 1)"
proof -
  have shape: "sleep_shape s" unfolding assms(2) by (rule sleep_forever.run_keeps [OF sleep_new_shape [OF assms(1)]])
  have max: "unat (- 1 :: u32) = 2 ^ 32 - 1" by (simp add: unsigned_minus_1_eq_mask mask_eq_exp_minus_1)
  have "ss_last_consolidated_cycle_id s = ucast (ss_cycles_completed s)" if "unat (ss_last_consolidated_cycle_id s) < 2 ^ 32"
    using that shape by (simp add: word_unat_eq_iff sleep_shape_def)
  moreover have "ss_cycles_completed s = - 1" if "\<not> unat (ss_last_consolidated_cycle_id s) < 2 ^ 32"
    using that shape unfolding word_unat_eq_iff max by (simp add: sleep_shape_def)
  ultimately show ?thesis using shape by (simp add: shape_validate) (simp add: sleep_shape_def)
qed

text \<open>
  A call that fails leaves the controller exactly as it was, although \<open>transition_to\<close> stores the
  next state before it validates it: from a state the controller can be in, what it stores is valid.
\<close>

lemma sleep_failure_leaves_no_trace:
  assumes "sleep_wf (sl_state c)" and "ss_cycles_completed (sl_state c) \<noteq> - 1"
    and "fst (sleep_step op c) = Inl e"
  shows "snd (sleep_step op c) = c"
  using sleep_step_effect [OF assms(1,2), of op] assms(3)
  by (auto elim: sleep_effect.cases)

section \<open>The abstract cycle\<close>

text \<open>
  The specification of a sleep cycle: the phase, the number of consolidated cycles and how far the
  consolidation of the current cycle has come (0 nothing, 1 pending, 2 prepared, 3 submitted,
  4 completed, 5 committed). A cycle counts as consolidated by the last consolidated id, which is the
  completed-cycle counter until that saturates.
\<close>

inductive cycle_move :: "SleepPhase \<times> nat \<times> nat \<Rightarrow> SleepPhase \<times> nat \<times> nat \<Rightarrow> bool" where
  sleep: "cycle_move (Awake, n, 0) (EnteringSleep, n, 0)"
| force: "cycle_move (p, n, k) (ForcedRecoverySleep, n, 0)"
| settle: "cycle_move (EnteringSleep, n, 0) (Consolidating, n, 0)"
| resume: "cycle_move (ForcedRecoverySleep, n, 0) (Consolidating, n, 0)"
| progress: "k < 5 \<Longrightarrow> cycle_move (Consolidating, n, k) (Consolidating, n, Suc k)"
| committed: "cycle_move (Consolidating, n, 5) (Waking, n, 5)"
| wake: "cycle_move (Waking, n, 5) (Awake, Suc n, 0)"

definition cycle_of :: "SleepController \<Rightarrow> SleepPhase \<times> nat \<times> nat" where
  "cycle_of c = (ss_phase (sl_state c), unat (ss_last_consolidated_cycle_id (sl_state c)),
     unat (consolidation_kind_raw (ss_consolidation (sl_state c))))"

lemma next_consolidation_kind:
  "next_consolidation a k event = Inr k' \<Longrightarrow>
     unat (consolidation_kind_raw k') = Suc (unat (consolidation_kind_raw k)) \<and> unat (consolidation_kind_raw k) < 5
     \<or> consolidation_kind_raw k' = consolidation_kind_raw k"
  by (cases "(a, k, event)" rule: next_consolidation.cases) (auto split: if_splits)

lemma change_refines:
  assumes "sleep_shape (sl_state c)" and "sleep_change c c'"
  shows "cycle_of c' = cycle_of c \<or> cycle_move (cycle_of c) (cycle_of c')"
proof -
  have kind: "is_committed k \<Longrightarrow> consolidation_kind_raw k = 5" for k
    by (cases k) simp_all
  have f: "ss_phase (sl_state c) \<notin> {Consolidating, Waking} \<Longrightarrow> ss_consolidation (sl_state c) = CS_None"
    "ss_phase (sl_state c) = Waking \<Longrightarrow> is_committed (ss_consolidation (sl_state c))"
    "ss_phase (sl_state c) \<noteq> Awake \<Longrightarrow> unat (ss_active_cycle_id (sl_state c)) = Suc (unat (ss_last_consolidated_cycle_id (sl_state c)))"
    using assms(1) by (simp_all add: sleep_shape_def)
  show ?thesis
    using assms(2)
  proof (cases rule: sleep_change.cases)
    case (move q tick trigger)
    then show ?thesis
      using f by (auto simp: cycle_of_def stored_def moved_def can_move_def phase_edge_iff kind intro: cycle_move.intros)
  next
    case (drive event k)
    show ?thesis
      using drive next_consolidation_kind [OF drive(3)]
      by (auto simp: cycle_of_def intro: cycle_move.intros)
  qed simp
qed

text \<open>
  C6. The controller refines the abstract cycle: whatever has been called on a new controller before, the next
  call is a move of the specification or no move, also when it fails and after the completed-cycle counter has
  saturated. So consolidation only progresses one stage at a time, waking starts only from a committed
  consolidation, and a cycle counts as consolidated only by waking.
\<close>

theorem sleep_refines_cycle:
  assumes "sleep_controller_new config = Inr c0" and "c = run_ops sleep_step ops c0"
  shows "cycle_of (snd (sleep_step op c)) = cycle_of c \<or> cycle_move (cycle_of c) (cycle_of (snd (sleep_step op c)))"
proof -
  have "sleep_shape (sl_state c)" unfolding assms(2) by (rule sleep_forever.run_keeps [OF sleep_new_shape [OF assms(1)]])
  then show ?thesis by (intro change_refines step_change)
qed


section \<open>Cycles in order\<close>

text \<open>The ids of the cycles a sequence of calls completes: the active id at each return to waking.\<close>

fun woken_cycles :: "SleepOp list \<Rightarrow> SleepController \<Rightarrow> u64 list" where
  "woken_cycles [] c = []"
| "woken_cycles (op # ops) c =
     (case fst (sleep_step op c) of
        Inr (Some t) \<Rightarrow> if st_to t = Awake then [ss_active_cycle_id (sl_state c)] else []
      | _ \<Rightarrow> []) @ woken_cycles ops (snd (sleep_step op c))"

lemma step_woken:
  assumes "sleep_wf (sl_state c)" and "ss_cycles_completed (sl_state c) \<noteq> - 1"
    and "n = unat (ss_cycles_completed (sl_state c))"
    and "m = unat (ss_cycles_completed (sl_state (snd (sleep_step op c))))"
  shows "map unat (case fst (sleep_step op c) of
        Inr (Some t) \<Rightarrow> if st_to t = Awake then [ss_active_cycle_id (sl_state c)] else []
      | _ \<Rightarrow> []) = [Suc n..<Suc m] \<and> n \<le> m"
  using sleep_step_effect [OF assms(1,2), of op]
proof (cases rule: sleep_effect.cases)
  case (moves q tick trigger)
  have k: "unat (ss_cycles_completed (sl_state c) + 1) = Suc (unat (ss_cycles_completed (sl_state c)))"
    using moved_counts(4) [OF assms(1) moves(2) assms(2)] by simp
  have a: "q = Awake \<Longrightarrow> unat (ss_active_cycle_id (sl_state c)) = Suc n"
    using moves(2) assms(1,3) by (auto simp: can_move_def phase_edge_iff sleep_wf_def)
  show ?thesis using moves(1) k a assms(3,4) by (auto simp: moved_def)
qed (use assms(3,4) in simp_all)

lemma woken_cycles_count:
  "sleep_inv c \<Longrightarrow> ss_cycles_completed (sl_state (run_ops sleep_step ops c)) \<noteq> - 1 \<Longrightarrow>
   map unat (woken_cycles ops c) = [Suc (unat (ss_cycles_completed (sl_state c)))
     ..<Suc (unat (ss_cycles_completed (sl_state (run_ops sleep_step ops c))))]"
proof (induction ops arbitrary: c)
  case Nil
  then show ?case by simp
next
  case (Cons op ops)
  let ?d = "snd (sleep_step op c)"
  have d: "sleep_inv ?d" using Cons.prems(1) by (rule sleep_machine.step_keeps)
  have up: "ss_cycles_completed (sl_state ?d) \<le> ss_cycles_completed (sl_state (run_ops sleep_step ops ?d))"
    using d by (rule sleep_machine.run_raises)
  have max: "x = - 1" if "- 1 \<le> x" for x :: u32
    using that by (simp add: word_order.extremum_unique)
  have room: "ss_cycles_completed (sl_state c) \<noteq> - 1"
    using sleep_machine.run_raises [OF Cons.prems(1), of "op # ops"] Cons.prems(2) max by auto
  then have wf: "sleep_wf (sl_state c)" using Cons.prems(1) by (simp add: sleep_inv_def)
  have "[Suc n..<Suc m] @ [Suc m..<Suc k] = [Suc n..<Suc k]" if "n \<le> m" "m \<le> k" for n m k :: nat
    using that by (metis Suc_le_mono upt_add_eq_append le_Suc_ex add_Suc)
  then show ?case
    using step_woken [OF wf room refl refl, of op] Cons.IH [OF d] Cons.prems(2) up
    by (simp add: word_le_nat_alt del: upt_Suc)
qed

text \<open>
  Cycles are consolidated exactly once and in order: over any sequence of calls on a new
  controller the cycles it wakes from are 1, 2, 3 and so on, up to the counter it reports.
\<close>

lemma cycles_woken_in_order:
  assumes "sleep_controller_new config = Inr c0"
    and "ss_cycles_completed (sl_state (run_ops sleep_step ops c0)) \<noteq> - 1"
  shows "map unat (woken_cycles ops c0)
    = [1..<Suc (unat (ss_cycles_completed (sl_state (run_ops sleep_step ops c0))))]"
proof -
  have "ss_cycles_completed (sl_state c0) = 0"
    using assms(1) by (auto simp: sleep_controller_new_def sleep_state_awake_at_def)
  with woken_cycles_count [OF _ assms(2)] sleep_new_wf [OF assms(1)] show ?thesis
    by (simp del: upt_Suc)
qed

section \<open>What a commit commits\<close>

fun_cases next_consolidation_committed:
  "next_consolidation a k (EV_Committed i g d) = Inr k'"

text \<open>
  C7. A commit is accepted only for the staged output of the active cycle: the controller held a
  completed transaction whose request and staged output pass validation, and it commits that output's
  digest with a generation one above the request's input.
\<close>

theorem commit_is_the_staged_output:
  assumes "sleep_wf (sl_state c)" and "fst (sleep_step (DriverEvent (EV_Committed i g d)) c) = Inr r"
  shows "\<exists>request staged. ss_consolidation (sl_state c) = CS_Completed request staged
    \<and> cr_cycle_id request = i \<and> i = ss_active_cycle_id (sl_state c)
    \<and> request_validate request = Inr () \<and> staged_validate_against staged request 1 1 = Inr ()
    \<and> d = so_output_digest staged \<and> unat g = unat (cr_input_generation request) + 1"
proof -
  have ok: "\<exists>k. next_consolidation (ss_active_cycle_id (sl_state c)) (ss_consolidation (sl_state c))
      (EV_Committed i g d) = Inr k"
    using assms(2)
    by (auto simp: apply_consolidation_driver_event_def Let_def checked_op_def op_then_def
        split: if_splits sum.splits)
  then obtain request staged where k: "ss_consolidation (sl_state c) = CS_Completed request staged"
    and m: "i = cr_cycle_id request" "g = so_output_generation staged" "d = so_output_digest staged"
    by (auto elim!: next_consolidation_committed split: if_splits)
  have v: "consolidation_validate_for_cycle (CS_Completed request staged) (ss_active_cycle_id (sl_state c)) = Inr ()"
    using sleep_wf_fields(6) [OF assms(1)] by (simp add: k)
  then have valid: "request_validate request = Inr ()" "staged_validate_against staged request 1 1 = Inr ()"
    "cr_cycle_id request = ss_active_cycle_id (sl_state c)" by (auto split: if_splits)
  have "unat g = unat (cr_input_generation request) + 1"
    using staged_validate_against_fields(2) [OF valid(2)] request_validate_fields(3) [OF valid(1)] m by simp
  with k m valid show ?thesis by auto
qed

section \<open>Saved states\<close>

text \<open>
  A saved sleep state reads back as itself: serializing a state the controller can be in and
  reading it again gives the same state, migration included.
\<close>

lemma sleep_state_roundtrip:
  assumes "sleep_wf s"
  shows "sleep_state_deserialize (sleep_state_serialize s) = Inr s"
proof -
  have a: "\<not> (ss_active_cycle_id s = 0 \<and> ss_phase s \<noteq> Awake)"
    using assms by (auto simp: sleep_wf_def)
  have v: "sleep_state_validate s = Inr ()" using assms by (simp add: sleep_wf_def)
  have l: "ss_last_consolidated_cycle_id s = ucast (ss_cycles_completed s)"
    using assms by (simp add: sleep_wf_def)
  have "ss_last_consolidated_cycle_id s = 0 \<Longrightarrow> ss_cycles_completed s = 0"
    unfolding l by (simp add: word_unat_eq_iff)
  then show ?thesis
    using a v by (cases s) (auto simp: sleep_state_deserialize_def sleep_state_serialize_def
        with_default_def Let_def)
qed

text \<open>
  Older saves migrate into the invariant: a save without the cycle fields, if it is accepted,
  gives a state whose last consolidated cycle is the completed count and whose active cycle, asleep,
  is the next one.
\<close>

lemma legacy_sleep_state_migrates:
  assumes "sw_active_cycle_id w = None" and "sw_last_consolidated_cycle_id w = None"
    and "sleep_state_deserialize w = Inr s"
  shows "sleep_wf s"
proof -
  have add: "unat (saturating_add (ucast (x :: u32) :: u64) 1) = unat x + 1" for x
    using unat_u32_limit [of x] by (simp add: unat_saturating_add)
  have zero: "unat (saturating_add (0 :: u64) 1) = 1" by (simp add: unat_saturating_add)
  show ?thesis
    using assms add [of "sw_cycles_completed w"] zero
    by (auto simp: sleep_state_deserialize_def with_default_def Let_def sleep_wf_def split: if_splits)
qed

end
