(* ===== verification/Chemistry_Proofs.thy ===== *)
theory Chemistry_Proofs
  imports Chemistry
begin

text \<open>
  Homeostasis stays in range: from a valid snapshot, every tick with a valid delta and valid
  parameters succeeds and leaves a valid snapshot, however many ticks have passed; the modulation
  functions never fail on a valid snapshot.
\<close>

section \<open>Unit values\<close>

abbreviation unit_value :: "f32 \<Rightarrow> bool" where
  "unit_value \<equiv> f32_in_range f32_zero f32_one"

abbreviation signed_unit_value :: "f32 \<Rightarrow> bool" where
  "signed_unit_value \<equiv> f32_in_range f32_minus_one f32_one"

lemma unit_bounded: "unit_value x \<Longrightarrow> f32_bounded 149 x"
  by (simp add: f32_unit_bounded f32_in_range_weaken)

lemma unit_finite: "unit_value x \<Longrightarrow> f32_is_finite x"
  by (rule f32_bounded_finite [OF unit_bounded])

lemma unit_not_nan: "unit_value x \<Longrightarrow> \<not> f32_is_nan x"
  by (simp add: unit_finite f32_finite_not_nan)

lemma signed_unit_finite: "signed_unit_value x \<Longrightarrow> f32_is_finite x"
  by (rule f32_bounded_finite [OF f32_unit_bounded])

lemma signed_unit_not_nan: "signed_unit_value x \<Longrightarrow> \<not> f32_is_nan x"
  by (rule f32_finite_not_nan [OF signed_unit_finite])

lemma validate_unit_values_iff [simp]:
  "validate_unit_values xs = Inr () \<longleftrightarrow> list_all unit_value xs"
  by (auto simp: validate_unit_values_def validate_finite_slice_def list_all_iff unit_finite)

lemma validate_signed_unit_values_iff [simp]:
  "validate_signed_unit_values xs = Inr () \<longleftrightarrow> list_all signed_unit_value xs"
  by (auto simp: validate_signed_unit_values_def validate_finite_slice_def list_all_iff
      signed_unit_finite)

lemma clamp01_unit: "\<not> f32_is_nan x \<Longrightarrow> unit_value (clamp01 x)"
  unfolding clamp01_def by (rule f32_clamp_in_range) (simp_all add: f32_le_def)

lemma clamp01_finite: "\<not> f32_is_nan x \<Longrightarrow> validate_finite (clamp01 x) = Inr (clamp01 x)"
  by (simp add: clamp01_unit unit_finite)

lemma decay_toward_not_nan:
  "f32_is_finite v \<Longrightarrow> \<not> f32_is_nan t \<Longrightarrow> \<not> f32_is_nan a \<Longrightarrow> \<not> f32_is_nan (decay_toward v t a)"
  by (simp add: decay_toward_def f32_max_not_nan f32_min_not_nan f32_sub_not_nan f32_add_not_nan
      f32_finite_not_nan)

lemma decay_toward_zero_not_nan:
  "f32_is_finite v \<Longrightarrow> \<not> f32_is_nan a \<Longrightarrow> \<not> f32_is_nan (decay_toward_zero v a)"
  by (simp add: decay_toward_zero_def decay_toward_not_nan)

lemma f32_lit_not_nan [simp]: "\<not> f32_is_nan (f32_lit n d)"
  by (simp add: f32_lit_def)

lemma f32_lit_unit: "0 < d \<Longrightarrow> n \<le> d \<Longrightarrow> unit_value (f32_lit n d)"
proof -
  assume d: "0 < d" and n: "n \<le> d"
  have "n * 2 ^ 149 \<le> 2 ^ 149 * d" using n by (simp add: mult.commute)
  then have "f32_bounded 149 (f32_lit n d)" unfolding f32_lit_def using d by (intro f32_round_bounded) simp_all
  moreover have "\<not> f32_is_sign_negative (f32_lit n d)" by (simp add: f32_lit_def f32_round_fields(3))
  ultimately have "0 \<le> f32_scaled (f32_lit n d)" "f32_scaled (f32_lit n d) \<le> 2 ^ 149"
    by (simp_all add: f32_scaled_def f32_bounded_def flip: of_nat_le_iff)
  then show ?thesis by (simp add: f32_in_range_def f32_le_def)
qed

lemma f32_neg_unit: "unit_value x \<Longrightarrow> signed_unit_value (f32_neg x)"
  by (auto simp: f32_in_range_def f32_le_def)

lemma zero_one_unit [simp]: "unit_value f32_zero" "unit_value f32_one"
  "signed_unit_value f32_zero"
  by (simp_all add: f32_in_range_def f32_le_def)

section \<open>Snapshots\<close>

lemmas chem_arrays =
  drive_to_array_def drive_delta_to_array_def endocrine_to_array_def endocrine_delta_to_array_def
  parameters_to_array_def

lemmas not_nan_intros =
  f32_add_not_nan f32_sub_not_nan f32_mul_not_nan decay_toward_not_nan decay_toward_zero_not_nan
  unit_finite unit_not_nan signed_unit_not_nan f32_finite_not_nan

lemma drive_apply_drift_valid:
  assumes "drive_validate s = Inr ()" "parameters_validate p = Inr ()" "f32_is_finite steps"
  shows "drive_validate (drive_apply_drift s p steps) = Inr ()"
  using assms
  by (simp add: drive_validate_def parameters_validate_def chem_arrays drive_apply_drift_def
      Let_def drive_clamp_def map_slots_def clamp01_unit not_nan_intros)

lemma drive_apply_delta_valid:
  assumes "drive_validate s = Inr ()" "drive_delta_validate d = Inr ()"
  shows "drive_validate (drive_apply_delta s d) = Inr ()"
  using assms
  by (simp add: drive_validate_def drive_delta_validate_def chem_arrays drive_apply_delta_def
      drive_clamp_def map_slots_def clamp01_unit not_nan_intros)

lemma endocrine_baseline_not_nan:
  "\<not> f32_is_nan (es_adrenaline endocrine_baseline)" "\<not> f32_is_nan (es_cortisol endocrine_baseline)"
  "\<not> f32_is_nan (es_dopamine endocrine_baseline)" "\<not> f32_is_nan (es_oxytocin endocrine_baseline)"
  "\<not> f32_is_nan (es_serotonin endocrine_baseline)"
  "\<not> f32_is_nan (es_acetylcholine endocrine_baseline)"
  "\<not> f32_is_nan (es_learning_modulator endocrine_baseline)"
  "\<not> f32_is_nan (es_developmental_hormone endocrine_baseline)"
  "\<not> f32_is_nan (es_sleep_pressure endocrine_baseline)"
  by (simp_all add: endocrine_baseline_def)

lemma endocrine_apply_decay_valid:
  assumes "endocrine_validate s = Inr ()" "parameters_validate p = Inr ()" "f32_is_finite steps"
  shows "endocrine_validate (endocrine_apply_decay s p steps) = Inr ()"
  using assms
  by (simp add: endocrine_validate_def parameters_validate_def chem_arrays endocrine_apply_decay_def
      Let_def endocrine_clamp_def map_slots_def clamp01_unit not_nan_intros endocrine_baseline_not_nan)

lemma endocrine_apply_delta_valid:
  assumes "endocrine_validate s = Inr ()" "endocrine_delta_validate d = Inr ()"
  shows "endocrine_validate (endocrine_apply_delta s d) = Inr ()"
  using assms
  by (simp add: endocrine_validate_def endocrine_delta_validate_def chem_arrays
      endocrine_apply_delta_def endocrine_clamp_def map_slots_def clamp01_unit not_nan_intros)

lemma steps_finite: "f32_is_finite (f32_of_nat (unat (min (e :: u64) 0xffffffff)))"
proof -
  have "unat (min e 0xffffffff) \<le> 2 ^ 32" by (simp add: min_def word_le_nat_alt)
  then have "f32_bounded (32 + 149) (f32_of_nat (unat (min e 0xffffffff)))"
    by (rule f32_of_nat_bounded) simp
  then show ?thesis by (rule f32_bounded_finite)
qed

text \<open>
  C4. Homeostasis never leaves its range: with a valid snapshot, delta and parameters and a tick that
  does not go back, \<open>advance\<close> succeeds, whatever the number of ticks that passed and however the
  floating-point operations round, and the snapshot it returns is valid and carries the new tick.
\<close>

theorem homeostatic_advance_total:
  assumes "homeostatic_validate s = Inr ()" and "homeostatic_delta_validate d = Inr ()"
    and "parameters_validate p = Inr ()" and "hs_tick s \<le> t"
  shows "\<exists>s'. homeostatic_advance s t d p = Inr s' \<and> homeostatic_validate s' = Inr () \<and> hs_tick s' = t"
proof -
  define steps where "steps = f32_of_nat (unat (min (saturating_sub t (hs_tick s)) 0xffffffff))"
  have steps: "f32_is_finite steps" unfolding steps_def by (rule steps_finite)
  from assms have "drive_validate (hs_drives s) = Inr ()" "endocrine_validate (hs_hormones s) = Inr ()"
    "drive_delta_validate (hd_drives d) = Inr ()" "endocrine_delta_validate (hd_hormones d) = Inr ()"
    by (auto simp: homeostatic_validate_def homeostatic_delta_validate_def)
  then have "drive_validate (drive_apply_delta (drive_apply_drift (hs_drives s) p steps) (hd_drives d)) = Inr ()"
    and "endocrine_validate (endocrine_apply_delta (endocrine_apply_decay (hs_hormones s) p steps)
      (hd_hormones d)) = Inr ()"
    using assms(3) steps
    by (auto intro!: drive_apply_delta_valid drive_apply_drift_valid endocrine_apply_delta_valid
        endocrine_apply_decay_valid)
  with assms show ?thesis
    by (simp add: homeostatic_advance_def steps_def [symmetric] Let_def tick_validate_monotonic_def
        homeostatic_new_def homeostatic_validate_def schema_versions_CURRENT_def)
qed


lemma f32_lit_finite: "0 < d \<Longrightarrow> n \<le> d \<Longrightarrow> f32_is_finite (f32_lit n d)"
  by (rule unit_finite [OF f32_lit_unit])

lemma homeostatic_baseline_valid: "homeostatic_validate (homeostatic_baseline t) = Inr ()"
  by (simp add: homeostatic_validate_def homeostatic_baseline_def schema_versions_CURRENT_def
      drive_validate_def endocrine_validate_def drive_baseline_def endocrine_baseline_def
      drive_to_array_def endocrine_to_array_def f32_lit_unit)

lemma parameters_reference_valid: "parameters_validate parameters_reference = Inr ()"
  by (simp add: parameters_validate_def parameters_to_array_def parameters_reference_def f32_lit_unit)

lemma sleep_recovery_valid: "homeostatic_delta_validate sleep_recovery_per_tick = Inr ()"
  by (simp add: homeostatic_delta_validate_def sleep_recovery_per_tick_def drive_delta_validate_def
      endocrine_delta_validate_def drive_delta_to_array_def endocrine_delta_to_array_def
      drive_delta_zero_def endocrine_delta_zero_def f32_neg_unit f32_lit_unit f32_in_range_weaken)

theorem homeostatic_advance_total_witness:
  "\<exists>s. homeostatic_advance (homeostatic_baseline 3) 10 sleep_recovery_per_tick parameters_reference
    = Inr s \<and> homeostatic_validate s = Inr () \<and> hs_tick s = 10"
  by (rule homeostatic_advance_total [OF homeostatic_baseline_valid sleep_recovery_valid
        parameters_reference_valid]) (simp add: homeostatic_baseline_def)

section \<open>Modulation\<close>

lemma f32_bounded_mono: "f32_bounded j x \<Longrightarrow> j \<le> k \<Longrightarrow> f32_bounded k x"
  using order_trans [OF _ power_increasing [of j k "2 :: nat"]] by (simp add: f32_bounded_def)

lemma unit_product: "unit_value x \<Longrightarrow> unit_value y \<Longrightarrow> f32_bounded 149 (f32_mul x y)"
  by (rule f32_mul_bounded [where j = 149 and k = 149]) (simp_all add: unit_bounded)

text \<open>\<open>a + b * x\<close> and \<open>1 - b * x\<close> over unit values are at most two in magnitude.\<close>

lemma gain_bounded:
  "unit_value a \<Longrightarrow> unit_value b \<Longrightarrow> unit_value x \<Longrightarrow> f32_bounded 150 (f32_add a (f32_mul b x))"
  using f32_add_bounded [of 149 a "f32_mul b x"] by (simp add: unit_bounded unit_product)

lemma penalty_bounded:
  "unit_value b \<Longrightarrow> unit_value x \<Longrightarrow> f32_bounded 150 (f32_sub f32_one (f32_mul b x))"
  using f32_sub_bounded [of 149 f32_one "f32_mul b x"] by (simp add: unit_bounded unit_product)

lemma scaled_product:
  "f32_bounded k x \<Longrightarrow> f32_bounded 150 y \<Longrightarrow> 149 \<le> k \<Longrightarrow> k \<le> 200 \<Longrightarrow> f32_bounded (Suc k) (f32_mul x y)"
  by (rule f32_mul_bounded [where j = k and k = 150]) simp_all

lemma homeostatic_channels:
  assumes "homeostatic_validate s = Inr ()"
  shows "unit_value (ds_hunger (hs_drives s))" "unit_value (ds_fatigue (hs_drives s))"
    "unit_value (ds_fear (hs_drives s))" "unit_value (ds_pain (hs_drives s))"
    "unit_value (ds_curiosity (hs_drives s))" "unit_value (ds_brain_atp (hs_drives s))"
    "unit_value (es_adrenaline (hs_hormones s))" "unit_value (es_cortisol (hs_hormones s))"
    "unit_value (es_dopamine (hs_hormones s))" "unit_value (es_learning_modulator (hs_hormones s))"
    "unit_value (es_sleep_pressure (hs_hormones s))"
  using assms
  by (simp_all add: homeostatic_validate_def drive_validate_def endocrine_validate_def chem_arrays)

lemma unit_finite_value: "unit_value x \<Longrightarrow> confidence_new x = Inr x"
  by (simp add: confidence_new_def unit_finite)

lemma salience_bounded:
  assumes "f32_bounded k acc" "149 \<le> k" "k \<le> 200" "unit_value b" "unit_value x"
  shows "f32_bounded (Suc k) (f32_add acc (f32_mul b x))"
  using assms unit_product [of b x] f32_bounded_mono [of 149 "f32_mul b x" k]
  by (intro f32_add_bounded) simp_all

lemma learning_rate_arg:
  assumes "homeostatic_validate s = Inr ()"
  shows "\<exists>x. learning_rate_scale s = Inr x \<and> unit_value x"
proof -
  note ch = homeostatic_channels [OF assms]
  let ?v = "f32_mul (f32_mul (f32_mul (es_learning_modulator (hs_hormones s))
      (f32_sub f32_one (f32_mul (f32_lit 55 100) (es_cortisol (hs_hormones s)))))
      (f32_add (f32_lit 5 10) (f32_mul (f32_lit 5 10) (es_dopamine (hs_hormones s)))))
      (f32_add (f32_lit 25 100) (f32_mul (f32_lit 75 100) (ds_brain_atp (hs_drives s))))"
  have "f32_bounded (Suc (Suc (Suc 149))) ?v"
    by (intro scaled_product unit_bounded penalty_bounded gain_bounded f32_lit_unit ch) simp_all
  then have nn: "\<not> f32_is_nan ?v" by (rule f32_bounded_not_nan)
  then show ?thesis
    using assms by (simp add: learning_rate_scale_def Let_def clamp01_unit unit_finite)
qed

lemma salience_arg:
  assumes "homeostatic_validate s = Inr ()"
  shows "\<exists>x. salience_weight s = Inr x \<and> unit_value x"
proof -
  note ch = homeostatic_channels [OF assms]
  let ?v = "f32_add (f32_add (f32_add (f32_add (f32_add (f32_add (f32_lit 15 100)
         (f32_mul (f32_lit 18 100) (ds_curiosity (hs_drives s))))
         (f32_mul (f32_lit 18 100) (ds_fear (hs_drives s))))
         (f32_mul (f32_lit 2 10) (ds_pain (hs_drives s))))
         (f32_mul (f32_lit 12 100) (ds_hunger (hs_drives s))))
         (f32_mul (f32_lit 1 10) (es_adrenaline (hs_hormones s))))
         (f32_mul (f32_lit 7 100) (es_dopamine (hs_hormones s)))"
  have "f32_bounded (Suc (Suc (Suc (Suc (Suc (Suc 149)))))) ?v"
    by (intro salience_bounded unit_bounded f32_lit_unit ch) simp_all
  then have nn: "\<not> f32_is_nan ?v" by (rule f32_bounded_not_nan)
  then show ?thesis
    using assms by (simp add: salience_weight_def Let_def clamp01_unit unit_finite)
qed

lemma motor_arg:
  assumes "homeostatic_validate s = Inr ()" and "unit_value b"
  shows "\<exists>x. motor_confidence b s = Inr x \<and> unit_value x"
proof -
  note ch = homeostatic_channels [OF assms(1)]
  let ?v = "f32_mul (f32_mul (f32_mul (f32_mul b
      (f32_sub f32_one (f32_mul (f32_lit 35 100) (ds_fatigue (hs_drives s)))))
      (f32_sub f32_one (f32_mul (f32_lit 25 100) (ds_pain (hs_drives s)))))
      (f32_sub f32_one (f32_mul (f32_lit 2 10) (ds_fear (hs_drives s)))))
      (f32_add (f32_lit 35 100) (f32_mul (f32_lit 65 100) (ds_brain_atp (hs_drives s))))"
  have "f32_bounded (Suc (Suc (Suc (Suc 149)))) ?v"
    by (intro scaled_product unit_bounded penalty_bounded gain_bounded f32_lit_unit ch assms) simp_all
  then have nn: "\<not> f32_is_nan ?v" by (rule f32_bounded_not_nan)
  then show ?thesis
    using assms by (simp add: motor_confidence_def Let_def clamp01_unit unit_finite_value)
qed

text \<open>
  On a valid snapshot the three modulation functions never fail, and what they return is a unit
  value: no rounding, overflow or NaN inside their formulas shows outside.
\<close>

lemma modulation_total:
  assumes "homeostatic_validate s = Inr ()" and "f32_in_range f32_zero f32_one b"
  shows "\<exists>x y z. learning_rate_scale s = Inr x \<and> salience_weight s = Inr y \<and> motor_confidence b s = Inr z
    \<and> f32_in_range f32_zero f32_one x \<and> f32_in_range f32_zero f32_one y
    \<and> f32_in_range f32_zero f32_one z"
  using learning_rate_arg [OF assms(1)] salience_arg [OF assms(1)] motor_arg [OF assms] by blast

theorem modulation_total_witness:
  "\<exists>x y z. learning_rate_scale (homeostatic_baseline 0) = Inr x
    \<and> salience_weight (homeostatic_baseline 0) = Inr y
    \<and> motor_confidence f32_one (homeostatic_baseline 0) = Inr z
    \<and> f32_in_range f32_zero f32_one x \<and> f32_in_range f32_zero f32_one y
    \<and> f32_in_range f32_zero f32_one z"
  by (rule modulation_total [OF homeostatic_baseline_valid]) simp

section \<open>The value of a change\<close>

lemma f32_sum_bounded:
  "\<forall>x \<in> set xs. f32_bounded k x \<Longrightarrow> f32_bounded k acc \<Longrightarrow> 24 \<le> k \<Longrightarrow> k + length xs \<le> 276
    \<Longrightarrow> f32_bounded (k + length xs) (fold (\<lambda>x a. f32_add a x) xs acc)"
proof (induction xs arbitrary: acc k)
  case Nil
  then show ?case by simp
next
  case (Cons x xs)
  have "f32_bounded (Suc k) (f32_add acc x)" using Cons.prems by (intro f32_add_bounded) simp_all
  moreover have "\<forall>y \<in> set xs. f32_bounded (Suc k) y" using Cons.prems f32_bounded_mono by fastforce
  ultimately have "f32_bounded (Suc k + length xs) (fold (\<lambda>x a. f32_add a x) xs (f32_add acc x))"
    using Cons.prems by (intro Cons.IH) simp_all
  then show ?case by simp
qed


lemma f32_between_bounded:
  assumes "f32_in_range lo hi x" and "f32_bounded k lo" "f32_bounded k hi" "k \<le> 276"
  shows "f32_bounded k x"
proof -
  have "\<bar>f32_scaled lo\<bar> \<le> 2 ^ k" "\<bar>f32_scaled hi\<bar> \<le> 2 ^ k"
    using assms(2,3) by (simp_all add: f32_scaled_abs f32_bounded_def flip: of_nat_le_iff)
  moreover have "f32_scaled lo \<le> f32_scaled x" "f32_scaled x \<le> f32_scaled hi"
    using assms(1) by (simp_all add: f32_in_range_def f32_le_def)
  ultimately have "\<bar>f32_scaled x\<bar> \<le> 2 ^ k" by linarith
  then have "int (f32_magnitude x) \<le> int (2 ^ k)" by (simp add: f32_scaled_abs)
  then have m: "f32_magnitude x \<le> 2 ^ k" by (simp only: of_nat_le_iff)
  have "f32_is_finite x"
  proof (rule ccontr)
    assume "\<not> f32_is_finite x"
    then have "f32_exponent x = 255" by (simp add: f32_is_finite_def)
    then have "2 ^ 23 * 2 ^ 254 \<le> f32_magnitude x" by (simp add: f32_magnitude_def)
    also note m
    also have "(2 :: nat) ^ k \<le> 2 ^ 276" using assms(4) by (intro power_increasing) simp_all
    finally show False by simp
  qed
  with m show ?thesis by (simp add: f32_bounded_def)
qed

lemma check_value_range_iff:
  "check_value_range xs = Inr () \<Longrightarrow> \<forall>x \<in> set xs. f32_in_range (f32_neg (f32_of_nat 2)) (f32_of_nat 2) x"
  by (induction xs) (auto split: if_splits)

lemma two_bounded: "f32_bounded 150 (f32_of_nat 2)"
  using f32_of_nat_bounded [of 2 1] by simp

lemma value_profile_bounded:
  assumes "value_profile_validate v = Inr ()"
  shows "\<forall>x \<in> set (vp_drives v). f32_bounded 150 x" "\<forall>x \<in> set (vp_hormones v). f32_bounded 150 x"
    "f32_bounded 150 (vp_energy v)"
proof -
  have "f32_bounded 150 x" if "f32_in_range (f32_neg (f32_of_nat 2)) (f32_of_nat 2) x" for x
    using that by (rule f32_between_bounded) (simp_all add: two_bounded)
  moreover have "\<forall>x \<in> set (vp_drives v @ vp_hormones v @ [vp_energy v, vp_injury v, vp_disappointment v]).
    f32_in_range (f32_neg (f32_of_nat 2)) (f32_of_nat 2) x"
    using assms by (intro check_value_range_iff) (simp add: value_profile_validate_def split: if_splits)
  ultimately show "\<forall>x \<in> set (vp_drives v). f32_bounded 150 x"
    "\<forall>x \<in> set (vp_hormones v). f32_bounded 150 x" "f32_bounded 150 (vp_energy v)" by auto
qed

lemma weighted_sum_bounded:
  assumes "\<forall>x \<in> set ws. f32_bounded 150 x" "\<forall>x \<in> set ds. f32_bounded 149 x" "length ws \<le> 11"
  shows "f32_bounded 161 (f32_sum (map2 f32_mul ws ds))"
proof -
  have "f32_bounded 150 (f32_mul x y)" if "(x, y) \<in> set (zip ws ds)" for x y
    using that assms(1,2)
    by (intro f32_mul_bounded [where j = 150 and k = 149]) (auto dest: set_zip_leftD set_zip_rightD)
  then have "\<forall>x \<in> set (map2 f32_mul ws ds). f32_bounded 150 x" by auto
  then have "f32_bounded (150 + length (map2 f32_mul ws ds)) (f32_sum (map2 f32_mul ws ds))"
    unfolding f32_sum_def using assms(3) f32_zero_bounded(2) by (intro f32_sum_bounded) simp_all
  then show ?thesis using assms(3) by (elim f32_bounded_mono) simp
qed

lemma f32_min_bounded: "f32_bounded k x \<Longrightarrow> f32_bounded k y \<Longrightarrow> f32_bounded k (f32_min x y)"
  and f32_max_bounded: "f32_bounded k x \<Longrightarrow> f32_bounded k y \<Longrightarrow> f32_bounded k (f32_max x y)"
  by (simp_all add: f32_min_def f32_max_def)

text \<open>
  The value of a change is always a number between minus one and one: for a valid profile of
  eleven drive and eleven hormone weights, a valid delta and an energy change within range, neither a
  sum nor a product overflows or becomes NaN before the clamp.
\<close>

lemma value_change_in_range:
  assumes "value_profile_validate v = Inr ()" and "length (vp_drives v) = 11" and "length (vp_hormones v) = 11"
    and "homeostatic_delta_validate d = Inr ()" and "f32_in_range f32_minus_one f32_one e"
  shows "f32_in_range f32_minus_one f32_one (value_change v d e)"
proof -
  note weights = value_profile_bounded [OF assms(1)]
  have zero: "f32_bounded 149 f32_zero" by (simp add: f32_zero_def f32_zero_bounded)
  have delta: "list_all (f32_bounded 149) (drive_delta_to_array (hd_drives d))"
    "list_all (f32_bounded 149) (endocrine_delta_to_array (hd_hormones d))"
    using assms(4) by (auto simp: homeostatic_delta_validate_def drive_delta_validate_def
        endocrine_delta_validate_def list_all_iff f32_unit_bounded)
  then have "\<forall>x \<in> set ((drive_delta_to_array (hd_drives d))[3 := f32_min (dd_pain (hd_drives d)) f32_zero]).
      f32_bounded 149 x"
    "\<forall>x \<in> set ((endocrine_delta_to_array (hd_hormones d))[9 := f32_max (fst (ed_extension (hd_hormones d))) f32_zero]).
      f32_bounded 149 x"
    using zero by (simp_all add: chem_arrays f32_min_bounded f32_max_bounded)
  then have "f32_bounded 161 (f32_sum (map2 f32_mul (vp_drives v)
      ((drive_delta_to_array (hd_drives d))[3 := f32_min (dd_pain (hd_drives d)) f32_zero])))"
    "f32_bounded 161 (f32_sum (map2 f32_mul (vp_hormones v)
      ((endocrine_delta_to_array (hd_hormones d))[9 := f32_max (fst (ed_extension (hd_hormones d))) f32_zero])))"
    using weights assms(2,3) by (simp_all add: weighted_sum_bounded)
  moreover have "f32_bounded 162 (f32_mul (vp_energy v) e)"
    using weights(3) f32_unit_bounded [OF assms(5)]
    by (intro f32_mul_bounded [where j = 150 and k = 149]) simp_all
  ultimately have "f32_bounded 163 (f32_add (f32_add
      (f32_sum (map2 f32_mul (vp_drives v)
        ((drive_delta_to_array (hd_drives d))[3 := f32_min (dd_pain (hd_drives d)) f32_zero])))
      (f32_sum (map2 f32_mul (vp_hormones v)
        ((endocrine_delta_to_array (hd_hormones d))[9 := f32_max (fst (ed_extension (hd_hormones d))) f32_zero]))))
      (f32_mul (vp_energy v) e))"
    using f32_add_bounded [of 161] f32_add_bounded [of 162] by simp
  then show ?thesis
    unfolding value_change_def Let_def
    by (intro f32_clamp_in_range f32_bounded_not_nan) (simp_all add: f32_le_def)
qed

lemma bit_length_power: "bit_length (2 ^ k) = Suc k"
  by (induction k) (simp_all add: bit_length.simps)

lemma two_pattern: "f32_of_nat 2 = 0x40000000"
proof -
  have "f32_bits_of (2 ^ 150) 1 = 0x40000000"
    using bit_length_power [of 150] by (simp add: f32_bits_of_def round_even_def)
  then show ?thesis by (simp add: f32_of_nat_def f32_round_def)
qed

lemma two_scaled: "f32_scaled (f32_of_nat 2) = 2 ^ 150" "\<not> f32_is_nan (f32_of_nat 2)"
  by (simp_all add: two_pattern f32_scaled_def f32_magnitude_def f32_is_nan_def f32_exponent_unat
      f32_fraction_unat f32_sign_unat)

lemma signed_unit_within_two:
  "signed_unit_value x \<Longrightarrow> f32_in_range (f32_neg (f32_of_nat 2)) (f32_of_nat 2) x"
  by (auto simp: f32_in_range_def f32_le_def two_scaled)

lemma check_value_range_signed:
  "list_all signed_unit_value xs \<Longrightarrow> check_value_range xs = Inr ()"
  by (induction xs) (simp_all add: signed_unit_finite signed_unit_within_two)

lemma value_profile_default_valid: "value_profile_validate value_profile_default = Inr ()"
proof -
  have unit: "unit_value (f32_lit 1 7)" "unit_value (f32_lit 3 100)" by (simp_all add: f32_lit_unit)
  then have "list_all signed_unit_value (vp_drives value_profile_default @ vp_hormones value_profile_default
      @ [vp_energy value_profile_default, vp_injury value_profile_default,
         vp_disappointment value_profile_default])"
    by (simp add: value_profile_default_def Let_def f32_neg_unit f32_in_range_weaken list_all_iff)
  moreover have "\<not> f32_lt (f32_lit 3 100) f32_zero" "\<not> f32_lt f32_one (f32_lit 3 100)"
    using unit by (auto simp: f32_in_range_def f32_le_def f32_lt_def)
  moreover have "\<not> f32_lt f32_one f32_zero" by (simp add: f32_lt_def)
  ultimately show ?thesis
    unfolding value_profile_validate_def by (simp add: check_value_range_signed)
      (simp add: value_profile_default_def Let_def)
qed

theorem value_change_in_range_witness:
  "f32_in_range f32_minus_one f32_one (value_change value_profile_default sleep_recovery_per_tick f32_one)"
  by (rule value_change_in_range [OF value_profile_default_valid])
    (simp_all add: value_profile_default_def Let_def sleep_recovery_valid f32_in_range_weaken)

section \<open>Recovery\<close>

text \<open>
  The recovery assessment is what an organism in danger needs: it never fails on valid input, and
  whenever it reports a seizure or catatonia it also reports the safe idle fallback.
\<close>

theorem recovery_forces_safe_idle:
  assumes "homeostatic_validate s = Inr ()" and "parameters_validate p = Inr ()"
  shows "\<exists>a. recovery_triggers s p = Inr a
    \<and> (recovery_contains a Recovery_SeizureHyperactivity \<or> recovery_contains a Recovery_CatatoniaEnergyHypoplasia
       \<longrightarrow> recovery_contains a Recovery_SafeIdleFallback)
    \<and> (recovery_contains a Recovery_CatatoniaEnergyHypoplasia
       \<longleftrightarrow> f32_le (ds_brain_atp (hs_drives s)) (hp_catatonia_brain_atp_threshold p))"
  using assms by (simp add: recovery_triggers_def Let_def)

theorem recovery_forces_safe_idle_witness:
  "\<exists>a. recovery_triggers (homeostatic_baseline 0) parameters_reference = Inr a
    \<and> (recovery_contains a Recovery_SeizureHyperactivity \<longrightarrow> recovery_contains a Recovery_SafeIdleFallback)"
  using recovery_forces_safe_idle [OF homeostatic_baseline_valid parameters_reference_valid, of 0] by blast

end
