(* ===== verification/Sleep_Examples.thy ===== *)
theory Sleep_Examples
  imports Sleep_Proofs Chemistry_Proofs
begin

text \<open>
  One sleep cycle worked out: a forced sleep, a consolidation through all its stages and the wake. The
  witnesses of the sleep properties are the theorems applied to it.
\<close>

section \<open>A transaction\<close>

definition ex_open_request :: GpuConsolidationRequest where
  "ex_open_request = \<lparr> cr_schema_version = 1, cr_request_flags = 0, cr_cycle_id = 1,
     cr_phenotype_hash = (1, 2, 3, 4), cr_input_generation = 5, cr_expected_output_generation = 6,
     cr_input_digest = (5, 6, 7, 8), cr_replay_digest = (9, 10, 11, 12), cr_max_replay_events = 16,
     cr_max_replay_eligibility_samples = 8, cr_request_digest = zero4 \<rparr>"

definition ex_request :: GpuConsolidationRequest where
  "ex_request = ex_open_request\<lparr>cr_request_digest := finish256 (request_bytes ex_open_request)\<rparr>"

definition ex_open_staged :: ConsolidationStagedOutput where
  "ex_open_staged = \<lparr> so_job_id = 7, so_output_generation = 6, so_output_weight_bank = 1,
     so_output_digest = (21, 22, 23, 24), so_eligibility_reset_generation = 2,
     so_output_eligibility_bank = 0, so_eligibility_output_digest = (31, 32, 33, 34),
     so_replay_journal_generation = 3, so_replay_journal_cursor = 4, so_replay_journal_event_count = 4,
     so_replay_journal_output_digest = (41, 42, 43, 44), so_staging_digest = zero4,
     so_promoted_fast_l1_bits = 0, so_replay_induced_fast_l1_bits = 0 \<rparr>"

definition ex_staged :: ConsolidationStagedOutput where
  "ex_staged = ex_open_staged\<lparr>so_staging_digest := finish256 (staging_bytes ex_open_staged ex_request 1 1)\<rparr>"

lemma ex_request_fields [simp]:
  "cr_cycle_id ex_request = 1" "cr_replay_digest ex_request = (9, 10, 11, 12)"
  "cr_max_replay_events ex_request = 16" "cr_max_replay_eligibility_samples ex_request = 8"
  "cr_expected_output_generation ex_request = 6" "cr_input_generation ex_request = 5"
  by (simp_all add: ex_request_def ex_open_request_def)

lemma ex_staged_fields [simp]:
  "so_job_id ex_staged = 7" "so_output_generation ex_staged = 6"
  "so_output_digest ex_staged = (21, 22, 23, 24)"
  by (simp_all add: ex_staged_def ex_open_staged_def)

lemma ex_request_valid [simp]: "request_validate ex_request = Inr ()"
proof -
  have "recompute_request_digest ex_request = Inr (finish256 (request_bytes ex_open_request))"
    unfolding ex_request_def recompute_request_reseal
    by (simp add: recompute_request_digest_def checked_add_def)
      (simp add: ex_open_request_def)
  then show ?thesis by (simp add: request_validate_def) (simp add: ex_request_def)
qed

lemma ex_staged_valid [simp]: "staged_validate_against ex_staged ex_request 1 1 = Inr ()"
proof -
  have "staged_validate_fields ex_open_staged ex_request = Inr ()"
    by (simp add: staged_validate_fields_def ex_open_staged_def f32_is_finite_def
        f32_is_sign_negative_def f32_exponent_def)
  then have "recompute_staging_digest ex_staged ex_request 1 1
      = Inr (finish256 (staging_bytes ex_open_staged ex_request 1 1))"
    unfolding ex_staged_def staging_reseal by (simp add: recompute_staging_digest_def)
  then show ?thesis by (simp add: staged_validate_against_def) (simp add: ex_staged_def)
qed

section \<open>A cycle\<close>

definition ex_controller :: SleepController where
  "ex_controller = \<lparr> sl_config = sleep_config_reference, sl_state = sleep_state_awake_at 0 \<rparr>"

definition ex_cycle_ops :: "SleepOp list" where
  "ex_cycle_ops = [ForceSleep 1 ForcedRequest, AdvanceSleep 9,
     DriverEvent (EV_ReplayAssetPersisted \<lparr> ci_cycle_id = 1 \<rparr> (9, 10, 11, 12) 4 2),
     DriverEvent (EV_Prepared ex_request), DriverEvent (EV_Submitted ex_request 7),
     DriverEvent (EV_Completed ex_request ex_staged),
     DriverEvent (EV_Committed 1 6 (21, 22, 23, 24)), AdvanceSleep 9, AdvanceSleep 12]"

lemma ex_controller_new: "sleep_controller_new sleep_config_reference = Inr ex_controller"
proof -
  have "f32_is_finite (f32_lit 9 10)" "f32_in_range f32_zero f32_one (f32_lit 9 10)"
    "f32_is_finite (f32_lit 85 100)" "f32_in_range f32_zero f32_one (f32_lit 85 100)"
    by (simp_all add: f32_lit_unit f32_lit_finite)
  then have "sleep_config_validate sleep_config_reference = Inr ()"
    by (simp add: sleep_config_validate_def sleep_config_reference_def normalized_scalar_new_def)
  then show ?thesis by (simp add: sleep_controller_new_def ex_controller_def)
qed

lemmas sleep_eval =
  force_sleep_def sleep_advance_def checked_op_def tick_validate_monotonic_def transition_to_def
  transition_cycle_def some_transition_def Let_def checked_add_def saturating_add_def
  sleep_state_validate_def saturating_sub_def advance_next_phase_def with_default_def
  apply_consolidation_driver_event_def intent_validate_def require_current_version_def

definition ex_asleep :: "SleepPhase \<Rightarrow> Tick \<Rightarrow> ConsolidationState \<Rightarrow> SleepController" where
  "ex_asleep phase tick k = \<lparr> sl_config = sleep_config_reference, sl_state = \<lparr>
     ss_schema_version = 2, ss_phase = phase, ss_phase_started_tick = tick,
     ss_entered_sleep_tick = Some 1, ss_cycles_completed = 0, ss_last_trigger = Some ForcedRequest,
     ss_active_cycle_id = 1, ss_last_consolidated_cycle_id = 0, ss_consolidation = k \<rparr> \<rparr>"

definition ex_woken :: SleepController where
  "ex_woken = \<lparr> sl_config = sleep_config_reference, sl_state = \<lparr>
     ss_schema_version = 2, ss_phase = Awake, ss_phase_started_tick = 12,
     ss_entered_sleep_tick = None, ss_cycles_completed = 1, ss_last_trigger = Some ForcedRequest,
     ss_active_cycle_id = 0, ss_last_consolidated_cycle_id = 1, ss_consolidation = CS_None \<rparr> \<rparr>"

lemmas ex_defs = ex_controller_def ex_asleep_def ex_woken_def sleep_config_reference_def
  sleep_state_awake_at_def schema_versions_CURRENT_def

lemma ex_step_force: "sleep_step (ForceSleep 1 ForcedRequest) ex_controller
    = (Inr (Some \<lparr> st_from = Awake, st_to = ForcedRecoverySleep, st_tick = 1, st_trigger = ForcedRequest \<rparr>),
       ex_asleep ForcedRecoverySleep 1 CS_None)"
  by (simp add: ex_defs sleep_eval)

lemma ex_step_settle: "sleep_step (AdvanceSleep 9) (ex_asleep ForcedRecoverySleep 1 CS_None)
    = (Inr (Some \<lparr> st_from = ForcedRecoverySleep, st_to = Consolidating, st_tick = 9,
         st_trigger = ForcedRequest \<rparr>), ex_asleep Consolidating 9 CS_None)"
  by (simp add: ex_defs sleep_eval)

lemma ex_driver:
  assumes "next_consolidation 1 k event = Inr k'" and "consolidation_validate_for_cycle k' 1 = Inr ()"
  shows "sleep_step (DriverEvent event) (ex_asleep Consolidating 9 k) = (Inr None, ex_asleep Consolidating 9 k')"
  using assms
  by (simp add: ex_asleep_def apply_consolidation_driver_event_def Let_def checked_op_def
      sleep_state_validate_def schema_versions_CURRENT_def tick_validate_monotonic_def
      require_current_version_def)

lemma ex_step_begin_waking: "sleep_step (AdvanceSleep 9) (ex_asleep Consolidating 9 (CS_Committed 1 6 (21, 22, 23, 24)))
    = (Inr (Some \<lparr> st_from = Consolidating, st_to = Waking, st_tick = 9, st_trigger = ForcedRequest \<rparr>),
       ex_asleep Waking 9 (CS_Committed 1 6 (21, 22, 23, 24)))"
  by (simp add: ex_defs sleep_eval)

lemma ex_step_wake: "sleep_step (AdvanceSleep 12) (ex_asleep Waking 9 (CS_Committed 1 6 (21, 22, 23, 24)))
    = (Inr (Some \<lparr> st_from = Waking, st_to = Awake, st_tick = 12, st_trigger = ForcedRequest \<rparr>), ex_woken)"
  by (simp add: ex_defs sleep_eval)

lemma ex_steps_driver:
  "sleep_step (DriverEvent (EV_ReplayAssetPersisted \<lparr> ci_cycle_id = 1 \<rparr> (9, 10, 11, 12) 4 2))
     (ex_asleep Consolidating 9 CS_None)
   = (Inr None, ex_asleep Consolidating 9 (CS_Pending \<lparr> ci_cycle_id = 1 \<rparr> (9, 10, 11, 12) 4 2))"
  "sleep_step (DriverEvent (EV_Prepared ex_request))
     (ex_asleep Consolidating 9 (CS_Pending \<lparr> ci_cycle_id = 1 \<rparr> (9, 10, 11, 12) 4 2))
   = (Inr None, ex_asleep Consolidating 9 (CS_Prepared ex_request))"
  "sleep_step (DriverEvent (EV_Submitted ex_request 7)) (ex_asleep Consolidating 9 (CS_Prepared ex_request))
   = (Inr None, ex_asleep Consolidating 9 (CS_Submitted ex_request 7))"
  "sleep_step (DriverEvent (EV_Completed ex_request ex_staged))
     (ex_asleep Consolidating 9 (CS_Submitted ex_request 7))
   = (Inr None, ex_asleep Consolidating 9 (CS_Completed ex_request ex_staged))"
  "sleep_step (DriverEvent (EV_Committed 1 6 (21, 22, 23, 24)))
     (ex_asleep Consolidating 9 (CS_Completed ex_request ex_staged))
   = (Inr None, ex_asleep Consolidating 9 (CS_Committed 1 6 (21, 22, 23, 24)))"
  by (rule ex_driver; simp add: intent_validate_def)+

lemmas ex_cycle_steps = ex_step_force ex_step_settle ex_steps_driver ex_step_begin_waking ex_step_wake

lemma ex_cycle_run: "run_ops sleep_step ex_cycle_ops ex_controller = ex_woken"
  by (simp add: ex_cycle_ops_def ex_cycle_steps del: sleep_step.simps)

section \<open>Witnesses\<close>

theorem sleep_state_stays_valid_witness:
  "sleep_state_validate (sl_state ex_woken) = Inr ()"
  using sleep_state_stays_valid [OF ex_controller_new refl, of ex_cycle_ops] unfolding ex_cycle_run
  by (simp add: ex_woken_def)

lemma ex_controller_wf: "sleep_wf (sl_state ex_controller)"
  using sleep_new_wf [OF ex_controller_new] by simp

lemma ex_controller_cycles: "ss_cycles_completed (sl_state ex_controller) \<noteq> - 1"
  by (simp add: ex_controller_def sleep_state_awake_at_def)

theorem sleep_failure_leaves_no_trace_witness:
  "snd (sleep_step (DriverEvent (EV_Submitted ex_request 7)) ex_controller) = ex_controller"
  by (rule sleep_failure_leaves_no_trace [OF ex_controller_wf ex_controller_cycles])
    (simp add: apply_consolidation_driver_event_def ex_controller_def sleep_state_awake_at_def Let_def)

theorem sleep_refines_cycle_witness:
  "cycle_of (ex_asleep ForcedRecoverySleep 1 CS_None) = cycle_of ex_controller
   \<or> cycle_move (cycle_of ex_controller) (cycle_of (ex_asleep ForcedRecoverySleep 1 CS_None))"
  using sleep_refines_cycle [OF ex_controller_new refl, where ops = "[]" and op = "ForceSleep 1 ForcedRequest"]
  by (simp add: ex_step_force del: sleep_step.simps)

theorem cycles_woken_in_order_witness: "map unat (woken_cycles ex_cycle_ops ex_controller) = [1]"
  using cycles_woken_in_order [OF ex_controller_new, of ex_cycle_ops]
  by (simp add: ex_cycle_run) (simp add: ex_woken_def)

lemma ex_completed_wf: "sleep_wf (sl_state (ex_asleep Consolidating 9 (CS_Completed ex_request ex_staged)))"
  by (simp add: sleep_wf_def sleep_validate_iff ex_asleep_def schema_versions_CURRENT_def)

theorem commit_is_the_staged_output_witness:
  "\<exists>request staged. ss_consolidation (sl_state (ex_asleep Consolidating 9 (CS_Completed ex_request ex_staged)))
       = CS_Completed request staged
    \<and> (21, 22, 23, 24) = so_output_digest staged \<and> unat (6 :: u64) = unat (cr_input_generation request) + 1"
  using commit_is_the_staged_output [OF ex_completed_wf, of 1 6 "(21, 22, 23, 24)" None]
  by (simp add: ex_steps_driver del: sleep_step.simps) blast

theorem sleep_state_roundtrip_witness:
  "sleep_state_deserialize (sleep_state_serialize (sl_state (ex_asleep Consolidating 9
     (CS_Completed ex_request ex_staged))))
   = Inr (sl_state (ex_asleep Consolidating 9 (CS_Completed ex_request ex_staged)))"
  by (rule sleep_state_roundtrip [OF ex_completed_wf])

definition ex_legacy_wire :: SleepStateWire where
  "ex_legacy_wire = \<lparr> sw_schema_version = 2, sw_phase = Consolidating, sw_phase_started_tick = 20,
     sw_entered_sleep_tick = Some 10, sw_cycles_completed = 4, sw_last_trigger = None,
     sw_active_cycle_id = None, sw_last_consolidated_cycle_id = None, sw_consolidation = None \<rparr>"

theorem legacy_sleep_state_migrates_witness:
  "\<exists>s. sleep_state_deserialize ex_legacy_wire = Inr s \<and> sleep_wf s \<and> ss_active_cycle_id s = 5"
proof -
  have "sleep_state_deserialize ex_legacy_wire = Inr \<lparr>
     ss_schema_version = 2, ss_phase = Consolidating, ss_phase_started_tick = 20,
     ss_entered_sleep_tick = Some 10, ss_cycles_completed = 4, ss_last_trigger = None,
     ss_active_cycle_id = 5, ss_last_consolidated_cycle_id = 4, ss_consolidation = CS_None \<rparr>"
    by (simp add: sleep_state_deserialize_def ex_legacy_wire_def with_default_def Let_def
        sleep_state_validate_def schema_versions_CURRENT_def tick_validate_monotonic_def saturating_add_def)
  then show ?thesis
    using legacy_sleep_state_migrates [of ex_legacy_wire] by (simp add: ex_legacy_wire_def)
qed

end
