(* ===== verification/Sleep_Work.thy ===== *)
theory Sleep_Work
  imports Sleep_Control "HOL-Library.Product_Lexorder" "HOL-Library.Multiset"
begin

text \<open>
  \<open>crates/alife_core/src/sleep.rs\<close>: the receipt of a bounded sleep transaction, the structural edits a
  sleep proposes and the legacy reports. The transaction itself works on the memory bank, the
  predictor and the topology, which other theories would model.
\<close>

section \<open>Reports\<close>

record ConceptConsolidationReport =
  cc_concepts_considered :: u32
  cc_simplexes_considered :: u32
  cc_preserved_gap_count :: u32
  cc_decayed_gap_count :: u32
  cc_curiosity_bias_count :: u32

record HTraceDrainReport =
  hr_schema_version :: u16
  hr_active_tiles :: u32
  hr_active_synapses :: u32
  hr_h_operational_delta_l1 :: f32
  hr_h_shadow_decay_l1 :: f32
  hr_lifetime_delta_l1 :: f32
  hr_alpha_reset_count :: u32
  hr_promoted_trait_count :: u32
  hr_genetic_layer_unchanged :: bool

definition htrace_validate :: "HTraceDrainReport \<Rightarrow> unit contract" where
  "htrace_validate r =
     and_then (require_current_version SleepConsolidation (hr_schema_version r)) (\<lambda>_.
     and_then (validate_finite (hr_h_operational_delta_l1 r)) (\<lambda>_.
     and_then (validate_finite (hr_h_shadow_decay_l1 r)) (\<lambda>_.
     and_then (validate_finite (hr_lifetime_delta_l1 r)) (\<lambda>_.
       if f32_lt (hr_h_operational_delta_l1 r) f32_zero \<or> f32_lt (hr_h_shadow_decay_l1 r) f32_zero
          \<or> f32_lt (hr_lifetime_delta_l1 r) f32_zero
       then Inl ScalarOutOfRange else Inr ()))))"

section \<open>Work receipts\<close>

datatype SleepWorkStatus = SkippedLowPressure | Consolidated

fun sleep_work_status_raw :: "SleepWorkStatus \<Rightarrow> u8" where
  "sleep_work_status_raw SkippedLowPressure = 1"
| "sleep_work_status_raw Consolidated = 2"

record SleepWorkReceipt =
  sr_schema_version :: u16
  sr_tick :: Tick
  sr_status :: SleepWorkStatus
  sr_fatigue :: f32
  sr_sleep_pressure :: f32
  sr_replay_digest :: digest4
  sr_replay_event_count :: u32
  sr_replay_eligibility_sample_count :: u32
  sr_promoted_memory_ids :: "u64 list"
  sr_predictor_update_count :: u32
  sr_concept :: "ConceptConsolidationReport option"
  sr_work_units :: u64
  sr_canonical_digest :: digest4

definition write_concept :: "ConceptConsolidationReport option \<Rightarrow> bytes \<Rightarrow> bytes" where
  "write_concept concept bs =
     (case concept of
        Some c \<Rightarrow>
          write_u32 (cc_curiosity_bias_count c)
         (write_u32 (cc_decayed_gap_count c)
         (write_u32 (cc_preserved_gap_count c)
         (write_u32 (cc_simplexes_considered c)
         (write_u32 (cc_concepts_considered c) (write_u8 1 bs)))))
      | None \<Rightarrow> write_u8 0 bs)"

definition sleep_receipt_recompute :: "SleepWorkReceipt \<Rightarrow> digest4 contract" where
  "sleep_receipt_recompute r =
     and_then (write_f32 (sr_fatigue r)
       (write_u8 (sleep_work_status_raw (sr_status r))
       (write_u64 (sr_tick r)
       (write_u16 (sr_schema_version r) (digest_new (ascii ''ALIFE-SLEEP-WORK-RECEIPT-V1'')))))) (\<lambda>bs.
     and_then (write_f32 (sr_sleep_pressure r) bs) (\<lambda>bs. Inr (finish256
       (write_u64 (sr_work_units r)
       (write_concept (sr_concept r)
       (write_u32 (sr_predictor_update_count r)
       (fold write_u64 (sr_promoted_memory_ids r)
       (write_sequence_len (length (sr_promoted_memory_ids r))
       (write_u32 (sr_replay_eligibility_sample_count r)
       (write_u32 (sr_replay_event_count r)
       (write_digest4 (sr_replay_digest r)
       (write_sequence_len 4 bs))))))))))))"

text \<open>The loop over the promoted ids: each is valid and none repeats.\<close>

fun check_promoted :: "u64 set \<Rightarrow> u64 list \<Rightarrow> unit contract" where
  "check_promoted seen [] = Inr ()"
| "check_promoted seen (i # ids) =
     and_then (id_validate i) (\<lambda>_.
       if i \<in> seen then Inl ConsolidationGenerationMismatch else check_promoted (insert i seen) ids)"

definition sleep_receipt_validate :: "SleepWorkReceipt \<Rightarrow> unit contract" where
  "sleep_receipt_validate r =
     and_then (require_current_version SleepConsolidation (sr_schema_version r)) (\<lambda>_.
     and_then (normalized_scalar_new (sr_fatigue r)) (\<lambda>_.
     and_then (normalized_scalar_new (sr_sleep_pressure r)) (\<lambda>_.
     and_then (check_promoted {} (sr_promoted_memory_ids r)) (\<lambda>_.
     and_then (case sr_status r of
         SkippedLowPressure \<Rightarrow>
           if sr_replay_digest r \<noteq> zero4 \<or> sr_replay_event_count r \<noteq> 0
              \<or> sr_replay_eligibility_sample_count r \<noteq> 0 \<or> sr_promoted_memory_ids r \<noteq> []
              \<or> sr_predictor_update_count r \<noteq> 0 \<or> sr_concept r \<noteq> None \<or> sr_work_units r \<noteq> 0
           then Inl ConsolidationGenerationMismatch else Inr ()
       | Consolidated \<Rightarrow>
           if sr_replay_digest r = zero4 \<or> sr_replay_event_count r = 0
              \<or> sr_replay_eligibility_sample_count r = 0 \<or> sr_promoted_memory_ids r = []
              \<or> unat (sr_replay_event_count r) < length (sr_promoted_memory_ids r)
              \<or> sr_predictor_update_count r \<noteq> sr_replay_event_count r \<or> sr_concept r = None
              \<or> sr_work_units r = 0
           then Inl ConsolidationGenerationMismatch else Inr ()) (\<lambda>_.
     and_then (sleep_receipt_recompute r) (\<lambda>d.
       if sr_canonical_digest r \<noteq> d then Inl ConsolidationGenerationMismatch else Inr ()))))))"

definition sleep_receipt_new :: "SleepWorkReceipt \<Rightarrow> SleepWorkReceipt contract" where
  "sleep_receipt_new parts =
     (let receipt = parts\<lparr>sr_schema_version := sv_sleep_consolidation schema_versions_CURRENT,
            sr_canonical_digest := zero4\<rparr>
      in and_then (sleep_receipt_recompute receipt) (\<lambda>d.
           let sealed = receipt\<lparr>sr_canonical_digest := d\<rparr>
           in and_then (sleep_receipt_validate sealed) (\<lambda>_. Inr sealed)))"

section \<open>Structural edits\<close>

datatype StructuralEditKind =
    PruneMarker | Strengthen | Weaken | SynaptogenesisCandidate | ConsolidateEdit | RecompactionHint

datatype StructuralEditReason =
    MemoryCorrelation | TopologyCorrelation | LowSalience | RecoveryReason | FatigueReason

text \<open>The derived order of the two enums is the order of their constructors.\<close>

fun edit_kind_rank :: "StructuralEditKind \<Rightarrow> nat" where
  "edit_kind_rank PruneMarker = 0"
| "edit_kind_rank Strengthen = 1"
| "edit_kind_rank Weaken = 2"
| "edit_kind_rank SynaptogenesisCandidate = 3"
| "edit_kind_rank ConsolidateEdit = 4"
| "edit_kind_rank RecompactionHint = 5"

fun edit_reason_rank :: "StructuralEditReason \<Rightarrow> nat" where
  "edit_reason_rank MemoryCorrelation = 0"
| "edit_reason_rank TopologyCorrelation = 1"
| "edit_reason_rank LowSalience = 2"
| "edit_reason_rank RecoveryReason = 3"
| "edit_reason_rank FatigueReason = 4"

datatype StructuralEditApplicationStatus =
    DeferredForSleepCompilation | DeferredForOfflineCompilation

text \<open>Of the projection reference the candidate reads the two lobe numbers.\<close>

record StructuralEditCandidate =
  se_candidate_id :: u64
  se_source_lobe :: u16
  se_target_lobe :: u16
  se_kind :: StructuralEditKind
  se_reason :: StructuralEditReason
  se_salience :: f32
  se_confidence :: f32
  se_estimated_synapses :: u32

definition edit_candidate_validate :: "StructuralEditCandidate \<Rightarrow> unit contract" where
  "edit_candidate_validate c =
     (if se_candidate_id c = 0 \<or> se_estimated_synapses c = 0 then Inl InvalidId
      else and_then (normalized_scalar_new (se_salience c)) (\<lambda>_.
           and_then (confidence_new (se_confidence c)) (\<lambda>_. Inr ())))"

definition edit_candidate_new :: "StructuralEditCandidate \<Rightarrow> StructuralEditCandidate contract" where
  "edit_candidate_new c = and_then (edit_candidate_validate c) (\<lambda>_. Inr c)"

record StructuralEditBatch =
  sb_schema_version :: u16
  sb_tick :: Tick
  sb_candidates :: "StructuralEditCandidate list"
  sb_application_status :: StructuralEditApplicationStatus

definition edit_key :: "StructuralEditCandidate \<Rightarrow> u64 \<times> nat \<times> nat \<times> u16 \<times> u16" where
  "edit_key c = (se_candidate_id c, edit_kind_rank (se_kind c), edit_reason_rank (se_reason c),
     se_source_lobe c, se_target_lobe c)"

fun check_candidates :: "u64 set \<Rightarrow> StructuralEditCandidate list \<Rightarrow> unit contract" where
  "check_candidates seen [] = Inr ()"
| "check_candidates seen (c # cs) =
     and_then (edit_candidate_validate c) (\<lambda>_.
       if se_candidate_id c \<in> seen then Inl InvalidId
       else check_candidates (insert (se_candidate_id c) seen) cs)"

definition edit_batch_validate :: "StructuralEditBatch \<Rightarrow> unit contract" where
  "edit_batch_validate b =
     and_then (require_current_version SleepConsolidation (sb_schema_version b)) (\<lambda>_.
       check_candidates {} (sb_candidates b))"

definition edit_batch_new ::
  "Tick \<Rightarrow> StructuralEditCandidate list \<Rightarrow> nat \<Rightarrow> StructuralEditBatch contract" where
  "edit_batch_new tick candidates max_candidates =
     (if max_candidates = 0 \<or> max_candidates < length candidates then Inl ScalarOutOfRange
      else
        let batch = \<lparr> sb_schema_version = sv_sleep_consolidation schema_versions_CURRENT,
              sb_tick = tick, sb_candidates = sort_key edit_key candidates,
              sb_application_status = DeferredForSleepCompilation \<rparr>
        in and_then (edit_batch_validate batch) (\<lambda>_. Inr batch))"

section \<open>Properties\<close>

lemma sleep_receipt_reseal [simp]:
  "sleep_receipt_recompute (r\<lparr>sr_canonical_digest := d\<rparr>) = sleep_receipt_recompute r"
  by (simp add: sleep_receipt_recompute_def)

interpretation sleep_receipt_seal: sealed_record sr_canonical_digest
  "\<lambda>d r. r\<lparr>sr_canonical_digest := d\<rparr>" sleep_receipt_recompute "\<lambda>r. sleep_receipt_validate r = Inr ()"
  by unfold_locales (auto simp: sleep_receipt_validate_def split: if_splits)

lemma check_candidates_iff:
  "check_candidates seen cs = Inr () \<longleftrightarrow>
     (\<forall>c \<in> set cs. edit_candidate_validate c = Inr ()) \<and> distinct (map se_candidate_id cs)
     \<and> se_candidate_id ` set cs \<inter> seen = {}"
  by (induction cs arbitrary: seen) auto

lemma check_promoted_iff:
  "check_promoted seen ids = Inr () \<longleftrightarrow> 0 \<notin> set ids \<and> distinct ids \<and> set ids \<inter> seen = {}"
  by (induction ids arbitrary: seen) auto

lemma sorted_edit_ids: "sorted (map se_candidate_id (sort_key edit_key cs))"
proof -
  have "sorted (map edit_key (sort_key edit_key cs))" by simp
  then have "sorted_wrt (\<lambda>a b. edit_key a \<le> edit_key b) (sort_key edit_key cs)"
    by (simp add: sorted_wrt_map)
  then have "sorted_wrt (\<lambda>a b. se_candidate_id a \<le> se_candidate_id b) (sort_key edit_key cs)"
    by (rule sorted_wrt_mono_rel [rotated]) (auto simp: edit_key_def less_eq_prod_def)
  then show ?thesis by (simp add: sorted_wrt_map)
qed

lemma sorted_by_distinct_key_unique:
  fixes f :: "'a \<Rightarrow> 'k::linorder"
  assumes m: "mset ys = mset xs" and d: "distinct (map f xs)" and s: "sorted (map f ys)"
  shows "sort_key f xs = ys"
proof (rule properties_for_sort_key [OF m _ s])
  have same: "set ys = set xs" using m by (rule mset_eq_setD)
  fix k
  assume k: "k \<in> set ys"
  have "filter (\<lambda>x. f k = f x) zs = filter ((=) k) zs" if "set zs = set xs" for zs
    using k same that d by (intro filter_cong refl) (auto simp: distinct_map inj_on_def)
  then show "filter (\<lambda>x. f k = f x) ys = filter (\<lambda>x. f k = f x) xs"
    using same by (simp add: m flip: replicate_count_mset_eq_filter_eq)
qed

lemma sort_by_edit_key_is_sort_by_id:
  "distinct (map se_candidate_id cs) \<Longrightarrow> sort_key se_candidate_id cs = sort_key edit_key cs"
  by (rule sorted_by_distinct_key_unique) (simp_all add: sorted_edit_ids)

text \<open>
  A batch of structural edits is canonical: it is made exactly when the candidates fit the limit,
  are valid and have different ids, and then it holds the same candidates in strictly increasing order
  of their ids, whatever order they came in.
\<close>

lemma edit_batch_canonical:
  "edit_batch_new tick cs limit = Inr b \<longleftrightarrow>
     0 < limit \<and> length cs \<le> limit \<and> (\<forall>c \<in> set cs. edit_candidate_validate c = Inr ())
     \<and> b = \<lparr> sb_schema_version = current_for SleepConsolidation, sb_tick = tick,
             sb_candidates = sb_candidates b, sb_application_status = DeferredForSleepCompilation \<rparr>
     \<and> mset (sb_candidates b) = mset cs \<and> sorted_wrt (<) (map se_candidate_id (sb_candidates b))"
proof
  assume made: "edit_batch_new tick cs limit = Inr b"
  then have b: "b = \<lparr> sb_schema_version = current_for SleepConsolidation, sb_tick = tick,
        sb_candidates = sort_key edit_key cs, sb_application_status = DeferredForSleepCompilation \<rparr>"
    and v: "\<forall>c \<in> set cs. edit_candidate_validate c = Inr ()" "0 < limit" "length cs \<le> limit"
    and d: "distinct (map se_candidate_id (sort_key edit_key cs))"
    by (auto simp: edit_batch_new_def edit_batch_validate_def check_candidates_iff Let_def
        split: if_splits)
  have "sorted_wrt (<) (map se_candidate_id (sort_key edit_key cs))"
    using sorted_edit_ids d by (simp add: strict_sorted_iff)
  with b v show "0 < limit \<and> length cs \<le> limit \<and> (\<forall>c \<in> set cs. edit_candidate_validate c = Inr ())
     \<and> b = \<lparr> sb_schema_version = current_for SleepConsolidation, sb_tick = tick,
             sb_candidates = sb_candidates b, sb_application_status = DeferredForSleepCompilation \<rparr>
     \<and> mset (sb_candidates b) = mset cs \<and> sorted_wrt (<) (map se_candidate_id (sb_candidates b))" by simp
next
  assume h: "0 < limit \<and> length cs \<le> limit \<and> (\<forall>c \<in> set cs. edit_candidate_validate c = Inr ())
     \<and> b = \<lparr> sb_schema_version = current_for SleepConsolidation, sb_tick = tick,
             sb_candidates = sb_candidates b, sb_application_status = DeferredForSleepCompilation \<rparr>
     \<and> mset (sb_candidates b) = mset cs \<and> sorted_wrt (<) (map se_candidate_id (sb_candidates b))"
  then have m: "mset (sb_candidates b) = mset cs" and s: "sorted (map se_candidate_id (sb_candidates b))"
    and db: "distinct (map se_candidate_id (sb_candidates b))"
    by (simp_all add: strict_sorted_iff)
  have d: "distinct (map se_candidate_id cs)"
    using db m by (metis mset_eq_imp_distinct_iff mset_map)
  have "sort_key edit_key cs = sb_candidates b"
    using sorted_by_distinct_key_unique [OF m d s] sort_by_edit_key_is_sort_by_id [OF d] by simp
  moreover have "sb_schema_version b = current_for SleepConsolidation"
    using h by (metis StructuralEditBatch.select_convs(1))
  ultimately show "edit_batch_new tick cs limit = Inr b"
    using h d db by (auto simp: edit_batch_new_def edit_batch_validate_def check_candidates_iff Let_def
        dest: mset_eq_setD)
qed

end
