(* ===== verification/Sleep_Scheduler.thy ===== *)
theory Sleep_Scheduler
  imports Sleep_Work Sleep_Proofs
begin

text \<open>
  \<open>crates/alife_runtime/src/sleep_scheduler.rs\<close>: the scheduler that drives a sleep controller. Each tick
  it moves the controller once and, while consolidating, asks the GPU driver for one step; it hands the
  driver an intent to start with, and remembers the cycle once the driver has answered it. The driver
  (a trait the GPU runtime implements) is a parameter: its state and its two methods as functions. The
  variant that reads a whole world organism is not modelled; its due-work bookkeeping is.
\<close>

section \<open>Due work\<close>

type_synonym SleepWorkDue = u8

definition work_REPLAY :: SleepWorkDue where "work_REPLAY = 1"
definition work_FAST_TO_LIFETIME :: SleepWorkDue where "work_FAST_TO_LIFETIME = 2"
definition work_PREDICTOR :: SleepWorkDue where "work_PREDICTOR = 4"
definition work_CONCEPT_GAP :: SleepWorkDue where "work_CONCEPT_GAP = 8"
definition work_STRUCTURAL_GROWTH_PRUNING :: SleepWorkDue where "work_STRUCTURAL_GROWTH_PRUNING = 16"

definition work_contains :: "SleepWorkDue \<Rightarrow> SleepWorkDue \<Rightarrow> bool" where
  "work_contains a b \<longleftrightarrow> a AND b = b"

definition work_insert :: "SleepWorkDue \<Rightarrow> SleepWorkDue \<Rightarrow> SleepWorkDue" where
  "work_insert a b = a OR b"

definition work_is_empty :: "SleepWorkDue \<Rightarrow> bool" where
  "work_is_empty a \<longleftrightarrow> a = 0"

definition work_flags :: "SleepWorkDue list" where
  "work_flags = [work_REPLAY, work_FAST_TO_LIFETIME, work_PREDICTOR, work_CONCEPT_GAP,
     work_STRUCTURAL_GROWTH_PRUNING]"

record SleepSubsystemCadence =
  ca_replay_ticks :: u64
  ca_fast_to_lifetime_ticks :: u64
  ca_predictor_ticks :: u64
  ca_concept_gap_ticks :: u64
  ca_structural_growth_pruning_ticks :: u64

definition cadence_reference :: SleepSubsystemCadence where
  "cadence_reference = \<lparr> ca_replay_ticks = 1, ca_fast_to_lifetime_ticks = 2, ca_predictor_ticks = 2,
     ca_concept_gap_ticks = 4, ca_structural_growth_pruning_ticks = 4 \<rparr>"

definition cadence_validate :: "SleepSubsystemCadence \<Rightarrow> unit contract" where
  "cadence_validate c =
     (if ca_replay_ticks c = 0 \<or> ca_fast_to_lifetime_ticks c = 0 \<or> ca_predictor_ticks c = 0
         \<or> ca_concept_gap_ticks c = 0 \<or> ca_structural_growth_pruning_ticks c = 0
      then Inl ScalarOutOfRange else Inr ())"

definition cadence_periods :: "SleepSubsystemCadence \<Rightarrow> u64 list" where
  "cadence_periods c = [ca_replay_ticks c, ca_fast_to_lifetime_ticks c, ca_predictor_ticks c,
     ca_concept_gap_ticks c, ca_structural_growth_pruning_ticks c]"

section \<open>The scheduler\<close>

record SleepPhaseReceipt =
  pr_phase :: SleepPhase
  pr_cycle_id :: u64
  pr_tick :: Tick
  pr_due_work :: SleepWorkDue
  pr_work_units :: u64
  pr_cumulative_work_units :: u64
  pr_sealed :: bool

record GpuSleepScheduleEvent =
  ge_tick :: Tick
  ge_phase :: SleepPhase
  ge_cycle_id :: u64
  ge_transition :: "SleepTransition option"
  ge_consolidation_kind_raw :: u16
  ge_motor_eligible :: bool
  ge_sleep_work_units :: u64
  ge_phase_receipt :: SleepPhaseReceipt

record GpuSleepScheduler =
  gs_controller :: SleepController
  gs_cadence :: SleepSubsystemCadence
  gs_last_emitted_intent_cycle :: "u64 option"
  gs_last_sleep_work_cycle :: "u64 option"
  gs_last_sleep_work_ticks :: "Tick option list"

definition scheduler_with_cadence ::
  "SleepConsolidationConfig \<Rightarrow> SleepSubsystemCadence \<Rightarrow> GpuSleepScheduler contract" where
  "scheduler_with_cadence config cadence =
     and_then (cadence_validate cadence) (\<lambda>_.
     and_then (sleep_controller_new config) (\<lambda>controller. Inr \<lparr>
       gs_controller = controller, gs_cadence = cadence, gs_last_emitted_intent_cycle = None,
       gs_last_sleep_work_cycle = None, gs_last_sleep_work_ticks = replicate 5 None \<rparr>))"

definition scheduler_new :: "SleepConsolidationConfig \<Rightarrow> GpuSleepScheduler contract" where
  "scheduler_new config = scheduler_with_cadence config cadence_reference"

definition scheduler_restore_with_cadence ::
  "SleepConsolidationConfig \<Rightarrow> SleepState \<Rightarrow> SleepSubsystemCadence \<Rightarrow> GpuSleepScheduler contract" where
  "scheduler_restore_with_cadence config state cadence =
     and_then (cadence_validate cadence) (\<lambda>_.
     and_then (sleep_controller_restore config state) (\<lambda>controller. Inr \<lparr>
       gs_controller = controller, gs_cadence = cadence,
       gs_last_emitted_intent_cycle =
         (if ss_phase state = Consolidating \<and> ss_consolidation state \<noteq> CS_None
          then Some (ss_active_cycle_id state) else None),
       gs_last_sleep_work_cycle = None, gs_last_sleep_work_ticks = replicate 5 None \<rparr>))"

definition scheduler_restore ::
  "SleepConsolidationConfig \<Rightarrow> SleepState \<Rightarrow> GpuSleepScheduler contract" where
  "scheduler_restore config state = scheduler_restore_with_cadence config state cadence_reference"

definition scheduler_state :: "GpuSleepScheduler \<Rightarrow> SleepState" where
  "scheduler_state g = sl_state (gs_controller g)"

text \<open>The sleep controller's outcome inside the scheduler.\<close>

definition on_controller :: "GpuSleepScheduler \<Rightarrow> 'a sleep_outcome
    \<Rightarrow> (ScaffoldContractError, 'a, GpuSleepScheduler) outcome" where
  "on_controller g m = (case m of (r, c) \<Rightarrow> (r, g\<lparr>gs_controller := c\<rparr>))"

definition force_recovery_sleep ::
  "Tick \<Rightarrow> GpuSleepScheduler \<Rightarrow> (ScaffoldContractError, SleepTransition, GpuSleepScheduler) outcome" where
  "force_recovery_sleep tick g = on_controller g (force_sleep tick RecoveryProtocol (gs_controller g))"

section \<open>The driver\<close>

text \<open>\<open>GpuSleepConsolidationDriver::progress\<close> and \<open>run_bounded_sleep_transaction\<close>.\<close>

type_synonym 'd driver_progress =
  "u64 \<Rightarrow> SleepState \<Rightarrow> ConsolidationIntent option \<Rightarrow> 'd
    \<Rightarrow> (ScaffoldContractError, ConsolidationDriverEvent option, 'd) outcome"

type_synonym 'd driver_transaction =
  "u64 \<Rightarrow> SleepState \<Rightarrow> HomeostaticSnapshot \<Rightarrow> Tick \<Rightarrow> SleepWorkDue \<Rightarrow> 'd
    \<Rightarrow> (ScaffoldContractError, SleepWorkReceipt option, 'd) outcome"

definition driver_intent :: "GpuSleepScheduler \<Rightarrow> ConsolidationIntent option" where
  "driver_intent g =
     (let s = scheduler_state g in
      if ss_phase s = Consolidating \<and> ss_consolidation s = CS_None
         \<and> gs_last_emitted_intent_cycle g \<noteq> Some (ss_active_cycle_id s)
      then Some \<lparr> ci_cycle_id = ss_active_cycle_id s \<rparr> else None)"

definition progress_driver ::
  "'d driver_progress \<Rightarrow> u64 \<Rightarrow> GpuSleepScheduler \<times> 'd
    \<Rightarrow> (ScaffoldContractError, unit, GpuSleepScheduler \<times> 'd) outcome" where
  "progress_driver progress organism_id gd =
     (case gd of (g, d) \<Rightarrow>
        let intent = driver_intent g in
        if ss_phase (scheduler_state g) \<noteq> Consolidating then (Inr (), g, d)
        else case progress organism_id (scheduler_state g) intent d of
            (Inl e, d') \<Rightarrow> (Inl e, g, d')
          | (Inr answer, d') \<Rightarrow>
              if intent \<noteq> None \<and> answer = None then (Inl MissingPhaseData, g, d')
              else case answer of
                  None \<Rightarrow> (Inr (), g, d')
                | Some event \<Rightarrow>
                    (case apply_consolidation_driver_event event (gs_controller g) of
                       (Inl e, c) \<Rightarrow> (Inl e, g\<lparr>gs_controller := c\<rparr>, d')
                     | (Inr _, c) \<Rightarrow>
                         (Inr (), g\<lparr>gs_controller := c,
                            gs_last_emitted_intent_cycle :=
                              (case intent of Some i \<Rightarrow> Some (ci_cycle_id i)
                               | None \<Rightarrow> gs_last_emitted_intent_cycle g)\<rparr>, d')))"

section \<open>The due-work schedule\<close>

definition sleep_work_due_for_cycle :: "GpuSleepScheduler \<Rightarrow> u64 \<Rightarrow> Tick \<Rightarrow> SleepWorkDue" where
  "sleep_work_due_for_cycle g cycle_id tick =
     (let previous = (if gs_last_sleep_work_cycle g = Some cycle_id then gs_last_sleep_work_ticks g
                      else replicate 5 None)
      in fold (\<lambda>(prev, period, flag) due.
           if (case prev of None \<Rightarrow> True | Some t \<Rightarrow> period \<le> saturating_sub tick t)
           then work_insert due flag else due)
         (zip previous (zip (cadence_periods (gs_cadence g)) work_flags)) 0)"

definition sleep_work_due_before_pending :: "GpuSleepScheduler \<Rightarrow> SleepState \<Rightarrow> Tick \<Rightarrow> SleepWorkDue" where
  "sleep_work_due_before_pending g state tick =
     (if ss_phase state \<noteq> Consolidating \<or> ss_consolidation state \<noteq> CS_None then 0
      else sleep_work_due_for_cycle g (ss_active_cycle_id state) tick)"

definition commit_sleep_work :: "u64 \<Rightarrow> Tick \<Rightarrow> SleepWorkDue \<Rightarrow> GpuSleepScheduler \<Rightarrow> GpuSleepScheduler" where
  "commit_sleep_work cycle_id tick due g =
     (let g = (if gs_last_sleep_work_cycle g \<noteq> Some cycle_id
               then g\<lparr>gs_last_sleep_work_cycle := Some cycle_id,
                      gs_last_sleep_work_ticks := replicate 5 None\<rparr> else g)
      in g\<lparr>gs_last_sleep_work_ticks :=
             map2 (\<lambda>flag prev. if work_contains due flag then Some tick else prev) work_flags
               (gs_last_sleep_work_ticks g)\<rparr>)"

definition reset_sleep_work_schedule :: "GpuSleepScheduler \<Rightarrow> GpuSleepScheduler" where
  "reset_sleep_work_schedule g =
     g\<lparr>gs_last_sleep_work_cycle := None, gs_last_sleep_work_ticks := replicate 5 None\<rparr>"

definition homeostasis_for_due_work ::
  "HomeostaticSnapshot \<Rightarrow> SleepConsolidationConfig \<Rightarrow> HomeostaticSnapshot" where
  "homeostasis_for_due_work h config =
     h\<lparr>hs_drives := (hs_drives h)\<lparr>ds_fatigue := f32_max (ds_fatigue (hs_drives h)) (sg_fatigue_threshold config)\<rparr>,
       hs_hormones := (hs_hormones h)\<lparr>es_sleep_pressure :=
         f32_max (es_sleep_pressure (hs_hormones h)) (sg_sleep_pressure_threshold config)\<rparr>\<rparr>"

definition run_due_sleep_work ::
  "'d driver_transaction \<Rightarrow> u64 \<Rightarrow> SleepState \<Rightarrow> HomeostaticSnapshot \<Rightarrow> Tick \<Rightarrow> SleepWorkDue
    \<Rightarrow> GpuSleepScheduler \<times> 'd \<Rightarrow> (ScaffoldContractError, u64, GpuSleepScheduler \<times> 'd) outcome" where
  "run_due_sleep_work transaction organism_id state homeostasis tick due_work gd =
     (case gd of (g, d) \<Rightarrow>
        if work_is_empty due_work then (Inr 0, g, d)
        else
          let work_homeostasis = homeostasis_for_due_work homeostasis (sl_config (gs_controller g)) in
          case transaction organism_id state work_homeostasis tick due_work d of
            (Inl e, d') \<Rightarrow> (Inl e, g, d')
          | (Inr None, d') \<Rightarrow> (Inl MissingPhaseData, g, d')
          | (Inr (Some receipt), d') \<Rightarrow>
              (case sleep_receipt_validate receipt of
                 Inl e \<Rightarrow> (Inl e, g, d')
               | Inr _ \<Rightarrow>
                   if sr_tick receipt \<noteq> tick then (Inl NonMonotonicTick, g, d')
                   else (Inr (sr_work_units receipt),
                         commit_sleep_work (ss_active_cycle_id state) tick due_work g, d')))"

section \<open>A tick\<close>

definition schedule_cycle_id :: "SleepState \<Rightarrow> u64" where
  "schedule_cycle_id s =
     (if ss_active_cycle_id s = 0 then ss_last_consolidated_cycle_id s else ss_active_cycle_id s)"

definition schedule_event ::
  "Tick \<Rightarrow> SleepTransition option \<Rightarrow> SleepState \<Rightarrow> bool \<Rightarrow> SleepWorkDue \<Rightarrow> u64 \<Rightarrow> u64 \<Rightarrow> bool
    \<Rightarrow> GpuSleepScheduleEvent" where
  "schedule_event tick transition state motor_eligible due_work work_units cumulative sealed = \<lparr>
     ge_tick = tick, ge_phase = ss_phase state, ge_cycle_id = schedule_cycle_id state,
     ge_transition = transition,
     ge_consolidation_kind_raw = consolidation_kind_raw (ss_consolidation state),
     ge_motor_eligible = motor_eligible, ge_sleep_work_units = work_units,
     ge_phase_receipt = \<lparr>
       pr_phase = ss_phase state, pr_cycle_id = schedule_cycle_id state, pr_tick = tick,
       pr_due_work = due_work, pr_work_units = work_units, pr_cumulative_work_units = cumulative,
       pr_sealed = sealed \<rparr> \<rparr>"

definition schedule_move ::
  "HomeostaticSnapshot \<Rightarrow> HomeostaticParameters \<Rightarrow> Tick \<Rightarrow> SleepController
    \<Rightarrow> (SleepTransition option) sleep_outcome" where
  "schedule_move homeostasis parameters tick c =
     (if ss_phase (sl_state c) = Awake then evaluate_homeostasis homeostasis parameters tick c
      else sleep_advance tick c)"

text \<open>\<open>advance_authoritative\<close>: waking also needs the organism to be rested.\<close>

definition advance_authoritative ::
  "HomeostaticSnapshot \<Rightarrow> HomeostaticParameters \<Rightarrow> Tick \<Rightarrow> SleepController
    \<Rightarrow> (SleepTransition option) sleep_outcome" where
  "advance_authoritative homeostasis parameters tick c =
     (if ss_phase (sl_state c) = Awake then evaluate_homeostasis homeostasis parameters tick c
      else if ss_phase (sl_state c) = Waking
      then (if f32_lt (ds_fatigue (hs_drives homeostasis)) (sg_fatigue_threshold (sl_config c))
               \<and> f32_lt (es_sleep_pressure (hs_hormones homeostasis))
                    (sg_sleep_pressure_threshold (sl_config c))
            then sleep_advance tick c else (Inr None, c))
      else sleep_advance tick c)"

definition scheduled_tick ::
  "'d driver_progress \<Rightarrow> u64 \<Rightarrow> HomeostaticSnapshot \<Rightarrow> HomeostaticParameters \<Rightarrow> Tick
    \<Rightarrow> GpuSleepScheduler \<times> 'd
    \<Rightarrow> (ScaffoldContractError, GpuSleepScheduleEvent, GpuSleepScheduler \<times> 'd) outcome" where
  "scheduled_tick progress organism_id homeostasis parameters tick gd =
     (case gd of (g, d) \<Rightarrow>
        op_then (case schedule_move homeostasis parameters tick (gs_controller g) of
            (r, c) \<Rightarrow> (r, g\<lparr>gs_controller := c\<rparr>, d)) (\<lambda>transition gd.
        op_then (progress_driver progress organism_id gd) (\<lambda>_ gd.
          case gd of (g, d) \<Rightarrow>
            let state = scheduler_state g;
                g' = (if ss_phase state = Awake
                      then reset_sleep_work_schedule (g\<lparr>gs_last_emitted_intent_cycle := None\<rparr>) else g)
            in (Inr (schedule_event tick transition state (ss_phase state = Awake) 0 0 0 False), g', d))))"

section \<open>Due work comes back after its period\<close>

lemma work_flags_unfold: "work_flags = [1, 2, 4, 8, 16]"
  by (simp add: work_flags_def work_REPLAY_def work_FAST_TO_LIFETIME_def work_PREDICTOR_def
      work_CONCEPT_GAP_def work_STRUCTURAL_GROWTH_PRUNING_def)

definition subsystem_due :: "Tick option \<Rightarrow> u64 \<Rightarrow> Tick \<Rightarrow> bool" where
  "subsystem_due prev period tick \<longleftrightarrow>
     (case prev of None \<Rightarrow> True | Some t \<Rightarrow> period \<le> saturating_sub tick t)"

lemma five_flags:
  "work_contains (fold (\<lambda>(b, flag) due. if b then due OR flag else due)
      (zip [b0, b1, b2, b3, b4] [1, 2, 4, 8, 16]) 0) (work_flags ! i) \<longleftrightarrow> [b0, b1, b2, b3, b4] ! i"
  if "i < 5"
proof -
  have "i = 0 \<or> i = 1 \<or> i = 2 \<or> i = 3 \<or> i = 4" using that by auto
  then show ?thesis
    by (elim disjE; cases b0; cases b1; cases b2; cases b3; cases b4)
      (simp_all add: work_contains_def work_flags_unfold)
qed

lemma length_five:
  "length xs = 5 \<Longrightarrow> \<exists>a b c d e. xs = [a, b, c, d, e]"
  by (auto simp: length_Suc_conv eval_nat_numeral)

lemma due_contains:
  assumes "length (gs_last_sleep_work_ticks g) = 5" and "i < 5"
    and "previous = (if gs_last_sleep_work_cycle g = Some cycle_id then gs_last_sleep_work_ticks g
        else replicate 5 None)"
  shows "work_contains (sleep_work_due_for_cycle g cycle_id tick) (work_flags ! i)
    \<longleftrightarrow> subsystem_due (previous ! i) (cadence_periods (gs_cadence g) ! i) tick"
proof -
  have "length previous = 5" using assms(1,3) by simp
  then obtain a b c d e where p: "previous = [a, b, c, d, e]" using length_five by blast
  define P where "P = cadence_periods (gs_cadence g)"
  have "length P = 5" by (simp add: P_def cadence_periods_def)
  then obtain q r s t u where P: "P = [q, r, s, t, u]" using length_five by blast
  have "sleep_work_due_for_cycle g cycle_id tick =
      fold (\<lambda>(b, flag) due. if b then due OR flag else due)
        (zip [subsystem_due a q tick, subsystem_due b r tick, subsystem_due c s tick,
          subsystem_due d t tick, subsystem_due e u tick] [1, 2, 4, 8, 16]) 0"
    using assms(3) [symmetric]
    by (simp add: sleep_work_due_for_cycle_def Let_def P_def [symmetric] P p work_flags_unfold
        subsystem_due_def work_insert_def)
  moreover have "subsystem_due (previous ! i) (P ! i) tick = [subsystem_due a q tick,
      subsystem_due b r tick, subsystem_due c s tick, subsystem_due d t tick, subsystem_due e u tick] ! i"
  proof -
    have "i = 0 \<or> i = 1 \<or> i = 2 \<or> i = 3 \<or> i = 4" using assms(2) by auto
    then show ?thesis by (elim disjE) (simp_all add: p P)
  qed
  ultimately show ?thesis using five_flags [OF assms(2)] by (simp add: P_def)
qed


text \<open>
  Due work comes back exactly after its period: when a subsystem's work was committed at a tick, it
  is due again in the same cycle at a later tick exactly if its cadence period has passed since.
\<close>

lemma due_again_after_period:
  assumes "length (gs_last_sleep_work_ticks g) = 5" and "i < 5" and "work_contains due (work_flags ! i)"
    and "tick \<le> later"
  shows "work_contains (sleep_work_due_for_cycle (commit_sleep_work cycle_id tick due g) cycle_id later)
      (work_flags ! i)
    \<longleftrightarrow> unat tick + unat (cadence_periods (gs_cadence g) ! i) \<le> unat later"
proof -
  define g' where "g' = commit_sleep_work cycle_id tick due g"
  have cyc: "gs_last_sleep_work_cycle g' = Some cycle_id" "gs_cadence g' = gs_cadence g"
    by (simp_all add: g'_def commit_sleep_work_def Let_def)
  have len: "length (gs_last_sleep_work_ticks g') = 5"
    using assms(1) by (simp add: g'_def commit_sleep_work_def Let_def work_flags_unfold)
  have "gs_last_sleep_work_ticks g' ! i = Some tick"
    using assms(1,2,3) by (simp add: g'_def commit_sleep_work_def Let_def work_flags_unfold)
  then have "work_contains (sleep_work_due_for_cycle g' cycle_id later) (work_flags ! i)
      \<longleftrightarrow> cadence_periods (gs_cadence g) ! i \<le> saturating_sub later tick"
    using due_contains [OF len assms(2) refl, of cycle_id later] cyc by (simp add: subsystem_due_def)
  also have "\<dots> \<longleftrightarrow> unat tick + unat (cadence_periods (gs_cadence g) ! i) \<le> unat later"
    using assms(4) by (auto simp: word_le_nat_alt unat_saturating_sub)
  finally show ?thesis by (simp add: g'_def)
qed

section \<open>Intents\<close>

datatype 'd SchedulerOp =
    ScheduledTick "'d driver_progress" HomeostaticSnapshot HomeostaticParameters Tick
  | ForceRecovery Tick

definition tick_moved :: "HomeostaticSnapshot \<Rightarrow> HomeostaticParameters \<Rightarrow> Tick \<Rightarrow> GpuSleepScheduler
    \<Rightarrow> (ScaffoldContractError, SleepTransition option, GpuSleepScheduler) outcome" where
  "tick_moved h p tick g = on_controller g (schedule_move h p tick (gs_controller g))"

definition scheduler_step ::
  "u64 \<Rightarrow> 'd SchedulerOp \<Rightarrow> GpuSleepScheduler \<times> 'd
    \<Rightarrow> (ScaffoldContractError, unit, GpuSleepScheduler \<times> 'd) outcome" where
  "scheduler_step organism_id op gd =
     (case op of
        ScheduledTick progress h p tick \<Rightarrow>
          op_then (scheduled_tick progress organism_id h p tick gd) (\<lambda>_ gd. (Inr (), gd))
      | ForceRecovery tick \<Rightarrow>
          (case force_recovery_sleep tick (fst gd) of
             (Inl e, g) \<Rightarrow> (Inl e, g, snd gd) | (Inr _, g) \<Rightarrow> (Inr (), g, snd gd)))"

text \<open>The cycle whose intent the driver answers during a step.\<close>

definition answered_intent :: "u64 \<Rightarrow> 'd SchedulerOp \<Rightarrow> GpuSleepScheduler \<times> 'd \<Rightarrow> u64 list" where
  "answered_intent organism_id op gd =
     (case op of
        ForceRecovery _ \<Rightarrow> []
      | ScheduledTick progress h p tick \<Rightarrow>
          (case tick_moved h p tick (fst gd) of
             (Inl _, _) \<Rightarrow> []
           | (Inr _, g) \<Rightarrow>
               (case (driver_intent g, fst (progress_driver progress organism_id (g, snd gd))) of
                  (Some i, Inr _) \<Rightarrow> [ci_cycle_id i] | _ \<Rightarrow> [])))"

fun answered_intents :: "u64 \<Rightarrow> 'd SchedulerOp list \<Rightarrow> GpuSleepScheduler \<times> 'd \<Rightarrow> u64 list" where
  "answered_intents organism_id [] gd = []"
| "answered_intents organism_id (op # ops) gd =
     answered_intent organism_id op gd @ answered_intents organism_id ops (snd (scheduler_step organism_id op gd))"

definition scheduler_wf :: "GpuSleepScheduler \<Rightarrow> bool" where
  "scheduler_wf g \<longleftrightarrow> sleep_wf (scheduler_state g)
     \<and> (\<forall>k. gs_last_emitted_intent_cycle g = Some k \<longrightarrow>
          ss_phase (scheduler_state g) \<noteq> Awake \<and> k = ss_active_cycle_id (scheduler_state g))"

text \<open>The last cycle whose intent is settled.\<close>

definition settled_cycle :: "GpuSleepScheduler \<Rightarrow> nat" where
  "settled_cycle g = unat (ss_cycles_completed (scheduler_state g))
     + (if gs_last_emitted_intent_cycle g = None then 0 else 1)"

abbreviation cycles_of :: "GpuSleepScheduler \<Rightarrow> u32" where
  "cycles_of g \<equiv> ss_cycles_completed (scheduler_state g)"

lemma effect_cycles:
  assumes "sleep_effect c (r, c1)" and "sleep_wf (sl_state c)" and "ss_cycles_completed (sl_state c) \<noteq> - 1"
  shows "sleep_wf (sl_state c1)"
    and "ss_phase (sl_state c1) \<noteq> Awake \<Longrightarrow> ss_cycles_completed (sl_state c1) = ss_cycles_completed (sl_state c)"
    and "ss_phase (sl_state c1) \<noteq> Awake \<Longrightarrow> ss_phase (sl_state c) \<noteq> Awake \<Longrightarrow>
      ss_active_cycle_id (sl_state c1) = ss_active_cycle_id (sl_state c)"
    and "ss_phase (sl_state c1) = Awake \<Longrightarrow> ss_phase (sl_state c) \<noteq> Awake \<Longrightarrow>
      unat (ss_cycles_completed (sl_state c1)) = unat (ss_cycles_completed (sl_state c)) + 1"
    and "ss_phase (sl_state c1) = Awake \<Longrightarrow> ss_phase (sl_state c) = Awake \<Longrightarrow>
      ss_cycles_completed (sl_state c1) = ss_cycles_completed (sl_state c)"
proof -
  show "sleep_wf (sl_state c1)" by (rule sleep_effect_keeps [OF assms])
  have *: "(ss_phase (sl_state c1) \<noteq> Awake \<longrightarrow> ss_cycles_completed (sl_state c1) = ss_cycles_completed (sl_state c))
    \<and> (ss_phase (sl_state c1) \<noteq> Awake \<longrightarrow> ss_phase (sl_state c) \<noteq> Awake \<longrightarrow>
      ss_active_cycle_id (sl_state c1) = ss_active_cycle_id (sl_state c))
    \<and> (ss_phase (sl_state c1) = Awake \<longrightarrow> ss_phase (sl_state c) \<noteq> Awake \<longrightarrow>
      unat (ss_cycles_completed (sl_state c1)) = unat (ss_cycles_completed (sl_state c)) + 1)
    \<and> (ss_phase (sl_state c1) = Awake \<longrightarrow> ss_phase (sl_state c) = Awake \<longrightarrow>
      ss_cycles_completed (sl_state c1) = ss_cycles_completed (sl_state c))"
    using assms(1)
  proof (cases rule: sleep_effect.cases)
    case (moves q tick trigger)
    then show ?thesis
      using moved_counts(4) [OF assms(2) moves(3) assms(3)] sleep_wf_fields(7) [OF assms(2)]
      by (auto simp: moved_def can_move_def phase_edge_iff)
  qed simp_all
  then show "ss_phase (sl_state c1) \<noteq> Awake \<Longrightarrow> ss_cycles_completed (sl_state c1) = ss_cycles_completed (sl_state c)"
    "ss_phase (sl_state c1) \<noteq> Awake \<Longrightarrow> ss_phase (sl_state c) \<noteq> Awake \<Longrightarrow>
      ss_active_cycle_id (sl_state c1) = ss_active_cycle_id (sl_state c)"
    "ss_phase (sl_state c1) = Awake \<Longrightarrow> ss_phase (sl_state c) \<noteq> Awake \<Longrightarrow>
      unat (ss_cycles_completed (sl_state c1)) = unat (ss_cycles_completed (sl_state c)) + 1"
    "ss_phase (sl_state c1) = Awake \<Longrightarrow> ss_phase (sl_state c) = Awake \<Longrightarrow>
      ss_cycles_completed (sl_state c1) = ss_cycles_completed (sl_state c)"
    by blast+
qed

lemma schedule_move_effect:
  assumes "sleep_wf (sl_state c)" and "ss_cycles_completed (sl_state c) \<noteq> - 1"
  shows "sleep_effect c (schedule_move h p tick c)"
  using homeostasis_effect [OF assms] advance_effect [OF assms] by (simp add: schedule_move_def)


lemma apply_event_effect:
  assumes "sleep_wf (sl_state c)" and "apply_consolidation_driver_event event c = (r, c')"
  shows "(\<exists>e. r = Inl e) \<and> c' = c \<or>
    r = Inr () \<and> sleep_wf (sl_state c') \<and> ss_phase (sl_state c') = ss_phase (sl_state c)
      \<and> ss_cycles_completed (sl_state c') = ss_cycles_completed (sl_state c)
      \<and> ss_active_cycle_id (sl_state c') = ss_active_cycle_id (sl_state c)"
proof -
  have "sleep_effect c (case r of Inl e \<Rightarrow> (Inl e, c') | Inr _ \<Rightarrow> (Inr None, c'))"
    using driver_effect [OF assms(1), of event] assms(2) by (cases r) simp_all
  then show ?thesis
  proof (cases rule: sleep_effect.cases)
    case (driven ev k)
    then show ?thesis using driven_wf [OF assms(1) driven(2) driven(4)] by (cases r) simp_all
  qed (use assms(1) in \<open>cases r; simp\<close>)+
qed

lemma progress_driver_effect:
  assumes wf: "sleep_wf (scheduler_state g)"
    and emitted: "\<And>k. gs_last_emitted_intent_cycle g = Some k \<Longrightarrow> ss_phase (scheduler_state g) \<noteq> Awake \<Longrightarrow>
      k = ss_active_cycle_id (scheduler_state g)"
    and run: "progress_driver progress organism_id (g, d) = (r, g', d')"
  shows "sleep_wf (scheduler_state g') \<and> ss_phase (scheduler_state g') = ss_phase (scheduler_state g)
    \<and> cycles_of g' = cycles_of g
    \<and> ss_active_cycle_id (scheduler_state g') = ss_active_cycle_id (scheduler_state g)
    \<and> (case (driver_intent g, r) of
         (Some i, Inr _) \<Rightarrow> gs_last_emitted_intent_cycle g = None
           \<and> ci_cycle_id i = ss_active_cycle_id (scheduler_state g)
           \<and> gs_last_emitted_intent_cycle g' = Some (ci_cycle_id i) \<and> ss_phase (scheduler_state g) \<noteq> Awake
       | _ \<Rightarrow> gs_last_emitted_intent_cycle g' = gs_last_emitted_intent_cycle g)"
proof (cases "ss_phase (scheduler_state g) = Consolidating")
  case False
  then have "driver_intent g = None" by (simp add: driver_intent_def Let_def)
  with False run wf show ?thesis by (auto simp: progress_driver_def Let_def)
next
  case True
  have intent: "driver_intent g = Some i \<Longrightarrow> gs_last_emitted_intent_cycle g = None
      \<and> ci_cycle_id i = ss_active_cycle_id (scheduler_state g)" for i
    using emitted True by (cases "gs_last_emitted_intent_cycle g") (auto simp: driver_intent_def Let_def split: if_splits)
  obtain answer d1 where a: "progress organism_id (scheduler_state g) (driver_intent g) d = (answer, d1)"
    by force
  consider (stop) e where "r = Inl e" "g' = g"
    | (quiet) "driver_intent g = None" "g' = g"
    | (applied) event where "answer = Inr (Some event)"
    using run True a
    by (cases answer; cases "projr answer"; cases "driver_intent g")
      (auto simp: progress_driver_def Let_def split: if_splits)
  then show ?thesis
  proof cases
    case stop
    then show ?thesis using wf by (simp split: option.splits)
  next
    case quiet
    then show ?thesis using wf by simp
  next
    case (applied event)
    obtain x c' where x: "apply_consolidation_driver_event event (gs_controller g) = (x, c')" by force
    have wf': "sleep_wf (sl_state (gs_controller g))" using wf by (simp add: scheduler_state_def)
    from apply_event_effect [OF wf' x] show ?thesis
      using run True a applied x wf intent
      by (cases x; cases "driver_intent g")
        (auto simp: progress_driver_def Let_def scheduler_state_def)
  qed
qed

lemma force_recovery_effect:
  assumes "scheduler_wf g" and "cycles_of g \<noteq> - 1" and "force_recovery_sleep tick g = (r, g')"
  shows "scheduler_wf g' \<and> settled_cycle g' = settled_cycle g \<and> cycles_of g' = cycles_of g"
proof -
  obtain x c' where x: "force_sleep tick RecoveryProtocol (gs_controller g) = (x, c')" by force
  have wf: "sleep_wf (sl_state (gs_controller g))" and room: "ss_cycles_completed (sl_state (gs_controller g)) \<noteq> - 1"
    using assms(1,2) by (simp_all add: scheduler_wf_def scheduler_state_def)
  have g': "g' = g\<lparr>gs_controller := c'\<rparr>" using assms(3) x by (simp add: force_recovery_sleep_def on_controller_def)
  have eff: "sleep_effect (gs_controller g) (map_sum id Some x, c')"
    using force_effect [OF wf room, of tick RecoveryProtocol] x
    by (cases x) (simp_all add: some_transition_def)
  have phase: "c' = gs_controller g \<or> ss_phase (sl_state c') = ForcedRecoverySleep"
    using x by (auto simp: force_sleep_def checked_op_def Let_def transition_to_def split: sum.splits prod.splits)
  show ?thesis
    using effect_cycles [OF eff wf room] phase assms(1)
    by (auto simp: g' scheduler_wf_def scheduler_state_def settled_cycle_def)
qed

lemma tick_effect:
  assumes wf: "scheduler_wf g" and room: "cycles_of g \<noteq> - 1"
    and run: "scheduled_tick progress organism_id h p tick (g, d) = (r, g', d')"
    and xs: "xs = answered_intent organism_id (ScheduledTick progress h p tick) (g, d)"
  shows "scheduler_wf g' \<and> cycles_of g \<le> cycles_of g' \<and> settled_cycle g \<le> settled_cycle g'
    \<and> (\<forall>a \<in> set xs. settled_cycle g < unat a \<and> unat a \<le> settled_cycle g') \<and> length xs \<le> 1"
proof -
  obtain x c1 where x: "schedule_move h p tick (gs_controller g) = (x, c1)" by force
  define g1 where "g1 = g\<lparr>gs_controller := c1\<rparr>"
  have cwf: "sleep_wf (sl_state (gs_controller g))"
    and croom: "ss_cycles_completed (sl_state (gs_controller g)) \<noteq> - 1"
    using wf room by (simp_all add: scheduler_wf_def scheduler_state_def)
  have eff: "sleep_effect (gs_controller g) (x, c1)"
    using schedule_move_effect [OF cwf croom, of h p tick] x by simp
  note moved = effect_cycles [OF eff cwf croom, folded scheduler_state_def]
  have st: "scheduler_state g1 = sl_state c1" "gs_last_emitted_intent_cycle g1 = gs_last_emitted_intent_cycle g"
    by (simp_all add: g1_def scheduler_state_def)
  show ?thesis
  proof (cases x)
    case (Inl e)
    then have "c1 = gs_controller g" using eff by (auto elim: sleep_effect.cases)
    then have "g' = g" "xs = []"
      using run xs x Inl by (simp_all add: scheduled_tick_def answered_intent_def tick_moved_def on_controller_def)
    then show ?thesis using wf by simp
  next
    case (Inr tr)
    obtain y g2 d2 where y: "progress_driver progress organism_id (g1, d) = (y, g2, d2)"
      by (metis prod.collapse)
    have wf1: "sleep_wf (scheduler_state g1)" using moved(1) by (simp add: st)
    have emitted: "k = ss_active_cycle_id (scheduler_state g1)"
      if "gs_last_emitted_intent_cycle g1 = Some k" "ss_phase (scheduler_state g1) \<noteq> Awake" for k
      using that wf moved(3) by (simp add: st scheduler_wf_def)
    note eff2 = progress_driver_effect [OF wf1 emitted y]
    have xs': "xs = (case (driver_intent g1, y) of (Some i, Inr _) \<Rightarrow> [ci_cycle_id i] | _ \<Rightarrow> [])"
      using xs x Inr y by (simp add: answered_intent_def tick_moved_def on_controller_def g1_def split: option.split)
    have awake_ok: "ss_phase (scheduler_state g1) = Awake \<Longrightarrow> y = Inr () \<and> driver_intent g1 = None"
      using y by (auto simp: progress_driver_def driver_intent_def Let_def)
    have g': "g' = (case y of Inl _ \<Rightarrow> g2 | Inr _ \<Rightarrow> if ss_phase (scheduler_state g2) = Awake
        then reset_sleep_work_schedule (g2\<lparr>gs_last_emitted_intent_cycle := None\<rparr>) else g2)"
      using run x Inr y by (cases y) (auto simp: scheduled_tick_def g1_def Let_def)
    show ?thesis
    proof (cases "ss_phase (scheduler_state g1) = Awake")
      case True
      then have "g' = reset_sleep_work_schedule (g2\<lparr>gs_last_emitted_intent_cycle := None\<rparr>)" "xs = []"
        using g' xs' awake_ok eff2 by simp_all
      moreover have "cycles_of g2 = ss_cycles_completed (sl_state c1)" "ss_phase (scheduler_state g2) = Awake"
        "sleep_wf (scheduler_state g2)"
        using eff2 True by (simp_all add: st)
      moreover have "settled_cycle g \<le> unat (ss_cycles_completed (sl_state c1))"
        "cycles_of g \<le> ss_cycles_completed (sl_state c1)"
        using moved(4,5) True wf
        by (cases "ss_phase (scheduler_state g) = Awake";
            auto simp: st settled_cycle_def scheduler_wf_def word_le_nat_alt)+
      ultimately show ?thesis
        by (simp add: scheduler_wf_def settled_cycle_def reset_sleep_work_schedule_def scheduler_state_def)
    next
      case False
      then have same: "g' = g2" using g' eff2 by (cases y) simp_all
      have count: "cycles_of g1 = cycles_of g" using moved(2) False by (simp add: st)
      have active: "unat (ss_active_cycle_id (scheduler_state g1)) = unat (cycles_of g) + 1"
        using wf1 False count by (simp add: sleep_wf_def)
      show ?thesis
        using same eff2 False count active xs' emitted st wf
        by (cases "driver_intent g1"; cases y)
          (auto simp: scheduler_wf_def settled_cycle_def)
    qed
  qed
qed

text \<open>A new or a restored scheduler is well formed.\<close>

lemma scheduler_new_wf: "scheduler_new config = Inr g \<Longrightarrow> scheduler_wf g \<and> settled_cycle g = 0"
proof -
  have zero: "sleep_controller_new config = Inr c \<Longrightarrow> ss_cycles_completed (sl_state c) = 0" for c
    by (auto simp: sleep_controller_new_def sleep_state_awake_at_def)
  assume "scheduler_new config = Inr g"
  then show ?thesis
    by (auto simp: scheduler_new_def scheduler_with_cadence_def scheduler_wf_def scheduler_state_def
        settled_cycle_def zero dest: sleep_new_wf)
qed

lemma scheduler_restore_wf:
  "scheduler_restore config state = Inr g \<Longrightarrow> sleep_wf state \<Longrightarrow> scheduler_wf g"
  by (auto simp: scheduler_restore_def scheduler_restore_with_cadence_def sleep_controller_restore_def
      scheduler_wf_def scheduler_state_def split: if_splits)

lemma scheduler_step_effect:
  assumes "scheduler_wf (fst gd)" and "cycles_of (fst gd) \<noteq> - 1"
    and gd'_def: "gd' = snd (scheduler_step organism_id op gd)"
    and xs_def: "xs = answered_intent organism_id op gd"
  shows "scheduler_wf (fst gd') \<and> cycles_of (fst gd) \<le> cycles_of (fst gd')
    \<and> settled_cycle (fst gd) \<le> settled_cycle (fst gd')
    \<and> (\<forall>a \<in> set xs. settled_cycle (fst gd) < unat a \<and> unat a \<le> settled_cycle (fst gd')) \<and> length xs \<le> 1"
proof (cases op)
  case (ScheduledTick progress h p tick)
  obtain g d where gd: "gd = (g, d)" by force
  obtain r g' d' where r: "scheduled_tick progress organism_id h p tick (g, d) = (r, g', d')"
    by (metis prod.collapse)
  have "gd' = (g', d')" using r by (cases r) (simp_all add: gd'_def scheduler_step_def ScheduledTick gd)
  then show ?thesis
    using tick_effect [OF _ _ r refl] assms(1,2) by (simp add: gd xs_def ScheduledTick)
next
  case (ForceRecovery tick)
  obtain r g' where r: "force_recovery_sleep tick (fst gd) = (r, g')" by force
  have "fst gd' = g'" using r by (cases r) (simp_all add: gd'_def scheduler_step_def ForceRecovery)
  then show ?thesis
    using force_recovery_effect [OF assms(1,2) r] by (simp add: xs_def ForceRecovery answered_intent_def)
qed

lemma saturated_move: "ss_cycles_completed (sl_state c) = - 1 \<Longrightarrow>
    ss_cycles_completed (sl_state (snd (sleep_step op c))) = - 1"
  using step_cycles [of op c] by (auto simp: saturating_succ_max)

lemma step_saturated:
  assumes "cycles_of (fst gd) = - 1"
  shows "cycles_of (fst (snd (scheduler_step organism_id op gd))) = - 1"
proof -
  obtain g d where gd: "gd = (g, d)" by force
  have c: "ss_cycles_completed (sl_state (gs_controller g)) = - 1"
    using assms by (simp add: gd scheduler_state_def)
  show ?thesis
  proof (cases op)
    case (ForceRecovery tick)
    then show ?thesis
      using saturated_move [OF c, of "ForceSleep tick RecoveryProtocol"]
      by (auto simp: gd scheduler_step_def force_recovery_sleep_def on_controller_def scheduler_state_def
          split: prod.splits sum.splits)
  next
    case (ScheduledTick progress h p tick)
    obtain x c1 where x: "schedule_move h p tick (gs_controller g) = (x, c1)" by force
    have c1: "ss_cycles_completed (sl_state c1) = - 1"
      using saturated_move [OF c, of "EvaluateHomeostasis h p tick"] saturated_move [OF c, of "AdvanceSleep tick"] x
      by (auto simp: schedule_move_def split: if_splits)
    obtain y g2 d2 where y: "progress_driver progress organism_id (g\<lparr>gs_controller := c1\<rparr>, d) = (y, g2, d2)"
      by (metis prod.collapse)
    have event: "ss_cycles_completed (sl_state c') = - 1"
      if "apply_consolidation_driver_event event c1 = (z, c')" for event z c'
      using saturated_move [OF c1, of "DriverEvent event"] that by (cases z) simp_all
    have "cycles_of g2 = - 1"
      using y c1 event
      by (auto simp: progress_driver_def Let_def scheduler_state_def
          split: if_splits prod.splits sum.splits option.splits)
    then show ?thesis
      using x y by (cases x; cases y)
        (auto simp: gd ScheduledTick scheduler_step_def scheduled_tick_def Let_def c1
          scheduler_state_def reset_sleep_work_schedule_def)
  qed
qed

lemma run_saturated: "cycles_of (fst gd) = - 1 \<Longrightarrow>
    cycles_of (fst (run_ops (scheduler_step organism_id) ops gd)) = - 1"
  by (induction ops arbitrary: gd) (simp_all only: run_ops_simps step_saturated)

lemma answered_intents_sorted:
  assumes "scheduler_wf (fst gd)"
    and "cycles_of (fst (run_ops (scheduler_step organism_id) ops gd)) \<noteq> - 1"
  shows "sorted_wrt (<) (map unat (answered_intents organism_id ops gd))
    \<and> (\<forall>a \<in> set (answered_intents organism_id ops gd). settled_cycle (fst gd) < unat a)
    \<and> cycles_of (fst gd) \<noteq> - 1"
  using assms
proof (induction ops arbitrary: gd)
  case Nil
  then show ?case by simp
next
  case (Cons op ops)
  let ?gd' = "snd (scheduler_step organism_id op gd)"
  have max: "x = - 1" if "- 1 \<le> x" for x :: u32 using that by (simp add: word_order.extremum_unique)
  show ?case
  proof (cases "cycles_of (fst gd) = - 1")
    case True
    then have "cycles_of (fst (run_ops (scheduler_step organism_id) (op # ops) gd)) = - 1"
      by (rule run_saturated)
    with Cons.prems(2) show ?thesis by simp
  next
    case False
    note eff = scheduler_step_effect [OF Cons.prems(1) False refl refl, of organism_id op]
    have IH: "sorted_wrt (<) (map unat (answered_intents organism_id ops ?gd'))"
      "\<forall>a \<in> set (answered_intents organism_id ops ?gd'). settled_cycle (fst ?gd') < unat a"
      using Cons.IH [of ?gd'] eff Cons.prems(2) by auto
    have one: "length (answered_intent organism_id op gd) \<le> 1" using eff by simp
    show ?thesis
      using IH eff one False
      by (cases "answered_intent organism_id op gd") (auto intro: le_less_trans)
  qed
qed

text \<open>
  A cycle's intent is settled once: over any run of scheduled ticks and forced recoveries of a new
  scheduler, with any driver, the cycles whose intent the driver answered are strictly increasing, so
  no cycle is consolidated from two intents.
\<close>

lemma intent_answered_once:
  assumes "scheduler_new config = Inr g"
    and "cycles_of (fst (run_ops (scheduler_step organism_id) ops (g, d))) \<noteq> - 1"
  shows "sorted_wrt (<) (map unat (answered_intents organism_id ops (g, d)))"
  using answered_intents_sorted [of "(g, d)"] scheduler_new_wf [OF assms(1)] assms(2) by simp

end
