(* ===== verification/Scheduler_Examples.thy ===== *)
theory Scheduler_Examples
  imports Sleep_Scheduler Sleep_Examples
begin

text \<open>
  A scheduler run worked out: a forced recovery, then a tick on which the driver answers the intent of
  the first cycle. The witnesses of the scheduler properties are the theorems applied to it.
\<close>

definition ex_scheduler :: "SleepController \<Rightarrow> u64 option \<Rightarrow> GpuSleepScheduler" where
  "ex_scheduler c emitted = \<lparr> gs_controller = c, gs_cadence = cadence_reference,
     gs_last_emitted_intent_cycle = emitted, gs_last_sleep_work_cycle = None,
     gs_last_sleep_work_ticks = replicate 5 None \<rparr>"

definition ex_progress :: "unit driver_progress" where
  "ex_progress organism state intent d =
     (Inr (Some (EV_ReplayAssetPersisted \<lparr> ci_cycle_id = 1 \<rparr> (9, 10, 11, 12) 4 2)), d)"

lemma ex_scheduler_new: "scheduler_new sleep_config_reference = Inr (ex_scheduler ex_controller None)"
  by (simp add: scheduler_new_def scheduler_with_cadence_def ex_controller_new ex_scheduler_def
      cadence_validate_def cadence_reference_def)

definition ex_recovering :: "SleepPhase \<Rightarrow> Tick \<Rightarrow> ConsolidationState \<Rightarrow> SleepController" where
  "ex_recovering phase tick k = \<lparr> sl_config = sleep_config_reference, sl_state = \<lparr>
     ss_schema_version = 2, ss_phase = phase, ss_phase_started_tick = tick,
     ss_entered_sleep_tick = Some 1, ss_cycles_completed = 0, ss_last_trigger = Some RecoveryProtocol,
     ss_active_cycle_id = 1, ss_last_consolidated_cycle_id = 0, ss_consolidation = k \<rparr> \<rparr>"

lemma ex_force: "force_sleep 1 RecoveryProtocol ex_controller
    = (Inr \<lparr> st_from = Awake, st_to = ForcedRecoverySleep, st_tick = 1, st_trigger = RecoveryProtocol \<rparr>,
       ex_recovering ForcedRecoverySleep 1 CS_None)"
  by (simp add: ex_defs ex_recovering_def sleep_eval)

lemma ex_settle: "sleep_advance 9 (ex_recovering ForcedRecoverySleep 1 CS_None)
    = (Inr (Some \<lparr> st_from = ForcedRecoverySleep, st_to = Consolidating, st_tick = 9,
         st_trigger = RecoveryProtocol \<rparr>), ex_recovering Consolidating 9 CS_None)"
  by (simp add: ex_defs ex_recovering_def sleep_eval)

lemma ex_persist: "apply_consolidation_driver_event
      (EV_ReplayAssetPersisted \<lparr> ci_cycle_id = 1 \<rparr> (9, 10, 11, 12) 4 2) (ex_recovering Consolidating 9 CS_None)
    = (Inr (), ex_recovering Consolidating 9 (CS_Pending \<lparr> ci_cycle_id = 1 \<rparr> (9, 10, 11, 12) 4 2))"
  by (simp add: ex_defs ex_recovering_def sleep_eval)

lemma ex_phase [simp]: "ss_phase (sl_state (ex_recovering phase tick k)) = phase"
  "ss_active_cycle_id (sl_state (ex_recovering phase tick k)) = 1"
  "ss_consolidation (sl_state (ex_recovering phase tick k)) = k"
  "ss_cycles_completed (sl_state (ex_recovering phase tick k)) = 0"
  by (simp_all add: ex_recovering_def)

definition ex_schedule :: "unit SchedulerOp list" where
  "ex_schedule = [ForceRecovery 1, ScheduledTick ex_progress (homeostatic_baseline 9) parameters_reference 9]"

lemma ex_first: "scheduler_step 7 (ForceRecovery 1) (ex_scheduler ex_controller None, ())
    = (Inr (), ex_scheduler (ex_recovering ForcedRecoverySleep 1 CS_None) None, ())"
  by (simp add: scheduler_step_def force_recovery_sleep_def on_controller_def ex_scheduler_def ex_force)

lemmas ex_tick_simps = scheduled_tick_def schedule_move_def on_controller_def progress_driver_def
  driver_intent_def scheduler_state_def ex_scheduler_def ex_settle ex_persist ex_progress_def Let_def

lemma ex_second: "scheduler_step 7 (ScheduledTick ex_progress (homeostatic_baseline 9) parameters_reference 9)
      (ex_scheduler (ex_recovering ForcedRecoverySleep 1 CS_None) None, ())
    = (Inr (), ex_scheduler (ex_recovering Consolidating 9
         (CS_Pending \<lparr> ci_cycle_id = 1 \<rparr> (9, 10, 11, 12) 4 2)) (Some 1), ())"
  by (simp add: scheduler_step_def ex_tick_simps)

lemma ex_answers:
  "answered_intents 7 ex_schedule (ex_scheduler ex_controller None, ()) = [1]"
proof -
  have "answered_intent 7 (ScheduledTick ex_progress (homeostatic_baseline 9) parameters_reference 9)
      (ex_scheduler (ex_recovering ForcedRecoverySleep 1 CS_None) None, ()) = [1]"
    by (simp add: answered_intent_def tick_moved_def ex_tick_simps)
  then show ?thesis
    by (simp add: ex_schedule_def ex_first ex_second) (simp add: answered_intent_def)
qed

theorem intent_answered_once_witness:
  "sorted_wrt (<) (map unat (answered_intents 7 ex_schedule (ex_scheduler ex_controller None, ())))
   \<and> answered_intents 7 ex_schedule (ex_scheduler ex_controller None, ()) = [1]"
proof -
  have "ss_cycles_completed (scheduler_state (fst (run_ops (scheduler_step 7) ex_schedule
      (ex_scheduler ex_controller None, ())))) \<noteq> - 1"
    by (simp add: ex_schedule_def ex_first ex_second) (simp add: scheduler_state_def ex_scheduler_def)
  from intent_answered_once [OF ex_scheduler_new this] show ?thesis by (simp only: ex_answers)
qed

theorem due_again_after_period_witness:
  "work_contains (sleep_work_due_for_cycle (commit_sleep_work 1 10 31 (ex_scheduler ex_controller None)) 1 12)
     (work_flags ! 1)
   \<and> \<not> work_contains (sleep_work_due_for_cycle (commit_sleep_work 1 10 31 (ex_scheduler ex_controller None)) 1 11)
     (work_flags ! 1)"
proof -
  have c: "length (gs_last_sleep_work_ticks (ex_scheduler ex_controller None)) = 5"
    "work_contains 31 (work_flags ! 1)"
    by (simp_all add: ex_scheduler_def work_contains_def work_flags_unfold)
  have p: "unat (cadence_periods (gs_cadence (ex_scheduler ex_controller None)) ! 1) = 2"
    by (simp add: ex_scheduler_def cadence_periods_def cadence_reference_def)
  have "work_contains (sleep_work_due_for_cycle (commit_sleep_work 1 10 31 (ex_scheduler ex_controller None)) 1 12)
      (work_flags ! 1) \<longleftrightarrow> unat (10 :: u64) + unat (cadence_periods (gs_cadence (ex_scheduler ex_controller None)) ! 1)
        \<le> unat (12 :: u64)"
    by (rule due_again_after_period [OF c(1) _ c(2)]) simp_all
  moreover have "work_contains (sleep_work_due_for_cycle (commit_sleep_work 1 10 31 (ex_scheduler ex_controller None)) 1 11)
      (work_flags ! 1) \<longleftrightarrow> unat (10 :: u64) + unat (cadence_periods (gs_cadence (ex_scheduler ex_controller None)) ! 1)
        \<le> unat (11 :: u64)"
    by (rule due_again_after_period [OF c(1) _ c(2)]) simp_all
  ultimately show ?thesis by (simp only: p) simp
qed

text \<open>Two structural edits, given in the wrong order.\<close>

definition ex_edit :: "u64 \<Rightarrow> StructuralEditCandidate" where
  "ex_edit i = \<lparr> se_candidate_id = i, se_source_lobe = 1, se_target_lobe = 2, se_kind = Strengthen,
     se_reason = MemoryCorrelation, se_salience = f32_one, se_confidence = f32_zero, se_estimated_synapses = 4 \<rparr>"

definition ex_batch :: StructuralEditBatch where
  "ex_batch = \<lparr> sb_schema_version = current_for SleepConsolidation, sb_tick = 3,
     sb_candidates = [ex_edit 1, ex_edit 2], sb_application_status = DeferredForSleepCompilation \<rparr>"

theorem edit_batch_canonical_witness:
  "edit_batch_new 3 [ex_edit 2, ex_edit 1] 2 = Inr ex_batch
   \<and> edit_batch_new 3 [ex_edit 2, ex_edit 1] 1 \<noteq> Inr ex_batch"
proof -
  have v: "edit_candidate_validate (ex_edit 1) = Inr ()" "edit_candidate_validate (ex_edit 2) = Inr ()"
    by (simp_all add: edit_candidate_validate_def ex_edit_def normalized_scalar_new_def confidence_new_def f32_in_range_def f32_defs)
  show ?thesis
    unfolding edit_batch_canonical using v
    by (simp add: ex_batch_def) (simp add: ex_edit_def)
qed

end
