(* ===== verification/Session.thy ===== *)
theory Session
  imports Contracts Digest_Encoding
begin

text \<open>
  \<open>crates/alife_runtime/src/session.rs\<close>: the sole owner of the neural backend and its fail-stop
  ledger. The backend itself (\<open>alife_gpu_backend\<close>, which drives the device) is a parameter: its
  state is a type variable and the three calls the session makes of it are arguments.
\<close>

section \<open>Durable checkpoints\<close>

datatype GpuSessionConsumerKind = Gameplay | Training | Challenge

datatype GpuSessionFailStopCause = DeviceLost | BackendUnavailable | CheckpointRestoreFailed

record DurableGpuCheckpointRef =
  dc_checkpoint_tick :: Tick
  dc_manifest_digest :: bytes
  dc_neural_state_digest :: digest4

datatype DurableGpuCheckpointMonotonicityPermit = Permit (permit_checkpoint: DurableGpuCheckpointRef)

text \<open>\<open>is_ascii_hexdigit\<close> and \<open>strip_prefix\<close> on the UTF-8 bytes of the string.\<close>

definition is_ascii_hexdigit :: "u8 \<Rightarrow> bool" where
  "is_ascii_hexdigit b =
     (48 \<le> b \<and> b \<le> 57 \<or> 65 \<le> b \<and> b \<le> 70 \<or> 97 \<le> b \<and> b \<le> 102)"

definition strip_prefix :: "bytes \<Rightarrow> bytes \<Rightarrow> bytes option" where
  "strip_prefix prefix s =
     (if take (length prefix) s = prefix then Some (drop (length prefix) s) else None)"

definition valid_manifest_digest :: "bytes \<Rightarrow> bool" where
  "valid_manifest_digest s =
     (case strip_prefix (ascii ''fnv1a64:'') s of
        None \<Rightarrow> False
      | Some suffix \<Rightarrow> length suffix = 16 \<and> list_all is_ascii_hexdigit suffix)"

definition durable_checkpoint_try_new ::
  "Tick \<Rightarrow> bytes \<Rightarrow> digest4 \<Rightarrow> DurableGpuCheckpointRef contract" where
  "durable_checkpoint_try_new tick manifest_digest neural_digest =
     (if \<not> valid_manifest_digest manifest_digest \<or> neural_digest = zero4 then Inl InvalidId
      else Inr \<lparr> dc_checkpoint_tick = tick, dc_manifest_digest = manifest_digest,
                 dc_neural_state_digest = neural_digest \<rparr>)"

section \<open>Authority\<close>

datatype GpuSessionAuthorityState = Ready | FailedStop GpuSessionFailStopCause

record GpuSessionAuthority =
  ga_consumer :: GpuSessionConsumerKind
  ga_state :: GpuSessionAuthorityState
  ga_latest_durable_checkpoint :: "DurableGpuCheckpointRef option"

definition authority_new :: "GpuSessionConsumerKind \<Rightarrow> GpuSessionAuthority" where
  "authority_new consumer =
     \<lparr> ga_consumer = consumer, ga_state = Ready, ga_latest_durable_checkpoint = None \<rparr>"

definition prevalidate_durable_checkpoint ::
  "DurableGpuCheckpointRef \<Rightarrow> GpuSessionAuthority
   \<Rightarrow> DurableGpuCheckpointMonotonicityPermit contract" where
  "prevalidate_durable_checkpoint checkpoint a =
     (if (case ga_latest_durable_checkpoint a of None \<Rightarrow> False
          | Some current \<Rightarrow> dc_checkpoint_tick checkpoint < dc_checkpoint_tick current)
      then Inl BrainActivitySequenceMismatch else Inr (Permit checkpoint))"

definition install_prevalidated_durable_checkpoint ::
  "DurableGpuCheckpointMonotonicityPermit \<Rightarrow> GpuSessionAuthority \<Rightarrow> GpuSessionAuthority" where
  "install_prevalidated_durable_checkpoint permit a =
     a\<lparr>ga_latest_durable_checkpoint := Some (permit_checkpoint permit)\<rparr>"

definition note_durable_checkpoint ::
  "DurableGpuCheckpointRef \<Rightarrow> GpuSessionAuthority
   \<Rightarrow> (ScaffoldContractError, unit, GpuSessionAuthority) outcome" where
  "note_durable_checkpoint checkpoint a =
     (case prevalidate_durable_checkpoint checkpoint a of
        Inl e \<Rightarrow> (Inl e, a)
      | Inr permit \<Rightarrow> (Inr (), install_prevalidated_durable_checkpoint permit a))"

definition authority_fail_stop ::
  "GpuSessionFailStopCause \<Rightarrow> GpuSessionAuthority \<Rightarrow> GpuSessionAuthority" where
  "authority_fail_stop cause a =
     (if ga_state a = Ready then a\<lparr>ga_state := FailedStop cause\<rparr> else a)"

definition authority_ensure_available :: "GpuSessionAuthority \<Rightarrow> unit contract" where
  "authority_ensure_available a =
     (case ga_state a of Ready \<Rightarrow> Inr () | FailedStop _ \<Rightarrow> Inl NeuralBackendUnavailable)"

section \<open>The session\<close>

text \<open>\<open>GpuCuratedResidencyOutcome\<close> of the backend crate, over its receipt.\<close>

datatype 'r GpuCuratedResidencyOutcome =
    Committed 'r
  | PreSubmitFailure ScaffoldContractError bool
  | UnknownOutcome ScaffoldContractError bool

record 'b GpuAuthoritativeSession =
  as_backend :: 'b
  as_authority :: GpuSessionAuthority

type_synonym ('b, 'a) session_outcome =
  "(ScaffoldContractError, 'a, 'b GpuAuthoritativeSession) outcome"

text \<open>A fallible call of the backend, with the state it leaves the backend in.\<close>

type_synonym ('b, 'a) backend_call = "'b \<Rightarrow> (ScaffoldContractError + 'a) \<times> 'b"

definition session_new :: "'b \<Rightarrow> GpuSessionConsumerKind \<Rightarrow> 'b GpuAuthoritativeSession" where
  "session_new backend consumer =
     \<lparr> as_backend = backend, as_authority = authority_new consumer \<rparr>"

definition session_ensure_available :: "'b GpuAuthoritativeSession \<Rightarrow> unit contract" where
  "session_ensure_available s = authority_ensure_available (as_authority s)"

definition session_fail_stop ::
  "GpuSessionFailStopCause \<Rightarrow> 'b GpuAuthoritativeSession \<Rightarrow> 'b GpuAuthoritativeSession" where
  "session_fail_stop cause s = s\<lparr>as_authority := authority_fail_stop cause (as_authority s)\<rparr>"

definition session_note_checkpoint ::
  "DurableGpuCheckpointRef \<Rightarrow> 'b GpuAuthoritativeSession \<Rightarrow> ('b, unit) session_outcome" where
  "session_note_checkpoint checkpoint s =
     (case note_durable_checkpoint checkpoint (as_authority s) of
        (r, a) \<Rightarrow> (r, s\<lparr>as_authority := a\<rparr>))"

definition session_install_checkpoint ::
  "DurableGpuCheckpointMonotonicityPermit \<Rightarrow> 'b GpuAuthoritativeSession
   \<Rightarrow> 'b GpuAuthoritativeSession" where
  "session_install_checkpoint permit s =
     s\<lparr>as_authority := install_prevalidated_durable_checkpoint permit (as_authority s)\<rparr>"

definition record_contract_failure ::
  "ScaffoldContractError \<Rightarrow> 'b GpuAuthoritativeSession \<Rightarrow> 'b GpuAuthoritativeSession" where
  "record_contract_failure error s =
     (if error = NeuralBackendUnavailable then session_fail_stop BackendUnavailable s else s)"

text \<open>The backend runs the call; a reported failure goes to the ledger.\<close>

definition run_backend :: "('b, 'a) backend_call \<Rightarrow> 'b GpuAuthoritativeSession \<Rightarrow> ('b, 'a) session_outcome" where
  "run_backend call s =
     (case call (as_backend s) of
        (r, b) \<Rightarrow>
          let s' = s\<lparr>as_backend := b\<rparr>
          in (r, case r of Inl e \<Rightarrow> record_contract_failure e s' | Inr _ \<Rightarrow> s'))"

definition session_insert_brain ::
  "(u64 \<Rightarrow> 'p \<Rightarrow> ('b, 'h) backend_call) \<Rightarrow> u64 \<Rightarrow> 'p
   \<Rightarrow> 'b GpuAuthoritativeSession \<Rightarrow> ('b, 'h) session_outcome" where
  "session_insert_brain backend_insert_brain organism_id phenotype s =
     (case session_ensure_available s of
        Inl e \<Rightarrow> (Inl e, s)
      | Inr _ \<Rightarrow> run_backend (backend_insert_brain organism_id phenotype) s)"

definition tick_memory_batch_training ::
  "('m \<Rightarrow> ('b, 't) backend_call) \<Rightarrow> 'm
   \<Rightarrow> 'b GpuAuthoritativeSession \<Rightarrow> ('b, 't) session_outcome" where
  "tick_memory_batch_training backend_tick batch s =
     (case session_ensure_available s of
        Inl e \<Rightarrow> (Inl e, s)
      | Inr _ \<Rightarrow>
          if ga_consumer (as_authority s) \<noteq> Training then (Inl InvalidDecisionEvidence, s)
          else run_backend (backend_tick batch) s)"

definition replace_curated_cohort ::
  "('c \<Rightarrow> 'b \<Rightarrow> 'r GpuCuratedResidencyOutcome \<times> 'b) \<Rightarrow> 'c
   \<Rightarrow> 'b GpuAuthoritativeSession \<Rightarrow> 'r GpuCuratedResidencyOutcome \<times> 'b GpuAuthoritativeSession" where
  "replace_curated_cohort backend_replace cohort s =
     (case session_ensure_available s of
        Inl e \<Rightarrow> (UnknownOutcome e True, session_fail_stop DeviceLost s)
      | Inr _ \<Rightarrow>
          (case backend_replace cohort (as_backend s) of
             (r, b) \<Rightarrow>
               let s' = s\<lparr>as_backend := b\<rparr>
               in (r, case r of UnknownOutcome _ _ \<Rightarrow> session_fail_stop DeviceLost s' | _ \<Rightarrow> s')))"

section \<open>Runs of a session\<close>

text \<open>
  The public operations as data. \<open>DirectBackend\<close> is the access that \<open>DerefMut\<close> gives: any change of
  the backend, past the ledger.
\<close>

datatype ('b, 'p, 'h, 'm, 't, 'c, 'r) SessionOp =
    NoteCheckpoint DurableGpuCheckpointRef
  | InstallPermit DurableGpuCheckpointMonotonicityPermit
  | FailStop GpuSessionFailStopCause
  | RecordFailure ScaffoldContractError
  | InsertBrain "u64 \<Rightarrow> 'p \<Rightarrow> ('b, 'h) backend_call" u64 'p
  | TrainingTick "'m \<Rightarrow> ('b, 't) backend_call" 'm
  | ReplaceCohort "'c \<Rightarrow> 'b \<Rightarrow> 'r GpuCuratedResidencyOutcome \<times> 'b" 'c
  | DirectBackend "'b \<Rightarrow> 'b"

definition reply_of :: "'r GpuCuratedResidencyOutcome \<Rightarrow> unit contract" where
  "reply_of r = (case r of Committed _ \<Rightarrow> Inr () | PreSubmitFailure e _ \<Rightarrow> Inl e | UnknownOutcome e _ \<Rightarrow> Inl e)"

fun session_step ::
  "('b, 'p, 'h, 'm, 't, 'c, 'r) SessionOp \<Rightarrow> 'b GpuAuthoritativeSession \<Rightarrow> ('b, unit) session_outcome" where
  "session_step (NoteCheckpoint c) s = session_note_checkpoint c s"
| "session_step (InstallPermit p) s = (Inr (), session_install_checkpoint p s)"
| "session_step (FailStop cause) s = (Inr (), session_fail_stop cause s)"
| "session_step (RecordFailure e) s = (Inr (), record_contract_failure e s)"
| "session_step (InsertBrain f i p) s = (case session_insert_brain f i p s of (r, s') \<Rightarrow> (and_then r (\<lambda>_. Inr ()), s'))"
| "session_step (TrainingTick f m) s = (case tick_memory_batch_training f m s of (r, s') \<Rightarrow> (and_then r (\<lambda>_. Inr ()), s'))"
| "session_step (ReplaceCohort f c) s = (case replace_curated_cohort f c s of (r, s') \<Rightarrow> (reply_of r, s'))"
| "session_step (DirectBackend f) s = (Inr (), s\<lparr>as_backend := f (as_backend s)\<rparr>)"

definition is_stopped :: "'b GpuAuthoritativeSession \<Rightarrow> bool" where
  "is_stopped s \<longleftrightarrow> ga_state (as_authority s) \<noteq> Ready"

lemmas session_defs = session_ensure_available_def authority_ensure_available_def
  session_fail_stop_def authority_fail_stop_def session_note_checkpoint_def
  note_durable_checkpoint_def prevalidate_durable_checkpoint_def session_install_checkpoint_def
  install_prevalidated_durable_checkpoint_def record_contract_failure_def run_backend_def
  session_insert_brain_def tick_memory_batch_training_def replace_curated_cohort_def Let_def

section \<open>Fail-stop\<close>

text \<open>The changes that direct access makes to the backend in a run.\<close>

fun direct_changes :: "('b, 'p, 'h, 'm, 't, 'c, 'r) SessionOp list \<Rightarrow> 'b \<Rightarrow> 'b" where
  "direct_changes [] b = b"
| "direct_changes (DirectBackend f # ops) b = direct_changes ops (f b)"
| "direct_changes (_ # ops) b = direct_changes ops b"

lemma direct_changes_Cons: "direct_changes (op # ops) b = direct_changes ops (direct_changes [op] b)"
  by (cases op) simp_all

lemma stopped_step:
  assumes "ga_state (as_authority s) = FailedStop cause"
  shows "ga_state (as_authority (snd (session_step op s))) = FailedStop cause
    \<and> as_backend (snd (session_step op s)) = direct_changes [op] (as_backend s)"
  using assms by (cases op) (auto simp: session_defs split: option.splits)

text \<open>
  C8. Fail-stop is final: once a session has stopped, no sequence of calls brings it back or replaces
  the recorded cause, and no call of the session reaches the backend any more; only direct access
  through the backend reference still can change it.
\<close>

theorem fail_stop_is_final:
  assumes "ga_state (as_authority s) = FailedStop cause"
  shows "ga_state (as_authority (run_ops session_step ops s)) = FailedStop cause
    \<and> as_backend (run_ops session_step ops s) = direct_changes ops (as_backend s)"
  using assms
proof (induction ops arbitrary: s)
  case Nil
  then show ?case by simp
next
  case (Cons op ops)
  have "ga_state (as_authority (snd (session_step op s))) = FailedStop cause"
    and b: "as_backend (snd (session_step op s)) = direct_changes [op] (as_backend s)"
    using stopped_step [OF Cons.prems, of op] by simp_all
  from Cons.IH [OF this(1)] show ?case
    by (simp only: run_ops_simps direct_changes_Cons [of op ops] b)
qed

text \<open>When a call stops a session: on its own request, or because the backend was lost in it.\<close>

fun loses_backend :: "('b, 'p, 'h, 'm, 't, 'c, 'r) SessionOp \<Rightarrow> 'b GpuAuthoritativeSession \<Rightarrow> bool" where
  "loses_backend (FailStop cause) s = True"
| "loses_backend (RecordFailure e) s = (e = NeuralBackendUnavailable)"
| "loses_backend (InsertBrain f i p) s = (fst (session_insert_brain f i p s) = Inl NeuralBackendUnavailable)"
| "loses_backend (TrainingTick f m) s = (fst (tick_memory_batch_training f m s) = Inl NeuralBackendUnavailable)"
| "loses_backend (ReplaceCohort f c) s =
     (case fst (replace_curated_cohort f c s) of UnknownOutcome _ _ \<Rightarrow> True | _ \<Rightarrow> False)"
| "loses_backend _ s = False"

lemma step_stops:
  "is_stopped (snd (session_step op s)) \<longleftrightarrow> is_stopped s \<or> loses_backend op s"
proof (cases op)
  case (InsertBrain f i p)
  obtain r b where "f i p (as_backend s) = (r, b)" by force
  with InsertBrain show ?thesis by (cases r) (auto simp: is_stopped_def session_defs split: GpuSessionAuthorityState.split)
next
  case (TrainingTick g m)
  obtain r b where "g m (as_backend s) = (r, b)" by force
  with TrainingTick show ?thesis by (cases r) (auto simp: is_stopped_def session_defs split: GpuSessionAuthorityState.split)
next
  case (ReplaceCohort h c)
  obtain r b where "h c (as_backend s) = (r, b)" by force
  with ReplaceCohort show ?thesis by (cases r) (auto simp: is_stopped_def session_defs split: GpuSessionAuthorityState.split)
qed (auto simp: is_stopped_def session_defs split: option.splits)

interpretation session_latch: ratchet_machine session_step "\<lambda>_. True" is_stopped
  by unfold_locales (simp_all add: step_stops)

text \<open>
  A session stops for a reason: after any run of calls it is stopped exactly when it was stopped
  at the start or some call of the run asked for the stop or returned that the backend is unavailable
  (for a cohort replacement, that its outcome is unknown). Ordinary errors of the backend never stop
  a session.
\<close>

lemma session_stops_exactly_on_loss:
  "is_stopped (run_ops session_step ops s) \<longleftrightarrow> is_stopped s
     \<or> (\<exists>i. i < length ops \<and> loses_backend (ops ! i) (run_ops session_step (take i ops) s))"
proof (induction ops rule: rev_induct)
  case Nil
  show ?case by simp
next
  case (snoc op ops)
  have "is_stopped (run_ops session_step (ops @ [op]) s) \<longleftrightarrow>
      is_stopped (run_ops session_step ops s) \<or> loses_backend op (run_ops session_step ops s)"
    by (simp add: run_ops_append step_stops)
  moreover have "(\<exists>i. i < length (ops @ [op]) \<and> loses_backend ((ops @ [op]) ! i)
        (run_ops session_step (take i (ops @ [op])) s)) \<longleftrightarrow> loses_backend op (run_ops session_step ops s)
      \<or> (\<exists>i. i < length ops \<and> loses_backend (ops ! i) (run_ops session_step (take i ops) s))"
    by (simp add: Ex_less_Suc nth_append cong: conj_cong)
  ultimately show ?case unfolding snoc.IH by blast
qed

section \<open>The durable cursor\<close>

definition cursor_tick :: "'b GpuAuthoritativeSession \<Rightarrow> Tick" where
  "cursor_tick s = (case ga_latest_durable_checkpoint (as_authority s) of
     None \<Rightarrow> 0 | Some c \<Rightarrow> dc_checkpoint_tick c)"

text \<open>The checkpoints that a run noted.\<close>

fun noted_checkpoints ::
  "('b, 'p, 'h, 'm, 't, 'c, 'r) SessionOp list \<Rightarrow> 'b GpuAuthoritativeSession
   \<Rightarrow> DurableGpuCheckpointRef list" where
  "noted_checkpoints [] s = []"
| "noted_checkpoints (op # ops) s =
     (case op of NoteCheckpoint c \<Rightarrow> if is_ok (fst (session_step op s)) then [c] else [] | _ \<Rightarrow> [])
     @ noted_checkpoints ops (snd (session_step op s))"

fun installs_permit :: "('b, 'p, 'h, 'm, 't, 'c, 'r) SessionOp \<Rightarrow> bool" where
  "installs_permit (InstallPermit p) = True"
| "installs_permit _ = False"

lemma noted_one: "noted_checkpoints [op] s =
    (case op of NoteCheckpoint c \<Rightarrow> if cursor_tick s \<le> dc_checkpoint_tick c then [c] else [] | _ \<Rightarrow> [])"
  by (cases op) (auto simp: session_defs cursor_tick_def split: option.split)

lemma step_cursor:
  assumes "\<not> installs_permit op"
  shows "ga_latest_durable_checkpoint (as_authority (snd (session_step op s))) =
     (case noted_checkpoints [op] s of [] \<Rightarrow> ga_latest_durable_checkpoint (as_authority s) | c # _ \<Rightarrow> Some c)"
proof (cases op)
  case (InsertBrain f i p)
  obtain r b where "f i p (as_backend s) = (r, b)" by force
  with InsertBrain show ?thesis by (cases r) (auto simp: session_defs split: GpuSessionAuthorityState.split)
next
  case (TrainingTick g m)
  obtain r b where "g m (as_backend s) = (r, b)" by force
  with TrainingTick show ?thesis by (cases r) (auto simp: session_defs split: GpuSessionAuthorityState.split)
next
  case (ReplaceCohort h c)
  obtain r b where "h c (as_backend s) = (r, b)" by force
  with ReplaceCohort show ?thesis by (cases r) (auto simp: session_defs split: GpuSessionAuthorityState.split)
qed (use assms in \<open>auto simp: session_defs cursor_tick_def split: option.splits\<close>)

lemma noted_cursor:
  assumes "\<forall>op \<in> set ops. \<not> installs_permit op"
  shows "sorted_wrt (\<le>) (map dc_checkpoint_tick (noted_checkpoints ops s))
    \<and> (\<forall>c \<in> set (noted_checkpoints ops s). cursor_tick s \<le> dc_checkpoint_tick c)
    \<and> ga_latest_durable_checkpoint (as_authority (run_ops session_step ops s)) =
       (if noted_checkpoints ops s = [] then ga_latest_durable_checkpoint (as_authority s)
        else Some (last (noted_checkpoints ops s)))"
  using assms
proof (induction ops arbitrary: s)
  case Nil
  then show ?case by simp
next
  case (Cons op ops)
  let ?s = "snd (session_step op s)"
  note IH = Cons.IH [of ?s]
  note op = step_cursor [of op s]
  have kept: "\<not> installs_permit op" "\<forall>op \<in> set ops. \<not> installs_permit op" using Cons.prems by simp_all
  have split: "noted_checkpoints (op # ops) s = noted_checkpoints [op] s @ noted_checkpoints ops ?s" by simp
  show ?case
  proof (cases "noted_checkpoints [op] s")
    case Nil
    then have "cursor_tick ?s = cursor_tick s" using op kept(1) by (simp add: cursor_tick_def)
    then show ?thesis using IH kept op Nil unfolding split by simp
  next
    case (Cons c cs)
    then have "cs = []" "cursor_tick s \<le> dc_checkpoint_tick c"
      by (auto simp only: noted_one split: SessionOp.splits if_splits)
    moreover have latest: "ga_latest_durable_checkpoint (as_authority ?s) = Some c" using op kept(1) Cons by simp
    then have "cursor_tick ?s = dc_checkpoint_tick c" by (simp add: cursor_tick_def)
    ultimately show ?thesis using IH kept(2) latest Cons unfolding split by (auto intro: order.trans)
  qed
qed

text \<open>
  The durable cursor: as long as no separately held permit is installed, a session's cursor is the
  last checkpoint it accepted, and the accepted checkpoints are ordered by their ticks.
\<close>

lemma durable_cursor_monotone:
  assumes "\<forall>op \<in> set ops. \<not> installs_permit op"
  shows "sorted_wrt (\<le>) (map dc_checkpoint_tick (noted_checkpoints ops s))
    \<and> ga_latest_durable_checkpoint (as_authority (run_ops session_step ops s)) =
       (if noted_checkpoints ops s = [] then ga_latest_durable_checkpoint (as_authority s)
        else Some (last (noted_checkpoints ops s)))
    \<and> cursor_tick s \<le> cursor_tick (run_ops session_step ops s)"
  using noted_cursor [OF assms, of s]
  by (auto simp: cursor_tick_def last_in_set split: option.splits)

text \<open>
  Installing does not check again: of two permits issued by the same ledger the later one can be
  installed first, and the cursor then goes back.
\<close>

lemma stale_permit_moves_cursor_back:
  assumes "prevalidate_durable_checkpoint c a = Inr p" and "prevalidate_durable_checkpoint c' a = Inr p'"
  shows "install_prevalidated_durable_checkpoint p (install_prevalidated_durable_checkpoint p' a)
    = install_prevalidated_durable_checkpoint p a"
  using assms by (simp add: install_prevalidated_durable_checkpoint_def)

end
