(* ===== verification/Session_Examples.thy ===== *)
theory Session_Examples
  imports Session
begin

text \<open>
  A session whose backend counts the calls that reach it, run into a lost device, and two durable
  checkpoints: the witnesses of the session properties.
\<close>

definition ex_insert :: "u64 \<Rightarrow> unit \<Rightarrow> (nat, nat) backend_call" where
  "ex_insert organism_id phenotype n =
     (if n < 2 then (Inr n, n + 1) else (Inl NeuralBackendUnavailable, n))"

definition ex_stopped :: "nat GpuAuthoritativeSession" where
  "ex_stopped = \<lparr> as_backend = 2, as_authority = \<lparr> ga_consumer = Gameplay,
     ga_state = FailedStop DeviceLost, ga_latest_durable_checkpoint = None \<rparr> \<rparr>"

definition ex_calls :: "(nat, unit, nat, unit, nat, unit, nat) SessionOp list" where
  "ex_calls = [InsertBrain ex_insert 7 (), DirectBackend (\<lambda>n. 0), InsertBrain ex_insert 7 (),
     FailStop BackendUnavailable]"

theorem fail_stop_is_final_witness:
  "ga_state (as_authority (run_ops session_step ex_calls ex_stopped)) = FailedStop DeviceLost
   \<and> as_backend (run_ops session_step ex_calls ex_stopped) = 0"
proof -
  have "ga_state (as_authority ex_stopped) = FailedStop DeviceLost" by (simp add: ex_stopped_def)
  from fail_stop_is_final [OF this, of ex_calls] show ?thesis by (simp add: ex_calls_def)
qed

definition ex_checkpoint :: "Tick \<Rightarrow> DurableGpuCheckpointRef" where
  "ex_checkpoint tick = \<lparr> dc_checkpoint_tick = tick, dc_manifest_digest = ascii ''fnv1a64:0123456789abcdef'',
     dc_neural_state_digest = (1, 2, 3, 4) \<rparr>"

lemma ex_checkpoint_made:
  "durable_checkpoint_try_new tick (ascii ''fnv1a64:0123456789abcdef'') (1, 2, 3, 4) = Inr (ex_checkpoint tick)"
  by (simp add: durable_checkpoint_try_new_def valid_manifest_digest_def strip_prefix_def ascii_def
      is_ascii_hexdigit_def ex_checkpoint_def)

definition ex_notes :: "(nat, unit, nat, unit, nat, unit, nat) SessionOp list" where
  "ex_notes = [NoteCheckpoint (ex_checkpoint 5), NoteCheckpoint (ex_checkpoint 9), NoteCheckpoint (ex_checkpoint 8)]"

lemma ex_noted:
  "noted_checkpoints ex_notes (session_new 0 Gameplay) = [ex_checkpoint 5, ex_checkpoint 9]"
  by (simp add: ex_notes_def session_new_def authority_new_def session_defs ex_checkpoint_def)

theorem durable_cursor_monotone_witness:
  "ga_latest_durable_checkpoint (as_authority (run_ops session_step ex_notes (session_new 0 Gameplay)))
     = Some (ex_checkpoint 9)"
proof -
  have "\<forall>op \<in> set ex_notes. \<not> installs_permit op" by (simp add: ex_notes_def)
  from durable_cursor_monotone [OF this, of "session_new 0 Gameplay"] show ?thesis by (simp add: ex_noted)
qed

end
