(* ===== verification/Collections.thy ===== *)
theory Collections
  imports Prelude "HOL-Library.Product_Lexorder" "HOL-Library.Multiset"
begin

text \<open>
  The ordered containers of the Rust standard library. \<open>BTreeMap\<close> is its sorted list of entries, with
  the contract of an ordered map as a locale that the components use through its interpretation;
  \<open>BTreeSet\<close> of ids is a HOL set. \<open>Iterator::min_by_key\<close> takes the first of the least elements.
\<close>

lemma sorted_entries_unique:
  fixes xs ys :: "('k::linorder \<times> 'v) list"
  assumes "sorted_wrt (<) (map fst xs)" and "sorted_wrt (<) (map fst ys)" and "set xs = set ys"
  shows "xs = ys"
proof (rule map_sorted_distinct_set_unique [of fst xs ys])
  show "inj_on fst (set xs \<union> set ys)"
    using assms by (simp add: strict_sorted_iff distinct_map)
qed (use assms in \<open>simp_all add: strict_sorted_iff\<close>)

section \<open>The contract of an ordered map\<close>

locale ordered_map =
  fixes empty :: "'m"
    and lookup :: "'m \<Rightarrow> 'k::linorder \<Rightarrow> 'v option"
    and update :: "'k \<Rightarrow> 'v \<Rightarrow> 'm \<Rightarrow> 'm"
    and delete :: "'k \<Rightarrow> 'm \<Rightarrow> 'm"
    and entries :: "'m \<Rightarrow> ('k \<times> 'v) list"
    and ordered :: "'m \<Rightarrow> bool"
  assumes ordered_empty: "ordered empty"
    and ordered_update: "ordered m \<Longrightarrow> ordered (update k v m)"
    and ordered_delete: "ordered m \<Longrightarrow> ordered (delete k m)"
    and lookup_empty: "lookup empty k = None"
    and lookup_update: "ordered m \<Longrightarrow> lookup (update k v m) = (lookup m)(k \<mapsto> v)"
    and lookup_delete: "ordered m \<Longrightarrow> lookup (delete k m) = (lookup m)(k := None)"
    and entries_sorted: "ordered m \<Longrightarrow> sorted_wrt (<) (map fst (entries m))"
    and entries_lookup: "ordered m \<Longrightarrow> lookup m = map_of (entries m)"
begin

lemma distinct_keys: "ordered m \<Longrightarrow> distinct (map fst (entries m))"
  using entries_sorted [of m] by (simp add: strict_sorted_iff)

lemma in_entries_iff: "ordered m \<Longrightarrow> (k, v) \<in> set (entries m) \<longleftrightarrow> lookup m k = Some v"
  by (simp add: entries_lookup distinct_keys)

lemma lookup_Some_iff: "ordered m \<Longrightarrow> lookup m k \<noteq> None \<longleftrightarrow> k \<in> fst ` set (entries m)"
  by (simp add: entries_lookup map_of_eq_None_iff)

lemma entries_update_set:
  assumes "ordered m"
  shows "set (entries (update k v m)) = insert (k, v) {e \<in> set (entries m). fst e \<noteq> k}"
  using in_entries_iff [OF assms] in_entries_iff [OF ordered_update [OF assms, of k v]]
    lookup_update [OF assms, of k v]
  by (auto split: if_splits)

lemma entries_delete_set:
  assumes "ordered m"
  shows "set (entries (delete k m)) = {e \<in> set (entries m). fst e \<noteq> k}"
  using in_entries_iff [OF assms] in_entries_iff [OF ordered_delete [OF assms, of k]]
    lookup_delete [OF assms, of k]
  by (auto split: if_splits)

lemma length_entries: "ordered m \<Longrightarrow> length (entries m) = card (fst ` set (entries m))"
  using distinct_keys [of m] by (metis distinct_card length_map set_map)

lemma length_update:
  assumes "ordered m"
  shows "length (entries (update k v m)) = length (entries m) + (if lookup m k = None then 1 else 0)"
proof -
  have "fst ` set (entries (update k v m)) = insert k (fst ` set (entries m))"
    unfolding entries_update_set [OF assms] by force
  then show ?thesis
    using lookup_Some_iff [OF assms, of k]
    by (cases "lookup m k") (simp_all add: length_entries assms ordered_update card_insert_if)
qed

lemma length_delete:
  assumes "ordered m"
  shows "length (entries (delete k m)) = length (entries m) - (if lookup m k = None then 0 else 1)"
proof -
  have "fst ` set (entries (delete k m)) = fst ` set (entries m) - {k}"
    unfolding entries_delete_set [OF assms] by force
  then show ?thesis
    using lookup_Some_iff [OF assms, of k]
    by (cases "lookup m k") (simp_all add: length_entries assms ordered_delete card_Diff_singleton_if)
qed

lemma entries_determined:
  assumes "ordered m" and "ordered m'" and "lookup m = lookup m'"
  shows "entries m = entries m'"
proof (rule sorted_entries_unique)
  show "set (entries m) = set (entries m')" using assms by (auto simp: in_entries_iff)
qed (use assms in \<open>simp_all add: entries_sorted\<close>)

lemma ordered_fold: "ordered m \<Longrightarrow> ordered (fold (\<lambda>(k, v). update k v) kvs m)"
  by (induction kvs arbitrary: m) (auto intro: ordered_update)

lemma lookup_fold:
  "ordered m \<Longrightarrow> distinct (map fst kvs) \<Longrightarrow>
     lookup (fold (\<lambda>(k, v). update k v) kvs m) = lookup m ++ map_of kvs"
  by (induction kvs arbitrary: m)
    (auto simp: ordered_update lookup_update map_add_upd_left dom_map_of_conv_image_fst)

lemma entries_of_list:
  assumes "distinct (map fst kvs)"
  shows "set (entries (fold (\<lambda>(k, v). update k v) kvs empty)) = set kvs"
proof -
  let ?m = "fold (\<lambda>(k, v). update k v) kvs empty"
  have o: "ordered ?m" by (rule ordered_fold [OF ordered_empty])
  have "map_of (entries ?m) = map_of kvs"
    using lookup_fold [OF ordered_empty assms] lookup_empty entries_lookup [OF o]
    by (simp add: map_add_def fun_eq_iff split: option.split)
  then show ?thesis using distinct_keys [OF o] assms by (metis map_of_inject_set)
qed

text \<open>Inserting the entries of a map into an empty one, in any order, gives the map back.\<close>

lemma entries_rebuild:
  assumes "ordered m" and "set kvs = set (entries m)" and "distinct (map fst kvs)"
  shows "entries (fold (\<lambda>(k, v). update k v) kvs empty) = entries m"
proof (rule sorted_entries_unique)
  show "sorted_wrt (<) (map fst (entries (fold (\<lambda>(k, v). update k v) kvs empty)))"
    by (rule entries_sorted [OF ordered_fold [OF ordered_empty]])
qed (use assms in \<open>simp_all add: entries_sorted entries_of_list\<close>)

end

section \<open>\<open>BTreeMap\<close>\<close>

type_synonym ('k, 'v) btree_map = "('k \<times> 'v) list"

abbreviation bt_get :: "('k, 'v) btree_map \<Rightarrow> 'k \<Rightarrow> 'v option" where
  "bt_get \<equiv> map_of"

fun bt_insert :: "'k::linorder \<Rightarrow> 'v \<Rightarrow> ('k, 'v) btree_map \<Rightarrow> ('k, 'v) btree_map" where
  "bt_insert k v [] = [(k, v)]"
| "bt_insert k v ((k', v') # m) =
     (if k < k' then (k, v) # (k', v') # m
      else if k = k' then (k, v) # m
      else (k', v') # bt_insert k v m)"

definition bt_remove :: "'k \<Rightarrow> ('k, 'v) btree_map \<Rightarrow> ('k, 'v) btree_map" where
  "bt_remove k m = filter (\<lambda>e. fst e \<noteq> k) m"

definition bt_ordered :: "('k::linorder, 'v) btree_map \<Rightarrow> bool" where
  "bt_ordered m \<longleftrightarrow> sorted_wrt (<) (map fst m)"

lemma bt_insert_keys: "fst ` set (bt_insert k v m) = insert k (fst ` set m)"
  by (induction k v m rule: bt_insert.induct) (simp_all add: insert_commute)

lemma bt_insert_ordered: "bt_ordered m \<Longrightarrow> bt_ordered (bt_insert k v m)"
  unfolding bt_ordered_def
proof (induction m)
  case (Cons e m)
  obtain k' v' where e: "e = (k', v')" by force
  have keys: "set (map fst (bt_insert k v m)) = insert k (set (map fst m))"
    using bt_insert_keys [of k v m] by simp
  show ?case
    using Cons unfolding e
    by (auto simp del: set_map simp: keys sorted_wrt.simps intro: less_trans)
qed simp

lemma bt_insert_again [simp]: "bt_insert k v (bt_insert k w m) = bt_insert k v m"
  by (induction m) auto

interpretation bt: ordered_map "[]" bt_get bt_insert bt_remove "\<lambda>m. m" bt_ordered
proof
  fix m :: "('k::linorder \<times> 'v) list" and k v
  assume m: "bt_ordered m"
  show "bt_ordered (bt_insert k v m)" using m by (rule bt_insert_ordered)
  show "bt_ordered (bt_remove k m)"
    using m unfolding bt_ordered_def bt_remove_def by (induction m) auto
  show "bt_get (bt_insert k v m) = (bt_get m)(k \<mapsto> v)"
    using m unfolding bt_ordered_def by (induction m) (auto simp: fun_eq_iff)
  show "bt_get (bt_remove k m) = (bt_get m)(k := None)"
    unfolding bt_remove_def by (induction m) (auto simp: fun_eq_iff)
  show "sorted_wrt (<) (map fst m)" using m by (simp add: bt_ordered_def)
qed (simp_all add: bt_ordered_def)

section \<open>\<open>min_by_key\<close>\<close>

fun min_by_key :: "('a \<Rightarrow> 'k::linorder) \<Rightarrow> 'a list \<Rightarrow> 'a option" where
  "min_by_key f [] = None"
| "min_by_key f (x # xs) =
     (case min_by_key f xs of None \<Rightarrow> Some x | Some y \<Rightarrow> if f x \<le> f y then Some x else Some y)"

lemma min_by_key_None [simp]: "min_by_key f xs = None \<longleftrightarrow> xs = []"
  by (cases xs) (auto split: option.split)

lemma min_by_key_Some:
  "min_by_key f xs = Some x \<Longrightarrow> x \<in> set xs \<and> (\<forall>y \<in> set xs. f x \<le> f y)"
proof (induction xs arbitrary: x)
  case (Cons a xs)
  show ?case
  proof (cases "min_by_key f xs")
    case None
    with Cons.prems show ?thesis by simp
  next
    case (Some y)
    note y = Cons.IH [OF Some]
    show ?thesis using Cons.prems Some y by (auto split: if_splits intro: order.trans)
  qed
qed simp

end
