(* ===== verification/Lobes.thy ===== *)
theory Lobes
  imports Activity Collections
begin

text \<open>
  \<open>crates/alife_core/src/lobe.rs\<close>: the nine lobes and their default policies, the migration of the
  retired v1 regions, and lobe layouts: the apportionment of a neuron count over the lobes, its
  regions and the validation of a layout. (The enums of lobes, projections and priorities are in
  \<open>Activity\<close>.) Plain \<open>+\<close> on \<open>u32\<close> wraps here; the sums of a valid layout do not.
\<close>

section \<open>Lobes and their policies\<close>

definition LOBE_ALL :: "LobeKind list" where
  "LOBE_ALL = [PerceptualIntegration, InteroceptiveMotivational, MultimodalAssociation,
     TemporalPredictive, WorkingContextExecutive, MemoryInterface, ActionPlanning,
     SocialCommunication, FlexibleReserve]"

fun lobe_raw :: "LobeKind \<Rightarrow> u16" where
  "lobe_raw PerceptualIntegration = 1"
| "lobe_raw InteroceptiveMotivational = 2"
| "lobe_raw MultimodalAssociation = 3"
| "lobe_raw TemporalPredictive = 4"
| "lobe_raw WorkingContextExecutive = 5"
| "lobe_raw MemoryInterface = 6"
| "lobe_raw ActionPlanning = 7"
| "lobe_raw SocialCommunication = 8"
| "lobe_raw FlexibleReserve = 9"

definition lobe_try_from_raw :: "u16 \<Rightarrow> LobeKind contract" where
  "lobe_try_from_raw raw =
     (if raw = 1 then Inr PerceptualIntegration else if raw = 2 then Inr InteroceptiveMotivational
      else if raw = 3 then Inr MultimodalAssociation else if raw = 4 then Inr TemporalPredictive
      else if raw = 5 then Inr WorkingContextExecutive else if raw = 6 then Inr MemoryInterface
      else if raw = 7 then Inr ActionPlanning else if raw = 8 then Inr SocialCommunication
      else if raw = 9 then Inr FlexibleReserve else Inl PhenotypeCompile)"

datatype UpdateCadence =
  Hot60Hz | Hot15To60Hz | Hot10To30Hz | Hot5To15Hz | Hot1To5Hz | SleepOrOffline | DisabledCadence

fun cadence_raw :: "UpdateCadence \<Rightarrow> u8" where
  "cadence_raw Hot60Hz = 0"
| "cadence_raw Hot15To60Hz = 1"
| "cadence_raw Hot10To30Hz = 2"
| "cadence_raw Hot5To15Hz = 3"
| "cadence_raw Hot1To5Hz = 4"
| "cadence_raw SleepOrOffline = 5"
| "cadence_raw DisabledCadence = 6"

definition cadence_try_from_raw :: "u8 \<Rightarrow> UpdateCadence contract" where
  "cadence_try_from_raw raw =
     (if raw = 0 then Inr Hot60Hz else if raw = 1 then Inr Hot15To60Hz else if raw = 2 then Inr Hot10To30Hz
      else if raw = 3 then Inr Hot5To15Hz else if raw = 4 then Inr Hot1To5Hz
      else if raw = 5 then Inr SleepOrOffline else if raw = 6 then Inr DisabledCadence
      else Inl PhenotypeCompile)"

datatype PlasticityPolicy =
    Fixed | ModulatedPlasticity | FastOjaHebbian | DecimatedOjaHebbian | SleepConsolidationOnly
  | DisabledPlasticity

datatype ActivationPolicy = InputCoupled | RecurrentActivation | OutputCoupled | DisabledActivation

datatype LobeEssentiality = EssentialLobe | NonEssentialLobe

datatype LobeThrottlePriority =
  CriticalThrottle | HighThrottle | MediumThrottle | LowThrottle | SleepOnlyThrottle

fun default_update_cadence :: "LobeKind \<Rightarrow> UpdateCadence" where
  "default_update_cadence PerceptualIntegration = Hot60Hz"
| "default_update_cadence ActionPlanning = Hot60Hz"
| "default_update_cadence InteroceptiveMotivational = Hot10To30Hz"
| "default_update_cadence MultimodalAssociation = Hot15To60Hz"
| "default_update_cadence TemporalPredictive = Hot15To60Hz"
| "default_update_cadence WorkingContextExecutive = Hot15To60Hz"
| "default_update_cadence SocialCommunication = Hot15To60Hz"
| "default_update_cadence MemoryInterface = Hot5To15Hz"
| "default_update_cadence FlexibleReserve = Hot5To15Hz"

fun default_plasticity_policy :: "LobeKind \<Rightarrow> PlasticityPolicy" where
  "default_plasticity_policy PerceptualIntegration = ModulatedPlasticity"
| "default_plasticity_policy InteroceptiveMotivational = ModulatedPlasticity"
| "default_plasticity_policy ActionPlanning = ModulatedPlasticity"
| "default_plasticity_policy SocialCommunication = ModulatedPlasticity"
| "default_plasticity_policy MultimodalAssociation = FastOjaHebbian"
| "default_plasticity_policy TemporalPredictive = FastOjaHebbian"
| "default_plasticity_policy WorkingContextExecutive = FastOjaHebbian"
| "default_plasticity_policy MemoryInterface = DecimatedOjaHebbian"
| "default_plasticity_policy FlexibleReserve = DecimatedOjaHebbian"

fun default_activation_policy :: "LobeKind \<Rightarrow> ActivationPolicy" where
  "default_activation_policy PerceptualIntegration = InputCoupled"
| "default_activation_policy InteroceptiveMotivational = InputCoupled"
| "default_activation_policy SocialCommunication = InputCoupled"
| "default_activation_policy MultimodalAssociation = RecurrentActivation"
| "default_activation_policy TemporalPredictive = RecurrentActivation"
| "default_activation_policy WorkingContextExecutive = RecurrentActivation"
| "default_activation_policy MemoryInterface = RecurrentActivation"
| "default_activation_policy FlexibleReserve = RecurrentActivation"
| "default_activation_policy ActionPlanning = OutputCoupled"

fun default_essentiality :: "LobeKind \<Rightarrow> LobeEssentiality" where
  "default_essentiality PerceptualIntegration = EssentialLobe"
| "default_essentiality InteroceptiveMotivational = EssentialLobe"
| "default_essentiality ActionPlanning = EssentialLobe"
| "default_essentiality _ = NonEssentialLobe"

fun default_throttle_priority :: "LobeKind \<Rightarrow> LobeThrottlePriority" where
  "default_throttle_priority PerceptualIntegration = CriticalThrottle"
| "default_throttle_priority InteroceptiveMotivational = CriticalThrottle"
| "default_throttle_priority ActionPlanning = CriticalThrottle"
| "default_throttle_priority MultimodalAssociation = HighThrottle"
| "default_throttle_priority TemporalPredictive = HighThrottle"
| "default_throttle_priority WorkingContextExecutive = HighThrottle"
| "default_throttle_priority SocialCommunication = MediumThrottle"
| "default_throttle_priority MemoryInterface = LowThrottle"
| "default_throttle_priority FlexibleReserve = SleepOnlyThrottle"

section \<open>Regions\<close>

record LobeRegion =
  lr_id :: u16
  lr_kind :: LobeKind
  lr_start :: u32
  lr_len :: u32
  lr_enabled :: bool
  lr_update_cadence :: UpdateCadence
  lr_plasticity_policy :: PlasticityPolicy
  lr_activation_policy :: ActivationPolicy
  lr_essentiality :: LobeEssentiality
  lr_throttle_priority :: LobeThrottlePriority

definition region_enabled :: "LobeKind \<Rightarrow> u32 \<Rightarrow> u32 \<Rightarrow> LobeRegion" where
  "region_enabled kind start len = \<lparr>
     lr_id = lobe_raw kind, lr_kind = kind, lr_start = start, lr_len = len, lr_enabled = True,
     lr_update_cadence = default_update_cadence kind,
     lr_plasticity_policy = default_plasticity_policy kind,
     lr_activation_policy = default_activation_policy kind,
     lr_essentiality = default_essentiality kind,
     lr_throttle_priority = default_throttle_priority kind \<rparr>"

definition region_disabled :: "LobeKind \<Rightarrow> u32 \<Rightarrow> LobeRegion" where
  "region_disabled kind start = \<lparr>
     lr_id = lobe_raw kind, lr_kind = kind, lr_start = start, lr_len = 0, lr_enabled = False,
     lr_update_cadence = DisabledCadence, lr_plasticity_policy = DisabledPlasticity,
     lr_activation_policy = DisabledActivation, lr_essentiality = NonEssentialLobe,
     lr_throttle_priority = SleepOnlyThrottle \<rparr>"

definition region_end :: "LobeRegion \<Rightarrow> u32" where
  "region_end r = lr_start r + lr_len r"

definition contains_neuron :: "LobeRegion \<Rightarrow> u32 \<Rightarrow> bool" where
  "contains_neuron r i \<longleftrightarrow> lr_enabled r \<and> lr_start r \<le> i \<and> i < region_end r"

type_synonym LobeLayout = "LobeRegion list"

definition enabled_regions :: "LobeLayout \<Rightarrow> LobeRegion list" where
  "enabled_regions layout = filter lr_enabled layout"

definition layout_region :: "LobeKind \<Rightarrow> LobeLayout \<Rightarrow> LobeRegion option" where
  "layout_region kind layout = find (\<lambda>r. lr_kind r = kind) layout"

definition lobe_by_neuron_index :: "u32 \<Rightarrow> LobeLayout \<Rightarrow> LobeRegion option" where
  "lobe_by_neuron_index i layout = find (\<lambda>r. contains_neuron r i) (enabled_regions layout)"

definition total_neurons :: "LobeLayout \<Rightarrow> u32" where
  "total_neurons layout = sum_list (map lr_len layout)"

definition regions_are_aligned :: "u32 \<Rightarrow> LobeLayout \<Rightarrow> bool" where
  "regions_are_aligned alignment layout \<longleftrightarrow> alignment \<noteq> 0
     \<and> list_all (\<lambda>r. lr_start r mod alignment = 0 \<and> lr_len r mod alignment = 0) layout"

fun checked_total :: "u32 \<Rightarrow> LobeLayout \<Rightarrow> u32 option" where
  "checked_total acc [] = Some acc"
| "checked_total acc (r # rs) = Option.bind (checked_add acc (lr_len r)) (\<lambda>t. checked_total t rs)"

text \<open>The loop over the enabled regions; it returns the cursor it ends at.\<close>

fun check_coverage :: "u32 \<Rightarrow> u32 \<Rightarrow> LobeRegion list \<Rightarrow> u32 contract" where
  "check_coverage neuron_count cursor [] = Inr cursor"
| "check_coverage neuron_count cursor (r # rs) =
     and_then (ok_or LobeRangeCoverage (checked_add (lr_start r) (lr_len r))) (\<lambda>end'.
       if lr_len r = 0 \<or> lr_start r \<noteq> cursor \<or> neuron_count < end' then Inl LobeRangeCoverage
       else check_coverage neuron_count end' rs)"

definition layout_validate :: "u32 \<Rightarrow> LobeLayout \<Rightarrow> unit contract" where
  "layout_validate neuron_count layout =
     (if checked_total 0 layout \<noteq> Some neuron_count then Inl LobeTotalMismatch
      else if \<not> regions_are_aligned 16 layout then Inl LobeAlignment
      else and_then (check_coverage neuron_count 0 (enabled_regions layout)) (\<lambda>cursor.
        if cursor \<noteq> neuron_count then Inl LobeRangeCoverage
        else if list_ex (\<lambda>kind. length (filter (\<lambda>r. lr_kind r = kind) layout) \<noteq> 1) LOBE_ALL
        then Inl LobeRangeCoverage else Inr ()))"

section \<open>Apportionment\<close>

definition FLOORS :: "u32 list" where "FLOORS = [64, 32, 64, 48, 48, 32, 48, 32, 32]"
definition SHARES :: "u32 list" where "SHARES = [16, 6, 23, 13, 10, 7, 10, 8, 7]"

text \<open>One turn of the loop over the lobes: the lengths, the blocks assigned and the remainders.\<close>

definition share_step ::
  "u32 \<Rightarrow> nat \<Rightarrow> u32 list \<times> u32 \<times> (u32 \<times> nat) list \<Rightarrow> u32 list \<times> u32 \<times> (u32 \<times> nat) list" where
  "share_step remainder_blocks index st =
     (case st of (lengths, assigned, remainders) \<Rightarrow>
        let weighted = (ucast remainder_blocks :: u64) * ucast (SHARES ! index);
            blocks = (ucast (weighted div 100) :: u32)
        in (lengths[index := lengths ! index + blocks * 16], assigned + blocks,
            remainders[index := (ucast (weighted mod 100), index)]))"

definition founder_floor_share_lengths :: "u32 \<Rightarrow> (u32 list) contract" where
  "founder_floor_share_lengths neuron_count =
     (if neuron_count < 512 then Inl BrainClassTooSmall
      else if neuron_count mod 16 \<noteq> 0 then Inl LobeAlignment
      else
        let remainder_blocks = (neuron_count - sum_list FLOORS) div 16;
            (lengths, assigned, remainders) =
              fold (share_step remainder_blocks) [0..<9] (FLOORS, 0, replicate 9 (0, 0));
            extra = take (unat (remainder_blocks - assigned)) (rev (sort remainders))
        in Inr (fold (\<lambda>(_, index) ls. ls[index := ls ! index + 16]) extra lengths))"

definition build_regions_from_lengths :: "u32 list \<Rightarrow> LobeLayout" where
  "build_regions_from_lengths lengths =
     fst (fold (\<lambda>(kind, len) (regions, start). (regions @ [region_enabled kind start len], start + len))
            (zip LOBE_ALL lengths) ([], 0))"

definition reference_layout :: "u32 \<Rightarrow> LobeLayout contract" where
  "reference_layout neuron_count =
     and_then (founder_floor_share_lengths neuron_count) (\<lambda>lengths.
       let layout = build_regions_from_lengths lengths
       in and_then (layout_validate neuron_count layout) (\<lambda>_. Inr layout))"

section \<open>The retired v1 regions\<close>

datatype LegacyLobeKindV1 =
    SensoryGrounding | MetabolicDrive | AuditorySpeech | GlyphVision | LexiconConcept
  | CoreAssociation | EpisodicMemory | WorkingMemory | MotorArbitration | HomeostaticRegulation
  | LanguageExpansion | MathQuantity | NarrativeHistory | SocialReasoning | SelfCriticUncertainty
  | PlanningDream | SpeechWritingMotor

definition LEGACY_ALL :: "LegacyLobeKindV1 list" where
  "LEGACY_ALL = [SensoryGrounding, MetabolicDrive, AuditorySpeech, GlyphVision, LexiconConcept,
     CoreAssociation, EpisodicMemory, WorkingMemory, MotorArbitration, HomeostaticRegulation,
     LanguageExpansion, MathQuantity, NarrativeHistory, SocialReasoning, SelfCriticUncertainty,
     PlanningDream, SpeechWritingMotor]"

text \<open>The match of \<open>try_from_raw\<close> numbers the constructors from 1.\<close>

definition legacy_try_from_raw :: "u16 \<Rightarrow> LegacyLobeKindV1 contract" where
  "legacy_try_from_raw raw =
     (if 1 \<le> raw \<and> raw \<le> 17 then Inr (LEGACY_ALL ! (unat raw - 1)) else Inl PhenotypeCompile)"

fun migrate_to_founder :: "LegacyLobeKindV1 \<Rightarrow> LobeKind" where
  "migrate_to_founder SensoryGrounding = PerceptualIntegration"
| "migrate_to_founder MetabolicDrive = InteroceptiveMotivational"
| "migrate_to_founder AuditorySpeech = SocialCommunication"
| "migrate_to_founder GlyphVision = SocialCommunication"
| "migrate_to_founder LexiconConcept = MultimodalAssociation"
| "migrate_to_founder MathQuantity = MultimodalAssociation"
| "migrate_to_founder CoreAssociation = TemporalPredictive"
| "migrate_to_founder NarrativeHistory = TemporalPredictive"
| "migrate_to_founder PlanningDream = TemporalPredictive"
| "migrate_to_founder EpisodicMemory = MemoryInterface"
| "migrate_to_founder WorkingMemory = WorkingContextExecutive"
| "migrate_to_founder SelfCriticUncertainty = WorkingContextExecutive"
| "migrate_to_founder MotorArbitration = ActionPlanning"
| "migrate_to_founder SpeechWritingMotor = ActionPlanning"
| "migrate_to_founder HomeostaticRegulation = FlexibleReserve"
| "migrate_to_founder LanguageExpansion = SocialCommunication"
| "migrate_to_founder SocialReasoning = SocialCommunication"

end
