(* ===== verification/Routing.thy ===== *)
theory Routing
  imports Lobes
begin

text \<open>
  \<open>crates/alife_core/src/routing.rs\<close> (projection types, the sparse routes between lobes, the canonical
  routing of a layout and the validation of a routing) and \<open>brain_class.rs\<close> (scale tiers, compute
  budgets, brain class specifications, how they are made and validated). A \<open>RoutingMatrix\<close> is its
  list of masks. The \<open>const\<close> pass-throughs (\<open>masks\<close>, \<open>iter\<close>, \<open>lobe_regions\<close>) have no definition.
\<close>

section \<open>Raw codes (routing.rs)\<close>

fun projection_raw :: "ProjectionType \<Rightarrow> u8" where
  "projection_raw FeedForward = 0"
| "projection_raw Feedback = 1"
| "projection_raw Recurrent = 2"
| "projection_raw Modulatory = 3"
| "projection_raw MotorProposal = 4"
| "projection_raw Homeostatic = 5"
| "projection_raw LateralInhibition = 6"

definition projection_try_from_raw :: "u8 \<Rightarrow> ProjectionType contract" where
  "projection_try_from_raw raw =
     (if raw = 0 then Inr FeedForward else if raw = 1 then Inr Feedback else if raw = 2 then Inr Recurrent
      else if raw = 3 then Inr Modulatory else if raw = 4 then Inr MotorProposal
      else if raw = 5 then Inr Homeostatic else if raw = 6 then Inr LateralInhibition
      else Inl PhenotypeCompile)"

datatype ActiveTilePolicy = EssentialReservation | SalienceGated | Decimated | SleepQueued

fun tile_policy_raw :: "ActiveTilePolicy \<Rightarrow> u8" where
  "tile_policy_raw EssentialReservation = 0"
| "tile_policy_raw SalienceGated = 1"
| "tile_policy_raw Decimated = 2"
| "tile_policy_raw SleepQueued = 3"

definition tile_policy_try_from_raw :: "u8 \<Rightarrow> ActiveTilePolicy contract" where
  "tile_policy_try_from_raw raw =
     (if raw = 0 then Inr EssentialReservation else if raw = 1 then Inr SalienceGated
      else if raw = 2 then Inr Decimated else if raw = 3 then Inr SleepQueued
      else Inl PhenotypeCompile)"

fun priority_raw :: "BiologicalPriority \<Rightarrow> u8" where
  "priority_raw Essential = 0"
| "priority_raw High = 1"
| "priority_raw Normal = 2"
| "priority_raw NonEssential = 3"

definition priority_try_from_raw :: "u8 \<Rightarrow> BiologicalPriority contract" where
  "priority_try_from_raw raw =
     (if raw = 0 then Inr Essential else if raw = 1 then Inr High else if raw = 2 then Inr Normal
      else if raw = 3 then Inr NonEssential else Inl PhenotypeCompile)"

section \<open>Routes (routing.rs)\<close>

record RoutingMask =
  rm_source_lobe :: LobeKind
  rm_target_lobe :: LobeKind
  rm_projection_type :: ProjectionType
  rm_active_tile_policy :: ActiveTilePolicy
  rm_update_cadence :: UpdateCadence
  rm_priority :: BiologicalPriority

type_synonym RoutingMatrix = "RoutingMask list"

definition routing_mask ::
  "LobeKind \<Rightarrow> LobeKind \<Rightarrow> ProjectionType \<Rightarrow> ActiveTilePolicy \<Rightarrow> UpdateCadence \<Rightarrow> BiologicalPriority
   \<Rightarrow> RoutingMask" where
  "routing_mask source target projection policy cadence priority = \<lparr>
     rm_source_lobe = source, rm_target_lobe = target, rm_projection_type = projection,
     rm_active_tile_policy = policy, rm_update_cadence = cadence, rm_priority = priority \<rparr>"

definition CANONICAL_ROUTING_MASKS :: "RoutingMask list" where
  "CANONICAL_ROUTING_MASKS = [
     routing_mask PerceptualIntegration TemporalPredictive FeedForward EssentialReservation Hot60Hz Essential,
     routing_mask InteroceptiveMotivational FlexibleReserve Homeostatic EssentialReservation Hot10To30Hz Essential,
     routing_mask InteroceptiveMotivational TemporalPredictive Modulatory EssentialReservation Hot10To30Hz Essential,
     routing_mask SocialCommunication MultimodalAssociation FeedForward SalienceGated Hot10To30Hz High,
     routing_mask MultimodalAssociation TemporalPredictive Modulatory SalienceGated Hot5To15Hz Normal,
     routing_mask TemporalPredictive MemoryInterface FeedForward SalienceGated Hot5To15Hz NonEssential,
     routing_mask MemoryInterface TemporalPredictive Feedback SalienceGated Hot5To15Hz NonEssential,
     routing_mask TemporalPredictive WorkingContextExecutive Recurrent Decimated Hot15To60Hz High,
     routing_mask WorkingContextExecutive ActionPlanning MotorProposal EssentialReservation Hot60Hz Essential,
     routing_mask TemporalPredictive ActionPlanning MotorProposal EssentialReservation Hot60Hz Essential,
     routing_mask ActionPlanning ActionPlanning LateralInhibition EssentialReservation Hot60Hz Essential,
     routing_mask ActionPlanning FlexibleReserve Feedback EssentialReservation Hot10To30Hz Essential,
     routing_mask FlexibleReserve InteroceptiveMotivational Homeostatic EssentialReservation Hot10To30Hz Essential,
     routing_mask FlexibleReserve TemporalPredictive Modulatory EssentialReservation Hot10To30Hz Essential]"

definition lobe_enabled :: "LobeLayout \<Rightarrow> LobeKind \<Rightarrow> bool" where
  "lobe_enabled layout kind = (case layout_region kind layout of None \<Rightarrow> False | Some r \<Rightarrow> lr_enabled r)"

definition canonical_for_layout :: "LobeLayout \<Rightarrow> RoutingMatrix" where
  "canonical_for_layout layout =
     filter (\<lambda>m. lobe_enabled layout (rm_source_lobe m) \<and> lobe_enabled layout (rm_target_lobe m))
       CANONICAL_ROUTING_MASKS"

definition routing_push :: "RoutingMask \<Rightarrow> RoutingMatrix \<Rightarrow> RoutingMatrix" where
  "routing_push m routes = routes @ [m]"

definition routing_route :: "LobeKind \<Rightarrow> LobeKind \<Rightarrow> RoutingMatrix \<Rightarrow> RoutingMask option" where
  "routing_route source target routes =
     find (\<lambda>m. rm_source_lobe m = source \<and> rm_target_lobe m = target) routes"

fun validate_for_layout :: "LobeLayout \<Rightarrow> RoutingMatrix \<Rightarrow> unit contract" where
  "validate_for_layout layout [] = Inr ()"
| "validate_for_layout layout (m # rest) =
     (if \<not> lobe_enabled layout (rm_source_lobe m) \<or> \<not> lobe_enabled layout (rm_target_lobe m)
      then Inl RoutingReferencesDisabledLobe
      else if list_ex (\<lambda>other. rm_source_lobe other = rm_source_lobe m
          \<and> rm_target_lobe other = rm_target_lobe m
          \<and> rm_projection_type other = rm_projection_type m) rest
      then Inl RoutingDuplicateMask else validate_for_layout layout rest)"

section \<open>Tiers and budgets (brain_class.rs)\<close>

datatype BrainScaleTier =
    Nano512 | Small1024 | Standard2048 | Large4096 | Cognitive32768 | Student131k | Ascended1M
  | Ascended5M | ResearchCustom

fun tier_neuron_count :: "BrainScaleTier \<Rightarrow> u32 option" where
  "tier_neuron_count Nano512 = Some 512"
| "tier_neuron_count Small1024 = Some 1024"
| "tier_neuron_count Standard2048 = Some 2048"
| "tier_neuron_count Large4096 = Some 4096"
| "tier_neuron_count Cognitive32768 = Some 32768"
| "tier_neuron_count Student131k = Some 131072"
| "tier_neuron_count Ascended1M = Some 1048576"
| "tier_neuron_count Ascended5M = Some 5242880"
| "tier_neuron_count ResearchCustom = None"

fun default_class_id :: "BrainScaleTier \<Rightarrow> u16" where
  "default_class_id Nano512 = 1"
| "default_class_id Small1024 = 2"
| "default_class_id Standard2048 = 3"
| "default_class_id Large4096 = 4"
| "default_class_id Cognitive32768 = 5"
| "default_class_id Student131k = 6"
| "default_class_id Ascended1M = 7"
| "default_class_id Ascended5M = 8"
| "default_class_id ResearchCustom = 65535"

definition is_near_term_gpu_class :: "BrainScaleTier \<Rightarrow> bool" where
  "is_near_term_gpu_class tier \<longleftrightarrow>
     tier \<in> {Nano512, Small1024, Standard2048, Large4096, Cognitive32768}"

record BrainComputeBudget =
  bcb_max_active_synapses :: u32
  bcb_max_active_tiles :: u32
  bcb_essential_lobes :: "LobeKind list"
  bcb_max_replay_events :: u32

definition replay_events_for_neuron_count :: "u32 \<Rightarrow> u32" where
  "replay_events_for_neuron_count n =
     (if n = 512 then 32 else if n = 1024 then 64 else if n = 2048 then 128 else if n = 4096 then 256
      else min 16384 (max 256 (n div 16)))"

definition budget_for_custom :: "u32 \<Rightarrow> BrainComputeBudget" where
  "budget_for_custom n = \<lparr>
     bcb_max_active_synapses = saturating_mul n 16, bcb_max_active_tiles = max (n div 16) 1,
     bcb_essential_lobes =
       [InteroceptiveMotivational, PerceptualIntegration, ActionPlanning, FlexibleReserve],
     bcb_max_replay_events = replay_events_for_neuron_count n \<rparr>"

fun tier_limits :: "BrainScaleTier \<Rightarrow> u32 \<Rightarrow> u32 \<times> u32 \<times> LobeKind list" where
  "tier_limits Nano512 n =
     (8192, 64, [InteroceptiveMotivational, PerceptualIntegration, ActionPlanning])"
| "tier_limits Small1024 n =
     (16384, 128, [InteroceptiveMotivational, PerceptualIntegration, ActionPlanning, TemporalPredictive])"
| "tier_limits Standard2048 n =
     (32768, 192, [InteroceptiveMotivational, PerceptualIntegration, ActionPlanning, TemporalPredictive,
        MemoryInterface])"
| "tier_limits Large4096 n =
     (65536, 384, [InteroceptiveMotivational, PerceptualIntegration, ActionPlanning, TemporalPredictive,
        MemoryInterface, WorkingContextExecutive])"
| "tier_limits _ n =
     (saturating_mul n 16, max (saturating_mul (n div 32) 3) 384,
      [InteroceptiveMotivational, PerceptualIntegration, ActionPlanning, TemporalPredictive,
        MemoryInterface, WorkingContextExecutive])"

definition budget_for_tier :: "BrainScaleTier \<Rightarrow> u32 \<Rightarrow> BrainComputeBudget" where
  "budget_for_tier tier n =
     (if tier = ResearchCustom then budget_for_custom n
      else case tier_limits tier n of (synapses, tiles, lobes) \<Rightarrow> \<lparr>
        bcb_max_active_synapses = synapses, bcb_max_active_tiles = tiles, bcb_essential_lobes = lobes,
        bcb_max_replay_events = replay_events_for_neuron_count n \<rparr>)"

section \<open>Brain classes (brain_class.rs)\<close>

text \<open>\<open>u32::checked_next_power_of_two\<close>: the least power of two that is not below the argument.\<close>

definition checked_next_power_of_two :: "u32 \<Rightarrow> u32 option" where
  "checked_next_power_of_two x = find (\<lambda>p. x \<le> p) (map (\<lambda>k. 2 ^ k) [0..<32])"

definition div_ceil :: "u32 \<Rightarrow> u32 \<Rightarrow> u32" where
  "div_ceil a b = (if a mod b = 0 then a div b else a div b + 1)"

definition padded_motor_stride :: "u32 \<Rightarrow> u32" where
  "padded_motor_stride logical =
     max (case checked_next_power_of_two logical of Some p \<Rightarrow> p | None \<Rightarrow> div_ceil logical 16 * 16) 16"

record BrainClassSpec =
  bcs_id :: u16
  bcs_tier :: BrainScaleTier
  bcs_neuron_count :: u32
  bcs_microtile_edge :: u32
  bcs_supertile_edge :: u32
  bcs_compute_budget :: BrainComputeBudget
  bcs_max_active_microtiles :: u32
  bcs_max_active_synapses :: u32
  bcs_active_loop_resizing_allowed :: bool
  bcs_motor_logical_nodes :: u32
  bcs_motor_physical_stride :: u32
  bcs_routing_schema_version :: u16
  bcs_lobe_layout :: LobeLayout
  bcs_routing_matrix :: RoutingMatrix

definition spec_validate :: "BrainClassSpec \<Rightarrow> unit contract" where
  "spec_validate s =
     and_then (brain_class_id_validate (bcs_id s)) (\<lambda>_.
       if bcs_neuron_count s < 512 then Inl BrainClassTooSmall
       else if is_near_term_gpu_class (bcs_tier s) \<and> bcs_neuron_count s mod 128 \<noteq> 0
       then Inl BrainClassAlignment
       else if bcs_microtile_edge s \<noteq> 16 \<or> bcs_supertile_edge s \<noteq> 128 then Inl BrainClassAlignment
       else if bcs_max_active_synapses s \<noteq> bcb_max_active_synapses (bcs_compute_budget s)
         \<or> bcs_max_active_microtiles s \<noteq> bcb_max_active_tiles (bcs_compute_budget s)
       then Inl BrainClassAlignment
       else and_then (layout_validate (bcs_neuron_count s) (bcs_lobe_layout s)) (\<lambda>_.
         and_then (validate_for_layout (bcs_lobe_layout s) (bcs_routing_matrix s)) (\<lambda>_.
         and_then (ok_or LobeRangeCoverage (layout_region ActionPlanning (bcs_lobe_layout s))) (\<lambda>motor.
           if \<not> lr_enabled motor \<or> bcs_motor_logical_nodes s \<noteq> lr_len motor
             \<or> bcs_motor_logical_nodes s = 0 \<or> bcs_motor_logical_nodes s mod 16 \<noteq> 0
             \<or> bcs_motor_physical_stride s < bcs_motor_logical_nodes s
             \<or> bcs_motor_physical_stride s mod 16 \<noteq> 0
           then Inl LobeAlignment
           else and_then (require_current_version NeuralProjection (bcs_routing_schema_version s))
             (\<lambda>_. Inr ())))))"

definition spec_from_parts ::
  "u16 \<Rightarrow> BrainScaleTier \<Rightarrow> u32 \<Rightarrow> BrainComputeBudget \<Rightarrow> LobeLayout \<Rightarrow> BrainClassSpec contract" where
  "spec_from_parts id' tier n budget layout =
     and_then (ok_or LobeRangeCoverage (layout_region ActionPlanning layout)) (\<lambda>motor.
       let motor_logical_nodes = lr_len motor;
           routing_matrix = canonical_for_layout layout;
           spec = \<lparr> bcs_id = id', bcs_tier = tier, bcs_neuron_count = n, bcs_microtile_edge = 16,
             bcs_supertile_edge = 128, bcs_compute_budget = budget,
             bcs_max_active_microtiles = bcb_max_active_tiles budget,
             bcs_max_active_synapses = bcb_max_active_synapses budget,
             bcs_active_loop_resizing_allowed = False,
             bcs_motor_logical_nodes = motor_logical_nodes,
             bcs_motor_physical_stride = padded_motor_stride motor_logical_nodes,
             bcs_routing_schema_version = sv_neural_projection schema_versions_CURRENT,
             bcs_lobe_layout = layout, bcs_routing_matrix = routing_matrix \<rparr>
       in and_then (spec_validate spec) (\<lambda>_. Inr spec))"

text \<open>\<open>for_tier\<close> is \<open>try_for_tier\<close> with a panic on its error.\<close>

definition try_for_tier :: "BrainScaleTier \<Rightarrow> BrainClassSpec contract" where
  "try_for_tier tier =
     and_then (ok_or MissingCanonicalNeuronCount (tier_neuron_count tier)) (\<lambda>n.
     and_then (reference_layout n) (\<lambda>layout.
       spec_from_parts (default_class_id tier) tier n (budget_for_tier tier n) layout))"

definition research_custom :: "u16 \<Rightarrow> u32 \<Rightarrow> BrainClassSpec contract" where
  "research_custom id' n =
     and_then (reference_layout n) (\<lambda>layout.
     and_then (spec_from_parts id' ResearchCustom n (budget_for_custom n) layout) (\<lambda>spec.
     and_then (spec_validate spec) (\<lambda>_. Inr spec)))"

definition spec_lobe_by_neuron_index :: "u32 \<Rightarrow> BrainClassSpec \<Rightarrow> LobeRegion option" where
  "spec_lobe_by_neuron_index i s = lobe_by_neuron_index i (bcs_lobe_layout s)"

end
