(* ===== verification/Lobe_Proofs.thy ===== *)
theory Lobe_Proofs
  imports Lobes
begin

text \<open>
  The apportionment of neurons over the lobes (exact total, floors, fair shares) and what a valid
  layout promises: its lobes partition the neurons.
\<close>

section \<open>Apportionment\<close>

text \<open>The blocks of lobe \<open>i\<close> before the largest remainders are served, and its remainder.\<close>

definition base_blocks :: "nat \<Rightarrow> nat \<Rightarrow> nat" where
  "base_blocks R i = R * unat (SHARES ! i) div 100"

definition share_remainder :: "nat \<Rightarrow> nat \<Rightarrow> nat" where
  "share_remainder R i = R * unat (SHARES ! i) mod 100"

lemma nine: "[0..<9] = [0, 1, 2, 3, 4, 5, 6, 7, 8 :: nat]"
  by (simp add: upt_rec)

lemma less_nine: "i < 9 \<Longrightarrow> i \<in> {0, 1, 2, 3, 4, 5, 6, 7, 8 :: nat}"
  by (auto simp: less_Suc_eq eval_nat_numeral)

lemma shares_small: "i < 9 \<Longrightarrow> unat (SHARES ! i) \<le> 23"
  using less_nine [of i] by (auto simp: SHARES_def)

lemma sum_nine: "(\<Sum>i<9. f i) = sum_list (map f [0..<9])"
  by (simp add: interv_sum_list_conv_sum_set_nat lessThan_atLeast0)

lemma shares_sum: "(\<Sum>i<9. unat (SHARES ! i)) = 100"
  by (simp only: sum_nine nine) (simp add: SHARES_def)

lemma base_remainder: "R * unat (SHARES ! i) = 100 * base_blocks R i + share_remainder R i"
  by (simp add: base_blocks_def share_remainder_def)

lemma remainders_sum: "(\<Sum>i<9. share_remainder R i) = 100 * (R - (\<Sum>i<9. base_blocks R i))
    \<and> (\<Sum>i<9. base_blocks R i) \<le> R"
proof -
  have "R * 100 = (\<Sum>i<9. R * unat (SHARES ! i))" by (simp add: shares_sum flip: sum_distrib_left)
  also have "\<dots> = 100 * (\<Sum>i<9. base_blocks R i) + (\<Sum>i<9. share_remainder R i)"
    by (simp add: base_remainder sum.distrib sum_distrib_left)
  finally show ?thesis by simp
qed

lemma extra_blocks_le: "R - (\<Sum>i<9. base_blocks R i) \<le> 8"
proof -
  have "(\<Sum>i<9. share_remainder R i) \<le> (\<Sum>i<(9::nat). 99)"
    by (rule sum_mono) (use mod_less_divisor [of 100] in \<open>simp add: share_remainder_def less_Suc_eq_le [symmetric]\<close>)
  then show ?thesis using remainders_sum [of R] by simp
qed

definition share_blocks :: "u32 \<Rightarrow> nat \<Rightarrow> u32" where
  "share_blocks rb i = ucast (((ucast rb :: u64) * ucast (SHARES ! i)) div 100)"

definition share_rest :: "u32 \<Rightarrow> nat \<Rightarrow> u32" where
  "share_rest rb i = ucast (((ucast rb :: u64) * ucast (SHARES ! i)) mod 100)"

lemma share_words:
  assumes "unat rb < 2 ^ 28" and "i < 9"
  shows "unat (share_blocks rb i) = base_blocks (unat rb) i" and "unat (share_rest rb i) = share_remainder (unat rb) i"
proof -
  have small: "unat rb * unat (SHARES ! i) \<le> 2 ^ 28 * 23"
    using assms(1) shares_small [OF assms(2)] by (intro mult_le_mono) simp_all
  have w: "unat ((ucast rb :: u64) * ucast (SHARES ! i)) = unat rb * unat (SHARES ! i)"
    using small by (simp add: unat_word_ariths unat_widen)
  have "unat rb * unat (SHARES ! i) div 100 < 2 ^ 32" using small by simp
  then show "unat (share_blocks rb i) = base_blocks (unat rb) i"
    using w by (simp add: share_blocks_def base_blocks_def unsigned_ucast_eq take_bit_nat_eq_self_iff unat_div)
  have "unat rb * unat (SHARES ! i) mod 100 < 2 ^ 32" by (rule order.strict_trans [OF mod_less_divisor]) simp_all
  then show "unat (share_rest rb i) = share_remainder (unat rb) i"
    using w by (simp add: share_rest_def share_remainder_def unsigned_ucast_eq take_bit_nat_eq_self_iff unat_mod)
qed

lemma share_loop: "fold (share_step rb) [0..<9] (FLOORS, 0, replicate 9 (0, 0))
    = (map (\<lambda>i. FLOORS ! i + share_blocks rb i * 16) [0..<9], sum_list (map (share_blocks rb) [0..<9]),
       map (\<lambda>i. (share_rest rb i, i)) [0..<9])"
  unfolding nine
  by (simp add: share_step_def FLOORS_def share_blocks_def share_rest_def Let_def eval_nat_numeral add.assoc)

text \<open>The second loop gives one block to each index it meets, once.\<close>

lemma serve_extra:
  fixes ls :: "u32 list"
  assumes "distinct ks" and "set ks \<subseteq> {..<length ls}"
  shows "fold (\<lambda>(_, i) ls. ls[i := ls ! i + 16]) (map (\<lambda>i. (r i, i)) ks) ls
    = map (\<lambda>i. ls ! i + (if i \<in> set ks then 16 else 0)) [0..<length ls]"
  using assms
proof (induction ks arbitrary: ls)
  case Nil
  then show ?case by (simp add: map_nth)
next
  case (Cons i ks)
  then show ?case by (auto simp: nth_list_update intro!: nth_equalityI)
qed

lemma unat_sum_list:
  "sum_list (map unat ws) < 2 ^ LENGTH('a) \<Longrightarrow> unat (sum_list ws) = sum_list (map unat ws)"
  for ws :: "'a::len word list"
  by (induction ws) (simp_all add: unat_plus_no_overflow)

lemma take_sorted_pairs:
  fixes f :: "nat \<Rightarrow> u32" and k m :: nat
  defines "es \<equiv> take k (rev (sort (map (\<lambda>i. (f i, i)) [0..<m])))"
  assumes "k \<le> m"
  obtains ks where "es = map (\<lambda>i. (f i, i)) ks" and "distinct ks" and "set ks \<subseteq> {..<m}" and "length ks = k"
proof -
  let ?all = "rev (sort (map (\<lambda>i. (f i, i)) [0..<m]))"
  have mem: "e = (f (snd e), snd e) \<and> snd e < m" if "e \<in> set es" for e
    using that in_set_takeD [of e k ?all] by (auto simp: es_def)
  have "mset (map snd ?all) = mset (map snd (map (\<lambda>i. (f i, i)) [0..<m]))"
    by (simp only: mset_map mset_rev mset_sort)
  then have "mset (map snd ?all) = mset [0..<m]" by (simp add: comp_def)
  from mset_eq_imp_distinct_iff [OF this] have "distinct (map snd ?all)" by simp
  then have "distinct (map snd es)" by (simp add: es_def take_map [symmetric])
  moreover have "es = map (\<lambda>i. (f i, i)) (map snd es)"
    using mem by (intro nth_equalityI) (simp_all add: nth_mem)
  moreover have "set (map snd es) \<subseteq> {..<m}" using mem by auto
  moreover have "length (map snd es) = k" using assms(2) by (simp add: es_def)
  ultimately show thesis by (intro that [of "map snd es"])
qed

lemma floors_small: "i < 9 \<Longrightarrow> unat (FLOORS ! i) \<le> 64 \<and> 16 dvd unat (FLOORS ! i)"
  using less_nine [of i] by (auto simp: FLOORS_def)

lemma floors_sum: "(\<Sum>i<9. unat (FLOORS ! i)) = 400" "sum_list FLOORS = 400"
  by (simp only: sum_nine nine) (simp_all add: FLOORS_def)

lemma apportioned:
  assumes n: "512 \<le> unat n" "16 dvd unat n"
  obtains ks ls where "founder_floor_share_lengths n = Inr ls" and "length ls = 9" and "ks \<subseteq> {..<9}"
    and "card ks = (unat n - 400) div 16 - (\<Sum>i<9. base_blocks ((unat n - 400) div 16) i)"
    and "\<forall>i<9. unat (ls ! i) = unat (FLOORS ! i)
      + 16 * (base_blocks ((unat n - 400) div 16) i + (if i \<in> ks then 1 else 0))"
proof -
  define R where "R = (unat n - 400) div 16"
  define rb where "rb = (n - sum_list FLOORS) div 16"
  have "(400 :: u32) \<le> n" using n by (simp add: word_le_nat_alt)
  then have rb: "unat rb = R" by (simp add: rb_def R_def floors_sum unat_div unat_minus_le)
  have R28: "R < 2 ^ 28" using unsigned_less [of n, where 'a = nat] by (simp add: R_def less_mult_imp_div_less)
  have blocks: "unat (share_blocks rb i) = base_blocks R i" if "i < 9" for i
    using share_words(1) [of rb i] R28 that by (simp add: rb)
  have total: "sum_list (map unat (map (share_blocks rb) [0..<9])) = (\<Sum>i<9. base_blocks R i)"
  proof -
    have "map unat (map (share_blocks rb) [0..<9]) = map (base_blocks R) [0..<9]"
      unfolding map_map by (rule map_cong) (simp_all add: blocks)
    then show ?thesis by (simp only: sum_nine)
  qed
  have le: "(\<Sum>i<9. base_blocks R i) \<le> R" using remainders_sum by blast
  then have assigned: "unat (sum_list (map (share_blocks rb) [0..<9])) = (\<Sum>i<9. base_blocks R i)"
    using R28 by (subst unat_sum_list) (simp_all only: total, simp)
  then have "sum_list (map (share_blocks rb) [0..<9]) \<le> rb" using le rb by (simp add: word_le_nat_alt)
  then have extra: "unat (rb - sum_list (map (share_blocks rb) [0..<9])) = R - (\<Sum>i<9. base_blocks R i)"
    using assigned rb by (simp add: unat_minus_le)
  have "R - (\<Sum>i<9. base_blocks R i) \<le> 9" using extra_blocks_le [of R] by simp
  then obtain ks where ks: "take (R - (\<Sum>i<9. base_blocks R i)) (rev (sort (map (\<lambda>i. (share_rest rb i, i)) [0..<9])))
      = map (\<lambda>i. (share_rest rb i, i)) ks" "distinct ks" "set ks \<subseteq> {..<9}"
      "length ks = R - (\<Sum>i<9. base_blocks R i)"
    by (rule take_sorted_pairs)
  let ?ls = "map (\<lambda>i. FLOORS ! i + share_blocks rb i * 16) [0..<9]"
  let ?out = "map (\<lambda>i. ?ls ! i + (if i \<in> set ks then 16 else 0)) [0..<9]"
  have "founder_floor_share_lengths n = Inr ?out"
  proof -
    have "\<not> n < 512" "n mod 16 = 0" using n by (simp_all add: word_less_nat_alt unat_eq_zero [symmetric] unat_mod del: unat_eq_zero)
    moreover have "fold (\<lambda>(_, i) ls. ls[i := ls ! i + 16]) (map (\<lambda>i. (share_rest rb i, i)) ks) ?ls = ?out"
      using ks(2,3) by (subst serve_extra) simp_all
    ultimately show ?thesis
      by (simp add: founder_floor_share_lengths_def Let_def share_loop rb_def [symmetric] extra ks(1) del: upt_rec_numeral)
  qed
  moreover have "unat (?out ! i) = unat (FLOORS ! i) + 16 * (base_blocks R i + (if i \<in> set ks then 1 else 0))"
    if "i < 9" for i
  proof -
    have "R * unat (SHARES ! i) \<le> 2 ^ 28 * 23"
      using R28 shares_small [OF that] by (intro mult_le_mono) simp_all
    then have "base_blocks R i \<le> 2 ^ 28 * 23 div 100" unfolding base_blocks_def by (rule div_le_mono)
    then show ?thesis
      using that blocks [OF that] floors_small [OF that] by (simp add: unat_word_ariths nth_map del: upt_rec_numeral)
  qed
  ultimately show thesis
    using ks(2,3,4) by (intro that [of ?out "set ks"]) (simp_all add: R_def [symmetric] distinct_card del: upt_rec_numeral)
qed

lemma unat_mod_16: "n mod 16 = 0 \<longleftrightarrow> 16 dvd unat n" for n :: u32
  by (simp add: unat_mod mod_eq_0_iff_dvd flip: unat_eq_zero)

lemma apportioned_lengths:
  assumes n: "512 \<le> unat n" "16 dvd unat n"
  shows "\<exists>ls. founder_floor_share_lengths n = Inr ls \<and> length ls = 9 \<and> sum_list (map unat ls) = unat n
    \<and> (\<forall>i<9. unat (FLOORS ! i) \<le> unat (ls ! i) \<and> 16 dvd unat (ls ! i)
         \<and> \<bar>100 * (int (unat (ls ! i)) - int (unat (FLOORS ! i)))
            - (int (unat n) - 400) * int (unat (SHARES ! i))\<bar> \<le> 1600)"
proof -
  define R where "R = (unat n - 400) div 16"
  from n(2) obtain k where k: "unat n = 16 * k" by auto
  then have "unat n - 400 = 16 * (k - 25)" "25 \<le> k" using n(1) by simp_all
  then have nR: "unat n = 400 + 16 * R" using k by (simp add: R_def)
  obtain ks ls where ls: "founder_floor_share_lengths n = Inr ls" "length ls = 9" "ks \<subseteq> {..<9}"
    "card ks = R - (\<Sum>i<9. base_blocks R i)"
    "\<forall>i<9. unat (ls ! i) = unat (FLOORS ! i) + 16 * (base_blocks R i + (if i \<in> ks then 1 else 0))"
    using apportioned [OF n] unfolding R_def [symmetric] by metis
  have "sum_list (map unat ls) = (\<Sum>i<9. unat (ls ! i))"
    using ls(2) by (simp add: sum_list_sum_nth lessThan_atLeast0)
  also have "\<dots> = (\<Sum>i<9. unat (FLOORS ! i) + 16 * (base_blocks R i + (if i \<in> ks then 1 else 0)))"
    by (rule sum.cong) (use ls(5) in \<open>simp_all del: of_bool_eq\<close>)
  also have "\<dots> = (\<Sum>i<9. unat (FLOORS ! i)) + 16 * ((\<Sum>i<9. base_blocks R i) + (\<Sum>i<9. if i \<in> ks then 1 else 0))"
    by (simp only: sum.distrib sum_distrib_left [symmetric])
  also have "(\<Sum>i<9. if i \<in> ks then 1 else 0) = card ks"
    using ls(3) by (simp add: sum.If_cases Int_absorb1)
  also have "(\<Sum>i<9. unat (FLOORS ! i)) + 16 * ((\<Sum>i<9. base_blocks R i) + card ks) = unat n"
    using remainders_sum [of R] by (simp add: nR floors_sum ls(4))
  finally have total: "sum_list (map unat ls) = unat n" .
  have fair: "\<bar>100 * (int (unat (ls ! i)) - int (unat (FLOORS ! i)))
      - (int (unat n) - 400) * int (unat (SHARES ! i))\<bar> \<le> 1600" if "i < 9" for i
  proof -
    have "int R * int (unat (SHARES ! i)) = 100 * int (base_blocks R i) + int (share_remainder R i)"
      using arg_cong [OF base_remainder [of R i], of int] by simp
    moreover have "share_remainder R i < 100" by (simp add: share_remainder_def)
    ultimately show ?thesis using ls(5) that by (auto simp: nR algebra_simps)
  qed
  have "16 dvd unat (ls ! i)" if "i < 9" for i
    using ls(5) that floors_small [OF that] by (auto intro: dvd_add)
  then show ?thesis using ls total fair by (intro exI [of _ ls]) auto
qed

text \<open>
  C15. The apportionment is exact and fair: for every neuron count that is a multiple of 16 and at
  least 512 the nine lengths add up to exactly that count, each is a multiple of 16 and at least its
  floor, and what a lobe gets above its floor is within one block of 16 of its percentage of the rest.
\<close>

theorem apportionment_exact_and_fair:
  assumes "512 \<le> n" and "n mod 16 = 0"
  shows "\<exists>ls. founder_floor_share_lengths n = Inr ls \<and> length ls = 9 \<and> sum_list (map unat ls) = unat n
    \<and> (\<forall>i<9. unat (FLOORS ! i) \<le> unat (ls ! i) \<and> 16 dvd unat (ls ! i)
         \<and> \<bar>100 * (int (unat (ls ! i)) - int (unat (FLOORS ! i)))
            - (int (unat n) - 400) * int (unat (SHARES ! i))\<bar> \<le> 1600)"
  by (rule apportioned_lengths) (use assms in \<open>simp_all add: word_le_nat_alt unat_mod_16\<close>)

section \<open>Regions\<close>

fun regions_from :: "u32 \<Rightarrow> (LobeKind \<times> u32) list \<Rightarrow> LobeLayout" where
  "regions_from s [] = []"
| "regions_from s ((k, l) # zs) = region_enabled k s l # regions_from (s + l) zs"

lemma build_regions: "build_regions_from_lengths ls = regions_from 0 (zip LOBE_ALL ls)"
proof -
  have "fst (fold (\<lambda>(kind, len) (regions, start). (regions @ [region_enabled kind start len], start + len)) zs (acc, s))
      = acc @ regions_from s zs" for zs acc s
    by (induction zs arbitrary: acc s) auto
  then show ?thesis by (simp add: build_regions_from_lengths_def)
qed

definition lengths_fit :: "u32 \<Rightarrow> (LobeKind \<times> u32) list \<Rightarrow> u32 \<Rightarrow> bool" where
  "lengths_fit s zs n \<longleftrightarrow> unat s + sum_list (map (\<lambda>z. unat (snd z)) zs) = unat n"

lemma lengths_fit_Cons:
  assumes "lengths_fit s (z # zs) n"
  shows "checked_add s (snd z) = Some (s + snd z)" and "lengths_fit (s + snd z) zs n"
    and "s + snd z \<le> n"
proof -
  have "unat s + unat (snd z) < 2 ^ 32"
    using assms unsigned_less [of n, where 'a = nat] by (simp add: lengths_fit_def)
  then show "checked_add s (snd z) = Some (s + snd z)" "lengths_fit (s + snd z) zs n" "s + snd z \<le> n"
    using assms unat_plus_no_overflow [of s "snd z"]
    by (simp_all add: checked_add_def lengths_fit_def word_le_nat_alt)
qed

lemma regions_from_total: "lengths_fit acc zs n \<Longrightarrow> checked_total acc (regions_from s zs) = Some n"
proof (induction zs arbitrary: acc s)
  case Nil
  then show ?case by (simp add: lengths_fit_def unsigned_word_eqI)
next
  case (Cons z zs)
  obtain k l where "z = (k, l)" by force
  then show ?case using Cons.IH lengths_fit_Cons [OF Cons.prems] by (simp add: region_enabled_def)
qed

lemma regions_from_coverage:
  "lengths_fit s zs n \<Longrightarrow> \<forall>z \<in> set zs. snd z \<noteq> 0 \<Longrightarrow> check_coverage n s (regions_from s zs) = Inr n"
proof (induction zs arbitrary: s)
  case Nil
  then show ?case by (simp add: lengths_fit_def unsigned_word_eqI)
next
  case (Cons z zs)
  obtain k l where "z = (k, l)" by force
  then show ?case
    using Cons.IH [of "s + l"] Cons.prems(2) lengths_fit_Cons [OF Cons.prems(1)]
    by (simp add: region_enabled_def not_less)
qed

lemma regions_from_aligned:
  "lengths_fit s zs n \<Longrightarrow> 16 dvd unat s \<Longrightarrow> \<forall>z \<in> set zs. 16 dvd unat (snd z) \<Longrightarrow>
     regions_are_aligned 16 (regions_from s zs)"
proof (induction zs arbitrary: s)
  case Nil
  then show ?case by (simp add: regions_are_aligned_def)
next
  case (Cons z zs)
  obtain k l where z: "z = (k, l)" by force
  have fit: "unat s + unat l < 2 ^ 32"
    using Cons.prems(1) unsigned_less [of n, where 'a = nat] by (simp add: lengths_fit_def z)
  have "16 dvd unat (s + l)" using Cons.prems(2,3) fit by (simp add: unat_plus_no_overflow z)
  moreover have "s mod 16 = 0" "l mod 16 = 0"
    using Cons.prems(2,3) by (simp_all add: z unat_mod mod_eq_0_iff_dvd flip: unat_eq_zero)
  ultimately show ?case
    using Cons.IH [of "s + l"] Cons.prems lengths_fit_Cons(2) [OF Cons.prems(1)]
    by (simp add: z regions_are_aligned_def region_enabled_def)
qed

lemma regions_from_kinds: "map lr_kind (regions_from s zs) = map fst zs" "enabled_regions (regions_from s zs) = regions_from s zs"
  by (induction zs arbitrary: s) (auto simp: region_enabled_def enabled_regions_def)

lemma length_filter_kind: "length (filter (\<lambda>r. lr_kind r = kind) layout) = length (filter ((=) kind) (map lr_kind layout))"
  by (induction layout) auto

lemma layout_of_lengths:
  assumes "length ls = 9" and "sum_list (map unat ls) = unat n"
    and "\<forall>i<9. unat (ls ! i) \<noteq> 0 \<and> 16 dvd unat (ls ! i)"
  shows "layout_validate n (build_regions_from_lengths ls) = Inr ()"
proof -
  let ?zs = "zip LOBE_ALL ls"
  have nine_lobes: "length LOBE_ALL = 9" by (simp add: LOBE_ALL_def)
  have snds: "map snd ?zs = ls" "map fst ?zs = LOBE_ALL"
    using assms(1) nine_lobes by simp_all
  have "map unat (map snd ?zs) = map unat ls" by (simp only: snds)
  then have "map (\<lambda>z. unat (snd z)) ?zs = map unat ls" unfolding map_map comp_def .
  then have fit: "lengths_fit 0 ?zs n" using assms(2) by (simp add: lengths_fit_def)
  have each: "unat l \<noteq> 0 \<and> 16 dvd unat l" if "l \<in> set ls" for l
    using that assms(1,3) by (metis in_set_conv_nth)
  have "snd z \<in> set ls" if "z \<in> set ?zs" for z using that by (metis set_zip_rightD prod.collapse)
  then have zs: "\<forall>z \<in> set ?zs. snd z \<noteq> 0" "\<forall>z \<in> set ?zs. 16 dvd unat (snd z)"
    using each by (metis unat_0, blast)
  have kinds: "map lr_kind (regions_from 0 ?zs) = LOBE_ALL" by (simp only: regions_from_kinds snds)
  have "\<not> list_ex (\<lambda>kind. length (filter (\<lambda>r. lr_kind r = kind) (regions_from 0 ?zs)) \<noteq> 1) LOBE_ALL"
    unfolding length_filter_kind kinds by (simp add: LOBE_ALL_def)
  then show ?thesis
    by (simp add: layout_validate_def build_regions regions_from_kinds(2) regions_from_total [OF fit]
      regions_from_coverage [OF fit zs(1)] regions_from_aligned [OF fit _ zs(2)])
qed

lemma reference_layout_ok:
  assumes "512 \<le> n" and "n mod 16 = 0"
  obtains ls where "founder_floor_share_lengths n = Inr ls"
    and "reference_layout n = Inr (build_regions_from_lengths ls)"
    and "layout_validate n (build_regions_from_lengths ls) = Inr ()"
proof -
  have "512 \<le> unat n" "16 dvd unat n" using assms by (simp_all add: word_le_nat_alt unat_mod_16)
  from apportioned_lengths [OF this] obtain ls where
    ls: "founder_floor_share_lengths n = Inr ls" "length ls = 9" "sum_list (map unat ls) = unat n"
      "\<forall>i<9. unat (FLOORS ! i) \<le> unat (ls ! i) \<and> 16 dvd unat (ls ! i)"
    by blast
  have "unat (FLOORS ! i) \<noteq> 0" if "i < 9" for i
    using less_nine [OF that] by (auto simp: FLOORS_def)
  then have "layout_validate n (build_regions_from_lengths ls) = Inr ()"
    using layout_of_lengths [OF ls(2,3)] ls(4) by (metis le_zero_eq)
  then show thesis using ls(1) by (intro that [of ls]) (simp_all add: reference_layout_def Let_def)
qed

text \<open>
  Which counts have a layout: a reference layout is made, and passes its own validation, exactly
  for the neuron counts that are multiples of 16 and at least 512.
\<close>

lemma reference_layout_exists_iff:
  "(\<exists>layout. reference_layout n = Inr layout \<and> layout_validate n layout = Inr ())
     \<longleftrightarrow> 512 \<le> n \<and> n mod 16 = 0"
proof
  assume "\<exists>layout. reference_layout n = Inr layout \<and> layout_validate n layout = Inr ()"
  then show "512 \<le> n \<and> n mod 16 = 0"
    by (auto simp: reference_layout_def founder_floor_share_lengths_def split: if_splits)
next
  assume "512 \<le> n \<and> n mod 16 = 0"
  then show "\<exists>layout. reference_layout n = Inr layout \<and> layout_validate n layout = Inr ()"
    using reference_layout_ok [of n] by metis
qed

section \<open>What a valid layout promises\<close>

lemma coverage_Cons:
  assumes "check_coverage n c (r # rs) = Inr e"
  shows "unat (region_end r) = unat (lr_start r) + unat (lr_len r)" and "lr_start r = c" and "lr_len r \<noteq> 0"
    and "check_coverage n (region_end r) rs = Inr e" and "region_end r \<le> n"
  using assms by (auto simp: ok_or_def checked_add_def region_end_def not_less unat_plus_no_overflow
      split: if_splits option.splits)

lemma coverage_bounds:
  "check_coverage n c rs = Inr e \<Longrightarrow> c \<le> e \<and> (\<forall>r \<in> set rs. c \<le> lr_start r)"
proof (induction rs arbitrary: c)
  case Nil
  then show ?case by simp
next
  case (Cons r rs)
  have "c \<le> region_end r" using coverage_Cons(1,2) [OF Cons.prems] by (simp add: word_le_nat_alt)
  then show ?case using Cons.IH [OF coverage_Cons(4) [OF Cons.prems]] coverage_Cons(2) [OF Cons.prems] by force
qed

lemma coverage_finds:
  "check_coverage n c rs = Inr e \<Longrightarrow> \<forall>r \<in> set rs. lr_enabled r \<Longrightarrow> c \<le> i \<Longrightarrow> i < e \<Longrightarrow>
     \<exists>r. find (\<lambda>r. contains_neuron r i) rs = Some r \<and> r \<in> set rs \<and> contains_neuron r i
       \<and> (\<forall>r' \<in> set rs. contains_neuron r' i \<longrightarrow> r' = r)"
proof (induction rs arbitrary: c)
  case Nil
  then show ?case by simp
next
  case (Cons r rs)
  note cov = coverage_Cons [OF Cons.prems(1)]
  show ?case
  proof (cases "i < region_end r")
    case True
    then have "contains_neuron r i" using cov(2) Cons.prems(2,3) by (simp add: contains_neuron_def)
    moreover have "\<not> contains_neuron r' i" if "r' \<in> set rs" for r'
      using coverage_bounds [OF cov(4)] that True by (fastforce simp: contains_neuron_def)
    ultimately show ?thesis by auto
  next
    case False
    then have out: "\<not> contains_neuron r i" by (simp add: contains_neuron_def)
    have rest: "\<forall>r \<in> set rs. lr_enabled r" "region_end r \<le> i" using Cons.prems(2) False by auto
    obtain r' where r': "find (\<lambda>r. contains_neuron r i) rs = Some r'" "r' \<in> set rs" "contains_neuron r' i"
      "\<forall>r'' \<in> set rs. contains_neuron r'' i \<longrightarrow> r'' = r'"
      using Cons.IH [OF cov(4) rest Cons.prems(4)] by blast
    have "find (\<lambda>r. contains_neuron r i) (r # rs) = Some r' \<and> r' \<in> set (r # rs)
        \<and> contains_neuron r' i \<and> (\<forall>r'' \<in> set (r # rs). contains_neuron r'' i \<longrightarrow> r'' = r')"
      using r' out by (metis find.simps(2) list.set_intros(2) set_ConsD)
    then show ?thesis by blast
  qed
qed

lemma valid_layout_partition:
  assumes "layout_validate n layout = Inr ()"
  shows "if i < n
    then \<exists>r. lobe_by_neuron_index i layout = Some r \<and> r \<in> set layout \<and> contains_neuron r i
           \<and> (\<forall>r' \<in> set layout. contains_neuron r' i \<longrightarrow> r' = r)
    else lobe_by_neuron_index i layout = None"
proof -
  have cov: "check_coverage n 0 (enabled_regions layout) = Inr n"
    using assms by (auto simp: layout_validate_def and_then_def split: if_splits sum.splits)
  have enabled: "\<forall>r \<in> set (enabled_regions layout). lr_enabled r" by (simp add: enabled_regions_def)
  show ?thesis
  proof (cases "i < n")
    case True
    then show ?thesis using coverage_finds [OF cov enabled, of i]
      by (auto simp: lobe_by_neuron_index_def enabled_regions_def contains_neuron_def)
  next
    case False
    have "region_end r \<le> n" if "check_coverage n c rs = Inr e" "r \<in> set rs" for c rs e r
      using that by (induction rs arbitrary: c) (auto dest: coverage_Cons(4,5) simp del: check_coverage.simps)
    then have "\<not> contains_neuron r i" if "r \<in> set (enabled_regions layout)" for r
      using cov that False by (fastforce simp: contains_neuron_def)
    then show ?thesis using False by (simp add: lobe_by_neuron_index_def find_None_iff)
  qed
qed

lemma valid_layout_lookup:
  "layout_validate n layout = Inr () \<Longrightarrow> lobe_by_neuron_index i layout = None \<longleftrightarrow> \<not> i < n"
  using valid_layout_partition [of n layout i] by (auto split: if_splits)

text \<open>
  A valid layout partitions the neurons: every neuron below the count lies in one region and no
  other, and the lookup by index returns that region; no index at or above the count is in any region.
\<close>

lemma layout_partitions_neurons:
  assumes "layout_validate n layout = Inr ()"
  shows "if i < n
    then \<exists>r. lobe_by_neuron_index i layout = Some r \<and> r \<in> set layout \<and> contains_neuron r i
           \<and> (\<forall>r' \<in> set layout. contains_neuron r' i \<longrightarrow> r' = r)
    else lobe_by_neuron_index i layout = None"
  using assms by (rule valid_layout_partition)

text \<open>The nano class (512 neurons): its regions by the tables, its first and last neurons.\<close>

lemma apportionment_exact_and_fair_witness:
  "(512 :: u32) \<le> 1024 \<and> (\<exists>ls. founder_floor_share_lengths 1024 = Inr ls \<and> sum_list (map unat ls) = 1024)"
  using apportionment_exact_and_fair [of 1024] by (auto simp: unat_numeral)

definition nano_lengths :: "u32 list" where
  "nano_lengths = [80, 32, 96, 64, 64, 48, 64, 32, 32]"

lemma layout_partitions_neurons_witness:
  "layout_validate 512 (build_regions_from_lengths nano_lengths) = Inr ()
   \<and> (\<exists>r. lobe_by_neuron_index 511 (build_regions_from_lengths nano_lengths) = Some r)
   \<and> lobe_by_neuron_index 512 (build_regions_from_lengths nano_lengths) = None"
proof -
  have ok: "layout_validate 512 (build_regions_from_lengths nano_lengths) = Inr ()"
  proof (rule layout_of_lengths)
    show "\<forall>i<9. unat (nano_lengths ! i) \<noteq> 0 \<and> 16 dvd unat (nano_lengths ! i)"
      using less_nine by (fastforce simp: nano_lengths_def)
  qed (simp_all add: nano_lengths_def)
  show ?thesis
    using ok layout_partitions_neurons [OF ok, of 511] layout_partitions_neurons [OF ok, of 512] by auto
qed

end
