(* ===== verification/Routing_Proofs.thy ===== *)
theory Routing_Proofs
  imports Routing Lobe_Proofs
begin

text \<open>
  Which routings are accepted, that the canonical routing of a layout is, and which brain classes can
  be made: every named tier, and the custom classes by their id and neuron count.
\<close>

section \<open>Routings\<close>

definition route_key :: "RoutingMask \<Rightarrow> LobeKind \<times> LobeKind \<times> ProjectionType" where
  "route_key m = (rm_source_lobe m, rm_target_lobe m, rm_projection_type m)"

definition route_live :: "LobeLayout \<Rightarrow> RoutingMask \<Rightarrow> bool" where
  "route_live layout m \<longleftrightarrow> lobe_enabled layout (rm_source_lobe m) \<and> lobe_enabled layout (rm_target_lobe m)"

lemma routing_accepted_iff:
  "validate_for_layout layout routes = Inr ()
     \<longleftrightarrow> (\<forall>m \<in> set routes. route_live layout m) \<and> distinct (map route_key routes)"
proof (induction routes)
  case Nil
  then show ?case by simp
next
  case (Cons m routes)
  have "list_ex (\<lambda>other. rm_source_lobe other = rm_source_lobe m \<and> rm_target_lobe other = rm_target_lobe m
      \<and> rm_projection_type other = rm_projection_type m) routes \<longleftrightarrow> route_key m \<in> set (map route_key routes)"
    by (simp add: list_ex_iff route_key_def image_iff) metis
  then show ?case using Cons.IH by (auto simp: route_live_def)
qed

text \<open>
  The canonical routing of any layout, the lobes of which may be missing or disabled, passes its
  validation: it keeps every canonical route whose two lobes are enabled and no other.
\<close>

lemma canonical_routing_valid:
  "validate_for_layout layout (canonical_for_layout layout) = Inr ()
   \<and> set (canonical_for_layout layout) = {m \<in> set CANONICAL_ROUTING_MASKS. route_live layout m}"
proof -
  have "distinct (map route_key CANONICAL_ROUTING_MASKS)"
    by (simp add: CANONICAL_ROUTING_MASKS_def route_key_def routing_mask_def)
  then have "distinct (map route_key (canonical_for_layout layout))"
    unfolding canonical_for_layout_def by (rule distinct_map_filter)
  then show ?thesis
    by (auto simp: routing_accepted_iff canonical_for_layout_def route_live_def)
qed

section \<open>The motor stride\<close>

lemma unat_power_2: "k < 32 \<Longrightarrow> unat (2 ^ k :: u32) = 2 ^ k"
  using unat_of_nat [of "2 ^ k", where 'a = 32] power_strict_increasing [of k 32 "2 :: nat"] by simp

lemma next_power_of_two:
  assumes "checked_next_power_of_two x = Some p"
  shows "x \<le> p" and "\<exists>k<32. p = 2 ^ k"
proof -
  have "x \<le> p \<and> p \<in> set (map (\<lambda>k. 2 ^ k) [0..<32])"
    using assms by (auto simp: checked_next_power_of_two_def find_Some_iff)
  then show "x \<le> p" "\<exists>k<32. p = 2 ^ k" by auto
qed

lemma padded_stride:
  assumes "x mod 16 = 0"
  shows "x \<le> padded_motor_stride x \<and> padded_motor_stride x mod 16 = 0"
proof (cases "checked_next_power_of_two x")
  case None
  then have "div_ceil x 16 * 16 = x" using assms by (metis div_ceil_def div_mult_mod_eq add.right_neutral)
  then show ?thesis using assms None by (simp add: padded_motor_stride_def max_def)
next
  case (Some p)
  obtain k where k: "k < 32" "p = 2 ^ k" using next_power_of_two(2) [OF Some] by blast
  have "max p 16 mod 16 = 0"
  proof (cases "k \<le> 4")
    case True
    then have "k = 0 \<or> k = 1 \<or> k = 2 \<or> k = 3 \<or> k = 4" by arith
    then show ?thesis by (auto simp: k(2))
  next
    case False
    have "16 dvd (2 :: nat) ^ k" using False dvd_power_le [of 2 2 4 k] by simp
    then show ?thesis using k False by (simp add: unat_mod_16 unat_power_2 max_def)
  qed
  then show ?thesis
    using next_power_of_two(1) [OF Some] Some by (simp add: padded_motor_stride_def le_max_iff_disj)
qed

section \<open>Brain classes\<close>

lemma layout_of_nine:
  assumes "length ls = 9"
  shows "\<exists>s. layout_region ActionPlanning (build_regions_from_lengths ls) = Some (region_enabled ActionPlanning s (ls ! 6))"
    and "lobe_enabled (build_regions_from_lengths ls) kind"
proof -
  obtain a b c d e f g h i where ls: "ls = [a, b, c, d, e, f, g, h, i]"
    using assms by (auto simp: length_Suc_conv numeral_eq_Suc)
  show "\<exists>s. layout_region ActionPlanning (build_regions_from_lengths ls) = Some (region_enabled ActionPlanning s (ls ! 6))"
    by (simp add: build_regions ls LOBE_ALL_def layout_region_def region_enabled_def)
  show "lobe_enabled (build_regions_from_lengths ls) kind"
    by (cases kind) (simp_all add: build_regions ls LOBE_ALL_def lobe_enabled_def layout_region_def region_enabled_def)
qed

text \<open>What is made from the reference layout passes its own validation, if only the id is not zero.\<close>

lemma from_reference:
  assumes n: "512 \<le> n" "n mod 16 = 0" and tier: "is_near_term_gpu_class tier \<longrightarrow> n mod 128 = 0"
  obtains layout spec where "reference_layout n = Inr layout"
    and "spec_from_parts id' tier n budget layout = (if id' = 0 then Inl InvalidId else Inr spec)"
    and "id' \<noteq> 0 \<longrightarrow> spec_validate spec = Inr ()"
    and "bcs_id spec = id'" and "bcs_tier spec = tier" and "bcs_neuron_count spec = n"
    and "bcs_lobe_layout spec = layout" and "bcs_routing_matrix spec = CANONICAL_ROUTING_MASKS"
proof -
  have "512 \<le> unat n" "16 dvd unat n" using n by (simp_all add: word_le_nat_alt unat_mod_16)
  from apportioned_lengths [OF this] obtain ls where
    ls: "founder_floor_share_lengths n = Inr ls" "length ls = 9" "sum_list (map unat ls) = unat n"
      "\<forall>i<9. unat (FLOORS ! i) \<le> unat (ls ! i) \<and> 16 dvd unat (ls ! i)"
    by blast
  define layout where "layout = build_regions_from_lengths ls"
  obtain ls' where "founder_floor_share_lengths n = Inr ls'"
    and "reference_layout n = Inr (build_regions_from_lengths ls')"
    and "layout_validate n (build_regions_from_lengths ls') = Inr ()"
    using reference_layout_ok [OF n] by metis
  then have layout: "reference_layout n = Inr layout" "layout_validate n layout = Inr ()"
    using ls(1) by (simp_all add: layout_def)
  obtain s where motor: "layout_region ActionPlanning layout = Some (region_enabled ActionPlanning s (ls ! 6))"
    using layout_of_nine(1) [OF ls(2)] by (auto simp: layout_def)
  have motor_len: "ls ! 6 \<noteq> 0" "ls ! 6 mod 16 = 0"
    using ls(4) [rule_format, of 6] by (auto simp: FLOORS_def unat_mod_16)
  have enabled: "lobe_enabled layout kind" for kind unfolding layout_def by (rule layout_of_nine(2) [OF ls(2)])
  have routes: "canonical_for_layout layout = CANONICAL_ROUTING_MASKS"
    by (simp add: canonical_for_layout_def enabled)
  have "distinct (map route_key CANONICAL_ROUTING_MASKS)"
    by (simp add: CANONICAL_ROUTING_MASKS_def route_key_def routing_mask_def)
  then have routes_ok: "validate_for_layout layout CANONICAL_ROUTING_MASKS = Inr ()"
    by (simp add: routing_accepted_iff route_live_def enabled)
  define spec where "spec = \<lparr> bcs_id = id', bcs_tier = tier, bcs_neuron_count = n, bcs_microtile_edge = 16,
             bcs_supertile_edge = 128, bcs_compute_budget = budget,
             bcs_max_active_microtiles = bcb_max_active_tiles budget,
             bcs_max_active_synapses = bcb_max_active_synapses budget,
             bcs_active_loop_resizing_allowed = False,
             bcs_motor_logical_nodes = ls ! 6,
             bcs_motor_physical_stride = padded_motor_stride (ls ! 6),
             bcs_routing_schema_version = sv_neural_projection schema_versions_CURRENT,
             bcs_lobe_layout = layout, bcs_routing_matrix = CANONICAL_ROUTING_MASKS \<rparr>"
  have "\<not> n < 512" "\<not> padded_motor_stride (ls ! 6) < ls ! 6" "padded_motor_stride (ls ! 6) mod 16 = 0"
    using n padded_stride [OF motor_len(2)] by (simp_all add: not_less)
  then have "spec_validate spec = (if id' = 0 then Inl InvalidId else Inr ())"
    using motor_len tier by (cases "is_near_term_gpu_class tier")
      (simp_all add: spec_validate_def spec_def brain_class_id_validate_def id_is_valid_def layout(2) routes_ok
      motor region_enabled_def require_current_version_def)
  moreover have "spec_from_parts id' tier n budget layout = and_then (spec_validate spec) (\<lambda>_. Inr spec)"
    by (simp add: spec_from_parts_def motor Let_def routes spec_def region_enabled_def)
  ultimately show thesis
    using layout(1) by (intro that [of layout spec]) (simp_all add: spec_def)
qed

text \<open>
  Every named tier has a brain class, so \<open>for_tier\<close> panics on no tier but the custom one: the class
  has the tier's id and neuron count, passes its validation, has no canonical route dropped and finds
  the lobe of every neuron; the custom tier has no neuron count of its own.
\<close>

lemma every_tier_has_a_class:
  "case tier_neuron_count tier of
     None \<Rightarrow> tier = ResearchCustom \<and> try_for_tier tier = Inl MissingCanonicalNeuronCount
   | Some n \<Rightarrow> (\<exists>spec. try_for_tier tier = Inr spec \<and> spec_validate spec = Inr ()
       \<and> bcs_id spec = default_class_id tier \<and> bcs_tier spec = tier \<and> bcs_neuron_count spec = n
       \<and> bcs_routing_matrix spec = CANONICAL_ROUTING_MASKS)"
proof (cases "tier_neuron_count tier")
  case None
  then show ?thesis by (cases tier) (simp_all add: try_for_tier_def)
next
  case (Some n)
  then have n: "512 \<le> n" "n mod 16 = 0" "n mod 128 = 0" "default_class_id tier \<noteq> 0" by (cases tier; auto)+
  obtain layout spec where "reference_layout n = Inr layout"
    "spec_from_parts (default_class_id tier) tier n (budget_for_tier tier n) layout = Inr spec"
    "spec_validate spec = Inr ()" "bcs_id spec = default_class_id tier" "bcs_tier spec = tier"
    "bcs_neuron_count spec = n" "bcs_routing_matrix spec = CANONICAL_ROUTING_MASKS"
    using from_reference [OF n(1,2), of tier "default_class_id tier" "budget_for_tier tier n"] n(3,4) by metis
  then show ?thesis using Some by (simp add: try_for_tier_def)
qed

text \<open>
  The custom classes: the errors of \<open>research_custom\<close> in their order, and that whatever passes the
  three checks of size, alignment and id is made and valid.
\<close>

lemma research_custom_outcomes:
  "if n < 512 then research_custom id' n = Inl BrainClassTooSmall
   else if n mod 16 \<noteq> 0 then research_custom id' n = Inl LobeAlignment
   else if id' = 0 then research_custom id' n = Inl InvalidId
   else \<exists>spec. research_custom id' n = Inr spec \<and> spec_validate spec = Inr () \<and> bcs_id spec = id'
     \<and> bcs_neuron_count spec = n \<and> (\<forall>i. spec_lobe_by_neuron_index i spec = None \<longleftrightarrow> n \<le> i)"
proof -
  consider "n < 512" | "\<not> n < 512" "n mod 16 \<noteq> 0" | "512 \<le> n" "n mod 16 = 0" by fastforce
  then show ?thesis
  proof cases
    case 3
    obtain layout spec where *: "reference_layout n = Inr layout"
      "spec_from_parts id' ResearchCustom n (budget_for_custom n) layout = (if id' = 0 then Inl InvalidId else Inr spec)"
      "id' \<noteq> 0 \<longrightarrow> spec_validate spec = Inr ()" "bcs_id spec = id'" "bcs_neuron_count spec = n"
      "bcs_lobe_layout spec = layout"
      using from_reference [OF 3, of ResearchCustom id' "budget_for_custom n"]
      by (simp add: is_near_term_gpu_class_def) metis
    have "layout_validate n layout = Inr ()"
      using *(1) by (auto simp: reference_layout_def Let_def)
    then have "spec_lobe_by_neuron_index i spec = None \<longleftrightarrow> n \<le> i" for i
      using valid_layout_lookup [of n layout i] by (simp add: spec_lobe_by_neuron_index_def *(6) not_less)
    then show ?thesis using 3 * by (cases "id' = 0") (simp_all add: research_custom_def not_less)
  qed (simp_all add: research_custom_def reference_layout_def founder_floor_share_lengths_def)
qed

end
