(* ===== verification/Tracked_Objects.thy ===== *)
theory Tracked_Objects
  imports Digest_Encoding Collections
begin

text \<open>
  \<open>crates/alife_world/src/tracked_objects.rs\<close>: the bounded registry that gives the objects an
  organism sees portable ids, its eviction, its observation receipts and its save states. The sources
  can panic in two places (\<open>expect\<close> on the eviction target and on the digest of a descriptor); a
  panic is the value \<open>None\<close> around the outcome.
\<close>

section \<open>Keys and descriptors\<close>

type_synonym PhysicalTrackingKey = "u64 \<times> u64"

record PhysicalTrackingProvenance =
  pp_schema_version :: u16
  pp_world_seed :: u64
  pp_zone_id :: u32
  pp_spawn_sequence :: u64
  pp_lineage_key :: u64

definition provenance_validate :: "PhysicalTrackingProvenance \<Rightarrow> unit contract" where
  "provenance_validate p =
     (if pp_schema_version p \<noteq> 1 \<or> pp_spawn_sequence p = 0 then Inl InvalidId else Inr ())"

definition provenance_bytes :: "PhysicalTrackingProvenance \<Rightarrow> bytes" where
  "provenance_bytes p =
     ascii ''ALIFE-PHYSICAL-TRACK-V1'' @ le_bytes 2 (pp_schema_version p)
     @ le_bytes 8 (pp_world_seed p) @ le_bytes 4 (pp_zone_id p)
     @ le_bytes 8 (pp_spawn_sequence p) @ le_bytes 8 (pp_lineage_key p)"

definition canonical_key :: "PhysicalTrackingProvenance \<Rightarrow> PhysicalTrackingKey" where
  "canonical_key p =
     (let words = le_words (provenance_bytes p);
          first = digest_stream words 0xA11FEA7ED00D0001;
          second = digest_stream words 0xC0DECAFE51A70002
      in if first = 0 \<and> second = 0 then (splitmix64 first, splitmix64 second) else (first, second))"

text \<open>The descriptor is an array of 15 numbers.\<close>

type_synonym StablePhysicalDescriptor = "f32 list"

definition descriptor_validate :: "StablePhysicalDescriptor \<Rightarrow> unit contract" where
  "descriptor_validate values =
     (if list_ex (\<lambda>v. \<not> f32_is_finite v \<or> \<not> f32_in_range f32_zero f32_one v)
           (take 9 values @ drop 13 values)
        \<or> list_ex (\<lambda>v. \<not> f32_is_finite v \<or> \<not> f32_in_range f32_minus_one f32_one v)
           (drop 9 (take 13 values))
      then Inl ScalarOutOfRange else Inr ())"

record TrackedObjectRecord =
  tr_id :: u64
  tr_provenance :: PhysicalTrackingProvenance
  tr_key :: PhysicalTrackingKey
  tr_last_seen :: Tick
  tr_descriptor :: StablePhysicalDescriptor

definition initial_tracked_object_id :: "u64 \<Rightarrow> u64 \<Rightarrow> u64" where
  "initial_tracked_object_id world_seed organism_id =
     1 + (splitmix64 (world_seed XOR word_rotl 23 organism_id XOR 0xA11F7A4C0B1EC701)
          AND 0x0000FFFFFFFFFFFF)"

section \<open>Save states\<close>

record TrackedObjectRegistrySaveState =
  ts_schema_version :: u16
  ts_world_seed :: u64
  ts_organism_id :: u64
  ts_capacity :: u32
  ts_next_id :: u64
  ts_records :: "TrackedObjectRecord list"

definition capacity_in_range :: "u32 \<Rightarrow> bool" where
  "capacity_in_range c \<longleftrightarrow> 1 \<le> c \<and> c \<le> 1024"

text \<open>The loop over the saved records; it hands on the set of the ids it has seen.\<close>

fun check_records ::
  "u64 \<Rightarrow> u64 \<Rightarrow> PhysicalTrackingKey option \<Rightarrow> u64 set \<Rightarrow> TrackedObjectRecord list \<Rightarrow> (u64 set) contract" where
  "check_records world_seed initial_id previous seen [] = Inr seen"
| "check_records world_seed initial_id previous seen (r # rs) =
     and_then (id_validate (tr_id r)) (\<lambda>_.
     and_then (provenance_validate (tr_provenance r)) (\<lambda>_.
     and_then (descriptor_validate (tr_descriptor r)) (\<lambda>_.
       if pp_world_seed (tr_provenance r) \<noteq> world_seed \<or> tr_key r \<noteq> canonical_key (tr_provenance r)
       then Inl InvalidId
       else if (case previous of None \<Rightarrow> False | Some k \<Rightarrow> tr_key r \<le> k) \<or> tr_id r \<in> seen
       then Inl InvalidId
       else if tr_id r < initial_id then Inl MismatchedCreatureId
       else check_records world_seed initial_id (Some (tr_key r)) (insert (tr_id r) seen) rs)))"

definition save_state_validate :: "TrackedObjectRegistrySaveState \<Rightarrow> unit contract" where
  "save_state_validate s =
     (if ts_schema_version s \<noteq> 1 \<or> \<not> capacity_in_range (ts_capacity s)
         \<or> unat (ts_capacity s) < length (ts_records s)
      then Inl ScalarOutOfRange
      else
        and_then (id_validate (ts_organism_id s)) (\<lambda>_.
        let initial_id = initial_tracked_object_id (ts_world_seed s) (ts_organism_id s) in
        and_then (check_records (ts_world_seed s) initial_id None {} (ts_records s)) (\<lambda>seen.
          let highest_id = (if seen = {} then saturating_sub initial_id 1 else Max seen)
          in if ts_next_id s < initial_id \<or> ts_next_id s \<le> highest_id
             then Inl TrackedObjectIdentityExhausted else Inr ())))"

section \<open>The objects of one organism\<close>

record OrganismTrackedObjects =
  to_organism_id :: u64
  to_world_seed :: u64
  to_capacity :: u32
  to_next_id :: u64
  to_records :: "(PhysicalTrackingKey, TrackedObjectRecord) btree_map"

definition tracked_new :: "u64 \<Rightarrow> u64 \<Rightarrow> u32 \<Rightarrow> OrganismTrackedObjects" where
  "tracked_new organism_id world_seed capacity = \<lparr> to_organism_id = organism_id,
     to_world_seed = world_seed, to_capacity = capacity,
     to_next_id = initial_tracked_object_id world_seed organism_id, to_records = [] \<rparr>"

definition eviction_key ::
  "PhysicalTrackingKey \<times> TrackedObjectRecord \<Rightarrow> Tick \<times> u64 \<times> PhysicalTrackingKey" where
  "eviction_key e = (tr_last_seen (snd e), tr_id (snd e), fst e)"

text \<open>The records that are left when a full registry has dropped its least recently seen one.\<close>

definition make_room ::
  "OrganismTrackedObjects
   \<Rightarrow> (u64 option \<times> (PhysicalTrackingKey, TrackedObjectRecord) btree_map) option" where
  "make_room o' =
     (if length (to_records o') = unat (to_capacity o')
      then map_option (\<lambda>(k, r). (Some (tr_id r), bt_remove k (to_records o')))
             (min_by_key eviction_key (to_records o'))
      else Some (None, to_records o'))"

definition tracked_observe ::
  "PhysicalTrackingProvenance \<Rightarrow> StablePhysicalDescriptor \<Rightarrow> Tick \<Rightarrow> OrganismTrackedObjects
   \<Rightarrow> (ScaffoldContractError, u64 \<times> bool \<times> u64 option, OrganismTrackedObjects) outcome option" where
  "tracked_observe provenance descriptor tick o' =
     (case and_then (provenance_validate provenance) (\<lambda>_.
           and_then (descriptor_validate descriptor) (\<lambda>_.
             if pp_world_seed provenance \<noteq> to_world_seed o' then Inl InvalidId else Inr ())) of
        Inl e \<Rightarrow> Some (Inl e, o')
      | Inr _ \<Rightarrow>
          let key = canonical_key provenance in
          case bt_get (to_records o') key of
            Some existing \<Rightarrow>
              if tick < tr_last_seen existing then Some (Inl NonMonotonicTick, o')
              else Some (Inr (tr_id existing, False, None),
                     o'\<lparr>to_records := bt_insert key
                          (existing\<lparr>tr_last_seen := tick, tr_descriptor := descriptor\<rparr>) (to_records o')\<rparr>)
          | None \<Rightarrow>
              (case checked_add (to_next_id o') 1 of
                 None \<Rightarrow> Some (Inl TrackedObjectIdentityExhausted, o')
               | Some next_id \<Rightarrow>
                   let fresh = \<lparr> tr_id = to_next_id o', tr_provenance = provenance, tr_key = key,
                         tr_last_seen = tick, tr_descriptor = descriptor \<rparr>
                   in map_option (\<lambda>(evicted, records).
                        (Inr (to_next_id o', True, evicted),
                         o'\<lparr>to_next_id := next_id, to_records := bt_insert key fresh records\<rparr>))
                        (make_room o')))"

text \<open>\<open>write_f32(value).expect(...)\<close> over the descriptor; the record fields are in the source's order.\<close>

definition write_descriptor :: "StablePhysicalDescriptor \<Rightarrow> bytes \<Rightarrow> bytes option" where
  "write_descriptor values bs =
     fold (\<lambda>v acc. Option.bind acc (\<lambda>bs. case write_f32 v bs of Inl _ \<Rightarrow> None | Inr bs' \<Rightarrow> Some bs'))
       values (Some bs)"

definition write_tracked :: "PhysicalTrackingKey \<times> TrackedObjectRecord \<Rightarrow> bytes \<Rightarrow> bytes option" where
  "write_tracked e bs =
     (case e of ((k0, k1), r) \<Rightarrow>
        write_descriptor (tr_descriptor r)
          (write_u64 (tr_last_seen r)
          (write_u64 (pp_lineage_key (tr_provenance r))
          (write_u64 (pp_spawn_sequence (tr_provenance r))
          (write_u32 (pp_zone_id (tr_provenance r))
          (write_u64 (pp_world_seed (tr_provenance r))
          (write_u16 (pp_schema_version (tr_provenance r))
          (write_u64 (tr_id r) (write_u64 k1 (write_u64 k0 bs))))))))))"

definition tracked_digest :: "OrganismTrackedObjects \<Rightarrow> digest4 option" where
  "tracked_digest o' =
     map_option finish256
       (fold (\<lambda>e acc. Option.bind acc (write_tracked e)) (to_records o')
         (Some (write_sequence_len (length (to_records o'))
           (write_u64 (to_next_id o')
           (write_u32 (to_capacity o')
           (write_u64 (to_world_seed o')
           (write_u64 (to_organism_id o')
             (digest_new (ascii ''ALIFE-TRACKED-OBJECT-STATE-V1'')))))))))"

section \<open>The registry\<close>

record TrackedObjectObservationReceipt =
  or_organism_id :: u64
  or_tracked_object_id :: u64
  or_inserted :: bool
  or_evicted :: "u64 option"
  or_record_count :: u32
  or_next_id :: u64
  or_before_digest :: digest4
  or_after_digest :: digest4

record TrackedObjectRegistry =
  tg_world_seed :: u64
  tg_capacity :: u32
  tg_organisms :: "(u64, OrganismTrackedObjects) btree_map"

type_synonym 'a registry_outcome = "(ScaffoldContractError, 'a, TrackedObjectRegistry) outcome"

type_synonym Observation = "PhysicalTrackingProvenance \<times> StablePhysicalDescriptor \<times> Tick"

definition registry_new :: "u64 \<Rightarrow> u32 \<Rightarrow> TrackedObjectRegistry contract" where
  "registry_new world_seed capacity =
     (if \<not> capacity_in_range capacity then Inl ScalarOutOfRange
      else Inr \<lparr> tg_world_seed = world_seed, tg_capacity = capacity, tg_organisms = [] \<rparr>)"

definition staged_observer :: "u64 \<Rightarrow> TrackedObjectRegistry \<Rightarrow> OrganismTrackedObjects contract" where
  "staged_observer observer g =
     and_then (id_validate observer) (\<lambda>_. Inr
       (case bt_get (tg_organisms g) observer of
          Some o' \<Rightarrow> o'
        | None \<Rightarrow> tracked_new observer (tg_world_seed g) (tg_capacity g)))"

definition registry_observe ::
  "u64 \<Rightarrow> Observation \<Rightarrow> TrackedObjectRegistry
   \<Rightarrow> TrackedObjectObservationReceipt registry_outcome option" where
  "registry_observe observer obs g =
     (case obs of (provenance, descriptor, tick) \<Rightarrow>
      case staged_observer observer g of
        Inl e \<Rightarrow> Some (Inl e, g)
      | Inr candidate \<Rightarrow>
          Option.bind (tracked_digest candidate) (\<lambda>before.
          Option.bind (tracked_observe provenance descriptor tick candidate) (\<lambda>(r, candidate').
            case r of
              Inl e \<Rightarrow> Some (Inl e, g)
            | Inr (i, inserted, evicted) \<Rightarrow>
                Option.bind (tracked_digest candidate') (\<lambda>after.
                  Some (Inr \<lparr> or_organism_id = observer, or_tracked_object_id = i, or_inserted = inserted,
                          or_evicted = evicted,
                          or_record_count = word_of_nat (length (to_records candidate')),
                          or_next_id = to_next_id candidate', or_before_digest = before,
                          or_after_digest = after \<rparr>,
                        g\<lparr>tg_organisms := bt_insert observer candidate' (tg_organisms g)\<rparr>)))))"

text \<open>The loop of \<open>observe_batch\<close> on the staged copy.\<close>

fun observe_all ::
  "Observation list \<Rightarrow> OrganismTrackedObjects
   \<Rightarrow> (ScaffoldContractError, u64 list, OrganismTrackedObjects) outcome option" where
  "observe_all [] o' = Some (Inr [], o')"
| "observe_all ((p, d, t) # obs) o' =
     Option.bind (tracked_observe p d t o') (\<lambda>(r, o1).
       case r of
         Inl e \<Rightarrow> Some (Inl e, o1)
       | Inr (i, _) \<Rightarrow>
           Option.bind (observe_all obs o1) (\<lambda>(rs, o2).
             Some (and_then rs (\<lambda>ids. Inr (i # ids)), o2)))"

definition registry_observe_batch ::
  "u64 \<Rightarrow> Observation list \<Rightarrow> TrackedObjectRegistry \<Rightarrow> (u64 list) registry_outcome option" where
  "registry_observe_batch observer obs g =
     (case staged_observer observer g of
        Inl e \<Rightarrow> Some (Inl e, g)
      | Inr candidate \<Rightarrow>
          Option.bind (observe_all obs candidate) (\<lambda>(r, candidate').
            case r of
              Inl e \<Rightarrow> Some (Inl e, g)
            | Inr ids \<Rightarrow> Some (Inr ids, if ids \<noteq> []
                then g\<lparr>tg_organisms := bt_insert observer candidate' (tg_organisms g)\<rparr> else g)))"

definition registry_records_for :: "u64 \<Rightarrow> TrackedObjectRegistry \<Rightarrow> TrackedObjectRecord list option" where
  "registry_records_for observer g =
     map_option (\<lambda>o'. map snd (to_records o')) (bt_get (tg_organisms g) observer)"

definition registry_record :: "u64 \<Rightarrow> u64 \<Rightarrow> TrackedObjectRegistry \<Rightarrow> TrackedObjectRecord option" where
  "registry_record observer i g =
     Option.bind (bt_get (tg_organisms g) observer) (\<lambda>o'.
       find (\<lambda>r. tr_id r = i) (map snd (to_records o')))"

definition registry_save_state ::
  "u64 \<Rightarrow> TrackedObjectRegistry \<Rightarrow> TrackedObjectRegistrySaveState contract" where
  "registry_save_state observer g =
     and_then (id_validate observer) (\<lambda>_.
       let state = bt_get (tg_organisms g) observer;
           saved = \<lparr> ts_schema_version = 1, ts_world_seed = tg_world_seed g, ts_organism_id = observer,
             ts_capacity = tg_capacity g,
             ts_next_id = (case state of None \<Rightarrow> initial_tracked_object_id (tg_world_seed g) observer
                           | Some o' \<Rightarrow> to_next_id o'),
             ts_records = (case state of None \<Rightarrow> [] | Some o' \<Rightarrow> map snd (to_records o')) \<rparr>
       in and_then (save_state_validate saved) (\<lambda>_. Inr saved))"

text \<open>One saved state as the organism it restores.\<close>

definition restore_organism :: "TrackedObjectRegistrySaveState \<Rightarrow> OrganismTrackedObjects" where
  "restore_organism s = \<lparr> to_organism_id = ts_organism_id s, to_world_seed = ts_world_seed s,
     to_capacity = ts_capacity s, to_next_id = ts_next_id s,
     to_records = fold (\<lambda>r. bt_insert (tr_key r) r) (ts_records s) [] \<rparr>"

fun restore_all ::
  "u64 \<Rightarrow> u32 \<Rightarrow> TrackedObjectRegistrySaveState list \<Rightarrow> (u64, OrganismTrackedObjects) btree_map
   \<Rightarrow> ((u64, OrganismTrackedObjects) btree_map) contract" where
  "restore_all world_seed capacity [] organisms = Inr organisms"
| "restore_all world_seed capacity (s # states) organisms =
     and_then (save_state_validate s) (\<lambda>_.
       if ts_world_seed s \<noteq> world_seed \<or> ts_capacity s \<noteq> capacity then Inl InvalidId
       else if bt_get organisms (ts_organism_id s) \<noteq> None then Inl MismatchedCreatureId
       else restore_all world_seed capacity states
              (bt_insert (ts_organism_id s) (restore_organism s) organisms))"

definition registry_from_save_states ::
  "u64 \<Rightarrow> u32 \<Rightarrow> TrackedObjectRegistrySaveState list \<Rightarrow> TrackedObjectRegistry contract" where
  "registry_from_save_states world_seed capacity states =
     (if \<not> capacity_in_range capacity then Inl ScalarOutOfRange
      else and_then (restore_all world_seed capacity states []) (\<lambda>organisms. Inr
        \<lparr> tg_world_seed = world_seed, tg_capacity = capacity, tg_organisms = organisms \<rparr>))"

definition registry_from_save_state :: "TrackedObjectRegistrySaveState \<Rightarrow> TrackedObjectRegistry contract" where
  "registry_from_save_state s = registry_from_save_states (ts_world_seed s) (ts_capacity s) [s]"

section \<open>Runs\<close>

datatype RegistryOp = Observe u64 Observation | ObserveBatch u64 "Observation list"

datatype RegistryReply = OneReceipt TrackedObjectObservationReceipt | BatchIds "u64 list"

definition registry_call :: "RegistryOp \<Rightarrow> TrackedObjectRegistry \<Rightarrow> RegistryReply registry_outcome option" where
  "registry_call op g =
     (case op of
        Observe observer obs \<Rightarrow>
          map_option (\<lambda>(r, g'). (and_then r (\<lambda>x. Inr (OneReceipt x)), g')) (registry_observe observer obs g)
      | ObserveBatch observer obs \<Rightarrow>
          map_option (\<lambda>(r, g'). (and_then r (\<lambda>x. Inr (BatchIds x)), g')) (registry_observe_batch observer obs g))"

text \<open>The same with a panic leaving the registry as it was (the staged copy is dropped).\<close>

definition registry_step :: "RegistryOp \<Rightarrow> TrackedObjectRegistry \<Rightarrow> (RegistryReply option) registry_outcome" where
  "registry_step op g =
     (case registry_call op g of None \<Rightarrow> (Inr None, g) | Some (r, g') \<Rightarrow> (and_then r (\<lambda>x. Inr (Some x)), g'))"

end
