(* ===== verification/Tracked_Proofs.thy ===== *)
theory Tracked_Proofs
  imports Tracked_Objects
begin

text \<open>
  The tracked-object registry: the invariant of the objects of one organism and of the registry, that
  no call panics on it, all-or-nothing calls, fresh ids, eviction of the least recently seen object,
  batches as runs of single observations, and the round trip of save states.
\<close>

section \<open>Descriptors and digests\<close>

lemma descriptor_validate_Inr: "descriptor_validate values = Inr () \<Longrightarrow> v \<in> set values \<Longrightarrow> f32_is_finite v"
proof -
  assume ok: "descriptor_validate values = Inr ()" and v: "v \<in> set values"
  have "set values = set (take 9 (take 13 values)) \<union> set (drop 9 (take 13 values)) \<union> set (drop 13 values)"
    by (metis append_take_drop_id set_append)
  then have "v \<in> set (take 9 values @ drop 13 values) \<or> v \<in> set (drop 9 (take 13 values))"
    using v by (auto simp: min_def)
  then show ?thesis using ok by (auto simp: descriptor_validate_def list_ex_iff split: if_splits)
qed

lemma write_descriptor_Some:
  assumes "\<forall>v \<in> set vs. f32_is_finite v"
  shows "\<exists>bs'. write_descriptor vs bs = Some bs'"
  using assms unfolding write_descriptor_def
proof (induction vs arbitrary: bs)
  case (Cons v vs)
  then obtain bs1 where "write_f32 v bs = Inr bs1" by (auto simp: write_f32_def)
  with Cons show ?case by simp
qed simp

lemma fold_bind_Some:
  assumes "\<forall>e \<in> set es. \<forall>a. \<exists>b. f e a = Some b"
  shows "\<exists>b. fold (\<lambda>e acc. Option.bind acc (f e)) es (Some a) = Some b"
  using assms
proof (induction es arbitrary: a)
  case (Cons e es)
  then obtain b where "f e a = Some b" by fastforce
  with Cons show ?case by simp
qed simp

section \<open>The objects of one organism\<close>

lemma initial_id_bounds:
  "1 \<le> unat (initial_tracked_object_id world_seed organism_id)
    \<and> unat (initial_tracked_object_id world_seed organism_id) \<le> 2 ^ 48"
proof -
  define z where "z = splitmix64 (world_seed XOR word_rotl 23 organism_id XOR 0xA11F7A4C0B1EC701) AND (0x0000FFFFFFFFFFFF :: u64)"
  have "z \<le> 0x0000FFFFFFFFFFFF" unfolding z_def by (rule word_and_le1)
  then have z: "unat z \<le> 0x0000FFFFFFFFFFFF" by (simp add: word_le_nat_alt)
  then have "unat (1 + z) = 1 + unat z" by (simp add: unat_word_ariths)
  with z show ?thesis by (simp add: initial_tracked_object_id_def z_def)
qed

lemma initial_id_nonzero: "initial_tracked_object_id world_seed organism_id \<noteq> 0"
  using initial_id_bounds [of world_seed organism_id] by auto

definition record_ok :: "OrganismTrackedObjects \<Rightarrow> PhysicalTrackingKey \<times> TrackedObjectRecord \<Rightarrow> bool" where
  "record_ok o' e \<longleftrightarrow> tr_key (snd e) = fst e \<and> fst e = canonical_key (tr_provenance (snd e))
     \<and> provenance_validate (tr_provenance (snd e)) = Inr ()
     \<and> pp_world_seed (tr_provenance (snd e)) = to_world_seed o'
     \<and> descriptor_validate (tr_descriptor (snd e)) = Inr ()
     \<and> initial_tracked_object_id (to_world_seed o') (to_organism_id o') \<le> tr_id (snd e)
     \<and> tr_id (snd e) < to_next_id o'"

definition tracked_wf :: "OrganismTrackedObjects \<Rightarrow> bool" where
  "tracked_wf o' \<longleftrightarrow> capacity_in_range (to_capacity o')
     \<and> initial_tracked_object_id (to_world_seed o') (to_organism_id o') \<le> to_next_id o'
     \<and> bt_ordered (to_records o') \<and> length (to_records o') \<le> unat (to_capacity o')
     \<and> (\<forall>e \<in> set (to_records o'). record_ok o' e)
     \<and> inj_on (\<lambda>e. tr_id (snd e)) (set (to_records o'))"

lemma tracked_new_wf: "capacity_in_range capacity \<Longrightarrow> tracked_wf (tracked_new organism world_seed capacity)"
  by (simp add: tracked_wf_def tracked_new_def bt_ordered_def)

lemma tracked_digest_Some: "tracked_wf o' \<Longrightarrow> \<exists>d. tracked_digest o' = Some d"
proof -
  assume wf: "tracked_wf o'"
  have "\<forall>e \<in> set (to_records o'). \<forall>bs. \<exists>bs'. write_tracked e bs = Some bs'"
  proof (intro ballI allI)
    fix e bs
    assume "e \<in> set (to_records o')"
    then have "descriptor_validate (tr_descriptor (snd e)) = Inr ()"
      using wf by (auto simp: tracked_wf_def record_ok_def)
    then show "\<exists>bs'. write_tracked e bs = Some bs'"
      by (cases e) (auto simp: write_tracked_def split: prod.split intro!: write_descriptor_Some
          dest: descriptor_validate_Inr)
  qed
  then have "\<exists>z. fold (\<lambda>e acc. Option.bind acc (write_tracked e)) (to_records o') (Some bs) = Some z" for bs
    by (rule fold_bind_Some)
  then show ?thesis unfolding tracked_digest_def by (metis option.simps(9))
qed

lemma make_room_wf:
  assumes wf: "tracked_wf o'"
  obtains evicted base where "make_room o' = Some (evicted, base)"
    and "bt_ordered base" and "set base \<subseteq> set (to_records o')"
    and "length base < unat (to_capacity o')"
    and "\<forall>i. evicted = Some i \<longrightarrow> length (to_records o') = unat (to_capacity o')
      \<and> (\<exists>k r. (k, r) \<in> set (to_records o') \<and> tr_id r = i
          \<and> (\<forall>e \<in> set (to_records o'). eviction_key (k, r) \<le> eviction_key e)
          \<and> set base = {e \<in> set (to_records o'). fst e \<noteq> k})"
    and "evicted = None \<longrightarrow> base = to_records o'"
proof (cases "length (to_records o') = unat (to_capacity o')")
  case False
  then have "length (to_records o') < unat (to_capacity o')" using wf by (simp add: tracked_wf_def)
  with False show thesis
    using wf by (intro that [of None "to_records o'"]) (simp_all add: make_room_def tracked_wf_def)
next
  case True
  have ord: "bt_ordered (to_records o')" using wf by (simp add: tracked_wf_def)
  have "0 < unat (to_capacity o')"
    using wf by (auto simp: tracked_wf_def capacity_in_range_def word_le_nat_alt)
  then obtain k r where m: "min_by_key eviction_key (to_records o') = Some (k, r)"
    using True by (cases "min_by_key eviction_key (to_records o')") auto
  note kr = min_by_key_Some [OF m]
  have "bt_get (to_records o') k = Some r" using kr bt.in_entries_iff [OF ord] by blast
  let ?base = "bt_remove k (to_records o')"
  have base: "set ?base = {e \<in> set (to_records o'). fst e \<noteq> k}" by (rule bt.entries_delete_set [OF ord])
  show thesis
  proof (rule that)
    show "make_room o' = Some (Some (tr_id r), ?base)" using True m by (simp add: make_room_def)
    show "bt_ordered ?base" by (rule bt.ordered_delete [OF ord])
    show "set ?base \<subseteq> set (to_records o')" using base by blast
    show "length ?base < unat (to_capacity o')"
      using bt.length_delete [OF ord, of k] True \<open>0 < unat (to_capacity o')\<close>
        \<open>bt_get (to_records o') k = Some r\<close> by simp
    show "\<forall>i. Some (tr_id r) = Some i \<longrightarrow> length (to_records o') = unat (to_capacity o')
      \<and> (\<exists>k r. (k, r) \<in> set (to_records o') \<and> tr_id r = i
          \<and> (\<forall>e \<in> set (to_records o'). eviction_key (k, r) \<le> eviction_key e)
          \<and> set ?base = {e \<in> set (to_records o'). fst e \<noteq> k})"
      using True kr base by blast
  qed simp
qed

definition same_owner :: "OrganismTrackedObjects \<Rightarrow> OrganismTrackedObjects \<Rightarrow> bool" where
  "same_owner o1 o2 \<longleftrightarrow> to_organism_id o1 = to_organism_id o2 \<and> to_world_seed o1 = to_world_seed o2
     \<and> to_capacity o1 = to_capacity o2"

text \<open>What an observation does: it fails, it sees a known object again, or it tracks a new one.\<close>

inductive observe_effect ::
  "OrganismTrackedObjects
   \<Rightarrow> (ScaffoldContractError, u64 \<times> bool \<times> u64 option, OrganismTrackedObjects) outcome \<Rightarrow> bool"
  for o' :: OrganismTrackedObjects where
  rejected: "observe_effect o' (Inl e, o')"
| seen: "(k, r) \<in> set (to_records o') \<Longrightarrow> tr_last_seen r \<le> tick \<Longrightarrow>
    descriptor_validate descriptor = Inr () \<Longrightarrow>
    observe_effect o' (Inr (tr_id r, False, None), o'\<lparr>to_records :=
      bt_insert k (r\<lparr>tr_last_seen := tick, tr_descriptor := descriptor\<rparr>) (to_records o')\<rparr>)"
| tracked: "bt_get (to_records o') k = None \<Longrightarrow> unat (to_next_id o') + 1 < 2 ^ 64 \<Longrightarrow>
    make_room o' = Some (evicted, base) \<Longrightarrow> provenance_validate p = Inr () \<Longrightarrow>
    descriptor_validate descriptor = Inr () \<Longrightarrow> pp_world_seed p = to_world_seed o' \<Longrightarrow> k = canonical_key p \<Longrightarrow>
    observe_effect o' (Inr (to_next_id o', True, evicted), o'\<lparr>to_next_id := to_next_id o' + 1,
      to_records := bt_insert k \<lparr> tr_id = to_next_id o', tr_provenance = p, tr_key = k,
        tr_last_seen = tick, tr_descriptor = descriptor \<rparr> base\<rparr>)"

lemma tracked_observe_effect:
  assumes wf: "tracked_wf o'"
  obtains x where "tracked_observe p d tick o' = Some x" and "observe_effect o' x"
proof -
  have ord: "bt_ordered (to_records o')" using wf by (simp add: tracked_wf_def)
  obtain ev base where room: "make_room o' = Some (ev, base)" using make_room_wf [OF wf] by metis
  have "\<exists>x. tracked_observe p d tick o' = Some x \<and> observe_effect o' x"
  proof (cases "provenance_validate p = Inr () \<and> descriptor_validate d = Inr ()
      \<and> pp_world_seed p = to_world_seed o'")
    case False
    then show ?thesis
      by (cases "provenance_validate p"; cases "descriptor_validate d")
        (auto simp: tracked_observe_def intro: observe_effect.rejected)
  next
    case True
    show ?thesis
    proof (cases "bt_get (to_records o') (canonical_key p)")
      case (Some r)
      then have kr: "(canonical_key p, r) \<in> set (to_records o')" using bt.in_entries_iff [OF ord] by blast
      show ?thesis
        using True Some observe_effect.seen [OF kr, of tick d]
        by (auto simp: tracked_observe_def Let_def not_less intro: observe_effect.rejected)
    next
      case None
      show ?thesis
        using True None room observe_effect.tracked [OF None _ room, of p d tick]
        by (auto simp: tracked_observe_def Let_def checked_add_def intro: observe_effect.rejected)
    qed
  qed
  with that show thesis by blast
qed

lemma record_ok_cong:
  "same_owner o1 o2 \<Longrightarrow> to_next_id o1 \<le> to_next_id o2 \<Longrightarrow> record_ok o1 e \<Longrightarrow> record_ok o2 e"
  by (auto simp: record_ok_def same_owner_def)

lemma effect_keeps:
  assumes wf: "tracked_wf o'" and "observe_effect o' x"
  shows "tracked_wf (snd x) \<and> same_owner o' (snd x) \<and> to_next_id o' \<le> to_next_id (snd x)"
  using assms(2)
proof cases
  case (rejected e)
  with wf show ?thesis by (simp add: same_owner_def)
next
  case (seen k r tick descriptor)
  have ord: "bt_ordered (to_records o')" using wf by (simp add: tracked_wf_def)
  let ?r = "r\<lparr>tr_last_seen := tick, tr_descriptor := descriptor\<rparr>"
  have set': "set (bt_insert k ?r (to_records o')) = insert (k, ?r) {e \<in> set (to_records o'). fst e \<noteq> k}"
    by (rule bt.entries_update_set [OF ord])
  have get: "bt_get (to_records o') k = Some r" using seen(2) bt.in_entries_iff [OF ord] by blast
  have len: "length (bt_insert k ?r (to_records o')) = length (to_records o')"
    using bt.length_update [OF ord, of k ?r] get by simp
  have ok: "record_ok o' (k, r)" using wf seen(2) by (simp add: tracked_wf_def)
  have inj: "inj_on (\<lambda>e. tr_id (snd e)) (insert (k, r) {e \<in> set (to_records o'). fst e \<noteq> k})"
    by (rule inj_on_subset [of _ "set (to_records o')"]) (use wf seen(2) in \<open>auto simp: tracked_wf_def\<close>)
  then have inj': "inj_on (\<lambda>e. tr_id (snd e)) (insert (k, ?r) {e \<in> set (to_records o'). fst e \<noteq> k})"
    by (simp add: inj_on_insert image_iff)
  let ?o = "o'\<lparr>to_records := bt_insert k ?r (to_records o')\<rparr>"
  have own: "same_owner o' ?o" by (simp add: same_owner_def)
  have "record_ok ?o e" if "e \<in> set (to_records o')" for e
    using that wf by (intro record_ok_cong [OF own]) (simp_all add: tracked_wf_def)
  moreover have "record_ok ?o (k, ?r)" using ok seen(4) by (simp add: record_ok_def)
  ultimately have "\<forall>e \<in> set (to_records ?o). record_ok ?o e" by (simp add: set')
  then have "tracked_wf ?o"
    using wf inj' bt.ordered_update [OF ord, of k ?r] by (simp add: tracked_wf_def set' len)
  with seen(1) own show ?thesis by simp
next
  case (tracked k evicted base p descriptor tick)
  obtain ev' base' where room: "make_room o' = Some (ev', base')" "bt_ordered base'"
    "set base' \<subseteq> set (to_records o')" "length base' < unat (to_capacity o')"
    by (rule make_room_wf [OF wf])
  have "base' = base" using room(1) tracked(4) by simp
  note ord = room(2) [unfolded this] and sub = room(3) [unfolded this] and len = room(4) [unfolded this]
  have key: "k \<notin> fst ` set (to_records o')" using tracked(2) by (simp add: map_of_eq_None_iff)
  then have key': "bt_get base k = None" using sub by (auto simp: map_of_eq_None_iff)
  let ?r = "\<lparr> tr_id = to_next_id o', tr_provenance = p, tr_key = k, tr_last_seen = tick, tr_descriptor = descriptor \<rparr>"
  let ?o = "o'\<lparr>to_next_id := to_next_id o' + 1, to_records := bt_insert k ?r base\<rparr>"
  have set': "set (bt_insert k ?r base) = insert (k, ?r) {e \<in> set base. fst e \<noteq> k}"
    by (rule bt.entries_update_set [OF ord])
  have next_id: "to_next_id o' < to_next_id o' + 1" "to_next_id o' \<le> to_next_id o' + 1"
    using tracked(3) by (simp_all add: word_less_nat_alt word_le_nat_alt unat_word_ariths)
  have own: "same_owner o' ?o" by (simp add: same_owner_def)
  have "record_ok ?o e" if "e \<in> set base" for e
    using that sub wf next_id by (intro record_ok_cong [OF own]) (auto simp: tracked_wf_def)
  moreover have "record_ok ?o (k, ?r)"
    using tracked wf next_id(1) by (simp add: record_ok_def tracked_wf_def)
  moreover have "inj_on (\<lambda>e. tr_id (snd e)) {e \<in> set base. fst e \<noteq> k}"
    by (rule inj_on_subset [of _ "set (to_records o')"]) (use wf sub in \<open>auto simp: tracked_wf_def\<close>)
  then have "inj_on (\<lambda>e. tr_id (snd e)) (insert (k, ?r) {e \<in> set base. fst e \<noteq> k})"
    using wf sub by (fastforce simp: tracked_wf_def record_ok_def inj_on_insert)
  moreover have "initial_tracked_object_id (to_world_seed o') (to_organism_id o') \<le> to_next_id o' + 1"
    using wf next_id(2) by (meson order.trans tracked_wf_def)
  ultimately have "tracked_wf ?o"
    using wf len bt.ordered_update [OF ord, of k ?r] bt.length_update [OF ord, of k ?r] key'
    by (simp add: tracked_wf_def set')
  with tracked(1) own next_id(2) show ?thesis by simp
qed

section \<open>The registry\<close>

definition organism_wf :: "TrackedObjectRegistry \<Rightarrow> u64 \<Rightarrow> OrganismTrackedObjects \<Rightarrow> bool" where
  "organism_wf g k o' \<longleftrightarrow> k \<noteq> 0 \<and> tracked_wf o' \<and> to_organism_id o' = k
     \<and> to_world_seed o' = tg_world_seed g \<and> to_capacity o' = tg_capacity g"

definition registry_wf :: "TrackedObjectRegistry \<Rightarrow> bool" where
  "registry_wf g \<longleftrightarrow> capacity_in_range (tg_capacity g) \<and> bt_ordered (tg_organisms g)
     \<and> (\<forall>(k, o') \<in> set (tg_organisms g). organism_wf g k o')"

definition put_organism :: "u64 \<Rightarrow> OrganismTrackedObjects \<Rightarrow> TrackedObjectRegistry \<Rightarrow> TrackedObjectRegistry" where
  "put_organism k o' g = g\<lparr>tg_organisms := bt_insert k o' (tg_organisms g)\<rparr>"

lemma put_organism_wf:
  assumes "registry_wf g" and "organism_wf g k o'"
  shows "registry_wf (put_organism k o' g)"
proof -
  have ord: "bt_ordered (tg_organisms g)" using assms(1) by (simp add: registry_wf_def)
  show ?thesis
    using assms bt.ordered_update [OF ord, of k o']
    by (auto simp: registry_wf_def put_organism_def bt.entries_update_set [OF ord] organism_wf_def)
qed

lemma staged_wf:
  assumes "registry_wf g" and "staged_observer k g = Inr c"
  shows "organism_wf g k c"
proof (cases "bt_get (tg_organisms g) k")
  case None
  then show ?thesis
    using assms by (auto simp: staged_observer_def organism_wf_def registry_wf_def tracked_new_def
        intro!: tracked_new_wf [unfolded tracked_new_def])
next
  case (Some o')
  then have "(k, o') \<in> set (tg_organisms g)" by (rule map_of_SomeD)
  then show ?thesis using assms Some by (auto simp: staged_observer_def registry_wf_def)
qed

lemma organism_wf_same:
  "organism_wf g k o1 \<Longrightarrow> tracked_wf o2 \<Longrightarrow> same_owner o1 o2 \<Longrightarrow> organism_wf g k o2"
  by (auto simp: organism_wf_def same_owner_def)

text \<open>The result of a call on the registry: an error, or the staged copy put back.\<close>

lemma registry_observe_effect:
  assumes wf: "registry_wf g"
  obtains (failed) e where "registry_observe k obs g = Some (Inl e, g)"
  | (accepted) c i ins ev c' d1 d2 where "staged_observer k g = Inr c"
      and "tracked_observe (fst obs) (fst (snd obs)) (snd (snd obs)) c = Some (Inr (i, ins, ev), c')"
      and "observe_effect c (Inr (i, ins, ev), c')" and "organism_wf g k c" and "organism_wf g k c'"
      and "registry_observe k obs g = Some (Inr \<lparr> or_organism_id = k, or_tracked_object_id = i,
        or_inserted = ins, or_evicted = ev, or_record_count = word_of_nat (length (to_records c')),
        or_next_id = to_next_id c', or_before_digest = d1, or_after_digest = d2 \<rparr>, put_organism k c' g)"
proof -
  obtain p d tick where obs: "obs = (p, d, tick)" by (cases obs)
  show thesis
  proof (cases "staged_observer k g")
    case (Inl e)
    then show thesis by (intro failed [of e]) (simp add: registry_observe_def obs)
  next
    case (Inr c)
    have c: "organism_wf g k c" by (rule staged_wf [OF wf Inr])
    then have cw: "tracked_wf c" by (simp add: organism_wf_def)
    obtain x where x: "tracked_observe p d tick c = Some x" "observe_effect c x"
      by (rule tracked_observe_effect [OF cw])
    obtain d1 where d1: "tracked_digest c = Some d1" using tracked_digest_Some [OF cw] by blast
    obtain r c' where rc: "x = (r, c')" by force
    have keep: "tracked_wf c'" "same_owner c c'" using effect_keeps [OF cw x(2)] rc by simp_all
    obtain d2 where d2: "tracked_digest c' = Some d2" using tracked_digest_Some [OF keep(1)] by blast
    show thesis
    proof (cases r)
      case (Inl e)
      then show thesis
        using x d1 rc \<open>staged_observer k g = Inr c\<close> by (intro failed [of e]) (simp add: registry_observe_def obs)
    next
      case R: (Inr y)
      obtain i ins ev where y: "y = (i, ins, ev)" by (cases y)
      show thesis
      proof (rule accepted)
        show "staged_observer k g = Inr c" by (rule Inr)
        show "tracked_observe (fst obs) (fst (snd obs)) (snd (snd obs)) c = Some (Inr (i, ins, ev), c')"
          using x rc R y obs by simp
        show "observe_effect c (Inr (i, ins, ev), c')" using x(2) rc R y by simp
        show "organism_wf g k c" by (rule c)
        show "organism_wf g k c'" by (rule organism_wf_same [OF c keep])
        show "registry_observe k obs g = Some (Inr \<lparr> or_organism_id = k, or_tracked_object_id = i,
          or_inserted = ins, or_evicted = ev, or_record_count = word_of_nat (length (to_records c')),
          or_next_id = to_next_id c', or_before_digest = d1, or_after_digest = d2 \<rparr>, put_organism k c' g)"
          using x(1) rc R y obs d1 d2 Inr by (simp add: registry_observe_def put_organism_def)
      qed
    qed
  qed
qed

lemma observe_all_effect:
  assumes "tracked_wf c"
  obtains r c' where "observe_all obs c = Some (r, c')" and "tracked_wf c'" and "same_owner c c'"
    and "to_next_id c \<le> to_next_id c'"
proof -
  have "\<exists>r c'. observe_all obs c = Some (r, c') \<and> tracked_wf c' \<and> same_owner c c'
      \<and> to_next_id c \<le> to_next_id c'"
    using assms
  proof (induction obs arbitrary: c)
    case Nil
    then show ?case by (simp add: same_owner_def)
  next
    case (Cons x obs)
    obtain p d tick where x: "x = (p, d, tick)" by (cases x)
    obtain y where y: "tracked_observe p d tick c = Some y" "observe_effect c y"
      by (rule tracked_observe_effect [OF Cons.prems])
    obtain r c1 where "y = (r, c1)" by force
    with y have s: "tracked_observe p d tick c = Some (r, c1)" "observe_effect c (r, c1)" by simp_all
    note k = effect_keeps [OF Cons.prems s(2), simplified]
    show ?case
    proof (cases r)
      case (Inl e)
      then show ?thesis using s k by (simp add: x)
    next
      case (Inr y)
      obtain rs c2 where rs: "observe_all obs c1 = Some (rs, c2)" "tracked_wf c2" "same_owner c1 c2"
          "to_next_id c1 \<le> to_next_id c2"
        using Cons.IH [of c1] k by blast
      show ?thesis
        using s(1) Inr rs k by (cases y) (auto simp: x same_owner_def intro: order.trans)
    qed
  qed
  with that show thesis by blast
qed

lemma registry_batch_effect:
  assumes wf: "registry_wf g"
  obtains (failed) e where "registry_observe_batch k obs g = Some (Inl e, g)"
  | (accepted) c ids c' where "staged_observer k g = Inr c" and "observe_all obs c = Some (Inr ids, c')"
      and "organism_wf g k c" and "organism_wf g k c'" and "to_next_id c \<le> to_next_id c'"
      and "registry_observe_batch k obs g = Some (Inr ids, if ids \<noteq> [] then put_organism k c' g else g)"
proof (cases "staged_observer k g")
  case (Inl e)
  then show thesis by (intro failed [of e]) (simp add: registry_observe_batch_def)
next
  case (Inr c)
  have c: "organism_wf g k c" by (rule staged_wf [OF wf Inr])
  then have cw: "tracked_wf c" by (simp add: organism_wf_def)
  obtain r c' where x: "observe_all obs c = Some (r, c')" and keep: "tracked_wf c'" "same_owner c c'"
      and up: "to_next_id c \<le> to_next_id c'"
    by (rule observe_all_effect [OF cw])
  show thesis
  proof (cases r)
    case (Inl e)
    then show thesis
      using x \<open>staged_observer k g = Inr c\<close> by (intro failed [of e]) (simp add: registry_observe_batch_def)
  next
    case R: (Inr ids)
    show thesis
    proof (rule accepted [OF Inr _ c organism_wf_same [OF c keep] up])
      show "observe_all obs c = Some (Inr ids, c')" using x R by simp
      then show "registry_observe_batch k obs g
          = Some (Inr ids, if ids \<noteq> [] then put_organism k c' g else g)"
        by (simp only: registry_observe_batch_def Inr put_organism_def sum.case Option.bind.simps prod.case)
    qed
  qed
qed

lemma registry_call_effect:
  assumes wf: "registry_wf g"
  shows "\<exists>r g'. registry_call op g = Some (r, g') \<and> registry_wf g' \<and> (\<forall>e. r = Inl e \<longrightarrow> g' = g)"
proof (cases op)
  case (Observe k obs)
  show ?thesis
    by (rule registry_observe_effect [OF wf, of k obs])
      (auto simp: Observe registry_call_def wf intro: put_organism_wf [OF wf])
next
  case (ObserveBatch k obs)
  show ?thesis
    by (rule registry_batch_effect [OF wf, of k obs])
      (auto simp: ObserveBatch registry_call_def wf intro: put_organism_wf [OF wf])
qed

interpretation registry_machine: atomic_machine registry_step registry_wf
proof
  fix g op e
  assume wf: "registry_wf g"
  show "registry_wf (snd (registry_step op g))"
    using registry_call_effect [OF wf, of op] by (auto simp: registry_step_def)
  assume "fst (registry_step op g) = Inl e"
  then show "snd (registry_step op g) = g"
    using registry_call_effect [OF wf, of op] by (auto simp: registry_step_def and_then_Inl_iff)
qed

lemma registry_new_wf: "registry_new world_seed capacity = Inr g \<Longrightarrow> registry_wf g"
  by (auto simp: registry_new_def registry_wf_def bt_ordered_def split: if_splits)

text \<open>
  C9. The registry stays valid and never panics: whatever observations and batches run on a new
  registry, every organism's records are sorted, within capacity, valid and consistent with their
  keys, with distinct ids below the next id, and no further call reaches either \<open>expect\<close>.
\<close>

theorem registry_stays_valid:
  assumes "registry_new world_seed capacity = Inr g"
  shows "registry_wf (run_ops registry_step ops g)
    \<and> registry_call op (run_ops registry_step ops g) \<noteq> None"
  using registry_machine.run_keeps [OF registry_new_wf [OF assms], of ops]
    registry_call_effect [of "run_ops registry_step ops g" op] by auto

text \<open>
  All or nothing: a rejected observation or batch leaves the registry as it was, so a run ends in
  the state of its accepted calls alone.
\<close>

lemma rejected_observations_leave_no_trace:
  assumes "registry_wf g"
  shows "run_ops registry_step (accepted_ops registry_step ops g) g = run_ops registry_step ops g"
  using assms by (rule registry_machine.rejected_ops_leave_no_trace)

section \<open>Ids\<close>

text \<open>The id the next new object of an observer gets.\<close>

definition next_id_of :: "u64 \<Rightarrow> TrackedObjectRegistry \<Rightarrow> u64" where
  "next_id_of k g = (case bt_get (tg_organisms g) k of
     None \<Rightarrow> initial_tracked_object_id (tg_world_seed g) k | Some o' \<Rightarrow> to_next_id o')"

lemma staged_next_id: "staged_observer k g = Inr c \<Longrightarrow> to_next_id c = next_id_of k g"
  by (auto simp: staged_observer_def next_id_of_def tracked_new_def split: option.splits)

lemma put_next_id:
  "registry_wf g \<Longrightarrow> next_id_of k (put_organism k' c g) = (if k = k' then to_next_id c else next_id_of k g)"
  using bt.lookup_update [of "tg_organisms g" k' c]
  by (simp add: next_id_of_def put_organism_def registry_wf_def split: option.split)

text \<open>
  The ids that a call gives to newly tracked objects of the observer: that of a receipt that reports an insertion,
  and those of the observations of an accepted batch that insert on the staged copy.
\<close>

fun inserted_ids :: "Observation list \<Rightarrow> OrganismTrackedObjects \<Rightarrow> u64 list" where
  "inserted_ids [] c = []"
| "inserted_ids ((p, d, t) # obs) c =
     (case tracked_observe p d t c of
        Some (Inr (i, inserted, _), c') \<Rightarrow> (if inserted then [i] else []) @ inserted_ids obs c'
      | _ \<Rightarrow> [])"

definition new_id :: "u64 \<Rightarrow> RegistryOp \<Rightarrow> TrackedObjectRegistry \<Rightarrow> u64 list" where
  "new_id k op g =
     (case registry_call op g of
        Some (Inr (OneReceipt r), _) \<Rightarrow>
          if or_organism_id r = k \<and> or_inserted r then [or_tracked_object_id r] else []
      | Some (Inr (BatchIds ids), _) \<Rightarrow>
          (case op of
             ObserveBatch observer obs \<Rightarrow>
               (case staged_observer observer g of
                  Inr c \<Rightarrow> if observer = k then inserted_ids obs c else []
                | Inl e \<Rightarrow> [])
           | Observe observer obs \<Rightarrow> [])
      | _ \<Rightarrow> [])"

fun new_ids :: "u64 \<Rightarrow> RegistryOp list \<Rightarrow> TrackedObjectRegistry \<Rightarrow> u64 list" where
  "new_ids k [] g = []"
| "new_ids k (op # ops) g = new_id k op g @ new_ids k ops (snd (registry_step op g))"

text \<open>The ids a batch inserts are increasing, and they are among those it replies.\<close>

definition fresh_between :: "u64 list \<Rightarrow> u64 \<Rightarrow> u64 \<Rightarrow> bool" where
  "fresh_between ids low high \<longleftrightarrow> low \<le> high \<and> sorted_wrt (<) ids \<and> (\<forall>i \<in> set ids. low \<le> i \<and> i < high)"

lemma fresh_append: "fresh_between xs a b \<Longrightarrow> fresh_between ys b c \<Longrightarrow> fresh_between (xs @ ys) a c"
  unfolding fresh_between_def sorted_wrt_append set_append
  by (auto dest: order.strict_trans2 order.trans)

lemma observe_fresh:
  assumes "tracked_wf c" and "observe_effect c (Inr (i, inserted, ev), c')"
  shows "fresh_between (if inserted then [i] else []) (to_next_id c) (to_next_id c')"
proof -
  have "to_next_id c \<le> to_next_id c'" using effect_keeps [OF assms] by simp
  moreover have "inserted \<longrightarrow> i = to_next_id c \<and> i < to_next_id c'"
    using assms(2) by cases (auto simp: word_less_nat_alt unat_word_ariths)
  ultimately show ?thesis by (auto simp: fresh_between_def)
qed

lemma inserted_fresh:
  "tracked_wf c \<Longrightarrow> observe_all obs c = Some (Inr ids, c') \<Longrightarrow>
   fresh_between (inserted_ids obs c) (to_next_id c) (to_next_id c') \<and> set (inserted_ids obs c) \<subseteq> set ids"
proof (induction obs arbitrary: c ids)
  case Nil
  then show ?case by (simp add: fresh_between_def)
next
  case (Cons x obs)
  obtain p d tick where x: "x = (p, d, tick)" by (cases x)
  from Cons.prems(2) obtain i inserted ev c1 ids' where one: "tracked_observe p d tick c = Some (Inr (i, inserted, ev), c1)"
    and rest: "observe_all obs c1 = Some (Inr ids', c')" and ids: "ids = i # ids'"
    by (auto simp: x and_then_def split: Option.bind_splits sum.splits prod.splits)
  obtain y where "tracked_observe p d tick c = Some y" "observe_effect c y"
    by (rule tracked_observe_effect [OF Cons.prems(1)])
  then have eff: "observe_effect c (Inr (i, inserted, ev), c1)" using one by simp
  have "tracked_wf c1" using effect_keeps [OF Cons.prems(1) eff] by simp
  from Cons.IH [OF this rest] show ?case
    using fresh_append [OF observe_fresh [OF Cons.prems(1) eff]] one by (auto simp: x ids)
qed

lemma new_id_effect:
  assumes wf: "registry_wf g"
  shows "fresh_between (new_id k op g) (next_id_of k g) (next_id_of k (snd (registry_step op g)))"
proof (cases op)
  case (Observe k' obs)
  show ?thesis
  proof (rule registry_observe_effect [OF wf, of k' obs])
    fix e
    assume "registry_observe k' obs g = Some (Inl e, g)"
    then show ?thesis by (simp add: Observe registry_step_def registry_call_def new_id_def fresh_between_def)
  next
    fix c i ins ev c' d1 d2
    assume c: "staged_observer k' g = Inr c" "observe_effect c (Inr (i, ins, ev), c')" "organism_wf g k' c"
      and call: "registry_observe k' obs g = Some (Inr \<lparr> or_organism_id = k', or_tracked_object_id = i,
        or_inserted = ins, or_evicted = ev, or_record_count = word_of_nat (length (to_records c')),
        or_next_id = to_next_id c', or_before_digest = d1, or_after_digest = d2 \<rparr>, put_organism k' c' g)"
    have "fresh_between (if ins then [i] else []) (to_next_id c) (to_next_id c')"
      using observe_fresh [OF _ c(2)] c(3) by (simp add: organism_wf_def)
    then show ?thesis
      using call staged_next_id [OF c(1)] put_next_id [OF wf, of k k' c']
      by (auto simp: Observe registry_step_def registry_call_def new_id_def fresh_between_def)
  qed
next
  case (ObserveBatch k' obs)
  show ?thesis
  proof (rule registry_batch_effect [OF wf, of k' obs])
    fix e
    assume "registry_observe_batch k' obs g = Some (Inl e, g)"
    then show ?thesis by (simp add: ObserveBatch registry_step_def registry_call_def new_id_def fresh_between_def)
  next
    fix c ids c'
    assume c: "staged_observer k' g = Inr c" "observe_all obs c = Some (Inr ids, c')" "organism_wf g k' c"
      and call: "registry_observe_batch k' obs g = Some (Inr ids, if ids \<noteq> [] then put_organism k' c' g else g)"
    have fresh: "fresh_between (inserted_ids obs c) (to_next_id c) (to_next_id c')" "set (inserted_ids obs c) \<subseteq> set ids"
      using inserted_fresh [OF _ c(2)] c(3) by (auto simp: organism_wf_def)
    then show ?thesis
      using call c(1) staged_next_id [OF c(1)] put_next_id [OF wf, of k k' c']
      by (cases "ids = []") (auto simp: ObserveBatch registry_step_def registry_call_def new_id_def fresh_between_def)
  qed
qed

interpretation registry_ids: ratchet_machine registry_step registry_wf "next_id_of k" for k
  by unfold_locales (use new_id_effect in \<open>auto simp: fresh_between_def\<close>)

text \<open>
  C10. Ids are never reused: the ids a registry gives to the newly tracked objects of an organism, by single
  observations and inside batches, are strictly increasing over any run, evictions included, and stay below its
  next id.
\<close>

theorem tracked_ids_never_reused:
  assumes "registry_wf g"
  shows "sorted_wrt (<) (new_ids k ops g)
    \<and> (\<forall>i \<in> set (new_ids k ops g). next_id_of k g \<le> i \<and> i < next_id_of k (run_ops registry_step ops g))"
proof -
  have "fresh_between (new_ids k ops g) (next_id_of k g) (next_id_of k (run_ops registry_step ops g))"
    using assms
  proof (induction ops arbitrary: g)
    case (Cons op ops)
    then show ?case
      using fresh_append [OF new_id_effect [OF Cons.prems]] registry_machine.step_keeps by fastforce
  qed (simp add: fresh_between_def)
  then show ?thesis by (simp add: fresh_between_def)
qed

section \<open>Eviction\<close>

text \<open>The records tracked for an observer.\<close>

definition tracked :: "u64 \<Rightarrow> TrackedObjectRegistry \<Rightarrow> TrackedObjectRecord set" where
  "tracked k g = (case registry_records_for k g of None \<Rightarrow> {} | Some rs \<Rightarrow> set rs)"

lemma staged_tracked: "staged_observer k g = Inr c \<Longrightarrow> tracked k g = snd ` set (to_records c)"
  by (auto simp: staged_observer_def tracked_def registry_records_for_def tracked_new_def split: option.splits)

lemma put_tracked:
  "registry_wf g \<Longrightarrow> tracked k (put_organism k c g) = snd ` set (to_records c)"
  using bt.lookup_update [of "tg_organisms g" k c]
  by (simp add: tracked_def registry_records_for_def put_organism_def registry_wf_def)

lemma card_records:
  assumes "tracked_wf c"
  shows "card (snd ` set (to_records c)) = length (to_records c)"
proof -
  have "inj_on snd (set (to_records c))"
    using assms unfolding tracked_wf_def by (auto simp: inj_on_def)
  moreover have "distinct (to_records c)"
    using assms bt.distinct_keys [of "to_records c"] by (simp add: tracked_wf_def distinct_map)
  ultimately show ?thesis by (simp add: card_image distinct_card)
qed

lemma bt_entry_unique:
  assumes "bt_ordered m" and "e \<in> set m" and "(fst e, r) \<in> set m"
  shows "e = (fst e, r)"
proof -
  have "(fst e, snd e) \<in> set m" using assms(2) by simp
  with assms(3) show ?thesis unfolding bt.in_entries_iff [OF assms(1)] by (simp add: prod_eq_iff)
qed

lemma effect_ids:
  assumes wf: "tracked_wf c" and "observe_effect c (Inr (i, ins, ev), c')"
  shows "(\<lambda>e. tr_id (snd e)) ` set (to_records c')
      = insert i ((\<lambda>e. tr_id (snd e)) ` set (to_records c) - set_option ev)
    \<and> (\<forall>j. ev = Some j \<longrightarrow> length (to_records c) = unat (to_capacity c)
         \<and> (\<exists>e \<in> set (to_records c). tr_id (snd e) = j
              \<and> (\<forall>e' \<in> set (to_records c). tr_last_seen (snd e) \<le> tr_last_seen (snd e'))))"
  using assms(2)
proof cases
  case (seen k r tick descriptor)
  have ord: "bt_ordered (to_records c)" using wf by (simp add: tracked_wf_def)
  have "S = insert (k, r) {e \<in> S. fst e \<noteq> k}" if "S = set (to_records c)" for S
  proof -
    have "e = (k, r)" if "e \<in> set (to_records c)" "fst e = k" for e
      using bt_entry_unique [OF ord that(1), of r] that(2) seen(5) by simp
    then show ?thesis using that seen(5) by blast
  qed
  from arg_cong [OF this [OF refl], of "image (\<lambda>e. tr_id (snd e))"] show ?thesis
    using seen by (simp add: bt.entries_update_set [OF ord])
next
  case (tracked k base p descriptor tick)
  let ?id = "\<lambda>e :: PhysicalTrackingKey \<times> TrackedObjectRecord. tr_id (snd e)"
  obtain ev' base' where room: "make_room c = Some (ev', base')" "bt_ordered base'"
    "set base' \<subseteq> set (to_records c)" "length base' < unat (to_capacity c)"
    "\<forall>j. ev' = Some j \<longrightarrow> length (to_records c) = unat (to_capacity c)
      \<and> (\<exists>k r. (k, r) \<in> set (to_records c) \<and> tr_id r = j
          \<and> (\<forall>e \<in> set (to_records c). eviction_key (k, r) \<le> eviction_key e)
          \<and> set base' = {e \<in> set (to_records c). fst e \<noteq> k})"
    "ev' = None \<longrightarrow> base' = to_records c"
    by (rule make_room_wf [OF wf])
  have same: "ev' = ev" "base' = base" using room(1) tracked by simp_all
  have fresh: "{e \<in> set base. fst e \<noteq> k} = set base"
    using room(3) tracked(4) same by (force simp: map_of_eq_None_iff)
  have new: "?id ` set (to_records c') = insert i (?id ` set base)"
    using tracked room(2) fresh by (simp add: same bt.entries_update_set)
  have evicted: "?id ` set base = ?id ` set (to_records c) - {j} \<and> length (to_records c) = unat (to_capacity c)
      \<and> (\<exists>e \<in> set (to_records c). tr_id (snd e) = j
           \<and> (\<forall>e' \<in> set (to_records c). tr_last_seen (snd e) \<le> tr_last_seen (snd e')))" if ev_j: "ev = Some j" for j
  proof -
    obtain k0 r0 where e0: "(k0, r0) \<in> set (to_records c)" "tr_id r0 = j"
        "\<forall>e \<in> set (to_records c). eviction_key (k0, r0) \<le> eviction_key e"
        "set base = {e \<in> set (to_records c). fst e \<noteq> k0}" "length (to_records c) = unat (to_capacity c)"
      using room(5) ev_j unfolding same by blast
    have "fst e = k0 \<longleftrightarrow> e = (k0, r0)" if "e \<in> set (to_records c)" for e
      using bt_entry_unique [OF _ that, of r0] e0(1) wf by (auto simp: tracked_wf_def)
    then have "set base = set (to_records c) - {(k0, r0)}" unfolding e0(4) by blast
    moreover have "inj_on ?id (set (to_records c))" using wf by (simp add: tracked_wf_def)
    ultimately have "?id ` set base = ?id ` set (to_records c) - {j}"
      using e0(1,2) inj_on_image_set_diff [of ?id "set (to_records c)" "set (to_records c)" "{(k0, r0)}"] by simp
    moreover have "\<forall>e' \<in> set (to_records c). tr_last_seen r0 \<le> tr_last_seen (snd e')"
      using e0(3) by (auto simp: eviction_key_def less_eq_prod_def)
    moreover from this have "\<exists>e \<in> set (to_records c). tr_id (snd e) = j
        \<and> (\<forall>e' \<in> set (to_records c). tr_last_seen (snd e) \<le> tr_last_seen (snd e'))"
      by (intro bexI [OF _ e0(1)]) (simp add: e0(2))
    ultimately show ?thesis using e0(5) by simp
  qed
  show ?thesis
    using new evicted room(6) by (cases ev) (auto simp: same)
qed

text \<open>
  C11. Bounded tracking with eviction of the oldest: an accepted observation tracks its object, keeps
  every other tracked id but the evicted one, and evicts only from a full list a record that none was
  seen before; the count of the receipt is exact and within the capacity.
\<close>

theorem eviction_is_least_recently_seen:
  assumes wf: "registry_wf g" and call: "registry_observe k obs g = Some (Inr r, g')"
  shows "tr_id ` tracked k g' = insert (or_tracked_object_id r) (tr_id ` tracked k g - set_option (or_evicted r))
    \<and> (\<forall>i. or_evicted r = Some i \<longrightarrow> card (tracked k g) = unat (tg_capacity g)
         \<and> (\<exists>v \<in> tracked k g. tr_id v = i \<and> (\<forall>w \<in> tracked k g. tr_last_seen v \<le> tr_last_seen w)))
    \<and> card (tracked k g') = unat (or_record_count r) \<and> unat (or_record_count r) \<le> unat (tg_capacity g)"
proof (rule registry_observe_effect [OF wf, of k obs])
  fix e
  assume "registry_observe k obs g = Some (Inl e, g)"
  with call show ?thesis by simp
next
  fix c i ins ev c' d1 d2
  assume c: "staged_observer k g = Inr c" "observe_effect c (Inr (i, ins, ev), c')" "organism_wf g k c"
    "organism_wf g k c'"
    and call': "registry_observe k obs g = Some (Inr \<lparr> or_organism_id = k, or_tracked_object_id = i,
        or_inserted = ins, or_evicted = ev, or_record_count = word_of_nat (length (to_records c')),
        or_next_id = to_next_id c', or_before_digest = d1, or_after_digest = d2 \<rparr>, put_organism k c' g)"
  have cw: "tracked_wf c" "tracked_wf c'" "to_capacity c = tg_capacity g" "to_capacity c' = tg_capacity g"
    using c(3,4) by (simp_all add: organism_wf_def)
  have before: "tracked k g = snd ` set (to_records c)" by (rule staged_tracked [OF c(1)])
  have after: "tracked k g' = snd ` set (to_records c')"
    using call call' put_tracked [OF wf, of k c'] by simp
  have len: "length (to_records c') \<le> unat (tg_capacity g)" using cw by (simp add: tracked_wf_def)
  then have "length (to_records c') < 2 ^ 32" using unsigned_less [of "tg_capacity g", where 'a = nat] by simp
  then have "unat (word_of_nat (length (to_records c')) :: u32) = length (to_records c')"
    by (simp add: unat_of_nat)
  then show ?thesis
    using effect_ids [OF cw(1) c(2)] call call' len
    by (auto simp: before after card_records cw image_image)
qed

section \<open>Batches\<close>

text \<open>The ids that single observations of one observer return, if each is accepted.\<close>

fun receipt_ids :: "u64 \<Rightarrow> Observation list \<Rightarrow> TrackedObjectRegistry \<Rightarrow> u64 list option" where
  "receipt_ids k [] g = Some []"
| "receipt_ids k (x # xs) g =
     (case registry_observe k x g of
        Some (Inr r, g') \<Rightarrow> map_option ((#) (or_tracked_object_id r)) (receipt_ids k xs g')
      | _ \<Rightarrow> None)"

lemma staged_put:
  "registry_wf g \<Longrightarrow> organism_wf g k c \<Longrightarrow> staged_observer k (put_organism k c g) = Inr c"
  using bt.lookup_update [of "tg_organisms g" k c]
  by (simp add: staged_observer_def put_organism_def registry_wf_def organism_wf_def)

lemma put_again [simp]: "put_organism k c (put_organism k d g) = put_organism k c g"
  by (simp add: put_organism_def)

lemma observe_all_runs:
  assumes "registry_wf g" and "staged_observer k g = Inr c" and "observe_all obs c = Some (Inr ids, c')"
  shows "receipt_ids k obs g = Some ids \<and> length ids = length obs
    \<and> run_ops registry_step (map (Observe k) obs) g = (if obs = [] then g else put_organism k c' g)"
  using assms
proof (induction obs arbitrary: g c ids)
  case Nil
  then show ?case by simp
next
  case (Cons x obs)
  obtain p d tick where x: "x = (p, d, tick)" by (cases x)
  from Cons.prems(3) obtain i y c1 ids' where one: "tracked_observe p d tick c = Some (Inr (i, y), c1)"
    and rest: "observe_all obs c1 = Some (Inr ids', c')" and ids: "ids = i # ids'"
    by (auto simp: x and_then_def split: Option.bind_splits sum.splits prod.splits)
  show ?case
  proof (rule registry_observe_effect [OF Cons.prems(1), of k x])
    fix e
    assume bad: "registry_observe k x g = Some (Inl e, g)"
    have c: "organism_wf g k c" by (rule staged_wf [OF Cons.prems(1,2)])
    have "registry_observe k x g \<noteq> Some (Inl e, g)"
      using Cons.prems(2) one by (auto simp: registry_observe_def x split: Option.bind_splits prod.split)
    with bad show ?thesis by simp
  next
    fix c0 i' ins ev c1' d1 d2
    assume a: "staged_observer k g = Inr c0" "organism_wf g k c1'"
      "tracked_observe (fst x) (fst (snd x)) (snd (snd x)) c0 = Some (Inr (i', ins, ev), c1')"
      and call: "registry_observe k x g = Some (Inr \<lparr> or_organism_id = k, or_tracked_object_id = i',
        or_inserted = ins, or_evicted = ev, or_record_count = word_of_nat (length (to_records c1')),
        or_next_id = to_next_id c1', or_before_digest = d1, or_after_digest = d2 \<rparr>, put_organism k c1' g)"
    have same: "c1' = c1" "i' = i" using a Cons.prems(2) one by (auto simp: x)
    have wf: "registry_wf (put_organism k c1 g)"
      using put_organism_wf [OF Cons.prems(1) a(2)] by (simp add: same)
    have staged: "staged_observer k (put_organism k c1 g) = Inr c1"
      using staged_put [OF Cons.prems(1) a(2)] by (simp add: same)
    show ?thesis
      using Cons.IH [OF wf staged rest] call rest
      by (auto simp: same ids registry_step_def registry_call_def)
  qed
qed

text \<open>
  A batch is its observations: an accepted batch leaves the registry that its observations leave
  when they are made one at a time, all of them accepted, with the same ids.
\<close>

lemma batch_equals_single_observations:
  assumes wf: "registry_wf g" and call: "registry_observe_batch k obs g = Some (Inr ids, g')"
  shows "receipt_ids k obs g = Some ids \<and> run_ops registry_step (map (Observe k) obs) g = g'"
proof (rule registry_batch_effect [OF wf, of k obs])
  fix e
  assume "registry_observe_batch k obs g = Some (Inl e, g)"
  with call show ?thesis by simp
next
  fix c ids' c'
  assume c: "staged_observer k g = Inr c" "observe_all obs c = Some (Inr ids', c')"
    and "registry_observe_batch k obs g = Some (Inr ids', if ids' \<noteq> [] then put_organism k c' g else g)"
  with call observe_all_runs [OF wf c] show ?thesis by auto
qed

end
