(* ===== verification/Tracked_Saves.thy ===== *)
theory Tracked_Saves
  imports Tracked_Proofs
begin

text \<open>
  Saving and restoring the tracked-object registry: what the save-state validator accepts, and the two
  round trips between registries and lists of save states.
\<close>

section \<open>What the validator accepts\<close>

definition saved_record_ok :: "u64 \<Rightarrow> u64 \<Rightarrow> TrackedObjectRecord \<Rightarrow> bool" where
  "saved_record_ok world_seed initial_id r \<longleftrightarrow> tr_id r \<noteq> 0
     \<and> provenance_validate (tr_provenance r) = Inr () \<and> descriptor_validate (tr_descriptor r) = Inr ()
     \<and> pp_world_seed (tr_provenance r) = world_seed \<and> tr_key r = canonical_key (tr_provenance r)
     \<and> initial_id \<le> tr_id r"

lemma check_records_Inr_iff:
  "check_records world_seed initial_id previous seen rs = Inr seen' \<longleftrightarrow>
     (\<forall>r \<in> set rs. saved_record_ok world_seed initial_id r)
     \<and> sorted_wrt (<) (map tr_key rs) \<and> (\<forall>k. previous = Some k \<longrightarrow> (\<forall>r \<in> set rs. k < tr_key r))
     \<and> distinct (map tr_id rs) \<and> tr_id ` set rs \<inter> seen = {} \<and> seen' = seen \<union> tr_id ` set rs"
proof (induction rs arbitrary: previous seen)
  case Nil
  show ?case by auto
next
  case (Cons r rs)
  have prev: "(case previous of None \<Rightarrow> False | Some k \<Rightarrow> tr_key r \<le> k) \<longleftrightarrow>
      \<not> (\<forall>k. previous = Some k \<longrightarrow> k < tr_key r)"
    by (cases previous) (simp_all add: not_less)
  have trans: "k < tr_key r \<Longrightarrow> \<forall>x \<in> set rs. tr_key r < tr_key x \<Longrightarrow> x \<in> set rs \<Longrightarrow> k < tr_key x" for k x
    by (meson less_trans)
  show ?case
    unfolding check_records.simps prev
    by (auto simp: Cons.IH saved_record_ok_def not_less intro: trans split: if_splits)
qed

definition saved_ok :: "TrackedObjectRegistrySaveState \<Rightarrow> bool" where
  "saved_ok s \<longleftrightarrow> ts_schema_version s = 1 \<and> capacity_in_range (ts_capacity s)
     \<and> length (ts_records s) \<le> unat (ts_capacity s) \<and> ts_organism_id s \<noteq> 0
     \<and> (\<forall>r \<in> set (ts_records s). saved_record_ok (ts_world_seed s)
          (initial_tracked_object_id (ts_world_seed s) (ts_organism_id s)) r \<and> tr_id r < ts_next_id s)
     \<and> sorted_wrt (<) (map tr_key (ts_records s)) \<and> distinct (map tr_id (ts_records s))
     \<and> initial_tracked_object_id (ts_world_seed s) (ts_organism_id s) \<le> ts_next_id s"

lemma below_highest:
  fixes next_id initial :: u64
  assumes "finite S" and "initial \<noteq> 0"
  shows "next_id < initial \<or> next_id \<le> (if S = {} then saturating_sub initial 1 else Max S)
    \<longleftrightarrow> \<not> (initial \<le> next_id \<and> (\<forall>i \<in> S. i < next_id))"
proof (cases "S = {}")
  case True
  have "1 \<le> initial" using assms(2) by (simp add: word_le_nat_alt) (metis One_nat_def Suc_leI gr0I unat_eq_zero)
  then have "unat (initial - 1) < unat initial" by (simp add: unat_sub word_le_nat_alt)
  then have "next_id \<le> initial - 1 \<Longrightarrow> next_id < initial" by (simp add: word_less_nat_alt word_le_nat_alt)
  then show ?thesis using True \<open>1 \<le> initial\<close> by (auto simp: saturating_sub_def not_le)
next
  case False
  then show ?thesis using assms(1) by (auto simp: not_le not_less Max_ge_iff)
qed

lemma save_state_validate_iff: "save_state_validate s = Inr () \<longleftrightarrow> saved_ok s"
proof -
  have "finite (tr_id ` set (ts_records s))" by simp
  note high = below_highest [OF this initial_id_nonzero, of "ts_next_id s" "ts_world_seed s" "ts_organism_id s"]
  have "save_state_validate s = Inr () \<longleftrightarrow> ts_schema_version s = 1 \<and> capacity_in_range (ts_capacity s)
      \<and> length (ts_records s) \<le> unat (ts_capacity s) \<and> ts_organism_id s \<noteq> 0
      \<and> (\<exists>seen. check_records (ts_world_seed s) (initial_tracked_object_id (ts_world_seed s) (ts_organism_id s))
             None {} (ts_records s) = Inr seen
           \<and> \<not> (ts_next_id s < initial_tracked_object_id (ts_world_seed s) (ts_organism_id s)
                \<or> ts_next_id s \<le> (if seen = {} then saturating_sub
                     (initial_tracked_object_id (ts_world_seed s) (ts_organism_id s)) 1 else Max seen)))"
    by (auto simp: save_state_validate_def Let_def not_less)
  then show ?thesis
    by (simp only: check_records_Inr_iff ex_simps simp_thms high Un_empty_left cong: conj_cong)
      (auto simp: saved_ok_def high)
qed

section \<open>Restored organisms\<close>

lemma restored_records:
  assumes "saved_ok s"
  shows "to_records (restore_organism s) = map (\<lambda>r. (tr_key r, r)) (ts_records s)"
proof -
  let ?kvs = "map (\<lambda>r. (tr_key r, r)) (ts_records s)"
  have ord: "bt_ordered ?kvs" using assms by (simp add: saved_ok_def bt_ordered_def comp_def)
  have "fold (\<lambda>(k, v). bt_insert k v) ?kvs [] = ?kvs"
    by (rule bt.entries_rebuild [OF ord refl bt.distinct_keys [OF ord]])
  then show ?thesis by (simp add: restore_organism_def fold_map comp_def)
qed

lemma restored_wf:
  assumes "saved_ok s"
  shows "tracked_wf (restore_organism s) \<and> to_organism_id (restore_organism s) = ts_organism_id s
    \<and> to_world_seed (restore_organism s) = ts_world_seed s \<and> to_capacity (restore_organism s) = ts_capacity s"
proof -
  have fields: "to_organism_id (restore_organism s) = ts_organism_id s"
    "to_world_seed (restore_organism s) = ts_world_seed s" "to_capacity (restore_organism s) = ts_capacity s"
    "to_next_id (restore_organism s) = ts_next_id s"
    by (simp_all add: restore_organism_def)
  have "\<forall>e \<in> set (map (\<lambda>r. (tr_key r, r)) (ts_records s)). record_ok (restore_organism s) e"
    using assms by (auto simp: record_ok_def fields saved_ok_def saved_record_ok_def)
  moreover have "inj_on (\<lambda>e. tr_id (snd e)) (set (map (\<lambda>r. (tr_key r, r)) (ts_records s)))"
    using assms by (auto simp: saved_ok_def distinct_map inj_on_def)
  moreover have "bt_ordered (map (\<lambda>r. (tr_key r, r)) (ts_records s))"
    using assms by (simp add: saved_ok_def bt_ordered_def comp_def)
  ultimately show ?thesis
    using assms by (simp add: tracked_wf_def fields restored_records [OF assms] saved_ok_def)
qed

definition restored_entries ::
  "TrackedObjectRegistrySaveState list \<Rightarrow> (u64 \<times> OrganismTrackedObjects) list" where
  "restored_entries ss = map (\<lambda>s. (ts_organism_id s, restore_organism s)) ss"

lemma restore_all_Inr_iff:
  "restore_all world_seed capacity ss m = Inr m' \<longleftrightarrow>
     (\<forall>s \<in> set ss. saved_ok s \<and> ts_world_seed s = world_seed \<and> ts_capacity s = capacity)
     \<and> distinct (map ts_organism_id ss) \<and> ts_organism_id ` set ss \<inter> fst ` set m = {}
     \<and> m' = fold (\<lambda>(k, v). bt_insert k v) (restored_entries ss) m"
proof (induction ss arbitrary: m)
  case Nil
  show ?case by (auto simp: restored_entries_def)
next
  case (Cons s ss)
  have absent: "bt_get m (ts_organism_id s) = None \<longleftrightarrow> ts_organism_id s \<notin> fst ` set m"
    by (rule map_of_eq_None_iff)
  have grown: "ts_organism_id ` set ss \<inter> fst ` set (bt_insert (ts_organism_id s) (restore_organism s) m) = {}
      \<longleftrightarrow> ts_organism_id s \<notin> ts_organism_id ` set ss \<and> ts_organism_id ` set ss \<inter> fst ` set m = {}"
    unfolding bt_insert_keys by auto
  have "restore_all world_seed capacity (s # ss) m = Inr m' \<longleftrightarrow> saved_ok s \<and> ts_world_seed s = world_seed
      \<and> ts_capacity s = capacity \<and> ts_organism_id s \<notin> fst ` set m
      \<and> restore_all world_seed capacity ss (bt_insert (ts_organism_id s) (restore_organism s) m) = Inr m'"
    by (auto simp: save_state_validate_iff absent)
  also have "\<dots> \<longleftrightarrow> saved_ok s \<and> ts_world_seed s = world_seed \<and> ts_capacity s = capacity
      \<and> ts_organism_id s \<notin> fst ` set m
      \<and> (\<forall>s \<in> set ss. saved_ok s \<and> ts_world_seed s = world_seed \<and> ts_capacity s = capacity)
      \<and> distinct (map ts_organism_id ss) \<and> ts_organism_id s \<notin> ts_organism_id ` set ss
      \<and> ts_organism_id ` set ss \<inter> fst ` set m = {}
      \<and> m' = fold (\<lambda>(k, v). bt_insert k v) (restored_entries (s # ss)) m"
    unfolding Cons.IH grown by (auto simp: restored_entries_def)
  finally show ?case by auto
qed

lemma from_save_states_Inr_iff:
  "registry_from_save_states world_seed capacity ss = Inr g \<longleftrightarrow> capacity_in_range capacity
     \<and> (\<forall>s \<in> set ss. saved_ok s \<and> ts_world_seed s = world_seed \<and> ts_capacity s = capacity)
     \<and> distinct (map ts_organism_id ss)
     \<and> g = \<lparr> tg_world_seed = world_seed, tg_capacity = capacity,
             tg_organisms = fold (\<lambda>(k, v). bt_insert k v) (restored_entries ss) [] \<rparr>"
  by (auto simp: registry_from_save_states_def restore_all_Inr_iff)

section \<open>Saving a valid registry\<close>

lemma tracked_wf_saved_ok:
  assumes "organism_wf g k o'"
  shows "saved_ok \<lparr> ts_schema_version = 1, ts_world_seed = tg_world_seed g, ts_organism_id = k,
    ts_capacity = tg_capacity g, ts_next_id = to_next_id o', ts_records = map snd (to_records o') \<rparr>"
proof -
  have wf: "tracked_wf o'" using assms by (simp add: organism_wf_def)
  have ord: "sorted_wrt (<) (map fst (to_records o'))" using wf by (simp add: tracked_wf_def bt_ordered_def)
  have keys: "map tr_key (map snd (to_records o')) = map fst (to_records o')"
    using wf by (auto simp: tracked_wf_def record_ok_def)
  have sorted_keys: "sorted_wrt (<) (map tr_key (map snd (to_records o')))" by (simp only: keys ord)
  have "distinct (to_records o')" using ord by (simp add: strict_sorted_iff distinct_map)
  then have ids: "distinct (map tr_id (map snd (to_records o')))"
    using wf by (auto simp: distinct_map tracked_wf_def inj_on_def)
  have nz: "r \<in> snd ` set (to_records o') \<Longrightarrow> tr_id r \<noteq> 0" for r
    using wf initial_id_nonzero [of "to_world_seed o'" "to_organism_id o'"]
    by (auto simp: tracked_wf_def record_ok_def word_le_nat_alt unat_eq_zero)
  show ?thesis
    using assms sorted_keys ids nz
    by (auto simp: saved_ok_def organism_wf_def tracked_wf_def record_ok_def saved_record_ok_def)
qed

lemma save_of_tracked:
  assumes "registry_wf g" and "(k, o') \<in> set (tg_organisms g)"
  shows "registry_save_state k g = Inr \<lparr> ts_schema_version = 1, ts_world_seed = tg_world_seed g,
    ts_organism_id = k, ts_capacity = tg_capacity g, ts_next_id = to_next_id o',
    ts_records = map snd (to_records o') \<rparr>"
proof -
  have ord: "bt_ordered (tg_organisms g)" and o': "organism_wf g k o'"
    using assms by (auto simp: registry_wf_def)
  have get: "bt_get (tg_organisms g) k = Some o'" using assms(2) bt.in_entries_iff [OF ord] by blast
  show ?thesis
    using o' tracked_wf_saved_ok [OF o', folded save_state_validate_iff]
    by (simp add: registry_save_state_def get organism_wf_def)
qed

lemma restore_of_save:
  assumes "organism_wf g k o'"
  shows "restore_organism \<lparr> ts_schema_version = 1, ts_world_seed = tg_world_seed g, ts_organism_id = k,
    ts_capacity = tg_capacity g, ts_next_id = to_next_id o', ts_records = map snd (to_records o') \<rparr> = o'"
proof -
  let ?s = "\<lparr> ts_schema_version = 1, ts_world_seed = tg_world_seed g, ts_organism_id = k,
    ts_capacity = tg_capacity g, ts_next_id = to_next_id o', ts_records = map snd (to_records o') \<rparr>"
  have "map (\<lambda>r. (tr_key r, r)) (map snd (to_records o')) = to_records o'"
    using assms by (auto simp: organism_wf_def tracked_wf_def record_ok_def intro!: map_idI)
  then have "to_records (restore_organism ?s) = to_records o'"
    using restored_records [OF tracked_wf_saved_ok [OF assms]] by simp
  moreover have "to_organism_id (restore_organism ?s) = to_organism_id o'"
    "to_world_seed (restore_organism ?s) = to_world_seed o'"
    "to_capacity (restore_organism ?s) = to_capacity o'" "to_next_id (restore_organism ?s) = to_next_id o'"
    using assms by (simp_all add: restore_organism_def organism_wf_def)
  ultimately show ?thesis by (intro OrganismTrackedObjects.equality) simp_all
qed

text \<open>
  C12. Save and restore: every organism of a valid registry can be saved, and restoring the saved
  states, given in any order, gives the registry back.
\<close>

theorem tracked_registry_roundtrip:
  assumes wf: "registry_wf g" and ks: "distinct ks" "set ks = fst ` set (tg_organisms g)"
  shows "\<exists>states. collect_results (\<lambda>k. registry_save_state k g) ks = Inr states
    \<and> registry_from_save_states (tg_world_seed g) (tg_capacity g) states = Inr g"
proof -
  have ord: "bt_ordered (tg_organisms g)" using wf by (simp add: registry_wf_def)
  define save where "save k = (THE s. registry_save_state k g = Inr s)" for k
  have saved: "registry_save_state k g = Inr (save k)" "organism_wf g k o'"
      "restore_organism (save k) = o'" "ts_organism_id (save k) = k" "saved_ok (save k)"
      "ts_world_seed (save k) = tg_world_seed g" "ts_capacity (save k) = tg_capacity g"
    if "(k, o') \<in> set (tg_organisms g)" for k o'
  proof -
    show o': "organism_wf g k o'" using wf that by (auto simp: registry_wf_def)
    have s: "save k = \<lparr> ts_schema_version = 1, ts_world_seed = tg_world_seed g,
        ts_organism_id = k, ts_capacity = tg_capacity g, ts_next_id = to_next_id o',
        ts_records = map snd (to_records o') \<rparr>"
      unfolding save_def by (simp add: save_of_tracked [OF wf that])
    show "registry_save_state k g = Inr (save k)" using save_of_tracked [OF wf that] by (simp add: s)
    show "restore_organism (save k) = o'" using restore_of_save [OF o'] by (simp add: s)
    show "saved_ok (save k)" using tracked_wf_saved_ok [OF o'] by (simp add: s)
    show "ts_organism_id (save k) = k" "ts_world_seed (save k) = tg_world_seed g"
      "ts_capacity (save k) = tg_capacity g" by (simp_all add: s)
  qed
  have "\<exists>o'. (k, o') \<in> set (tg_organisms g)" if "k \<in> set ks" for k using that ks(2) by auto
  note at = this
  have collected: "collect_results (\<lambda>k. registry_save_state k g) ks = Inr (map save ks)"
    by (rule collect_results_map) (use at saved(1) in blast)
  have entries: "set (restored_entries (map save ks)) = set (tg_organisms g)"
  proof
    show "set (restored_entries (map save ks)) \<subseteq> set (tg_organisms g)"
      using at saved(3,4) by (fastforce simp: restored_entries_def)
    show "set (tg_organisms g) \<subseteq> set (restored_entries (map save ks))"
      using ks(2) saved(3,4) by (force simp: restored_entries_def image_iff)
  qed
  have named: "ts_organism_id (save k) = k" if "k \<in> set ks" for k using at [OF that] saved(4) by blast
  then have names: "map fst (restored_entries (map save ks)) = ks" "map ts_organism_id (map save ks) = ks"
    using named by (simp_all add: restored_entries_def comp_def map_idI)
  have "fold (\<lambda>(k, v). bt_insert k v) (restored_entries (map save ks)) [] = tg_organisms g"
    by (rule bt.entries_rebuild [OF ord entries]) (simp add: names ks(1))
  moreover have "\<forall>s \<in> set (map save ks). saved_ok s \<and> ts_world_seed s = tg_world_seed g
      \<and> ts_capacity s = tg_capacity g"
  proof
    fix s
    assume "s \<in> set (map save ks)"
    then obtain k where k: "s = save k" "k \<in> set ks" by auto
    obtain o' where "(k, o') \<in> set (tg_organisms g)" using at [OF k(2)] by blast
    with k(1) show "saved_ok s \<and> ts_world_seed s = tg_world_seed g \<and> ts_capacity s = tg_capacity g"
      using saved(5,6,7) by simp
  qed
  ultimately have "registry_from_save_states (tg_world_seed g) (tg_capacity g) (map save ks) = Inr g"
    using wf unfolding from_save_states_Inr_iff names(2) by (simp add: registry_wf_def ks(1))
  with collected show ?thesis by blast
qed

text \<open>
  Restore and save: a registry restored from save states is valid, and saving each organism again
  gives exactly the state it was restored from; foreign, repeated or invalid states are refused.
\<close>

lemma restored_registry_saves_back:
  assumes "registry_from_save_states world_seed capacity states = Inr g"
  shows "registry_wf g \<and> distinct (map ts_organism_id states)
    \<and> (\<forall>s \<in> set states. registry_save_state (ts_organism_id s) g = Inr s)"
proof -
  note f = assms [unfolded from_save_states_Inr_iff]
  have d: "distinct (map fst (restored_entries states))" using f by (simp add: restored_entries_def comp_def)
  have ord: "bt_ordered (tg_organisms g)"
    using f bt.ordered_fold [of "[]" "restored_entries states"] by (simp add: bt_ordered_def)
  have entries: "set (tg_organisms g) = set (restored_entries states)"
    using f bt.entries_of_list [OF d] by simp
  have fields: "tg_capacity g = capacity" "tg_world_seed g = world_seed" "capacity_in_range capacity"
    using f by simp_all
  have org: "organism_wf g (ts_organism_id s) (restore_organism s)" if "s \<in> set states" for s
    using f that restored_wf [of s] by (simp add: organism_wf_def fields) (simp add: saved_ok_def)
  have wf: "registry_wf g"
    using ord org by (auto simp: registry_wf_def fields entries restored_entries_def)
  have "registry_save_state (ts_organism_id s) g = Inr s" if s: "s \<in> set states" for s
  proof -
    have mem: "(ts_organism_id s, restore_organism s) \<in> set (tg_organisms g)"
      using s by (auto simp: entries restored_entries_def)
    have ok: "saved_ok s" "ts_world_seed s = tg_world_seed g" "ts_capacity s = tg_capacity g"
      using f s by (simp_all add: fields)
    have "map snd (to_records (restore_organism s)) = ts_records s"
      by (simp add: restored_records [OF ok(1)] comp_def)
    then show ?thesis
      using save_of_tracked [OF wf mem] ok
      by (simp add: restore_organism_def saved_ok_def)
  qed
  with wf f show ?thesis by blast
qed

end
