(* ===== verification/Tracked_Examples.thy ===== *)
theory Tracked_Examples
  imports Tracked_Saves
begin

text \<open>
  A registry of two objects per organism, one observation and its save: the witnesses of the
  tracked-object properties.
\<close>

definition ex_registry :: TrackedObjectRegistry where
  "ex_registry = \<lparr> tg_world_seed = 77, tg_capacity = 2, tg_organisms = [] \<rparr>"

definition ex_provenance :: PhysicalTrackingProvenance where
  "ex_provenance = \<lparr> pp_schema_version = 1, pp_world_seed = 77, pp_zone_id = 0, pp_spawn_sequence = 1,
     pp_lineage_key = 0 \<rparr>"

definition ex_seen :: Observation where
  "ex_seen = (ex_provenance, replicate 15 f32_zero, 10)"

lemma ex_registry_new: "registry_new 77 2 = Inr ex_registry"
  by (simp add: registry_new_def capacity_in_range_def ex_registry_def)

lemma ex_registry_wf: "registry_wf ex_registry"
  by (rule registry_new_wf [OF ex_registry_new])

lemma ex_descriptor: "descriptor_validate (replicate 15 f32_zero) = Inr ()"
  by (simp add: descriptor_validate_def list_ex_iff f32_in_range_def f32_defs)

definition ex_organism :: OrganismTrackedObjects where
  "ex_organism = \<lparr> to_organism_id = 1, to_world_seed = 77, to_capacity = 2,
     to_next_id = initial_tracked_object_id 77 1 + 1,
     to_records = [(canonical_key ex_provenance, \<lparr> tr_id = initial_tracked_object_id 77 1,
       tr_provenance = ex_provenance, tr_key = canonical_key ex_provenance, tr_last_seen = 10,
       tr_descriptor = replicate 15 f32_zero \<rparr>)] \<rparr>"

lemma ex_tracked: "tracked_observe ex_provenance (replicate 15 f32_zero) 10 (tracked_new 1 77 2)
    = Some (Inr (initial_tracked_object_id 77 1, True, None), ex_organism)"
proof -
  have "checked_add (initial_tracked_object_id 77 1) 1 = Some (initial_tracked_object_id 77 1 + 1)"
    using initial_id_bounds [of 77 1] by (simp add: checked_add_def)
  moreover have "provenance_validate ex_provenance = Inr ()" "pp_world_seed ex_provenance = 77"
    by (simp_all add: provenance_validate_def ex_provenance_def)
  ultimately show ?thesis
    by (simp add: tracked_observe_def ex_descriptor tracked_new_def make_room_def ex_organism_def Let_def)
qed

lemma ex_staged: "staged_observer 1 ex_registry = Inr (tracked_new 1 77 2)"
  by (simp add: staged_observer_def ex_registry_def)

definition ex_after :: TrackedObjectRegistry where
  "ex_after = put_organism 1 ex_organism ex_registry"

lemma ex_observed: "\<exists>r. registry_observe 1 ex_seen ex_registry = Some (Inr r, ex_after)
    \<and> or_organism_id r = 1 \<and> or_tracked_object_id r = initial_tracked_object_id 77 1 \<and> or_inserted r"
proof (rule registry_observe_effect [OF ex_registry_wf, of 1 ex_seen])
  fix e
  assume "registry_observe 1 ex_seen ex_registry = Some (Inl e, ex_registry)"
  then show ?thesis
    by (auto simp: registry_observe_def ex_staged ex_seen_def ex_tracked split: Option.bind_splits)
next
  fix c i ins ev c' d1 d2
  assume c: "staged_observer 1 ex_registry = Inr c"
    "tracked_observe (fst ex_seen) (fst (snd ex_seen)) (snd (snd ex_seen)) c = Some (Inr (i, ins, ev), c')"
    and call: "registry_observe 1 ex_seen ex_registry = Some (Inr \<lparr> or_organism_id = 1, or_tracked_object_id = i,
        or_inserted = ins, or_evicted = ev, or_record_count = word_of_nat (length (to_records c')),
        or_next_id = to_next_id c', or_before_digest = d1, or_after_digest = d2 \<rparr>, put_organism 1 c' ex_registry)"
  then have "i = initial_tracked_object_id 77 1 \<and> ins \<and> c' = ex_organism"
    using c ex_tracked by (simp add: ex_staged ex_seen_def)
  with call show ?thesis by (auto simp: ex_after_def)
qed

lemma ex_batch_observed: "registry_observe_batch 1 [ex_seen] ex_registry
    = Some (Inr [initial_tracked_object_id 77 1], ex_after)"
  by (simp add: registry_observe_batch_def ex_staged ex_seen_def ex_tracked ex_after_def put_organism_def)

lemma ex_after_wf: "registry_wf ex_after"
  using ex_observed registry_call_effect [OF ex_registry_wf, of "Observe 1 ex_seen"]
  by (auto simp: registry_call_def)

theorem registry_stays_valid_witness:
  "registry_wf (run_ops registry_step [Observe 1 ex_seen] ex_registry)
   \<and> registry_call (ObserveBatch 1 [ex_seen, ex_seen]) (run_ops registry_step [Observe 1 ex_seen] ex_registry) \<noteq> None"
  by (rule registry_stays_valid [OF ex_registry_new])

theorem rejected_observations_leave_no_trace_witness:
  "accepted_ops registry_step [Observe 0 ex_seen] ex_registry = []
   \<and> run_ops registry_step [Observe 0 ex_seen] ex_registry = ex_registry"
proof -
  have "accepted_ops registry_step [Observe 0 ex_seen] ex_registry = []"
    by (simp add: registry_step_def registry_call_def registry_observe_def staged_observer_def ex_seen_def)
  with rejected_observations_leave_no_trace [OF ex_registry_wf, of "[Observe 0 ex_seen]"]
  show ?thesis by (simp only: run_ops_simps)
qed

theorem tracked_ids_never_reused_witness:
  "new_ids 1 [ObserveBatch 1 [ex_seen]] ex_registry = [initial_tracked_object_id 77 1]
   \<and> initial_tracked_object_id 77 1 < next_id_of 1 (run_ops registry_step [ObserveBatch 1 [ex_seen]] ex_registry)"
proof -
  have "inserted_ids [ex_seen] (tracked_new 1 77 2) = [initial_tracked_object_id 77 1]"
    by (simp only: inserted_ids.simps ex_seen_def ex_tracked option.case sum.case prod.case if_True append.simps)
  then have "new_ids 1 [ObserveBatch 1 [ex_seen]] ex_registry = [initial_tracked_object_id 77 1]"
    using ex_batch_observed ex_staged by (simp add: new_id_def registry_call_def)
  with tracked_ids_never_reused [OF ex_registry_wf, where k = 1 and ops = "[ObserveBatch 1 [ex_seen]]"]
  show ?thesis by (simp only: list.set insert_iff) blast
qed

theorem eviction_is_least_recently_seen_witness:
  "\<exists>r. registry_observe 1 ex_seen ex_registry = Some (Inr r, ex_after)
     \<and> card (tracked 1 ex_after) = unat (or_record_count r) \<and> unat (or_record_count r) \<le> 2"
proof -
  obtain r where r: "registry_observe 1 ex_seen ex_registry = Some (Inr r, ex_after)" using ex_observed by blast
  have "unat (tg_capacity ex_registry) = 2" by (simp add: ex_registry_def)
  with eviction_is_least_recently_seen [OF ex_registry_wf r] r show ?thesis by metis
qed

theorem batch_equals_single_observations_witness:
  "receipt_ids 1 [ex_seen] ex_registry = Some [initial_tracked_object_id 77 1]
   \<and> run_ops registry_step (map (Observe 1) [ex_seen]) ex_registry = ex_after"
  by (rule batch_equals_single_observations [OF ex_registry_wf ex_batch_observed])

theorem tracked_registry_roundtrip_witness:
  "\<exists>states. collect_results (\<lambda>k. registry_save_state k ex_after) [1] = Inr states
     \<and> registry_from_save_states 77 2 states = Inr ex_after"
proof -
  have "set [1] = fst ` set (tg_organisms ex_after)" "tg_world_seed ex_after = 77" "tg_capacity ex_after = 2"
    by (simp_all add: ex_after_def put_organism_def ex_registry_def)
  with tracked_registry_roundtrip [OF ex_after_wf, of "[1]"] show ?thesis by simp
qed

definition ex_saved :: TrackedObjectRegistrySaveState where
  "ex_saved = \<lparr> ts_schema_version = 1, ts_world_seed = 77, ts_organism_id = 5, ts_capacity = 2,
     ts_next_id = initial_tracked_object_id 77 5, ts_records = [] \<rparr>"

theorem restored_registry_saves_back_witness:
  "\<exists>g. registry_from_save_states 77 2 [ex_saved] = Inr g \<and> registry_save_state 5 g = Inr ex_saved"
proof -
  have "saved_ok ex_saved" by (simp add: saved_ok_def ex_saved_def capacity_in_range_def)
  then obtain g where g: "registry_from_save_states 77 2 [ex_saved] = Inr g"
    by (simp add: from_save_states_Inr_iff capacity_in_range_def ex_saved_def)
  moreover have "ts_organism_id ex_saved = 5" by (simp add: ex_saved_def)
  ultimately show ?thesis using restored_registry_saves_back [OF g] by simp
qed

end
