(* ===== verification/Language.thy ===== *)
theory Language
  imports Digest_Encoding Collections
begin

text \<open>
  \<open>crates/alife_core/src/language.rs\<close>: token codes and the frozen codebook, heard and spoken
  utterances, and the grounding ledger. Text is a list of Unicode scalar values. BLAKE3 is a
  third-party crate: the digest of a byte stream is a parameter. Of \<open>ExperiencePatch\<close>
  (experience.rs) the ledger reads the result of its validation and its sequence id.
\<close>

section \<open>Actions (action.rs)\<close>

datatype ActionKind =
  Idle | Hold | Rest | Inspect | Move | Interact | Vocalize | Write | Gesture | Look

fun action_kind_raw :: "ActionKind \<Rightarrow> u8" where
  "action_kind_raw Idle = 0"
| "action_kind_raw Hold = 1"
| "action_kind_raw Rest = 2"
| "action_kind_raw Inspect = 3"
| "action_kind_raw Move = 4"
| "action_kind_raw Interact = 5"
| "action_kind_raw Vocalize = 6"
| "action_kind_raw Write = 7"
| "action_kind_raw Gesture = 8"
| "action_kind_raw Look = 9"

definition action_kind_try_from_raw :: "u8 \<Rightarrow> ActionKind contract" where
  "action_kind_try_from_raw raw =
     (if raw = 0 then Inr Idle else if raw = 1 then Inr Hold else if raw = 2 then Inr Rest
      else if raw = 3 then Inr Inspect else if raw = 4 then Inr Move else if raw = 5 then Inr Interact
      else if raw = 6 then Inr Vocalize else if raw = 7 then Inr Write else if raw = 8 then Inr Gesture
      else if raw = 9 then Inr Look else Inl InvalidActionCandidate)"

fun action_canonical_id :: "ActionKind \<Rightarrow> u32" where
  "action_canonical_id Idle = 1"
| "action_canonical_id Hold = 2"
| "action_canonical_id Rest = 3"
| "action_canonical_id Inspect = 4"
| "action_canonical_id Move = 100"
| "action_canonical_id Interact = 200"
| "action_canonical_id Gesture = 300"
| "action_canonical_id Vocalize = 400"
| "action_canonical_id Write = 500"
| "action_canonical_id Look = 600"

section \<open>Tokens and utterances\<close>

type_synonym LanguageTokenId = u16
type_synonym text_string = "u32 list"

definition token_new :: "u16 \<Rightarrow> LanguageTokenId contract" where
  "token_new raw = (if raw < 256 then Inr raw else Inl PhenotypeCompile)"

definition utterance_id_new :: "u64 \<Rightarrow> u64 contract" where
  "utterance_id_new raw = (if raw \<noteq> 0 then Inr raw else Inl InvalidId)"

datatype UtteranceSourceKind = Player | Creature | Teacher

record PlayerUtterance =
  pu_utterance_id :: u64
  pu_source_kind :: UtteranceSourceKind
  pu_addressee :: "u64 option"
  pu_source_position :: Vec3f
  pu_tokens :: "LanguageTokenId list"

text \<open>\<open>if let Some(id) = optional { id.validate()?; }\<close>.\<close>

definition optional_id_validate :: "u64 option \<Rightarrow> unit contract" where
  "optional_id_validate i = (case i of None \<Rightarrow> Inr () | Some k \<Rightarrow> and_then (id_validate k) (\<lambda>_. Inr ()))"

definition player_utterance_validate :: "PlayerUtterance \<Rightarrow> unit contract" where
  "player_utterance_validate u =
     (if pu_source_kind u \<noteq> Player \<or> pu_tokens u = [] \<or> 16 < length (pu_tokens u) \<or> 0 \<in> set (pu_tokens u)
      then Inl InvalidPerceptionFrame
      else
        and_then (optional_id_validate (pu_addressee u)) (\<lambda>_.
        and_then (vec3f_validate (pu_source_position u)) (\<lambda>_. Inr ())))"

definition player_utterance_try_new ::
  "u64 \<Rightarrow> u64 option \<Rightarrow> Vec3f \<Rightarrow> LanguageTokenId list \<Rightarrow> PlayerUtterance contract" where
  "player_utterance_try_new i addressee position tokens =
     (let u = \<lparr> pu_utterance_id = i, pu_source_kind = Player, pu_addressee = addressee,
                pu_source_position = position, pu_tokens = tokens \<rparr>
      in and_then (player_utterance_validate u) (\<lambda>_. Inr u))"

section \<open>Speech translation\<close>

record SurfaceTokenBinding =
  sb_surface :: text_string
  sb_token :: LanguageTokenId

text \<open>\<open>char::is_whitespace\<close> is the Unicode property White_Space.\<close>

definition char_is_whitespace :: "u32 \<Rightarrow> bool" where
  "char_is_whitespace c \<longleftrightarrow> 9 \<le> c \<and> c \<le> 13 \<or> c = 0x20 \<or> c = 0x85 \<or> c = 0xA0 \<or> c = 0x1680
     \<or> 0x2000 \<le> c \<and> c \<le> 0x200A \<or> c = 0x2028 \<or> c = 0x2029 \<or> c = 0x202F \<or> c = 0x205F \<or> c = 0x3000"

definition trim_is_empty :: "text_string \<Rightarrow> bool" where
  "trim_is_empty s \<longleftrightarrow> list_all char_is_whitespace s"

definition surface_binding_validate :: "SurfaceTokenBinding \<Rightarrow> unit contract" where
  "surface_binding_validate b =
     (if sb_surface b = [] \<or> 64 < length (sb_surface b) \<or> list_ex char_is_whitespace (sb_surface b)
         \<or> sb_token b = 0
      then Inl InvalidPerceptionFrame else Inr ())"

datatype SpeechTranslationInput = PlayerText text_string | CreatureTokens "LanguageTokenId list"

record SpeechTranslationRequest =
  sq_utterance_id :: u64
  sq_addressee :: "u64 option"
  sq_input :: SpeechTranslationInput
  sq_known_bindings :: "SurfaceTokenBinding list"

definition request_raw_tokens :: "SpeechTranslationRequest \<Rightarrow> LanguageTokenId list" where
  "request_raw_tokens q = (case sq_input q of PlayerText _ \<Rightarrow> [] | CreatureTokens ts \<Rightarrow> ts)"

definition translation_request_validate :: "SpeechTranslationRequest \<Rightarrow> unit contract" where
  "translation_request_validate q =
     and_then (optional_id_validate (sq_addressee q)) (\<lambda>_.
       if 64 < length (sq_known_bindings q) then Inl InvalidPerceptionFrame
       else and_then (check_all surface_binding_validate (sq_known_bindings q)) (\<lambda>_.
         if card (sb_surface ` set (sq_known_bindings q)) \<noteq> length (sq_known_bindings q)
         then Inl InvalidPerceptionFrame
         else case sq_input q of
             PlayerText text \<Rightarrow>
               if length text = 0 \<or> 512 < length text then Inl InvalidPerceptionFrame else Inr ()
           | CreatureTokens tokens \<Rightarrow>
               if tokens = [] \<or> 6 < length tokens \<or> 0 \<in> set tokens
               then Inl InvalidPerceptionFrame else Inr ()))"

record NovelLanguageToken =
  nt_token :: LanguageTokenId
  nt_surface :: text_string

record SpeechTranslationReceipt =
  sc_utterance_id :: u64
  sc_addressee :: "u64 option"
  sc_literal_tokens :: "LanguageTokenId list"
  sc_novel_tokens :: "NovelLanguageToken list"
  sc_literal_text :: text_string
  sc_rendered_text :: text_string
  sc_confidence :: f32
  sc_model_identity :: text_string
  sc_assisted :: bool
  sc_uncertain :: bool

definition translation_receipt_validate :: "SpeechTranslationReceipt \<Rightarrow> unit contract" where
  "translation_receipt_validate r =
     and_then (optional_id_validate (sc_addressee r)) (\<lambda>_.
       if sc_literal_tokens r = [] \<or> 16 < length (sc_literal_tokens r) \<or> 0 \<in> set (sc_literal_tokens r)
          \<or> length (sc_literal_tokens r) < length (sc_novel_tokens r)
          \<or> list_ex (\<lambda>n. trim_is_empty (nt_surface n) \<or> 64 < length (nt_surface n)
               \<or> nt_token n \<notin> set (sc_literal_tokens r)) (sc_novel_tokens r)
          \<or> trim_is_empty (sc_literal_text r) \<or> trim_is_empty (sc_rendered_text r)
          \<or> trim_is_empty (sc_model_identity r) \<or> 128 < length (sc_model_identity r)
       then Inl InvalidPerceptionFrame
       else and_then (confidence_new (sc_confidence r)) (\<lambda>_. Inr ()))"

section \<open>Speech acts and the speech head\<close>

datatype SpeechActKind =
  Declare | Request | Respond | QueryWhat | QueryWhy | ExpressState | Acknowledge | Refuse

fun speech_act_raw :: "SpeechActKind \<Rightarrow> u8" where
  "speech_act_raw Declare = 0"
| "speech_act_raw Request = 1"
| "speech_act_raw Respond = 2"
| "speech_act_raw QueryWhat = 3"
| "speech_act_raw QueryWhy = 4"
| "speech_act_raw ExpressState = 5"
| "speech_act_raw Acknowledge = 6"
| "speech_act_raw Refuse = 7"

definition speech_act_try_from_raw :: "u8 \<Rightarrow> SpeechActKind contract" where
  "speech_act_try_from_raw raw =
     (if raw = 0 then Inr Declare else if raw = 1 then Inr Request else if raw = 2 then Inr Respond
      else if raw = 3 then Inr QueryWhat else if raw = 4 then Inr QueryWhy
      else if raw = 5 then Inr ExpressState else if raw = 6 then Inr Acknowledge
      else if raw = 7 then Inr Refuse else Inl PhenotypeCompile)"

text \<open>
  The lane roles of \<open>SpeechDecoderLayoutV1\<close> as (start, count), in the order of the constants: schema
  version, widths, speech acts, token bits, emit, stop and recurrent control.
\<close>

definition decoder_layout_words :: "u16 list" where
  "decoder_layout_words = [1, 32, 32, 0, 8, 8, 8, 16, 17, 18, 14]"

definition speech_act_output :: "SpeechActKind \<Rightarrow> u16" where
  "speech_act_output act = 0 + ucast (speech_act_raw act)"

record SpeechMotorPayload =
  sm_speech_act :: SpeechActKind
  sm_tokens :: "LanguageTokenId list"
  sm_confidence :: f32

definition motor_payload_validate :: "SpeechMotorPayload \<Rightarrow> unit contract" where
  "motor_payload_validate p =
     (if sm_tokens p = [] \<or> 6 < length (sm_tokens p) \<or> 0 \<in> set (sm_tokens p)
      then Inl InvalidDecisionEvidence
      else and_then (confidence_new (sm_confidence p)) (\<lambda>_. Inr ()))"

definition motor_payload_try_new ::
  "SpeechActKind \<Rightarrow> LanguageTokenId list \<Rightarrow> f32 \<Rightarrow> SpeechMotorPayload contract" where
  "motor_payload_try_new act tokens confidence =
     (let p = \<lparr> sm_speech_act = act, sm_tokens = tokens, sm_confidence = confidence \<rparr>
      in and_then (motor_payload_validate p) (\<lambda>_. Inr p))"

section \<open>The codebook\<close>

datatype LanguageTokenClass =
    SilenceUnknown | VerbAction | EcologicalNoun | DriveInternalState | ModifierSpatialRelation
  | GrammarQuerySocialOperator | LearnedAliasDialect | NameSocialBinding | ReservedExperimental

fun token_class_raw :: "LanguageTokenClass \<Rightarrow> u8" where
  "token_class_raw SilenceUnknown = 0"
| "token_class_raw VerbAction = 1"
| "token_class_raw EcologicalNoun = 2"
| "token_class_raw DriveInternalState = 3"
| "token_class_raw ModifierSpatialRelation = 4"
| "token_class_raw GrammarQuerySocialOperator = 5"
| "token_class_raw LearnedAliasDialect = 6"
| "token_class_raw NameSocialBinding = 7"
| "token_class_raw ReservedExperimental = 8"

text \<open>\<open>unreachable!()\<close> on a code of 256 or more is \<open>None\<close>.\<close>

definition codebook_classify :: "LanguageTokenId \<Rightarrow> LanguageTokenClass option" where
  "codebook_classify token =
     (if token = 0 then Some SilenceUnknown
      else if token \<le> 24 then Some VerbAction
      else if token \<le> 88 then Some EcologicalNoun
      else if token \<le> 104 then Some DriveInternalState
      else if token \<le> 120 then Some ModifierSpatialRelation
      else if token \<le> 128 then Some GrammarQuerySocialOperator
      else if token \<le> 192 then Some LearnedAliasDialect
      else if token \<le> 224 then Some NameSocialBinding
      else if token \<le> 255 then Some ReservedExperimental
      else None)"

definition ONSETS :: "string list" where
  "ONSETS = [''b'', ''d'', ''f'', ''g'', ''h'', ''j'', ''k'', ''l'', ''m'', ''n'', ''p'', ''r'', ''s'', ''t'', ''v'', ''z'']"

definition RHYMES :: "string list" where
  "RHYMES = [''ala'', ''ami'', ''ano'', ''aru'', ''ela'', ''emi'', ''eno'', ''eru'', ''ila'', ''imi'', ''ino'', ''iru'',
     ''ola'', ''omi'', ''ono'', ''oru'']"

text \<open>Indexing the array of onsets panics on a code of 256 or more.\<close>

definition pronounceable_symbol :: "LanguageTokenId \<Rightarrow> string option" where
  "pronounceable_symbol token =
     (if token = 0 then Some ''sil''
      else if unat token div 16 < length ONSETS
      then Some (ONSETS ! (unat token div 16) @ RHYMES ! (unat token mod 16)) else None)"

record LanguageCodebookV1 =
  lb_schema_version :: u16
  lb_id :: u32
  lb_code_count :: u16
  lb_max_heard_tokens :: u8
  lb_max_generated_tokens :: u8
  lb_canonical_digest :: "u8 list"

text \<open>\<open>domain_hasher\<close> and the \<open>Blake3Write\<close> methods append raw little-endian bytes.\<close>

definition domain_bytes :: "bytes \<Rightarrow> bytes" where
  "domain_bytes domain = le_bytes 8 (word_of_nat (length domain) :: u64) @ domain"

definition codebook_token_bytes :: "u16 \<Rightarrow> bytes option" where
  "codebook_token_bytes raw =
     Option.bind (codebook_classify raw) (\<lambda>c.
     Option.bind (pronounceable_symbol raw) (\<lambda>symbol.
       Some (le_bytes 2 raw @ [token_class_raw c]
         @ le_bytes 8 (word_of_nat (length symbol) :: u64) @ ascii symbol)))"

definition codebook_bytes :: "LanguageCodebookV1 \<Rightarrow> bytes option" where
  "codebook_bytes b =
     fold (\<lambda>raw acc. Option.bind acc (\<lambda>bs. map_option (\<lambda>x. bs @ x) (codebook_token_bytes (word_of_nat raw))))
       [0..<256]
       (Some (domain_bytes (ascii ''alife.language-codebook.v1'')
         @ le_bytes 2 (lb_schema_version b) @ le_bytes 4 (lb_id b) @ le_bytes 2 (lb_code_count b)
         @ [lb_max_heard_tokens b, lb_max_generated_tokens b]
         @ concat (map (le_bytes 2) decoder_layout_words)
         @ le_bytes 4 (128 :: u32) @ le_bytes 4 (160 :: u32)))"

definition codebook_recompute :: "(bytes \<Rightarrow> u8 list) \<Rightarrow> LanguageCodebookV1 \<Rightarrow> u8 list option" where
  "codebook_recompute blake3 b = map_option blake3 (codebook_bytes b)"

definition codebook_validate :: "(bytes \<Rightarrow> u8 list) \<Rightarrow> LanguageCodebookV1 \<Rightarrow> unit contract" where
  "codebook_validate blake3 b =
     (if lb_schema_version b \<noteq> 1 \<or> lb_id b \<noteq> 0x4C435631 \<or> lb_code_count b \<noteq> 256
         \<or> lb_max_heard_tokens b \<noteq> 16 \<or> lb_max_generated_tokens b \<noteq> 6
         \<or> Some (lb_canonical_digest b) \<noteq> codebook_recompute blake3 b
      then Inl PhenotypeCompile else Inr ())"

definition codebook_canonical :: "(bytes \<Rightarrow> u8 list) \<Rightarrow> LanguageCodebookV1 option" where
  "codebook_canonical blake3 =
     (let b = \<lparr> lb_schema_version = 1, lb_id = 0x4C435631, lb_code_count = 256, lb_max_heard_tokens = 16,
                lb_max_generated_tokens = 6, lb_canonical_digest = replicate 32 0 \<rparr>
      in map_option (\<lambda>d. b\<lparr>lb_canonical_digest := d\<rparr>) (codebook_recompute blake3 b))"

section \<open>Grounding receipts\<close>

record UtteranceGroundingReceiptV2 =
  gr_schema_version :: u16
  gr_organism_id :: u64
  gr_sequence_id :: u64
  gr_utterance_id :: u64
  gr_sequence_position :: u8
  gr_source_kind :: UtteranceSourceKind
  gr_speaker_id :: "u64 option"
  gr_source_entity :: "u64 option"
  gr_token :: LanguageTokenId
  gr_target_entity :: u64
  gr_tracked_target :: u64
  gr_selected_action_id :: u32
  gr_selected_action :: ActionKind
  gr_exposure_tick :: Tick
  gr_outcome_tick :: Tick
  gr_frame_digest :: digest4

definition grounding_receipt_validate :: "UtteranceGroundingReceiptV2 \<Rightarrow> unit contract" where
  "grounding_receipt_validate r =
     and_then (id_validate (gr_organism_id r)) (\<lambda>_.
     and_then (id_validate (gr_sequence_id r)) (\<lambda>_.
     and_then (id_validate (gr_target_entity r)) (\<lambda>_.
     and_then (id_validate (gr_tracked_target r)) (\<lambda>_.
     and_then (action_id_validate (gr_selected_action_id r)) (\<lambda>_.
     and_then (optional_id_validate (gr_speaker_id r)) (\<lambda>_.
     and_then (optional_id_validate (gr_source_entity r)) (\<lambda>_.
       if gr_schema_version r \<noteq> 2 \<or> gr_source_kind r = Player
          \<or> gr_source_kind r = Creature \<and> gr_speaker_id r = None
          \<or> gr_token r = 0 \<or> gr_frame_digest r = zero4 \<or> gr_outcome_tick r < gr_exposure_tick r
       then Inl InvalidDecisionEvidence else Inr ())))))))"

section \<open>The grounding ledger\<close>

record LanguageGroundingEntry =
  le_token :: LanguageTokenId
  le_action :: ActionKind
  le_exposures :: u32
  le_successful_outcomes :: u32

record LanguageGroundingLedger =
  lg_last_sequence_id :: u64
  lg_entries :: "LanguageGroundingEntry list"
  lg_last_grounding_v2 :: u64
  lg_utterance_receipts_v2 :: "UtteranceGroundingReceiptV2 list"

definition ledger_default :: LanguageGroundingLedger where
  "ledger_default = \<lparr> lg_last_sequence_id = 0, lg_entries = [], lg_last_grounding_v2 = 0,
     lg_utterance_receipts_v2 = [] \<rparr>"

definition entry_key :: "LanguageGroundingEntry \<Rightarrow> u16 \<times> u8" where
  "entry_key e = (le_token e, action_kind_raw (le_action e))"

definition ledger_validate :: "LanguageGroundingLedger \<Rightarrow> unit contract" where
  "ledger_validate g =
     (if 64 < length (lg_entries g) \<or> 64 < length (lg_utterance_receipts_v2 g)
         \<or> lg_entries g \<noteq> [] \<and> lg_last_grounding_v2 g = 0
         \<or> lg_utterance_receipts_v2 g \<noteq> [] \<and> lg_last_grounding_v2 g = 0
         \<or> list_ex (\<lambda>e. le_token e = 0 \<or> le_exposures e = 0 \<or> le_exposures e < le_successful_outcomes e)
             (lg_entries g)
         \<or> windows2_any (\<lambda>a b. entry_key b \<le> entry_key a) (lg_entries g)
         \<or> list_ex (\<lambda>r. \<not> is_ok (grounding_receipt_validate r)) (lg_utterance_receipts_v2 g)
         \<or> windows2_any (\<lambda>a b. gr_sequence_id b \<le> gr_sequence_id a) (lg_utterance_receipts_v2 g)
      then Inl InvalidMemoryQuery else Inr ())"

text \<open>\<open>iter_mut().find(...)\<close> and the update of the entry found.\<close>

fun bump_entry ::
  "LanguageTokenId \<Rightarrow> ActionKind \<Rightarrow> LanguageGroundingEntry list \<Rightarrow> LanguageGroundingEntry list option" where
  "bump_entry token action [] = None"
| "bump_entry token action (e # es) =
     (if le_token e = token \<and> le_action e = action
      then Some (e\<lparr>le_exposures := saturating_add (le_exposures e) 1,
                   le_successful_outcomes := saturating_add (le_successful_outcomes e) 1\<rparr> # es)
      else map_option ((#) e) (bump_entry token action es))"

definition eviction_index :: "LanguageGroundingEntry list \<Rightarrow> nat option" where
  "eviction_index es =
     map_option fst (min_by_key (\<lambda>(i, e). (le_exposures e, le_token e, action_kind_raw (le_action e)))
       (enumerate 0 es))"

definition remove_at :: "nat \<Rightarrow> 'a list \<Rightarrow> 'a list" where
  "remove_at i xs = take i xs @ drop (Suc i) xs"

type_synonym ledger_outcome = "(ScaffoldContractError, unit, LanguageGroundingLedger) outcome"

definition observe_grounding_v2 :: "UtteranceGroundingReceiptV2 \<Rightarrow> LanguageGroundingLedger \<Rightarrow> ledger_outcome" where
  "observe_grounding_v2 receipt g =
     (case grounding_receipt_validate receipt of
        Inl e \<Rightarrow> (Inl e, g)
      | Inr _ \<Rightarrow>
          if gr_sequence_id receipt \<le> lg_last_grounding_v2 g \<or> length (lg_utterance_receipts_v2 g) = 64
          then (Inl LearningReplayRejected, g)
          else
            let g = g\<lparr>lg_last_grounding_v2 := gr_sequence_id receipt\<rparr>;
                finish = (\<lambda>es. let g' = g\<lparr>lg_entries := es,
                    lg_utterance_receipts_v2 := lg_utterance_receipts_v2 g @ [receipt]\<rparr>
                  in (ledger_validate g', g'));
                push = (\<lambda>es. finish (sort_key entry_key (es @ [\<lparr> le_token = gr_token receipt,
                    le_action = gr_selected_action receipt, le_exposures = 1, le_successful_outcomes = 1 \<rparr>])))
            in case bump_entry (gr_token receipt) (gr_selected_action receipt) (lg_entries g) of
                 Some es \<Rightarrow> finish es
               | None \<Rightarrow>
                   if length (lg_entries g) = 64
                   then (case eviction_index (lg_entries g) of
                           None \<Rightarrow> (Inl InvalidMemoryQuery, g)
                         | Some i \<Rightarrow> push (remove_at i (lg_entries g)))
                   else push (lg_entries g))"

text \<open>\<open>observe_sealed\<close>: of the patch, the result of its validation and its sequence id.\<close>

definition observe_sealed :: "unit contract \<Rightarrow> u64 \<Rightarrow> LanguageGroundingLedger \<Rightarrow> ledger_outcome" where
  "observe_sealed patch_check sequence_id g =
     (case patch_check of
        Inl e \<Rightarrow> (Inl e, g)
      | Inr _ \<Rightarrow>
          if sequence_id \<le> lg_last_sequence_id g then (Inl LearningReplayRejected, g)
          else let g' = g\<lparr>lg_last_sequence_id := sequence_id\<rparr> in (ledger_validate g', g'))"

datatype LedgerOp = Ground UtteranceGroundingReceiptV2 | Sealed "unit contract" u64

fun ledger_step :: "LedgerOp \<Rightarrow> LanguageGroundingLedger \<Rightarrow> ledger_outcome" where
  "ledger_step (Ground r) g = observe_grounding_v2 r g"
| "ledger_step (Sealed check i) g = observe_sealed check i g"

end
