(* ===== verification/Language_Proofs.thy ===== *)
theory Language_Proofs
  imports Language
begin

text \<open>
  The grounding ledger as a histogram of the receipts it accepted, the codebook and the raw codes of
  the enums.
\<close>

section \<open>Raw codes\<close>

lemma action_kind_raw_inj [simp]: "action_kind_raw a = action_kind_raw b \<longleftrightarrow> a = b"
  by (cases a; cases b) simp_all

text \<open>
  The raw codes round trip: a code decodes to a speech act, or an action kind, exactly when it is
  the code of it; every other code is refused.
\<close>

lemma enum_codes_roundtrip:
  "(speech_act_try_from_raw raw = Inr act \<longleftrightarrow> raw = speech_act_raw act)
   \<and> (action_kind_try_from_raw raw = Inr kind \<longleftrightarrow> raw = action_kind_raw kind)"
  by (cases act; cases kind) (auto simp: speech_act_try_from_raw_def action_kind_try_from_raw_def)

section \<open>The codebook\<close>

lemma onsets_shape: "length ONSETS = 16" "distinct ONSETS" "\<forall>s \<in> set ONSETS. length s = 1"
  by (simp_all add: ONSETS_def)

lemma rhymes_shape: "length RHYMES = 16" "distinct RHYMES" "\<forall>s \<in> set RHYMES. length s = 3"
  by (simp_all add: RHYMES_def)

lemma token_split: "unat token < 256 \<Longrightarrow> unat token div 16 < 16 \<and> unat token mod 16 < 16"
  by (simp add: less_mult_imp_div_less)

lemma symbol_Some:
  assumes "unat token < 256" and "token \<noteq> 0"
  shows "pronounceable_symbol token = Some (ONSETS ! (unat token div 16) @ RHYMES ! (unat token mod 16))"
    and "length (ONSETS ! (unat token div 16)) = 1" and "length (RHYMES ! (unat token mod 16)) = 3"
  using assms token_split [OF assms(1)]
  by (simp_all add: pronounceable_symbol_def onsets_shape rhymes_shape)

text \<open>
  The vocal symbols are a code: every one of the 256 tokens has a symbol, and different tokens
  have different symbols.
\<close>

lemma symbols_are_distinct:
  assumes "token < 256" and "token' < 256"
  shows "pronounceable_symbol token \<noteq> None
    \<and> (pronounceable_symbol token = pronounceable_symbol token' \<longleftrightarrow> token = token')"
proof -
  have b: "unat token < 256" "unat token' < 256" using assms by (simp_all add: word_less_nat_alt)
  have zero: "pronounceable_symbol 0 = Some ''sil''" by (simp add: pronounceable_symbol_def)
  have four: "\<exists>s. pronounceable_symbol t = Some s \<and> length s = 4" if "unat t < 256" "t \<noteq> 0" for t
    using symbol_Some [OF that] by simp
  show ?thesis
  proof (cases "token = 0 \<or> token' = 0")
    case True
    then show ?thesis using zero four [OF b(1)] four [OF b(2)] by force
  next
    case False
    let ?o = "ONSETS ! (unat token div 16)" and ?r = "RHYMES ! (unat token mod 16)"
    let ?o' = "ONSETS ! (unat token' div 16)" and ?r' = "RHYMES ! (unat token' mod 16)"
    have "token = token'" if "pronounceable_symbol token = pronounceable_symbol token'"
    proof -
      have "?o @ ?r = ?o' @ ?r'" using that symbol_Some [OF b(1)] symbol_Some [OF b(2)] False by simp
      then have "?o = ?o'" "?r = ?r'"
        using symbol_Some [OF b(1)] symbol_Some [OF b(2)] False by (simp_all add: append_eq_append_conv)
      then have "unat token div 16 = unat token' div 16" "unat token mod 16 = unat token' mod 16"
        using token_split [OF b(1)] token_split [OF b(2)]
        by (simp_all add: nth_eq_iff_index_eq onsets_shape rhymes_shape)
      then have "unat token = unat token'" by (metis div_mult_mod_eq)
      then show ?thesis by (simp add: word_unat_eq_iff)
    qed
    then show ?thesis using symbol_Some [OF b(1)] False by auto
  qed
qed

lemma token_bytes_Some: "n < 256 \<Longrightarrow> \<exists>x. codebook_token_bytes (word_of_nat n) = Some x"
proof -
  assume n: "n < 256"
  then have u: "unat (word_of_nat n :: u16) = n" by (simp add: unat_of_nat)
  have "codebook_classify (word_of_nat n) \<noteq> None"
    using n u by (simp add: codebook_classify_def word_le_nat_alt)
  moreover have "pronounceable_symbol (word_of_nat n) \<noteq> None"
    using less_mult_imp_div_less [of n 16 16] n u by (simp add: pronounceable_symbol_def onsets_shape)
  ultimately show ?thesis by (auto simp: codebook_token_bytes_def)
qed

lemma codebook_bytes_Some: "\<exists>bs. codebook_bytes b = Some bs"
proof -
  have fold: "\<exists>bs. fold (\<lambda>raw acc. Option.bind acc (\<lambda>bs. map_option (\<lambda>x. bs @ x) (codebook_token_bytes (word_of_nat raw))))
      ns (Some start) = Some bs" if "\<forall>n \<in> set ns. n < 256" for ns start
    using that
  proof (induction ns arbitrary: start)
    case (Cons n ns)
    then obtain x where "codebook_token_bytes (word_of_nat n) = Some x" using token_bytes_Some [of n] by auto
    with Cons show ?case by simp
  qed simp
  show ?thesis unfolding codebook_bytes_def by (rule fold) simp
qed

lemma codebook_bytes_reseal [simp]: "codebook_bytes (b\<lparr>lb_canonical_digest := d\<rparr>) = codebook_bytes b"
  by (simp add: codebook_bytes_def)

text \<open>
  There is one valid codebook: for any hash, the canonical codebook can be built without a panic,
  and a codebook, read from a save or not, is valid exactly when it is the canonical one.
\<close>

lemma codebook_is_canonical:
  "codebook_canonical blake3 \<noteq> None
   \<and> (codebook_validate blake3 b = Inr () \<longleftrightarrow> codebook_canonical blake3 = Some b)"
proof -
  let ?b = "\<lparr> lb_schema_version = 1, lb_id = 0x4C435631, lb_code_count = 256, lb_max_heard_tokens = 16,
     lb_max_generated_tokens = 6, lb_canonical_digest = replicate 32 0 \<rparr> :: LanguageCodebookV1"
  obtain bs where bs: "codebook_bytes ?b = Some bs" using codebook_bytes_Some by blast
  have canonical: "codebook_canonical blake3 = Some (?b\<lparr>lb_canonical_digest := blake3 bs\<rparr>)"
    by (simp add: codebook_canonical_def codebook_recompute_def bs Let_def)
  have "codebook_validate blake3 b = Inr () \<longleftrightarrow> b = ?b\<lparr>lb_canonical_digest := blake3 bs\<rparr>"
  proof
    assume v: "codebook_validate blake3 b = Inr ()"
    then have "b = ?b\<lparr>lb_canonical_digest := lb_canonical_digest b\<rparr>"
      by (cases b) (auto simp: codebook_validate_def split: if_splits)
    moreover from this have "codebook_bytes b = Some bs" using bs codebook_bytes_reseal [of _ ?b] by metis
    ultimately show "b = ?b\<lparr>lb_canonical_digest := blake3 bs\<rparr>"
      using v by (auto simp: codebook_validate_def codebook_recompute_def split: if_splits)
  next
    assume "b = ?b\<lparr>lb_canonical_digest := blake3 bs\<rparr>"
    then show "codebook_validate blake3 b = Inr ()"
      using bs codebook_bytes_reseal [of "blake3 bs" ?b]
      by (simp add: codebook_validate_def codebook_recompute_def)
  qed
  then show ?thesis by (auto simp: canonical)
qed

section \<open>The ledger\<close>

text \<open>How often the receipts ground a token in an action.\<close>

definition grounded :: "UtteranceGroundingReceiptV2 list \<Rightarrow> LanguageTokenId \<Rightarrow> ActionKind \<Rightarrow> nat" where
  "grounded rs token action =
     length (filter (\<lambda>r. gr_token r = token \<and> gr_selected_action r = action) rs)"

lemma grounded_simps [simp]:
  "grounded [] token action = 0"
  "grounded (rs @ [r]) token action =
     grounded rs token action + (if gr_token r = token \<and> gr_selected_action r = action then 1 else 0)"
  by (simp_all add: grounded_def)

lemma grounded_le: "grounded rs token action \<le> length rs"
  by (simp add: grounded_def)

definition entry_matches :: "UtteranceGroundingReceiptV2 list \<Rightarrow> LanguageGroundingEntry \<Rightarrow> bool" where
  "entry_matches rs e \<longleftrightarrow> 0 < grounded rs (le_token e) (le_action e)
     \<and> le_exposures e = word_of_nat (grounded rs (le_token e) (le_action e))
     \<and> le_successful_outcomes e = le_exposures e"

definition ledger_wf :: "LanguageGroundingLedger \<Rightarrow> bool" where
  "ledger_wf g \<longleftrightarrow> length (lg_utterance_receipts_v2 g) \<le> 64
     \<and> (\<forall>r \<in> set (lg_utterance_receipts_v2 g). grounding_receipt_validate r = Inr ()
          \<and> gr_sequence_id r \<le> lg_last_grounding_v2 g
          \<and> (gr_token r, action_kind_raw (gr_selected_action r)) \<in> entry_key ` set (lg_entries g))
     \<and> sorted_wrt (<) (map gr_sequence_id (lg_utterance_receipts_v2 g))
     \<and> sorted_wrt (<) (map entry_key (lg_entries g))
     \<and> (\<forall>e \<in> set (lg_entries g). entry_matches (lg_utterance_receipts_v2 g) e)"

lemma entry_key_eq: "entry_key e = (token, action_kind_raw action) \<longleftrightarrow> le_token e = token \<and> le_action e = action"
  by (simp add: entry_key_def)

lemma grounded_key:
  "0 < grounded rs token action \<longleftrightarrow>
     (token, action_kind_raw action) \<in> (\<lambda>r. (gr_token r, action_kind_raw (gr_selected_action r))) ` set rs"
  by (auto simp: grounded_def filter_empty_conv image_iff)

lemma bump_entry_None:
  "bump_entry token action es = None \<longleftrightarrow> (token, action_kind_raw action) \<notin> entry_key ` set es"
  by (induction es) (auto simp: entry_key_def)

lemma bump_entry_Some:
  assumes "bump_entry token action es = Some es'" and "distinct (map entry_key es)"
  shows "map entry_key es' = map entry_key es"
    and "set es' = {e \<in> set es. entry_key e \<noteq> (token, action_kind_raw action)}
      \<union> (\<lambda>e. e\<lparr>le_exposures := saturating_add (le_exposures e) 1,
           le_successful_outcomes := saturating_add (le_successful_outcomes e) 1\<rparr>)
        ` {e \<in> set es. entry_key e = (token, action_kind_raw action)}"
  using assms
proof (induction es arbitrary: es')
  case (Cons e es)
  {
    case 1
    then show ?case using Cons.IH(1) by (auto simp: entry_key_def split: if_splits)
  next
    case 2
    show ?case
    proof (cases "le_token e = token \<and> le_action e = action")
      case True
      then have k: "entry_key e = (token, action_kind_raw action)" by (simp add: entry_key_def)
      then have "entry_key e \<notin> entry_key ` set es" using 2(2) by simp
      then have "\<forall>x \<in> set es. entry_key x \<noteq> (token, action_kind_raw action)" unfolding k [symmetric] by (metis imageI)
      then have "{x \<in> set (e # es). entry_key x = (token, action_kind_raw action)} = {e}"
        "{x \<in> set (e # es). entry_key x \<noteq> (token, action_kind_raw action)} = set es"
        using k by auto
      with True 2 show ?thesis by auto
    next
      case False
      then have k: "entry_key e \<noteq> (token, action_kind_raw action)" by (simp add: entry_key_eq)
      obtain es1 where es1: "bump_entry token action es = Some es1" "es' = e # es1" using 2 False by auto
      have "{x \<in> set (e # es). entry_key x = (token, action_kind_raw action)}
          = {x \<in> set es. entry_key x = (token, action_kind_raw action)}"
        "{x \<in> set (e # es). entry_key x \<noteq> (token, action_kind_raw action)}
          = insert e {x \<in> set es. entry_key x \<noteq> (token, action_kind_raw action)}"
        using k by auto
      with Cons.IH(2) [OF es1(1)] 2 es1(2) show ?thesis by simp
    qed
  }
qed simp_all

lemma entries_le_receipts:
  assumes "ledger_wf g"
  shows "length (lg_entries g) \<le> length (lg_utterance_receipts_v2 g)"
proof -
  let ?key = "\<lambda>r. (gr_token r, action_kind_raw (gr_selected_action r))"
  have "entry_key e \<in> ?key ` set (lg_utterance_receipts_v2 g)" if "e \<in> set (lg_entries g)" for e
    using assms that unfolding entry_key_def grounded_key [symmetric] by (auto simp: ledger_wf_def entry_matches_def)
  then have "set (map entry_key (lg_entries g)) \<subseteq> set (map ?key (lg_utterance_receipts_v2 g))" by auto
  then have "card (set (map entry_key (lg_entries g))) \<le> card (set (map ?key (lg_utterance_receipts_v2 g)))"
    by (intro card_mono) simp_all
  also have "\<dots> \<le> length (lg_utterance_receipts_v2 g)" using card_length [of "map ?key (lg_utterance_receipts_v2 g)"] by simp
  finally show ?thesis
    using assms by (simp add: ledger_wf_def strict_sorted_iff distinct_card del: set_map)
qed

lemma small_count:
  assumes "n \<le> 64"
  shows "saturating_add (word_of_nat n) 1 = (word_of_nat (n + 1) :: u32)"
    and "unat (word_of_nat n :: u32) = n"
  using assms by (simp_all add: saturating_add_def unat_of_nat)

lemma ledger_wf_validates: "ledger_wf g \<Longrightarrow> ledger_validate g = Inr ()"
proof -
  assume wf: "ledger_wf g"
  have entry: "le_token e \<noteq> 0 \<and> le_exposures e \<noteq> 0 \<and> le_successful_outcomes e = le_exposures e"
    if "e \<in> set (lg_entries g)" for e
  proof -
    let ?n = "grounded (lg_utterance_receipts_v2 g) (le_token e) (le_action e)"
    have m: "entry_matches (lg_utterance_receipts_v2 g) e" using wf that by (simp add: ledger_wf_def)
    have "?n \<le> 64" using grounded_le [of "lg_utterance_receipts_v2 g"] wf by (metis ledger_wf_def order.trans)
    then have "unat (le_exposures e) = ?n" using m small_count(2) by (simp add: entry_matches_def)
    then have "le_exposures e \<noteq> 0" using m by (auto simp: entry_matches_def)
    moreover obtain r where "r \<in> set (lg_utterance_receipts_v2 g)" "gr_token r = le_token e"
      using m by (auto simp: entry_matches_def grounded_def filter_empty_conv)
    then have "le_token e \<noteq> 0"
      using wf by (auto simp: ledger_wf_def grounding_receipt_validate_def split: if_splits)
    ultimately show ?thesis using m by (simp add: entry_matches_def)
  qed
  have last: "lg_last_grounding_v2 g \<noteq> 0" if "lg_utterance_receipts_v2 g \<noteq> []"
  proof -
    let ?r = "hd (lg_utterance_receipts_v2 g)"
    have "?r \<in> set (lg_utterance_receipts_v2 g)" using that by simp
    then have "gr_sequence_id ?r \<noteq> 0" "gr_sequence_id ?r \<le> lg_last_grounding_v2 g"
      using wf by (auto simp: ledger_wf_def grounding_receipt_validate_def split: if_splits)
    then show ?thesis by auto
  qed
  have none: "lg_entries g \<noteq> [] \<Longrightarrow> lg_utterance_receipts_v2 g \<noteq> []"
    using entries_le_receipts [OF wf] by auto
  have "\<not> windows2_any (\<lambda>a b. entry_key b \<le> entry_key a) (lg_entries g)"
    "\<not> windows2_any (\<lambda>a b. gr_sequence_id b \<le> gr_sequence_id a) (lg_utterance_receipts_v2 g)"
    using wf by (simp_all add: windows2_sorted_by ledger_wf_def)
  then show ?thesis
    unfolding ledger_validate_def
    using wf entry last none entries_le_receipts [OF wf]
    by (auto simp: ledger_wf_def list_ex_iff is_ok_unit_iff not_less)
qed

text \<open>An accepted receipt: the entry of its token and action is counted up or added.\<close>

lemma observe_grounding_effect:
  assumes wf: "ledger_wf g"
  shows "observe_grounding_v2 r g = (Inl e, g') \<longrightarrow> g' = g"
    and "observe_grounding_v2 r g = (Inr (), g') \<longrightarrow> ledger_wf g'
      \<and> lg_utterance_receipts_v2 g' = lg_utterance_receipts_v2 g @ [r] \<and> lg_last_sequence_id g' = lg_last_sequence_id g"
    and "fst (observe_grounding_v2 r g) = Inr () \<longleftrightarrow> grounding_receipt_validate r = Inr ()
      \<and> lg_last_grounding_v2 g < gr_sequence_id r \<and> length (lg_utterance_receipts_v2 g) < 64"
proof -
  let ?k = "(gr_token r, action_kind_raw (gr_selected_action r))"
  let ?rs = "lg_utterance_receipts_v2 g"
  let ?new = "\<lparr> le_token = gr_token r, le_action = gr_selected_action r, le_exposures = 1, le_successful_outcomes = 1 \<rparr>"
  have rs64: "length ?rs \<le> 64" using wf by (simp add: ledger_wf_def)
  have main: "\<exists>g'. observe_grounding_v2 r g = (Inr (), g') \<and> ledger_wf g'
      \<and> lg_utterance_receipts_v2 g' = ?rs @ [r] \<and> lg_last_sequence_id g' = lg_last_sequence_id g"
    if ok: "grounding_receipt_validate r = Inr ()" "lg_last_grounding_v2 g < gr_sequence_id r" "length ?rs < 64"
  proof -
    define es where "es = (case bump_entry (gr_token r) (gr_selected_action r) (lg_entries g) of
        Some es \<Rightarrow> es | None \<Rightarrow> sort_key entry_key (lg_entries g @ [?new]))"
    define g' where "g' = g\<lparr>lg_last_grounding_v2 := gr_sequence_id r, lg_entries := es,
        lg_utterance_receipts_v2 := ?rs @ [r]\<rparr>"
    have sorted: "sorted_wrt (<) (map entry_key (lg_entries g))" using wf by (simp add: ledger_wf_def)
    then have dist: "distinct (map entry_key (lg_entries g))" by (simp add: strict_sorted_iff)
    have match: "entry_matches ?rs e" if "e \<in> set (lg_entries g)" for e using wf that by (simp add: ledger_wf_def)
    have es: "sorted_wrt (<) (map entry_key es) \<and> entry_key ` set es = insert ?k (entry_key ` set (lg_entries g))
        \<and> (\<forall>e \<in> set es. entry_matches (?rs @ [r]) e)"
    proof (cases "bump_entry (gr_token r) (gr_selected_action r) (lg_entries g)")
      case None
      have fresh: "?k \<notin> entry_key ` set (lg_entries g)" using None by (simp add: bump_entry_None)
      have "grounded ?rs (gr_token r) (gr_selected_action r) = 0"
        using fresh wf by (force simp: grounded_def filter_empty_conv ledger_wf_def)
      then have "entry_matches (?rs @ [r]) ?new" by (simp add: entry_matches_def)
      moreover have "entry_matches (?rs @ [r]) e" if "e \<in> set (lg_entries g)" for e
        using match [OF that] fresh that by (auto simp: entry_matches_def entry_key_def image_iff)
      moreover have key: "entry_key ?new = ?k" by (simp add: entry_key_def)
      moreover have "distinct (map entry_key (sort_key entry_key (lg_entries g @ [?new])))"
        using dist fresh key by (simp add: distinct_map inj_on_def) (metis image_eqI)
      then have "sorted_wrt (<) (map entry_key (sort_key entry_key (lg_entries g @ [?new])))"
        by (simp add: strict_sorted_iff)
      ultimately show ?thesis by (simp add: es_def None)
    next
      case (Some es')
      note b = bump_entry_Some [OF Some dist]
      have "entry_key ` set es' = entry_key ` set (lg_entries g)" using b(1) by (metis list.set_map)
      moreover have "?k \<in> entry_key ` set (lg_entries g)" using Some bump_entry_None by (metis option.distinct(1))
      moreover have "entry_matches (?rs @ [r]) e" if mem: "e \<in> set es'" for e
      proof (cases "entry_key e = ?k")
        case False
        then have "e \<in> set (lg_entries g)" using mem unfolding b(2) by (auto simp: entry_key_def)
        then show ?thesis using match [of e] False by (auto simp: entry_matches_def entry_key_eq)
      next
        case True
        then obtain e0 where e0: "e0 \<in> set (lg_entries g)" "entry_key e0 = ?k"
          "e = e0\<lparr>le_exposures := saturating_add (le_exposures e0) 1,
             le_successful_outcomes := saturating_add (le_successful_outcomes e0) 1\<rparr>"
          using mem unfolding b(2) by auto
        have "grounded ?rs (gr_token r) (gr_selected_action r) \<le> 64"
          using grounded_le rs64 by (rule order.trans)
        then show ?thesis
          using match [OF e0(1)] e0(2,3) small_count(1)
          by (auto simp: entry_matches_def entry_key_eq)
      qed
      ultimately show ?thesis using sorted b(1) by (simp add: es_def Some insert_absorb)
    qed
    have "ledger_wf g'"
      using wf ok es unfolding g'_def ledger_wf_def
      by (auto simp: sorted_wrt_append intro: less_imp_le order.trans le_less_trans)
    moreover have "length (lg_entries g) \<noteq> 64" using entries_le_receipts [OF wf] ok(3) by simp
    moreover have "ledger_validate g' = Inr ()" using \<open>ledger_wf g'\<close> by (rule ledger_wf_validates)
    ultimately show ?thesis
      using ok by (intro exI [of _ g'])
        (auto simp: observe_grounding_v2_def g'_def es_def Let_def not_le split: option.splits)
  qed
  have bad: "\<exists>e. observe_grounding_v2 r g = (Inl e, g)" if "\<not> (grounding_receipt_validate r = Inr ()
      \<and> lg_last_grounding_v2 g < gr_sequence_id r \<and> length ?rs < 64)"
    using that rs64
    by (cases "grounding_receipt_validate r") (auto simp: observe_grounding_v2_def not_less)
  show "observe_grounding_v2 r g = (Inl e, g') \<longrightarrow> g' = g"
    "observe_grounding_v2 r g = (Inr (), g') \<longrightarrow> ledger_wf g'
      \<and> lg_utterance_receipts_v2 g' = ?rs @ [r] \<and> lg_last_sequence_id g' = lg_last_sequence_id g"
    "fst (observe_grounding_v2 r g) = Inr () \<longleftrightarrow> grounding_receipt_validate r = Inr ()
      \<and> lg_last_grounding_v2 g < gr_sequence_id r \<and> length ?rs < 64"
    using main bad by force+
qed

section \<open>Runs of a ledger\<close>

lemma sealed_wf: "ledger_wf g \<Longrightarrow> ledger_wf (g\<lparr>lg_last_sequence_id := i\<rparr>)"
  by (simp add: ledger_wf_def)

lemma observe_sealed_effect:
  assumes "ledger_wf g"
  shows "observe_sealed check i g = (if check = Inr () \<and> lg_last_sequence_id g < i
      then (Inr (), g\<lparr>lg_last_sequence_id := i\<rparr>)
      else (Inl (case check of Inl e \<Rightarrow> e | Inr _ \<Rightarrow> LearningReplayRejected), g))"
  using ledger_wf_validates [OF sealed_wf [OF assms]]
  by (cases check) (auto simp: observe_sealed_def Let_def not_le)

definition receipt_of :: "LedgerOp \<Rightarrow> UtteranceGroundingReceiptV2 list" where
  "receipt_of op = (case op of Ground r \<Rightarrow> [r] | Sealed _ _ \<Rightarrow> [])"

lemma ledger_step_effect:
  assumes "ledger_wf g"
  shows "ledger_wf (snd (ledger_step op g)) \<and> (fst (ledger_step op g) = Inl e \<longrightarrow> snd (ledger_step op g) = g)
    \<and> lg_utterance_receipts_v2 (snd (ledger_step op g)) = lg_utterance_receipts_v2 g
        @ (if is_ok (fst (ledger_step op g)) then receipt_of op else [])"
proof (cases op)
  case (Ground r)
  obtain x g' where x: "observe_grounding_v2 r g = (x, g')" by force
  show ?thesis
    using observe_grounding_effect(1) [OF assms, of r _ g'] observe_grounding_effect(2) [OF assms, of r g']
      x assms
    by (cases x) (auto simp: Ground receipt_of_def)
next
  case (Sealed check i)
  then show ?thesis using assms sealed_wf [OF assms] by (simp add: observe_sealed_effect receipt_of_def)
qed

interpretation ledger_machine: atomic_machine ledger_step ledger_wf
  by unfold_locales (use ledger_step_effect in blast)+

lemma ledger_default_wf: "ledger_wf ledger_default"
  by (simp add: ledger_wf_def ledger_default_def)

lemma ledger_receipts:
  "ledger_wf g \<Longrightarrow> lg_utterance_receipts_v2 (run_ops ledger_step ops g)
     = lg_utterance_receipts_v2 g @ concat (map receipt_of (accepted_ops ledger_step ops g))"
proof (induction ops arbitrary: g)
  case (Cons op ops)
  then show ?case using ledger_step_effect [OF Cons.prems, of op] by simp
qed simp

text \<open>The counts a ledger holds for a token in an action.\<close>

definition ledger_counts :: "LanguageGroundingLedger \<Rightarrow> LanguageTokenId \<Rightarrow> ActionKind \<Rightarrow> (u32 \<times> u32) option" where
  "ledger_counts g token action =
     map_option (\<lambda>e. (le_exposures e, le_successful_outcomes e))
       (find (\<lambda>e. le_token e = token \<and> le_action e = action) (lg_entries g))"

lemma ledger_wf_counts:
  assumes "ledger_wf g"
  shows "ledger_counts g token action = (let n = grounded (lg_utterance_receipts_v2 g) token action
    in if n = 0 then None else Some (word_of_nat n, word_of_nat n))"
proof (cases "find (\<lambda>e. le_token e = token \<and> le_action e = action) (lg_entries g)")
  case None
  then have "\<not> (\<exists>e \<in> set (lg_entries g). entry_key e = (token, action_kind_raw action))"
    by (auto simp: find_None_iff entry_key_eq)
  then have "(token, action_kind_raw action) \<notin> entry_key ` set (lg_entries g)" by (metis imageE)
  then have "(token, action_kind_raw action) \<notin> (\<lambda>r. (gr_token r, action_kind_raw (gr_selected_action r)))
      ` set (lg_utterance_receipts_v2 g)"
    using assms by (auto simp: ledger_wf_def)
  then show ?thesis using None by (simp add: ledger_counts_def grounded_key [symmetric])
next
  case (Some e)
  then have "e \<in> set (lg_entries g)" "le_token e = token" "le_action e = action"
    by (auto simp: find_Some_iff)
  moreover from this have "entry_matches (lg_utterance_receipts_v2 g) e" using assms by (simp add: ledger_wf_def)
  ultimately show ?thesis using Some by (auto simp: ledger_counts_def entry_matches_def Let_def)
qed

text \<open>
  C13. The ledger is the histogram of its receipts: after any run of calls on a new ledger it holds the
  accepted receipts, at most 64 with strictly increasing sequence ids, its counts are exactly the
  occurrences of each token and action among them, and it passes its own validation.
\<close>

theorem ledger_is_histogram:
  "let g = run_ops ledger_step ops ledger_default;
       rs = concat (map receipt_of (accepted_ops ledger_step ops ledger_default));
       n = grounded rs token action
   in lg_utterance_receipts_v2 g = rs \<and> length rs \<le> 64 \<and> sorted_wrt (<) (map gr_sequence_id rs)
      \<and> ledger_validate g = Inr ()
      \<and> ledger_counts g token action = (if n = 0 then None else Some (word_of_nat n, word_of_nat n))"
proof -
  let ?g = "run_ops ledger_step ops ledger_default"
  have wf: "ledger_wf ?g" using ledger_default_wf by (rule ledger_machine.run_keeps)
  have "lg_utterance_receipts_v2 ?g = concat (map receipt_of (accepted_ops ledger_step ops ledger_default))"
    using ledger_receipts [OF ledger_default_wf, of ops] by (simp add: ledger_default_def)
  then show ?thesis
    using wf ledger_wf_counts [OF wf, of token action] ledger_wf_validates [OF wf]
    by (simp add: Let_def ledger_wf_def)
qed

text \<open>
  C14. A full ledger never learns again: once 64 receipts are held, every further receipt is refused and
  no sequence of calls changes the entries or the receipts.
\<close>

theorem full_ledger_is_frozen:
  assumes "length (lg_utterance_receipts_v2 g) = 64"
  shows "lg_entries (run_ops ledger_step ops g) = lg_entries g
    \<and> lg_utterance_receipts_v2 (run_ops ledger_step ops g) = lg_utterance_receipts_v2 g
    \<and> (\<exists>e. observe_grounding_v2 r (run_ops ledger_step ops g) = (Inl e, run_ops ledger_step ops g))"
  using assms
proof (induction ops arbitrary: g)
  case Nil
  then show ?case by (cases "grounding_receipt_validate r") (simp_all add: observe_grounding_v2_def)
next
  case (Cons op ops)
  have "lg_entries (snd (ledger_step op g)) = lg_entries g
      \<and> lg_utterance_receipts_v2 (snd (ledger_step op g)) = lg_utterance_receipts_v2 g"
    using Cons.prems by (cases op)
      (auto simp: observe_grounding_v2_def observe_sealed_def Let_def split: sum.split)
  then show ?case using Cons.IH [of "snd (ledger_step op g)"] Cons.prems by simp
qed

section \<open>Witnesses\<close>

theorem symbols_are_distinct_witness:
  "pronounceable_symbol 17 = Some ''dami'' \<and> pronounceable_symbol 17 \<noteq> pronounceable_symbol 18"
proof -
  have "pronounceable_symbol 17 = Some ''dami''" by (simp add: pronounceable_symbol_def ONSETS_def RHYMES_def)
  moreover have "pronounceable_symbol 17 \<noteq> pronounceable_symbol 18"
    using symbols_are_distinct [of 17 18] by simp
  ultimately show ?thesis by blast
qed

definition ex_grounding :: "u64 \<Rightarrow> UtteranceGroundingReceiptV2" where
  "ex_grounding i = \<lparr> gr_schema_version = 2, gr_organism_id = 1, gr_sequence_id = i, gr_utterance_id = 1,
     gr_sequence_position = 0, gr_source_kind = Teacher, gr_speaker_id = None, gr_source_entity = None,
     gr_token = 3, gr_target_entity = 4, gr_tracked_target = 5, gr_selected_action_id = 100,
     gr_selected_action = Move, gr_exposure_tick = 6, gr_outcome_tick = 7, gr_frame_digest = (1, 2, 3, 4) \<rparr>"

definition ex_full_ledger :: LanguageGroundingLedger where
  "ex_full_ledger = \<lparr> lg_last_sequence_id = 0, lg_entries = [\<lparr> le_token = 3, le_action = Move,
     le_exposures = 64, le_successful_outcomes = 64 \<rparr>], lg_last_grounding_v2 = 64,
     lg_utterance_receipts_v2 = map (\<lambda>i. ex_grounding (word_of_nat i)) [1..<65] \<rparr>"

theorem full_ledger_is_frozen_witness:
  "lg_entries (run_ops ledger_step [Ground (ex_grounding 65)] ex_full_ledger) = lg_entries ex_full_ledger
   \<and> (\<exists>e. observe_grounding_v2 (ex_grounding 66) (run_ops ledger_step [Ground (ex_grounding 65)] ex_full_ledger)
        = (Inl e, run_ops ledger_step [Ground (ex_grounding 65)] ex_full_ledger))"
proof -
  have "length (lg_utterance_receipts_v2 ex_full_ledger) = 64" by (simp add: ex_full_ledger_def)
  from full_ledger_is_frozen [OF this, of "[Ground (ex_grounding 65)]" "ex_grounding 66"] show ?thesis by blast
qed

end
