(* ===== verification/F32_Quotient.thy ===== *)
theory F32_Quotient
  imports F32_Arith
begin

text \<open>
  Division of \<open>f32\<close> values, rounded once as the other operators are, and the exactness of small
  integers: together they say when a quotient of two counts is zero, positive or at most one.
\<close>

definition f32_div :: "f32 \<Rightarrow> f32 \<Rightarrow> f32" where
  "f32_div x y =
     (let negative = (f32_is_sign_negative x \<noteq> f32_is_sign_negative y)
      in if f32_is_nan x \<or> f32_is_nan y then f32_nan
         else if f32_is_infinite x then
           (if f32_is_infinite y then f32_nan else if negative then 0xff800000 else 0x7f800000)
         else if f32_is_infinite y then (if negative then 0x80000000 else 0)
         else if f32_magnitude y = 0 then
           (if f32_magnitude x = 0 then f32_nan else if negative then 0xff800000 else 0x7f800000)
         else f32_round negative (f32_magnitude x * 2 ^ 149) (f32_magnitude y))"

lemma round_even_exact: "0 < d \<Longrightarrow> round_even (m * d) d = m"
  by (simp add: round_even_def)

lemma bit_length_unique:
  assumes "2 ^ (k - 1) \<le> n" and "n < 2 ^ k" and "0 < k"
  shows "bit_length n = k"
proof -
  have "n \<noteq> 0" using assms(1) by (metis le_zero_eq power_not_zero zero_neq_numeral)
  note b = bit_length_bounds [OF this]
  have "(2 :: nat) ^ (k - 1) < 2 ^ bit_length n" using b assms by linarith
  then have "k - 1 < bit_length n" by (rule power_less_imp_less_exp [rotated]) simp
  have "(2 :: nat) ^ (bit_length n - 1) < 2 ^ k" using b assms by linarith
  then have "bit_length n - 1 < k" by (rule power_less_imp_less_exp [rotated]) simp
  with \<open>k - 1 < bit_length n\<close> show ?thesis using b assms(3) by linarith
qed

text \<open>Integers below \<open>2 ^ 24\<close> are represented exactly.\<close>

lemma f32_of_nat_exact:
  assumes "0 < n" and "n < 2 ^ 24"
  shows "f32_magnitude (f32_of_nat n) = n * 2 ^ 149"
proof -
  let ?l = "bit_length n"
  have b: "2 ^ (?l - 1) \<le> n" "n < 2 ^ ?l" "0 < ?l" using bit_length_bounds [of n] assms(1) by auto
  have "(2 :: nat) ^ (?l - 1) < 2 ^ 24" using b(1) assms(2) by (rule le_less_trans)
  then have "?l - 1 < 24" by (rule power_less_imp_less_exp [rotated]) simp
  then have l: "?l \<le> 24" by simp
  have len: "bit_length (n * 2 ^ 149) = ?l + 149"
  proof (rule bit_length_unique)
    have "(2 :: nat) ^ (?l + 149 - 1) = 2 ^ (?l - 1) * 2 ^ 149"
    proof -
      have "?l + 149 - 1 = (?l - 1) + 149" using b(3) by simp
      then show ?thesis by (simp only: power_add)
    qed
    also have "\<dots> \<le> n * 2 ^ 149" using b(1) by (rule mult_le_mono1)
    finally show "(2 :: nat) ^ (?l + 149 - 1) \<le> n * 2 ^ 149" .
    have "n * 2 ^ 149 < 2 ^ ?l * 2 ^ 149" using b(2) by (rule mult_less_mono1) simp
    then show "n * 2 ^ 149 < 2 ^ (?l + 149)" by (simp only: power_add)
  qed simp
  let ?e = "?l + 149 - 24"
  have e: "24 - ?l + ?e = 149" using l by simp
  let ?m = "n * 2 ^ (24 - ?l)"
  have exact: "n * 2 ^ 149 = ?m * 2 ^ ?e" by (simp only: mult.assoc power_add [symmetric] e)
  have sums: "?l - 1 + (24 - ?l) = 23" "?l + (24 - ?l) = 24" using l b(3) by simp_all
  have "2 ^ (?l - 1) * 2 ^ (24 - ?l) \<le> ?m" using b(1) by (rule mult_le_mono1)
  then have lo: "2 ^ 23 \<le> ?m" by (simp only: power_add [symmetric] sums)
  have "?m < 2 ^ ?l * 2 ^ (24 - ?l)" using b(2) by (rule mult_less_mono1) simp
  then have hi: "?m \<le> 2 ^ 24" by (simp only: power_add [symmetric] sums less_imp_le)
  have big: "\<not> n * 2 ^ 149 < 2 ^ 24"
  proof -
    have "1 * 2 ^ 149 \<le> n * 2 ^ 149" using assms(1) by (intro mult_le_mono1) simp
    then show ?thesis by simp
  qed
  have r: "round_even (n * 2 ^ 149) (1 * 2 ^ ?e) = ?m"
    unfolding exact mult_1 by (rule round_even_exact) simp
  have bits: "f32_bits_of (n * 2 ^ 149) 1 = ?e * 2 ^ 23 + ?m"
    unfolding f32_bits_of_def div_by_1 Let_def len r if_not_P [OF big] ..
  have "f32_bits_of (n * 2 ^ 149) 1 \<le> 0x7f800000"
    unfolding bits using l hi by simp
  then have "f32_magnitude (f32_of_nat n) = bits_value (f32_bits_of (n * 2 ^ 149) 1)"
    by (simp only: f32_of_nat_def f32_round_magnitude min_def if_True)
  also have "\<dots> = n * 2 ^ 149" unfolding bits bits_value_normal [OF lo hi] by (rule exact [symmetric])
  finally show ?thesis .
qed

lemma f32_of_nat_zero [simp]: "f32_of_nat 0 = 0"
  by (simp add: f32_of_nat_def f32_round_def f32_bits_of_def round_even_def)

lemma f32_of_nat_sign [simp]: "\<not> f32_is_sign_negative (f32_of_nat n)"
  by (simp add: f32_of_nat_def f32_round_fields)

text \<open>The quotient of two such integers.\<close>

lemma f32_count_quotient:
  assumes "0 < d" and "d < 2 ^ 24" and "n \<le> d"
  shows "f32_div (f32_of_nat n) (f32_of_nat d) = f32_round False (n * 2 ^ 149) d"
proof -
  have dm: "f32_magnitude (f32_of_nat d) = d * 2 ^ 149" using assms(1,2) by (rule f32_of_nat_exact)
  have nm: "f32_magnitude (f32_of_nat n) = n * 2 ^ 149"
  proof (cases "n = 0")
    case True
    then show ?thesis by (simp add: f32_magnitude_def f32_exponent_unat f32_fraction_unat)
  next
    case False
    then show ?thesis using assms(2,3) by (intro f32_of_nat_exact) simp_all
  qed
  have fin: "f32_is_finite (f32_of_nat m)" if "m < 2 ^ 24" for m
    using f32_of_nat_bounded [of m 24] that by (simp add: f32_bounded_finite)
  note kinds = fin [THEN f32_finite_not_nan] fin [THEN f32_finite_not_infinite]
  have scale: "f32_round s (n * 2 ^ 149 * 2 ^ 149) (d * 2 ^ 149) = f32_round s (n * 2 ^ 149) d" for s
  proof -
    have re: "round_even (a * 2 ^ 149) (c * 2 ^ 149) = round_even a c" for a c :: nat
      by (simp add: round_even_def Let_def mult_mod_left [symmetric] flip: mult.assoc)
    have sw: "d * 2 ^ 149 * 2 ^ e = (d * 2 ^ e) * 2 ^ 149" for e :: nat by (simp add: mult_ac)
    have q: "n * 2 ^ 149 * 2 ^ 149 div (d * 2 ^ 149) = n * 2 ^ 149 div d"
      by (rule div_mult_mult2) simp
    show ?thesis unfolding f32_round_def f32_bits_of_def q sw re ..
  qed
  have "n < 2 ^ 24" using assms(2,3) by simp
  then show ?thesis
    using kinds [OF assms(2)] kinds [of n] assms(1) scale
    by (simp only: f32_div_def Let_def dm nm f32_of_nat_sign simp_thms if_False) simp
qed

lemma f32_count_quotient_unit:
  assumes "0 < d" and "d < 2 ^ 24" and "n \<le> d"
  shows "f32_is_finite (f32_div (f32_of_nat n) (f32_of_nat d))"
    and "f32_le f32_zero (f32_div (f32_of_nat n) (f32_of_nat d))"
    and "f32_le (f32_div (f32_of_nat n) (f32_of_nat d)) f32_zero \<longleftrightarrow> n = 0"
proof -
  let ?w = "f32_round False (n * 2 ^ 149) d"
  have "n * 2 ^ 149 \<le> 2 ^ 149 * d" using assms(3) by (simp add: mult.commute)
  then have bounded: "f32_bounded 149 ?w" using assms(1) by (intro f32_round_bounded) simp_all
  then show fin: "f32_is_finite (f32_div (f32_of_nat n) (f32_of_nat d))"
    by (simp add: f32_count_quotient [OF assms] f32_bounded_finite)
  have nn: "\<not> f32_is_nan ?w" using bounded by (rule f32_bounded_not_nan)
  have sc: "f32_scaled ?w = int (f32_magnitude ?w)" by (simp add: f32_scaled_def f32_round_fields)
  show "f32_le f32_zero (f32_div (f32_of_nat n) (f32_of_nat d))"
    unfolding f32_count_quotient [OF assms] f32_le_def f32_consts sc using nn by simp
  have "f32_magnitude ?w = 0 \<longleftrightarrow> n = 0"
  proof
    assume "n = 0"
    then show "f32_magnitude ?w = 0"
      using assms(1) by (simp add: f32_round_magnitude f32_bits_of_def round_even_def bits_value_def)
  next
    assume zero: "f32_magnitude ?w = 0"
    show "n = 0"
    proof (rule ccontr)
      assume "n \<noteq> 0"
      then have "1 * 2 ^ 149 \<le> n * 2 ^ 149" by (intro mult_le_mono1) simp
      then have "2 ^ 125 * d \<le> n * 2 ^ 149" using assms(2) by simp
      then have q: "2 ^ 125 \<le> n * 2 ^ 149 div d" using assms(1) by (simp add: less_eq_div_iff_mult_less_eq)
      then have big: "\<not> n * 2 ^ 149 div d < 2 ^ 24" by simp
      have "2 ^ 125 < (2 :: nat) ^ bit_length (n * 2 ^ 149 div d)"
        using bit_length_bounds [of "n * 2 ^ 149 div d"] q by (auto intro: le_less_trans)
      then have "125 < bit_length (n * 2 ^ 149 div d)" by (rule power_less_imp_less_exp [rotated]) simp
      then have "2 ^ 23 \<le> f32_bits_of (n * 2 ^ 149) d"
        using big by (simp add: f32_bits_of_def Let_def trans_le_add1)
      then have "2 ^ 23 \<le> min (f32_bits_of (n * 2 ^ 149) d) 0x7f800000" by simp
      then have "bits_value (min (f32_bits_of (n * 2 ^ 149) d) 0x7f800000) \<noteq> 0"
        by (auto simp: bits_value_def)
      then show False using zero by (simp add: f32_round_magnitude)
    qed
  qed
  then show "f32_le (f32_div (f32_of_nat n) (f32_of_nat d)) f32_zero \<longleftrightarrow> n = 0"
    unfolding f32_count_quotient [OF assms] f32_le_def f32_consts sc using nn by simp
qed

section \<open>Lower bounds\<close>

text \<open>
  A product or a sum that is at least a value of the type stays so when it is rounded: multiplying by one or
  more never makes a positive rate smaller.
\<close>

lemma bits_value_infinite: "bits_value 0x7f800000 = 2 ^ 277"
  by (simp add: bits_value_def)

lemma f32_bits_lower:
  assumes d: "0 < d" and n: "m * 2 ^ j * d \<le> n" and m: "m < 2 ^ 24" "m * 2 ^ j \<le> 2 ^ 277"
  shows "m * 2 ^ j \<le> bits_value (min (f32_bits_of n d) 0x7f800000)"
proof -
  have "m * 2 ^ j \<le> bits_value (f32_bits_of n d)"
  proof (cases "n div d < 2 ^ 24")
    case True
    then have "n < 2 ^ 24 * d" by (metis d div_less_iff_less_mult)
    then have "round_even n d \<le> 2 ^ 24" using d by (intro round_even_le) simp_all
    moreover have "m * 2 ^ j \<le> round_even n d" by (rule round_even_ge [OF n d])
    ultimately show ?thesis using True by (simp add: f32_bits_of_def bits_value_small)
  next
    case False
    let ?q = "n div d" and ?e = "bit_length (n div d) - 24"
    let ?r = "round_even n (d * 2 ^ ?e)"
    have b: "2 ^ (bit_length ?q - 1) \<le> ?q" "?q < 2 ^ bit_length ?q" using bit_length_bounds [of ?q] False by auto
    have len: "25 \<le> bit_length ?q"
    proof (rule ccontr)
      assume "\<not> 25 \<le> bit_length ?q"
      then have "(2 :: nat) ^ bit_length ?q \<le> 2 ^ 24" by (intro power_increasing) simp_all
      with b False show False by simp
    qed
    then obtain i where i: "bit_length ?q = 25 + i" using le_Suc_ex by blast
    have split: "2 ^ bit_length ?q = (2 :: nat) ^ 24 * 2 ^ ?e" "2 ^ (bit_length ?q - 1) = (2 :: nat) ^ 23 * 2 ^ ?e"
      by (simp_all add: i power_add)
    have "2 ^ 23 * 2 ^ ?e * d \<le> ?q * d" using b(1) unfolding split(2) by (rule mult_le_mono1)
    also have "\<dots> \<le> n" by simp
    finally have "2 ^ 23 * (d * 2 ^ ?e) \<le> n" by (simp add: mult_ac)
    then have lo: "2 ^ 23 \<le> ?r" using d by (intro round_even_ge) simp_all
    have "n < 2 ^ 24 * 2 ^ ?e * d" using b(2) unfolding split(1) div_less_iff_less_mult [OF d] .
    then have "n < 2 ^ 24 * (d * 2 ^ ?e)" by (simp add: mult_ac)
    then have hi: "?r \<le> 2 ^ 24" using d by (intro round_even_le) simp_all
    have val: "bits_value (f32_bits_of n d) = ?r * 2 ^ ?e"
      using False bits_value_normal [OF lo hi] by (simp add: f32_bits_of_def Let_def)
    have "m * 2 ^ j \<le> ?r * 2 ^ ?e"
    proof (cases "?e \<le> j")
      case True
      then obtain i where j: "j = ?e + i" using le_Suc_ex by blast
      have "m * 2 ^ i * (d * 2 ^ ?e) \<le> n" using n unfolding j power_add by (simp add: mult_ac)
      then have "m * 2 ^ i \<le> ?r" by (rule round_even_ge) (use d in simp)
      then have "m * 2 ^ i * 2 ^ ?e \<le> ?r * 2 ^ ?e" by (rule mult_le_mono1)
      then show ?thesis unfolding j power_add by (simp add: mult_ac)
    next
      case False
      then have "Suc j \<le> ?e" by simp
      have "m * 2 ^ j \<le> 2 ^ 24 * 2 ^ j" using m(1) by (intro mult_le_mono1) simp
      also have "\<dots> = (2 :: nat) ^ 23 * 2 ^ Suc j" by simp
      also have "\<dots> \<le> 2 ^ 23 * 2 ^ ?e" using \<open>Suc j \<le> ?e\<close> by (intro mult_le_mono2 power_increasing) simp_all
      also have "\<dots> \<le> ?r * 2 ^ ?e" using lo by (rule mult_le_mono1)
      finally show ?thesis .
    qed
    then show ?thesis by (simp only: val)
  qed
  then show ?thesis using m(2) bits_value_infinite by (simp add: min_def)
qed

lemma f32_round_lower:
  assumes "0 < d" and "2 ^ k * d \<le> n" and "k \<le> 276"
  shows "2 ^ k \<le> f32_magnitude (f32_round s n d)"
proof -
  have "(2 :: nat) ^ k \<le> 2 ^ 277" using assms(3) by (intro power_increasing) simp_all
  then show ?thesis using f32_bits_lower [of d 1 k n] assms(1,2) by (simp add: f32_round_magnitude)
qed

lemma f32_infinite_large: "f32_is_infinite x \<Longrightarrow> f32_magnitude x = 2 ^ 277"
  by (simp add: f32_is_infinite_def f32_magnitude_def)

text \<open>Values that are positive or at least one.\<close>

lemma f32_pos_iff: "f32_le f32_zero x \<and> \<not> f32_eq x f32_zero \<longleftrightarrow> \<not> f32_is_nan x \<and> 0 < f32_scaled x"
  by (auto simp: f32_le_def f32_eq_def)

lemma f32_scaled_pos: "0 < f32_scaled x \<longleftrightarrow> \<not> f32_is_sign_negative x \<and> 0 < f32_magnitude x"
  by (auto simp: f32_scaled_def)

lemma f32_one_facts: "f32_is_finite f32_one" "0 < f32_scaled f32_one" "f32_magnitude f32_one = 2 ^ 149" "\<not> f32_is_sign_negative f32_one"
  by (simp_all add: f32_is_finite_def f32_one_def f32_exponent_unat f32_fraction_unat f32_scaled_def f32_magnitude_def f32_sign_unat)

lemma f32_one_le_scaled: "f32_le f32_one x \<longleftrightarrow> \<not> f32_is_nan x \<and> 2 ^ 149 \<le> f32_scaled x"
  by (simp add: f32_le_def)

lemma f32_one_le_iff: "f32_le f32_one x \<longleftrightarrow> \<not> f32_is_nan x \<and> \<not> f32_is_sign_negative x \<and> 2 ^ 149 \<le> f32_magnitude x"
proof (cases "f32_is_sign_negative x")
  case True
  then have "\<not> 2 ^ 149 \<le> f32_scaled x" by (simp add: f32_scaled_def not_le)
  then show ?thesis using True by (simp only: f32_one_le_scaled) simp
next
  case False
  then have "2 ^ 149 \<le> f32_scaled x \<longleftrightarrow> 2 ^ 149 \<le> f32_magnitude x"
    using of_nat_le_iff [of "2 ^ 149" "f32_magnitude x", where 'a = int] by (simp add: f32_scaled_def)
  then show ?thesis using False by (simp only: f32_one_le_scaled) simp
qed

lemma f32_finite_magnitude:
  assumes "f32_is_finite x"
  obtains m j where "f32_magnitude x = m * 2 ^ j" "m < 2 ^ 24" "m * 2 ^ j \<le> 2 ^ 277"
proof -
  have e: "f32_exponent x \<le> 254"
    using assms mod_less_divisor [of 256 "unat x div 2 ^ 23"] by (simp add: f32_is_finite_def f32_exponent_unat)
  have f: "f32_fraction x < 2 ^ 23" by (simp add: f32_fraction_unat)
  show thesis
  proof (cases "f32_exponent x = 0")
    case True
    have "f32_fraction x * 2 ^ 0 \<le> (2 :: nat) ^ 277" using f by simp
    then show thesis using True f by (intro that [of "f32_fraction x" 0]) (simp_all add: f32_magnitude_def)
  next
    case False
    have "(f32_fraction x + 2 ^ 23) * 2 ^ (f32_exponent x - 1) \<le> 2 ^ 24 * 2 ^ 253"
      using f e by (intro mult_le_mono power_increasing) simp_all
    also have "(2 :: nat) ^ 24 * 2 ^ 253 = 2 ^ 277" by simp
    finally show thesis using False f
      by (intro that [of "f32_fraction x + 2 ^ 23" "f32_exponent x - 1"]) (simp_all add: f32_magnitude_def)
  qed
qed

lemma f32_mul_keeps:
  assumes "f32_is_finite x" "0 < f32_scaled x" and "f32_le f32_one y"
  shows "\<not> f32_is_nan (f32_mul x y) \<and> 0 < f32_scaled (f32_mul x y) \<and> f32_magnitude x \<le> f32_magnitude (f32_mul x y)"
proof -
  have y: "\<not> f32_is_nan y" "\<not> f32_is_sign_negative y" "2 ^ 149 \<le> f32_magnitude y" using assms(3) by (auto simp: f32_one_le_iff)
  have x: "\<not> f32_is_nan x" "\<not> f32_is_infinite x" "\<not> f32_is_sign_negative x" "0 < f32_magnitude x"
    using assms(1,2) by (simp_all add: f32_finite_not_nan f32_finite_not_infinite f32_scaled_pos)
  have my: "f32_magnitude y \<noteq> 0" using y(3) by (metis le_zero_eq power_not_zero zero_neq_numeral)
  obtain m j where mj: "f32_magnitude x = m * 2 ^ j" "m < 2 ^ 24" "m * 2 ^ j \<le> 2 ^ 277"
    using assms(1) by (rule f32_finite_magnitude)
  show ?thesis
  proof (cases "f32_is_infinite y")
    case True
    then have mul: "f32_mul x y = 0x7f800000" using x y my by (simp add: f32_mul_def Let_def)
    have inf: "f32_is_infinite 0x7f800000" "\<not> f32_is_sign_negative 0x7f800000" "\<not> f32_is_nan 0x7f800000"
      by (simp_all add: f32_is_infinite_def f32_exponent_unat f32_fraction_unat f32_sign_unat f32_is_nan_def)
    then have "f32_magnitude x \<le> f32_magnitude (f32_mul x y)" using mj(3) f32_infinite_large unfolding mul mj(1) by simp
    then show ?thesis using x(4) inf unfolding mul f32_scaled_pos by linarith
  next
    case False
    then have mul: "f32_mul x y = f32_round False (f32_magnitude x * f32_magnitude y) (2 ^ 149)"
      using x y by (simp add: f32_mul_def Let_def)
    have "m * 2 ^ j * 2 ^ 149 \<le> f32_magnitude x * f32_magnitude y" using y(3) unfolding mj(1) by (rule mult_le_mono2)
    then have "f32_magnitude x \<le> f32_magnitude (f32_mul x y)"
      using f32_bits_lower [OF _ _ mj(2,3), of "2 ^ 149"] unfolding mul f32_round_magnitude mj(1) by simp
    then show ?thesis using x(4) by (simp add: f32_scaled_pos mul f32_round_fields)
  qed
qed

lemma f32_mul_pos:
  assumes "f32_is_finite x" "f32_is_finite y" "0 < f32_scaled x" "0 < f32_scaled y" "2 ^ 149 \<le> f32_magnitude x * f32_magnitude y"
  shows "\<not> f32_is_nan (f32_mul x y) \<and> 0 < f32_scaled (f32_mul x y)"
proof -
  have "\<not> f32_is_sign_negative x" "\<not> f32_is_sign_negative y" using assms(3,4) by (simp_all add: f32_scaled_pos)
  then have mul: "f32_mul x y = f32_round False (f32_magnitude x * f32_magnitude y) (2 ^ 149)"
    using assms(1,2) by (simp add: f32_mul_def Let_def f32_finite_not_nan f32_finite_not_infinite)
  have "2 ^ 0 \<le> f32_magnitude (f32_mul x y)" unfolding mul using assms(5) by (intro f32_round_lower) simp_all
  then show ?thesis by (simp add: mul f32_scaled_pos f32_round_fields)
qed

lemma f32_add_one_ge:
  assumes "\<not> f32_is_nan y" "0 \<le> f32_scaled y"
  shows "f32_le f32_one (f32_add f32_one y)"
proof (cases "f32_is_infinite y")
  case True
  then have "2 ^ 149 \<le> f32_magnitude y" unfolding f32_infinite_large [OF True] by (intro power_increasing) simp_all
  moreover from this have "0 < f32_magnitude y" by (metis gr0I le_zero_eq power_not_zero zero_neq_numeral)
  with assms(2) have "\<not> f32_is_sign_negative y" by (auto simp: f32_scaled_def)
  moreover have "f32_add f32_one y = y"
    using True assms(1) f32_one_facts by (simp add: f32_add_def f32_finite_not_infinite)
  ultimately show ?thesis using assms(1) by (simp add: f32_one_le_iff)
next
  case False
  let ?s = "f32_scaled f32_one + f32_scaled y"
  have s: "2 ^ 149 \<le> ?s" using assms(2) by simp
  then have "f32_add f32_one y = f32_round False (nat \<bar>?s\<bar>) 1"
    using False assms(1) f32_one_facts by (simp add: f32_add_def f32_finite_not_infinite f32_finite_not_nan Let_def)
  moreover have "2 ^ 149 * 1 \<le> nat \<bar>?s\<bar>"
    using s by (simp add: le_nat_iff)
  then have "2 ^ 149 \<le> f32_magnitude (f32_round False (nat \<bar>?s\<bar>) 1)" by (intro f32_round_lower) simp_all
  ultimately show ?thesis by (simp add: f32_one_le_iff f32_round_fields)
qed

text \<open>A clamped value keeps its sign, and reaches the upper bound when it is above it.\<close>

lemma f32_clamp_unit:
  assumes "\<not> f32_is_nan x"
  shows "f32_in_range f32_zero f32_one (f32_clamp f32_zero f32_one x)"
    and "0 < f32_scaled x \<Longrightarrow> 0 < f32_scaled (f32_clamp f32_zero f32_one x)"
    and "0 < f32_scaled x \<Longrightarrow> n \<le> f32_magnitude x \<Longrightarrow> n \<le> 2 ^ 149 \<Longrightarrow> n \<le> f32_magnitude (f32_clamp f32_zero f32_one x)"
  using assms f32_one_facts(3) by (auto simp: f32_in_range_def f32_clamp_def f32_lt_def f32_le_def)

end
