(* ===== verification/Plasticity.thy ===== *)
theory Plasticity
  imports F32_Quotient Digest Collections
begin

text \<open>
  \<open>crates/alife_core/src/structural_plasticity.rs\<close>: candidates for new connections are discovered from
  coactivation evidence, region by region, and a structural phase turns the best of them into sparse
  connections and prunes the weak ones. The two \<open>BTreeMap\<close>s are their sorted entries; counts of
  \<open>usize\<close> are natural numbers.
\<close>

section \<open>Configuration\<close>

definition MAX_CANDIDATES_PER_REGION :: nat where "MAX_CANDIDATES_PER_REGION = 8"
definition MAX_REGIONS_PER_STATE :: nat where "MAX_REGIONS_PER_STATE = 16"
definition MAX_EVIDENCE_PER_PHASE :: nat where "MAX_EVIDENCE_PER_PHASE = 256"
definition MAX_ACCEPTED_PER_PHASE :: nat where "MAX_ACCEPTED_PER_PHASE = 4"
definition MAX_STRUCTURAL_EDGES :: nat where "MAX_STRUCTURAL_EDGES = 64"
definition RECEIPT_FNV_OFFSET :: u64 where "RECEIPT_FNV_OFFSET = 14695981039346656037"
definition RECEIPT_FNV_PRIME :: u64 where "RECEIPT_FNV_PRIME = 1099511628211"
definition MAX_WEIGHT_SCORE :: u32 where "MAX_WEIGHT_SCORE = 1000"

datatype StructuralPlasticityError =
    InvalidConfig | EvidenceBudgetExceeded | RegionBudgetExceeded | NodeOutOfRange
  | InvalidInputLength | NonFiniteValue | ConnectionNotFound | DuplicateConnection
  | StructuralBudgetExhausted

record StructuralPlasticityConfig =
  spc_max_candidates_per_region :: u16
  spc_max_regions :: u16
  spc_max_accepted_per_phase :: u16
  spc_max_structural_edges :: u16
  spc_min_candidate_score :: u32
  spc_prune_score_below :: u32

definition plasticity_config_default :: StructuralPlasticityConfig where
  "plasticity_config_default = \<lparr>
     spc_max_candidates_per_region = word_of_nat MAX_CANDIDATES_PER_REGION,
     spc_max_regions = word_of_nat MAX_REGIONS_PER_STATE,
     spc_max_accepted_per_phase = word_of_nat MAX_ACCEPTED_PER_PHASE,
     spc_max_structural_edges = word_of_nat MAX_STRUCTURAL_EDGES,
     spc_min_candidate_score = 2, spc_prune_score_below = 1 \<rparr>"

definition plasticity_config_validate ::
  "StructuralPlasticityConfig \<Rightarrow> StructuralPlasticityError + unit" where
  "plasticity_config_validate c =
     (if spc_max_candidates_per_region c = 0
        \<or> MAX_CANDIDATES_PER_REGION < unat (spc_max_candidates_per_region c)
        \<or> spc_max_regions c = 0 \<or> MAX_REGIONS_PER_STATE < unat (spc_max_regions c)
        \<or> spc_max_accepted_per_phase c = 0
        \<or> MAX_ACCEPTED_PER_PHASE < unat (spc_max_accepted_per_phase c)
        \<or> spc_max_structural_edges c = 0
        \<or> MAX_STRUCTURAL_EDGES < unat (spc_max_structural_edges c)
      then Inl InvalidConfig else Inr ())"

section \<open>Evidence, candidates and connections\<close>

record CoactivationEvidence =
  ce_region :: u16
  ce_source :: u32
  ce_target :: u32
  ce_coactivation :: u32
  ce_eligibility :: u32
  ce_concept_gap_support :: u32

record StructuralCandidate =
  sc_region :: u16
  sc_source :: u32
  sc_target :: u32
  sc_coactivation :: u32
  sc_eligibility :: u32
  sc_concept_gap_support :: u32
  sc_age :: u32
  sc_score :: u32

record SparseConnection =
  cn_source :: u32
  cn_target :: u32
  cn_weight :: f32
  cn_score :: u32
  cn_age :: u32

record StructuralPlasticityState =
  ps_neuron_count :: u32
  ps_config :: StructuralPlasticityConfig
  ps_candidates :: "(u16, StructuralCandidate list) btree_map"
  ps_connections :: "(u32, SparseConnection list) btree_map"
  ps_last_candidate_comparisons :: u32

definition candidate_score :: "StructuralCandidate \<Rightarrow> u32" where
  "candidate_score c =
     saturating_add (saturating_add (sc_coactivation c) (sc_eligibility c)) (sc_concept_gap_support c)"

text \<open>
  \<open>candidate_order\<close> compares the scores, the higher first, then regions, sources and targets: it is
  the order of these keys. The keys of the candidates that are sorted differ, so an unstable sort
  has the one result that the stable one has.
\<close>

definition candidate_key :: "StructuralCandidate \<Rightarrow> int \<times> u16 \<times> u32 \<times> u32" where
  "candidate_key c = (- uint (sc_score c), sc_region c, sc_source c, sc_target c)"

definition score_to_weight :: "u32 \<Rightarrow> f32" where
  "score_to_weight score =
     f32_div (f32_of_nat (unat (min score MAX_WEIGHT_SCORE))) (f32_of_nat (unat MAX_WEIGHT_SCORE))"

definition candidate_count :: "StructuralPlasticityState \<Rightarrow> nat" where
  "candidate_count s = sum_list (map (\<lambda>(_, cs). length cs) (ps_candidates s))"

definition connection_count :: "StructuralPlasticityState \<Rightarrow> nat" where
  "connection_count s = sum_list (map (\<lambda>(_, es). length es) (ps_connections s))"

section \<open>Validation\<close>

definition plasticity_new ::
  "u32 \<Rightarrow> StructuralPlasticityConfig \<Rightarrow> StructuralPlasticityError + StructuralPlasticityState" where
  "plasticity_new n config =
     (if n = 0 then Inl NodeOutOfRange
      else and_then (plasticity_config_validate config) (\<lambda>_. Inr \<lparr>
        ps_neuron_count = n, ps_config = config, ps_candidates = [], ps_connections = [],
        ps_last_candidate_comparisons = 0 \<rparr>))"

text \<open>The loop over the candidates of a region keeps the identities seen before.\<close>

fun check_region_candidates ::
  "StructuralPlasticityState \<Rightarrow> u16 \<Rightarrow> (u32 \<times> u32) set \<Rightarrow> StructuralCandidate list
   \<Rightarrow> StructuralPlasticityError + unit" where
  "check_region_candidates s region seen [] = Inr ()"
| "check_region_candidates s region seen (c # cs) =
     (if sc_region c \<noteq> region \<or> ps_neuron_count s \<le> sc_source c \<or> ps_neuron_count s \<le> sc_target c
        \<or> sc_source c = sc_target c \<or> (sc_coactivation c = 0 \<and> sc_eligibility c = 0)
        \<or> sc_score c \<noteq> candidate_score c \<or> sc_score c < spc_min_candidate_score (ps_config s)
        \<or> (sc_source c, sc_target c) \<in> seen
      then Inl NodeOutOfRange
      else check_region_candidates s region (insert (sc_source c, sc_target c) seen) cs)"

definition check_region ::
  "StructuralPlasticityState \<Rightarrow> u16 \<times> StructuralCandidate list \<Rightarrow> StructuralPlasticityError + unit" where
  "check_region s e = (case e of (region, cs) \<Rightarrow>
     if cs = [] \<or> unat (spc_max_candidates_per_region (ps_config s)) < length cs
     then Inl StructuralBudgetExhausted
     else and_then (check_region_candidates s region {} cs) (\<lambda>_.
       if windows2_any (\<lambda>a b. candidate_key b < candidate_key a) cs then Inl InvalidConfig else Inr ()))"

definition check_edge :: "StructuralPlasticityState \<Rightarrow> u32 \<Rightarrow> SparseConnection \<Rightarrow> StructuralPlasticityError + unit" where
  "check_edge s target e =
     (if cn_target e \<noteq> target \<or> ps_neuron_count s \<le> cn_source e \<or> cn_source e = cn_target e
        \<or> \<not> f32_is_finite (cn_weight e) \<or> cn_weight e \<noteq> score_to_weight (cn_score e)
      then Inl NodeOutOfRange else Inr ())"

definition check_target ::
  "StructuralPlasticityState \<Rightarrow> u32 \<times> SparseConnection list \<Rightarrow> StructuralPlasticityError + unit" where
  "check_target s t = (case t of (target, edges) \<Rightarrow>
     if ps_neuron_count s \<le> target \<or> edges = [] then Inl NodeOutOfRange
     else and_then (check_all (check_edge s target) edges) (\<lambda>_.
       if windows2_any (\<lambda>a b. cn_source b \<le> cn_source a) edges then Inl DuplicateConnection else Inr ()))"

definition plasticity_validate :: "StructuralPlasticityState \<Rightarrow> StructuralPlasticityError + unit" where
  "plasticity_validate s =
     (if ps_neuron_count s = 0 then Inl NodeOutOfRange
      else and_then (plasticity_config_validate (ps_config s)) (\<lambda>_.
        if unat (spc_max_regions (ps_config s)) < length (ps_candidates s)
          \<or> unat (spc_max_structural_edges (ps_config s)) < connection_count s
          \<or> word_of_nat (MAX_EVIDENCE_PER_PHASE * MAX_CANDIDATES_PER_REGION) < ps_last_candidate_comparisons s
        then Inl StructuralBudgetExhausted
        else and_then (check_all (check_region s) (ps_candidates s)) (\<lambda>_.
          check_all (check_target s) (ps_connections s))))"

text \<open>Reading a saved state: the wire fields are the fields of the state.\<close>

definition plasticity_deserialize ::
  "StructuralPlasticityState \<Rightarrow> StructuralPlasticityError + StructuralPlasticityState" where
  "plasticity_deserialize wire = and_then (plasticity_validate wire) (\<lambda>_. Inr wire)"

section \<open>The digest of a receipt\<close>

definition mix_digest :: "u64 \<Rightarrow> u64 \<Rightarrow> u64" where
  "mix_digest digest value =
     fold (\<lambda>byte d. (d XOR ucast byte) * RECEIPT_FNV_PRIME) (le_bytes 8 value) digest"

definition plasticity_digest :: "StructuralPlasticityState \<Rightarrow> u64" where
  "plasticity_digest s =
     fold (\<lambda>(target, edges) d.
         fold (\<lambda>e d. mix_digest (mix_digest (mix_digest d (ucast (cn_source e))) (ucast (cn_score e)))
              (ucast (cn_age e))) edges (mix_digest d (ucast target)))
       (ps_connections s)
       (fold (\<lambda>(region, cs) d.
           fold (\<lambda>c d. mix_digest (mix_digest (mix_digest (mix_digest d (ucast (sc_source c)))
                (ucast (sc_target c))) (ucast (sc_score c))) (ucast (sc_age c))) cs
             (mix_digest d (ucast region)))
         (ps_candidates s) (mix_digest RECEIPT_FNV_OFFSET (ucast (ps_neuron_count s))))"

section \<open>Discovery\<close>

record StructuralDiscoveryReceipt =
  dr_evidence_items :: u16
  dr_candidate_comparisons :: u32
  dr_candidates_kept :: u16
  dr_deterministic_digest :: u64

text \<open>The fields of an evidence item in the order of \<open>sort_unstable_by_key\<close>.\<close>

definition evidence_key :: "CoactivationEvidence \<Rightarrow> u16 \<times> u32 \<times> u32 \<times> u32 \<times> u32 \<times> u32" where
  "evidence_key e = (ce_region e, ce_source e, ce_target e, ce_coactivation e, ce_eligibility e,
     ce_concept_gap_support e)"

definition evidence_score :: "CoactivationEvidence \<Rightarrow> u32" where
  "evidence_score e =
     saturating_add (saturating_add (ce_coactivation e) (ce_eligibility e)) (ce_concept_gap_support e)"

text \<open>\<open>iter_mut().find(p)\<close>: the first match is changed in place.\<close>

fun update_first :: "('a \<Rightarrow> bool) \<Rightarrow> ('a \<Rightarrow> 'a) \<Rightarrow> 'a list \<Rightarrow> 'a list option" where
  "update_first p f [] = None"
| "update_first p f (x # xs) =
     (if p x then Some (f x # xs) else map_option ((#) x) (update_first p f xs))"

definition same_pair :: "CoactivationEvidence \<Rightarrow> StructuralCandidate \<Rightarrow> bool" where
  "same_pair item c \<longleftrightarrow> sc_source c = ce_source item \<and> sc_target c = ce_target item"

definition reinforce :: "CoactivationEvidence \<Rightarrow> StructuralCandidate \<Rightarrow> StructuralCandidate" where
  "reinforce item c =
     (let c' = c \<lparr> sc_coactivation := saturating_add (sc_coactivation c) (ce_coactivation item),
        sc_eligibility := saturating_add (sc_eligibility c) (ce_eligibility item),
        sc_concept_gap_support := saturating_add (sc_concept_gap_support c) (ce_concept_gap_support item),
        sc_age := saturating_add (sc_age c) 1 \<rparr>
      in c' \<lparr> sc_score := candidate_score c' \<rparr>)"

definition new_candidate :: "CoactivationEvidence \<Rightarrow> StructuralCandidate" where
  "new_candidate item = \<lparr>
     sc_region = ce_region item, sc_source = ce_source item, sc_target = ce_target item,
     sc_coactivation = ce_coactivation item, sc_eligibility = ce_eligibility item,
     sc_concept_gap_support = ce_concept_gap_support item, sc_age = 0, sc_score = evidence_score item \<rparr>"

definition usable_evidence :: "StructuralPlasticityConfig \<Rightarrow> CoactivationEvidence \<Rightarrow> bool" where
  "usable_evidence config item \<longleftrightarrow>
     \<not> (ce_source item = ce_target item \<or> (ce_coactivation item = 0 \<and> ce_eligibility item = 0))
     \<and> \<not> evidence_score item < spc_min_candidate_score config"

definition absorb_evidence ::
  "StructuralPlasticityConfig \<Rightarrow> CoactivationEvidence
   \<Rightarrow> (u16, StructuralCandidate list) btree_map \<times> u32 \<Rightarrow> (u16, StructuralCandidate list) btree_map \<times> u32" where
  "absorb_evidence config item st = (case st of (regions, comparisons) \<Rightarrow>
     if \<not> usable_evidence config item then (regions, comparisons)
     else
       let cs = (case bt_get regions (ce_region item) of None \<Rightarrow> [] | Some cs \<Rightarrow> cs);
           cs' = (case update_first (same_pair item) (reinforce item) cs of
                    Some cs' \<Rightarrow> cs' | None \<Rightarrow> cs @ [new_candidate item])
       in (bt_insert (ce_region item)
             (take (unat (spc_max_candidates_per_region config)) (sort_key candidate_key cs')) regions,
           saturating_add comparisons (word_of_nat (length cs))))"

definition discover_candidates ::
  "CoactivationEvidence list \<Rightarrow> StructuralPlasticityState
   \<Rightarrow> (StructuralPlasticityError, StructuralDiscoveryReceipt, StructuralPlasticityState) outcome" where
  "discover_candidates evidence s =
     (if MAX_EVIDENCE_PER_PHASE < length evidence then (Inl EvidenceBudgetExceeded, s)
      else
        let new_regions = card (set (filter (\<lambda>r. bt_get (ps_candidates s) r = None) (map ce_region evidence)))
        in if unat (spc_max_regions (ps_config s)) < length (ps_candidates s) + new_regions
           then (Inl RegionBudgetExceeded, s)
           else if list_ex (\<lambda>item. ps_neuron_count s \<le> ce_source item \<or> ps_neuron_count s \<le> ce_target item) evidence
           then (Inl NodeOutOfRange, s)
           else
             let (regions, comparisons) = fold (absorb_evidence (ps_config s)) (sort_key evidence_key evidence)
                   (ps_candidates s, 0);
                 s' = s \<lparr> ps_candidates := regions, ps_last_candidate_comparisons := comparisons \<rparr>
             in (Inr \<lparr> dr_evidence_items = word_of_nat (length evidence), dr_candidate_comparisons = comparisons,
                   dr_candidates_kept = word_of_nat (candidate_count s'),
                   dr_deterministic_digest = plasticity_digest s' \<rparr>, s'))"

section \<open>The structural phase\<close>

record StructuralWorkReceipt =
  wr_candidate_comparisons :: u32
  wr_candidates_kept :: u16
  wr_accepted_edges :: u16
  wr_pruned_edges :: u16
  wr_active_edges :: u16
  wr_deterministic_digest :: u64

definition has_connection :: "StructuralPlasticityState \<Rightarrow> u32 \<Rightarrow> u32 \<Rightarrow> bool" where
  "has_connection s source target =
     (case bt_get (ps_connections s) target of None \<Rightarrow> False
      | Some edges \<Rightarrow> list_ex (\<lambda>e. cn_source e = source) edges)"

definition insert_connection ::
  "SparseConnection \<Rightarrow> StructuralPlasticityState
   \<Rightarrow> (StructuralPlasticityError, unit, StructuralPlasticityState) outcome" where
  "insert_connection c s =
     (let edges = (case bt_get (ps_connections s) (cn_target c) of None \<Rightarrow> [] | Some es \<Rightarrow> es)
      in if list_ex (\<lambda>e. cn_source e = cn_source c) edges
         then (Inl DuplicateConnection,
               s \<lparr> ps_connections := bt_insert (cn_target c) edges (ps_connections s) \<rparr>)
         else (Inr (), s \<lparr> ps_connections :=
                 bt_insert (cn_target c) (sort_key cn_source (edges @ [c])) (ps_connections s) \<rparr>))"

definition remove_candidate :: "StructuralCandidate \<Rightarrow> StructuralPlasticityState \<Rightarrow> StructuralPlasticityState" where
  "remove_candidate c s =
     (case bt_get (ps_candidates s) (sc_region c) of None \<Rightarrow> s
      | Some cs \<Rightarrow>
          let cs' = filter (\<lambda>d. sc_source d \<noteq> sc_source c \<or> sc_target d \<noteq> sc_target c) cs
          in s \<lparr> ps_candidates := if cs' = [] then bt_remove (sc_region c) (ps_candidates s)
                 else bt_insert (sc_region c) cs' (ps_candidates s) \<rparr>)"

definition prune_weak_connections :: "StructuralPlasticityState \<Rightarrow> nat \<times> StructuralPlasticityState" where
  "prune_weak_connections s =
     (let threshold = spc_prune_score_below (ps_config s);
          kept = map (\<lambda>(target, edges). (target, filter (\<lambda>e. threshold \<le> cn_score e) edges)) (ps_connections s);
          pruned = sum_list (map (\<lambda>(_, edges).
            length edges - length (filter (\<lambda>e. threshold \<le> cn_score e) edges)) (ps_connections s))
      in (pruned, s \<lparr> ps_connections := filter (\<lambda>(_, edges). edges \<noteq> []) kept \<rparr>))"

definition edge_of :: "StructuralCandidate \<Rightarrow> SparseConnection" where
  "edge_of c = \<lparr> cn_source = sc_source c, cn_target = sc_target c,
     cn_weight = score_to_weight (sc_score c), cn_score = sc_score c, cn_age = sc_age c \<rparr>"

text \<open>The loop over the sorted candidates; it returns the number of accepted edges.\<close>

fun accept_candidates ::
  "StructuralCandidate list \<Rightarrow> nat \<Rightarrow> StructuralPlasticityState
   \<Rightarrow> (StructuralPlasticityError, nat, StructuralPlasticityState) outcome" where
  "accept_candidates [] accepted s = (Inr accepted, s)"
| "accept_candidates (c # cs) accepted s =
     (if unat (spc_max_accepted_per_phase (ps_config s)) \<le> accepted
        \<or> unat (spc_max_structural_edges (ps_config s)) \<le> connection_count s
      then (Inr accepted, s)
      else if has_connection s (sc_source c) (sc_target c)
      then accept_candidates cs accepted (remove_candidate c s)
      else if f32_le (score_to_weight (sc_score c)) f32_zero then accept_candidates cs accepted s
      else op_then (insert_connection (edge_of c) s) (\<lambda>_ s'.
        accept_candidates cs (Suc accepted) (remove_candidate c s')))"

definition apply_structural_phase ::
  "StructuralPlasticityState
   \<Rightarrow> (StructuralPlasticityError, StructuralWorkReceipt, StructuralPlasticityState) outcome" where
  "apply_structural_phase s =
     (let candidates = sort_key candidate_key (concat (map snd (ps_candidates s)))
      in op_then (accept_candidates candidates 0 s) (\<lambda>accepted s1.
           let (pruned, s2) = prune_weak_connections s1;
               s3 = s2 \<lparr> ps_last_candidate_comparisons := 0 \<rparr>
           in (Inr \<lparr> wr_candidate_comparisons = ps_last_candidate_comparisons s,
                 wr_candidates_kept = word_of_nat (candidate_count s3),
                 wr_accepted_edges = word_of_nat accepted, wr_pruned_edges = word_of_nat pruned,
                 wr_active_edges = word_of_nat (connection_count s3),
                 wr_deterministic_digest = plasticity_digest s3 \<rparr>, s3)))"

definition record_edge_support ::
  "u32 \<Rightarrow> u32 \<Rightarrow> u32 \<Rightarrow> StructuralPlasticityState
   \<Rightarrow> (StructuralPlasticityError, unit, StructuralPlasticityState) outcome" where
  "record_edge_support source target support s =
     (if ps_neuron_count s \<le> source \<or> ps_neuron_count s \<le> target then (Inl NodeOutOfRange, s)
      else case Option.bind (bt_get (ps_connections s) target)
          (update_first (\<lambda>e. cn_source e = source)
            (\<lambda>e. e \<lparr> cn_score := support, cn_weight := score_to_weight support \<rparr>)) of
        None \<Rightarrow> (Inl ConnectionNotFound, s)
      | Some edges \<Rightarrow> (Inr (), s \<lparr> ps_connections := bt_insert target edges (ps_connections s) \<rparr>))"

section \<open>Computing with the connections\<close>

text \<open>
  An index past the end of the input or the output would be a panic: \<open>None\<close>. The accumulator of a
  target starts at 0.0 and adds the weighted inputs in the order of the edges.
\<close>

fun accumulate :: "f32 list \<Rightarrow> f32 \<Rightarrow> SparseConnection list \<Rightarrow> f32 option" where
  "accumulate input acc [] = Some acc"
| "accumulate input acc (e # es) =
     (if unat (cn_source e) < length input
      then accumulate input (f32_add acc (f32_mul (input ! unat (cn_source e)) (cn_weight e))) es
      else None)"

fun compute_targets ::
  "f32 list \<Rightarrow> f32 list \<Rightarrow> (u32 \<times> SparseConnection list) list \<Rightarrow> (StructuralPlasticityError + f32 list) option" where
  "compute_targets input output [] = Some (Inr output)"
| "compute_targets input output ((target, edges) # ts) =
     Option.bind (accumulate input f32_zero edges) (\<lambda>acc.
       if \<not> f32_is_finite acc then Some (Inl NonFiniteValue)
       else if unat target < length output then compute_targets input (output[unat target := acc]) ts
       else None)"

definition plasticity_compute ::
  "StructuralPlasticityState \<Rightarrow> f32 list \<Rightarrow> (StructuralPlasticityError + f32 list) option" where
  "plasticity_compute s input =
     (if length input \<noteq> unat (ps_neuron_count s) then Some (Inl InvalidInputLength)
      else if list_ex (\<lambda>v. \<not> f32_is_finite v) input then Some (Inl NonFiniteValue)
      else compute_targets input (replicate (length input) f32_zero) (ps_connections s))"

definition plasticity_connections :: "StructuralPlasticityState \<Rightarrow> (u32 \<times> u32 \<times> f32) list" where
  "plasticity_connections s =
     map (\<lambda>e. (cn_source e, cn_target e, cn_weight e)) (concat (map snd (ps_connections s)))"

section \<open>The operations of a state\<close>

datatype PlasticityOp =
  DiscoverCandidates "CoactivationEvidence list" | ApplyStructuralPhase | RecordEdgeSupport u32 u32 u32

datatype PlasticityReceipt =
  Discovered StructuralDiscoveryReceipt | Restructured StructuralWorkReceipt | Supported

definition with_receipt :: "('a \<Rightarrow> 'b) \<Rightarrow> ('e, 'a, 's) outcome \<Rightarrow> ('e, 'b, 's) outcome" where
  "with_receipt f r = op_then r (\<lambda>a s. (Inr (f a), s))"

fun plasticity_step ::
  "PlasticityOp \<Rightarrow> StructuralPlasticityState
   \<Rightarrow> (StructuralPlasticityError, PlasticityReceipt, StructuralPlasticityState) outcome" where
  "plasticity_step (DiscoverCandidates evidence) s = with_receipt Discovered (discover_candidates evidence s)"
| "plasticity_step ApplyStructuralPhase s = with_receipt Restructured (apply_structural_phase s)"
| "plasticity_step (RecordEdgeSupport source target support) s =
     with_receipt (\<lambda>_. Supported) (record_edge_support source target support s)"

end
