(* ===== verification/Plasticity_Proofs.thy ===== *)
theory Plasticity_Proofs
  imports Plasticity
begin

text \<open>
  The invariant of structural plasticity in logical form, its preservation by every operation, the
  errors that operations can have, and where the connections of a state come from.
\<close>

section \<open>The invariant\<close>

definition config_ok :: "StructuralPlasticityConfig \<Rightarrow> bool" where
  "config_ok cfg \<longleftrightarrow> plasticity_config_validate cfg = Inr ()"

definition candidate_pair :: "StructuralCandidate \<Rightarrow> u32 \<times> u32" where
  "candidate_pair c = (sc_source c, sc_target c)"

definition candidate_ok :: "u32 \<Rightarrow> StructuralPlasticityConfig \<Rightarrow> u16 \<Rightarrow> StructuralCandidate \<Rightarrow> bool" where
  "candidate_ok n cfg region c \<longleftrightarrow> sc_region c = region \<and> sc_source c < n \<and> sc_target c < n
     \<and> sc_source c \<noteq> sc_target c \<and> (sc_coactivation c \<noteq> 0 \<or> sc_eligibility c \<noteq> 0)
     \<and> sc_score c = candidate_score c \<and> spc_min_candidate_score cfg \<le> sc_score c"

definition region_ok :: "u32 \<Rightarrow> StructuralPlasticityConfig \<Rightarrow> u16 \<Rightarrow> StructuralCandidate list \<Rightarrow> bool" where
  "region_ok n cfg region cs \<longleftrightarrow> cs \<noteq> [] \<and> length cs \<le> unat (spc_max_candidates_per_region cfg)
     \<and> (\<forall>c \<in> set cs. candidate_ok n cfg region c) \<and> distinct (map candidate_pair cs)
     \<and> sorted (map candidate_key cs)"

definition edge_ok :: "u32 \<Rightarrow> u32 \<Rightarrow> SparseConnection \<Rightarrow> bool" where
  "edge_ok n target e \<longleftrightarrow> cn_target e = target \<and> cn_source e < n \<and> cn_source e \<noteq> target
     \<and> cn_weight e = score_to_weight (cn_score e)"

definition target_ok :: "u32 \<Rightarrow> u32 \<Rightarrow> SparseConnection list \<Rightarrow> bool" where
  "target_ok n target es \<longleftrightarrow> target < n \<and> es \<noteq> [] \<and> (\<forall>e \<in> set es. edge_ok n target e)
     \<and> sorted_wrt (<) (map cn_source es)"

definition regions_ok :: "u32 \<Rightarrow> StructuralPlasticityConfig \<Rightarrow> (u16, StructuralCandidate list) btree_map \<Rightarrow> bool" where
  "regions_ok n cfg m \<longleftrightarrow> bt_ordered m \<and> (\<forall>(r, cs) \<in> set m. region_ok n cfg r cs)"

definition targets_ok :: "u32 \<Rightarrow> (u32, SparseConnection list) btree_map \<Rightarrow> bool" where
  "targets_ok n m \<longleftrightarrow> bt_ordered m \<and> (\<forall>(t, es) \<in> set m. target_ok n t es)"

definition plasticity_inv :: "StructuralPlasticityState \<Rightarrow> bool" where
  "plasticity_inv s \<longleftrightarrow> ps_neuron_count s \<noteq> 0 \<and> config_ok (ps_config s)
     \<and> length (ps_candidates s) \<le> unat (spc_max_regions (ps_config s))
     \<and> connection_count s \<le> unat (spc_max_structural_edges (ps_config s))
     \<and> unat (ps_last_candidate_comparisons s) \<le> MAX_EVIDENCE_PER_PHASE * MAX_CANDIDATES_PER_REGION
     \<and> regions_ok (ps_neuron_count s) (ps_config s) (ps_candidates s)
     \<and> targets_ok (ps_neuron_count s) (ps_connections s)"

lemma windows2_sorted:
  fixes key :: "'a \<Rightarrow> 'k::linorder"
  shows "\<not> windows2_any (\<lambda>a b. key b < key a) xs \<longleftrightarrow> sorted (map key xs)"
proof (induction "\<lambda>a b. key b < key a" xs rule: windows2_any.induct)
  case (1 x y zs)
  have "\<not> windows2_any (\<lambda>a b. key b < key a) (x # y # zs) \<longleftrightarrow> key x \<le> key y \<and> sorted (map key (y # zs))"
    using 1 by (simp add: not_less)
  then show ?case by (auto intro: order.trans)
qed simp_all

lemmas unsorted_windows2 = windows2_sorted [THEN arg_cong [of _ _ Not], unfolded not_not]
lemmas unsorted_windows2_strict = windows2_sorted_by [THEN arg_cong [of _ _ Not], unfolded not_not]

lemma score_to_weight_finite: "f32_is_finite (score_to_weight score)"
  and score_to_weight_zero: "f32_le (score_to_weight score) f32_zero \<longleftrightarrow> score = 0"
proof -
  have "unat (min score MAX_WEIGHT_SCORE) \<le> unat MAX_WEIGHT_SCORE" by (simp flip: word_le_nat_alt)
  note q = f32_count_quotient_unit [OF _ _ this]
  show "f32_is_finite (score_to_weight score)"
    unfolding score_to_weight_def by (rule q(1)) (simp_all add: MAX_WEIGHT_SCORE_def)
  have "f32_le (score_to_weight score) f32_zero \<longleftrightarrow> unat (min score MAX_WEIGHT_SCORE) = 0"
    unfolding score_to_weight_def by (rule q(3)) (simp_all add: MAX_WEIGHT_SCORE_def)
  also have "\<dots> \<longleftrightarrow> score = 0" by (auto simp: unat_eq_zero min_def MAX_WEIGHT_SCORE_def)
  finally show "f32_le (score_to_weight score) f32_zero \<longleftrightarrow> score = 0" .
qed

lemma check_region_candidates_iff:
  "check_region_candidates s region seen cs = Inr () \<longleftrightarrow>
     (\<forall>c \<in> set cs. candidate_ok (ps_neuron_count s) (ps_config s) region c)
     \<and> distinct (map candidate_pair cs) \<and> set (map candidate_pair cs) \<inter> seen = {}"
  by (induction cs arbitrary: seen) (auto simp: candidate_ok_def candidate_pair_def not_le not_less)

lemma check_region_iff:
  "check_region s (r, cs) = Inr () \<longleftrightarrow> region_ok (ps_neuron_count s) (ps_config s) r cs"
  by (auto simp: check_region_def region_ok_def check_region_candidates_iff not_less
      unsorted_windows2 [of candidate_key])

lemma check_target_iff: "check_target s (t, es) = Inr () \<longleftrightarrow> target_ok (ps_neuron_count s) t es"
proof -
  have "check_all (check_edge s t) es = Inr () \<longleftrightarrow> (\<forall>e \<in> set es. edge_ok (ps_neuron_count s) t e)"
    using score_to_weight_finite by (auto simp: check_edge_def edge_ok_def not_le)
  then show ?thesis
    by (auto simp: check_target_def target_ok_def not_le unsorted_windows2_strict [of cn_source])
qed

lemma plasticity_validate_iff:
  "plasticity_validate s = Inr () \<and> bt_ordered (ps_candidates s) \<and> bt_ordered (ps_connections s)
     \<longleftrightarrow> plasticity_inv s"
proof -
  have "check_all (check_region s) m = Inr () \<longleftrightarrow> (\<forall>(r, cs) \<in> set m. region_ok (ps_neuron_count s) (ps_config s) r cs)" for m
    using check_region_iff by auto
  moreover have "check_all (check_target s) m = Inr () \<longleftrightarrow> (\<forall>(t, es) \<in> set m. target_ok (ps_neuron_count s) t es)" for m
    using check_target_iff by auto
  moreover have "\<not> word_of_nat (MAX_EVIDENCE_PER_PHASE * MAX_CANDIDATES_PER_REGION) < ps_last_candidate_comparisons s
      \<longleftrightarrow> unat (ps_last_candidate_comparisons s) \<le> MAX_EVIDENCE_PER_PHASE * MAX_CANDIDATES_PER_REGION"
    by (simp add: MAX_EVIDENCE_PER_PHASE_def MAX_CANDIDATES_PER_REGION_def not_less word_le_nat_alt)
  ultimately show ?thesis
    by (auto simp: plasticity_validate_def plasticity_inv_def regions_ok_def targets_ok_def config_ok_def not_less
        simp del: check_all_Inr_iff)
qed

section \<open>Discovery\<close>

lemma update_first_Some:
  "update_first p f xs = Some ys \<Longrightarrow> \<exists>us x vs. xs = us @ x # vs \<and> p x \<and> ys = us @ f x # vs"
proof (induction xs arbitrary: ys)
  case (Cons a xs)
  show ?case
  proof (cases "p a")
    case True
    then have "a # xs = [] @ a # xs" "ys = [] @ f a # xs" using Cons.prems by simp_all
    with True show ?thesis by blast
  next
    case False
    then obtain zs where "update_first p f xs = Some zs" "ys = a # zs" using Cons.prems by auto
    with Cons.IH obtain us x vs where "a # xs = (a # us) @ x # vs" "p x" "ys = (a # us) @ f x # vs" by force
    then show ?thesis by blast
  qed
qed simp

lemma update_first_None: "update_first p f xs = None \<longleftrightarrow> (\<forall>x \<in> set xs. \<not> p x)"
  by (induction xs) auto

lemma saturating_add_ge: "a \<le> saturating_add a b" "saturating_add a b = 0 \<longleftrightarrow> a = 0 \<and> b = 0" for a :: u32
proof -
  have "unat a < 2 ^ 32" using unsigned_less [of a, where 'a = nat] by simp
  then show "a \<le> saturating_add a b" by (simp add: word_le_nat_alt unat_saturating_add)
  have "unat (saturating_add a b) = 0 \<longleftrightarrow> unat a = 0 \<and> unat b = 0" by (simp only: unat_saturating_add) auto
  then show "saturating_add a b = 0 \<longleftrightarrow> a = 0 \<and> b = 0" by (simp only: unat_eq_zero)
qed

lemma saturating_add_mono: "a \<le> a' \<Longrightarrow> b \<le> b' \<Longrightarrow> saturating_add a b \<le> saturating_add a' b'" for a :: "'a::len word"
  by (simp add: word_le_nat_alt unat_saturating_add)

lemma reinforce_ok:
  assumes "candidate_ok n cfg r c"
  shows "candidate_ok n cfg r (reinforce item c) \<and> candidate_pair (reinforce item c) = candidate_pair c"
proof -
  have "sc_score c \<le> sc_score (reinforce item c)"
    using assms by (simp add: candidate_ok_def candidate_score_def reinforce_def Let_def saturating_add_mono
        saturating_add_ge(1))
  then show ?thesis
    using assms by (auto simp: candidate_ok_def candidate_score_def reinforce_def Let_def candidate_pair_def
        saturating_add_ge(2))
qed

lemma new_candidate_ok:
  assumes "usable_evidence cfg item" and "ce_source item < n" and "ce_target item < n"
  shows "candidate_ok n cfg (ce_region item) (new_candidate item)"
  using assms by (auto simp: usable_evidence_def candidate_ok_def new_candidate_def candidate_score_def
      evidence_score_def not_less)

lemma region_ok_take:
  assumes "config_ok cfg" and "cs \<noteq> []" and "\<forall>c \<in> set cs. candidate_ok n cfg r c" and "distinct (map candidate_pair cs)"
  shows "region_ok n cfg r (take (unat (spc_max_candidates_per_region cfg)) (sort_key candidate_key cs))"
proof -
  let ?k = "unat (spc_max_candidates_per_region cfg)" and ?cs = "sort_key candidate_key cs"
  have "?k \<noteq> 0" using assms(1) by (auto simp: config_ok_def plasticity_config_validate_def unat_eq_zero split: if_splits)
  moreover have "?cs \<noteq> []" using assms(2) by (metis set_empty set_sort)
  ultimately have "take ?k ?cs \<noteq> []" by simp
  moreover have "\<forall>c \<in> set (take ?k ?cs). candidate_ok n cfg r c"
    using assms(3) by (auto dest: in_set_takeD)
  moreover have "mset (map candidate_pair ?cs) = mset (map candidate_pair cs)" by (simp only: mset_map mset_sort)
  then have "distinct (map candidate_pair ?cs)" using assms(4) mset_eq_imp_distinct_iff by metis
  then have "distinct (map candidate_pair (take ?k ?cs))" by (simp flip: take_map)
  moreover have "sorted (map candidate_key (take ?k ?cs))"
    by (simp flip: take_map add: sorted_wrt_take)
  ultimately show ?thesis by (simp add: region_ok_def)
qed

definition region_of :: "(u16, StructuralCandidate list) btree_map \<Rightarrow> u16 \<Rightarrow> StructuralCandidate list" where
  "region_of m r = (case bt_get m r of None \<Rightarrow> [] | Some cs \<Rightarrow> cs)"

lemma regions_ok_get: "regions_ok n cfg m \<Longrightarrow> bt_get m r = Some cs \<Longrightarrow> region_ok n cfg r cs"
  unfolding regions_ok_def by (auto dest: map_of_SomeD)

lemma regions_ok_insert:
  assumes "regions_ok n cfg m" and "region_ok n cfg r cs"
  shows "regions_ok n cfg (bt_insert r cs m)"
proof -
  have "bt_ordered m" using assms(1) by (simp add: regions_ok_def)
  then show ?thesis
    using assms bt_insert_ordered [of m r cs] bt.entries_update_set [of m r cs] by (auto simp: regions_ok_def)
qed

lemma regions_ok_remove:
  assumes "regions_ok n cfg m"
  shows "regions_ok n cfg (bt_remove r m)"
  using assms bt.ordered_delete [of m r] by (auto simp: regions_ok_def bt_remove_def)

lemma absorb_cases:
  assumes "regions_ok n cfg m" and "usable_evidence cfg item" and "ce_source item < n" and "ce_target item < n"
    and "config_ok cfg"
  obtains cs where "absorb_evidence cfg item (m, k) = (bt_insert (ce_region item) cs m,
      saturating_add k (word_of_nat (length (region_of m (ce_region item)))))"
    and "region_ok n cfg (ce_region item) cs"
    and "candidate_pair ` set cs \<subseteq> insert (ce_source item, ce_target item) (candidate_pair ` set (region_of m (ce_region item)))"
proof -
  let ?r = "ce_region item" and ?cs = "region_of m (ce_region item)"
  let ?cs' = "case update_first (same_pair item) (reinforce item) ?cs of Some cs' \<Rightarrow> cs' | None \<Rightarrow> ?cs @ [new_candidate item]"
  have old: "\<forall>c \<in> set ?cs. candidate_ok n cfg ?r c" "distinct (map candidate_pair ?cs)"
    using regions_ok_get [OF assms(1), of ?r]
    by (cases "bt_get m ?r"; simp add: region_of_def region_ok_def)+
  have new: "?cs' \<noteq> [] \<and> (\<forall>c \<in> set ?cs'. candidate_ok n cfg ?r c) \<and> distinct (map candidate_pair ?cs')
      \<and> candidate_pair ` set ?cs' \<subseteq> insert (ce_source item, ce_target item) (candidate_pair ` set ?cs)"
  proof (cases "update_first (same_pair item) (reinforce item) ?cs")
    case None
    then have "(ce_source item, ce_target item) \<notin> set (map candidate_pair ?cs)"
      by (auto simp: update_first_None same_pair_def candidate_pair_def)
    moreover have "candidate_pair (new_candidate item) = (ce_source item, ce_target item)"
      by (simp add: candidate_pair_def new_candidate_def)
    ultimately show ?thesis using None old new_candidate_ok [OF assms(2-4)] by auto
  next
    case (Some cs')
    then obtain us x vs where split: "?cs = us @ x # vs" "cs' = us @ reinforce item x # vs"
      using update_first_Some by metis
    have "candidate_ok n cfg ?r x" using old(1) split(1) by simp
    then show ?thesis using Some old reinforce_ok [of n cfg ?r x item] by (auto simp: split)
  qed
  let ?out = "take (unat (spc_max_candidates_per_region cfg)) (sort_key candidate_key ?cs')"
  show thesis
  proof (rule that [of ?out])
    show "absorb_evidence cfg item (m, k) = (bt_insert ?r ?out m, saturating_add k (word_of_nat (length ?cs)))"
      using assms(2) by (simp add: absorb_evidence_def Let_def region_of_def [symmetric])
    show "region_ok n cfg ?r ?out" using new assms(5) by (intro region_ok_take) auto
    have "set ?out \<subseteq> set ?cs'" using set_take_subset [of _ "sort_key candidate_key ?cs'"] by simp
    then show "candidate_pair ` set ?out \<subseteq> insert (ce_source item, ce_target item) (candidate_pair ` set ?cs)"
      using new by (meson image_mono order_trans)
  qed
qed

definition candidate_pairs :: "(u16, StructuralCandidate list) btree_map \<Rightarrow> (u32 \<times> u32) set" where
  "candidate_pairs m = (\<Union>e \<in> set m. candidate_pair ` set (snd e))"

definition evidence_pairs :: "StructuralPlasticityConfig \<Rightarrow> CoactivationEvidence list \<Rightarrow> (u32 \<times> u32) set" where
  "evidence_pairs cfg items = {(ce_source i, ce_target i) |i. i \<in> set items \<and> usable_evidence cfg i}"

lemma absorb_step:
  assumes ok: "regions_ok n cfg m" "config_ok cfg" and item: "ce_source item < n" "ce_target item < n"
  shows "regions_ok n cfg (fst (absorb_evidence cfg item (m, k)))
    \<and> fst ` set (fst (absorb_evidence cfg item (m, k))) \<subseteq> insert (ce_region item) (fst ` set m)
    \<and> unat (snd (absorb_evidence cfg item (m, k))) \<le> unat k + MAX_CANDIDATES_PER_REGION
    \<and> candidate_pairs (fst (absorb_evidence cfg item (m, k))) \<subseteq> candidate_pairs m \<union> evidence_pairs cfg [item]"
proof (cases "usable_evidence cfg item")
  case False
  then show ?thesis using ok by (auto simp: absorb_evidence_def evidence_pairs_def)
next
  case True
  let ?r = "ce_region item"
  obtain cs where cs: "absorb_evidence cfg item (m, k) = (bt_insert ?r cs m,
      saturating_add k (word_of_nat (length (region_of m ?r))))" "region_ok n cfg ?r cs"
      "candidate_pair ` set cs \<subseteq> insert (ce_source item, ce_target item) (candidate_pair ` set (region_of m ?r))"
    using absorb_cases [OF ok(1) True item ok(2)] by metis
  have len: "length (region_of m ?r) \<le> MAX_CANDIDATES_PER_REGION"
    using regions_ok_get [OF ok(1), of ?r] ok(2)
    by (cases "bt_get m ?r")
      (auto simp: region_of_def region_ok_def config_ok_def plasticity_config_validate_def split: if_splits)
  then have "unat (word_of_nat (length (region_of m ?r)) :: u32) = length (region_of m ?r)"
    by (simp add: unat_of_nat MAX_CANDIDATES_PER_REGION_def)
  then have count: "unat (saturating_add k (word_of_nat (length (region_of m ?r)))) \<le> unat k + MAX_CANDIDATES_PER_REGION"
    using len by (simp add: unat_saturating_add)
  have old: "candidate_pair ` set (region_of m ?r) \<subseteq> candidate_pairs m"
    by (cases "bt_get m ?r") (force simp: region_of_def candidate_pairs_def dest: map_of_SomeD)+
  have "bt_ordered m" using ok(1) by (simp add: regions_ok_def)
  then have "set (bt_insert ?r cs m) = insert (?r, cs) {e \<in> set m. fst e \<noteq> ?r}" by (rule bt.entries_update_set)
  then have "candidate_pairs (bt_insert ?r cs m) \<subseteq> candidate_pair ` set cs \<union> candidate_pairs m"
    by (auto simp: candidate_pairs_def)
  also have "\<dots> \<subseteq> insert (ce_source item, ce_target item) (candidate_pairs m)" using cs(3) old by blast
  also have "\<dots> \<subseteq> candidate_pairs m \<union> evidence_pairs cfg [item]" using True by (simp add: evidence_pairs_def)
  finally have "candidate_pairs (bt_insert ?r cs m) \<subseteq> candidate_pairs m \<union> evidence_pairs cfg [item]" .
  moreover have "fst ` set (bt_insert ?r cs m) = insert ?r (fst ` set m)" by (rule bt_insert_keys)
  ultimately show ?thesis using regions_ok_insert [OF ok(1) cs(2)] count by (simp add: cs(1))
qed

lemma absorb_all:
  assumes "regions_ok n cfg m" and "config_ok cfg" and "\<forall>i \<in> set items. ce_source i < n \<and> ce_target i < n"
  shows "regions_ok n cfg (fst (fold (absorb_evidence cfg) items (m, k)))
    \<and> fst ` set (fst (fold (absorb_evidence cfg) items (m, k))) \<subseteq> ce_region ` set items \<union> fst ` set m
    \<and> unat (snd (fold (absorb_evidence cfg) items (m, k))) \<le> unat k + MAX_CANDIDATES_PER_REGION * length items
    \<and> candidate_pairs (fst (fold (absorb_evidence cfg) items (m, k))) \<subseteq> candidate_pairs m \<union> evidence_pairs cfg items"
  using assms
proof (induction items arbitrary: m k)
  case Nil
  then show ?case by simp
next
  case (Cons i items)
  obtain m' k' where s: "absorb_evidence cfg i (m, k) = (m', k')" by force
  have step: "regions_ok n cfg m'" "fst ` set m' \<subseteq> insert (ce_region i) (fst ` set m)"
    "unat k' \<le> unat k + MAX_CANDIDATES_PER_REGION" "candidate_pairs m' \<subseteq> candidate_pairs m \<union> evidence_pairs cfg [i]"
    using absorb_step [OF Cons.prems(1,2), of i k] Cons.prems(3) s by simp_all
  have "evidence_pairs cfg (i # items) = evidence_pairs cfg [i] \<union> evidence_pairs cfg items"
    by (auto simp: evidence_pairs_def)
  moreover obtain m'' k'' where f: "fold (absorb_evidence cfg) items (m', k') = (m'', k'')" by force
  have "regions_ok n cfg m''" "fst ` set m'' \<subseteq> ce_region ` set items \<union> fst ` set m'"
    "unat k'' \<le> unat k' + MAX_CANDIDATES_PER_REGION * length items"
    "candidate_pairs m'' \<subseteq> candidate_pairs m' \<union> evidence_pairs cfg items"
    using Cons.IH [OF step(1) Cons.prems(2), of k'] Cons.prems(3) f by simp_all
  ultimately show ?case using step(2,3,4) by (simp add: s f) blast
qed

lemma config_limits:
  assumes "config_ok cfg"
  shows "unat (spc_max_regions cfg) \<le> MAX_REGIONS_PER_STATE"
    and "unat (spc_max_candidates_per_region cfg) \<le> MAX_CANDIDATES_PER_REGION"
    and "unat (spc_max_accepted_per_phase cfg) \<le> MAX_ACCEPTED_PER_PHASE"
    and "unat (spc_max_structural_edges cfg) \<le> MAX_STRUCTURAL_EDGES"
  using assms by (auto simp: config_ok_def plasticity_config_validate_def split: if_splits)

lemma length_keys: "bt_ordered m \<Longrightarrow> length m = card (fst ` set m)"
  by (rule bt.length_entries)

lemma discover_Inr:
  assumes "plasticity_inv s" and "fst (discover_candidates evidence s) = Inr r"
  shows "plasticity_inv (snd (discover_candidates evidence s))
    \<and> ps_connections (snd (discover_candidates evidence s)) = ps_connections s
    \<and> ps_config (snd (discover_candidates evidence s)) = ps_config s
    \<and> candidate_pairs (ps_candidates (snd (discover_candidates evidence s)))
        \<subseteq> candidate_pairs (ps_candidates s) \<union> evidence_pairs (ps_config s) evidence"
proof -
  let ?cfg = "ps_config s" and ?n = "ps_neuron_count s" and ?items = "sort_key evidence_key evidence"
  let ?new = "set (filter (\<lambda>r. bt_get (ps_candidates s) r = None) (map ce_region evidence))"
  have inv: "regions_ok ?n ?cfg (ps_candidates s)" "config_ok ?cfg" "?n \<noteq> 0"
    using assms(1) by (simp_all add: plasticity_inv_def)
  have guards: "length evidence \<le> MAX_EVIDENCE_PER_PHASE"
    "length (ps_candidates s) + card ?new \<le> unat (spc_max_regions ?cfg)"
    "\<forall>i \<in> set evidence. ce_source i < ?n \<and> ce_target i < ?n"
    using assms(2) by (auto simp: discover_candidates_def Let_def list_ex_iff not_le split: if_splits prod.splits)
  obtain m k where f: "fold (absorb_evidence ?cfg) ?items (ps_candidates s, 0) = (m, k)" by force
  have out: "snd (discover_candidates evidence s) = s \<lparr> ps_candidates := m, ps_last_candidate_comparisons := k \<rparr>"
    using guards by (auto simp: discover_candidates_def Let_def list_ex_iff not_le f)
  have all: "regions_ok ?n ?cfg m" "fst ` set m \<subseteq> ce_region ` set evidence \<union> fst ` set (ps_candidates s)"
    "unat k \<le> MAX_CANDIDATES_PER_REGION * length evidence"
    "candidate_pairs m \<subseteq> candidate_pairs (ps_candidates s) \<union> evidence_pairs ?cfg evidence"
    using absorb_all [OF inv(1,2), of ?items 0] guards(3) f by (simp_all add: evidence_pairs_def)
  have "unat k \<le> MAX_EVIDENCE_PER_PHASE * MAX_CANDIDATES_PER_REGION"
    by (rule order.trans [OF all(3)]) (subst mult.commute, rule mult_le_mono1 [OF guards(1)])
  moreover have "length m \<le> unat (spc_max_regions ?cfg)"
  proof -
    have "fst ` set m \<subseteq> fst ` set (ps_candidates s) \<union> ?new"
      using all(2) by (auto simp: map_of_eq_None_iff)
    then have "card (fst ` set m) \<le> card (fst ` set (ps_candidates s) \<union> ?new)" by (intro card_mono) simp_all
    also have "\<dots> \<le> card (fst ` set (ps_candidates s)) + card ?new" by (rule card_Un_le)
    finally show ?thesis
      using guards(2) inv(1) all(1) by (simp add: length_keys regions_ok_def)
  qed
  ultimately show ?thesis using assms(1) all(1,4) unfolding out by (simp add: plasticity_inv_def connection_count_def)
qed

lemma discover_Inl: "fst (discover_candidates evidence s) = Inl e \<Longrightarrow> snd (discover_candidates evidence s) = s"
  by (auto simp: discover_candidates_def Let_def split: if_splits prod.splits)

section \<open>The structural phase\<close>

definition edge_pairs :: "(u32, SparseConnection list) btree_map \<Rightarrow> (u32 \<times> u32) set" where
  "edge_pairs m = (\<Union>x \<in> set m. (\<lambda>e. (cn_source e, fst x)) ` set (snd x))"

lemma sum_bt_insert:
  fixes f :: "'v \<Rightarrow> nat"
  assumes "bt_ordered m"
  shows "sum_list (map (\<lambda>(_, v). f v) (bt_insert k v m)) + (case bt_get m k of None \<Rightarrow> 0 | Some w \<Rightarrow> f w)
    = sum_list (map (\<lambda>(_, v). f v) m) + f v"
  using assms
proof (induction m)
  case Nil
  then show ?case by simp
next
  case (Cons e m)
  obtain k' v' where e: "e = (k', v')" by force
  have rest: "bt_ordered m" "\<forall>x \<in> fst ` set m. k' < x" using Cons.prems by (auto simp: bt_ordered_def e)
  have "bt_get m k = None" if "k \<le> k'" using rest(2) that by (force simp: map_of_eq_None_iff)
  then show ?case using Cons.IH [OF rest(1)] by (auto simp: e not_less)
qed

lemma edge_pairs_mem: "(a, b) \<in> edge_pairs m \<longleftrightarrow> (\<exists>es. (b, es) \<in> set m \<and> a \<in> cn_source ` set es)"
  unfolding edge_pairs_def by force

lemma edge_pairs_iff:
  "bt_ordered m \<Longrightarrow> (a, b) \<in> edge_pairs m \<longleftrightarrow> (\<exists>es. bt_get m b = Some es \<and> a \<in> cn_source ` set es)"
  by (simp only: edge_pairs_mem bt.in_entries_iff)

lemma has_connection_iff:
  assumes "targets_ok n (ps_connections s)"
  shows "has_connection s a b \<longleftrightarrow> (a, b) \<in> edge_pairs (ps_connections s)"
proof -
  have "bt_ordered (ps_connections s)" using assms by (simp add: targets_ok_def)
  then show ?thesis
    by (cases "bt_get (ps_connections s) b") (auto simp: edge_pairs_iff has_connection_def list_ex_iff)
qed

lemma edge_pairs_insert:
  assumes "bt_ordered m"
  shows "edge_pairs (bt_insert t es m)
    = (\<lambda>e. (cn_source e, t)) ` set es \<union> {p \<in> edge_pairs m. snd p \<noteq> t}"
  unfolding edge_pairs_def bt.entries_update_set [OF assms] by auto

lemma edge_pairs_at:
  assumes "bt_ordered m"
  shows "{p \<in> edge_pairs m. snd p = t} = (case bt_get m t of None \<Rightarrow> {} | Some es \<Rightarrow> (\<lambda>e. (cn_source e, t)) ` set es)"
  by (cases "bt_get m t") (auto simp: edge_pairs_iff [OF assms])

lemma targets_ok_get: "targets_ok n m \<Longrightarrow> bt_get m t = Some es \<Longrightarrow> target_ok n t es"
  unfolding targets_ok_def by (auto dest: map_of_SomeD)

lemma targets_ok_insert:
  assumes "targets_ok n m" and "target_ok n t es"
  shows "targets_ok n (bt_insert t es m)"
proof -
  have "bt_ordered m" using assms(1) by (simp add: targets_ok_def)
  then show ?thesis
    using assms bt_insert_ordered [of m t es] bt.entries_update_set [of m t es] by (auto simp: targets_ok_def)
qed

lemma insert_connection_ok:
  assumes "targets_ok n (ps_connections s)" and "\<not> has_connection s (cn_source c) (cn_target c)"
    and "edge_ok n (cn_target c) c" and "cn_target c < n"
  obtains m where "insert_connection c s = (Inr (), s \<lparr> ps_connections := m \<rparr>)" and "targets_ok n m"
    and "connection_count (s \<lparr> ps_connections := m \<rparr>) = Suc (connection_count s)"
    and "edge_pairs m = insert (cn_source c, cn_target c) (edge_pairs (ps_connections s))"
proof -
  let ?m = "ps_connections s" and ?t = "cn_target c"
  define es where "es = (case bt_get ?m ?t of None \<Rightarrow> [] | Some es \<Rightarrow> es)"
  let ?es = "sort_key cn_source (es @ [c])"
  have o: "bt_ordered ?m" using assms(1) by (simp add: targets_ok_def)
  have es: "(\<forall>e \<in> set es. edge_ok n ?t e) \<and> sorted_wrt (<) (map cn_source es) \<and> (\<forall>e \<in> set es. cn_source e \<noteq> cn_source c)"
    using assms(2) targets_ok_get [OF assms(1), of ?t]
    by (cases "bt_get ?m ?t") (auto simp: es_def target_ok_def has_connection_def list_ex_iff)
  have "mset (map cn_source ?es) = mset (map cn_source (es @ [c]))" by (simp only: mset_map mset_sort)
  moreover have "distinct (map cn_source (es @ [c]))" using es by (auto simp: strict_sorted_iff)
  ultimately have "distinct (map cn_source ?es)" using mset_eq_imp_distinct_iff by metis
  then have "sorted_wrt (<) (map cn_source ?es)" by (simp add: strict_sorted_iff)
  moreover have "?es \<noteq> []" by (metis append_is_Nil_conv not_Cons_self2 set_empty set_sort)
  ultimately have new: "target_ok n ?t ?es" using es assms(3,4) by (auto simp: target_ok_def)
  show thesis
  proof (rule that [of "bt_insert ?t ?es ?m"])
    show "insert_connection c s = (Inr (), s \<lparr> ps_connections := bt_insert ?t ?es ?m \<rparr>)"
      using es by (auto simp: insert_connection_def Let_def es_def [symmetric] list_ex_iff)
    show "targets_ok n (bt_insert ?t ?es ?m)" using assms(1) new by (rule targets_ok_insert)
    have "length es = (case bt_get ?m ?t of None \<Rightarrow> 0 | Some w \<Rightarrow> length w)" by (simp add: es_def split: option.split)
    then show "connection_count (s \<lparr> ps_connections := bt_insert ?t ?es ?m \<rparr>) = Suc (connection_count s)"
      using sum_bt_insert [OF o, of length ?t ?es] by (simp add: connection_count_def)
    have "edge_pairs ?m = {p \<in> edge_pairs ?m. snd p = ?t} \<union> {p \<in> edge_pairs ?m. snd p \<noteq> ?t}" by blast
    also have "{p \<in> edge_pairs ?m. snd p = ?t} = (\<lambda>e. (cn_source e, ?t)) ` set es"
      unfolding edge_pairs_at [OF o] es_def by (simp split: option.split)
    finally show "edge_pairs (bt_insert ?t ?es ?m) = insert (cn_source c, ?t) (edge_pairs ?m)"
      unfolding edge_pairs_insert [OF o] by (simp add: insert_commute)
  qed
qed

lemma remove_candidate_ok:
  assumes "plasticity_inv s"
  shows "plasticity_inv (remove_candidate c s) \<and> ps_connections (remove_candidate c s) = ps_connections s
    \<and> ps_neuron_count (remove_candidate c s) = ps_neuron_count s \<and> ps_config (remove_candidate c s) = ps_config s
    \<and> candidate_pairs (ps_candidates (remove_candidate c s)) \<subseteq> candidate_pairs (ps_candidates s)"
proof (cases "bt_get (ps_candidates s) (sc_region c)")
  case None
  then show ?thesis using assms by (simp add: remove_candidate_def)
next
  case (Some cs)
  let ?r = "sc_region c" and ?m = "ps_candidates s" and ?n = "ps_neuron_count s" and ?cfg = "ps_config s"
  define cs' where "cs' = filter (\<lambda>d. sc_source d \<noteq> sc_source c \<or> sc_target d \<noteq> sc_target c) cs"
  define m' where "m' = (if cs' = [] then bt_remove ?r ?m else bt_insert ?r cs' ?m)"
  have out: "remove_candidate c s = s \<lparr> ps_candidates := m' \<rparr>"
    using Some by (simp add: remove_candidate_def Let_def cs'_def m'_def)
  have ok: "regions_ok ?n ?cfg ?m" using assms by (simp add: plasticity_inv_def)
  then have o: "bt_ordered ?m" by (simp add: regions_ok_def)
  have mem: "(?r, cs) \<in> set ?m" using Some by (rule map_of_SomeD)
  have cs: "region_ok ?n ?cfg ?r cs" using regions_ok_get [OF ok Some] .
  have "region_ok ?n ?cfg ?r cs'" if "cs' \<noteq> []"
    using cs that unfolding region_ok_def cs'_def
    by (auto simp: distinct_map_filter sorted_filter intro: order.trans [OF length_filter_le])
  then have "regions_ok ?n ?cfg m'"
    using regions_ok_insert [OF ok] regions_ok_remove [OF ok] by (simp add: m'_def)
  moreover have "length m' \<le> length ?m"
    using bt.length_update [OF o, of ?r cs'] bt.length_delete [OF o, of ?r] Some by (simp add: m'_def)
  moreover have "candidate_pairs m' \<subseteq> candidate_pairs ?m"
  proof -
    have "set cs' \<subseteq> set cs" by (auto simp: cs'_def)
    then have "candidate_pair ` set cs' \<subseteq> candidate_pair ` set cs" by (rule image_mono)
    also have "\<dots> \<subseteq> candidate_pairs ?m"
      using UN_upper [OF mem, of "\<lambda>e. candidate_pair ` set (snd e)"] by (simp add: candidate_pairs_def)
    finally have "candidate_pair ` set cs' \<subseteq> candidate_pairs ?m" .
    moreover have "set m' \<subseteq> insert (?r, cs') (set ?m)"
      using bt.entries_update_set [OF o, of ?r cs'] by (auto simp: m'_def bt_remove_def)
    ultimately show ?thesis unfolding candidate_pairs_def by fastforce
  qed
  ultimately show ?thesis
    using assms unfolding out by (simp add: plasticity_inv_def connection_count_def)
qed

definition insertable :: "StructuralPlasticityState \<Rightarrow> StructuralCandidate \<Rightarrow> bool" where
  "insertable s c \<longleftrightarrow> (\<exists>r. candidate_ok (ps_neuron_count s) (ps_config s) r c)"

lemma candidate_score_pos: "candidate_ok n cfg r c \<Longrightarrow> sc_score c \<noteq> 0"
  by (auto simp: candidate_ok_def candidate_score_def saturating_add_ge(2))

text \<open>What the loop over the candidates does, whatever the list.\<close>

definition accepts :: "StructuralPlasticityState \<Rightarrow> nat \<Rightarrow> StructuralCandidate list \<Rightarrow> nat \<Rightarrow> StructuralPlasticityState \<Rightarrow> bool" where
  "accepts s a cs k s' \<longleftrightarrow> plasticity_inv s' \<and> ps_neuron_count s' = ps_neuron_count s \<and> ps_config s' = ps_config s
     \<and> a \<le> k \<and> k \<le> max a (unat (spc_max_accepted_per_phase (ps_config s)))
     \<and> connection_count s' + a = connection_count s + k
     \<and> edge_pairs (ps_connections s) \<subseteq> edge_pairs (ps_connections s')
     \<and> edge_pairs (ps_connections s') \<subseteq> edge_pairs (ps_connections s) \<union> candidate_pair ` set cs
     \<and> candidate_pairs (ps_candidates s') \<subseteq> candidate_pairs (ps_candidates s)"

lemma accepts_refl: "plasticity_inv s \<Longrightarrow> accepts s a cs a s"
  by (auto simp: accepts_def)

lemma accepts_trans:
  "accepts s a [c] b s' \<Longrightarrow> accepts s' b cs k s'' \<Longrightarrow> accepts s a (c # cs) k s''"
  unfolding accepts_def by (auto 0 4 simp: max_def split: if_splits)

lemma accept_all:
  "plasticity_inv s \<Longrightarrow> \<forall>c \<in> set cs. insertable s c \<Longrightarrow>
     \<exists>k s'. accept_candidates cs a s = (Inr k, s') \<and> accepts s a cs k s'"
proof (induction cs arbitrary: a s)
  case Nil
  then show ?case by (simp add: accepts_refl)
next
  case (Cons c cs)
  let ?n = "ps_neuron_count s"
  obtain r where c: "candidate_ok ?n (ps_config s) r c" using Cons.prems(2) by (auto simp: insertable_def)
  have next_step: "\<exists>k s''. accept_candidates cs b s' = (Inr k, s'') \<and> accepts s a (c # cs) k s''"
    if "accepts s a [c] b s'" for b s'
  proof -
    have "plasticity_inv s'" "\<forall>c \<in> set cs. insertable s' c"
      using that Cons.prems(2) by (auto simp: accepts_def insertable_def)
    then show ?thesis using Cons.IH [of s' b] accepts_trans [OF that] by blast
  qed
  show ?case
  proof (cases "unat (spc_max_accepted_per_phase (ps_config s)) \<le> a
      \<or> unat (spc_max_structural_edges (ps_config s)) \<le> connection_count s")
    case True
    then show ?thesis using Cons.prems(1) by (simp add: accepts_refl)
  next
    case room: False
    show ?thesis
    proof (cases "has_connection s (sc_source c) (sc_target c)")
      case True
      have "accepts s a [c] a (remove_candidate c s)"
        using remove_candidate_ok [OF Cons.prems(1), of c] by (auto simp: accepts_def connection_count_def)
      then show ?thesis using next_step room True by simp
    next
      case False
      have "\<not> f32_le (score_to_weight (sc_score c)) f32_zero"
        using candidate_score_pos [OF c] by (simp add: score_to_weight_zero)
      moreover obtain m where m: "insert_connection (edge_of c) s = (Inr (), s \<lparr> ps_connections := m \<rparr>)"
        "targets_ok ?n m" "connection_count (s \<lparr> ps_connections := m \<rparr>) = Suc (connection_count s)"
        "edge_pairs m = insert (sc_source c, sc_target c) (edge_pairs (ps_connections s))"
        using insert_connection_ok [of ?n s "edge_of c"] Cons.prems(1) False c
        by (auto simp: plasticity_inv_def edge_of_def edge_ok_def candidate_ok_def)
      define s1 where "s1 = s \<lparr> ps_connections := m \<rparr>"
      have "plasticity_inv s1"
        using Cons.prems(1) m(2,3) room by (simp add: plasticity_inv_def s1_def)
      then have "accepts s a [c] (Suc a) (remove_candidate c s1)"
        using remove_candidate_ok [of s1 c] m(3,4) room
        by (auto simp: accepts_def s1_def candidate_pair_def connection_count_def)
      ultimately show ?thesis using next_step room False m(1) by (simp add: s1_def)
    qed
  qed
qed

lemma sorted_map_filter: "sorted_wrt r (map f xs) \<Longrightarrow> sorted_wrt r (map f (filter p xs))"
  by (induction xs) auto

lemma pruned_ok:
  assumes "plasticity_inv s" and "prune_weak_connections s = (k, s')"
  shows "plasticity_inv s' \<and> ps_neuron_count s' = ps_neuron_count s \<and> ps_config s' = ps_config s
    \<and> ps_candidates s' = ps_candidates s \<and> connection_count s' + k = connection_count s
    \<and> edge_pairs (ps_connections s') \<subseteq> edge_pairs (ps_connections s)
    \<and> (\<forall>(t, es) \<in> set (ps_connections s'). \<forall>e \<in> set es. spc_prune_score_below (ps_config s) \<le> cn_score e)"
proof -
  let ?p = "\<lambda>e. spc_prune_score_below (ps_config s) \<le> cn_score e" and ?m = "ps_connections s" and ?n = "ps_neuron_count s"
  define m' where "m' = filter (\<lambda>(_, edges). edges \<noteq> []) (map (\<lambda>(t, es). (t, filter ?p es)) ?m)"
  have out: "s' = s \<lparr> ps_connections := m' \<rparr>" "k = sum_list (map (\<lambda>(_, es). length es - length (filter ?p es)) ?m)"
    using assms(2) by (auto simp: prune_weak_connections_def Let_def m'_def)
  have ok: "targets_ok ?n ?m" using assms(1) by (simp add: plasticity_inv_def)
  have mem: "(t, es') \<in> set m' \<longleftrightarrow> (\<exists>es. (t, es) \<in> set ?m \<and> es' = filter ?p es \<and> es' \<noteq> [])" for t es'
    by (auto simp: m'_def)
  have count: "sum_list (map (\<lambda>(_, es). length es) (filter (\<lambda>(_, edges). edges \<noteq> []) (map (\<lambda>(t, es). (t, filter ?p es)) m)))
      + sum_list (map (\<lambda>(_, es). length es - length (filter ?p es)) m)
      = sum_list (map (\<lambda>(_, es). length es) m)" for m :: "(u32 \<times> SparseConnection list) list"
  proof (induction m)
    case (Cons x m)
    obtain t es where x: "x = (t, es)" by force
    show ?case using Cons
      by (cases "filter ?p es = []") (simp add: x, simp add: x, use length_filter_le [of ?p es] in linarith)
  qed simp
  have "sorted_wrt (<) (map fst m')"
  proof -
    have "map fst (map (\<lambda>(t, es). (t, filter ?p es)) ?m) = map fst ?m" by (simp add: case_prod_beta')
    then have "sorted_wrt (<) (map fst (map (\<lambda>(t, es). (t, filter ?p es)) ?m))"
      using ok by (simp only: targets_ok_def bt_ordered_def)
    then show ?thesis unfolding m'_def by (rule sorted_map_filter)
  qed
  moreover have "target_ok ?n t es'" if here: "(t, es') \<in> set m'" for t es'
  proof -
    obtain es where es: "(t, es) \<in> set ?m" "es' = filter ?p es" "es' \<noteq> []" using mem [THEN iffD1, OF here] by blast
    then have "target_ok ?n t es" using ok by (auto simp: targets_ok_def)
    then show ?thesis using es(2,3) by (auto simp: target_ok_def sorted_map_filter)
  qed
  ultimately have "targets_ok ?n m'" by (auto simp: targets_ok_def bt_ordered_def)
  moreover have "connection_count s' + k = connection_count s"
    using count [of ?m] by (simp add: connection_count_def out m'_def)
  moreover have "edge_pairs m' \<subseteq> edge_pairs ?m"
  proof clarify
    fix a b
    assume "(a, b) \<in> edge_pairs m'"
    then obtain es' where es': "(b, es') \<in> set m'" "a \<in> cn_source ` set es'" unfolding edge_pairs_mem by blast
    then obtain es where "(b, es) \<in> set ?m" "es' = filter ?p es" using mem [THEN iffD1, OF es'(1)] by blast
    then have "(b, es) \<in> set ?m" "a \<in> cn_source ` set es" using es'(2) by auto
    then show "(a, b) \<in> edge_pairs ?m" unfolding edge_pairs_mem by auto
  qed
  moreover have "\<forall>(t, es) \<in> set m'. \<forall>e \<in> set es. ?p e" by (auto simp: m'_def)
  ultimately show ?thesis using assms(1) by (simp add: plasticity_inv_def out(1) connection_count_def)
qed

lemma phase_outcome:
  assumes "plasticity_inv s"
  obtains k p s' r where "apply_structural_phase s = (Inr r, s')" and "plasticity_inv s'"
    and "ps_config s' = ps_config s" and "ps_neuron_count s' = ps_neuron_count s"
    and "wr_accepted_edges r = word_of_nat k" and "wr_pruned_edges r = word_of_nat p"
    and "wr_active_edges r = word_of_nat (connection_count s')"
    and "k \<le> unat (spc_max_accepted_per_phase (ps_config s))" and "p \<le> connection_count s + k"
    and "connection_count s' + p = connection_count s + k"
    and "edge_pairs (ps_connections s') \<subseteq> edge_pairs (ps_connections s) \<union> candidate_pairs (ps_candidates s)"
    and "candidate_pairs (ps_candidates s') \<subseteq> candidate_pairs (ps_candidates s)"
    and "\<forall>(t, es) \<in> set (ps_connections s'). \<forall>e \<in> set es. spc_prune_score_below (ps_config s) \<le> cn_score e"
proof -
  let ?cs = "sort_key candidate_key (concat (map snd (ps_candidates s)))"
  have "\<forall>c \<in> set ?cs. insertable s c"
    using assms by (fastforce simp: plasticity_inv_def regions_ok_def region_ok_def insertable_def)
  then obtain k s1 where acc: "accept_candidates ?cs 0 s = (Inr k, s1)" "accepts s 0 ?cs k s1"
    using accept_all [OF assms] by blast
  obtain p s2 where pr: "prune_weak_connections s1 = (p, s2)" by force
  have inv1: "plasticity_inv s1" and same: "ps_config s1 = ps_config s" "ps_neuron_count s1 = ps_neuron_count s"
    using acc(2) by (simp_all add: accepts_def)
  note pruned = pruned_ok [OF inv1 pr]
  define s3 where "s3 = s2 \<lparr> ps_last_candidate_comparisons := 0 \<rparr>"
  have pairs: "candidate_pair ` set ?cs = candidate_pairs (ps_candidates s)"
    by (auto simp: candidate_pairs_def)
  show thesis
  proof (rule that [of "\<lparr> wr_candidate_comparisons = ps_last_candidate_comparisons s,
                 wr_candidates_kept = word_of_nat (candidate_count s3),
                 wr_accepted_edges = word_of_nat k, wr_pruned_edges = word_of_nat p,
                 wr_active_edges = word_of_nat (connection_count s3),
                 wr_deterministic_digest = plasticity_digest s3 \<rparr>" s3 k p])
    show "plasticity_inv s3"
      using pruned [THEN conjunct1] by (simp add: s3_def plasticity_inv_def connection_count_def)
    show "edge_pairs (ps_connections s3) \<subseteq> edge_pairs (ps_connections s) \<union> candidate_pairs (ps_candidates s)"
      using pruned acc(2) unfolding accepts_def pairs s3_def by auto
    show "candidate_pairs (ps_candidates s3) \<subseteq> candidate_pairs (ps_candidates s)"
      using pruned acc(2) unfolding accepts_def s3_def by auto
  qed (use acc pruned same in \<open>auto simp: apply_structural_phase_def Let_def pr s3_def accepts_def connection_count_def\<close>)
qed

section \<open>Support and runs\<close>

lemma support_Inr:
  assumes "plasticity_inv s" and "fst (record_edge_support a b k s) = Inr u"
  shows "plasticity_inv (snd (record_edge_support a b k s))
    \<and> ps_config (snd (record_edge_support a b k s)) = ps_config s
    \<and> ps_candidates (snd (record_edge_support a b k s)) = ps_candidates s
    \<and> edge_pairs (ps_connections (snd (record_edge_support a b k s))) = edge_pairs (ps_connections s)"
proof -
  let ?m = "ps_connections s" and ?n = "ps_neuron_count s"
  let ?f = "\<lambda>e. e \<lparr> cn_score := k, cn_weight := score_to_weight k \<rparr>"
  have ok: "targets_ok ?n ?m" using assms(1) by (simp add: plasticity_inv_def)
  then have o: "bt_ordered ?m" by (simp add: targets_ok_def)
  obtain es es' where es: "bt_get ?m b = Some es" "update_first (\<lambda>e. cn_source e = a) ?f es = Some es'"
    and out: "snd (record_edge_support a b k s) = s \<lparr> ps_connections := bt_insert b es' ?m \<rparr>"
    using assms(2) by (auto simp: record_edge_support_def bind_eq_Some_conv split: if_splits option.splits)
  obtain us x vs where split: "es = us @ x # vs" "es' = us @ ?f x # vs" using update_first_Some [OF es(2)] by blast
  have old: "target_ok ?n b es" using ok es(1) by (rule targets_ok_get)
  have "edge_ok ?n b (?f x)" using old by (simp add: target_ok_def split edge_ok_def)
  then have "target_ok ?n b es'" using old by (simp add: target_ok_def split)
  then have "targets_ok ?n (bt_insert b es' ?m)" by (rule targets_ok_insert [OF ok])
  moreover have "sum_list (map (\<lambda>(_, es). length es) (bt_insert b es' ?m)) = connection_count s"
    using sum_bt_insert [OF o, of length b es'] es(1) by (simp add: connection_count_def split)
  moreover have "edge_pairs (bt_insert b es' ?m) = edge_pairs ?m"
  proof -
    have "(\<lambda>e. (cn_source e, b)) ` set es' = (\<lambda>e. (cn_source e, b)) ` set es" by (simp add: split)
    moreover have "{p \<in> edge_pairs ?m. snd p = b} = (\<lambda>e. (cn_source e, b)) ` set es"
      using edge_pairs_at [OF o, of b] es(1) by simp
    ultimately have "edge_pairs (bt_insert b es' ?m) = {p \<in> edge_pairs ?m. snd p = b} \<union> {p \<in> edge_pairs ?m. snd p \<noteq> b}"
      by (simp only: edge_pairs_insert [OF o])
    also have "\<dots> = edge_pairs ?m" by blast
    finally show ?thesis .
  qed
  ultimately show ?thesis using assms(1) unfolding out by (simp add: plasticity_inv_def connection_count_def)
qed

lemma support_Inl: "fst (record_edge_support a b k s) = Inl e \<Longrightarrow> snd (record_edge_support a b k s) = s"
  by (auto simp: record_edge_support_def split: if_splits option.splits)

lemma with_receipt_simps [simp]:
  "snd (with_receipt f r) = snd r" "fst (with_receipt f r) = Inl e \<longleftrightarrow> fst r = Inl e"
  "fst (with_receipt f r) = Inr b \<longleftrightarrow> (\<exists>a. fst r = Inr a \<and> b = f a)"
  by (cases r; cases "fst r"; auto simp: with_receipt_def)+

lemma step_failure: "plasticity_inv s \<Longrightarrow> fst (plasticity_step op s) = Inl e \<Longrightarrow> snd (plasticity_step op s) = s"
  by (cases op) (auto simp: discover_Inl support_Inl elim: phase_outcome)

lemma step_inv: "plasticity_inv s \<Longrightarrow> plasticity_inv (snd (plasticity_step op s))"
proof (cases "fst (plasticity_step op s)")
  case (Inl e)
  then show "plasticity_inv s \<Longrightarrow> ?thesis" using step_failure by simp
next
  case (Inr r)
  then show "plasticity_inv s \<Longrightarrow> ?thesis"
    by (cases op) (auto dest: discover_Inr support_Inr elim: phase_outcome)
qed

interpretation plasticity_machine: atomic_machine plasticity_step plasticity_inv
  by unfold_locales (simp_all add: step_inv step_failure)

lemma plasticity_new_inv:
  assumes "plasticity_new n cfg = Inr s"
  shows "plasticity_inv s \<and> ps_config s = cfg \<and> ps_candidates s = [] \<and> ps_connections s = []"
  using assms by (auto simp: plasticity_new_def plasticity_inv_def config_ok_def regions_ok_def targets_ok_def
      bt_ordered_def connection_count_def split: if_splits)

text \<open>
  C16. Every state that any calls can reach from a new one passes its own validation, so a saved state
  is always read back: the budgets of regions, candidates and edges hold, candidates and edges are
  sorted without duplicates, and every weight is the one its score gives.
\<close>

theorem plasticity_stays_valid:
  assumes "plasticity_new n cfg = Inr s"
  shows "plasticity_deserialize (run_ops plasticity_step ops s) = Inr (run_ops plasticity_step ops s)"
proof -
  have "plasticity_inv (run_ops plasticity_step ops s)"
    using plasticity_new_inv [OF assms] plasticity_machine.run_keeps by blast
  then show ?thesis unfolding plasticity_validate_iff [symmetric] by (simp add: plasticity_deserialize_def)
qed

text \<open>
  In a reachable state a structural phase always succeeds, discovery fails only for its three
  budgets and ranges, and whatever call fails leaves the state as it was.
\<close>

lemma plasticity_failures:
  assumes "plasticity_new n cfg = Inr s0"
  shows "let s = run_ops plasticity_step ops s0 in is_ok (fst (apply_structural_phase s))
    \<and> fst (discover_candidates evidence s) \<in> range Inr \<union> {Inl EvidenceBudgetExceeded, Inl RegionBudgetExceeded, Inl NodeOutOfRange}
    \<and> (is_ok (fst (plasticity_step op s)) \<or> snd (plasticity_step op s) = s)"
proof -
  define s where "s = run_ops plasticity_step ops s0"
  have inv: "plasticity_inv s"
    using plasticity_new_inv [OF assms] plasticity_machine.run_keeps unfolding s_def by blast
  then have "is_ok (fst (apply_structural_phase s))" by (auto elim: phase_outcome)
  moreover have "fst (discover_candidates evidence s) \<in> range Inr \<union> {Inl EvidenceBudgetExceeded, Inl RegionBudgetExceeded, Inl NodeOutOfRange}"
    by (auto simp: discover_candidates_def Let_def split: prod.splits)
  moreover have "is_ok (fst (plasticity_step op s)) \<or> snd (plasticity_step op s) = s"
    using step_failure [OF inv] by (cases "fst (plasticity_step op s)") auto
  ultimately show ?thesis unfolding Let_def s_def by blast
qed

section \<open>Where connections come from\<close>

text \<open>The usable pairs of the evidence in a list of calls.\<close>

fun op_pairs :: "StructuralPlasticityConfig \<Rightarrow> PlasticityOp \<Rightarrow> (u32 \<times> u32) set" where
  "op_pairs cfg (DiscoverCandidates evidence) = evidence_pairs cfg evidence"
| "op_pairs cfg _ = {}"

definition known_pairs :: "StructuralPlasticityState \<Rightarrow> (u32 \<times> u32) set" where
  "known_pairs s = edge_pairs (ps_connections s) \<union> candidate_pairs (ps_candidates s)"

lemma step_pairs:
  assumes "plasticity_inv s" and "fst (plasticity_step op s) = Inr r"
  shows "known_pairs (snd (plasticity_step op s)) \<subseteq> known_pairs s \<union> op_pairs (ps_config s) op
    \<and> ps_config (snd (plasticity_step op s)) = ps_config s"
proof (cases op)
  case (DiscoverCandidates evidence)
  then show ?thesis using discover_Inr [OF assms(1), of evidence] assms(2) by (auto simp: known_pairs_def)
next
  case ApplyStructuralPhase
  show ?thesis
    by (rule phase_outcome [OF assms(1)]) (auto simp: ApplyStructuralPhase known_pairs_def)
next
  case (RecordEdgeSupport a b k)
  then show ?thesis using support_Inr [OF assms(1), of a b k] assms(2) by (auto simp: known_pairs_def)
qed

lemma run_pairs:
  "plasticity_inv s \<Longrightarrow> known_pairs (run_ops plasticity_step ops s)
     \<subseteq> known_pairs s \<union> (\<Union>op \<in> set (accepted_ops plasticity_step ops s). op_pairs (ps_config s) op)"
proof (induction ops arbitrary: s)
  case Nil
  then show ?case by simp
next
  case (Cons op ops)
  let ?s = "snd (plasticity_step op s)"
  show ?case
  proof (cases "fst (plasticity_step op s)")
    case (Inl e)
    then show ?thesis using Cons.IH [OF Cons.prems] step_failure [OF Cons.prems Inl] by simp
  next
    case (Inr r)
    then show ?thesis
      using Cons.IH [OF step_inv [OF Cons.prems], of op] step_pairs [OF Cons.prems Inr] by auto
  qed
qed

text \<open>
  C17. No connection without evidence: each connection of a reachable state joins two different neurons
  for which some accepted call brought evidence with coactivation or eligibility, scored high enough.
\<close>

theorem connections_come_from_evidence:
  assumes "plasticity_new n cfg = Inr s"
    and "(a, b, w) \<in> set (plasticity_connections (run_ops plasticity_step ops s))"
  shows "\<exists>evidence item. DiscoverCandidates evidence \<in> set (accepted_ops plasticity_step ops s)
    \<and> item \<in> set evidence \<and> ce_source item = a \<and> ce_target item = b \<and> a \<noteq> b
    \<and> (ce_coactivation item \<noteq> 0 \<or> ce_eligibility item \<noteq> 0) \<and> spc_min_candidate_score cfg \<le> evidence_score item"
proof -
  let ?t = "run_ops plasticity_step ops s"
  have new: "plasticity_inv s" "ps_config s = cfg" "known_pairs s = {}"
    using plasticity_new_inv [OF assms(1)] by (simp_all add: known_pairs_def edge_pairs_def candidate_pairs_def)
  then have "plasticity_inv ?t" using plasticity_machine.run_keeps by blast
  then have "targets_ok (ps_neuron_count ?t) (ps_connections ?t)" by (simp add: plasticity_inv_def)
  then have "(a, b) \<in> edge_pairs (ps_connections ?t)"
    using assms(2) by (fastforce simp: plasticity_connections_def edge_pairs_mem targets_ok_def target_ok_def edge_ok_def)
  then have "(a, b) \<in> known_pairs ?t" by (simp add: known_pairs_def)
  then obtain op where op: "op \<in> set (accepted_ops plasticity_step ops s)" "(a, b) \<in> op_pairs cfg op"
    using run_pairs [OF new(1), of ops] new(2,3) by auto
  show ?thesis
  proof (cases op)
    case (DiscoverCandidates evidence)
    then obtain item where "item \<in> set evidence" "ce_source item = a" "ce_target item = b" "usable_evidence cfg item"
      using op(2) by (auto simp: evidence_pairs_def)
    then show ?thesis
      using op(1) unfolding DiscoverCandidates usable_evidence_def not_less by blast
  qed (use op(2) in simp_all)
qed

section \<open>Order of the evidence\<close>

lemma map_sort_key: "map f (sort_key f xs) = sort (map f xs)"
  by (rule properties_for_sort [symmetric]) simp_all

lemma sort_key_permuted:
  fixes f :: "'a \<Rightarrow> 'k::linorder"
  assumes "mset xs = mset ys" and "inj f"
  shows "sort_key f xs = sort_key f ys"
proof -
  have "sort (map f xs) = sort (map f ys)" using assms(1) by (intro properties_for_sort) simp_all
  then have "map f (sort_key f xs) = map f (sort_key f ys)" by (simp only: map_sort_key)
  then show ?thesis using assms(2) by (simp add: inj_map_eq_map)
qed

lemma evidence_key_inj: "inj evidence_key"
  by (rule injI) (simp add: evidence_key_def)

text \<open>
  C18. Discovery does not depend on the order in which the evidence of a phase is listed: permuted
  evidence gives the same result, receipt and state.
\<close>

theorem discovery_ignores_order:
  assumes "mset evidence = mset evidence'"
  shows "discover_candidates evidence s = discover_candidates evidence' s"
proof -
  have "set evidence = set evidence'" "length evidence = length evidence'"
    using assms by (metis mset_eq_setD, metis mset_eq_length)
  moreover have "sort_key evidence_key evidence = sort_key evidence_key evidence'"
    using assms evidence_key_inj by (rule sort_key_permuted)
  ultimately show ?thesis by (simp add: discover_candidates_def Let_def list_ex_iff)
qed

text \<open>
  Growth per phase is bounded and accounted for: a structural phase of a reachable state accepts at
  most the configured number of edges, its receipt counts what was accepted, pruned and remains, at
  most the configured number of edges remains, and none with a score below the pruning threshold.
\<close>

lemma structural_phase_is_bounded:
  assumes "plasticity_new n cfg = Inr s0"
  shows "let s = run_ops plasticity_step ops s0 in \<exists>r s'. apply_structural_phase s = (Inr r, s')
    \<and> wr_accepted_edges r \<le> spc_max_accepted_per_phase cfg
    \<and> connection_count s' + unat (wr_pruned_edges r) = connection_count s + unat (wr_accepted_edges r)
    \<and> unat (wr_active_edges r) = connection_count s'
    \<and> connection_count s' \<le> unat (spc_max_structural_edges cfg)
    \<and> (\<forall>(t, es) \<in> set (ps_connections s'). \<forall>e \<in> set es. spc_prune_score_below cfg \<le> cn_score e)"
proof -
  define s where "s = run_ops plasticity_step ops s0"
  have inv: "plasticity_inv s"
    using plasticity_new_inv [OF assms(1)] plasticity_machine.run_keeps unfolding s_def by blast
  have cfg: "ps_config s = cfg"
  proof -
    have "plasticity_inv s1 \<Longrightarrow> ps_config (run_ops plasticity_step ops s1) = ps_config s1" for s1
    proof (induction ops arbitrary: s1)
      case (Cons op ops)
      have "ps_config (snd (plasticity_step op s1)) = ps_config s1"
        using step_failure [OF Cons.prems, of op] step_pairs [OF Cons.prems, of op]
        by (cases "fst (plasticity_step op s1)") auto
      then show ?case using Cons.IH [OF step_inv [OF Cons.prems]] by simp
    qed simp
    then show ?thesis using plasticity_new_inv [OF assms(1)] unfolding s_def by metis
  qed
  obtain k p s' r where out: "apply_structural_phase s = (Inr r, s')" "plasticity_inv s'"
    "ps_config s' = ps_config s" "ps_neuron_count s' = ps_neuron_count s"
    "wr_accepted_edges r = word_of_nat k" "wr_pruned_edges r = word_of_nat p"
    "wr_active_edges r = word_of_nat (connection_count s')"
    "k \<le> unat (spc_max_accepted_per_phase (ps_config s))" "p \<le> connection_count s + k"
    "connection_count s' + p = connection_count s + k"
    "edge_pairs (ps_connections s') \<subseteq> edge_pairs (ps_connections s) \<union> candidate_pairs (ps_candidates s)"
    "candidate_pairs (ps_candidates s') \<subseteq> candidate_pairs (ps_candidates s)"
    "\<forall>(t, es) \<in> set (ps_connections s'). \<forall>e \<in> set es. spc_prune_score_below (ps_config s) \<le> cn_score e"
    by (rule phase_outcome [OF inv])
  have "config_ok cfg" using inv cfg by (simp add: plasticity_inv_def)
  note limits = config_limits [OF this]
  have small: "k \<le> 4" "connection_count s \<le> 64" "connection_count s' \<le> 64" "p \<le> 68"
    using out(2,3,8,9) inv cfg limits(3,4)
    by (auto simp: plasticity_inv_def MAX_ACCEPTED_PER_PHASE_def MAX_STRUCTURAL_EDGES_def)
  have "unat (wr_accepted_edges r) = k" "unat (wr_pruned_edges r) = p" "unat (wr_active_edges r) = connection_count s'"
    using small by (simp_all add: out(5,6,7) unat_of_nat)
  then have "wr_accepted_edges r \<le> spc_max_accepted_per_phase cfg"
    "connection_count s' + unat (wr_pruned_edges r) = connection_count s + unat (wr_accepted_edges r)"
    "unat (wr_active_edges r) = connection_count s'"
    using out(8,10) cfg by (simp_all add: word_le_nat_alt)
  moreover have "connection_count s' \<le> unat (spc_max_structural_edges cfg)"
    using out(2,3) cfg by (simp add: plasticity_inv_def)
  ultimately show ?thesis using out(1,13) unfolding Let_def s_def [symmetric] cfg by blast
qed

section \<open>Computing\<close>

lemma accumulate_total:
  "\<forall>e \<in> set es. unat (cn_source e) < length input \<Longrightarrow> \<exists>v. accumulate input acc es = Some v"
  by (induction es arbitrary: acc) auto

definition target_value :: "f32 list \<Rightarrow> (u32 \<times> SparseConnection list) list \<Rightarrow> f32 \<Rightarrow> u32 \<Rightarrow> f32 option" where
  "target_value input ts v t =
     (case bt_get ts t of None \<Rightarrow> Some v | Some es \<Rightarrow> accumulate input f32_zero es)"

lemma compute_targets_total:
  assumes "\<forall>(t, es) \<in> set ts. unat t < length out \<and> (\<forall>e \<in> set es. unat (cn_source e) < length input)"
    and "distinct (map fst ts)"
  shows "\<exists>r. compute_targets input out ts = Some r \<and> (\<forall>out'. r = Inr out' \<longrightarrow> length out' = length out
    \<and> (\<forall>t. unat t < length out \<longrightarrow> target_value input ts (out ! unat t) t = Some (out' ! unat t)))"
  using assms
proof (induction ts arbitrary: out)
  case Nil
  then show ?case by (simp add: target_value_def)
next
  case (Cons x ts)
  obtain u es where x: "x = (u, es)" by force
  obtain v where v: "accumulate input f32_zero es = Some v"
    using accumulate_total [of es input f32_zero] Cons.prems(1) x by auto
  show ?case
  proof (cases "f32_is_finite v")
    case False
    then show ?thesis using v x by simp
  next
    case True
    let ?out = "out[unat u := v]"
    have u: "unat u < length out" using Cons.prems(1) x by simp
    obtain r where r: "compute_targets input ?out ts = Some r"
      "\<forall>out'. r = Inr out' \<longrightarrow> length out' = length ?out
        \<and> (\<forall>t. unat t < length ?out \<longrightarrow> target_value input ts (?out ! unat t) t = Some (out' ! unat t))"
      using Cons.IH [of ?out] Cons.prems x by auto
    have fresh: "bt_get ts u = None" using Cons.prems(2) x by (simp add: map_of_eq_None_iff)
    have "target_value input ts (?out ! unat t) t = target_value input (x # ts) (out ! unat t) t" for t
    proof (cases "t = u")
      case False
      then have "unat u \<noteq> unat t" by (metis unsigned_word_eqI)
      then show ?thesis using False x by (simp add: target_value_def nth_list_update)
    qed (use u fresh v x in \<open>simp add: target_value_def\<close>)
    then show ?thesis using r u v x True by simp
  qed
qed

text \<open>
  Computing with the connections of a reachable state never panics: the length and the values of
  the input are checked, and each output neuron is then 0.0 or the accumulated sum of its edges.
\<close>

lemma compute_never_panics:
  assumes "plasticity_new n cfg = Inr s0"
  shows "let s = run_ops plasticity_step ops s0 in \<exists>r. plasticity_compute s input = Some r
    \<and> (length input \<noteq> unat (ps_neuron_count s) \<longrightarrow> r = Inl InvalidInputLength)
    \<and> (\<forall>out. r = Inr out \<longrightarrow> length out = length input
        \<and> (\<forall>t. unat t < length input \<longrightarrow> target_value input (ps_connections s) f32_zero t = Some (out ! unat t)))"
proof -
  define s where "s = run_ops plasticity_step ops s0"
  have inv: "plasticity_inv s"
    using plasticity_new_inv [OF assms] plasticity_machine.run_keeps unfolding s_def by blast
  then have ok: "targets_ok (ps_neuron_count s) (ps_connections s)" by (simp add: plasticity_inv_def)
  show ?thesis
  proof (cases "length input = unat (ps_neuron_count s) \<and> \<not> list_ex (\<lambda>v. \<not> f32_is_finite v) input")
    case True
    have bounds: "\<forall>(t, es) \<in> set (ps_connections s). unat t < length (replicate (length input) f32_zero)
        \<and> (\<forall>e \<in> set es. unat (cn_source e) < length input)"
      using ok True by (auto simp: targets_ok_def target_ok_def edge_ok_def word_less_nat_alt)
    have "distinct (map fst (ps_connections s))" using ok by (auto simp: targets_ok_def bt.distinct_keys)
    from compute_targets_total [OF bounds this] obtain r where r: "compute_targets input (replicate (length input) f32_zero) (ps_connections s) = Some r"
      and cells: "\<forall>out'. r = Inr out' \<longrightarrow> length out' = length (replicate (length input) f32_zero)
        \<and> (\<forall>t. unat t < length (replicate (length input) f32_zero) \<longrightarrow>
             target_value input (ps_connections s) (replicate (length input) f32_zero ! unat t) t = Some (out' ! unat t))"
      by blast
    have "plasticity_compute s input = Some r" using True r by (simp add: plasticity_compute_def)
    moreover have "\<forall>out'. r = Inr out' \<longrightarrow> length out' = length input
        \<and> (\<forall>t. unat t < length input \<longrightarrow> target_value input (ps_connections s) f32_zero t = Some (out' ! unat t))"
      using cells by simp
    ultimately show ?thesis using True unfolding Let_def s_def [symmetric] by blast
  next
    case False
    then show ?thesis unfolding Let_def s_def [symmetric] by (auto simp: plasticity_compute_def)
  qed
qed

end
