(* ===== verification/Plasticity_Examples.thy ===== *)
theory Plasticity_Examples
  imports Plasticity_Proofs
begin

text \<open>A network of four neurons that discovers and grows the connection from 1 to 2.\<close>

definition ex_item :: CoactivationEvidence where
  "ex_item = \<lparr> ce_region = 0, ce_source = 1, ce_target = 2, ce_coactivation = 2, ce_eligibility = 1,
     ce_concept_gap_support = 0 \<rparr>"

definition ex_new :: StructuralPlasticityState where
  "ex_new = \<lparr> ps_neuron_count = 4, ps_config = plasticity_config_default, ps_candidates = [], ps_connections = [],
     ps_last_candidate_comparisons = 0 \<rparr>"

definition ex_ops :: "PlasticityOp list" where
  "ex_ops = [DiscoverCandidates [ex_item], ApplyStructuralPhase]"

lemma ex_new: "plasticity_new 4 plasticity_config_default = Inr ex_new"
  by (simp add: plasticity_new_def plasticity_config_validate_def plasticity_config_default_def ex_new_def
      MAX_CANDIDATES_PER_REGION_def MAX_REGIONS_PER_STATE_def MAX_ACCEPTED_PER_PHASE_def MAX_STRUCTURAL_EDGES_def)

definition ex_candidate :: StructuralCandidate where
  "ex_candidate = \<lparr> sc_region = 0, sc_source = 1, sc_target = 2, sc_coactivation = 2, sc_eligibility = 1,
     sc_concept_gap_support = 0, sc_age = 0, sc_score = 3 \<rparr>"

lemma ex_discovered:
  "snd (discover_candidates [ex_item] ex_new) = ex_new \<lparr> ps_candidates := [(0, [ex_candidate])] \<rparr>
   \<and> is_ok (fst (discover_candidates [ex_item] ex_new))"
  by (simp add: discover_candidates_def Let_def ex_new_def ex_item_def plasticity_config_default_def
      MAX_CANDIDATES_PER_REGION_def MAX_REGIONS_PER_STATE_def MAX_EVIDENCE_PER_PHASE_def
      absorb_evidence_def usable_evidence_def evidence_score_def saturating_add_def new_candidate_def
      ex_candidate_def word_le_nat_alt word_less_nat_alt)

lemma ex_grown:
  "ps_connections (snd (apply_structural_phase (ex_new \<lparr> ps_candidates := [(0, [ex_candidate])] \<rparr>)))
    = [(2, [edge_of ex_candidate])]"
  by (simp add: apply_structural_phase_def Let_def ex_new_def plasticity_config_default_def connection_count_def
      MAX_CANDIDATES_PER_REGION_def MAX_ACCEPTED_PER_PHASE_def MAX_STRUCTURAL_EDGES_def has_connection_def
      score_to_weight_zero insert_connection_def edge_of_def ex_candidate_def remove_candidate_def bt_remove_def
      prune_weak_connections_def)

lemma ex_run: "ps_connections (run_ops plasticity_step ex_ops ex_new) = [(2, [edge_of ex_candidate])]"
  using ex_discovered ex_grown by (simp add: ex_ops_def)

text \<open>The properties at this network.\<close>

lemma plasticity_stays_valid_witness:
  "plasticity_deserialize (run_ops plasticity_step ex_ops ex_new) = Inr (run_ops plasticity_step ex_ops ex_new)"
  by (rule plasticity_stays_valid [OF ex_new])

lemma plasticity_failures_witness:
  "is_ok (fst (apply_structural_phase (run_ops plasticity_step ex_ops ex_new)))"
  using plasticity_failures [OF ex_new, of ex_ops "[]" ApplyStructuralPhase] by (simp add: Let_def)

lemma connections_come_from_evidence_witness:
  "\<exists>evidence item. DiscoverCandidates evidence \<in> set (accepted_ops plasticity_step ex_ops ex_new)
    \<and> item \<in> set evidence \<and> ce_source item = 1 \<and> ce_target item = 2"
proof -
  have "(1, 2, score_to_weight 3) \<in> set (plasticity_connections (run_ops plasticity_step ex_ops ex_new))"
    by (simp add: plasticity_connections_def ex_run edge_of_def ex_candidate_def)
  from connections_come_from_evidence [OF ex_new this] show ?thesis by blast
qed

lemma discovery_ignores_order_witness:
  "discover_candidates [ex_item, ex_item \<lparr> ce_target := 3 \<rparr>] ex_new
    = discover_candidates [ex_item \<lparr> ce_target := 3 \<rparr>, ex_item] ex_new"
  by (rule discovery_ignores_order) simp

lemma structural_phase_is_bounded_witness:
  "\<exists>r s'. apply_structural_phase (run_ops plasticity_step ex_ops ex_new) = (Inr r, s')
    \<and> unat (wr_active_edges r) = connection_count s'"
  using structural_phase_is_bounded [OF ex_new, of ex_ops] by (auto simp: Let_def)

lemma compute_never_panics_witness:
  "\<exists>r. plasticity_compute (run_ops plasticity_step ex_ops ex_new) [0, 1, 0, 0] = Some r"
  using compute_never_panics [OF ex_new, of ex_ops "[0, 1, 0, 0]"] by (auto simp: Let_def)

end
