(* ===== verification/Life_Statistics.thy ===== *)
theory Life_Statistics
  imports Language
begin

text \<open>
  \<open>crates/alife_core/src/evaluation.rs\<close>: the passive statistics of one life. Events feed bounded means
  in Q16; a finalized life is closed. Of a sealed \<open>ExperiencePatch\<close> the record \<open>PatchView\<close> holds what
  \<open>observe_sealed_patch\<close> reads, the verdict of the patch's own validation included.
\<close>

section \<open>Readings, regimes and metrics\<close>

definition PASSIVE_LIFE_STATISTICS_SCHEMA_VERSION :: u16 where "PASSIVE_LIFE_STATISTICS_SCHEMA_VERSION = 1"
definition Q16_ONE :: u32 where "Q16_ONE = 65535"

datatype MetricReading = UnknownReading | Measured (reading_value: u32) (reading_exposures: u64)

fun value_q16 :: "MetricReading \<Rightarrow> u32 option" where
  "value_q16 UnknownReading = None"
| "value_q16 (Measured v _) = Some v"

datatype EnvironmentalRegime =
  Temperate | Scarcity | Abundance | Hazardous | SocialRegime | NovelRegime | UnknownRegime

fun regime_index :: "EnvironmentalRegime \<Rightarrow> nat option" where
  "regime_index Temperate = Some 0"
| "regime_index Scarcity = Some 1"
| "regime_index Abundance = Some 2"
| "regime_index Hazardous = Some 3"
| "regime_index SocialRegime = Some 4"
| "regime_index NovelRegime = Some 5"
| "regime_index UnknownRegime = None"

datatype PassiveMetricKind =
    SurvivalTicks | FoodSuccess | PoisonAvoidance | HazardAvoidance | MeanBrainAtp | MovementMetric
  | ReproductionMetric | SleepRetentionMetric | LearningSlope | ReversalRecoveryMetric
  | VocabularyGroundingMetric | UnaidedComprehension | SlmAssistedComprehension | NarrationFidelity
  | PeerCommunicationMetric | DialectTransferMetric | DialectDivergenceMetric | GpuThrottleAvoidance

section \<open>Bounded means\<close>

record BoundedMean =
  bm_samples :: u64
  bm_sum_q16 :: u128

definition mean_default :: BoundedMean where
  "mean_default = \<lparr> bm_samples = 0, bm_sum_q16 = 0 \<rparr>"

text \<open>The samples are counted before the sum is added: an overflow of the sum would keep the count.\<close>

definition mean_observe :: "u32 \<Rightarrow> BoundedMean \<Rightarrow> (ScaffoldContractError, unit, BoundedMean) outcome" where
  "mean_observe v m =
     (if Q16_ONE < v then (Inl ScalarOutOfRange, m)
      else case checked_add (bm_samples m) 1 of
        None \<Rightarrow> (Inl ScalarOutOfRange, m)
      | Some samples \<Rightarrow>
          let m' = m \<lparr> bm_samples := samples \<rparr>
          in case checked_add (bm_sum_q16 m') (ucast v) of
               None \<Rightarrow> (Inl ScalarOutOfRange, m')
             | Some total' \<Rightarrow> (Inr (), m' \<lparr> bm_sum_q16 := total' \<rparr>))"

definition mean_reading :: "BoundedMean \<Rightarrow> MetricReading" where
  "mean_reading m =
     (if bm_samples m = 0 then UnknownReading
      else
        let rounded = (bm_sum_q16 m + ucast (bm_samples m div 2)) div ucast (bm_samples m)
        in Measured (min (case try_narrow rounded of Some v \<Rightarrow> v | None \<Rightarrow> Q16_ONE) Q16_ONE) (bm_samples m))"

definition mean_validate :: "BoundedMean \<Rightarrow> unit contract" where
  "mean_validate m =
     (if saturating_mul (ucast (bm_samples m)) (ucast Q16_ONE) < bm_sum_q16 m
      then Inl ScalarOutOfRange else Inr ())"

definition bool_q16 :: "bool \<Rightarrow> u32" where
  "bool_q16 b = (if b then Q16_ONE else 0)"

definition ratio_q16 :: "u64 \<Rightarrow> u64 \<Rightarrow> u32" where
  "ratio_q16 numerator denominator =
     (if denominator = 0 then 0
      else
        let v = ((ucast numerator :: u128) * ucast Q16_ONE + ucast (denominator div 2)) div ucast denominator
        in min (case try_narrow v of Some w \<Rightarrow> w | None \<Rightarrow> Q16_ONE) Q16_ONE)"

section \<open>Events and statistics\<close>

datatype PassiveLifeEvent =
    SurvivalTick u64 EnvironmentalRegime u32 u32 bool bool
  | FoodOutcome bool
  | PoisonEncounter bool
  | HazardEncounter bool
  | ReproductionEvent bool
  | SleepRetentionEvent bool
  | LearningProbe u32
  | ReversalRecoveryEvent u32
  | VocabularyGroundingEvent bool
  | ComprehensionEvent bool bool
  | NarrationUtterance
  | NarrationEvent bool
  | PeerCommunicationEvent bool
  | DialectTransferEvent bool
  | DialectDivergenceEvent u32

record PassiveLifeStatistics =
  ls_schema_version :: u16
  ls_organism_id :: u64
  ls_birth_tick :: u64
  ls_last_tick :: u64
  ls_death_tick :: "u64 option"
  ls_death_reason :: "text_string option"
  ls_survival_ticks :: u64
  ls_environmental_regime_ticks :: "u64 list"
  ls_heard_token_exposures :: u64
  ls_gpu_dispatches :: u64
  ls_gpu_throttled_dispatches :: u64
  ls_narration_utterances :: u64
  ls_food_success :: BoundedMean
  ls_poison_avoidance :: BoundedMean
  ls_hazard_avoidance :: BoundedMean
  ls_mean_brain_atp :: BoundedMean
  ls_movement :: BoundedMean
  ls_reproduction :: BoundedMean
  ls_sleep_retention :: BoundedMean
  ls_learning_slope :: BoundedMean
  ls_reversal_recovery :: BoundedMean
  ls_vocabulary_grounding :: BoundedMean
  ls_unaided_comprehension :: BoundedMean
  ls_slm_assisted_comprehension :: BoundedMean
  ls_narration_fidelity :: BoundedMean
  ls_peer_communication :: BoundedMean
  ls_dialect_transfer :: BoundedMean
  ls_dialect_divergence :: BoundedMean

definition life_new :: "u64 \<Rightarrow> u64 \<Rightarrow> PassiveLifeStatistics contract" where
  "life_new organism birth =
     and_then (id_validate organism) (\<lambda>_. Inr \<lparr>
       ls_schema_version = PASSIVE_LIFE_STATISTICS_SCHEMA_VERSION, ls_organism_id = organism,
       ls_birth_tick = birth, ls_last_tick = birth, ls_death_tick = None, ls_death_reason = None,
       ls_survival_ticks = 0, ls_environmental_regime_ticks = replicate 6 0,
       ls_heard_token_exposures = 0, ls_gpu_dispatches = 0, ls_gpu_throttled_dispatches = 0,
       ls_narration_utterances = 0, ls_food_success = mean_default, ls_poison_avoidance = mean_default,
       ls_hazard_avoidance = mean_default, ls_mean_brain_atp = mean_default, ls_movement = mean_default,
       ls_reproduction = mean_default, ls_sleep_retention = mean_default, ls_learning_slope = mean_default,
       ls_reversal_recovery = mean_default, ls_vocabulary_grounding = mean_default,
       ls_unaided_comprehension = mean_default, ls_slm_assisted_comprehension = mean_default,
       ls_narration_fidelity = mean_default, ls_peer_communication = mean_default,
       ls_dialect_transfer = mean_default, ls_dialect_divergence = mean_default \<rparr>)"

text \<open>\<open>iter().try_fold(0, checked_add)\<close>.\<close>

fun checked_sum :: "u64 \<Rightarrow> u64 list \<Rightarrow> u64 option" where
  "checked_sum acc [] = Some acc"
| "checked_sum acc (x # xs) = Option.bind (checked_add acc x) (\<lambda>a. checked_sum a xs)"

definition unknown_regime_ticks :: "PassiveLifeStatistics \<Rightarrow> u64 contract" where
  "unknown_regime_ticks s =
     and_then (ok_or ScalarOutOfRange (checked_sum 0 (ls_environmental_regime_ticks s))) (\<lambda>known.
       ok_or ScalarOutOfRange (checked_sub (ls_survival_ticks s) known))"

section \<open>Observation\<close>

text \<open>A method run on a copy: its error, or the copy it leaves.\<close>

definition staged :: "('e, unit, 's) outcome \<Rightarrow> 'e + 's" where
  "staged r = (case r of (Inl e, _) \<Rightarrow> Inl e | (Inr _, s) \<Rightarrow> Inr s)"

text \<open>An update that is written to \<open>self\<close> only when it succeeds.\<close>

definition committed :: "'e + 's \<Rightarrow> 's \<Rightarrow> ('e, unit, 's) outcome" where
  "committed r s = (case r of Inl e \<Rightarrow> (Inl e, s) | Inr s' \<Rightarrow> (Inr (), s'))"

text \<open>A method run on a field of \<open>self\<close>.\<close>

definition on_field ::
  "('s \<Rightarrow> 'm) \<Rightarrow> (('m \<Rightarrow> 'm) \<Rightarrow> 's \<Rightarrow> 's) \<Rightarrow> ('m \<Rightarrow> ('e, unit, 'm) outcome) \<Rightarrow> 's \<Rightarrow> ('e, unit, 's) outcome" where
  "on_field get upd f s = (case f (get s) of (r, m) \<Rightarrow> (r, upd (\<lambda>_. m) s))"

definition count_regime :: "EnvironmentalRegime \<Rightarrow> u64 list \<Rightarrow> u64 list contract" where
  "count_regime regime ticks =
     (case regime_index regime of
        None \<Rightarrow> Inr ticks
      | Some i \<Rightarrow> and_then (ok_or ScalarOutOfRange (checked_add (ticks ! i) 1)) (\<lambda>v. Inr (ticks[i := v])))"

definition observe_survival ::
  "u64 \<Rightarrow> EnvironmentalRegime \<Rightarrow> u32 \<Rightarrow> u32 \<Rightarrow> bool \<Rightarrow> bool \<Rightarrow> PassiveLifeStatistics
   \<Rightarrow> PassiveLifeStatistics contract" where
  "observe_survival tick regime energy movement dispatched throttled s =
     (if tick \<le> ls_last_tick s \<or> Q16_ONE < energy \<or> Q16_ONE < movement \<or> (throttled \<and> \<not> dispatched)
      then Inl ScalarOutOfRange
      else
        and_then (ok_or ScalarOutOfRange (checked_add (ls_survival_ticks s) 1)) (\<lambda>survival.
        and_then (count_regime regime (ls_environmental_regime_ticks s)) (\<lambda>regimes.
        and_then (staged (mean_observe energy (ls_mean_brain_atp s))) (\<lambda>atp.
        and_then (staged (mean_observe movement (ls_movement s))) (\<lambda>moved.
        and_then (ok_or ScalarOutOfRange (checked_add (ls_gpu_dispatches s) (if dispatched then 1 else 0))) (\<lambda>dispatches.
        and_then (ok_or ScalarOutOfRange (checked_add (ls_gpu_throttled_dispatches s) (if throttled then 1 else 0)))
          (\<lambda>throttles. Inr (s \<lparr> ls_last_tick := tick, ls_survival_ticks := survival,
             ls_environmental_regime_ticks := regimes, ls_mean_brain_atp := atp, ls_movement := moved,
             ls_gpu_dispatches := dispatches, ls_gpu_throttled_dispatches := throttles \<rparr>))))))))"

fun observe_event ::
  "PassiveLifeEvent \<Rightarrow> PassiveLifeStatistics \<Rightarrow> (ScaffoldContractError, unit, PassiveLifeStatistics) outcome" where
  "observe_event (SurvivalTick tick regime energy movement dispatched throttled) s =
     committed (observe_survival tick regime energy movement dispatched throttled s) s"
| "observe_event (FoodOutcome b) s = on_field ls_food_success ls_food_success_update (mean_observe (bool_q16 b)) s"
| "observe_event (PoisonEncounter b) s =
     on_field ls_poison_avoidance ls_poison_avoidance_update (mean_observe (bool_q16 b)) s"
| "observe_event (HazardEncounter b) s =
     on_field ls_hazard_avoidance ls_hazard_avoidance_update (mean_observe (bool_q16 b)) s"
| "observe_event (ReproductionEvent b) s = on_field ls_reproduction ls_reproduction_update (mean_observe (bool_q16 b)) s"
| "observe_event (SleepRetentionEvent b) s =
     on_field ls_sleep_retention ls_sleep_retention_update (mean_observe (bool_q16 b)) s"
| "observe_event (LearningProbe v) s = on_field ls_learning_slope ls_learning_slope_update (mean_observe v) s"
| "observe_event (ReversalRecoveryEvent t) s =
     on_field ls_reversal_recovery ls_reversal_recovery_update (mean_observe (Q16_ONE div saturating_add t 1)) s"
| "observe_event (VocabularyGroundingEvent b) s =
     on_field ls_vocabulary_grounding ls_vocabulary_grounding_update (mean_observe (bool_q16 b)) s"
| "observe_event (ComprehensionEvent assisted correct) s =
     (if assisted
      then on_field ls_slm_assisted_comprehension ls_slm_assisted_comprehension_update (mean_observe (bool_q16 correct)) s
      else on_field ls_unaided_comprehension ls_unaided_comprehension_update (mean_observe (bool_q16 correct)) s)"
| "observe_event NarrationUtterance s =
     (case checked_add (ls_narration_utterances s) 1 of
        None \<Rightarrow> (Inl ScalarOutOfRange, s) | Some n \<Rightarrow> (Inr (), s \<lparr> ls_narration_utterances := n \<rparr>))"
| "observe_event (NarrationEvent b) s =
     on_field ls_narration_fidelity ls_narration_fidelity_update (mean_observe (bool_q16 b)) s"
| "observe_event (PeerCommunicationEvent b) s =
     on_field ls_peer_communication ls_peer_communication_update (mean_observe (bool_q16 b)) s"
| "observe_event (DialectTransferEvent b) s =
     on_field ls_dialect_transfer ls_dialect_transfer_update (mean_observe (bool_q16 b)) s"
| "observe_event (DialectDivergenceEvent v) s =
     on_field ls_dialect_divergence ls_dialect_divergence_update (mean_observe v) s"

definition life_observe ::
  "PassiveLifeEvent \<Rightarrow> PassiveLifeStatistics \<Rightarrow> (ScaffoldContractError, unit, PassiveLifeStatistics) outcome" where
  "life_observe event s = (if ls_death_tick s \<noteq> None then (Inl InvalidId, s) else observe_event event s)"

record PatchView =
  pv_contract :: "unit contract"
  pv_organism_id :: u64
  pv_heard_tokens :: nat
  pv_consumed :: bool
  pv_pain_delta :: f32
  pv_reward_valence :: f32
  pv_action_kind :: ActionKind

text \<open>The events of a patch, in the order of the code.\<close>

definition patch_harmful :: "PatchView \<Rightarrow> bool" where
  "patch_harmful p \<longleftrightarrow> f32_lt f32_zero (pv_pain_delta p) \<or> f32_lt (pv_reward_valence p) f32_zero"

definition patch_stage :: "PatchView \<Rightarrow> PassiveLifeStatistics \<Rightarrow> PassiveLifeStatistics contract" where
  "patch_stage p s =
     and_then (pv_contract p) (\<lambda>_.
       if pv_organism_id p \<noteq> ls_organism_id s then Inl BrainOwnershipMismatch
       else if ls_death_tick s \<noteq> None then Inl InvalidId
       else
         and_then (ok_or ScalarOutOfRange
             (checked_add (ls_heard_token_exposures s) (word_of_nat (pv_heard_tokens p)))) (\<lambda>heard.
         and_then
           (if pv_consumed p
            then staged (life_observe (FoodOutcome (\<not> patch_harmful p)) (s \<lparr> ls_heard_token_exposures := heard \<rparr>))
            else Inr (s \<lparr> ls_heard_token_exposures := heard \<rparr>)) (\<lambda>s1.
           if pv_action_kind p = Vocalize then staged (life_observe NarrationUtterance s1) else Inr s1)))"

definition life_observe_patch ::
  "PatchView \<Rightarrow> PassiveLifeStatistics \<Rightarrow> (ScaffoldContractError, unit, PassiveLifeStatistics) outcome" where
  "life_observe_patch p s = committed (patch_stage p s) s"

section \<open>Validation and the end of a life\<close>

definition life_means :: "PassiveLifeStatistics \<Rightarrow> BoundedMean list" where
  "life_means s = [ls_food_success s, ls_poison_avoidance s, ls_hazard_avoidance s, ls_mean_brain_atp s,
     ls_movement s, ls_reproduction s, ls_sleep_retention s, ls_learning_slope s, ls_reversal_recovery s,
     ls_vocabulary_grounding s, ls_unaided_comprehension s, ls_slm_assisted_comprehension s,
     ls_narration_fidelity s, ls_peer_communication s, ls_dialect_transfer s, ls_dialect_divergence s]"

definition reason_bad :: "text_string \<Rightarrow> bool" where
  "reason_bad r \<longleftrightarrow> trim_is_empty r \<or> 160 < length r"

definition life_validate :: "PassiveLifeStatistics \<Rightarrow> unit contract" where
  "life_validate s =
     and_then (ok_or ScalarOutOfRange (checked_sum 0 (ls_environmental_regime_ticks s))) (\<lambda>regime_ticks.
       if ls_schema_version s \<noteq> PASSIVE_LIFE_STATISTICS_SCHEMA_VERSION
         \<or> ls_last_tick s < ls_birth_tick s \<or> ls_survival_ticks s < regime_ticks
         \<or> ls_gpu_dispatches s < ls_gpu_throttled_dispatches s
       then Inl ScalarOutOfRange
       else and_then (id_validate (ls_organism_id s)) (\<lambda>_.
         if (ls_death_tick s \<noteq> None) \<noteq> (ls_death_reason s \<noteq> None)
           \<or> (case ls_death_tick s of None \<Rightarrow> False | Some t \<Rightarrow> t < ls_last_tick s)
           \<or> (case ls_death_reason s of None \<Rightarrow> False | Some r \<Rightarrow> reason_bad r)
         then Inl InvalidId
         else check_all mean_validate (life_means s)))"

definition life_finalize ::
  "u64 \<Rightarrow> text_string \<Rightarrow> PassiveLifeStatistics \<Rightarrow> (ScaffoldContractError, unit, PassiveLifeStatistics) outcome" where
  "life_finalize tick reason s =
     (if ls_death_tick s \<noteq> None \<or> tick < ls_last_tick s \<or> reason_bad reason
      then (Inl InvalidId, s)
      else let s' = s \<lparr> ls_death_tick := Some tick, ls_death_reason := Some reason \<rparr>
           in (life_validate s', s'))"

fun life_metric :: "PassiveMetricKind \<Rightarrow> PassiveLifeStatistics \<Rightarrow> MetricReading" where
  "life_metric SurvivalTicks s =
     (if ls_survival_ticks s = 0 then UnknownReading
      else Measured (min (case try_narrow (ls_survival_ticks s) of Some v \<Rightarrow> v | None \<Rightarrow> Q16_ONE) Q16_ONE)
             (ls_survival_ticks s))"
| "life_metric FoodSuccess s = mean_reading (ls_food_success s)"
| "life_metric PoisonAvoidance s = mean_reading (ls_poison_avoidance s)"
| "life_metric HazardAvoidance s = mean_reading (ls_hazard_avoidance s)"
| "life_metric MeanBrainAtp s = mean_reading (ls_mean_brain_atp s)"
| "life_metric MovementMetric s = mean_reading (ls_movement s)"
| "life_metric ReproductionMetric s = mean_reading (ls_reproduction s)"
| "life_metric SleepRetentionMetric s = mean_reading (ls_sleep_retention s)"
| "life_metric LearningSlope s = mean_reading (ls_learning_slope s)"
| "life_metric ReversalRecoveryMetric s = mean_reading (ls_reversal_recovery s)"
| "life_metric VocabularyGroundingMetric s = mean_reading (ls_vocabulary_grounding s)"
| "life_metric UnaidedComprehension s = mean_reading (ls_unaided_comprehension s)"
| "life_metric SlmAssistedComprehension s = mean_reading (ls_slm_assisted_comprehension s)"
| "life_metric NarrationFidelity s = mean_reading (ls_narration_fidelity s)"
| "life_metric PeerCommunicationMetric s = mean_reading (ls_peer_communication s)"
| "life_metric DialectTransferMetric s = mean_reading (ls_dialect_transfer s)"
| "life_metric DialectDivergenceMetric s = mean_reading (ls_dialect_divergence s)"
| "life_metric GpuThrottleAvoidance s =
     (if ls_gpu_dispatches s = 0 then UnknownReading
      else Measured (ratio_q16 (saturating_sub (ls_gpu_dispatches s) (ls_gpu_throttled_dispatches s)) (ls_gpu_dispatches s))
             (ls_gpu_dispatches s))"

section \<open>The operations of a life\<close>

datatype LifeOp = ObserveEvent PassiveLifeEvent | ObservePatch PatchView | FinalizeLife u64 text_string

fun life_step :: "LifeOp \<Rightarrow> PassiveLifeStatistics \<Rightarrow> (ScaffoldContractError, unit, PassiveLifeStatistics) outcome" where
  "life_step (ObserveEvent event) s = life_observe event s"
| "life_step (ObservePatch patch) s = life_observe_patch patch s"
| "life_step (FinalizeLife tick reason) s = life_finalize tick reason s"

end
