(* ===== verification/Life_Proofs.thy ===== *)
theory Life_Proofs
  imports Life_Statistics
begin

text \<open>
  What the statistics of a life promise: they stay valid, a rejected event leaves no trace, each metric
  is the rounded mean of the samples of its accepted events, and a finalized life never changes again.
\<close>

section \<open>Bounded means\<close>

definition mean_ok :: "BoundedMean \<Rightarrow> bool" where
  "mean_ok m \<longleftrightarrow> unat (bm_sum_q16 m) \<le> unat (bm_samples m) * 65535"

text \<open>\<open>m\<close> holds the samples \<open>xs\<close>.\<close>

definition holds_samples :: "BoundedMean \<Rightarrow> u32 list \<Rightarrow> bool" where
  "holds_samples m xs \<longleftrightarrow> unat (bm_samples m) = length xs \<and> unat (bm_sum_q16 m) = sum_list (map unat xs)
     \<and> (\<forall>x \<in> set xs. x \<le> Q16_ONE)"

lemma samples_small: "unat (s :: u64) * 65535 < 2 ^ 80"
proof -
  have "unat s < 2 ^ 64" using unsigned_less [of s, where 'a = nat] by simp
  then show ?thesis by simp
qed

lemma mean_validate_iff: "mean_validate m = Inr () \<longleftrightarrow> mean_ok m"
proof -
  have "unat (ucast (bm_samples m) :: u128) * unat (ucast Q16_ONE :: u128) = unat (bm_samples m) * 65535"
    by (simp add: unat_widen Q16_ONE_def)
  then have "unat (saturating_mul (ucast (bm_samples m)) (ucast Q16_ONE) :: u128) = unat (bm_samples m) * 65535"
    using samples_small [of "bm_samples m"] by (simp add: saturating_mul_def unat_mult_no_overflow)
  then show ?thesis by (simp add: mean_validate_def mean_ok_def word_less_nat_alt)
qed

lemma mean_observe_cases:
  assumes "mean_ok m"
  shows "(\<exists>e. mean_observe v m = (Inl e, m)) \<or>
    (\<exists>m'. mean_observe v m = (Inr (), m') \<and> mean_ok m' \<and> (\<forall>xs. holds_samples m xs \<longrightarrow> holds_samples m' (xs @ [v])))"
proof (cases "Q16_ONE < v \<or> checked_add (bm_samples m) 1 = None")
  case True
  then show ?thesis by (auto simp: mean_observe_def)
next
  case False
  then obtain n where n: "checked_add (bm_samples m) 1 = Some n" by blast
  have v: "unat v \<le> 65535" "v \<le> Q16_ONE" using False by (simp_all add: Q16_ONE_def word_le_nat_alt not_less)
  have wide: "unat (ucast v :: u128) = unat v" by (simp add: unat_widen)
  have "unat (bm_sum_q16 m) + unat (ucast v :: u128) < 2 ^ 128"
    using assms samples_small [of "bm_samples m"] v(1) by (simp add: mean_ok_def wide)
  then obtain t where t: "checked_add (bm_sum_q16 m) (ucast v) = Some t" by (simp add: checked_add_def)
  have "unat n = unat (bm_samples m) + 1" "unat t = unat (bm_sum_q16 m) + unat v"
    using checked_add_Some [OF n] checked_add_Some [OF t] by (simp_all add: wide)
  then show ?thesis
    using False n t v assms by (simp add: mean_observe_def mean_ok_def holds_samples_def Let_def)
qed

text \<open>The reading of \<open>n\<close> samples: their mean, halves rounded up.\<close>

definition exact_reading :: "u32 list \<Rightarrow> MetricReading" where
  "exact_reading xs =
     (if xs = [] then UnknownReading
      else Measured (word_of_nat ((sum_list (map unat xs) + length xs div 2) div length xs)) (word_of_nat (length xs)))"

lemma samples_sum_le: "\<forall>x \<in> set xs. x \<le> Q16_ONE \<Longrightarrow> sum_list (map unat xs) \<le> length xs * 65535"
  by (induction xs) (auto simp: Q16_ONE_def word_le_nat_alt)

lemma mean_reading_exact:
  assumes "holds_samples m xs"
  shows "mean_reading m = exact_reading xs"
proof (cases "xs = []")
  case True
  then show ?thesis using assms by (simp add: holds_samples_def mean_reading_def exact_reading_def unat_eq_zero)
next
  case False
  let ?n = "length xs" and ?s = "sum_list (map unat xs)"
  have m: "unat (bm_samples m) = ?n" "unat (bm_sum_q16 m) = ?s" "?s \<le> ?n * 65535"
    using assms samples_sum_le by (simp_all add: holds_samples_def)
  have "unat (bm_samples m) < 2 ^ 64" using unsigned_less [of "bm_samples m", where 'a = nat] by simp
  then have n: "?n < 2 ^ 64" "0 < ?n" using False by (simp_all add: m(1))
  have half: "unat (ucast (bm_samples m div 2) :: u128) = ?n div 2" by (simp add: unat_widen unat_div m(1))
  have "?s + ?n div 2 < 2 ^ 128" using m(3) n(1) by simp
  then have num: "unat (bm_sum_q16 m + ucast (bm_samples m div 2)) = ?s + ?n div 2"
    by (subst unat_plus_no_overflow) (simp_all add: half m(2))
  let ?q = "(?s + ?n div 2) div ?n"
  have q: "unat ((bm_sum_q16 m + ucast (bm_samples m div 2)) div ucast (bm_samples m)) = ?q"
    by (simp add: unat_div num unat_widen m(1))
  have "?s + ?n div 2 < ?n * 65536" using m(3) n(2) by linarith
  then have small: "?q \<le> 65535" using n(2) less_mult_imp_div_less [of "?s + ?n div 2" 65536 ?n] by (simp add: mult.commute)
  let ?w = "(bm_sum_q16 m + ucast (bm_samples m div 2)) div ucast (bm_samples m) :: u128"
  have "try_narrow ?w = Some (word_of_nat ?q :: u32)"
    using small q by (simp add: try_narrow_def) (metis q of_nat_unat)
  moreover have "(word_of_nat ?q :: u32) \<le> Q16_ONE"
    using small by (simp add: Q16_ONE_def word_le_nat_alt unat_of_nat)
  moreover have "bm_samples m = word_of_nat ?n" by (simp flip: m(1))
  moreover have "bm_samples m \<noteq> 0" using m(1) n(2) by auto
  ultimately show ?thesis using False by (simp add: mean_reading_def exact_reading_def Let_def min_def)
qed

section \<open>Events\<close>

fun mean_field :: "PassiveMetricKind \<Rightarrow> PassiveLifeStatistics \<Rightarrow> BoundedMean" where
  "mean_field FoodSuccess s = ls_food_success s"
| "mean_field PoisonAvoidance s = ls_poison_avoidance s"
| "mean_field HazardAvoidance s = ls_hazard_avoidance s"
| "mean_field MeanBrainAtp s = ls_mean_brain_atp s"
| "mean_field MovementMetric s = ls_movement s"
| "mean_field ReproductionMetric s = ls_reproduction s"
| "mean_field SleepRetentionMetric s = ls_sleep_retention s"
| "mean_field LearningSlope s = ls_learning_slope s"
| "mean_field ReversalRecoveryMetric s = ls_reversal_recovery s"
| "mean_field VocabularyGroundingMetric s = ls_vocabulary_grounding s"
| "mean_field UnaidedComprehension s = ls_unaided_comprehension s"
| "mean_field SlmAssistedComprehension s = ls_slm_assisted_comprehension s"
| "mean_field NarrationFidelity s = ls_narration_fidelity s"
| "mean_field PeerCommunicationMetric s = ls_peer_communication s"
| "mean_field DialectTransferMetric s = ls_dialect_transfer s"
| "mean_field DialectDivergenceMetric s = ls_dialect_divergence s"
| "mean_field _ s = mean_default"

text \<open>The samples an event brings, each to its metric.\<close>

fun event_readings :: "PassiveLifeEvent \<Rightarrow> (PassiveMetricKind \<times> u32) list" where
  "event_readings (SurvivalTick t r e m d h) = [(MeanBrainAtp, e), (MovementMetric, m)]"
| "event_readings (FoodOutcome b) = [(FoodSuccess, bool_q16 b)]"
| "event_readings (PoisonEncounter b) = [(PoisonAvoidance, bool_q16 b)]"
| "event_readings (HazardEncounter b) = [(HazardAvoidance, bool_q16 b)]"
| "event_readings (ReproductionEvent b) = [(ReproductionMetric, bool_q16 b)]"
| "event_readings (SleepRetentionEvent b) = [(SleepRetentionMetric, bool_q16 b)]"
| "event_readings (LearningProbe v) = [(LearningSlope, v)]"
| "event_readings (ReversalRecoveryEvent t) = [(ReversalRecoveryMetric, Q16_ONE div saturating_add t 1)]"
| "event_readings (VocabularyGroundingEvent b) = [(VocabularyGroundingMetric, bool_q16 b)]"
| "event_readings (ComprehensionEvent a b) = [(if a then SlmAssistedComprehension else UnaidedComprehension, bool_q16 b)]"
| "event_readings NarrationUtterance = []"
| "event_readings (NarrationEvent b) = [(NarrationFidelity, bool_q16 b)]"
| "event_readings (PeerCommunicationEvent b) = [(PeerCommunicationMetric, bool_q16 b)]"
| "event_readings (DialectTransferEvent b) = [(DialectTransferMetric, bool_q16 b)]"
| "event_readings (DialectDivergenceEvent v) = [(DialectDivergenceMetric, v)]"

definition event_samples :: "PassiveMetricKind \<Rightarrow> PassiveLifeEvent \<Rightarrow> u32 list" where
  "event_samples k e = map snd (filter (\<lambda>r. fst r = k) (event_readings e))"

lemma mean_field_updates [simp]:
  "mean_field k (s \<lparr> ls_food_success := m \<rparr>) = (if k = FoodSuccess then m else mean_field k s)"
  "mean_field k (s \<lparr> ls_poison_avoidance := m \<rparr>) = (if k = PoisonAvoidance then m else mean_field k s)"
  "mean_field k (s \<lparr> ls_hazard_avoidance := m \<rparr>) = (if k = HazardAvoidance then m else mean_field k s)"
  "mean_field k (s \<lparr> ls_reproduction := m \<rparr>) = (if k = ReproductionMetric then m else mean_field k s)"
  "mean_field k (s \<lparr> ls_sleep_retention := m \<rparr>) = (if k = SleepRetentionMetric then m else mean_field k s)"
  "mean_field k (s \<lparr> ls_learning_slope := m \<rparr>) = (if k = LearningSlope then m else mean_field k s)"
  "mean_field k (s \<lparr> ls_reversal_recovery := m \<rparr>) = (if k = ReversalRecoveryMetric then m else mean_field k s)"
  "mean_field k (s \<lparr> ls_vocabulary_grounding := m \<rparr>) = (if k = VocabularyGroundingMetric then m else mean_field k s)"
  "mean_field k (s \<lparr> ls_narration_fidelity := m \<rparr>) = (if k = NarrationFidelity then m else mean_field k s)"
  "mean_field k (s \<lparr> ls_peer_communication := m \<rparr>) = (if k = PeerCommunicationMetric then m else mean_field k s)"
  "mean_field k (s \<lparr> ls_dialect_transfer := m \<rparr>) = (if k = DialectTransferMetric then m else mean_field k s)"
  "mean_field k (s \<lparr> ls_dialect_divergence := m \<rparr>) = (if k = DialectDivergenceMetric then m else mean_field k s)"
  "mean_field k (s \<lparr> ls_mean_brain_atp := m \<rparr>) = (if k = MeanBrainAtp then m else mean_field k s)"
  "mean_field k (s \<lparr> ls_movement := m \<rparr>) = (if k = MovementMetric then m else mean_field k s)"
  "mean_field k (s \<lparr> ls_unaided_comprehension := m \<rparr>) = (if k = UnaidedComprehension then m else mean_field k s)"
  "mean_field k (s \<lparr> ls_slm_assisted_comprehension := m \<rparr>) = (if k = SlmAssistedComprehension then m else mean_field k s)"
  "mean_field k (s \<lparr> ls_last_tick := t \<rparr>) = mean_field k s"
  "mean_field k (s \<lparr> ls_survival_ticks := t \<rparr>) = mean_field k s"
  "mean_field k (s \<lparr> ls_environmental_regime_ticks := ts \<rparr>) = mean_field k s"
  "mean_field k (s \<lparr> ls_gpu_dispatches := t \<rparr>) = mean_field k s"
  "mean_field k (s \<lparr> ls_gpu_throttled_dispatches := t \<rparr>) = mean_field k s"
  "mean_field k (s \<lparr> ls_narration_utterances := t \<rparr>) = mean_field k s"
  "mean_field k (s \<lparr> ls_heard_token_exposures := t \<rparr>) = mean_field k s"
  "mean_field k (s \<lparr> ls_death_tick := dt \<rparr>) = mean_field k s"
  "mean_field k (s \<lparr> ls_death_reason := dr \<rparr>) = mean_field k s"
  by (cases k; simp)+

definition means_ok :: "PassiveLifeStatistics \<Rightarrow> bool" where
  "means_ok s \<longleftrightarrow> (\<forall>k. mean_ok (mean_field k s))"

definition records :: "PassiveLifeEvent list \<Rightarrow> PassiveLifeStatistics \<Rightarrow> PassiveLifeStatistics \<Rightarrow> bool" where
  "records events s s' \<longleftrightarrow> (\<forall>k xs. holds_samples (mean_field k s) xs \<longrightarrow>
     holds_samples (mean_field k s') (xs @ concat (map (event_samples k) events)))"

text \<open>The fields that no mean touches.\<close>

definition life_clock :: "PassiveLifeStatistics \<Rightarrow> u64 \<times> u64 list \<times> u64 \<times> u64 \<times> u64" where
  "life_clock s = (ls_survival_ticks s, ls_environmental_regime_ticks s, ls_last_tick s, ls_gpu_dispatches s,
     ls_gpu_throttled_dispatches s)"

definition life_identity :: "PassiveLifeStatistics \<Rightarrow> u16 \<times> u64 \<times> u64 \<times> u64 option \<times> text_string option" where
  "life_identity s = (ls_schema_version s, ls_organism_id s, ls_birth_tick s, ls_death_tick s, ls_death_reason s)"

fun is_survival :: "PassiveLifeEvent \<Rightarrow> bool" where
  "is_survival (SurvivalTick _ _ _ _ _ _) = True"
| "is_survival _ = False"

lemma mean_default_ok [simp]: "mean_ok mean_default" by (simp add: mean_ok_def mean_default_def)

definition harmless :: "PassiveLifeEvent list \<Rightarrow> PassiveLifeStatistics \<Rightarrow> PassiveLifeStatistics \<Rightarrow> bool" where
  "harmless events s s' \<longleftrightarrow> means_ok s' \<and> records events s s' \<and> life_clock s' = life_clock s
     \<and> life_identity s' = life_identity s"

text \<open>An event that feeds one mean.\<close>

lemma one_mean:
  assumes ok: "means_ok s" and field: "get s = mean_field k s" and upd: "\<And>m j. mean_field j (upd (\<lambda>_. m) s) = (if j = k then m else mean_field j s)"
    and same: "upd (\<lambda>_. get s) s = s" "\<And>m. life_clock (upd (\<lambda>_. m) s) = life_clock s" "\<And>m. life_identity (upd (\<lambda>_. m) s) = life_identity s"
    and event: "event_readings event = [(k, v)]"
  shows "(\<exists>e. on_field get upd (mean_observe v) s = (Inl e, s)) \<or>
    (\<exists>s'. on_field get upd (mean_observe v) s = (Inr (), s') \<and> harmless [event] s s')"
proof -
  have "mean_ok (get s)" using ok field by (simp add: means_ok_def)
  from mean_observe_cases [OF this, of v] show ?thesis
  proof
    assume "\<exists>e. mean_observe v (get s) = (Inl e, get s)"
    then show ?thesis using same(1) by (auto simp: on_field_def)
  next
    assume "\<exists>m'. mean_observe v (get s) = (Inr (), m') \<and> mean_ok m' \<and> (\<forall>xs. holds_samples (get s) xs \<longrightarrow> holds_samples m' (xs @ [v]))"
    then obtain m where m: "mean_observe v (get s) = (Inr (), m)" "mean_ok m"
      "\<And>xs. holds_samples (get s) xs \<Longrightarrow> holds_samples m (xs @ [v])" by blast
    then have "harmless [event] s (upd (\<lambda>_. m) s)"
      using ok field upd same(2,3) event by (auto simp: harmless_def means_ok_def records_def event_samples_def)
    then show ?thesis using m(1) by (auto simp: on_field_def)
  qed
qed

lemma mean_event:
  assumes ok: "means_ok s" and not_tick: "\<not> is_survival event"
  shows "(\<exists>e. observe_event event s = (Inl e, s)) \<or> (\<exists>s'. observe_event event s = (Inr (), s') \<and> harmless [event] s s')"
proof (cases event)
  case (ComprehensionEvent a b)
  show ?thesis
  proof (cases a)
    case True
    show ?thesis unfolding ComprehensionEvent observe_event.simps if_P [OF True]
      by (rule one_mean [OF ok, where k = SlmAssistedComprehension]) (simp_all add: True life_clock_def life_identity_def)
  next
    case False
    show ?thesis unfolding ComprehensionEvent observe_event.simps if_not_P [OF False]
      by (rule one_mean [OF ok, where k = UnaidedComprehension]) (simp_all add: False life_clock_def life_identity_def)
  qed
next
  case NarrationUtterance
  have "harmless [NarrationUtterance] s (s \<lparr> ls_narration_utterances := n \<rparr>)" for n
    using ok by (simp add: harmless_def means_ok_def records_def event_samples_def life_clock_def life_identity_def)
  then show ?thesis by (simp add: NarrationUtterance split: option.split)
next
  case (FoodOutcome b)
  show ?thesis unfolding FoodOutcome observe_event.simps
    by (rule one_mean [OF ok, where k = FoodSuccess]) (simp_all add: life_clock_def life_identity_def)
next
  case (PoisonEncounter b)
  show ?thesis unfolding PoisonEncounter observe_event.simps
    by (rule one_mean [OF ok, where k = PoisonAvoidance]) (simp_all add: life_clock_def life_identity_def)
next
  case (HazardEncounter b)
  show ?thesis unfolding HazardEncounter observe_event.simps
    by (rule one_mean [OF ok, where k = HazardAvoidance]) (simp_all add: life_clock_def life_identity_def)
next
  case (ReproductionEvent b)
  show ?thesis unfolding ReproductionEvent observe_event.simps
    by (rule one_mean [OF ok, where k = ReproductionMetric]) (simp_all add: life_clock_def life_identity_def)
next
  case (SleepRetentionEvent b)
  show ?thesis unfolding SleepRetentionEvent observe_event.simps
    by (rule one_mean [OF ok, where k = SleepRetentionMetric]) (simp_all add: life_clock_def life_identity_def)
next
  case (LearningProbe v)
  show ?thesis unfolding LearningProbe observe_event.simps
    by (rule one_mean [OF ok, where k = LearningSlope]) (simp_all add: life_clock_def life_identity_def)
next
  case (ReversalRecoveryEvent t)
  show ?thesis unfolding ReversalRecoveryEvent observe_event.simps
    by (rule one_mean [OF ok, where k = ReversalRecoveryMetric]) (simp_all add: life_clock_def life_identity_def)
next
  case (VocabularyGroundingEvent b)
  show ?thesis unfolding VocabularyGroundingEvent observe_event.simps
    by (rule one_mean [OF ok, where k = VocabularyGroundingMetric]) (simp_all add: life_clock_def life_identity_def)
next
  case (NarrationEvent b)
  show ?thesis unfolding NarrationEvent observe_event.simps
    by (rule one_mean [OF ok, where k = NarrationFidelity]) (simp_all add: life_clock_def life_identity_def)
next
  case (PeerCommunicationEvent b)
  show ?thesis unfolding PeerCommunicationEvent observe_event.simps
    by (rule one_mean [OF ok, where k = PeerCommunicationMetric]) (simp_all add: life_clock_def life_identity_def)
next
  case (DialectTransferEvent b)
  show ?thesis unfolding DialectTransferEvent observe_event.simps
    by (rule one_mean [OF ok, where k = DialectTransferMetric]) (simp_all add: life_clock_def life_identity_def)
next
  case (DialectDivergenceEvent v)
  show ?thesis unfolding DialectDivergenceEvent observe_event.simps
    by (rule one_mean [OF ok, where k = DialectDivergenceMetric]) (simp_all add: life_clock_def life_identity_def)
qed (use not_tick in simp)

section \<open>Survival ticks\<close>

text \<open>The clock part of the invariant.\<close>

definition clock_ok :: "PassiveLifeStatistics \<Rightarrow> bool" where
  "clock_ok s \<longleftrightarrow> length (ls_environmental_regime_ticks s) = 6
     \<and> sum_list (map unat (ls_environmental_regime_ticks s)) \<le> unat (ls_survival_ticks s)
     \<and> ls_birth_tick s \<le> ls_last_tick s \<and> ls_gpu_throttled_dispatches s \<le> ls_gpu_dispatches s"

definition identity_ok :: "PassiveLifeStatistics \<Rightarrow> bool" where
  "identity_ok s \<longleftrightarrow> ls_schema_version s = PASSIVE_LIFE_STATISTICS_SCHEMA_VERSION \<and> ls_organism_id s \<noteq> 0
     \<and> (case (ls_death_tick s, ls_death_reason s) of
          (None, None) \<Rightarrow> True
        | (Some t, Some r) \<Rightarrow> ls_last_tick s \<le> t \<and> \<not> reason_bad r
        | _ \<Rightarrow> False)"

definition life_inv :: "PassiveLifeStatistics \<Rightarrow> bool" where
  "life_inv s \<longleftrightarrow> clock_ok s \<and> identity_ok s \<and> means_ok s"

lemma checked_sum_iff:
  "checked_sum acc xs = Some r \<longleftrightarrow> unat acc + sum_list (map unat xs) = unat r"
proof (induction xs arbitrary: acc)
  case Nil
  then show ?case by (auto intro: unsigned_word_eqI)
next
  case (Cons x xs)
  show ?case
  proof (cases "checked_add acc x")
    case None
    then have "2 ^ 64 \<le> unat acc + unat x" by (simp add: checked_add_None)
    moreover have "unat r < 2 ^ 64" using unsigned_less [of r, where 'a = nat] by simp
    ultimately show ?thesis using None by simp
  next
    case (Some a)
    then show ?thesis using Cons.IH [of a] checked_add_Some [OF Some] by (simp add: add.assoc)
  qed
qed

lemma life_means_ok: "check_all mean_validate (life_means s) = Inr () \<longleftrightarrow> means_ok s"
proof -
  have "means_ok s \<longleftrightarrow> (\<forall>m \<in> set (life_means s). mean_ok m)" (is "_ \<longleftrightarrow> ?all")
  proof
    assume ok: "means_ok s"
    have "life_means s = map (\<lambda>k. mean_field k s) [FoodSuccess, PoisonAvoidance, HazardAvoidance, MeanBrainAtp,
        MovementMetric, ReproductionMetric, SleepRetentionMetric, LearningSlope, ReversalRecoveryMetric,
        VocabularyGroundingMetric, UnaidedComprehension, SlmAssistedComprehension, NarrationFidelity,
        PeerCommunicationMetric, DialectTransferMetric, DialectDivergenceMetric]"
      by (simp add: life_means_def)
    then obtain ks where "life_means s = map (\<lambda>k. mean_field k s) ks" by blast
    then show ?all using ok by (simp add: means_ok_def)
  next
    assume ?all
    then have "mean_ok (mean_field k s)" for k by (cases k) (simp_all add: life_means_def)
    then show "means_ok s" by (simp add: means_ok_def)
  qed
  then show ?thesis by (simp add: mean_validate_iff)
qed

lemma guard_ok: "(if c then Inl e else r) = Inr v \<longleftrightarrow> \<not> c \<and> r = Inr v"
  by simp

lemma id_ok: "id_validate v = Inr w \<longleftrightarrow> w = v \<and> v \<noteq> 0"
  by (auto simp: id_validate_def id_is_valid_def)

lemma life_validate_iff:
  "life_validate s = Inr () \<and> length (ls_environmental_regime_ticks s) = 6 \<longleftrightarrow> life_inv s"
proof -
  let ?sum = "sum_list (map unat (ls_environmental_regime_ticks s))"
  have sum: "(\<exists>r. checked_sum 0 (ls_environmental_regime_ticks s) = Some r \<and> \<not> ls_survival_ticks s < r)
      \<longleftrightarrow> ?sum \<le> unat (ls_survival_ticks s)"
  proof
    assume "\<exists>r. checked_sum 0 (ls_environmental_regime_ticks s) = Some r \<and> \<not> ls_survival_ticks s < r"
    then show "?sum \<le> unat (ls_survival_ticks s)" by (auto simp: checked_sum_iff word_less_nat_alt not_less)
  next
    assume le: "?sum \<le> unat (ls_survival_ticks s)"
    then have "?sum < 2 ^ 64" using unsigned_less [of "ls_survival_ticks s", where 'a = nat] by simp
    then have "unat (word_of_nat ?sum :: u64) = ?sum" by (simp add: unat_of_nat)
    then show "\<exists>r. checked_sum 0 (ls_environmental_regime_ticks s) = Some r \<and> \<not> ls_survival_ticks s < r"
      using le by (intro exI [of _ "word_of_nat ?sum"]) (simp add: checked_sum_iff word_less_nat_alt)
  qed
  have "life_validate s = Inr () \<longleftrightarrow> (\<exists>r. checked_sum 0 (ls_environmental_regime_ticks s) = Some r \<and> \<not> ls_survival_ticks s < r)
      \<and> ls_birth_tick s \<le> ls_last_tick s \<and> ls_gpu_throttled_dispatches s \<le> ls_gpu_dispatches s \<and> identity_ok s \<and> means_ok s"
    by (cases "checked_sum 0 (ls_environmental_regime_ticks s)"; cases "ls_death_tick s"; cases "ls_death_reason s")
      (simp_all add: life_validate_def identity_ok_def id_ok guard_ok not_less life_means_ok
        del: check_all_Inr_iff, blast+)
  then show ?thesis unfolding sum life_inv_def clock_ok_def by blast
qed

lemma staged_Inr: "staged r = Inr s \<longleftrightarrow> (\<exists>u. r = (Inr u, s))"
  by (auto simp: staged_def split: prod.splits sum.splits)

lemma mean_observe_Inr:
  "mean_ok m \<Longrightarrow> staged (mean_observe v m) = Inr m' \<Longrightarrow>
     mean_ok m' \<and> (\<forall>xs. holds_samples m xs \<longrightarrow> holds_samples m' (xs @ [v]))"
  using mean_observe_cases [of m v] by (auto simp: staged_Inr)

lemma checked_succ: "checked_add a (if b then 1 else 0) = Some c \<Longrightarrow> unat c = unat a + of_bool b"
  by (auto dest: checked_add_Some)

lemma count_regime_sum:
  assumes "count_regime regime ts = Inr ts'" and "length ts = 6"
  shows "length ts' = 6 \<and> sum_list (map unat ts') \<le> sum_list (map unat ts) + 1"
proof (cases "regime_index regime")
  case None
  then show ?thesis using assms by (simp add: count_regime_def)
next
  case (Some i)
  then obtain v where v: "checked_add (ts ! i) 1 = Some v" "ts' = ts[i := v]"
    using assms(1) by (auto simp: count_regime_def)
  have i: "i < length (map unat ts)" using Some assms(2) by (cases regime) auto
  have v1: "unat v = unat (ts ! i) + 1" using checked_add_Some [OF v(1)] by simp
  have "sum_list (map unat ts') = sum_list ((map unat ts)[i := unat v])" by (simp add: v(2) map_update)
  also have "\<dots> = sum_list (map unat ts) + unat v - map unat ts ! i"
    using i by (simp add: sum_list_update)
  finally show ?thesis using v1 i assms(2) v(2) by simp
qed

lemma survival_step:
  assumes "life_inv s" and "ls_death_tick s = None"
    and "observe_survival tick regime energy movement dispatched throttled s = Inr s'"
  shows "life_inv s' \<and> records [SurvivalTick tick regime energy movement dispatched throttled] s s'
    \<and> ls_death_tick s' = None \<and> unat (ls_survival_ticks s') = unat (ls_survival_ticks s) + 1"
proof -
  let ?s = "\<lambda>n ts atp mv d h. s \<lparr> ls_last_tick := tick, ls_survival_ticks := n, ls_environmental_regime_ticks := ts,
    ls_mean_brain_atp := atp, ls_movement := mv, ls_gpu_dispatches := d, ls_gpu_throttled_dispatches := h \<rparr>"
  obtain n ts atp mv d h where *: "ls_last_tick s < tick" "throttled \<longrightarrow> dispatched"
    "checked_add (ls_survival_ticks s) 1 = Some n" "count_regime regime (ls_environmental_regime_ticks s) = Inr ts"
    "staged (mean_observe energy (ls_mean_brain_atp s)) = Inr atp" "staged (mean_observe movement (ls_movement s)) = Inr mv"
    "checked_add (ls_gpu_dispatches s) (if dispatched then 1 else 0) = Some d"
    "checked_add (ls_gpu_throttled_dispatches s) (if throttled then 1 else 0) = Some h" "s' = ?s n ts atp mv d h"
    using assms(3) unfolding observe_survival_def by (auto simp: not_le simp del: if_split split: if_split_asm)
  have inv: "clock_ok s" "identity_ok s" "means_ok s" using assms(1) by (simp_all add: life_inv_def)
  have atp: "mean_ok atp" "\<And>xs. holds_samples (ls_mean_brain_atp s) xs \<Longrightarrow> holds_samples atp (xs @ [energy])"
    using mean_observe_Inr [OF _ *(5)] inv(3) by (metis means_ok_def mean_field.simps(4))+
  have mv: "mean_ok mv" "\<And>xs. holds_samples (ls_movement s) xs \<Longrightarrow> holds_samples mv (xs @ [movement])"
    using mean_observe_Inr [OF _ *(6)] inv(3) by (metis means_ok_def mean_field.simps(5))+
  have n: "unat n = unat (ls_survival_ticks s) + 1" using checked_add_Some [OF *(3)] by simp
  have "length ts = 6 \<and> sum_list (map unat ts) \<le> sum_list (map unat (ls_environmental_regime_ticks s)) + 1"
    using count_regime_sum [OF *(4)] inv(1) by (simp add: clock_ok_def)
  moreover have "ls_birth_tick s \<le> tick" using inv(1) *(1) by (auto simp: clock_ok_def intro: order.trans less_imp_le)
  moreover have "h \<le> d"
    using inv(1) *(2) checked_succ [OF *(7)] checked_succ [OF *(8)] by (auto simp: clock_ok_def word_le_nat_alt)
  ultimately have "clock_ok s'" using inv(1) n by (simp add: *(9) clock_ok_def)
  moreover have "identity_ok s'" using inv(2) assms(2) by (simp add: *(9) identity_ok_def split: option.splits)
  moreover have "means_ok s'" using inv(3) atp(1) mv(1) by (simp add: *(9) means_ok_def)
  moreover have "records [SurvivalTick tick regime energy movement dispatched throttled] s s'"
    using atp(2) mv(2) by (auto simp: *(9) records_def event_samples_def)
  ultimately show ?thesis using assms(2) n by (simp add: life_inv_def *(9))
qed

section \<open>Every operation\<close>

text \<open>What an accepted operation does: its events, in order, are recorded.\<close>

definition patch_events :: "PatchView \<Rightarrow> PassiveLifeEvent list" where
  "patch_events p = (if pv_consumed p then [FoodOutcome (\<not> patch_harmful p)] else [])
     @ (if pv_action_kind p = Vocalize then [NarrationUtterance] else [])"

fun op_events :: "LifeOp \<Rightarrow> PassiveLifeEvent list" where
  "op_events (ObserveEvent event) = [event]"
| "op_events (ObservePatch p) = patch_events p"
| "op_events (FinalizeLife tick reason) = []"

definition advances :: "PassiveLifeEvent list \<Rightarrow> PassiveLifeStatistics \<Rightarrow> PassiveLifeStatistics \<Rightarrow> bool" where
  "advances events s s' \<longleftrightarrow> life_inv s' \<and> records events s s'
     \<and> unat (ls_survival_ticks s') = unat (ls_survival_ticks s) + length (filter is_survival events)"

lemma advances_trans: "advances es s s' \<Longrightarrow> advances es' s' s'' \<Longrightarrow> advances (es @ es') s s''"
  by (fastforce simp: advances_def records_def)

lemma advances_refl: "life_inv s \<Longrightarrow> advances [] s s"
  by (simp add: advances_def records_def)

lemma harmless_advances:
  assumes "life_inv s" and "harmless events s s'" and "\<forall>e \<in> set events. \<not> is_survival e"
  shows "advances events s s'"
proof -
  have "clock_ok s' \<longleftrightarrow> clock_ok s" "identity_ok s' \<longleftrightarrow> identity_ok s" "ls_survival_ticks s' = ls_survival_ticks s"
    using assms(2) by (simp_all add: harmless_def life_clock_def life_identity_def clock_ok_def identity_ok_def
        split: option.split)
  moreover have "filter is_survival events = []" using assms(3) by (simp add: filter_empty_conv)
  ultimately show ?thesis using assms(1,2) by (simp add: advances_def life_inv_def harmless_def)
qed

lemma observe_outcome:
  assumes "life_inv s"
  shows "(\<exists>e. life_observe event s = (Inl e, s)) \<or> (\<exists>s'. life_observe event s = (Inr (), s') \<and> advances [event] s s')"
proof (cases "ls_death_tick s = None")
  case False
  then show ?thesis by (simp add: life_observe_def)
next
  case True
  show ?thesis
  proof (cases "is_survival event")
    case True
    then obtain t r e m d h where event: "event = SurvivalTick t r e m d h" by (cases event) auto
    show ?thesis
    proof (cases "observe_survival t r e m d h s")
      case (Inl err)
      then show ?thesis by (simp add: life_observe_def event committed_def)
    next
      case (Inr s')
      then show ?thesis using survival_step [OF assms \<open>ls_death_tick s = None\<close> Inr] True
        by (simp add: life_observe_def event advances_def committed_def)
    qed
  next
    case False
    have "means_ok s" using assms by (simp add: life_inv_def)
    then show ?thesis
      using mean_event [OF _ False] harmless_advances [OF assms, of "[event]"] False True
      by (auto simp: life_observe_def)
  qed
qed

lemma staged_observe: "life_inv s \<Longrightarrow> staged (life_observe event s) = Inr s' \<Longrightarrow> advances [event] s s'"
  using observe_outcome [of s event] by (auto simp: staged_Inr)

lemma patch_outcome:
  assumes "life_inv s"
  shows "(\<exists>e. life_observe_patch p s = (Inl e, s)) \<or> (\<exists>s'. life_observe_patch p s = (Inr (), s') \<and> advances (patch_events p) s s')"
proof (cases "patch_stage p s")
  case (Inl e)
  then show ?thesis by (simp add: life_observe_patch_def committed_def)
next
  case (Inr s2)
  let ?eat = "if pv_consumed p then [FoodOutcome (\<not> patch_harmful p)] else []"
  obtain heard s1 where eat: "(if pv_consumed p
             then staged (life_observe (FoodOutcome (\<not> patch_harmful p)) (s \<lparr> ls_heard_token_exposures := heard \<rparr>))
             else Inr (s \<lparr> ls_heard_token_exposures := heard \<rparr>)) = Inr s1"
    and say: "(if pv_action_kind p = Vocalize then staged (life_observe NarrationUtterance s1) else Inr s1) = Inr s2"
    using Inr unfolding patch_stage_def and_then_Inr_iff guard_ok by blast
  let ?s = "s \<lparr> ls_heard_token_exposures := heard \<rparr>"
  have "harmless [] s ?s"
    using assms by (simp add: harmless_def life_inv_def means_ok_def records_def life_clock_def life_identity_def)
  then have heard: "advances [] s ?s" by (rule harmless_advances [OF assms]) simp
  then have "advances ?eat ?s s1"
    using eat staged_observe [of ?s] advances_refl by (auto simp: advances_def split: if_splits)
  then have both: "advances ?eat s s1" using advances_trans [OF heard] by simp
  then have "advances (if pv_action_kind p = Vocalize then [NarrationUtterance] else []) s1 s2"
    using say staged_observe [of s1 NarrationUtterance s2] advances_refl [of s1] by (auto simp: advances_def split: if_splits)
  then have "advances (patch_events p) s s2" unfolding patch_events_def by (rule advances_trans [OF both])
  then show ?thesis using Inr by (simp add: life_observe_patch_def committed_def)
qed

lemma finalize_outcome:
  assumes "life_inv s"
  shows "(\<exists>e. life_finalize tick reason s = (Inl e, s)) \<or> (\<exists>s'. life_finalize tick reason s = (Inr (), s') \<and> advances [] s s')"
proof (cases "ls_death_tick s \<noteq> None \<or> tick < ls_last_tick s \<or> reason_bad reason")
  case True
  then show ?thesis by (simp add: life_finalize_def)
next
  case False
  let ?s = "s \<lparr> ls_death_tick := Some tick, ls_death_reason := Some reason \<rparr>"
  have inv: "life_inv ?s"
    using assms False by (simp add: life_inv_def clock_ok_def identity_ok_def means_ok_def not_less)
  moreover have "records [] s ?s" by (simp add: records_def)
  moreover have "life_validate ?s = Inr ()" using inv unfolding life_validate_iff [symmetric] by blast
  ultimately show ?thesis using False by (simp add: life_finalize_def Let_def advances_def)
qed

lemma life_outcome:
  assumes "life_inv s"
  shows "(\<exists>e. life_step op s = (Inl e, s)) \<or> (\<exists>s'. life_step op s = (Inr (), s') \<and> advances (op_events op) s s')"
  using assms observe_outcome patch_outcome finalize_outcome by (cases op) auto

interpretation life_machine: atomic_machine life_step life_inv
proof
  fix s op
  assume inv: "life_inv s"
  show "life_inv (snd (life_step op s))" using life_outcome [OF inv, of op] inv by (auto simp: advances_def)
  fix e
  assume "fst (life_step op s) = Inl e"
  then show "snd (life_step op s) = s" using life_outcome [OF inv, of op] by auto
qed

lemma life_run:
  "life_inv s \<Longrightarrow> advances (concat (map op_events (accepted_ops life_step ops s))) s (run_ops life_step ops s)"
proof (induction ops arbitrary: s)
  case Nil
  then show ?case by (simp add: advances_refl)
next
  case (Cons op ops)
  from life_outcome [OF Cons.prems, of op] show ?case
  proof
    assume "\<exists>e. life_step op s = (Inl e, s)"
    then show ?thesis using Cons.IH [OF Cons.prems] by auto
  next
    assume "\<exists>s'. life_step op s = (Inr (), s') \<and> advances (op_events op) s s'"
    then obtain s' where s': "life_step op s = (Inr (), s')" "advances (op_events op) s s'" by blast
    then have "life_inv s'" by (simp add: advances_def)
    then show ?thesis using Cons.IH [of s'] s' by (auto intro: advances_trans)
  qed
qed

lemma life_new_inv:
  assumes "life_new organism birth = Inr s"
  shows "life_inv s \<and> ls_survival_ticks s = 0 \<and> (\<forall>k. holds_samples (mean_field k s) [])"
proof -
  have s: "organism \<noteq> 0" "mean_field k s = mean_default" for k
    using assms by (auto simp: life_new_def id_ok; cases k; auto simp: life_new_def id_ok)+
  then show ?thesis
    using assms by (auto simp: life_new_def id_ok life_inv_def clock_ok_def identity_ok_def means_ok_def
        holds_samples_def mean_default_def mean_ok_def)
qed

text \<open>
  The statistics of a life stay valid over any calls, and a rejected event, patch or end leaves
  them exactly as they were.
\<close>

lemma life_stays_valid:
  assumes "life_new organism birth = Inr s0"
  shows "let s = run_ops life_step ops s0 in life_validate s = Inr ()
    \<and> (is_ok (fst (life_step op s)) \<or> snd (life_step op s) = s)"
proof -
  define s where "s = run_ops life_step ops s0"
  have inv: "life_inv s" using life_new_inv [OF assms] life_machine.run_keeps unfolding s_def by blast
  then have "life_validate s = Inr ()" unfolding life_validate_iff [symmetric] by blast
  moreover have "is_ok (fst (life_step op s)) \<or> snd (life_step op s) = s" using life_outcome [OF inv, of op] by auto
  ultimately show ?thesis unfolding Let_def s_def by blast
qed

text \<open>
  C19. Every mean metric is exact: it is the mean, halves rounded up, of the samples that the accepted
  calls brought to it, with their number as its exposures, and the survival counter is the number of
  accepted survival ticks.
\<close>

theorem metrics_are_exact_means:
  assumes "life_new organism birth = Inr s0"
  shows "let s = run_ops life_step ops s0; events = concat (map op_events (accepted_ops life_step ops s0)) in
    (k \<notin> {SurvivalTicks, GpuThrottleAvoidance} \<longrightarrow>
      life_metric k s = exact_reading (concat (map (event_samples k) events)))
    \<and> unat (ls_survival_ticks s) = length (filter is_survival events)"
proof -
  let ?s = "run_ops life_step ops s0" and ?events = "concat (map op_events (accepted_ops life_step ops s0))"
  have adv: "advances ?events s0 ?s" using life_new_inv [OF assms] life_run by blast
  then have "holds_samples (mean_field k ?s) ([] @ concat (map (event_samples k) ?events))"
    using life_new_inv [OF assms] unfolding advances_def records_def by blast
  then have "mean_reading (mean_field k ?s) = exact_reading (concat (map (event_samples k) ?events))"
    by (simp add: mean_reading_exact)
  moreover have "k \<notin> {SurvivalTicks, GpuThrottleAvoidance} \<Longrightarrow> life_metric k ?s = mean_reading (mean_field k ?s)"
    by (cases k) simp_all
  ultimately show ?thesis using adv life_new_inv [OF assms] unfolding Let_def by (simp add: advances_def)
qed

text \<open>
  A finalized life is closed: whatever is called afterwards fails and changes nothing.
\<close>

lemma finalized_life_is_closed:
  assumes "fst (life_finalize tick reason s) = Inr ()"
  shows "run_ops life_step ops (snd (life_finalize tick reason s)) = snd (life_finalize tick reason s)
    \<and> accepted_ops life_step ops (snd (life_finalize tick reason s)) = []"
proof -
  have closed: "life_step op s1 = (Inl (projl (fst (life_step op s1))), s1)" if "ls_death_tick s1 \<noteq> None" for op s1
    using that by (cases op) (auto simp: life_observe_def life_observe_patch_def committed_def patch_stage_def life_finalize_def
        and_then_def split: sum.splits)
  have "run_ops life_step ops s1 = s1 \<and> accepted_ops life_step ops s1 = []" if ended: "ls_death_tick s1 \<noteq> None" for s1
  proof (induction ops)
    case (Cons op ops)
    obtain e where "life_step op s1 = (Inl e, s1)" using closed [OF ended, of op] by metis
    then show ?case using Cons.IH by simp
  qed simp
  moreover have "ls_death_tick (snd (life_finalize tick reason s)) \<noteq> None"
    using assms by (auto simp: life_finalize_def Let_def split: if_splits)
  ultimately show ?thesis by blast
qed

section \<open>Witnesses\<close>


text \<open>A life of organism 7, born at tick 3: one meal, one lived tick, and its end.\<close>

definition ex_life :: PassiveLifeStatistics where
  "ex_life = projr (life_new 7 3)"

definition ex_life_ops :: "LifeOp list" where
  "ex_life_ops = [ObserveEvent (FoodOutcome True), ObserveEvent (SurvivalTick 4 Temperate 100 50 True False),
     ObserveEvent (FoodOutcome False)]"

lemma ex_life: "life_new 7 3 = Inr ex_life"
  by (simp add: ex_life_def life_new_def id_validate_def id_is_valid_def and_then_def)

lemma six_zeros: "replicate 6 x = [x, x, x, x, x, x]"
  by (simp add: numeral_eq_Suc)

lemma life_stays_valid_witness:
  "life_validate (run_ops life_step ex_life_ops ex_life) = Inr ()"
  using life_stays_valid [OF ex_life, of ex_life_ops "ObserveEvent NarrationUtterance"] unfolding Let_def by blast

lemma metrics_are_exact_means_witness:
  "life_metric FoodSuccess (run_ops life_step ex_life_ops ex_life)
     = exact_reading (concat (map (event_samples FoodSuccess)
         (concat (map op_events (accepted_ops life_step ex_life_ops ex_life)))))"
  using metrics_are_exact_means [OF ex_life, of ex_life_ops FoodSuccess] unfolding Let_def by simp

lemma finalized_life_is_closed_witness:
  "accepted_ops life_step ex_life_ops (snd (life_finalize 9 [97, 103, 101] ex_life)) = []"
proof -
  have "fst (life_finalize 9 [97, 103, 101] ex_life) = Inr ()"
    by (simp add: ex_life_def life_finalize_def life_new_def id_validate_def id_is_valid_def and_then_def reason_bad_def trim_is_empty_def
        char_is_whitespace_def Let_def life_validate_def life_means_def mean_validate_def mean_default_def ok_or_def
        PASSIVE_LIFE_STATISTICS_SCHEMA_VERSION_def six_zeros checked_add_def saturating_mul_def)
  then show ?thesis using finalized_life_is_closed [of 9 "[97, 103, 101]" ex_life ex_life_ops] by blast
qed

end
