(* ===== verification/Ring_Buffers.thy ===== *)
theory Ring_Buffers
  imports Contracts
begin

text \<open>
  Indexing that can panic, and bounded queues. \<open>xs[i]\<close> past the end is a panic, an error that no
  caller handles; \<open>xs.get(a..b)\<close> is an option. The locale \<open>bounded_queue\<close> is the contract of a buffer
  that keeps the last items pushed into it; the ring lemmas discharge its law for a vector with a
  write cursor.
\<close>

section \<open>Panics\<close>

datatype 'e fault = Panics | Fails 'e

definition may_fail :: "'e + 'a \<Rightarrow> 'e fault + 'a" where
  "may_fail r = (case r of Inl e \<Rightarrow> Inl (Fails e) | Inr a \<Rightarrow> Inr a)"

definition elem_at :: "'a list \<Rightarrow> nat \<Rightarrow> 'e fault + 'a" where
  "elem_at xs i = (if i < length xs then Inr (xs ! i) else Inl Panics)"

definition assign_at :: "'a list \<Rightarrow> nat \<Rightarrow> 'a \<Rightarrow> 'e fault + 'a list" where
  "assign_at xs i v = (if i < length xs then Inr (xs[i := v]) else Inl Panics)"

definition get_range :: "'a list \<Rightarrow> nat \<Rightarrow> nat \<Rightarrow> 'a list option" where
  "get_range xs a b = (if a \<le> b \<and> b \<le> length xs then Some (take (b - a) (drop a xs)) else None)"

lemma may_fail_simps [simp]: "may_fail (Inl e) = Inl (Fails e)" "may_fail (Inr a) = Inr a"
  by (simp_all add: may_fail_def)

lemma may_fail_Inr_iff [simp]: "may_fail r = Inr a \<longleftrightarrow> r = Inr a"
  by (cases r) simp_all

lemma may_fail_not_panics [simp]: "may_fail r \<noteq> Inl Panics"
  by (cases r) simp_all

lemma elem_at_Inr [simp]: "i < length xs \<Longrightarrow> elem_at xs i = Inr (xs ! i)"
  by (simp add: elem_at_def)

lemma assign_at_Inr [simp]: "i < length xs \<Longrightarrow> assign_at xs i v = Inr (xs[i := v])"
  by (simp add: assign_at_def)

text \<open>\<open>for x in xs { state = f(x, state)?; }\<close>.\<close>

fun try_fold :: "('a \<Rightarrow> 's \<Rightarrow> 'e + 's) \<Rightarrow> 'a list \<Rightarrow> 's \<Rightarrow> 'e + 's" where
  "try_fold f [] s = Inr s"
| "try_fold f (x # xs) s = and_then (f x s) (try_fold f xs)"

lemma try_fold_append: "try_fold f (xs @ ys) s = and_then (try_fold f xs s) (try_fold f ys)"
  by (induction xs arbitrary: s) (auto simp: and_then_def split: sum.splits)

text \<open>An invariant of such a loop, over the elements it has taken.\<close>

lemma try_fold_invariant:
  assumes "try_fold f xs s = Inr s'" and "P [] s"
    and step: "\<And>ys x zs t t'. xs = ys @ x # zs \<Longrightarrow> P ys t \<Longrightarrow> f x t = Inr t' \<Longrightarrow> P (ys @ [x]) t'"
  shows "P xs s'"
proof -
  have "try_fold f zs t = Inr s' \<Longrightarrow> P ys t \<Longrightarrow> xs = ys @ zs \<Longrightarrow> P xs s'" for ys zs t
  proof (induction zs arbitrary: ys t)
    case (Cons z zs)
    then obtain t' where "f z t = Inr t'" "try_fold f zs t' = Inr s'" by auto
    then show ?case using Cons.IH [of t' "ys @ [z]"] Cons.prems step by simp
  qed simp
  then show ?thesis using assms(1,2) by blast
qed

text \<open>Results that are not a panic.\<close>

definition panic_free :: "'e fault + 'a \<Rightarrow> bool" where
  "panic_free r \<longleftrightarrow> r \<noteq> Inl Panics"

lemma panic_free_intros:
  "panic_free (Inr a)" "panic_free (Inl (Fails e))" "panic_free (may_fail q)" "panic_free (ok_or (Fails e) v)"
  "panic_free r \<Longrightarrow> (\<And>a. r = Inr a \<Longrightarrow> panic_free (f a)) \<Longrightarrow> panic_free (and_then r f)"
  "(b \<Longrightarrow> panic_free r) \<Longrightarrow> (\<not> b \<Longrightarrow> panic_free r') \<Longrightarrow> panic_free (if b then r else r')"
  by (auto simp: panic_free_def and_then_def ok_or_def split: sum.splits option.splits)

lemma panic_free_try_fold:
  "(\<And>x s. x \<in> set xs \<Longrightarrow> panic_free (f x s)) \<Longrightarrow> panic_free (try_fold f xs s)"
proof (induction xs arbitrary: s)
  case (Cons x xs)
  then have "panic_free (f x s)" "\<And>s'. panic_free (try_fold f xs s')" by simp_all
  then show ?case by (simp add: panic_free_intros(5))
qed (simp add: panic_free_intros)

section \<open>The order of a ring\<close>

text \<open>The slots of a ring of \<open>capacity\<close> slots, oldest first.\<close>

definition ring_order :: "nat \<Rightarrow> nat \<Rightarrow> nat \<Rightarrow> nat list" where
  "ring_order capacity cursor count =
     map (\<lambda>offset. ((if count = capacity then cursor else 0) + offset) mod capacity) [0..<count]"

definition ring_ok :: "nat \<Rightarrow> nat \<Rightarrow> nat \<Rightarrow> bool" where
  "ring_ok capacity cursor count \<longleftrightarrow>
     0 < capacity \<and> count \<le> capacity \<and> cursor < capacity \<and> (count < capacity \<longrightarrow> cursor = count)"

definition last_items :: "nat \<Rightarrow> 'a list \<Rightarrow> 'a list" where
  "last_items k xs = drop (length xs - k) xs"

lemma length_ring_order [simp]: "length (ring_order capacity cursor count) = count"
  by (simp add: ring_order_def)

lemma ring_order_bound: "0 < capacity \<Longrightarrow> i \<in> set (ring_order capacity cursor count) \<Longrightarrow> i < capacity"
  by (auto simp: ring_order_def)

lemma ring_order_notfull: "count < capacity \<Longrightarrow> ring_order capacity cursor count = [0..<count]"
  by (rule nth_equalityI) (simp_all add: ring_order_def)

lemma ring_order_full:
  assumes "cursor < capacity"
  shows "ring_order capacity cursor capacity = [cursor..<capacity] @ [0..<cursor]"
proof (rule nth_equalityI)
  show "length (ring_order capacity cursor capacity) = length ([cursor..<capacity] @ [0..<cursor])"
    using assms by simp
next
  fix i assume "i < length (ring_order capacity cursor capacity)"
  then have i: "i < capacity" by simp
  show "ring_order capacity cursor capacity ! i = ([cursor..<capacity] @ [0..<cursor]) ! i"
  proof (cases "cursor + i < capacity")
    case True
    then have "i < capacity - cursor" by simp
    then show ?thesis using i assms True by (simp add: ring_order_def nth_append)
  next
    case False
    then have "(cursor + i) mod capacity = cursor + i - capacity"
      using assms i by (simp add: mod_if)
    moreover have "\<not> i < capacity - cursor" "i - (capacity - cursor) = cursor + i - capacity"
      using False assms by auto
    ultimately show ?thesis using i assms by (simp add: ring_order_def nth_append)
  qed
qed

lemma ring_order_distinct:
  assumes "ring_ok capacity cursor count"
  shows "distinct (ring_order capacity cursor count)"
  using assms by (cases "count = capacity")
    (auto simp: ring_ok_def ring_order_full ring_order_notfull le_less)

text \<open>One slot is written and the cursor moves on: the oldest item goes once the ring is full.\<close>

lemma ring_push:
  assumes "ring_ok capacity cursor count"
  shows "map (f(cursor := x)) (ring_order capacity ((cursor + 1) mod capacity) (min (count + 1) capacity))
    = last_items capacity (map f (ring_order capacity cursor count) @ [x])"
    and "ring_ok capacity ((cursor + 1) mod capacity) (min (count + 1) capacity)"
proof -
  have same: "map (f(cursor := x)) is = map f is" if "cursor \<notin> set is" for "is"
    using that by (induction "is") auto
  show "ring_ok capacity ((cursor + 1) mod capacity) (min (count + 1) capacity)"
    using assms by (auto simp: ring_ok_def mod_Suc)
  have "count + 1 < capacity \<or> count + 1 = capacity \<or> count = capacity"
    using assms by (auto simp: ring_ok_def)
  then consider "count + 1 < capacity" | "count + 1 = capacity" | "count = capacity" by blast
  then show "map (f(cursor := x)) (ring_order capacity ((cursor + 1) mod capacity) (min (count + 1) capacity))
    = last_items capacity (map f (ring_order capacity cursor count) @ [x])"
  proof cases
    case 1
    then have "cursor = count" using assms by (simp add: ring_ok_def)
    then show ?thesis using 1 by (simp add: ring_order_notfull last_items_def same)
  next
    case 2
    then have c: "cursor = count" using assms by (simp add: ring_ok_def)
    have "ring_order capacity 0 capacity = [0..<count] @ [count]"
      using 2 assms by (simp add: ring_ok_def ring_order_full upt_Suc flip: 2)
    then show ?thesis using 2 c by (simp add: ring_order_notfull last_items_def same flip: 2)
  next
    case 3
    then have c: "cursor < capacity" using assms by (simp add: ring_ok_def)
    have old: "ring_order capacity cursor capacity = cursor # [Suc cursor..<capacity] @ [0..<cursor]"
      using c by (simp add: ring_order_full upt_conv_Cons)
    have new: "ring_order capacity (Suc cursor mod capacity) capacity = [Suc cursor..<capacity] @ [0..<cursor] @ [cursor]"
    proof (cases "Suc cursor = capacity")
      case True
      have "ring_order capacity 0 capacity = [0..<cursor] @ [cursor]"
        using ring_order_full [of 0 capacity] c upt_Suc_append [of 0 cursor] unfolding True by simp
      then show ?thesis using True by simp
    next
      case False
      then have "Suc cursor < capacity" using c by simp
      then show ?thesis by (simp add: ring_order_full)
    qed
    have "last_items capacity (map f (ring_order capacity cursor capacity) @ [x])
      = map f ([Suc cursor..<capacity] @ [0..<cursor]) @ [x]"
      using c by (simp add: old last_items_def)
    moreover have "min (count + 1) capacity = capacity" using 3 by simp
    ultimately show ?thesis unfolding 3 by (simp add: new same)
  qed
qed

section \<open>Buffers that keep the last items\<close>

lemma length_last_items: "length (last_items k xs) = min k (length xs)"
  by (simp add: last_items_def)

lemma last_items_last_items: "last_items k (last_items k xs @ ys) = last_items k (xs @ ys)"
proof (cases "length xs \<le> k")
  case False
  let ?d = "length xs - k"
  have "last_items k xs @ ys = drop ?d (xs @ ys)" by (simp add: last_items_def)
  moreover have "length (xs @ ys) - ?d - k + ?d = length (xs @ ys) - k" using False by simp
  ultimately show ?thesis by (simp add: last_items_def)
qed (simp add: last_items_def)

locale bounded_queue = atomic_machine step inv
  for step :: "'op \<Rightarrow> 's \<Rightarrow> ('e, 'a, 's) outcome" and inv :: "'s \<Rightarrow> bool" +
  fixes items :: "'s \<Rightarrow> 'i list" and limit :: "'s \<Rightarrow> nat" and item_of :: "'op \<Rightarrow> 'i"
  assumes push_appends:
    "inv s \<Longrightarrow> is_ok (fst (step c s)) \<Longrightarrow> items (snd (step c s)) = last_items (limit s) (items s @ [item_of c])"
    and limit_fixed: "inv s \<Longrightarrow> limit (snd (step c s)) = limit s"
    and items_bounded: "inv s \<Longrightarrow> length (items s) \<le> limit s"
begin

lemma holds_last_items:
  "inv s \<Longrightarrow> items (run_ops step cs s) = last_items (limit s) (items s @ map item_of (accepted_ops step cs s))"
proof (induction cs arbitrary: s)
  case Nil
  then show ?case using items_bounded by (simp add: last_items_def)
next
  case (Cons c cs)
  let ?s = "snd (step c s)"
  have IH: "items (run_ops step cs ?s) = last_items (limit s) (items ?s @ map item_of (accepted_ops step cs ?s))"
    using Cons step_keeps limit_fixed by simp
  show ?case
  proof (cases "fst (step c s)")
    case (Inl e)
    then have "?s = s" using failure_keeps Cons.prems by blast
    then show ?thesis using Inl IH by simp
  next
    case (Inr a)
    then have "items ?s = last_items (limit s) (items s @ [item_of c])"
      using push_appends Cons.prems by simp
    then show ?thesis using Inr IH by (simp add: last_items_last_items)
  qed
qed

end

end
