(* ===== verification/Learning.thy ===== *)
theory Learning
  imports Ring_Buffers F32_Arith
begin

text \<open>
  \<open>crates/alife_core/src/learning.rs\<close>: the bounded outcome evidence (a frame of eight lanes and its
  compatibility sample), and the guard that commits every learning sequence of an organism at most
  once. A commit token is data here: any token can be presented at any time, as a stale one can.
\<close>

section \<open>Outcome evidence\<close>

definition NEUROMODULATORY_LANE_COUNT :: nat where "NEUROMODULATORY_LANE_COUNT = 8"

type_synonym NeuromodulatoryFrame = "f32 list"

definition frame_try_new :: "f32 list \<Rightarrow> NeuromodulatoryFrame contract" where
  "frame_try_new lanes =
     (if list_ex (\<lambda>v. \<not> f32_is_finite v) lanes then Inl NonFiniteFloat
      else if list_ex (\<lambda>v. \<not> f32_in_range f32_minus_one f32_one v) lanes then Inl ScalarOutOfRange
      else Inr lanes)"

record NeuromodulatorSample =
  nm_prediction_residual :: f32
  nm_pain :: f32
  nm_homeostatic_improvement :: f32
  nm_frustration :: f32
  nm_novelty :: f32
  nm_frame :: NeuromodulatoryFrame

definition sample_from_frame :: "NeuromodulatoryFrame \<Rightarrow> NeuromodulatorSample" where
  "sample_from_frame lanes = \<lparr>
     nm_prediction_residual = lanes ! 0, nm_pain = lanes ! 1, nm_homeostatic_improvement = lanes ! 2,
     nm_frustration = lanes ! 3, nm_novelty = lanes ! 4, nm_frame = lanes \<rparr>"

definition sample_from_components ::
  "f32 \<Rightarrow> f32 \<Rightarrow> f32 \<Rightarrow> f32 \<Rightarrow> f32 \<Rightarrow> NeuromodulatorSample contract" where
  "sample_from_components residual pain improvement frustration novelty =
     and_then (frame_try_new [residual, pain, improvement, frustration, novelty, f32_zero, f32_zero, f32_zero])
       (\<lambda>frame. Inr (sample_from_frame frame))"

text \<open>
  The wire form has the fields of the record; the five components must be bit-equal to the lanes.
  \<open>None\<close> is a rejected input.
\<close>

definition sample_deserialize :: "NeuromodulatorSample \<Rightarrow> NeuromodulatorSample option" where
  "sample_deserialize wire =
     (case frame_try_new (nm_frame wire) of
        Inl _ \<Rightarrow> None
      | Inr frame \<Rightarrow>
          let s = sample_from_frame frame
          in if nm_prediction_residual s = nm_prediction_residual wire \<and> nm_pain s = nm_pain wire
               \<and> nm_homeostatic_improvement s = nm_homeostatic_improvement wire
               \<and> nm_frustration s = nm_frustration wire \<and> nm_novelty s = nm_novelty wire
             then Some s else None)"

definition frame_ok :: "NeuromodulatoryFrame \<Rightarrow> bool" where
  "frame_ok lanes \<longleftrightarrow> length lanes = NEUROMODULATORY_LANE_COUNT
     \<and> list_all (\<lambda>v. f32_is_finite v \<and> f32_in_range f32_minus_one f32_one v) lanes"

definition sample_ok :: "NeuromodulatorSample \<Rightarrow> bool" where
  "sample_ok s \<longleftrightarrow> frame_ok (nm_frame s) \<and> s = sample_from_frame (nm_frame s)"

lemma frame_try_new_Inr_iff [simp]:
  "frame_try_new lanes = Inr frame \<longleftrightarrow>
     frame = lanes \<and> list_all (\<lambda>v. f32_is_finite v \<and> f32_in_range f32_minus_one f32_one v) lanes"
  by (auto simp: frame_try_new_def list_ex_iff list_all_iff)

lemma sample_from_frame_simps [simp]:
  "nm_frame (sample_from_frame lanes) = lanes" "nm_prediction_residual (sample_from_frame lanes) = lanes ! 0"
  "nm_pain (sample_from_frame lanes) = lanes ! 1" "nm_homeostatic_improvement (sample_from_frame lanes) = lanes ! 2"
  "nm_frustration (sample_from_frame lanes) = lanes ! 3" "nm_novelty (sample_from_frame lanes) = lanes ! 4"
  by (simp_all add: sample_from_frame_def)

lemma sample_from_components_ok: "sample_from_components r p i f n = Inr s \<Longrightarrow> sample_ok s"
  by (auto simp: sample_from_components_def sample_ok_def frame_ok_def NEUROMODULATORY_LANE_COUNT_def)

lemma sample_deserialize_ok:
  "sample_deserialize wire = Some s \<Longrightarrow> length (nm_frame wire) = NEUROMODULATORY_LANE_COUNT \<Longrightarrow> sample_ok s \<and> s = wire"
  by (auto simp: sample_deserialize_def Let_def sample_ok_def frame_ok_def split: sum.splits if_splits)

lemma sample_ok_deserializes: "sample_ok s \<Longrightarrow> sample_deserialize s = Some s"
proof -
  assume ok: "sample_ok s"
  then have "frame_try_new (nm_frame s) = Inr (nm_frame s)" by (simp add: sample_ok_def frame_ok_def)
  moreover have "sample_from_frame (nm_frame s) = s" using ok by (simp add: sample_ok_def)
  ultimately show ?thesis by (simp add: sample_deserialize_def del: frame_try_new_Inr_iff)
qed

section \<open>The sequence guard\<close>

record OutcomeCreditReplayKey =
  rk_organism_id :: u64
  rk_phenotype_hash :: "u64 \<times> u64 \<times> u64 \<times> u64"
  rk_sequence_id :: u64

record LearningCommitToken =
  ct_expected_previous :: "OutcomeCreditReplayKey option"
  ct_next :: OutcomeCreditReplayKey

record LearningSequenceGuard =
  lg_organism_id :: u64
  lg_phenotype_hash :: "u64 \<times> u64 \<times> u64 \<times> u64"
  lg_last_committed :: "OutcomeCreditReplayKey option"

definition guard_new :: "u64 \<Rightarrow> (u64 \<times> u64 \<times> u64 \<times> u64) \<Rightarrow> LearningSequenceGuard" where
  "guard_new organism phenotype = \<lparr> lg_organism_id = organism, lg_phenotype_hash = phenotype, lg_last_committed = None \<rparr>"

definition guard_restore_validated ::
  "u64 \<Rightarrow> (u64 \<times> u64 \<times> u64 \<times> u64) \<Rightarrow> OutcomeCreditReplayKey option \<Rightarrow> LearningSequenceGuard contract" where
  "guard_restore_validated organism phenotype last_committed =
     and_then (id_validate organism) (\<lambda>_.
     and_then (case last_committed of None \<Rightarrow> Inr () | Some k \<Rightarrow>
         and_then (id_validate (rk_sequence_id k)) (\<lambda>_.
           if rk_organism_id k \<noteq> organism \<or> rk_phenotype_hash k \<noteq> phenotype
           then Inl LearningEvidenceMismatch else Inr ())) (\<lambda>_.
       Inr \<lparr> lg_organism_id = organism, lg_phenotype_hash = phenotype, lg_last_committed = last_committed \<rparr>))"

text \<open>\<open>is_some_and\<close>, and the replay test shared by the preflight and the commit.\<close>

definition is_some_and :: "('a \<Rightarrow> bool) \<Rightarrow> 'a option \<Rightarrow> bool" where
  "is_some_and p v = (case v of None \<Rightarrow> False | Some a \<Rightarrow> p a)"

definition already_committed :: "LearningSequenceGuard \<Rightarrow> OutcomeCreditReplayKey \<Rightarrow> bool" where
  "already_committed g k \<longleftrightarrow> is_some_and (\<lambda>prev. rk_sequence_id k \<le> rk_sequence_id prev) (lg_last_committed g)"

definition rebind_phenotype ::
  "(u64 \<times> u64 \<times> u64 \<times> u64) \<Rightarrow> (u64 \<times> u64 \<times> u64 \<times> u64) \<Rightarrow> LearningSequenceGuard
   \<Rightarrow> (ScaffoldContractError, unit, LearningSequenceGuard) outcome" where
  "rebind_phenotype expected new_hash g =
     (case id_validate (lg_organism_id g) of Inl e \<Rightarrow> (Inl e, g) | Inr _ \<Rightarrow>
        if lg_phenotype_hash g \<noteq> expected \<or> new_hash = (0, 0, 0, 0)
          \<or> is_some_and (\<lambda>prev. rk_organism_id prev \<noteq> lg_organism_id g \<or> rk_phenotype_hash prev \<noteq> expected)
              (lg_last_committed g)
        then (Inl LearningEvidenceMismatch, g)
        else (Inr (), g \<lparr>
          lg_last_committed := map_option (\<lambda>prev. prev \<lparr> rk_phenotype_hash := new_hash \<rparr>) (lg_last_committed g),
          lg_phenotype_hash := new_hash \<rparr>))"

definition validate_next :: "OutcomeCreditReplayKey \<Rightarrow> LearningSequenceGuard \<Rightarrow> LearningCommitToken contract" where
  "validate_next k g =
     and_then (id_validate (lg_organism_id g)) (\<lambda>_.
     and_then (id_validate (rk_organism_id k)) (\<lambda>_.
     and_then (id_validate (rk_sequence_id k)) (\<lambda>_.
       if rk_organism_id k \<noteq> lg_organism_id g \<or> rk_phenotype_hash k \<noteq> lg_phenotype_hash g
       then Inl LearningEvidenceMismatch
       else if already_committed g k then Inl LearningReplayRejected
       else Inr \<lparr> ct_expected_previous = lg_last_committed g, ct_next = k \<rparr>)))"

definition commit_validated ::
  "LearningCommitToken \<Rightarrow> LearningSequenceGuard \<Rightarrow> (ScaffoldContractError, unit, LearningSequenceGuard) outcome" where
  "commit_validated t g =
     (if ct_expected_previous t \<noteq> lg_last_committed g \<or> rk_organism_id (ct_next t) \<noteq> lg_organism_id g
        \<or> rk_phenotype_hash (ct_next t) \<noteq> lg_phenotype_hash g \<or> already_committed g (ct_next t)
      then (Inl LearningReplayRejected, g)
      else case id_validate (rk_sequence_id (ct_next t)) of Inl e \<Rightarrow> (Inl e, g) | Inr _ \<Rightarrow>
        (Inr (), g \<lparr> lg_last_committed := Some (ct_next t) \<rparr>))"

datatype GuardOp = CommitLearning LearningCommitToken | RebindPhenotype "u64 \<times> u64 \<times> u64 \<times> u64" "u64 \<times> u64 \<times> u64 \<times> u64"

fun guard_step :: "GuardOp \<Rightarrow> LearningSequenceGuard \<Rightarrow> (ScaffoldContractError, unit, LearningSequenceGuard) outcome" where
  "guard_step (CommitLearning t) g = commit_validated t g"
| "guard_step (RebindPhenotype expected new_hash) g = rebind_phenotype expected new_hash g"

section \<open>Every sequence is committed once\<close>

definition guard_inv :: "LearningSequenceGuard \<Rightarrow> bool" where
  "guard_inv g \<longleftrightarrow> (case lg_last_committed g of None \<Rightarrow> True | Some k \<Rightarrow>
     rk_sequence_id k \<noteq> 0 \<and> rk_organism_id k = lg_organism_id g \<and> rk_phenotype_hash k = lg_phenotype_hash g)"

text \<open>The replay cursor: the sequence committed last, 0 when there is none.\<close>

definition guard_cursor :: "LearningSequenceGuard \<Rightarrow> u64" where
  "guard_cursor g = (case lg_last_committed g of None \<Rightarrow> 0 | Some k \<Rightarrow> rk_sequence_id k)"

lemma guard_step_keeps: "guard_inv g \<Longrightarrow> guard_inv (snd (guard_step op g))"
  by (cases op) (auto simp: guard_inv_def commit_validated_def rebind_phenotype_def is_some_and_def
      split: option.splits sum.splits)

lemma guard_step_failure: "fst (guard_step op g) = Inl e \<Longrightarrow> snd (guard_step op g) = g"
  by (cases op) (auto simp: commit_validated_def rebind_phenotype_def id_validate_def split: sum.splits if_splits)

lemma guard_step_raises: "guard_cursor g \<le> guard_cursor (snd (guard_step op g))"
  by (cases op) (auto simp: guard_cursor_def commit_validated_def rebind_phenotype_def already_committed_def
      is_some_and_def split: option.splits sum.splits)

interpretation guard_machine: atomic_machine guard_step guard_inv
  by unfold_locales (auto intro: guard_step_keeps guard_step_failure)

interpretation guard_ratchet: ratchet_machine guard_step guard_inv guard_cursor
  by unfold_locales (rule guard_step_raises)

text \<open>The sequences of the accepted commits of a run.\<close>

definition committed_sequences :: "GuardOp list \<Rightarrow> LearningSequenceGuard \<Rightarrow> u64 list" where
  "committed_sequences ops g =
     concat (map (\<lambda>op. case op of CommitLearning t \<Rightarrow> [rk_sequence_id (ct_next t)] | _ \<Rightarrow> [])
       (accepted_ops guard_step ops g))"

lemma commit_moves_cursor:
  assumes "is_ok (fst (commit_validated t g))"
  shows "guard_cursor g < rk_sequence_id (ct_next t)"
    and "guard_cursor (snd (commit_validated t g)) = rk_sequence_id (ct_next t)"
  using assms by (auto simp: commit_validated_def guard_cursor_def already_committed_def is_some_and_def
      id_validate_def id_is_valid_def not_le word_neq_0_conv split: if_splits option.splits)

lemma rebind_keeps_cursor: "guard_cursor (snd (rebind_phenotype e h g)) = guard_cursor g"
  by (auto simp: rebind_phenotype_def guard_cursor_def split: sum.splits option.splits)

lemma committed_sequences_sorted:
  "sorted_wrt (<) (guard_cursor g # committed_sequences ops g)
   \<and> guard_cursor (run_ops guard_step ops g) = last (guard_cursor g # committed_sequences ops g)"
proof (induction ops arbitrary: g)
  case Nil
  show ?case by (simp add: committed_sequences_def)
next
  case (Cons op ops)
  let ?g = "snd (guard_step op g)"
  have IH: "sorted_wrt (<) (guard_cursor ?g # committed_sequences ops ?g)"
    "guard_cursor (run_ops guard_step ops ?g) = last (guard_cursor ?g # committed_sequences ops ?g)"
    using Cons.IH [of ?g] by blast+
  consider t where "op = CommitLearning t" "is_ok (fst (commit_validated t g))"
    | "committed_sequences (op # ops) g = committed_sequences ops ?g" "guard_cursor ?g = guard_cursor g"
  proof (cases "is_ok (fst (guard_step op g))")
    case True
    then show thesis using that by (cases op) (auto simp: committed_sequences_def rebind_keeps_cursor)
  next
    case False
    then have "?g = g" using guard_step_failure by (cases "fst (guard_step op g)") auto
    then show thesis using that False by (simp add: committed_sequences_def)
  qed
  then show ?case
  proof cases
    case 1
    note moves = commit_moves_cursor [OF 1(2)]
    have "committed_sequences (op # ops) g = rk_sequence_id (ct_next t) # committed_sequences ops ?g"
      using 1 by (simp add: committed_sequences_def)
    then show ?thesis using IH moves 1 by (auto intro: less_trans)
  next
    case 2
    then show ?thesis using IH by simp
  qed
qed

text \<open>
  C20. Whatever tokens are presented to a guard, fresh, stale or of another guard, and however often
  its phenotype is rebound in between, the sequences it commits are strictly increasing from the one
  it was restored with: no learning sequence is applied twice. Its cursor is the last of them.
\<close>

theorem learning_committed_once:
  assumes "guard_restore_validated organism phenotype last_committed = Inr g"
  shows "sorted_wrt (<) (guard_cursor g # committed_sequences ops g)
    \<and> distinct (committed_sequences ops g) \<and> 0 \<notin> set (committed_sequences ops g)
    \<and> guard_cursor (run_ops guard_step ops g) = last (guard_cursor g # committed_sequences ops g)
    \<and> guard_inv (run_ops guard_step ops g)"
proof -
  have inv: "guard_inv g"
    using assms by (auto simp: guard_restore_validated_def guard_inv_def split: option.splits if_splits)
  have "sorted_wrt (<) (guard_cursor g # committed_sequences ops g)" using committed_sequences_sorted by blast
  then have "distinct (committed_sequences ops g)" "0 \<notin> set (committed_sequences ops g)"
    by (auto simp: strict_sorted_iff)
  then show ?thesis using committed_sequences_sorted [of g ops] guard_machine.run_keeps [OF inv] by blast
qed

text \<open>
  The preflight and the commit agree: a key passes the preflight exactly when it belongs to the
  guard and lies after the cursor, and its token is then accepted on that guard and on no guard that
  has committed anything since.
\<close>

lemma preflight_decides_commit:
  assumes "lg_organism_id g \<noteq> 0"
  shows "(is_ok (validate_next k g) \<longleftrightarrow> rk_organism_id k = lg_organism_id g
        \<and> rk_phenotype_hash k = lg_phenotype_hash g \<and> guard_cursor g < rk_sequence_id k)
    \<and> (validate_next k g = Inr t \<longrightarrow> commit_validated t g = (Inr (), g \<lparr> lg_last_committed := Some k \<rparr>)
        \<and> (\<forall>g'. lg_last_committed g' \<noteq> lg_last_committed g \<longrightarrow> commit_validated t g' = (Inl LearningReplayRejected, g')))"
proof -
  have "is_ok (validate_next k g) \<longleftrightarrow> rk_organism_id k = lg_organism_id g
        \<and> rk_phenotype_hash k = lg_phenotype_hash g \<and> guard_cursor g < rk_sequence_id k"
    using assms by (auto simp: validate_next_def is_ok_iff already_committed_def is_some_and_def guard_cursor_def
        not_le word_neq_0_conv word_less_nat_alt word_le_nat_alt split: option.splits)
  moreover have "commit_validated t g = (Inr (), g \<lparr> lg_last_committed := Some k \<rparr>)
      \<and> (\<forall>g'. lg_last_committed g' \<noteq> lg_last_committed g \<longrightarrow> commit_validated t g' = (Inl LearningReplayRejected, g'))"
    if ok: "validate_next k g = Inr t"
    using ok by (auto simp: validate_next_def commit_validated_def id_validate_nonzero split: if_splits)
  ultimately show ?thesis by blast
qed

end
