(* ===== verification/Replay.thy ===== *)
theory Replay
  imports Learning Digest
begin

text \<open>
  \<open>crates/alife_core/src/sleep/replay.rs\<close> with \<open>ReplayCapturePlan\<close> of \<open>phenotype/learning.rs\<close> and
  \<open>CandidateActionFamily\<close> of \<open>perception.rs\<close>: waking experience is captured in a ring of events and
  of quantized eligibilities, one slot per captured synapse and event, and sleep takes it out as a
  batch in the order of the events. Indexing is checked: \<open>Panics\<close> is an index out of range.
\<close>

section \<open>Action families\<close>

datatype CandidateActionFamily =
  FamilyIdle | FamilyRest | FamilyInspect | FamilyApproach | FamilyAvoid | FamilyContact | FamilyIngest | FamilyOther

definition FAMILIES :: "CandidateActionFamily list" where
  "FAMILIES = [FamilyIdle, FamilyRest, FamilyInspect, FamilyApproach, FamilyAvoid, FamilyContact, FamilyIngest, FamilyOther]"

fun family_raw :: "CandidateActionFamily \<Rightarrow> u8" where
  "family_raw FamilyIdle = 0"
| "family_raw FamilyRest = 1"
| "family_raw FamilyInspect = 2"
| "family_raw FamilyApproach = 3"
| "family_raw FamilyAvoid = 4"
| "family_raw FamilyContact = 5"
| "family_raw FamilyIngest = 6"
| "family_raw FamilyOther = 7"

definition family_try_from_raw :: "u8 \<Rightarrow> CandidateActionFamily contract" where
  "family_try_from_raw raw = (if raw < 8 then Inr (FAMILIES ! unat raw) else Inl InvalidActionCandidate)"

lemma family_roundtrip [simp]: "family_try_from_raw (family_raw f) = Inr f"
  by (cases f) (simp_all add: family_try_from_raw_def FAMILIES_def)

lemma family_try_from_raw_Inr: "family_try_from_raw raw = Inr f \<longleftrightarrow> family_raw f = raw"
proof
  assume "family_try_from_raw raw = Inr f"
  then have raw: "raw < 8" "f = FAMILIES ! unat raw" by (simp_all add: family_try_from_raw_def split: if_splits)
  then have "unat raw \<in> {0..<8}" by (simp add: word_less_nat_alt)
  then have "unat raw \<in> {0, 1, 2, 3, 4, 5, 6, 7}" by auto
  moreover have "n \<in> {0, 1, 2, 3, 4, 5, 6, 7} \<Longrightarrow> family_raw (FAMILIES ! n) = of_nat n" for n :: nat
    by (auto simp: FAMILIES_def)
  ultimately have "family_raw (FAMILIES ! unat raw) = of_nat (unat raw)" by blast
  then show "family_raw f = raw" using raw by simp
qed auto

section \<open>The capture plan\<close>

definition REPLAY_CAPTURE_DOMAIN :: bytes where
  "REPLAY_CAPTURE_DOMAIN = map (\<lambda>c. of_nat (of_char c)) ''alife.replay-capture-plan.v1''"
definition MAX_REPLAY_CAPTURE_SYNAPSES :: u32 where "MAX_REPLAY_CAPTURE_SYNAPSES = 64"

record ReplayCapturePlan =
  cp_schema_version :: u16
  cp_global_synapse_ids :: "u32 list"
  cp_samples_per_event :: u16
  cp_event_capacity :: u32
  cp_sample_capacity :: u32
  cp_canonical_digest :: digest4

definition plan_validate_shape :: "ReplayCapturePlan \<Rightarrow> unit contract" where
  "plan_validate_shape p =
     (if cp_schema_version p \<noteq> sv_learning schema_versions_CURRENT
        \<or> cp_global_synapse_ids p = []
        \<or> unat MAX_REPLAY_CAPTURE_SYNAPSES < length (cp_global_synapse_ids p)
        \<or> windows2_any (\<lambda>a b. b \<le> a) (cp_global_synapse_ids p)
        \<or> unat (cp_samples_per_event p) \<noteq> length (cp_global_synapse_ids p)
        \<or> cp_event_capacity p = 0 \<or> 65536 < cp_event_capacity p
      then Inl PhenotypeCompile
      else and_then (ok_or PhenotypeCompile (checked_mul (cp_event_capacity p) (ucast (cp_samples_per_event p))))
        (\<lambda>expected. if cp_sample_capacity p \<noteq> expected then Inl PhenotypeCompile else Inr ()))"

definition plan_recompute_digest :: "ReplayCapturePlan \<Rightarrow> digest4" where
  "plan_recompute_digest p =
     (let bs = write_u16 (cp_schema_version p) (digest_new REPLAY_CAPTURE_DOMAIN);
          bs = write_sequence_len (length (cp_global_synapse_ids p)) bs;
          bs = fold write_u32 (cp_global_synapse_ids p) bs;
          bs = write_u16 (cp_samples_per_event p) bs;
          bs = write_u32 (cp_event_capacity p) bs
      in finish256 (write_u32 (cp_sample_capacity p) bs))"

definition plan_validate :: "ReplayCapturePlan \<Rightarrow> unit contract" where
  "plan_validate p =
     and_then (plan_validate_shape p) (\<lambda>_.
       if cp_canonical_digest p \<noteq> plan_recompute_digest p then Inl PhenotypeCompile else Inr ())"

definition plan_try_new :: "u32 list \<Rightarrow> u16 \<Rightarrow> u32 \<Rightarrow> u32 \<Rightarrow> ReplayCapturePlan contract" where
  "plan_try_new ids samples_per_event event_capacity sample_capacity =
     (let p = \<lparr> cp_schema_version = sv_learning schema_versions_CURRENT, cp_global_synapse_ids = ids,
            cp_samples_per_event = samples_per_event, cp_event_capacity = event_capacity,
            cp_sample_capacity = sample_capacity, cp_canonical_digest = zero4 \<rparr>
      in and_then (plan_validate_shape p) (\<lambda>_. Inr (p \<lparr> cp_canonical_digest := plan_recompute_digest p \<rparr>)))"

text \<open>The wire form has the fields of the record.\<close>

definition plan_deserialize :: "ReplayCapturePlan \<Rightarrow> ReplayCapturePlan option" where
  "plan_deserialize wire = (if is_ok (plan_validate wire) then Some wire else None)"

section \<open>Events, spans and samples\<close>

record SleepReplayEvent =
  re_sequence_id :: u64
  re_originating_tick :: u64
  re_frame_digest :: digest4
  re_candidate_feature_digest :: "u64 \<times> u64"
  re_action_id :: u32
  re_family :: CandidateActionFamily
  re_modulator :: NeuromodulatorSample

definition lane_bad :: "f32 \<Rightarrow> bool" where
  "lane_bad v \<longleftrightarrow> \<not> f32_is_finite v \<or> \<not> f32_in_range f32_minus_one f32_one v"

definition event_validate :: "SleepReplayEvent \<Rightarrow> unit contract" where
  "event_validate e =
     and_then (id_validate (re_sequence_id e)) (\<lambda>_.
     and_then (action_id_validate (re_action_id e)) (\<lambda>_.
       if re_frame_digest e = zero4 \<or> re_candidate_feature_digest e = (0, 0)
          \<or> list_ex lane_bad (nm_frame (re_modulator e))
       then Inl ConsolidationGenerationMismatch else Inr ()))"

record ReplayEligibilitySample =
  es_event_index :: u16
  es_eligibility_q15 :: i16

record ReplaySynapseSpan =
  ss_local_synapse_id :: u32
  ss_sample_start :: u32
  ss_sample_count :: u32
  ss_reserved :: u32

definition I16_MIN :: i16 where "I16_MIN = 0x8000"

text \<open>
  The loop over the spans that a batch and a portable journal share: the spans lie end to end, each
  over \<open>count\<close> samples that are numbered from 0. \<open>bad\<close> is the further test of a span; the result is
  the end of the last span.
\<close>

definition samples_bad :: "ReplayEligibilitySample list \<Rightarrow> bool" where
  "samples_bad samples \<longleftrightarrow> list_ex (\<lambda>(i, s). unat (es_event_index s) \<noteq> i \<or> es_eligibility_q15 s = I16_MIN)
     (enumerate 0 samples)"

fun check_spans ::
  "(ReplaySynapseSpan \<Rightarrow> bool) \<Rightarrow> u32 \<Rightarrow> ReplayEligibilitySample list \<Rightarrow> ReplaySynapseSpan list \<Rightarrow> u32
   \<Rightarrow> u32 contract" where
  "check_spans bad count samples [] expected_start = Inr expected_start"
| "check_spans bad count samples (s # ss) expected_start =
     (if bad s \<or> ss_reserved s \<noteq> 0 \<or> ss_sample_start s \<noteq> expected_start \<or> ss_sample_count s \<noteq> count
      then Inl ConsolidationGenerationMismatch
      else
        and_then (ok_or ConsolidationGenerationMismatch (checked_add (ss_sample_start s) (ss_sample_count s))) (\<lambda>end.
        and_then (ok_or ConsolidationGenerationMismatch
            (get_range samples (unat (ss_sample_start s)) (unat end))) (\<lambda>here.
          if samples_bad here then Inl ConsolidationGenerationMismatch
          else check_spans bad count samples ss end)))"

section \<open>Bounded batches\<close>

definition BOUNDED_REPLAY_BATCH_SCHEMA_VERSION :: u16 where "BOUNDED_REPLAY_BATCH_SCHEMA_VERSION = 1"
definition MAX_SLEEP_TRANSACTION_EVENTS :: u32 where "MAX_SLEEP_TRANSACTION_EVENTS = 256"
definition MAX_SLEEP_TRANSACTION_SAMPLES :: u32 where "MAX_SLEEP_TRANSACTION_SAMPLES = 8192"
definition REPLAY_BATCH_DIGEST_DOMAIN :: bytes where
  "REPLAY_BATCH_DIGEST_DOMAIN = map (\<lambda>c. of_nat (of_char c)) ''ALIFE-GPU-SLEEP-REPLAY-BATCH-V1''"

record BoundedReplayBatch =
  rb_schema_version :: u16
  rb_events :: "SleepReplayEvent list"
  rb_synapse_spans :: "ReplaySynapseSpan list"
  rb_eligibility_samples :: "ReplayEligibilitySample list"
  rb_canonical_digest :: digest4

definition write_batch_event :: "SleepReplayEvent \<Rightarrow> bytes \<Rightarrow> bytes contract" where
  "write_batch_event e bs =
     and_then (event_validate e) (\<lambda>_.
       let bs = write_u64 (re_originating_tick e) (write_u64 (re_sequence_id e) bs);
           bs = write_digest4 (re_frame_digest e) bs;
           bs = (case re_candidate_feature_digest e of (a, b) \<Rightarrow> write_u64 b (write_u64 a bs));
           bs = write_u8 (family_raw (re_family e)) (write_u32 (re_action_id e) bs);
           m = re_modulator e
       in try_fold write_f32 ([nm_prediction_residual m, nm_pain m, nm_homeostatic_improvement m,
            nm_frustration m, nm_novelty m] @ nm_frame m) bs)"

definition write_span :: "ReplaySynapseSpan \<Rightarrow> bytes \<Rightarrow> bytes" where
  "write_span s bs = write_u32 (ss_reserved s) (write_u32 (ss_sample_count s)
     (write_u32 (ss_sample_start s) (write_u32 (ss_local_synapse_id s) bs)))"

definition write_sample :: "ReplayEligibilitySample \<Rightarrow> bytes \<Rightarrow> bytes" where
  "write_sample s bs = write_i16 (es_eligibility_q15 s) (write_u16 (es_event_index s) bs)"

definition write_spans_and_samples ::
  "ReplaySynapseSpan list \<Rightarrow> ReplayEligibilitySample list \<Rightarrow> bytes \<Rightarrow> bytes" where
  "write_spans_and_samples spans samples bs =
     fold write_sample samples (write_sequence_len (length samples)
       (fold write_span spans (write_sequence_len (length spans) bs)))"

definition batch_recompute :: "BoundedReplayBatch \<Rightarrow> digest4 contract" where
  "batch_recompute b =
     (let bs = write_u16 (rb_schema_version b) (digest_new REPLAY_BATCH_DIGEST_DOMAIN);
          bs = write_sequence_len (length (rb_events b)) bs
      in and_then (try_fold write_batch_event (rb_events b) bs) (\<lambda>bs.
           Inr (finish256 (write_spans_and_samples (rb_synapse_spans b) (rb_eligibility_samples b) bs))))"

definition batch_validate :: "u32 \<Rightarrow> u32 \<Rightarrow> u32 \<Rightarrow> BoundedReplayBatch \<Rightarrow> unit contract" where
  "batch_validate max_events max_samples synapse_count b =
     (if rb_schema_version b \<noteq> BOUNDED_REPLAY_BATCH_SCHEMA_VERSION
        \<or> max_events = 0 \<or> 65536 < max_events \<or> max_samples = 0 \<or> synapse_count = 0
        \<or> unat max_events < length (rb_events b) \<or> 65536 < length (rb_events b)
        \<or> unat max_samples < length (rb_eligibility_samples b)
        \<or> windows2_any (\<lambda>a b. re_sequence_id b \<le> re_sequence_id a) (rb_events b)
        \<or> windows2_any (\<lambda>a b. ss_local_synapse_id b \<le> ss_local_synapse_id a) (rb_synapse_spans b)
      then Inl ConsolidationGenerationMismatch
      else
        and_then (ok_or ConsolidationGenerationMismatch (try_of_len (length (rb_events b)))) (\<lambda>event_count.
        and_then (check_spans (\<lambda>s. synapse_count \<le> ss_local_synapse_id s) event_count
            (rb_eligibility_samples b) (rb_synapse_spans b) 0) (\<lambda>end.
          if unat end \<noteq> length (rb_eligibility_samples b) then Inl ConsolidationGenerationMismatch
          else and_then (batch_recompute b) (\<lambda>d.
            if rb_canonical_digest b \<noteq> d then Inl ConsolidationGenerationMismatch else Inr ()))))"

end
