(* ===== verification/Replay_Journal.thy ===== *)
theory Replay_Journal
  imports Replay F32_Quotient
begin

text \<open>
  \<open>SleepReplayJournal\<close> of \<open>crates/alife_core/src/sleep/replay.rs\<close> and the Q15 code of an eligibility.
  The journal is a ring: its contents are the events of the last accepted pushes, as many as its plan
  has room for, each with its quantized eligibilities.
\<close>

section \<open>Q15\<close>

text \<open>
  \<open>x.round() as i32\<close>: halves away from zero; a rounded value is an integer that \<open>f32\<close> represents, so
  the two steps are one. The cast saturates, and takes NaN to 0.
\<close>

definition i32_saturate :: "int \<Rightarrow> int" where
  "i32_saturate v = max (- (2 ^ 31)) (min (2 ^ 31 - 1) v)"

definition f32_round_as_i32 :: "f32 \<Rightarrow> int" where
  "f32_round_as_i32 x =
     (if f32_is_nan x then 0
      else if f32_is_infinite x then (if f32_is_sign_negative x then - (2 ^ 31) else 2 ^ 31 - 1)
      else
        let m = int ((2 * f32_magnitude x + 2 ^ 149) div 2 ^ 150)
        in i32_saturate (if f32_is_sign_negative x then - m else m))"

definition f32_of_int :: "int \<Rightarrow> f32" where
  "f32_of_int v = (if v < 0 then f32_neg (f32_of_nat (nat (- v))) else f32_of_nat (nat v))"

definition encode_replay_eligibility_q15 :: "f32 \<Rightarrow> i16 contract" where
  "encode_replay_eligibility_q15 v =
     (if \<not> f32_is_finite v then Inl NonFiniteFloat
      else
        let scaled = f32_round_as_i32 (f32_mul (f32_clamp f32_minus_one f32_one v) (f32_of_nat 32767))
        in Inr (word_of_int (max (- 32767) (min 32767 scaled))))"

definition decode_replay_eligibility_q15 :: "i16 \<Rightarrow> f32 contract" where
  "decode_replay_eligibility_q15 v =
     (if v = I16_MIN then Inl ScalarOutOfRange
      else Inr (f32_div (f32_of_int (sint v)) (f32_of_nat 32767)))"

section \<open>The journal\<close>

record SleepReplayJournal =
  sj_plan :: ReplayCapturePlan
  sj_cursor :: u32
  sj_event_count :: u32
  sj_events :: "SleepReplayEvent option list"
  sj_physical_samples :: "i16 list"

definition journal_new :: "ReplayCapturePlan \<Rightarrow> SleepReplayJournal contract" where
  "journal_new plan =
     and_then (plan_validate plan) (\<lambda>_. Inr \<lparr>
       sj_plan = plan, sj_cursor = 0, sj_event_count = 0,
       sj_events = replicate (unat (cp_event_capacity plan)) None,
       sj_physical_samples = replicate (unat (cp_sample_capacity plan)) 0 \<rparr>)"

type_synonym replay_fault = "ScaffoldContractError fault"

definition capacity_of :: "SleepReplayJournal \<Rightarrow> u32" where
  "capacity_of j = cp_event_capacity (sj_plan j)"

text \<open>The event before the cursor must be older than the new one.\<close>

definition check_newer :: "SleepReplayEvent \<Rightarrow> SleepReplayJournal \<Rightarrow> replay_fault + unit" where
  "check_newer e j =
     (if sj_event_count j = 0 then Inr ()
      else
        and_then (elem_at (sj_events j) (unat ((sj_cursor j + capacity_of j - 1) mod capacity_of j))) (\<lambda>slot.
        and_then (may_fail (ok_or ConsolidationGenerationMismatch slot)) (\<lambda>previous.
          if re_sequence_id e \<le> re_sequence_id previous
          then Inl (Fails ConsolidationGenerationMismatch) else Inr ())))"

text \<open>The loop that writes the sample of every captured synapse; a failure keeps what was written.\<close>

definition sample_slot :: "u32 \<Rightarrow> u32 \<Rightarrow> nat \<Rightarrow> u32 contract" where
  "sample_slot capacity event_slot i =
     and_then (ok_or ConsolidationGenerationMismatch (try_of_len i)) (\<lambda>i.
     and_then (ok_or ConsolidationGenerationMismatch (checked_mul i capacity)) (\<lambda>start.
       ok_or ConsolidationGenerationMismatch (checked_add start event_slot)))"

fun write_samples :: "u32 \<Rightarrow> u32 \<Rightarrow> nat \<Rightarrow> i16 list \<Rightarrow> i16 list \<Rightarrow> (replay_fault, unit, i16 list) outcome" where
  "write_samples capacity event_slot i [] samples = (Inr (), samples)"
| "write_samples capacity event_slot i (x # xs) samples =
     (case and_then (may_fail (sample_slot capacity event_slot i)) (\<lambda>k. assign_at samples (unat k) x) of
        Inl e \<Rightarrow> (Inl e, samples)
      | Inr samples' \<Rightarrow> write_samples capacity event_slot (Suc i) xs samples')"

definition store_event :: "SleepReplayEvent \<Rightarrow> i16 list \<Rightarrow> SleepReplayJournal \<Rightarrow> (replay_fault, unit, SleepReplayJournal) outcome" where
  "store_event e encoded j =
     (case assign_at (sj_events j) (unat (sj_cursor j)) (Some e) of
        Inl err \<Rightarrow> (Inl err, j)
      | Inr events \<Rightarrow>
          (case write_samples (capacity_of j) (sj_cursor j) 0 encoded (sj_physical_samples j) of (r, samples) \<Rightarrow>
             let j' = j \<lparr> sj_events := events, sj_physical_samples := samples \<rparr>
             in op_then (r, j') (\<lambda>_ j'. (Inr (), j' \<lparr>
                  sj_cursor := (sj_cursor j' + 1) mod capacity_of j',
                  sj_event_count := min (saturating_add (sj_event_count j') 1) (capacity_of j') \<rparr>))))"

definition journal_push ::
  "SleepReplayEvent \<Rightarrow> f32 list \<Rightarrow> SleepReplayJournal \<Rightarrow> (replay_fault, unit, SleepReplayJournal) outcome" where
  "journal_push e eligibility j =
     (case and_then (may_fail (event_validate e)) (\<lambda>_.
         if length eligibility \<noteq> unat (cp_samples_per_event (sj_plan j))
         then Inl (Fails ConsolidationGenerationMismatch)
         else and_then (check_newer e j) (\<lambda>_.
           may_fail (collect_results encode_replay_eligibility_q15 eligibility))) of
        Inl err \<Rightarrow> (Inl err, j)
      | Inr encoded \<Rightarrow> store_event e encoded j)"

section \<open>Taking out a batch\<close>

definition physical_order :: "SleepReplayJournal \<Rightarrow> u32 list" where
  "physical_order j =
     (let oldest = (if sj_event_count j = capacity_of j then sj_cursor j else 0)
      in map (\<lambda>offset. (oldest + word_of_nat offset) mod capacity_of j) [0..<unat (sj_event_count j)])"

text \<open>The samples of one captured synapse, in the order of the events.\<close>

definition span_samples :: "u32 list \<Rightarrow> u32 \<Rightarrow> i16 list \<Rightarrow> replay_fault + ReplayEligibilitySample list" where
  "span_samples order physical_start samples =
     collect_results (\<lambda>(event_index, physical).
       and_then (may_fail (ok_or ConsolidationGenerationMismatch (try_of_len event_index))) (\<lambda>event_index.
       and_then (elem_at samples (unat (physical_start + physical))) (\<lambda>q.
         Inr \<lparr> es_event_index = event_index, es_eligibility_q15 = q \<rparr>))) (enumerate 0 order)"

fun build_spans ::
  "SleepReplayJournal \<Rightarrow> nat \<Rightarrow> u32 list \<Rightarrow> ReplaySynapseSpan list \<times> ReplayEligibilitySample list
   \<Rightarrow> replay_fault + ReplaySynapseSpan list \<times> ReplayEligibilitySample list" where
  "build_spans j i [] (spans, samples) = Inr (spans, samples)"
| "build_spans j i (synapse # ids) (spans, samples) =
     and_then (may_fail (ok_or ConsolidationGenerationMismatch (try_of_len (length samples)))) (\<lambda>sample_start.
     and_then (may_fail (and_then (ok_or ConsolidationGenerationMismatch (try_of_len i)) (\<lambda>i.
         ok_or ConsolidationGenerationMismatch (checked_mul i (capacity_of j))))) (\<lambda>physical_start.
     and_then (span_samples (physical_order j) physical_start (sj_physical_samples j)) (\<lambda>here.
       build_spans j (Suc i) ids
         (spans @ [\<lparr> ss_local_synapse_id = synapse, ss_sample_start = sample_start,
            ss_sample_count = sj_event_count j, ss_reserved = 0 \<rparr>], samples @ here))))"

definition build_bounded_batch :: "u32 \<Rightarrow> u32 \<Rightarrow> u32 \<Rightarrow> SleepReplayJournal \<Rightarrow> replay_fault + BoundedReplayBatch" where
  "build_bounded_batch max_events max_samples synapse_count j =
     and_then (may_fail (plan_validate (sj_plan j))) (\<lambda>_.
       if max_events < sj_event_count j then Inl (Fails ConsolidationGenerationMismatch)
       else
         and_then (collect_results (\<lambda>physical. and_then (elem_at (sj_events j) (unat physical))
             (\<lambda>slot. may_fail (ok_or ConsolidationGenerationMismatch slot))) (physical_order j)) (\<lambda>events.
         and_then (build_spans j 0 (cp_global_synapse_ids (sj_plan j)) ([], [])) (\<lambda>(spans, samples).
           let b = \<lparr> rb_schema_version = BOUNDED_REPLAY_BATCH_SCHEMA_VERSION, rb_events = events,
                 rb_synapse_spans = spans, rb_eligibility_samples = samples, rb_canonical_digest = zero4 \<rparr>
           in and_then (may_fail (batch_recompute b)) (\<lambda>d.
              let b = b \<lparr> rb_canonical_digest := d \<rparr>
              in and_then (may_fail (batch_validate max_events max_samples synapse_count b)) (\<lambda>_. Inr b)))))"

datatype JournalOp = PushEvent SleepReplayEvent "f32 list"

fun journal_step :: "JournalOp \<Rightarrow> SleepReplayJournal \<Rightarrow> (replay_fault, unit, SleepReplayJournal) outcome" where
  "journal_step (PushEvent e eligibility) j = journal_push e eligibility j"

end
