(* ===== verification/Replay_Proofs.thy ===== *)
theory Replay_Proofs
  imports Replay_Journal
begin

text \<open>
  The journal refines a bounded queue of events with their quantized eligibilities: a push appends,
  the oldest entry goes when the plan's capacity is reached, and no index is ever out of range.
\<close>

section \<open>The plan\<close>

definition plan_ok :: "ReplayCapturePlan \<Rightarrow> bool" where
  "plan_ok p \<longleftrightarrow> plan_validate p = Inr ()"

abbreviation plan_width :: "ReplayCapturePlan \<Rightarrow> nat" where
  "plan_width p \<equiv> length (cp_global_synapse_ids p)"

lemma plan_okD:
  assumes "plan_ok p"
  shows "0 < unat (cp_event_capacity p)" "unat (cp_event_capacity p) \<le> 65536"
    "0 < plan_width p" "plan_width p \<le> 64" "unat (cp_samples_per_event p) = plan_width p"
    "unat (cp_sample_capacity p) = unat (cp_event_capacity p) * plan_width p"
    "sorted_wrt (<) (cp_global_synapse_ids p)"
proof -
  have shape: "plan_validate_shape p = Inr ()" using assms by (simp add: plan_ok_def plan_validate_def)
  then show "unat (cp_event_capacity p) \<le> 65536" "0 < plan_width p" "plan_width p \<le> 64"
      "unat (cp_samples_per_event p) = plan_width p"
    by (auto simp: plan_validate_shape_def MAX_REPLAY_CAPTURE_SYNAPSES_def word_le_nat_alt not_less split: if_splits)
  show "0 < unat (cp_event_capacity p)" using shape
    by (auto simp: plan_validate_shape_def unat_gt_0 split: if_splits)
  show "sorted_wrt (<) (cp_global_synapse_ids p)" using shape windows2_sorted_by [of "\<lambda>x. x" "cp_global_synapse_ids p"]
    by (auto simp: plan_validate_shape_def split: if_splits)
  have "checked_mul (cp_event_capacity p) (ucast (cp_samples_per_event p)) = Some (cp_sample_capacity p)"
    using shape by (auto simp: plan_validate_shape_def split: if_splits)
  from checked_mul_Some [OF this] show "unat (cp_sample_capacity p) = unat (cp_event_capacity p) * plan_width p"
    using \<open>unat (cp_samples_per_event p) = plan_width p\<close> by (simp add: unat_widen)
qed

text \<open>The cells of the sample store: one row of \<open>capacity\<close> slots for each captured synapse.\<close>

lemma cell_inject:
  fixes a b k l :: nat
  assumes "k < c" and "l < c"
  shows "a * c + k = b * c + l \<longleftrightarrow> a = b \<and> k = l"
proof
  assume eq: "a * c + k = b * c + l"
  then have "(a * c + k) div c = (b * c + l) div c" "(a * c + k) mod c = (b * c + l) mod c" by simp_all
  then show "a = b \<and> k = l" using assms by simp
qed simp

lemma cell_bound:
  fixes a c k n :: nat
  assumes "a < n" and "k < c"
  shows "a * c + k < n * c"
proof -
  have "a * c + k < Suc a * c" using assms(2) by simp
  also have "\<dots> \<le> n * c" using assms(1) by (intro mult_le_mono1) simp
  finally show ?thesis .
qed

section \<open>Pushing\<close>

definition sample_row :: "nat \<Rightarrow> nat \<Rightarrow> i16 list \<Rightarrow> nat \<Rightarrow> i16 list" where
  "sample_row n c samples k = map (\<lambda>a. samples ! (a * c + k)) [0..<n]"

lemma sample_slot_Inr:
  assumes "i < 64" and "unat capacity \<le> 65536" and "unat event_slot < unat capacity"
  shows "\<exists>k. sample_slot capacity event_slot i = Inr k \<and> unat k = i * unat capacity + unat event_slot"
proof -
  have i: "unat (word_of_nat i :: u32) = i" using assms(1) by (simp add: unat_of_nat)
  have "i * unat capacity \<le> 4128768" using mult_le_mono [of i 63 "unat capacity" 65536] assms(1,2) by simp
  then have small: "i * unat capacity < 2 ^ 32" "i * unat capacity + unat event_slot < 2 ^ 32"
    using assms(2,3) by simp_all
  have mul: "unat (word_of_nat i * capacity) = i * unat capacity"
    using small i by (subst unat_mult_no_overflow) simp_all
  then have "unat (word_of_nat i * capacity + event_slot) = i * unat capacity + unat event_slot"
    using small by (subst unat_plus_no_overflow) simp_all
  then show ?thesis using small i mul assms(1)
    by (simp add: sample_slot_def try_of_len_def checked_mul_def checked_add_def)
qed

lemma write_samples_row:
  assumes "unat capacity \<le> 65536" and "unat event_slot < unat capacity" and "n \<le> 64"
    and "length samples = n * unat capacity" and "i + length xs \<le> n"
  shows "\<exists>samples'. write_samples capacity event_slot i xs samples = (Inr (), samples')
    \<and> length samples' = length samples
    \<and> (\<forall>a < n. \<forall>k < unat capacity. samples' ! (a * unat capacity + k) =
         (if k = unat event_slot \<and> i \<le> a \<and> a < i + length xs then xs ! (a - i) else samples ! (a * unat capacity + k)))"
  using assms(4,5)
proof (induction xs arbitrary: i samples)
  case Nil
  then show ?case by auto
next
  case (Cons x xs)
  let ?c = "unat capacity" and ?s = "unat event_slot"
  have "i < 64" using Cons.prems assms(3) by simp
  from sample_slot_Inr [OF this assms(1,2)] obtain k where
    k: "sample_slot capacity event_slot i = Inr k" "unat k = i * ?c + ?s" by blast
  have bound: "i * ?c + ?s < length samples" using cell_bound [of i n ?s ?c] assms(2) Cons.prems by simp
  let ?samples = "samples[i * ?c + ?s := x]"
  obtain samples' where IH: "write_samples capacity event_slot (Suc i) xs ?samples = (Inr (), samples')"
    "length samples' = length ?samples"
    "\<forall>a < n. \<forall>k < ?c. samples' ! (a * ?c + k) =
       (if k = ?s \<and> Suc i \<le> a \<and> a < Suc i + length xs then xs ! (a - Suc i) else ?samples ! (a * ?c + k))"
    using Cons.IH [of ?samples "Suc i"] Cons.prems by auto
  have "samples' ! (a * ?c + k) =
      (if k = ?s \<and> i \<le> a \<and> a < i + length (x # xs) then (x # xs) ! (a - i) else samples ! (a * ?c + k))"
    if ak: "a < n" "k < ?c" for a k
  proof -
    have "?samples ! (a * ?c + k) = (if a = i \<and> k = ?s then x else samples ! (a * ?c + k))"
    proof (cases "a = i \<and> k = ?s")
      case False
      then have "i * ?c + ?s \<noteq> a * ?c + k" using cell_inject [OF ak(2) assms(2), of a i] by metis
      then show ?thesis using False by auto
    qed (use bound in auto)
    then show ?thesis using IH(3) ak by (auto simp: nth_Cons')
  qed
  moreover have "write_samples capacity event_slot i (x # xs) samples = (Inr (), samples')"
    using k bound IH(1) by simp
  ultimately show ?case using IH(2) by auto
qed

section \<open>The invariant and the contents\<close>

definition stored :: "SleepReplayJournal \<Rightarrow> nat \<Rightarrow> SleepReplayEvent \<times> i16 list" where
  "stored j k = (the (sj_events j ! k), sample_row (plan_width (sj_plan j)) (unat (capacity_of j)) (sj_physical_samples j) k)"

definition live_slots :: "SleepReplayJournal \<Rightarrow> nat list" where
  "live_slots j = ring_order (unat (capacity_of j)) (unat (sj_cursor j)) (unat (sj_event_count j))"

definition journal_items :: "SleepReplayJournal \<Rightarrow> (SleepReplayEvent \<times> i16 list) list" where
  "journal_items j = map (stored j) (live_slots j)"

definition item_ok :: "SleepReplayEvent \<times> i16 list \<Rightarrow> bool" where
  "item_ok it \<longleftrightarrow> event_validate (fst it) = Inr () \<and> I16_MIN \<notin> set (snd it)"

definition journal_inv :: "SleepReplayJournal \<Rightarrow> bool" where
  "journal_inv j \<longleftrightarrow> plan_ok (sj_plan j)
     \<and> ring_ok (unat (capacity_of j)) (unat (sj_cursor j)) (unat (sj_event_count j))
     \<and> length (sj_events j) = unat (capacity_of j)
     \<and> length (sj_physical_samples j) = plan_width (sj_plan j) * unat (capacity_of j)
     \<and> (\<forall>k \<in> set (live_slots j). sj_events j ! k \<noteq> None)
     \<and> list_all item_ok (journal_items j)
     \<and> sorted_wrt (<) (map (re_sequence_id \<circ> fst) (journal_items j))"

lemma live_slot_bound: "journal_inv j \<Longrightarrow> k \<in> set (live_slots j) \<Longrightarrow> k < unat (capacity_of j)"
  by (auto simp: journal_inv_def live_slots_def ring_ok_def intro: ring_order_bound)

lemma length_journal_items: "length (journal_items j) = unat (sj_event_count j)"
  by (simp add: journal_items_def live_slots_def)

lemma ring_order_last:
  assumes "ring_ok c cursor n" and "0 < n"
  shows "last (ring_order c cursor n) = (cursor + c - 1) mod c"
proof -
  have "last (ring_order c cursor n) = ((if n = c then cursor else 0) + (n - 1)) mod c"
    using assms(2) by (simp add: ring_order_def last_conv_nth)
  moreover have "((if n = c then cursor else 0) + (n - 1)) mod c = (cursor + c - 1) mod c"
  proof (cases "n = c")
    case True
    have "cursor + (c - 1) = cursor + c - 1" using True assms(2) by simp
    then show ?thesis using True by simp
  next
    case False
    then have n: "n < c" "cursor = n" using assms(1) by (auto simp: ring_ok_def)
    have sum: "n + c - 1 = (n - 1) + c" using assms(2) by simp
    have "(n + c - 1) mod c = (n - 1) mod c" unfolding sum by (rule mod_add_self2)
    then show ?thesis unfolding n(2) using False by simp
  qed
  ultimately show ?thesis by simp
qed

lemma word_ring_index:
  fixes a b c :: u32
  assumes "unat a + unat b < 2 ^ 32"
  shows "unat ((a + b) mod c) = (unat a + unat b) mod unat c"
  using assms by (simp add: unat_mod_distrib unat_plus_no_overflow)

lemma check_newer_iff:
  assumes inv: "journal_inv j"
  shows "check_newer e j = (if journal_items j \<noteq> [] \<and> re_sequence_id e \<le> re_sequence_id (fst (last (journal_items j)))
     then Inl (Fails ConsolidationGenerationMismatch) else Inr ())"
proof (cases "sj_event_count j = 0")
  case True
  then have "journal_items j = []" using length_journal_items [of j] by simp
  with True show ?thesis by (simp add: check_newer_def)
next
  case False
  let ?c = "capacity_of j"
  have cap: "0 < unat ?c" "unat ?c \<le> 65536"
    using inv plan_okD(1,2) [of "sj_plan j"] by (auto simp: journal_inv_def capacity_of_def)
  have ring: "ring_ok (unat ?c) (unat (sj_cursor j)) (unat (sj_event_count j))" using inv by (simp add: journal_inv_def)
  have pos: "0 < unat (sj_event_count j)" using False by (simp add: unat_gt_0)
  have ne: "live_slots j \<noteq> []" "journal_items j \<noteq> []"
    using pos length_journal_items [of j] by (auto simp: journal_items_def)
  let ?k = "unat ((sj_cursor j + ?c - 1) mod ?c)"
  have "unat (sj_cursor j) < unat ?c" using ring by (simp add: ring_ok_def)
  have one: "(1 :: u32) \<le> ?c" using cap(1) by (simp add: word_le_nat_alt)
  have "unat (sj_cursor j + (?c - 1)) = unat (sj_cursor j) + (unat ?c - 1)"
    using cap \<open>unat (sj_cursor j) < unat ?c\<close> one by (subst unat_plus_no_overflow) (simp_all add: unat_minus_le)
  then have "?k = (unat (sj_cursor j) + unat ?c - 1) mod unat ?c"
    using cap by (simp add: unat_mod_distrib diff_add_eq add_diff_eq [symmetric])
  then have last: "?k = last (live_slots j)" using ring_order_last [OF ring pos] by (simp add: live_slots_def)
  then have k: "?k \<in> set (live_slots j)" using ne by simp
  then have "?k < length (sj_events j)" using live_slot_bound [OF inv k] inv by (simp add: journal_inv_def)
  moreover obtain prev where prev: "sj_events j ! ?k = Some prev" using k inv by (auto simp: journal_inv_def)
  moreover have "fst (last (journal_items j)) = prev"
    using ne prev last by (simp add: journal_items_def last_map stored_def)
  ultimately show ?thesis using False ne(2) by (simp add: check_newer_def)
qed

section \<open>A push appends\<close>

definition quantized :: "f32 \<Rightarrow> i16" where
  "quantized v = (case encode_replay_eligibility_q15 v of Inl _ \<Rightarrow> 0 | Inr q \<Rightarrow> q)"

fun pushed_item :: "JournalOp \<Rightarrow> SleepReplayEvent \<times> i16 list" where
  "pushed_item (PushEvent e eligibility) = (e, map quantized eligibility)"

lemma encode_q15_not_min: "encode_replay_eligibility_q15 v = Inr q \<Longrightarrow> q \<noteq> I16_MIN \<and> \<bar>sint q\<bar> \<le> 32767"
proof -
  assume "encode_replay_eligibility_q15 v = Inr q"
  then obtain k where k: "q = word_of_int k" "\<bar>k\<bar> \<le> 32767"
    by (auto simp: encode_replay_eligibility_q15_def Let_def split: if_splits)
  then have "sint q = k" by (simp add: signed_of_int signed_take_bit_int_eq_self)
  moreover have "sint I16_MIN = - 32768" by (simp add: I16_MIN_def)
  ultimately show ?thesis using k(2) by auto
qed

lemma quantized_list: "collect_results encode_replay_eligibility_q15 xs = Inr ys \<Longrightarrow> ys = map quantized xs \<and> I16_MIN \<notin> set ys"
  by (induction xs arbitrary: ys) (auto simp: quantized_def dest: encode_q15_not_min)

lemma store_event_effect:
  assumes inv: "journal_inv j" and item: "item_ok (e, encoded)" and len: "length encoded = plan_width (sj_plan j)"
    and newer: "journal_items j \<noteq> [] \<Longrightarrow> re_sequence_id (fst (last (journal_items j))) < re_sequence_id e"
  shows "\<exists>j'. store_event e encoded j = (Inr (), j') \<and> sj_plan j' = sj_plan j \<and> journal_inv j'
    \<and> journal_items j' = last_items (unat (capacity_of j)) (journal_items j @ [(e, encoded)])"
proof -
  let ?n = "plan_width (sj_plan j)" and ?c = "unat (capacity_of j)" and ?k = "unat (sj_cursor j)"
    and ?m = "unat (sj_event_count j)"
  note plan = plan_okD [of "sj_plan j"]
  have pj: "plan_ok (sj_plan j)" and ring: "ring_ok ?c ?k ?m" and le: "length (sj_events j) = ?c"
    and ls: "length (sj_physical_samples j) = ?n * ?c" using inv by (simp_all add: journal_inv_def)
  have cap: "?c \<le> 65536" "?n \<le> 64" using plan(2,4) [OF pj] by (simp_all add: capacity_of_def)
  have k: "?k < ?c" using ring by (simp add: ring_ok_def)
  obtain samples' where w: "write_samples (capacity_of j) (sj_cursor j) 0 encoded (sj_physical_samples j) = (Inr (), samples')"
    "length samples' = ?n * ?c"
    "\<forall>a < ?n. \<forall>l < ?c. samples' ! (a * ?c + l) = (if l = ?k then encoded ! a else sj_physical_samples j ! (a * ?c + l))"
    using write_samples_row [OF cap(1) k cap(2) ls, of 0 encoded] len by (auto simp: ls)
  let ?j' = "j \<lparr> sj_events := (sj_events j)[?k := Some e], sj_physical_samples := samples',
      sj_cursor := (sj_cursor j + 1) mod capacity_of j,
      sj_event_count := min (saturating_add (sj_event_count j) 1) (capacity_of j) \<rparr>"
  have store: "store_event e encoded j = (Inr (), ?j')" using w(1) k le by (simp add: store_event_def Let_def capacity_of_def)
  have cursor': "unat ((sj_cursor j + 1) mod capacity_of j) = (?k + 1) mod ?c"
    using k cap(1) by (subst word_ring_index) simp_all
  have count': "unat (min (saturating_add (sj_event_count j) 1) (capacity_of j)) = min (?m + 1) ?c"
    using ring cap(1) by (simp add: ring_ok_def min_def word_le_nat_alt unat_saturating_add)
  have stored': "stored ?j' l = ((stored j)(?k := (e, encoded))) l" if l: "l < ?c" for l
  proof -
    have "sample_row ?n ?c samples' l = (if l = ?k then encoded else sample_row ?n ?c (sj_physical_samples j) l)"
      using w(3) l len by (auto simp: sample_row_def intro!: nth_equalityI)
    then show ?thesis using l k le by (auto simp: stored_def capacity_of_def)
  qed
  have live': "live_slots ?j' = ring_order ?c ((?k + 1) mod ?c) (min (?m + 1) ?c)"
    using cursor' count' by (simp add: live_slots_def capacity_of_def)
  have bound': "l < ?c" if "l \<in> set (live_slots ?j')" for l
  proof -
    have "0 < ?c" using k by simp
    then show ?thesis using that unfolding live' by (rule ring_order_bound)
  qed
  have "journal_items ?j' = map ((stored j)(?k := (e, encoded))) (live_slots ?j')"
    unfolding journal_items_def by (rule map_cong [OF refl]) (rule stored' [OF bound'])
  also have "\<dots> = last_items ?c (journal_items j @ [(e, encoded)])"
    unfolding live' journal_items_def [of j] live_slots_def [of j] by (rule ring_push(1) [OF ring])
  finally have items: "journal_items ?j' = last_items ?c (journal_items j @ [(e, encoded)])" .
  have "sj_events ?j' ! l \<noteq> None" if l: "l \<in> set (live_slots ?j')" for l
  proof (cases "l = ?k")
    case False
    have "l \<in> set (live_slots j)"
    proof (cases "?m = ?c")
      case True
      then show ?thesis using bound' [OF l] k by (auto simp: live_slots_def ring_order_full)
    next
      case False
      then have m: "?m < ?c" "?k = ?m" using ring by (simp_all add: ring_ok_def)
      have "l < ?m"
      proof (cases "Suc ?m = ?c")
        case True
        then show ?thesis using bound' [OF l] \<open>l \<noteq> ?k\<close> m by simp
      next
        case False
        then have "live_slots ?j' = [0..<Suc ?m]" unfolding live' using m by (simp add: ring_order_notfull)
        then show ?thesis using l \<open>l \<noteq> ?k\<close> m by auto
      qed
      then show ?thesis using m(1) by (simp add: live_slots_def ring_order_notfull)
    qed
    then show ?thesis using inv False by (auto simp: journal_inv_def)
  qed (use k le in auto)
  moreover have "list_all item_ok (journal_items ?j')"
    unfolding items using inv item by (auto simp: journal_inv_def last_items_def list_all_iff dest: in_set_dropD)
  moreover have "sorted_wrt (<) (map (re_sequence_id \<circ> fst) (journal_items ?j'))"
  proof -
    have old: "sorted_wrt (<) (map (re_sequence_id \<circ> fst) (journal_items j))" using inv by (simp add: journal_inv_def)
    have "re_sequence_id (fst it) < re_sequence_id e" if "it \<in> set (journal_items j)" for it
    proof -
      have ne: "journal_items j \<noteq> []" using that by auto
      then obtain front where f: "journal_items j = front @ [last (journal_items j)]"
        by (metis append_butlast_last_id)
      have "re_sequence_id (fst it) \<le> re_sequence_id (fst (last (journal_items j)))"
        using that old by (subst (asm) (1 2) f) (auto simp: sorted_wrt_append less_imp_le)
      then show ?thesis using newer [OF ne] by (rule le_less_trans)
    qed
    then have "sorted_wrt (<) (map (re_sequence_id \<circ> fst) (journal_items j @ [(e, encoded)]))"
      using old by (auto simp: sorted_wrt_append)
    then show ?thesis unfolding items last_items_def drop_map [symmetric] by (rule sorted_wrt_drop)
  qed
  ultimately have "journal_inv ?j'"
    using pj ring_push(2) [OF ring] w(2) le cursor' count' by (simp add: journal_inv_def capacity_of_def)
  then show ?thesis using store items by auto
qed

lemma push_effect:
  assumes inv: "journal_inv j"
  shows "(\<exists>err. journal_step op j = (Inl (Fails err), j)) \<or>
    (\<exists>j'. journal_step op j = (Inr (), j') \<and> sj_plan j' = sj_plan j \<and> journal_inv j'
      \<and> journal_items j' = last_items (unat (capacity_of j)) (journal_items j @ [pushed_item op]))"
proof (cases op)
  case (PushEvent e eligibility)
  let ?checks = "and_then (may_fail (event_validate e)) (\<lambda>_.
         if length eligibility \<noteq> unat (cp_samples_per_event (sj_plan j))
         then Inl (Fails ConsolidationGenerationMismatch)
         else and_then (check_newer e j) (\<lambda>_.
           may_fail (collect_results encode_replay_eligibility_q15 eligibility)))"
  have step: "journal_step op j = (case ?checks of Inl err \<Rightarrow> (Inl err, j) | Inr encoded \<Rightarrow> store_event e encoded j)"
    unfolding PushEvent journal_step.simps journal_push_def ..
  show ?thesis
  proof (cases ?checks)
    case (Inl err)
    then have "err \<noteq> Panics"
      by (auto simp: and_then_Inl_iff check_newer_iff [OF inv] split: if_splits)
    then show ?thesis using Inl step by (cases err) simp_all
  next
    case (Inr encoded)
    then have c: "event_validate e = Inr ()" "length eligibility = unat (cp_samples_per_event (sj_plan j))"
      "check_newer e j = Inr ()" "collect_results encode_replay_eligibility_q15 eligibility = Inr encoded"
      by (auto split: if_splits)
    have q: "encoded = map quantized eligibility" "I16_MIN \<notin> set encoded" using quantized_list [OF c(4)] by blast+
    have "item_ok (e, encoded)" using c(1) q(2) by (simp add: item_ok_def)
    moreover have "length encoded = plan_width (sj_plan j)"
      using q(1) c(2) plan_okD(5) [of "sj_plan j"] inv by (simp add: journal_inv_def)
    moreover have "journal_items j \<noteq> [] \<Longrightarrow> re_sequence_id (fst (last (journal_items j))) < re_sequence_id e"
      using c(3) check_newer_iff [OF inv] by (simp add: not_le split: if_splits)
    ultimately show ?thesis using store_event_effect [OF inv] Inr step PushEvent q(1) by simp
  qed
qed

interpretation journal_queue:
  bounded_queue journal_step journal_inv journal_items "\<lambda>j. unat (capacity_of j)" pushed_item
proof
  fix j op assume "journal_inv j"
  note eff = push_effect [OF this, of op]
  show "journal_inv (snd (journal_step op j))" using eff \<open>journal_inv j\<close> by auto
  show "unat (capacity_of (snd (journal_step op j))) = unat (capacity_of j)" using eff by (auto simp: capacity_of_def)
  show "is_ok (fst (journal_step op j)) \<Longrightarrow>
      journal_items (snd (journal_step op j)) = last_items (unat (capacity_of j)) (journal_items j @ [pushed_item op])"
    using eff by auto
  show "length (journal_items j) \<le> unat (capacity_of j)"
    using \<open>journal_inv j\<close> by (simp add: length_journal_items journal_inv_def ring_ok_def)
  fix err assume "fst (journal_step op j) = Inl err"
  then show "snd (journal_step op j) = j" using eff by auto
qed

lemma journal_new_inv:
  assumes "journal_new plan = Inr j"
  shows "journal_inv j \<and> journal_items j = [] \<and> sj_plan j = plan"
proof -
  have p: "plan_ok plan" and j: "j = \<lparr> sj_plan = plan, sj_cursor = 0, sj_event_count = 0,
       sj_events = replicate (unat (cp_event_capacity plan)) None,
       sj_physical_samples = replicate (unat (cp_sample_capacity plan)) 0 \<rparr>"
    using assms by (auto simp: journal_new_def plan_ok_def)
  then have "live_slots j = []" by (simp add: live_slots_def ring_order_def)
  then show ?thesis using p j plan_okD(1,6) [OF p]
    by (simp add: journal_inv_def journal_items_def ring_ok_def capacity_of_def mult.commute)
qed

lemma journal_step_never_panics: "journal_inv j \<Longrightarrow> fst (journal_step op j) \<noteq> Inl Panics"
  using push_effect [of j op] by auto

text \<open>
  C21. A replay journal is the queue of the last events pushed into it, at most as many as its plan has
  room for, in order and each with its quantized eligibilities: a rejected push changes nothing, and no
  push ever panics on an index.
\<close>

theorem journal_keeps_last_events:
  assumes "journal_new plan = Inr j0"
  shows "let j = run_ops journal_step ops j0 in
    journal_items j = last_items (unat (cp_event_capacity plan)) (map pushed_item (accepted_ops journal_step ops j0))
    \<and> journal_inv j \<and> fst (journal_step op j) \<noteq> Inl Panics"
proof -
  have j0: "journal_inv j0" "journal_items j0 = []" "capacity_of j0 = cp_event_capacity plan"
    using journal_new_inv [OF assms] by (simp_all add: capacity_of_def)
  have "journal_inv (run_ops journal_step ops j0)" by (rule journal_queue.run_keeps [OF j0(1)])
  then show ?thesis using journal_queue.holds_last_items [OF j0(1), of ops] j0 journal_step_never_panics
    by (simp add: Let_def)
qed

end
