(* ===== verification/Replay_Batch.thy ===== *)
theory Replay_Batch
  imports Replay_Proofs
begin

text \<open>
  Sleep takes out of a journal exactly its queue: the batch lists the events oldest first and, for each
  captured synapse, its eligibilities in the same order. A batch is refused only when the queue is
  over the limits of the transaction.
\<close>

section \<open>The batch of a queue\<close>

definition item_row :: "(SleepReplayEvent \<times> i16 list) list \<Rightarrow> nat \<Rightarrow> ReplayEligibilitySample list" where
  "item_row items i =
     map (\<lambda>(k, it). \<lparr> es_event_index = word_of_nat k, es_eligibility_q15 = snd it ! i \<rparr>) (enumerate 0 items)"

definition spans_from :: "nat \<Rightarrow> nat \<Rightarrow> u32 list \<Rightarrow> ReplaySynapseSpan list" where
  "spans_from i c ids = map (\<lambda>(i, synapse). \<lparr> ss_local_synapse_id = synapse, ss_sample_start = word_of_nat (i * c),
     ss_sample_count = word_of_nat c, ss_reserved = 0 \<rparr>) (enumerate i ids)"

definition queue_batch :: "u32 list \<Rightarrow> (SleepReplayEvent \<times> i16 list) list \<Rightarrow> BoundedReplayBatch" where
  "queue_batch ids items = \<lparr>
     rb_schema_version = BOUNDED_REPLAY_BATCH_SCHEMA_VERSION, rb_events = map fst items,
     rb_synapse_spans = spans_from 0 (length items) ids,
     rb_eligibility_samples = concat (map (item_row items) [0..<length ids]), rb_canonical_digest = zero4 \<rparr>"

lemma length_item_row [simp]: "length (item_row items i) = length items"
  by (simp add: item_row_def)

lemma spans_from_Cons: "spans_from i c (x # ids) = \<lparr> ss_local_synapse_id = x, ss_sample_start = word_of_nat (i * c),
     ss_sample_count = word_of_nat c, ss_reserved = 0 \<rparr> # spans_from (Suc i) c ids"
  by (simp add: spans_from_def)

lemma spans_from_ids: "map ss_local_synapse_id (spans_from i c ids) = ids"
  by (induction ids arbitrary: i) (simp_all add: spans_from_Cons spans_from_def)

lemma length_rows [simp]: "length (concat (map (item_row items) xs)) = length xs * length items"
  by (induction xs) simp_all

lemma concat_block:
  "list_all (\<lambda>b. length b = c) bs \<Longrightarrow> i < length bs \<Longrightarrow> take c (drop (i * c) (concat bs)) = bs ! i"
proof (induction bs arbitrary: i)
  case (Cons b bs)
  then show ?case by (cases i) simp_all
qed simp

lemma block_range:
  assumes "i < n"
  shows "get_range (concat (map (item_row items) [0..<n])) (i * length items) (i * length items + length items)
    = Some (item_row items i)"
proof -
  have "Suc i * length items \<le> n * length items" using assms by (intro mult_le_mono1) simp
  moreover have "take (length items) (drop (i * length items) (concat (map (item_row items) [0..<n]))) = item_row items i"
    using concat_block [of "length items" "map (item_row items) [0..<n]" i] assms by (simp add: list_all_iff)
  ultimately show ?thesis by (simp add: get_range_def)
qed

section \<open>Validation accepts it\<close>

lemma item_row_good:
  assumes "length items \<le> 65536" and "\<And>it. it \<in> set items \<Longrightarrow> I16_MIN \<notin> set (snd it) \<and> i < length (snd it)"
  shows "\<not> samples_bad (item_row items i)"
proof -
  have "unat (word_of_nat k :: u16) = k" if "k < length items" for k
    using that assms(1) by (simp add: unat_of_nat)
  moreover have "snd (items ! k) ! i \<noteq> I16_MIN" if "k < length items" for k
    using assms(2) [of "items ! k"] that by (metis nth_mem)
  ultimately show ?thesis
    by (auto simp: samples_bad_def item_row_def list_ex_iff in_set_enumerate_eq nth_enumerate_eq)
qed

lemma check_spans_error: "check_spans bad c samples ss st = Inl e \<Longrightarrow> e = ConsolidationGenerationMismatch"
  by (induction bad c samples ss st rule: check_spans.induct)
    (auto simp: and_then_Inl_iff ok_or_def split: if_splits option.splits)

lemma unat_small_word: "k \<le> 4194304 \<Longrightarrow> unat (word_of_nat k :: u32) = k"
  by (simp add: unat_of_nat)

lemma row_end_bound:
  fixes i n c :: nat
  assumes "i < n" and "n \<le> 64" and "c \<le> 65536"
  shows "i * c + c \<le> 4194304"
proof -
  have "Suc i * c \<le> 64 * 65536" using assms by (intro mult_le_mono) simp_all
  then show ?thesis by simp
qed

lemma check_spans_batch:
  assumes items: "length items \<le> 65536" "\<And>it. it \<in> set items \<Longrightarrow> I16_MIN \<notin> set (snd it) \<and> length (snd it) = n"
    and n: "n \<le> 64" and i: "i + length ids = n"
  shows "check_spans (\<lambda>s. limit \<le> ss_local_synapse_id s) (word_of_nat (length items))
      (concat (map (item_row items) [0..<n])) (spans_from i (length items) ids) (word_of_nat (i * length items))
    = (if list_ex (\<lambda>synapse. limit \<le> synapse) ids then Inl ConsolidationGenerationMismatch
       else Inr (word_of_nat (n * length items)))"
  using i
proof (induction ids arbitrary: i)
  case Nil
  then show ?case by (simp add: spans_from_def)
next
  case (Cons x ids)
  let ?c = "length items"
  have "i < n" using Cons.prems by simp
  have b: "i * ?c + ?c \<le> 4194304" using row_end_bound [OF \<open>i < n\<close> n items(1)] .
  have start: "unat (word_of_nat (i * ?c) :: u32) = i * ?c" using b by (intro unat_small_word) simp
  have count: "unat (word_of_nat ?c :: u32) = ?c" using items(1) by (intro unat_small_word) simp
  have next': "word_of_nat (i * ?c) + word_of_nat ?c = (word_of_nat (Suc i * ?c) :: u32)"
    by (simp add: add.commute)
  have add: "checked_add (word_of_nat (i * ?c)) (word_of_nat ?c :: u32) = Some (word_of_nat (Suc i * ?c))"
    unfolding checked_add_def next' [symmetric] start count using b by simp
  have stop: "unat (word_of_nat (Suc i * ?c) :: u32) = i * ?c + ?c" using b by (subst unat_small_word) simp_all
  have good: "\<not> samples_bad (item_row items i)" using items \<open>i < n\<close> by (intro item_row_good) auto
  show ?case
  proof (cases "limit \<le> x")
    case True
    then show ?thesis by (simp add: spans_from_Cons)
  next
    case False
    have "check_spans (\<lambda>s. limit \<le> ss_local_synapse_id s) (word_of_nat ?c)
        (concat (map (item_row items) [0..<n])) (spans_from i ?c (x # ids)) (word_of_nat (i * ?c))
      = check_spans (\<lambda>s. limit \<le> ss_local_synapse_id s) (word_of_nat ?c)
        (concat (map (item_row items) [0..<n])) (spans_from (Suc i) ?c ids) (word_of_nat (Suc i * ?c))"
      using False good block_range [OF \<open>i < n\<close>, of items]
      by (simp add: spans_from_Cons add stop start del: of_nat_mult mult_Suc of_nat_add)
    also have "\<dots> = (if list_ex (\<lambda>synapse. limit \<le> synapse) ids then Inl ConsolidationGenerationMismatch
       else Inr (word_of_nat (n * ?c)))" by (rule Cons.IH) (use Cons.prems in simp)
    finally show ?thesis using False by simp
  qed
qed

lemma try_fold_is_ok:
  "(\<And>x s. x \<in> set xs \<Longrightarrow> is_ok (f x s)) \<Longrightarrow> is_ok (try_fold f xs s)"
proof (induction xs arbitrary: s)
  case (Cons x xs)
  obtain t where "f x s = Inr t" using Cons.prems [of x s] by (auto simp: is_ok_iff)
  then show ?case using Cons.IH [of t] Cons.prems by simp
qed simp

lemma write_f32_ok: "f32_is_finite v \<Longrightarrow> is_ok (write_f32 v bs)"
  by (simp add: write_f32_def)

lemma sample_ok_lanes:
  assumes "sample_ok m"
  shows "v \<in> set ([nm_prediction_residual m, nm_pain m, nm_homeostatic_improvement m, nm_frustration m, nm_novelty m]
      @ nm_frame m) \<Longrightarrow> f32_is_finite v"
proof -
  have l: "length (nm_frame m) = 8" "\<forall>v \<in> set (nm_frame m). f32_is_finite v" and m: "m = sample_from_frame (nm_frame m)"
    using assms by (auto simp: sample_ok_def frame_ok_def NEUROMODULATORY_LANE_COUNT_def list_all_iff)
  have "nm_prediction_residual m = nm_frame m ! 0" "nm_pain m = nm_frame m ! 1" "nm_homeostatic_improvement m = nm_frame m ! 2"
    "nm_frustration m = nm_frame m ! 3" "nm_novelty m = nm_frame m ! 4"
    using m sample_from_frame_simps by metis+
  then show "v \<in> set ([nm_prediction_residual m, nm_pain m, nm_homeostatic_improvement m, nm_frustration m, nm_novelty m]
      @ nm_frame m) \<Longrightarrow> f32_is_finite v" using l by auto
qed

lemma queue_batch_recompute:
  assumes "\<And>it. it \<in> set items \<Longrightarrow> event_validate (fst it) = Inr () \<and> sample_ok (re_modulator (fst it))"
  shows "is_ok (batch_recompute (queue_batch ids items))"
proof -
  have "is_ok (write_batch_event e bs)" if "e \<in> set (map fst items)" for e bs
  proof -
    have e: "event_validate e = Inr ()" "sample_ok (re_modulator e)" using that assms by auto
    show ?thesis unfolding write_batch_event_def e(1) Let_def and_then_simps
      by (rule try_fold_is_ok) (rule write_f32_ok, rule sample_ok_lanes [OF e(2)])
  qed
  then have "is_ok (try_fold write_batch_event (map fst items) bs)" for bs by (rule try_fold_is_ok)
  then obtain final where "try_fold write_batch_event (map fst items)
      (write_sequence_len (length items) (write_u16 BOUNDED_REPLAY_BATCH_SCHEMA_VERSION (digest_new REPLAY_BATCH_DIGEST_DOMAIN)))
      = Inr final" unfolding is_ok_iff by blast
  then show ?thesis by (simp add: batch_recompute_def queue_batch_def Let_def)
qed

text \<open>The limits of a sleep transaction.\<close>

definition within_limits :: "u32 \<Rightarrow> u32 \<Rightarrow> u32 \<Rightarrow> u32 list \<Rightarrow> nat \<Rightarrow> bool" where
  "within_limits max_events max_samples synapse_count ids count \<longleftrightarrow>
     max_events \<noteq> 0 \<and> max_events \<le> 65536 \<and> max_samples \<noteq> 0 \<and> synapse_count \<noteq> 0
     \<and> count \<le> unat max_events \<and> length ids * count \<le> unat max_samples
     \<and> list_all (\<lambda>synapse. synapse < synapse_count) ids"

lemma queue_batch_validate:
  assumes items: "length items \<le> 65536" "\<And>it. it \<in> set items \<Longrightarrow> I16_MIN \<notin> set (snd it) \<and> length (snd it) = length ids"
    and n: "length ids \<le> 64" and ids: "sorted_wrt (<) ids"
    and order: "sorted_wrt (<) (map (re_sequence_id \<circ> fst) items)"
    and digest: "batch_recompute (queue_batch ids items) = Inr d"
  shows "batch_validate max_events max_samples synapse_count (queue_batch ids items \<lparr> rb_canonical_digest := d \<rparr>)
    = (if within_limits max_events max_samples synapse_count ids (length items) then Inr ()
       else Inl ConsolidationGenerationMismatch)"
proof -
  let ?b = "queue_batch ids items \<lparr> rb_canonical_digest := d \<rparr>"
  have recompute: "batch_recompute ?b = Inr d" using digest by (simp add: batch_recompute_def)
  have events: "rb_events ?b = map fst items" and spans: "rb_synapse_spans ?b = spans_from 0 (length items) ids"
    and samples: "rb_eligibility_samples ?b = concat (map (item_row items) [0..<length ids])"
    and rest: "rb_schema_version ?b = BOUNDED_REPLAY_BATCH_SCHEMA_VERSION" "rb_canonical_digest ?b = d"
    by (simp_all add: queue_batch_def)
  have e: "\<not> windows2_any (\<lambda>a b. re_sequence_id b \<le> re_sequence_id a) (map fst items)"
    using order windows2_sorted_by [of re_sequence_id "map fst items"] by simp
  have s: "\<not> windows2_any (\<lambda>a b. ss_local_synapse_id b \<le> ss_local_synapse_id a) (spans_from 0 (length items) ids)"
    using ids windows2_sorted_by [of ss_local_synapse_id "spans_from 0 (length items) ids"] spans_from_ids by simp
  have count: "try_of_len (length (map fst items)) = Some (word_of_nat (length items) :: u32)"
    using items(1) by (simp add: try_of_len_def)
  have "length ids * length items \<le> 64 * 65536" using n items(1) by (intro mult_le_mono) simp_all
  then have end': "unat (word_of_nat (length ids * length items) :: u32) = length ids * length items"
    by (intro unat_small_word) simp
  have check: "check_spans (\<lambda>s. synapse_count \<le> ss_local_synapse_id s) (word_of_nat (length items))
      (concat (map (item_row items) [0..<length ids])) (spans_from 0 (length items) ids) 0
    = (if list_ex (\<lambda>synapse. synapse_count \<le> synapse) ids then Inl ConsolidationGenerationMismatch
       else Inr (word_of_nat (length ids * length items)))"
    using check_spans_batch [OF items n, of 0 ids synapse_count] by simp
  have bad: "list_ex (\<lambda>synapse. synapse_count \<le> synapse) ids \<longleftrightarrow> \<not> list_all (\<lambda>synapse. synapse < synapse_count) ids"
    by (simp add: list_ex_iff list_all_iff not_less)
  show ?thesis
    unfolding batch_validate_def events spans samples rest count recompute within_limits_def
    using items(1) e s end' by (auto simp: check bad not_less not_le)
qed

section \<open>Building it\<close>

lemma physical_order_slots:
  assumes "journal_inv j"
  shows "map unat (physical_order j) = live_slots j"
proof -
  let ?c = "unat (capacity_of j)" and ?m = "unat (sj_event_count j)"
  have cap: "?c \<le> 65536" and ring: "ring_ok ?c (unat (sj_cursor j)) ?m"
    using assms plan_okD(2) [of "sj_plan j"] by (auto simp: journal_inv_def capacity_of_def)
  have "unat (((if sj_event_count j = capacity_of j then sj_cursor j else 0) + word_of_nat k) mod capacity_of j)
      = ((if ?m = ?c then unat (sj_cursor j) else 0) + k) mod ?c" if k: "k < ?m" for k
  proof -
    have "unat (word_of_nat k :: u32) = k" using k ring cap by (intro unat_small_word) (simp add: ring_ok_def)
    moreover have "unat (sj_cursor j) + k < 2 ^ 32" using k ring cap by (simp add: ring_ok_def)
    ultimately show ?thesis by (simp add: word_ring_index word_unat_eq_iff)
  qed
  then show ?thesis by (simp add: physical_order_def live_slots_def ring_order_def Let_def)
qed

lemma span_samples_row:
  assumes inv: "journal_inv j" and i: "i < plan_width (sj_plan j)" and start: "unat start = i * unat (capacity_of j)"
  shows "span_samples (physical_order j) start (sj_physical_samples j) = Inr (item_row (journal_items j) i)"
proof -
  let ?c = "unat (capacity_of j)" and ?n = "plan_width (sj_plan j)"
  note slots = physical_order_slots [OF inv]
  have cap: "?c \<le> 65536" "?n \<le> 64" and ring: "ring_ok ?c (unat (sj_cursor j)) (unat (sj_event_count j))"
    and ls: "length (sj_physical_samples j) = ?n * ?c"
    using inv plan_okD(2,4) [of "sj_plan j"] by (auto simp: journal_inv_def capacity_of_def)
  have len: "length (physical_order j) \<le> 65536" using cap ring by (simp add: physical_order_def ring_ok_def Let_def)
  let ?g = "\<lambda>(k, p). \<lparr> es_event_index = word_of_nat k, es_eligibility_q15 = sj_physical_samples j ! (i * ?c + unat p) \<rparr>"
  have step: "(case kp of (k, p) \<Rightarrow> and_then (may_fail (ok_or ConsolidationGenerationMismatch (try_of_len k))) (\<lambda>k.
       and_then (elem_at (sj_physical_samples j) (unat (start + p))) (\<lambda>q.
         Inr \<lparr> es_event_index = k, es_eligibility_q15 = q \<rparr>))) = Inr (?g kp)"
    if kp: "kp \<in> set (enumerate 0 (physical_order j))" for kp
  proof (cases kp)
    case (Pair k p)
    have k: "k < length (physical_order j)" and p: "p = physical_order j ! k"
      using kp Pair by (auto simp: in_set_enumerate_eq)
    have "unat p = map unat (physical_order j) ! k" using k p by simp
    then have "unat p \<in> set (live_slots j)" unfolding slots [symmetric] using k by simp
    then have "unat p < ?c" by (rule live_slot_bound [OF inv])
    then have cell: "i * ?c + unat p < ?n * ?c" by (rule cell_bound [OF i])
    have "?n * ?c \<le> 64 * 65536" using cap by (intro mult_le_mono)
    then have "unat (start + p) = i * ?c + unat p" using cell start by (subst unat_plus_no_overflow) simp_all
    then show ?thesis using Pair k len cell ls by (simp add: try_of_len_def)
  qed
  have "span_samples (physical_order j) start (sj_physical_samples j) = Inr (map ?g (enumerate 0 (physical_order j)))"
    unfolding span_samples_def by (rule collect_results_map) (rule step)
  moreover have "map ?g (enumerate 0 (physical_order j)) = item_row (journal_items j) i"
  proof (rule nth_equalityI)
    show "length (map ?g (enumerate 0 (physical_order j))) = length (item_row (journal_items j) i)"
      using slots by (simp add: journal_items_def flip: slots)
  next
    fix k assume "k < length (map ?g (enumerate 0 (physical_order j)))"
    then have k: "k < length (physical_order j)" by simp
    have "journal_items j ! k = stored j (unat (physical_order j ! k))" using k by (simp add: journal_items_def flip: slots)
    moreover have "k < length (journal_items j)" using k by (simp add: journal_items_def flip: slots)
    ultimately show "map ?g (enumerate 0 (physical_order j)) ! k = item_row (journal_items j) i ! k"
      using k i by (simp add: item_row_def nth_enumerate_eq stored_def sample_row_def)
  qed
  ultimately show ?thesis by simp
qed

lemma build_spans_queue:
  assumes inv: "journal_inv j" and i: "i + length ids = plan_width (sj_plan j)"
    and len: "length samples = i * length (journal_items j)"
  shows "build_spans j i ids (spans, samples) = Inr (spans @ spans_from i (length (journal_items j)) ids,
    samples @ concat (map (item_row (journal_items j)) [i..<plan_width (sj_plan j)]))"
  using i len
proof (induction ids arbitrary: i spans samples)
  case Nil
  then show ?case by (simp add: spans_from_def)
next
  case (Cons x ids)
  let ?n = "plan_width (sj_plan j)" and ?c = "unat (capacity_of j)" and ?items = "journal_items j"
  have "i < ?n" using Cons.prems by simp
  have cap: "?c \<le> 65536" "?n \<le> 64" using inv plan_okD(2,4) [of "sj_plan j"] by (auto simp: journal_inv_def capacity_of_def)
  have items: "length ?items \<le> 65536" "length ?items = unat (sj_event_count j)"
    using inv cap by (auto simp: journal_inv_def ring_ok_def length_journal_items)
  have start: "try_of_len (length samples) = Some (word_of_nat (i * length ?items) :: u32)"
    using row_end_bound [OF \<open>i < ?n\<close> cap(2) items(1)] Cons.prems by (simp add: try_of_len_def del: of_nat_mult)
  have i: "unat (word_of_nat i :: u32) = i" using \<open>i < ?n\<close> cap by (simp add: unat_of_nat)
  have small: "i * ?c < 2 ^ 32" using row_end_bound [OF \<open>i < ?n\<close> cap(2,1)] by simp
  have phys: "checked_mul (word_of_nat i) (capacity_of j) = Some (word_of_nat i * capacity_of j)"
    using i small by (simp add: checked_mul_def)
  have ustart: "unat (word_of_nat i * capacity_of j) = i * ?c" using i small by (subst unat_mult_no_overflow) simp_all
  have step: "build_spans j i (x # ids) (spans, samples) = build_spans j (Suc i) ids
      (spans @ [\<lparr> ss_local_synapse_id = x, ss_sample_start = word_of_nat (i * length ?items),
         ss_sample_count = word_of_nat (length ?items), ss_reserved = 0 \<rparr>], samples @ item_row ?items i)"
    using \<open>i < ?n\<close> cap items(2) start phys span_samples_row [OF inv \<open>i < ?n\<close> ustart]
    by (simp add: try_of_len_def del: of_nat_mult)
  have "build_spans j (Suc i) ids (spans @ [\<lparr> ss_local_synapse_id = x, ss_sample_start = word_of_nat (i * length ?items),
         ss_sample_count = word_of_nat (length ?items), ss_reserved = 0 \<rparr>], samples @ item_row ?items i)
    = Inr ((spans @ [\<lparr> ss_local_synapse_id = x, ss_sample_start = word_of_nat (i * length ?items),
         ss_sample_count = word_of_nat (length ?items), ss_reserved = 0 \<rparr>]) @ spans_from (Suc i) (length ?items) ids,
       (samples @ item_row ?items i) @ concat (map (item_row ?items) [Suc i..<?n]))"
    by (rule Cons.IH) (use Cons.prems in simp_all)
  then show ?case unfolding step using \<open>i < ?n\<close> by (simp add: spans_from_Cons upt_conv_Cons del: of_nat_mult)
qed

lemma journal_events_collect:
  assumes inv: "journal_inv j"
  shows "collect_results (\<lambda>physical. and_then (elem_at (sj_events j) (unat physical))
      (\<lambda>slot. may_fail (ok_or ConsolidationGenerationMismatch slot))) (physical_order j) = Inr (map fst (journal_items j))"
proof -
  have "and_then (elem_at (sj_events j) (unat p)) (\<lambda>slot. may_fail (ok_or ConsolidationGenerationMismatch slot))
      = Inr (the (sj_events j ! unat p))" if p: "p \<in> set (physical_order j)" for p
  proof -
    have slot: "unat p \<in> set (live_slots j)" unfolding physical_order_slots [OF inv, symmetric] using p by simp
    then have "unat p < length (sj_events j)" using live_slot_bound [OF inv slot] inv by (simp add: journal_inv_def)
    moreover obtain e where "sj_events j ! unat p = Some e" using inv slot by (auto simp: journal_inv_def)
    ultimately show ?thesis by simp
  qed
  then have "collect_results (\<lambda>physical. and_then (elem_at (sj_events j) (unat physical))
      (\<lambda>slot. may_fail (ok_or ConsolidationGenerationMismatch slot))) (physical_order j)
    = Inr (map (\<lambda>p. the (sj_events j ! unat p)) (physical_order j))" by (rule collect_results_map)
  moreover have "map (\<lambda>p. the (sj_events j ! unat p)) (physical_order j) = map fst (journal_items j)"
    by (simp add: journal_items_def stored_def comp_def flip: physical_order_slots [OF inv])
  ultimately show ?thesis by simp
qed

lemma batch_of_journal:
  assumes inv: "journal_inv j" and lanes: "\<And>it. it \<in> set (journal_items j) \<Longrightarrow> sample_ok (re_modulator (fst it))"
  shows "\<exists>d. batch_recompute (queue_batch (cp_global_synapse_ids (sj_plan j)) (journal_items j)) = Inr d
    \<and> build_bounded_batch max_events max_samples synapse_count j =
      (if within_limits max_events max_samples synapse_count (cp_global_synapse_ids (sj_plan j)) (length (journal_items j))
       then Inr (queue_batch (cp_global_synapse_ids (sj_plan j)) (journal_items j) \<lparr> rb_canonical_digest := d \<rparr>)
       else Inl (Fails ConsolidationGenerationMismatch))"
proof -
  let ?ids = "cp_global_synapse_ids (sj_plan j)" and ?items = "journal_items j"
  have plan: "plan_ok (sj_plan j)" and cap: "length ?items \<le> 65536" "length ?ids \<le> 64"
    using inv plan_okD(2,4) [of "sj_plan j"]
    by (auto simp: journal_inv_def ring_ok_def length_journal_items capacity_of_def)
  have items: "event_validate (fst it) = Inr () \<and> I16_MIN \<notin> set (snd it) \<and> length (snd it) = length ?ids"
    if "it \<in> set ?items" for it
    using that inv by (auto simp: journal_inv_def list_all_iff item_ok_def)
      (auto simp: journal_items_def stored_def sample_row_def)
  have "is_ok (batch_recompute (queue_batch ?ids ?items))" using items lanes by (intro queue_batch_recompute) blast
  then obtain d where d: "batch_recompute (queue_batch ?ids ?items) = Inr d" unfolding is_ok_iff by blast
  have valid: "batch_validate max_events max_samples synapse_count (queue_batch ?ids ?items \<lparr> rb_canonical_digest := d \<rparr>)
      = (if within_limits max_events max_samples synapse_count ?ids (length ?items) then Inr ()
         else Inl ConsolidationGenerationMismatch)"
  proof (rule queue_batch_validate [OF cap(1) _ cap(2) plan_okD(7) [OF plan] _ d])
    show "sorted_wrt (<) (map (re_sequence_id \<circ> fst) ?items)" using inv by (simp add: journal_inv_def)
    show "I16_MIN \<notin> set (snd it) \<and> length (snd it) = length ?ids" if "it \<in> set ?items" for it
      using items [OF that] by blast
  qed
  have spans: "build_spans j 0 ?ids ([], []) = Inr (spans_from 0 (length ?items) ?ids,
      concat (map (item_row ?items) [0..<length ?ids]))"
    using build_spans_queue [OF inv, of 0 ?ids "[]" "[]"] by simp
  have over: "\<not> within_limits max_events max_samples synapse_count ?ids (length ?items)" if "max_events < sj_event_count j"
    using that by (auto simp: within_limits_def length_journal_items word_less_nat_alt)
  have "build_bounded_batch max_events max_samples synapse_count j =
      (if max_events < sj_event_count j then Inl (Fails ConsolidationGenerationMismatch)
       else and_then (may_fail (batch_recompute (queue_batch ?ids ?items))) (\<lambda>d.
         let b = queue_batch ?ids ?items \<lparr> rb_canonical_digest := d \<rparr>
         in and_then (may_fail (batch_validate max_events max_samples synapse_count b)) (\<lambda>_. Inr b)))"
    using plan unfolding build_bounded_batch_def journal_events_collect [OF inv] spans
    by (simp add: plan_ok_def queue_batch_def Let_def)
  then show ?thesis using d valid over by (auto simp: Let_def)
qed

lemma journal_inv_plan: "journal_inv j \<Longrightarrow> sj_plan (run_ops journal_step ops j) = sj_plan j"
proof (induction ops arbitrary: j)
  case (Cons op ops)
  have "sj_plan (snd (journal_step op j)) = sj_plan j" using push_effect [OF Cons.prems, of op] by auto
  then show ?case using Cons.IH [OF journal_queue.step_keeps [OF Cons.prems]] by simp
qed simp

lemma accepted_ops_subset: "set (accepted_ops step ops s) \<subseteq> set ops"
  by (induction ops arbitrary: s) auto

text \<open>
  Sleep takes out of a journal exactly its queue, oldest event first, with the samples of each
  captured synapse in the same order and sealed by its digest. The batch passes its own validation; it
  is refused exactly when the queue is over the limits of the transaction, and nothing panics.
\<close>

lemma batch_is_the_queue:
  assumes "journal_new plan = Inr j0" and "\<forall>op \<in> set ops. sample_ok (re_modulator (fst (pushed_item op)))"
  shows "let j = run_ops journal_step ops j0; batch = queue_batch (cp_global_synapse_ids plan) (journal_items j)
    in \<exists>d. batch_recompute batch = Inr d \<and> build_bounded_batch max_events max_samples synapse_count j =
      (if within_limits max_events max_samples synapse_count (cp_global_synapse_ids plan) (length (journal_items j))
       then Inr (batch \<lparr> rb_canonical_digest := d \<rparr>) else Inl (Fails ConsolidationGenerationMismatch))"
proof -
  have j0: "journal_inv j0" "journal_items j0 = []" "sj_plan j0 = plan" using journal_new_inv [OF assms(1)] by blast+
  let ?j = "run_ops journal_step ops j0"
  have inv: "journal_inv ?j" by (rule journal_queue.run_keeps [OF j0(1)])
  have plan: "sj_plan ?j = plan"
    using journal_inv_plan [OF j0(1), of ops] j0(3) by simp
  have "sample_ok (re_modulator (fst it))" if "it \<in> set (journal_items ?j)" for it
  proof -
    have "it \<in> set (map pushed_item (accepted_ops journal_step ops j0))"
      using that journal_queue.holds_last_items [OF j0(1), of ops] j0(2)
      by (auto simp: last_items_def dest: in_set_dropD)
    then show ?thesis using assms(2) accepted_ops_subset [of journal_step ops j0] by auto
  qed
  from batch_of_journal [OF inv this] show ?thesis unfolding Let_def plan .
qed

end
