(* ===== verification/Replay_Examples.thy ===== *)
theory Replay_Examples
  imports Replay_Batch
begin

text \<open>A guard that commits two sequences, and a journal of two slots that captures one synapse.\<close>

definition ex_guard :: LearningSequenceGuard where
  "ex_guard = \<lparr> lg_organism_id = 7, lg_phenotype_hash = (1, 2, 3, 4), lg_last_committed = None \<rparr>"

definition ex_key :: "u64 \<Rightarrow> OutcomeCreditReplayKey" where
  "ex_key n = \<lparr> rk_organism_id = 7, rk_phenotype_hash = (1, 2, 3, 4), rk_sequence_id = n \<rparr>"

definition ex_commits :: "GuardOp list" where
  "ex_commits = [CommitLearning \<lparr> ct_expected_previous = None, ct_next = ex_key 5 \<rparr>,
     CommitLearning \<lparr> ct_expected_previous = None, ct_next = ex_key 5 \<rparr>,
     CommitLearning \<lparr> ct_expected_previous = Some (ex_key 5), ct_next = ex_key 9 \<rparr>]"

lemma learning_committed_once_witness:
  "committed_sequences ex_commits ex_guard = [5, 9] \<and> distinct (committed_sequences ex_commits ex_guard)"
proof -
  have "guard_restore_validated 7 (1, 2, 3, 4) None = Inr ex_guard"
    by (simp add: guard_restore_validated_def ex_guard_def id_validate_nonzero)
  from learning_committed_once [OF this, of ex_commits] show ?thesis
    by (simp add: committed_sequences_def ex_commits_def ex_guard_def ex_key_def commit_validated_def
        already_committed_def is_some_and_def id_validate_nonzero)
qed

lemma preflight_decides_commit_witness:
  "is_ok (validate_next (ex_key 5) ex_guard)"
  using preflight_decides_commit [of ex_guard "ex_key 5"] by (simp add: ex_guard_def ex_key_def guard_cursor_def)

definition ex_plan :: ReplayCapturePlan where
  "ex_plan = projr (plan_try_new [3] 1 2 2)"

lemma ex_plan: "plan_validate ex_plan = Inr ()" "cp_event_capacity ex_plan = 2" "cp_global_synapse_ids ex_plan = [3]"
  by (simp_all add: ex_plan_def plan_try_new_def plan_validate_def plan_validate_shape_def Let_def checked_mul_def
      MAX_REPLAY_CAPTURE_SYNAPSES_def plan_recompute_digest_def)

definition ex_event :: "u64 \<Rightarrow> SleepReplayEvent" where
  "ex_event n = \<lparr> re_sequence_id = n, re_originating_tick = 1, re_frame_digest = (1, 0, 0, 0),
     re_candidate_feature_digest = (1, 0), re_action_id = 4, re_family = FamilyIngest,
     re_modulator = sample_from_frame (replicate 8 f32_zero) \<rparr>"

definition ex_pushes :: "JournalOp list" where
  "ex_pushes = [PushEvent (ex_event 1) [f32_zero], PushEvent (ex_event 2) [f32_zero]]"

lemma ex_sample_ok: "sample_ok (re_modulator (ex_event n))"
  by (simp add: ex_event_def sample_ok_def frame_ok_def NEUROMODULATORY_LANE_COUNT_def list_all_iff f32_in_range_def
      f32_le_def) (simp add: f32_is_finite_def f32_zero_def f32_exponent_def)

lemma journal_keeps_last_events_witness:
  "\<exists>j0. journal_new ex_plan = Inr j0 \<and> journal_items (run_ops journal_step ex_pushes j0)
     = last_items 2 (map pushed_item (accepted_ops journal_step ex_pushes j0))"
proof -
  obtain j0 where j0: "journal_new ex_plan = Inr j0" by (simp add: journal_new_def ex_plan)
  from journal_keeps_last_events [OF j0, of ex_pushes] show ?thesis using j0 by (simp add: Let_def ex_plan)
qed

lemma batch_is_the_queue_witness:
  "\<exists>j0. journal_new ex_plan = Inr j0 \<and> is_ok (build_bounded_batch 256 8192 10 (run_ops journal_step ex_pushes j0))"
proof -
  obtain j0 where j0: "journal_new ex_plan = Inr j0" by (simp add: journal_new_def ex_plan)
  have ok: "\<forall>op \<in> set ex_pushes. sample_ok (re_modulator (fst (pushed_item op)))" by (simp add: ex_pushes_def ex_sample_ok)
  have "length (journal_items (run_ops journal_step ex_pushes j0)) \<le> 2"
    using journal_keeps_last_events [OF j0, of ex_pushes] by (simp add: Let_def ex_plan length_last_items)
  then have "within_limits 256 8192 10 [3] (length (journal_items (run_ops journal_step ex_pushes j0)))"
    by (simp add: within_limits_def)
  then show ?thesis using batch_is_the_queue [OF j0 ok, of 256 8192 10] j0 by (auto simp: Let_def ex_plan)
qed

end
