(* ===== verification/Replay_Codec.thy ===== *)
theory Replay_Codec
  imports Replay
begin

text \<open>
  \<open>crates/alife_runtime/src/checkpoint_assets/replay_codec.rs\<close>: the GPU keeps the replay journal as a
  ring of event rows and of packed samples; a checkpoint stores it as a portable journal
  (\<open>PortableReplayJournalV1\<close> of \<open>crates/alife_world/src/persistence/gpu_brain.rs\<close>) with the rows in
  logical order and the samples compacted. The rows and the packing of a sample are those of
  \<open>closed_loop_buffers/abi.rs\<close> of the GPU backend. \<open>usize\<close> is \<open>nat\<close>: a product of two lengths of vectors
  in memory does not reach \<open>2 ^ 64\<close>.
\<close>

section \<open>Rows of the GPU\<close>

type_synonym u32x2 = "u32 \<times> u32"
type_synonym u32x4 = "u32 \<times> u32 \<times> u32 \<times> u32"
type_synonym u32x8 = "u32 \<times> u32 \<times> u32 \<times> u32 \<times> u32 \<times> u32 \<times> u32 \<times> u32"

record GpuReplayEventRecord =
  ge_sequence_id :: u32x2
  ge_originating_tick :: u32x2
  ge_frame_digest :: u32x8
  ge_candidate_feature_digest :: u32x4
  ge_action_id :: u32
  ge_family :: u32
  ge_prediction_residual :: f32
  ge_pain :: f32
  ge_homeostatic_improvement :: f32
  ge_frustration :: f32
  ge_novelty :: f32
  ge_social_consequence :: f32
  ge_biochemical_appetitive :: f32
  ge_biochemical_aversive :: f32
  ge_reserved :: u32x2

record GpuReplaySynapseSpanRecord =
  gs_local_synapse_id :: u32
  gs_sample_start :: u32
  gs_sample_count :: u32
  gs_reserved :: u32

record PhysicalReplayParts =
  pr_events :: "GpuReplayEventRecord list"
  pr_spans :: "GpuReplaySynapseSpanRecord list"
  pr_samples :: "u32 list"

definition pack_replay_eligibility_sample :: "u16 \<Rightarrow> i16 \<Rightarrow> u32" where
  "pack_replay_eligibility_sample event_index q15 = ucast event_index OR push_bit 16 (ucast q15)"

definition unpack_replay_eligibility_sample :: "u32 \<Rightarrow> u16 \<times> i16" where
  "unpack_replay_eligibility_sample w = (ucast w, ucast (drop_bit 16 w))"

definition split_pair :: "u64 \<Rightarrow> u32x2" where
  "split_pair v = (ucast v, ucast (drop_bit 32 v))"

definition join_pair :: "u32x2 \<Rightarrow> u64" where
  "join_pair v = (case v of (lo, hi) \<Rightarrow> ucast lo OR push_bit 32 (ucast hi))"

definition split_digest4 :: "digest4 \<Rightarrow> u32x8" where
  "split_digest4 d = (case d of (a, b, c, e) \<Rightarrow>
     case split_pair a of (a0, a1) \<Rightarrow> case split_pair b of (b0, b1) \<Rightarrow>
     case split_pair c of (c0, c1) \<Rightarrow> case split_pair e of (e0, e1) \<Rightarrow> (a0, a1, b0, b1, c0, c1, e0, e1))"

definition join_digest4 :: "u32x8 \<Rightarrow> digest4" where
  "join_digest4 d = (case d of (a0, a1, b0, b1, c0, c1, e0, e1) \<Rightarrow>
     (join_pair (a0, a1), join_pair (b0, b1), join_pair (c0, c1), join_pair (e0, e1)))"

definition split_digest2 :: "u64 \<times> u64 \<Rightarrow> u32x4" where
  "split_digest2 d = (case d of (a, b) \<Rightarrow>
     case split_pair a of (a0, a1) \<Rightarrow> case split_pair b of (b0, b1) \<Rightarrow> (a0, a1, b0, b1))"

definition join_digest2 :: "u32x4 \<Rightarrow> u64 \<times> u64" where
  "join_digest2 d = (case d of (a0, a1, b0, b1) \<Rightarrow> (join_pair (a0, a1), join_pair (b0, b1)))"

definition decode_event :: "GpuReplayEventRecord \<Rightarrow> SleepReplayEvent contract" where
  "decode_event row =
     and_then (frame_try_new [ge_prediction_residual row, ge_pain row, ge_homeostatic_improvement row,
         ge_frustration row, ge_novelty row, ge_social_consequence row, ge_biochemical_appetitive row,
         ge_biochemical_aversive row]) (\<lambda>frame.
       if ge_reserved row \<noteq> (0, 0) then Inl ConsolidationGenerationMismatch
       else
         and_then (ok_or ConsolidationGenerationMismatch (try_narrow (ge_family row))) (\<lambda>raw.
         and_then (family_try_from_raw raw) (\<lambda>family. Inr \<lparr>
           re_sequence_id = join_pair (ge_sequence_id row),
           re_originating_tick = join_pair (ge_originating_tick row),
           re_frame_digest = join_digest4 (ge_frame_digest row),
           re_candidate_feature_digest = join_digest2 (ge_candidate_feature_digest row),
           re_action_id = ge_action_id row, re_family = family,
           re_modulator = sample_from_frame frame \<rparr>)))"

definition row_of :: "SleepReplayEvent \<Rightarrow> GpuReplayEventRecord" where
  "row_of e = (let m = re_modulator e in \<lparr>
     ge_sequence_id = split_pair (re_sequence_id e),
     ge_originating_tick = split_pair (re_originating_tick e),
     ge_frame_digest = split_digest4 (re_frame_digest e),
     ge_candidate_feature_digest = split_digest2 (re_candidate_feature_digest e),
     ge_action_id = re_action_id e, ge_family = ucast (family_raw (re_family e)),
     ge_prediction_residual = nm_prediction_residual m, ge_pain = nm_pain m,
     ge_homeostatic_improvement = nm_homeostatic_improvement m, ge_frustration = nm_frustration m,
     ge_novelty = nm_novelty m, ge_social_consequence = nm_frame m ! 5,
     ge_biochemical_appetitive = nm_frame m ! 6, ge_biochemical_aversive = nm_frame m ! 7,
     ge_reserved = (0, 0) \<rparr>)"

definition encode_event :: "SleepReplayEvent \<Rightarrow> GpuReplayEventRecord contract" where
  "encode_event e =
     and_then (id_validate (re_sequence_id e)) (\<lambda>_.
     and_then (action_id_validate (re_action_id e)) (\<lambda>_. Inr (row_of e)))"

definition zero_event :: GpuReplayEventRecord where
  "zero_event = \<lparr>
     ge_sequence_id = (0, 0), ge_originating_tick = (0, 0), ge_frame_digest = (0, 0, 0, 0, 0, 0, 0, 0),
     ge_candidate_feature_digest = (0, 0, 0, 0), ge_action_id = 0, ge_family = 0,
     ge_prediction_residual = f32_zero, ge_pain = f32_zero, ge_homeostatic_improvement = f32_zero,
     ge_frustration = f32_zero, ge_novelty = f32_zero, ge_social_consequence = f32_zero,
     ge_biochemical_appetitive = f32_zero, ge_biochemical_aversive = f32_zero, ge_reserved = (0, 0) \<rparr>"

text \<open>The derived \<open>PartialEq\<close> of the rows: the floats are compared as floats, so \<open>-0.0\<close> is zero.\<close>

definition event_is_zero :: "GpuReplayEventRecord \<Rightarrow> bool" where
  "event_is_zero e \<longleftrightarrow>
     ge_sequence_id e = (0, 0) \<and> ge_originating_tick e = (0, 0) \<and> ge_frame_digest e = (0, 0, 0, 0, 0, 0, 0, 0)
     \<and> ge_candidate_feature_digest e = (0, 0, 0, 0) \<and> ge_action_id e = 0 \<and> ge_family e = 0
     \<and> list_all (\<lambda>v. f32_eq v f32_zero) [ge_prediction_residual e, ge_pain e, ge_homeostatic_improvement e,
         ge_frustration e, ge_novelty e, ge_social_consequence e, ge_biochemical_appetitive e,
         ge_biochemical_aversive e]
     \<and> ge_reserved e = (0, 0)"

section \<open>The portable journal\<close>

definition GPU_BRAIN_PORTABLE_ASSET_SCHEMA_VERSION :: u16 where "GPU_BRAIN_PORTABLE_ASSET_SCHEMA_VERSION = 2"
definition REPLAY_JOURNAL_DIGEST_DOMAIN :: bytes where
  "REPLAY_JOURNAL_DIGEST_DOMAIN = map (\<lambda>c. of_nat (of_char c)) ''ALIFE-GPU-REPLAY-JOURNAL-V1''"

record PortableReplayJournalV1 =
  pj_schema_version :: u16
  pj_phenotype_hash :: digest4
  pj_replay_capture_plan_digest :: digest4
  pj_generation :: u64
  pj_cursor :: u32
  pj_event_count :: u32
  pj_event_capacity :: u32
  pj_sample_capacity :: u32
  pj_events :: "SleepReplayEvent list"
  pj_synapse_spans :: "ReplaySynapseSpan list"
  pj_eligibility_samples :: "ReplayEligibilitySample list"
  pj_canonical_digest :: digest4

definition validate_replay_event :: "SleepReplayEvent \<Rightarrow> unit contract" where
  "validate_replay_event e =
     and_then (id_validate (re_sequence_id e)) (\<lambda>_.
     and_then (action_id_validate (re_action_id e)) (\<lambda>_.
       if re_frame_digest e = zero4 \<or> re_candidate_feature_digest e = (0, 0)
          \<or> list_ex (\<lambda>v. \<not> f32_is_finite v \<or> \<not> f32_in_range f32_minus_one f32_one v) (nm_frame (re_modulator e))
       then Inl ConsolidationGenerationMismatch else Inr ()))"

definition write_replay_event :: "SleepReplayEvent \<Rightarrow> bytes \<Rightarrow> bytes contract" where
  "write_replay_event e bs =
     and_then (validate_replay_event e) (\<lambda>_.
       let bs = write_u64 (re_originating_tick e) (write_u64 (re_sequence_id e) bs);
           bs = write_digest4 (re_frame_digest e) bs;
           bs = (case re_candidate_feature_digest e of (a, b) \<Rightarrow> write_u64 b (write_u64 a bs));
           bs = write_u8 (family_raw (re_family e)) (write_u32 (re_action_id e) bs)
       in try_fold write_f32 (nm_frame (re_modulator e)) bs)"

definition portable_recompute :: "PortableReplayJournalV1 \<Rightarrow> digest4 contract" where
  "portable_recompute p =
     (let bs = write_u16 (pj_schema_version p) (digest_new REPLAY_JOURNAL_DIGEST_DOMAIN);
          bs = write_digest4 (pj_replay_capture_plan_digest p) (write_digest4 (pj_phenotype_hash p) bs);
          bs = write_u32 (pj_cursor p) (write_u64 (pj_generation p) bs);
          bs = write_u32 (pj_event_capacity p) (write_u32 (pj_event_count p) bs);
          bs = write_u32 (pj_sample_capacity p) bs;
          bs = write_sequence_len (length (pj_events p)) bs
      in and_then (try_fold write_replay_event (pj_events p) bs) (\<lambda>bs.
           Inr (finish256 (write_spans_and_samples (pj_synapse_spans p) (pj_eligibility_samples p) bs))))"

definition portable_validate :: "PortableReplayJournalV1 \<Rightarrow> unit contract" where
  "portable_validate p =
     and_then (ok_or ConsolidationGenerationMismatch (try_of_len (length (pj_synapse_spans p)))) (\<lambda>span_count.
     and_then (ok_or ConsolidationGenerationMismatch (checked_mul (pj_event_capacity p) span_count)) (\<lambda>expected_capacity.
     and_then (ok_or ConsolidationGenerationMismatch (checked_mul (pj_event_count p) span_count)) (\<lambda>expected_live.
       if pj_schema_version p \<noteq> GPU_BRAIN_PORTABLE_ASSET_SCHEMA_VERSION
          \<or> pj_phenotype_hash p = zero4 \<or> pj_replay_capture_plan_digest p = zero4
          \<or> pj_generation p = 0 \<or> pj_event_capacity p = 0 \<or> 65536 < pj_event_capacity p
          \<or> pj_event_capacity p < pj_event_count p \<or> pj_event_capacity p \<le> pj_cursor p
          \<or> (pj_event_count p < pj_event_capacity p \<and> pj_cursor p \<noteq> pj_event_count p)
          \<or> length (pj_events p) \<noteq> unat (pj_event_count p)
          \<or> span_count = 0 \<or> MAX_REPLAY_CAPTURE_SYNAPSES < span_count
          \<or> pj_sample_capacity p \<noteq> expected_capacity
          \<or> length (pj_eligibility_samples p) \<noteq> unat expected_live
          \<or> windows2_any (\<lambda>a b. re_sequence_id b \<le> re_sequence_id a) (pj_events p)
          \<or> list_ex (\<lambda>e. \<not> is_ok (validate_replay_event e)) (pj_events p)
          \<or> windows2_any (\<lambda>a b. ss_local_synapse_id b \<le> ss_local_synapse_id a) (pj_synapse_spans p)
       then Inl ConsolidationGenerationMismatch
       else
         and_then (check_spans (\<lambda>_. False) (pj_event_count p) (pj_eligibility_samples p) (pj_synapse_spans p) 0) (\<lambda>end.
           if end \<noteq> expected_live then Inl ConsolidationGenerationMismatch
           else and_then (portable_recompute p) (\<lambda>d.
             if pj_canonical_digest p \<noteq> d then Inl ConsolidationGenerationMismatch else Inr ())))))"

section \<open>Encoding\<close>

type_synonym codec_fault = "ScaffoldContractError fault"

abbreviation mismatch :: "codec_fault" where "mismatch \<equiv> Fails ConsolidationGenerationMismatch"

definition physical_order_of :: "nat \<Rightarrow> u32 \<Rightarrow> u32 \<Rightarrow> nat list" where
  "physical_order_of capacity cursor count = ring_order capacity (unat cursor) (unat count)"

definition encode_sample :: "u32 list \<Rightarrow> nat \<Rightarrow> nat \<times> nat \<Rightarrow> codec_fault + ReplayEligibilitySample" where
  "encode_sample samples physical_start x = (case x of (logical_event, physical_event) \<Rightarrow>
     and_then (elem_at samples (physical_start + physical_event)) (\<lambda>packed.
       case unpack_replay_eligibility_sample packed of (sample_event, q) \<Rightarrow>
         if unat sample_event \<noteq> physical_event \<or> q = I16_MIN then Inl mismatch
         else and_then (may_fail (ok_or ConsolidationGenerationMismatch (try_of_len logical_event))) (\<lambda>index.
           Inr \<lparr> es_event_index = index, es_eligibility_q15 = q \<rparr>)))"

definition check_dead_samples :: "u32 list \<Rightarrow> nat \<Rightarrow> nat \<Rightarrow> nat \<Rightarrow> codec_fault + unit" where
  "check_dead_samples samples physical_start count capacity =
     check_all (\<lambda>physical_event.
       if physical_event < count then Inr ()
       else and_then (elem_at samples (physical_start + physical_event)) (\<lambda>v. if v \<noteq> 0 then Inl mismatch else Inr ()))
       [0..<capacity]"

text \<open>One span; the state is the synapse id before it and the spans and samples so far.\<close>

definition encode_span ::
  "PhysicalReplayParts \<Rightarrow> u32 \<Rightarrow> nat list \<Rightarrow> nat \<times> GpuReplaySynapseSpanRecord
   \<Rightarrow> u32 option \<times> ReplaySynapseSpan list \<times> ReplayEligibilitySample list
   \<Rightarrow> codec_fault + u32 option \<times> ReplaySynapseSpan list \<times> ReplayEligibilitySample list" where
  "encode_span physical event_count order x st = (case x of (capture_index, span) \<Rightarrow> case st of (previous, spans, samples) \<Rightarrow>
     let capacity = length (pr_events physical); count = unat event_count; physical_start = capture_index * capacity
     in if unat (gs_sample_start span) \<noteq> physical_start \<or> unat (gs_sample_count span) \<noteq> count \<or> gs_reserved span \<noteq> 0
          \<or> (case previous of None \<Rightarrow> False | Some p \<Rightarrow> gs_local_synapse_id span \<le> p)
        then Inl mismatch
        else
          and_then (may_fail (ok_or ConsolidationGenerationMismatch (try_of_len (length samples)))) (\<lambda>compact_start.
          and_then (collect_results (encode_sample (pr_samples physical) physical_start) (enumerate 0 order)) (\<lambda>here.
          and_then (check_dead_samples (pr_samples physical) physical_start count capacity) (\<lambda>_.
            Inr (Some (gs_local_synapse_id span),
              spans @ [\<lparr> ss_local_synapse_id = gs_local_synapse_id span, ss_sample_start = compact_start,
                ss_sample_count = event_count, ss_reserved = 0 \<rparr>], samples @ here)))))"

definition check_dead_events :: "GpuReplayEventRecord list \<Rightarrow> nat \<Rightarrow> codec_fault + unit" where
  "check_dead_events events count =
     check_all (\<lambda>(index, e). if count \<le> index \<and> \<not> event_is_zero e then Inl mismatch else Inr ()) (enumerate 0 events)"

definition encode_portable_replay ::
  "digest4 \<Rightarrow> digest4 \<Rightarrow> u64 \<Rightarrow> u32 \<Rightarrow> u32 \<Rightarrow> PhysicalReplayParts \<Rightarrow> codec_fault + PortableReplayJournalV1" where
  "encode_portable_replay phenotype_hash plan_digest generation cursor event_count physical =
     (let capacity = length (pr_events physical); count = unat event_count
      in if capacity = 0 \<or> capacity < count \<or> capacity \<le> unat cursor
            \<or> length (pr_samples physical) \<noteq> capacity * length (pr_spans physical)
         then Inl mismatch
         else
           let order = physical_order_of capacity cursor event_count
           in and_then (collect_results (\<lambda>i. and_then (elem_at (pr_events physical) i) (\<lambda>row. may_fail (decode_event row)))
                order) (\<lambda>events.
              and_then (check_dead_events (pr_events physical) count) (\<lambda>_.
              and_then (try_fold (encode_span physical event_count order) (enumerate 0 (pr_spans physical)) (None, [], []))
                (\<lambda>(_, spans, samples).
              and_then (may_fail (ok_or ConsolidationGenerationMismatch (try_of_len capacity))) (\<lambda>event_capacity.
              and_then (may_fail (ok_or ConsolidationGenerationMismatch (try_of_len (length (pr_samples physical)))))
                (\<lambda>sample_capacity.
                let p = \<lparr> pj_schema_version = GPU_BRAIN_PORTABLE_ASSET_SCHEMA_VERSION, pj_phenotype_hash = phenotype_hash,
                      pj_replay_capture_plan_digest = plan_digest, pj_generation = generation, pj_cursor = cursor,
                      pj_event_count = event_count, pj_event_capacity = event_capacity,
                      pj_sample_capacity = sample_capacity, pj_events = events, pj_synapse_spans = spans,
                      pj_eligibility_samples = samples, pj_canonical_digest = zero4 \<rparr>
                in and_then (may_fail (portable_recompute p)) (\<lambda>d.
                   let p = p \<lparr> pj_canonical_digest := d \<rparr>
                   in and_then (may_fail (portable_validate p)) (\<lambda>_. Inr p))))))))"

section \<open>Decoding\<close>

definition decode_rows :: "SleepReplayEvent list \<Rightarrow> nat list \<Rightarrow> nat \<Rightarrow> codec_fault + GpuReplayEventRecord list" where
  "decode_rows events order capacity =
     try_fold (\<lambda>(e, i) rows. and_then (may_fail (encode_event e)) (assign_at rows i)) (zip events order)
       (replicate capacity zero_event)"

definition decode_sample ::
  "nat \<Rightarrow> (nat \<times> ReplayEligibilitySample) \<times> nat \<Rightarrow> u32 list \<Rightarrow> codec_fault + u32 list" where
  "decode_sample physical_start x samples = (case x of ((logical_event, sample), physical_event) \<Rightarrow>
     if unat (es_event_index sample) \<noteq> logical_event \<or> es_eligibility_q15 sample = I16_MIN then Inl mismatch
     else and_then (may_fail (ok_or ConsolidationGenerationMismatch (try_of_len physical_event))) (\<lambda>index.
       assign_at samples (physical_start + physical_event)
         (pack_replay_eligibility_sample index (es_eligibility_q15 sample))))"

definition decode_span ::
  "PortableReplayJournalV1 \<Rightarrow> nat list \<Rightarrow> nat \<times> ReplaySynapseSpan \<Rightarrow> GpuReplaySynapseSpanRecord list \<times> u32 list
   \<Rightarrow> codec_fault + GpuReplaySynapseSpanRecord list \<times> u32 list" where
  "decode_span p order x st = (case x of (capture_index, span) \<Rightarrow> case st of (spans, samples) \<Rightarrow>
     let capacity = unat (pj_event_capacity p); count = unat (pj_event_count p);
         physical_start = capture_index * capacity; compact_start = unat (ss_sample_start span)
     in and_then (may_fail (ok_or ConsolidationGenerationMismatch
            (get_range (pj_eligibility_samples p) compact_start (compact_start + count)))) (\<lambda>here.
        and_then (try_fold (decode_sample physical_start) (zip (enumerate 0 here) order) samples) (\<lambda>samples.
        and_then (may_fail (ok_or ConsolidationGenerationMismatch (try_of_len physical_start))) (\<lambda>start.
          Inr (spans @ [\<lparr> gs_local_synapse_id = ss_local_synapse_id span, gs_sample_start = start,
            gs_sample_count = pj_event_count p, gs_reserved = 0 \<rparr>], samples)))))"

definition decode_physical_replay :: "PortableReplayJournalV1 \<Rightarrow> codec_fault + PhysicalReplayParts" where
  "decode_physical_replay p =
     and_then (may_fail (portable_validate p)) (\<lambda>_.
       let capacity = unat (pj_event_capacity p);
           order = physical_order_of capacity (pj_cursor p) (pj_event_count p)
       in and_then (decode_rows (pj_events p) order capacity) (\<lambda>events.
          and_then (try_fold (decode_span p order) (enumerate 0 (pj_synapse_spans p))
              ([], replicate (unat (pj_sample_capacity p)) 0)) (\<lambda>(spans, samples).
            Inr \<lparr> pr_events = events, pr_spans = spans, pr_samples = samples \<rparr>)))"

end
