(* ===== verification/Replay_Codec_Proofs.thy ===== *)
theory Replay_Codec_Proofs
  imports Replay_Codec Replay_Batch
begin

text \<open>
  The codec is lossless: what it writes for a GPU ring reads back as that ring, and what it reads from
  a portable journal is written back as that journal. Both sides are described by one relation,
  \<open>represents\<close>, that places every event and every sample.
\<close>

section \<open>Words\<close>

lemma unpack_pack: "unpack_replay_eligibility_sample (pack_replay_eligibility_sample i q) = (i, q)"
proof -
  have "(ucast (ucast i OR push_bit 16 (ucast q) :: u32) :: u16) = i"
    by (rule bit_word_eqI) (auto simp: bit_simps)
  moreover have "(ucast (drop_bit 16 (ucast i OR push_bit 16 (ucast q) :: u32)) :: i16) = q"
    by (rule bit_word_eqI) (auto simp: bit_simps dest: bit_imp_le_length)
  ultimately show ?thesis by (simp add: unpack_replay_eligibility_sample_def pack_replay_eligibility_sample_def)
qed

lemma pack_unpack: "unpack_replay_eligibility_sample w = (i, q) \<Longrightarrow> pack_replay_eligibility_sample i q = w"
proof -
  assume "unpack_replay_eligibility_sample w = (i, q)"
  then have "i = ucast w" "q = ucast (drop_bit 16 w)" by (simp_all add: unpack_replay_eligibility_sample_def)
  moreover have "(ucast (ucast w :: u16) OR push_bit 16 (ucast (ucast (drop_bit 16 w) :: i16)) :: u32) = w"
    by (rule bit_word_eqI) (auto simp: bit_simps not_less)
  ultimately show ?thesis by (simp add: pack_replay_eligibility_sample_def)
qed

lemma join_split [simp]: "join_pair (split_pair v) = v"
  by (simp add: join_pair_def split_pair_def, rule bit_word_eqI) (auto simp: bit_simps not_less)

lemma split_join [simp]: "split_pair (join_pair p) = p"
proof (cases p)
  case (Pair lo hi)
  have "(ucast (ucast lo OR push_bit 32 (ucast hi) :: u64) :: u32) = lo"
    by (rule bit_word_eqI) (auto simp: bit_simps)
  moreover have "(ucast (drop_bit 32 (ucast lo OR push_bit 32 (ucast hi) :: u64)) :: u32) = hi"
    by (rule bit_word_eqI) (auto simp: bit_simps dest: bit_imp_le_length)
  ultimately show ?thesis using Pair by (simp add: join_pair_def split_pair_def)
qed

lemma join_split_digest4 [simp]: "join_digest4 (split_digest4 d) = d"
  by (cases d) (simp add: join_digest4_def split_digest4_def split: prod.splits, metis join_split)

lemma split_join_digest4 [simp]: "split_digest4 (join_digest4 d) = d"
  by (cases d) (simp add: join_digest4_def split_digest4_def)

lemma join_split_digest2 [simp]: "join_digest2 (split_digest2 d) = d"
  by (cases d) (simp add: join_digest2_def split_digest2_def split: prod.splits, metis join_split)

lemma split_join_digest2 [simp]: "split_digest2 (join_digest2 d) = d"
  by (cases d) (simp add: join_digest2_def split_digest2_def)

section \<open>One event\<close>

lemma decoded_event_row:
  assumes "decode_event row = Inr e"
  shows "row_of e = row" and "sample_ok (re_modulator e)"
proof -
  let ?lanes = "[ge_prediction_residual row, ge_pain row, ge_homeostatic_improvement row,
         ge_frustration row, ge_novelty row, ge_social_consequence row, ge_biochemical_appetitive row,
         ge_biochemical_aversive row]"
  have r: "list_all (\<lambda>v. f32_is_finite v \<and> f32_in_range f32_minus_one f32_one v) ?lanes"
    "ge_reserved row = (0, 0)"
    using assms by (auto simp: decode_event_def split: if_splits)
  obtain raw where raw: "try_narrow (ge_family row) = Some raw" "family_raw (re_family e) = raw"
    and e: "re_sequence_id e = join_pair (ge_sequence_id row)" "re_originating_tick e = join_pair (ge_originating_tick row)"
      "re_frame_digest e = join_digest4 (ge_frame_digest row)"
      "re_candidate_feature_digest e = join_digest2 (ge_candidate_feature_digest row)"
      "re_action_id e = ge_action_id row" "re_modulator e = sample_from_frame ?lanes"
    using assms r by (auto simp: decode_event_def family_try_from_raw_Inr split: if_splits)
  have "ucast raw = ge_family row"
    using try_narrow_Some [OF raw(1)] by (simp add: word_unat_eq_iff unat_widen)
  then show "row_of e = row" using e raw(2) r(2) by (simp add: row_of_def Let_def)
  show "sample_ok (re_modulator e)" using e r(1) by (simp add: sample_ok_def frame_ok_def NEUROMODULATORY_LANE_COUNT_def)
qed

lemma row_decodes:
  assumes "sample_ok (re_modulator e)"
  shows "decode_event (row_of e) = Inr e"
proof -
  let ?m = "re_modulator e"
  have m: "length (nm_frame ?m) = 8" "?m = sample_from_frame (nm_frame ?m)"
    and lanes: "list_all (\<lambda>v. f32_is_finite v \<and> f32_in_range f32_minus_one f32_one v) (nm_frame ?m)"
    using assms by (simp_all add: sample_ok_def frame_ok_def NEUROMODULATORY_LANE_COUNT_def)
  obtain a0 a1 a2 a3 a4 a5 a6 a7 where l: "nm_frame ?m = [a0, a1, a2, a3, a4, a5, a6, a7]"
    using m(1) by (auto simp: length_Suc_conv eval_nat_numeral)
  have c: "nm_prediction_residual ?m = a0" "nm_pain ?m = a1" "nm_homeostatic_improvement ?m = a2"
    "nm_frustration ?m = a3" "nm_novelty ?m = a4"
    by (subst m(2), simp add: l)+
  have narrow: "try_narrow (ucast (family_raw (re_family e)) :: u32) = Some (family_raw (re_family e))"
    by (cases "re_family e") (simp_all add: try_narrow_def)
  have "sample_from_frame [a0, a1, a2, a3, a4, a5, a6, a7] = ?m" using m(2) l by simp
  then show ?thesis using lanes l c narrow by (simp add: decode_event_def row_of_def Let_def)
qed

lemma validated_event_encodes: "validate_replay_event e = Inr () \<Longrightarrow> encode_event e = Inr (row_of e)"
  by (auto simp: validate_replay_event_def encode_event_def)

section \<open>Writing a vector by index\<close>

lemma try_fold_assigns:
  assumes "\<And>x s. x \<in> set xs \<Longrightarrow> length s = n \<Longrightarrow> step x s = Inr (s[place x := what x])"
    and "\<And>x. x \<in> set xs \<Longrightarrow> place x < n" and "distinct (map place xs)" and "length s = n"
  shows "\<exists>s'. try_fold step xs s = Inr s' \<and> length s' = n \<and> (\<forall>x \<in> set xs. s' ! place x = what x)
    \<and> (\<forall>i. i \<notin> place ` set xs \<longrightarrow> s' ! i = s ! i)"
  using assms
proof (induction xs arbitrary: s)
  case (Cons x xs)
  let ?s = "s[place x := what x]"
  have step: "step x s = Inr ?s" using Cons.prems by simp
  obtain s' where s': "try_fold step xs ?s = Inr s'" "length s' = n" "\<forall>y \<in> set xs. s' ! place y = what y"
    "\<forall>i. i \<notin> place ` set xs \<longrightarrow> s' ! i = ?s ! i"
    using Cons.IH [of ?s] Cons.prems by auto
  have "place x \<notin> place ` set xs" using Cons.prems(3) by auto
  then have "s' ! place x = what x" using s'(4) Cons.prems(2,4) by simp
  then show ?case using step s' by auto
qed auto

section \<open>The relation between the two forms\<close>

lemma live_slots_set: "ring_ok capacity cursor count \<Longrightarrow> set (ring_order capacity cursor count) = {0..<count}"
  by (cases "count = capacity") (auto simp: ring_ok_def ring_order_full ring_order_notfull)

abbreviation width_of :: "PortableReplayJournalV1 \<Rightarrow> nat" where
  "width_of p \<equiv> length (pj_synapse_spans p)"

abbreviation slots_of :: "PortableReplayJournalV1 \<Rightarrow> nat" where
  "slots_of p \<equiv> unat (pj_event_capacity p)"

abbreviation count_of :: "PortableReplayJournalV1 \<Rightarrow> nat" where
  "count_of p \<equiv> unat (pj_event_count p)"

definition order_of :: "PortableReplayJournalV1 \<Rightarrow> nat list" where
  "order_of p = physical_order_of (slots_of p) (pj_cursor p) (pj_event_count p)"

definition represents :: "PhysicalReplayParts \<Rightarrow> PortableReplayJournalV1 \<Rightarrow> bool" where
  "represents ph p \<longleftrightarrow>
     length (pr_events ph) = slots_of p
     \<and> (\<forall>k < count_of p. pr_events ph ! (order_of p ! k) = row_of (pj_events p ! k))
     \<and> (\<forall>i < slots_of p. count_of p \<le> i \<longrightarrow> pr_events ph ! i = zero_event)
     \<and> pr_spans ph = map (\<lambda>a. \<lparr> gs_local_synapse_id = ss_local_synapse_id (pj_synapse_spans p ! a),
          gs_sample_start = word_of_nat (a * slots_of p), gs_sample_count = pj_event_count p, gs_reserved = 0 \<rparr>) [0..<width_of p]
     \<and> length (pr_samples ph) = width_of p * slots_of p
     \<and> (\<forall>a < width_of p. \<forall>k < count_of p. pr_samples ph ! (a * slots_of p + order_of p ! k) =
          pack_replay_eligibility_sample (word_of_nat (order_of p ! k))
            (es_eligibility_q15 (pj_eligibility_samples p ! (a * count_of p + k))))
     \<and> (\<forall>a < width_of p. \<forall>i < slots_of p. count_of p \<le> i \<longrightarrow> pr_samples ph ! (a * slots_of p + i) = 0)"

lemma order_reaches:
  assumes "ring_ok capacity cursor count" and "i < count"
  obtains k where "k < count" and "ring_order capacity cursor count ! k = i"
proof -
  have "i \<in> set (ring_order capacity cursor count)" using assms by (simp add: live_slots_set)
  then show thesis using that by (auto simp: in_set_conv_nth)
qed

lemma representsD:
  assumes "represents ph p"
  shows "length (pr_events ph) = slots_of p"
    and "k < count_of p \<Longrightarrow> pr_events ph ! (order_of p ! k) = row_of (pj_events p ! k)"
    and "i < slots_of p \<Longrightarrow> count_of p \<le> i \<Longrightarrow> pr_events ph ! i = zero_event"
    and "length (pr_samples ph) = width_of p * slots_of p"
    and "a < width_of p \<Longrightarrow> k < count_of p \<Longrightarrow> pr_samples ph ! (a * slots_of p + order_of p ! k) =
      pack_replay_eligibility_sample (word_of_nat (order_of p ! k))
        (es_eligibility_q15 (pj_eligibility_samples p ! (a * count_of p + k)))"
    and "a < width_of p \<Longrightarrow> i < slots_of p \<Longrightarrow> count_of p \<le> i \<Longrightarrow> pr_samples ph ! (a * slots_of p + i) = 0"
    and "pr_spans ph = map (\<lambda>a. \<lparr> gs_local_synapse_id = ss_local_synapse_id (pj_synapse_spans p ! a),
      gs_sample_start = word_of_nat (a * slots_of p), gs_sample_count = pj_event_count p, gs_reserved = 0 \<rparr>) [0..<width_of p]"
  using assms unfolding represents_def by blast+

lemma represents_unique:
  assumes "represents ph p" and "represents ph' p" and ring: "ring_ok (slots_of p) (unat (pj_cursor p)) (count_of p)"
  shows "ph = ph'"
proof -
  let ?c = "slots_of p"
  have c: "0 < ?c" using ring by (simp add: ring_ok_def)
  have events: "pr_events ph ! i = pr_events ph' ! i" if "i < ?c" for i
  proof (cases "i < count_of p")
    case True
    then obtain k where "k < count_of p" "order_of p ! k = i"
      using order_reaches [OF ring] unfolding order_of_def physical_order_of_def by blast
    then show ?thesis using representsD(2) [OF assms(1), of k] representsD(2) [OF assms(2), of k] by simp
  next
    case False
    then show ?thesis using representsD(3) [OF assms(1) that] representsD(3) [OF assms(2) that] by simp
  qed
  have samples: "pr_samples ph ! j = pr_samples ph' ! j" if j: "j < width_of p * ?c" for j
  proof -
    define a i where "a = j div ?c" and "i = j mod ?c"
    have a: "a < width_of p" using j by (simp add: a_def less_mult_imp_div_less)
    have i: "i < ?c" "j = a * ?c + i" using c by (simp_all add: a_def i_def)
    show ?thesis
    proof (cases "i < count_of p")
      case True
      then obtain k where "k < count_of p" "order_of p ! k = i"
        using order_reaches [OF ring] unfolding order_of_def physical_order_of_def by blast
      then show ?thesis using representsD(5) [OF assms(1) a, of k] representsD(5) [OF assms(2) a, of k] i(2) by simp
    next
      case False
      then show ?thesis using representsD(6) [OF assms(1) a i(1)] representsD(6) [OF assms(2) a i(1)] i(2) by simp
    qed
  qed
  have lengths: "length (pr_events ph) = ?c" "length (pr_events ph') = ?c"
    "length (pr_samples ph) = width_of p * ?c" "length (pr_samples ph') = width_of p * ?c"
    "pr_spans ph = pr_spans ph'"
    using representsD(1,4,7) [OF assms(1)] representsD(1,4,7) [OF assms(2)] by simp_all
  have "pr_events ph = pr_events ph'" using events lengths by (intro nth_equalityI) simp_all
  moreover have "pr_samples ph = pr_samples ph'" using samples lengths by (intro nth_equalityI) simp_all
  ultimately show ?thesis using lengths(5) by simp
qed

section \<open>What a valid portable journal is\<close>

lemma check_spans_inversion:
  assumes "check_spans bad c samples ss st = Inr end'"
  shows "unat end' = unat st + length ss * unat c \<and> unat end' \<le> max (unat st) (length samples)
    \<and> (\<forall>a < length ss. unat (ss_sample_start (ss ! a)) = unat st + a * unat c \<and> ss_sample_count (ss ! a) = c
        \<and> ss_reserved (ss ! a) = 0
        \<and> (\<forall>k < unat c. unat (es_event_index (samples ! (unat st + a * unat c + k))) = k
             \<and> es_eligibility_q15 (samples ! (unat st + a * unat c + k)) \<noteq> I16_MIN))"
  using assms
proof (induction ss arbitrary: st)
  case (Cons s ss)
  let ?c = "unat c"
  obtain stop here where s: "ss_reserved s = 0" "ss_sample_start s = st" "ss_sample_count s = c"
    and stop: "checked_add st c = Some stop" and here: "get_range samples (unat st) (unat stop) = Some here"
    and good: "\<not> samples_bad here" and rest: "check_spans bad c samples ss stop = Inr end'"
    using Cons.prems by (auto split: if_splits)
  have u: "unat stop = unat st + ?c" using checked_add_Some [OF stop] .
  have h: "here = take ?c (drop (unat st) samples)" "unat stop \<le> length samples"
    using here u by (auto simp: get_range_def split: if_splits)
  have block: "unat (es_event_index (samples ! (unat st + k))) = k \<and> es_eligibility_q15 (samples ! (unat st + k)) \<noteq> I16_MIN"
    if "k < ?c" for k
  proof -
    have k: "k < length here" "here ! k = samples ! (unat st + k)" using that h u by auto
    then have "(k, here ! k) \<in> set (enumerate 0 here)" by (simp add: in_set_enumerate_eq)
    then show ?thesis using good k unfolding samples_bad_def list_ex_iff by fastforce
  qed
  note IH = Cons.IH [OF rest, unfolded u]
  have next': "unat st + ?c + a * ?c = unat st + Suc a * ?c" for a by simp
  have all: "unat (ss_sample_start ((s # ss) ! a)) = unat st + a * ?c \<and> ss_sample_count ((s # ss) ! a) = c
        \<and> ss_reserved ((s # ss) ! a) = 0
        \<and> (\<forall>k < ?c. unat (es_event_index (samples ! (unat st + a * ?c + k))) = k
             \<and> es_eligibility_q15 (samples ! (unat st + a * ?c + k)) \<noteq> I16_MIN)" if "a < length (s # ss)" for a
  proof (cases a)
    case 0
    then show ?thesis using s block by simp
  next
    case (Suc b)
    then have "b < length ss" using that by simp
    then show ?thesis using IH Suc unfolding next' by simp
  qed
  have "unat end' = unat st + length (s # ss) * ?c" using IH by simp
  moreover have "unat end' \<le> max (unat st) (length samples)" using IH h(2) u by auto
  ultimately show ?case using all by blast
qed simp

lemma portable_fields:
  assumes "portable_validate p = Inr ()"
  shows "ring_ok (slots_of p) (unat (pj_cursor p)) (count_of p)" and "slots_of p \<le> 65536"
    and "width_of p \<le> 64" and "0 < width_of p" and "length (pj_events p) = count_of p"
    and "unat (pj_sample_capacity p) = width_of p * slots_of p"
    and "length (pj_eligibility_samples p) = width_of p * count_of p"
    and "\<And>e. e \<in> set (pj_events p) \<Longrightarrow> validate_replay_event e = Inr ()"
    and "sorted_wrt (<) (map ss_local_synapse_id (pj_synapse_spans p))"
    and "\<And>a. a < width_of p \<Longrightarrow> unat (ss_sample_start (pj_synapse_spans p ! a)) = a * count_of p
        \<and> ss_sample_count (pj_synapse_spans p ! a) = pj_event_count p \<and> ss_reserved (pj_synapse_spans p ! a) = 0"
    and "\<And>a k. a < width_of p \<Longrightarrow> k < count_of p \<Longrightarrow>
        unat (es_event_index (pj_eligibility_samples p ! (a * count_of p + k))) = k
        \<and> es_eligibility_q15 (pj_eligibility_samples p ! (a * count_of p + k)) \<noteq> I16_MIN"
proof -
  obtain spans ec el where o: "try_of_len (width_of p) = Some spans" "checked_mul (pj_event_capacity p) spans = Some ec"
    "checked_mul (pj_event_count p) spans = Some el"
    using assms unfolding portable_validate_def and_then_Inr_iff ok_or_Inr_iff by blast
  note body = assms [unfolded portable_validate_def o ok_or_simps and_then_simps if_Inl_Inr de_Morgan_disj MAX_REPLAY_CAPTURE_SYNAPSES_def]
  have g: "pj_event_capacity p \<noteq> 0" "\<not> 65536 < pj_event_capacity p" "\<not> pj_event_capacity p < pj_event_count p"
    "\<not> pj_event_capacity p \<le> pj_cursor p" "\<not> (pj_event_count p < pj_event_capacity p \<and> pj_cursor p \<noteq> pj_event_count p)"
    "length (pj_events p) = count_of p" "spans \<noteq> 0" "\<not> 64 < spans" "pj_sample_capacity p = ec"
    "length (pj_eligibility_samples p) = unat el"
    "\<not> list_ex (\<lambda>e. \<not> is_ok (validate_replay_event e)) (pj_events p)"
    "\<not> windows2_any (\<lambda>a b. ss_local_synapse_id b \<le> ss_local_synapse_id a) (pj_synapse_spans p)"
    using body by blast+
  obtain end' where c: "check_spans (\<lambda>_. False) (pj_event_count p) (pj_eligibility_samples p) (pj_synapse_spans p) 0 = Inr end'"
    using body unfolding and_then_Inr_iff by blast
  have w: "unat spans = width_of p" using try_of_len_Some [OF o(1)] .
  have "0 < slots_of p" using g(1) by (simp add: unat_gt_0)
  moreover have "count_of p \<le> slots_of p" using g(3) by (simp add: word_less_nat_alt)
  moreover have "unat (pj_cursor p) < slots_of p" using g(4) by (simp add: word_le_nat_alt)
  moreover have "count_of p < slots_of p \<longrightarrow> unat (pj_cursor p) = count_of p" using g(5) by (auto simp: word_less_nat_alt)
  ultimately show "ring_ok (slots_of p) (unat (pj_cursor p)) (count_of p)" by (simp add: ring_ok_def)
  show "slots_of p \<le> 65536" using g(2) by (simp add: word_less_nat_alt)
  show "width_of p \<le> 64" using g(8) w by (simp add: word_less_nat_alt)
  show "0 < width_of p" using g(7) w by (simp add: unat_gt_0 flip: w)
  show "length (pj_events p) = count_of p" by (rule g(6))
  show "unat (pj_sample_capacity p) = width_of p * slots_of p" using checked_mul_Some [OF o(2)] g(9) w by (simp add: mult.commute)
  show "length (pj_eligibility_samples p) = width_of p * count_of p" using checked_mul_Some [OF o(3)] g(10) w by (simp add: mult.commute)
  show "validate_replay_event e = Inr ()" if "e \<in> set (pj_events p)" for e
    using g(11) that by (auto simp: list_ex_iff is_ok_unit_iff)
  show "sorted_wrt (<) (map ss_local_synapse_id (pj_synapse_spans p))"
    using g(12) windows2_sorted_by [of ss_local_synapse_id "pj_synapse_spans p"] by simp
  note inversion = check_spans_inversion [OF c]
  show "unat (ss_sample_start (pj_synapse_spans p ! a)) = a * count_of p
        \<and> ss_sample_count (pj_synapse_spans p ! a) = pj_event_count p \<and> ss_reserved (pj_synapse_spans p ! a) = 0"
    if "a < width_of p" for a using inversion that by simp
  show "unat (es_event_index (pj_eligibility_samples p ! (a * count_of p + k))) = k
        \<and> es_eligibility_q15 (pj_eligibility_samples p ! (a * count_of p + k)) \<noteq> I16_MIN"
    if "a < width_of p" "k < count_of p" for a k using inversion that by simp
qed

section \<open>Decoding places everything\<close>

lemma order_facts:
  assumes valid: "portable_validate p = Inr ()"
  shows "length (order_of p) = count_of p" "distinct (order_of p)" "set (order_of p) = {0..<count_of p}"
  "count_of p \<le> slots_of p" "i \<in> set (order_of p) \<Longrightarrow> i < slots_of p"
proof -
  note ring = portable_fields(1) [OF valid]
  show "length (order_of p) = count_of p" by (simp add: order_of_def physical_order_of_def)
  show "distinct (order_of p)" using ring_order_distinct [OF ring] by (simp add: order_of_def physical_order_of_def)
  show s: "set (order_of p) = {0..<count_of p}" using live_slots_set [OF ring] by (simp add: order_of_def physical_order_of_def)
  show c: "count_of p \<le> slots_of p" using ring by (simp add: ring_ok_def)
  show "i \<in> set (order_of p) \<Longrightarrow> i < slots_of p" unfolding s using c by simp
qed

lemma order_slot:
  assumes valid: "portable_validate p = Inr ()" and "k < count_of p"
  shows "order_of p ! k < count_of p"
  using order_facts(1,3) [OF valid] nth_mem [of k "order_of p"] assms(2) by simp

lemma decode_rows_places:
  assumes valid: "portable_validate p = Inr ()"
  shows "\<exists>rows. decode_rows (pj_events p) (order_of p) (slots_of p) = Inr rows \<and> length rows = slots_of p
    \<and> (\<forall>k < count_of p. rows ! (order_of p ! k) = row_of (pj_events p ! k))
    \<and> (\<forall>i < slots_of p. count_of p \<le> i \<longrightarrow> rows ! i = zero_event)"
proof -
  let ?step = "\<lambda>(e, i) rows. and_then (may_fail (encode_event e)) (assign_at rows i) :: codec_fault + GpuReplayEventRecord list"
  let ?xs = "zip (pj_events p) (order_of p)"
  have len: "length (pj_events p) = length (order_of p)" using portable_fields(5) [OF valid] order_facts(1) [OF valid] by simp
  have step: "?step x s = Inr (s[snd x := row_of (fst x)])"
    if x: "x \<in> set ?xs" and s: "length s = slots_of p" for x and s :: "GpuReplayEventRecord list"
  proof (cases x)
    case (Pair e i)
    then have "e \<in> set (pj_events p)" "i \<in> set (order_of p)" using x by (auto dest: set_zip_leftD set_zip_rightD)
    then show ?thesis
      using validated_event_encodes [OF portable_fields(8) [OF valid]] order_facts(5) [OF valid] s Pair by simp
  qed
  have place: "snd x < slots_of p" if "x \<in> set ?xs" for x
  proof -
    have "snd x \<in> set (order_of p)" using that by (metis prod.collapse set_zip_rightD)
    then show ?thesis by (rule order_facts(5) [OF valid])
  qed
  have "distinct (map snd ?xs)" using len order_facts(2) [OF valid] by simp
  from try_fold_assigns [of ?xs "slots_of p" ?step snd "\<lambda>x. row_of (fst x)" "replicate (slots_of p) zero_event", OF step place this]
  obtain rows where rows: "try_fold ?step ?xs (replicate (slots_of p) zero_event) = Inr rows" "length rows = slots_of p"
    "\<forall>x \<in> set ?xs. rows ! snd x = row_of (fst x)"
    "\<forall>i. i \<notin> snd ` set ?xs \<longrightarrow> rows ! i = replicate (slots_of p) zero_event ! i" by auto
  have "rows ! (order_of p ! k) = row_of (pj_events p ! k)" if "k < count_of p" for k
  proof -
    have "(pj_events p ! k, order_of p ! k) \<in> set ?xs" using that len order_facts(1) [OF valid] by (auto simp: in_set_zip)
    then show ?thesis using rows(3) by fastforce
  qed
  moreover have "rows ! i = zero_event" if "i < slots_of p" "count_of p \<le> i" for i
  proof -
    have "snd ` set ?xs \<subseteq> set (order_of p)" by (auto dest: set_zip_rightD)
    then have "i \<notin> snd ` set ?xs" using that(2) order_facts(3) [OF valid] by auto
    then show ?thesis using rows(4) that(1) by simp
  qed
  ultimately show ?thesis using rows(1,2) by (auto simp: decode_rows_def)
qed

lemma decode_span_places:
  assumes valid: "portable_validate p = Inr ()" and a: "a < width_of p" and len: "length samples = width_of p * slots_of p"
  shows "\<exists>samples'. decode_span p (order_of p) (a, pj_synapse_spans p ! a) (spans, samples)
      = Inr (spans @ [\<lparr> gs_local_synapse_id = ss_local_synapse_id (pj_synapse_spans p ! a),
          gs_sample_start = word_of_nat (a * slots_of p), gs_sample_count = pj_event_count p, gs_reserved = 0 \<rparr>], samples')
    \<and> length samples' = length samples
    \<and> (\<forall>k < count_of p. samples' ! (a * slots_of p + order_of p ! k) =
          pack_replay_eligibility_sample (word_of_nat (order_of p ! k))
            (es_eligibility_q15 (pj_eligibility_samples p ! (a * count_of p + k))))
    \<and> (\<forall>b < width_of p. \<forall>i < slots_of p. \<not> (b = a \<and> i < count_of p) \<longrightarrow>
          samples' ! (b * slots_of p + i) = samples ! (b * slots_of p + i))"
proof -
  let ?c = "slots_of p" and ?m = "count_of p" and ?n = "width_of p"
  let ?here = "take ?m (drop (a * ?m) (pj_eligibility_samples p))"
  let ?xs = "zip (enumerate 0 ?here) (order_of p)"
  let ?place = "\<lambda>x :: (nat \<times> ReplayEligibilitySample) \<times> nat. a * ?c + snd x"
  let ?what = "\<lambda>x :: (nat \<times> ReplayEligibilitySample) \<times> nat.
    pack_replay_eligibility_sample (word_of_nat (snd x)) (es_eligibility_q15 (snd (fst x)))"
  have "a * ?m + ?m \<le> ?n * ?m" using mult_le_mono1 [of "Suc a" ?n ?m] a by simp
  then have range: "get_range (pj_eligibility_samples p) (a * ?m) (a * ?m + ?m) = Some ?here" and lh: "length ?here = ?m"
    using portable_fields(7) [OF valid] by (simp_all add: get_range_def)
  have nth: "?here ! k = pj_eligibility_samples p ! (a * ?m + k)" if "k < ?m" for k using that lh by simp
  have in_xs: "\<exists>k < ?m. x = ((k, pj_eligibility_samples p ! (a * ?m + k)), order_of p ! k)" if x: "x \<in> set ?xs" for x
  proof -
    obtain k where k: "k < length (enumerate 0 ?here)" "k < length (order_of p)" "x = (enumerate 0 ?here ! k, order_of p ! k)"
      using x unfolding set_zip by auto
    then have "k < ?m" using order_facts(1) [OF valid] by simp
    then show ?thesis using k nth lh by (auto simp: nth_enumerate_eq)
  qed
  have step: "decode_sample (a * ?c) x s = Inr (s[?place x := ?what x])"
    if x: "x \<in> set ?xs" and s: "length s = ?n * ?c" for x s
  proof -
    obtain k where k: "k < ?m" and x': "x = ((k, pj_eligibility_samples p ! (a * ?m + k)), order_of p ! k)" using in_xs [OF x] by blast
    have slot: "order_of p ! k < ?c" using order_slot [OF valid k] order_facts(4) [OF valid] by simp
    have "a * ?c + order_of p ! k < length s" using cell_bound [OF a slot] s by simp
    moreover have "try_of_len (order_of p ! k) = Some (word_of_nat (order_of p ! k) :: u16)"
      using slot portable_fields(2) [OF valid] by (simp add: try_of_len_def)
    ultimately show ?thesis using portable_fields(11) [OF valid a k] x' by (simp add: decode_sample_def)
  qed
  have place: "?place x < ?n * ?c" if x: "x \<in> set ?xs" for x
  proof -
    have "snd x < ?c" using in_xs [OF x] order_slot [OF valid] order_facts(4) [OF valid] by fastforce
    then show ?thesis by (rule cell_bound [OF a])
  qed
  have "distinct (map ?place ?xs)"
  proof -
    have "map ?place ?xs = map ((+) (a * ?c)) (map snd ?xs)" by simp
    also have "map snd ?xs = order_of p" using lh order_facts(1) [OF valid] by simp
    finally show ?thesis using order_facts(2) [OF valid] by (simp add: distinct_map)
  qed
  from try_fold_assigns [of ?xs "?n * ?c" "decode_sample (a * ?c)" ?place ?what samples, OF step place this len]
  obtain samples' where s': "try_fold (decode_sample (a * ?c)) ?xs samples = Inr samples'" "length samples' = ?n * ?c"
    "\<forall>x \<in> set ?xs. samples' ! ?place x = ?what x" "\<forall>i. i \<notin> ?place ` set ?xs \<longrightarrow> samples' ! i = samples ! i" by auto
  have live: "samples' ! (a * ?c + order_of p ! k) = pack_replay_eligibility_sample (word_of_nat (order_of p ! k))
      (es_eligibility_q15 (pj_eligibility_samples p ! (a * ?m + k)))" if k: "k < ?m" for k
  proof -
    have "k < length ?xs" using k lh order_facts(1) [OF valid] by simp
    then have "?xs ! k \<in> set ?xs" by (rule nth_mem)
    moreover have "?xs ! k = ((k, pj_eligibility_samples p ! (a * ?m + k)), order_of p ! k)"
      using k lh order_facts(1) [OF valid] nth by (simp add: nth_enumerate_eq)
    ultimately show ?thesis using s'(3) by fastforce
  qed
  have rest: "samples' ! (b * ?c + i) = samples ! (b * ?c + i)" if b: "b < ?n" "i < ?c" "\<not> (b = a \<and> i < ?m)" for b i
  proof -
    have "b * ?c + i \<noteq> ?place x" if x: "x \<in> set ?xs" for x
    proof -
      obtain k where k: "k < ?m" "snd x = order_of p ! k" using in_xs [OF x] by auto
      have "snd x < ?m" using order_slot [OF valid] k by simp
      then show ?thesis using cell_inject [of i ?c "snd x" b a] b order_facts(4) [OF valid] by auto
    qed
    then show ?thesis using s'(4) by blast
  qed
  have "a * ?c \<le> 64 * 65536" using a portable_fields(2,3) [OF valid] by (intro mult_le_mono) simp_all
  then have start: "try_of_len (a * ?c) = Some (word_of_nat (a * ?c) :: u32)" by (simp add: try_of_len_def del: of_nat_mult)
  have "unat (ss_sample_start (pj_synapse_spans p ! a)) = a * ?m" using portable_fields(10) [OF valid a] by simp
  then have "decode_span p (order_of p) (a, pj_synapse_spans p ! a) (spans, samples)
      = Inr (spans @ [\<lparr> gs_local_synapse_id = ss_local_synapse_id (pj_synapse_spans p ! a),
          gs_sample_start = word_of_nat (a * ?c), gs_sample_count = pj_event_count p, gs_reserved = 0 \<rparr>], samples')"
    using range s'(1) start by (simp add: decode_span_def Let_def del: of_nat_mult)
  then show ?thesis using s'(2) len live rest by auto
qed

end
