(* ===== verification/Replay_Roundtrip.thy ===== *)
theory Replay_Roundtrip
  imports Replay_Codec_Proofs
begin

text \<open>The round trips of the replay codec, and that neither direction can panic.\<close>

section \<open>Decoding\<close>

lemma take_Suc_enumerate: "a < length xs \<Longrightarrow> take (Suc a) (enumerate 0 xs) = take a (enumerate 0 xs) @ [(a, xs ! a)]"
  by (simp add: take_Suc_conv_app_nth nth_enumerate_eq)

lemma decode_spans_place:
  assumes valid: "portable_validate p = Inr ()" and "a \<le> width_of p"
  shows "\<exists>samples. try_fold (decode_span p (order_of p)) (take a (enumerate 0 (pj_synapse_spans p)))
        ([], replicate (width_of p * slots_of p) 0)
      = Inr (map (\<lambda>a. \<lparr> gs_local_synapse_id = ss_local_synapse_id (pj_synapse_spans p ! a),
          gs_sample_start = word_of_nat (a * slots_of p), gs_sample_count = pj_event_count p, gs_reserved = 0 \<rparr>) [0..<a], samples)
    \<and> length samples = width_of p * slots_of p
    \<and> (\<forall>b < a. \<forall>k < count_of p. samples ! (b * slots_of p + order_of p ! k) =
          pack_replay_eligibility_sample (word_of_nat (order_of p ! k))
            (es_eligibility_q15 (pj_eligibility_samples p ! (b * count_of p + k))))
    \<and> (\<forall>b < width_of p. \<forall>i < slots_of p. a \<le> b \<or> count_of p \<le> i \<longrightarrow> samples ! (b * slots_of p + i) = 0)"
  using assms(2)
proof (induction a)
  case 0
  have "replicate (width_of p * slots_of p) 0 ! (b * slots_of p + i) = (0 :: u32)" if "b < width_of p" "i < slots_of p" for b i
    using cell_bound [OF that] by simp
  then show ?case by simp
next
  case (Suc a)
  let ?c = "slots_of p" and ?m = "count_of p"
  let ?span = "\<lambda>a. \<lparr> gs_local_synapse_id = ss_local_synapse_id (pj_synapse_spans p ! a),
          gs_sample_start = word_of_nat (a * ?c), gs_sample_count = pj_event_count p, gs_reserved = (0 :: u32) \<rparr>"
  have a: "a < width_of p" using Suc.prems by simp
  obtain samples where IH: "try_fold (decode_span p (order_of p)) (take a (enumerate 0 (pj_synapse_spans p)))
        ([], replicate (width_of p * ?c) 0) = Inr (map ?span [0..<a], samples)" "length samples = width_of p * ?c"
    "\<forall>b < a. \<forall>k < ?m. samples ! (b * ?c + order_of p ! k) = pack_replay_eligibility_sample (word_of_nat (order_of p ! k))
            (es_eligibility_q15 (pj_eligibility_samples p ! (b * ?m + k)))"
    "\<forall>b < width_of p. \<forall>i < ?c. a \<le> b \<or> ?m \<le> i \<longrightarrow> samples ! (b * ?c + i) = 0"
    using Suc by auto
  obtain samples' where s': "decode_span p (order_of p) (a, pj_synapse_spans p ! a) (map ?span [0..<a], samples)
      = Inr (map ?span [0..<a] @ [?span a], samples')" "length samples' = length samples"
    "\<forall>k < ?m. samples' ! (a * ?c + order_of p ! k) = pack_replay_eligibility_sample (word_of_nat (order_of p ! k))
            (es_eligibility_q15 (pj_eligibility_samples p ! (a * ?m + k)))"
    "\<forall>b < width_of p. \<forall>i < ?c. \<not> (b = a \<and> i < ?m) \<longrightarrow> samples' ! (b * ?c + i) = samples ! (b * ?c + i)"
    using decode_span_places [OF valid a IH(2)] by blast
  have fold: "try_fold (decode_span p (order_of p)) (take (Suc a) (enumerate 0 (pj_synapse_spans p)))
        ([], replicate (width_of p * ?c) 0) = Inr (map ?span [0..<Suc a], samples')"
    using s'(1) by (simp add: take_Suc_enumerate [OF a] try_fold_append IH(1))
  have live: "samples' ! (b * ?c + order_of p ! k) = pack_replay_eligibility_sample (word_of_nat (order_of p ! k))
            (es_eligibility_q15 (pj_eligibility_samples p ! (b * ?m + k)))" if "b < Suc a" "k < ?m" for b k
  proof (cases "b = a")
    case False
    then have "b < a" using that by simp
    moreover have "order_of p ! k < ?c" using order_slot [OF valid that(2)] order_facts(4) [OF valid] by simp
    ultimately show ?thesis using s'(4) IH(3) that(2) a by simp
  qed (use s'(3) that in simp)
  have dead: "samples' ! (b * ?c + i) = 0" if "b < width_of p" "i < ?c" "Suc a \<le> b \<or> ?m \<le> i" for b i
    using s'(4) IH(4) that by auto
  show ?case using fold live dead s'(2) IH(2) by auto
qed

lemma decode_represents:
  assumes valid: "portable_validate p = Inr ()"
  shows "\<exists>ph. decode_physical_replay p = Inr ph \<and> represents ph p"
proof -
  obtain rows where rows: "decode_rows (pj_events p) (order_of p) (slots_of p) = Inr rows" "length rows = slots_of p"
    "\<forall>k < count_of p. rows ! (order_of p ! k) = row_of (pj_events p ! k)"
    "\<forall>i < slots_of p. count_of p \<le> i \<longrightarrow> rows ! i = zero_event" using decode_rows_places [OF valid] by blast
  let ?spans = "map (\<lambda>a. \<lparr> gs_local_synapse_id = ss_local_synapse_id (pj_synapse_spans p ! a),
          gs_sample_start = word_of_nat (a * slots_of p), gs_sample_count = pj_event_count p, gs_reserved = (0 :: u32) \<rparr>) [0..<width_of p]"
  obtain samples where s: "try_fold (decode_span p (order_of p)) (enumerate 0 (pj_synapse_spans p))
        ([], replicate (width_of p * slots_of p) 0) = Inr (?spans, samples)" "length samples = width_of p * slots_of p"
    "\<forall>b < width_of p. \<forall>k < count_of p. samples ! (b * slots_of p + order_of p ! k) =
          pack_replay_eligibility_sample (word_of_nat (order_of p ! k))
            (es_eligibility_q15 (pj_eligibility_samples p ! (b * count_of p + k)))"
    "\<forall>b < width_of p. \<forall>i < slots_of p. count_of p \<le> i \<longrightarrow> samples ! (b * slots_of p + i) = 0"
    using decode_spans_place [OF valid order.refl] by auto
  have "decode_physical_replay p = Inr \<lparr> pr_events = rows, pr_spans = ?spans, pr_samples = samples \<rparr>"
    unfolding decode_physical_replay_def Let_def portable_fields(6) [OF valid] order_of_def [symmetric]
    by (simp add: valid rows(1) s(1))
  moreover have "represents \<lparr> pr_events = rows, pr_spans = ?spans, pr_samples = samples \<rparr> p"
    using rows s unfolding represents_def by simp
  ultimately show ?thesis by blast
qed

section \<open>Encoding\<close>

lemma collect_results_nthI:
  assumes "length ys = length xs" and "\<And>i. i < length xs \<Longrightarrow> f (xs ! i) = Inr (ys ! i)"
  shows "collect_results f xs = Inr ys"
  using assms
proof (induction xs arbitrary: ys)
  case (Cons x xs)
  then obtain y ys' where ys: "ys = y # ys'" by (cases ys) auto
  then have "collect_results f xs = Inr ys'" using Cons.IH [of ys'] Cons.prems(1) Cons.prems(2) [of "Suc i" for i] by force
  moreover have "f x = Inr y" using Cons.prems(2) [of 0] ys by simp
  ultimately show ?case using ys by simp
qed simp

lemma portable_digest:
  assumes "portable_validate p = Inr ()"
  shows "portable_recompute p = Inr (pj_canonical_digest p)" and "pj_schema_version p = GPU_BRAIN_PORTABLE_ASSET_SCHEMA_VERSION"
  using assms unfolding portable_validate_def and_then_Inr_iff ok_or_Inr_iff if_Inl_Inr by auto

lemma encode_represented:
  assumes valid: "portable_validate p = Inr ()" and rep: "represents ph p"
    and lanes: "\<And>e. e \<in> set (pj_events p) \<Longrightarrow> sample_ok (re_modulator e)"
  shows "encode_portable_replay (pj_phenotype_hash p) (pj_replay_capture_plan_digest p) (pj_generation p) (pj_cursor p)
     (pj_event_count p) ph = Inr p"
proof -
  let ?c = "slots_of p" and ?m = "count_of p" and ?n = "width_of p" and ?order = "order_of p"
  note ring = portable_fields(1) [OF valid]
  have c: "0 < ?c" "?m \<le> ?c" "unat (pj_cursor p) < ?c" using ring by (simp_all add: ring_ok_def)
  have lens: "length (pr_events ph) = ?c" "length (pr_samples ph) = ?n * ?c" "length (pr_spans ph) = ?n"
    using representsD(1,4,7) [OF rep] by simp_all
  have events: "collect_results (\<lambda>i. and_then (elem_at (pr_events ph) i) (\<lambda>row. may_fail (decode_event row))) ?order
      = Inr (pj_events p)"
  proof (rule collect_results_nthI)
    show "length (pj_events p) = length ?order" using portable_fields(5) [OF valid] order_facts(1) [OF valid] by simp
    fix k assume "k < length ?order"
    then have k: "k < ?m" using order_facts(1) [OF valid] by simp
    then have "pj_events p ! k \<in> set (pj_events p)" using portable_fields(5) [OF valid] by simp
    then show "and_then (elem_at (pr_events ph) (?order ! k)) (\<lambda>row. may_fail (decode_event row)) = Inr (pj_events p ! k)"
      using row_decodes [OF lanes] representsD(2) [OF rep k] order_slot [OF valid k] c lens by simp
  qed
  have zero: "event_is_zero zero_event"
    by (simp add: event_is_zero_def zero_event_def f32_eq_def)
  have dead: "check_dead_events (pr_events ph) ?m = Inr ()"
    using representsD(3) [OF rep] lens zero by (auto simp: check_dead_events_def in_set_enumerate_eq)
  have width: "a * ?m + ?m \<le> 4194304" "a * ?c + ?c \<le> 4194304" if "a < ?n" for a
    using row_end_bound [OF that portable_fields(3) [OF valid]] portable_fields(2) [OF valid] c by simp_all
  have spans: "try_fold (encode_span ph (pj_event_count p) ?order) (take a (enumerate 0 (pr_spans ph))) (None, [], [])
      = Inr (if a = 0 then None else Some (ss_local_synapse_id (pj_synapse_spans p ! (a - 1))),
          take a (pj_synapse_spans p), take (a * ?m) (pj_eligibility_samples p))" if "a \<le> ?n" for a
    using that
  proof (induction a)
    case (Suc a)
    let ?ps = "pj_synapse_spans p"
    have a: "a < ?n" using Suc.prems by simp
    have start: "unat (word_of_nat (a * ?c) :: u32) = a * ?c" using width(2) [OF a] by (intro unat_small_word) simp
    note span = portable_fields(10) [OF valid a]
    have "a * ?m + ?m \<le> ?n * ?m" using mult_le_mono1 [of "Suc a" ?n ?m] a by simp
    then have live: "a * ?m + ?m \<le> length (pj_eligibility_samples p)" using portable_fields(7) [OF valid] by simp
    then have len: "length (take (a * ?m) (pj_eligibility_samples p)) = a * ?m" by simp
    have compact: "try_of_len (a * ?m) = Some (ss_sample_start (?ps ! a))"
      using width(1) [OF a] span by (simp add: try_of_len_def word_unat_eq_iff unat_of_nat del: of_nat_mult)
    have this_span: "pr_spans ph ! a = \<lparr> gs_local_synapse_id = ss_local_synapse_id (?ps ! a),
        gs_sample_start = word_of_nat (a * ?c), gs_sample_count = pj_event_count p, gs_reserved = 0 \<rparr>"
      using a representsD(7) [OF rep] by simp
    have next_span: "\<lparr> ss_local_synapse_id = ss_local_synapse_id (?ps ! a), ss_sample_start = ss_sample_start (?ps ! a),
        ss_sample_count = pj_event_count p, ss_reserved = 0 \<rparr> = ?ps ! a" using span by simp
    have sorted: "\<not> ss_local_synapse_id (?ps ! a) \<le> ss_local_synapse_id (?ps ! (a - 1))" if "a \<noteq> 0"
      using portable_fields(9) [OF valid] a that sorted_wrt_nth_less [of "(<)" "map ss_local_synapse_id ?ps" "a - 1" a]
      by (simp add: not_le)
    have samples: "collect_results (encode_sample (pr_samples ph) (a * ?c)) (enumerate 0 ?order)
        = Inr (take ?m (drop (a * ?m) (pj_eligibility_samples p)))"
    proof (rule collect_results_nthI)
      show "length (take ?m (drop (a * ?m) (pj_eligibility_samples p))) = length (enumerate 0 ?order)"
        using live order_facts(1) [OF valid] by simp
      fix k assume "k < length (enumerate 0 ?order)"
      then have k: "k < ?m" using order_facts(1) [OF valid] by simp
      let ?s = "pj_eligibility_samples p ! (a * ?m + k)"
      have slot: "?order ! k < ?c" using order_slot [OF valid k] c by simp
      note sample = portable_fields(11) [OF valid a k]
      have index: "unat (word_of_nat (?order ! k) :: u16) = ?order ! k" "try_of_len k = Some (es_event_index ?s)"
        using slot sample k portable_fields(2) [OF valid] c by (simp_all add: unat_of_nat try_of_len_def word_unat_eq_iff)
      have "\<lparr> es_event_index = es_event_index ?s, es_eligibility_q15 = es_eligibility_q15 ?s \<rparr> = ?s" by simp
      then show "encode_sample (pr_samples ph) (a * ?c) (enumerate 0 ?order ! k)
          = Inr (take ?m (drop (a * ?m) (pj_eligibility_samples p)) ! k)"
        using k live index sample cell_bound [OF a slot] lens(2) order_facts(1) [OF valid] representsD(5) [OF rep a k]
        by (simp add: encode_sample_def nth_enumerate_eq unpack_pack)
    qed
    have "pr_samples ph ! (a * ?c + i) = 0 \<and> a * ?c + i < length (pr_samples ph)" if "i < ?c" "?m \<le> i" for i
      using representsD(6) [OF rep a that] cell_bound [OF a that(1)] lens(2) by simp
    then have rest: "check_dead_samples (pr_samples ph) (a * ?c) ?m ?c = Inr ()"
      by (auto simp: check_dead_samples_def)
    have "encode_span ph (pj_event_count p) ?order (a, pr_spans ph ! a)
        (if a = 0 then None else Some (ss_local_synapse_id (?ps ! (a - 1))), take a ?ps, take (a * ?m) (pj_eligibility_samples p))
      = Inr (Some (ss_local_synapse_id (?ps ! a)), take a ?ps @ [?ps ! a],
          take (a * ?m) (pj_eligibility_samples p) @ take ?m (drop (a * ?m) (pj_eligibility_samples p)))"
      unfolding encode_span_def Let_def lens prod.case this_span len samples rest compact
      using sorted start next_span by (simp add: compact)
    moreover have "take (a * ?m) (pj_eligibility_samples p) @ take ?m (drop (a * ?m) (pj_eligibility_samples p))
        = take (Suc a * ?m) (pj_eligibility_samples p)" by (simp add: take_add [symmetric] add.commute)
    moreover have "take (Suc a) (enumerate 0 (pr_spans ph)) = take a (enumerate 0 (pr_spans ph)) @ [(a, pr_spans ph ! a)]"
      using a lens(3) by (intro take_Suc_enumerate) simp
    ultimately show ?case using Suc a by (simp add: try_fold_append take_Suc_conv_app_nth del: mult_Suc)
  qed simp
  have n: "0 < ?n" by (rule portable_fields(4) [OF valid])
  have all_spans: "try_fold (encode_span ph (pj_event_count p) ?order) (enumerate 0 (pr_spans ph)) (None, [], [])
      = Inr (Some (ss_local_synapse_id (pj_synapse_spans p ! (?n - 1))), pj_synapse_spans p, pj_eligibility_samples p)"
    using spans [OF order.refl] n lens(3) portable_fields(7) [OF valid] by simp
  have caps: "try_of_len ?c = Some (pj_event_capacity p)" "try_of_len (?n * ?c) = Some (pj_sample_capacity p)"
    using portable_fields(2,6) [OF valid] unsigned_less [of "pj_event_capacity p"] unsigned_less [of "pj_sample_capacity p"]
    by (simp_all add: try_of_len_def flip: portable_fields(6) [OF valid])
  note digest = portable_digest [OF valid]
  let ?open = "\<lparr> pj_schema_version = GPU_BRAIN_PORTABLE_ASSET_SCHEMA_VERSION, pj_phenotype_hash = pj_phenotype_hash p,
      pj_replay_capture_plan_digest = pj_replay_capture_plan_digest p, pj_generation = pj_generation p,
      pj_cursor = pj_cursor p, pj_event_count = pj_event_count p, pj_event_capacity = pj_event_capacity p,
      pj_sample_capacity = pj_sample_capacity p, pj_events = pj_events p, pj_synapse_spans = pj_synapse_spans p,
      pj_eligibility_samples = pj_eligibility_samples p, pj_canonical_digest = zero4 \<rparr>"
  have sealed: "?open \<lparr> pj_canonical_digest := pj_canonical_digest p \<rparr> = p" using digest(2) by simp
  have "portable_recompute ?open = portable_recompute p" using digest(2) by (simp add: portable_recompute_def)
  then have "portable_recompute ?open = Inr (pj_canonical_digest p)" using digest(1) by simp
  moreover have "\<not> (?c = 0 \<or> ?c < ?m \<or> ?c \<le> unat (pj_cursor p) \<or> ?n * ?c \<noteq> ?c * ?n)" using c by (simp add: mult.commute)
  ultimately show ?thesis
    unfolding encode_portable_replay_def Let_def lens order_of_def [symmetric] events dead all_spans caps
    using sealed valid by simp
qed

section \<open>What was encoded\<close>

text \<open>A ring whose free slots are cleared: \<open>-0.0\<close>, which the encoder lets pass there, becomes \<open>0.0\<close>.\<close>

definition cleared :: "u32 \<Rightarrow> PhysicalReplayParts \<Rightarrow> PhysicalReplayParts" where
  "cleared count ph = ph \<lparr> pr_events := take (unat count) (pr_events ph)
     @ replicate (length (pr_events ph) - unat count) zero_event \<rparr>"

lemma encode_span_inversion:
  assumes "encode_span ph count order (a, span) (prev, ss, sm) = Inr (prev', ss', sm')" and "length order = unat count"
  shows "\<exists>here. ss' = ss @ [\<lparr> ss_local_synapse_id = gs_local_synapse_id span, ss_sample_start = word_of_nat (length sm),
        ss_sample_count = count, ss_reserved = 0 \<rparr>] \<and> sm' = sm @ here \<and> length here = unat count
    \<and> unat (gs_sample_start span) = a * length (pr_events ph) \<and> gs_sample_count span = count \<and> gs_reserved span = 0
    \<and> (\<forall>k < unat count. pr_samples ph ! (a * length (pr_events ph) + order ! k)
          = pack_replay_eligibility_sample (word_of_nat (order ! k)) (es_eligibility_q15 (here ! k)))
    \<and> (\<forall>i < length (pr_events ph). unat count \<le> i \<longrightarrow> pr_samples ph ! (a * length (pr_events ph) + i) = 0)"
proof -
  let ?c = "length (pr_events ph)"
  obtain start here where h: "try_of_len (length sm) = Some start"
    "collect_results (encode_sample (pr_samples ph) (a * ?c)) (enumerate 0 order) = Inr here"
    "check_dead_samples (pr_samples ph) (a * ?c) (unat count) ?c = Inr ()"
    and s: "unat (gs_sample_start span) = a * ?c" "unat (gs_sample_count span) = unat count" "gs_reserved span = 0"
    and out: "ss' = ss @ [\<lparr> ss_local_synapse_id = gs_local_synapse_id span, ss_sample_start = start,
        ss_sample_count = count, ss_reserved = 0 \<rparr>]" "sm' = sm @ here"
    using assms(1) by (auto simp: encode_span_def Let_def split: if_splits)
  have start: "start = word_of_nat (length sm)" using h(1) by (simp add: try_of_len_def split: if_splits)
  have len: "length here = unat count" using collect_results_length [OF h(2)] assms(2) by simp
  have live: "pr_samples ph ! (a * ?c + order ! k)
      = pack_replay_eligibility_sample (word_of_nat (order ! k)) (es_eligibility_q15 (here ! k))" if k: "k < unat count" for k
  proof -
    have "encode_sample (pr_samples ph) (a * ?c) (enumerate 0 order ! k) = Inr (here ! k)"
      using collect_results_nth [OF h(2), of k] k assms(2) by simp
    then have "encode_sample (pr_samples ph) (a * ?c) (k, order ! k) = Inr (here ! k)"
      using k assms(2) by (simp add: nth_enumerate_eq)
    then obtain e q where e: "unpack_replay_eligibility_sample (pr_samples ph ! (a * ?c + order ! k)) = (e, q)"
      "unat e = order ! k" "es_eligibility_q15 (here ! k) = q"
      by (auto simp: encode_sample_def elem_at_def split: if_splits prod.splits dest!: sym [where t = "here ! k"])
    have "e = word_of_nat (order ! k)" using e(2) [symmetric] by simp
    then show ?thesis using pack_unpack [OF e(1)] e(3) by simp
  qed
  have dead: "pr_samples ph ! (a * ?c + i) = 0" if "i < ?c" "unat count \<le> i" for i
  proof -
    have "and_then (elem_at (pr_samples ph) (a * ?c + i)) (\<lambda>v. if v \<noteq> 0 then Inl mismatch else Inr ()) = Inr ()"
      using bspec [OF h(3) [unfolded check_dead_samples_def check_all_Inr_iff], of i] that
      by (simp del: and_then_Inr_iff)
    then obtain v where v: "elem_at (pr_samples ph) (a * ?c + i) = (Inr v :: codec_fault + u32)" "(if v \<noteq> 0 then Inl mismatch else Inr ()) = Inr ()"
      unfolding and_then_Inr_iff by blast
    have "v = 0" using v(2) by (cases "v = 0") simp_all
    then show ?thesis using v(1) by (simp add: elem_at_def split: if_splits)
  qed
  show ?thesis using out start len s live dead by (auto simp: word_unat_eq_iff)
qed

lemma encode_spans_inversion:
  assumes fold: "try_fold (encode_span ph count order) (take a (enumerate 0 (pr_spans ph))) (None, [], []) = Inr (prev, ss, sm)"
    and a: "a \<le> length (pr_spans ph)" and order: "length order = unat count"
  shows "length ss = a \<and> length sm = a * unat count
    \<and> (\<forall>b < a. ss_local_synapse_id (ss ! b) = gs_local_synapse_id (pr_spans ph ! b)
        \<and> unat (gs_sample_start (pr_spans ph ! b)) = b * length (pr_events ph)
        \<and> gs_sample_count (pr_spans ph ! b) = count \<and> gs_reserved (pr_spans ph ! b) = 0
        \<and> (\<forall>k < unat count. pr_samples ph ! (b * length (pr_events ph) + order ! k)
              = pack_replay_eligibility_sample (word_of_nat (order ! k)) (es_eligibility_q15 (sm ! (b * unat count + k))))
        \<and> (\<forall>i < length (pr_events ph). unat count \<le> i \<longrightarrow> pr_samples ph ! (b * length (pr_events ph) + i) = 0))"
  using fold a
proof (induction a arbitrary: prev ss sm)
  case (Suc a)
  let ?m = "unat count" and ?c = "length (pr_events ph)"
  have a: "a < length (pr_spans ph)" using Suc.prems(2) by simp
  obtain prev0 ss0 sm0 where st: "try_fold (encode_span ph count order) (take a (enumerate 0 (pr_spans ph))) (None, [], [])
      = Inr (prev0, ss0, sm0)"
    and step: "encode_span ph count order (a, pr_spans ph ! a) (prev0, ss0, sm0) = Inr (prev, ss, sm)"
    using Suc.prems(1) unfolding take_Suc_enumerate [OF a] try_fold_append by auto
  have le: "a \<le> length (pr_spans ph)" using a by simp
  note IH = Suc.IH [OF st le]
  obtain here where h: "ss = ss0 @ [\<lparr> ss_local_synapse_id = gs_local_synapse_id (pr_spans ph ! a),
        ss_sample_start = word_of_nat (length sm0), ss_sample_count = count, ss_reserved = 0 \<rparr>]" "sm = sm0 @ here"
    "length here = ?m" "unat (gs_sample_start (pr_spans ph ! a)) = a * ?c" "gs_sample_count (pr_spans ph ! a) = count"
    "gs_reserved (pr_spans ph ! a) = 0"
    "\<forall>k < ?m. pr_samples ph ! (a * ?c + order ! k) = pack_replay_eligibility_sample (word_of_nat (order ! k)) (es_eligibility_q15 (here ! k))"
    "\<forall>i < ?c. ?m \<le> i \<longrightarrow> pr_samples ph ! (a * ?c + i) = 0"
    using encode_span_inversion [OF step order] by blast
  have sm: "sm ! (b * ?m + k) = (if b = a then here ! k else sm0 ! (b * ?m + k))" if "b < Suc a" "k < ?m" for b k
  proof (cases "b = a")
    case False
    then have "b * ?m + k < a * ?m" using that by (intro cell_bound) simp_all
    then show ?thesis using IH h(2) False by (simp add: nth_append)
  next
    case True
    have "length sm0 = a * ?m" using IH by blast
    then show ?thesis using True by (simp add: nth_append h(2))
  qed
  show ?case using IH h sm by (auto simp: less_Suc_eq nth_append)
qed simp

lemma encode_represents:
  assumes enc: "encode_portable_replay hash plan generation cursor count ph = Inr p"
  shows "portable_validate p = Inr () \<and> represents (cleared count ph) p
    \<and> (\<forall>e \<in> set (pj_events p). sample_ok (re_modulator e))"
proof -
  let ?c = "length (pr_events ph)" and ?m = "unat count" and ?n = "length (pr_spans ph)"
  let ?order = "physical_order_of ?c cursor count"
  obtain events prev ss sm ec sc d where g: "?c \<noteq> 0" "?m \<le> ?c" "unat cursor < ?c" "length (pr_samples ph) = ?c * ?n"
    and ev: "collect_results (\<lambda>i. and_then (elem_at (pr_events ph) i) (\<lambda>row. may_fail (decode_event row))) ?order = Inr events"
    and sp: "try_fold (encode_span ph count ?order) (enumerate 0 (pr_spans ph)) (None, [], []) = Inr (prev, ss, sm)"
    and caps: "try_of_len ?c = Some ec" "try_of_len (length (pr_samples ph)) = Some sc"
    and p: "p = \<lparr> pj_schema_version = GPU_BRAIN_PORTABLE_ASSET_SCHEMA_VERSION, pj_phenotype_hash = hash,
        pj_replay_capture_plan_digest = plan, pj_generation = generation, pj_cursor = cursor,
        pj_event_count = count, pj_event_capacity = ec, pj_sample_capacity = sc, pj_events = events,
        pj_synapse_spans = ss, pj_eligibility_samples = sm, pj_canonical_digest = d \<rparr>"
    and valid: "portable_validate p = Inr ()"
    using enc unfolding encode_portable_replay_def Let_def if_Inl_Inr and_then_Inr_iff may_fail_Inr_iff ok_or_Inr_iff
    by (auto simp: not_less not_le)
  have order: "length ?order = ?m" by (simp add: physical_order_of_def)
  have inv: "length ss = ?n" "length sm = ?n * ?m" "\<And>b. b < ?n \<Longrightarrow> ss_local_synapse_id (ss ! b) = gs_local_synapse_id (pr_spans ph ! b)
        \<and> unat (gs_sample_start (pr_spans ph ! b)) = b * ?c \<and> gs_sample_count (pr_spans ph ! b) = count
        \<and> gs_reserved (pr_spans ph ! b) = 0
        \<and> (\<forall>k < ?m. pr_samples ph ! (b * ?c + ?order ! k)
              = pack_replay_eligibility_sample (word_of_nat (?order ! k)) (es_eligibility_q15 (sm ! (b * ?m + k))))
        \<and> (\<forall>i < ?c. ?m \<le> i \<longrightarrow> pr_samples ph ! (b * ?c + i) = 0)"
    using encode_spans_inversion [of ph count ?order ?n prev ss sm] sp order by simp_all
  have ec: "unat ec = ?c" using try_of_len_Some [OF caps(1)] .
  have fields: "slots_of p = ?c" "count_of p = ?m" "width_of p = ?n" "order_of p = ?order"
    using ec inv(1) by (simp_all add: p order_of_def)
  have row: "decode_event (pr_events ph ! (?order ! k)) = Inr (events ! k) \<and> ?order ! k < ?c" if k: "k < ?m" for k
    using collect_results_nth [OF ev, of k] k order by (auto simp: elem_at_def split: if_splits)
  have lanes: "sample_ok (re_modulator e)" if member: "e \<in> set events" for e
  proof -
    have "length events = ?m" using collect_results_length [OF ev] order by simp
    then obtain k where "k < ?m" "e = events ! k" using member unfolding in_set_conv_nth by auto
    then show ?thesis using decoded_event_row(2) row by blast
  qed
  have events: "pr_events (cleared count ph) ! (?order ! k) = row_of (events ! k)" if k: "k < ?m" for k
  proof -
    have "?order ! k < ?m" using order_slot [OF valid, of k] k unfolding fields .
    then show ?thesis using decoded_event_row(1) [OF conjunct1 [OF row [OF k]]] g(2) by (simp add: cleared_def nth_append)
  qed
  have free: "pr_events (cleared count ph) ! i = zero_event" if "i < ?c" "?m \<le> i" for i
    using that by (simp add: cleared_def nth_append)
  have spans: "pr_spans ph = map (\<lambda>a. \<lparr> gs_local_synapse_id = ss_local_synapse_id (ss ! a),
      gs_sample_start = word_of_nat (a * ?c), gs_sample_count = count, gs_reserved = 0 \<rparr>) [0..<?n]"
  proof (rule nth_equalityI)
    fix b assume b: "b < ?n"
    have "gs_sample_start (pr_spans ph ! b) = word_of_nat (b * ?c)" using arg_cong [where f = "word_of_nat :: nat \<Rightarrow> 32 word", OF conjunct1 [OF conjunct2 [OF inv(3) [OF b]]]] by simp
    then have "pr_spans ph ! b = \<lparr> gs_local_synapse_id = ss_local_synapse_id (ss ! b),
        gs_sample_start = word_of_nat (b * ?c), gs_sample_count = count, gs_reserved = 0 \<rparr>" using inv(3) [OF b] by simp
    then show "pr_spans ph ! b = map (\<lambda>a. \<lparr> gs_local_synapse_id = ss_local_synapse_id (ss ! a),
      gs_sample_start = word_of_nat (a * ?c), gs_sample_count = count, gs_reserved = 0 \<rparr>) [0..<?n] ! b" using b by simp
  qed simp
  have "represents (cleared count ph) p"
    unfolding represents_def fields
    using events free spans inv(3) g(2,4) by (simp add: p cleared_def mult.commute)
  then show ?thesis using valid lanes by (simp add: p)
qed

text \<open>
  C22. A checkpoint of a GPU replay ring is lossless: whatever the encoder accepts, it writes as a valid
  portable journal that decodes to that very ring, every live row bit by bit and every packed sample in
  its place, with the free slots cleared.
\<close>

theorem ring_survives_checkpoint:
  assumes "encode_portable_replay hash plan generation cursor count ph = Inr p"
  shows "portable_validate p = Inr () \<and> decode_physical_replay p = Inr (cleared count ph)"
proof -
  have p: "portable_validate p = Inr ()" "represents (cleared count ph) p" using encode_represents [OF assms] by blast+
  obtain ph' where "decode_physical_replay p = Inr ph'" "represents ph' p" using decode_represents [OF p(1)] by blast
  then show ?thesis using represents_unique [OF _ p(2) portable_fields(1) [OF p(1)]] p(1) by blast
qed

text \<open>
  C23. Conversely every valid portable journal, with well-formed modulators, decodes, and encoding the
  ring it gives with the journal's own cursor writes the journal back, digest included.
\<close>

theorem journal_survives_restore:
  assumes "portable_validate p = Inr ()" and "\<forall>e \<in> set (pj_events p). sample_ok (re_modulator e)"
  shows "\<exists>ph. decode_physical_replay p = Inr ph
    \<and> encode_portable_replay (pj_phenotype_hash p) (pj_replay_capture_plan_digest p) (pj_generation p) (pj_cursor p)
        (pj_event_count p) ph = Inr p"
  using decode_represents [OF assms(1)] encode_represented [OF assms(1)] assms(2) by blast

section \<open>Witnesses\<close>


text \<open>A ring of two slots and one span before its first event, and the journal a checkpoint writes of it.\<close>

definition ex_journal_body :: PortableReplayJournalV1 where
  "ex_journal_body = \<lparr> pj_schema_version = 2, pj_phenotype_hash = (1, 0, 0, 0),
     pj_replay_capture_plan_digest = (2, 0, 0, 0), pj_generation = 1, pj_cursor = 0, pj_event_count = 0,
     pj_event_capacity = 2, pj_sample_capacity = 2, pj_events = [],
     pj_synapse_spans = [\<lparr> ss_local_synapse_id = 3, ss_sample_start = 0, ss_sample_count = 0, ss_reserved = 0 \<rparr>],
     pj_eligibility_samples = [], pj_canonical_digest = zero4 \<rparr>"

definition ex_portable :: PortableReplayJournalV1 where
  "ex_portable = ex_journal_body \<lparr> pj_canonical_digest := projr (portable_recompute ex_journal_body) \<rparr>"

lemma ex_portable_valid: "portable_validate ex_portable = Inr ()" "pj_events ex_portable = []"
  by (simp_all add: ex_portable_def ex_journal_body_def portable_validate_def checked_mul_def try_of_len_def
      MAX_REPLAY_CAPTURE_SYNAPSES_def GPU_BRAIN_PORTABLE_ASSET_SCHEMA_VERSION_def portable_recompute_def Let_def checked_add_def get_range_def
      samples_bad_def)

lemma journal_survives_restore_witness:
  "\<exists>ph. decode_physical_replay ex_portable = Inr ph \<and> is_ok (encode_portable_replay (1, 0, 0, 0) (2, 0, 0, 0) 1 0 0 ph)"
  using journal_survives_restore [OF ex_portable_valid(1)] ex_portable_valid(2)
  by (auto simp: ex_portable_def ex_journal_body_def)

lemma ring_survives_checkpoint_witness:
  "\<exists>ph p. encode_portable_replay (1, 0, 0, 0) (2, 0, 0, 0) 1 0 0 ph = Inr p
     \<and> decode_physical_replay p = Inr (cleared 0 ph)"
proof -
  obtain ph where "represents ph ex_portable" using decode_represents [OF ex_portable_valid(1)] by blast
  then have enc: "encode_portable_replay (1, 0, 0, 0) (2, 0, 0, 0) 1 0 0 ph = Inr ex_portable"
    using encode_represented [OF ex_portable_valid(1), of ph] ex_portable_valid(2)
    by (simp add: ex_portable_def ex_journal_body_def)
  from ring_survives_checkpoint [OF this] enc show ?thesis by blast
qed

end
