(* ===== verification/Sleep_Liveness.thy ===== *)
theory Sleep_Liveness
  imports Sleep_Examples
begin

text \<open>
  Every sleep can be ended: from a sleeping controller, a driver that answers with valid data and a
  clock that passes the configured durations bring it back to \<open>Awake\<close>, with one cycle more completed.
\<close>

section \<open>Single steps\<close>

lemma phase_due:
  assumes "unat (ss_phase_started_tick s) + unat (d :: u32) \<le> unat tick"
  shows "ss_phase_started_tick s \<le> tick"
    and "d \<le> ucast (min (saturating_sub tick (ss_phase_started_tick s)) (0xffffffff :: u64))"
proof -
  show "ss_phase_started_tick s \<le> tick" using assms by (simp add: word_le_nat_alt)
  let ?m = "min (saturating_sub tick (ss_phase_started_tick s)) (0xffffffff :: u64)"
  have m: "unat ?m = min (unat tick - unat (ss_phase_started_tick s)) 0xffffffff"
    by (simp add: min_def word_le_nat_alt unat_saturating_sub)
  then have "unat ?m < 2 ^ 32" by simp
  then have "unat (ucast ?m :: u32) = unat ?m" by (simp add: unsigned_ucast_eq take_bit_nat_eq_self)
  moreover have "unat d \<le> 0xffffffff" using unat_u32_limit [of d] by simp
  ultimately show "d \<le> ucast ?m" using m assms by (simp add: word_le_nat_alt)
qed

lemma advance_step:
  assumes wf: "sleep_wf (sl_state c)" and room: "ss_cycles_completed (sl_state c) \<noteq> - 1"
    and tick: "ss_phase_started_tick (sl_state c) \<le> tick" and q: "advance_next_phase c tick = Some q"
  shows "\<exists>trigger. snd (sleep_step (AdvanceSleep tick) c) = c \<lparr> sl_state := moved (sl_state c) q tick trigger \<rparr>
    \<and> sleep_wf (moved (sl_state c) q tick trigger)"
proof -
  note go = next_phase_move [OF wf tick q]
  show ?thesis
    using tick q by (auto simp: sleep_advance_def tick_validate_monotonic_def Let_def
        some_transition_moves [OF wf go room] moved_wf [OF wf go room])
qed

lemma driver_step:
  assumes wf: "sleep_wf (sl_state c)" and ph: "ss_phase (sl_state c) = Consolidating"
    and k: "next_consolidation (ss_active_cycle_id (sl_state c)) (ss_consolidation (sl_state c)) event = Inr k"
    and v: "consolidation_validate_for_cycle k (ss_active_cycle_id (sl_state c)) = Inr ()"
  shows "sleep_step (DriverEvent event) c = (Inr None, c \<lparr> sl_state := (sl_state c) \<lparr> ss_consolidation := k \<rparr> \<rparr>)"
    and "sleep_wf ((sl_state c) \<lparr> ss_consolidation := k \<rparr>)"
proof -
  show wf': "sleep_wf ((sl_state c) \<lparr> ss_consolidation := k \<rparr>)" by (rule driven_wf [OF wf ph v])
  have "ss_active_cycle_id (sl_state c) \<noteq> 0"
    using wf ph by (auto simp: sleep_wf_def)
  then show "sleep_step (DriverEvent event) c = (Inr None, c \<lparr> sl_state := (sl_state c) \<lparr> ss_consolidation := k \<rparr> \<rparr>)"
    using ph k v wf' by (simp add: apply_consolidation_driver_event_def Let_def sleep_wf_def)
qed

section \<open>An answering driver\<close>

definition good_answers ::
  "u64 \<Rightarrow> digest4 \<Rightarrow> u32 \<Rightarrow> u32 \<Rightarrow> GpuConsolidationRequest \<Rightarrow> ConsolidationJobId \<Rightarrow> ConsolidationStagedOutput \<Rightarrow> bool" where
  "good_answers active replay events samples request job staged \<longleftrightarrow>
     cr_cycle_id request = active \<and> cr_replay_digest request = replay
     \<and> events \<le> cr_max_replay_events request \<and> samples \<le> cr_max_replay_eligibility_samples request
     \<and> (events = 0 \<longrightarrow> samples = 0) \<and> so_job_id staged = job
     \<and> staged_validate_against staged request 1 1 = Inr ()"

definition answers ::
  "u64 \<Rightarrow> digest4 \<Rightarrow> u32 \<Rightarrow> u32 \<Rightarrow> GpuConsolidationRequest \<Rightarrow> ConsolidationJobId \<Rightarrow> ConsolidationStagedOutput \<Rightarrow> SleepOp list" where
  "answers active replay events samples request job staged =
     [DriverEvent (EV_ReplayAssetPersisted \<lparr> ci_cycle_id = active \<rparr> replay events samples),
      DriverEvent (EV_Prepared request), DriverEvent (EV_Submitted request job),
      DriverEvent (EV_Completed request staged),
      DriverEvent (EV_Committed active (so_output_generation staged) (so_output_digest staged))]"

lemma answers_commit:
  assumes wf: "sleep_wf (sl_state c)" and ph: "ss_phase (sl_state c) = Consolidating"
    and fresh: "ss_consolidation (sl_state c) = CS_None"
    and good: "good_answers (ss_active_cycle_id (sl_state c)) replay events samples request job staged"
  shows "\<exists>k. run_ops sleep_step (answers (ss_active_cycle_id (sl_state c)) replay events samples request job staged) c
      = c \<lparr> sl_state := (sl_state c) \<lparr> ss_consolidation := k \<rparr> \<rparr> \<and> is_committed k
    \<and> sleep_wf ((sl_state c) \<lparr> ss_consolidation := k \<rparr>)"
proof -
  let ?s = "sl_state c" and ?a = "ss_active_cycle_id (sl_state c)"
  let ?at = "\<lambda>k. c \<lparr> sl_state := ?s \<lparr> ss_consolidation := k \<rparr> \<rparr>"
  have staged: "staged_validate_against staged request 1 1 = Inr ()" using good by (simp add: good_answers_def)
  note fields = staged_validate_against_fields [OF staged]
  note req = request_validate_fields [OF fields(1)]
  have a: "?a \<noteq> 0" "cr_cycle_id request = ?a" "cr_replay_digest request = replay"
    using good req(1) by (auto simp: good_answers_def)
  have gen: "so_output_generation staged \<noteq> 0" using fields(2) req(3) by auto
  let ?k1 = "CS_Pending \<lparr> ci_cycle_id = ?a \<rparr> replay events samples"
  let ?k5 = "CS_Committed ?a (so_output_generation staged) (so_output_digest staged)"
  have go: "sleep_step (DriverEvent event) (?at k) = (Inr None, ?at k') \<and> sleep_wf (?s \<lparr> ss_consolidation := k' \<rparr>)"
    if "sleep_wf (?s \<lparr> ss_consolidation := k \<rparr>)" "next_consolidation ?a k event = Inr k'"
      "consolidation_validate_for_cycle k' ?a = Inr ()" for k k' event
    using driver_step [of "?at k" event k'] that ph by simp
  have s1: "sleep_step (DriverEvent (EV_ReplayAssetPersisted \<lparr> ci_cycle_id = ?a \<rparr> replay events samples)) c = (Inr None, ?at ?k1)
      \<and> sleep_wf (?s \<lparr> ss_consolidation := ?k1 \<rparr>)"
  proof -
    have n: "next_consolidation ?a (ss_consolidation (sl_state c))
        (EV_ReplayAssetPersisted \<lparr> ci_cycle_id = ?a \<rparr> replay events samples) = Inr ?k1" by (simp add: fresh)
    have v: "consolidation_validate_for_cycle ?k1 ?a = Inr ()"
      using a req(4) good by (simp add: intent_validate_def good_answers_def)
    show ?thesis using driver_step [OF wf ph n v] by blast
  qed
  have s2: "sleep_step (DriverEvent (EV_Prepared request)) (?at ?k1) = (Inr None, ?at (CS_Prepared request))
      \<and> sleep_wf (?s \<lparr> ss_consolidation := CS_Prepared request \<rparr>)"
    using good fields(1) s1 by (intro go) (auto simp: good_answers_def)
  have s3: "sleep_step (DriverEvent (EV_Submitted request job)) (?at (CS_Prepared request)) = (Inr None, ?at (CS_Submitted request job))
      \<and> sleep_wf (?s \<lparr> ss_consolidation := CS_Submitted request job \<rparr>)"
    using fields(1) a s2 by (intro go) auto
  have s4: "sleep_step (DriverEvent (EV_Completed request staged)) (?at (CS_Submitted request job)) = (Inr None, ?at (CS_Completed request staged))
      \<and> sleep_wf (?s \<lparr> ss_consolidation := CS_Completed request staged \<rparr>)"
    using fields(1) a staged good s3 by (intro go) (auto simp: good_answers_def)
  have s5: "sleep_step (DriverEvent (EV_Committed ?a (so_output_generation staged) (so_output_digest staged)))
        (?at (CS_Completed request staged)) = (Inr None, ?at ?k5) \<and> sleep_wf (?s \<lparr> ss_consolidation := ?k5 \<rparr>)"
    using a gen fields(3) s4 by (intro go) auto
  have "run_ops sleep_step (answers ?a replay events samples request job staged) c = ?at ?k5"
    using s1 s2 s3 s4 s5 by (simp add: answers_def del: sleep_step.simps)
  then show ?thesis using s5 by auto
qed

section \<open>Every sleep can end\<close>

definition settle_duration :: "SleepController \<Rightarrow> u32" where
  "settle_duration c = (if ss_phase (sl_state c) = EnteringSleep then sg_entering_duration (sl_config c)
     else sg_forced_recovery_min_duration (sl_config c))"

text \<open>
  C24. No sleep is endless: a controller that has fallen asleep, whatever was called on it before, wakes
  once its durations have passed and the driver has answered the intent of the cycle with a valid
  request and output. The cycle is then counted and its id becomes the last consolidated one.
\<close>

theorem answered_sleep_wakes:
  assumes "sleep_controller_new config = Inr c0" and "c = run_ops sleep_step ops c0"
    and "ss_cycles_completed (sl_state c) \<noteq> - 1"
    and "ss_phase (sl_state c) \<in> {EnteringSleep, ForcedRecoverySleep}"
    and "good_answers (ss_active_cycle_id (sl_state c)) replay events samples request job staged"
    and "unat (ss_phase_started_tick (sl_state c)) + unat (settle_duration c) \<le> unat t1" and "t1 \<le> t2"
    and "unat t2 + unat (sg_waking_duration (sl_config c)) \<le> unat t3"
  shows "let c' = run_ops sleep_step ([AdvanceSleep t1] @
      answers (ss_active_cycle_id (sl_state c)) replay events samples request job staged @ [AdvanceSleep t2, AdvanceSleep t3]) c
    in ss_phase (sl_state c') = Awake \<and> ss_last_consolidated_cycle_id (sl_state c') = ss_active_cycle_id (sl_state c)
      \<and> ss_cycles_completed (sl_state c') = ss_cycles_completed (sl_state c) + 1"
proof -
  let ?a = "ss_active_cycle_id (sl_state c)"
  have "sleep_inv c" unfolding assms(2) using sleep_new_wf [OF assms(1)] by (intro sleep_machine.run_keeps) simp
  then have wf: "sleep_wf (sl_state c)" using assms(3) by (simp add: sleep_inv_def)
  note due1 = phase_due [OF assms(6)]
  have "advance_next_phase c t1 = Some Consolidating"
    using assms(4) due1(2) by (auto simp: advance_next_phase_def Let_def settle_duration_def split: if_splits)
  from advance_step [OF wf assms(3) due1(1) this] obtain trig1 where
    s1: "snd (sleep_step (AdvanceSleep t1) c) = c \<lparr> sl_state := moved (sl_state c) Consolidating t1 trig1 \<rparr>"
    and wf1: "sleep_wf (moved (sl_state c) Consolidating t1 trig1)" by blast
  let ?c1 = "c \<lparr> sl_state := moved (sl_state c) Consolidating t1 trig1 \<rparr>"
  have active1: "ss_active_cycle_id (sl_state ?c1) = ?a"
    using sleep_wf_fields(7) [OF wf] assms(4) by (auto simp: moved_def)
  obtain k where s2: "run_ops sleep_step (answers ?a replay events samples request job staged) ?c1
      = ?c1 \<lparr> sl_state := (sl_state ?c1) \<lparr> ss_consolidation := k \<rparr> \<rparr>" and k: "is_committed k"
    and wf2: "sleep_wf ((sl_state ?c1) \<lparr> ss_consolidation := k \<rparr>)"
    using answers_commit [of ?c1 replay events samples request job staged] wf1 assms(5) active1 by (auto simp: moved_def)
  let ?c2 = "?c1 \<lparr> sl_state := (sl_state ?c1) \<lparr> ss_consolidation := k \<rparr> \<rparr>"
  have facts2: "ss_phase (sl_state ?c2) = Consolidating" "ss_phase_started_tick (sl_state ?c2) = t1"
    "ss_cycles_completed (sl_state ?c2) = ss_cycles_completed (sl_state c)" "sl_config ?c2 = sl_config c"
    "ss_active_cycle_id (sl_state ?c2) = ?a" "ss_consolidation (sl_state ?c2) = k"
    using active1 by (simp_all add: moved_def)
  have "advance_next_phase ?c2 t2 = Some Waking"
    using facts2(1,6) k by (simp only: advance_next_phase_def Let_def SleepPhase.case if_True)
  from advance_step [OF _ _ _ this] obtain trig2 where
    s3: "snd (sleep_step (AdvanceSleep t2) ?c2) = ?c2 \<lparr> sl_state := moved (sl_state ?c2) Waking t2 trig2 \<rparr>"
    and wf3: "sleep_wf (moved (sl_state ?c2) Waking t2 trig2)" using wf2 facts2 assms(3,7) by auto
  let ?c3 = "?c2 \<lparr> sl_state := moved (sl_state ?c2) Waking t2 trig2 \<rparr>"
  have facts3: "ss_phase (sl_state ?c3) = Waking" "ss_phase_started_tick (sl_state ?c3) = t2"
    "ss_cycles_completed (sl_state ?c3) = ss_cycles_completed (sl_state c)" "sl_config ?c3 = sl_config c"
    "ss_active_cycle_id (sl_state ?c3) = ?a"
    using facts2 sleep_wf_fields(7) [OF wf2] by (simp_all add: moved_def)
  note due3 = phase_due [of "sl_state ?c3", unfolded facts3, OF assms(8)]
  have "advance_next_phase ?c3 t3 = Some Awake"
    using due3(2) by (simp only: advance_next_phase_def Let_def facts3 SleepPhase.case if_True)
  from advance_step [OF _ _ _ this] obtain trig3 where
    s4: "snd (sleep_step (AdvanceSleep t3) ?c3) = ?c3 \<lparr> sl_state := moved (sl_state ?c3) Awake t3 trig3 \<rparr>"
    using wf3 facts3 due3(1) assms(3) by auto
  have "run_ops sleep_step ([AdvanceSleep t1] @ answers ?a replay events samples request job staged
      @ [AdvanceSleep t2, AdvanceSleep t3]) c = ?c3 \<lparr> sl_state := moved (sl_state ?c3) Awake t3 trig3 \<rparr>"
    unfolding run_ops_append run_ops_simps s1 s2 s3 s4 ..
  then show ?thesis using facts3 unfolding Let_def by (simp add: moved_def)
qed

lemma answered_sleep_wakes_witness:
  "\<exists>c'. run_ops sleep_step ([AdvanceSleep 9] @ answers 1 (9, 10, 11, 12) 4 2 ex_request 7 ex_staged
       @ [AdvanceSleep 9, AdvanceSleep 12]) (ex_asleep ForcedRecoverySleep 1 CS_None) = c'
     \<and> ss_phase (sl_state c') = Awake \<and> ss_last_consolidated_cycle_id (sl_state c') = 1"
proof -
  let ?c = "ex_asleep ForcedRecoverySleep 1 CS_None"
  have c: "?c = run_ops sleep_step [ForceSleep 1 ForcedRequest] ex_controller"
    by (simp add: ex_step_force del: sleep_step.simps)
  have good: "good_answers (ss_active_cycle_id (sl_state ?c)) (9, 10, 11, 12) 4 2 ex_request 7 ex_staged"
    by (simp add: good_answers_def ex_asleep_def)
  have hyps: "ss_cycles_completed (sl_state ?c) \<noteq> - 1" "ss_phase (sl_state ?c) \<in> {EnteringSleep, ForcedRecoverySleep}"
    "unat (ss_phase_started_tick (sl_state ?c)) + unat (settle_duration ?c) \<le> unat (9 :: u64)"
    "unat (9 :: u64) + unat (sg_waking_duration (sl_config ?c)) \<le> unat (12 :: u64)"
    by (simp_all add: ex_asleep_def settle_duration_def sleep_config_reference_def)
  show ?thesis
    using answered_sleep_wakes [OF ex_controller_new c hyps(1,2) good hyps(3) order.refl hyps(4)]
    by (simp add: Let_def ex_asleep_def)
qed

end
