(* ===== verification/Tile_Pairs.thy ===== *)
theory Tile_Pairs
  imports Routing F32_Quotient "HOL-Library.While_Combinator" "HOL-Library.Product_Lexorder"
begin

text \<open>
  The sparse coordinates of a recurrent route in
  \<open>crates/alife_core/src/phenotype/topology_compile.rs\<close>: Euclid's loop, the loop that looks for a stride
  coprime to the number of 16 by 16 tiles (both also at the width the sensor encoder of
  \<open>io_compile.rs\<close> uses them), and \<open>deterministic_tile_pairs\<close>, which walks the tiles with
  that stride and fills them row by row. The products of \<open>u64\<close> wrap, as in a release build.
\<close>

section \<open>Euclid's loop\<close>

function gcd_loop :: "'a::len word \<Rightarrow> 'a word \<Rightarrow> 'a word" where
  "gcd_loop a b = (if b = 0 then a else gcd_loop b (a mod b))"
  by pat_completeness auto
termination
  by (relation "measure (\<lambda>(a, b). unat b)") (auto simp: word_mod_less_divisor word_less_nat_alt [symmetric] word_gt_0)

declare gcd_loop.simps [simp del]

lemma unat_gcd_loop: "unat (gcd_loop a b) = gcd (unat a) (unat b)"
proof (induction a b rule: gcd_loop.induct)
  case (1 a b)
  show ?case
  proof (cases "b = 0")
    case False
    then have "unat (gcd_loop a b) = gcd (unat b) (unat a mod unat b)"
      using 1 by (simp add: gcd_loop.simps [of a b] unat_mod_distrib)
    then show ?thesis by (metis gcd.commute gcd_red_nat)
  qed (simp add: gcd_loop.simps)
qed

lemma gcd_loop_one_iff: "gcd_loop a b = 1 \<longleftrightarrow> coprime (unat a) (unat b)"
  by (metis unat_gcd_loop coprime_iff_gcd_eq_1 unsigned_1 word_unat_eq_iff)

section \<open>The stride\<close>

definition next_stride :: "'a::len word \<Rightarrow> 'a word \<Rightarrow> 'a word" where
  "next_stride available s = (let s' = (s + 2) mod available in if s' = 0 then 1 else s')"

definition coprime_stride :: "'a::len word \<Rightarrow> 'a word \<Rightarrow> 'a word option" where
  "coprime_stride available first =
     while_option (\<lambda>s. gcd_loop s available \<noteq> 1) (next_stride available) first"

definition MAX_TILE_PAIRS_SEED :: u64 where "MAX_TILE_PAIRS_SEED = 0xd1b54a32d192ed03"

definition tile_count_of :: "u32 \<Rightarrow> u64" where
  "tile_count_of pairs = ucast (max (div_ceil pairs 256) 1)"

text \<open>One coordinate pair: the tile of the walk that the index falls on, and its cell within.\<close>

definition tile_pair :: "u32 \<Rightarrow> u32 \<Rightarrow> u32 \<Rightarrow> u64 list \<Rightarrow> u64 \<Rightarrow> nat \<Rightarrow> u32 \<times> u32" where
  "tile_pair source_start target_start target_tiles tiles tile_count index =
     (let tile = tiles ! (index mod length tiles);
          within = (word_of_nat index :: u64) div tile_count;
          source_tile = tile div ucast target_tiles;
          target_tile = tile mod ucast target_tiles
      in (source_start + ucast source_tile * 16 + ucast (within div 16),
          target_start + ucast target_tile * 16 + ucast (within mod 16)))"

text \<open>\<open>None\<close> is the panic on the remainder by zero, or a stride loop that does not return.\<close>

definition deterministic_tile_pairs ::
  "u32 \<Rightarrow> u32 \<Rightarrow> u32 \<Rightarrow> u32 \<Rightarrow> u32 \<Rightarrow> u64 \<Rightarrow> ActiveTilePolicy \<Rightarrow> (u32 \<times> u32) list option" where
  "deterministic_tile_pairs source_start source_len target_start target_len pairs seed policy =
     (let source_tiles = source_len div 16;
          target_tiles = target_len div 16;
          available = (ucast source_tiles :: u64) * ucast target_tiles;
          tile_count = tile_count_of pairs;
          policy_seed = seed XOR push_bit 56 (ucast (tile_policy_raw policy))
      in if available = 0 then None
         else case coprime_stride available ((splitmix64 policy_seed mod available) OR 1) of
           None \<Rightarrow> None
         | Some step \<Rightarrow>
             let tile_start = splitmix64 (policy_seed XOR MAX_TILE_PAIRS_SEED) mod available;
                 tiles = map (\<lambda>index. (tile_start + word_of_nat index * step) mod available) [0..<unat tile_count]
             in Some (map (tile_pair source_start target_start target_tiles tiles tile_count) [0..<unat pairs]))"

section \<open>The stride loop returns\<close>

definition stride_rank :: "'a::len word \<Rightarrow> 'a word \<Rightarrow> nat" where
  "stride_rank available s =
     (if s = 1 then 0 else if s = available then Suc (unat available) else unat available - unat s)"

lemma next_stride_unat:
  fixes available :: "'a::len word"
  assumes "available \<noteq> 0" and "unat available + 2 < 2 ^ LENGTH('a)" and "s \<le> available"
  shows "unat (next_stride available s)
    = (let m = (unat s + 2) mod unat available in if m = 0 then 1 else m)"
proof -
  have "(2 :: nat) < 2 ^ LENGTH('a)" using assms(2) by simp
  then have two: "unat (2 :: 'a word) = 2" using unat_of_nat [of 2, where 'a = 'a] by simp
  then have "unat (s + 2) = unat s + 2" using assms by (subst unat_plus_no_overflow) (simp_all add: word_le_nat_alt)
  then have "unat ((s + 2) mod available) = (unat s + 2) mod unat available" by (simp add: unat_mod_distrib)
  then show ?thesis by (simp add: next_stride_def Let_def word_unat_eq_iff)
qed

lemma stride_step:
  fixes available :: "'a::len word"
  assumes a: "available \<noteq> 0" "unat available + 2 < 2 ^ LENGTH('a)" and s: "s \<noteq> 0" "s \<le> available"
    and bad: "gcd_loop s available \<noteq> 1"
  shows "next_stride available s \<noteq> 0 \<and> next_stride available s \<le> available
    \<and> stride_rank available (next_stride available s) < stride_rank available s"
proof -
  let ?a = "unat available" and ?s = "unat s" and ?n = "unat (next_stride available s)"
  have n: "?n = (let m = (?s + 2) mod ?a in if m = 0 then 1 else m)" using next_stride_unat [OF a s(2)] .
  have "?s \<noteq> 1" using bad by (auto simp: gcd_loop_one_iff)
  moreover have "?a \<noteq> 1" using bad by (auto simp: gcd_loop_one_iff)
  moreover have "?a \<noteq> 0" "?s \<noteq> 0" "?s \<le> ?a" using a s by (simp_all add: unat_eq_0 word_le_nat_alt)
  ultimately have s2: "2 \<le> ?s" "?s \<le> ?a" "2 \<le> ?a" by simp_all
  have cases: "?n = 1 \<or> ?n = ?s + 2 \<and> ?s + 2 < ?a \<or> ?s = ?a \<and> ?n = 2 \<and> 2 < ?a"
  proof (cases "?s + 2 < ?a")
    case True
    then show ?thesis using n by (simp add: Let_def)
  next
    case False
    then have m: "(?s + 2) mod ?a = (?s + 2 - ?a) mod ?a" using s2 by (simp add: le_mod_geq)
    have "?s + 2 - ?a = 0 \<or> ?s + 2 - ?a = 1 \<or> ?s + 2 - ?a = 2 \<and> ?s = ?a" using False s2 by arith
    then show ?thesis using n m s2 by (cases "?a = 2") (auto simp: Let_def)
  qed
  have rank: "stride_rank available x = (if unat x = 1 then 0 else if unat x = ?a then Suc ?a else ?a - unat x)" for x
    by (simp add: stride_rank_def word_unat_eq_iff)
  have "?n \<noteq> 0" "?n \<le> ?a" using cases s2 by auto
  moreover have "stride_rank available (next_stride available s) < stride_rank available s"
    unfolding rank using cases s2 by auto
  ultimately show ?thesis by (simp add: word_le_nat_alt unat_eq_0)
qed

lemma coprime_stride_returns:
  fixes available :: "'a::len word"
  assumes "available \<noteq> 0" and "unat available + 2 < 2 ^ LENGTH('a)" and "first \<noteq> 0" and "first \<le> available"
  shows "\<exists>s. coprime_stride available first = Some s \<and> coprime (unat s) (unat available) \<and> s \<le> available"
proof -
  have "\<exists>s. while_option (\<lambda>s. gcd_loop s available \<noteq> 1) (next_stride available) first = Some s"
    by (rule measure_while_option_Some [where P = "\<lambda>s. s \<noteq> 0 \<and> s \<le> available" and f = "stride_rank available"])
      (use stride_step assms in auto)
  then obtain s where s: "coprime_stride available first = Some s" unfolding coprime_stride_def by blast
  have "s \<noteq> 0 \<and> s \<le> available"
    by (rule while_option_rule [OF _ s [unfolded coprime_stride_def]]) (use stride_step assms in auto)
  moreover have "coprime (unat s) (unat available)"
    using while_option_stop [OF s [unfolded coprime_stride_def]] by (simp add: gcd_loop_one_iff)
  ultimately show ?thesis using s by blast
qed

lemma odd_start:
  assumes "available \<noteq> (0 :: 'a::len word)"
  shows "(x mod available) OR 1 \<noteq> 0 \<and> (x mod available) OR 1 \<le> available"
proof -
  have lt: "unat (x mod available) < unat available" using assms by (simp add: unat_mod_distrib word_gt_0 unat_gt_0)
  have one: "unat (y OR 1) = unat y + of_bool (even (unat y))" for y :: "'a word"
    unfolding unsigned_or_eq unsigned_1 by (rule or_one_eq)
  have "unat (y OR 1) \<le> Suc (unat y)" "odd (unat (y OR 1))" for y :: "'a word" by (simp_all add: one)
  then have "unat ((x mod available) OR 1) \<le> unat available" "unat ((x mod available) OR 1) \<noteq> 0"
    using lt le_trans [OF _ Suc_leI [OF lt]] odd_pos by blast+
  then show ?thesis by (simp add: word_le_nat_alt unat_eq_0)
qed

section \<open>The walk over the tiles\<close>

lemma coprime_walk_injective:
  fixes a step start i j :: nat
  assumes "coprime step a" and "i < a" and "j < a" and "(start + i * step) mod a = (start + j * step) mod a"
  shows "i = j"
proof -
  have *: "i = j" if le: "i \<le> j" and "j < a" and eq: "(start + j * step) mod a = (start + i * step) mod a" for i j :: nat
  proof -
    have "a dvd (start + j * step) - (start + i * step)"
      using eq le by (subst mod_eq_dvd_iff_nat [symmetric]) simp_all
    then have "a dvd (j - i) * step" by (simp add: diff_mult_distrib)
    then have "a dvd j - i" using assms(1) by (simp add: coprime_dvd_mult_left_iff coprime_commute)
    then show ?thesis using le that(2) by (metis diff_diff_cancel diff_is_0_eq dvd_imp_le le_neq_implies_less less_imp_diff_less not_le zero_less_diff)
  qed
  show ?thesis using * [of i j] * [of j i] assms(2-4) by (cases "i \<le> j") simp_all
qed

definition walk :: "nat \<Rightarrow> nat \<Rightarrow> nat \<Rightarrow> nat \<Rightarrow> nat" where
  "walk a start step i = (start + i * step) mod a"

lemma unat_walk:
  fixes available start step :: u64
  assumes "unat available < 2 ^ 32" and "unat start < unat available" and "step \<le> available" and "i < unat available"
  shows "unat ((start + word_of_nat i * step) mod available) = walk (unat available) (unat start) (unat step) i"
proof -
  have "i * unat step \<le> (unat available - 1) * unat available"
    using assms(3,4) by (intro mult_le_mono) (simp_all add: word_le_nat_alt)
  moreover have "(unat available - 1) * unat available + unat available = unat available * unat available"
    using assms(2) by (cases "unat available") simp_all
  moreover have "unat available * unat available \<le> 2 ^ 32 * 2 ^ 32" using assms(1) by (intro mult_le_mono) simp_all
  ultimately have "unat start + i * unat step < 2 ^ 64" using assms(2) by simp
  moreover have "unat (word_of_nat i :: u64) = i" using assms(1,4) by (simp add: unat_of_nat take_bit_nat_eq_self)
  ultimately show ?thesis by (simp add: walk_def unat_mod_distrib unat_word_ariths)
qed

lemma unat_div_ceil:
  assumes "b \<noteq> 0"
  shows "unat (div_ceil a b) = (unat a + unat b - 1) div unat b"
proof -
  let ?a = "unat a" and ?b = "unat b"
  have b: "0 < ?b" using assms by (simp add: unat_gt_0)
  have split: "?a = ?a div ?b * ?b + ?a mod ?b" by simp
  show ?thesis
  proof (cases "?a mod ?b = 0")
    case True
    have "(?a + ?b - 1) div ?b = ?a div ?b"
      using b True split by (intro div_nat_eqI) (simp_all add: algebra_simps)
    then show ?thesis using True by (simp add: div_ceil_def word_unat_eq_iff unat_mod_distrib unat_div_distrib)
  next
    case False
    have "(?a + ?b - 1) div ?b = Suc (?a div ?b)"
    proof -
      have "?a + ?b - 1 = (?a mod ?b - 1) + Suc (?a div ?b) * ?b"
        unfolding mult_Suc using b False split by linarith
      moreover have "(?a mod ?b - 1) div ?b = 0" using mod_less_divisor [OF b, of ?a] by simp
      ultimately show ?thesis using b by (simp del: mult_Suc)
    qed
    moreover have "?a div ?b \<le> ?a" by simp
    moreover have "?a div ?b < ?a" if "?b \<noteq> 1" using b that False by (intro div_less_dividend) (auto intro: Nat.gr0I)
    ultimately have "unat (a div b + 1) = Suc (?a div ?b)"
      using unsigned_less [where 'a = nat, of a] False by (cases "?b = 1") (simp_all add: unat_word_ariths unat_div_distrib)
    then show ?thesis using False \<open>(?a + ?b - 1) div ?b = _\<close>
      by (simp add: div_ceil_def word_unat_eq_iff unat_mod_distrib)
  qed
qed

lemma tile_count_facts:
  "unat (tile_count_of pairs) \<noteq> 0" "unat pairs \<le> 256 * unat (tile_count_of pairs)"
  "256 * unat (tile_count_of pairs) < unat pairs + 256 \<or> unat (tile_count_of pairs) = 1"
proof -
  have "unat (div_ceil pairs 256) = (unat pairs + unat (256 :: u32) - 1) div unat (256 :: u32)" by (rule unat_div_ceil) simp
  moreover have "unat (256 :: u32) = 256" by simp
  ultimately have "unat (div_ceil pairs 256) = (unat pairs + 255) div 256" by simp
  then have "unat (tile_count_of pairs) = max ((unat pairs + 255) div 256) 1"
    by (simp add: tile_count_of_def unat_widen max_def word_le_nat_alt)
  then show "unat (tile_count_of pairs) \<noteq> 0" "unat pairs \<le> 256 * unat (tile_count_of pairs)"
    "256 * unat (tile_count_of pairs) < unat pairs + 256 \<or> unat (tile_count_of pairs) = 1"
    by (simp_all add: max_def) linarith+
qed

text \<open>The coordinates of one pair, as numbers.\<close>

definition cell :: "nat \<Rightarrow> nat \<Rightarrow> nat \<Rightarrow> nat \<Rightarrow> nat \<Rightarrow> nat \<times> nat" where
  "cell source_start target_start target_tiles tile within =
     (source_start + tile div target_tiles * 16 + within div 16, target_start + tile mod target_tiles * 16 + within mod 16)"

lemma cell_injective:
  assumes "cell ss ts tt tile w = cell ss ts tt tile' w'" and "w < 256" and "w' < 256"
  shows "tile = tile' \<and> w = w'"
proof -
  have *: "a = a' \<and> b = b'" if "a * 16 + b = a' * 16 + b'" "b < 16" "b' < 16" for a a' b b' :: nat
  proof -
    have "a = a'" using that div_mult_self3 [of 16 b a] div_mult_self3 [of 16 b' a'] by simp
    then show ?thesis using that(1) by simp
  qed
  have "tile div tt * 16 + w div 16 = tile' div tt * 16 + w' div 16"
    "tile mod tt * 16 + w mod 16 = tile' mod tt * 16 + w' mod 16" using assms(1) by (simp_all add: cell_def)
  moreover have "w div 16 < 16" "w' div 16 < 16" "w mod 16 < 16" "w' mod 16 < 16" using assms(2,3) by simp_all
  ultimately have "tile div tt = tile' div tt \<and> w div 16 = w' div 16" "tile mod tt = tile' mod tt \<and> w mod 16 = w' mod 16"
    using * by blast+
  then show ?thesis by (metis div_mult_mod_eq)
qed

lemma cell_bounds:
  assumes "tile < st * tt" and "w < 256" and "st * 16 \<le> sl" and "tt * 16 \<le> tw"
  shows "fst (cell ss ts tt tile w) < ss + sl \<and> snd (cell ss ts tt tile w) < ts + tw"
proof -
  have "0 < tt" using assms(1) by (cases tt) simp_all
  then have "tile div tt < st" "tile mod tt < tt" using assms(1) by (simp_all add: less_mult_imp_div_less)
  then have "Suc (tile div tt) * 16 \<le> sl" "Suc (tile mod tt) * 16 \<le> tw"
    using assms(3,4) le_trans [OF mult_le_mono1 [OF Suc_leI]] by blast+
  moreover have "w div 16 < 16" "w mod 16 < 16" using assms(2) by simp_all
  ultimately show ?thesis by (simp add: cell_def)
qed

text \<open>The rows of a route, as numbers.\<close>

definition row_cell :: "nat \<Rightarrow> nat \<Rightarrow> nat \<Rightarrow> nat \<Rightarrow> nat \<Rightarrow> nat \<Rightarrow> nat \<Rightarrow> nat \<Rightarrow> nat \<times> nat" where
  "row_cell ss ts tt a start step tiles i = cell ss ts tt (walk a start step (i mod tiles)) (i div tiles)"

lemma row_cell_injective:
  assumes "row_cell ss ts tt a start step tiles i = row_cell ss ts tt a start step tiles j"
    and "coprime step a" and "0 < tiles" and "tiles \<le> a" and "i < 256 * tiles" and "j < 256 * tiles"
  shows "i = j"
proof -
  have "i div tiles < 256" "j div tiles < 256" using assms(5,6) by (simp_all add: less_mult_imp_div_less)
  then have "walk a start step (i mod tiles) = walk a start step (j mod tiles)" "i div tiles = j div tiles"
    using assms(1) cell_injective unfolding row_cell_def by blast+
  moreover have "i mod tiles < a" "j mod tiles < a" using assms(3,4) by (meson less_le_trans mod_less_divisor)+
  ultimately have "i mod tiles = j mod tiles" "i div tiles = j div tiles"
    using coprime_walk_injective [OF assms(2)] unfolding walk_def by blast+
  then show ?thesis by (metis div_mult_mod_eq)
qed

lemma unat_place:
  fixes base :: u32 and a b :: u64
  assumes "unat base + unat a * 16 + unat b < 2 ^ 32"
  shows "unat (base + ucast a * 16 + ucast b) = unat base + unat a * 16 + unat b"
proof -
  have "unat (ucast a :: u32) = unat a" "unat (ucast b :: u32) = unat b"
    using assms by (simp_all add: unsigned_ucast_eq take_bit_nat_eq_self)
  then show ?thesis using assms by (simp add: unat_word_ariths)
qed

lemma tile_pair_cell:
  fixes available start step n :: u64 and source_len target_len ss ts :: u32
  defines "st \<equiv> unat source_len div 16" and "tt \<equiv> unat target_len div 16"
  assumes available: "unat available = st * tt" "unat available < 2 ^ 32" "unat start < unat available" "step \<le> available"
    and count: "0 < unat n" "unat n \<le> unat available" "i < 256 * unat n"
    and room: "unat ss + unat source_len \<le> 2 ^ 32" "unat ts + unat target_len \<le> 2 ^ 32"
    and tiles: "tiles = map (\<lambda>index. (start + word_of_nat index * step) mod available) [0..<unat n]"
  shows "map_prod unat unat (tile_pair ss ts (target_len div 16) tiles n i)
      = row_cell (unat ss) (unat ts) tt (unat available) (unat start) (unat step) (unat n) i"
    and "row_cell (unat ss) (unat ts) tt (unat available) (unat start) (unat step) (unat n) i
      \<in> {unat ss ..< unat ss + unat source_len} \<times> {unat ts ..< unat ts + unat target_len}"
proof -
  let ?w = "i div unat n" and ?t = "walk (unat available) (unat start) (unat step) (i mod unat n)"
  have i: "i mod unat n < unat n" "i < 2 ^ 40" "?w < 256" using count available(2) by (simp_all add: less_mult_imp_div_less)
  have t: "unat (tiles ! (i mod length tiles)) = ?t"
    using unat_walk [OF available(2,3,4), of "i mod unat n"] i(1) count(2) by (simp add: tiles)
  have within: "unat (word_of_nat i :: u64) = i" using i(2) by (simp add: unat_of_nat take_bit_nat_eq_self)
  have lt: "?t < st * tt" unfolding walk_def available(1) [symmetric] using available(3) by (intro mod_less_divisor) simp
  have sizes: "st * 16 \<le> unat source_len" "tt * 16 \<le> unat target_len" by (simp_all add: st_def tt_def)
  have bounds: "fst (cell (unat ss) (unat ts) tt ?t ?w) < unat ss + unat source_len"
    "snd (cell (unat ss) (unat ts) tt ?t ?w) < unat ts + unat target_len"
    using cell_bounds [OF lt i(3) sizes, of "unat ss" "unat ts"] by blast+
  show "row_cell (unat ss) (unat ts) tt (unat available) (unat start) (unat step) (unat n) i
      \<in> {unat ss ..< unat ss + unat source_len} \<times> {unat ts ..< unat ts + unat target_len}"
    using bounds by (simp add: row_cell_def cell_def)
  have tt64: "unat (ucast (target_len div 16) :: u64) = tt" by (simp add: tt_def unat_widen unat_div_distrib)
  show "map_prod unat unat (tile_pair ss ts (target_len div 16) tiles n i)
      = row_cell (unat ss) (unat ts) tt (unat available) (unat start) (unat step) (unat n) i"
    using bounds room unat_place [of ss "tiles ! (i mod length tiles) div ucast (target_len div 16)" "word_of_nat i div n div 16"]
      unat_place [of ts "tiles ! (i mod length tiles) mod ucast (target_len div 16)" "word_of_nat i div n mod 16"]
    by (simp add: tile_pair_def row_cell_def cell_def Let_def unat_div_distrib unat_mod_distrib t within tt64 del: length_map)
qed

section \<open>Every route is placed\<close>

lemma available_tiles:
  "unat ((ucast (source_len div 16) :: u64) * ucast (target_len div 16))
     = (unat (source_len :: u32) div 16) * (unat (target_len :: u32) div 16)"
  "unat source_len div 16 * (unat target_len div 16) \<le> 2 ^ 56"
proof -
  have lt: "unat source_len < 2 ^ 32" "unat target_len < 2 ^ 32" by (rule unsigned_less [where 'a = nat, THEN order_less_le_trans]; simp)+
  have "unat source_len div 16 * (unat target_len div 16) \<le> 2 ^ 28 * 2 ^ 28" using lt by (intro mult_le_mono) simp_all
  then show "unat source_len div 16 * (unat target_len div 16) \<le> 2 ^ 56" by simp
  then show "unat ((ucast (source_len div 16) :: u64) * ucast (target_len div 16))
     = (unat source_len div 16) * (unat target_len div 16)"
    using unat_mult_no_overflow [of "ucast (source_len div 16) :: u64" "ucast (target_len div 16)"]
    by (simp add: unat_widen unat_div_distrib)
qed

lemma tile_pairs_return:
  assumes "16 \<le> source_len" and "16 \<le> target_len"
  shows "\<exists>rows. deterministic_tile_pairs source_start source_len target_start target_len pairs seed policy = Some rows
    \<and> length rows = unat pairs"
proof -
  let ?a = "(ucast (source_len div 16) :: u64) * ucast (target_len div 16)"
  have "1 \<le> unat source_len div 16" "1 \<le> unat target_len div 16"
    using assms by (simp_all add: word_le_nat_alt)
  then have a: "?a \<noteq> 0" "unat ?a + 2 < 2 ^ LENGTH(64)"
    using available_tiles [of source_len target_len] by (simp_all add: word_unat_eq_iff)
  obtain step where "coprime_stride ?a ((splitmix64 (seed XOR push_bit 56 (ucast (tile_policy_raw policy))) mod ?a) OR 1) = Some step"
    using coprime_stride_returns [OF a conjunct1 [OF odd_start [OF a(1)]] conjunct2 [OF odd_start [OF a(1)]]] by blast
  then show ?thesis using a(1) by (simp add: deterministic_tile_pairs_def Let_def)
qed

text \<open>
  The placement of a route always ends: for regions of at least one tile each, whatever the seed, the
  search for a stride stops and the pairs are returned.
\<close>

lemma tile_placement_returns:
  assumes "16 \<le> source_len" and "16 \<le> target_len"
  shows "\<exists>rows. deterministic_tile_pairs source_start source_len target_start target_len pairs seed policy = Some rows
    \<and> length rows = unat pairs"
  using assms by (rule tile_pairs_return)

text \<open>The pairs of a route lie in its two regions and no pair is placed twice.\<close>

lemma tile_pairs_spec:
  assumes rows: "deterministic_tile_pairs ss source_len ts target_len pairs seed policy = Some rows"
    and small: "unat source_len div 16 * (unat target_len div 16) < 2 ^ 32"
    and fits: "unat pairs \<le> 256 * (unat source_len div 16 * (unat target_len div 16))"
    and room: "unat ss + unat source_len \<le> 2 ^ 32" "unat ts + unat target_len \<le> 2 ^ 32"
  shows "length rows = unat pairs \<and> distinct rows
    \<and> (\<forall>(s, t) \<in> set rows. unat ss \<le> unat s \<and> unat s < unat ss + unat source_len
         \<and> unat ts \<le> unat t \<and> unat t < unat ts + unat target_len)"
proof -
  let ?a = "(ucast (source_len div 16) :: u64) * ucast (target_len div 16)"
  let ?n = "tile_count_of pairs" and ?seed = "seed XOR push_bit 56 (ucast (tile_policy_raw policy))"
  define start where "start = splitmix64 (?seed XOR MAX_TILE_PAIRS_SEED) mod ?a"
  have a: "?a \<noteq> 0" using rows by (auto simp: deterministic_tile_pairs_def Let_def)
  note avail = available_tiles [of source_len target_len]
  have a63: "unat ?a + 2 < 2 ^ LENGTH(64)" using avail by simp
  obtain step where step: "coprime_stride ?a ((splitmix64 ?seed mod ?a) OR 1) = Some step" "coprime (unat step) (unat ?a)" "step \<le> ?a"
    using coprime_stride_returns [OF a a63 conjunct1 [OF odd_start [OF a]] conjunct2 [OF odd_start [OF a]]] by blast
  define tiles where "tiles = map (\<lambda>index. (start + word_of_nat index * step) mod ?a) [0..<unat ?n]"
  have rows: "rows = map (tile_pair ss ts (target_len div 16) tiles ?n) [0..<unat pairs]"
    using rows a step(1) by (simp add: deterministic_tile_pairs_def Let_def tiles_def start_def)
  have start: "unat start < unat ?a" using a by (simp add: start_def unat_mod_distrib unat_gt_0 word_gt_0)
  have n: "0 < unat ?n" "unat ?n \<le> unat ?a"
    using tile_count_facts [of pairs] fits start unfolding avail(1) by linarith+
  have small': "unat ?a < 2 ^ 32" using small avail(1) by simp
  define place where "place = row_cell (unat ss) (unat ts) (unat target_len div 16) (unat ?a) (unat start) (unat step) (unat ?n)"
  have i: "i < 256 * unat ?n" if "i < unat pairs" for i using that tile_count_facts(2) [of pairs] by simp
  have pair: "map_prod unat unat (tile_pair ss ts (target_len div 16) tiles ?n i) = place i"
    and bounds: "place i \<in> {unat ss ..< unat ss + unat source_len} \<times> {unat ts ..< unat ts + unat target_len}"
    if "i < unat pairs" for i
    using tile_pair_cell [OF avail(1) small' start step(3) n i [OF that] room tiles_def] unfolding place_def by blast+
  have inj: "i = j" if "tile_pair ss ts (target_len div 16) tiles ?n i = tile_pair ss ts (target_len div 16) tiles ?n j"
    "i < unat pairs" "j < unat pairs" for i j
    using pair [OF that(2)] pair [OF that(3)] that(1) row_cell_injective [OF _ step(2) n i [OF that(2)] i [OF that(3)]]
    unfolding place_def by metis
  have "distinct rows" unfolding rows using inj by (auto simp: distinct_map inj_on_def)
  moreover have "unat ss \<le> unat (fst p) \<and> unat (fst p) < unat ss + unat source_len
      \<and> unat ts \<le> unat (snd p) \<and> unat (snd p) < unat ts + unat target_len" if member: "p \<in> set rows" for p
  proof -
    obtain i where "i < unat pairs" "p = tile_pair ss ts (target_len div 16) tiles ?n i" using member unfolding rows by auto
    then have "map_prod unat unat p = place i" "place i \<in> {unat ss ..< unat ss + unat source_len} \<times> {unat ts ..< unat ts + unat target_len}"
      using pair bounds by simp_all
    then show ?thesis by (cases p; cases "place i") simp
  qed
  moreover have "length rows = unat pairs" by (simp add: rows)
  ultimately show ?thesis by (simp add: case_prod_beta)
qed

end
