(* ===== verification/Capacity.thy ===== *)
theory Capacity
  imports Digest Plasticity
begin

text \<open>
  \<open>crates/alife_core/src/phenotype/capacity.rs\<close>: the brain capacity classes. A class is an id with an
  execution budget, and only four budgets exist: a class read from a save is admitted only if it is one
  of them. The accessors of the fields have no definition of their own.
\<close>

section \<open>Execution budgets\<close>

definition CAPACITY_SCHEMA_VERSION :: u16 where "CAPACITY_SCHEMA_VERSION = 1"
definition GPU_LAYOUT_VERSION :: u16 where "GPU_LAYOUT_VERSION = 4"
definition REQUIRED_LIMITS_SCHEMA_VERSION :: u16 where "REQUIRED_LIMITS_SCHEMA_VERSION = 1"
definition REQUIRED_GPU_FEATURE_MASK :: u64 where "REQUIRED_GPU_FEATURE_MASK = 1"
definition CANDIDATE_FEATURE_COUNT :: nat where "CANDIDATE_FEATURE_COUNT = 24"

definition CAPACITY_DIGEST_DOMAIN :: bytes where
  "CAPACITY_DIGEST_DOMAIN = map (\<lambda>c. word_of_nat (of_char c)) ''alife.brain.capacity.v1''"

record BrainExecutionBudget =
  xb_schema_version :: u16
  xb_gpu_layout_version :: u16
  xb_max_neurons :: u32
  xb_max_total_synapses :: u32
  xb_max_recurrent_synapses :: u32
  xb_max_action_decoder_synapses :: u32
  xb_max_memory_decoder_synapses :: u32
  xb_max_active_tiles :: u32
  xb_max_candidates :: u16
  xb_max_object_slots :: u16
  xb_max_memory_context_records :: u16
  xb_min_microsteps :: u8
  xb_max_microsteps :: u8
  xb_max_replay_events :: u32
  xb_max_replay_eligibility_samples :: u32
  xb_max_compact_readback_bytes :: u32
  xb_microtile_edge :: u16
  xb_supertile_edge :: u16
  xb_candidate_feature_count :: u16
  xb_max_decoder_input_lanes :: u16
  xb_required_limits_schema_version :: u16
  xb_required_feature_mask_words :: u8
  xb_required_feature_mask :: u64
  xb_required_max_buffer_size :: u64
  xb_required_max_storage_buffer_binding_size :: u64
  xb_required_max_bind_groups :: u32
  xb_required_max_bindings_per_bind_group :: u32
  xb_required_max_storage_buffers_per_shader_stage :: u32
  xb_required_max_uniform_buffers_per_shader_stage :: u32
  xb_required_max_dynamic_storage_buffers_per_pipeline_layout :: u32
  xb_required_max_dynamic_uniform_buffers_per_pipeline_layout :: u32
  xb_required_max_compute_workgroup_storage_size :: u32
  xb_required_max_compute_workgroup_size_x :: u32
  xb_required_max_compute_workgroup_size_y :: u32
  xb_required_max_compute_workgroup_size_z :: u32
  xb_required_max_compute_invocations_per_workgroup :: u32
  xb_required_max_compute_workgroups_per_dimension :: u32
  xb_storage_offset_alignment_bytes :: u32
  xb_uniform_offset_alignment_bytes :: u32
  xb_copy_buffer_alignment_bytes :: u32
  xb_copy_bytes_per_row_alignment :: u32

definition budget_production ::
  "u32 \<Rightarrow> u32 \<Rightarrow> u32 \<Rightarrow> u32 \<Rightarrow> u32 \<Rightarrow> u32 \<Rightarrow> u32 \<Rightarrow> u32 \<Rightarrow> BrainExecutionBudget" where
  "budget_production neurons synapses recurrent action memory tiles events samples = \<lparr>
     xb_schema_version = CAPACITY_SCHEMA_VERSION, xb_gpu_layout_version = GPU_LAYOUT_VERSION,
     xb_max_neurons = neurons, xb_max_total_synapses = synapses, xb_max_recurrent_synapses = recurrent,
     xb_max_action_decoder_synapses = action, xb_max_memory_decoder_synapses = memory,
     xb_max_active_tiles = tiles, xb_max_candidates = 32, xb_max_object_slots = 16,
     xb_max_memory_context_records = 16, xb_min_microsteps = 2, xb_max_microsteps = 4,
     xb_max_replay_events = events, xb_max_replay_eligibility_samples = samples,
     xb_max_compact_readback_bytes = 64, xb_microtile_edge = 16, xb_supertile_edge = 128,
     xb_candidate_feature_count = word_of_nat CANDIDATE_FEATURE_COUNT, xb_max_decoder_input_lanes = 64,
     xb_required_limits_schema_version = REQUIRED_LIMITS_SCHEMA_VERSION, xb_required_feature_mask_words = 1,
     xb_required_feature_mask = REQUIRED_GPU_FEATURE_MASK, xb_required_max_buffer_size = 268435456,
     xb_required_max_storage_buffer_binding_size = 134217728, xb_required_max_bind_groups = 4,
     xb_required_max_bindings_per_bind_group = 1000, xb_required_max_storage_buffers_per_shader_stage = 8,
     xb_required_max_uniform_buffers_per_shader_stage = 12,
     xb_required_max_dynamic_storage_buffers_per_pipeline_layout = 4,
     xb_required_max_dynamic_uniform_buffers_per_pipeline_layout = 8,
     xb_required_max_compute_workgroup_storage_size = 16352, xb_required_max_compute_workgroup_size_x = 256,
     xb_required_max_compute_workgroup_size_y = 256, xb_required_max_compute_workgroup_size_z = 64,
     xb_required_max_compute_invocations_per_workgroup = 256,
     xb_required_max_compute_workgroups_per_dimension = 65535, xb_storage_offset_alignment_bytes = 256,
     xb_uniform_offset_alignment_bytes = 256, xb_copy_buffer_alignment_bytes = 4,
     xb_copy_bytes_per_row_alignment = 256 \<rparr>"

definition budget_write_canonical :: "BrainExecutionBudget \<Rightarrow> bytes \<Rightarrow> bytes" where
  "budget_write_canonical b d =
     fold (\<lambda>write. write)
       [write_u16 (xb_schema_version b),
        write_u16 (xb_gpu_layout_version b),
        write_u32 (xb_max_neurons b),
        write_u32 (xb_max_total_synapses b),
        write_u32 (xb_max_recurrent_synapses b),
        write_u32 (xb_max_action_decoder_synapses b),
        write_u32 (xb_max_memory_decoder_synapses b),
        write_u32 (xb_max_active_tiles b),
        write_u16 (xb_max_candidates b),
        write_u16 (xb_max_object_slots b),
        write_u16 (xb_max_memory_context_records b),
        write_u8 (xb_min_microsteps b),
        write_u8 (xb_max_microsteps b),
        write_u32 (xb_max_replay_events b),
        write_u32 (xb_max_replay_eligibility_samples b),
        write_u32 (xb_max_compact_readback_bytes b),
        write_u16 (xb_microtile_edge b),
        write_u16 (xb_supertile_edge b),
        write_u16 (xb_candidate_feature_count b),
        write_u16 (xb_max_decoder_input_lanes b),
        write_u16 (xb_required_limits_schema_version b),
        write_u8 (xb_required_feature_mask_words b),
        write_u64 (xb_required_feature_mask b),
        write_u64 (xb_required_max_buffer_size b),
        write_u64 (xb_required_max_storage_buffer_binding_size b),
        write_u32 (xb_required_max_bind_groups b),
        write_u32 (xb_required_max_bindings_per_bind_group b),
        write_u32 (xb_required_max_storage_buffers_per_shader_stage b),
        write_u32 (xb_required_max_uniform_buffers_per_shader_stage b),
        write_u32 (xb_required_max_dynamic_storage_buffers_per_pipeline_layout b),
        write_u32 (xb_required_max_dynamic_uniform_buffers_per_pipeline_layout b),
        write_u32 (xb_required_max_compute_workgroup_storage_size b),
        write_u32 (xb_required_max_compute_workgroup_size_x b),
        write_u32 (xb_required_max_compute_workgroup_size_y b),
        write_u32 (xb_required_max_compute_workgroup_size_z b),
        write_u32 (xb_required_max_compute_invocations_per_workgroup b),
        write_u32 (xb_required_max_compute_workgroups_per_dimension b),
        write_u32 (xb_storage_offset_alignment_bytes b),
        write_u32 (xb_uniform_offset_alignment_bytes b),
        write_u32 (xb_copy_buffer_alignment_bytes b),
        write_u32 (xb_copy_bytes_per_row_alignment b)] d"

section \<open>Capacity classes\<close>

record BrainCapacityClass =
  bc_id :: u16
  bc_execution :: BrainExecutionBudget

definition N512_ID :: u16 where "N512_ID = 1"
definition N1024_ID :: u16 where "N1024_ID = 2"
definition N2048_ID :: u16 where "N2048_ID = 3"
definition N4096_RESEARCH_ID :: u16 where "N4096_RESEARCH_ID = 4"

definition capacity_n512 :: BrainCapacityClass where
  "capacity_n512 = \<lparr> bc_id = N512_ID, bc_execution = budget_production 512 8192 6144 1024 1024 64 32 2048 \<rparr>"

definition capacity_n1024 :: BrainCapacityClass where
  "capacity_n1024 = \<lparr> bc_id = N1024_ID, bc_execution = budget_production 1024 16384 12288 2048 2048 128 64 4096 \<rparr>"

definition capacity_n2048 :: BrainCapacityClass where
  "capacity_n2048 = (let reserve = word_of_nat MAX_STRUCTURAL_EDGES in
     \<lparr> bc_id = N2048_ID, bc_execution = budget_production 2048 (32768 + reserve) (24576 + reserve) 4096 4096 192 128 8192 \<rparr>)"

definition capacity_n4096_research :: BrainCapacityClass where
  "capacity_n4096_research =
     \<lparr> bc_id = N4096_RESEARCH_ID, bc_execution = budget_production 4096 65536 49152 8192 8192 384 256 16384 \<rparr>"

definition production_for_id :: "u16 \<Rightarrow> BrainCapacityClass contract" where
  "production_for_id i =
     (if i = N512_ID then Inr capacity_n512
      else if i = N1024_ID then Inr capacity_n1024
      else if i = N2048_ID then Inr capacity_n2048
      else Inl UnsupportedProductionBrainClass)"

definition supported_for_id :: "u16 \<Rightarrow> BrainCapacityClass contract" where
  "supported_for_id i = (if i = N4096_RESEARCH_ID then Inr capacity_n4096_research else production_for_id i)"

definition supported_classes :: "BrainCapacityClass list" where
  "supported_classes = [capacity_n512, capacity_n1024, capacity_n2048, capacity_n4096_research]"

definition production_classes :: "BrainCapacityClass list" where
  "production_classes = [capacity_n512, capacity_n1024, capacity_n2048]"

definition budget_validate :: "BrainExecutionBudget \<Rightarrow> unit contract" where
  "budget_validate b = (if list_ex (\<lambda>c. bc_execution c = b) supported_classes then Inr () else Inl PhenotypeCompile)"

definition capacity_digest :: "BrainCapacityClass \<Rightarrow> digest4" where
  "capacity_digest c = finish256 (budget_write_canonical (bc_execution c) (write_u16 (bc_id c) (digest_new CAPACITY_DIGEST_DOMAIN)))"

definition capacity_validate :: "BrainCapacityClass \<Rightarrow> unit contract" where
  "capacity_validate c =
     and_then (supported_for_id (bc_id c)) (\<lambda>canonical.
       if c \<noteq> canonical then Inl PhenotypeCompile else budget_validate (bc_execution c))"

text \<open>Reading a class: the fields of the wire form are those of the class.\<close>

datatype capacity_wire_fault = UnsupportedWireClass | NoncanonicalWireBudget

definition capacity_deserialize :: "u16 \<Rightarrow> BrainExecutionBudget \<Rightarrow> capacity_wire_fault + BrainCapacityClass" where
  "capacity_deserialize i execution =
     (case supported_for_id i of
        Inl _ \<Rightarrow> Inl UnsupportedWireClass
      | Inr canonical \<Rightarrow> if execution \<noteq> bc_execution canonical then Inl NoncanonicalWireBudget else Inr canonical)"

end
