(* ===== verification/Topology.thy ===== *)
theory Topology
  imports Tile_Pairs Collections Replay Ring_Buffers Capacity
begin

text \<open>
  \<open>crates/alife_core/src/phenotype/topology_compile.rs\<close>: how a genome's masks and density priors become
  the recurrent projections and synapses of a brain, with the frozen routes of the 2048-neuron foundation
  (\<open>foundation.rs\<close>). Of a \<open>BrainGenome\<close> the record keeps what this code
  reads. A panic (the division by zero of an empty region) is \<open>Panics\<close>; sums of \<open>u32\<close> wrap, as in a
  release build.
\<close>

section \<open>Genome\<close>

type_synonym ProjectionKey = "LobeKind \<times> LobeKind"

record MacroConnectomeMask =
  mm_projection :: ProjectionKey
  mm_enabled :: bool
  mm_structural_growth_allowed :: bool

record SparseDensityPrior =
  sd_projection :: ProjectionKey
  sd_density :: f32
  sd_max_active_synapse_share :: f32

record AlphaMask =
  am_default_alpha :: f32
  am_projection_overrides :: "(ProjectionKey \<times> f32) list"
  am_lobe_overrides :: "(LobeKind \<times> f32) list"
  am_tile_overrides :: "((LobeKind \<times> u32) \<times> f32) list"
  am_per_synapse_overrides :: "((u32 \<times> u32) \<times> f32) list"

record ProjectionPlasticityMask =
  pp_projection :: ProjectionKey
  pp_learning_rate_scale :: f32
  pp_plasticity_enabled :: bool

record PlasticityMask =
  pm_oja_enabled :: bool
  pm_hebbian_enabled :: bool
  pm_projection_masks :: "ProjectionPlasticityMask list"

record BrainGenome =
  bg_genetic_prior_seed :: u64
  bg_macro_connectome_masks :: "MacroConnectomeMask list"
  bg_sparse_density_priors :: "SparseDensityPrior list"
  bg_alpha_mask :: AlphaMask
  bg_plasticity_mask :: PlasticityMask

abbreviation bc_max_recurrent_synapses :: "BrainCapacityClass \<Rightarrow> u32" where
  "bc_max_recurrent_synapses c \<equiv> xb_max_recurrent_synapses (bc_execution c)"

abbreviation bc_max_active_tiles :: "BrainCapacityClass \<Rightarrow> u32" where
  "bc_max_active_tiles c \<equiv> xb_max_active_tiles (bc_execution c)"

section \<open>Compiled records\<close>

datatype DecoderHeadKind = ActionCandidate | MemoryContext | SpeechPayload | CognitiveContext

record DecoderSynapseCoordinate =
  dsc_head :: DecoderHeadKind
  dsc_family :: CandidateActionFamily
  dsc_input_lane :: u16
  dsc_motor_index :: u16

datatype CompiledSynapseKind = RecurrentSynapse | DecoderSynapse DecoderSynapseCoordinate

record CompiledSynapse =
  sy_source :: u32
  sy_target :: u32
  sy_genetic_weight :: f32
  sy_alpha :: f32
  sy_route_index :: u16
  sy_receptor_index :: u16
  sy_kind :: CompiledSynapseKind

definition synapse_new :: "u32 \<Rightarrow> u32 \<Rightarrow> f32 \<Rightarrow> f32 \<Rightarrow> u16 \<Rightarrow> CompiledSynapseKind \<Rightarrow> CompiledSynapse" where
  "synapse_new source target weight alpha route_index kind = \<lparr>
     sy_source = source, sy_target = target, sy_genetic_weight = weight, sy_alpha = alpha,
     sy_route_index = route_index, sy_receptor_index = 0, sy_kind = kind \<rparr>"

text \<open>The fields of a compiled projection beyond those the throttle reads.\<close>

record PlacedProjection = CompiledProjection +
  cp_active_tile_policy :: ActiveTilePolicy
  cp_update_cadence :: UpdateCadence
  cp_delay_microsteps :: u8
  cp_synapse_start :: u32
  cp_synapse_len :: u32
  cp_active_tile_count :: u32

definition projection_new :: "u16 \<Rightarrow> RoutingMask \<Rightarrow> u32 \<Rightarrow> u32 \<Rightarrow> u32 \<Rightarrow> PlacedProjection" where
  "projection_new route_index r start len active_tiles = \<lparr>
     cp_route_index = route_index, cp_source_lobe = rm_source_lobe r, cp_target_lobe = rm_target_lobe r,
     cp_projection_type = rm_projection_type r, cp_priority = rm_priority r,
     cp_active_tile_policy = rm_active_tile_policy r, cp_update_cadence = rm_update_cadence r,
     cp_delay_microsteps = 0, cp_synapse_start = start, cp_synapse_len = len,
     cp_active_tile_count = active_tiles \<rparr>"

record RouteBudgetReceipt =
  rbr_route_index :: u16
  rbr_active_tiles :: u32
  rbr_recurrent_synapses :: u32
  rbr_action_decoder_synapses :: u32
  rbr_memory_decoder_synapses :: u32
  rbr_immutable_payload_words :: u32
  rbr_tile_ceiling :: u32
  rbr_synapse_ceiling :: u32
  rbr_payload_word_ceiling :: u32

definition route_receipt :: "u16 \<Rightarrow> u32 \<Rightarrow> u32 \<Rightarrow> RouteBudgetReceipt" where
  "route_receipt route_index active_tiles len = \<lparr>
     rbr_route_index = route_index, rbr_active_tiles = active_tiles, rbr_recurrent_synapses = len,
     rbr_action_decoder_synapses = 0, rbr_memory_decoder_synapses = 0, rbr_immutable_payload_words = len,
     rbr_tile_ceiling = active_tiles, rbr_synapse_ceiling = len, rbr_payload_word_ceiling = len \<rparr>"

definition receipt_total_synapses :: "RouteBudgetReceipt \<Rightarrow> u32 option" where
  "receipt_total_synapses r =
     Option.bind (checked_add (rbr_recurrent_synapses r) (rbr_action_decoder_synapses r))
       (\<lambda>t. checked_add t (rbr_memory_decoder_synapses r))"

definition within_ceiling :: "RouteBudgetReceipt \<Rightarrow> bool" where
  "within_ceiling r \<longleftrightarrow>
     rbr_active_tiles r \<le> rbr_tile_ceiling r
     \<and> (case receipt_total_synapses r of None \<Rightarrow> False | Some t \<Rightarrow> t \<le> rbr_synapse_ceiling r)
     \<and> rbr_immutable_payload_words r \<le> rbr_payload_word_ceiling r
     \<and> receipt_total_synapses r = Some (rbr_immutable_payload_words r)"

section \<open>Foundation routes (foundation.rs)\<close>

datatype LifetimePlasticityBand = FixedBand | SlowBand | FastBand

record FoundationSectionPolicy =
  fs_fixed_synapses :: u32
  fs_slow_synapses :: u32
  fs_fast_synapses :: u32

fun section_count :: "FoundationSectionPolicy \<Rightarrow> LifetimePlasticityBand \<Rightarrow> u32" where
  "section_count p FixedBand = fs_fixed_synapses p"
| "section_count p SlowBand = fs_slow_synapses p"
| "section_count p FastBand = fs_fast_synapses p"

definition slow_section :: "u32 \<Rightarrow> FoundationSectionPolicy" where
  "slow_section n = \<lparr> fs_fixed_synapses = 0, fs_slow_synapses = n, fs_fast_synapses = 0 \<rparr>"

definition fast_section :: "u32 \<Rightarrow> FoundationSectionPolicy" where
  "fast_section n = \<lparr> fs_fixed_synapses = 0, fs_slow_synapses = 0, fs_fast_synapses = n \<rparr>"

record N2048FoundationRouteSpec =
  rs_source_lobe :: LobeKind
  rs_target_lobe :: LobeKind
  rs_synapse_count :: u32
  rs_section_policy :: FoundationSectionPolicy
  rs_projection_type :: ProjectionType
  rs_active_tile_policy :: ActiveTilePolicy
  rs_update_cadence :: UpdateCadence
  rs_priority :: BiologicalPriority

definition route_spec ::
  "LobeKind \<Rightarrow> LobeKind \<Rightarrow> u32 \<Rightarrow> FoundationSectionPolicy \<Rightarrow> ProjectionType \<Rightarrow> UpdateCadence \<Rightarrow> BiologicalPriority \<Rightarrow> N2048FoundationRouteSpec" where
  "route_spec source target n policy projection cadence priority = \<lparr>
     rs_source_lobe = source, rs_target_lobe = target, rs_synapse_count = n, rs_section_policy = policy,
     rs_projection_type = projection,
     rs_active_tile_policy = EssentialReservation, rs_update_cadence = cadence, rs_priority = priority \<rparr>"

definition N2048_ROUTES :: "N2048FoundationRouteSpec list" where
  "N2048_ROUTES = [
     route_spec PerceptualIntegration TemporalPredictive 3584 (slow_section 3584) FeedForward Hot60Hz Essential,
     route_spec SocialCommunication TemporalPredictive 3072 (slow_section 3072) FeedForward Hot15To60Hz High,
     route_spec InteroceptiveMotivational FlexibleReserve 1024 (slow_section 1024) Homeostatic Hot10To30Hz Essential,
     route_spec FlexibleReserve TemporalPredictive 1024 (slow_section 1024) Modulatory Hot10To30Hz Essential,
     route_spec FlexibleReserve ActionPlanning 768 (slow_section 768) Homeostatic Hot10To30Hz Essential,
     route_spec TemporalPredictive ActionPlanning 3072 \<lparr> fs_fixed_synapses = 0, fs_slow_synapses = 2048, fs_fast_synapses = 1024 \<rparr> MotorProposal Hot60Hz Essential,
     route_spec ActionPlanning ActionPlanning 1536 (slow_section 1536) LateralInhibition Hot60Hz Essential,
     route_spec TemporalPredictive WorkingContextExecutive 1536 (fast_section 1536) FeedForward Hot15To60Hz High,
     route_spec WorkingContextExecutive TemporalPredictive 1536 (fast_section 1536) Feedback Hot15To60Hz High,
     route_spec TemporalPredictive MemoryInterface 1536 (fast_section 1536) FeedForward Hot5To15Hz Normal,
     route_spec MemoryInterface TemporalPredictive 1536 (fast_section 1536) Feedback Hot5To15Hz Normal,
     route_spec TemporalPredictive MultimodalAssociation 1536 (fast_section 1536) FeedForward Hot5To15Hz Normal,
     route_spec MultimodalAssociation TemporalPredictive 1536 (fast_section 1536) Feedback Hot5To15Hz Normal,
     route_spec MultimodalAssociation WorkingContextExecutive 768 (fast_section 768) FeedForward Hot15To60Hz High,
     route_spec WorkingContextExecutive MultimodalAssociation 512 (fast_section 512) Feedback Hot15To60Hz High]"

record N2048CoordinateSegmentV1 =
  sg_source_offset :: u32
  sg_source_len :: u32
  sg_target_offset :: u32
  sg_target_len :: u32
  sg_synapse_count :: u32
  sg_legacy_route_ordinal :: u16

definition segment :: "u32 \<Rightarrow> u32 \<Rightarrow> u32 \<Rightarrow> u32 \<Rightarrow> u32 \<Rightarrow> u16 \<Rightarrow> N2048CoordinateSegmentV1" where
  "segment so sw to tw n ordinal = \<lparr>
     sg_source_offset = so, sg_source_len = sw, sg_target_offset = to, sg_target_len = tw,
     sg_synapse_count = n, sg_legacy_route_ordinal = ordinal \<rparr>"

definition N2048_COORDINATE_SEGMENTS :: "N2048CoordinateSegmentV1 list list" where
  "N2048_COORDINATE_SEGMENTS = [
     [segment 0 256 0 448 3584 0],
     [segment 0 128 0 448 1536 1, segment 128 128 0 448 1536 2],
     [segment 0 128 0 96 1024 3],
     [segment 0 96 0 448 1024 4],
     [segment 0 96 0 224 768 5],
     [segment 0 448 0 224 3072 6],
     [segment 0 224 0 224 1536 7],
     [segment 0 448 0 128 1536 8],
     [segment 0 128 0 448 1536 9],
     [segment 0 448 0 256 1536 10],
     [segment 0 256 0 448 1536 11],
     [segment 0 448 0 256 1536 12],
     [segment 0 256 0 448 1536 13],
     [segment 0 256 0 128 768 14],
     [segment 0 128 0 256 512 15]]"

definition n2048_coordinate_segments :: "nat \<Rightarrow> (N2048CoordinateSegmentV1 list) contract" where
  "n2048_coordinate_segments route_index =
     (if route_index < length N2048_COORDINATE_SEGMENTS then Inr (N2048_COORDINATE_SEGMENTS ! route_index)
      else Inl PhenotypeCompile)"

definition RECURRENT_SYNAPSE_COUNT :: u32 where "RECURRENT_SYNAPSE_COUNT = 24576"

definition foundation_lengths :: "(LobeKind \<times> u32) list" where
  "foundation_lengths = [
     (PerceptualIntegration, 256), (InteroceptiveMotivational, 128), (SocialCommunication, 256),
     (MultimodalAssociation, 256), (TemporalPredictive, 448), (MemoryInterface, 256),
     (WorkingContextExecutive, 128), (ActionPlanning, 224), (FlexibleReserve, 96)]"

fun place_regions :: "u32 \<Rightarrow> (LobeKind \<times> u32) list \<Rightarrow> LobeLayout" where
  "place_regions cursor [] = []"
| "place_regions cursor ((kind, len) # rest) = region_enabled kind cursor len # place_regions (cursor + len) rest"

definition n2048_lobe_layout :: LobeLayout where
  "n2048_lobe_layout = place_regions 0 foundation_lengths"

section \<open>Routes, weights and alpha\<close>

definition route_mask_of :: "N2048FoundationRouteSpec \<Rightarrow> RoutingMask" where
  "route_mask_of spec = routing_mask (rs_source_lobe spec) (rs_target_lobe spec) (rs_projection_type spec)
     (rs_active_tile_policy spec) (rs_update_cadence spec) (rs_priority spec)"

definition canonical_route :: "ProjectionKey \<Rightarrow> RoutingMask option" where
  "canonical_route key =
     (case find (\<lambda>spec. (rs_source_lobe spec, rs_target_lobe spec) = key) N2048_ROUTES of
        Some spec \<Rightarrow> Some (route_mask_of spec)
      | None \<Rightarrow>
          let essential = (\<lambda>projection cadence. Some (routing_mask (fst key) (snd key) projection
                EssentialReservation cadence Essential))
          in if key = (PerceptualIntegration, TemporalPredictive) then essential FeedForward Hot60Hz
             else if key = (TemporalPredictive, ActionPlanning) then essential MotorProposal Hot60Hz
             else if key = (InteroceptiveMotivational, FlexibleReserve) then essential Homeostatic Hot10To30Hz
             else if key = (ActionPlanning, ActionPlanning) then essential LateralInhibition Hot60Hz
             else None)"

definition genetic_weight :: "u64 \<Rightarrow> u16 \<Rightarrow> u32 \<Rightarrow> u32 \<Rightarrow> ProjectionType \<Rightarrow> f32" where
  "genetic_weight seed route source target projection =
     (let bits = splitmix64 (seed XOR push_bit 48 (ucast route) XOR push_bit 16 (ucast source) XOR ucast target);
          magnitude = f32_add (f32_lit 2 100)
            (f32_mul (f32_div (f32_of_nat (unat (drop_bit 40 bits))) (f32_of_nat (2 ^ 24 - 1))) (f32_lit 23 100))
      in if projection = LateralInhibition then f32_neg magnitude
         else if projection = Homeostatic \<or> projection = MotorProposal then magnitude
         else if bits AND 1 = 0 then magnitude else f32_neg magnitude)"

text \<open>The first override that applies: synapse, tile, projection, target lobe, source lobe.\<close>

definition base_alpha :: "AlphaMask \<Rightarrow> RoutingMask \<Rightarrow> u32 \<Rightarrow> u32 \<Rightarrow> u32 \<Rightarrow> f32" where
  "base_alpha m route source target target_start =
     (case map_of (am_per_synapse_overrides m) (source, target) of Some a \<Rightarrow> a | None \<Rightarrow>
      case map_of (am_tile_overrides m) (rm_target_lobe route, (target - target_start) div 16) of Some a \<Rightarrow> a | None \<Rightarrow>
      case map_of (am_projection_overrides m) (rm_source_lobe route, rm_target_lobe route) of Some a \<Rightarrow> a | None \<Rightarrow>
      case map_of (am_lobe_overrides m) (rm_target_lobe route) of Some a \<Rightarrow> a | None \<Rightarrow>
      case map_of (am_lobe_overrides m) (rm_source_lobe route) of Some a \<Rightarrow> a | None \<Rightarrow> am_default_alpha m)"

definition alpha_for :: "BrainGenome \<Rightarrow> RoutingMask \<Rightarrow> u32 \<Rightarrow> u32 \<Rightarrow> u32 \<Rightarrow> f32" where
  "alpha_for g route source target target_start =
     (let base = base_alpha (bg_alpha_mask g) route source target target_start; pm = bg_plasticity_mask g
      in if \<not> pm_oja_enabled pm \<and> \<not> pm_hebbian_enabled pm then f32_zero
         else case find (\<lambda>r. pp_projection r = (rm_source_lobe route, rm_target_lobe route)) (pm_projection_masks pm) of
           None \<Rightarrow> base
         | Some r \<Rightarrow> if pp_plasticity_enabled r then f32_mul base (pp_learning_rate_scale r) else f32_zero)"

definition decoder_alpha :: "BrainGenome \<Rightarrow> u32 \<Rightarrow> u32 \<Rightarrow> f32" where
  "decoder_alpha g motor_start neuron =
     alpha_for g (routing_mask ActionPlanning ActionPlanning MotorProposal EssentialReservation Hot60Hz Essential)
       neuron neuron motor_start"

definition inherited_memory_decoder_alpha :: "BrainGenome \<Rightarrow> f32" where
  "inherited_memory_decoder_alpha g =
     (if pm_oja_enabled (bg_plasticity_mask g) \<or> pm_hebbian_enabled (bg_plasticity_mask g) then f32_one else f32_zero)"

section \<open>Admission of a genome\<close>

type_synonym route_key = "u16 \<times> u16"

definition key_raw :: "ProjectionKey \<Rightarrow> route_key" where
  "key_raw k = (lobe_raw (fst k), lobe_raw (snd k))"

fun collect_masks ::
  "MacroConnectomeMask list \<Rightarrow> (route_key, MacroConnectomeMask) btree_map
   \<Rightarrow> ((route_key, MacroConnectomeMask) btree_map) contract" where
  "collect_masks [] m = Inr m"
| "collect_masks (x # xs) m =
     (if bt_get m (key_raw (mm_projection x)) \<noteq> None \<or> canonical_route (mm_projection x) = None
         \<or> mm_structural_growth_allowed x
      then Inl PhenotypeCompile else collect_masks xs (bt_insert (key_raw (mm_projection x)) x m))"

fun collect_densities ::
  "(route_key, MacroConnectomeMask) btree_map \<Rightarrow> SparseDensityPrior list
   \<Rightarrow> (route_key, SparseDensityPrior) btree_map \<Rightarrow> ((route_key, SparseDensityPrior) btree_map) contract" where
  "collect_densities masks [] m = Inr m"
| "collect_densities masks (x # xs) m =
     (let key = key_raw (sd_projection x)
      in if f32_le (sd_density x) f32_zero \<or> f32_le (sd_max_active_synapse_share x) f32_zero
            \<or> bt_get m key \<noteq> None
            \<or> (case bt_get masks key of None \<Rightarrow> True | Some x' \<Rightarrow> \<not> mm_enabled x')
         then Inl PhenotypeCompile else collect_densities masks xs (bt_insert key x m))"

definition masks_match :: "(route_key, MacroConnectomeMask) btree_map \<Rightarrow> (route_key, SparseDensityPrior) btree_map \<Rightarrow> unit contract" where
  "masks_match masks densities =
     check_all (\<lambda>(key, x). if mm_enabled x \<noteq> (bt_get densities key \<noteq> None) then Inl PhenotypeCompile else Inr ()) masks"

text \<open>A set filled row by row: a repeated key is an error.\<close>

definition no_repeats :: "'k list \<Rightarrow> unit contract" where
  "no_repeats ks = (if distinct ks then Inr () else Inl PhenotypeCompile)"

definition validate_alpha_keys :: "BrainGenome \<Rightarrow> unit contract" where
  "validate_alpha_keys g =
     (let m = bg_alpha_mask g; rows = pm_projection_masks (bg_plasticity_mask g)
      in and_then (no_repeats (map (key_raw \<circ> fst) (am_projection_overrides m))) (\<lambda>_.
         and_then (no_repeats (map (lobe_raw \<circ> fst) (am_lobe_overrides m))) (\<lambda>_.
         and_then (no_repeats (map (\<lambda>((lobe, tile), _). (lobe_raw lobe, tile)) (am_tile_overrides m))) (\<lambda>_.
         and_then (no_repeats (map fst (am_per_synapse_overrides m))) (\<lambda>_.
         and_then (no_repeats (map (key_raw \<circ> pp_projection) rows)) (\<lambda>_.
           if list_all (\<lambda>r. list_ex (\<lambda>x. mm_enabled x \<and> mm_projection x = pp_projection r) (bg_macro_connectome_masks g)) rows
           then Inr () else Inl PhenotypeCompile))))))"

definition validate_alpha_matches ::
  "BrainGenome \<Rightarrow> CompiledProjection list \<Rightarrow> CompiledSynapse list \<Rightarrow> LobeLayout \<Rightarrow> unit contract" where
  "validate_alpha_matches g projections synapses layout =
     (let m = bg_alpha_mask g; ensure = (\<lambda>b. if b then Inr () else Inl PhenotypeCompile);
          in_lobe = (\<lambda>neuron lobe. case lobe_by_neuron_index neuron layout of None \<Rightarrow> False | Some r \<Rightarrow> lr_kind r = lobe)
      in and_then (check_all (\<lambda>(key, _). ensure (list_ex (\<lambda>p. (cp_source_lobe p, cp_target_lobe p) = key) projections))
           (am_projection_overrides m)) (\<lambda>_.
         and_then (check_all (\<lambda>(lobe, _). ensure (list_ex (\<lambda>s. in_lobe (sy_source s) lobe \<or> in_lobe (sy_target s) lobe) synapses))
           (am_lobe_overrides m)) (\<lambda>_.
         and_then (check_all (\<lambda>((lobe, tile), _).
             case layout_region lobe layout of None \<Rightarrow> Inl PhenotypeCompile | Some r \<Rightarrow>
               ensure (lr_enabled r \<and> tile < lr_len r div 16
                 \<and> list_ex (\<lambda>s. contains_neuron r (sy_target s) \<and> (sy_target s - lr_start r) div 16 = tile) synapses))
           (am_tile_overrides m)) (\<lambda>_.
         check_all (\<lambda>(key, _). ensure (list_ex (\<lambda>s. (sy_source s, sy_target s) = key) synapses))
           (am_per_synapse_overrides m)))))"

section \<open>Counts in f64\<close>

text \<open>
  A finite \<open>f64\<close> that is not negative as a natural number of units of \<open>2 ^ -149\<close>: here every such value is
  the product of an integer and an \<open>f32\<close>, so rounding to 53 bits is all that \<open>f64\<close> does to it.
\<close>

definition f64_round :: "nat \<Rightarrow> nat" where
  "f64_round n = (let e = bit_length n - 53 in round_even n (2 ^ e) * 2 ^ e)"

definition f64_product :: "nat \<Rightarrow> f32 \<Rightarrow> nat" where
  "f64_product n x = f64_round (f64_round n * f32_magnitude x)"

text \<open>\<open>as u32\<close>: NaN is 0, everything else saturates.\<close>

definition f64_as_u32 :: "(nat \<Rightarrow> nat) \<Rightarrow> nat \<Rightarrow> f32 \<Rightarrow> u32" where
  "f64_as_u32 rounding n x =
     (if f32_is_nan x \<or> (f32_is_infinite x \<and> n = 0) \<or> f32_is_sign_negative x then 0
      else if f32_is_infinite x then - 1
      else word_of_nat (min (2 ^ 32 - 1) (rounding (f64_product n x))))"

definition density_count_of :: "u32 \<Rightarrow> u32 \<Rightarrow> f32 \<Rightarrow> u32" where
  "density_count_of source_len target_len density =
     f64_as_u32 (\<lambda>v. (v + 2 ^ 149 - 1) div 2 ^ 149) (unat source_len * unat target_len) density"

definition share_count_of :: "u32 \<Rightarrow> f32 \<Rightarrow> u32" where
  "share_count_of max_synapses share = f64_as_u32 (\<lambda>v. v div 2 ^ 149) (unat max_synapses) share"

section \<open>Compilation\<close>

type_synonym compile_fault = "ScaffoldContractError fault"

abbreviation compile_error :: compile_fault where "compile_error \<equiv> Fails PhenotypeCompile"

record Compilation =
  co_projections :: "PlacedProjection list"
  co_synapses :: "CompiledSynapse list"
  co_receipts :: "RouteBudgetReceipt list"
  co_tile_total :: u32

definition empty_compilation :: Compilation where
  "empty_compilation = \<lparr> co_projections = [], co_synapses = [], co_receipts = [], co_tile_total = 0 \<rparr>"

definition enabled_region :: "LobeKind \<Rightarrow> LobeLayout \<Rightarrow> compile_fault + LobeRegion" where
  "enabled_region kind layout =
     (case layout_region kind layout of
        None \<Rightarrow> Inl compile_error
      | Some r \<Rightarrow> if lr_enabled r then Inr r else Inl compile_error)"

definition active_tiles_for :: "u32 \<Rightarrow> u32" where
  "active_tiles_for n = max (div_ceil n 256) 1"

text \<open>The rows of one placement, in order, as synapses.\<close>

definition place_synapses ::
  "BrainGenome \<Rightarrow> RoutingMask \<Rightarrow> u16 \<Rightarrow> u16 \<Rightarrow> u32 \<Rightarrow> (u32 \<times> u32) list \<Rightarrow> CompiledSynapse list" where
  "place_synapses g route weight_ordinal route_index target_start rows =
     map (\<lambda>(source, target). synapse_new source target
         (genetic_weight (bg_genetic_prior_seed g) weight_ordinal source target (rm_projection_type route))
         (alpha_for g route source target target_start) route_index RecurrentSynapse) (sort rows)"

definition close_route ::
  "u16 \<Rightarrow> RoutingMask \<Rightarrow> u32 \<Rightarrow> u32 \<Rightarrow> CompiledSynapse list \<Rightarrow> u32 \<Rightarrow> Compilation \<Rightarrow> Compilation" where
  "close_route route_index route start active_tiles synapses len c = c\<lparr>
     co_projections := co_projections c @ [projection_new route_index route start len active_tiles],
     co_synapses := synapses,
     co_receipts := co_receipts c @ [route_receipt route_index active_tiles len] \<rparr>"

definition compile_route ::
  "BrainGenome \<Rightarrow> LobeLayout \<Rightarrow> BrainCapacityClass \<Rightarrow> nat \<times> RoutingMask \<times> SparseDensityPrior \<Rightarrow> Compilation
   \<Rightarrow> compile_fault + Compilation" where
  "compile_route g layout capacity item c = (case item of (index, route, density) \<Rightarrow>
     and_then (enabled_region (rm_source_lobe route) layout) (\<lambda>source.
     and_then (enabled_region (rm_target_lobe route) layout) (\<lambda>target.
       let max_synapses = bc_max_recurrent_synapses capacity;
           density_count = density_count_of (lr_len source) (lr_len target) (sd_density density);
           share_count = share_count_of max_synapses (sd_max_active_synapse_share density);
           remaining = saturating_sub max_synapses (word_of_nat (length (co_synapses c)));
           n = min (min (max density_count 1) (max share_count 1)) remaining;
           active_tiles = active_tiles_for n
       in if n = 0 \<or> bc_max_active_tiles capacity < co_tile_total c + active_tiles then Inl compile_error
          else
            and_then (ok_or compile_error (try_of_len index)) (\<lambda>route_index.
            and_then (ok_or compile_error (try_of_len (length (co_synapses c)))) (\<lambda>start.
            and_then (ok_or Panics (deterministic_tile_pairs (lr_start source) (lr_len source) (lr_start target)
                (lr_len target) n (bg_genetic_prior_seed g XOR ucast route_index) (rm_active_tile_policy route))) (\<lambda>rows.
              let synapses = co_synapses c @ place_synapses g route route_index route_index (lr_start target) rows
              in and_then (ok_or compile_error (try_of_len (length synapses))) (\<lambda>end'.
                   Inr (close_route route_index route start active_tiles synapses (end' - start)
                     (c\<lparr>co_tile_total := co_tile_total c + active_tiles\<rparr>)))))))))"

definition compile_segment ::
  "BrainGenome \<Rightarrow> N2048FoundationRouteSpec \<Rightarrow> SparseDensityPrior \<Rightarrow> u16 \<Rightarrow> LobeRegion \<Rightarrow> LobeRegion
   \<Rightarrow> N2048CoordinateSegmentV1 \<Rightarrow> CompiledSynapse list \<Rightarrow> compile_fault + CompiledSynapse list" where
  "compile_segment g spec density route_index source target sg synapses =
     and_then (ok_or compile_error (checked_add (lr_start source) (sg_source_offset sg))) (\<lambda>segment_source.
     and_then (ok_or compile_error (checked_add (lr_start target) (sg_target_offset sg))) (\<lambda>segment_target.
       if lr_len source < sg_source_offset sg + sg_source_len sg \<or> lr_len target < sg_target_offset sg + sg_target_len sg
       then Inl compile_error
       else
         and_then (ok_or Panics (deterministic_tile_pairs segment_source (sg_source_len sg) segment_target (sg_target_len sg)
             (sg_synapse_count sg)
             (0xf0a0da7120480001 XOR ucast (sg_legacy_route_ordinal sg) XOR word_rotl 19 (ucast (sd_density density)))
             (rs_active_tile_policy spec))) (\<lambda>rows.
           Inr (synapses @ place_synapses g (route_mask_of spec) (sg_legacy_route_ordinal sg) route_index (lr_start target) rows))))"

definition compile_foundation_route ::
  "BrainGenome \<Rightarrow> LobeLayout \<Rightarrow> BrainCapacityClass \<Rightarrow> (route_key, MacroConnectomeMask) btree_map
   \<Rightarrow> (route_key, SparseDensityPrior) btree_map \<Rightarrow> nat \<times> N2048FoundationRouteSpec \<Rightarrow> Compilation
   \<Rightarrow> compile_fault + Compilation" where
  "compile_foundation_route g layout capacity masks densities item c = (case item of (index, spec) \<Rightarrow>
     let key = key_raw (rs_source_lobe spec, rs_target_lobe spec)
     in and_then (ok_or compile_error (bt_get masks key)) (\<lambda>mk.
        and_then (ok_or compile_error (bt_get densities key)) (\<lambda>density.
          if \<not> mm_enabled mk \<or> mm_structural_growth_allowed mk then Inl compile_error
          else
            and_then (enabled_region (rs_source_lobe spec) layout) (\<lambda>source.
            and_then (enabled_region (rs_target_lobe spec) layout) (\<lambda>target.
              let possible = f32_of_nat (unat (lr_len source) * unat (lr_len target));
                  expected_density = f32_div (f32_of_nat (unat (rs_synapse_count spec))) possible;
                  expected_share = f32_div (f32_of_nat (unat (rs_synapse_count spec))) (f32_of_nat (unat RECURRENT_SYNAPSE_COUNT))
              in if sd_density density \<noteq> expected_density \<or> sd_max_active_synapse_share density \<noteq> expected_share
                 then Inl compile_error
                 else
                   and_then (ok_or compile_error (try_of_len index)) (\<lambda>route_index.
                   and_then (ok_or compile_error (try_of_len (length (co_synapses c)))) (\<lambda>start.
                     let active_tiles = active_tiles_for (rs_synapse_count spec)
                     in and_then (ok_or compile_error (checked_add (co_tile_total c) active_tiles)) (\<lambda>tile_total.
                          if bc_max_active_tiles capacity < tile_total then Inl compile_error
                          else
                            and_then (may_fail (n2048_coordinate_segments index)) (\<lambda>segments.
                              if sum_list (map sg_synapse_count segments) \<noteq> rs_synapse_count spec then Inl compile_error
                              else
                                and_then (try_fold (compile_segment g spec density route_index source target) segments
                                    (co_synapses c)) (\<lambda>synapses.
                                and_then (ok_or compile_error (try_of_len (length synapses))) (\<lambda>end'.
                                  if end' - start \<noteq> rs_synapse_count spec then Inl compile_error
                                  else Inr (close_route route_index (route_mask_of spec) start active_tiles synapses
                                    (end' - start) (c\<lparr>co_tile_total := tile_total\<rparr>)))))))))))))"

definition compile_n2048_foundation ::
  "BrainGenome \<Rightarrow> LobeLayout \<Rightarrow> BrainCapacityClass \<Rightarrow> (route_key, MacroConnectomeMask) btree_map
   \<Rightarrow> (route_key, SparseDensityPrior) btree_map \<Rightarrow> compile_fault + Compilation" where
  "compile_n2048_foundation g layout capacity masks densities =
     (if layout \<noteq> n2048_lobe_layout \<or> length masks \<noteq> length N2048_ROUTES \<or> length densities \<noteq> length N2048_ROUTES
         \<or> bc_max_recurrent_synapses capacity < RECURRENT_SYNAPSE_COUNT
      then Inl compile_error
      else
        and_then (try_fold (compile_foundation_route g layout capacity masks densities) (enumerate 0 N2048_ROUTES)
            empty_compilation) (\<lambda>c.
          if length (co_synapses c) \<noteq> unat RECURRENT_SYNAPSE_COUNT then Inl compile_error else Inr c))"

definition enabled_routes ::
  "(route_key, MacroConnectomeMask) btree_map \<Rightarrow> (route_key, SparseDensityPrior) btree_map
   \<Rightarrow> (RoutingMask \<times> SparseDensityPrior) list" where
  "enabled_routes masks densities =
     sort_key (\<lambda>(route, _). (priority_raw (rm_priority route), key_raw (rm_source_lobe route, rm_target_lobe route)))
       (map (\<lambda>(key, mk). (the (canonical_route (mm_projection mk)), the (bt_get densities key)))
         (filter (\<lambda>(_, mk). mm_enabled mk) masks))"

definition compile_recurrent :: "BrainGenome \<Rightarrow> LobeLayout \<Rightarrow> BrainCapacityClass \<Rightarrow> compile_fault + Compilation" where
  "compile_recurrent g layout capacity =
     and_then (may_fail (collect_masks (bg_macro_connectome_masks g) [])) (\<lambda>masks.
     and_then (may_fail (collect_densities masks (bg_sparse_density_priors g) [])) (\<lambda>densities.
     and_then (may_fail (masks_match masks densities)) (\<lambda>_.
     and_then (may_fail (validate_alpha_keys g)) (\<lambda>_.
       if bc_id capacity = N2048_ID then compile_n2048_foundation g layout capacity masks densities
       else try_fold (compile_route g layout capacity)
              (enumerate 0 (enabled_routes masks densities)) empty_compilation))))"

end
