(* ===== verification/Topology_Proofs.thy ===== *)
theory Topology_Proofs
  imports Topology Lobe_Proofs
begin

text \<open>
  The recurrent topology a genome compiles to: every synapse lies in the two lobes of its projection, no
  two synapses have the same endpoints, the projections cut the synapses into consecutive ranges, the
  budgets of the brain class hold, and compiling neither panics nor runs forever.
\<close>

section \<open>Neurons and their lobes\<close>

definition lobe_at :: "LobeLayout \<Rightarrow> u32 \<Rightarrow> LobeKind option" where
  "lobe_at layout i = map_option lr_kind (lobe_by_neuron_index i layout)"

definition ends :: "CompiledSynapse \<Rightarrow> u32 \<times> u32" where
  "ends s = (sy_source s, sy_target s)"

definition joins :: "LobeLayout \<Rightarrow> ProjectionKey \<Rightarrow> CompiledSynapse \<Rightarrow> bool" where
  "joins layout key s \<longleftrightarrow> lobe_at layout (sy_source s) = Some (fst key) \<and> lobe_at layout (sy_target s) = Some (snd key)"

definition lobe_pair :: "PlacedProjection \<Rightarrow> ProjectionKey" where
  "lobe_pair p = (cp_source_lobe p, cp_target_lobe p)"

lemma region_placed:
  assumes "check_coverage n c rs = Inr e" and "r \<in> set rs"
  shows "unat (lr_start r) + unat (lr_len r) \<le> unat n \<and> lr_len r \<noteq> 0"
  using assms
proof (induction rs arbitrary: c)
  case (Cons r' rs)
  then obtain e' where e': "checked_add (lr_start r') (lr_len r') = Some e'" "lr_len r' \<noteq> 0" "\<not> n < e'"
    "check_coverage n e' rs = Inr e" by (auto split: if_splits)
  then show ?case using Cons checked_add_Some [OF e'(1)] by (auto simp: word_less_nat_alt)
qed simp

lemma enabled_region_facts:
  assumes valid: "layout_validate n layout = Inr ()" and r: "enabled_region kind layout = Inr r"
  shows "r \<in> set layout" "lr_kind r = kind" "lr_enabled r" "unat (lr_start r) + unat (lr_len r) \<le> unat n"
    "16 dvd unat (lr_len r)" "0 < unat (lr_len r)"
    and "unat (lr_start r) \<le> unat i \<Longrightarrow> unat i < unat (lr_start r) + unat (lr_len r) \<Longrightarrow> lobe_at layout i = Some kind"
proof -
  have "find (\<lambda>r. lr_kind r = kind) layout = Some r" and en: "lr_enabled r"
    using r by (auto simp: enabled_region_def layout_region_def split: option.splits if_splits)
  then show m: "r \<in> set layout" "lr_kind r = kind" by (auto simp: find_Some_iff)
  show "lr_enabled r" by (rule en)
  have cov: "check_coverage n 0 (enabled_regions layout) = Inr n" "regions_are_aligned 16 layout"
    using valid by (auto simp: layout_validate_def and_then_def split: if_splits sum.splits)
  have place: "unat (lr_start r) + unat (lr_len r) \<le> unat n \<and> lr_len r \<noteq> 0"
    using region_placed [OF cov(1), of r] m(1) en by (simp add: enabled_regions_def)
  then show room: "unat (lr_start r) + unat (lr_len r) \<le> unat n" "0 < unat (lr_len r)" by (simp_all add: unat_gt_0)
  have "lr_len r mod 16 = 0" using cov(2) m(1) by (simp add: regions_are_aligned_def list_all_iff)
  then have "unat (lr_len r) mod unat (16 :: u32) = unat (0 :: u32)" by (metis unat_mod_distrib)
  then show "16 dvd unat (lr_len r)" by (simp add: mod_eq_0_iff_dvd)
  assume i: "unat (lr_start r) \<le> unat i" "unat i < unat (lr_start r) + unat (lr_len r)"
  have "unat (lr_start r) + unat (lr_len r) < 2 ^ LENGTH(32)"
    using room(1) unsigned_less [where 'a = nat, of n] by simp
  then have "contains_neuron r i"
    using i en unat_plus_no_overflow [of "lr_start r" "lr_len r"]
    by (simp add: contains_neuron_def region_end_def word_le_nat_alt word_less_nat_alt)
  moreover have "i < n" using i room(1) by (simp add: word_less_nat_alt)
  ultimately have "lobe_by_neuron_index i layout = Some r" using valid_layout_partition [OF valid, of i] m(1) by auto
  then show "lobe_at layout i = Some kind" by (simp add: lobe_at_def m(2))
qed

section \<open>The invariant of the compiler\<close>

fun range_end :: "nat \<Rightarrow> PlacedProjection list \<Rightarrow> nat option" where
  "range_end o' [] = Some o'"
| "range_end o' (p # ps) = (if unat (cp_synapse_start p) = o' then range_end (o' + unat (cp_synapse_len p)) ps else None)"

lemma range_end_append: "range_end o' (ps @ qs) = Option.bind (range_end o' ps) (\<lambda>m. range_end m qs)"
  by (induction ps arbitrary: o') simp_all

text \<open>The synapses a projection owns carry its index and join its lobes.\<close>

definition owns_range :: "LobeLayout \<Rightarrow> CompiledSynapse list \<Rightarrow> PlacedProjection \<Rightarrow> bool" where
  "owns_range layout ss p \<longleftrightarrow>
     unat (cp_synapse_start p) + unat (cp_synapse_len p) \<le> length ss
     \<and> (\<forall>i. unat (cp_synapse_start p) \<le> i \<and> i < unat (cp_synapse_start p) + unat (cp_synapse_len p) \<longrightarrow>
          sy_route_index (ss ! i) = cp_route_index p \<and> sy_kind (ss ! i) = RecurrentSynapse \<and> joins layout (lobe_pair p) (ss ! i))"

definition topology_inv :: "LobeLayout \<Rightarrow> BrainCapacityClass \<Rightarrow> Compilation \<Rightarrow> bool" where
  "topology_inv layout capacity c \<longleftrightarrow>
     range_end 0 (co_projections c) = Some (length (co_synapses c))
     \<and> list_all (owns_range layout (co_synapses c)) (co_projections c)
     \<and> distinct (map ends (co_synapses c))
     \<and> (\<forall>s \<in> set (co_synapses c). \<exists>p \<in> set (co_projections c). joins layout (lobe_pair p) s)
     \<and> distinct (map lobe_pair (co_projections c))
     \<and> map cp_route_index (co_projections c) = map word_of_nat [0..<length (co_projections c)]
     \<and> length (co_synapses c) \<le> unat (bc_max_recurrent_synapses capacity)
     \<and> sum_list (map (unat \<circ> cp_active_tile_count) (co_projections c)) = unat (co_tile_total c)
     \<and> co_tile_total c \<le> bc_max_active_tiles capacity
     \<and> list_all within_ceiling (co_receipts c)
     \<and> map rbr_active_tiles (co_receipts c) = map cp_active_tile_count (co_projections c)"

lemma empty_inv: "topology_inv layout capacity empty_compilation"
  by (simp add: topology_inv_def empty_compilation_def)

lemma owns_range_append: "owns_range layout ss p \<Longrightarrow> owns_range layout (ss @ zs) p"
  by (auto simp: owns_range_def nth_append)

lemma route_receipt_within: "within_ceiling (route_receipt i t n)"
proof -
  have "unat n < 2 ^ LENGTH(32)" by (rule unsigned_less [where 'a = nat, THEN order_less_le_trans]) simp
  then show ?thesis by (simp add: within_ceiling_def receipt_total_synapses_def route_receipt_def checked_add_def)
qed

lemma projection_new_simps [simp]:
  "cp_route_index (projection_new i r s n t) = i" "cp_synapse_start (projection_new i r s n t) = s"
  "cp_synapse_len (projection_new i r s n t) = n" "cp_active_tile_count (projection_new i r s n t) = t"
  "lobe_pair (projection_new i r s n t) = (rm_source_lobe r, rm_target_lobe r)"
  "rbr_active_tiles (route_receipt i t n) = t"
  by (simp_all add: projection_new_def lobe_pair_def route_receipt_def)

text \<open>Closing a route keeps the invariant.\<close>

lemma close_route_inv:
  assumes inv: "topology_inv layout capacity c"
    and start: "try_of_len (length (co_synapses c)) = Some start"
    and end': "try_of_len (length (co_synapses c @ zs)) = Some end'"
    and zs: "distinct (map ends zs)"
      "\<forall>s \<in> set zs. sy_route_index s = route_index \<and> sy_kind s = RecurrentSynapse \<and> joins layout (rm_source_lobe route, rm_target_lobe route) s"
    and fresh: "(rm_source_lobe route, rm_target_lobe route) \<notin> set (map lobe_pair (co_projections c))"
    and index: "route_index = word_of_nat (length (co_projections c))"
    and budget: "length (co_synapses c @ zs) \<le> unat (bc_max_recurrent_synapses capacity)"
      "unat used = unat (co_tile_total c) + unat tiles" "used \<le> bc_max_active_tiles capacity"
  shows "topology_inv layout capacity
    (close_route route_index route start tiles (co_synapses c @ zs) (end' - start) (c\<lparr>co_tile_total := used\<rparr>))"
proof -
  let ?p = "projection_new route_index route start (end' - start) tiles"
  have s: "unat start = length (co_synapses c)" "unat end' = length (co_synapses c) + length zs"
    using try_of_len_Some [OF start] try_of_len_Some [OF end'] by simp_all
  then have len: "unat (end' - start) = length zs" by (simp add: unat_sub word_le_nat_alt)
  have old: "\<forall>s \<in> set (co_synapses c). ends s \<notin> ends ` set zs"
  proof (rule ballI, rule notI)
    fix s assume "s \<in> set (co_synapses c)" "ends s \<in> ends ` set zs"
    then obtain p z where "p \<in> set (co_projections c)" "joins layout (lobe_pair p) s" "z \<in> set zs" "ends s = ends z"
      using inv unfolding topology_inv_def by blast
    then have "lobe_pair p = (rm_source_lobe route, rm_target_lobe route)"
      using zs(2) by (cases "lobe_pair p") (auto simp: joins_def ends_def)
    then show False using fresh \<open>p \<in> set (co_projections c)\<close> by (metis image_eqI set_map)
  qed
  have own: "owns_range layout (co_synapses c @ zs) ?p"
  proof -
    have "\<forall>k < length zs. sy_route_index (zs ! k) = route_index \<and> sy_kind (zs ! k) = RecurrentSynapse
        \<and> joins layout (rm_source_lobe route, rm_target_lobe route) (zs ! k)" using zs(2) by simp
    then show ?thesis using s len unfolding owns_range_def by (auto simp: nth_append)
  qed
  have dist: "distinct (map ends (co_synapses c @ zs))"
  proof -
    have "ends ` set (co_synapses c) \<inter> ends ` set zs = {}" using old by blast
    then show ?thesis using inv zs(1) by (simp add: topology_inv_def)
  qed
  have joined: "\<forall>s \<in> set (co_synapses c @ zs). \<exists>p \<in> set (co_projections c @ [?p]). joins layout (lobe_pair p) s"
    using inv zs(2) by (fastforce simp: topology_inv_def)
  have owned: "list_all (owns_range layout (co_synapses c @ zs)) (co_projections c @ [?p])"
    using inv own by (simp add: topology_inv_def list_all_iff owns_range_append)
  show ?thesis
    using inv dist joined owned fresh budget index s len
    unfolding topology_inv_def close_route_def
    by (simp add: range_end_append route_receipt_within)
qed

section \<open>Placing the rows of a route\<close>

lemma ends_of_placed:
  "map ends (place_synapses g route ordinal index target_start rows) = sort rows"
  by (simp add: place_synapses_def ends_def synapse_new_def comp_def case_prod_unfold)

lemma length_place_synapses [simp]: "length (place_synapses g route ordinal index target_start rows) = length rows"
  by (simp add: place_synapses_def)

lemma placed_synapse:
  assumes "s \<in> set (place_synapses g route ordinal index target_start rows)"
  shows "sy_route_index s = index \<and> sy_kind s = RecurrentSynapse \<and> ends s \<in> set rows"
  using assms by (auto simp: place_synapses_def ends_def synapse_new_def)

text \<open>A valid layout of less than \<open>2 ^ 20\<close> neurons leaves the arithmetic of the placement below its widths.\<close>

lemma placed_rows:
  assumes valid: "layout_validate n layout = Inr ()" and small: "unat n < 2 ^ 20"
    and regions: "enabled_region ks layout = Inr source" "enabled_region kt layout = Inr target"
    and inside: "unat ss = unat (lr_start source) + so" "so + unat sw \<le> unat (lr_len source)"
      "unat ts = unat (lr_start target) + to" "to + unat tw \<le> unat (lr_len target)"
    and fits: "unat pairs \<le> 256 * (unat sw div 16 * (unat tw div 16))"
    and rows: "deterministic_tile_pairs ss sw ts tw pairs seed policy = Some rows"
  shows "length rows = unat pairs" "distinct rows"
    and "\<forall>s \<in> set (place_synapses g route ordinal index target_start rows). joins layout (ks, kt) s
      \<and> unat (lr_start source) + so \<le> unat (sy_source s) \<and> unat (sy_source s) < unat (lr_start source) + so + unat sw"
proof -
  note source = enabled_region_facts [OF valid regions(1)] and target = enabled_region_facts [OF valid regions(2)]
  have room: "unat ss + unat sw \<le> unat n" "unat ts + unat tw \<le> unat n" using inside source(4) target(4) by linarith+
  have "unat sw div 16 \<le> 2 ^ 16 - 1" "unat tw div 16 \<le> 2 ^ 16 - 1" using room small by simp_all
  from mult_le_mono [OF this] have lt: "unat sw div 16 * (unat tw div 16) < 2 ^ 32" by simp
  note spec = tile_pairs_spec [OF rows lt fits]
  have room': "unat ss + unat sw \<le> 2 ^ 32" "unat ts + unat tw \<le> 2 ^ 32" using room small by simp_all
  show "length rows = unat pairs" "distinct rows" using spec [OF room'] by blast+
  show "\<forall>s \<in> set (place_synapses g route ordinal index target_start rows). joins layout (ks, kt) s
      \<and> unat (lr_start source) + so \<le> unat (sy_source s) \<and> unat (sy_source s) < unat (lr_start source) + so + unat sw"
  proof
    fix s assume "s \<in> set (place_synapses g route ordinal index target_start rows)"
    then have "ends s \<in> set rows" using placed_synapse by blast
    then have b: "unat ss \<le> unat (sy_source s)" "unat (sy_source s) < unat ss + unat sw"
      "unat ts \<le> unat (sy_target s)" "unat (sy_target s) < unat ts + unat tw"
      using spec [OF room'] by (auto simp: ends_def)
    have "lobe_at layout (sy_source s) = Some ks" by (rule source(7)) (use b inside in linarith)+
    moreover have "lobe_at layout (sy_target s) = Some kt" by (rule target(7)) (use b inside in linarith)+
    ultimately show "joins layout (ks, kt) s \<and> unat (lr_start source) + so \<le> unat (sy_source s)
        \<and> unat (sy_source s) < unat (lr_start source) + so + unat sw" using b inside by (simp add: joins_def)
  qed
qed

section \<open>The counts of a route\<close>

lemma bit_length_le: "n < 2 ^ k \<Longrightarrow> bit_length n \<le> k"
proof (cases "n = 0")
  case False
  assume "n < 2 ^ k"
  moreover have "2 ^ (bit_length n - 1) \<le> n" "0 < bit_length n" using bit_length_bounds [OF False] by blast+
  ultimately have "(2 :: nat) ^ (bit_length n - 1) < 2 ^ k" by linarith
  then show ?thesis using \<open>0 < bit_length n\<close> by simp
qed (simp add: bit_length.simps)

lemma f64_round_small: "n < 2 ^ 53 \<Longrightarrow> f64_round n = n"
  using bit_length_le [of n 53] by (simp add: f64_round_def round_even_def)

lemma f64_round_le:
  assumes "n \<le> q * 2 ^ 149" and "q < 2 ^ 53"
  shows "f64_round n \<le> q * 2 ^ 149"
proof -
  let ?e = "bit_length n - 53"
  have "q * 2 ^ 149 < 2 ^ 53 * 2 ^ 149" using assms(2) by simp
  then have "n < 2 ^ 202" using assms(1) by (simp flip: power_add)
  then have e: "?e \<le> 149" using bit_length_le [of n 202] by simp
  have split: "q * 2 ^ 149 = q * 2 ^ (149 - ?e) * 2 ^ ?e" using e by (simp flip: power_add)
  have "round_even n (2 ^ ?e) \<le> q * 2 ^ (149 - ?e)"
    using assms(1) unfolding split by (intro round_even_le) simp_all
  then show ?thesis unfolding split f64_round_def Let_def by (rule mult_le_mono1)
qed

lemma ceil_div_le:
  fixes m :: nat
  assumes "v \<le> q * m" and "0 < m"
  shows "(v + m - 1) div m \<le> q"
proof -
  have "v + m - 1 < Suc q * m" using assms by simp
  then show ?thesis by (metis less_Suc_eq_le less_mult_imp_div_less)
qed

lemma density_count_le:
  assumes "f32_le d f32_one" and "unat sw * unat tw < 2 ^ 53"
  shows "unat (density_count_of sw tw d) \<le> unat sw * unat tw"
proof -
  let ?q = "unat sw * unat tw"
  have "f32_scaled d \<le> 2 ^ 149" using assms(1) by (simp add: f32_le_def)
  then have mag: "f32_magnitude d \<le> 2 ^ 149" if "\<not> f32_is_sign_negative d"
    using that by (simp add: f32_scaled_def)
  have "\<not> f32_is_infinite d \<or> f32_is_sign_negative d"
  proof (rule ccontr)
    assume inf: "\<not> ?thesis"
    then have "f32_magnitude d = 2 ^ 23 * 2 ^ 254" by (simp add: f32_is_infinite_def f32_magnitude_def)
    then show False using mag inf by (simp flip: power_add)
  qed
  moreover have "(f64_product ?q d + 2 ^ 149 - 1) div 2 ^ 149 \<le> ?q" if "\<not> f32_is_sign_negative d"
  proof -
    have "f64_product ?q d \<le> ?q * 2 ^ 149"
      unfolding f64_product_def f64_round_small [OF assms(2)]
      using mag [OF that] assms(2) by (intro f64_round_le mult_le_mono2)
    then show ?thesis by (rule ceil_div_le) simp
  qed
  ultimately show ?thesis
    by (auto simp: density_count_of_def f64_as_u32_def unat_of_nat take_bit_nat_eq_self min_def)
qed

section \<open>One route\<close>

lemma region_tiles:
  assumes "layout_validate n layout = Inr ()" and "enabled_region kind layout = Inr r"
  shows "16 \<le> lr_len r" and "unat (lr_len r) = 16 * (unat (lr_len r) div 16)"
proof -
  have "16 dvd unat (lr_len r)" "0 < unat (lr_len r)" using enabled_region_facts [OF assms] by blast+
  then show "unat (lr_len r) = 16 * (unat (lr_len r) div 16)" by simp
  have "16 \<le> unat (lr_len r)" by (rule dvd_imp_le) fact+
  then show "16 \<le> lr_len r" by (simp add: word_le_nat_alt)
qed

text \<open>The number of synapses of a route: within its density, its share and what is left.\<close>

definition route_count :: "BrainCapacityClass \<Rightarrow> LobeRegion \<Rightarrow> LobeRegion \<Rightarrow> SparseDensityPrior \<Rightarrow> nat \<Rightarrow> u32" where
  "route_count capacity source target density placed =
     min (min (max (density_count_of (lr_len source) (lr_len target) (sd_density density)) 1)
         (max (share_count_of (bc_max_recurrent_synapses capacity) (sd_max_active_synapse_share density)) 1))
       (saturating_sub (bc_max_recurrent_synapses capacity) (word_of_nat placed))"

lemma tile_area: "a = 16 * x \<Longrightarrow> b = 16 * y \<Longrightarrow> a * b = 256 * (x * y)" for a b x y :: nat
  by simp

lemma route_count_fits:
  assumes valid: "layout_validate n layout = Inr ()" and small: "unat n < 2 ^ 20"
    and regions: "enabled_region ks layout = Inr source" "enabled_region kt layout = Inr target"
    and density: "f32_le (sd_density density) f32_one" and placed: "placed < 2 ^ 32"
  shows "unat (route_count capacity source target density placed)
      \<le> 256 * (unat (lr_len source) div 16 * (unat (lr_len target) div 16))"
    and "placed \<le> unat (bc_max_recurrent_synapses capacity) \<Longrightarrow>
      placed + unat (route_count capacity source target density placed) \<le> unat (bc_max_recurrent_synapses capacity)"
proof -
  let ?w = "unat (lr_len source)" and ?v = "unat (lr_len target)"
  let ?m = "route_count capacity source target density placed"
  have w: "?w < 2 ^ 20" "?v < 2 ^ 20" "0 < ?w" "0 < ?v"
    using enabled_region_facts(4,6) [OF valid regions(1)] enabled_region_facts(4,6) [OF valid regions(2)] small by linarith+
  have "?w * ?v < 2 ^ 20 * 2 ^ 20" using w(1,2) by (intro mult_strict_mono) simp_all
  then have "unat (density_count_of (lr_len source) (lr_len target) (sd_density density)) \<le> ?w * ?v"
    by (intro density_count_le density) simp
  moreover have "1 \<le> ?w * ?v" using w(3,4) by simp
  ultimately have "unat (max (density_count_of (lr_len source) (lr_len target) (sd_density density)) 1) \<le> ?w * ?v"
    by (simp add: max_def word_le_nat_alt)
  moreover have "?m \<le> max (density_count_of (lr_len source) (lr_len target) (sd_density density)) 1"
    by (simp add: route_count_def min.coboundedI1)
  ultimately have "unat ?m \<le> ?w * ?v" by (simp add: word_le_nat_alt)
  also have "\<dots> = 256 * (?w div 16 * (?v div 16))"
    by (rule tile_area) (rule region_tiles(2) [OF valid regions(1)], rule region_tiles(2) [OF valid regions(2)])
  finally show "unat ?m \<le> 256 * (?w div 16 * (?v div 16))" .
  have "?m \<le> saturating_sub (bc_max_recurrent_synapses capacity) (word_of_nat placed)" by (simp add: route_count_def)
  then have "unat ?m \<le> unat (bc_max_recurrent_synapses capacity) - placed"
    using placed by (simp add: word_le_nat_alt unat_saturating_sub unat_of_nat take_bit_nat_eq_self)
  then show "placed + unat ?m \<le> unat (bc_max_recurrent_synapses capacity)"
    if "placed \<le> unat (bc_max_recurrent_synapses capacity)" using that by simp
qed

lemma compile_route_Inr:
  assumes "compile_route g layout capacity (index, route, density) c = Inr c'"
  obtains source target route_index start rows end'
  where "enabled_region (rm_source_lobe route) layout = Inr source" "enabled_region (rm_target_lobe route) layout = Inr target"
    and "try_of_len index = Some route_index" "try_of_len (length (co_synapses c)) = Some start"
    and "\<not> bc_max_active_tiles capacity < co_tile_total c
      + active_tiles_for (route_count capacity source target density (length (co_synapses c)))"
    and "deterministic_tile_pairs (lr_start source) (lr_len source) (lr_start target) (lr_len target)
      (route_count capacity source target density (length (co_synapses c)))
      (bg_genetic_prior_seed g XOR ucast route_index) (rm_active_tile_policy route) = Some rows"
    and "try_of_len (length (co_synapses c @ place_synapses g route route_index route_index (lr_start target) rows)) = Some end'"
    and "c' = close_route route_index route start
      (active_tiles_for (route_count capacity source target density (length (co_synapses c))))
      (co_synapses c @ place_synapses g route route_index route_index (lr_start target) rows) (end' - start)
      (c\<lparr>co_tile_total := co_tile_total c
        + active_tiles_for (route_count capacity source target density (length (co_synapses c)))\<rparr>)"
  using assms unfolding compile_route_def Let_def route_count_def [symmetric] prod.case and_then_Inr_iff ok_or_Inr_iff if_Inl_Inr
  by blast

lemma active_tiles_small: "unat (active_tiles_for n) \<le> 2 ^ 24"
proof -
  have "unat (div_ceil n 256) = (unat n + unat (256 :: u32) - 1) div unat (256 :: u32)" by (rule unat_div_ceil) simp
  moreover have "unat (256 :: u32) = 256" "unat n < 2 ^ 32" using unsigned_less [where 'a = nat, of n] by simp_all
  ultimately have "unat (div_ceil n 256) \<le> 2 ^ 24" by simp
  then show ?thesis by (simp add: active_tiles_for_def max_def)
qed

lemma compile_route_inv:
  assumes valid: "layout_validate n layout = Inr ()" and small: "unat n < 2 ^ 20"
    and tiles: "unat (bc_max_active_tiles capacity) < 2 ^ 31"
    and density: "f32_le (sd_density density) f32_one"
    and inv: "topology_inv layout capacity c" and index: "index = length (co_projections c)"
    and fresh: "(rm_source_lobe route, rm_target_lobe route) \<notin> set (map lobe_pair (co_projections c))"
    and step: "compile_route g layout capacity (index, route, density) c = Inr c'"
  shows "topology_inv layout capacity c'
    \<and> map lobe_pair (co_projections c') = map lobe_pair (co_projections c) @ [(rm_source_lobe route, rm_target_lobe route)]"
  using step
proof (rule compile_route_Inr)
  fix source target route_index start rows end'
  let ?n = "route_count capacity source target density (length (co_synapses c))"
  let ?zs = "place_synapses g route route_index route_index (lr_start target) rows"
  assume regions: "enabled_region (rm_source_lobe route) layout = Inr source" "enabled_region (rm_target_lobe route) layout = Inr target"
    and ri: "try_of_len index = Some route_index" and start: "try_of_len (length (co_synapses c)) = Some start"
    and room: "\<not> bc_max_active_tiles capacity < co_tile_total c + active_tiles_for ?n"
    and rows: "deterministic_tile_pairs (lr_start source) (lr_len source) (lr_start target) (lr_len target) ?n
      (bg_genetic_prior_seed g XOR ucast route_index) (rm_active_tile_policy route) = Some rows"
    and end': "try_of_len (length (co_synapses c @ ?zs)) = Some end'"
    and c': "c' = close_route route_index route start (active_tiles_for ?n) (co_synapses c @ ?zs) (end' - start)
      (c\<lparr>co_tile_total := co_tile_total c + active_tiles_for ?n\<rparr>)"
  have placed: "length (co_synapses c) < 2 ^ 32" using start by (simp add: try_of_len_def split: if_splits)
  note fits = route_count_fits [OF valid small regions density placed]
  note rows' = placed_rows [OF valid small regions, of "lr_start source" 0 "lr_len source" "lr_start target" 0 "lr_len target",
      OF _ _ _ _ fits(1) rows, simplified]
  have len: "length ?zs = unat ?n" using rows'(1) by simp
  have "unat (co_tile_total c) \<le> unat (bc_max_active_tiles capacity)" using inv by (simp add: topology_inv_def word_le_nat_alt)
  then have used: "unat (co_tile_total c + active_tiles_for ?n) = unat (co_tile_total c) + unat (active_tiles_for ?n)"
    using tiles active_tiles_small [of ?n] by (intro unat_plus_no_overflow) simp
  have ri': "route_index = word_of_nat (length (co_projections c))" using ri index by (simp add: try_of_len_def split: if_splits)
  have "topology_inv layout capacity c'" unfolding c'
  proof (rule close_route_inv [OF inv start end' _ _ fresh ri'])
    show "distinct (map ends ?zs)" using rows'(2) by (simp add: ends_of_placed)
    show "\<forall>s \<in> set ?zs. sy_route_index s = route_index \<and> sy_kind s = RecurrentSynapse
        \<and> joins layout (rm_source_lobe route, rm_target_lobe route) s"
      using placed_synapse rows'(3) by blast
    show "length (co_synapses c @ ?zs) \<le> unat (bc_max_recurrent_synapses capacity)"
      using fits(2) inv len by (simp add: topology_inv_def)
    show "unat (co_tile_total c + active_tiles_for ?n) = unat (co_tile_total c) + unat (active_tiles_for ?n)" by (rule used)
    show "co_tile_total c + active_tiles_for ?n \<le> bc_max_active_tiles capacity" using room by simp
  qed
  moreover have "map lobe_pair (co_projections c') = map lobe_pair (co_projections c) @ [(rm_source_lobe route, rm_target_lobe route)]"
    by (simp add: c' close_route_def)
  ultimately show ?thesis by blast
qed

lemma compile_route_panic_free:
  assumes valid: "layout_validate n layout = Inr ()"
  shows "panic_free (compile_route g layout capacity item c)"
proof -
  have rows: "panic_free (ok_or Panics (deterministic_tile_pairs (lr_start source) (lr_len source) (lr_start target) (lr_len target) m seed policy))"
    if "enabled_region ks layout = Inr source" "enabled_region kt layout = Inr target" for ks kt source target m seed policy
    using tile_pairs_return [OF region_tiles(1) [OF valid that(1)] region_tiles(1) [OF valid that(2)]]
    by (metis ok_or_simps(2) panic_free_intros(1))
  have "panic_free (enabled_region kind layout)" for kind
    by (simp add: enabled_region_def panic_free_def split: option.split)
  then show ?thesis unfolding compile_route_def Let_def by (cases item) (auto intro!: panic_free_intros rows)
qed

end
