(* ===== verification/Topology_Safety.thy ===== *)
theory Topology_Safety
  imports Topology_Proofs
begin

text \<open>
  The invariant of the compiler carried through both of its branches: the routes of a genome, and the
  fifteen frozen routes of the foundation, whose coordinate tables are checked here.
\<close>

section \<open>Segments of a foundation route\<close>

definition segment_fits :: "N2048CoordinateSegmentV1 \<Rightarrow> bool" where
  "segment_fits sg \<longleftrightarrow>
     unat (sg_source_offset sg) + unat (sg_source_len sg) < 2 ^ 32 \<and> unat (sg_target_offset sg) + unat (sg_target_len sg) < 2 ^ 32
     \<and> 16 \<le> sg_source_len sg \<and> 16 \<le> sg_target_len sg
     \<and> unat (sg_synapse_count sg) \<le> 256 * (unat (sg_source_len sg) div 16 * (unat (sg_target_len sg) div 16))"

definition apart :: "N2048CoordinateSegmentV1 \<Rightarrow> N2048CoordinateSegmentV1 \<Rightarrow> bool" where
  "apart a b \<longleftrightarrow> unat (sg_source_offset a) + unat (sg_source_len a) \<le> unat (sg_source_offset b)"

definition in_segment :: "LobeRegion \<Rightarrow> N2048CoordinateSegmentV1 \<Rightarrow> CompiledSynapse \<Rightarrow> bool" where
  "in_segment source sg s \<longleftrightarrow>
     unat (lr_start source) + unat (sg_source_offset sg) \<le> unat (sy_source s)
     \<and> unat (sy_source s) < unat (lr_start source) + unat (sg_source_offset sg) + unat (sg_source_len sg)"

definition route_synapse :: "LobeLayout \<Rightarrow> u16 \<Rightarrow> ProjectionKey \<Rightarrow> CompiledSynapse \<Rightarrow> bool" where
  "route_synapse layout route_index key s \<longleftrightarrow>
     sy_route_index s = route_index \<and> sy_kind s = RecurrentSynapse \<and> joins layout key s"

lemma compile_segment_adds:
  assumes valid: "layout_validate n layout = Inr ()" and small: "unat n < 2 ^ 20"
    and regions: "enabled_region (rs_source_lobe spec) layout = Inr source" "enabled_region (rs_target_lobe spec) layout = Inr target"
    and fits: "segment_fits sg"
    and step: "compile_segment g spec density route_index source target sg ss = Inr ss'"
  shows "\<exists>zs. ss' = ss @ zs \<and> length zs = unat (sg_synapse_count sg) \<and> distinct (map ends zs)
    \<and> (\<forall>s \<in> set zs. route_synapse layout route_index (rs_source_lobe spec, rs_target_lobe spec) s \<and> in_segment source sg s)"
proof -
  obtain segment_source segment_target rows where
    st: "checked_add (lr_start source) (sg_source_offset sg) = Some segment_source"
      "checked_add (lr_start target) (sg_target_offset sg) = Some segment_target"
    and inside: "\<not> (lr_len source < sg_source_offset sg + sg_source_len sg \<or> lr_len target < sg_target_offset sg + sg_target_len sg)"
    and rows: "deterministic_tile_pairs segment_source (sg_source_len sg) segment_target (sg_target_len sg) (sg_synapse_count sg)
      (0xf0a0da7120480001 XOR ucast (sg_legacy_route_ordinal sg) XOR word_rotl 19 (ucast (sd_density density)))
      (rs_active_tile_policy spec) = Some rows"
    and ss': "ss' = ss @ place_synapses g (route_mask_of spec) (sg_legacy_route_ordinal sg) route_index (lr_start target) rows"
    using step unfolding compile_segment_def Let_def and_then_Inr_iff ok_or_Inr_iff if_Inl_Inr by blast
  have sums: "unat (sg_source_offset sg + sg_source_len sg) = unat (sg_source_offset sg) + unat (sg_source_len sg)"
    "unat (sg_target_offset sg + sg_target_len sg) = unat (sg_target_offset sg) + unat (sg_target_len sg)"
    using fits by (simp_all add: segment_fits_def unat_plus_no_overflow)
  have bounds: "unat (sg_source_offset sg) + unat (sg_source_len sg) \<le> unat (lr_len source)"
    "unat (sg_target_offset sg) + unat (sg_target_len sg) \<le> unat (lr_len target)"
    using inside by (simp_all add: not_less word_le_nat_alt sums)
  have fits': "unat (sg_synapse_count sg) \<le> 256 * (unat (sg_source_len sg) div 16 * (unat (sg_target_len sg) div 16))"
    using fits by (simp add: segment_fits_def)
  note placed = placed_rows [OF valid small regions checked_add_Some [OF st(1)] bounds(1) checked_add_Some [OF st(2)] bounds(2) fits' rows]
  let ?zs = "place_synapses g (route_mask_of spec) (sg_legacy_route_ordinal sg) route_index (lr_start target) rows"
  have "length ?zs = unat (sg_synapse_count sg)" "distinct (map ends ?zs)"
    using placed(1,2) by (simp_all add: ends_of_placed)
  moreover have "\<forall>s \<in> set ?zs. route_synapse layout route_index (rs_source_lobe spec, rs_target_lobe spec) s \<and> in_segment source sg s"
    using placed(3) placed_synapse unfolding route_synapse_def in_segment_def by blast
  ultimately show ?thesis using ss' by blast
qed

lemma compile_segments_add:
  assumes valid: "layout_validate n layout = Inr ()" and small: "unat n < 2 ^ 20"
    and regions: "enabled_region (rs_source_lobe spec) layout = Inr source" "enabled_region (rs_target_lobe spec) layout = Inr target"
    and fits: "list_all segment_fits segments" and disjoint: "sorted_wrt apart segments"
    and fold: "try_fold (compile_segment g spec density route_index source target) segments ss = Inr ss'"
  shows "\<exists>zs. ss' = ss @ zs \<and> distinct (map ends zs)
    \<and> (\<forall>s \<in> set zs. route_synapse layout route_index (rs_source_lobe spec, rs_target_lobe spec) s \<and> (\<exists>sg \<in> set segments. in_segment source sg s))"
  using fold
proof (rule try_fold_invariant)
  fix ys sg rest t t'
  assume split: "segments = ys @ sg # rest"
    and IH: "\<exists>zs. t = ss @ zs \<and> distinct (map ends zs)
      \<and> (\<forall>s \<in> set zs. route_synapse layout route_index (rs_source_lobe spec, rs_target_lobe spec) s \<and> (\<exists>sg \<in> set ys. in_segment source sg s))"
    and step: "compile_segment g spec density route_index source target sg t = Inr t'"
  obtain zs where zs: "t = ss @ zs" "distinct (map ends zs)"
    "\<forall>s \<in> set zs. route_synapse layout route_index (rs_source_lobe spec, rs_target_lobe spec) s \<and> (\<exists>sg \<in> set ys. in_segment source sg s)"
    using IH by blast
  have "segment_fits sg" using fits split by simp
  then obtain us where us: "t' = t @ us" "distinct (map ends us)"
    "\<forall>s \<in> set us. route_synapse layout route_index (rs_source_lobe spec, rs_target_lobe spec) s \<and> in_segment source sg s"
    using compile_segment_adds [OF valid small regions _ step] by blast
  have "ends s \<noteq> ends u" if s: "s \<in> set zs" and u: "u \<in> set us" for s u
  proof -
    obtain y where y: "y \<in> set ys" "in_segment source y s" using zs(3) s by blast
    have "apart y sg" using disjoint y(1) split by (simp add: sorted_wrt_append)
    then have "unat (sy_source s) < unat (sy_source u)" using y(2) us(3) u by (auto simp: apart_def in_segment_def)
    then show ?thesis by (auto simp: ends_def)
  qed
  then have "ends ` set zs \<inter> ends ` set us = {}" by blast
  then have "distinct (map ends (zs @ us))" using zs(2) us(2) by simp
  then show "\<exists>zs. t' = ss @ zs \<and> distinct (map ends zs)
      \<and> (\<forall>s \<in> set zs. route_synapse layout route_index (rs_source_lobe spec, rs_target_lobe spec) s \<and> (\<exists>sg \<in> set (ys @ [sg]). in_segment source sg s))"
    using zs us by (intro exI [where x = "zs @ us"]) auto
qed simp

section \<open>The frozen tables\<close>

lemma segment_tables: "\<forall>segments \<in> set N2048_COORDINATE_SEGMENTS. list_all segment_fits segments \<and> sorted_wrt apart segments"
  by (simp add: N2048_COORDINATE_SEGMENTS_def segment_def segment_fits_def apart_def word_le_nat_alt)

lemma route_tables:
  "length N2048_ROUTES = 15" "length N2048_COORDINATE_SEGMENTS = 15"
  "distinct (map (\<lambda>spec. (rs_source_lobe spec, rs_target_lobe spec)) N2048_ROUTES)"
  "sum_list (map (unat \<circ> rs_synapse_count) N2048_ROUTES) = unat RECURRENT_SYNAPSE_COUNT"
  by (simp_all add: N2048_ROUTES_def N2048_COORDINATE_SEGMENTS_def route_spec_def RECURRENT_SYNAPSE_COUNT_def)

lemma n2048_layout_valid: "layout_validate 2048 n2048_lobe_layout = Inr ()"
  by (simp add: n2048_lobe_layout_def foundation_lengths_def region_enabled_def layout_validate_def checked_add_def
      regions_are_aligned_def enabled_regions_def LOBE_ALL_def)

section \<open>A foundation route\<close>

lemma compile_foundation_route_Inr:
  assumes "compile_foundation_route g layout capacity masks densities (index, spec) c = Inr c'"
  obtains density source target route_index start used segments ss end'
  where "enabled_region (rs_source_lobe spec) layout = Inr source" "enabled_region (rs_target_lobe spec) layout = Inr target"
    and "try_of_len index = Some route_index" "try_of_len (length (co_synapses c)) = Some start"
    and "checked_add (co_tile_total c) (active_tiles_for (rs_synapse_count spec)) = Some used"
    and "\<not> bc_max_active_tiles capacity < used" "n2048_coordinate_segments index = Inr segments"
    and "try_fold (compile_segment g spec density route_index source target) segments (co_synapses c) = Inr ss"
    and "try_of_len (length ss) = Some end'" "end' - start = rs_synapse_count spec"
    and "c' = close_route route_index (route_mask_of spec) start (active_tiles_for (rs_synapse_count spec)) ss (end' - start)
      (c\<lparr>co_tile_total := used\<rparr>)"
proof -
  have "\<not> a \<noteq> b \<longleftrightarrow> a = b" for a b :: u32 by simp
  then show thesis
    using assms that unfolding compile_foundation_route_def Let_def prod.case and_then_Inr_iff ok_or_Inr_iff if_Inl_Inr may_fail_Inr_iff Inr_inject
    by blast
qed

definition spec_pair :: "N2048FoundationRouteSpec \<Rightarrow> ProjectionKey" where
  "spec_pair spec = (rs_source_lobe spec, rs_target_lobe spec)"

lemma compile_foundation_route_inv:
  assumes valid: "layout_validate n layout = Inr ()" and small: "unat n < 2 ^ 20"
    and inv: "topology_inv layout capacity c" and index: "index = length (co_projections c)"
    and fresh: "spec_pair spec \<notin> set (map lobe_pair (co_projections c))"
    and budget: "length (co_synapses c) + unat (rs_synapse_count spec) \<le> unat (bc_max_recurrent_synapses capacity)"
    and step: "compile_foundation_route g layout capacity masks densities (index, spec) c = Inr c'"
  shows "topology_inv layout capacity c' \<and> map lobe_pair (co_projections c') = map lobe_pair (co_projections c) @ [spec_pair spec]
    \<and> length (co_synapses c') = length (co_synapses c) + unat (rs_synapse_count spec)"
  using step
proof (rule compile_foundation_route_Inr)
  fix density source target route_index start used segments ss end'
  let ?tiles = "active_tiles_for (rs_synapse_count spec)"
  assume regions: "enabled_region (rs_source_lobe spec) layout = Inr source" "enabled_region (rs_target_lobe spec) layout = Inr target"
    and ri: "try_of_len index = Some route_index" and start: "try_of_len (length (co_synapses c)) = Some start"
    and used: "checked_add (co_tile_total c) ?tiles = Some used" "\<not> bc_max_active_tiles capacity < used"
    and segments: "n2048_coordinate_segments index = Inr segments"
    and fold: "try_fold (compile_segment g spec density route_index source target) segments (co_synapses c) = Inr ss"
    and end': "try_of_len (length ss) = Some end'" and len: "end' - start = rs_synapse_count spec"
    and c': "c' = close_route route_index (route_mask_of spec) start ?tiles ss (end' - start) (c\<lparr>co_tile_total := used\<rparr>)"
  have "segments \<in> set N2048_COORDINATE_SEGMENTS"
    using segments by (auto simp: n2048_coordinate_segments_def split: if_splits)
  then have "list_all segment_fits segments" "sorted_wrt apart segments" using segment_tables by blast+
  from compile_segments_add [OF valid small regions this fold] obtain zs where zs: "ss = co_synapses c @ zs" "distinct (map ends zs)"
    "\<forall>s \<in> set zs. route_synapse layout route_index (spec_pair spec) s" unfolding spec_pair_def by blast
  have s: "unat start = length (co_synapses c)" "unat end' = length (co_synapses c) + length zs"
    using try_of_len_Some [OF start] try_of_len_Some [OF end'] by (simp_all add: zs(1))
  then have "unat (end' - start) = length zs" by (simp add: unat_sub word_le_nat_alt)
  then have count: "length zs = unat (rs_synapse_count spec)" by (simp add: len)
  have ri': "route_index = word_of_nat (length (co_projections c))" using ri index by (simp add: try_of_len_def split: if_splits)
  have pair: "(rm_source_lobe (route_mask_of spec), rm_target_lobe (route_mask_of spec)) = spec_pair spec"
    by (simp add: route_mask_of_def routing_mask_def spec_pair_def)
  have "topology_inv layout capacity c'" unfolding c' zs(1)
  proof (rule close_route_inv [OF inv start end' [unfolded zs(1)] zs(2) _ _ ri'])
    show "\<forall>s \<in> set zs. sy_route_index s = route_index \<and> sy_kind s = RecurrentSynapse
        \<and> joins layout (rm_source_lobe (route_mask_of spec), rm_target_lobe (route_mask_of spec)) s"
      using zs(3) unfolding pair route_synapse_def .
    show "(rm_source_lobe (route_mask_of spec), rm_target_lobe (route_mask_of spec)) \<notin> set (map lobe_pair (co_projections c))"
      unfolding pair by (rule fresh)
    show "length (co_synapses c @ zs) \<le> unat (bc_max_recurrent_synapses capacity)" using budget count by simp
    show "unat used = unat (co_tile_total c) + unat ?tiles" using used(1) by (rule checked_add_Some)
    show "used \<le> bc_max_active_tiles capacity" using used(2) by simp
  qed
  then show ?thesis using pair count by (simp add: c' close_route_def zs(1))
qed

section \<open>The routes of a genome\<close>

lemma canonical_route_pair:
  "canonical_route key = Some route \<Longrightarrow> (rm_source_lobe route, rm_target_lobe route) = key"
  by (cases key) (auto simp: canonical_route_def route_mask_of_def routing_mask_def Let_def find_Some_iff
      split: option.splits if_splits)

lemma collect_masks_facts:
  "collect_masks xs m = Inr m' \<Longrightarrow> bt_ordered m \<Longrightarrow>
     \<forall>(k, x) \<in> set m. k = key_raw (mm_projection x) \<and> canonical_route (mm_projection x) \<noteq> None \<Longrightarrow>
     bt_ordered m' \<and> (\<forall>(k, x) \<in> set m'. k = key_raw (mm_projection x) \<and> canonical_route (mm_projection x) \<noteq> None)"
proof (induction xs arbitrary: m)
  case (Cons x xs)
  have rec: "canonical_route (mm_projection x) \<noteq> None"
    "collect_masks xs (bt_insert (key_raw (mm_projection x)) x m) = Inr m'"
    using Cons.prems(1) by (auto split: if_splits)
  show ?case
  proof (rule Cons.IH [OF rec(2)])
    show "bt_ordered (bt_insert (key_raw (mm_projection x)) x m)" using Cons.prems(2) by (rule bt_insert_ordered)
    show "\<forall>(k, y) \<in> set (bt_insert (key_raw (mm_projection x)) x m). k = key_raw (mm_projection y) \<and> canonical_route (mm_projection y) \<noteq> None"
      using Cons.prems(3) rec(1) unfolding bt.entries_update_set [OF Cons.prems(2)] by auto
  qed
qed simp

lemma collect_densities_facts:
  "collect_densities masks xs m = Inr m' \<Longrightarrow> bt_ordered m \<Longrightarrow> snd ` set m \<subseteq> D \<Longrightarrow> set xs \<subseteq> D \<Longrightarrow>
     bt_ordered m' \<and> snd ` set m' \<subseteq> D"
proof (induction xs arbitrary: m)
  case (Cons x xs)
  have rec: "collect_densities masks xs (bt_insert (key_raw (sd_projection x)) x m) = Inr m'"
    using Cons.prems(1) by (auto simp: Let_def split: if_splits)
  show ?case
  proof (rule Cons.IH [OF rec])
    show "bt_ordered (bt_insert (key_raw (sd_projection x)) x m)" using Cons.prems(2) by (rule bt_insert_ordered)
    show "snd ` set (bt_insert (key_raw (sd_projection x)) x m) \<subseteq> D"
      using Cons.prems(3,4) unfolding bt.entries_update_set [OF Cons.prems(2)] by auto
    show "set xs \<subseteq> D" using Cons.prems(4) by simp
  qed
qed simp

lemma masks_match_get:
  assumes "masks_match masks densities = Inr ()" and "(k, x) \<in> set masks" and "mm_enabled x"
  shows "\<exists>d. bt_get densities k = Some d"
  using assms by (auto simp: masks_match_def split: if_splits dest!: bspec)

lemma enabled_routes_facts:
  assumes masks: "bt_ordered masks" "\<forall>(k, x) \<in> set masks. k = key_raw (mm_projection x) \<and> canonical_route (mm_projection x) \<noteq> None"
    and densities: "bt_ordered densities" "snd ` set densities \<subseteq> D" and matching: "masks_match masks densities = Inr ()"
  shows "distinct (map (\<lambda>(route, _). (rm_source_lobe route, rm_target_lobe route)) (enabled_routes masks densities))"
    and "\<forall>(route, d) \<in> set (enabled_routes masks densities). d \<in> D"
proof -
  let ?on = "filter (\<lambda>(_, mk). mm_enabled mk) masks"
  let ?item = "\<lambda>(key, mk). (the (canonical_route (mm_projection mk)), the (bt_get densities key))"
  let ?pair = "\<lambda>(route, _). (rm_source_lobe route, rm_target_lobe route)"
  have pair: "key_raw (?pair (?item e)) = fst e" if "e \<in> set ?on" for e
    using that masks(2) canonical_route_pair [of "mm_projection (snd e)"] by (fastforce simp: case_prod_unfold)
  have "distinct (map fst masks)" using masks(1) by (simp add: bt_ordered_def strict_sorted_iff)
  then have "distinct (map fst ?on)" by (rule distinct_map_filter)
  moreover have "map key_raw (map ?pair (map ?item ?on)) = map fst ?on"
    unfolding map_map comp_def using pair by (intro map_cong refl)
  ultimately have "distinct (map key_raw (map ?pair (map ?item ?on)))" by (simp only:)
  then have "distinct (map ?pair (map ?item ?on))" by (rule distinct_map [THEN iffD1, THEN conjunct1])
  then show "distinct (map ?pair (enabled_routes masks densities))"
    unfolding enabled_routes_def by (simp only: case_prod_unfold distinct_map distinct_sort set_sort)
  have "the (bt_get densities (fst e)) \<in> D" if on: "e \<in> set ?on" for e
  proof -
    have "(fst e, snd e) \<in> set masks" "mm_enabled (snd e)" using on by (simp_all add: case_prod_unfold)
    from masks_match_get [OF matching this] obtain d where "bt_get densities (fst e) = Some d" by blast
    then have "(fst e, d) \<in> set densities" by (rule map_of_SomeD)
    then show ?thesis using densities(2) \<open>bt_get densities (fst e) = Some d\<close> by force
  qed
  then show "\<forall>(route, d) \<in> set (enabled_routes masks densities). d \<in> D"
    unfolding enabled_routes_def by (force simp: case_prod_unfold)
qed

section \<open>Whole topologies\<close>

lemma enumerate_split:
  assumes "enumerate 0 xs = ys @ (i, x) # zs"
  shows "i = length ys" and "xs = map snd ys @ x # map snd zs"
proof -
  have "map fst (enumerate 0 xs) ! length ys = i" unfolding assms by (simp add: nth_append)
  moreover have "length ys < length xs" using arg_cong [OF assms, of length] by simp
  ultimately show "i = length ys" by simp
  show "xs = map snd ys @ x # map snd zs" using arg_cong [OF assms, of "map snd"] by simp
qed

lemma fresh_image: "distinct (map f xs) \<Longrightarrow> xs = ys @ x # zs \<Longrightarrow> f x \<notin> set (map f ys)"
  by simp

lemma compiled_routes_inv:
  assumes valid: "layout_validate n layout = Inr ()" and small: "unat n < 2 ^ 20"
    and tiles: "unat (bc_max_active_tiles capacity) < 2 ^ 31"
    and distinct: "distinct (map (\<lambda>(route, _). (rm_source_lobe route, rm_target_lobe route)) routes)"
    and densities: "\<forall>(route, d) \<in> set routes. f32_le (sd_density d) f32_one"
    and fold: "try_fold (compile_route g layout capacity) (enumerate 0 routes) empty_compilation = Inr c"
  shows "topology_inv layout capacity c"
proof -
  let ?pair = "\<lambda>(route, _). (rm_source_lobe route, rm_target_lobe route)"
  have "topology_inv layout capacity c \<and> map lobe_pair (co_projections c) = map (?pair \<circ> snd) (enumerate 0 routes)"
    using fold
  proof (rule try_fold_invariant)
    show "topology_inv layout capacity empty_compilation \<and> map lobe_pair (co_projections empty_compilation) = map (?pair \<circ> snd) []"
      by (simp add: empty_inv) (simp add: empty_compilation_def)
    fix ys item zs t t'
    assume split: "enumerate 0 routes = ys @ item # zs" and IH: "topology_inv layout capacity t \<and> map lobe_pair (co_projections t) = map (?pair \<circ> snd) ys"
      and step: "compile_route g layout capacity item t = Inr t'"
    obtain i route d where item: "item = (i, route, d)" by (cases item) auto
    note at = enumerate_split [OF split [unfolded item]]
    have i: "i = length (co_projections t)" using at(1) arg_cong [OF IH [THEN conjunct2], of length] by simp
    have "?pair (route, d) \<notin> set (map lobe_pair (co_projections t))"
      using fresh_image [OF distinct at(2)] IH by (simp only: map_map simp_thms)
    then have fresh: "(rm_source_lobe route, rm_target_lobe route) \<notin> set (map lobe_pair (co_projections t))" by simp
    have "f32_le (sd_density d) f32_one" using densities at(2) by auto
    from compile_route_inv [OF valid small tiles this _ i fresh step [unfolded item]] IH
    show "topology_inv layout capacity t' \<and> map lobe_pair (co_projections t') = map (?pair \<circ> snd) (ys @ [item])"
      by (simp add: item)
  qed
  then show ?thesis by blast
qed

lemma compiled_foundation_inv:
  assumes valid: "layout_validate n layout = Inr ()" and small: "unat n < 2 ^ 20"
    and foundation: "compile_n2048_foundation g layout capacity masks densities = Inr c"
  shows "topology_inv layout capacity c"
proof -
  have budget: "unat RECURRENT_SYNAPSE_COUNT \<le> unat (bc_max_recurrent_synapses capacity)"
    and fold: "try_fold (compile_foundation_route g layout capacity masks densities) (enumerate 0 N2048_ROUTES) empty_compilation = Inr c"
    using foundation by (auto simp: compile_n2048_foundation_def not_less word_le_nat_alt split: if_splits)
  let ?placed = "\<lambda>ys. sum_list (map (unat \<circ> rs_synapse_count \<circ> snd) ys)"
  have "topology_inv layout capacity c \<and> map lobe_pair (co_projections c) = map (spec_pair \<circ> snd) (enumerate 0 N2048_ROUTES)
      \<and> length (co_synapses c) = ?placed (enumerate 0 N2048_ROUTES)"
    using fold
  proof (rule try_fold_invariant)
    show "topology_inv layout capacity empty_compilation
        \<and> map lobe_pair (co_projections empty_compilation) = map (spec_pair \<circ> snd) [] \<and> length (co_synapses empty_compilation) = ?placed []"
      by (simp add: empty_inv) (simp add: empty_compilation_def)
    fix ys item zs t t'
    assume split: "enumerate 0 N2048_ROUTES = ys @ item # zs"
      and IH: "topology_inv layout capacity t \<and> map lobe_pair (co_projections t) = map (spec_pair \<circ> snd) ys
        \<and> length (co_synapses t) = ?placed ys"
      and step: "compile_foundation_route g layout capacity masks densities item t = Inr t'"
    obtain i spec where item: "item = (i, spec)" by (cases item)
    note at = enumerate_split [OF split [unfolded item]]
    have i: "i = length (co_projections t)" using at(1) arg_cong [OF IH [THEN conjunct2, THEN conjunct1], of length] by simp
    have "spec_pair spec \<notin> set (map lobe_pair (co_projections t))"
      using fresh_image [OF route_tables(3) [folded spec_pair_def] at(2)] IH by (simp add: image_image)
    moreover have "?placed ys + unat (rs_synapse_count spec) \<le> unat RECURRENT_SYNAPSE_COUNT"
      unfolding route_tables(4) [symmetric] at(2) by (simp add: comp_assoc)
    then have "length (co_synapses t) + unat (rs_synapse_count spec) \<le> unat (bc_max_recurrent_synapses capacity)"
      using IH budget by simp
    ultimately show "topology_inv layout capacity t' \<and> map lobe_pair (co_projections t') = map (spec_pair \<circ> snd) (ys @ [item])
        \<and> length (co_synapses t') = ?placed (ys @ [item])"
      using compile_foundation_route_inv [OF valid small _ i _ _ step [unfolded item]] IH item by simp
  qed
  then show ?thesis by blast
qed

lemma compiled_inv:
  assumes valid: "layout_validate n layout = Inr ()" and small: "unat n < 2 ^ 20"
    and tiles: "unat (bc_max_active_tiles capacity) < 2 ^ 31"
    and densities: "\<forall>d \<in> set (bg_sparse_density_priors g). f32_le (sd_density d) f32_one"
    and compiled: "compile_recurrent g layout capacity = Inr c"
  shows "topology_inv layout capacity c"
proof -
  obtain masks densities where
    masks: "collect_masks (bg_macro_connectome_masks g) [] = Inr masks"
    and dens: "collect_densities masks (bg_sparse_density_priors g) [] = Inr densities"
    and match: "masks_match masks densities = Inr ()"
    and rest: "(if bc_id capacity = N2048_ID then compile_n2048_foundation g layout capacity masks densities
      else try_fold (compile_route g layout capacity) (enumerate 0 (enabled_routes masks densities)) empty_compilation) = Inr c"
    using compiled unfolding compile_recurrent_def and_then_Inr_iff may_fail_Inr_iff
    by (elim exE conjE) (rule that, (assumption | simp (no_asm_simp))+)
  have m: "bt_ordered masks" "\<forall>(k, x) \<in> set masks. k = key_raw (mm_projection x) \<and> canonical_route (mm_projection x) \<noteq> None"
    using collect_masks_facts [OF masks] by (simp_all add: bt_ordered_def)
  have d: "bt_ordered densities" "snd ` set densities \<subseteq> set (bg_sparse_density_priors g)"
    using collect_densities_facts [OF dens, of "set (bg_sparse_density_priors g)"] by (simp_all add: bt_ordered_def)
  note routes = enabled_routes_facts [OF m d match]
  have "\<forall>(route, d) \<in> set (enabled_routes masks densities). f32_le (sd_density d) f32_one"
    using routes(2) assms(4) by fastforce
  then show ?thesis
    using rest compiled_routes_inv [OF valid small tiles routes(1)] compiled_foundation_inv [OF valid small]
    by (cases "bc_id capacity = N2048_ID") simp_all
qed

end
