(* ===== verification/Topology_Foundation.thy ===== *)
theory Topology_Foundation
  imports Topology_Safety
begin

text \<open>
  Compiling neither panics nor runs forever, and the frozen foundation compiles: a genome that carries the
  fifteen exact priors gets all fifteen routes, 24576 synapses in 96 tiles.
\<close>

section \<open>No panic\<close>

lemma panic_free_enabled_region: "panic_free (enabled_region kind layout)"
  by (simp add: enabled_region_def panic_free_def split: option.split)

lemma compile_segment_panic_free:
  assumes "segment_fits sg"
  shows "panic_free (compile_segment g spec density route_index source target sg ss)"
proof -
  have "16 \<le> sg_source_len sg" "16 \<le> sg_target_len sg" using assms by (simp_all add: segment_fits_def)
  then have "panic_free (ok_or Panics (deterministic_tile_pairs a (sg_source_len sg) b (sg_target_len sg) m seed policy))"
    for a b m seed policy by (metis tile_pairs_return ok_or_simps(2) panic_free_intros(1))
  then show ?thesis unfolding compile_segment_def Let_def by (auto intro!: panic_free_intros)
qed

lemma foundation_route_panic_free: "panic_free (compile_foundation_route g layout capacity masks densities item c)"
proof -
  have "panic_free (try_fold (compile_segment g spec density route_index source target) segments ss)"
    if "n2048_coordinate_segments index = Inr segments" for spec density route_index source target segments ss index
  proof (rule panic_free_try_fold)
    fix sg t assume "sg \<in> set segments"
    moreover have "segments \<in> set N2048_COORDINATE_SEGMENTS"
      using that by (auto simp: n2048_coordinate_segments_def split: if_splits)
    ultimately have "segment_fits sg" using segment_tables by (auto simp: list_all_iff)
    then show "panic_free (compile_segment g spec density route_index source target sg t)" by (rule compile_segment_panic_free)
  qed
  then show ?thesis unfolding compile_foundation_route_def Let_def
    by (cases item) (auto intro!: panic_free_intros panic_free_enabled_region)
qed

lemma recurrent_panic_free:
  assumes "layout_validate n layout = Inr ()"
  shows "panic_free (compile_recurrent g layout capacity)"
proof -
  have "panic_free (compile_n2048_foundation g layout capacity masks densities)" for masks densities
    unfolding compile_n2048_foundation_def
    by (auto intro!: panic_free_intros panic_free_try_fold foundation_route_panic_free)
  then show ?thesis
    unfolding compile_recurrent_def
    by (auto intro!: panic_free_intros panic_free_try_fold compile_route_panic_free [OF assms])
qed

text \<open>C27. On a layout that passed validation, compiling the recurrent topology of any genome ends with a
  topology or with an error: it never divides by the tiles of an empty region, and its searches for a
  coprime stride all end.\<close>

theorem compile_recurrent_never_panics:
  assumes "layout_validate n layout = Inr ()"
  shows "compile_recurrent g layout capacity \<noteq> Inl Panics"
  using recurrent_panic_free [OF assms] by (simp add: panic_free_def)

section \<open>What is placed\<close>

text \<open>C25. Whatever the genome, no two recurrent synapses of a compiled topology have the same endpoints,
  and the synapses of a projection's range carry its route index and run from its source lobe to its
  target lobe.\<close>

theorem compiled_synapses_join_their_lobes:
  assumes "layout_validate n layout = Inr ()" and "unat n < 2 ^ 20" and "unat (bc_max_active_tiles capacity) < 2 ^ 31"
    and "\<forall>d \<in> set (bg_sparse_density_priors g). f32_le (sd_density d) f32_one"
    and "compile_recurrent g layout capacity = Inr c"
  shows "distinct (map (\<lambda>s. (sy_source s, sy_target s)) (co_synapses c))
    \<and> (\<forall>p \<in> set (co_projections c).
         unat (cp_synapse_start p) + unat (cp_synapse_len p) \<le> length (co_synapses c)
         \<and> (\<forall>i \<in> {unat (cp_synapse_start p) ..< unat (cp_synapse_start p) + unat (cp_synapse_len p)}.
              let s = co_synapses c ! i
              in sy_route_index s = cp_route_index p
                 \<and> map_option lr_kind (lobe_by_neuron_index (sy_source s) layout) = Some (cp_source_lobe p)
                 \<and> map_option lr_kind (lobe_by_neuron_index (sy_target s) layout) = Some (cp_target_lobe p)))"
  using compiled_inv [OF assms]
  by (simp add: topology_inv_def list_all_iff owns_range_def joins_def lobe_at_def lobe_pair_def ends_def [abs_def] Let_def)

text \<open>C26. The projections of a compiled topology cut its synapses, without a gap, into consecutive ranges,
  join different pairs of lobes, and stay inside the synapse and tile budgets of the brain class, every
  route inside the ceilings of its receipt.\<close>

theorem compiled_topology_keeps_its_budgets:
  assumes "layout_validate n layout = Inr ()" and "unat n < 2 ^ 20" and "unat (bc_max_active_tiles capacity) < 2 ^ 31"
    and "\<forall>d \<in> set (bg_sparse_density_priors g). f32_le (sd_density d) f32_one"
    and "compile_recurrent g layout capacity = Inr c"
  shows "range_end 0 (co_projections c) = Some (length (co_synapses c))
    \<and> distinct (map (\<lambda>p. (cp_source_lobe p, cp_target_lobe p)) (co_projections c))
    \<and> length (co_synapses c) \<le> unat (bc_max_recurrent_synapses capacity)
    \<and> sum_list (map (unat \<circ> cp_active_tile_count) (co_projections c)) \<le> unat (bc_max_active_tiles capacity)
    \<and> list_all within_ceiling (co_receipts c)"
  using compiled_inv [OF assms] by (simp add: topology_inv_def lobe_pair_def [abs_def] word_le_nat_alt)

section \<open>The foundation compiles\<close>

text \<open>A fold whose every step succeeds.\<close>

lemma try_fold_succeeds:
  assumes "P [] s" and step: "\<And>ys x zs t. xs = ys @ x # zs \<Longrightarrow> P ys t \<Longrightarrow> \<exists>t'. f x t = Inr t' \<and> P (ys @ [x]) t'"
  shows "\<exists>s'. try_fold f xs s = Inr s' \<and> P xs s'"
proof -
  have "xs = ys @ zs \<Longrightarrow> P ys t \<Longrightarrow> \<exists>s'. try_fold f zs t = Inr s' \<and> P xs s'" for ys zs t
  proof (induction zs arbitrary: ys t)
    case (Cons z zs)
    then obtain t' where "f z t = Inr t'" "P (ys @ [z]) t'" using step by blast
    then show ?case using Cons.IH [of "ys @ [z]" t'] Cons.prems(1) by simp
  qed simp
  from this [of "[]" xs s] show ?thesis using assms(1) by simp
qed

text \<open>The rows the frozen layout and tables give one route.\<close>

definition segment_inside :: "LobeRegion \<Rightarrow> LobeRegion \<Rightarrow> N2048CoordinateSegmentV1 \<Rightarrow> bool" where
  "segment_inside source target sg \<longleftrightarrow>
     checked_add (lr_start source) (sg_source_offset sg) \<noteq> None \<and> checked_add (lr_start target) (sg_target_offset sg) \<noteq> None
     \<and> sg_source_offset sg + sg_source_len sg \<le> lr_len source \<and> sg_target_offset sg + sg_target_len sg \<le> lr_len target
     \<and> segment_fits sg"

definition route_ready :: "nat \<Rightarrow> bool" where
  "route_ready i \<longleftrightarrow> (let spec = N2048_ROUTES ! i; segments = N2048_COORDINATE_SEGMENTS ! i in
     (\<exists>source target. enabled_region (rs_source_lobe spec) n2048_lobe_layout = Inr source
        \<and> enabled_region (rs_target_lobe spec) n2048_lobe_layout = Inr target
        \<and> list_all (segment_inside source target) segments)
     \<and> sum_list (map sg_synapse_count segments) = rs_synapse_count spec
     \<and> sum_list (map (unat \<circ> sg_synapse_count) segments) = unat (rs_synapse_count spec))"

lemma region_enabled_simps:
  "lr_kind (region_enabled k s n) = k" "lr_start (region_enabled k s n) = s" "lr_len (region_enabled k s n) = n"
  "lr_enabled (region_enabled k s n)"
  by (simp_all add: region_enabled_def)

lemma n2048_regions:
  "enabled_region PerceptualIntegration n2048_lobe_layout = Inr (region_enabled PerceptualIntegration 0 256)"
  "enabled_region InteroceptiveMotivational n2048_lobe_layout = Inr (region_enabled InteroceptiveMotivational 256 128)"
  "enabled_region SocialCommunication n2048_lobe_layout = Inr (region_enabled SocialCommunication 384 256)"
  "enabled_region MultimodalAssociation n2048_lobe_layout = Inr (region_enabled MultimodalAssociation 640 256)"
  "enabled_region TemporalPredictive n2048_lobe_layout = Inr (region_enabled TemporalPredictive 896 448)"
  "enabled_region MemoryInterface n2048_lobe_layout = Inr (region_enabled MemoryInterface 1344 256)"
  "enabled_region WorkingContextExecutive n2048_lobe_layout = Inr (region_enabled WorkingContextExecutive 1600 128)"
  "enabled_region ActionPlanning n2048_lobe_layout = Inr (region_enabled ActionPlanning 1728 224)"
  "enabled_region FlexibleReserve n2048_lobe_layout = Inr (region_enabled FlexibleReserve 1952 96)"
  by (simp_all add: enabled_region_def layout_region_def n2048_lobe_layout_def foundation_lengths_def region_enabled_simps)

lemma routes_ready: "\<forall>i \<in> set [0..<15]. route_ready i"
proof -
  have "list_all2 (\<lambda>spec segments. \<exists>source target. enabled_region (rs_source_lobe spec) n2048_lobe_layout = Inr source
        \<and> enabled_region (rs_target_lobe spec) n2048_lobe_layout = Inr target \<and> list_all (segment_inside source target) segments)
      N2048_ROUTES N2048_COORDINATE_SEGMENTS"
    by (simp add: N2048_ROUTES_def N2048_COORDINATE_SEGMENTS_def route_spec_def segment_def n2048_regions
        segment_inside_def segment_fits_def checked_add_def region_enabled_simps word_le_nat_alt)
  moreover have "list_all2 (\<lambda>spec segments. sum_list (map sg_synapse_count segments) = rs_synapse_count spec
        \<and> sum_list (map (unat \<circ> sg_synapse_count) segments) = unat (rs_synapse_count spec))
      N2048_ROUTES N2048_COORDINATE_SEGMENTS"
    by (simp add: N2048_ROUTES_def N2048_COORDINATE_SEGMENTS_def route_spec_def segment_def)
  ultimately show ?thesis unfolding route_ready_def Let_def list_all2_conv_all_nth by (simp add: route_tables)
qed

lemma compile_segment_succeeds:
  assumes "segment_inside source target sg"
  shows "\<exists>ss'. compile_segment g spec density route_index source target sg ss = Inr ss' \<and> length ss' = length ss + unat (sg_synapse_count sg)"
proof -
  have "16 \<le> sg_source_len sg" "16 \<le> sg_target_len sg" using assms by (simp_all add: segment_inside_def segment_fits_def)
  note tile_pairs_return [OF this]
  then obtain a b where "checked_add (lr_start source) (sg_source_offset sg) = Some a" "checked_add (lr_start target) (sg_target_offset sg) = Some b"
    using assms by (auto simp: segment_inside_def)
  moreover obtain rows where "deterministic_tile_pairs a (sg_source_len sg) b (sg_target_len sg) (sg_synapse_count sg)
      (0xf0a0da7120480001 XOR ucast (sg_legacy_route_ordinal sg) XOR word_rotl 19 (ucast (sd_density density)))
      (rs_active_tile_policy spec) = Some rows" "length rows = unat (sg_synapse_count sg)"
    using tile_pairs_return [OF \<open>16 \<le> sg_source_len sg\<close> \<open>16 \<le> sg_target_len sg\<close>] by blast
  ultimately show ?thesis using assms
    by (auto simp: compile_segment_def segment_inside_def and_then_def not_less length_place_synapses)
qed

text \<open>The masks and priors of a foundation genome (\<open>genome.rs\<close>).\<close>

definition mask_of_route :: "N2048FoundationRouteSpec \<Rightarrow> MacroConnectomeMask" where
  "mask_of_route route = \<lparr>
     mm_projection = (rs_source_lobe route, rs_target_lobe route), mm_enabled = True,
     mm_structural_growth_allowed = False \<rparr>"

definition masks_n2048_foundation_defaults :: "MacroConnectomeMask list" where
  "masks_n2048_foundation_defaults = map mask_of_route N2048_ROUTES"

definition density_of_route :: "N2048FoundationRouteSpec \<Rightarrow> SparseDensityPrior" where
  "density_of_route route =
     (let source = the (layout_region (rs_source_lobe route) n2048_lobe_layout);
          target = the (layout_region (rs_target_lobe route) n2048_lobe_layout);
          possible = f32_of_nat (unat (lr_len source) * unat (lr_len target))
      in \<lparr> sd_projection = (rs_source_lobe route, rs_target_lobe route),
           sd_density = f32_div (f32_of_nat (unat (rs_synapse_count route))) possible,
           sd_max_active_synapse_share =
             f32_div (f32_of_nat (unat (rs_synapse_count route))) (f32_of_nat (unat RECURRENT_SYNAPSE_COUNT)) \<rparr>)"

definition densities_n2048_foundation_defaults :: "SparseDensityPrior list" where
  "densities_n2048_foundation_defaults = map density_of_route N2048_ROUTES"

lemma route_fractions:
  "\<forall>route \<in> set N2048_ROUTES.
     (let possible = unat (lr_len (the (layout_region (rs_source_lobe route) n2048_lobe_layout)))
          * unat (lr_len (the (layout_region (rs_target_lobe route) n2048_lobe_layout)))
      in 0 < unat (rs_synapse_count route) \<and> unat (rs_synapse_count route) \<le> possible \<and> possible < 2 ^ 24
         \<and> unat (rs_synapse_count route) \<le> unat RECURRENT_SYNAPSE_COUNT)"
  by (simp add: N2048_ROUTES_def route_spec_def layout_region_def n2048_lobe_layout_def foundation_lengths_def
      region_enabled_simps RECURRENT_SYNAPSE_COUNT_def)

lemma default_density_positive:
  assumes "route \<in> set N2048_ROUTES"
  shows "\<not> f32_le (sd_density (density_of_route route)) f32_zero"
    and "\<not> f32_le (sd_max_active_synapse_share (density_of_route route)) f32_zero"
proof -
  let ?possible = "unat (lr_len (the (layout_region (rs_source_lobe route) n2048_lobe_layout)))
          * unat (lr_len (the (layout_region (rs_target_lobe route) n2048_lobe_layout)))"
  have b: "0 < unat (rs_synapse_count route)" "unat (rs_synapse_count route) \<le> ?possible" "?possible < 2 ^ 24"
    "unat (rs_synapse_count route) \<le> unat RECURRENT_SYNAPSE_COUNT"
    using bspec [OF route_fractions assms] unfolding Let_def by blast+
  have "0 < ?possible" using b(1,2) by linarith
  from f32_count_quotient_unit(3) [OF this b(3,2)] b(1)
  show "\<not> f32_le (sd_density (density_of_route route)) f32_zero"
    by (simp only: density_of_route_def Let_def SparseDensityPrior.simps)
  have "0 < unat RECURRENT_SYNAPSE_COUNT" "unat RECURRENT_SYNAPSE_COUNT < 2 ^ 24" by (simp_all add: RECURRENT_SYNAPSE_COUNT_def)
  from f32_count_quotient_unit(3) [OF this b(4)] b(1)
  show "\<not> f32_le (sd_max_active_synapse_share (density_of_route route)) f32_zero"
    by (simp only: density_of_route_def Let_def SparseDensityPrior.simps)
qed

lemma f32_count_quotient_at_most_one:
  assumes "0 < d" and "d < 2 ^ 24" and "n \<le> d"
  shows "f32_le (f32_div (f32_of_nat n) (f32_of_nat d)) f32_one"
proof -
  have "f32_bounded 149 (f32_round False (n * 2 ^ 149) d)"
    using assms by (intro f32_round_bounded) (simp_all add: mult.commute)
  note b = this
  have "f32_scaled (f32_round False (n * 2 ^ 149) d) = int (f32_magnitude (f32_round False (n * 2 ^ 149) d))"
    by (simp add: f32_scaled_def f32_round_fields)
  then show ?thesis
    unfolding f32_count_quotient [OF assms] f32_le_def f32_consts
    using b f32_bounded_not_nan [OF b] by (auto simp: f32_bounded_def f32_is_nan_def f32_one_def f32_exponent_def)
qed

lemma default_density_at_most_one:
  assumes "d \<in> set densities_n2048_foundation_defaults"
  shows "f32_le (sd_density d) f32_one"
proof -
  obtain route where route: "route \<in> set N2048_ROUTES" "d = density_of_route route"
    using assms by (auto simp: densities_n2048_foundation_defaults_def)
  let ?possible = "unat (lr_len (the (layout_region (rs_source_lobe route) n2048_lobe_layout)))
          * unat (lr_len (the (layout_region (rs_target_lobe route) n2048_lobe_layout)))"
  have b: "0 < unat (rs_synapse_count route)" "unat (rs_synapse_count route) \<le> ?possible" "?possible < 2 ^ 24"
    using bspec [OF route_fractions route(1)] unfolding Let_def by blast+
  have "0 < ?possible" using b(1,2) by linarith
  from f32_count_quotient_at_most_one [OF this b(3,2)] show ?thesis
    by (simp only: route(2) density_of_route_def Let_def SparseDensityPrior.simps)
qed

text \<open>Collecting rows whose keys are all new.\<close>

abbreviation bt_collect :: "('k::linorder \<times> 'v) list \<Rightarrow> ('k, 'v) btree_map \<Rightarrow> ('k, 'v) btree_map" where
  "bt_collect \<equiv> fold (\<lambda>(k, v). bt_insert k v)"

lemma collect_masks_new:
  assumes "\<forall>x \<in> set xs. canonical_route (mm_projection x) \<noteq> None \<and> \<not> mm_structural_growth_allowed x"
    and "distinct (map (\<lambda>x. key_raw (mm_projection x)) xs)" and "\<forall>x \<in> set xs. bt_get m (key_raw (mm_projection x)) = None"
    and "bt_ordered m"
  shows "collect_masks xs m = Inr (bt_collect (map (\<lambda>x. (key_raw (mm_projection x), x)) xs) m)"
  using assms
proof (induction xs arbitrary: m)
  case (Cons x xs)
  have "\<forall>y \<in> set xs. bt_get (bt_insert (key_raw (mm_projection x)) x m) (key_raw (mm_projection y)) = None"
    unfolding bt.lookup_update [OF Cons.prems(4)] using Cons.prems(2,3) by (auto simp: image_iff)
  then show ?case using Cons bt_insert_ordered [OF Cons.prems(4)] by simp
qed simp

lemma collect_densities_new:
  assumes "\<forall>x \<in> set xs. \<not> f32_le (sd_density x) f32_zero \<and> \<not> f32_le (sd_max_active_synapse_share x) f32_zero
      \<and> (\<exists>y. bt_get masks (key_raw (sd_projection x)) = Some y \<and> mm_enabled y)"
    and "distinct (map (\<lambda>x. key_raw (sd_projection x)) xs)" and "\<forall>x \<in> set xs. bt_get m (key_raw (sd_projection x)) = None"
    and "bt_ordered m"
  shows "collect_densities masks xs m = Inr (bt_collect (map (\<lambda>x. (key_raw (sd_projection x), x)) xs) m)"
  using assms
proof (induction xs arbitrary: m)
  case (Cons x xs)
  have "\<forall>y \<in> set xs. bt_get (bt_insert (key_raw (sd_projection x)) x m) (key_raw (sd_projection y)) = None"
    unfolding bt.lookup_update [OF Cons.prems(4)] using Cons.prems(2,3) by (auto simp: image_iff)
  then show ?case using Cons bt_insert_ordered [OF Cons.prems(4)] by (auto simp: Let_def)
qed simp

text \<open>What the defaults collect to.\<close>

lemma route_keys_distinct: "distinct (map (\<lambda>route. key_raw (spec_pair route)) N2048_ROUTES)"
  by (simp add: N2048_ROUTES_def route_spec_def spec_pair_def key_raw_def)

lemma route_is_canonical: "route \<in> set N2048_ROUTES \<Longrightarrow> canonical_route (spec_pair route) \<noteq> None"
  by (auto simp: canonical_route_def spec_pair_def find_None_iff split: option.split)

abbreviation keyed :: "(N2048FoundationRouteSpec \<Rightarrow> 'v) \<Rightarrow> (route_key \<times> 'v) list" where
  "keyed f \<equiv> map (\<lambda>route. (key_raw (spec_pair route), f route)) N2048_ROUTES"

lemma collected_defaults:
  fixes f :: "N2048FoundationRouteSpec \<Rightarrow> 'v"
  shows "length (bt_collect (keyed f) []) = 15"
    and "route \<in> set N2048_ROUTES \<Longrightarrow> bt_get (bt_collect (keyed f) []) (key_raw (spec_pair route)) = Some (f route)"
    and "bt_get (bt_collect (keyed f) []) k \<noteq> None \<longleftrightarrow> k \<in> (\<lambda>route. key_raw (spec_pair route)) ` set N2048_ROUTES"
proof -
  have d: "distinct (map fst (keyed f))" using route_keys_distinct by (simp add: comp_def)
  have o: "bt_ordered (bt_collect (keyed f) [])" by (rule bt.ordered_fold) (simp add: bt_ordered_def)
  have get: "bt_get (bt_collect (keyed f) []) = map_of (keyed f)"
    using bt.lookup_fold [OF bt.ordered_empty d] by simp
  show "bt_get (bt_collect (keyed f) []) (key_raw (spec_pair route)) = Some (f route)" if "route \<in> set N2048_ROUTES"
    unfolding get using that by (intro map_of_is_SomeI [OF d]) auto
  show k: "bt_get (bt_collect (keyed f) []) k \<noteq> None \<longleftrightarrow> k \<in> (\<lambda>route. key_raw (spec_pair route)) ` set N2048_ROUTES"
    unfolding get by (simp add: map_of_eq_None_iff image_image)
  have "fst ` set (bt_collect (keyed f) []) = (\<lambda>route. key_raw (spec_pair route)) ` set N2048_ROUTES"
    using bt.entries_of_list [OF d] by (simp add: image_image)
  then have "length (bt_collect (keyed f) []) = card ((\<lambda>route. key_raw (spec_pair route)) ` set N2048_ROUTES)"
    using bt.length_entries [OF o] by simp
  then show "length (bt_collect (keyed f) []) = 15"
    using distinct_card [OF route_keys_distinct] by (simp add: route_tables(1))
qed

lemma keyed_rows:
  "map (\<lambda>x. (key_raw (mm_projection x), x)) masks_n2048_foundation_defaults = keyed mask_of_route"
  "map (\<lambda>x. (key_raw (sd_projection x), x)) densities_n2048_foundation_defaults = keyed density_of_route"
  by (simp_all add: masks_n2048_foundation_defaults_def densities_n2048_foundation_defaults_def mask_of_route_def
      density_of_route_def spec_pair_def Let_def)

lemma default_masks_collect: "collect_masks masks_n2048_foundation_defaults [] = Inr (bt_collect (keyed mask_of_route) [])"
  unfolding keyed_rows(1) [symmetric]
proof (rule collect_masks_new)
  show "distinct (map (\<lambda>x. key_raw (mm_projection x)) masks_n2048_foundation_defaults)"
    using route_keys_distinct by (simp add: masks_n2048_foundation_defaults_def mask_of_route_def spec_pair_def comp_def)
  show "\<forall>x \<in> set masks_n2048_foundation_defaults. canonical_route (mm_projection x) \<noteq> None \<and> \<not> mm_structural_growth_allowed x"
    using route_is_canonical by (auto simp: masks_n2048_foundation_defaults_def mask_of_route_def spec_pair_def)
qed (simp_all add: bt_ordered_def)

lemma default_densities_collect:
  "collect_densities (bt_collect (keyed mask_of_route) []) densities_n2048_foundation_defaults [] = Inr (bt_collect (keyed density_of_route) [])"
  unfolding keyed_rows(2) [symmetric]
proof (rule collect_densities_new)
  have proj: "sd_projection (density_of_route route) = spec_pair route" for route by (simp add: density_of_route_def spec_pair_def Let_def)
  show "distinct (map (\<lambda>x. key_raw (sd_projection x)) densities_n2048_foundation_defaults)"
    using route_keys_distinct by (simp add: densities_n2048_foundation_defaults_def proj comp_def)
  have "mm_enabled (mask_of_route route)" for route by (simp add: mask_of_route_def)
  then show "\<forall>x \<in> set densities_n2048_foundation_defaults. \<not> f32_le (sd_density x) f32_zero
      \<and> \<not> f32_le (sd_max_active_synapse_share x) f32_zero
      \<and> (\<exists>y. bt_get (bt_collect (keyed mask_of_route) []) (key_raw (sd_projection x)) = Some y \<and> mm_enabled y)"
    using default_density_positive collected_defaults(2) [where f = mask_of_route] by (auto simp: densities_n2048_foundation_defaults_def proj)
qed (simp_all add: bt_ordered_def)

lemma default_masks_match: "masks_match (bt_collect (keyed mask_of_route) []) (bt_collect (keyed density_of_route) []) = Inr ()"
proof -
  have "mm_enabled x \<and> bt_get (bt_collect (keyed density_of_route) []) k \<noteq> None"
    if "(k, x) \<in> set (bt_collect (keyed mask_of_route) [])" for k x
  proof -
    have "distinct (map fst (keyed mask_of_route))" using route_keys_distinct by (simp add: comp_def)
    from bt.entries_of_list [OF this] that obtain route where "route \<in> set N2048_ROUTES" "k = key_raw (spec_pair route)" "x = mask_of_route route"
      by auto
    then show ?thesis using collected_defaults(2) [of route density_of_route] by (simp add: mask_of_route_def)
  qed
  then show ?thesis by (auto simp: masks_match_def)
qed

text \<open>One frozen route.\<close>

lemma segments_succeed:
  assumes "list_all (segment_inside source target) segments"
  shows "\<exists>ss'. try_fold (compile_segment g spec density route_index source target) segments ss = Inr ss'
    \<and> length ss' = length ss + sum_list (map (unat \<circ> sg_synapse_count) segments)"
proof (rule try_fold_succeeds)
  fix ys sg zs and t :: "CompiledSynapse list"
  assume split: "segments = ys @ sg # zs" and t: "length t = length ss + sum_list (map (unat \<circ> sg_synapse_count) ys)"
  have "segment_inside source target sg" using assms split by simp
  then show "\<exists>t'. compile_segment g spec density route_index source target sg t = Inr t'
      \<and> length t' = length ss + sum_list (map (unat \<circ> sg_synapse_count) (ys @ [sg]))"
    using compile_segment_succeeds [of source target sg g spec density route_index t] t by auto
qed simp

definition route_row :: "PlacedProjection \<Rightarrow> LobeKind \<times> LobeKind \<times> u32" where
  "route_row p = (cp_source_lobe p, cp_target_lobe p, cp_synapse_len p)"

definition spec_row :: "N2048FoundationRouteSpec \<Rightarrow> LobeKind \<times> LobeKind \<times> u32" where
  "spec_row spec = (rs_source_lobe spec, rs_target_lobe spec, rs_synapse_count spec)"

lemma foundation_route_succeeds:
  fixes c :: Compilation
  defines "masks \<equiv> bt_collect (keyed mask_of_route) []" and "densities \<equiv> bt_collect (keyed density_of_route) []"
  assumes index: "index < 15" and spec: "spec = N2048_ROUTES ! index"
    and synapses: "length (co_synapses c) + unat (rs_synapse_count spec) \<le> 24576"
    and tiles: "unat (co_tile_total c) + unat (active_tiles_for (rs_synapse_count spec)) \<le> 96" "96 \<le> bc_max_active_tiles capacity"
  shows "\<exists>c'. compile_foundation_route g n2048_lobe_layout capacity masks densities (index, spec) c = Inr c'
    \<and> map route_row (co_projections c') = map route_row (co_projections c) @ [spec_row spec]
    \<and> length (co_synapses c') = length (co_synapses c) + unat (rs_synapse_count spec)
    \<and> unat (co_tile_total c') = unat (co_tile_total c) + unat (active_tiles_for (rs_synapse_count spec))"
proof -
  have m: "spec \<in> set N2048_ROUTES" using index spec route_tables(1) by simp
  have key: "key_raw (rs_source_lobe spec, rs_target_lobe spec) = key_raw (spec_pair spec)" by (simp add: spec_pair_def)
  let ?segments = "N2048_COORDINATE_SEGMENTS ! index"
  have segments: "n2048_coordinate_segments index = Inr ?segments" using index route_tables(2) by (simp add: n2048_coordinate_segments_def)
  obtain source target where
    regions: "enabled_region (rs_source_lobe spec) n2048_lobe_layout = Inr source" "enabled_region (rs_target_lobe spec) n2048_lobe_layout = Inr target"
    and inside: "list_all (segment_inside source target) ?segments"
    and sums: "sum_list (map sg_synapse_count ?segments) = rs_synapse_count spec"
      "sum_list (map (unat \<circ> sg_synapse_count) ?segments) = unat (rs_synapse_count spec)"
    using bspec [OF routes_ready, of index] index unfolding route_ready_def Let_def spec by auto
  have look: "layout_region (rs_source_lobe spec) n2048_lobe_layout = Some source" "layout_region (rs_target_lobe spec) n2048_lobe_layout = Some target"
    using regions by (auto simp: enabled_region_def split: option.splits if_splits)
  have density: "sd_density (density_of_route spec)
      = f32_div (f32_of_nat (unat (rs_synapse_count spec))) (f32_of_nat (unat (lr_len source) * unat (lr_len target)))"
    "sd_max_active_synapse_share (density_of_route spec)
      = f32_div (f32_of_nat (unat (rs_synapse_count spec))) (f32_of_nat (unat RECURRENT_SYNAPSE_COUNT))"
    by (simp_all add: density_of_route_def look Let_def)
  have mask: "mm_enabled (mask_of_route spec)" "\<not> mm_structural_growth_allowed (mask_of_route spec)"
    by (simp_all add: mask_of_route_def)
  obtain ss where ss: "try_fold (compile_segment g spec (density_of_route spec) (word_of_nat index) source target) ?segments (co_synapses c) = Inr ss"
    "length ss = length (co_synapses c) + unat (rs_synapse_count spec)"
    using segments_succeed [OF inside, of g spec "density_of_route spec" "word_of_nat index" "co_synapses c"] sums(2) by auto
  have ri: "try_of_len index = Some (word_of_nat index :: u16)" using index by (simp add: try_of_len_def)
  have start: "try_of_len (length (co_synapses c)) = Some (word_of_nat (length (co_synapses c)) :: u32)"
    and end': "try_of_len (length ss) = Some (word_of_nat (length ss) :: u32)"
    using synapses ss(2) by (simp_all add: try_of_len_def)
  have len: "word_of_nat (length ss) - word_of_nat (length (co_synapses c)) = rs_synapse_count spec" by (simp add: ss(2))
  have total: "checked_add (co_tile_total c) (active_tiles_for (rs_synapse_count spec))
      = Some (co_tile_total c + active_tiles_for (rs_synapse_count spec))"
    using tiles(1) by (simp add: checked_add_def)
  have used: "unat (co_tile_total c + active_tiles_for (rs_synapse_count spec)) = unat (co_tile_total c) + unat (active_tiles_for (rs_synapse_count spec))"
    using tiles(1) by (intro unat_plus_no_overflow) simp
  have "\<not> bc_max_active_tiles capacity < co_tile_total c + active_tiles_for (rs_synapse_count spec)"
    using used tiles by (simp add: not_less word_le_nat_alt)
  then have "compile_foundation_route g n2048_lobe_layout capacity masks densities (index, spec) c
      = Inr (close_route (word_of_nat index) (route_mask_of spec) (word_of_nat (length (co_synapses c))) (active_tiles_for (rs_synapse_count spec)) ss
          (rs_synapse_count spec) (c\<lparr>co_tile_total := co_tile_total c + active_tiles_for (rs_synapse_count spec)\<rparr>))"
    unfolding compile_foundation_route_def masks_def densities_def prod.case key Let_def
    by (simp add: collected_defaults(2) [OF m] mask regions segments ri start end' len total sums(1) ss(1) density)
  then show ?thesis using ss(2) used
    by (simp add: close_route_def route_row_def spec_row_def route_mask_of_def routing_mask_def projection_new_def)
qed

lemma route_totals:
  "sum_list (map (unat \<circ> rs_synapse_count) N2048_ROUTES) = 24576"
  "sum_list (map (\<lambda>spec. unat (active_tiles_for (rs_synapse_count spec))) N2048_ROUTES) = 96"
  by (simp_all add: N2048_ROUTES_def route_spec_def active_tiles_for_def div_ceil_def)

lemma sum_prefix: "xs = ys @ x # zs \<Longrightarrow> sum_list (map f ys) + f x \<le> (sum_list (map f xs) :: nat)"
  by simp

lemma foundation_routes_succeed:
  assumes "96 \<le> bc_max_active_tiles capacity"
  shows "\<exists>c. try_fold (compile_foundation_route g n2048_lobe_layout capacity (bt_collect (keyed mask_of_route) [])
        (bt_collect (keyed density_of_route) [])) (enumerate 0 N2048_ROUTES) empty_compilation = Inr c
    \<and> map route_row (co_projections c) = map (spec_row \<circ> snd) (enumerate 0 N2048_ROUTES)
    \<and> length (co_synapses c) = sum_list (map (unat \<circ> rs_synapse_count \<circ> snd) (enumerate 0 N2048_ROUTES))
    \<and> unat (co_tile_total c) = sum_list (map ((\<lambda>spec. unat (active_tiles_for (rs_synapse_count spec))) \<circ> snd) (enumerate 0 N2048_ROUTES))"
proof (rule try_fold_succeeds)
  fix ys :: "(nat \<times> N2048FoundationRouteSpec) list" and item zs and t :: Compilation
  assume split: "enumerate 0 N2048_ROUTES = ys @ item # zs"
    and IH: "map route_row (co_projections t) = map (spec_row \<circ> snd) ys
      \<and> length (co_synapses t) = sum_list (map (unat \<circ> rs_synapse_count \<circ> snd) ys)
      \<and> unat (co_tile_total t) = sum_list (map ((\<lambda>spec. unat (active_tiles_for (rs_synapse_count spec))) \<circ> snd) ys)"
  obtain i spec where item: "item = (i, spec)" by (cases item)
  note at = enumerate_split [OF split [unfolded item]]
  have "length (map snd ys) < length N2048_ROUTES" "spec = N2048_ROUTES ! length (map snd ys)"
    unfolding at(2) by (simp_all add: nth_append)
  then have i: "i < 15" "spec = N2048_ROUTES ! i" using at(1) route_tables(1) by simp_all
  have "length (co_synapses t) + unat (rs_synapse_count spec) \<le> 24576"
    using sum_prefix [OF at(2), of "unat \<circ> rs_synapse_count"] IH unfolding route_totals by (simp add: comp_def)
  moreover have "unat (co_tile_total t) + unat (active_tiles_for (rs_synapse_count spec)) \<le> 96"
    using sum_prefix [OF at(2), of "\<lambda>spec. unat (active_tiles_for (rs_synapse_count spec))"] IH unfolding route_totals by (simp add: comp_def)
  ultimately show "\<exists>t'. compile_foundation_route g n2048_lobe_layout capacity (bt_collect (keyed mask_of_route) [])
        (bt_collect (keyed density_of_route) []) item t = Inr t'
      \<and> map route_row (co_projections t') = map (spec_row \<circ> snd) (ys @ [item])
      \<and> length (co_synapses t') = sum_list (map (unat \<circ> rs_synapse_count \<circ> snd) (ys @ [item]))
      \<and> unat (co_tile_total t') = sum_list (map ((\<lambda>spec. unat (active_tiles_for (rs_synapse_count spec))) \<circ> snd) (ys @ [item]))"
    using foundation_route_succeeds [OF i _ _ assms, of t g] IH unfolding item by auto
qed (simp add: empty_compilation_def)

lemma foundation_compiles:
  assumes "bg_macro_connectome_masks g = masks_n2048_foundation_defaults"
    and "bg_sparse_density_priors g = densities_n2048_foundation_defaults"
    and "validate_alpha_keys g = Inr ()"
    and "bc_id capacity = N2048_ID" and "24576 \<le> bc_max_recurrent_synapses capacity" and "96 \<le> bc_max_active_tiles capacity"
  shows "\<exists>c. compile_recurrent g n2048_lobe_layout capacity = Inr c
    \<and> map (\<lambda>p. (cp_source_lobe p, cp_target_lobe p, cp_synapse_len p)) (co_projections c)
        = map (\<lambda>spec. (rs_source_lobe spec, rs_target_lobe spec, rs_synapse_count spec)) N2048_ROUTES
    \<and> length (co_synapses c) = 24576 \<and> co_tile_total c = 96"
proof -
  obtain c where c: "try_fold (compile_foundation_route g n2048_lobe_layout capacity (bt_collect (keyed mask_of_route) [])
        (bt_collect (keyed density_of_route) [])) (enumerate 0 N2048_ROUTES) empty_compilation = Inr c"
    and rows: "map route_row (co_projections c) = map (spec_row \<circ> snd) (enumerate 0 N2048_ROUTES)"
    and n: "length (co_synapses c) = sum_list (map (unat \<circ> rs_synapse_count \<circ> snd) (enumerate 0 N2048_ROUTES))"
    and tiles: "unat (co_tile_total c) = sum_list (map ((\<lambda>spec. unat (active_tiles_for (rs_synapse_count spec))) \<circ> snd) (enumerate 0 N2048_ROUTES))"
    using foundation_routes_succeed [OF assms(6)] by blast
  have n': "length (co_synapses c) = 24576" using n unfolding map_map [symmetric] by (simp add: route_totals(1) [unfolded comp_def] comp_def)
  have "unat (co_tile_total c) = 96" using tiles unfolding map_map [symmetric] by (simp add: route_totals(2))
  then have "co_tile_total c = 96" by (simp add: word_unat_eq_iff)
  moreover have "compile_recurrent g n2048_lobe_layout capacity = Inr c"
    using assms(4,5) n' c
    by (simp add: compile_recurrent_def assms(1-3) default_masks_collect default_densities_collect default_masks_match
        compile_n2048_foundation_def collected_defaults(1) route_tables(1) RECURRENT_SYNAPSE_COUNT_def not_less)
  ultimately show ?thesis using rows n' unfolding map_map [symmetric] by (simp add: route_row_def [abs_def] spec_row_def [abs_def])
qed

text \<open>The foundation genome compiles: whatever its seed and its alpha values, if its alpha keys are
  admitted and the brain class has room for 24576 synapses and 96 tiles, compiling its default masks and
  density priors on the frozen layout succeeds, gives the fifteen frozen routes in order, each with
  exactly its number of synapses, and uses 96 tiles.\<close>

lemma foundation_genome_compiles:
  assumes "bg_macro_connectome_masks g = masks_n2048_foundation_defaults"
    and "bg_sparse_density_priors g = densities_n2048_foundation_defaults"
    and "validate_alpha_keys g = Inr ()"
    and "bc_id capacity = N2048_ID" and "24576 \<le> bc_max_recurrent_synapses capacity" and "96 \<le> bc_max_active_tiles capacity"
  shows "\<exists>c. compile_recurrent g n2048_lobe_layout capacity = Inr c
    \<and> map (\<lambda>p. (cp_source_lobe p, cp_target_lobe p, cp_synapse_len p)) (co_projections c)
        = map (\<lambda>spec. (rs_source_lobe spec, rs_target_lobe spec, rs_synapse_count spec)) N2048_ROUTES
    \<and> length (co_synapses c) = 24576 \<and> co_tile_total c = 96"
  using assms by (rule foundation_compiles)

end
