(* ===== verification/Budgets.thy ===== *)
theory Budgets
  imports Topology
begin

text \<open>
  \<open>crates/alife_core/src/phenotype/budgets.rs\<close>: the budget receipt of a compiled brain and its check
  against the brain class, with the sums \<open>construction.rs\<close> builds it from. An accepted receipt adds up in
  the integers, although every field is a \<open>u32\<close> and the builder's sums wrap.
\<close>

section \<open>Receipts\<close>

record GlobalPhenotypeBudgetReceipt =
  gb_neuron_count :: u32
  gb_active_tiles :: u32
  gb_recurrent_synapses :: u32
  gb_action_decoder_synapses :: u32
  gb_memory_decoder_synapses :: u32
  gb_total_synapses :: u32
  gb_immutable_payload_words :: u32
  gb_candidate_capacity :: u16
  gb_object_slot_capacity :: u16
  gb_memory_context_capacity :: u16
  gb_decoder_input_lanes :: u16
  gb_replay_event_capacity :: u32
  gb_replay_eligibility_sample_capacity :: u32
  gb_replay_capture_synapse_count :: u32

definition checked_synapse_sum :: "u32 \<Rightarrow> u32 \<Rightarrow> u32 \<Rightarrow> u32 contract" where
  "checked_synapse_sum recurrent action memory =
     ok_or PhenotypeCompile (Option.bind (checked_add recurrent action) (\<lambda>s. checked_add s memory))"

definition budget_within :: "BrainExecutionBudget \<Rightarrow> GlobalPhenotypeBudgetReceipt \<Rightarrow> bool" where
  "budget_within execution g \<longleftrightarrow>
     (let total_synapses = checked_synapse_sum (gb_recurrent_synapses g) (gb_action_decoder_synapses g)
            (gb_memory_decoder_synapses g);
          replay_capture_limit = (if gb_replay_event_capacity g = 0 then 0
            else gb_replay_eligibility_sample_capacity g div gb_replay_event_capacity g)
      in gb_neuron_count g \<noteq> 0
         \<and> gb_neuron_count g \<le> xb_max_neurons execution
         \<and> gb_active_tiles g \<le> xb_max_active_tiles execution
         \<and> gb_recurrent_synapses g \<le> xb_max_recurrent_synapses execution
         \<and> gb_action_decoder_synapses g \<le> xb_max_action_decoder_synapses execution
         \<and> gb_memory_decoder_synapses g \<le> xb_max_memory_decoder_synapses execution
         \<and> total_synapses = Inr (gb_total_synapses g)
         \<and> gb_total_synapses g \<le> xb_max_total_synapses execution
         \<and> gb_immutable_payload_words g = gb_total_synapses g
         \<and> gb_candidate_capacity g \<le> xb_max_candidates execution
         \<and> gb_object_slot_capacity g \<le> xb_max_object_slots execution
         \<and> gb_memory_context_capacity g \<le> xb_max_memory_context_records execution
         \<and> gb_decoder_input_lanes g \<le> xb_max_decoder_input_lanes execution
         \<and> gb_replay_event_capacity g \<noteq> 0
         \<and> gb_replay_event_capacity g \<le> xb_max_replay_events execution
         \<and> gb_replay_eligibility_sample_capacity g \<le> xb_max_replay_eligibility_samples execution
         \<and> gb_replay_capture_synapse_count g \<noteq> 0
         \<and> gb_replay_capture_synapse_count g \<le> gb_total_synapses g
         \<and> gb_replay_capture_synapse_count g \<le> replay_capture_limit)"

record CompiledBudgets =
  cb_capacity_class_id :: u16
  cb_execution_abi_digest :: digest4
  cb_routes :: "RouteBudgetReceipt list"
  cb_global :: GlobalPhenotypeBudgetReceipt

definition sum_route_synapses :: "CompiledBudgets \<Rightarrow> u32 contract" where
  "sum_route_synapses b =
     try_fold (\<lambda>route s. and_then (ok_or PhenotypeCompile (receipt_total_synapses route))
         (\<lambda>t. ok_or PhenotypeCompile (checked_add s t)))
       (cb_routes b) 0"

section \<open>Validation\<close>

record BudgetTotals =
  bt_active_tiles :: u32
  bt_recurrent :: u32
  bt_action :: u32
  bt_memory :: u32
  bt_payload :: u32

definition no_totals :: BudgetTotals where
  "no_totals = \<lparr> bt_active_tiles = 0, bt_recurrent = 0, bt_action = 0, bt_memory = 0, bt_payload = 0 \<rparr>"

definition populated_categories :: "RouteBudgetReceipt \<Rightarrow> nat" where
  "populated_categories route =
     length (filter id [rbr_recurrent_synapses route \<noteq> 0, rbr_action_decoder_synapses route \<noteq> 0,
       rbr_memory_decoder_synapses route \<noteq> 0])"

definition add_route :: "nat \<times> RouteBudgetReceipt \<Rightarrow> BudgetTotals \<Rightarrow> BudgetTotals contract" where
  "add_route item t = (case item of (index, route) \<Rightarrow>
     and_then (ok_or PhenotypeCompile (try_of_len index)) (\<lambda>i.
       if rbr_route_index route \<noteq> i \<or> \<not> within_ceiling route then Inl PhenotypeCompile
       else if populated_categories route \<noteq> 1 then Inl PhenotypeCompile
       else
         and_then (ok_or PhenotypeCompile (checked_add (bt_active_tiles t) (rbr_active_tiles route))) (\<lambda>tiles.
         and_then (ok_or PhenotypeCompile (checked_add (bt_recurrent t) (rbr_recurrent_synapses route))) (\<lambda>recurrent.
         and_then (ok_or PhenotypeCompile (checked_add (bt_action t) (rbr_action_decoder_synapses route))) (\<lambda>action.
         and_then (ok_or PhenotypeCompile (checked_add (bt_memory t) (rbr_memory_decoder_synapses route))) (\<lambda>memory.
         and_then (ok_or PhenotypeCompile (checked_add (bt_payload t) (rbr_immutable_payload_words route))) (\<lambda>payload.
           Inr \<lparr> bt_active_tiles = tiles, bt_recurrent = recurrent, bt_action = action, bt_memory = memory,
             bt_payload = payload \<rparr>)))))))"

definition budgets_validate_against :: "BrainCapacityClass \<Rightarrow> CompiledBudgets \<Rightarrow> unit contract" where
  "budgets_validate_against capacity b =
     and_then (capacity_validate capacity) (\<lambda>_.
       if cb_capacity_class_id b \<noteq> bc_id capacity \<or> cb_execution_abi_digest b \<noteq> capacity_digest capacity
          \<or> cb_routes b = []
       then Inl PhenotypeCompile
       else
         and_then (try_fold add_route (enumerate 0 (cb_routes b)) no_totals) (\<lambda>t.
           let g = cb_global b; execution = bc_execution capacity
           in if gb_neuron_count g \<noteq> xb_max_neurons execution
                 \<or> gb_active_tiles g \<noteq> bt_active_tiles t
                 \<or> gb_recurrent_synapses g \<noteq> bt_recurrent t
                 \<or> gb_action_decoder_synapses g \<noteq> bt_action t
                 \<or> gb_memory_decoder_synapses g \<noteq> bt_memory t
                 \<or> gb_immutable_payload_words g \<noteq> bt_payload t
                 \<or> \<not> budget_within execution g
              then Inl PhenotypeCompile
              else and_then (sum_route_synapses b) (\<lambda>s.
                if s \<noteq> gb_total_synapses g then Inl PhenotypeCompile else Inr ())))"

section \<open>Assembly (construction.rs)\<close>

text \<open>The sums of \<open>compile_inner\<close> wrap; \<open>decoder_input_lanes\<close> and the number of captured synapses come from
  the decoder and learning plans.\<close>

definition assemble_budgets ::
  "BrainCapacityClass \<Rightarrow> RouteBudgetReceipt list \<Rightarrow> u16 \<Rightarrow> nat \<Rightarrow> CompiledBudgets contract" where
  "assemble_budgets capacity receipts decoder_input_lanes captured =
     (let recurrent = sum_list (map rbr_recurrent_synapses receipts);
          action = sum_list (map rbr_action_decoder_synapses receipts);
          memory = sum_list (map rbr_memory_decoder_synapses receipts);
          active_tiles = sum_list (map rbr_active_tiles receipts);
          execution = bc_execution capacity
      in and_then (ok_or PhenotypeCompile (Option.bind (checked_add recurrent action) (\<lambda>v. checked_add v memory))) (\<lambda>t.
         and_then (ok_or PhenotypeCompile (try_of_len captured)) (\<lambda>count.
           let budgets = \<lparr>
                 cb_capacity_class_id = bc_id capacity,
                 cb_execution_abi_digest = capacity_digest capacity,
                 cb_routes = receipts,
                 cb_global = \<lparr>
                   gb_neuron_count = xb_max_neurons execution,
                   gb_active_tiles = active_tiles,
                   gb_recurrent_synapses = recurrent,
                   gb_action_decoder_synapses = action,
                   gb_memory_decoder_synapses = memory,
                   gb_total_synapses = t,
                   gb_immutable_payload_words = t,
                   gb_candidate_capacity = xb_max_candidates execution,
                   gb_object_slot_capacity = xb_max_object_slots execution,
                   gb_memory_context_capacity = xb_max_memory_context_records execution,
                   gb_decoder_input_lanes = decoder_input_lanes,
                   gb_replay_event_capacity = xb_max_replay_events execution,
                   gb_replay_eligibility_sample_capacity = xb_max_replay_eligibility_samples execution,
                   gb_replay_capture_synapse_count = count \<rparr> \<rparr>
           in and_then (budgets_validate_against capacity budgets) (\<lambda>_. Inr budgets))))"

end
