(* ===== verification/Budgets_Proofs.thy ===== *)
theory Budgets_Proofs
  imports Budgets
begin

text \<open>
  The receipt of a compiled brain is accepted exactly when its routes fit the brain class in the natural
  numbers: the wrapping sums of the builder and the checked sums of the validation agree with them.
\<close>

section \<open>Capacity classes\<close>

lemma capacity_ids:
  "bc_id capacity_n512 = 1" "bc_id capacity_n1024 = 2" "bc_id capacity_n2048 = 3" "bc_id capacity_n4096_research = 4"
  by (simp_all add: capacity_n512_def capacity_n1024_def capacity_n2048_def capacity_n4096_research_def Let_def
      N512_ID_def N1024_ID_def N2048_ID_def N4096_RESEARCH_ID_def)

lemma supported_for_id_Inr:
  "supported_for_id i = Inr c \<longleftrightarrow> c \<in> set supported_classes \<and> bc_id c = i"
  by (auto simp: supported_for_id_def production_for_id_def supported_classes_def capacity_ids
      N512_ID_def N1024_ID_def N2048_ID_def N4096_RESEARCH_ID_def)

lemma capacity_validate_iff: "capacity_validate c = Inr () \<longleftrightarrow> c \<in> set supported_classes"
proof
  assume "c \<in> set supported_classes"
  then have "supported_for_id (bc_id c) = Inr c" by (simp add: supported_for_id_Inr)
  moreover have "list_ex (\<lambda>c'. bc_execution c' = bc_execution c) supported_classes"
    using \<open>c \<in> set supported_classes\<close> by (auto simp: list_ex_iff)
  ultimately show "capacity_validate c = Inr ()" by (simp add: capacity_validate_def budget_validate_def)
qed (auto simp: capacity_validate_def supported_for_id_Inr split: if_splits)

lemma capacity_deserialize_iff:
  "capacity_deserialize i x = Inr c \<longleftrightarrow> c \<in> set supported_classes \<and> bc_id c = i \<and> bc_execution c = x"
proof -
  have "capacity_deserialize i x = Inr c \<longleftrightarrow> supported_for_id i = Inr c \<and> bc_execution c = x"
    by (cases "supported_for_id i") (auto simp: capacity_deserialize_def)
  then show ?thesis by (simp add: supported_for_id_Inr)
qed

text \<open>C29. A brain class read from a save is one of the four classes of this build, with exactly the id and
  the budget of the wire, and every such class is read back; a class that was not read so is refused by
  validation too.\<close>

theorem capacity_admits_canonical_classes:
  "(capacity_deserialize i x = Inr c \<longleftrightarrow> capacity_validate c = Inr () \<and> bc_id c = i \<and> bc_execution c = x)
   \<and> (capacity_validate c = Inr () \<longleftrightarrow> c \<in> {capacity_n512, capacity_n1024, capacity_n2048, capacity_n4096_research})"
  unfolding capacity_deserialize_iff capacity_validate_iff by (simp add: supported_classes_def)

section \<open>Sums\<close>

lemma unat_bound: "unat (w :: 'a::len word) < 2 ^ LENGTH('a)"
  by (rule unsigned_less)

lemma checked_add_iff: "checked_add a b = Some c \<longleftrightarrow> unat c = unat a + unat (b :: u32)"
proof
  assume "unat c = unat a + unat b"
  moreover have "unat c < 2 ^ 32" using unat_bound [of c] by simp
  ultimately show "checked_add a b = Some c"
    by (simp add: checked_add_def word_unat_eq_iff unat_plus_no_overflow)
qed (rule checked_add_Some)

lemma sum_wraps: "sum_list (map f rs) = (word_of_nat (sum_list (map (unat \<circ> f) rs)) :: u32)"
  by (induction rs) simp_all

lemma try_of_len_iff: "try_of_len n = Some (w :: 'a::len word) \<longleftrightarrow> unat w = n"
proof
  assume "unat w = n"
  then show "try_of_len n = Some w" using unat_bound [of w] by (auto simp: try_of_len_def)
qed (auto simp: try_of_len_def unat_of_nat split: if_splits)

lemma receipt_total_iff:
  "receipt_total_synapses r = Some t \<longleftrightarrow>
     unat t = unat (rbr_recurrent_synapses r) + unat (rbr_action_decoder_synapses r) + unat (rbr_memory_decoder_synapses r)"
proof -
  have "(\<exists>s :: u32. unat s = x \<and> unat t = unat s + y) \<longleftrightarrow> unat t = x + y" for x y
  proof
    assume "unat t = x + y"
    then have "x < 2 ^ LENGTH(32)" using unat_bound [of t] by simp
    then have "unat (word_of_nat x :: u32) = x" by (simp add: unat_of_nat)
    then show "\<exists>s :: u32. unat s = x \<and> unat t = unat s + y" using \<open>unat t = x + y\<close> by (intro exI [of _ "word_of_nat x"]) simp
  qed auto
  then show ?thesis by (simp add: receipt_total_synapses_def bind_eq_Some_conv checked_add_iff)
qed

section \<open>The loop of the validation\<close>

definition route_ok :: "nat \<Rightarrow> RouteBudgetReceipt \<Rightarrow> bool" where
  "route_ok i r \<longleftrightarrow> unat (rbr_route_index r) = i \<and> within_ceiling r \<and> populated_categories r = 1"

definition totals_add :: "BudgetTotals \<Rightarrow> RouteBudgetReceipt list \<Rightarrow> BudgetTotals \<Rightarrow> bool" where
  "totals_add t rs t' \<longleftrightarrow>
     unat (bt_active_tiles t') = unat (bt_active_tiles t) + sum_list (map (unat \<circ> rbr_active_tiles) rs)
     \<and> unat (bt_recurrent t') = unat (bt_recurrent t) + sum_list (map (unat \<circ> rbr_recurrent_synapses) rs)
     \<and> unat (bt_action t') = unat (bt_action t) + sum_list (map (unat \<circ> rbr_action_decoder_synapses) rs)
     \<and> unat (bt_memory t') = unat (bt_memory t) + sum_list (map (unat \<circ> rbr_memory_decoder_synapses) rs)
     \<and> unat (bt_payload t') = unat (bt_payload t) + sum_list (map (unat \<circ> rbr_immutable_payload_words) rs)"

lemma add_route_iff: "add_route (i, r) t = Inr t' \<longleftrightarrow> route_ok i r \<and> totals_add t [r] t'"
  by (cases t') (auto simp: add_route_def route_ok_def totals_add_def checked_add_iff try_of_len_iff if_Inl_Inr)

lemma try_fold_Cons_Inr: "try_fold f (x # xs) s = Inr s' \<longleftrightarrow> (\<exists>t. f x s = Inr t \<and> try_fold f xs t = Inr s')"
  by simp

lemma totals_step:
  "(\<exists>u. totals_add t [r] u \<and> totals_add u rs t') \<longleftrightarrow> totals_add t (r # rs) t'"
proof
  assume a: "totals_add t (r # rs) t'"
  have lift: "\<exists>u :: u32. unat u = x \<and> unat w = unat u + y" if "unat (w :: u32) = x + y" for w x y
  proof -
    have "x < 2 ^ LENGTH(32)" using that unat_bound [of w] by simp
    then have "unat (word_of_nat x :: u32) = x" by (simp add: unat_of_nat)
    then show ?thesis using that by (intro exI [of _ "word_of_nat x"]) simp
  qed
  have eqs: "unat (bt_active_tiles t') = (unat (bt_active_tiles t) + unat (rbr_active_tiles r)) + sum_list (map (unat \<circ> rbr_active_tiles) rs)"
    "unat (bt_recurrent t') = (unat (bt_recurrent t) + unat (rbr_recurrent_synapses r)) + sum_list (map (unat \<circ> rbr_recurrent_synapses) rs)"
    "unat (bt_action t') = (unat (bt_action t) + unat (rbr_action_decoder_synapses r)) + sum_list (map (unat \<circ> rbr_action_decoder_synapses) rs)"
    "unat (bt_memory t') = (unat (bt_memory t) + unat (rbr_memory_decoder_synapses r)) + sum_list (map (unat \<circ> rbr_memory_decoder_synapses) rs)"
    "unat (bt_payload t') = (unat (bt_payload t) + unat (rbr_immutable_payload_words r)) + sum_list (map (unat \<circ> rbr_immutable_payload_words) rs)"
    using a by (simp_all add: totals_add_def)
  obtain a b c d e :: u32 where "unat a = unat (bt_active_tiles t) + unat (rbr_active_tiles r)"
      "unat (bt_active_tiles t') = unat a + sum_list (map (unat \<circ> rbr_active_tiles) rs)"
    "unat b = unat (bt_recurrent t) + unat (rbr_recurrent_synapses r)"
      "unat (bt_recurrent t') = unat b + sum_list (map (unat \<circ> rbr_recurrent_synapses) rs)"
    "unat c = unat (bt_action t) + unat (rbr_action_decoder_synapses r)"
      "unat (bt_action t') = unat c + sum_list (map (unat \<circ> rbr_action_decoder_synapses) rs)"
    "unat d = unat (bt_memory t) + unat (rbr_memory_decoder_synapses r)"
      "unat (bt_memory t') = unat d + sum_list (map (unat \<circ> rbr_memory_decoder_synapses) rs)"
    "unat e = unat (bt_payload t) + unat (rbr_immutable_payload_words r)"
      "unat (bt_payload t') = unat e + sum_list (map (unat \<circ> rbr_immutable_payload_words) rs)"
    using lift [OF eqs(1)] lift [OF eqs(2)] lift [OF eqs(3)] lift [OF eqs(4)] lift [OF eqs(5)] by blast
  then show "\<exists>u. totals_add t [r] u \<and> totals_add u rs t'"
    by (intro exI [of _ "\<lparr> bt_active_tiles = a, bt_recurrent = b, bt_action = c, bt_memory = d, bt_payload = e \<rparr>"])
      (simp add: totals_add_def)
qed (auto simp: totals_add_def)

lemma add_routes_iff:
  "try_fold add_route (enumerate n rs) t = Inr t' \<longleftrightarrow> (\<forall>k < length rs. route_ok (n + k) (rs ! k)) \<and> totals_add t rs t'"
proof (induction rs arbitrary: n t)
  case Nil
  have "totals_add t [] t' \<longleftrightarrow> t = t'" by (cases t; cases t') (auto simp: totals_add_def word_unat_eq_iff)
  then show ?case by simp
next
  case (Cons r rs)
  have "try_fold add_route (enumerate n (r # rs)) t = Inr t'
    \<longleftrightarrow> route_ok n r \<and> (\<forall>k < length rs. route_ok (Suc n + k) (rs ! k)) \<and> (\<exists>u. totals_add t [r] u \<and> totals_add u rs t')"
    unfolding enumerate_simps try_fold_Cons_Inr add_route_iff Cons.IH by blast
  also have "\<dots> \<longleftrightarrow> (\<forall>k < length (r # rs). route_ok (n + k) ((r # rs) ! k)) \<and> totals_add t (r # rs) t'"
    unfolding totals_step by (simp add: All_less_Suc2)
  finally show ?case .
qed

section \<open>Acceptance\<close>

text \<open>The budget of a brain in the natural numbers.\<close>

definition total_of :: "(RouteBudgetReceipt \<Rightarrow> u32) \<Rightarrow> RouteBudgetReceipt list \<Rightarrow> nat" where
  "total_of f rs = sum_list (map (unat \<circ> f) rs)"

definition receipts_fit :: "BrainCapacityClass \<Rightarrow> RouteBudgetReceipt list \<Rightarrow> u16 \<Rightarrow> nat \<Rightarrow> bool" where
  "receipts_fit capacity rs lanes captured \<longleftrightarrow>
     (let x = bc_execution capacity;
          recurrent = total_of rbr_recurrent_synapses rs; action = total_of rbr_action_decoder_synapses rs;
          memory = total_of rbr_memory_decoder_synapses rs
      in capacity \<in> set supported_classes \<and> rs \<noteq> [] \<and> (\<forall>k < length rs. route_ok k (rs ! k))
         \<and> total_of rbr_active_tiles rs \<le> unat (xb_max_active_tiles x)
         \<and> recurrent \<le> unat (xb_max_recurrent_synapses x)
         \<and> action \<le> unat (xb_max_action_decoder_synapses x)
         \<and> memory \<le> unat (xb_max_memory_decoder_synapses x)
         \<and> recurrent + action + memory \<le> unat (xb_max_total_synapses x)
         \<and> lanes \<le> xb_max_decoder_input_lanes x
         \<and> 0 < captured \<and> captured \<le> recurrent + action + memory
         \<and> captured \<le> unat (xb_max_replay_eligibility_samples x) div unat (xb_max_replay_events x))"

text \<open>What every supported class has.\<close>

lemma supported_limits:
  assumes "c \<in> set supported_classes"
  shows "xb_max_neurons (bc_execution c) \<noteq> 0" "xb_max_replay_events (bc_execution c) \<noteq> 0"
  using assms by (auto simp: supported_classes_def capacity_n512_def capacity_n1024_def capacity_n2048_def
      capacity_n4096_research_def budget_production_def Let_def)

lemma payload_of_routes:
  assumes "\<forall>k < length rs. route_ok k (rs ! k)"
  shows "total_of rbr_immutable_payload_words rs
    = total_of rbr_recurrent_synapses rs + total_of rbr_action_decoder_synapses rs + total_of rbr_memory_decoder_synapses rs"
proof -
  have "within_ceiling r" if "r \<in> set rs" for r using assms that by (auto simp: route_ok_def in_set_conv_nth)
  then have "map (unat \<circ> rbr_immutable_payload_words) rs
      = map (\<lambda>r. unat (rbr_recurrent_synapses r) + unat (rbr_action_decoder_synapses r) + unat (rbr_memory_decoder_synapses r)) rs"
    by (auto simp: within_ceiling_def receipt_total_iff)
  then show ?thesis unfolding total_of_def by (simp only: sum_list_addf comp_def)
qed

lemma sum_routes_iff:
  "try_fold (\<lambda>route s. and_then (ok_or PhenotypeCompile (receipt_total_synapses route)) (\<lambda>t. ok_or PhenotypeCompile (checked_add s t))) rs s = Inr s'
   \<longleftrightarrow> unat s' = unat s + (total_of rbr_recurrent_synapses rs + total_of rbr_action_decoder_synapses rs + total_of rbr_memory_decoder_synapses rs)"
proof (induction rs arbitrary: s)
  case Nil
  then show ?case by (auto simp: total_of_def word_unat_eq_iff)
next
  case (Cons r rs)
  let ?n = "unat (rbr_recurrent_synapses r) + unat (rbr_action_decoder_synapses r) + unat (rbr_memory_decoder_synapses r)"
  have key: "(\<exists>u :: u32. (\<exists>t :: u32. unat t = ?n \<and> unat u = unat s + unat t) \<and> unat s' = unat u + y) \<longleftrightarrow> unat s' = unat s + ?n + y" for y
  proof
    assume e: "unat s' = unat s + ?n + y"
    then have "?n < 2 ^ LENGTH(32)" "unat s + ?n < 2 ^ LENGTH(32)" using unat_bound [of s'] by simp_all
    then have "unat (word_of_nat ?n :: u32) = ?n" "unat (word_of_nat (unat s + ?n) :: u32) = unat s + ?n" by (simp_all only: unat_of_nat mod_less)
    then show "\<exists>u :: u32. (\<exists>t :: u32. unat t = ?n \<and> unat u = unat s + unat t) \<and> unat s' = unat u + y"
      using e by (intro exI [of _ "word_of_nat (unat s + ?n)"] conjI exI [of _ "word_of_nat ?n"]) (simp_all only:)
  qed auto
  let ?y = "total_of rbr_recurrent_synapses rs + total_of rbr_action_decoder_synapses rs + total_of rbr_memory_decoder_synapses rs"
  have "unat s + (total_of rbr_recurrent_synapses (r # rs) + total_of rbr_action_decoder_synapses (r # rs) + total_of rbr_memory_decoder_synapses (r # rs))
      = unat s + ?n + ?y" by (simp add: total_of_def)
  then show ?case by (simp only: try_fold_Cons_Inr and_then_Inr_iff ok_or_Inr_iff receipt_total_iff checked_add_iff Cons.IH key)
qed

lemma budgets_validate_iff:
  "budgets_validate_against capacity b = Inr () \<longleftrightarrow>
     capacity \<in> set supported_classes \<and> cb_capacity_class_id b = bc_id capacity \<and> cb_execution_abi_digest b = capacity_digest capacity
     \<and> cb_routes b \<noteq> [] \<and> (\<forall>k < length (cb_routes b). route_ok k (cb_routes b ! k))
     \<and> gb_neuron_count (cb_global b) = xb_max_neurons (bc_execution capacity)
     \<and> unat (gb_active_tiles (cb_global b)) = total_of rbr_active_tiles (cb_routes b)
     \<and> unat (gb_recurrent_synapses (cb_global b)) = total_of rbr_recurrent_synapses (cb_routes b)
     \<and> unat (gb_action_decoder_synapses (cb_global b)) = total_of rbr_action_decoder_synapses (cb_routes b)
     \<and> unat (gb_memory_decoder_synapses (cb_global b)) = total_of rbr_memory_decoder_synapses (cb_routes b)
     \<and> budget_within (bc_execution capacity) (cb_global b)" (is "?lhs \<longleftrightarrow> ?rhs")
proof -
  let ?g = "cb_global b"
  define ts where "ts = \<lparr> bt_active_tiles = gb_active_tiles ?g, bt_recurrent = gb_recurrent_synapses ?g, bt_action = gb_action_decoder_synapses ?g,
    bt_memory = gb_memory_decoder_synapses ?g, bt_payload = gb_immutable_payload_words ?g \<rparr>"
  have fold: "try_fold add_route (enumerate 0 (cb_routes b)) no_totals = Inr t \<longleftrightarrow> (\<forall>k < length (cb_routes b). route_ok k (cb_routes b ! k))
      \<and> unat (bt_active_tiles t) = total_of rbr_active_tiles (cb_routes b) \<and> unat (bt_recurrent t) = total_of rbr_recurrent_synapses (cb_routes b)
      \<and> unat (bt_action t) = total_of rbr_action_decoder_synapses (cb_routes b) \<and> unat (bt_memory t) = total_of rbr_memory_decoder_synapses (cb_routes b)
      \<and> unat (bt_payload t) = total_of rbr_immutable_payload_words (cb_routes b)" for t
    unfolding add_routes_iff by (simp add: totals_add_def no_totals_def total_of_def)
  have "?lhs \<longleftrightarrow> capacity \<in> set supported_classes \<and> cb_capacity_class_id b = bc_id capacity \<and> cb_execution_abi_digest b = capacity_digest capacity
      \<and> cb_routes b \<noteq> [] \<and> try_fold add_route (enumerate 0 (cb_routes b)) no_totals = Inr ts
      \<and> gb_neuron_count ?g = xb_max_neurons (bc_execution capacity) \<and> budget_within (bc_execution capacity) ?g
      \<and> sum_route_synapses b = Inr (gb_total_synapses ?g)"
    unfolding budgets_validate_against_def Let_def and_then_Inr_iff if_Inl_Inr capacity_validate_iff [symmetric] ts_def
    by (cases "capacity_validate capacity") (auto intro!: exI [of _ ts] simp: ts_def)
  also have "\<dots> \<longleftrightarrow> ?rhs"
  proof -
    have "budget_within (bc_execution capacity) ?g \<Longrightarrow>
        unat (gb_total_synapses ?g) = unat (gb_recurrent_synapses ?g) + unat (gb_action_decoder_synapses ?g) + unat (gb_memory_decoder_synapses ?g)
        \<and> gb_immutable_payload_words ?g = gb_total_synapses ?g"
      by (auto simp: budget_within_def Let_def checked_synapse_sum_def bind_eq_Some_conv checked_add_iff)
    then show ?thesis
      unfolding fold sum_route_synapses_def sum_routes_iff using payload_of_routes [of "cb_routes b"] by (auto simp: ts_def)
  qed
  finally show ?thesis .
qed

definition assembled :: "BrainCapacityClass \<Rightarrow> RouteBudgetReceipt list \<Rightarrow> u16 \<Rightarrow> u32 \<Rightarrow> u32 \<Rightarrow> CompiledBudgets" where
  "assembled capacity rs lanes t n = (let x = bc_execution capacity in \<lparr>
     cb_capacity_class_id = bc_id capacity, cb_execution_abi_digest = capacity_digest capacity, cb_routes = rs,
     cb_global = \<lparr>
       gb_neuron_count = xb_max_neurons x,
       gb_active_tiles = sum_list (map rbr_active_tiles rs),
       gb_recurrent_synapses = sum_list (map rbr_recurrent_synapses rs),
       gb_action_decoder_synapses = sum_list (map rbr_action_decoder_synapses rs),
       gb_memory_decoder_synapses = sum_list (map rbr_memory_decoder_synapses rs),
       gb_total_synapses = t, gb_immutable_payload_words = t,
       gb_candidate_capacity = xb_max_candidates x, gb_object_slot_capacity = xb_max_object_slots x,
       gb_memory_context_capacity = xb_max_memory_context_records x, gb_decoder_input_lanes = lanes,
       gb_replay_event_capacity = xb_max_replay_events x,
       gb_replay_eligibility_sample_capacity = xb_max_replay_eligibility_samples x,
       gb_replay_capture_synapse_count = n \<rparr> \<rparr>)"

lemma checked_sum3_iff:
  "Option.bind (checked_add a b) (\<lambda>s. checked_add s c) = Some t \<longleftrightarrow> unat t = unat a + unat b + unat (c :: u32)"
  using receipt_total_iff [of "\<lparr> rbr_route_index = 0, rbr_active_tiles = 0, rbr_recurrent_synapses = a, rbr_action_decoder_synapses = b,
    rbr_memory_decoder_synapses = c, rbr_immutable_payload_words = 0, rbr_tile_ceiling = 0, rbr_synapse_ceiling = 0, rbr_payload_word_ceiling = 0 \<rparr>" t]
  by (simp add: receipt_total_synapses_def)

lemma and_then_unit_Inr: "and_then r (\<lambda>_. Inr x) = Inr y \<longleftrightarrow> r = Inr () \<and> y = x"
  by (cases r) auto

lemma assemble_budgets_Inr:
  "assemble_budgets capacity rs lanes captured = Inr b \<longleftrightarrow>
     (\<exists>t n. unat t = unat (sum_list (map rbr_recurrent_synapses rs)) + unat (sum_list (map rbr_action_decoder_synapses rs))
            + unat (sum_list (map rbr_memory_decoder_synapses rs))
        \<and> unat n = captured \<and> budgets_validate_against capacity (assembled capacity rs lanes t n) = Inr ()
        \<and> b = assembled capacity rs lanes t n)"
  unfolding assemble_budgets_def Let_def and_then_unit_Inr unfolding assembled_def [unfolded Let_def, symmetric] and_then_Inr_iff ok_or_Inr_iff
    checked_sum3_iff try_of_len_iff by auto

lemma within_assembled:
  assumes "capacity \<in> set supported_classes"
  shows "budget_within (bc_execution capacity) (cb_global (assembled capacity rs lanes t n)) \<longleftrightarrow>
     (let x = bc_execution capacity in
        sum_list (map rbr_active_tiles rs) \<le> xb_max_active_tiles x
        \<and> sum_list (map rbr_recurrent_synapses rs) \<le> xb_max_recurrent_synapses x
        \<and> sum_list (map rbr_action_decoder_synapses rs) \<le> xb_max_action_decoder_synapses x
        \<and> sum_list (map rbr_memory_decoder_synapses rs) \<le> xb_max_memory_decoder_synapses x
        \<and> unat t = unat (sum_list (map rbr_recurrent_synapses rs)) + unat (sum_list (map rbr_action_decoder_synapses rs))
            + unat (sum_list (map rbr_memory_decoder_synapses rs))
        \<and> t \<le> xb_max_total_synapses x \<and> lanes \<le> xb_max_decoder_input_lanes x
        \<and> n \<noteq> 0 \<and> n \<le> t \<and> n \<le> xb_max_replay_eligibility_samples x div xb_max_replay_events x)"
proof -
  have "checked_synapse_sum a b c = Inr t \<longleftrightarrow> unat t = unat a + unat b + unat c" for a b c
    by (simp add: checked_synapse_sum_def checked_sum3_iff)
  then show ?thesis using supported_limits [OF assms] by (simp add: budget_within_def assembled_def Let_def)
qed

lemma assembled_validates_iff:
  assumes "capacity \<in> set supported_classes"
    and t: "unat t = unat (sum_list (map rbr_recurrent_synapses rs)) + unat (sum_list (map rbr_action_decoder_synapses rs))
      + unat (sum_list (map rbr_memory_decoder_synapses rs))"
    and sums: "unat (sum_list (map rbr_active_tiles rs)) = total_of rbr_active_tiles rs"
      "unat (sum_list (map rbr_recurrent_synapses rs)) = total_of rbr_recurrent_synapses rs"
      "unat (sum_list (map rbr_action_decoder_synapses rs)) = total_of rbr_action_decoder_synapses rs"
      "unat (sum_list (map rbr_memory_decoder_synapses rs)) = total_of rbr_memory_decoder_synapses rs"
  shows "budgets_validate_against capacity (assembled capacity rs lanes t n) = Inr () \<longleftrightarrow> receipts_fit capacity rs lanes (unat n)"
proof -
  have "cb_capacity_class_id (assembled capacity rs lanes t n) = bc_id capacity"
    "cb_execution_abi_digest (assembled capacity rs lanes t n) = capacity_digest capacity"
    "cb_routes (assembled capacity rs lanes t n) = rs"
    "gb_neuron_count (cb_global (assembled capacity rs lanes t n)) = xb_max_neurons (bc_execution capacity)"
    "gb_active_tiles (cb_global (assembled capacity rs lanes t n)) = sum_list (map rbr_active_tiles rs)"
    "gb_recurrent_synapses (cb_global (assembled capacity rs lanes t n)) = sum_list (map rbr_recurrent_synapses rs)"
    "gb_action_decoder_synapses (cb_global (assembled capacity rs lanes t n)) = sum_list (map rbr_action_decoder_synapses rs)"
    "gb_memory_decoder_synapses (cb_global (assembled capacity rs lanes t n)) = sum_list (map rbr_memory_decoder_synapses rs)"
    by (simp_all add: assembled_def Let_def)
  note fields = this
  have n: "n \<noteq> 0 \<longleftrightarrow> 0 < unat n" by (simp add: unat_gt_0)
  show ?thesis
    unfolding budgets_validate_iff fields within_assembled [OF assms(1)] receipts_fit_def Let_def word_le_nat_alt n
    using assms(1) t by (auto simp: sums unat_div)
qed

lemma fit_sums:
  assumes "receipts_fit capacity rs lanes captured"
  shows "unat (sum_list (map rbr_active_tiles rs)) = total_of rbr_active_tiles rs"
    "unat (sum_list (map rbr_recurrent_synapses rs)) = total_of rbr_recurrent_synapses rs"
    "unat (sum_list (map rbr_action_decoder_synapses rs)) = total_of rbr_action_decoder_synapses rs"
    "unat (sum_list (map rbr_memory_decoder_synapses rs)) = total_of rbr_memory_decoder_synapses rs"
proof -
  have "unat (sum_list (map f rs)) = total_of f rs" if "total_of f rs \<le> unat w" for f and w :: u32
    using that unat_bound [of w] unfolding sum_wraps total_of_def by (simp add: unat_of_nat)
  then show "unat (sum_list (map rbr_active_tiles rs)) = total_of rbr_active_tiles rs"
    "unat (sum_list (map rbr_recurrent_synapses rs)) = total_of rbr_recurrent_synapses rs"
    "unat (sum_list (map rbr_action_decoder_synapses rs)) = total_of rbr_action_decoder_synapses rs"
    "unat (sum_list (map rbr_memory_decoder_synapses rs)) = total_of rbr_memory_decoder_synapses rs"
    using assms unfolding receipts_fit_def Let_def by blast+
qed

lemma assembly_succeeds_iff: "(\<exists>b. assemble_budgets capacity rs lanes captured = Inr b) \<longleftrightarrow> receipts_fit capacity rs lanes captured"
proof
  assume "\<exists>b. assemble_budgets capacity rs lanes captured = Inr b"
  then obtain t n where t: "unat t = unat (sum_list (map rbr_recurrent_synapses rs)) + unat (sum_list (map rbr_action_decoder_synapses rs))
      + unat (sum_list (map rbr_memory_decoder_synapses rs))" "unat n = captured"
    and valid: "budgets_validate_against capacity (assembled capacity rs lanes t n) = Inr ()"
    unfolding assemble_budgets_Inr by blast
  note v = valid [unfolded budgets_validate_iff, unfolded assembled_def Let_def, simplified]
  show "receipts_fit capacity rs lanes captured"
    using assembled_validates_iff [OF _ t(1), of capacity lanes n] v valid t(2) by blast
next
  assume fit: "receipts_fit capacity rs lanes captured"
  note sums = fit_sums [OF fit]
  have total: "total_of rbr_recurrent_synapses rs + total_of rbr_action_decoder_synapses rs + total_of rbr_memory_decoder_synapses rs
      \<le> unat (xb_max_total_synapses (bc_execution capacity))"
    and captured: "captured \<le> total_of rbr_recurrent_synapses rs + total_of rbr_action_decoder_synapses rs + total_of rbr_memory_decoder_synapses rs"
    and supported: "capacity \<in> set supported_classes"
    using fit by (simp_all add: receipts_fit_def Let_def)
  have fits: "\<exists>w :: u32. unat w = x" if "x \<le> unat (xb_max_total_synapses (bc_execution capacity))" for x
    using that unat_bound [of "xb_max_total_synapses (bc_execution capacity)"]
    by (intro exI [of _ "word_of_nat x"]) (simp add: unat_of_nat)
  obtain t :: u32 where t: "unat t = unat (sum_list (map rbr_recurrent_synapses rs)) + unat (sum_list (map rbr_action_decoder_synapses rs))
      + unat (sum_list (map rbr_memory_decoder_synapses rs))"
    using fits [OF total] unfolding sums by blast
  obtain n :: u32 where n: "unat n = captured" using fits [of captured] total captured by auto
  then have "budgets_validate_against capacity (assembled capacity rs lanes t n) = Inr ()"
    using assembled_validates_iff [OF supported t sums] fit by simp
  then show "\<exists>b. assemble_budgets capacity rs lanes captured = Inr b" using t n unfolding assemble_budgets_Inr by blast
qed

text \<open>C28. The budget receipt of a compiled brain is built exactly when its routes fit the brain class in the
  natural numbers: the class is a supported one, the routes are numbered in order, each is inside its
  ceilings and owns synapses of one category, and the sums of tiles and synapses are inside the limits.
  The wrapping sums of the builder never let an overflow through.\<close>

theorem budgets_accept_exactly_what_fits:
  "(\<exists>b. assemble_budgets capacity rs lanes captured = Inr b) \<longleftrightarrow> receipts_fit capacity rs lanes captured"
  by (rule assembly_succeeds_iff)

end
