(* ===== verification/Topology_Examples.thy ===== *)
theory Topology_Examples
  imports Topology_Foundation Budgets_Proofs
begin

text \<open>
  The hypotheses of the topology properties hold: a scaffold genome of the 2048-neuron class, on its
  frozen layout and with the capacity of its class.
\<close>

definition scaffold_genome :: BrainGenome where
  "scaffold_genome = \<lparr>
     bg_genetic_prior_seed = 7,
     bg_macro_connectome_masks = masks_n2048_foundation_defaults,
     bg_sparse_density_priors = densities_n2048_foundation_defaults,
     bg_alpha_mask = \<lparr> am_default_alpha = f32_lit 25 100, am_projection_overrides = [], am_lobe_overrides = [],
       am_tile_overrides = [], am_per_synapse_overrides = [] \<rparr>,
     bg_plasticity_mask = \<lparr> pm_oja_enabled = True, pm_hebbian_enabled = True,
       pm_projection_masks = [\<lparr> pp_projection = (TemporalPredictive, ActionPlanning),
         pp_learning_rate_scale = f32_lit 5 10, pp_plasticity_enabled = True \<rparr>] \<rparr> \<rparr>"

lemma scaffold_genome_fields:
  "bg_macro_connectome_masks scaffold_genome = masks_n2048_foundation_defaults"
  "bg_sparse_density_priors scaffold_genome = densities_n2048_foundation_defaults"
  by (simp_all add: scaffold_genome_def)

lemma scaffold_keys: "validate_alpha_keys scaffold_genome = Inr ()"
  by (simp add: validate_alpha_keys_def scaffold_genome_def no_repeats_def masks_n2048_foundation_defaults_def
      mask_of_route_def N2048_ROUTES_def route_spec_def)

lemma n2048_capacity:
  "bc_id capacity_n2048 = N2048_ID" "24576 \<le> bc_max_recurrent_synapses capacity_n2048" "96 \<le> bc_max_active_tiles capacity_n2048"
  "unat (bc_max_active_tiles capacity_n2048) < 2 ^ 31"
  by (simp_all add: capacity_n2048_def Let_def budget_production_def MAX_STRUCTURAL_EDGES_def)

theorem tile_placement_returns_witness:
  "\<exists>rows. deterministic_tile_pairs 1600 128 0 448 1536 7 EssentialReservation = Some rows \<and> length rows = 1536"
  using tile_placement_returns [of 128 448 1600 0 1536 7 EssentialReservation] by simp

theorem compile_recurrent_never_panics_witness:
  "compile_recurrent scaffold_genome n2048_lobe_layout capacity_n512 \<noteq> Inl Panics"
  by (rule compile_recurrent_never_panics [OF n2048_layout_valid])

theorem foundation_genome_compiles_witness:
  "\<exists>c. compile_recurrent scaffold_genome n2048_lobe_layout capacity_n2048 = Inr c
    \<and> map (\<lambda>p. (cp_source_lobe p, cp_target_lobe p, cp_synapse_len p)) (co_projections c)
        = map (\<lambda>spec. (rs_source_lobe spec, rs_target_lobe spec, rs_synapse_count spec)) N2048_ROUTES
    \<and> length (co_synapses c) = 24576 \<and> co_tile_total c = 96"
  by (rule foundation_genome_compiles [OF scaffold_genome_fields scaffold_keys n2048_capacity(1,2,3)])

lemma scaffold_hypotheses:
  obtains c where "compile_recurrent scaffold_genome n2048_lobe_layout capacity_n2048 = Inr c"
    and "unat (2048 :: u32) < 2 ^ 20" and "\<forall>d \<in> set (bg_sparse_density_priors scaffold_genome). f32_le (sd_density d) f32_one"
  using foundation_compiles [OF scaffold_genome_fields scaffold_keys n2048_capacity(1,2,3)] that
  by (auto simp: scaffold_genome_fields default_density_at_most_one)

theorem compiled_synapses_join_their_lobes_witness:
  "\<exists>c. compile_recurrent scaffold_genome n2048_lobe_layout capacity_n2048 = Inr c
    \<and> distinct (map (\<lambda>s. (sy_source s, sy_target s)) (co_synapses c))"
proof -
  obtain c where c: "compile_recurrent scaffold_genome n2048_lobe_layout capacity_n2048 = Inr c"
    and h: "unat (2048 :: u32) < 2 ^ 20" "\<forall>d \<in> set (bg_sparse_density_priors scaffold_genome). f32_le (sd_density d) f32_one"
    by (rule scaffold_hypotheses)
  show ?thesis
    using compiled_synapses_join_their_lobes [OF n2048_layout_valid h(1) n2048_capacity(4) h(2) c] c by blast
qed

theorem compiled_topology_keeps_its_budgets_witness:
  "\<exists>c. compile_recurrent scaffold_genome n2048_lobe_layout capacity_n2048 = Inr c
    \<and> range_end 0 (co_projections c) = Some (length (co_synapses c))
    \<and> sum_list (map (unat \<circ> cp_active_tile_count) (co_projections c)) \<le> 192"
proof -
  obtain c where c: "compile_recurrent scaffold_genome n2048_lobe_layout capacity_n2048 = Inr c"
    and h: "unat (2048 :: u32) < 2 ^ 20" "\<forall>d \<in> set (bg_sparse_density_priors scaffold_genome). f32_le (sd_density d) f32_one"
    by (rule scaffold_hypotheses)
  have "unat (bc_max_active_tiles capacity_n2048) = 192" by (simp add: capacity_n2048_def Let_def budget_production_def)
  then show ?thesis
    using compiled_topology_keeps_its_budgets [OF n2048_layout_valid h(1) n2048_capacity(4) h(2) c] c by auto
qed

end
