(* ===== verification/Encoder.thy ===== *)
theory Encoder
  imports Topology "HOL-Library.Sublist"
begin

text \<open>
  \<open>crates/alife_core/src/phenotype/encoder.rs\<close> and \<open>compile_encoder\<close> of \<open>io_compile.rs\<close>: the plan that
  wires sensor lanes to neurons. Every active sensor gene places its receptors in its lobe: first one per
  lane, on the first free neuron from a seeded start, then along a walk over all pairs of lane and neuron
  with a stride coprime to their number. A receptor already placed is skipped. The sources panic on the
  remainder by zero of an empty lobe; that and a search for a stride that does not end are \<open>Panics\<close>.
\<close>

section \<open>Sensor genes (genome.rs, perception.rs)\<close>

datatype SensorChannelKind = Vision | Hearing | Touch | Smell | Taste | Proprioception | Interoception | GlyphVision

fun channel_raw :: "SensorChannelKind \<Rightarrow> u8" where
  "channel_raw Vision = 0"
| "channel_raw Hearing = 1"
| "channel_raw Touch = 2"
| "channel_raw Smell = 3"
| "channel_raw Taste = 4"
| "channel_raw Proprioception = 5"
| "channel_raw Interoception = 6"
| "channel_raw GlyphVision = 7"

definition channel_try_from_raw :: "u8 \<Rightarrow> SensorChannelKind contract" where
  "channel_try_from_raw raw =
     (case find (\<lambda>k. channel_raw k = raw) [Vision, Hearing, Touch, Smell, Taste, Proprioception, Interoception, GlyphVision] of
        None \<Rightarrow> Inl PhenotypeCompile | Some k \<Rightarrow> Inr k)"

record SensorChannelGene =
  cg_kind :: SensorChannelKind
  cg_receptor_count :: u16
  cg_target_lobe :: LobeKind
  cg_enabled_at_maturation :: u8

definition channel_gene_validate :: "SensorChannelGene \<Rightarrow> unit contract" where
  "channel_gene_validate g =
     (if cg_receptor_count g = 0 \<or> 100 < cg_enabled_at_maturation g then Inl ScalarOutOfRange else Inr ())"

definition channel_gene :: "SensorChannelKind \<Rightarrow> u16 \<Rightarrow> LobeKind \<Rightarrow> u8 \<Rightarrow> SensorChannelGene" where
  "channel_gene kind n lobe maturation = \<lparr>
     cg_kind = kind, cg_receptor_count = n, cg_target_lobe = lobe, cg_enabled_at_maturation = maturation \<rparr>"

definition sensor_layout_minimal_grounded :: "SensorChannelGene list" where
  "sensor_layout_minimal_grounded = [
     channel_gene Interoception 16 InteroceptiveMotivational 0,
     channel_gene Vision 64 PerceptualIntegration 0,
     channel_gene Touch 24 PerceptualIntegration 0,
     channel_gene Smell 16 PerceptualIntegration 0,
     channel_gene Proprioception 26 PerceptualIntegration 0]"

datatype SensorProfile = PrivilegedAffordanceV1 | GroundedObjectSlotsV1 | GroundedTerrainVisionV1

fun profile_raw :: "SensorProfile \<Rightarrow> u16" where
  "profile_raw PrivilegedAffordanceV1 = 1"
| "profile_raw GroundedObjectSlotsV1 = 2"
| "profile_raw GroundedTerrainVisionV1 = 3"

definition profile_try_from_raw :: "u16 \<Rightarrow> SensorProfile contract" where
  "profile_try_from_raw raw =
     (case find (\<lambda>p. profile_raw p = raw) [PrivilegedAffordanceV1, GroundedObjectSlotsV1, GroundedTerrainVisionV1] of
        None \<Rightarrow> Inl SensorProfileMismatch | Some p \<Rightarrow> Inr p)"

text \<open>What the encoder reads of the genome and of the development state.\<close>

record SensorInputs =
  si_sensor_layout_seed :: u64
  si_channels :: "SensorChannelGene list"
  si_maturation :: f32
  si_active_sensor_channels :: "SensorChannelKind list"

section \<open>Encoder plans\<close>

definition ENCODER_SCHEMA_VERSION :: u16 where "ENCODER_SCHEMA_VERSION = 1"
definition SENSORY_LANES :: u16 where "SENSORY_LANES = 42"
definition BODY_LANES :: u16 where "BODY_LANES = 13"
definition HOMEOSTASIS_LANES :: u16 where "HOMEOSTASIS_LANES = 22"

definition ENCODER_DOMAIN :: bytes where
  "ENCODER_DOMAIN = map (\<lambda>c. word_of_nat (of_char c)) ''alife.phenotype.sensor-encoder.v1''"

datatype SensorEncoderSourceGroup = SensoryChannel | Body | Homeostasis | HeardLanguage | SemanticPrior

fun group_raw :: "SensorEncoderSourceGroup \<Rightarrow> u16" where
  "group_raw SensoryChannel = 1"
| "group_raw Body = 2"
| "group_raw Homeostasis = 3"
| "group_raw HeardLanguage = 4"
| "group_raw SemanticPrior = 5"

definition group_try_from_raw :: "u16 \<Rightarrow> SensorEncoderSourceGroup contract" where
  "group_try_from_raw raw =
     (case find (\<lambda>g. group_raw g = raw) [SensoryChannel, Body, Homeostasis, HeardLanguage, SemanticPrior] of
        None \<Rightarrow> Inl PhenotypeCompile | Some g \<Rightarrow> Inr g)"

record SensorEncoderAssignment =
  ea_source_group :: SensorEncoderSourceGroup
  ea_source_index :: u16
  ea_target_neuron :: u32
  ea_scale :: f32
  ea_bias :: f32
  ea_clamp_min :: f32
  ea_clamp_max :: f32

definition assignment_new ::
  "SensorEncoderSourceGroup \<Rightarrow> u16 \<Rightarrow> u32 \<Rightarrow> f32 \<Rightarrow> f32 \<Rightarrow> f32 \<Rightarrow> f32 \<Rightarrow> SensorEncoderAssignment" where
  "assignment_new source index target scale bias lo hi = \<lparr>
     ea_source_group = source, ea_source_index = index, ea_target_neuron = target, ea_scale = scale,
     ea_bias = bias, ea_clamp_min = lo, ea_clamp_max = hi \<rparr>"

definition assignment_validate :: "u16 \<times> u16 \<times> u16 \<Rightarrow> SensorEncoderAssignment \<Rightarrow> unit contract" where
  "assignment_validate widths a =
     (let width = (case ea_source_group a of
            SensoryChannel \<Rightarrow> fst widths | Body \<Rightarrow> fst (snd widths) | Homeostasis \<Rightarrow> snd (snd widths)
          | HeardLanguage \<Rightarrow> 128 | SemanticPrior \<Rightarrow> 128)
      in if width \<le> ea_source_index a
            \<or> \<not> list_all f32_is_finite [ea_scale a, ea_bias a, ea_clamp_min a, ea_clamp_max a]
            \<or> f32_lt (ea_clamp_max a) (ea_clamp_min a)
         then Inl PhenotypeCompile else Inr ())"

type_synonym receptor_key = "u32 \<times> u16 \<times> u16"

definition assignment_key :: "SensorEncoderAssignment \<Rightarrow> receptor_key" where
  "assignment_key a = (ea_target_neuron a, group_raw (ea_source_group a), ea_source_index a)"

record SensorEncoderPlan =
  ep_schema_version :: u16
  ep_sensor_profile :: SensorProfile
  ep_sensory_lane_count :: u16
  ep_body_lane_count :: u16
  ep_homeostasis_lane_count :: u16
  ep_assignments :: "SensorEncoderAssignment list"
  ep_canonical_digest :: digest4

fun check_order ::
  "u16 \<times> u16 \<times> u16 \<Rightarrow> receptor_key option \<Rightarrow> SensorEncoderAssignment list \<Rightarrow> unit contract" where
  "check_order widths previous [] = Inr ()"
| "check_order widths previous (a # as) =
     and_then (assignment_validate widths a) (\<lambda>_.
       if (case previous of None \<Rightarrow> False | Some prior \<Rightarrow> assignment_key a \<le> prior) then Inl PhenotypeCompile
       else check_order widths (Some (assignment_key a)) as)"

definition encoder_validate_shape :: "SensorEncoderPlan \<Rightarrow> unit contract" where
  "encoder_validate_shape p =
     (if ep_schema_version p \<noteq> ENCODER_SCHEMA_VERSION
         \<or> (ep_sensory_lane_count p, ep_body_lane_count p, ep_homeostasis_lane_count p)
             \<noteq> (SENSORY_LANES, BODY_LANES, HOMEOSTASIS_LANES)
      then Inl PhenotypeCompile
      else check_order (ep_sensory_lane_count p, ep_body_lane_count p, ep_homeostasis_lane_count p) None
        (ep_assignments p))"

definition write_assignment :: "SensorEncoderAssignment \<Rightarrow> bytes \<Rightarrow> bytes contract" where
  "write_assignment a d =
     and_then (write_f32 (ea_scale a) (write_u32 (ea_target_neuron a) (write_u16 (ea_source_index a)
       (write_u16 (group_raw (ea_source_group a)) d)))) (\<lambda>d.
     and_then (write_f32 (ea_bias a) d) (\<lambda>d.
     and_then (write_f32 (ea_clamp_min a) d) (\<lambda>d. write_f32 (ea_clamp_max a) d)))"

definition encoder_recompute_digest :: "SensorEncoderPlan \<Rightarrow> digest4 contract" where
  "encoder_recompute_digest p =
     and_then (try_fold write_assignment (ep_assignments p)
       (write_sequence_len (length (ep_assignments p))
       (write_u16 (ep_homeostasis_lane_count p)
       (write_u16 (ep_body_lane_count p)
       (write_u16 (ep_sensory_lane_count p)
       (write_u16 (profile_raw (ep_sensor_profile p))
       (write_u16 (ep_schema_version p) (digest_new ENCODER_DOMAIN))))))))
       (\<lambda>d. Inr (finish256 d))"

definition encoder_validate_local :: "SensorEncoderPlan \<Rightarrow> unit contract" where
  "encoder_validate_local p =
     and_then (encoder_validate_shape p) (\<lambda>_.
     and_then (encoder_recompute_digest p) (\<lambda>d.
       if d \<noteq> ep_canonical_digest p then Inl PhenotypeCompile else Inr ()))"

definition encoder_try_new :: "SensorProfile \<Rightarrow> SensorEncoderAssignment list \<Rightarrow> SensorEncoderPlan contract" where
  "encoder_try_new profile assignments =
     (let value = \<lparr> ep_schema_version = ENCODER_SCHEMA_VERSION, ep_sensor_profile = profile,
            ep_sensory_lane_count = SENSORY_LANES, ep_body_lane_count = BODY_LANES,
            ep_homeostasis_lane_count = HOMEOSTASIS_LANES, ep_assignments = assignments,
            ep_canonical_digest = (0, 0, 0, 0) \<rparr>
      in and_then (encoder_validate_shape value) (\<lambda>_.
         and_then (encoder_recompute_digest value) (\<lambda>d. Inr (value\<lparr>ep_canonical_digest := d\<rparr>))))"

text \<open>Reading a plan: the wire form has the fields of the plan.\<close>

definition encoder_deserialize :: "SensorEncoderPlan \<Rightarrow> SensorEncoderPlan contract" where
  "encoder_deserialize w = and_then (encoder_validate_local w) (\<lambda>_. Inr w)"

text \<open>Of the phenotype the check reads the profile and the lobe layout.\<close>

definition encoder_validate_against :: "SensorProfile \<Rightarrow> LobeLayout \<Rightarrow> SensorEncoderPlan \<Rightarrow> unit contract" where
  "encoder_validate_against profile layout p =
     and_then (encoder_validate_local p) (\<lambda>_.
       if ep_sensor_profile p \<noteq> profile then Inl PhenotypeCompile
       else check_all (\<lambda>a. case lobe_by_neuron_index (ea_target_neuron a) layout of
              None \<Rightarrow> Inl PhenotypeCompile
            | Some region \<Rightarrow> if lr_enabled region then Inr () else Inl PhenotypeCompile) (ep_assignments p))"

section \<open>Compilation (io_compile.rs)\<close>

definition sensor_lanes :: "SensorChannelKind \<Rightarrow> SensorEncoderSourceGroup \<times> u16 \<times> u16" where
  "sensor_lanes kind =
     (case kind of
        Vision \<Rightarrow> (SensoryChannel, 0, 16) | GlyphVision \<Rightarrow> (SensoryChannel, 0, 16)
      | Hearing \<Rightarrow> (SensoryChannel, 16, 24)
      | Smell \<Rightarrow> (SensoryChannel, 24, 32) | Taste \<Rightarrow> (SensoryChannel, 24, 32)
      | Touch \<Rightarrow> (SensoryChannel, 32, 40)
      | Proprioception \<Rightarrow> (Body, 0, 13)
      | Interoception \<Rightarrow> (Homeostasis, 0, 22))"

definition gene_is_active :: "SensorInputs \<Rightarrow> SensorChannelGene \<Rightarrow> bool" where
  "gene_is_active inputs g \<longleftrightarrow>
     f32_le (f32_of_nat (unat (cg_enabled_at_maturation g))) (f32_mul (si_maturation inputs) (f32_of_nat 100))
     \<and> (si_active_sensor_channels inputs = [] \<or> cg_kind g \<in> set (si_active_sensor_channels inputs))"

definition gene_seed :: "SensorInputs \<Rightarrow> SensorChannelGene \<Rightarrow> u64" where
  "gene_seed inputs g =
     si_sensor_layout_seed inputs XOR ucast (channel_raw (cg_kind g)) XOR push_bit 16 (ucast (lobe_raw (cg_target_lobe g)))"

definition active_genes :: "SensorInputs \<Rightarrow> SensorChannelGene list" where
  "active_genes inputs =
     sort_key (\<lambda>g. (splitmix64 (gene_seed inputs g), channel_raw (cg_kind g), lobe_raw (cg_target_lobe g)))
       (filter (gene_is_active inputs) (si_channels inputs))"

text \<open>The lanes a gene covers first, in order.\<close>

definition lanes_between :: "u16 \<Rightarrow> u16 \<Rightarrow> u16 list" where
  "lanes_between a b = map word_of_nat [unat a ..< unat b]"

definition feels_body :: "SensorChannelGene \<Rightarrow> bool" where
  "feels_body g \<longleftrightarrow> cg_kind g = Interoception \<and> cg_target_lobe g = InteroceptiveMotivational"

definition lane_order :: "SensorChannelGene \<Rightarrow> u16 list" where
  "lane_order g =
     (case sensor_lanes (cg_kind g) of (_, lane_start, lane_end) \<Rightarrow>
        if feels_body g then [0, 3, 7, 1, 2, 4, 5, 6, 8] @ lanes_between 9 lane_end
        else lanes_between lane_start lane_end)"

definition receptor :: "SensorEncoderSourceGroup \<Rightarrow> u16 \<Rightarrow> u32 \<Rightarrow> SensorEncoderAssignment" where
  "receptor source lane target = assignment_new source lane target f32_one f32_zero f32_minus_one f32_one"

text \<open>The receptors placed so far, and the keys they occupy.\<close>

record EncoderBoard =
  eb_occupied :: "receptor_key set"
  eb_assignments :: "SensorEncoderAssignment list"

definition place_receptor :: "SensorEncoderSourceGroup \<Rightarrow> u16 \<Rightarrow> u32 \<Rightarrow> EncoderBoard \<Rightarrow> EncoderBoard" where
  "place_receptor source lane target b = \<lparr>
     eb_occupied = insert (target, group_raw source, lane) (eb_occupied b),
     eb_assignments = eb_assignments b @ [receptor source lane target] \<rparr>"

definition place_lane ::
  "SensorEncoderSourceGroup \<Rightarrow> LobeRegion \<Rightarrow> u32 \<Rightarrow> nat \<times> u16 \<Rightarrow> EncoderBoard \<Rightarrow> compile_fault + EncoderBoard" where
  "place_lane source region first_target item b = (case item of (offset, lane) \<Rightarrow>
     (case find (\<lambda>target. (target, group_raw source, lane) \<notin> eb_occupied b)
         (map (\<lambda>shift. lr_start region + (first_target + word_of_nat offset + word_of_nat shift) mod lr_len region)
           [0..<unat (lr_len region)]) of
        None \<Rightarrow> Inl compile_error
      | Some target \<Rightarrow> Inr (place_receptor source lane target b)))"

text \<open>The walk over the pairs: it goes on from the cursor the previous receptor left.\<close>

fun probe :: "nat \<Rightarrow> (u32 \<Rightarrow> bool) \<Rightarrow> (u32 \<Rightarrow> u32) \<Rightarrow> u32 \<Rightarrow> (u32 \<times> u32) option" where
  "probe 0 free advance cursor = None"
| "probe (Suc n) free advance cursor =
     (if free cursor then Some (cursor, advance cursor) else probe n free advance (advance cursor))"

definition place_copy ::
  "SensorEncoderSourceGroup \<Rightarrow> LobeRegion \<Rightarrow> u16 \<Rightarrow> u16 \<Rightarrow> u32 \<Rightarrow> u32 \<Rightarrow> nat \<Rightarrow> u32 \<times> EncoderBoard
   \<Rightarrow> compile_fault + (u32 \<times> EncoderBoard)" where
  "place_copy source region lane_start lane_width available step index state = (case state of (cursor, b) \<Rightarrow>
     let lane_at = (\<lambda>c. lane_start + ucast (c mod ucast lane_width));
         target_at = (\<lambda>c. lr_start region + c div ucast lane_width)
     in case probe (unat available) (\<lambda>c. (target_at c, group_raw source, lane_at c) \<notin> eb_occupied b)
            (\<lambda>c. (c + step) mod available) cursor of
          None \<Rightarrow> Inl compile_error
        | Some (c, cursor') \<Rightarrow> Inr (cursor', place_receptor source (lane_at c) (target_at c) b))"

definition place_gene :: "SensorInputs \<Rightarrow> LobeLayout \<Rightarrow> SensorChannelGene \<Rightarrow> EncoderBoard \<Rightarrow> compile_fault + EncoderBoard" where
  "place_gene inputs layout g b =
     and_then (enabled_region (cg_target_lobe g) layout) (\<lambda>region.
       case sensor_lanes (cg_kind g) of (source, lane_start, lane_end) \<Rightarrow>
       let lane_width = lane_end - lane_start;
           available = lr_len region * ucast lane_width;
           receptors = unat (cg_receptor_count g);
           seed = gene_seed inputs g
       in if available < ucast (cg_receptor_count g) then Inl compile_error
          else if available = 0 then Inl Panics
          else
            and_then (ok_or Panics (coprime_stride available
                (ucast (splitmix64 (seed XOR 0xA0761D6478BD642F) mod ucast available) OR 1))) (\<lambda>step.
              let lanes = lane_order g;
                  essential = min (min receptors (length lanes)) (unat (lr_len region));
                  first_target = (if feels_body g then 0 else ucast (splitmix64 seed mod ucast (lr_len region)))
              in and_then (try_fold (place_lane source region first_target) (enumerate 0 (take essential lanes)) b) (\<lambda>b.
                 and_then (try_fold (place_copy source region lane_start lane_width available step) [essential..<receptors]
                     (ucast (splitmix64 seed mod ucast available), b)) (\<lambda>(_, b). Inr b))))"

text \<open>A second gene of the same kind for the same lobe is an error.\<close>

definition place_next_gene ::
  "SensorInputs \<Rightarrow> LobeLayout \<Rightarrow> SensorChannelGene \<Rightarrow> (u8 \<times> u16) set \<times> EncoderBoard
   \<Rightarrow> compile_fault + ((u8 \<times> u16) set \<times> EncoderBoard)" where
  "place_next_gene inputs layout g state = (case state of (seen, b) \<Rightarrow>
     let key = (channel_raw (cg_kind g), lobe_raw (cg_target_lobe g))
     in if key \<in> seen then Inl compile_error
        else and_then (place_gene inputs layout g b) (\<lambda>b. Inr (insert key seen, b)))"

definition hears_language :: "SensorInputs \<Rightarrow> SensorProfile \<Rightarrow> bool" where
  "hears_language inputs profile \<longleftrightarrow>
     profile = GroundedTerrainVisionV1
     \<and> list_ex (\<lambda>g. cg_kind g = Hearing \<and> 0 < cg_receptor_count g \<and> gene_is_active inputs g) (si_channels inputs)"

definition language_port :: "LobeRegion \<Rightarrow> u32 \<Rightarrow> u32 \<Rightarrow> SensorEncoderSourceGroup \<Rightarrow> u16 \<Rightarrow> SensorEncoderAssignment" where
  "language_port region base step source lane =
     (let port_lane = (ucast (group_raw source) - 4) * 128 + ucast lane
      in assignment_new source lane (lr_start region + (base + port_lane * step) mod lr_len region)
           (f32_lit 5 10) f32_zero f32_minus_one f32_one)"

definition language_ports :: "SensorInputs \<Rightarrow> LobeLayout \<Rightarrow> compile_fault + SensorEncoderAssignment list" where
  "language_ports inputs layout =
     (case layout_region MultimodalAssociation layout of
        None \<Rightarrow> Inr []
      | Some region \<Rightarrow>
          if \<not> lr_enabled region then Inr []
          else if lr_len region = 0 then Inl Panics
          else
            let base = ucast (splitmix64 (si_sensor_layout_seed inputs XOR 0x4C414E47) mod ucast (lr_len region))
            in and_then (ok_or Panics (coprime_stride (lr_len region)
                   (ucast (splitmix64 (si_sensor_layout_seed inputs XOR 0x5052494F) mod ucast (lr_len region)) OR 1))) (\<lambda>step.
                 Inr (map (language_port region base step HeardLanguage) (lanes_between 0 128)
                   @ map (language_port region base step SemanticPrior) (lanes_between 0 128))))"

definition compile_encoder :: "SensorInputs \<Rightarrow> LobeLayout \<Rightarrow> SensorProfile \<Rightarrow> compile_fault + SensorEncoderPlan" where
  "compile_encoder inputs layout profile =
     and_then (try_fold (place_next_gene inputs layout) (active_genes inputs)
         ({}, \<lparr> eb_occupied = {}, eb_assignments = [] \<rparr>)) (\<lambda>(_, b).
     and_then (if hears_language inputs profile then language_ports inputs layout else Inr []) (\<lambda>ports.
       may_fail (encoder_try_new profile (sort_key assignment_key (eb_assignments b @ ports)))))"

end
