(* ===== verification/Encoder_Proofs.thy ===== *)
theory Encoder_Proofs
  imports Encoder Topology_Foundation Chemistry_Proofs
begin

text \<open>
  The encoder plan: every active gene gets exactly its receptors, in its lobe and on its lanes, no receptor
  is placed twice, the plan passes its own validation, and compiling never panics.
\<close>

section \<open>One gene's receptors\<close>

definition gene_source :: "SensorChannelGene \<Rightarrow> SensorEncoderSourceGroup" where
  "gene_source g = fst (sensor_lanes (cg_kind g))"

definition lane_start_of :: "SensorChannelGene \<Rightarrow> u16" where
  "lane_start_of g = fst (snd (sensor_lanes (cg_kind g)))"

definition lane_end_of :: "SensorChannelGene \<Rightarrow> u16" where
  "lane_end_of g = snd (snd (sensor_lanes (cg_kind g)))"

definition lane_width_of :: "SensorChannelGene \<Rightarrow> u16" where
  "lane_width_of g = lane_end_of g - lane_start_of g"

lemma gene_lanes:
  "sensor_lanes (cg_kind g) = (gene_source g, lane_start_of g, lane_end_of g)"
  "unat (lane_start_of g) + unat (lane_width_of g) = unat (lane_end_of g)"
  "0 < unat (lane_width_of g)" "unat (lane_width_of g) \<le> 22" "unat (lane_end_of g) \<le> 40"
  "group_raw (gene_source g) < 4"
  by (cases "cg_kind g"; simp add: gene_source_def lane_start_of_def lane_end_of_def lane_width_of_def sensor_lanes_def)+

lemma lanes_between_simps:
  "length (lanes_between a b) = unat b - unat a"
  "lane \<in> set (lanes_between a b) \<longleftrightarrow> a \<le> lane \<and> lane < b"
  "distinct (lanes_between a b)"
proof -
  have b: "x < unat b \<Longrightarrow> unat (word_of_nat x :: u16) = x" for x
    using unsigned_less [where 'a = nat, of b] by (simp add: unat_of_nat)
  show "length (lanes_between a b) = unat b - unat a" by (simp add: lanes_between_def)
  show "distinct (lanes_between a b)"
    unfolding lanes_between_def distinct_map by (auto intro!: inj_onI dest!: arg_cong [of _ _ unat] simp: b)
  show "lane \<in> set (lanes_between a b) \<longleftrightarrow> a \<le> lane \<and> lane < b"
  proof
    assume "a \<le> lane \<and> lane < b"
    then have "unat lane \<in> {unat a ..< unat b}" by (simp add: word_le_nat_alt word_less_nat_alt)
    then show "lane \<in> set (lanes_between a b)"
      unfolding lanes_between_def set_map set_upt by (rule image_eqI [rotated]) simp
  qed (auto simp: lanes_between_def word_le_nat_alt word_less_nat_alt b)
qed

lemma lane_order_facts:
  "lane \<in> set (lane_order g) \<longleftrightarrow> lane_start_of g \<le> lane \<and> lane < lane_end_of g"
  "length (lane_order g) = unat (lane_width_of g)" "distinct (lane_order g)"
proof -
  have w: "lane_order g = (if feels_body g then [0, 3, 7, 1, 2, 4, 5, 6, 8] @ lanes_between 9 (lane_end_of g)
      else lanes_between (lane_start_of g) (lane_end_of g))"
    by (simp add: lane_order_def gene_lanes(1))
  have k: "feels_body g \<Longrightarrow> lane_start_of g = 0 \<and> lane_end_of g = 22" 
    by (simp add: feels_body_def lane_start_of_def lane_end_of_def sensor_lanes_def)
  have len: "unat (lane_width_of g) = unat (lane_end_of g) - unat (lane_start_of g)" using gene_lanes(2) [of g] by simp
  have small: "x < 9 \<longleftrightarrow> x \<in> {0, 3, 7, 1, 2, 4, 5, 6, 8}" for x :: u16
  proof -
    have "x < 9 \<longleftrightarrow> unat x < 9" by (simp add: word_less_nat_alt)
    also have "\<dots> \<longleftrightarrow> unat x \<in> {0, 3, 7, 1, 2, 4, 5, 6, 8}" by auto
    also have "\<dots> \<longleftrightarrow> x \<in> {0, 3, 7, 1, 2, 4, 5, 6, 8}" by (simp add: word_unat_eq_iff)
    finally show ?thesis .
  qed
  show "length (lane_order g) = unat (lane_width_of g)"
    unfolding w len using k by (simp add: lanes_between_simps)
  show "lane \<in> set (lane_order g) \<longleftrightarrow> lane_start_of g \<le> lane \<and> lane < lane_end_of g"
  proof (cases "feels_body g")
    case True
    have "lane \<in> set (lane_order g) \<longleftrightarrow> lane \<in> {0, 3, 7, 1, 2, 4, 5, 6, 8} \<or> 9 \<le> lane \<and> lane < 22"
      unfolding w using True k by (simp add: lanes_between_simps)
    also have "\<dots> \<longleftrightarrow> lane < 22" unfolding small [symmetric] by (auto simp: word_less_nat_alt word_le_nat_alt)
    finally show ?thesis using k [OF True] by simp
  qed (simp add: w lanes_between_simps)
  have "x \<in> {0, 3, 7, 1, 2, 4, 5, 6, 8} \<Longrightarrow> \<not> 9 \<le> x" for x :: u16 unfolding small [symmetric] by simp
  then show "distinct (lane_order g)"
    unfolding w by (auto simp: lanes_between_simps)
qed

definition gene_receptor :: "LobeLayout \<Rightarrow> SensorChannelGene \<Rightarrow> SensorEncoderAssignment \<Rightarrow> bool" where
  "gene_receptor layout g a \<longleftrightarrow>
     (\<exists>lane target. a = receptor (gene_source g) lane target \<and> lane_start_of g \<le> lane \<and> lane < lane_end_of g
        \<and> lobe_at layout target = Some (cg_target_lobe g))"

section \<open>The board\<close>

definition board_ok :: "EncoderBoard \<Rightarrow> bool" where
  "board_ok b \<longleftrightarrow> eb_occupied b = assignment_key ` set (eb_assignments b) \<and> distinct (map assignment_key (eb_assignments b))"

lemma receptor_fields [simp]:
  "assignment_key (receptor s lane target) = (target, group_raw s, lane)"
  "ea_source_index (receptor s lane target) = lane" "ea_target_neuron (receptor s lane target) = target"
  "ea_source_group (receptor s lane target) = s"
  by (simp_all add: assignment_key_def receptor_def assignment_new_def)

lemma place_receptor_ok:
  "board_ok b \<Longrightarrow> (target, group_raw s, lane) \<notin> eb_occupied b \<Longrightarrow> board_ok (place_receptor s lane target b)"
  by (simp add: board_ok_def place_receptor_def)

lemma place_receptor_adds [simp]: "eb_assignments (place_receptor s lane target b) = eb_assignments b @ [receptor s lane target]"
  by (simp add: place_receptor_def)

lemma probe_Some:
  assumes "probe n free advance c = Some (found, next)" and "P c" and "\<And>x. P x \<Longrightarrow> P (advance x)"
  shows "free found \<and> P found \<and> next = advance found"
  using assms by (induction n arbitrary: c) (auto split: if_splits)

text \<open>A region of a valid layout, and the cells of a gene in it.\<close>

definition gene_region :: "LobeLayout \<Rightarrow> SensorChannelGene \<Rightarrow> LobeRegion \<Rightarrow> bool" where
  "gene_region layout g region \<longleftrightarrow>
     enabled_region (cg_target_lobe g) layout = Inr region \<and> (\<exists>n. layout_validate n layout = Inr () \<and> unat n < 2 ^ 20)"

lemma bounds:
  assumes "gene_region layout g region"
  shows "unat (lr_start region) + unat (lr_len region) < 2 ^ 20" "0 < unat (lr_len region)"
    and "unat (lr_start region) \<le> unat i \<Longrightarrow> unat i < unat (lr_start region) + unat (lr_len region)
      \<Longrightarrow> lobe_at layout i = Some (cg_target_lobe g)"
proof -
  obtain n where n: "layout_validate n layout = Inr ()" "unat n < 2 ^ 20" "enabled_region (cg_target_lobe g) layout = Inr region"
    using assms by (auto simp: gene_region_def)
  note facts = enabled_region_facts [OF n(1,3)]
  show "unat (lr_start region) + unat (lr_len region) < 2 ^ 20" "0 < unat (lr_len region)" using facts(4,6) n(2) by auto
  show "unat (lr_start region) \<le> unat i \<Longrightarrow> unat i < unat (lr_start region) + unat (lr_len region)
      \<Longrightarrow> lobe_at layout i = Some (cg_target_lobe g)" by (rule facts(7))
qed

lemma in_lobe:
  assumes r: "gene_region layout g region" and x: "unat x < unat (lr_len region)"
  shows "lobe_at layout (lr_start region + x) = Some (cg_target_lobe g)"
proof -
  have "unat (lr_start region + x) = unat (lr_start region) + unat x"
    using bounds(1) [OF r] x by (subst unat_plus_no_overflow) simp_all
  then show ?thesis using bounds(3) [OF r] x by simp
qed

definition cells :: "SensorChannelGene \<Rightarrow> LobeRegion \<Rightarrow> u32" where
  "cells g region = lr_len region * ucast (lane_width_of g)"

lemma unat_width: "unat (ucast (lane_width_of g) :: u32) = unat (lane_width_of g)"
  using gene_lanes(4) [of g] by (simp add: unsigned_ucast_eq take_bit_nat_eq_self)

lemma unat_cells:
  assumes r: "gene_region layout g region"
  shows "unat (cells g region) = unat (lr_len region) * unat (lane_width_of g)" "unat (cells g region) < 2 ^ 25"
    "0 < unat (cells g region)"
proof -
  have "unat (lr_len region) * unat (lane_width_of g) \<le> 2 ^ 20 * 22" using bounds(1) [OF r] gene_lanes(4) [of g] by (intro mult_mono) simp_all
  then have "unat (lr_len region) * unat (lane_width_of g) < 2 ^ 25" by simp
  then show "unat (cells g region) = unat (lr_len region) * unat (lane_width_of g)" "unat (cells g region) < 2 ^ 25"
    by (simp_all add: cells_def unat_width unat_word_ariths)
  then show "0 < unat (cells g region)" using bounds(2) [OF r] gene_lanes(3) [of g] by simp
qed

text \<open>The pair a cursor stands for.\<close>

definition lane_at :: "SensorChannelGene \<Rightarrow> u32 \<Rightarrow> u16" where
  "lane_at g c = lane_start_of g + ucast (c mod ucast (lane_width_of g))"

definition target_at :: "SensorChannelGene \<Rightarrow> LobeRegion \<Rightarrow> u32 \<Rightarrow> u32" where
  "target_at g region c = lr_start region + c div ucast (lane_width_of g)"

lemma cell_facts:
  assumes r: "gene_region layout g region" and c: "c < cells g region"
  shows "unat (lane_at g c) = unat (lane_start_of g) + unat c mod unat (lane_width_of g)"
    and "unat (target_at g region c) = unat (lr_start region) + unat c div unat (lane_width_of g)"
    and "unat c div unat (lane_width_of g) < unat (lr_len region)"
    and "lane_start_of g \<le> lane_at g c \<and> lane_at g c < lane_end_of g"
    and "lobe_at layout (target_at g region c) = Some (cg_target_lobe g)"
proof -
  let ?w = "unat (lane_width_of g)"
  have m: "unat (c mod ucast (lane_width_of g)) = unat c mod ?w" "unat (c div ucast (lane_width_of g)) = unat c div ?w"
    by (simp_all add: unat_mod_distrib unat_div_distrib unat_width)
  have lt: "unat c mod ?w < ?w" using gene_lanes(3) [of g] by simp
  then have "unat (ucast (c mod ucast (lane_width_of g)) :: u16) = unat c mod ?w"
    using gene_lanes(4) [of g] by (simp add: unsigned_ucast_eq take_bit_nat_eq_self m)
  then show l: "unat (lane_at g c) = unat (lane_start_of g) + unat c mod ?w"
    unfolding lane_at_def using lt gene_lanes(2,5) [of g] by (subst unat_plus_no_overflow) simp_all
  show "lane_start_of g \<le> lane_at g c \<and> lane_at g c < lane_end_of g"
    using l lt gene_lanes(2) [of g] by (simp add: word_le_nat_alt word_less_nat_alt)
  have "unat c < unat (lr_len region) * ?w" using c unat_cells(1) [OF r] by (simp add: word_less_nat_alt)
  then show d: "unat c div ?w < unat (lr_len region)" using gene_lanes(3) [of g] by (simp add: div_less_iff_less_mult)
  show t: "unat (target_at g region c) = unat (lr_start region) + unat c div ?w"
    unfolding target_at_def using d bounds(1) [OF r] m(2) by (subst unat_plus_no_overflow) simp_all
  show "lobe_at layout (target_at g region c) = Some (cg_target_lobe g)"
    using bounds(3) [OF r, of "target_at g region c"] t d by simp
qed

lemma place_lane_Inr:
  assumes r: "gene_region layout g region" and ok: "board_ok b" and lane: "lane_start_of g \<le> lane" "lane < lane_end_of g"
    and step: "place_lane (gene_source g) region first (offset, lane) b = Inr b'"
  shows "board_ok b' \<and> (\<exists>a. eb_assignments b' = eb_assignments b @ [a] \<and> gene_receptor layout g a \<and> ea_source_index a = lane)"
proof -
  obtain target where f: "find (\<lambda>target. (target, group_raw (gene_source g), lane) \<notin> eb_occupied b)
         (map (\<lambda>shift. lr_start region + (first + word_of_nat offset + word_of_nat shift) mod lr_len region) [0..<unat (lr_len region)])
      = Some target" and b': "b' = place_receptor (gene_source g) lane target b"
    using step by (auto simp: place_lane_def split: option.splits)
  have free: "(target, group_raw (gene_source g), lane) \<notin> eb_occupied b"
    and "target \<in> set (map (\<lambda>shift. lr_start region + (first + word_of_nat offset + word_of_nat shift) mod lr_len region) [0..<unat (lr_len region)])"
    using f by (auto simp: find_Some_iff)
  then obtain y where y: "target = lr_start region + y mod lr_len region" by auto
  have "unat (y mod lr_len region) < unat (lr_len region)" using bounds(2) [OF r] by (simp add: unat_mod_distrib)
  from in_lobe [OF r this] have "lobe_at layout target = Some (cg_target_lobe g)" by (simp add: y)
  then show ?thesis using place_receptor_ok [OF ok free] lane by (auto simp: b' gene_receptor_def)
qed

lemma place_copy_Inr:
  assumes r: "gene_region layout g region" and ok: "board_ok b" and cursor: "cursor < cells g region"
    and step: "place_copy (gene_source g) region (lane_start_of g) (lane_width_of g) (cells g region) step i (cursor, b) = Inr (cursor', b')"
  shows "cursor' < cells g region \<and> board_ok b' \<and> (\<exists>a. eb_assignments b' = eb_assignments b @ [a] \<and> gene_receptor layout g a)"
proof -
  have eqs: "(\<lambda>c. (lr_start region + c div ucast (lane_width_of g), group_raw (gene_source g),
      lane_start_of g + ucast (c mod ucast (lane_width_of g))) \<notin> eb_occupied b)
    = (\<lambda>c. (target_at g region c, group_raw (gene_source g), lane_at g c) \<notin> eb_occupied b)"
    by (simp add: target_at_def lane_at_def)
  obtain c where p: "probe (unat (cells g region)) (\<lambda>c. (target_at g region c, group_raw (gene_source g), lane_at g c) \<notin> eb_occupied b)
      (\<lambda>c. (c + step) mod cells g region) cursor = Some (c, cursor')"
    and b': "b' = place_receptor (gene_source g) (lane_at g c) (target_at g region c) b"
    using step unfolding place_copy_def prod.case Let_def eqs
    by (auto split: option.splits simp: target_at_def lane_at_def)
  have "\<And>x. x < cells g region \<Longrightarrow> (x + step) mod cells g region < cells g region" using unat_cells(3) [OF r] by (simp add: word_less_nat_alt unat_mod_distrib)
  from probe_Some [where P = "\<lambda>c. c < cells g region", OF p cursor this] this
  have c: "(target_at g region c, group_raw (gene_source g), lane_at g c) \<notin> eb_occupied b" "c < cells g region" "cursor' < cells g region" by auto
  then show ?thesis using place_receptor_ok [OF ok c(1)] cell_facts(4,5) [OF r c(2)] by (auto simp: b' gene_receptor_def)
qed

section \<open>Genes\<close>

definition gene_part :: "LobeLayout \<Rightarrow> SensorChannelGene \<Rightarrow> SensorEncoderAssignment list \<Rightarrow> bool" where
  "gene_part layout g zs \<longleftrightarrow>
     length zs = unat (cg_receptor_count g) \<and> (\<forall>a \<in> set zs. gene_receptor layout g a)
     \<and> (\<exists>region. enabled_region (cg_target_lobe g) layout = Inr region
          \<and> set (take (min (unat (cg_receptor_count g)) (unat (lr_len region))) (lane_order g)) \<subseteq> ea_source_index ` set zs)"

lemma place_lanes_Inr:
  assumes r: "gene_region layout g region" and ok: "board_ok b" and lanes: "\<forall>lane \<in> set ls. lane_start_of g \<le> lane \<and> lane < lane_end_of g"
    and fold: "try_fold (place_lane (gene_source g) region first) (enumerate k ls) b = Inr b'"
  shows "board_ok b' \<and> (\<exists>zs. eb_assignments b' = eb_assignments b @ zs \<and> (\<forall>a \<in> set zs. gene_receptor layout g a) \<and> map ea_source_index zs = ls)"
  using ok lanes fold
proof (induction ls arbitrary: k b)
  case (Cons lane ls)
  obtain b1 where b1: "place_lane (gene_source g) region first (k, lane) b = Inr b1"
    "try_fold (place_lane (gene_source g) region first) (enumerate (Suc k) ls) b1 = Inr b'"
    using Cons.prems(3) by auto
  obtain a where a: "board_ok b1" "eb_assignments b1 = eb_assignments b @ [a]" "gene_receptor layout g a" "ea_source_index a = lane"
    using place_lane_Inr [OF r Cons.prems(1) _ _ b1(1)] Cons.prems(2) by auto
  obtain zs where "board_ok b'" "eb_assignments b' = eb_assignments b1 @ zs" "\<forall>a \<in> set zs. gene_receptor layout g a" "map ea_source_index zs = ls"
    using Cons.IH [OF a(1) _ b1(2)] Cons.prems(2) by auto
  then show ?case using a by (intro conjI exI [of _ "a # zs"]) simp_all
qed simp

lemma place_copies_Inr:
  assumes r: "gene_region layout g region" and ok: "board_ok b" and cursor: "cursor < cells g region"
    and fold: "try_fold (place_copy (gene_source g) region (lane_start_of g) (lane_width_of g) (cells g region) step) is (cursor, b) = Inr (cursor', b')"
  shows "board_ok b' \<and> (\<exists>zs. eb_assignments b' = eb_assignments b @ zs \<and> (\<forall>a \<in> set zs. gene_receptor layout g a) \<and> length zs = length is)"
  using ok cursor fold
proof (induction "is" arbitrary: cursor b)
  case (Cons i "is")
  obtain c1 b1 where b1: "place_copy (gene_source g) region (lane_start_of g) (lane_width_of g) (cells g region) step i (cursor, b) = Inr (c1, b1)"
    "try_fold (place_copy (gene_source g) region (lane_start_of g) (lane_width_of g) (cells g region) step) is (c1, b1) = Inr (cursor', b')"
    using Cons.prems(3) by auto
  obtain a where a: "c1 < cells g region" "board_ok b1" "eb_assignments b1 = eb_assignments b @ [a]" "gene_receptor layout g a"
    using place_copy_Inr [OF r Cons.prems(1,2) b1(1)] by auto
  obtain zs where "board_ok b'" "eb_assignments b' = eb_assignments b1 @ zs" "\<forall>a \<in> set zs. gene_receptor layout g a" "length zs = length is"
    using Cons.IH [OF a(2,1) b1(2)] by auto
  then show ?case using a by (intro conjI exI [of _ "a # zs"]) simp_all
qed simp

text \<open>The guards of one gene, and its two loops.\<close>

abbreviation lane_count :: "SensorChannelGene \<Rightarrow> LobeRegion \<Rightarrow> nat" where
  "lane_count g region \<equiv> min (min (unat (cg_receptor_count g)) (length (lane_order g))) (unat (lr_len region))"

lemma place_gene_Inr:
  assumes "place_gene inputs layout g b = Inr b'"
  obtains region step first b1 cursor' where
    "enabled_region (cg_target_lobe g) layout = Inr region" "\<not> cells g region < ucast (cg_receptor_count g)" "cells g region \<noteq> 0"
    "try_fold (place_lane (gene_source g) region first) (enumerate 0 (take (lane_count g region) (lane_order g))) b = Inr b1"
    "try_fold (place_copy (gene_source g) region (lane_start_of g) (lane_width_of g) (cells g region) step)
       [lane_count g region..<unat (cg_receptor_count g)] (ucast (splitmix64 (gene_seed inputs g) mod ucast (cells g region)), b1)
     = Inr (cursor', b')"
  using assms unfolding place_gene_def gene_lanes(1) prod.case Let_def cells_def [symmetric] lane_width_of_def [symmetric] and_then_Inr_iff if_Inl_Inr ok_or_Inr_iff
  by (auto split: prod.splits)

lemma mod_cells:
  assumes "gene_region layout g region"
  shows "ucast ((x :: u64) mod ucast (cells g region)) < cells g region"
proof -
  have u: "unat (ucast (cells g region) :: u64) = unat (cells g region)"
    using unat_cells(2) [OF assms] by (simp add: unsigned_ucast_eq take_bit_nat_eq_self)
  then have "unat (x mod ucast (cells g region)) < unat (cells g region)"
    using unat_cells(3) [OF assms] by (simp add: unat_mod_distrib)
  then show ?thesis using unat_cells(2) [OF assms] by (simp add: word_less_nat_alt unsigned_ucast_eq take_bit_nat_eq_self)
qed

lemma place_gene_part:
  assumes valid: "layout_validate n layout = Inr ()" "unat n < 2 ^ 20" and ok: "board_ok b"
    and placed: "place_gene inputs layout g b = Inr b'"
  shows "board_ok b' \<and> (\<exists>zs. eb_assignments b' = eb_assignments b @ zs \<and> gene_part layout g zs)"
  using placed
proof (rule place_gene_Inr)
  fix region step first b1 cursor'
  assume region: "enabled_region (cg_target_lobe g) layout = Inr region"
    and lanes: "try_fold (place_lane (gene_source g) region first) (enumerate 0 (take (lane_count g region) (lane_order g))) b = Inr b1"
    and copies: "try_fold (place_copy (gene_source g) region (lane_start_of g) (lane_width_of g) (cells g region) step)
       [lane_count g region..<unat (cg_receptor_count g)] (ucast (splitmix64 (gene_seed inputs g) mod ucast (cells g region)), b1) = Inr (cursor', b')"
  have r: "gene_region layout g region" using valid region by (auto simp: gene_region_def)
  have "\<forall>lane \<in> set (take (lane_count g region) (lane_order g)). lane_start_of g \<le> lane \<and> lane < lane_end_of g"
    by (auto dest!: in_set_takeD simp: lane_order_facts(1))
  from place_lanes_Inr [OF r ok this lanes] obtain ys where ys: "board_ok b1" "eb_assignments b1 = eb_assignments b @ ys"
    "\<forall>a \<in> set ys. gene_receptor layout g a" "map ea_source_index ys = take (lane_count g region) (lane_order g)" by blast
  from place_copies_Inr [OF r ys(1) mod_cells [OF r] copies] obtain zs where zs: "board_ok b'" "eb_assignments b' = eb_assignments b1 @ zs"
    "\<forall>a \<in> set zs. gene_receptor layout g a" "length zs = unat (cg_receptor_count g) - lane_count g region" by auto
  have "length ys = lane_count g region" using arg_cong [OF ys(4), of length] by simp
  then have "length (ys @ zs) = unat (cg_receptor_count g)" using zs(4) by simp
  moreover have "set (take (min (unat (cg_receptor_count g)) (unat (lr_len region))) (lane_order g)) \<subseteq> ea_source_index ` set (ys @ zs)"
  proof -
    have "take (min (unat (cg_receptor_count g)) (unat (lr_len region))) (lane_order g) = take (lane_count g region) (lane_order g)"
      by (simp add: take_all min_def)
    then show ?thesis using arg_cong [OF ys(4), of set] by auto
  qed
  ultimately have "gene_part layout g (ys @ zs)" using ys(3) zs(3) region by (auto simp: gene_part_def)
  then show ?thesis using zs(1,2) ys(2) by (intro conjI exI [of _ "ys @ zs"]) simp_all
qed

lemma genes_placed:
  assumes valid: "layout_validate n layout = Inr ()" "unat n < 2 ^ 20" and "board_ok b"
    and "try_fold (place_next_gene inputs layout) gs (seen, b) = Inr (seen', b')"
  shows "board_ok b' \<and> (\<exists>parts. eb_assignments b' = eb_assignments b @ concat parts \<and> list_all2 (gene_part layout) gs parts)"
  using assms(3,4)
proof (induction gs arbitrary: seen b)
  case (Cons g gs)
  obtain s1 b1 where step: "place_next_gene inputs layout g (seen, b) = Inr (s1, b1)"
    "try_fold (place_next_gene inputs layout) gs (s1, b1) = Inr (seen', b')" using Cons.prems(2) by auto
  from step(1) have "place_gene inputs layout g b = Inr b1"
    unfolding place_next_gene_def prod.case Let_def if_Inl_Inr and_then_Inr_iff by auto
  from place_gene_part [OF valid Cons.prems(1) this] obtain zs where zs: "board_ok b1" "eb_assignments b1 = eb_assignments b @ zs" "gene_part layout g zs"
    by blast
  from Cons.IH [OF zs(1) step(2)] obtain parts where "board_ok b'" "eb_assignments b' = eb_assignments b1 @ concat parts" "list_all2 (gene_part layout) gs parts"
    by blast
  then show ?case using zs by (intro conjI exI [of _ "zs # parts"]) simp_all
qed simp

section \<open>Language ports\<close>

definition port_ok :: "LobeLayout \<Rightarrow> SensorEncoderAssignment \<Rightarrow> bool" where
  "port_ok layout a \<longleftrightarrow>
     (ea_source_group a = HeardLanguage \<or> ea_source_group a = SemanticPrior) \<and> ea_source_index a < 128
     \<and> lobe_at layout (ea_target_neuron a) = Some MultimodalAssociation
     \<and> ea_scale a = f32_lit 5 10 \<and> ea_bias a = f32_zero \<and> ea_clamp_min a = f32_minus_one \<and> ea_clamp_max a = f32_one"

lemma language_ports_Inr:
  assumes valid: "layout_validate n layout = Inr ()" "unat n < 2 ^ 20" and ports: "language_ports inputs layout = Inr zs"
  shows "(\<forall>a \<in> set zs. port_ok layout a) \<and> distinct (map assignment_key zs)"
proof (cases "zs = []")
  case False
  then obtain region base step where region: "layout_region MultimodalAssociation layout = Some region" "lr_enabled region"
    and zs: "zs = map (language_port region base step HeardLanguage) (lanes_between 0 128)
      @ map (language_port region base step SemanticPrior) (lanes_between 0 128)"
    using ports unfolding language_ports_def Let_def by (auto split: option.splits if_splits)
  have r: "enabled_region MultimodalAssociation layout = Inr region" using region by (simp add: enabled_region_def)
  note facts = enabled_region_facts [OF valid(1) r]
  have "lobe_at layout (lr_start region + y mod lr_len region) = Some MultimodalAssociation" for y
  proof -
    have y: "unat (y mod lr_len region) < unat (lr_len region)" using facts(6) by (simp add: unat_mod_distrib)
    then have "unat (lr_start region + y mod lr_len region) = unat (lr_start region) + unat (y mod lr_len region)"
      using facts(4) valid(2) by (subst unat_plus_no_overflow) simp_all
    then show ?thesis using facts(7) y by simp
  qed
  then have port: "lane < 128 \<Longrightarrow> s = HeardLanguage \<or> s = SemanticPrior \<Longrightarrow> port_ok layout (language_port region base step s lane)" for s lane
    by (simp add: port_ok_def language_port_def Let_def assignment_new_def)
  have ok: "\<forall>a \<in> set zs. port_ok layout a"
    unfolding zs set_append set_map by (auto intro!: port simp: lanes_between_simps)
  have key: "assignment_key (language_port region base step s lane) = (x, group_raw t, lane') \<longleftrightarrow>
      s = t \<and> lane = lane' \<and> x = ea_target_neuron (language_port region base step s lane)" for s t lane lane' x
    by (cases s; cases t) (auto simp: assignment_key_def language_port_def Let_def assignment_new_def)
  have "snd (assignment_key (language_port region base step s lane)) = (group_raw s, lane)" for s lane
    by (simp add: assignment_key_def language_port_def Let_def assignment_new_def)
  then have "map (snd \<circ> assignment_key) zs = map (Pair (group_raw HeardLanguage)) (lanes_between 0 128) @ map (Pair (group_raw SemanticPrior)) (lanes_between 0 128)"
    by (simp add: zs comp_def)
  moreover have "distinct (map (Pair (group_raw HeardLanguage)) (lanes_between 0 128) @ map (Pair (group_raw SemanticPrior)) (lanes_between 0 128))"
    using lanes_between_simps(3) by (auto simp: distinct_map intro!: inj_onI)
  ultimately have "distinct (map snd (map assignment_key zs))" by (simp only: map_map)
  then show ?thesis using ok by (blast intro: distinct_map [THEN iffD1, THEN conjunct1])
qed simp

section \<open>The plan\<close>

definition assignment_ok :: "LobeLayout \<Rightarrow> SensorEncoderAssignment \<Rightarrow> bool" where
  "assignment_ok layout a \<longleftrightarrow>
     assignment_validate (SENSORY_LANES, BODY_LANES, HOMEOSTASIS_LANES) a = Inr () \<and> lobe_at layout (ea_target_neuron a) \<noteq> None"

lemma finite_constants:
  "list_all f32_is_finite [f32_one, f32_zero, f32_minus_one, f32_lit 5 10]" "\<not> f32_lt f32_one f32_minus_one"
  using f32_lit_finite [of 10 5]
  by (simp_all add: f32_one_def f32_zero_def f32_minus_one_def f32_is_finite_def f32_exponent_unat f32_lt_def f32_scaled_def
      f32_magnitude_def f32_fraction_unat f32_sign_unat f32_is_nan_def)

lemma receptor_ok: "gene_receptor layout g a \<Longrightarrow> assignment_ok layout a"
proof -
  assume "gene_receptor layout g a"
  then obtain lane target where a: "a = receptor (gene_source g) lane target" "lane < lane_end_of g" "lobe_at layout target = Some (cg_target_lobe g)"
    by (auto simp: gene_receptor_def)
  have "lane < (case gene_source g of SensoryChannel \<Rightarrow> SENSORY_LANES | Body \<Rightarrow> BODY_LANES | Homeostasis \<Rightarrow> HOMEOSTASIS_LANES | _ \<Rightarrow> 128)"
    using a(2) by (cases "cg_kind g") (simp_all add: gene_source_def lane_end_of_def sensor_lanes_def SENSORY_LANES_def BODY_LANES_def
        HOMEOSTASIS_LANES_def word_less_nat_alt)
  then show ?thesis using finite_constants a
    by (simp add: assignment_ok_def assignment_validate_def receptor_def assignment_new_def Let_def not_le
        split: SensorEncoderSourceGroup.splits)
qed

lemma port_assignment_ok: "port_ok layout a \<Longrightarrow> assignment_ok layout a"
  using finite_constants by (auto simp: port_ok_def assignment_ok_def assignment_validate_def Let_def not_le)

lemma check_order_sorted:
  "list_all (\<lambda>a. assignment_validate widths a = Inr ()) as \<Longrightarrow> sorted_wrt (<) (map assignment_key as) \<Longrightarrow>
     (\<forall>k. previous = Some k \<longrightarrow> (\<forall>a \<in> set as. k < assignment_key a)) \<Longrightarrow> check_order widths previous as = Inr ()"
  by (induction widths previous as rule: check_order.induct) (auto split: option.splits)

lemma check_order_sorts:
  "check_order widths previous as = Inr () \<Longrightarrow>
     sorted_wrt (<) (map assignment_key as) \<and> (\<forall>k. previous = Some k \<longrightarrow> (\<forall>a \<in> set as. k < assignment_key a))
     \<and> list_all (\<lambda>a. assignment_validate widths a = Inr ()) as"
proof (induction widths previous as rule: check_order.induct)
  case (2 widths previous a as)
  have v: "assignment_validate widths a = Inr ()" and p: "\<not> (case previous of None \<Rightarrow> False | Some prior \<Rightarrow> assignment_key a \<le> prior)"
    and rec: "check_order widths (Some (assignment_key a)) as = Inr ()"
    using "2.prems" by (auto split: if_splits)
  from "2.IH" [OF p rec] have s: "sorted_wrt (<) (map assignment_key as)" "\<forall>a' \<in> set as. assignment_key a < assignment_key a'"
    "list_all (\<lambda>a. assignment_validate widths a = Inr ()) as" by auto
  moreover have "k < assignment_key a" if "previous = Some k" for k using p that by (simp add: not_le)
  ultimately show ?case using v by (auto intro: less_trans)
qed simp

lemma write_f32_finite: "f32_is_finite x \<Longrightarrow> \<exists>d'. write_f32 x d = Inr d'"
  by (simp add: write_f32_def)

lemma encoder_digest_exists:
  assumes "list_all (\<lambda>a. assignment_validate w a = Inr ()) (ep_assignments p)"
  shows "\<exists>d. encoder_recompute_digest p = Inr d"
proof -
  have "\<exists>d'. write_assignment a d = Inr d'" if "a \<in> set (ep_assignments p)" for a d
  proof -
    have "f32_is_finite (ea_scale a)" "f32_is_finite (ea_bias a)" "f32_is_finite (ea_clamp_min a)" "f32_is_finite (ea_clamp_max a)"
      using assms that by (auto simp: list_all_iff assignment_validate_def Let_def split: if_splits)
    then show ?thesis by (auto simp: write_assignment_def write_f32_def)
  qed
  then have "\<exists>d'. try_fold write_assignment as d = Inr d'" if "set as \<subseteq> set (ep_assignments p)" for as d
    using that
  proof (induction as arbitrary: d)
    case (Cons a as)
    then obtain d1 where "write_assignment a d = Inr d1" by fastforce
    then show ?case using Cons by simp
  qed simp
  from this [OF order_refl] obtain d' where "try_fold write_assignment (ep_assignments p)
       (write_sequence_len (length (ep_assignments p)) (write_u16 (ep_homeostasis_lane_count p) (write_u16 (ep_body_lane_count p)
       (write_u16 (ep_sensory_lane_count p) (write_u16 (profile_raw (ep_sensor_profile p))
       (write_u16 (ep_schema_version p) (digest_new ENCODER_DOMAIN))))))) = Inr d'" by blast
  then show ?thesis by (cases "finish256 d'") (simp add: encoder_recompute_digest_def)
qed

lemma encoder_digest_ignores_digest: "encoder_recompute_digest (p\<lparr>ep_canonical_digest := d\<rparr>) = encoder_recompute_digest p"
  by (simp add: encoder_recompute_digest_def)

lemma encoder_shape_ignores_digest: "encoder_validate_shape (p\<lparr>ep_canonical_digest := d\<rparr>) = encoder_validate_shape p"
  by (simp add: encoder_validate_shape_def)

lemma encoder_try_new_Inr:
  assumes sorted: "sorted_wrt (<) (map assignment_key as)"
    and ok: "list_all (\<lambda>a. assignment_validate (SENSORY_LANES, BODY_LANES, HOMEOSTASIS_LANES) a = Inr ()) as"
  shows "\<exists>p. encoder_try_new profile as = Inr p \<and> ep_assignments p = as \<and> ep_sensor_profile p = profile \<and> encoder_validate_local p = Inr ()"
proof -
  let ?v = "\<lparr> ep_schema_version = ENCODER_SCHEMA_VERSION, ep_sensor_profile = profile, ep_sensory_lane_count = SENSORY_LANES,
    ep_body_lane_count = BODY_LANES, ep_homeostasis_lane_count = HOMEOSTASIS_LANES, ep_assignments = as, ep_canonical_digest = (0, 0, 0, 0) \<rparr>"
  have shape: "encoder_validate_shape ?v = Inr ()"
    using check_order_sorted [OF ok sorted, of None] by (simp add: encoder_validate_shape_def)
  obtain d where d: "encoder_recompute_digest ?v = Inr d"
    using encoder_digest_exists [of "(SENSORY_LANES, BODY_LANES, HOMEOSTASIS_LANES)" ?v] ok by auto
  have "encoder_try_new profile as = Inr (?v\<lparr>ep_canonical_digest := d\<rparr>)"
    unfolding encoder_try_new_def Let_def shape d and_then_simps ..
  moreover have "encoder_validate_local (?v\<lparr>ep_canonical_digest := d\<rparr>) = Inr ()"
    unfolding encoder_validate_local_def encoder_shape_ignores_digest encoder_digest_ignores_digest shape d by simp
  ultimately show ?thesis by auto
qed

lemma strictly_sorted_by_key:
  "distinct (map f xs) \<Longrightarrow> sorted_wrt (<) (map f (sort_key f xs))" for f :: "'a \<Rightarrow> 'b::linorder"
  by (simp add: strict_sorted_iff distinct_map)

text \<open>The board after all genes, and the ports.\<close>

definition encoder_board :: "SensorInputs \<Rightarrow> LobeLayout \<Rightarrow> compile_fault + ((u8 \<times> u16) set \<times> EncoderBoard)" where
  "encoder_board inputs layout =
     try_fold (place_next_gene inputs layout) (active_genes inputs) ({}, \<lparr> eb_occupied = {}, eb_assignments = [] \<rparr>)"

definition encoder_ports :: "SensorInputs \<Rightarrow> LobeLayout \<Rightarrow> SensorProfile \<Rightarrow> compile_fault + SensorEncoderAssignment list" where
  "encoder_ports inputs layout profile = (if hears_language inputs profile then language_ports inputs layout else Inr [])"

lemma images_apart: "(\<And>x y. x \<in> A \<Longrightarrow> y \<in> B \<Longrightarrow> f x \<noteq> f y) \<Longrightarrow> f ` A \<inter> f ` B = {}"
  by fastforce

lemma compile_encoder_Inr:
  assumes valid: "layout_validate n layout = Inr ()" "unat n < 2 ^ 20"
    and board: "encoder_board inputs layout = Inr (seen, b)" and ports: "encoder_ports inputs layout profile = Inr zs"
  shows "\<exists>p parts. compile_encoder inputs layout profile = Inr p \<and> mset (ep_assignments p) = mset (concat parts @ zs)
    \<and> list_all2 (gene_part layout) (active_genes inputs) parts \<and> (\<forall>a \<in> set zs. port_ok layout a)
    \<and> sorted_wrt (<) (map assignment_key (ep_assignments p)) \<and> ep_sensor_profile p = profile
    \<and> encoder_validate_local p = Inr () \<and> (\<forall>a \<in> set (ep_assignments p). assignment_ok layout a)"
proof -
  have "board_ok \<lparr> eb_occupied = {}, eb_assignments = [] \<rparr>" by (simp add: board_ok_def)
  from genes_placed [OF valid this board [unfolded encoder_board_def]] obtain parts where
    b: "board_ok b" "eb_assignments b = concat parts" "list_all2 (gene_part layout) (active_genes inputs) parts" by auto
  have zs: "\<forall>a \<in> set zs. port_ok layout a" "distinct (map assignment_key zs)"
    using ports language_ports_Inr [OF valid, of inputs zs] by (auto simp: encoder_ports_def split: if_splits)
  have receptors: "\<exists>g. gene_receptor layout g a" if "a \<in> set (concat parts)" for a
    using b(3) that by (fastforce simp: list_all2_conv_all_nth in_set_conv_nth gene_part_def)
  have apart: "group_raw (ea_source_group a) < 4" if "a \<in> set (concat parts)" for a
    using receptors [OF that] gene_lanes(6) by (auto simp: gene_receptor_def)
  have "\<not> group_raw (ea_source_group a) < 4" if "a \<in> set zs" for a
    using zs(1) that by (auto simp: port_ok_def)
  then have "assignment_key x \<noteq> assignment_key y" if "x \<in> set (concat parts)" "y \<in> set zs" for x y
    using apart [OF that(1)] that(2) by (metis assignment_key_def prod.inject)
  then have "assignment_key ` set (concat parts) \<inter> assignment_key ` set zs = {}"
    by (rule images_apart)
  then have distinct: "distinct (map assignment_key (concat parts @ zs))"
    using b(1,2) zs(2) by (simp add: board_ok_def del: set_concat)
  let ?as = "sort_key assignment_key (concat parts @ zs)"
  have ok: "\<forall>a \<in> set (concat parts @ zs). assignment_ok layout a"
    using receptors receptor_ok port_assignment_ok zs(1) by (auto simp del: set_concat)
  have sorted: "sorted_wrt (<) (map assignment_key ?as)" using distinct by (rule strictly_sorted_by_key)
  have "list_all (\<lambda>a. assignment_validate (SENSORY_LANES, BODY_LANES, HOMEOSTASIS_LANES) a = Inr ()) ?as"
    using ok by (simp add: list_all_iff assignment_ok_def del: set_concat set_append) 
  from encoder_try_new_Inr [OF sorted this] obtain p where p: "encoder_try_new profile ?as = Inr p" "ep_assignments p = ?as"
    "ep_sensor_profile p = profile" "encoder_validate_local p = Inr ()" by blast
  have "compile_encoder inputs layout profile = Inr p"
    unfolding compile_encoder_def encoder_board_def [symmetric] board and_then_simps prod.case encoder_ports_def [symmetric] ports
    using p(1) by (simp add: b(2))
  moreover have "mset (ep_assignments p) = mset (concat parts @ zs)" "\<forall>a \<in> set (ep_assignments p). assignment_ok layout a"
    using ok by (simp_all add: p(2) del: set_concat set_append mset_append)
  ultimately show ?thesis using b(3) zs(1) sorted p(2,3,4) by auto
qed

lemma compile_encoder_Inr_parts:
  assumes "compile_encoder inputs layout profile = Inr p"
  shows "\<exists>seen b zs. encoder_board inputs layout = Inr (seen, b) \<and> encoder_ports inputs layout profile = Inr zs"
  using assms unfolding compile_encoder_def encoder_board_def [symmetric] encoder_ports_def [symmetric]
  by (auto simp: and_then_Inr_iff)

section \<open>Compiling never panics\<close>

lemma place_gene_panic_free:
  assumes valid: "layout_validate n layout = Inr ()" "unat n < 2 ^ 20"
  shows "panic_free (place_gene inputs layout g b)"
  unfolding place_gene_def gene_lanes(1) prod.case Let_def cells_def [symmetric] lane_width_of_def [symmetric]
proof (rule panic_free_intros(5) [OF panic_free_enabled_region], goal_cases)
  case (1 region)
  then have r: "gene_region layout g region" using valid by (auto simp: gene_region_def)
  have pos: "cells g region \<noteq> 0" using unat_cells(3) [OF r] by auto
  have "unat (cells g region) + 2 < 2 ^ 32" using unat_cells(2) [OF r] by simp
  let ?x = "splitmix64 (gene_seed inputs g XOR 0xA0761D6478BD642F)"
  have small: "ucast (?x mod ucast (cells g region)) mod cells g region = ucast (?x mod ucast (cells g region))"
    using mod_cells [OF r, of ?x] by (simp add: word_mod_less_divisor mod_word_self word_arith_nat_mod word_less_nat_alt)
  note start = odd_start [OF pos, of "ucast (?x mod ucast (cells g region))", unfolded small]
  obtain s where "coprime_stride (cells g region) (ucast (?x mod ucast (cells g region)) OR 1) = Some s"
    using coprime_stride_returns [OF pos _ conjunct1 [OF start] conjunct2 [OF start]] \<open>unat (cells g region) + 2 < 2 ^ 32\<close> by auto
  then show ?case using pos
    by (auto intro!: panic_free_intros panic_free_try_fold simp: place_lane_def place_copy_def Let_def split: prod.split option.split)
qed

lemma language_ports_panic_free:
  assumes valid: "layout_validate n layout = Inr ()" "unat n < 2 ^ 20"
  shows "panic_free (language_ports inputs layout)"
proof (cases "layout_region MultimodalAssociation layout")
  case (Some region)
  show ?thesis
  proof (cases "lr_enabled region")
    case True
    then have r: "enabled_region MultimodalAssociation layout = Inr region" using Some by (simp add: enabled_region_def)
    note facts = enabled_region_facts [OF valid(1) r]
    have pos: "lr_len region \<noteq> 0" using facts(6) by auto
    have small: "unat (lr_len region) + 2 < 2 ^ 32" using facts(4) valid(2) by simp
    let ?x = "splitmix64 (si_sensor_layout_seed inputs XOR 0x5052494F)"
    have u: "unat (ucast (lr_len region) :: u64) = unat (lr_len region)"
      using small by (simp add: unsigned_ucast_eq take_bit_nat_eq_self)
    have "unat (?x mod ucast (lr_len region)) < unat (lr_len region)" using facts(6) u by (simp add: unat_mod_distrib)
    then have "ucast (?x mod ucast (lr_len region)) < lr_len region"
      using small by (simp add: word_less_nat_alt unsigned_ucast_eq take_bit_nat_eq_self)
    then have "ucast (?x mod ucast (lr_len region)) mod lr_len region = ucast (?x mod ucast (lr_len region))"
      by (simp add: word_arith_nat_mod word_less_nat_alt)
    note start = odd_start [OF pos, of "ucast (?x mod ucast (lr_len region))", unfolded this]
    obtain s where "coprime_stride (lr_len region) (ucast (?x mod ucast (lr_len region)) OR 1) = Some s"
      using coprime_stride_returns [OF pos _ conjunct1 [OF start] conjunct2 [OF start]] small by auto
    then show ?thesis using Some pos by (auto intro!: panic_free_intros simp: language_ports_def Let_def)
  qed (use Some in \<open>simp add: language_ports_def panic_free_intros\<close>)
qed (simp add: language_ports_def panic_free_intros)

lemma compile_encoder_panic_free:
  assumes valid: "layout_validate n layout = Inr ()" "unat n < 2 ^ 20"
  shows "panic_free (compile_encoder inputs layout profile)"
proof -
  have "panic_free (place_next_gene inputs layout g s)" for g s
    unfolding place_next_gene_def Let_def using place_gene_panic_free [OF valid]
    by (auto intro!: panic_free_intros split: prod.split)
  then show ?thesis
    unfolding compile_encoder_def using language_ports_panic_free [OF valid]
    by (auto intro!: panic_free_intros panic_free_try_fold split: prod.split)
qed

end
