(* ===== verification/Encoder_Total.thy ===== *)
theory Encoder_Total
  imports Encoder_Proofs
begin

text \<open>
  Genes that share no lane in a lobe always wire: as long as a lobe has room for a gene's receptors, every
  search of the compiler for a free pair of lane and neuron succeeds.
\<close>

section \<open>Free cells\<close>

definition cell_key :: "SensorChannelGene \<Rightarrow> LobeRegion \<Rightarrow> u32 \<Rightarrow> receptor_key" where
  "cell_key g region c = (target_at g region c, group_raw (gene_source g), lane_at g c)"

definition taken :: "SensorChannelGene \<Rightarrow> LobeRegion \<Rightarrow> EncoderBoard \<Rightarrow> u32 set" where
  "taken g region b = {c. c < cells g region \<and> cell_key g region c \<in> eb_occupied b}"

lemma cell_key_injective:
  assumes r: "gene_region layout g region" and c: "c < cells g region" "c' < cells g region"
    and eq: "cell_key g region c = cell_key g region c'"
  shows "c = c'"
proof -
  have "target_at g region c = target_at g region c'" "lane_at g c = lane_at g c'" using eq by (simp_all add: cell_key_def)
  then have "unat c div unat (lane_width_of g) = unat c' div unat (lane_width_of g)"
    "unat c mod unat (lane_width_of g) = unat c' mod unat (lane_width_of g)"
    using cell_facts(1,2) [OF r c(1)] cell_facts(1,2) [OF r c(2)] by simp_all
  then show ?thesis by (metis div_mult_mod_eq unsigned_word_eqI)
qed

lemma taken_grows:
  assumes r: "gene_region layout g region"
  shows "card (taken g region (place_receptor s lane target b)) \<le> Suc (card (taken g region b))"
proof -
  let ?new = "{c. c < cells g region \<and> cell_key g region c = (target, group_raw s, lane)}"
  have "card ?new \<le> Suc 0"
    using cell_key_injective [OF r] by (subst card_le_Suc0_iff_eq) auto
  moreover have "taken g region (place_receptor s lane target b) = taken g region b \<union> ?new"
    by (auto simp: taken_def place_receptor_def)
  ultimately show ?thesis using card_Un_le [of "taken g region b" ?new] by simp
qed

text \<open>The walk with a coprime stride finds a free cell when one is left.\<close>

lemma probe_None:
  "probe n free advance c = None \<Longrightarrow> i < n \<Longrightarrow> \<not> free ((advance ^^ i) c)"
proof (induction n arbitrary: c i)
  case (Suc n)
  then show ?case by (cases i) (auto split: if_splits simp: funpow_swap1)
qed simp

lemma walk_cells:
  fixes step cursor a :: u32
  assumes "unat a < 2 ^ 25" "step \<le> a" "cursor < a"
  shows "unat (((\<lambda>c. (c + step) mod a) ^^ i) cursor) = (unat cursor + i * unat step) mod unat a"
proof (induction i)
  case (Suc i)
  let ?c = "((\<lambda>c. (c + step) mod a) ^^ i) cursor"
  have "unat ?c < unat a" using Suc assms(3) by (simp add: word_less_nat_alt)
  then have "unat (?c + step) = unat ?c + unat step"
    using assms(1,2) by (subst unat_plus_no_overflow) (simp_all add: word_le_nat_alt)
  then have "unat ((?c + step) mod a) = ((unat cursor + i * unat step) mod unat a + unat step) mod unat a"
    by (simp add: unat_mod_distrib Suc)
  moreover have "((unat cursor + i * unat step) mod unat a + unat step) mod unat a = (unat cursor + Suc i * unat step) mod unat a"
    unfolding mod_add_left_eq by (simp add: ac_simps)
  ultimately show ?case by simp
qed (use assms(3) in \<open>simp add: word_less_nat_alt\<close>)

lemma probe_finds:
  assumes r: "gene_region layout g region" and step: "coprime (unat step) (unat (cells g region))" "step \<le> cells g region"
    and cursor: "cursor < cells g region" and room: "card (taken g region b) < unat (cells g region)"
  shows "probe (unat (cells g region)) (\<lambda>c. cell_key g region c \<notin> eb_occupied b) (\<lambda>c. (c + step) mod cells g region) cursor \<noteq> None"
proof
  assume none: "probe (unat (cells g region)) (\<lambda>c. cell_key g region c \<notin> eb_occupied b) (\<lambda>c. (c + step) mod cells g region) cursor = None"
  let ?walk = "\<lambda>i. ((\<lambda>c. (c + step) mod cells g region) ^^ i) cursor"
  note walk = walk_cells [OF unat_cells(2) [OF r] step(2) cursor]
  have "inj_on ?walk {..<unat (cells g region)}"
    by (rule inj_onI, rule coprime_walk_injective [OF step(1)]) (auto dest: arg_cong [of _ _ unat] simp: walk)
  moreover have "?walk ` {..<unat (cells g region)} \<subseteq> taken g region b"
    using probe_None [OF none] unat_cells(3) [OF r] by (auto simp: taken_def word_less_nat_alt walk)
  moreover have "finite (taken g region b)" by simp
  ultimately have "unat (cells g region) \<le> card (taken g region b)"
    using card_inj_on_le by fastforce
  then show False using room by simp
qed

section \<open>One gene\<close>

text \<open>No receptor of the board is on a lane of the gene in its lobe.\<close>

definition free_for :: "LobeLayout \<Rightarrow> SensorChannelGene \<Rightarrow> u16 \<Rightarrow> EncoderBoard \<Rightarrow> bool" where
  "free_for layout g lane b \<longleftrightarrow>
     (\<forall>target. lobe_at layout target = Some (cg_target_lobe g) \<longrightarrow> (target, group_raw (gene_source g), lane) \<notin> eb_occupied b)"

lemma find_some: "x \<in> set xs \<Longrightarrow> P x \<Longrightarrow> \<exists>y. find P xs = Some y"
  by (metis find_None_iff not_Some_eq)

lemma lanes_place:
  assumes r: "gene_region layout g region" and "\<forall>lane \<in> set ls. free_for layout g lane b" and "distinct ls"
  shows "\<exists>b'. try_fold (place_lane (gene_source g) region first) (enumerate k ls) b = Inr b'
    \<and> card (taken g region b') \<le> card (taken g region b) + length ls"
  using assms(2,3)
proof (induction ls arbitrary: k b)
  case (Cons lane ls)
  let ?targets = "map (\<lambda>shift. lr_start region + (first + word_of_nat k + word_of_nat shift) mod lr_len region) [0..<unat (lr_len region)]"
  let ?t = "lr_start region + (first + word_of_nat k) mod lr_len region"
  have "?t = lr_start region + (first + word_of_nat k + word_of_nat 0) mod lr_len region" by simp
  then have "?t \<in> set ?targets" using bounds(2) [OF r] by (auto intro!: image_eqI [of _ _ 0])
  moreover have "unat ((first + word_of_nat k) mod lr_len region) < unat (lr_len region)"
    using bounds(2) [OF r] by (simp add: unat_mod_distrib)
  from in_lobe [OF r this] have "(?t, group_raw (gene_source g), lane) \<notin> eb_occupied b"
    using Cons.prems(1) by (simp add: free_for_def)
  ultimately obtain target where "find (\<lambda>t. (t, group_raw (gene_source g), lane) \<notin> eb_occupied b) ?targets = Some target"
    using find_some [of ?t ?targets "\<lambda>t. (t, group_raw (gene_source g), lane) \<notin> eb_occupied b"] by blast
  then have step: "place_lane (gene_source g) region first (k, lane) b = Inr (place_receptor (gene_source g) lane target b)"
    by (simp add: place_lane_def)
  have "\<forall>l \<in> set ls. free_for layout g l (place_receptor (gene_source g) lane target b)"
    using Cons.prems by (auto simp: free_for_def place_receptor_def)
  from Cons.IH [OF this, of "Suc k"] Cons.prems(2) obtain b' where
    "try_fold (place_lane (gene_source g) region first) (enumerate (Suc k) ls) (place_receptor (gene_source g) lane target b) = Inr b'"
    "card (taken g region b') \<le> card (taken g region (place_receptor (gene_source g) lane target b)) + length ls" by auto
  then show ?case using step taken_grows [OF r, of "gene_source g" lane target b] by simp
qed simp

lemma copies_place:
  assumes r: "gene_region layout g region" and step: "coprime (unat step) (unat (cells g region))" "step \<le> cells g region"
    and "cursor < cells g region" and "card (taken g region b) + length is \<le> unat (cells g region)"
  shows "\<exists>s. try_fold (place_copy (gene_source g) region (lane_start_of g) (lane_width_of g) (cells g region) step) is (cursor, b) = Inr s"
  using assms(4,5)
proof (induction "is" arbitrary: cursor b)
  case (Cons i "is")
  have "probe (unat (cells g region)) (\<lambda>c. cell_key g region c \<notin> eb_occupied b) (\<lambda>c. (c + step) mod cells g region) cursor \<noteq> None"
    by (rule probe_finds [OF r step Cons.prems(1)]) (use Cons.prems(2) in simp)
  then obtain c c' where p: "probe (unat (cells g region)) (\<lambda>c. cell_key g region c \<notin> eb_occupied b) (\<lambda>c. (c + step) mod cells g region) cursor = Some (c, c')"
    by fastforce
  have next_cell: "(x + step) mod cells g region < cells g region" for x
    using unat_cells(3) [OF r] by (simp add: word_less_nat_alt unat_mod_distrib)
  have "c' < cells g region"
    using probe_Some [where P = "\<lambda>c. c < cells g region", OF p Cons.prems(1)] next_cell by simp
  moreover have "place_copy (gene_source g) region (lane_start_of g) (lane_width_of g) (cells g region) step i (cursor, b)
      = Inr (c', place_receptor (gene_source g) (lane_at g c) (target_at g region c) b)"
    using p by (simp add: place_copy_def Let_def cell_key_def lane_at_def target_at_def)
  moreover have "card (taken g region (place_receptor (gene_source g) (lane_at g c) (target_at g region c) b)) + length is \<le> unat (cells g region)"
    using taken_grows [OF r, of "gene_source g" "lane_at g c" "target_at g region c" b] Cons.prems(2) by simp
  ultimately show ?case using Cons.IH by simp
qed simp

lemma gene_stride:
  assumes r: "gene_region layout g region"
  shows "\<exists>s. coprime_stride (cells g region) (ucast ((x :: u64) mod ucast (cells g region)) OR 1) = Some s
    \<and> coprime (unat s) (unat (cells g region)) \<and> s \<le> cells g region"
proof -
  have pos: "cells g region \<noteq> 0" using unat_cells(3) [OF r] by auto
  have "ucast (x mod ucast (cells g region)) mod cells g region = ucast (x mod ucast (cells g region))"
    using mod_cells [OF r, of x] by (simp add: word_arith_nat_mod word_less_nat_alt)
  note start = odd_start [OF pos, of "ucast (x mod ucast (cells g region))", unfolded this]
  show ?thesis
    using coprime_stride_returns [OF pos _ conjunct1 [OF start] conjunct2 [OF start]] unat_cells(2) [OF r] by simp
qed

definition has_room :: "LobeLayout \<Rightarrow> SensorChannelGene \<Rightarrow> bool" where
  "has_room layout g \<longleftrightarrow> (\<exists>region. enabled_region (cg_target_lobe g) layout = Inr region
     \<and> unat (cg_receptor_count g) \<le> unat (lr_len region) * unat (lane_width_of g))"

lemma place_gene_total:
  assumes valid: "layout_validate n layout = Inr ()" "unat n < 2 ^ 20" and room: "has_room layout g"
    and free: "\<forall>lane \<in> set (lane_order g). free_for layout g lane b"
  shows "\<exists>b'. place_gene inputs layout g b = Inr b'"
proof -
  obtain region where region: "enabled_region (cg_target_lobe g) layout = Inr region"
    and count: "unat (cg_receptor_count g) \<le> unat (lr_len region) * unat (lane_width_of g)"
    using room by (auto simp: has_room_def)
  have r: "gene_region layout g region" using valid region by (auto simp: gene_region_def)
  have pos: "cells g region \<noteq> 0" using unat_cells(3) [OF r] by auto
  have "unat (ucast (cg_receptor_count g) :: u32) = unat (cg_receptor_count g)"
    using unsigned_less [where 'a = nat, of "cg_receptor_count g"] by (simp add: unsigned_ucast_eq take_bit_nat_eq_self)
  then have fits: "\<not> cells g region < ucast (cg_receptor_count g)" using count unat_cells(1) [OF r] by (simp add: word_less_nat_alt)
  obtain step where step: "coprime_stride (cells g region)
      (ucast (splitmix64 (gene_seed inputs g XOR 0xA0761D6478BD642F) mod ucast (cells g region)) OR 1) = Some step"
    "coprime (unat step) (unat (cells g region))" "step \<le> cells g region" using gene_stride [OF r] by blast
  let ?ls = "take (lane_count g region) (lane_order g)"
  let ?first = "if feels_body g then 0 else ucast (splitmix64 (gene_seed inputs g) mod ucast (lr_len region))"
  have empty: "taken g region b = {}"
    using free cell_facts(4,5) [OF r] by (auto simp: taken_def cell_key_def free_for_def lane_order_facts(1))
  obtain b1 where lanes: "try_fold (place_lane (gene_source g) region ?first) (enumerate 0 ?ls) b = Inr b1"
    and few: "card (taken g region b1) \<le> length ?ls"
    using lanes_place [OF r, of ?ls b ?first 0] free lane_order_facts(3) [of g] empty by (auto dest: in_set_takeD)
  have "length ?ls = lane_count g region" by simp
  then have "card (taken g region b1) \<le> lane_count g region" using few by simp
  moreover have "lane_count g region \<le> unat (cg_receptor_count g)" by simp
  ultimately have "card (taken g region b1) + length [lane_count g region..<unat (cg_receptor_count g)] \<le> unat (cells g region)"
    using count unat_cells(1) [OF r] unfolding length_upt by linarith
  from copies_place [OF r step(2,3) mod_cells [OF r] this]
  obtain s where copies: "try_fold (place_copy (gene_source g) region (lane_start_of g) (lane_width_of g) (cells g region) step)
      [lane_count g region..<unat (cg_receptor_count g)] (ucast (splitmix64 (gene_seed inputs g) mod ucast (cells g region)), b1) = Inr s"
    by blast
  show ?thesis
    unfolding place_gene_def gene_lanes(1) prod.case Let_def cells_def [symmetric] lane_width_of_def [symmetric] region and_then_simps
      if_not_P [OF fits] if_not_P [OF pos] step(1) ok_or_simps lanes copies
    by (simp split: prod.split)
qed

section \<open>All genes\<close>

definition shares_lane :: "SensorChannelGene \<Rightarrow> SensorChannelGene \<Rightarrow> bool" where
  "shares_lane g h \<longleftrightarrow> cg_target_lobe g = cg_target_lobe h \<and> gene_source g = gene_source h
     \<and> lane_start_of g < lane_end_of h \<and> lane_start_of h < lane_end_of g"

lemma shares_lane_self: "cg_kind g = cg_kind h \<Longrightarrow> cg_target_lobe g = cg_target_lobe h \<Longrightarrow> shares_lane g h"
  by (cases "cg_kind h") (simp_all add: shares_lane_def gene_source_def lane_start_of_def lane_end_of_def sensor_lanes_def)

lemma gene_raw_injective: "group_raw s = group_raw t \<longleftrightarrow> s = t" "channel_raw k = channel_raw k' \<longleftrightarrow> k = k'" "lobe_raw l = lobe_raw l' \<longleftrightarrow> l = l'"
    apply (cases s; cases t; simp)
   apply (cases k; cases k'; simp)
  apply (cases l; cases l'; simp)
  done

lemma others_leave_free:
  assumes "board_ok b" and "\<forall>a \<in> set (eb_assignments b). \<exists>h \<in> H. gene_receptor layout h a" and "\<forall>h \<in> H. \<not> shares_lane h g"
    and lane: "lane \<in> set (lane_order g)"
  shows "free_for layout g lane b"
  unfolding free_for_def
proof (intro allI impI notI)
  fix target
  assume at: "lobe_at layout target = Some (cg_target_lobe g)" and "(target, group_raw (gene_source g), lane) \<in> eb_occupied b"
  then obtain a where a: "a \<in> set (eb_assignments b)" "assignment_key a = (target, group_raw (gene_source g), lane)"
    using assms(1) by (auto simp: board_ok_def)
  then obtain h l where h: "h \<in> H" "a = receptor (gene_source h) l (ea_target_neuron a)" "lane_start_of h \<le> l" "l < lane_end_of h"
    "lobe_at layout (ea_target_neuron a) = Some (cg_target_lobe h)"
    using assms(2) by (auto simp: gene_receptor_def)
  have "assignment_key a = (ea_target_neuron a, group_raw (gene_source h), l)" using h(2) by (metis receptor_fields(1))
  then have "l = lane" "gene_source h = gene_source g" "cg_target_lobe h = cg_target_lobe g"
    using a(2) at h(5) by (simp_all add: gene_raw_injective)
  then have "shares_lane h g" using h(3,4) lane by (auto simp: shares_lane_def lane_order_facts(1))
  then show False using assms(3) h(1) by blast
qed

definition gene_key :: "SensorChannelGene \<Rightarrow> u8 \<times> u16" where
  "gene_key g = (channel_raw (cg_kind g), lobe_raw (cg_target_lobe g))"

lemma genes_wire:
  assumes valid: "layout_validate n layout = Inr ()" "unat n < 2 ^ 20"
    and "board_ok b" and "\<forall>a \<in> set (eb_assignments b). \<exists>h \<in> H. gene_receptor layout h a" and "\<forall>h \<in> H. \<forall>g \<in> set gs. \<not> shares_lane h g"
    and "\<forall>g \<in> set gs. has_room layout g" and "sorted_wrt (\<lambda>g h. \<not> shares_lane g h) gs" and "seen = gene_key ` H"
  shows "\<exists>s. try_fold (place_next_gene inputs layout) gs (seen, b) = Inr s"
  using assms(3-)
proof (induction gs arbitrary: seen b H)
  case (Cons g gs)
  have "\<forall>lane \<in> set (lane_order g). free_for layout g lane b"
    using others_leave_free [OF Cons.prems(1,2)] Cons.prems(3) by simp
  then obtain b' where b': "place_gene inputs layout g b = Inr b'"
    using place_gene_total [OF valid] Cons.prems(4) by (meson list.set_intros(1))
  from place_gene_part [OF valid Cons.prems(1) b'] obtain zs where zs: "board_ok b'" "eb_assignments b' = eb_assignments b @ zs" "gene_part layout g zs"
    by blast
  have "gene_key h \<noteq> gene_key g" if "h \<in> H" for h
    using that Cons.prems(3) shares_lane_self by (auto simp: gene_key_def gene_raw_injective)
  then have "gene_key g \<notin> seen" using Cons.prems(6) by force
  then have step: "place_next_gene inputs layout g (seen, b) = Inr (gene_key ` insert g H, b')"
    using b' Cons.prems(6) by (simp add: place_next_gene_def gene_key_def [symmetric])
  have "\<exists>s. try_fold (place_next_gene inputs layout) gs (gene_key ` insert g H, b') = Inr s"
    by (rule Cons.IH [where H = "insert g H"]) (use Cons.prems zs in \<open>auto simp: gene_part_def\<close>)
  then show ?case using step by simp
qed simp

text \<open>The genes of the list wire in any order, so the order of the seeds does not matter.\<close>

definition lanes_apart :: "SensorChannelGene list \<Rightarrow> bool" where
  "lanes_apart gs \<longleftrightarrow> sorted_wrt (\<lambda>g h. \<not> shares_lane g h) gs"

lemma lanes_apart_mset: "mset gs = mset hs \<Longrightarrow> lanes_apart gs \<Longrightarrow> lanes_apart hs"
proof (induction hs arbitrary: gs)
  case (Cons h hs)
  then obtain xs ys where gs: "gs = xs @ h # ys" by (metis in_set_conv_decomp list.set_intros(1) set_mset_mset)
  then have "mset (xs @ ys) = mset hs" using Cons.prems(1) by simp
  moreover have "lanes_apart (xs @ ys)" "\<forall>x \<in> set xs. \<not> shares_lane x h" "\<forall>y \<in> set ys. \<not> shares_lane h y"
    using Cons.prems(2) by (auto simp: lanes_apart_def gs sorted_wrt_append)
  moreover have "set (xs @ ys) = set hs" using calculation(1) by (metis set_mset_mset)
  moreover have "shares_lane x y \<longleftrightarrow> shares_lane y x" for x y by (auto simp: shares_lane_def)
  ultimately show ?case using Cons.IH [of "xs @ ys"] by (auto simp: lanes_apart_def)
qed (simp add: lanes_apart_def)

lemma sorted_wrt_filter: "sorted_wrt R xs \<Longrightarrow> sorted_wrt R (filter P xs)"
  by (induction xs) auto

lemma encoder_board_total:
  assumes valid: "layout_validate n layout = Inr ()" "unat n < 2 ^ 20"
    and "\<forall>g \<in> set (si_channels inputs). has_room layout g" and "lanes_apart (si_channels inputs)"
  shows "\<exists>s. encoder_board inputs layout = Inr s"
proof -
  have "lanes_apart (filter (gene_is_active inputs) (si_channels inputs))"
    using assms(4) by (simp add: lanes_apart_def sorted_wrt_filter)
  then have "lanes_apart (active_genes inputs)" by (rule lanes_apart_mset [rotated]) (simp add: active_genes_def)
  moreover have "\<forall>g \<in> set (active_genes inputs). has_room layout g" using assms(3) by (simp add: active_genes_def)
  ultimately show ?thesis
    unfolding encoder_board_def
    by (intro genes_wire [OF valid, where H = "{}"]) (simp_all add: lanes_apart_def board_ok_def)
qed

lemma language_ports_total:
  assumes "layout_validate n layout = Inr ()" "unat n < 2 ^ 20"
  shows "\<exists>zs. language_ports inputs layout = Inr zs"
proof -
  have "language_ports inputs layout \<noteq> Inl (Fails e)" for e
    by (auto simp: language_ports_def Let_def and_then_def ok_or_def split: option.splits if_splits sum.splits)
  then show ?thesis using language_ports_panic_free [OF assms] unfolding panic_free_def
    by (metis fault.exhaust sumE)
qed

lemma encoder_compiles:
  assumes "layout_validate n layout = Inr ()" "unat n < 2 ^ 20"
    and "\<forall>g \<in> set (si_channels inputs). has_room layout g" and "lanes_apart (si_channels inputs)"
  shows "\<exists>p. compile_encoder inputs layout profile = Inr p"
proof -
  obtain seen b where b: "encoder_board inputs layout = Inr (seen, b)" using encoder_board_total [OF assms] by auto
  obtain zs where z: "encoder_ports inputs layout profile = Inr zs"
    using language_ports_total [OF assms(1,2), of inputs] by (cases "hears_language inputs profile") (auto simp: encoder_ports_def)
  from compile_encoder_Inr [OF assms(1,2) b z] show ?thesis by blast
qed

lemma encoder_plan:
  assumes valid: "layout_validate n layout = Inr ()" "unat n < 2 ^ 20" and p: "compile_encoder inputs layout profile = Inr p"
  shows "\<exists>parts ports. mset (ep_assignments p) = mset (concat parts @ ports) \<and> list_all2 (gene_part layout) (active_genes inputs) parts
    \<and> (\<forall>a \<in> set ports. port_ok layout a) \<and> (\<not> hears_language inputs profile \<longrightarrow> ports = [])"
    and "sorted_wrt (<) (map assignment_key (ep_assignments p))" "ep_sensor_profile p = profile" "encoder_validate_local p = Inr ()"
    "\<forall>a \<in> set (ep_assignments p). assignment_ok layout a"
proof -
  from compile_encoder_Inr_parts [OF p] obtain seen b zs where b: "encoder_board inputs layout = Inr (seen, b)" "encoder_ports inputs layout profile = Inr zs"
    by blast
  have "\<not> hears_language inputs profile \<Longrightarrow> zs = []" using b(2) by (simp add: encoder_ports_def)
  moreover obtain p' parts where q: "compile_encoder inputs layout profile = Inr p'" "mset (ep_assignments p') = mset (concat parts @ zs)"
    "list_all2 (gene_part layout) (active_genes inputs) parts" "\<forall>a \<in> set zs. port_ok layout a"
    "sorted_wrt (<) (map assignment_key (ep_assignments p'))" "ep_sensor_profile p' = profile" "encoder_validate_local p' = Inr ()"
    "\<forall>a \<in> set (ep_assignments p'). assignment_ok layout a"
    using compile_encoder_Inr [OF valid b] by blast
  moreover have "p' = p" using q(1) p by simp
  ultimately show "\<exists>parts ports. mset (ep_assignments p) = mset (concat parts @ ports) \<and> list_all2 (gene_part layout) (active_genes inputs) parts
      \<and> (\<forall>a \<in> set ports. port_ok layout a) \<and> (\<not> hears_language inputs profile \<longrightarrow> ports = [])"
    and "sorted_wrt (<) (map assignment_key (ep_assignments p))" "ep_sensor_profile p = profile" "encoder_validate_local p = Inr ()"
    "\<forall>a \<in> set (ep_assignments p). assignment_ok layout a" by blast+
qed

lemma encoder_accepts:
  assumes "layout_validate n layout = Inr ()" and "unat n < 2 ^ 20" and "compile_encoder inputs layout profile = Inr p"
  shows "sorted_wrt (<) (map assignment_key (ep_assignments p)) \<and> encoder_validate_against profile layout p = Inr ()
    \<and> encoder_deserialize p = Inr p"
proof -
  note plan = encoder_plan [OF assms]
  have "\<exists>region. lobe_by_neuron_index (ea_target_neuron a) layout = Some region \<and> lr_enabled region" if mem: "a \<in> set (ep_assignments p)" for a
  proof -
    obtain region where region: "lobe_by_neuron_index (ea_target_neuron a) layout = Some region"
      using bspec [OF plan(5) mem] by (auto simp: assignment_ok_def lobe_at_def)
    then have "region \<in> set (enabled_regions layout)" unfolding lobe_by_neuron_index_def find_Some_iff by (metis nth_mem)
    then show ?thesis using region by (simp add: enabled_regions_def)
  qed
  then have "encoder_validate_against profile layout p = Inr ()"
    using plan(3,4) unfolding encoder_validate_against_def by fastforce
  then show ?thesis using plan(2,4) by (simp add: encoder_deserialize_def)
qed

end
