(* ===== verification/Encoder_Examples.thy ===== *)
theory Encoder_Examples
  imports Encoder_Total
begin

text \<open>
  The properties of the encoder compiler, and a genome that has them: the minimal grounded sensor layout on
  the frozen layout of the 2048-neuron class.
\<close>

section \<open>Properties\<close>

text \<open>
  C30. A compiled plan wires exactly the active genes. Each of them has exactly its receptor count, every
  one of its receptors is on one of its lanes and on a neuron of its lobe, and the lanes at the front of its
  order are all covered, as many as its lobe has neurons for. Beyond them there are only language ports,
  all in the multimodal association lobe, and only when the creature hears.
\<close>

theorem encoder_places_every_receptor:
  assumes "layout_validate n layout = Inr ()" and "unat n < 2 ^ 20" and "compile_encoder inputs layout profile = Inr p"
  shows "\<exists>parts ports. mset (ep_assignments p) = mset (concat parts @ ports) \<and> list_all2 (gene_part layout) (active_genes inputs) parts
    \<and> (\<forall>a \<in> set ports. port_ok layout a) \<and> (\<not> hears_language inputs profile \<longrightarrow> ports = [])"
  by (rule encoder_plan(1) [OF assms])

text \<open>
  C31. A compiled plan is valid: no receptor occurs twice, the receptors are in their canonical order, the
  plan passes the validation against the phenotype it was compiled for, and reading it back gives it again.
\<close>

theorem encoder_plan_is_valid:
  assumes "layout_validate n layout = Inr ()" and "unat n < 2 ^ 20" and "compile_encoder inputs layout profile = Inr p"
  shows "sorted_wrt (<) (map assignment_key (ep_assignments p)) \<and> encoder_validate_against profile layout p = Inr ()
    \<and> encoder_deserialize p = Inr p"
  by (rule encoder_accepts [OF assms])

text \<open>
  C32. Genes that share no lane in a lobe always wire: when every gene of the layout has a lobe with room
  for its receptors, the compiler returns a plan, whatever the seed, the maturation and the active channels.
  Its searches for a free pair of lane and neuron all succeed.
\<close>

theorem disjoint_genes_always_wire:
  assumes "layout_validate n layout = Inr ()" and "unat n < 2 ^ 20"
    and "\<forall>g \<in> set (si_channels inputs). has_room layout g" and "lanes_apart (si_channels inputs)"
  shows "\<exists>p. compile_encoder inputs layout profile = Inr p"
  by (rule encoder_compiles [OF assms])

text \<open>
  On a validated layout the encoder compiler ends with a plan or an error, whatever the genes: it
  never divides by zero, and every search for a coprime stride ends.
\<close>

lemma compile_encoder_never_panics:
  assumes "layout_validate n layout = Inr ()" and "unat n < 2 ^ 20"
  shows "compile_encoder inputs layout profile \<noteq> Inl Panics"
  using compile_encoder_panic_free [OF assms] by (simp add: panic_free_def)

section \<open>Witnesses\<close>

definition grounded_inputs :: SensorInputs where
  "grounded_inputs = \<lparr> si_sensor_layout_seed = 7, si_channels = sensor_layout_minimal_grounded,
     si_maturation = f32_one, si_active_sensor_channels = [] \<rparr>"

lemma grounded_genes_apart: "lanes_apart (si_channels grounded_inputs)"
  by (simp add: grounded_inputs_def sensor_layout_minimal_grounded_def channel_gene_def lanes_apart_def shares_lane_def
      gene_source_def lane_start_of_def lane_end_of_def sensor_lanes_def)

lemma grounded_genes_fit: "\<forall>g \<in> set (si_channels grounded_inputs). has_room n2048_lobe_layout g"
  by (simp add: grounded_inputs_def sensor_layout_minimal_grounded_def channel_gene_def has_room_def lane_width_of_def
      lane_start_of_def lane_end_of_def sensor_lanes_def n2048_regions region_enabled_simps)

theorem disjoint_genes_always_wire_witness:
  "\<exists>p. compile_encoder grounded_inputs n2048_lobe_layout GroundedTerrainVisionV1 = Inr p"
  by (rule disjoint_genes_always_wire [OF n2048_layout_valid _ grounded_genes_fit grounded_genes_apart]) simp

lemma grounded_plan:
  obtains p where "compile_encoder grounded_inputs n2048_lobe_layout GroundedTerrainVisionV1 = Inr p"
  using encoder_compiles [OF n2048_layout_valid _ grounded_genes_fit grounded_genes_apart] by auto

theorem encoder_places_every_receptor_witness:
  "\<exists>p parts ports. compile_encoder grounded_inputs n2048_lobe_layout GroundedTerrainVisionV1 = Inr p
    \<and> mset (ep_assignments p) = mset (concat parts @ ports)
    \<and> list_all2 (gene_part n2048_lobe_layout) (active_genes grounded_inputs) parts"
proof -
  obtain p where p: "compile_encoder grounded_inputs n2048_lobe_layout GroundedTerrainVisionV1 = Inr p" by (rule grounded_plan)
  show ?thesis using encoder_places_every_receptor [OF n2048_layout_valid _ p] p by auto
qed

theorem encoder_plan_is_valid_witness:
  "\<exists>p. compile_encoder grounded_inputs n2048_lobe_layout GroundedTerrainVisionV1 = Inr p
    \<and> encoder_validate_against GroundedTerrainVisionV1 n2048_lobe_layout p = Inr ()"
proof -
  obtain p where p: "compile_encoder grounded_inputs n2048_lobe_layout GroundedTerrainVisionV1 = Inr p" by (rule grounded_plan)
  show ?thesis using encoder_plan_is_valid [OF n2048_layout_valid _ p] p by auto
qed

theorem compile_encoder_never_panics_witness:
  "compile_encoder grounded_inputs n2048_lobe_layout PrivilegedAffordanceV1 \<noteq> Inl Panics"
  by (rule compile_encoder_never_panics [OF n2048_layout_valid]) simp

end
