(* ===== verification/Decoder_Plans.thy ===== *)
theory Decoder_Plans
  imports Budgets Chemistry
begin

text \<open>
  \<open>crates/alife_core/src/phenotype/memory_channel.rs\<close> and \<open>decoder.rs\<close>: the plans of the heads that turn
  neural activity into action candidates, speech and memory context. A plan carries the digest of its other
  fields. The innate salience of an action family is a function of drives and candidate features.
\<close>

section \<open>The memory channel (memory_channel.rs)\<close>

definition MEMORY_CHANNEL_SCHEMA_VERSION :: u16 where "MEMORY_CHANNEL_SCHEMA_VERSION = 1"

definition MEMORY_CHANNEL_DOMAIN :: bytes where
  "MEMORY_CHANNEL_DOMAIN = map (\<lambda>c. word_of_nat (of_char c)) ''alife.phenotype.memory-channel.v1''"

definition TARGET_LATENT_WIDTH :: u32 where "TARGET_LATENT_WIDTH = 8"
definition FAMILY_VALUE_WIDTH :: u32 where "FAMILY_VALUE_WIDTH = 4"
definition MEMORY_FAMILY_COUNT :: u32 where "MEMORY_FAMILY_COUNT = 8"

definition MINIMUM_SYNAPSE_COUNT :: u32 where
  "MINIMUM_SYNAPSE_COUNT = MEMORY_FAMILY_COUNT * (TARGET_LATENT_WIDTH + FAMILY_VALUE_WIDTH)"

record MemoryChannelPlan =
  mc_schema_version :: u16
  mc_target_latent_lane_start :: u32
  mc_family_value_lane_start :: u32
  mc_decoder_input_stride :: u32
  mc_max_candidate_gain :: f32
  mc_memory_decoder_synapse_count :: u32
  mc_canonical_digest :: digest4

definition synapses_per_family :: "MemoryChannelPlan \<Rightarrow> u32" where
  "synapses_per_family p = mc_memory_decoder_synapse_count p div MEMORY_FAMILY_COUNT"

definition memory_validate_shape :: "MemoryChannelPlan \<Rightarrow> unit contract" where
  "memory_validate_shape p =
     (let lane_width = TARGET_LATENT_WIDTH + FAMILY_VALUE_WIDTH
      in if mc_schema_version p \<noteq> MEMORY_CHANNEL_SCHEMA_VERSION
            \<or> mc_target_latent_lane_start p \<noteq> word_of_nat CANDIDATE_FEATURE_COUNT
            \<or> mc_family_value_lane_start p \<noteq> mc_target_latent_lane_start p + TARGET_LATENT_WIDTH
            \<or> mc_decoder_input_stride p \<noteq> mc_target_latent_lane_start p + lane_width
            \<or> mc_max_candidate_gain p \<noteq> f32_lit 5 10
            \<or> mc_memory_decoder_synapse_count p < MINIMUM_SYNAPSE_COUNT
            \<or> mc_memory_decoder_synapse_count p mod MEMORY_FAMILY_COUNT \<noteq> 0
            \<or> synapses_per_family p < lane_width
         then Inl PhenotypeCompile else Inr ())"

definition memory_recompute_digest :: "MemoryChannelPlan \<Rightarrow> digest4 contract" where
  "memory_recompute_digest p =
     and_then (write_f32 (mc_max_candidate_gain p)
       (write_u32 (mc_decoder_input_stride p)
       (write_u32 (mc_family_value_lane_start p)
       (write_u32 (mc_target_latent_lane_start p)
       (write_u16 (mc_schema_version p) (digest_new MEMORY_CHANNEL_DOMAIN)))))) (\<lambda>d.
     Inr (finish256 (write_u32 (mc_memory_decoder_synapse_count p) d)))"

definition memory_try_new_v1 :: "u32 \<Rightarrow> MemoryChannelPlan contract" where
  "memory_try_new_v1 synapse_count =
     (let features = word_of_nat CANDIDATE_FEATURE_COUNT;
          value = \<lparr> mc_schema_version = MEMORY_CHANNEL_SCHEMA_VERSION, mc_target_latent_lane_start = features,
            mc_family_value_lane_start = features + TARGET_LATENT_WIDTH,
            mc_decoder_input_stride = features + TARGET_LATENT_WIDTH + FAMILY_VALUE_WIDTH,
            mc_max_candidate_gain = f32_lit 5 10, mc_memory_decoder_synapse_count = synapse_count,
            mc_canonical_digest = (0, 0, 0, 0) \<rparr>
      in and_then (memory_validate_shape value) (\<lambda>_.
         and_then (memory_recompute_digest value) (\<lambda>d. Inr (value\<lparr>mc_canonical_digest := d\<rparr>))))"

definition memory_validate :: "MemoryChannelPlan \<Rightarrow> unit contract" where
  "memory_validate p =
     and_then (memory_validate_shape p) (\<lambda>_.
     and_then (memory_recompute_digest p) (\<lambda>d.
       if mc_canonical_digest p \<noteq> d then Inl PhenotypeCompile else Inr ()))"

text \<open>Reading a channel: the wire form is compared with the channel of its synapse count.\<close>

datatype memory_wire_fault = ChannelContract ScaffoldContractError | ChannelAbiMismatch

definition memory_deserialize :: "MemoryChannelPlan \<Rightarrow> memory_wire_fault + MemoryChannelPlan" where
  "memory_deserialize wire =
     (case memory_try_new_v1 (mc_memory_decoder_synapse_count wire) of
        Inl e \<Rightarrow> Inl (ChannelContract e)
      | Inr expected \<Rightarrow>
          if mc_schema_version wire \<noteq> mc_schema_version expected
             \<or> mc_target_latent_lane_start wire \<noteq> mc_target_latent_lane_start expected
             \<or> mc_family_value_lane_start wire \<noteq> mc_family_value_lane_start expected
             \<or> mc_decoder_input_stride wire \<noteq> mc_decoder_input_stride expected
             \<or> mc_max_candidate_gain wire \<noteq> mc_max_candidate_gain expected
             \<or> mc_canonical_digest wire \<noteq> mc_canonical_digest expected
          then Inl ChannelAbiMismatch else Inr expected)"

section \<open>Action families (decoder.rs)\<close>

definition DECODER_SCHEMA_VERSION :: u16 where "DECODER_SCHEMA_VERSION = 1"

definition DECODER_DOMAIN :: bytes where
  "DECODER_DOMAIN = map (\<lambda>c. word_of_nat (of_char c)) ''alife.phenotype.candidate-decoder.v1''"

definition FAMILY_COUNT :: nat where "FAMILY_COUNT = 8"
definition INNATE_NONCONTACT_CUE :: u8 where "INNATE_NONCONTACT_CUE = word_of_nat CANDIDATE_FEATURE_COUNT"

record CandidateDecoderFamilyPlan =
  df_family :: CandidateActionFamily
  df_bias :: f32
  df_innate_drive_mask :: u32
  df_innate_gain :: f32
  df_innate_cue_lane :: "u8 option"
  df_innate_cue_inverted :: bool
  df_innate_requires_reach :: bool
  df_synapse_start :: u32
  df_synapse_count :: u32

definition family_plan_new :: "CandidateActionFamily \<Rightarrow> f32 \<Rightarrow> u32 \<Rightarrow> u32 \<Rightarrow> CandidateDecoderFamilyPlan" where
  "family_plan_new family bias start len = \<lparr>
     df_family = family, df_bias = bias, df_innate_drive_mask = 0, df_innate_gain = f32_zero,
     df_innate_cue_lane = None, df_innate_cue_inverted = False, df_innate_requires_reach = False,
     df_synapse_start = start, df_synapse_count = len \<rparr>"

definition with_innate_priority ::
  "u32 \<Rightarrow> f32 \<Rightarrow> u8 option \<Rightarrow> bool \<Rightarrow> bool \<Rightarrow> CandidateDecoderFamilyPlan \<Rightarrow> CandidateDecoderFamilyPlan" where
  "with_innate_priority drive_mask gain cue inverted reach p = p\<lparr>
     df_innate_drive_mask := drive_mask, df_innate_gain := gain, df_innate_cue_lane := cue,
     df_innate_cue_inverted := inverted, df_innate_requires_reach := reach\<rparr>"

text \<open>A feature vector has 24 lanes; the cue lane indexes it, so a lane beyond them panics.\<close>

definition f32_abs :: "f32 \<Rightarrow> f32" where "f32_abs x = x AND 0x7FFFFFFF"

definition noncontact_bearing :: "f32 list \<Rightarrow> f32" where
  "noncontact_bearing features =
     f32_mul (f32_sub f32_one (features ! 18))
       (f32_clamp f32_zero f32_one (f32_add (f32_abs (features ! 0)) (f32_abs (features ! 1))))"

definition cue_signal :: "f32 list \<Rightarrow> u8 \<Rightarrow> ScaffoldContractError fault + f32" where
  "cue_signal features lane =
     (if lane = INNATE_NONCONTACT_CUE then
        let chem = features ! 15;
            valence_scale = (if f32_lt chem (f32_neg (f32_lit 2 10)) then f32_zero
              else if f32_lt (f32_lit 2 10) chem then f32_one else f32_lit 75 100)
        in Inr (f32_mul (noncontact_bearing features) valence_scale)
      else elem_at features (unat lane))"

definition cue_strength :: "CandidateDecoderFamilyPlan \<Rightarrow> f32 list \<Rightarrow> ScaffoldContractError fault + f32" where
  "cue_strength p features =
     (case df_innate_cue_lane p of
        None \<Rightarrow> Inr f32_one
      | Some lane \<Rightarrow>
          and_then (cue_signal features lane) (\<lambda>signal.
            let signal = (if df_family p = FamilyAvoid \<and> lane = 15 \<and> df_innate_cue_inverted p
                             \<and> \<not> df_innate_requires_reach p \<and> f32_eq (features ! 18) f32_zero
                          then noncontact_bearing features
                          else if df_innate_cue_inverted p then f32_neg signal else signal)
            in Inr (f32_clamp f32_zero f32_one (f32_div (f32_sub signal (f32_lit 4 10)) (f32_lit 6 10)))))"

definition urgency :: "CandidateDecoderFamilyPlan \<Rightarrow> DriveSnapshot \<Rightarrow> f32" where
  "urgency p drives =
     fold (\<lambda>(lane, value) worst. if bit (df_innate_drive_mask p) lane then f32_max worst value else worst)
       (enumerate 0 (drive_to_array drives)) f32_zero"

definition innate_contribution ::
  "CandidateDecoderFamilyPlan \<Rightarrow> DriveSnapshot \<Rightarrow> f32 list \<Rightarrow> ScaffoldContractError fault + f32" where
  "innate_contribution p drives features =
     and_then (cue_strength p features) (\<lambda>cue.
       let reach = (if df_innate_requires_reach p
             then f32_clamp f32_zero f32_one (f32_div (f32_sub (f32_lit 25 100) (features ! 2)) (f32_lit 15 100))
             else f32_one)
       in Inr (f32_mul (f32_mul (f32_mul (f32_max (f32_sub (urgency p drives) (f32_lit 55 100)) f32_zero)
            (df_innate_gain p)) cue) reach))"

section \<open>Candidate decoders\<close>

record CandidateDecoderPlan =
  cd_schema_version :: u16
  cd_motor_start :: u32
  cd_motor_width :: u16
  cd_feature_count :: u16
  cd_flattened_input_lane_count :: u16
  cd_memory_channel :: "MemoryChannelPlan option"
  cd_families :: "CandidateDecoderFamilyPlan list"
  cd_canonical_digest :: digest4

definition decoder_synapse_total :: "CandidateDecoderPlan \<Rightarrow> u32" where
  "decoder_synapse_total p =
     (case try_fold (\<lambda>row s. ok_or () (checked_add s (df_synapse_count row))) (cd_families p) 0 of
        Inl _ \<Rightarrow> - 1 | Inr s \<Rightarrow> s)"

text \<open>The checks on a row that its place does not enter.\<close>

definition row_malformed :: "CandidateDecoderFamilyPlan \<Rightarrow> bool" where
  "row_malformed row \<longleftrightarrow>
     df_bias row \<noteq> f32_zero
     \<or> df_innate_drive_mask row AND NOT 0x1FF \<noteq> 0
     \<or> \<not> f32_is_finite (df_innate_gain row)
     \<or> f32_lt (f32_of_nat 128) (f32_abs (df_innate_gain row))
     \<or> (case df_innate_cue_lane row of None \<Rightarrow> False | Some lane \<Rightarrow> INNATE_NONCONTACT_CUE < lane)
     \<or> df_innate_cue_lane row = Some INNATE_NONCONTACT_CUE
         \<and> (df_family row \<noteq> FamilyApproach \<or> df_innate_cue_inverted row \<or> df_innate_requires_reach row)
     \<or> df_innate_cue_inverted row \<and> df_innate_cue_lane row = None
     \<or> df_innate_drive_mask row = 0
         \<and> (\<not> f32_eq (df_innate_gain row) f32_zero \<or> df_innate_cue_lane row \<noteq> None
            \<or> df_innate_cue_inverted row \<or> df_innate_requires_reach row)
     \<or> df_innate_drive_mask row \<noteq> 0 \<and> f32_eq (df_innate_gain row) f32_zero"

definition check_row :: "nat \<times> CandidateDecoderFamilyPlan \<Rightarrow> u32 \<Rightarrow> u32 contract" where
  "check_row item cursor = (case item of (index, row) \<Rightarrow>
     and_then (ok_or PhenotypeCompile (try_of_len index)) (\<lambda>raw.
       if family_raw (df_family row) \<noteq> raw \<or> row_malformed row \<or> df_synapse_start row \<noteq> cursor
       then Inl PhenotypeCompile
       else and_then (family_try_from_raw raw) (\<lambda>_.
              ok_or PhenotypeCompile (checked_add cursor (df_synapse_count row)))))"

definition decoder_validate_shape :: "CandidateDecoderPlan \<Rightarrow> unit contract" where
  "decoder_validate_shape p =
     (if cd_schema_version p \<noteq> DECODER_SCHEMA_VERSION
         \<or> cd_motor_width p = 0
         \<or> cd_feature_count p \<noteq> word_of_nat CANDIDATE_FEATURE_COUNT
         \<or> cd_flattened_input_lane_count p \<noteq>
             (case cd_memory_channel p of
                None \<Rightarrow> word_of_nat CANDIDATE_FEATURE_COUNT
              | Some plan \<Rightarrow> (case try_of_len (unat (mc_decoder_input_stride plan)) of None \<Rightarrow> - 1 | Some n \<Rightarrow> n))
         \<or> length (cd_families p) \<noteq> FAMILY_COUNT
      then Inl PhenotypeCompile
      else
        and_then (case cd_memory_channel p of None \<Rightarrow> Inr () | Some plan \<Rightarrow> memory_validate plan) (\<lambda>_.
        and_then (try_fold check_row (enumerate 0 (cd_families p))
          (case cd_families p of [] \<Rightarrow> 0 | row # _ \<Rightarrow> df_synapse_start row)) (\<lambda>_. Inr ())))"

definition write_family :: "CandidateDecoderFamilyPlan \<Rightarrow> bytes \<Rightarrow> bytes contract" where
  "write_family row d =
     and_then (write_f32 (df_bias row) (write_u8 (family_raw (df_family row)) d)) (\<lambda>d.
     and_then (if df_innate_drive_mask row \<noteq> 0 then
                 and_then (write_f32 (df_innate_gain row) (write_u32 (df_innate_drive_mask row) d)) (\<lambda>d.
                   Inr (write_bool (df_innate_requires_reach row) (write_bool (df_innate_cue_inverted row)
                     (write_u8 (case df_innate_cue_lane row of None \<Rightarrow> 0 | Some lane \<Rightarrow> lane + 1) d))))
               else Inr d) (\<lambda>d.
     Inr (write_u32 (df_synapse_count row) (write_u32 (df_synapse_start row) d))))"

definition decoder_recompute_digest :: "CandidateDecoderPlan \<Rightarrow> digest4 contract" where
  "decoder_recompute_digest p =
     (let d = write_bool (cd_memory_channel p \<noteq> None)
         (write_u16 (cd_flattened_input_lane_count p)
         (write_u16 (cd_feature_count p)
         (write_u16 (cd_motor_width p)
         (write_u32 (cd_motor_start p)
         (write_u16 (cd_schema_version p) (digest_new DECODER_DOMAIN))))));
          d = (case cd_memory_channel p of None \<Rightarrow> d | Some plan \<Rightarrow> write_digest4 (mc_canonical_digest plan) d)
      in and_then (try_fold write_family (cd_families p) (write_sequence_len (length (cd_families p)) d)) (\<lambda>d.
         Inr (finish256 d)))"

definition decoder_validate_local :: "CandidateDecoderPlan \<Rightarrow> unit contract" where
  "decoder_validate_local p =
     and_then (decoder_validate_shape p) (\<lambda>_.
     and_then (decoder_recompute_digest p) (\<lambda>d.
       if d \<noteq> cd_canonical_digest p then Inl PhenotypeCompile else Inr ()))"

definition decoder_try_new ::
  "u32 \<Rightarrow> u16 \<Rightarrow> u16 \<Rightarrow> u16 \<Rightarrow> MemoryChannelPlan option \<Rightarrow> CandidateDecoderFamilyPlan list
   \<Rightarrow> CandidateDecoderPlan contract" where
  "decoder_try_new motor_start motor_width feature_count lanes memory families =
     (let value = \<lparr> cd_schema_version = DECODER_SCHEMA_VERSION, cd_motor_start = motor_start,
            cd_motor_width = motor_width, cd_feature_count = feature_count,
            cd_flattened_input_lane_count = lanes, cd_memory_channel = memory, cd_families = families,
            cd_canonical_digest = (0, 0, 0, 0) \<rparr>
      in and_then (decoder_validate_shape value) (\<lambda>_.
         and_then (decoder_recompute_digest value) (\<lambda>d. Inr (value\<lparr>cd_canonical_digest := d\<rparr>))))"

definition decoder_deserialize :: "CandidateDecoderPlan \<Rightarrow> CandidateDecoderPlan contract" where
  "decoder_deserialize w = and_then (decoder_validate_local w) (\<lambda>_. Inr w)"

section \<open>Checks against the phenotype\<close>

definition FACTORIZED_MOTOR_CHANNEL_COUNT :: nat where "FACTORIZED_MOTOR_CHANNEL_COUNT = 4"

datatype MotorChannel = Locomotion | Orientation | Manipulation | Vocal | Posture | SpeciesSpecific u8

definition FACTORIZED_MOTOR_CHANNELS :: "MotorChannel list" where
  "FACTORIZED_MOTOR_CHANNELS = [Locomotion, Manipulation, Vocal, Posture]"

text \<open>What the decoders read of a compiled phenotype.\<close>

record PhenotypeView =
  pv_brain_class_id :: u16
  pv_motor_head_count :: u8
  pv_motor_head_width :: u16
  pv_cognitive_lane_end :: "u16 option"
  pv_budgets :: CompiledBudgets
  pv_lobe_layout :: LobeLayout
  pv_synapses :: "CompiledSynapse list"

definition factorized_motor_channels :: "PhenotypeView \<Rightarrow> CandidateDecoderPlan \<Rightarrow> MotorChannel list contract" where
  "factorized_motor_channels phenotype p =
     (let head_count = unat (pv_motor_head_count phenotype); width = pv_motor_head_width phenotype
      in if head_count = 0 \<or> FACTORIZED_MOTOR_CHANNEL_COUNT < head_count \<or> width = 0
            \<or> (ucast (cd_motor_width p) :: u32) < ucast width * word_of_nat head_count
         then Inl PhenotypeCompile else Inr (take head_count FACTORIZED_MOTOR_CHANNELS))"

text \<open>\<open>synapses.get(start..end)\<close>: nothing when the end is before the start or past the list.\<close>

definition get_range :: "nat \<Rightarrow> nat \<Rightarrow> 'a list \<Rightarrow> 'a list option" where
  "get_range a b xs = (if a \<le> b \<and> b \<le> length xs then Some (take (b - a) (drop a xs)) else None)"

definition check_candidate_synapse :: "CandidateDecoderPlan \<Rightarrow> CandidateActionFamily \<Rightarrow> CompiledSynapse \<Rightarrow> unit contract" where
  "check_candidate_synapse p family s =
     (case sy_kind s of
        RecurrentSynapse \<Rightarrow> Inl PhenotypeCompile
      | DecoderSynapse c \<Rightarrow>
          if dsc_head c \<noteq> ActionCandidate \<or> dsc_family c \<noteq> family \<or> cd_feature_count p \<le> dsc_input_lane c
             \<or> cd_motor_width p \<le> dsc_motor_index c
             \<or> sy_source s \<noteq> cd_motor_start p + ucast (dsc_motor_index c)
             \<or> sy_target s \<noteq> cd_motor_start p + ucast (dsc_motor_index c)
          then Inl PhenotypeCompile else Inr ())"

definition check_family_range :: "PhenotypeView \<Rightarrow> CandidateDecoderPlan \<Rightarrow> CandidateDecoderFamilyPlan \<Rightarrow> unit contract" where
  "check_family_range phenotype p row =
     and_then (ok_or PhenotypeCompile (checked_add (df_synapse_start row) (df_synapse_count row))) (\<lambda>end'.
     and_then (ok_or PhenotypeCompile (get_range (unat (df_synapse_start row)) (unat end') (pv_synapses phenotype))) (\<lambda>slice.
       check_all (check_candidate_synapse p (df_family row)) slice))"

definition decoder_validate_against :: "PhenotypeView \<Rightarrow> CandidateDecoderPlan \<Rightarrow> unit contract" where
  "decoder_validate_against phenotype p =
     and_then (decoder_validate_local p) (\<lambda>_.
     and_then (factorized_motor_channels phenotype p) (\<lambda>_.
     and_then (supported_for_id (pv_brain_class_id phenotype)) (\<lambda>capacity.
       let execution = bc_execution capacity;
           expected_stride = (case cd_memory_channel p of
               None \<Rightarrow> ucast (xb_candidate_feature_count execution)
             | Some plan \<Rightarrow> mc_decoder_input_stride plan);
           budget = cb_global (pv_budgets phenotype)
       in if cd_feature_count p \<noteq> xb_candidate_feature_count execution
             \<or> ucast (cd_flattened_input_lane_count p) \<noteq> expected_stride
             \<or> (case pv_cognitive_lane_end phenotype of
                  None \<Rightarrow> cd_flattened_input_lane_count p \<noteq> gb_decoder_input_lanes budget
                | Some lane_end \<Rightarrow> lane_end \<noteq> gb_decoder_input_lanes budget)
             \<or> xb_max_decoder_input_lanes execution < cd_flattened_input_lane_count p
             \<or> gb_action_decoder_synapses budget < decoder_synapse_total p
          then Inl PhenotypeCompile
          else
            and_then (ok_or PhenotypeCompile (layout_region ActionPlanning (pv_lobe_layout phenotype))) (\<lambda>motor.
            and_then (ok_or PhenotypeCompile (checked_add (cd_motor_start p) (ucast (cd_motor_width p)))) (\<lambda>motor_end.
              if \<not> lr_enabled motor \<or> cd_motor_width p = 0 \<or> cd_motor_start p < lr_start motor
                 \<or> region_end motor < motor_end
              then Inl PhenotypeCompile
              else check_all (check_family_range phenotype p) (cd_families p))))))"

section \<open>Auxiliary decoders\<close>

definition AUXILIARY_DECODER_SCHEMA_VERSION :: u16 where "AUXILIARY_DECODER_SCHEMA_VERSION = 1"

definition AUXILIARY_DECODER_DOMAIN :: bytes where
  "AUXILIARY_DECODER_DOMAIN = map (\<lambda>c. word_of_nat (of_char c)) ''alife.phenotype.auxiliary-decoder.v1''"

fun head_raw :: "DecoderHeadKind \<Rightarrow> u32" where
  "head_raw ActionCandidate = 1"
| "head_raw MemoryContext = 2"
| "head_raw SpeechPayload = 3"
| "head_raw CognitiveContext = 4"

definition head_try_from_raw :: "u32 \<Rightarrow> DecoderHeadKind contract" where
  "head_try_from_raw raw =
     (case find (\<lambda>h. head_raw h = raw) [ActionCandidate, MemoryContext, SpeechPayload, CognitiveContext] of
        None \<Rightarrow> Inl PhenotypeCompile | Some h \<Rightarrow> Inr h)"

record AuxiliaryDecoderPlan =
  ad_schema_version :: u16
  ad_head :: DecoderHeadKind
  ad_input_width :: u16
  ad_output_width :: u16
  ad_synapse_start :: u32
  ad_synapse_count :: u32
  ad_canonical_digest :: digest4

definition auxiliary_validate_shape :: "AuxiliaryDecoderPlan \<Rightarrow> unit contract" where
  "auxiliary_validate_shape p =
     (if ad_schema_version p \<noteq> AUXILIARY_DECODER_SCHEMA_VERSION
         \<or> ad_head p = ActionCandidate
         \<or> ad_input_width p = 0 \<or> ad_output_width p = 0
         \<or> ad_synapse_count p \<noteq> ucast (ad_input_width p) * ucast (ad_output_width p)
         \<or> checked_add (ad_synapse_start p) (ad_synapse_count p) = None
      then Inl PhenotypeCompile else Inr ())"

definition auxiliary_recompute_digest :: "AuxiliaryDecoderPlan \<Rightarrow> digest4" where
  "auxiliary_recompute_digest p =
     finish256 (write_u32 (ad_synapse_count p)
       (write_u32 (ad_synapse_start p)
       (write_u16 (ad_output_width p)
       (write_u16 (ad_input_width p)
       (write_u32 (head_raw (ad_head p))
       (write_u16 (ad_schema_version p) (digest_new AUXILIARY_DECODER_DOMAIN)))))))"

definition auxiliary_validate_local :: "AuxiliaryDecoderPlan \<Rightarrow> unit contract" where
  "auxiliary_validate_local p =
     and_then (auxiliary_validate_shape p) (\<lambda>_.
       if ad_canonical_digest p \<noteq> auxiliary_recompute_digest p then Inl PhenotypeCompile else Inr ())"

definition auxiliary_try_new :: "DecoderHeadKind \<Rightarrow> u16 \<Rightarrow> u16 \<Rightarrow> u32 \<Rightarrow> u32 \<Rightarrow> AuxiliaryDecoderPlan contract" where
  "auxiliary_try_new head input_width output_width start len =
     (let value = \<lparr> ad_schema_version = AUXILIARY_DECODER_SCHEMA_VERSION, ad_head = head,
            ad_input_width = input_width, ad_output_width = output_width, ad_synapse_start = start,
            ad_synapse_count = len, ad_canonical_digest = (0, 0, 0, 0) \<rparr>
      in and_then (auxiliary_validate_shape value) (\<lambda>_.
         Inr (value\<lparr>ad_canonical_digest := auxiliary_recompute_digest value\<rparr>)))"

definition auxiliary_deserialize :: "AuxiliaryDecoderPlan \<Rightarrow> AuxiliaryDecoderPlan contract" where
  "auxiliary_deserialize w = and_then (auxiliary_validate_local w) (\<lambda>_. Inr w)"

definition is_head :: "DecoderHeadKind \<Rightarrow> CompiledSynapse \<Rightarrow> bool" where
  "is_head head s \<longleftrightarrow> (case sy_kind s of RecurrentSynapse \<Rightarrow> False | DecoderSynapse c \<Rightarrow> dsc_head c = head)"

definition auxiliary_validate_against :: "PhenotypeView \<Rightarrow> AuxiliaryDecoderPlan \<Rightarrow> unit contract" where
  "auxiliary_validate_against phenotype p =
     and_then (auxiliary_validate_local p) (\<lambda>_.
     and_then (ok_or PhenotypeCompile (checked_add (ad_synapse_start p) (ad_synapse_count p))) (\<lambda>end'.
     and_then (ok_or PhenotypeCompile (get_range (unat (ad_synapse_start p)) (unat end') (pv_synapses phenotype))) (\<lambda>slice.
       if list_ex (\<lambda>s. \<not> is_head (ad_head p) s) slice then Inl PhenotypeCompile
       else if length (filter (is_head (ad_head p)) (pv_synapses phenotype)) \<noteq> unat (ad_synapse_count p)
       then Inl PhenotypeCompile else Inr ())))"

end
