(* ===== verification/Decoder_Compile.thy ===== *)
theory Decoder_Compile
  imports Decoder_Plans Encoder
begin

text \<open>
  The decoders of \<open>io_compile.rs\<close>: \<open>compile_decoders\<close> builds the candidate head from the motor genes and
  the memory head from twelve channels per family; the 2048-neuron class has a frozen candidate head of
  sixteen motor units per family, a speech head and a memory head over 64 inputs and 64 outputs. Sums of
  \<open>u32\<close> wrap, as in a release build.
\<close>

section \<open>Genes\<close>

datatype MotorAffordanceKind = Move | Turn | Eat | RestMotor | Interact | Vocalize | Write | Gesture | Reproduce

fun motor_raw :: "MotorAffordanceKind \<Rightarrow> u8" where
  "motor_raw Move = 0"
| "motor_raw Turn = 1"
| "motor_raw Eat = 2"
| "motor_raw RestMotor = 3"
| "motor_raw Interact = 4"
| "motor_raw Vocalize = 5"
| "motor_raw Write = 6"
| "motor_raw Gesture = 7"
| "motor_raw Reproduce = 8"

definition motor_try_from_raw :: "u8 \<Rightarrow> MotorAffordanceKind contract" where
  "motor_try_from_raw raw =
     (case find (\<lambda>k. motor_raw k = raw) [Move, Turn, Eat, RestMotor, Interact, Vocalize, Write, Gesture, Reproduce] of
        None \<Rightarrow> Inl PhenotypeCompile | Some k \<Rightarrow> Inr k)"

record MotorAffordanceGene =
  mg_kind :: MotorAffordanceKind
  mg_enabled :: bool
  mg_motor_lobe_units :: u16
  mg_enabled_at_maturation :: u8

definition motor_gene_validate :: "MotorAffordanceGene \<Rightarrow> unit contract" where
  "motor_gene_validate g =
     (if mg_enabled g \<and> mg_motor_lobe_units g = 0 \<or> 100 < mg_enabled_at_maturation g then Inl ScalarOutOfRange
      else Inr ())"

definition motor_gene :: "MotorAffordanceKind \<Rightarrow> u16 \<Rightarrow> u8 \<Rightarrow> MotorAffordanceGene" where
  "motor_gene kind units maturation = \<lparr>
     mg_kind = kind, mg_enabled = True, mg_motor_lobe_units = units, mg_enabled_at_maturation = maturation \<rparr>"

definition motor_minimal_grounded :: "MotorAffordanceGene list" where
  "motor_minimal_grounded = [motor_gene Move 16 0, motor_gene Eat 8 0, motor_gene RestMotor 8 0, motor_gene Interact 8 20]"

record InnatePriorityGenes =
  ip_reflex_strength :: f32
  ip_food_attraction :: f32
  ip_hazard_aversion :: f32

definition innate_founder :: InnatePriorityGenes where
  "innate_founder = \<lparr> ip_reflex_strength = f32_lit 48 100, ip_food_attraction = f32_lit 58 100,
     ip_hazard_aversion = f32_lit 62 100 \<rparr>"

definition innate_default :: InnatePriorityGenes where
  "innate_default = \<lparr> ip_reflex_strength = f32_zero, ip_food_attraction = f32_zero, ip_hazard_aversion = f32_zero \<rparr>"

definition innate_validate :: "InnatePriorityGenes \<Rightarrow> unit contract" where
  "innate_validate g =
     check_all (\<lambda>v. if \<not> f32_is_finite v \<or> \<not> f32_in_range f32_zero f32_one v then Inl ScalarOutOfRange else Inr ())
       [ip_reflex_strength g, ip_food_attraction g, ip_hazard_aversion g]"

text \<open>What the decoders read of the genome and of the development state.\<close>

record DecoderInputs =
  di_genome :: BrainGenome
  di_innate_priority :: InnatePriorityGenes
  di_motor_affordances :: "MotorAffordanceGene list"
  di_maturation :: f32
  di_active_motor_affordances :: "MotorAffordanceKind list"

section \<open>Weights and innate priorities\<close>

definition io_genetic_weight :: "u64 \<Rightarrow> u16 \<Rightarrow> u32 \<Rightarrow> u32 \<Rightarrow> f32" where
  "io_genetic_weight seed route source target =
     (let bits = splitmix64 (seed XOR push_bit 48 (ucast route) XOR push_bit 16 (ucast source) XOR ucast target)
      in f32_add (f32_lit 2 100)
           (f32_mul (f32_div (f32_of_nat (unat (drop_bit 40 bits))) (f32_of_nat (2 ^ 24 - 1))) (f32_lit 23 100)))"

definition candidate_decoder_weight :: "u64 \<Rightarrow> u16 \<Rightarrow> u32 \<Rightarrow> u32 \<Rightarrow> f32" where
  "candidate_decoder_weight seed route source lane =
     (let magnitude = io_genetic_weight seed route source lane
      in if lane = 2 then f32_neg magnitude else magnitude)"

definition inherited_memory_total :: "CandidateActionFamily \<Rightarrow> u16 \<Rightarrow> f32" where
  "inherited_memory_total family channel =
     (case family of
        FamilyIngest \<Rightarrow>
          if channel = 0 then f32_neg (f32_lit 10 100)
          else if channel = 1 then f32_neg (f32_lit 20 100)
          else if channel = 2 then f32_neg (f32_lit 40 100)
          else if channel = 8 then f32_lit 35 100
          else if channel = 9 then f32_lit 5 100
          else if channel = 10 then f32_neg (f32_lit 55 100)
          else if channel = 11 then f32_lit 25 100
          else f32_zero
      | FamilyAvoid \<Rightarrow>
          if channel = 1 then f32_lit 25 100 else if channel = 2 then f32_lit 50 100 else f32_zero
      | FamilyApproach \<Rightarrow>
          if channel = 1 then f32_neg (f32_lit 15 100) else if channel = 2 then f32_neg (f32_lit 35 100) else f32_zero
      | FamilyContact \<Rightarrow>
          if channel = 1 then f32_neg (f32_lit 15 100) else if channel = 2 then f32_neg (f32_lit 35 100) else f32_zero
      | _ \<Rightarrow> f32_zero)"

definition inherited_memory_decoder_weight :: "CandidateActionFamily \<Rightarrow> u16 \<Rightarrow> u16 \<Rightarrow> f32" where
  "inherited_memory_decoder_weight family channel copies =
     f32_div (inherited_memory_total family channel) (f32_of_nat (unat (max copies 1)))"

definition n2048_memory_channel_synapse_count :: "u16 \<Rightarrow> u16" where
  "n2048_memory_channel_synapse_count channel = (let input_copies = (if channel < 4 then 6 else 5) in 8 * input_copies)"

definition innate_priority_for_family ::
  "InnatePriorityGenes \<Rightarrow> CandidateActionFamily \<Rightarrow> u32 \<times> f32 \<times> u8 option \<times> bool \<times> bool" where
  "innate_priority_for_family genes family =
     (let hunger = 1; fatigue = push_bit 1 1; fear = push_bit 2 1; pain = push_bit 3 1; temperature = push_bit 7 1;
          danger = fear OR pain OR temperature;
          emergency = hunger OR danger;
          object_chemical_cue = 15;
          reflex = ip_reflex_strength genes;
          times = (\<lambda>n gene. f32_mul (f32_mul (f32_of_nat n) reflex) gene);
          priority = (case family of
              FamilyApproach \<Rightarrow> (hunger, times 16 (ip_food_attraction genes), Some INNATE_NONCONTACT_CUE, False, False)
            | FamilyIngest \<Rightarrow> (hunger, times 24 (ip_food_attraction genes), Some object_chemical_cue, False, True)
            | FamilyAvoid \<Rightarrow> (danger, times 24 (ip_hazard_aversion genes), Some object_chemical_cue, True, False)
            | FamilyRest \<Rightarrow> (fatigue, f32_mul (f32_of_nat 8) reflex, None, False, False)
            | _ \<Rightarrow> (emergency, f32_mul (f32_neg (f32_of_nat 8)) reflex, None, False, False))
      in case priority of (_, gain, _) \<Rightarrow>
           if f32_eq gain f32_zero then (0, f32_zero, None, False, False) else priority)"

section \<open>The candidate head\<close>

definition wide_region :: "LobeKind \<Rightarrow> (u32 \<Rightarrow> bool) \<Rightarrow> LobeLayout \<Rightarrow> LobeRegion contract" where
  "wide_region kind fits layout =
     (case layout_region kind layout of
        None \<Rightarrow> Inl PhenotypeCompile
      | Some r \<Rightarrow> if lr_enabled r \<and> fits (lr_len r) then Inr r else Inl PhenotypeCompile)"

definition synapse_count_from :: "u32 \<Rightarrow> CompiledSynapse list \<Rightarrow> u32 contract" where
  "synapse_count_from start synapses =
     and_then (ok_or PhenotypeCompile (try_of_len (length synapses))) (\<lambda>n. Inr (start + n))"

definition candidate_synapse ::
  "DecoderInputs \<Rightarrow> u16 \<Rightarrow> LobeRegion \<Rightarrow> CandidateActionFamily \<Rightarrow> u16 \<Rightarrow> u16 \<Rightarrow> CompiledSynapse" where
  "candidate_synapse inputs route_index motor family input_lane motor_index =
     (let neuron = lr_start motor + ucast motor_index
      in synapse_new neuron neuron
           (candidate_decoder_weight (bg_genetic_prior_seed (di_genome inputs)) route_index neuron (ucast input_lane))
           (decoder_alpha (di_genome inputs) (lr_start motor) neuron) route_index
           (DecoderSynapse \<lparr> dsc_head = ActionCandidate, dsc_family = family, dsc_input_lane = input_lane,
              dsc_motor_index = motor_index \<rparr>))"

definition candidate_rows ::
  "DecoderInputs \<Rightarrow> u16 \<Rightarrow> LobeRegion \<Rightarrow> CandidateActionFamily \<Rightarrow> u16 list \<Rightarrow> CompiledSynapse list" where
  "candidate_rows inputs route_index motor family units =
     concat (map (\<lambda>input_lane. map (candidate_synapse inputs route_index motor family (word_of_nat input_lane)) units)
       [0..<CANDIDATE_FEATURE_COUNT])"

text \<open>One family: its synapses and its row of the plan, over the motor units \<open>units\<close> gives it.\<close>

definition candidate_family ::
  "DecoderInputs \<Rightarrow> u16 \<Rightarrow> LobeRegion \<Rightarrow> u32 \<Rightarrow> (nat \<Rightarrow> u16 list) \<Rightarrow> nat
   \<Rightarrow> CompiledSynapse list \<times> CandidateDecoderFamilyPlan list
   \<Rightarrow> (CompiledSynapse list \<times> CandidateDecoderFamilyPlan list) contract" where
  "candidate_family inputs route_index motor start units raw state = (case state of (synapses, plans) \<Rightarrow>
     and_then (family_try_from_raw (word_of_nat raw)) (\<lambda>family.
     and_then (synapse_count_from start synapses) (\<lambda>family_start.
       let synapses = synapses @ candidate_rows inputs route_index motor family (units raw)
       in and_then (synapse_count_from start synapses) (\<lambda>end'.
            case innate_priority_for_family (di_innate_priority inputs) family of (drive_mask, gain, cue, invert, reach) \<Rightarrow>
              Inr (synapses, plans @ [with_innate_priority drive_mask gain cue invert reach
                (family_plan_new family f32_zero family_start (end' - family_start))])))))"

section \<open>Motor units (all classes but the 2048-neuron one)\<close>

definition families_of_motor :: "MotorAffordanceKind \<Rightarrow> CandidateActionFamily list" where
  "families_of_motor kind =
     (case kind of
        Move \<Rightarrow> [FamilyApproach, FamilyAvoid] | Turn \<Rightarrow> [FamilyApproach, FamilyAvoid]
      | Eat \<Rightarrow> [FamilyIngest]
      | RestMotor \<Rightarrow> [FamilyRest]
      | Interact \<Rightarrow> [FamilyInspect, FamilyContact]
      | Vocalize \<Rightarrow> [FamilyOther] | Write \<Rightarrow> [FamilyOther] | Gesture \<Rightarrow> [FamilyOther] | Reproduce \<Rightarrow> [FamilyOther])"

text \<open>The next free motor unit, the genes seen, and the units of each family by its raw number.\<close>

record MotorClaims =
  mu_cursor :: u16
  mu_seen :: "u8 set"
  mu_units :: "u16 list list"

definition claim_unit :: "u16 \<Rightarrow> CandidateActionFamily list \<Rightarrow> nat \<Rightarrow> MotorClaims \<Rightarrow> MotorClaims contract" where
  "claim_unit motor_width families ordinal c =
     (if motor_width \<le> mu_cursor c then Inl PhenotypeCompile
      else let raw = unat (family_raw (families ! (ordinal mod length families)))
           in Inr (c\<lparr>mu_cursor := mu_cursor c + 1, mu_units := (mu_units c)[raw := mu_units c ! raw @ [mu_cursor c]]\<rparr>))"

definition motor_gene_is_active :: "DecoderInputs \<Rightarrow> MotorAffordanceGene \<Rightarrow> bool" where
  "motor_gene_is_active inputs g \<longleftrightarrow>
     mg_enabled g
     \<and> \<not> f32_lt (f32_mul (di_maturation inputs) (f32_of_nat 100)) (f32_of_nat (unat (mg_enabled_at_maturation g)))
     \<and> (di_active_motor_affordances inputs = [] \<or> mg_kind g \<in> set (di_active_motor_affordances inputs))"

definition claim_gene :: "DecoderInputs \<Rightarrow> u16 \<Rightarrow> MotorAffordanceGene \<Rightarrow> MotorClaims \<Rightarrow> MotorClaims contract" where
  "claim_gene inputs motor_width g c =
     (if \<not> motor_gene_is_active inputs g then Inr c
      else if motor_raw (mg_kind g) \<in> mu_seen c then Inl PhenotypeCompile
      else try_fold (claim_unit motor_width (families_of_motor (mg_kind g))) [0..<unat (mg_motor_lobe_units g)]
             (c\<lparr>mu_seen := insert (motor_raw (mg_kind g)) (mu_seen c)\<rparr>))"

definition idle_claim :: MotorClaims where
  "idle_claim = \<lparr> mu_cursor = 1, mu_seen = {}, mu_units = [0] # replicate 7 [] \<rparr>"

section \<open>Decoder sets\<close>

record CompiledDecoderSet =
  dec_candidate :: CandidateDecoderPlan
  dec_speech :: "AuxiliaryDecoderPlan option"
  dec_memory :: "AuxiliaryDecoderPlan option"
  dec_projections :: "PlacedProjection list"
  dec_synapses :: "CompiledSynapse list"
  dec_receipts :: "RouteBudgetReceipt list"

definition action_projection :: "u16 \<Rightarrow> u32 \<Rightarrow> u32 \<Rightarrow> PlacedProjection" where
  "action_projection route_index start len =
     projection_new route_index
       (routing_mask ActionPlanning ActionPlanning MotorProposal EssentialReservation Hot60Hz Essential) start len 0"

definition memory_projection :: "u16 \<Rightarrow> u32 \<Rightarrow> u32 \<Rightarrow> PlacedProjection" where
  "memory_projection route_index start len =
     projection_new route_index
       (routing_mask MemoryInterface TemporalPredictive Feedback EssentialReservation Hot5To15Hz High) start len 0"

definition action_receipt :: "u16 \<Rightarrow> u32 \<Rightarrow> RouteBudgetReceipt" where
  "action_receipt route_index len = \<lparr>
     rbr_route_index = route_index, rbr_active_tiles = 0, rbr_recurrent_synapses = 0,
     rbr_action_decoder_synapses = len, rbr_memory_decoder_synapses = 0,
     rbr_immutable_payload_words = len, rbr_tile_ceiling = 0, rbr_synapse_ceiling = len,
     rbr_payload_word_ceiling = len \<rparr>"

definition memory_receipt :: "u16 \<Rightarrow> u32 \<Rightarrow> RouteBudgetReceipt" where
  "memory_receipt route_index len = \<lparr>
     rbr_route_index = route_index, rbr_active_tiles = 0, rbr_recurrent_synapses = 0,
     rbr_action_decoder_synapses = 0, rbr_memory_decoder_synapses = len,
     rbr_immutable_payload_words = len, rbr_tile_ceiling = 0, rbr_synapse_ceiling = len,
     rbr_payload_word_ceiling = len \<rparr>"

text \<open>The memory head joins a channel of the episodic lobe to a neuron of the core.\<close>

definition memory_synapse ::
  "DecoderInputs \<Rightarrow> u16 \<Rightarrow> u32 \<Rightarrow> u32 \<Rightarrow> CandidateActionFamily \<Rightarrow> u16 \<Rightarrow> u16 \<Rightarrow> u16 \<Rightarrow> u16 \<Rightarrow> CompiledSynapse" where
  "memory_synapse inputs route_index source target family channel copies lane output_index =
     synapse_new source target (inherited_memory_decoder_weight family channel copies)
       (inherited_memory_decoder_alpha (di_genome inputs)) route_index
       (DecoderSynapse \<lparr> dsc_head = MemoryContext, dsc_family = family, dsc_input_lane = lane + channel,
          dsc_motor_index = output_index \<rparr>)"

definition memory_family ::
  "DecoderInputs \<Rightarrow> u16 \<Rightarrow> LobeRegion \<Rightarrow> LobeRegion \<Rightarrow> u16 \<Rightarrow> nat \<Rightarrow> CompiledSynapse list \<Rightarrow> CompiledSynapse list contract" where
  "memory_family inputs route_index episodic core lane raw synapses =
     and_then (family_try_from_raw (word_of_nat raw)) (\<lambda>family.
       Inr (synapses @ map (\<lambda>channel. memory_synapse inputs route_index (lr_start episodic + word_of_nat channel)
         (lr_start core + word_of_nat raw) family (word_of_nat channel) 1 lane (word_of_nat raw)) [0..<12]))"

definition compile_claimed_decoders ::
  "DecoderInputs \<Rightarrow> LobeLayout \<Rightarrow> BrainCapacityClass \<Rightarrow> u16 \<Rightarrow> u32 \<Rightarrow> CompiledDecoderSet contract" where
  "compile_claimed_decoders inputs layout capacity route_index start =
     and_then (wide_region ActionPlanning (\<lambda>n. True) layout) (\<lambda>motor.
     and_then (wide_region MemoryInterface (\<lambda>n. 12 \<le> n) layout) (\<lambda>episodic.
     and_then (wide_region TemporalPredictive (\<lambda>n. 8 \<le> n) layout) (\<lambda>core.
     and_then (ok_or PhenotypeCompile (try_of_len (unat (lr_len motor)))) (\<lambda>motor_width.
     and_then (try_fold (claim_gene inputs motor_width) (di_motor_affordances inputs) idle_claim) (\<lambda>claims.
     and_then (try_fold (candidate_family inputs route_index motor start ((!) (mu_units claims))) [0..<8] ([], []))
       (\<lambda>(synapses, plans).
     and_then (ok_or PhenotypeCompile (try_of_len (length synapses))) (\<lambda>len.
       if len = 0 \<or> xb_max_action_decoder_synapses (bc_execution capacity) < len then Inl PhenotypeCompile
       else
         and_then (memory_try_new_v1 MINIMUM_SYNAPSE_COUNT) (\<lambda>channel.
         and_then (ok_or PhenotypeCompile (try_of_len (unat (mc_decoder_input_stride channel)))) (\<lambda>lanes.
         and_then (decoder_try_new (lr_start motor) motor_width (word_of_nat CANDIDATE_FEATURE_COUNT) lanes
             (Some channel) plans) (\<lambda>candidate.
         and_then (ok_or PhenotypeCompile (checked_add route_index 1)) (\<lambda>memory_route.
         and_then (ok_or PhenotypeCompile (checked_add start len)) (\<lambda>memory_start.
         and_then (ok_or PhenotypeCompile (try_of_len (unat (mc_target_latent_lane_start channel)))) (\<lambda>latent.
         and_then (try_fold (memory_family inputs memory_route episodic core latent) [0..<8] synapses) (\<lambda>synapses.
         and_then (ok_or PhenotypeCompile (try_of_len (length synapses))) (\<lambda>end'.
         and_then (ok_or PhenotypeCompile (checked_sub end' len)) (\<lambda>memory_count.
           if memory_count \<noteq> mc_memory_decoder_synapse_count channel
              \<or> xb_max_memory_decoder_synapses (bc_execution capacity) < memory_count
           then Inl PhenotypeCompile
           else
             and_then (auxiliary_try_new MemoryContext 12 8 memory_start memory_count) (\<lambda>memory.
               Inr \<lparr> dec_candidate = candidate, dec_speech = None, dec_memory = Some memory,
                 dec_projections = [action_projection route_index start len,
                   memory_projection memory_route memory_start memory_count],
                 dec_synapses = synapses,
                 dec_receipts = [action_receipt route_index len, memory_receipt memory_route memory_count]
               \<rparr>)))))))))))))))))"

section \<open>The 2048-neuron class\<close>

definition CANDIDATE_DECODER_SYNAPSE_COUNT :: u32 where "CANDIDATE_DECODER_SYNAPSE_COUNT = 3072"
definition CANDIDATE_FAMILY_COUNT :: u16 where "CANDIDATE_FAMILY_COUNT = 8"
definition CANDIDATE_MOTOR_UNITS_PER_FAMILY :: u16 where "CANDIDATE_MOTOR_UNITS_PER_FAMILY = 16"
definition SPEECH_DECODER_SYNAPSE_COUNT :: u32 where "SPEECH_DECODER_SYNAPSE_COUNT = 1024"
definition MEMORY_DECODER_SYNAPSE_COUNT :: u32 where "MEMORY_DECODER_SYNAPSE_COUNT = 4096"
definition MEMORY_DECODER_INPUT_WIDTH :: u16 where "MEMORY_DECODER_INPUT_WIDTH = 64"
definition MEMORY_DECODER_OUTPUT_WIDTH :: u16 where "MEMORY_DECODER_OUTPUT_WIDTH = 64"
definition SPEECH_INPUT_WIDTH :: u16 where "SPEECH_INPUT_WIDTH = 32"
definition SPEECH_OUTPUT_WIDTH :: u16 where "SPEECH_OUTPUT_WIDTH = 32"
definition MOTOR_SOURCE_OFFSET :: u32 where "MOTOR_SOURCE_OFFSET = 128"
definition MOTOR_TARGET_OFFSET :: u32 where "MOTOR_TARGET_OFFSET = 160"

definition family_motor_units :: "nat \<Rightarrow> u16 list" where
  "family_motor_units raw =
     (let first = word_of_nat raw * CANDIDATE_MOTOR_UNITS_PER_FAMILY
      in lanes_between first (first + CANDIDATE_MOTOR_UNITS_PER_FAMILY))"

definition speech_synapse :: "DecoderInputs \<Rightarrow> LobeRegion \<Rightarrow> u16 \<Rightarrow> u16 \<Rightarrow> u16 \<Rightarrow> CompiledSynapse" where
  "speech_synapse inputs motor route_index input_lane output_index =
     (let source = lr_start motor + MOTOR_SOURCE_OFFSET + ucast input_lane;
          target = lr_start motor + MOTOR_TARGET_OFFSET + ucast output_index
      in synapse_new source target
           (io_genetic_weight (bg_genetic_prior_seed (di_genome inputs) XOR 0x535045454348) route_index source
             (ucast output_index))
           (decoder_alpha (di_genome inputs) (lr_start motor) target) route_index
           (DecoderSynapse \<lparr> dsc_head = SpeechPayload, dsc_family = FamilyOther, dsc_input_lane = input_lane,
              dsc_motor_index = output_index \<rparr>))"

definition speech_synapses :: "DecoderInputs \<Rightarrow> LobeRegion \<Rightarrow> u16 \<Rightarrow> CompiledSynapse list" where
  "speech_synapses inputs motor route_index =
     concat (map (\<lambda>input_lane. map (speech_synapse inputs motor route_index input_lane)
         (lanes_between 0 SPEECH_OUTPUT_WIDTH)) (lanes_between 0 SPEECH_INPUT_WIDTH))"

text \<open>\<open>(first..end).step_by(step)\<close>.\<close>

definition step_range :: "nat \<Rightarrow> nat \<Rightarrow> nat \<Rightarrow> nat list" where
  "step_range first end' step = filter (\<lambda>i. (i - first) mod step = 0) [first..<end']"

definition n2048_memory_synapses ::
  "DecoderInputs \<Rightarrow> u16 \<Rightarrow> LobeRegion \<Rightarrow> LobeRegion \<Rightarrow> u16 \<Rightarrow> CandidateActionFamily \<Rightarrow> nat \<Rightarrow> nat \<Rightarrow> CompiledSynapse list" where
  "n2048_memory_synapses inputs route_index episodic core lane family raw channel =
     concat (map (\<lambda>output_index. map (\<lambda>input_index.
         memory_synapse inputs route_index (lr_start episodic + word_of_nat input_index)
           (lr_start core + word_of_nat output_index) family (word_of_nat channel)
           (n2048_memory_channel_synapse_count (word_of_nat channel)) lane (word_of_nat output_index))
       (step_range channel (unat MEMORY_DECODER_INPUT_WIDTH) 12))
       (step_range raw (unat MEMORY_DECODER_OUTPUT_WIDTH) 8))"

definition n2048_memory_family ::
  "DecoderInputs \<Rightarrow> u16 \<Rightarrow> LobeRegion \<Rightarrow> LobeRegion \<Rightarrow> u16 \<Rightarrow> nat \<Rightarrow> CompiledSynapse list \<Rightarrow> CompiledSynapse list contract" where
  "n2048_memory_family inputs route_index episodic core lane raw synapses =
     and_then (family_try_from_raw (word_of_nat raw)) (\<lambda>family.
       Inr (synapses @ concat (map (n2048_memory_synapses inputs route_index episodic core lane family raw) [0..<12])))"

definition compile_n2048_decoders :: "DecoderInputs \<Rightarrow> LobeLayout \<Rightarrow> u16 \<Rightarrow> u32 \<Rightarrow> CompiledDecoderSet contract" where
  "compile_n2048_decoders inputs layout route_index start =
     and_then (wide_region ActionPlanning (\<lambda>n. n = 224) layout) (\<lambda>motor.
     and_then (wide_region MemoryInterface (\<lambda>n. 64 \<le> n) layout) (\<lambda>episodic.
     and_then (wide_region TemporalPredictive (\<lambda>n. 64 \<le> n) layout) (\<lambda>core.
     and_then (try_fold (candidate_family inputs route_index motor start family_motor_units)
         [0..<unat CANDIDATE_FAMILY_COUNT] ([], [])) (\<lambda>(synapses, plans).
     and_then (ok_or PhenotypeCompile (try_of_len (length synapses))) (\<lambda>candidate_count.
       if candidate_count \<noteq> CANDIDATE_DECODER_SYNAPSE_COUNT then Inl PhenotypeCompile
       else
         and_then (memory_try_new_v1 MEMORY_DECODER_SYNAPSE_COUNT) (\<lambda>channel.
         and_then (ok_or PhenotypeCompile (try_of_len (unat (lr_len motor)))) (\<lambda>motor_width.
         and_then (ok_or PhenotypeCompile (try_of_len (unat (mc_decoder_input_stride channel)))) (\<lambda>lanes.
         and_then (decoder_try_new (lr_start motor) motor_width (word_of_nat CANDIDATE_FEATURE_COUNT) lanes
             (Some channel) plans) (\<lambda>candidate.
           let speech_start = start + candidate_count;
               synapses = synapses @ speech_synapses inputs motor route_index
           in and_then (synapse_count_from start synapses) (\<lambda>speech_end.
              let speech_count = speech_end - speech_start
              in if speech_count \<noteq> SPEECH_DECODER_SYNAPSE_COUNT then Inl PhenotypeCompile
              else
                and_then (auxiliary_try_new SpeechPayload SPEECH_INPUT_WIDTH SPEECH_OUTPUT_WIDTH speech_start
                    speech_count) (\<lambda>speech.
                let action_len = candidate_count + speech_count; memory_start = start + action_len
                in and_then (ok_or PhenotypeCompile (checked_add route_index 1)) (\<lambda>memory_route.
                   and_then (ok_or PhenotypeCompile (try_of_len (unat (mc_target_latent_lane_start channel)))) (\<lambda>latent.
                   and_then (try_fold (n2048_memory_family inputs memory_route episodic core latent) [0..<8] synapses)
                     (\<lambda>synapses.
                   and_then (synapse_count_from start synapses) (\<lambda>memory_end.
                   let memory_count = memory_end - memory_start
                   in if memory_count \<noteq> MEMORY_DECODER_SYNAPSE_COUNT
                         \<or> memory_count \<noteq> mc_memory_decoder_synapse_count channel
                      then Inl PhenotypeCompile
                      else
                        and_then (auxiliary_try_new MemoryContext MEMORY_DECODER_INPUT_WIDTH MEMORY_DECODER_OUTPUT_WIDTH
                            memory_start memory_count) (\<lambda>memory.
                          Inr \<lparr> dec_candidate = candidate, dec_speech = Some speech, dec_memory = Some memory,
                            dec_projections = [action_projection route_index start action_len,
                              memory_projection memory_route memory_start memory_count],
                            dec_synapses = synapses,
                            dec_receipts = [action_receipt route_index action_len, memory_receipt memory_route memory_count]
                          \<rparr>))))))))))))))))"

definition compile_decoders ::
  "DecoderInputs \<Rightarrow> LobeLayout \<Rightarrow> BrainCapacityClass \<Rightarrow> u16 \<Rightarrow> u32 \<Rightarrow> CompiledDecoderSet contract" where
  "compile_decoders inputs layout capacity route_index start =
     (if bc_id capacity = N2048_ID then compile_n2048_decoders inputs layout route_index start
      else compile_claimed_decoders inputs layout capacity route_index start)"

end
