(* ===== verification/Construction.thy ===== *)
theory Construction
  imports Decoder_Compile
begin

text \<open>
  \<open>compile_inner\<close> of \<open>crates/alife_core/src/phenotype/construction.rs\<close>, up to the budget receipt: encoder,
  recurrent topology, decoders and the optional cognitive head are compiled in turn, every part behind the
  synapses of the one before, and the receipts of all routes become the budgets. The lobe layout and the
  number of synapses the learning plan captures for replay are arguments.
\<close>

section \<open>The cognitive head\<close>

definition COGNITIVE_CHANNEL_LANE_START :: u16 where "COGNITIVE_CHANNEL_LANE_START = 36"
definition COGNITIVE_CHANNEL_LANE_COUNT :: u16 where "COGNITIVE_CHANNEL_LANE_COUNT = 18"

definition COGNITIVE_CHANNEL_LANE_END :: u16 where
  "COGNITIVE_CHANNEL_LANE_END = COGNITIVE_CHANNEL_LANE_START + COGNITIVE_CHANNEL_LANE_COUNT"

definition COGNITIVE_CHANNEL_FAMILY_COUNT :: u8 where "COGNITIVE_CHANNEL_FAMILY_COUNT = 8"
definition COGNITIVE_CHANNEL_TOTAL_SYNAPSES :: u32 where "COGNITIVE_CHANNEL_TOTAL_SYNAPSES = 144"

definition cognitive_synapse ::
  "DecoderInputs \<Rightarrow> u16 \<Rightarrow> LobeRegion \<Rightarrow> LobeRegion \<Rightarrow> CandidateActionFamily \<Rightarrow> nat \<Rightarrow> u16 \<Rightarrow> CompiledSynapse" where
  "cognitive_synapse inputs route_index episodic core family raw lane =
     (let motor_index = word_of_nat raw;
          source = lr_start episodic + ucast (lane - COGNITIVE_CHANNEL_LANE_START) mod lr_len episodic;
          target = lr_start core + ucast motor_index
      in synapse_new source target
           (io_genetic_weight (bg_genetic_prior_seed (di_genome inputs)) route_index source target)
           (inherited_memory_decoder_alpha (di_genome inputs)) route_index
           (DecoderSynapse \<lparr> dsc_head = CognitiveContext, dsc_family = family, dsc_input_lane = lane,
              dsc_motor_index = motor_index \<rparr>))"

definition cognitive_family ::
  "DecoderInputs \<Rightarrow> u16 \<Rightarrow> LobeRegion \<Rightarrow> LobeRegion \<Rightarrow> nat \<Rightarrow> CompiledSynapse list \<Rightarrow> CompiledSynapse list contract" where
  "cognitive_family inputs route_index episodic core raw synapses =
     and_then (family_try_from_raw (word_of_nat raw)) (\<lambda>family.
       Inr (synapses @ map (cognitive_synapse inputs route_index episodic core family raw)
         (lanes_between COGNITIVE_CHANNEL_LANE_START COGNITIVE_CHANNEL_LANE_END)))"

definition cognitive_projection :: "u16 \<Rightarrow> u32 \<Rightarrow> PlacedProjection" where
  "cognitive_projection route_index start =
     projection_new route_index
       (routing_mask MemoryInterface TemporalPredictive Feedback EssentialReservation Hot60Hz Essential) start
       COGNITIVE_CHANNEL_TOTAL_SYNAPSES 0"

section \<open>The parts of a brain\<close>

record BrainParts =
  bp_projections :: "PlacedProjection list"
  bp_synapses :: "CompiledSynapse list"
  bp_receipts :: "RouteBudgetReceipt list"

definition with_cognitive_head :: "DecoderInputs \<Rightarrow> LobeLayout \<Rightarrow> BrainParts \<Rightarrow> BrainParts contract" where
  "with_cognitive_head inputs layout parts =
     and_then (ok_or PhenotypeCompile (try_of_len (length (bp_projections parts)))) (\<lambda>route_index.
     and_then (ok_or PhenotypeCompile (try_of_len (length (bp_synapses parts)))) (\<lambda>start.
     and_then (wide_region MemoryInterface (\<lambda>n. ucast COGNITIVE_CHANNEL_LANE_COUNT \<le> n) layout) (\<lambda>episodic.
     and_then (wide_region TemporalPredictive (\<lambda>n. ucast COGNITIVE_CHANNEL_FAMILY_COUNT \<le> n) layout) (\<lambda>core.
     and_then (try_fold (cognitive_family inputs route_index episodic core)
         [0..<unat COGNITIVE_CHANNEL_FAMILY_COUNT] []) (\<lambda>cognitive_synapses.
       Inr \<lparr> bp_projections = bp_projections parts @ [cognitive_projection route_index start],
         bp_synapses = bp_synapses parts @ cognitive_synapses,
         bp_receipts = bp_receipts parts @ [memory_receipt route_index COGNITIVE_CHANNEL_TOTAL_SYNAPSES] \<rparr>)))))"

record CompiledCore =
  ck_encoder :: SensorEncoderPlan
  ck_decoders :: CompiledDecoderSet
  ck_parts :: BrainParts
  ck_budgets :: CompiledBudgets

definition compile_core ::
  "SensorInputs \<Rightarrow> DecoderInputs \<Rightarrow> SensorProfile \<Rightarrow> bool \<Rightarrow> LobeLayout \<Rightarrow> BrainCapacityClass \<Rightarrow> nat
   \<Rightarrow> compile_fault + CompiledCore" where
  "compile_core sensors inputs profile cognitive layout capacity captured =
     and_then (compile_encoder sensors layout profile) (\<lambda>encoder.
     and_then (compile_recurrent (di_genome inputs) layout capacity) (\<lambda>c.
     and_then (ok_or compile_error (try_of_len (length (co_projections c)))) (\<lambda>route_index.
     and_then (ok_or compile_error (try_of_len (length (co_synapses c)))) (\<lambda>start.
     and_then (may_fail (compile_decoders inputs layout capacity route_index start)) (\<lambda>decoders.
       let parts = \<lparr> bp_projections = co_projections c @ dec_projections decoders,
             bp_synapses = co_synapses c @ dec_synapses decoders,
             bp_receipts = co_receipts c @ dec_receipts decoders \<rparr>
       in and_then (may_fail (if cognitive then with_cognitive_head inputs layout parts else Inr parts)) (\<lambda>parts.
          and_then (may_fail (validate_alpha_matches (di_genome inputs)
              (map CompiledProjection.truncate (bp_projections parts)) (bp_synapses parts) layout)) (\<lambda>_.
            let lanes = (if cognitive then COGNITIVE_CHANNEL_LANE_END
                  else cd_flattened_input_lane_count (dec_candidate decoders))
            in and_then (may_fail (assemble_budgets capacity (bp_receipts parts) lanes captured)) (\<lambda>budgets.
                 Inr \<lparr> ck_encoder = encoder, ck_decoders = decoders, ck_parts = parts, ck_budgets = budgets \<rparr>))))))))"

text \<open>The phenotype the parts make, for the checks of its plans.\<close>

definition core_view :: "LobeLayout \<Rightarrow> BrainCapacityClass \<Rightarrow> u8 \<Rightarrow> u16 \<Rightarrow> bool \<Rightarrow> CompiledCore \<Rightarrow> PhenotypeView" where
  "core_view layout capacity head_count head_width cognitive k = \<lparr>
     pv_brain_class_id = bc_id capacity, pv_motor_head_count = head_count, pv_motor_head_width = head_width,
     pv_cognitive_lane_end = (if cognitive then Some COGNITIVE_CHANNEL_LANE_END else None),
     pv_budgets = ck_budgets k, pv_lobe_layout = layout, pv_synapses = bp_synapses (ck_parts k) \<rparr>"

end
