(* ===== verification/Decoder_Proofs.thy ===== *)
theory Decoder_Proofs
  imports Decoder_Compile Encoder_Proofs
begin

text \<open>
  The compiled decoders: the rows of the candidate plan cut its synapses into consecutive ranges of their own
  family, no motor unit serves two families, and every head passes the checks against the phenotype it
  becomes part of.
\<close>

section \<open>Counting synapses\<close>

lemma synapse_count_from_Inr_iff:
  "synapse_count_from start xs = Inr n \<longleftrightarrow> length xs < 2 ^ 32 \<and> n = start + word_of_nat (length xs)"
  by (auto simp: synapse_count_from_def and_then_Inr_iff ok_or_def try_of_len_def split: option.splits)

lemma length_candidate_rows: "length (candidate_rows inputs route motor family units) = 24 * length units"
  by (simp add: candidate_rows_def length_concat comp_def CANDIDATE_FEATURE_COUNT_def sum_list_triv)

lemma family_of_raw: "raw < 8 \<Longrightarrow> family_try_from_raw (word_of_nat raw) = Inr (FAMILIES ! raw)"
  by (simp add: family_try_from_raw_def unat_of_nat word_less_nat_alt)

section \<open>The families\<close>

definition family_rows :: "DecoderInputs \<Rightarrow> u16 \<Rightarrow> LobeRegion \<Rightarrow> (nat \<Rightarrow> u16 list) \<Rightarrow> nat \<Rightarrow> CompiledSynapse list" where
  "family_rows inputs route motor units raw = candidate_rows inputs route motor (FAMILIES ! raw) (units raw)"

definition rows_before :: "DecoderInputs \<Rightarrow> u16 \<Rightarrow> LobeRegion \<Rightarrow> (nat \<Rightarrow> u16 list) \<Rightarrow> nat \<Rightarrow> CompiledSynapse list" where
  "rows_before inputs route motor units k = concat (map (family_rows inputs route motor units) [0..<k])"

definition family_row ::
  "DecoderInputs \<Rightarrow> u16 \<Rightarrow> LobeRegion \<Rightarrow> u32 \<Rightarrow> (nat \<Rightarrow> u16 list) \<Rightarrow> nat \<Rightarrow> CandidateDecoderFamilyPlan" where
  "family_row inputs route motor start units raw =
     (case innate_priority_for_family (di_innate_priority inputs) (FAMILIES ! raw) of (drive_mask, gain, cue, invert, reach) \<Rightarrow>
        with_innate_priority drive_mask gain cue invert reach
          (family_plan_new (FAMILIES ! raw) f32_zero (start + word_of_nat (length (rows_before inputs route motor units raw)))
            (word_of_nat (length (family_rows inputs route motor units raw)))))"

lemma rows_before_Suc:
  "rows_before inputs route motor units (Suc k) = rows_before inputs route motor units k @ family_rows inputs route motor units k"
  by (simp add: rows_before_def)

lemma rows_before_length_mono: "j \<le> k \<Longrightarrow> length (rows_before inputs route motor units j) \<le> length (rows_before inputs route motor units k)"
  by (induction k) (auto simp: rows_before_Suc rows_before_def le_Suc_eq)

lemma family_row_fields:
  "df_family (family_row inputs route motor start units raw) = FAMILIES ! raw"
  "df_synapse_start (family_row inputs route motor start units raw) = start + word_of_nat (length (rows_before inputs route motor units raw))"
  "df_synapse_count (family_row inputs route motor start units raw) = word_of_nat (length (family_rows inputs route motor units raw))"
  by (simp_all add: family_row_def with_innate_priority_def family_plan_new_def split: prod.splits)

lemma candidate_family_step:
  assumes "raw < 8"
  shows "candidate_family inputs route motor start units raw (rows_before inputs route motor units raw, plans)
    = (if length (rows_before inputs route motor units (Suc raw)) < 2 ^ 32
       then Inr (rows_before inputs route motor units (Suc raw), plans @ [family_row inputs route motor start units raw])
       else Inl PhenotypeCompile)"
proof -
  let ?n = "length (rows_before inputs route motor units raw)"
  let ?m = "length (family_rows inputs route motor units raw)"
  have m: "length (rows_before inputs route motor units (Suc raw)) = ?n + ?m" by (simp add: rows_before_Suc)
  have diff: "start + word_of_nat (?n + ?m) - (start + word_of_nat ?n) = (word_of_nat ?m :: u32)" by simp
  show ?thesis
    using family_of_raw [OF assms] m diff
    by (auto simp: candidate_family_def synapse_count_from_def ok_or_def try_of_len_def family_rows_def [symmetric] rows_before_Suc
        family_row_def split: prod.splits)
qed

lemma candidate_families:
  assumes "k \<le> 8"
  shows "try_fold (candidate_family inputs route motor start units) [0..<k] ([], [])
    = (if length (rows_before inputs route motor units k) < 2 ^ 32
       then Inr (rows_before inputs route motor units k, map (family_row inputs route motor start units) [0..<k])
       else Inl PhenotypeCompile)"
  using assms
proof (induction k)
  case (Suc k)
  have "length (rows_before inputs route motor units k) \<le> length (rows_before inputs route motor units (Suc k))"
    by (rule rows_before_length_mono) simp
  then show ?case using Suc by (auto simp: try_fold_append candidate_family_step)
qed (simp add: rows_before_def)

section \<open>Motor units\<close>

definition claims_ok :: "u16 \<Rightarrow> MotorClaims \<Rightarrow> bool" where
  "claims_ok motor_width c \<longleftrightarrow>
     length (mu_units c) = 8 \<and> distinct (concat (mu_units c)) \<and> (\<forall>u \<in> set (concat (mu_units c)). u < mu_cursor c)
     \<and> (motor_width \<noteq> 0 \<longrightarrow> mu_cursor c \<le> motor_width)"

lemma concat_update: "i < length us \<Longrightarrow> mset (concat (us[i := us ! i @ [x]])) = add_mset x (mset (concat us))"
proof (induction us arbitrary: i)
  case (Cons u us)
  then show ?case by (cases i) auto
qed simp

lemma family_raw_less: "unat (family_raw f) < 8"
  by (cases f) simp_all

lemma claim_unit_ok:
  assumes ok: "claims_ok motor_width c" and step: "claim_unit motor_width families i c = Inr c'"
  shows "claims_ok motor_width c'"
proof -
  let ?raw = "unat (family_raw (families ! (i mod length families)))"
  let ?us = "(mu_units c)[?raw := mu_units c ! ?raw @ [mu_cursor c]]"
  have lt: "mu_cursor c < motor_width" and c': "c' = c\<lparr>mu_cursor := mu_cursor c + 1, mu_units := ?us\<rparr>"
    using step by (auto simp: claim_unit_def Let_def not_le split: if_splits)
  have "unat (mu_cursor c + 1) = Suc (unat (mu_cursor c))"
    using lt unsigned_less [where 'a = nat, of motor_width] by (subst unat_plus_no_overflow) (simp_all add: word_less_nat_alt)
  then have cursor: "mu_cursor c + 1 \<le> motor_width" "mu_cursor c < mu_cursor c + 1"
    using lt by (simp_all add: word_le_nat_alt word_less_nat_alt)
  have m: "mset (concat ?us) = add_mset (mu_cursor c) (mset (concat (mu_units c)))"
    using ok family_raw_less by (intro concat_update) (simp add: claims_ok_def)
  then have s: "set (concat ?us) = insert (mu_cursor c) (set (concat (mu_units c)))"
    by (metis set_mset_add_mset_insert set_mset_mset)
  have "mu_cursor c \<notin> set (concat (mu_units c))" using ok by (auto simp: claims_ok_def simp del: set_concat)
  then have "distinct (mu_cursor c # concat (mu_units c))" using ok by (simp add: claims_ok_def del: set_concat)
  moreover have "mset (mu_cursor c # concat (mu_units c)) = mset (concat ?us)" using m by simp
  ultimately have "distinct (concat ?us)" using mset_eq_imp_distinct_iff by blast
  moreover have "\<forall>u \<in> set (concat ?us). u < mu_cursor c + 1"
    unfolding s using ok cursor(2) by (auto simp: claims_ok_def simp del: set_concat intro: less_trans)
  ultimately show ?thesis using ok cursor(1) unfolding c' by (simp add: claims_ok_def del: set_concat)
qed

lemma claims_stay_ok:
  assumes "claims_ok motor_width c" and "try_fold (claim_gene inputs motor_width) gs c = Inr c'"
  shows "claims_ok motor_width c'"
proof -
  have units: "claims_ok motor_width c \<Longrightarrow> try_fold (claim_unit motor_width families) is c = Inr c' \<Longrightarrow> claims_ok motor_width c'"
    for families "is" c c'
    by (induction "is" arbitrary: c) (auto dest: claim_unit_ok)
  have "claims_ok motor_width c \<Longrightarrow> claim_gene inputs motor_width g c = Inr c' \<Longrightarrow> claims_ok motor_width c'" for g c c'
    using units [of "c\<lparr>mu_seen := insert (motor_raw (mg_kind g)) (mu_seen c)\<rparr>"]
    by (auto simp: claim_gene_def claims_ok_def split: if_splits simp del: set_concat)
  then show ?thesis using assms by (induction gs arbitrary: c) auto
qed

lemma idle_claim_ok: "claims_ok motor_width idle_claim"
proof -
  have "motor_width \<noteq> 0 \<longrightarrow> 1 \<le> motor_width" by (simp add: word_le_nat_alt unat_gt_0 Suc_le_eq)
  then show ?thesis by (auto simp: claims_ok_def idle_claim_def)
qed

lemma claimed_units:
  assumes "try_fold (claim_gene inputs motor_width) gs idle_claim = Inr c" and "motor_width \<noteq> 0"
  shows "length (mu_units c) = 8" "distinct (concat (map ((!) (mu_units c)) [0..<8]))"
    "\<forall>raw < 8. \<forall>u \<in> set (mu_units c ! raw). u < motor_width"
proof -
  have ok: "claims_ok motor_width c" using claims_stay_ok [OF idle_claim_ok assms(1)] .
  then show l: "length (mu_units c) = 8" by (simp add: claims_ok_def)
  then have "map ((!) (mu_units c)) [0..<8] = mu_units c" by (metis map_nth)
  then show "distinct (concat (map ((!) (mu_units c)) [0..<8]))" using ok by (simp add: claims_ok_def)
  have "u < motor_width" if "raw < 8" "u \<in> set (mu_units c ! raw)" for raw u
  proof -
    have "u \<in> set (concat (mu_units c))" using that l by (auto intro: nth_mem)
    then show ?thesis using ok assms(2) by (auto simp: claims_ok_def simp del: set_concat intro: less_le_trans)
  qed
  then show "\<forall>raw < 8. \<forall>u \<in> set (mu_units c ! raw). u < motor_width" by blast
qed

lemma family_motor_units_facts:
  assumes "raw < 8"
  shows "length (family_motor_units raw) = 16" "u \<in> set (family_motor_units raw) \<longleftrightarrow> unat u div 16 = raw"
    "distinct (family_motor_units raw)"
proof -
  have first: "unat (word_of_nat raw * CANDIDATE_MOTOR_UNITS_PER_FAMILY) = raw * 16"
    using assms by (simp add: CANDIDATE_MOTOR_UNITS_PER_FAMILY_def unat_word_ariths unat_of_nat)
  then have e: "unat (word_of_nat raw * CANDIDATE_MOTOR_UNITS_PER_FAMILY + CANDIDATE_MOTOR_UNITS_PER_FAMILY) = raw * 16 + 16"
    using assms by (subst unat_plus_no_overflow) (simp_all add: CANDIDATE_MOTOR_UNITS_PER_FAMILY_def)
  show "length (family_motor_units raw) = 16" by (simp add: family_motor_units_def Let_def lanes_between_simps first e)
  show "distinct (family_motor_units raw)" by (simp add: family_motor_units_def Let_def lanes_between_simps)
  show "u \<in> set (family_motor_units raw) \<longleftrightarrow> unat u div 16 = raw"
    unfolding family_motor_units_def Let_def lanes_between_simps word_le_nat_alt word_less_nat_alt first e
    by (auto simp: mult.commute)
qed

lemma frozen_units:
  "distinct (concat (map family_motor_units [0..<8]))" "\<forall>raw < 8. \<forall>u \<in> set (family_motor_units raw). u < 224"
proof -
  have "distinct (concat (map family_motor_units [0..<k]))" if "k \<le> 8" for k
    using that
  proof (induction k)
    case (Suc k)
    then show ?case using family_motor_units_facts(2,3) by (auto simp: disjoint_iff) 
  qed simp
  then show "distinct (concat (map family_motor_units [0..<8]))" by simp
  have "u < 224" if "raw < 8" "u \<in> set (family_motor_units raw)" for raw u
  proof -
    have "unat u div 16 < 8" using that family_motor_units_facts(2) by simp
    then show ?thesis by (simp add: word_less_nat_alt)
  qed
  then show "\<forall>raw < 8. \<forall>u \<in> set (family_motor_units raw). u < 224" by blast
qed

section \<open>Plans\<close>

lemma decoder_ignores_digest:
  "decoder_validate_shape (p\<lparr>cd_canonical_digest := d\<rparr>) = decoder_validate_shape p"
  "decoder_recompute_digest (p\<lparr>cd_canonical_digest := d\<rparr>) = decoder_recompute_digest p"
  by (simp_all add: decoder_validate_shape_def decoder_recompute_digest_def)

lemma sealed_Inr:
  assumes "and_then (f v) (\<lambda>_. and_then (g v) (\<lambda>d. Inr (h v d))) = Inr p"
  obtains d where "f v = Inr ()" "g v = Inr d" "p = h v d"
  using assms by auto

lemma checked_Inr:
  assumes "and_then (f v) (\<lambda>_. Inr (h v)) = Inr p"
  shows "f v = Inr ()" "p = h v"
  using assms by auto

lemma decoder_try_new_Inr:
  assumes "decoder_try_new motor_start motor_width features lanes memory families = Inr p"
  shows "decoder_validate_local p = Inr ()" "cd_motor_start p = motor_start" "cd_motor_width p = motor_width"
    "cd_feature_count p = features" "cd_families p = families" "cd_memory_channel p = memory"
    "cd_flattened_input_lane_count p = lanes"
proof -
  let ?v = "\<lparr> cd_schema_version = DECODER_SCHEMA_VERSION, cd_motor_start = motor_start, cd_motor_width = motor_width,
    cd_feature_count = features, cd_flattened_input_lane_count = lanes, cd_memory_channel = memory, cd_families = families,
    cd_canonical_digest = (0, 0, 0, 0) \<rparr>"
  obtain d where "decoder_validate_shape ?v = Inr ()" "decoder_recompute_digest ?v = Inr d" "p = ?v\<lparr>cd_canonical_digest := d\<rparr>"
    by (rule sealed_Inr [where v = ?v and f = decoder_validate_shape and g = decoder_recompute_digest
          and h = "\<lambda>v d. v\<lparr>cd_canonical_digest := d\<rparr>", OF assms [unfolded decoder_try_new_def Let_def]])
  then show "decoder_validate_local p = Inr ()"
    by (simp only: decoder_validate_local_def decoder_ignores_digest and_then_simps) simp
  show "cd_motor_start p = motor_start" "cd_motor_width p = motor_width"
    "cd_feature_count p = features" "cd_families p = families" "cd_memory_channel p = memory"
    "cd_flattened_input_lane_count p = lanes"
    using \<open>p = ?v\<lparr>cd_canonical_digest := d\<rparr>\<close> by simp_all
qed

lemma auxiliary_try_new_Inr:
  assumes "auxiliary_try_new head wi wo start len = Inr p"
  shows "auxiliary_validate_local p = Inr ()" "ad_head p = head" "ad_synapse_start p = start" "ad_synapse_count p = len"
    "unat start + unat len < 2 ^ 32"
proof -
  let ?v = "\<lparr> ad_schema_version = AUXILIARY_DECODER_SCHEMA_VERSION, ad_head = head, ad_input_width = wi,
    ad_output_width = wo, ad_synapse_start = start, ad_synapse_count = len, ad_canonical_digest = (0, 0, 0, 0) \<rparr>"
  have v: "auxiliary_validate_shape ?v = Inr ()" "p = ?v\<lparr>ad_canonical_digest := auxiliary_recompute_digest ?v\<rparr>"
    by (rule checked_Inr [where v = ?v and f = auxiliary_validate_shape
          and h = "\<lambda>v. v\<lparr>ad_canonical_digest := auxiliary_recompute_digest v\<rparr>", OF assms [unfolded auxiliary_try_new_def Let_def]])+
  have "auxiliary_validate_shape (q\<lparr>ad_canonical_digest := d\<rparr>) = auxiliary_validate_shape q"
    "auxiliary_recompute_digest (q\<lparr>ad_canonical_digest := d\<rparr>) = auxiliary_recompute_digest q" for q d
    by (simp_all add: auxiliary_validate_shape_def auxiliary_recompute_digest_def)
  then show "auxiliary_validate_local p = Inr ()"
    unfolding auxiliary_validate_local_def v(2) by (simp only: v(1) and_then_simps) simp
  show "ad_head p = head" "ad_synapse_start p = start" "ad_synapse_count p = len" using v(2) by simp_all
  show "unat start + unat len < 2 ^ 32"
    using v(1) by (auto simp: auxiliary_validate_shape_def checked_add_def split: if_splits)
qed

text \<open>The rows of a plan that validates are consecutive ranges that do not overflow.\<close>

lemma check_rows_add_up:
  "try_fold check_row (enumerate k rows) cursor = Inr c' \<Longrightarrow>
     unat c' = unat cursor + (\<Sum>row \<leftarrow> rows. unat (df_synapse_count row))"
proof (induction rows arbitrary: k cursor)
  case (Cons row rows)
  obtain c1 where step: "check_row (k, row) cursor = Inr c1" "try_fold check_row (enumerate (Suc k) rows) c1 = Inr c'"
    using Cons.prems by auto
  then have "unat c1 = unat cursor + unat (df_synapse_count row)"
    by (auto simp: check_row_def checked_add_def unat_plus_no_overflow split: if_splits)
  then show ?case using Cons.IH [OF step(2)] by simp
qed simp

lemma family_rows_sum:
  assumes "length (rows_before inputs route motor units k) < 2 ^ 32" 
  shows "(\<Sum>row \<leftarrow> map (family_row inputs route motor start units) [0..<k]. unat (df_synapse_count row))
    = length (rows_before inputs route motor units k)"
  using assms
proof (induction k)
  case (Suc k)
  then have "length (family_rows inputs route motor units k) < 2 ^ 32" by (simp add: rows_before_Suc)
  then have "unat (word_of_nat (length (family_rows inputs route motor units k)) :: u32) = length (family_rows inputs route motor units k)"
    by (simp add: unat_of_nat)
  then show ?case using Suc by (simp add: rows_before_Suc family_row_fields)
qed (simp add: rows_before_def)

lemma candidate_room:
  assumes "decoder_validate_local p = Inr ()" and rows: "cd_families p = map (family_row inputs route motor start units) [0..<8]"
    and small: "length (rows_before inputs route motor units 8) < 2 ^ 32"
  shows "unat start + length (rows_before inputs route motor units 8) < 2 ^ 32"
proof -
  have "hd (cd_families p) = family_row inputs route motor start units 0" by (simp add: rows upt_rec)
  then have "df_synapse_start (hd (cd_families p)) = start" by (simp add: family_row_fields rows_before_def)
  moreover have "cd_families p \<noteq> []" by (simp add: rows)
  ultimately obtain c where "try_fold check_row (enumerate 0 (cd_families p)) start = Inr c"
    using assms(1) unfolding decoder_validate_local_def decoder_validate_shape_def by (auto simp: if_Inl_Inr split: list.splits)
  from check_rows_add_up [OF this] have "unat c = unat start + length (rows_before inputs route motor units 8)"
    using family_rows_sum [OF small] by (simp add: rows)
  then show ?thesis using unsigned_less [where 'a = nat, of c] by simp
qed

section \<open>Ranges\<close>

lemma get_range_middle: "get_range (length xs) (length xs + length ys) (xs @ ys @ zs) = Some ys"
  by (simp add: get_range_def)

lemma candidate_row_ok:
  assumes "s \<in> set (family_rows inputs route motor units raw)" and "\<forall>u \<in> set (units raw). u < cd_motor_width p"
    and "cd_motor_start p = lr_start motor" and "cd_feature_count p = 24"
  shows "check_candidate_synapse p (FAMILIES ! raw) s = Inr ()"
proof -
  obtain lane u where s: "lane < 24" "u \<in> set (units raw)"
    "s = candidate_synapse inputs route motor (FAMILIES ! raw) (word_of_nat lane) u"
    using assms(1) by (auto simp: family_rows_def candidate_rows_def CANDIDATE_FEATURE_COUNT_def)
  have "(word_of_nat lane :: u16) < 24" using s(1) by (simp add: word_less_nat_alt unat_of_nat)
  then show ?thesis
    using assms(2-4) s(2) unfolding s(3)
    by (simp add: check_candidate_synapse_def candidate_synapse_def Let_def synapse_new_def not_le)
qed

lemma candidate_ranges:
  assumes p: "cd_families p = map (family_row inputs route motor start units) [0..<8]" "cd_motor_start p = lr_start motor" "cd_feature_count p = 24"
    and units: "\<forall>raw < 8. \<forall>u \<in> set (units raw). u < cd_motor_width p"
    and syn: "pv_synapses v = before @ rows_before inputs route motor units 8 @ rest" "length before = unat start"
    and room: "unat start + length (rows_before inputs route motor units 8) < 2 ^ 32"
  shows "check_all (check_family_range v p) (cd_families p) = Inr ()"
proof -
  have "check_family_range v p (family_row inputs route motor start units raw) = Inr ()" if "raw < 8" for raw
  proof -
    let ?b = "rows_before inputs route motor units raw" and ?f = "family_rows inputs route motor units raw"
    have split: "rows_before inputs route motor units 8 = ?b @ ?f @ concat (map (family_rows inputs route motor units) [Suc raw..<8])"
    proof -
      have "[0..<8] = [0..<raw] @ [raw..<8]" using upt_add_eq_append [of 0 raw "8 - raw"] that by simp
      also have "[raw..<8] = raw # [Suc raw..<8]" using that by (rule upt_conv_Cons)
      finally show ?thesis by (simp only: rows_before_def map_append concat_append list.map concat.simps)
    qed
    then have "length ?b + length ?f \<le> length (rows_before inputs route motor units 8)" by simp
    then have lt: "unat start + length ?b + length ?f < 2 ^ 32" using room by simp
    have b: "unat (word_of_nat (length ?b) :: u32) = length ?b" "unat (word_of_nat (length ?f) :: u32) = length ?f"
      using lt by (simp_all add: unat_of_nat)
    have lo: "unat (start + word_of_nat (length ?b)) = length (before @ ?b)"
      using lt b syn(2) by (subst unat_plus_no_overflow) simp_all
    have hi: "checked_add (start + word_of_nat (length ?b)) (word_of_nat (length ?f)) = Some (start + word_of_nat (length ?b) + word_of_nat (length ?f))"
      "unat (start + word_of_nat (length ?b) + word_of_nat (length ?f)) = length (before @ ?b) + length ?f"
      using lt b lo syn(2) by (simp_all add: checked_add_def unat_plus_no_overflow)
    have "get_range (length (before @ ?b)) (length (before @ ?b) + length ?f) (pv_synapses v) = Some ?f"
      using get_range_middle [of "before @ ?b" ?f] by (simp add: syn(1) split)
    moreover have "\<forall>s \<in> set ?f. check_candidate_synapse p (FAMILIES ! raw) s = Inr ()"
      using candidate_row_ok [of _ inputs route motor units raw p] units that p(2,3) by blast
    ultimately show ?thesis
      unfolding check_family_range_def family_row_fields hi(1) ok_or_simps and_then_simps hi(2) lo by simp
  qed
  then show ?thesis by (simp add: p(1))
qed

lemma auxiliary_range:
  assumes p: "auxiliary_validate_local p = Inr ()" "unat (ad_synapse_start p) = length before" "unat (ad_synapse_count p) = length own"
    and room: "length before + length own < 2 ^ 32"
    and syn: "pv_synapses v = before @ own @ rest" "\<forall>s \<in> set own. is_head (ad_head p) s"
      "\<forall>s \<in> set (before @ rest). \<not> is_head (ad_head p) s"
  shows "auxiliary_validate_against v p = Inr ()"
proof -
  have add: "checked_add (ad_synapse_start p) (ad_synapse_count p) = Some (ad_synapse_start p + ad_synapse_count p)"
    "unat (ad_synapse_start p + ad_synapse_count p) = length before + length own"
    using p room by (simp_all add: checked_add_def unat_plus_no_overflow)
  have "filter (is_head (ad_head p)) before = []" "filter (is_head (ad_head p)) rest = []" "filter (is_head (ad_head p)) own = own"
    using syn(2,3) by (auto simp: filter_empty_conv)
  then show ?thesis
    unfolding auxiliary_validate_against_def p(1) and_then_simps add ok_or_simps p(2) syn(1) get_range_middle
    using syn(2) p(3) by (auto simp: list_ex_iff)
qed

end
