(* ===== verification/Decoder_Checks.thy ===== *)
theory Decoder_Checks
  imports Decoder_Proofs
begin

text \<open>
  What a compiled decoder set consists of, for the frozen class and for the others, and that its heads pass
  the checks of \<open>decoder.rs\<close> against a phenotype that holds them behind recurrent synapses.
\<close>

section \<open>Memory heads\<close>

definition claimed_memory ::
  "DecoderInputs \<Rightarrow> u16 \<Rightarrow> LobeRegion \<Rightarrow> LobeRegion \<Rightarrow> u16 \<Rightarrow> nat \<Rightarrow> CompiledSynapse list" where
  "claimed_memory inputs route episodic core lane raw =
     map (\<lambda>channel. memory_synapse inputs route (lr_start episodic + word_of_nat channel) (lr_start core + word_of_nat raw)
       (FAMILIES ! raw) (word_of_nat channel) 1 lane (word_of_nat raw)) [0..<12]"

definition frozen_memory ::
  "DecoderInputs \<Rightarrow> u16 \<Rightarrow> LobeRegion \<Rightarrow> LobeRegion \<Rightarrow> u16 \<Rightarrow> nat \<Rightarrow> CompiledSynapse list" where
  "frozen_memory inputs route episodic core lane raw =
     concat (map (n2048_memory_synapses inputs route episodic core lane (FAMILIES ! raw) raw) [0..<12])"

lemma memory_folds:
  assumes "k \<le> 8"
  shows "try_fold (memory_family inputs route episodic core lane) [0..<k] xs
      = Inr (xs @ concat (map (claimed_memory inputs route episodic core lane) [0..<k]))"
    and "try_fold (n2048_memory_family inputs route episodic core lane) [0..<k] xs
      = Inr (xs @ concat (map (frozen_memory inputs route episodic core lane) [0..<k]))"
  using assms
  by (induction k) (simp_all add: try_fold_append memory_family_def n2048_memory_family_def family_of_raw claimed_memory_def
      frozen_memory_def)

lemma memory_synapse_head: "is_head MemoryContext (memory_synapse inputs route s t family channel copies lane out)"
  by (simp add: is_head_def memory_synapse_def synapse_new_def)

lemma head_of_lists:
  "s \<in> set (concat (map (claimed_memory inputs route episodic core lane) ks)) \<Longrightarrow> is_head MemoryContext s"
  "s \<in> set (concat (map (frozen_memory inputs route episodic core lane) ks)) \<Longrightarrow> is_head MemoryContext s"
  "s \<in> set (speech_synapses inputs motor route) \<Longrightarrow> is_head SpeechPayload s"
  "s \<in> set (rows_before inputs route motor units k) \<Longrightarrow> is_head ActionCandidate s"
  using memory_synapse_head
  by (auto simp: claimed_memory_def frozen_memory_def n2048_memory_synapses_def speech_synapses_def rows_before_def
      family_rows_def candidate_rows_def speech_synapse_def candidate_synapse_def Let_def synapse_new_def is_head_def [of SpeechPayload]
      is_head_def [of ActionCandidate])

section \<open>The parts of a decoder set\<close>

text \<open>A head over its own synapses \<open>own\<close>, which start at \<open>start\<close> in the phenotype.\<close>

definition head_over :: "DecoderHeadKind \<Rightarrow> nat \<Rightarrow> CompiledSynapse list \<Rightarrow> AuxiliaryDecoderPlan \<Rightarrow> bool" where
  "head_over head start own p \<longleftrightarrow>
     auxiliary_validate_local p = Inr () \<and> ad_head p = head \<and> unat (ad_synapse_start p) = start
     \<and> unat (ad_synapse_count p) = length own \<and> start + length own < 2 ^ 32 \<and> (\<forall>s \<in> set own. is_head head s)"

definition decoder_parts ::
  "DecoderInputs \<Rightarrow> LobeLayout \<Rightarrow> u16 \<Rightarrow> u32 \<Rightarrow> CompiledDecoderSet \<Rightarrow> LobeRegion \<Rightarrow> (nat \<Rightarrow> u16 list)
   \<Rightarrow> CompiledSynapse list \<Rightarrow> CompiledSynapse list \<Rightarrow> bool" where
  "decoder_parts inputs layout route start d motor units speech mem \<longleftrightarrow>
     (let rows = rows_before inputs route motor units 8; p = dec_candidate d in
      wide_region ActionPlanning (\<lambda>n. True) layout = Inr motor
      \<and> dec_synapses d = rows @ speech @ mem
      \<and> decoder_validate_local p = Inr ()
      \<and> cd_families p = map (family_row inputs route motor start units) [0..<8]
      \<and> cd_motor_start p = lr_start motor \<and> unat (cd_motor_width p) = unat (lr_len motor) \<and> cd_feature_count p = 24
      \<and> distinct (concat (map units [0..<8])) \<and> (\<forall>raw < 8. \<forall>u \<in> set (units raw). u < cd_motor_width p)
      \<and> unat start + length rows < 2 ^ 32
      \<and> (\<exists>len mstart mlen. dec_receipts d = [action_receipt route len, memory_receipt (route + 1) mlen]
          \<and> dec_projections d = [action_projection route start len, memory_projection (route + 1) mstart mlen]
          \<and> unat len = length rows + length speech \<and> unat mstart = unat start + unat len \<and> unat mlen = length mem)
      \<and> (case dec_speech d of None \<Rightarrow> speech = []
         | Some q \<Rightarrow> head_over SpeechPayload (unat start + length rows) speech q)
      \<and> (\<exists>q. dec_memory d = Some q \<and> head_over MemoryContext (unat start + length rows + length speech) mem q))"

lemma motor_width_nonzero: "decoder_validate_local p = Inr () \<Longrightarrow> cd_motor_width p \<noteq> 0"
  by (auto simp: decoder_validate_local_def decoder_validate_shape_def if_Inl_Inr)

lemma feature_lanes: "(word_of_nat CANDIDATE_FEATURE_COUNT :: u16) = 24" "(word_of_nat CANDIDATE_FEATURE_COUNT :: u32) = 24"
  by (simp_all add: CANDIDATE_FEATURE_COUNT_def)

lemma checked_add_1: "checked_add x y = Some z \<Longrightarrow> z = x + y"
  by (auto simp: checked_add_def split: if_splits)

lemma claimed_parts:
  assumes "compile_claimed_decoders inputs layout capacity route start = Inr d"
  shows "\<exists>motor units mem. decoder_parts inputs layout route start d motor units [] mem"
proof -
  obtain motor episodic core motor_width claims len channel lanes candidate memory_route memory_start latent end' memory_count memory
    where motor: "wide_region ActionPlanning (\<lambda>n. True) layout = Inr motor"
    and width: "try_of_len (unat (lr_len motor)) = Some motor_width"
    and claims: "try_fold (claim_gene inputs motor_width) (di_motor_affordances inputs) idle_claim = Inr claims"
    and small: "length (rows_before inputs route motor ((!) (mu_units claims)) 8) < 2 ^ 32"
    and len: "try_of_len (length (rows_before inputs route motor ((!) (mu_units claims)) 8)) = Some len"
    and candidate: "decoder_try_new (lr_start motor) motor_width (word_of_nat CANDIDATE_FEATURE_COUNT) lanes (Some channel)
      (map (family_row inputs route motor start ((!) (mu_units claims))) [0..<8]) = Inr candidate"
    and route1: "checked_add route 1 = Some memory_route" and start: "checked_add start len = Some memory_start"
    and end': "try_of_len (length (rows_before inputs route motor ((!) (mu_units claims)) 8
      @ concat (map (claimed_memory inputs memory_route episodic core latent) [0..<8]))) = Some end'"
    and memory_count: "checked_sub end' len = Some memory_count"
    and memory: "auxiliary_try_new MemoryContext 12 8 memory_start memory_count = Inr memory"
    and d: "d = \<lparr> dec_candidate = candidate, dec_speech = None, dec_memory = Some memory,
       dec_projections = [action_projection route start len, memory_projection memory_route memory_start memory_count],
       dec_synapses = rows_before inputs route motor ((!) (mu_units claims)) 8
         @ concat (map (claimed_memory inputs memory_route episodic core latent) [0..<8]),
       dec_receipts = [action_receipt route len, memory_receipt memory_route memory_count] \<rparr>"
    using assms
    unfolding compile_claimed_decoders_def candidate_families [OF order_refl] memory_folds [OF order_refl]
      and_then_Inr_iff ok_or_Inr_iff if_Inl_Inr
    by (auto split: if_splits)
  let ?rows = "rows_before inputs route motor ((!) (mu_units claims)) 8"
  let ?mem = "concat (map (claimed_memory inputs memory_route episodic core latent) [0..<8])"
  note p = decoder_try_new_Inr [OF candidate]
  note q = auxiliary_try_new_Inr [OF memory]
  have "motor_width \<noteq> 0" using motor_width_nonzero [OF p(1)] p(3) by simp
  note units = claimed_units [OF claims this]
  have n: "unat len = length ?rows" "unat end' = length ?rows + length ?mem" using try_of_len_Some [OF len] try_of_len_Some [OF end'] by simp_all
  have m: "unat memory_count = length ?mem"
    using memory_count n by (auto simp: checked_sub_def unat_sub word_le_nat_alt split: if_splits)
  have s: "unat memory_start = unat start + length ?rows"
    using start n(1) by (auto simp: checked_add_def unat_plus_no_overflow split: if_splits)
  have room: "unat start + length ?rows < 2 ^ 32" using s unsigned_less [where 'a = nat, of memory_start] by simp
  have "\<forall>s \<in> set ?mem. is_head MemoryContext s" using head_of_lists(1) by blast
  then have "head_over MemoryContext (unat start + length ?rows) ?mem memory"
    using q m s unfolding head_over_def by simp
  moreover have "\<exists>len mstart mlen. dec_receipts d = [action_receipt route len, memory_receipt (route + 1) mlen]
      \<and> dec_projections d = [action_projection route start len, memory_projection (route + 1) mstart mlen]
      \<and> unat len = length ?rows + length ([] :: CompiledSynapse list) \<and> unat mstart = unat start + unat len
      \<and> unat mlen = length ?mem"
    using n(1) m s by (intro exI [of _ len] exI [of _ memory_start] exI [of _ memory_count]) (simp add: d checked_add_1 [OF route1])
  ultimately have "decoder_parts inputs layout route start d motor ((!) (mu_units claims)) [] ?mem"
    using motor p units room try_of_len_Some [OF width] unfolding decoder_parts_def Let_def
    by (simp add: feature_lanes d)
  then show ?thesis by blast
qed

lemma frozen_rows:
  "length (rows_before inputs route motor family_motor_units 8) = 3072"
  by (simp add: rows_before_def length_concat comp_def family_rows_def length_candidate_rows family_motor_units_facts upt_rec)

lemma speech_length: "length (speech_synapses inputs motor route) = 1024"
  by (simp add: speech_synapses_def length_concat comp_def lanes_between_simps SPEECH_INPUT_WIDTH_def SPEECH_OUTPUT_WIDTH_def sum_list_triv)

lemma region_relax: "wide_region kind fits layout = Inr r \<Longrightarrow> wide_region kind (\<lambda>n. True) layout = Inr r \<and> fits (lr_len r)"
  by (auto simp: wide_region_def split: option.splits if_splits)

lemma eight: "unat (8 :: u16) = 8"
  by simp

lemma frozen_fold:
  "try_fold (candidate_family inputs route motor start family_motor_units) [0..<8] ([], [])
    = Inr (rows_before inputs route motor family_motor_units 8, map (family_row inputs route motor start family_motor_units) [0..<8])"
  by (simp add: candidate_families frozen_rows)

lemma frozen_parts:
  assumes "compile_n2048_decoders inputs layout route start = Inr d"
  shows "\<exists>motor speech mem. decoder_parts inputs layout route start d motor family_motor_units speech mem"
proof -
  obtain motor episodic core c1 channel motor_width lanes candidate speech_end speech memory_route latent memory_end memory
    where motor: "wide_region ActionPlanning (\<lambda>n. n = 224) layout = Inr motor"
    and c1: "c1 = CANDIDATE_DECODER_SYNAPSE_COUNT"
    and width: "try_of_len (unat (lr_len motor)) = Some motor_width"
    and candidate: "decoder_try_new (lr_start motor) motor_width (word_of_nat CANDIDATE_FEATURE_COUNT) lanes (Some channel)
      (map (family_row inputs route motor start family_motor_units) [0..<8]) = Inr candidate"
    and c2': "speech_end - (start + c1) = SPEECH_DECODER_SYNAPSE_COUNT"
    and speech': "auxiliary_try_new SpeechPayload SPEECH_INPUT_WIDTH SPEECH_OUTPUT_WIDTH (start + c1) (speech_end - (start + c1)) = Inr speech"
    and route1: "checked_add route 1 = Some memory_route"
    and memory_end: "synapse_count_from start (rows_before inputs route motor family_motor_units 8 @ speech_synapses inputs motor route
      @ concat (map (frozen_memory inputs memory_route episodic core latent) [0..<8])) = Inr memory_end"
    and c3': "memory_end - (start + (c1 + (speech_end - (start + c1)))) = MEMORY_DECODER_SYNAPSE_COUNT"
    and memory': "auxiliary_try_new MemoryContext MEMORY_DECODER_INPUT_WIDTH MEMORY_DECODER_OUTPUT_WIDTH
      (start + (c1 + (speech_end - (start + c1)))) (memory_end - (start + (c1 + (speech_end - (start + c1))))) = Inr memory"
    and d': "Inr \<lparr> dec_candidate = candidate, dec_speech = Some speech, dec_memory = Some memory,
      dec_projections = [action_projection route start (c1 + (speech_end - (start + c1))),
        memory_projection memory_route (start + (c1 + (speech_end - (start + c1)))) (memory_end - (start + (c1 + (speech_end - (start + c1)))))],
      dec_synapses = rows_before inputs route motor family_motor_units 8 @ speech_synapses inputs motor route
         @ concat (map (frozen_memory inputs memory_route episodic core latent) [0..<8]),
      dec_receipts = [action_receipt route (c1 + (speech_end - (start + c1))),
        memory_receipt memory_route (memory_end - (start + (c1 + (speech_end - (start + c1)))))] \<rparr> = (Inr d :: CompiledDecoderSet contract)"
    using assms
    unfolding compile_n2048_decoders_def CANDIDATE_FAMILY_COUNT_def eight frozen_fold memory_folds(2) [OF order_refl]
      and_then_simps prod.case and_then_Inr_iff ok_or_Inr_iff if_Inl_Inr Let_def Inr_inject append_assoc de_Morgan_disj not_not
    by (elim exE conjE) (rule that, assumption+)
  note c2 = c2' [unfolded c1] and speech = speech' [unfolded c2', unfolded c1]
  note count = c3' [unfolded c2', unfolded c1] and memory = memory' [unfolded c3', unfolded c2', unfolded c1]
  note d = d' [unfolded sum.inject, unfolded c3', unfolded c2', unfolded c1, symmetric]
  let ?rows = "rows_before inputs route motor family_motor_units 8"
  let ?speech = "speech_synapses inputs motor route"
  let ?mem = "concat (map (frozen_memory inputs memory_route episodic core latent) [0..<8])"
  note p = decoder_try_new_Inr [OF candidate]
  have w: "unat motor_width = 224" using try_of_len_Some [OF width] region_relax [OF motor] by simp
  then have units: "\<forall>raw < 8. \<forall>u \<in> set (family_motor_units raw). u < motor_width"
    using frozen_units(2) by (simp add: word_less_nat_alt)
  have room: "unat start + length ?rows < 2 ^ 32" by (rule candidate_room [OF p(1,5)]) (simp add: frozen_rows)
  have c: "unat CANDIDATE_DECODER_SYNAPSE_COUNT = length ?rows" "unat SPEECH_DECODER_SYNAPSE_COUNT = length ?speech"
    by (simp_all add: CANDIDATE_DECODER_SYNAPSE_COUNT_def SPEECH_DECODER_SYNAPSE_COUNT_def frozen_rows speech_length)
  then have w': "word_of_nat (length ?rows) = CANDIDATE_DECODER_SYNAPSE_COUNT" "word_of_nat (length ?speech) = SPEECH_DECODER_SYNAPSE_COUNT"
    by (metis of_nat_unat ucast_id)+
  have start1: "unat (start + CANDIDATE_DECODER_SYNAPSE_COUNT) = unat start + length ?rows"
    using room c by (subst unat_plus_no_overflow) simp_all
  note q = auxiliary_try_new_Inr [OF speech]
  have start2: "unat (start + (CANDIDATE_DECODER_SYNAPSE_COUNT + SPEECH_DECODER_SYNAPSE_COUNT)) = unat start + length ?rows + length ?speech"
    using q(5) c start1 by (subst add.assoc [symmetric], subst unat_plus_no_overflow) simp_all
  have e: "memory_end - (start + (CANDIDATE_DECODER_SYNAPSE_COUNT + SPEECH_DECODER_SYNAPSE_COUNT)) = word_of_nat (length ?mem)"
    "length ?mem < 2 ^ 32"
    using memory_end w' by (simp_all add: synapse_count_from_Inr_iff)
  have um: "unat (word_of_nat (length ?mem) :: u32) = length ?mem" using e(2) by (simp add: unat_of_nat)
  note mlen = count [symmetric, unfolded e(1)]
  note r = auxiliary_try_new_Inr [OF memory, unfolded mlen]
  have heads: "\<forall>x \<in> set ?mem. is_head MemoryContext x" "\<forall>x \<in> set ?speech. is_head SpeechPayload x" using head_of_lists(2,3) by blast+
  have "head_over SpeechPayload (unat start + length ?rows) ?speech speech"
    using q start1 c(2) heads(2) by (simp add: head_over_def)
  moreover have "head_over MemoryContext (unat start + length ?rows + length ?speech) ?mem memory"
    using r start2 um heads(1) by (simp add: head_over_def)
  moreover have "unat (CANDIDATE_DECODER_SYNAPSE_COUNT + SPEECH_DECODER_SYNAPSE_COUNT) = length ?rows + length ?speech"
    by (simp add: frozen_rows speech_length CANDIDATE_DECODER_SYNAPSE_COUNT_def SPEECH_DECODER_SYNAPSE_COUNT_def)
  then have "\<exists>len mstart mlen. dec_receipts d = [action_receipt route len, memory_receipt (route + 1) mlen]
      \<and> dec_projections d = [action_projection route start len, memory_projection (route + 1) mstart mlen]
      \<and> unat len = length ?rows + length ?speech \<and> unat mstart = unat start + unat len \<and> unat mlen = length ?mem"
    using start2 um
    unfolding d mlen checked_add_1 [OF route1]
    by (rule_tac x = "CANDIDATE_DECODER_SYNAPSE_COUNT + SPEECH_DECODER_SYNAPSE_COUNT" in exI,
        rule_tac x = "start + (CANDIDATE_DECODER_SYNAPSE_COUNT + SPEECH_DECODER_SYNAPSE_COUNT)" in exI,
        rule_tac x = "word_of_nat (length ?mem)" in exI) (simp add: checked_add_1 [OF route1])
  ultimately have "decoder_parts inputs layout route start d motor family_motor_units ?speech ?mem"
    using region_relax [OF motor] p frozen_units(1) units room try_of_len_Some [OF width] d unfolding decoder_parts_def Let_def
    by (simp add: feature_lanes)
  then show ?thesis by blast
qed

lemma compiled_parts:
  assumes "compile_decoders inputs layout capacity route start = Inr d"
  obtains motor units speech mem where "decoder_parts inputs layout route start d motor units speech mem"
  using assms claimed_parts frozen_parts unfolding compile_decoders_def by (metis (full_types))

section \<open>The checks\<close>

definition no_heads :: "CompiledSynapse list \<Rightarrow> bool" where
  "no_heads xs \<longleftrightarrow> (\<forall>s \<in> set xs. \<forall>head. is_head head s \<longrightarrow> head = CognitiveContext)"

lemma is_head_unique: "is_head h s \<Longrightarrow> is_head k s \<longleftrightarrow> k = h"
  by (auto simp: is_head_def split: CompiledSynapseKind.splits)

lemma decoders_pass:
  assumes d: "compile_decoders inputs layout capacity route start = Inr d"
    and v: "pv_synapses v = before @ dec_synapses d @ rest" "length before = unat start" "no_heads before" "no_heads rest"
  shows "decoder_validate_local (dec_candidate d) = Inr ()"
    and "check_all (check_family_range v (dec_candidate d)) (cd_families (dec_candidate d)) = Inr ()"
    and "dec_speech d = Some p \<Longrightarrow> auxiliary_validate_against v p = Inr ()"
    and "\<exists>p. dec_memory d = Some p \<and> auxiliary_validate_against v p = Inr ()"
proof -
  obtain motor units speech mem where parts: "decoder_parts inputs layout route start d motor units speech mem"
    using compiled_parts [OF d] .
  let ?rows = "rows_before inputs route motor units 8"
  note facts = parts [unfolded decoder_parts_def Let_def]
  have heads: "\<forall>s \<in> set ?rows. is_head ActionCandidate s" using head_of_lists(4) by blast
  have other: "\<not> is_head head s" if "s \<in> set before \<union> set rest" "head \<noteq> CognitiveContext" for s head
    using v(3,4) that by (auto simp: no_heads_def)
  have clear: "\<not> is_head head s" if "s \<in> set xs" "\<forall>s \<in> set xs. is_head k s" "head \<noteq> k" for head k s xs
    using that is_head_unique by blast
  show "decoder_validate_local (dec_candidate d) = Inr ()" using facts by blast
  show "check_all (check_family_range v (dec_candidate d)) (cd_families (dec_candidate d)) = Inr ()"
    by (rule candidate_ranges [of _ inputs route motor start units _ before "speech @ mem @ rest"]) (use facts v(1,2) in auto)
  obtain q where q: "dec_memory d = Some q" "head_over MemoryContext (unat start + length ?rows + length speech) mem q"
    using facts by blast
  note q' = q(2) [unfolded head_over_def]
  have sp: "(\<forall>s \<in> set speech. is_head SpeechPayload s)"
    using facts by (cases "dec_speech d") (auto simp: head_over_def)
  have "auxiliary_validate_against v q = Inr ()"
  proof (rule auxiliary_range [where before = "before @ ?rows @ speech" and own = mem and rest = rest])
    show "\<forall>s \<in> set ((before @ ?rows @ speech) @ rest). \<not> is_head (ad_head q) s"
      using q' other clear [OF _ heads] clear [OF _ sp] by auto
  qed (use q' v(1,2) facts in simp_all)
  then show "\<exists>p. dec_memory d = Some p \<and> auxiliary_validate_against v p = Inr ()" using q(1) by blast
  assume p: "dec_speech d = Some p"
  then have p': "head_over SpeechPayload (unat start + length ?rows) speech p" using facts by simp
  note p'' = p' [unfolded head_over_def]
  have hm: "\<forall>s \<in> set mem. is_head MemoryContext s" using q' by blast
  show "auxiliary_validate_against v p = Inr ()"
  proof (rule auxiliary_range [where before = "before @ ?rows" and own = speech and rest = "mem @ rest"])
    show "\<forall>s \<in> set ((before @ ?rows) @ mem @ rest). \<not> is_head (ad_head p) s"
      using p'' other clear [OF _ heads] clear [OF _ hm] by auto
  qed (use p'' v(1,2) facts in simp_all)
qed

section \<open>One family per motor unit\<close>

text \<open>The input lane and the motor unit of a decoder synapse.\<close>

definition motor_slot :: "CompiledSynapse \<Rightarrow> (u16 \<times> u16) option" where
  "motor_slot s = (case sy_kind s of RecurrentSynapse \<Rightarrow> None | DecoderSynapse c \<Rightarrow> Some (dsc_input_lane c, dsc_motor_index c))"

definition feature_lane_list :: "u16 list" where "feature_lane_list = map word_of_nat [0..<CANDIDATE_FEATURE_COUNT]"

lemma row_slots: "map motor_slot (family_rows inputs route motor units raw) = map Some (List.product feature_lane_list (units raw))"
  by (simp add: family_rows_def candidate_rows_def feature_lane_list_def product_concat_map map_concat comp_def motor_slot_def
      candidate_synapse_def Let_def synapse_new_def)

lemma mset_product_append: "mset (List.product xs (ys @ zs)) = mset (List.product xs ys) + mset (List.product xs zs)"
  by (induction xs) simp_all

lemma mset_products: "mset (concat (map (\<lambda>k. List.product xs (f k)) ks)) = mset (List.product xs (concat (map f ks)))"
proof (induction ks)
  case Nil
  then show ?case by (induction xs) simp_all
qed (simp add: mset_product_append)

lemma rows_slots_distinct:
  assumes "distinct (concat (map units [0..<8]))"
  shows "distinct (map motor_slot (rows_before inputs route motor units 8))"
proof -
  have "map motor_slot (rows_before inputs route motor units 8) = map Some (concat (map (\<lambda>k. List.product feature_lane_list (units k)) [0..<8]))"
    by (simp add: rows_before_def map_concat comp_def row_slots)
  moreover have "distinct feature_lane_list"
    by (auto simp: feature_lane_list_def distinct_map CANDIDATE_FEATURE_COUNT_def unat_of_nat intro!: inj_onI dest!: arg_cong [of _ _ unat])
  then have "distinct (List.product feature_lane_list (concat (map units [0..<8])))" using assms by (rule distinct_product)
  then have "distinct (concat (map (\<lambda>k. List.product feature_lane_list (units k)) [0..<8]))"
    using mset_products mset_eq_imp_distinct_iff by metis
  ultimately show ?thesis by (simp add: distinct_map)
qed

lemma candidate_slots_distinct:
  assumes d: "compile_decoders inputs layout capacity route start = Inr d"
  shows "distinct (map motor_slot (filter (is_head ActionCandidate) (dec_synapses d)))"
    and "\<forall>s \<in> set (filter (is_head ActionCandidate) (dec_synapses d)). sy_source s = sy_target s \<and>
      (\<exists>r. wide_region ActionPlanning (\<lambda>n. True) layout = Inr r \<and> (\<exists>u. u < lr_len r \<and> sy_source s = lr_start r + u))"
proof -
  obtain motor units speech mem where parts: "decoder_parts inputs layout route start d motor units speech mem"
    using compiled_parts [OF d] .
  let ?rows = "rows_before inputs route motor units 8"
  note facts = parts [unfolded decoder_parts_def Let_def]
  have heads: "\<forall>s \<in> set ?rows. is_head ActionCandidate s" using head_of_lists(4) by blast
  have "\<forall>s \<in> set speech. is_head SpeechPayload s" using facts by (cases "dec_speech d") (auto simp: head_over_def)
  moreover have "\<forall>s \<in> set mem. is_head MemoryContext s" using facts by (auto simp: head_over_def)
  ultimately have "filter (is_head ActionCandidate) speech = []" "filter (is_head ActionCandidate) mem = []"
    using is_head_unique by (auto simp: filter_empty_conv)
  then have only: "filter (is_head ActionCandidate) (dec_synapses d) = ?rows" using facts heads by simp
  show "distinct (map motor_slot (filter (is_head ActionCandidate) (dec_synapses d)))"
    unfolding only using facts by (intro rows_slots_distinct) blast
  have "sy_source s = sy_target s \<and> (\<exists>u. u < lr_len motor \<and> sy_source s = lr_start motor + u)" if own: "s \<in> set ?rows" for s
  proof -
    obtain raw lane u where s: "raw < 8" "u \<in> set (units raw)" "s = candidate_synapse inputs route motor (FAMILIES ! raw) lane u"
      using own by (auto simp: rows_before_def family_rows_def candidate_rows_def)
    have "u < cd_motor_width (dec_candidate d)" using facts s by blast
    then have "unat u < unat (lr_len motor)" using facts by (simp add: word_less_nat_alt)
    moreover have "unat (ucast u :: u32) = unat u"
      using unsigned_less [where 'a = nat, of u] by (simp add: unsigned_ucast_eq take_bit_nat_eq_self)
    ultimately have "(ucast u :: u32) < lr_len motor" by (simp add: word_less_nat_alt)
    then show ?thesis unfolding s(3) by (auto simp: candidate_synapse_def Let_def synapse_new_def)
  qed
  then show "\<forall>s \<in> set (filter (is_head ActionCandidate) (dec_synapses d)). sy_source s = sy_target s \<and>
      (\<exists>r. wide_region ActionPlanning (\<lambda>n. True) layout = Inr r \<and> (\<exists>u. u < lr_len r \<and> sy_source s = lr_start r + u))"
    unfolding only using facts by blast
qed

end
