(* ===== verification/Construction_Proofs.thy ===== *)
theory Construction_Proofs
  imports Construction Decoder_Checks Encoder_Total Budgets_Proofs
begin

text \<open>
  The core of a compiled brain passes the checks of its own encoder, decoders and budgets.
\<close>

section \<open>The recurrent part\<close>

definition receipts_match :: "Compilation \<Rightarrow> bool" where
  "receipts_match c \<longleftrightarrow>
     co_receipts c = map (\<lambda>p. route_receipt (cp_route_index p) (cp_active_tile_count p) (cp_synapse_len p)) (co_projections c)
     \<and> (\<forall>s \<in> set (co_synapses c). sy_kind s = RecurrentSynapse)"

lemma close_route_matches:
  assumes "receipts_match c" and "co_projections c' = co_projections c" "co_receipts c' = co_receipts c"
    and "\<forall>s \<in> set synapses. sy_kind s = RecurrentSynapse"
  shows "receipts_match (close_route route_index route start tiles synapses len c')"
  using assms by (simp add: receipts_match_def close_route_def projection_new_def)

lemma compile_route_matches:
  assumes "receipts_match c" and step: "compile_route g layout capacity item c = Inr c'"
  shows "receipts_match c'"
proof -
  obtain index route density where item: "item = (index, route, density)" by (cases item) auto
  from step [unfolded item] show ?thesis
  proof (rule compile_route_Inr)
    fix source target route_index start rows end'
    let ?tiles = "active_tiles_for (route_count capacity source target density (length (co_synapses c)))"
    let ?ss = "co_synapses c @ place_synapses g route route_index route_index (lr_start target) rows"
    assume c': "c' = close_route route_index route start ?tiles ?ss (end' - start) (c\<lparr>co_tile_total := co_tile_total c + ?tiles\<rparr>)"
    have "\<forall>s \<in> set ?ss. sy_kind s = RecurrentSynapse" using assms(1) placed_synapse by (auto simp: receipts_match_def)
    then show "receipts_match c'" unfolding c' by (intro close_route_matches [OF assms(1)]) simp_all
  qed
qed

lemma compile_segments_recurrent:
  assumes "try_fold (compile_segment g spec density route_index source target) segments ss = Inr ss'"
    and "\<forall>s \<in> set ss. sy_kind s = RecurrentSynapse"
  shows "\<forall>s \<in> set ss'. sy_kind s = RecurrentSynapse"
  using assms
proof (rule try_fold_invariant)
  fix t sg t'
  assume "\<forall>s \<in> set t. sy_kind s = RecurrentSynapse" and step: "compile_segment g spec density route_index source target sg t = Inr t'"
  moreover obtain start target_start ordinal rows where "t' = t @ place_synapses g start ordinal route_index target_start rows"
    using step unfolding compile_segment_def Let_def and_then_Inr_iff ok_or_Inr_iff if_Inl_Inr by blast
  ultimately show "\<forall>s \<in> set t'. sy_kind s = RecurrentSynapse" using placed_synapse by auto
qed

lemma foundation_route_matches:
  assumes c: "receipts_match c" and step: "compile_foundation_route g layout capacity masks densities item c = Inr c'"
  shows "receipts_match c'"
proof -
  obtain index spec where item: "item = (index, spec)" by (cases item)
  from step [unfolded item] show ?thesis
  proof (rule compile_foundation_route_Inr)
    fix density source target route_index start used segments ss end'
    assume "try_fold (compile_segment g spec density route_index source target) segments (co_synapses c) = Inr ss"
      and c': "c' = close_route route_index (route_mask_of spec) start (active_tiles_for (rs_synapse_count spec)) ss (end' - start)
        (c\<lparr>co_tile_total := used\<rparr>)"
    then have "\<forall>s \<in> set ss. sy_kind s = RecurrentSynapse" using compile_segments_recurrent c by (simp add: receipts_match_def)
    then show "receipts_match c'" unfolding c' by (intro close_route_matches [OF c]) simp_all
  qed
qed

lemma fold_matches:
  assumes "\<And>x c c'. receipts_match c \<Longrightarrow> f x c = Inr c' \<Longrightarrow> receipts_match c'" and "try_fold f xs empty_compilation = Inr c"
  shows "receipts_match c"
  using assms(2)
proof (rule try_fold_invariant)
  show "receipts_match empty_compilation" by (simp add: receipts_match_def empty_compilation_def)
qed (use assms(1) in blast)

lemma recurrent_matches: "compile_recurrent g layout capacity = Inr c \<Longrightarrow> receipts_match c"
proof -
  assume "compile_recurrent g layout capacity = Inr c"
  then obtain masks densities where
    "(if bc_id capacity = N2048_ID then compile_n2048_foundation g layout capacity masks densities
      else try_fold (compile_route g layout capacity) (enumerate 0 (enabled_routes masks densities)) empty_compilation) = Inr c"
    unfolding compile_recurrent_def and_then_Inr_iff by blast
  then consider "try_fold (compile_foundation_route g layout capacity masks densities) (enumerate 0 N2048_ROUTES) empty_compilation = Inr c"
    | "try_fold (compile_route g layout capacity) (enumerate 0 (enabled_routes masks densities)) empty_compilation = Inr c"
    unfolding compile_n2048_foundation_def by (auto split: if_splits)
  then show ?thesis
    by cases (rule fold_matches [OF foundation_route_matches], assumption+, rule fold_matches [OF compile_route_matches], assumption+)
qed

section \<open>The cognitive head\<close>

lemma cognitive_fold:
  assumes "k \<le> 8"
  shows "try_fold (cognitive_family inputs route episodic core) [0..<k] xs = Inr (xs @ concat (map (\<lambda>raw.
    map (cognitive_synapse inputs route episodic core (FAMILIES ! raw) raw) (lanes_between COGNITIVE_CHANNEL_LANE_START COGNITIVE_CHANNEL_LANE_END)) [0..<k]))"
  using assms by (induction k) (simp_all add: try_fold_append cognitive_family_def family_of_raw)

lemma cognitive_head_adds:
  assumes "with_cognitive_head inputs layout parts = Inr parts'"
  shows "\<exists>zs r. bp_synapses parts' = bp_synapses parts @ zs \<and> no_heads zs \<and> bp_receipts parts' = bp_receipts parts @ [memory_receipt r COGNITIVE_CHANNEL_TOTAL_SYNAPSES]"
proof -
  obtain route episodic core zs where fold: "try_fold (cognitive_family inputs route episodic core) [0..<8] [] = Inr zs"
    and parts': "bp_synapses parts' = bp_synapses parts @ zs" "bp_receipts parts' = bp_receipts parts @ [memory_receipt route COGNITIVE_CHANNEL_TOTAL_SYNAPSES]"
    using assms unfolding with_cognitive_head_def by (auto simp: COGNITIVE_CHANNEL_FAMILY_COUNT_def)
  have "no_heads zs"
    using fold unfolding cognitive_fold [OF order_refl] no_heads_def is_head_def
    by (auto simp: cognitive_synapse_def Let_def synapse_new_def)
  then show ?thesis using parts' by blast
qed

section \<open>The checks of the whole\<close>

lemma compile_core_Inr:
  assumes "compile_core sensors inputs profile cognitive layout capacity captured = Inr k"
  obtains c route start zs rs lanes where
    "compile_encoder sensors layout profile = Inr (ck_encoder k)"
    "compile_recurrent (di_genome inputs) layout capacity = Inr c"
    "compile_decoders inputs layout capacity route start = Inr (ck_decoders k)" "unat start = length (co_synapses c)"
    "bp_synapses (ck_parts k) = co_synapses c @ dec_synapses (ck_decoders k) @ zs" "no_heads zs"
    "bp_receipts (ck_parts k) = co_receipts c @ dec_receipts (ck_decoders k) @ rs"
    "lanes = (if cognitive then COGNITIVE_CHANNEL_LANE_END else cd_flattened_input_lane_count (dec_candidate (ck_decoders k)))"
    "assemble_budgets capacity (bp_receipts (ck_parts k)) lanes captured = Inr (ck_budgets k)"
proof -
  obtain encoder c route start decoders parts budgets where
    e: "compile_encoder sensors layout profile = Inr encoder" "compile_recurrent (di_genome inputs) layout capacity = Inr c"
    and start: "try_of_len (length (co_synapses c)) = Some start"
    and d: "compile_decoders inputs layout capacity route start = Inr decoders"
    and parts: "(if cognitive then with_cognitive_head inputs layout \<lparr> bp_projections = co_projections c @ dec_projections decoders,
             bp_synapses = co_synapses c @ dec_synapses decoders, bp_receipts = co_receipts c @ dec_receipts decoders \<rparr>
        else Inr \<lparr> bp_projections = co_projections c @ dec_projections decoders,
             bp_synapses = co_synapses c @ dec_synapses decoders, bp_receipts = co_receipts c @ dec_receipts decoders \<rparr>) = Inr parts"
    and b: "assemble_budgets capacity (bp_receipts parts)
        (if cognitive then COGNITIVE_CHANNEL_LANE_END else cd_flattened_input_lane_count (dec_candidate decoders)) captured = Inr budgets"
    and k: "k = \<lparr> ck_encoder = encoder, ck_decoders = decoders, ck_parts = parts, ck_budgets = budgets \<rparr>"
    using assms unfolding compile_core_def Let_def and_then_Inr_iff ok_or_Inr_iff may_fail_Inr_iff Inr_inject by blast
  have "\<exists>zs rs. bp_synapses parts = co_synapses c @ dec_synapses decoders @ zs \<and> no_heads zs
      \<and> bp_receipts parts = co_receipts c @ dec_receipts decoders @ rs"
  proof (cases cognitive)
    case True
    with parts cognitive_head_adds show ?thesis by fastforce
  next
    case False
    with parts show ?thesis by (intro exI [of _ "[]"]) (auto simp: no_heads_def)
  qed
  then obtain zs rs where "bp_synapses parts = co_synapses c @ dec_synapses decoders @ zs" "no_heads zs"
    "bp_receipts parts = co_receipts c @ dec_receipts decoders @ rs" by blast
  then show thesis
    by (intro that [of c route start zs rs, OF _ _ _ _ _ _ _ refl]) (use e d b try_of_len_Some [OF start] in \<open>simp_all add: k split: if_splits\<close>)
qed

lemma checked_total:
  "try_fold (\<lambda>row s. ok_or () (checked_add s (df_synapse_count row))) rows s = Inr t \<longleftrightarrow>
     unat t = unat s + (\<Sum>row \<leftarrow> rows. unat (df_synapse_count row))"
proof (induction rows arbitrary: s)
  case (Cons row rows)
  have "unat (s + df_synapse_count row) = unat s + unat (df_synapse_count row)"
    if "unat t = unat s + (unat (df_synapse_count row) + (\<Sum>row \<leftarrow> rows. unat (df_synapse_count row)))"
    using that unsigned_less [where 'a = nat, of t] by (intro unat_plus_no_overflow) simp
  then show ?case using Cons unsigned_less [where 'a = nat, of t] by (auto simp: checked_add_def unat_plus_no_overflow)
qed (auto simp: word_unat_eq_iff)

lemma decoder_total:
  assumes "(\<Sum>row \<leftarrow> cd_families p. unat (df_synapse_count row)) < 2 ^ 32"
  shows "unat (decoder_synapse_total p) = (\<Sum>row \<leftarrow> cd_families p. unat (df_synapse_count row))"
proof -
  let ?n = "\<Sum>row \<leftarrow> cd_families p. unat (df_synapse_count row)"
  have "unat (word_of_nat ?n :: u32) = ?n" using assms by (simp add: unat_of_nat)
  then have "try_fold (\<lambda>row s. ok_or () (checked_add s (df_synapse_count row))) (cd_families p) 0 = Inr (word_of_nat ?n)"
    by (simp add: checked_total)
  then show ?thesis using \<open>unat (word_of_nat ?n :: u32) = ?n\<close> by (simp add: decoder_synapse_total_def)
qed

lemma decoder_lanes:
  assumes "decoder_validate_local p = Inr ()"
  shows "ucast (cd_flattened_input_lane_count p) = (case cd_memory_channel p of None \<Rightarrow> 24 | Some plan \<Rightarrow> mc_decoder_input_stride plan)"
proof -
  have lanes: "cd_flattened_input_lane_count p = (case cd_memory_channel p of None \<Rightarrow> word_of_nat CANDIDATE_FEATURE_COUNT
      | Some plan \<Rightarrow> (case try_of_len (unat (mc_decoder_input_stride plan)) of None \<Rightarrow> - 1 | Some n \<Rightarrow> n))"
    and channel: "(case cd_memory_channel p of None \<Rightarrow> Inr () | Some plan \<Rightarrow> memory_validate plan) = Inr ()"
    using assms by (auto simp: decoder_validate_local_def decoder_validate_shape_def if_Inl_Inr)
  show ?thesis
  proof (cases "cd_memory_channel p")
    case (Some plan)
    then have "mc_decoder_input_stride plan = 36"
      using channel by (auto simp: memory_validate_def memory_validate_shape_def Let_def if_Inl_Inr feature_lanes
          TARGET_LATENT_WIDTH_def FAMILY_VALUE_WIDTH_def)
    then show ?thesis using lanes Some by (simp add: try_of_len_def)
  qed (use lanes in \<open>simp add: feature_lanes\<close>)
qed

lemma few_lanes:
  assumes "decoder_validate_local p = Inr ()"
  shows "cd_flattened_input_lane_count p \<le> 36"
  using decoder_lanes [OF assms] assms
  by (auto simp: decoder_validate_local_def decoder_validate_shape_def if_Inl_Inr feature_lanes
      memory_validate_def memory_validate_shape_def Let_def TARGET_LATENT_WIDTH_def FAMILY_VALUE_WIDTH_def try_of_len_def split: option.splits)

lemma supported_class:
  assumes "capacity \<in> set supported_classes"
  shows "supported_for_id (bc_id capacity) = Inr capacity" "xb_candidate_feature_count (bc_execution capacity) = 24"
  using assms by (auto simp: supported_classes_def supported_for_id_def production_for_id_def capacity_n512_def capacity_n1024_def
      capacity_n2048_def capacity_n4096_research_def budget_production_def Let_def N512_ID_def N1024_ID_def N2048_ID_def
      N4096_RESEARCH_ID_def CANDIDATE_FEATURE_COUNT_def)

lemma motor_region:
  assumes "wide_region ActionPlanning fits layout = Inr motor" and "layout_validate n layout = Inr ()" "unat n < 2 ^ 20"
  shows "layout_region ActionPlanning layout = Some motor" "lr_enabled motor" "unat (lr_start motor) + unat (lr_len motor) < 2 ^ 20"
    "unat (region_end motor) = unat (lr_start motor) + unat (lr_len motor)"
proof -
  show "layout_region ActionPlanning layout = Some motor" "lr_enabled motor"
    using assms(1) by (auto simp: wide_region_def split: option.splits if_splits)
  then have "enabled_region ActionPlanning layout = Inr motor" by (simp add: enabled_region_def)
  note facts = enabled_region_facts [OF assms(2) this]
  show lt: "unat (lr_start motor) + unat (lr_len motor) < 2 ^ 20" using facts(4) assms(3) by simp
  show "unat (region_end motor) = unat (lr_start motor) + unat (lr_len motor)"
    unfolding region_end_def using lt by (subst unat_plus_no_overflow) simp_all
qed

text \<open>The motor heads of the architecture fit the motor lobe the decoder reads.\<close>

definition heads_fit :: "u8 \<Rightarrow> u16 \<Rightarrow> CompiledCore \<Rightarrow> bool" where
  "heads_fit head_count head_width k \<longleftrightarrow>
     0 < head_count \<and> head_count \<le> 4 \<and> 0 < head_width
     \<and> unat head_width * unat head_count \<le> unat (cd_motor_width (dec_candidate (ck_decoders k)))"

lemma heads_outcome:
  "factorized_motor_channels (core_view layout capacity head_count head_width cognitive k) (dec_candidate (ck_decoders k))
    = (if heads_fit head_count head_width k then Inr (take (unat head_count) FACTORIZED_MOTOR_CHANNELS) else Inl PhenotypeCompile)"
proof -
  let ?w = "cd_motor_width (dec_candidate (ck_decoders k))"
  have w: "unat (ucast ?w :: u32) = unat ?w" "unat (ucast head_width :: u32) = unat head_width" "unat head_width < 2 ^ 16"
    using unsigned_less [where 'a = nat, of ?w] unsigned_less [where 'a = nat, of head_width]
    by (simp_all add: unsigned_ucast_eq take_bit_nat_eq_self)
  have zero: "0 < head_count \<longleftrightarrow> 0 < unat head_count" "head_count \<le> 4 \<longleftrightarrow> unat head_count \<le> 4" "0 < head_width \<longleftrightarrow> head_width \<noteq> 0"
    by (simp_all add: word_le_nat_alt word_less_nat_alt unat_eq_0 [symmetric])
  have prod: "(ucast ?w :: u32) < ucast head_width * word_of_nat (unat head_count) \<longleftrightarrow> unat ?w < unat head_width * unat head_count"
    if n: "unat head_count \<le> 4"
  proof -
    have "unat head_width * unat head_count < 2 ^ 16 * 5" using n w(3) by (intro mult_strict_mono) simp_all
    moreover have "unat (word_of_nat (unat head_count) :: u32) = unat head_count"
      unfolding unat_of_nat using n by simp
    ultimately have "unat (ucast head_width * word_of_nat (unat head_count) :: u32) = unat head_width * unat head_count"
      using w(2) by (simp add: unat_word_ariths)
    then show ?thesis by (simp add: word_less_nat_alt w(1))
  qed
  show ?thesis
    unfolding heads_fit_def zero using prod
    by (auto simp: factorized_motor_channels_def core_view_def FACTORIZED_MOTOR_CHANNEL_COUNT_def Let_def)
qed

lemma assembled_facts:
  assumes "assemble_budgets capacity rs lanes captured = Inr b"
  shows "budgets_validate_against capacity b = Inr ()" "capacity \<in> set supported_classes" "lanes \<le> xb_max_decoder_input_lanes (bc_execution capacity)"
    "gb_decoder_input_lanes (cb_global b) = lanes"
    "unat (gb_action_decoder_synapses (cb_global b)) = total_of rbr_action_decoder_synapses rs"
proof -
  have fit: "receipts_fit capacity rs lanes captured" using assms assembly_succeeds_iff by blast
  then show "capacity \<in> set supported_classes" "lanes \<le> xb_max_decoder_input_lanes (bc_execution capacity)"
    by (simp_all add: receipts_fit_def Let_def)
  obtain t n where b: "budgets_validate_against capacity (assembled capacity rs lanes t n) = Inr ()" "b = assembled capacity rs lanes t n"
    using assms unfolding assemble_budgets_Inr by blast
  then show "budgets_validate_against capacity b = Inr ()" by simp
  show "gb_decoder_input_lanes (cb_global b) = lanes"
    "unat (gb_action_decoder_synapses (cb_global b)) = total_of rbr_action_decoder_synapses rs"
    using fit_sums [OF fit] by (simp_all add: b(2) assembled_def Let_def)
qed

lemma candidate_accepted:
  assumes valid: "layout_validate n layout = Inr ()" "unat n < 2 ^ 20"
    and k: "compile_core sensors inputs profile cognitive layout capacity captured = Inr k"
  shows "decoder_validate_against (core_view layout capacity head_count head_width cognitive k) (dec_candidate (ck_decoders k))
      = (if heads_fit head_count head_width k then Inr () else Inl PhenotypeCompile)"
    and "dec_speech (ck_decoders k) = Some q \<Longrightarrow> auxiliary_validate_against (core_view layout capacity head_count head_width cognitive k) q = Inr ()"
    and "\<exists>q. dec_memory (ck_decoders k) = Some q \<and> auxiliary_validate_against (core_view layout capacity head_count head_width cognitive k) q = Inr ()"
    and "budgets_validate_against capacity (ck_budgets k) = Inr ()"
proof -
  let ?v = "core_view layout capacity head_count head_width cognitive k" and ?p = "dec_candidate (ck_decoders k)"
  from compile_core_Inr [OF k] obtain c route start zs rs lanes where
    c: "compile_recurrent (di_genome inputs) layout capacity = Inr c"
    and d: "compile_decoders inputs layout capacity route start = Inr (ck_decoders k)" "unat start = length (co_synapses c)"
    and parts: "bp_synapses (ck_parts k) = co_synapses c @ dec_synapses (ck_decoders k) @ zs" "no_heads zs"
      "bp_receipts (ck_parts k) = co_receipts c @ dec_receipts (ck_decoders k) @ rs"
    and lanes: "lanes = (if cognitive then COGNITIVE_CHANNEL_LANE_END else cd_flattened_input_lane_count ?p)"
    and b: "assemble_budgets capacity (bp_receipts (ck_parts k)) lanes captured = Inr (ck_budgets k)" .
  have "no_heads (co_synapses c)" using recurrent_matches [OF c] by (auto simp: no_heads_def receipts_match_def is_head_def)
  note pass = decoders_pass [OF d(1), of ?v "co_synapses c" zs, OF _ _ this parts(2)]
  have v: "pv_synapses ?v = co_synapses c @ dec_synapses (ck_decoders k) @ zs" "length (co_synapses c) = unat start"
    by (simp_all add: core_view_def parts(1) d(2))
  show "dec_speech (ck_decoders k) = Some q \<Longrightarrow> auxiliary_validate_against ?v q = Inr ()"
    "\<exists>q. dec_memory (ck_decoders k) = Some q \<and> auxiliary_validate_against ?v q = Inr ()"
    using pass(3,4) [OF v] by blast+
  note facts = assembled_facts [OF b]
  show "budgets_validate_against capacity (ck_budgets k) = Inr ()" by (rule facts(1))
  obtain motor units speech mem where ps: "decoder_parts inputs layout route start (ck_decoders k) motor units speech mem"
    using compiled_parts [OF d(1)] .
  note ps' = ps [unfolded decoder_parts_def Let_def]
  let ?rows = "rows_before inputs route motor units 8"
  have local_ok: "decoder_validate_local ?p = Inr ()" using ps' by blast
  have motor: "layout_region ActionPlanning layout = Some motor" "lr_enabled motor" "unat (lr_start motor) + unat (lr_len motor) < 2 ^ 20"
    "unat (region_end motor) = unat (lr_start motor) + unat (lr_len motor)"
    using motor_region [OF _ valid] ps' by blast+
  have w: "unat (ucast (cd_motor_width ?p) :: u32) = unat (lr_len motor)"
    using ps' unsigned_less [where 'a = nat, of "cd_motor_width ?p"] by (simp add: unsigned_ucast_eq take_bit_nat_eq_self)
  have motor_end: "checked_add (cd_motor_start ?p) (ucast (cd_motor_width ?p)) = Some (lr_start motor + ucast (cd_motor_width ?p))"
    "unat (lr_start motor + ucast (cd_motor_width ?p)) = unat (region_end motor)"
    using ps' w motor(3,4) by (simp_all add: checked_add_def unat_plus_no_overflow)
  have total: "unat (decoder_synapse_total ?p) = length ?rows"
    using decoder_total [of ?p] family_rows_sum [of inputs route motor units 8 start] ps' by simp
  obtain len r where rec: "dec_receipts (ck_decoders k) = [action_receipt route len, r]" "length ?rows \<le> unat len"
  proof -
    obtain len mlen where "dec_receipts (ck_decoders k) = [action_receipt route len, memory_receipt (route + 1) mlen]"
      "unat len = length ?rows + length speech" using ps' by blast
    then show thesis by (intro that) (assumption, linarith)
  qed
  have "unat len \<le> total_of rbr_action_decoder_synapses (bp_receipts (ck_parts k))"
    by (simp add: parts(3) rec(1) total_of_def action_receipt_def)
  then have action: "\<not> gb_action_decoder_synapses (cb_global (ck_budgets k)) < decoder_synapse_total ?p"
    using facts(5) total rec(2) by (simp add: word_less_nat_alt)
  have stride: "ucast (cd_flattened_input_lane_count ?p) = (case cd_memory_channel ?p of
      None \<Rightarrow> ucast (xb_candidate_feature_count (bc_execution capacity)) | Some plan \<Rightarrow> mc_decoder_input_stride plan)"
    using decoder_lanes [OF local_ok] supported_class(2) [OF facts(2)] by (simp split: option.splits)
  have "cd_flattened_input_lane_count ?p \<le> 36" by (rule few_lanes [OF local_ok])
  moreover have "36 \<le> xb_max_decoder_input_lanes (bc_execution capacity)"
    using facts(2) by (auto simp: supported_classes_def capacity_n512_def capacity_n1024_def capacity_n2048_def
        capacity_n4096_research_def budget_production_def Let_def)
  ultimately have wide: "cd_flattened_input_lane_count ?p \<le> xb_max_decoder_input_lanes (bc_execution capacity)" by (rule order_trans)
  have width: "cd_motor_width ?p \<noteq> 0" using motor_width_nonzero [OF local_ok] .
  have view: "pv_brain_class_id ?v = bc_id capacity" "pv_lobe_layout ?v = layout" "pv_budgets ?v = ck_budgets k"
    "pv_cognitive_lane_end ?v = (if cognitive then Some COGNITIVE_CHANNEL_LANE_END else None)"
    by (simp_all add: core_view_def)
  have feature: "cd_feature_count ?p = xb_candidate_feature_count (bc_execution capacity)"
    using ps' supported_class(2) [OF facts(2)] by simp
  have place: "cd_motor_start ?p = lr_start motor" using ps' by blast
  have guard1: "\<not> (cd_feature_count ?p \<noteq> xb_candidate_feature_count (bc_execution capacity)
      \<or> ucast (cd_flattened_input_lane_count ?p) \<noteq> (case cd_memory_channel ?p of
          None \<Rightarrow> ucast (xb_candidate_feature_count (bc_execution capacity)) | Some plan \<Rightarrow> mc_decoder_input_stride plan)
      \<or> (case pv_cognitive_lane_end ?v of
           None \<Rightarrow> cd_flattened_input_lane_count ?p \<noteq> gb_decoder_input_lanes (cb_global (pv_budgets ?v))
         | Some lane_end \<Rightarrow> lane_end \<noteq> gb_decoder_input_lanes (cb_global (pv_budgets ?v)))
      \<or> xb_max_decoder_input_lanes (bc_execution capacity) < cd_flattened_input_lane_count ?p
      \<or> gb_action_decoder_synapses (cb_global (pv_budgets ?v)) < decoder_synapse_total ?p)"
    unfolding view stride feature using facts(4) lanes wide action by (simp add: not_less)
  have guard2: "\<not> (\<not> lr_enabled motor \<or> cd_motor_width ?p = 0 \<or> cd_motor_start ?p < lr_start motor
      \<or> region_end motor < lr_start motor + ucast (cd_motor_width ?p))"
    using motor(2) width motor_end(2) place by (simp add: word_less_nat_alt)
  show "decoder_validate_against ?v ?p = (if heads_fit head_count head_width k then Inr () else Inl PhenotypeCompile)"
  proof (cases "heads_fit head_count head_width k")
    case True
    then have channels: "factorized_motor_channels ?v ?p = Inr (take (unat head_count) FACTORIZED_MOTOR_CHANNELS)"
      by (simp add: heads_outcome)
    have "decoder_validate_against ?v ?p = Inr ()"
      unfolding decoder_validate_against_def Let_def local_ok channels and_then_simps view(1) supported_class(1) [OF facts(2)]
        if_not_P [OF guard1] view(2) motor(1) ok_or_simps motor_end(1) if_not_P [OF guard2]
      by (rule pass(2) [OF v])
    with True show ?thesis by simp
  next
    case False
    then have "factorized_motor_channels ?v ?p = Inl PhenotypeCompile" by (simp add: heads_outcome)
    then show ?thesis unfolding decoder_validate_against_def local_ok and_then_simps using False by simp
  qed
qed

end
