(* ===== verification/Decoder_Foundation.thy ===== *)
theory Decoder_Foundation
  imports Decoder_Checks
begin

text \<open>
  The frozen decoders of the 2048-neuron class compile for every genome with valid innate priorities, and
  their memory head joins each of 64 inputs to each of 64 outputs exactly once.
\<close>

section \<open>Innate priorities\<close>

lemma f32_abs_fields:
  "f32_exponent (f32_abs x) = f32_exponent x" "f32_fraction (f32_abs x) = f32_fraction x"
  "\<not> f32_is_sign_negative (f32_abs x)"
proof -
  have m: "(255 :: f32) = mask 8" "(8388607 :: f32) = mask 23" "(0x7FFFFFFF :: f32) = mask 31"
    by (simp_all add: mask_eq_exp_minus_1)
  have bit_abs: "bit (f32_abs x) n \<longleftrightarrow> bit x n \<and> n < 31" for n
    unfolding f32_abs_def m(3) by (auto simp: bit_and_iff bit_mask_iff)
  have "drop_bit 23 (f32_abs x) AND mask 8 = drop_bit 23 x AND mask 8"
    by (rule bit_word_eqI) (auto simp: bit_and_iff bit_drop_bit_eq bit_mask_iff bit_abs)
  then show "f32_exponent (f32_abs x) = f32_exponent x" by (simp only: f32_exponent_def m)
  have "f32_abs x AND mask 23 = x AND mask 23"
    by (rule bit_word_eqI) (auto simp: bit_and_iff bit_mask_iff bit_abs)
  then show "f32_fraction (f32_abs x) = f32_fraction x" by (simp only: f32_fraction_def m)
  show "\<not> f32_is_sign_negative (f32_abs x)" by (simp add: f32_is_sign_negative_def bit_abs)
qed

lemma abs_scaled: "f32_scaled (f32_abs x) = int (f32_magnitude x)"
  by (simp add: f32_scaled_def f32_magnitude_def f32_abs_fields)

lemma gain_limit: "f32_scaled (f32_of_nat 128) = 2 ^ 156"
proof -
  have "f32_of_nat 128 = 0x43000000"
  proof -
    have "bit_length (128 * 2 ^ 149) = 157" by (simp add: bit_length.simps)
    then show ?thesis by (simp add: f32_of_nat_def f32_round_def f32_bits_of_def round_even_def)
  qed
  then show ?thesis
    by (simp add: f32_scaled_def f32_magnitude_def f32_exponent_unat f32_fraction_unat f32_sign_unat)
qed

lemma small_gain_ok: "f32_bounded 154 g \<Longrightarrow> f32_is_finite g \<and> \<not> f32_lt (f32_of_nat 128) (f32_abs g)"
proof -
  assume b: "f32_bounded 154 g"
  then have "f32_magnitude g \<le> 2 ^ 154" by (simp add: f32_bounded_def)
  also have "(2 :: nat) ^ 154 \<le> 2 ^ 156" by simp
  finally have "int (f32_magnitude g) \<le> 2 ^ 156" by simp
  then show ?thesis using b by (simp add: f32_bounded_def f32_lt_def abs_scaled gain_limit)
qed

lemma innate_unit_values: "innate_validate g = Inr () \<Longrightarrow>
    unit_value (ip_reflex_strength g) \<and> unit_value (ip_food_attraction g) \<and> unit_value (ip_hazard_aversion g)"
  by (auto simp: innate_validate_def split: if_splits)

lemma small_gains:
  assumes "n \<le> 32" "unit_value x"
  shows "f32_bounded 154 (f32_mul (f32_of_nat n) x)" "f32_bounded 154 (f32_mul (f32_neg (f32_of_nat n)) x)"
    and "unit_value y \<Longrightarrow> f32_bounded 154 (f32_mul (f32_mul (f32_of_nat n) x) y)"
proof -
  have n: "f32_bounded 154 (f32_of_nat n)" using f32_of_nat_bounded [of n 5] assms(1) by simp
  show a: "f32_bounded 154 (f32_mul (f32_of_nat n) x)"
    by (rule f32_mul_bounded [OF n unit_bounded [OF assms(2)]]) simp_all
  show "f32_bounded 154 (f32_mul (f32_neg (f32_of_nat n)) x)"
    by (rule f32_mul_bounded [where j = 154, OF _ unit_bounded [OF assms(2)]]) (use n in simp_all)
  show "unit_value y \<Longrightarrow> f32_bounded 154 (f32_mul (f32_mul (f32_of_nat n) x) y)"
    by (rule f32_mul_bounded [OF a unit_bounded]) simp_all
qed

lemma priority_gain:
  assumes "innate_validate g = Inr ()" and "innate_priority_for_family g family = (drive_mask, gain, cue, invert, reach)"
  shows "f32_bounded 154 gain"
proof -
  note u = innate_unit_values [OF assms(1)]
  show ?thesis
    using assms(2) small_gains [of 16 "ip_reflex_strength g"] small_gains [of 24 "ip_reflex_strength g"]
      small_gains [of 8 "ip_reflex_strength g"] u f32_zero_bounded(1) [of 154]
    by (cases family) (auto simp: innate_priority_for_family_def Let_def f32_zero_def split: if_splits)
qed

lemma zero_gain: "f32_eq f32_zero f32_zero" "f32_is_finite f32_zero"
  by (simp_all add: f32_eq_def f32_zero_def f32_is_nan_def f32_is_finite_def f32_exponent_unat f32_fraction_unat)

lemma priority_row_ok:
  assumes "innate_validate g = Inr ()" and p: "innate_priority_for_family g family = (drive_mask, gain, cue, invert, reach)"
  shows "\<not> row_malformed (with_innate_priority drive_mask gain cue invert reach (family_plan_new family f32_zero start len))"
proof -
  note gain = small_gain_ok [OF priority_gain [OF assms]]
  have "drive_mask \<in> {0, 1, 2, 140, 141}"
    using p by (cases family) (auto simp: innate_priority_for_family_def Let_def split: if_splits)
  then have "drive_mask AND NOT 0x1FF = 0" by auto
  then show ?thesis
    using p gain zero_gain
    by (cases family) (auto simp: innate_priority_for_family_def Let_def row_malformed_def with_innate_priority_def
        family_plan_new_def INNATE_NONCONTACT_CUE_def CANDIDATE_FEATURE_COUNT_def split: if_splits)
qed

section \<open>The frozen plans\<close>

lemma check_frozen_row:
  assumes g: "innate_validate (di_innate_priority inputs) = Inr ()" and raw: "raw < 8"
    and room: "unat start + length (rows_before inputs route motor units (Suc raw)) < 2 ^ 32"
  shows "check_row (raw, family_row inputs route motor start units raw)
      (start + word_of_nat (length (rows_before inputs route motor units raw)))
    = Inr (start + word_of_nat (length (rows_before inputs route motor units (Suc raw))))"
proof -
  let ?b = "length (rows_before inputs route motor units raw)" and ?f = "length (family_rows inputs route motor units raw)"
  have n: "length (rows_before inputs route motor units (Suc raw)) = ?b + ?f" by (simp add: rows_before_Suc)
  then have u: "unat (word_of_nat ?b :: u32) = ?b" "unat (word_of_nat ?f :: u32) = ?f" using room by (simp_all add: unat_of_nat)
  then have "unat (start + word_of_nat ?b) = unat start + ?b" using room n by (subst unat_plus_no_overflow) simp_all
  then have add: "checked_add (start + word_of_nat ?b) (word_of_nat ?f) = Some (start + word_of_nat (?b + ?f))"
    using room n u by (simp add: checked_add_def add.assoc)
  have family: "family_raw (FAMILIES ! raw) = word_of_nat raw" using family_of_raw [OF raw] by (simp add: family_try_from_raw_Inr)
  have ok: "\<not> row_malformed (family_row inputs route motor start units raw)"
    using priority_row_ok [OF g] unfolding family_row_def by (auto split: prod.splits)
  have len: "try_of_len raw = Some (word_of_nat raw :: u8)" using raw by (simp add: try_of_len_def)
  show ?thesis
    by (simp add: check_row_def len family_row_fields family ok family_of_raw [OF raw] add n)
qed

lemma check_frozen_rows:
  assumes g: "innate_validate (di_innate_priority inputs) = Inr ()" and k: "k \<le> 8"
    and room: "unat start + length (rows_before inputs route motor units k) < 2 ^ 32"
  shows "try_fold check_row (enumerate 0 (map (family_row inputs route motor start units) [0..<k])) start
    = Inr (start + word_of_nat (length (rows_before inputs route motor units k)))"
  using k room
proof (induction k)
  case (Suc k)
  have "length (rows_before inputs route motor units k) \<le> length (rows_before inputs route motor units (Suc k))"
    by (rule rows_before_length_mono) simp
  then show ?case
    using Suc check_frozen_row [OF g, of k start route motor units] by (simp add: enumerate_append_eq try_fold_append)
qed (simp add: rows_before_def)

lemma memory_channel_exists:
  "\<exists>p. memory_try_new_v1 MEMORY_DECODER_SYNAPSE_COUNT = Inr p \<and> memory_validate p = Inr ()
    \<and> mc_decoder_input_stride p = 36 \<and> mc_target_latent_lane_start p = 24 \<and> mc_memory_decoder_synapse_count p = 4096"
proof -
  let ?v = "\<lparr> mc_schema_version = MEMORY_CHANNEL_SCHEMA_VERSION, mc_target_latent_lane_start = word_of_nat CANDIDATE_FEATURE_COUNT,
            mc_family_value_lane_start = word_of_nat CANDIDATE_FEATURE_COUNT + TARGET_LATENT_WIDTH,
            mc_decoder_input_stride = word_of_nat CANDIDATE_FEATURE_COUNT + TARGET_LATENT_WIDTH + FAMILY_VALUE_WIDTH,
            mc_max_candidate_gain = f32_lit 5 10, mc_memory_decoder_synapse_count = MEMORY_DECODER_SYNAPSE_COUNT,
            mc_canonical_digest = (0, 0, 0, 0) \<rparr>"
  have shape: "memory_validate_shape ?v = Inr ()"
    by (simp add: memory_validate_shape_def Let_def TARGET_LATENT_WIDTH_def FAMILY_VALUE_WIDTH_def feature_lanes
        MEMORY_DECODER_SYNAPSE_COUNT_def MINIMUM_SYNAPSE_COUNT_def MEMORY_FAMILY_COUNT_def synapses_per_family_def)
  have "f32_is_finite (f32_lit 5 10)" using f32_lit_finite [of 10 5] by simp
  then obtain d where digest: "memory_recompute_digest ?v = Inr d"
    unfolding memory_recompute_digest_def by (auto simp: write_f32_def simp del: split_paired_Ex)
  have ignore: "memory_validate_shape (q\<lparr>mc_canonical_digest := e\<rparr>) = memory_validate_shape q"
    "memory_recompute_digest (q\<lparr>mc_canonical_digest := e\<rparr>) = memory_recompute_digest q" for q e
    by (simp_all add: memory_validate_shape_def memory_recompute_digest_def synapses_per_family_def)
  have "memory_try_new_v1 MEMORY_DECODER_SYNAPSE_COUNT = Inr (?v\<lparr>mc_canonical_digest := d\<rparr>)"
    unfolding memory_try_new_v1_def Let_def shape digest and_then_simps ..
  moreover have "memory_validate (?v\<lparr>mc_canonical_digest := d\<rparr>) = Inr ()"
    unfolding memory_validate_def ignore shape digest by simp
  ultimately show ?thesis
    by (intro exI [of _ "?v\<lparr>mc_canonical_digest := d\<rparr>"] conjI) (simp_all add: TARGET_LATENT_WIDTH_def FAMILY_VALUE_WIDTH_def feature_lanes MEMORY_DECODER_SYNAPSE_COUNT_def)
qed

lemma write_family_exists:
  assumes "\<not> row_malformed row"
  shows "\<exists>d'. write_family row d = Inr d'"
proof -
  have "f32_is_finite (df_bias row)" "f32_is_finite (df_innate_gain row)"
    using assms zero_gain(2) by (auto simp: row_malformed_def)
  then show ?thesis by (auto simp: write_family_def write_f32_def)
qed

lemma decoder_digest_exists:
  assumes "\<forall>row \<in> set (cd_families p). \<not> row_malformed row"
  shows "\<exists>d. decoder_recompute_digest p = Inr d"
proof -
  have "\<forall>row \<in> set rows. \<not> row_malformed row \<Longrightarrow> \<exists>d'. try_fold write_family rows d = Inr d'" for rows d
  proof (induction rows arbitrary: d)
    case (Cons row rows)
    then obtain d1 where "write_family row d = Inr d1" using write_family_exists by fastforce
    then show ?case using Cons by simp
  qed simp
  from this [OF assms] show ?thesis unfolding decoder_recompute_digest_def Let_def by (metis and_then_simps(2))
qed

lemma frozen_candidate_exists:
  assumes g: "innate_validate (di_innate_priority inputs) = Inr ()"
    and room: "unat start + length (rows_before inputs route motor units 8) < 2 ^ 32"
    and channel: "memory_validate channel = Inr ()" "mc_decoder_input_stride channel = 36" and width: "width \<noteq> 0"
  shows "\<exists>p. decoder_try_new motor_start width (word_of_nat CANDIDATE_FEATURE_COUNT) 36 (Some channel)
    (map (family_row inputs route motor start units) [0..<8]) = Inr p"
proof -
  let ?rows = "map (family_row inputs route motor start units) [0..<8]"
  let ?v = "\<lparr> cd_schema_version = DECODER_SCHEMA_VERSION, cd_motor_start = motor_start, cd_motor_width = width,
    cd_feature_count = word_of_nat CANDIDATE_FEATURE_COUNT, cd_flattened_input_lane_count = 36, cd_memory_channel = Some channel,
    cd_families = ?rows, cd_canonical_digest = (0, 0, 0, 0) \<rparr>"
  have "?rows = family_row inputs route motor start units 0 # map (family_row inputs route motor start units) [1..<8]"
    by (simp add: upt_rec)
  then have first: "(case ?rows of [] \<Rightarrow> 0 | row # _ \<Rightarrow> df_synapse_start row) = start"
    by (simp only: list.case family_row_fields) (simp add: rows_before_def)
  have fold: "\<exists>c. try_fold check_row (enumerate 0 ?rows) start = Inr c" using check_frozen_rows [OF g order_refl room] by blast
  have lane: "try_of_len (unat (36 :: u32)) = Some (36 :: u16)" by (simp add: try_of_len_def)
  have shape: "decoder_validate_shape ?v = Inr ()"
    unfolding decoder_validate_shape_def using fold first lane channel width by (auto simp: FAMILY_COUNT_def simp del: upt_rec_numeral)
  have "\<exists>d. decoder_recompute_digest ?v = Inr d"
  proof (rule decoder_digest_exists)
    show "\<forall>row \<in> set (cd_families ?v). \<not> row_malformed row"
      using priority_row_ok [OF g] by (auto simp: family_row_def split: prod.splits)
  qed
  then obtain d where digest: "decoder_recompute_digest ?v = Inr d" ..
  show ?thesis unfolding decoder_try_new_def Let_def shape digest and_then_simps by blast
qed

section \<open>The frozen memory head\<close>

lemma step_range_iff:
  assumes "r < k"
  shows "i \<in> set (step_range r n k) \<longleftrightarrow> i < n \<and> i mod k = r"
proof (cases "r \<le> i")
  case True
  then have "(i - r) mod k = 0 \<longleftrightarrow> i mod k = r mod k" using mod_eq_dvd_iff_nat [OF True, of k] by (simp add: mod_eq_0_iff_dvd)
  then show ?thesis using True assms by (auto simp: step_range_def)
next
  case False
  moreover have "i mod k \<le> i" by simp
  ultimately show ?thesis by (auto simp: step_range_def)
qed

lemma step_ranges:
  assumes "0 < k"
  shows "mset (concat (map (\<lambda>r. step_range r n k) [0..<k])) = mset [0..<n]"
proof -
  have "distinct (concat (map (\<lambda>r. step_range r n k) [0..<m]))" if "m \<le> k" for m
    using that
  proof (induction m)
    case (Suc m)
    have "distinct (step_range m n k)" by (simp add: step_range_def)
    then show ?case using Suc step_range_iff [of _ k] by (auto simp: disjoint_iff)
  qed simp
  moreover have "set (concat (map (\<lambda>r. step_range r n k) [0..<k])) = set [0..<n]"
    using step_range_iff [of _ k] assms by auto
  ultimately show ?thesis using set_eq_iff_mset_eq_distinct [of "concat (map (\<lambda>r. step_range r n k) [0..<k])" "[0..<n]"] by simp
qed

lemma step_range_lengths:
  "channel < 12 \<Longrightarrow> length (step_range channel 64 12) = (if channel < 4 then 6 else 5)"
  "raw < 8 \<Longrightarrow> length (step_range raw 64 8) = 8"
proof -
  have "list_all (\<lambda>c. length (step_range c 64 12) = (if c < 4 then 6 else 5)) [0..<12]"
    "list_all (\<lambda>r. length (step_range r 64 8) = 8) [0..<8]" by code_simp+
  then show "channel < 12 \<Longrightarrow> length (step_range channel 64 12) = (if channel < 4 then 6 else 5)"
    "raw < 8 \<Longrightarrow> length (step_range raw 64 8) = 8" by (simp_all only: list_all_iff set_upt) auto
qed

lemma product_append: "List.product (xs @ ys) zs = List.product xs zs @ List.product ys zs"
  by (induction xs) simp_all

lemma mset_products_left: "concat (map (\<lambda>k. List.product (f k) ys) ks) = List.product (concat (map f ks)) ys"
  by (induction ks) (simp_all add: product_append)


text \<open>The synapses that share the inherited weight of a family's channel are as many as its divisor says.\<close>

lemma channel_copies:
  assumes "channel < 12" "raw < 8"
  shows "length (n2048_memory_synapses inputs route episodic core lane family raw channel)
    = unat (n2048_memory_channel_synapse_count (word_of_nat channel))"
proof -
  have "(word_of_nat channel :: u16) < 4 \<longleftrightarrow> channel < 4" using assms(1) by (simp add: word_less_nat_alt unat_of_nat)
  then show ?thesis
    using step_range_lengths assms
    by (simp add: n2048_memory_synapses_def length_concat comp_def sum_list_triv MEMORY_DECODER_INPUT_WIDTH_def
        MEMORY_DECODER_OUTPUT_WIDTH_def n2048_memory_channel_synapse_count_def)
qed

definition wire :: "CompiledSynapse \<Rightarrow> u32 \<times> u32" where
  "wire s = (sy_source s, sy_target s)"

abbreviation wire_at :: "LobeRegion \<Rightarrow> LobeRegion \<Rightarrow> nat \<times> nat \<Rightarrow> u32 \<times> u32" where
  "wire_at episodic core \<equiv> \<lambda>(out, inp). (lr_start episodic + word_of_nat inp, lr_start core + word_of_nat out)"

lemma channel_wires:
  "map wire (n2048_memory_synapses inputs route episodic core lane family raw channel)
    = map (wire_at episodic core) (List.product (step_range raw 64 8) (step_range channel 64 12))"
  by (simp add: n2048_memory_synapses_def product_concat_map map_concat comp_def wire_def memory_synapse_def synapse_new_def
      MEMORY_DECODER_INPUT_WIDTH_def MEMORY_DECODER_OUTPUT_WIDTH_def)

lemma mset_concat_cong: "(\<And>x. x \<in> set xs \<Longrightarrow> mset (f x) = mset (g x)) \<Longrightarrow> mset (concat (map f xs)) = mset (concat (map g xs))"
  by (induction xs) simp_all

lemma product_mset_cong: "mset ys = mset zs \<Longrightarrow> mset (List.product xs ys) = mset (List.product xs zs)"
  by (induction xs) simp_all

lemma product_mset_cong_left:
  fixes xs ys :: "'a list"
  assumes "mset xs = mset ys"
  shows "mset (List.product xs zs) = mset (List.product ys zs)"
proof -
  have "mset (List.product xs zs) = sum_mset (image_mset (\<lambda>x. image_mset (Pair x) (mset zs)) (mset xs))" for xs :: "'a list"
    by (induction xs) simp_all
  then show ?thesis using assms by simp
qed

lemma frozen_memory_wires:
  "mset (map wire (concat (map (frozen_memory inputs route episodic core lane) [0..<8])))
    = mset (map (wire_at episodic core) (List.product [0..<64] [0..<64]))"
proof -
  let ?pairs = "\<lambda>raw. concat (map (\<lambda>channel. List.product (step_range raw 64 8) (step_range channel 64 12)) [0..<12])"
  have wires: "map wire (concat (map (frozen_memory inputs route episodic core lane) [0..<8])) = map (wire_at episodic core) (concat (map ?pairs [0..<8]))"
    by (simp add: frozen_memory_def map_concat comp_def channel_wires)
  have "mset (?pairs raw) = mset (List.product (step_range raw 64 8) [0..<64])" for raw
    using mset_products [of "step_range raw 64 8" "\<lambda>channel. step_range channel 64 12" "[0..<12]"]
      product_mset_cong [OF step_ranges [of 12 64], of "step_range raw 64 8"] by simp
  then have "mset (concat (map ?pairs [0..<8])) = mset (List.product (concat (map (\<lambda>raw. step_range raw 64 8) [0..<8])) [0..<64])"
    unfolding mset_products_left [symmetric] by (rule mset_concat_cong)
  also have "\<dots> = mset (List.product [0..<64] [0..<64])"
    by (rule product_mset_cong_left [OF step_ranges]) simp
  finally show ?thesis unfolding wires mset_map by (rule arg_cong)
qed

lemma frozen_memory_length: "length (concat (map (frozen_memory inputs route episodic core lane) [0..<8])) = 4096"
proof -
  have "size (mset (map wire (concat (map (frozen_memory inputs route episodic core lane) [0..<8])))) = 4096"
    unfolding frozen_memory_wires size_mset by (simp only: length_map length_product length_upt) simp
  then show ?thesis by (simp only: size_mset length_map)
qed

section \<open>The frozen decoder set\<close>

lemma n2048_wide_regions:
  "wide_region ActionPlanning (\<lambda>n. n = 224) n2048_lobe_layout = Inr (region_enabled ActionPlanning 1728 224)"
  "wide_region MemoryInterface (\<lambda>n. 64 \<le> n) n2048_lobe_layout = Inr (region_enabled MemoryInterface 1344 256)"
  "wide_region TemporalPredictive (\<lambda>n. 64 \<le> n) n2048_lobe_layout = Inr (region_enabled TemporalPredictive 896 448)"
  by (simp_all add: wide_region_def layout_region_def n2048_lobe_layout_def foundation_lengths_def region_enabled_simps)

lemma auxiliary_exists:
  assumes "head \<noteq> ActionCandidate" "wi \<noteq> 0" "wo \<noteq> 0" "len = ucast wi * ucast wo" "unat start + unat len < 2 ^ 32"
  shows "\<exists>p. auxiliary_try_new head wi wo start len = Inr p"
  using assms by (simp add: auxiliary_try_new_def auxiliary_validate_shape_def checked_add_def)

abbreviation motor_lobe :: LobeRegion where "motor_lobe \<equiv> region_enabled ActionPlanning 1728 224"
abbreviation episodic_lobe :: LobeRegion where "episodic_lobe \<equiv> region_enabled MemoryInterface 1344 256"
abbreviation core_lobe :: LobeRegion where "core_lobe \<equiv> region_enabled TemporalPredictive 896 448"

lemma frozen_decoders:
  assumes g: "innate_validate (di_innate_priority inputs) = Inr ()" and room: "unat start + 8192 < 2 ^ 32" and route: "unat route + 1 < 2 ^ 16"
  shows "\<exists>candidate speech memory. compile_n2048_decoders inputs n2048_lobe_layout route start = Inr \<lparr>
      dec_candidate = candidate, dec_speech = Some speech, dec_memory = Some memory,
      dec_projections = [action_projection route start 4096, memory_projection (route + 1) (start + 4096) 4096],
      dec_synapses = rows_before inputs route motor_lobe family_motor_units 8 @ speech_synapses inputs motor_lobe route
        @ concat (map (frozen_memory inputs (route + 1) episodic_lobe core_lobe 24) [0..<8]),
      dec_receipts = [action_receipt route 4096, memory_receipt (route + 1) 4096] \<rparr>"
proof -
  let ?rows = "rows_before inputs route motor_lobe family_motor_units 8"
  let ?mem = "concat (map (frozen_memory inputs (route + 1) episodic_lobe core_lobe 24) [0..<8])"
  obtain channel where channel: "memory_try_new_v1 MEMORY_DECODER_SYNAPSE_COUNT = Inr channel" "memory_validate channel = Inr ()"
    "mc_decoder_input_stride channel = 36" "mc_target_latent_lane_start channel = 24" "mc_memory_decoder_synapse_count channel = 4096"
    using memory_channel_exists by blast
  have "unat start + length ?rows < 2 ^ 32" using room by (simp add: frozen_rows)
  from frozen_candidate_exists [OF g this channel(2,3), of 224 "lr_start motor_lobe"] obtain candidate where
    candidate: "decoder_try_new (lr_start motor_lobe) 224 (word_of_nat CANDIDATE_FEATURE_COUNT) 36 (Some channel)
      (map (family_row inputs route motor_lobe start family_motor_units) [0..<8]) = Inr candidate" by auto
  have s1: "unat (start + 3072) = unat start + 3072" using room by (subst unat_plus_no_overflow) simp_all
  have s2: "unat (start + 4096) = unat start + 4096" using room by (subst unat_plus_no_overflow) simp_all
  obtain speech where speech: "auxiliary_try_new SpeechPayload SPEECH_INPUT_WIDTH SPEECH_OUTPUT_WIDTH (start + 3072) 1024 = Inr speech"
    using auxiliary_exists [of SpeechPayload SPEECH_INPUT_WIDTH SPEECH_OUTPUT_WIDTH 1024 "start + 3072"] room s1
    by (auto simp: SPEECH_INPUT_WIDTH_def SPEECH_OUTPUT_WIDTH_def)
  obtain memory where memory: "auxiliary_try_new MemoryContext MEMORY_DECODER_INPUT_WIDTH MEMORY_DECODER_OUTPUT_WIDTH (start + 4096) 4096 = Inr memory"
    using auxiliary_exists [of MemoryContext MEMORY_DECODER_INPUT_WIDTH MEMORY_DECODER_OUTPUT_WIDTH 4096 "start + 4096"] room s2
    by (auto simp: MEMORY_DECODER_INPUT_WIDTH_def MEMORY_DECODER_OUTPUT_WIDTH_def)
  have route': "checked_add route 1 = Some (route + 1)" using route by (simp add: checked_add_def)
  have rows: "try_fold (candidate_family inputs route motor_lobe start family_motor_units) [0..<unat CANDIDATE_FAMILY_COUNT] ([], [])
      = Inr (?rows, map (family_row inputs route motor_lobe start family_motor_units) [0..<8])"
    by (simp add: CANDIDATE_FAMILY_COUNT_def candidate_families frozen_rows)
  have len: "try_of_len (length ?rows) = Some (3072 :: u32)" by (simp add: try_of_len_def frozen_rows)
  have lens: "synapse_count_from start (?rows @ speech_synapses inputs motor_lobe route) = Inr (start + 4096)"
    "synapse_count_from start (?rows @ speech_synapses inputs motor_lobe route @ ?mem) = Inr (start + 8192)"
    by (simp_all add: synapse_count_from_Inr_iff frozen_rows speech_length frozen_memory_length del: set_concat)
  have fields: "try_of_len (unat (lr_len motor_lobe)) = Some (224 :: u16)" "try_of_len 36 = Some (36 :: u16)"
    "try_of_len 24 = Some (24 :: u16)"
    by (simp_all add: try_of_len_def region_enabled_simps)
  have mem: "try_fold (n2048_memory_family inputs (route + 1) episodic_lobe core_lobe 24) [0..<8] (?rows @ speech_synapses inputs motor_lobe route)
      = Inr (?rows @ speech_synapses inputs motor_lobe route @ ?mem)"
    using memory_folds(2) [OF order_refl, of inputs "route + 1" episodic_lobe core_lobe 24 "?rows @ speech_synapses inputs motor_lobe route"] by simp
  have "start + 4096 - (start + 3072) = 1024" "start + 8192 - (start + 4096) = 4096" "start + (3072 + 1024) = start + 4096" by simp_all
  then show ?thesis
    unfolding compile_n2048_decoders_def n2048_wide_regions and_then_simps rows prod.case len ok_or_simps Let_def
    by (simp add: CANDIDATE_DECODER_SYNAPSE_COUNT_def SPEECH_DECODER_SYNAPSE_COUNT_def MEMORY_DECODER_SYNAPSE_COUNT_def
        channel(1) [unfolded MEMORY_DECODER_SYNAPSE_COUNT_def] channel(3-5) fields candidate lens speech route' mem memory del: set_concat)
qed

end
