(* ===== verification/Construction_Foundation.thy ===== *)
theory Construction_Foundation
  imports Construction_Proofs Decoder_Foundation Topology_Foundation
begin

text \<open>
  The foundation genome becomes a brain: on the frozen layout of the 2048-neuron class the encoder, the
  fifteen recurrent routes, the two decoder routes and the budgets compile one after the other.
\<close>

section \<open>The receipts of the frozen routes\<close>

lemma try_fold_collects:
  assumes "try_fold f xs c = Inr c'" and "\<And>x c c'. f x c = Inr c' \<Longrightarrow> h c' = h c @ [k x]"
  shows "h c' = h c @ map k xs"
  using assms(1)
proof (induction xs arbitrary: c)
  case (Cons x xs)
  then obtain c1 where "f x c = Inr c1" "try_fold f xs c1 = Inr c'" by (auto simp: try_fold_Cons_Inr)
  then show ?case using Cons.IH assms(2) by simp
qed simp

definition foundation_receipt :: "nat \<times> N2048FoundationRouteSpec \<Rightarrow> RouteBudgetReceipt" where
  "foundation_receipt item = route_receipt (word_of_nat (fst item)) (active_tiles_for (rs_synapse_count (snd item))) (rs_synapse_count (snd item))"

lemma foundation_receipts:
  assumes "compile_recurrent g layout capacity = Inr c" and "bc_id capacity = N2048_ID"
  shows "co_receipts c = map foundation_receipt (enumerate 0 N2048_ROUTES)"
proof -
  obtain masks densities where
    "try_fold (compile_foundation_route g layout capacity masks densities) (enumerate 0 N2048_ROUTES) empty_compilation = Inr c"
    using assms unfolding compile_recurrent_def and_then_Inr_iff compile_n2048_foundation_def by (auto split: if_splits)
  then have "co_receipts c = co_receipts empty_compilation @ map foundation_receipt (enumerate 0 N2048_ROUTES)"
  proof (rule try_fold_collects)
    fix item :: "nat \<times> N2048FoundationRouteSpec" and c c' :: Compilation
    obtain index spec where item: "item = (index, spec)" by (cases item)
    assume "compile_foundation_route g layout capacity masks densities item c = Inr c'"
    from this [unfolded item] show "co_receipts c' = co_receipts c @ [foundation_receipt item]"
      by (rule compile_foundation_route_Inr) (simp add: close_route_def item foundation_receipt_def try_of_len_def split: if_splits)
  qed
  then show ?thesis by (simp add: empty_compilation_def)
qed

definition foundation_receipts_all :: "RouteBudgetReceipt list" where
  "foundation_receipts_all = map foundation_receipt (enumerate 0 N2048_ROUTES) @ [action_receipt 15 4096, memory_receipt 16 4096]"

lemma receipts_listed:
  "list_all (\<lambda>(i, r). route_ok i r) (enumerate 0 foundation_receipts_all)"
  "total_of rbr_active_tiles foundation_receipts_all = 96" "total_of rbr_recurrent_synapses foundation_receipts_all = 24576"
  "total_of rbr_action_decoder_synapses foundation_receipts_all = 4096"
  "total_of rbr_memory_decoder_synapses foundation_receipts_all = 4096" "foundation_receipts_all \<noteq> []"
  by (simp_all add: foundation_receipts_all_def foundation_receipt_def N2048_ROUTES_def route_spec_def route_receipt_def
      active_tiles_for_def div_ceil_def action_receipt_def memory_receipt_def total_of_def route_ok_def within_ceiling_def
      receipt_total_synapses_def populated_categories_def checked_add_def)

lemma foundation_fits:
  assumes "0 < captured" "captured \<le> 64" "lanes \<le> 64"
  shows "receipts_fit capacity_n2048 foundation_receipts_all lanes captured"
proof -
  have "route_ok i (foundation_receipts_all ! i)" if "i < length foundation_receipts_all" for i
    using receipts_listed(1) that by (auto simp: list_all_iff in_set_enumerate_eq)
  then show ?thesis
    using assms by (simp add: receipts_fit_def Let_def receipts_listed supported_classes_def capacity_n2048_def budget_production_def
        MAX_STRUCTURAL_EDGES_def)
qed

section \<open>The brain\<close>

definition no_alpha_overrides :: "BrainGenome \<Rightarrow> bool" where
  "no_alpha_overrides g \<longleftrightarrow>
     (let m = bg_alpha_mask g in am_projection_overrides m = [] \<and> am_lobe_overrides m = [] \<and> am_tile_overrides m = []
        \<and> am_per_synapse_overrides m = [])"

definition foundation_genome :: "BrainGenome \<Rightarrow> bool" where
  "foundation_genome g \<longleftrightarrow>
     bg_macro_connectome_masks g = masks_n2048_foundation_defaults \<and> bg_sparse_density_priors g = densities_n2048_foundation_defaults
     \<and> validate_alpha_keys g = Inr () \<and> no_alpha_overrides g"

lemma no_overrides_match: "no_alpha_overrides g \<Longrightarrow> validate_alpha_matches g projections synapses layout = Inr ()"
  by (simp add: no_alpha_overrides_def validate_alpha_matches_def Let_def)

lemma n2048_room: "24576 \<le> bc_max_recurrent_synapses capacity_n2048" "96 \<le> bc_max_active_tiles capacity_n2048"
  by (simp_all add: capacity_n2048_def Let_def budget_production_def MAX_STRUCTURAL_EDGES_def)

lemma n2048_class: "bc_id capacity_n2048 = N2048_ID"
  by (simp add: capacity_n2048_def Let_def)

lemma foundation_recurrent:
  assumes "foundation_genome g"
  obtains c where "compile_recurrent g n2048_lobe_layout capacity_n2048 = Inr c" "length (co_synapses c) = 24576"
    "length (co_projections c) = 15"
proof -
  note g = assms [unfolded foundation_genome_def]
  obtain c where c: "compile_recurrent g n2048_lobe_layout capacity_n2048 = Inr c" "length (co_synapses c) = 24576"
    "map (\<lambda>p. (cp_source_lobe p, cp_target_lobe p, cp_synapse_len p)) (co_projections c)
        = map (\<lambda>spec. (rs_source_lobe spec, rs_target_lobe spec, rs_synapse_count spec)) N2048_ROUTES"
    using foundation_compiles [OF _ _ _ n2048_class n2048_room, of g] g by blast
  from arg_cong [OF c(3), of length] have "length (co_projections c) = 15" by (simp add: N2048_ROUTES_def)
  then show thesis using that c by blast
qed

lemma foundation_core:
  assumes g: "foundation_genome (di_genome inputs)" and innate: "innate_validate (di_innate_priority inputs) = Inr ()"
    and genes: "\<forall>s \<in> set (si_channels sensors). has_room n2048_lobe_layout s" "lanes_apart (si_channels sensors)"
    and captured: "0 < captured" "captured \<le> 64"
  shows "\<exists>k. compile_core sensors inputs profile False n2048_lobe_layout capacity_n2048 captured = Inr k
    \<and> length (bp_synapses (ck_parts k)) = 32768 \<and> length (bp_projections (ck_parts k)) = 17
    \<and> bp_receipts (ck_parts k) = foundation_receipts_all \<and> unat (cd_motor_width (dec_candidate (ck_decoders k))) = 224"
proof -
  obtain e where e: "compile_encoder sensors n2048_lobe_layout profile = Inr e"
    using encoder_compiles [OF n2048_layout_valid _ genes] by auto
  obtain c where c: "compile_recurrent (di_genome inputs) n2048_lobe_layout capacity_n2048 = Inr c"
    "length (co_synapses c) = 24576" "length (co_projections c) = 15"
    using foundation_recurrent [OF g] .
  obtain d where d: "compile_n2048_decoders inputs n2048_lobe_layout 15 24576 = Inr d" "length (dec_synapses d) = 8192"
    "length (dec_projections d) = 2" "dec_receipts d = [action_receipt 15 4096, memory_receipt 16 4096]"
    using frozen_decoders [OF innate, of 24576 15] by (auto simp: frozen_rows speech_length frozen_memory_length simp del: set_concat)
  have decoders: "compile_decoders inputs n2048_lobe_layout capacity_n2048 15 24576 = Inr d"
    by (simp add: compile_decoders_def n2048_class d(1))
  obtain motor units speech mem where ps: "decoder_parts inputs n2048_lobe_layout 15 24576 d motor units speech mem"
    using compiled_parts [OF decoders] .
  note ps' = ps [unfolded decoder_parts_def Let_def]
  have width: "unat (cd_motor_width (dec_candidate d)) = 224"
    using ps' by (auto simp: wide_region_def layout_region_def n2048_lobe_layout_def foundation_lengths_def region_enabled_simps)
  have "cd_flattened_input_lane_count (dec_candidate d) \<le> 36" using ps' few_lanes by blast
  then have lanes: "cd_flattened_input_lane_count (dec_candidate d) \<le> 64" by (rule order_trans) simp
  obtain b where b: "assemble_budgets capacity_n2048 foundation_receipts_all (cd_flattened_input_lane_count (dec_candidate d)) captured = Inr b"
    using foundation_fits [OF captured lanes] assembly_succeeds_iff by blast
  have r: "co_receipts c @ dec_receipts d = foundation_receipts_all"
    using foundation_receipts [OF c(1) n2048_class] d(4) by (simp add: foundation_receipts_all_def)
  have counts: "try_of_len (15 :: nat) = Some (15 :: u16)" "try_of_len (24576 :: nat) = Some (24576 :: u32)"
    by (simp_all add: try_of_len_def)
  have alpha: "validate_alpha_matches (di_genome inputs) ps ss n2048_lobe_layout = Inr ()" for ps ss
    using g no_overrides_match by (simp add: foundation_genome_def)
  let ?k = "\<lparr> ck_encoder = e, ck_decoders = d, ck_parts = \<lparr> bp_projections = co_projections c @ dec_projections d,
      bp_synapses = co_synapses c @ dec_synapses d, bp_receipts = foundation_receipts_all \<rparr>, ck_budgets = b \<rparr>"
  have "compile_core sensors inputs profile False n2048_lobe_layout capacity_n2048 captured = Inr ?k"
    by (simp add: compile_core_def e c counts decoders may_fail_simps alpha Let_def r b)
  then show ?thesis using c(2,3) d(2,3) width by (intro exI [of _ ?k]) simp
qed

section \<open>The heads of the frozen decoders\<close>

lemma filter_own: "\<forall>s \<in> set xs. is_head head s \<Longrightarrow> filter (is_head head) xs = xs"
  by simp

lemma filter_other: "\<forall>s \<in> set xs. is_head k s \<Longrightarrow> head \<noteq> k \<Longrightarrow> filter (is_head head) xs = []"
  using is_head_unique by (auto simp: filter_empty_conv)

lemma frozen_heads:
  assumes "innate_validate (di_innate_priority inputs) = Inr ()" "unat start + 8192 < 2 ^ 32" "unat route + 1 < 2 ^ 16"
  shows "\<exists>d. compile_n2048_decoders inputs n2048_lobe_layout route start = Inr d
    \<and> length (filter (is_head ActionCandidate) (dec_synapses d)) = 3072
    \<and> length (filter (is_head SpeechPayload) (dec_synapses d)) = 1024
    \<and> mset (map wire (filter (is_head MemoryContext) (dec_synapses d)))
        = mset (map (wire_at episodic_lobe core_lobe) (List.product [0..<64] [0..<64]))
    \<and> dec_receipts d = [action_receipt route 4096, memory_receipt (route + 1) 4096]"
proof -
  let ?rows = "rows_before inputs route motor_lobe family_motor_units 8" and ?speech = "speech_synapses inputs motor_lobe route"
  let ?mem = "concat (map (frozen_memory inputs (route + 1) episodic_lobe core_lobe 24) [0..<8])"
  obtain d where d: "compile_n2048_decoders inputs n2048_lobe_layout route start = Inr d"
    "dec_synapses d = ?rows @ ?speech @ ?mem" "dec_receipts d = [action_receipt route 4096, memory_receipt (route + 1) 4096]"
    using frozen_decoders [OF assms] by fastforce
  have heads: "\<forall>s \<in> set ?rows. is_head ActionCandidate s" "\<forall>s \<in> set ?speech. is_head SpeechPayload s" "\<forall>s \<in> set ?mem. is_head MemoryContext s"
    by (rule ballI, erule head_of_lists(4), rule ballI, erule head_of_lists(3), rule ballI, erule head_of_lists(2))
  have only: "filter (is_head ActionCandidate) (dec_synapses d) = ?rows" "filter (is_head SpeechPayload) (dec_synapses d) = ?speech"
    "filter (is_head MemoryContext) (dec_synapses d) = ?mem"
    unfolding d(2) filter_append filter_own [OF heads(1)] filter_own [OF heads(2)] filter_own [OF heads(3)]
    using filter_other [OF heads(1)] filter_other [OF heads(2)] filter_other [OF heads(3)] by simp_all
  show ?thesis
    by (intro exI [of _ d] conjI d(1,3), unfold only)
      (rule frozen_rows, rule speech_length, rule frozen_memory_wires)
qed

end
