(* ===== verification/Construction_Examples.thy ===== *)
theory Construction_Examples
  imports Construction_Foundation Encoder_Examples Topology_Examples
begin

text \<open>
  The properties of a compiled brain and of its decoders, and a genome that has them: the scaffold genome with
  the minimal grounded sensors and the founder's innate priorities.
\<close>

section \<open>Properties\<close>

text \<open>
  C33. The foundation genome becomes a brain: with any seed, sensor genes that fit their lobes and share no
  lane, valid innate priorities and at most 64 captured synapses, the core of the compiler succeeds on the
  frozen layout. The brain has 32768 synapses on seventeen routes, and every route has its receipt.
\<close>

theorem foundation_brain_compiles:
  assumes "foundation_genome (di_genome inputs)" and "innate_validate (di_innate_priority inputs) = Inr ()"
    and "\<forall>s \<in> set (si_channels sensors). has_room n2048_lobe_layout s" and "lanes_apart (si_channels sensors)"
    and "0 < captured" and "captured \<le> 64"
  shows "\<exists>k. compile_core sensors inputs profile False n2048_lobe_layout capacity_n2048 captured = Inr k
    \<and> length (bp_synapses (ck_parts k)) = 32768 \<and> length (bp_projections (ck_parts k)) = 17
    \<and> bp_receipts (ck_parts k) = foundation_receipts_all"
  using foundation_core [OF assms, of profile] by blast

text \<open>
  C34. A brain that compiles passes the checks its plans are given later: its encoder plan against the layout, both
  auxiliary decoders against the synapses of the whole brain, whatever was placed behind them, and its budgets
  against the capacity class. The one thing the compiler leaves open is the architecture's motor heads: the
  candidate decoder is accepted exactly when there are one to four of them and they fit the motor lobe together,
  and refused with the compile error otherwise.
\<close>

theorem compiled_brain_passes_its_checks:
  assumes "layout_validate n layout = Inr ()" and "unat n < 2 ^ 20"
    and "compile_core sensors inputs profile cognitive layout capacity captured = Inr k"
  shows "let v = core_view layout capacity head_count head_width cognitive k; d = ck_decoders k
    in encoder_validate_against profile layout (ck_encoder k) = Inr ()
      \<and> decoder_validate_against v (dec_candidate d) = (if heads_fit head_count head_width k then Inr () else Inl PhenotypeCompile)
      \<and> (\<forall>q. dec_speech d = Some q \<longrightarrow> auxiliary_validate_against v q = Inr ())
      \<and> (\<exists>q. dec_memory d = Some q \<and> auxiliary_validate_against v q = Inr ())
      \<and> budgets_validate_against capacity (ck_budgets k) = Inr ()"
proof -
  have "compile_encoder sensors layout profile = Inr (ck_encoder k)" using compile_core_Inr [OF assms(3)] by blast
  from encoder_accepts [OF assms(1,2) this] show ?thesis using candidate_accepted [OF assms] by (simp add: Let_def)
qed

text \<open>
  C35. On a validated layout the core of the compiler ends with a brain or with an error, whatever the genome, the
  class and the cognitive head are: neither the encoder nor the topology divides by the length of an empty lobe, and
  their searches for a coprime stride all end.
\<close>

theorem compile_core_never_panics:
  assumes "layout_validate n layout = Inr ()" and "unat n < 2 ^ 20"
  shows "compile_core sensors inputs profile cognitive layout capacity captured \<noteq> Inl Panics"
proof -
  have "panic_free (compile_recurrent (di_genome inputs) layout capacity)"
    using recurrent_panic_free [OF assms(1)] .
  then have "panic_free (compile_core sensors inputs profile cognitive layout capacity captured)"
    unfolding compile_core_def Let_def
    by (auto intro!: panic_free_intros compile_encoder_panic_free [OF assms])
  then show ?thesis by (simp add: panic_free_def)
qed

text \<open>
  C36. A motor unit belongs to one action family: no pair of a feature lane and a motor unit is wired twice in
  the candidate decoder, and every one of its synapses is on a neuron of the motor lobe.
\<close>

theorem motor_units_serve_one_family:
  assumes "compile_decoders inputs layout capacity route start = Inr d"
  shows "distinct (map motor_slot (filter (is_head ActionCandidate) (dec_synapses d)))
    \<and> (\<forall>s \<in> set (filter (is_head ActionCandidate) (dec_synapses d)). sy_source s = sy_target s \<and>
      (\<exists>r. wide_region ActionPlanning (\<lambda>n. True) layout = Inr r \<and> (\<exists>u. u < lr_len r \<and> sy_source s = lr_start r + u)))"
  using candidate_slots_distinct [OF assms] by blast

text \<open>
  C37. The frozen decoders compile to their exact counts: 3072 candidate synapses, 1024 speech synapses, and a
  memory head that joins each of 64 episodic channels to each of 64 core neurons exactly once, although its
  synapses are listed family by family and channel by channel.
\<close>

theorem frozen_decoders_are_complete:
  assumes "innate_validate (di_innate_priority inputs) = Inr ()" and "unat start + 8192 < 2 ^ 32" and "unat route + 1 < 2 ^ 16"
  shows "\<exists>d. compile_n2048_decoders inputs n2048_lobe_layout route start = Inr d
    \<and> length (filter (is_head ActionCandidate) (dec_synapses d)) = 3072
    \<and> length (filter (is_head SpeechPayload) (dec_synapses d)) = 1024
    \<and> mset (map wire (filter (is_head MemoryContext) (dec_synapses d)))
        = mset (map (wire_at episodic_lobe core_lobe) (List.product [0..<64] [0..<64]))
    \<and> dec_receipts d = [action_receipt route 4096, memory_receipt (route + 1) 4096]"
  by (rule frozen_heads [OF assms])

section \<open>Witnesses\<close>

definition scaffold_inputs :: DecoderInputs where
  "scaffold_inputs = \<lparr> di_genome = scaffold_genome, di_innate_priority = innate_default,
     di_motor_affordances = motor_minimal_grounded, di_maturation = f32_one, di_active_motor_affordances = [] \<rparr>"

lemma scaffold_foundation: "foundation_genome (di_genome scaffold_inputs)"
  using scaffold_keys by (simp add: foundation_genome_def scaffold_inputs_def scaffold_genome_def no_alpha_overrides_def)

lemma scaffold_innate: "innate_validate (di_innate_priority scaffold_inputs) = Inr ()"
  by (simp add: scaffold_inputs_def innate_validate_def innate_default_def f32_in_range_def f32_le_def f32_is_finite_def
      f32_exponent_unat f32_fraction_unat f32_sign_unat f32_scaled_def f32_magnitude_def f32_zero_def f32_one_def f32_is_nan_def)

lemma scaffold_brain:
  obtains k where "compile_core grounded_inputs scaffold_inputs GroundedTerrainVisionV1 False n2048_lobe_layout capacity_n2048 8 = Inr k"
    "heads_fit 4 56 k"
proof -
  obtain k where k: "compile_core grounded_inputs scaffold_inputs GroundedTerrainVisionV1 False n2048_lobe_layout capacity_n2048 8 = Inr k"
    "unat (cd_motor_width (dec_candidate (ck_decoders k))) = 224"
    using foundation_core [OF scaffold_foundation scaffold_innate grounded_genes_fit grounded_genes_apart, of 8 GroundedTerrainVisionV1] by auto
  then have "heads_fit 4 56 k" by (simp add: heads_fit_def)
  with k(1) show thesis by (rule that)
qed

theorem foundation_brain_compiles_witness:
  "\<exists>k. compile_core grounded_inputs scaffold_inputs GroundedTerrainVisionV1 False n2048_lobe_layout capacity_n2048 8 = Inr k
    \<and> length (bp_synapses (ck_parts k)) = 32768"
  using foundation_brain_compiles [OF scaffold_foundation scaffold_innate grounded_genes_fit grounded_genes_apart, of 8] by auto

theorem compiled_brain_passes_its_checks_witness:
  "\<exists>k. compile_core grounded_inputs scaffold_inputs GroundedTerrainVisionV1 False n2048_lobe_layout capacity_n2048 8 = Inr k
    \<and> decoder_validate_against (core_view n2048_lobe_layout capacity_n2048 4 56 False k) (dec_candidate (ck_decoders k)) = Inr ()
    \<and> budgets_validate_against capacity_n2048 (ck_budgets k) = Inr ()"
proof -
  obtain k where k: "compile_core grounded_inputs scaffold_inputs GroundedTerrainVisionV1 False n2048_lobe_layout capacity_n2048 8 = Inr k"
    and h: "heads_fit 4 56 k" by (rule scaffold_brain)
  show ?thesis using compiled_brain_passes_its_checks [OF n2048_layout_valid _ k, of 4 56] k h by (auto simp: Let_def)
qed

theorem compile_core_never_panics_witness:
  "compile_core grounded_inputs scaffold_inputs PrivilegedAffordanceV1 True n2048_lobe_layout capacity_n512 8 \<noteq> Inl Panics"
  by (rule compile_core_never_panics [OF n2048_layout_valid]) simp

theorem motor_units_serve_one_family_witness:
  "\<exists>d. compile_decoders scaffold_inputs n2048_lobe_layout capacity_n2048 15 24576 = Inr d
    \<and> length (filter (is_head ActionCandidate) (dec_synapses d)) = 3072
    \<and> distinct (map motor_slot (filter (is_head ActionCandidate) (dec_synapses d)))"
proof -
  obtain d where d: "compile_decoders scaffold_inputs n2048_lobe_layout capacity_n2048 15 24576 = Inr d"
    "length (filter (is_head ActionCandidate) (dec_synapses d)) = 3072"
    using frozen_heads [OF scaffold_innate, of 24576 15] by (auto simp: compile_decoders_def n2048_class)
  then show ?thesis using motor_units_serve_one_family [OF d(1)] by blast
qed

theorem frozen_decoders_are_complete_witness:
  "\<exists>d. compile_n2048_decoders scaffold_inputs n2048_lobe_layout 15 24576 = Inr d
    \<and> dec_receipts d = [action_receipt 15 4096, memory_receipt 16 4096]"
  using frozen_decoders_are_complete [OF scaffold_innate, of 24576 15] by auto

end
