(* ===== verification/Learning_Genes.thy ===== *)
theory Learning_Genes
  imports Decoder_Plans
begin

text \<open>
  The heritable parameters of plasticity: the receptor profile of \<open>crates/alife_core/src/learning.rs\<close>, the
  credit profile, the decoder rates and \<open>PlasticityGenomeParameters\<close> of \<open>genome.rs\<close>, with their validation.
\<close>

section \<open>Receptor profiles (learning.rs)\<close>

record PlasticityReceptorProfile =
  rp_weights :: "f32 list"

definition profile_try_new :: "f32 list \<Rightarrow> PlasticityReceptorProfile contract" where
  "profile_try_new weights =
     (if list_ex (\<lambda>w. \<not> f32_is_finite w) weights then Inl NonFiniteFloat
      else if list_ex (\<lambda>w. \<not> f32_in_range (f32_neg (f32_of_nat 2)) (f32_of_nat 2) w) weights then Inl ScalarOutOfRange
      else Inr \<lparr> rp_weights = weights \<rparr>)"

section \<open>Credit profiles and decoder rates (genome.rs)\<close>

datatype ActionCandidateCreditProfileV1 = SignedConsequences | SignedChoiceReadouts

fun credit_raw :: "ActionCandidateCreditProfileV1 \<Rightarrow> u8" where
  "credit_raw SignedConsequences = 1"
| "credit_raw SignedChoiceReadouts = 2"

definition credit_receptor_profile :: "ActionCandidateCreditProfileV1 \<Rightarrow> PlasticityReceptorProfile" where
  "credit_receptor_profile profile = \<lparr> rp_weights =
     [f32_zero, f32_minus_one, f32_one, f32_neg (f32_lit 5 10), f32_lit 2 10, f32_zero, f32_lit 5 10, f32_neg (f32_lit 5 10)] \<rparr>"

record DecoderLifetimeRatePolicyV1 =
  dl_action_candidate_scale :: f32
  dl_memory_context_scale :: f32
  dl_speech_payload_scale :: f32
  dl_cognitive_context_scale :: f32
  dl_family_scales :: "f32 option list"

definition rates_default :: DecoderLifetimeRatePolicyV1 where
  "rates_default = \<lparr> dl_action_candidate_scale = f32_one, dl_memory_context_scale = f32_one,
     dl_speech_payload_scale = f32_one, dl_cognitive_context_scale = f32_one, dl_family_scales = replicate 8 None \<rparr>"

definition check_scale :: "f32 \<Rightarrow> unit contract" where
  "check_scale scale =
     (if \<not> f32_is_finite scale then Inl NonFiniteFloat
      else if \<not> f32_in_range f32_zero f32_one scale then Inl ScalarOutOfRange else Inr ())"

definition rates_validate :: "DecoderLifetimeRatePolicyV1 \<Rightarrow> unit contract" where
  "rates_validate p = check_all check_scale
     ([dl_action_candidate_scale p, dl_memory_context_scale p, dl_speech_payload_scale p, dl_cognitive_context_scale p]
      @ List.map_filter id (dl_family_scales p))"

definition rates_deserialize :: "DecoderLifetimeRatePolicyV1 \<Rightarrow> DecoderLifetimeRatePolicyV1 contract" where
  "rates_deserialize wire = and_then (rates_validate wire) (\<lambda>_. Inr wire)"

definition with_head_scale :: "DecoderHeadKind \<Rightarrow> f32 \<Rightarrow> DecoderLifetimeRatePolicyV1 \<Rightarrow> DecoderLifetimeRatePolicyV1 contract" where
  "with_head_scale head scale p =
     (let p = (case head of
          ActionCandidate \<Rightarrow> p\<lparr>dl_action_candidate_scale := scale\<rparr>
        | MemoryContext \<Rightarrow> p\<lparr>dl_memory_context_scale := scale\<rparr>
        | SpeechPayload \<Rightarrow> p\<lparr>dl_speech_payload_scale := scale\<rparr>
        | CognitiveContext \<Rightarrow> p\<lparr>dl_cognitive_context_scale := scale\<rparr>)
      in and_then (rates_validate p) (\<lambda>_. Inr p))"

definition with_family_scale ::
  "CandidateActionFamily \<Rightarrow> f32 option \<Rightarrow> DecoderLifetimeRatePolicyV1 \<Rightarrow> DecoderLifetimeRatePolicyV1 contract" where
  "with_family_scale family scale p =
     (let p = p\<lparr>dl_family_scales := (dl_family_scales p)[unat (family_raw family) := scale]\<rparr>
      in and_then (rates_validate p) (\<lambda>_. Inr p))"

definition scale_for :: "DecoderLifetimeRatePolicyV1 \<Rightarrow> DecoderHeadKind \<Rightarrow> CandidateActionFamily \<Rightarrow> f32" where
  "scale_for p head family =
     (case head of
        ActionCandidate \<Rightarrow> (case dl_family_scales p ! unat (family_raw family) of
            None \<Rightarrow> dl_action_candidate_scale p | Some scale \<Rightarrow> scale)
      | MemoryContext \<Rightarrow> dl_memory_context_scale p
      | SpeechPayload \<Rightarrow> dl_speech_payload_scale p
      | CognitiveContext \<Rightarrow> dl_cognitive_context_scale p)"

section \<open>The plasticity parameters of a genome (genome.rs)\<close>

record PlasticityGenomeParameters =
  pg_schema_version :: u16
  pg_eligibility_decay :: f32
  pg_base_learning_rate :: f32
  pg_normalization_rate :: f32
  pg_sleep_replay_rate :: f32
  pg_receptor_profile :: PlasticityReceptorProfile
  pg_credit_profile :: "ActionCandidateCreditProfileV1 option"
  pg_rate_policy :: "DecoderLifetimeRatePolicyV1 option"
  pg_fast_min :: f32
  pg_fast_max :: f32
  pg_sleep_staging_rate :: f32
  pg_sleep_weight_limit :: f32
  pg_sleep_fast_decay_rate :: f32

definition f32_eight :: f32 where "f32_eight = f32_of_nat 8"

definition plasticity_genes_validate :: "PlasticityGenomeParameters \<Rightarrow> unit contract" where
  "plasticity_genes_validate p =
     and_then (require_current_version Learning (pg_schema_version p)) (\<lambda>_.
     and_then (case pg_rate_policy p of None \<Rightarrow> Inr () | Some policy \<Rightarrow> rates_validate policy) (\<lambda>_.
       if list_ex (\<lambda>v. \<not> f32_is_finite v)
            [pg_eligibility_decay p, pg_base_learning_rate p, pg_normalization_rate p, pg_sleep_replay_rate p,
             pg_fast_min p, pg_fast_max p, pg_sleep_staging_rate p, pg_sleep_weight_limit p, pg_sleep_fast_decay_rate p]
       then Inl NonFiniteFloat
       else if \<not> f32_in_range f32_zero f32_one (pg_eligibility_decay p)
         \<or> \<not> f32_in_range f32_zero f32_one (pg_base_learning_rate p)
         \<or> f32_eq (pg_base_learning_rate p) f32_zero
         \<or> \<not> f32_in_range f32_zero f32_one (pg_normalization_rate p)
         \<or> \<not> f32_in_range f32_zero f32_one (pg_sleep_replay_rate p)
         \<or> \<not> f32_in_range (f32_neg f32_eight) f32_eight (pg_fast_min p)
         \<or> \<not> f32_in_range (f32_neg f32_eight) f32_eight (pg_fast_max p)
         \<or> f32_le (pg_fast_max p) (pg_fast_min p)
         \<or> \<not> f32_in_range f32_zero f32_one (pg_sleep_staging_rate p)
         \<or> f32_eq (pg_sleep_staging_rate p) f32_zero
         \<or> \<not> f32_in_range f32_zero f32_eight (pg_sleep_weight_limit p)
         \<or> f32_eq (pg_sleep_weight_limit p) f32_zero
         \<or> \<not> f32_in_range f32_zero f32_one (pg_sleep_fast_decay_rate p)
       then Inl ScalarOutOfRange
       else Inr ()))"

definition plasticity_genes_try_new ::
  "f32 \<Rightarrow> f32 \<Rightarrow> f32 \<Rightarrow> f32 \<Rightarrow> PlasticityReceptorProfile \<Rightarrow> f32 \<Rightarrow> f32 \<Rightarrow> f32 \<Rightarrow> f32 \<Rightarrow> f32 \<Rightarrow> PlasticityGenomeParameters contract" where
  "plasticity_genes_try_new decay rate normalization replay profile fast_min fast_max staging limit fast_decay =
     (let p = \<lparr> pg_schema_version = sv_learning schema_versions_CURRENT, pg_eligibility_decay = decay,
          pg_base_learning_rate = rate, pg_normalization_rate = normalization, pg_sleep_replay_rate = replay,
          pg_receptor_profile = profile, pg_credit_profile = None, pg_rate_policy = None, pg_fast_min = fast_min,
          pg_fast_max = fast_max, pg_sleep_staging_rate = staging, pg_sleep_weight_limit = limit,
          pg_sleep_fast_decay_rate = fast_decay \<rparr>
      in and_then (plasticity_genes_validate p) (\<lambda>_. Inr p))"

definition plasticity_genes_try_new_v1 ::
  "f32 \<Rightarrow> f32 \<Rightarrow> f32 \<Rightarrow> f32 \<Rightarrow> f32 \<Rightarrow> f32 \<Rightarrow> f32 \<Rightarrow> f32 \<Rightarrow> f32 \<Rightarrow> f32 \<Rightarrow> PlasticityGenomeParameters contract" where
  "plasticity_genes_try_new_v1 decay rate normalization replay sign fast_min fast_max staging limit fast_decay =
     and_then (profile_try_new
         [f32_mul (f32_lit 2 10) sign, f32_neg sign, f32_mul f32_one sign, f32_mul (f32_neg (f32_lit 5 10)) sign,
          f32_mul (f32_lit 2 10) sign, f32_zero, f32_mul (f32_lit 5 10) sign, f32_mul (f32_neg (f32_lit 5 10)) sign])
       (\<lambda>profile. plasticity_genes_try_new decay rate normalization replay profile fast_min fast_max staging limit fast_decay)"

definition plasticity_genes_default :: PlasticityGenomeParameters where
  "plasticity_genes_default = \<lparr> pg_schema_version = sv_learning schema_versions_CURRENT,
     pg_eligibility_decay = f32_lit 95 100, pg_base_learning_rate = f32_lit 1 100, pg_normalization_rate = f32_lit 1 1000,
     pg_sleep_replay_rate = f32_lit 25 100,
     pg_receptor_profile = \<lparr> rp_weights =
       [f32_lit 2 10, f32_minus_one, f32_one, f32_neg (f32_lit 5 10), f32_lit 2 10, f32_zero, f32_lit 5 10, f32_neg (f32_lit 5 10)] \<rparr>,
     pg_credit_profile = Some SignedChoiceReadouts, pg_rate_policy = None, pg_fast_min = f32_neg (f32_of_nat 2),
     pg_fast_max = f32_of_nat 2, pg_sleep_staging_rate = f32_lit 5 10, pg_sleep_weight_limit = f32_of_nat 4,
     pg_sleep_fast_decay_rate = f32_lit 5 10 \<rparr>"

definition with_credit_profile ::
  "ActionCandidateCreditProfileV1 \<Rightarrow> PlasticityGenomeParameters \<Rightarrow> PlasticityGenomeParameters contract" where
  "with_credit_profile profile p =
     (let p = p\<lparr>pg_credit_profile := Some profile\<rparr> in and_then (plasticity_genes_validate p) (\<lambda>_. Inr p))"

definition with_rate_policy ::
  "DecoderLifetimeRatePolicyV1 option \<Rightarrow> PlasticityGenomeParameters \<Rightarrow> PlasticityGenomeParameters contract" where
  "with_rate_policy policy p =
     (let p = p\<lparr>pg_rate_policy := policy\<rparr> in and_then (plasticity_genes_validate p) (\<lambda>_. Inr p))"

definition with_inherited_decoder_policies ::
  "PlasticityGenomeParameters \<Rightarrow> PlasticityGenomeParameters \<Rightarrow> PlasticityGenomeParameters" where
  "with_inherited_decoder_policies source p = p\<lparr>pg_credit_profile := pg_credit_profile source, pg_rate_policy := pg_rate_policy source\<rparr>"

text \<open>The wire form has the fields of the record; the profile is validated first, as it is read first.\<close>

definition plasticity_genes_deserialize :: "PlasticityGenomeParameters \<Rightarrow> PlasticityGenomeParameters contract" where
  "plasticity_genes_deserialize wire =
     and_then (profile_try_new (rp_weights (pg_receptor_profile wire))) (\<lambda>_.
     and_then (case pg_rate_policy wire of None \<Rightarrow> Inr () | Some policy \<Rightarrow> and_then (rates_deserialize policy) (\<lambda>_. Inr ())) (\<lambda>_.
     and_then (plasticity_genes_validate wire) (\<lambda>_. Inr wire)))"

text \<open>A critical period raises the plasticity of the routes of a lobe while it is open.\<close>

record CriticalPeriod =
  cr_lobe :: LobeKind
  cr_opens_at :: u64
  cr_closes_at :: u64
  cr_plasticity_bias :: f32

end
