(* ===== verification/Learning_Plans.thy ===== *)
theory Learning_Plans
  imports Learning_Genes Replay
begin

text \<open>
  \<open>crates/alife_core/src/phenotype/learning.rs\<close>: the receptor and sleep plans, and the compiler that gives
  every synapse its receptor and chooses the synapses whose eligibility a replay event captures.
\<close>

section \<open>Receptor plans\<close>

record PlasticityReceptorPlan =
  pr_eligibility_decay :: f32
  pr_learning_rate :: f32
  pr_sleep_replay_rate :: f32
  pr_normalization_rate :: f32
  pr_receptor_profile :: PlasticityReceptorProfile
  pr_fast_weight_min :: f32
  pr_fast_weight_max :: f32

definition receptor_validate :: "PlasticityReceptorPlan \<Rightarrow> unit contract" where
  "receptor_validate r =
     (if list_ex (\<lambda>v. \<not> f32_is_finite v)
          [pr_eligibility_decay r, pr_learning_rate r, pr_sleep_replay_rate r, pr_normalization_rate r,
           pr_fast_weight_min r, pr_fast_weight_max r]
      then Inl NonFiniteFloat
      else if \<not> f32_in_range f32_zero f32_one (pr_eligibility_decay r)
         \<or> \<not> f32_in_range f32_zero f32_one (pr_learning_rate r)
         \<or> \<not> f32_in_range f32_zero f32_one (pr_sleep_replay_rate r)
         \<or> \<not> f32_in_range f32_zero f32_one (pr_normalization_rate r)
         \<or> \<not> f32_in_range (f32_neg f32_eight) f32_eight (pr_fast_weight_min r)
         \<or> \<not> f32_in_range (f32_neg f32_eight) f32_eight (pr_fast_weight_max r)
         \<or> f32_le (pr_fast_weight_max r) (pr_fast_weight_min r)
      then Inl ScalarOutOfRange
      else Inr ())"

definition receptor_try_new ::
  "f32 \<Rightarrow> f32 \<Rightarrow> f32 \<Rightarrow> f32 \<Rightarrow> PlasticityReceptorProfile \<Rightarrow> f32 \<Rightarrow> f32 \<Rightarrow> PlasticityReceptorPlan contract" where
  "receptor_try_new decay rate replay normalization profile fast_min fast_max =
     (let r = \<lparr> pr_eligibility_decay = decay, pr_learning_rate = rate, pr_sleep_replay_rate = replay,
          pr_normalization_rate = normalization, pr_receptor_profile = profile, pr_fast_weight_min = fast_min,
          pr_fast_weight_max = fast_max \<rparr>
      in and_then (receptor_validate r) (\<lambda>_. Inr r))"

definition receptor_deserialize :: "PlasticityReceptorPlan \<Rightarrow> PlasticityReceptorPlan contract" where
  "receptor_deserialize wire =
     and_then (profile_try_new (rp_weights (pr_receptor_profile wire))) (\<lambda>profile.
       receptor_try_new (pr_eligibility_decay wire) (pr_learning_rate wire) (pr_sleep_replay_rate wire)
         (pr_normalization_rate wire) profile (pr_fast_weight_min wire) (pr_fast_weight_max wire))"

definition is_delta_enabled :: "PlasticityReceptorPlan \<Rightarrow> bool" where
  "is_delta_enabled r \<longleftrightarrow>
     \<not> f32_eq (pr_learning_rate r) f32_zero \<or> \<not> f32_eq (pr_normalization_rate r) f32_zero
     \<or> \<not> f32_eq (pr_sleep_replay_rate r) f32_zero"

definition write_receptor :: "PlasticityReceptorPlan \<Rightarrow> bytes \<Rightarrow> bytes contract" where
  "write_receptor r d =
     try_fold write_f32
       ([pr_eligibility_decay r, pr_learning_rate r, pr_sleep_replay_rate r, pr_normalization_rate r]
        @ rp_weights (pr_receptor_profile r) @ [pr_fast_weight_min r, pr_fast_weight_max r]) d"

text \<open>The derived equality of plans compares their floats: zeros of either sign are equal.\<close>

definition receptor_eq :: "PlasticityReceptorPlan \<Rightarrow> PlasticityReceptorPlan \<Rightarrow> bool" where
  "receptor_eq a b \<longleftrightarrow>
     list_all2 f32_eq
       [pr_eligibility_decay a, pr_learning_rate a, pr_sleep_replay_rate a, pr_normalization_rate a,
        pr_fast_weight_min a, pr_fast_weight_max a]
       [pr_eligibility_decay b, pr_learning_rate b, pr_sleep_replay_rate b, pr_normalization_rate b,
        pr_fast_weight_min b, pr_fast_weight_max b]
     \<and> list_all2 f32_eq (rp_weights (pr_receptor_profile a)) (rp_weights (pr_receptor_profile b))"

section \<open>Sleep consolidation plans\<close>

definition SLEEP_PLAN_DOMAIN :: bytes where
  "SLEEP_PLAN_DOMAIN = map (\<lambda>c. word_of_nat (of_char c)) ''alife.sleep-consolidation-plan.v1''"

record SleepConsolidationPlan =
  sp_schema_version :: u16
  sp_staging_rate :: f32
  sp_weight_limit :: f32
  sp_fast_decay_rate :: f32
  sp_eligibility_reset_policy_raw :: u16
  sp_replay_consume_policy_raw :: u16
  sp_canonical_digest :: digest4

definition sleep_plan_validate_fields :: "SleepConsolidationPlan \<Rightarrow> unit contract" where
  "sleep_plan_validate_fields p =
     and_then (require_current_version SleepConsolidation (sp_schema_version p)) (\<lambda>_.
       if \<not> list_all f32_is_finite [sp_staging_rate p, sp_weight_limit p, sp_fast_decay_rate p] then Inl NonFiniteFloat
       else if \<not> f32_in_range f32_zero f32_one (sp_staging_rate p)
         \<or> f32_eq (sp_staging_rate p) f32_zero
         \<or> \<not> f32_in_range f32_zero f32_eight (sp_weight_limit p)
         \<or> f32_eq (sp_weight_limit p) f32_zero
         \<or> \<not> f32_in_range f32_zero f32_one (sp_fast_decay_rate p)
         \<or> sp_eligibility_reset_policy_raw p \<noteq> 1
         \<or> sp_replay_consume_policy_raw p \<noteq> 1
       then Inl ScalarOutOfRange
       else Inr ())"

definition sleep_plan_recompute_digest :: "SleepConsolidationPlan \<Rightarrow> digest4 contract" where
  "sleep_plan_recompute_digest p =
     and_then (try_fold write_f32 [sp_staging_rate p, sp_weight_limit p, sp_fast_decay_rate p]
         (write_u16 (sp_schema_version p) (digest_new SLEEP_PLAN_DOMAIN))) (\<lambda>d.
       Inr (finish256 (write_u16 (sp_replay_consume_policy_raw p) (write_u16 (sp_eligibility_reset_policy_raw p) d))))"

definition sleep_plan_try_new_v1 :: "f32 \<Rightarrow> f32 \<Rightarrow> f32 \<Rightarrow> SleepConsolidationPlan contract" where
  "sleep_plan_try_new_v1 staging_rate weight_limit fast_decay_rate =
     (let p = \<lparr> sp_schema_version = sv_sleep_consolidation schema_versions_CURRENT, sp_staging_rate = staging_rate,
          sp_weight_limit = weight_limit, sp_fast_decay_rate = fast_decay_rate, sp_eligibility_reset_policy_raw = 1,
          sp_replay_consume_policy_raw = 1, sp_canonical_digest = (0, 0, 0, 0) \<rparr>
      in and_then (sleep_plan_validate_fields p) (\<lambda>_.
         and_then (sleep_plan_recompute_digest p) (\<lambda>d. Inr (p\<lparr>sp_canonical_digest := d\<rparr>))))"

definition sleep_plan_validate :: "SleepConsolidationPlan \<Rightarrow> unit contract" where
  "sleep_plan_validate p =
     and_then (sleep_plan_validate_fields p) (\<lambda>_.
     and_then (sleep_plan_recompute_digest p) (\<lambda>d.
       if sp_canonical_digest p \<noteq> d then Inl PhenotypeCompile else Inr ()))"

definition sleep_plan_deserialize :: "SleepConsolidationPlan \<Rightarrow> SleepConsolidationPlan contract" where
  "sleep_plan_deserialize wire = and_then (sleep_plan_validate wire) (\<lambda>_. Inr wire)"

section \<open>Candidates for capture\<close>

datatype ReplayCaptureGroup = ReplayCaptureGroup (class_priority: u8) (logical_group: u16)

instantiation ReplayCaptureGroup :: linorder
begin

definition less_ReplayCaptureGroup :: "ReplayCaptureGroup \<Rightarrow> ReplayCaptureGroup \<Rightarrow> bool" where
  "less_ReplayCaptureGroup a b \<longleftrightarrow> (class_priority a, logical_group a) < (class_priority b, logical_group b)"

definition less_eq_ReplayCaptureGroup :: "ReplayCaptureGroup \<Rightarrow> ReplayCaptureGroup \<Rightarrow> bool" where
  "less_eq_ReplayCaptureGroup a b \<longleftrightarrow> (class_priority a, logical_group a) \<le> (class_priority b, logical_group b)"

instance
  by standard (auto simp: less_ReplayCaptureGroup_def less_eq_ReplayCaptureGroup_def ReplayCaptureGroup.expand)

end

record ReplayCaptureCandidate =
  rc_group :: ReplayCaptureGroup
  rc_band_priority :: u8
  rc_biological_priority :: u8
  rc_global_synapse_id :: u32

definition replay_capture_group :: "CompiledSynapseKind \<Rightarrow> u16 \<Rightarrow> ReplayCaptureGroup" where
  "replay_capture_group kind route_index =
     (case kind of
        DecoderSynapse c \<Rightarrow>
          (let family = ucast (family_raw (dsc_family c))
           in if dsc_head c = ActionCandidate then ReplayCaptureGroup 0 family
              else if dsc_head c = CognitiveContext then ReplayCaptureGroup 0 (saturating_add 8 family)
              else ReplayCaptureGroup 1 (saturating_add (saturating_mul (ucast (head_raw (dsc_head c))) 8) family))
      | RecurrentSynapse \<Rightarrow> ReplayCaptureGroup 2 route_index)"

section \<open>The rate of a synapse\<close>

definition PROCEDURAL_RECURRENT_LIFETIME_SCALE :: f32 where "PROCEDURAL_RECURRENT_LIFETIME_SCALE = f32_lit 1 10"

text \<open>What the compiler reads of a genome and of the development state.\<close>

record LearningInputs =
  li_genome :: BrainGenome
  li_parameters :: PlasticityGenomeParameters
  li_open_critical_periods :: "CriticalPeriod list"

definition n2048_section_policy :: "BrainCapacityClass \<Rightarrow> PlacedProjection \<Rightarrow> FoundationSectionPolicy option" where
  "n2048_section_policy capacity projection =
     (if bc_id capacity = N2048_ID then
        map_option rs_section_policy
          (find (\<lambda>spec. rs_source_lobe spec = cp_source_lobe projection \<and> rs_target_lobe spec = cp_target_lobe projection) N2048_ROUTES)
      else None)"

definition projection_mask_scale :: "BrainGenome \<Rightarrow> PlacedProjection \<Rightarrow> f32 option" where
  "projection_mask_scale g projection =
     (case find (\<lambda>row. pp_projection row = (cp_source_lobe projection, cp_target_lobe projection))
         (pm_projection_masks (bg_plasticity_mask g)) of
        None \<Rightarrow> None
      | Some row \<Rightarrow> if pp_plasticity_enabled row then Some (pp_learning_rate_scale row) else None)"

definition receptor_scale ::
  "LearningInputs \<Rightarrow> PlacedProjection \<Rightarrow> CompiledSynapseKind \<Rightarrow> FoundationSectionPolicy option \<Rightarrow> u32 \<Rightarrow> f32 \<times> u8" where
  "receptor_scale inputs projection kind section_policy local_index =
     (let mask_scale = projection_mask_scale (li_genome inputs) projection
      in case kind of
           DecoderSynapse c \<Rightarrow>
             (case pg_rate_policy (li_parameters inputs) of
                None \<Rightarrow> (f32_one, 0)
              | Some policy \<Rightarrow> (scale_for policy (dsc_head c) (dsc_family c), 0))
         | RecurrentSynapse \<Rightarrow>
             (case section_policy of
                Some policy \<Rightarrow>
                  (let fixed_end = section_count policy FixedBand; slow_end = fixed_end + section_count policy SlowBand;
                       scale = (case mask_scale of None \<Rightarrow> f32_one | Some scale \<Rightarrow> scale)
                   in if local_index < fixed_end then (f32_zero, 2)
                      else if local_index < slow_end then (f32_mul (f32_lit 25 100) scale, 1)
                      else (scale, 0))
              | None \<Rightarrow>
                  (case mask_scale of
                     None \<Rightarrow> (f32_zero, 2)
                   | Some scale \<Rightarrow> (f32_mul scale PROCEDURAL_RECURRENT_LIFETIME_SCALE, 1))))"

definition critical_period_multiplier :: "CriticalPeriod list \<Rightarrow> PlacedProjection \<Rightarrow> f32" where
  "critical_period_multiplier periods projection =
     f32_add f32_one (foldl f32_max f32_zero
       (map cr_plasticity_bias
         (filter (\<lambda>p. cr_lobe p = cp_source_lobe projection \<or> cr_lobe p = cp_target_lobe projection) periods)))"

definition profile_for :: "PlasticityGenomeParameters \<Rightarrow> CompiledSynapseKind \<Rightarrow> PlasticityReceptorProfile" where
  "profile_for p kind =
     (case (kind, pg_credit_profile p) of
        (DecoderSynapse c, Some profile) \<Rightarrow>
          (if dsc_head c = ActionCandidate
              \<or> profile = SignedChoiceReadouts \<and> dsc_head c \<in> {MemoryContext, CognitiveContext}
           then credit_receptor_profile profile else pg_receptor_profile p)
      | _ \<Rightarrow> pg_receptor_profile p)"

section \<open>Receptors for every synapse\<close>

record LearningPass =
  lp_synapses :: "CompiledSynapse list"
  lp_receptors :: "PlasticityReceptorPlan list"
  lp_candidates :: "ReplayCaptureCandidate list"

definition disabled_receptor :: "PlasticityGenomeParameters \<Rightarrow> PlasticityReceptorPlan contract" where
  "disabled_receptor p =
     receptor_try_new (pg_eligibility_decay p) f32_zero f32_zero f32_zero (pg_receptor_profile p) (pg_fast_min p) (pg_fast_max p)"

definition receptor_for ::
  "PlasticityGenomeParameters \<Rightarrow> PlasticityReceptorPlan \<Rightarrow> CompiledSynapseKind \<Rightarrow> f32 \<Rightarrow> PlasticityReceptorPlan contract" where
  "receptor_for p disabled kind effective_scale =
     (if f32_eq effective_scale f32_zero then Inr disabled
      else receptor_try_new (pg_eligibility_decay p)
        (f32_clamp f32_zero f32_one (f32_mul (pg_base_learning_rate p) effective_scale))
        (f32_clamp f32_zero f32_one (f32_mul (pg_sleep_replay_rate p) effective_scale))
        (f32_clamp f32_zero f32_one (f32_mul (pg_normalization_rate p) effective_scale))
        (profile_for p kind) (pg_fast_min p) (pg_fast_max p))"

text \<open>The index of an equal receptor, or that of a new row at the end of the table.\<close>

definition intern_receptor ::
  "PlasticityReceptorPlan \<Rightarrow> PlasticityReceptorPlan list \<Rightarrow> (u16 \<times> PlasticityReceptorPlan list) contract" where
  "intern_receptor receptor receptors =
     (case find (\<lambda>i. receptor_eq (receptors ! i) receptor) [0..<length receptors] of
        Some i \<Rightarrow> and_then (ok_or PhenotypeCompile (try_of_len i)) (\<lambda>index. Inr (index, receptors))
      | None \<Rightarrow> and_then (ok_or PhenotypeCompile (try_of_len (length receptors))) (\<lambda>index.
          Inr (index, receptors @ [receptor])))"

definition learn_synapse ::
  "LearningInputs \<Rightarrow> PlasticityReceptorPlan \<Rightarrow> PlacedProjection \<Rightarrow> FoundationSectionPolicy option \<Rightarrow> f32 \<Rightarrow> nat
   \<Rightarrow> LearningPass \<Rightarrow> LearningPass contract" where
  "learn_synapse inputs disabled projection section_policy multiplier slot st =
     (let i = unat (cp_synapse_start projection) + slot;
          synapse = lp_synapses st ! i;
          (scale, band_priority) = receptor_scale inputs projection (sy_kind synapse) section_policy (word_of_nat slot);
          effective_scale = f32_clamp f32_zero f32_one (f32_mul scale multiplier)
      in and_then (receptor_for (li_parameters inputs) disabled (sy_kind synapse) effective_scale) (\<lambda>receptor.
         and_then (intern_receptor receptor (lp_receptors st)) (\<lambda>(index, receptors).
           let candidate = \<lparr> rc_group = replay_capture_group (sy_kind synapse) (cp_route_index projection),
                 rc_band_priority = band_priority, rc_biological_priority = priority_raw (cp_priority projection),
                 rc_global_synapse_id = cp_synapse_start projection + word_of_nat slot \<rparr>
           in Inr (st\<lparr>lp_synapses := (lp_synapses st)[i := synapse\<lparr>sy_receptor_index := index\<rparr>],
                lp_receptors := receptors,
                lp_candidates := lp_candidates st @ (if is_delta_enabled receptor then [candidate] else [])\<rparr>))))"

definition learn_projection ::
  "LearningInputs \<Rightarrow> BrainCapacityClass \<Rightarrow> PlasticityReceptorPlan \<Rightarrow> PlacedProjection \<Rightarrow> LearningPass
   \<Rightarrow> ScaffoldContractError fault + LearningPass" where
  "learn_projection inputs capacity disabled projection st =
     and_then (ok_or (Fails PhenotypeCompile) (checked_add (cp_synapse_start projection) (cp_synapse_len projection))) (\<lambda>end'.
       if length (lp_synapses st) < unat end' then Inl Panics
       else may_fail (try_fold
         (learn_synapse inputs disabled projection (n2048_section_policy capacity projection)
           (critical_period_multiplier (li_open_critical_periods inputs) projection))
         [0..<unat (cp_synapse_len projection)] st))"

section \<open>Dealing out the capture slots\<close>

text \<open>
  The candidates of each group in order of preference, the groups in theirs. Every round takes the next
  candidate of each group, until the slots are full.
\<close>

definition bucket_candidate ::
  "ReplayCaptureCandidate \<Rightarrow> (ReplayCaptureGroup, ReplayCaptureCandidate list) btree_map
   \<Rightarrow> (ReplayCaptureGroup, ReplayCaptureCandidate list) btree_map" where
  "bucket_candidate c m =
     bt_insert (rc_group c) ((case bt_get m (rc_group c) of None \<Rightarrow> [] | Some bucket \<Rightarrow> bucket) @ [c]) m"

definition capture_key :: "ReplayCaptureCandidate \<Rightarrow> u8 \<times> u8 \<times> u32" where
  "capture_key c = (rc_band_priority c, rc_biological_priority c, rc_global_synapse_id c)"

definition capture_buckets :: "ReplayCaptureCandidate list \<Rightarrow> ReplayCaptureCandidate list list" where
  "capture_buckets candidates = map (sort_key capture_key \<circ> snd) (fold bucket_candidate candidates [])"

fun capture_round ::
  "nat \<Rightarrow> nat \<Rightarrow> ReplayCaptureCandidate list list \<Rightarrow> u32 list \<Rightarrow> bool \<Rightarrow> u32 list \<times> bool" where
  "capture_round slots depth [] ids added = (ids, added)"
| "capture_round slots depth (bucket # buckets) ids added =
     (if depth < length bucket then
        let ids = ids @ [rc_global_synapse_id (bucket ! depth)]
        in if length ids = slots then (ids, True) else capture_round slots depth buckets ids True
      else capture_round slots depth buckets ids added)"

lemma capture_round_keeps: "length ids \<le> length (fst (capture_round slots depth buckets ids added))"
  by (induction slots depth buckets ids added rule: capture_round.induct) (auto simp: Let_def)

lemma capture_round_grows:
  "snd (capture_round slots depth buckets ids added) \<Longrightarrow> \<not> added
   \<Longrightarrow> length ids < length (fst (capture_round slots depth buckets ids added))"
proof (induction buckets arbitrary: ids added)
  case (Cons bucket buckets)
  then show ?case
    using capture_round_keeps [of "ids @ [rc_global_synapse_id (bucket ! depth)]" slots depth buckets True]
    by (auto simp: Let_def)
qed simp

function capture_rounds ::
  "nat \<Rightarrow> ReplayCaptureCandidate list list \<Rightarrow> nat \<Rightarrow> u32 list \<Rightarrow> u32 list contract" where
  "capture_rounds slots buckets depth ids =
     (if length ids < slots then
        (case capture_round slots depth buckets ids False of (ids', added) \<Rightarrow>
           if added then capture_rounds slots buckets (Suc depth) ids' else Inl PhenotypeCompile)
      else Inr ids)"
  by pat_completeness auto
termination
proof (relation "measure (\<lambda>(slots, buckets, depth, ids). slots - length ids)")
  fix slots buckets depth ids ids' added
  assume less: "length ids < slots" and round: "(ids', added) = capture_round slots depth buckets ids False" and added
  from round \<open>added\<close> have "length ids < length ids'"
    using capture_round_grows [of slots depth buckets ids False] by (metis fst_conv snd_conv)
  with less show "((slots, buckets, Suc depth, ids'), slots, buckets, depth, ids)
      \<in> measure (\<lambda>(slots, buckets, depth, ids). slots - length ids)" by simp
qed simp

declare capture_rounds.simps [simp del]

definition PLASTICITY_PLAN_DOMAIN :: bytes where
  "PLASTICITY_PLAN_DOMAIN = map (\<lambda>c. word_of_nat (of_char c)) ''alife.plasticity-plan.v1''"

definition write_plan_receptor :: "PlasticityReceptorPlan \<Rightarrow> bytes \<Rightarrow> bytes contract" where
  "write_plan_receptor r d = and_then (receptor_validate r) (\<lambda>_. write_receptor r d)"

definition compute_plasticity_plan_digest ::
  "PlasticityReceptorPlan list \<Rightarrow> ReplayCapturePlan \<Rightarrow> SleepConsolidationPlan \<Rightarrow> digest4 contract" where
  "compute_plasticity_plan_digest receptors replay sleep =
     and_then (try_fold write_plan_receptor receptors
         (write_sequence_len (length receptors) (digest_new PLASTICITY_PLAN_DOMAIN))) (\<lambda>d.
       Inr (finish256 (write_digest4 (sp_canonical_digest sleep) (write_digest4 (cp_canonical_digest replay) d))))"

record CompiledLearningPlans =
  cl_receptors :: "PlasticityReceptorPlan list"
  cl_replay :: ReplayCapturePlan
  cl_sleep :: SleepConsolidationPlan
  cl_digest :: digest4

definition learning_pass ::
  "LearningInputs \<Rightarrow> BrainCapacityClass \<Rightarrow> PlacedProjection list \<Rightarrow> CompiledSynapse list
   \<Rightarrow> ScaffoldContractError fault + LearningPass" where
  "learning_pass inputs capacity projections synapses =
     and_then (may_fail (plasticity_genes_validate (li_parameters inputs))) (\<lambda>_.
     and_then (may_fail (disabled_receptor (li_parameters inputs))) (\<lambda>disabled.
       try_fold (learn_projection inputs capacity disabled) projections
         \<lparr> lp_synapses = synapses, lp_receptors = [disabled], lp_candidates = [] \<rparr>))"

definition capture_limit :: "BrainCapacityClass \<Rightarrow> ReplayCaptureCandidate list \<Rightarrow> nat contract" where
  "capture_limit capacity candidates =
     (let events = xb_max_replay_events (bc_execution capacity)
      in if events = 0 then Inl PhenotypeCompile
         else Inr (min (min (length candidates) (unat MAX_REPLAY_CAPTURE_SYNAPSES))
           (unat (xb_max_replay_eligibility_samples (bc_execution capacity) div events))))"

definition capture_plan :: "BrainCapacityClass \<Rightarrow> ReplayCaptureCandidate list \<Rightarrow> ReplayCapturePlan contract" where
  "capture_plan capacity candidates =
     (let events = xb_max_replay_events (bc_execution capacity)
      in and_then (capture_limit capacity candidates) (\<lambda>slots.
           if slots = 0 then Inl PhenotypeCompile
           else
             and_then (capture_rounds slots (capture_buckets candidates) 0 []) (\<lambda>ids.
             and_then (ok_or PhenotypeCompile (try_of_len (length (sort ids)))) (\<lambda>samples_per_event.
             and_then (ok_or PhenotypeCompile (checked_mul events (ucast samples_per_event))) (\<lambda>sample_capacity.
               plan_try_new (sort ids) samples_per_event events sample_capacity)))))"

definition compile_learning_plans ::
  "LearningInputs \<Rightarrow> BrainCapacityClass \<Rightarrow> PlacedProjection list \<Rightarrow> CompiledSynapse list
   \<Rightarrow> ScaffoldContractError fault + CompiledLearningPlans \<times> CompiledSynapse list" where
  "compile_learning_plans inputs capacity projections synapses =
     and_then (learning_pass inputs capacity projections synapses) (\<lambda>st.
     and_then (may_fail (capture_plan capacity (lp_candidates st))) (\<lambda>replay.
     and_then (may_fail (sleep_plan_try_new_v1 (pg_sleep_staging_rate (li_parameters inputs))
         (pg_sleep_weight_limit (li_parameters inputs)) (pg_sleep_fast_decay_rate (li_parameters inputs)))) (\<lambda>sleep.
     and_then (may_fail (compute_plasticity_plan_digest (lp_receptors st) replay sleep)) (\<lambda>digest.
       Inr (\<lparr> cl_receptors = lp_receptors st, cl_replay = replay, cl_sleep = sleep, cl_digest = digest \<rparr>, lp_synapses st)))))"

text \<open>The check of a capture plan against the phenotype that carries it.\<close>

definition plan_validate_against ::
  "u16 \<Rightarrow> CompiledBudgets \<Rightarrow> CompiledSynapse list \<Rightarrow> PlasticityReceptorPlan list \<Rightarrow> BrainCapacityClass \<Rightarrow> ReplayCapturePlan
   \<Rightarrow> unit contract" where
  "plan_validate_against class_id budgets synapses receptors capacity p =
     and_then (plan_validate p) (\<lambda>_.
     and_then (capacity_validate capacity) (\<lambda>_.
       if class_id \<noteq> bc_id capacity
         \<or> xb_max_replay_events (bc_execution capacity) < cp_event_capacity p
         \<or> xb_max_replay_eligibility_samples (bc_execution capacity) < cp_sample_capacity p
         \<or> word_of_nat (length (cp_global_synapse_ids p)) \<noteq> gb_replay_capture_synapse_count (cb_global budgets)
         \<or> list_ex (\<lambda>id. \<not> (unat id < length synapses
               \<and> unat (sy_receptor_index (synapses ! unat id)) < length receptors
               \<and> is_delta_enabled (receptors ! unat (sy_receptor_index (synapses ! unat id)))))
             (cp_global_synapse_ids p)
       then Inl PhenotypeCompile else Inr ()))"

end
