(* ===== verification/Learning_Capture.thy ===== *)
theory Learning_Capture
  imports Learning_Plans
begin

text \<open>
  Dealing out the capture slots is fair and prefers the best: the loop ends, and up to one round every group
  of candidates gets the same number of slots, for the candidates at the front of its order.
\<close>

section \<open>Buckets\<close>

definition ranked :: "ReplayCaptureGroup \<Rightarrow> ReplayCaptureCandidate list \<Rightarrow> ReplayCaptureCandidate list" where
  "ranked g cs = sort_key capture_key (filter (\<lambda>c. rc_group c = g) cs)"

lemma ranked_set [simp]: "set (ranked g cs) = {c \<in> set cs. rc_group c = g}"
  by (simp add: ranked_def)

lemma bucket_map:
  "bt_ordered (fold bucket_candidate cs []) \<and>
   bt_get (fold bucket_candidate cs []) = (\<lambda>g. let xs = filter (\<lambda>c. rc_group c = g) cs in if xs = [] then None else Some xs)"
proof (induction cs rule: rev_induct)
  case Nil
  show ?case by (simp add: bt_ordered_def fun_eq_iff)
next
  case (snoc c cs)
  let ?m = "fold bucket_candidate cs []"
  have o: "bt_ordered ?m" using snoc by blast
  have get: "bt_get ?m g = (let xs = filter (\<lambda>c. rc_group c = g) cs in if xs = [] then None else Some xs)" for g
    using snoc by simp
  have "bt_get (bucket_candidate c ?m) g = (let xs = filter (\<lambda>c. rc_group c = g) (cs @ [c]) in if xs = [] then None else Some xs)" for g
  proof -
    have "bt_get (bucket_candidate c m) = (bt_get m)(rc_group c \<mapsto> (case bt_get m (rc_group c) of None \<Rightarrow> [] | Some b \<Rightarrow> b) @ [c])"
      if "bt_ordered m" for m
      unfolding bucket_candidate_def by (rule bt.lookup_update [OF that])
    from this [OF o] show ?thesis by (simp add: get Let_def)
  qed
  moreover have "bt_ordered (bucket_candidate c ?m)"
    using bt_insert_ordered [OF o] by (subst bucket_candidate_def)
  ultimately show ?case by (simp add: fun_eq_iff)
qed

lemma buckets_are_ranked:
  "set (capture_buckets cs) = {b. b \<noteq> [] \<and> (\<exists>g. b = ranked g cs)}"
  "mset (concat (capture_buckets cs)) = mset cs"
proof -
  let ?m = "fold bucket_candidate cs []"
  have o: "bt_ordered ?m" and get: "bt_get ?m = (\<lambda>g. let xs = filter (\<lambda>c. rc_group c = g) cs in if xs = [] then None else Some xs)"
    using bucket_map by blast+
  have "(g, xs) \<in> set ?m \<longleftrightarrow> xs \<noteq> [] \<and> xs = filter (\<lambda>c. rc_group c = g) cs" for g xs
    unfolding bt.in_entries_iff [OF o] get by (auto simp: Let_def)
  then have entries: "set ?m = {(g, xs). xs \<noteq> [] \<and> xs = filter (\<lambda>c. rc_group c = g) cs}" by auto
  have nonempty: "sort_key capture_key xs = [] \<longleftrightarrow> xs = []" for xs by (metis length_0_conv length_sort)
  show "set (capture_buckets cs) = {b. b \<noteq> [] \<and> (\<exists>g. b = ranked g cs)}"
    unfolding capture_buckets_def set_map entries by (auto simp: ranked_def nonempty image_iff)
  have part: "mset (concat (map snd m)) = mset (filter (\<lambda>c. rc_group c \<in> set (map fst m)) cs)"
    if "\<forall>(g, xs) \<in> set m. xs = filter (\<lambda>c. rc_group c = g) cs" "distinct (map fst m)" for m
    using that
  proof (induction m)
    case (Cons e m)
    obtain g xs where e: "e = (g, xs)" by (cases e)
    have g: "g \<notin> set (map fst m)" using Cons.prems e by simp
    have "filter (\<lambda>c. rc_group c \<in> set (map fst (e # m))) cs = filter (\<lambda>c. rc_group c = g \<or> rc_group c \<in> set (map fst m)) cs"
      by (simp add: e)
    moreover have "mset (filter (\<lambda>c. rc_group c = g \<or> rc_group c \<in> set (map fst m)) cs)
        = mset (filter (\<lambda>c. rc_group c = g) cs) + mset (filter (\<lambda>c. rc_group c \<in> set (map fst m)) cs)"
      using g by (induction cs) auto
    ultimately show ?case using Cons e by auto
  qed simp
  have all: "rc_group c \<in> set (map fst ?m)" if "c \<in> set cs" for c
  proof -
    have "(rc_group c, filter (\<lambda>d. rc_group d = rc_group c) cs) \<in> set ?m"
      using that unfolding entries by (auto simp: filter_empty_conv)
    then show ?thesis by force
  qed
  have "mset (concat (map (sort_key capture_key \<circ> snd) m)) = mset (concat (map snd m))" for m
    by (induction m) simp_all
  then have "mset (concat (capture_buckets cs)) = mset (concat (map snd ?m))" by (simp add: capture_buckets_def)
  also have "\<dots> = mset (filter (\<lambda>c. rc_group c \<in> set (map fst ?m)) cs)"
    using entries bt.distinct_keys [OF o] by (intro part) auto
  also have "filter (\<lambda>c. rc_group c \<in> set (map fst ?m)) cs = cs" using all by (simp add: filter_id_conv)
  finally show "mset (concat (capture_buckets cs)) = mset cs" .
qed

section \<open>Rounds\<close>

definition deal_row :: "'a list list \<Rightarrow> nat \<Rightarrow> 'a list" where
  "deal_row bs d = map (\<lambda>b. b ! d) (filter (\<lambda>b. d < length b) bs)"

definition dealt :: "'a list list \<Rightarrow> nat \<Rightarrow> 'a list" where
  "dealt bs n = concat (map (deal_row bs) [0..<n])"

lemma dealt_Suc: "dealt bs (Suc n) = dealt bs n @ deal_row bs n"
  by (simp add: dealt_def)

lemma deal_row_Cons: "deal_row (b # bs) d = (if d < length b then [b ! d] else []) @ deal_row bs d"
  by (simp add: deal_row_def)

lemma mset_dealt: "mset (dealt bs n) = mset (concat (map (take n) bs))"
proof (induction n)
  case 0
  show ?case by (simp add: dealt_def)
next
  case (Suc n)
  have "mset (concat (map (take n) bs)) + mset (deal_row bs n) = mset (concat (map (take (Suc n)) bs))"
    by (induction bs) (auto simp: deal_row_Cons deal_row_def take_Suc_conv_app_nth)
  then show ?case using Suc by (simp add: dealt_Suc)
qed

lemma dealt_all:
  assumes "\<forall>b \<in> set bs. length b \<le> n"
  shows "mset (dealt bs n) = mset (concat bs)" "length (dealt bs n) = length (concat bs)"
proof -
  have "map (take n) bs = bs" using assms by (simp add: map_idI)
  then show "mset (dealt bs n) = mset (concat bs)" by (simp add: mset_dealt)
  then show "length (dealt bs n) = length (concat bs)" by (rule mset_eq_length)
qed

lemma capture_round_deals:
  assumes "length ids < slots"
  shows "capture_round slots depth bs ids added
    = (take slots (ids @ map rc_global_synapse_id (deal_row bs depth)), added \<or> deal_row bs depth \<noteq> [])"
  using assms
proof (induction bs arbitrary: ids added)
  case Nil
  then show ?case by (simp add: deal_row_def)
next
  case (Cons b bs)
  show ?case
  proof (cases "depth < length b \<and> Suc (length ids) = slots")
    case True
    then have "take slots (ids @ x # xs) = ids @ [x]" for x :: u32 and xs by (auto simp: take_Cons')
    then show ?thesis using True by (simp add: deal_row_Cons)
  next
    case False
    then show ?thesis using Cons by (auto simp: deal_row_Cons Let_def)
  qed
qed

lemma capture_rounds_deal:
  assumes "slots \<le> length (concat bs)" and "\<forall>b \<in> set bs. length b \<le> n"
    and "ids = map rc_global_synapse_id (take slots (dealt bs depth))" and "depth \<le> n"
  shows "capture_rounds slots bs depth ids = Inr (map rc_global_synapse_id (take slots (dealt bs n)))"
  using assms(3,4)
proof (induction "n - depth" arbitrary: depth ids)
  case 0
  then have "depth = n" by simp
  then have "length ids = slots" using 0 assms(1) dealt_all(2) [OF assms(2)] by simp
  then show ?case using 0 \<open>depth = n\<close> by (simp add: capture_rounds.simps)
next
  case (Suc k)
  show ?case
  proof (cases "length ids < slots")
    case True
    then have few: "length (dealt bs depth) < slots" using Suc.prems(1) by auto
    have ids: "ids = map rc_global_synapse_id (dealt bs depth)" using few Suc.prems(1) by simp
    have next_ids: "take slots (ids @ map rc_global_synapse_id (deal_row bs depth))
        = map rc_global_synapse_id (take slots (dealt bs (Suc depth)))"
      unfolding ids dealt_Suc map_append [symmetric] take_map ..
    have "deal_row bs depth \<noteq> []"
    proof
      assume "deal_row bs depth = []"
      then have "\<forall>b \<in> set bs. length b \<le> depth" by (auto simp: deal_row_def filter_empty_conv not_less)
      from dealt_all(2) [OF this] few assms(1) show False by simp
    qed
    moreover have "capture_rounds slots bs (Suc depth) (map rc_global_synapse_id (take slots (dealt bs (Suc depth))))
        = Inr (map rc_global_synapse_id (take slots (dealt bs n)))"
      by (rule Suc.hyps(1)) (use Suc.hyps(2) in simp_all)
    ultimately show ?thesis
      using True by (subst capture_rounds.simps) (simp only: if_True capture_round_deals [OF True] next_ids prod.case simp_thms)
  next
    case False
    then have "slots \<le> length (dealt bs depth)" using Suc.prems(1) by simp
    moreover have "\<exists>xs. dealt bs n = dealt bs depth @ xs"
    proof -
      have "[0..<n] = [0..<depth] @ [depth..<n]" using Suc.prems(2) upt_add_eq_append [of 0 depth "n - depth"] by simp
      then show ?thesis by (auto simp: dealt_def)
    qed
    ultimately have "take slots (dealt bs n) = take slots (dealt bs depth)" by auto
    then show ?thesis using False Suc.prems(1) by (simp add: capture_rounds.simps)
  qed
qed

lemma take_dealt: "\<exists>d j. take slots (dealt bs n) = dealt bs d @ take j (deal_row bs d)"
proof (induction n)
  case 0
  show ?case by (intro exI [of _ 0]) (simp add: dealt_def)
next
  case (Suc n)
  then show ?case
    by (cases "slots \<le> length (dealt bs n)") (auto simp: dealt_Suc)
qed

section \<open>Fairness\<close>

lemma dealt_members: "x \<in> set (dealt bs d) \<longleftrightarrow> (\<exists>b \<in> set bs. x \<in> set (take d b))"
proof -
  have "set (dealt bs d) = set (concat (map (take d) bs))" using mset_dealt by (metis set_mset_mset)
  then show ?thesis by auto
qed

lemma captured_group:
  assumes taken: "taken = dealt (capture_buckets cs) d @ take j (deal_row (capture_buckets cs) d)"
  shows "\<exists>m \<in> {d, Suc d}. {c \<in> set taken. rc_group c = g} = set (take m (ranked g cs))"
proof -
  let ?bs = "capture_buckets cs" and ?b = "ranked g cs"
  have own: "b = ?b" if "b \<in> set ?bs" "x \<in> set b" "rc_group x = g" for b x
    using that unfolding buckets_are_ranked(1) by auto
  have b: "?b \<noteq> [] \<Longrightarrow> ?b \<in> set ?bs" unfolding buckets_are_ranked(1) by blast
  have front: "{c \<in> set (dealt ?bs d). rc_group c = g} = set (take d ?b)"
  proof (intro set_eqI iffI)
    fix x assume "x \<in> {c \<in> set (dealt ?bs d). rc_group c = g}"
    then obtain b where "b \<in> set ?bs" "x \<in> set (take d b)" "rc_group x = g" by (auto simp: dealt_members)
    then show "x \<in> set (take d ?b)" using own in_set_takeD by metis
  next
    fix x assume x: "x \<in> set (take d ?b)"
    then have "x \<in> set ?b" by (rule in_set_takeD)
    moreover from this have "?b \<noteq> []" by (cases ?b) (simp_all del: ranked_set)
    then have "?b \<in> set ?bs" by (rule b)
    ultimately show "x \<in> {c \<in> set (dealt ?bs d). rc_group c = g}" using x by (auto simp: dealt_members)
  qed
  have row: "x = ?b ! d \<and> d < length ?b" if mem: "x \<in> set (deal_row ?bs d)" and group: "rc_group x = g" for x
  proof -
    obtain b where b: "b \<in> set ?bs" "d < length b" "x = b ! d" using mem by (auto simp: deal_row_def)
    with own [of b x] group show ?thesis by simp
  qed
  have parts: "{c \<in> set taken. rc_group c = g}
      = {c \<in> set (dealt ?bs d). rc_group c = g} \<union> {c \<in> set (take j (deal_row ?bs d)). rc_group c = g}"
    unfolding taken set_append by blast
  show ?thesis
  proof (cases "\<exists>x \<in> set (take j (deal_row ?bs d)). rc_group x = g")
    case True
    then obtain x where x: "x \<in> set (take j (deal_row ?bs d))" "rc_group x = g" by blast
    then have d: "x = ?b ! d" "d < length ?b" using row [OF in_set_takeD] by blast+
    have only: "y = ?b ! d" if "y \<in> set (take j (deal_row ?bs d))" "rc_group y = g" for y
      using row [OF in_set_takeD [OF that(1)] that(2)] by (rule conjunct1)
    have "{c \<in> set (take j (deal_row ?bs d)). rc_group c = g} = {?b ! d}"
    proof (rule equalityI)
      show "{c \<in> set (take j (deal_row ?bs d)). rc_group c = g} \<subseteq> {?b ! d}" using only by (simp add: subset_iff)
      show "{?b ! d} \<subseteq> {c \<in> set (take j (deal_row ?bs d)). rc_group c = g}" using x d(1) by simp
    qed
    then have "{c \<in> set taken. rc_group c = g} = set (take d ?b) \<union> {?b ! d}" unfolding parts front by simp
    also have "\<dots> = set (take (Suc d) ?b)" using d(2) by (simp add: take_Suc_conv_app_nth)
    finally show ?thesis by blast
  next
    case False
    then have none: "{c \<in> set (take j (deal_row ?bs d)). rc_group c = g} = {}" by simp
    have "{c \<in> set taken. rc_group c = g} = set (take d ?b)" unfolding parts front none by simp
    then show ?thesis by blast
  qed
qed

definition fair_capture :: "ReplayCaptureCandidate list \<Rightarrow> ReplayCaptureCandidate list \<Rightarrow> bool" where
  "fair_capture cs taken \<longleftrightarrow>
     mset taken \<subseteq># mset cs \<and> (\<exists>d. \<forall>g. \<exists>m \<in> {d, Suc d}. {c \<in> set taken. rc_group c = g} = set (take m (ranked g cs)))"

lemma capture_rounds_fair:
  assumes "slots \<le> length cs"
  shows "\<exists>taken. capture_rounds slots (capture_buckets cs) 0 [] = Inr (map rc_global_synapse_id taken)
    \<and> length taken = slots \<and> fair_capture cs taken"
proof -
  let ?bs = "capture_buckets cs" let ?n = "length (concat ?bs)"
  have total: "length (concat ?bs) = length cs" using buckets_are_ranked(2) by (metis size_mset)
  have big: "\<forall>b \<in> set ?bs. length b \<le> ?n" by (auto simp: length_concat intro: member_le_sum_list)
  have "capture_rounds slots ?bs 0 [] = Inr (map rc_global_synapse_id (take slots (dealt ?bs ?n)))"
    by (rule capture_rounds_deal) (use assms total big in \<open>simp_all add: dealt_def\<close>)
  moreover have "length (take slots (dealt ?bs ?n)) = slots" using dealt_all(2) [OF big] assms total by simp
  moreover have "mset (take slots (dealt ?bs ?n)) \<subseteq># mset cs"
  proof -
    have "mset (take slots (dealt ?bs ?n)) \<subseteq># mset (dealt ?bs ?n)"
      by (metis append_take_drop_id mset_append mset_subset_eq_add_left)
    then show ?thesis unfolding dealt_all(1) [OF big] buckets_are_ranked(2) .
  qed
  moreover obtain d j where "take slots (dealt ?bs ?n) = dealt ?bs d @ take j (deal_row ?bs d)" using take_dealt by blast
  ultimately show ?thesis unfolding fair_capture_def using captured_group by blast
qed

end
