(* ===== verification/Learning_Proofs.thy ===== *)
theory Learning_Proofs
  imports Learning_Capture Topology_Proofs Budgets_Proofs Decoder_Proofs
begin

text \<open>
  The learning pass gives every synapse a valid receptor, lists exactly the synapses that learn, in order,
  and the capture plan made from them passes its check against the phenotype.
\<close>

section \<open>The receptor table\<close>

lemma receptor_eq_delta: "receptor_eq a b \<Longrightarrow> is_delta_enabled a \<longleftrightarrow> is_delta_enabled b"
  by (auto simp: receptor_eq_def is_delta_enabled_def f32_eq_def)

lemma intern_receptor_Inr:
  assumes "intern_receptor r rs = Inr (index, rs')"
  shows "(\<exists>zs. rs' = rs @ zs \<and> set zs \<subseteq> {r}) \<and> unat index < length rs'
    \<and> (rs' ! unat index = r \<or> receptor_eq (rs' ! unat index) r)"
proof (cases "find (\<lambda>i. receptor_eq (rs ! i) r) [0..<length rs]")
  case None
  then show ?thesis using assms by (auto simp: intern_receptor_def try_of_len_iff)
next
  case (Some i)
  then have "i < length rs" "receptor_eq (rs ! i) r" by (auto simp: find_Some_iff)
  then show ?thesis using assms Some by (auto simp: intern_receptor_def try_of_len_iff)
qed

lemma receptor_try_new_Inr: "receptor_try_new a b c d e f g = Inr r \<Longrightarrow> receptor_validate r = Inr ()"
  by (auto simp: receptor_try_new_def Let_def)

lemma receptor_for_valid:
  "receptor_for p disabled kind scale = Inr r \<Longrightarrow> receptor_validate disabled = Inr () \<Longrightarrow> receptor_validate r = Inr ()"
  by (auto simp: receptor_for_def dest: receptor_try_new_Inr split: if_splits)

section \<open>The pass\<close>

abbreviation wiring :: "CompiledSynapse \<Rightarrow> CompiledSynapse" where
  "wiring s \<equiv> s\<lparr>sy_receptor_index := 0\<rparr>"

definition learns :: "LearningPass \<Rightarrow> nat \<Rightarrow> bool" where
  "learns st i \<longleftrightarrow> is_delta_enabled (lp_receptors st ! unat (sy_receptor_index (lp_synapses st ! i)))"

text \<open>The first \<open>k\<close> synapses have their receptors.\<close>

definition pass_inv :: "CompiledSynapse list \<Rightarrow> nat \<Rightarrow> LearningPass \<Rightarrow> bool" where
  "pass_inv ss k st \<longleftrightarrow>
     map wiring (lp_synapses st) = map wiring ss
     \<and> (\<forall>r \<in> set (lp_receptors st). receptor_validate r = Inr ())
     \<and> (\<forall>i < k. unat (sy_receptor_index (lp_synapses st ! i)) < length (lp_receptors st))
     \<and> map (unat \<circ> rc_global_synapse_id) (lp_candidates st) = filter (learns st) [0..<k]"

lemma learn_synapse_inv:
  assumes inv: "pass_inv ss (unat (cp_synapse_start p) + slot) st" and disabled: "receptor_validate disabled = Inr ()"
    and room: "unat (cp_synapse_start p) + slot < length ss" "length ss < 2 ^ 32"
    and step: "learn_synapse inputs disabled p policy multiplier slot st = Inr st'"
  shows "pass_inv ss (Suc (unat (cp_synapse_start p) + slot)) st'"
proof -
  let ?i = "unat (cp_synapse_start p) + slot" let ?s = "lp_synapses st ! ?i"
  obtain scale band where scale: "receptor_scale inputs p (sy_kind ?s) policy (word_of_nat slot) = (scale, band)" by fastforce
  obtain receptor t where
    r: "receptor_for (li_parameters inputs) disabled (sy_kind ?s) (f32_clamp f32_zero f32_one (f32_mul scale multiplier)) = Inr receptor"
    and t: "intern_receptor receptor (lp_receptors st) = Inr t"
    and done': "(case t of (index, receptors) \<Rightarrow> Inr (st\<lparr>lp_synapses := (lp_synapses st)[?i := ?s\<lparr>sy_receptor_index := index\<rparr>],
        lp_receptors := receptors,
        lp_candidates := lp_candidates st @ (if is_delta_enabled receptor then
          [\<lparr> rc_group = replay_capture_group (sy_kind ?s) (cp_route_index p), rc_band_priority = band,
             rc_biological_priority = priority_raw (cp_priority p), rc_global_synapse_id = cp_synapse_start p + word_of_nat slot \<rparr>]
          else [])\<rparr>)) = (Inr st' :: LearningPass contract)"
    using step unfolding learn_synapse_def Let_def scale prod.case and_then_Inr_iff by (elim exE conjE) (rule that, assumption+)
  obtain index receptors where pair: "t = (index, receptors)" by (cases t)
  have st': "lp_synapses st' = (lp_synapses st)[?i := ?s\<lparr>sy_receptor_index := index\<rparr>]" "lp_receptors st' = receptors"
    "map (unat \<circ> rc_global_synapse_id) (lp_candidates st') = map (unat \<circ> rc_global_synapse_id) (lp_candidates st)
      @ (if is_delta_enabled receptor then [unat (cp_synapse_start p + word_of_nat slot)] else [])"
    using done' by (auto simp: pair)
  note t = t [unfolded pair]
  note t' = intern_receptor_Inr [OF t]
  obtain zs where zs: "receptors = lp_receptors st @ zs" "set zs \<subseteq> {receptor}" using t' by blast
  have "map wiring (lp_synapses st) = map wiring ss" using inv by (simp only: pass_inv_def)
  from arg_cong [OF this, of length] have len: "length (lp_synapses st) = length ss" by simp
  have id: "unat (cp_synapse_start p + word_of_nat slot) = ?i"
  proof -
    have "unat (word_of_nat slot :: u32) = slot" unfolding unat_of_nat using room by simp
    then show ?thesis using room by (subst unat_plus_no_overflow) simp_all
  qed
  have at: "lp_synapses st' ! j = (if j = ?i then ?s\<lparr>sy_receptor_index := index\<rparr> else lp_synapses st ! j)" if "j < length ss" for j
    using that len by (simp add: st'(1) nth_list_update)
  have "map wiring (lp_synapses st') = (map wiring (lp_synapses st))[?i := wiring ?s]" by (simp add: st'(1) map_update)
  also have "\<dots> = map wiring (lp_synapses st)" using room len nth_map [of ?i "lp_synapses st" wiring] list_update_id [of "map wiring (lp_synapses st)" ?i]
    by (simp only: )
  finally have wires: "map wiring (lp_synapses st') = map wiring ss" using inv by (simp add: pass_inv_def)
  have valid: "receptor_validate x = Inr ()" if "x \<in> set (lp_receptors st')" for x
    using that zs inv receptor_for_valid [OF r disabled] by (auto simp: st'(2) pass_inv_def)
  have old: "unat (sy_receptor_index (lp_synapses st ! j)) < length (lp_receptors st)" if "j < ?i" for j
    using inv that by (simp add: pass_inv_def)
  have stays: "learns st' j = learns st j" if "j < ?i" for j
    using that old [OF that] room at [of j] by (simp add: learns_def st'(2) zs(1) nth_append)
  have "learns st' ?i \<longleftrightarrow> is_delta_enabled receptor"
    using t' receptor_eq_delta at [OF room(1)] by (auto simp: learns_def st'(2))
  then have "filter (learns st') [0..<Suc ?i] = filter (learns st) [0..<?i] @ (if is_delta_enabled receptor then [?i] else [])"
    using stays by (auto intro: filter_cong)
  then have "map (unat \<circ> rc_global_synapse_id) (lp_candidates st') = filter (learns st') [0..<Suc ?i]"
    using inv by (simp add: st'(3) id pass_inv_def)
  moreover have "unat (sy_receptor_index (lp_synapses st' ! j)) < length (lp_receptors st')" if "j < Suc ?i" for j
    using that old [of j] t' at [of j] room by (auto simp: st'(2) zs(1) less_Suc_eq)
  ultimately show ?thesis using wires valid unfolding pass_inv_def by blast
qed

lemma learn_slots_inv:
  assumes inv: "pass_inv ss (unat (cp_synapse_start p)) st" and disabled: "receptor_validate disabled = Inr ()"
    and room: "unat (cp_synapse_start p) + n \<le> length ss" "length ss < 2 ^ 32"
    and run: "try_fold (learn_synapse inputs disabled p policy multiplier) [0..<n] st = Inr st'"
  shows "pass_inv ss (unat (cp_synapse_start p) + n) st'"
proof -
  have "pass_inv ss (unat (cp_synapse_start p) + length [0..<n]) st'"
  proof (rule try_fold_invariant [OF run, where P = "\<lambda>ys. pass_inv ss (unat (cp_synapse_start p) + length ys)"])
    fix ys slot zs t t'
    assume split: "[0..<n] = ys @ slot # zs" and t: "pass_inv ss (unat (cp_synapse_start p) + length ys) t"
      and step: "learn_synapse inputs disabled p policy multiplier slot t = Inr t'"
    have n: "n = length ys + Suc (length zs)" using arg_cong [OF split, of length] by simp
    then have "length ys < n" by simp
    moreover have "[0..<n] ! length ys = slot" unfolding split by simp
    ultimately have "slot = length ys" by (metis add_0 nth_upt)
    then show "pass_inv ss (unat (cp_synapse_start p) + length (ys @ [slot])) t'"
      using learn_synapse_inv [OF _ disabled _ room(2) step] t room(1) n by simp
  qed (use inv in simp)
  then show ?thesis by simp
qed

lemma range_end_le: "range_end k ps = Some n \<Longrightarrow> k \<le> n"
  by (induction ps arbitrary: k) (fastforce split: if_splits)+

lemma learn_projections_inv:
  assumes "range_end k ps = Some n" "n \<le> length ss" "length ss < 2 ^ 32"
    and "pass_inv ss k st" "receptor_validate disabled = Inr ()"
    and "try_fold (learn_projection inputs capacity disabled) ps st = Inr st'"
  shows "pass_inv ss n st'"
  using assms(1,4,6)
proof (induction ps arbitrary: k st)
  case (Cons p ps)
  have k: "unat (cp_synapse_start p) = k" and rest: "range_end (k + unat (cp_synapse_len p)) ps = Some n"
    using Cons.prems(1) by (auto split: if_splits)
  have le: "k + unat (cp_synapse_len p) \<le> n" using range_end_le [OF rest] .
  obtain st1 where st1: "learn_projection inputs capacity disabled p st = Inr st1"
    and run: "try_fold (learn_projection inputs capacity disabled) ps st1 = Inr st'"
    using Cons.prems(3) by (auto simp: try_fold_Cons_Inr)
  from st1 have "try_fold (learn_synapse inputs disabled p (n2048_section_policy capacity p)
      (critical_period_multiplier (li_open_critical_periods inputs) p)) [0..<unat (cp_synapse_len p)] st = Inr st1"
    unfolding learn_projection_def and_then_Inr_iff by (auto split: if_splits)
  from learn_slots_inv [OF _ assms(5) _ assms(3) this] have "pass_inv ss (k + unat (cp_synapse_len p)) st1"
    using Cons.prems(2) k le assms(2) by simp
  then show ?case using Cons.IH [OF rest _ run] by simp
qed simp

lemma learning_pass_inv:
  assumes pass: "learning_pass inputs capacity ps ss = Inr st" and ranges: "range_end 0 ps = Some (length ss)" "length ss < 2 ^ 32"
  shows "pass_inv ss (length ss) st"
proof -
  obtain disabled where d: "disabled_receptor (li_parameters inputs) = Inr disabled"
    and run: "try_fold (learn_projection inputs capacity disabled) ps
        \<lparr> lp_synapses = ss, lp_receptors = [disabled], lp_candidates = [] \<rparr> = Inr st"
    using pass by (auto simp: learning_pass_def)
  have v: "receptor_validate disabled = Inr ()" using d by (auto simp: disabled_receptor_def dest: receptor_try_new_Inr)
  show ?thesis by (rule learn_projections_inv [OF ranges(1) order_refl ranges(2) _ v run]) (simp add: pass_inv_def v)
qed

section \<open>The plans\<close>

lemma plan_try_new_Inr:
  assumes "plan_try_new ids samples events sample_capacity = Inr p"
  shows "plan_validate p = Inr ()" "cp_global_synapse_ids p = ids" "cp_event_capacity p = events" "cp_sample_capacity p = sample_capacity"
  using assms by (auto simp: plan_try_new_def plan_validate_def plan_validate_shape_def plan_recompute_digest_def Let_def split: if_splits)

lemma sleep_plan_try_new_Inr: "sleep_plan_try_new_v1 a b c = Inr p \<Longrightarrow> sleep_plan_validate p = Inr ()"
  by (auto simp: sleep_plan_try_new_v1_def sleep_plan_validate_def sleep_plan_validate_fields_def sleep_plan_recompute_digest_def Let_def
      split: if_splits)

lemma capture_limit_Inr:
  assumes "capture_limit capacity cs = Inr n"
  shows "n = min (min (length cs) 64)
    (unat (xb_max_replay_eligibility_samples (bc_execution capacity)) div unat (xb_max_replay_events (bc_execution capacity)))"
  using assms by (auto simp: capture_limit_def Let_def MAX_REPLAY_CAPTURE_SYNAPSES_def unat_div split: if_splits)

lemma capture_plan_Inr:
  assumes "capture_plan capacity cs = Inr p"
  obtains taken where "fair_capture cs taken" "cp_global_synapse_ids p = sort (map rc_global_synapse_id taken)"
    "length taken = min (min (length cs) 64)
      (unat (xb_max_replay_eligibility_samples (bc_execution capacity)) div unat (xb_max_replay_events (bc_execution capacity)))"
    "plan_validate p = Inr ()" "cp_event_capacity p = xb_max_replay_events (bc_execution capacity)"
    "cp_sample_capacity p \<le> xb_max_replay_eligibility_samples (bc_execution capacity)" "0 < length taken"
proof -
  let ?events = "xb_max_replay_events (bc_execution capacity)" and ?samples = "xb_max_replay_eligibility_samples (bc_execution capacity)"
  obtain n ids samples total where n: "capture_limit capacity cs = Inr n" "n \<noteq> 0"
    and ids: "capture_rounds n (capture_buckets cs) 0 [] = Inr ids"
    and samples: "try_of_len (length ids) = Some (samples :: u16)" and total: "checked_mul ?events (ucast samples) = Some total"
    and p: "plan_try_new (sort ids) samples ?events total = Inr p"
    using assms unfolding capture_plan_def Let_def and_then_Inr_iff ok_or_Inr_iff if_Inl_Inr length_sort by blast
  note limit = capture_limit_Inr [OF n(1)]
  have few: "n \<le> length cs" unfolding limit by simp
  obtain taken where taken: "ids = map rc_global_synapse_id taken" "length taken = n" "fair_capture cs taken"
    using capture_rounds_fair [OF few] unfolding ids Inr_inject by blast
  have s: "unat (ucast samples :: u32) = n"
    using samples taken(1,2) unsigned_less [where 'a = nat, of samples] by (simp add: try_of_len_iff unsigned_ucast_eq take_bit_nat_eq_self)
  have "n \<le> unat ?samples div unat ?events" unfolding limit by simp
  then have "unat ?events * n \<le> unat ?events * (unat ?samples div unat ?events)" by (rule mult_le_mono2)
  also have "\<dots> \<le> unat ?samples" by (rule times_div_less_eq_dividend)
  finally have le: "unat ?events * n \<le> unat ?samples" .
  have "unat total = unat ?events * n"
    using total s le unsigned_less [where 'a = nat, of ?samples] by (auto simp: checked_mul_def unat_word_ariths split: if_splits)
  then have "total \<le> ?samples" using le by (simp add: word_le_nat_alt)
  with plan_try_new_Inr [OF p] taken limit n(2) that show thesis by auto
qed

definition learned ::
  "LearningInputs \<Rightarrow> BrainCapacityClass \<Rightarrow> PlacedProjection list \<Rightarrow> CompiledSynapse list \<Rightarrow> CompiledLearningPlans \<Rightarrow> LearningPass \<Rightarrow> bool" where
  "learned inputs capacity ps ss plans st \<longleftrightarrow>
     learning_pass inputs capacity ps ss = Inr st \<and> cl_receptors plans = lp_receptors st
     \<and> capture_plan capacity (lp_candidates st) = Inr (cl_replay plans)
     \<and> sleep_plan_validate (cl_sleep plans) = Inr ()
     \<and> compute_plasticity_plan_digest (cl_receptors plans) (cl_replay plans) (cl_sleep plans) = Inr (cl_digest plans)"

lemma compile_learning_Inr:
  assumes "compile_learning_plans inputs capacity ps ss = Inr (plans, ss')"
  obtains st where "learned inputs capacity ps ss plans st" "ss' = lp_synapses st"
  using assms that sleep_plan_try_new_Inr
  unfolding compile_learning_plans_def and_then_Inr_iff may_fail_Inr_iff learned_def by (auto split: prod.splits)

lemma learned_plan_accepted:
  assumes l: "learned inputs capacity ps ss plans st" and ranges: "range_end 0 ps = Some (length ss)" "length ss < 2 ^ 32"
    and capacity: "capacity \<in> set supported_classes"
    and budget: "unat (gb_replay_capture_synapse_count (cb_global budgets)) = length (cp_global_synapse_ids (cl_replay plans))"
  shows "plan_validate_against (bc_id capacity) budgets (lp_synapses st) (cl_receptors plans) capacity (cl_replay plans) = Inr ()"
proof -
  let ?p = "cl_replay plans"
  have pass: "learning_pass inputs capacity ps ss = Inr st" and r: "cl_receptors plans = lp_receptors st"
    and plan: "capture_plan capacity (lp_candidates st) = Inr ?p" using l by (simp_all add: learned_def)
  obtain taken where taken: "fair_capture (lp_candidates st) taken" "cp_global_synapse_ids ?p = sort (map rc_global_synapse_id taken)"
    and p: "plan_validate ?p = Inr ()" "cp_event_capacity ?p = xb_max_replay_events (bc_execution capacity)"
      "cp_sample_capacity ?p \<le> xb_max_replay_eligibility_samples (bc_execution capacity)"
    by (rule capture_plan_Inr [OF plan])
  note inv = learning_pass_inv [OF pass ranges, unfolded pass_inv_def]
  have len: "length (lp_synapses st) = length ss" using arg_cong [OF conjunct1 [OF inv], of length] by simp
  have good: "unat i < length (lp_synapses st) \<and> unat (sy_receptor_index (lp_synapses st ! unat i)) < length (lp_receptors st)
      \<and> is_delta_enabled (lp_receptors st ! unat (sy_receptor_index (lp_synapses st ! unat i)))"
    if mem: "i \<in> set (cp_global_synapse_ids ?p)" for i
  proof -
    obtain c where c: "c \<in> set taken" "i = rc_global_synapse_id c" using mem unfolding taken(2) by auto
    then have "c \<in> set (lp_candidates st)" using taken(1) set_mset_mono unfolding fair_capture_def set_mset_mset [symmetric] by blast
    then have "unat i \<in> set (map (unat \<circ> rc_global_synapse_id) (lp_candidates st))" using c(2) by auto
    then have "unat i < length ss" "learns st (unat i)" using inv by auto
    then show ?thesis using inv len by (auto simp: learns_def)
  qed
  have "word_of_nat (length (cp_global_synapse_ids ?p)) = gb_replay_capture_synapse_count (cb_global budgets)"
    using budget by (metis of_nat_unat ucast_id)
  moreover have "\<not> xb_max_replay_events (bc_execution capacity) < cp_event_capacity ?p"
    "\<not> xb_max_replay_eligibility_samples (bc_execution capacity) < cp_sample_capacity ?p"
    using p(2,3) by (simp_all add: not_less)
  ultimately show ?thesis
    using good p(1) capacity by (auto simp: plan_validate_against_def capacity_validate_iff r list_ex_iff)
qed

lemma learned_table:
  assumes l: "learned inputs capacity ps ss plans st" and ranges: "range_end 0 ps = Some (length ss)" "length ss < 2 ^ 32"
  shows "(\<forall>r \<in> set (cl_receptors plans). receptor_validate r = Inr ())
    \<and> (\<forall>s \<in> set (lp_synapses st). unat (sy_receptor_index s) < length (cl_receptors plans))
    \<and> map wiring (lp_synapses st) = map wiring ss"
proof -
  have pass: "learning_pass inputs capacity ps ss = Inr st" and r: "cl_receptors plans = lp_receptors st" using l by (simp_all add: learned_def)
  note inv = learning_pass_inv [OF pass ranges, unfolded pass_inv_def]
  have "length (lp_synapses st) = length ss" using arg_cong [OF conjunct1 [OF inv], of length] by simp
  then show ?thesis using inv unfolding r by (auto simp: in_set_conv_nth)
qed

end
