(* ===== verification/Learning_Total.thy ===== *)
theory Learning_Total
  imports Learning_Proofs F32_Quotient
begin

text \<open>
  Every brain gets its receptors, and plans exactly when some synapse learns: with validated parameters the pass of
  the learning compiler succeeds, and so does the compiler unless nothing is left to capture, as when the decoder
  rates and the masks silence every synapse. A decoder synapse learns if its scale leaves the base rate above the
  least positive \<open>f32\<close>.
\<close>

section \<open>Rates\<close>

definition learning_ready :: "LearningInputs \<Rightarrow> bool" where
  "learning_ready inputs \<longleftrightarrow>
     (let p = li_parameters inputs in
      plasticity_genes_validate p = Inr () \<and> list_all f32_is_finite (rp_weights (pg_receptor_profile p))
      \<and> (\<forall>policy. pg_rate_policy p = Some policy \<longrightarrow> length (dl_family_scales policy) = 8)
      \<and> (\<forall>row \<in> set (pm_projection_masks (bg_plasticity_mask (li_genome inputs))). f32_in_range f32_zero f32_one (pp_learning_rate_scale row))
      \<and> (\<forall>c \<in> set (li_open_critical_periods inputs). f32_in_range f32_zero f32_one (cr_plasticity_bias c)))"

lemma rate_bounded: "f32_in_range f32_zero f32_one x \<Longrightarrow> f32_bounded 149 x"
  by (rule f32_unit_bounded [OF f32_in_range_weaken])

lemma rate_finite: "f32_in_range f32_zero f32_one x \<Longrightarrow> f32_is_finite x"
  by (rule f32_bounded_finite [OF rate_bounded])

lemma fold_max_unit:
  assumes "\<forall>x \<in> set xs. f32_in_range f32_zero f32_one x" and "f32_in_range f32_zero f32_one a"
  shows "f32_in_range f32_zero f32_one (foldl f32_max a xs)"
  using assms by (induction xs arbitrary: a) (auto simp: f32_max_def)

lemma unit_zero: "f32_in_range f32_zero f32_one f32_zero"
  by (simp add: f32_in_range_def f32_le_def)

lemma unit_one: "f32_in_range f32_zero f32_one f32_one"
  by (simp add: f32_in_range_def f32_le_def)

lemma multiplier_facts:
  assumes "learning_ready inputs"
  shows "f32_le f32_one (critical_period_multiplier (li_open_critical_periods inputs) p)"
    and "f32_is_finite (critical_period_multiplier (li_open_critical_periods inputs) p)"
proof -
  let ?m = "foldl f32_max f32_zero (map cr_plasticity_bias
        (filter (\<lambda>c. cr_lobe c = cp_source_lobe p \<or> cr_lobe c = cp_target_lobe p) (li_open_critical_periods inputs)))"
  have m: "f32_in_range f32_zero f32_one ?m"
    by (rule fold_max_unit) (use assms unit_zero in \<open>auto simp: learning_ready_def Let_def\<close>)
  then have "\<not> f32_is_nan ?m" "0 \<le> f32_scaled ?m" by (simp_all add: f32_in_range_def f32_le_def)
  then show "f32_le f32_one (critical_period_multiplier (li_open_critical_periods inputs) p)"
    unfolding critical_period_multiplier_def by (rule f32_add_one_ge)
  have "f32_bounded 150 (f32_add f32_one ?m)"
    using f32_add_bounded [OF rate_bounded [OF unit_one] rate_bounded [OF m]] by simp
  then show "f32_is_finite (critical_period_multiplier (li_open_critical_periods inputs) p)"
    unfolding critical_period_multiplier_def by (rule f32_bounded_finite)
qed

text \<open>The scale of a decoder synapse, and whether it leaves the base rate at or above the least positive \<open>f32\<close>.\<close>

definition decoder_scale :: "PlasticityGenomeParameters \<Rightarrow> DecoderSynapseCoordinate \<Rightarrow> f32" where
  "decoder_scale p c =
     (case pg_rate_policy p of None \<Rightarrow> f32_one | Some policy \<Rightarrow> scale_for policy (dsc_head c) (dsc_family c))"

definition decoder_learns :: "PlasticityGenomeParameters \<Rightarrow> CompiledSynapseKind \<Rightarrow> bool" where
  "decoder_learns p kind =
     (case kind of
        RecurrentSynapse \<Rightarrow> False
      | DecoderSynapse c \<Rightarrow> 2 ^ 149 \<le> f32_magnitude (pg_base_learning_rate p) * f32_magnitude (decoder_scale p c))"

lemma decoder_scale_unit:
  assumes "learning_ready inputs"
  shows "f32_in_range f32_zero f32_one (decoder_scale (li_parameters inputs) c)"
proof (cases "pg_rate_policy (li_parameters inputs)")
  case None
  then show ?thesis by (simp add: decoder_scale_def unit_one)
next
  case (Some policy)
  then have v: "rates_validate policy = Inr ()" and len: "length (dl_family_scales policy) = 8"
    using assms by (auto simp: learning_ready_def Let_def plasticity_genes_validate_def)
  have ok: "check_scale x = Inr () \<Longrightarrow> f32_in_range f32_zero f32_one x" for x
    by (simp add: check_scale_def split: if_splits)
  have heads: "f32_in_range f32_zero f32_one (dl_action_candidate_scale policy)" "f32_in_range f32_zero f32_one (dl_memory_context_scale policy)"
    "f32_in_range f32_zero f32_one (dl_speech_payload_scale policy)" "f32_in_range f32_zero f32_one (dl_cognitive_context_scale policy)"
    using v by (auto simp: rates_validate_def intro: ok)
  have family: "f32_in_range f32_zero f32_one x" if "dl_family_scales policy ! i = Some x" "i < 8" for i x
  proof -
    have "Some x \<in> set (dl_family_scales policy)" using that len nth_mem by metis
    then have "x \<in> set (List.map_filter id (dl_family_scales policy))" by (force simp: List.map_filter_def)
    then show ?thesis using v by (auto simp: rates_validate_def intro: ok)
  qed
  have "unat (family_raw (dsc_family c)) < 8" by (cases "dsc_family c") simp_all
  then show ?thesis
    using heads family by (auto simp: decoder_scale_def Some scale_for_def split: DecoderHeadKind.split option.split)
qed

lemma finite_scale:
  assumes "learning_ready inputs" and "receptor_scale inputs p kind policy i = (scale, band)"
  shows "f32_is_finite scale" and "kind = DecoderSynapse c \<Longrightarrow> scale = decoder_scale (li_parameters inputs) c"
proof -
  have mask: "f32_in_range f32_zero f32_one s" if "projection_mask_scale (li_genome inputs) p = Some s" for s
    using that assms(1) by (auto simp: projection_mask_scale_def learning_ready_def Let_def find_Some_iff split: option.splits if_splits)
  have lit: "f32_bounded 149 (f32_lit 25 100)" "f32_bounded 149 PROCEDURAL_RECURRENT_LIFETIME_SCALE"
    unfolding f32_lit_def PROCEDURAL_RECURRENT_LIFETIME_SCALE_def by (rule f32_round_bounded; simp)+
  have prod: "f32_is_finite (f32_mul x y)" if "f32_bounded 149 x" "f32_bounded 149 y" for x y
    using f32_mul_bounded [OF that, of 149] by (simp add: f32_bounded_finite)
  note units = rate_bounded [OF unit_one] rate_bounded [OF mask]
  show decoder: "scale = decoder_scale (li_parameters inputs) c" if "kind = DecoderSynapse c" for c
    using that assms(2) by (auto simp: receptor_scale_def decoder_scale_def Let_def split: option.splits)
  show "f32_is_finite scale"
  proof (cases kind)
    case (DecoderSynapse c)
    then show ?thesis using decoder rate_finite [OF decoder_scale_unit [OF assms(1)]] by simp
  next
    case RecurrentSynapse
    then show ?thesis
      using assms(2) prod lit units units(2) [THEN f32_bounded_finite] rate_finite [OF unit_one] rate_finite [OF unit_zero]
      by (auto simp: receptor_scale_def Let_def split: option.splits if_splits)
  qed
qed

text \<open>The scale with the multiplier of the open critical periods is no smaller.\<close>

lemma effective_scale:
  assumes ready: "learning_ready inputs" and learns: "decoder_learns (li_parameters inputs) (DecoderSynapse c)"
    and e: "e = f32_clamp f32_zero f32_one (f32_mul (decoder_scale (li_parameters inputs) c)
      (critical_period_multiplier (li_open_critical_periods inputs) p))"
  shows "0 < f32_scaled e" and "2 ^ 149 \<le> f32_magnitude (pg_base_learning_rate (li_parameters inputs)) * f32_magnitude e"
proof -
  let ?s = "decoder_scale (li_parameters inputs) c" and ?m = "critical_period_multiplier (li_open_critical_periods inputs) p"
  let ?b = "f32_magnitude (pg_base_learning_rate (li_parameters inputs))"
  have s: "f32_in_range f32_zero f32_one ?s" by (rule decoder_scale_unit [OF ready])
  have big: "2 ^ 149 \<le> ?b * f32_magnitude ?s" using learns by (simp add: decoder_learns_def)
  have "f32_magnitude ?s \<noteq> 0" using big by (metis le_zero_eq mult_0_right power_not_zero zero_neq_numeral)
  then have pos: "0 < f32_scaled ?s"
    using s f32_scaled_abs [of ?s] by (simp add: f32_in_range_def f32_le_def)
  have small: "f32_magnitude ?s \<le> 2 ^ 149" using rate_bounded [OF s] by (simp add: f32_bounded_def)
  note up = f32_mul_keeps [OF rate_finite [OF s] pos multiplier_facts(1) [OF ready, of p]]
  show "0 < f32_scaled e" unfolding e using up f32_clamp_unit(2) by blast
  have "f32_magnitude ?s \<le> f32_magnitude e" unfolding e using up f32_clamp_unit(3) small by blast
  then have "?b * f32_magnitude ?s \<le> ?b * f32_magnitude e" by (rule mult_le_mono2)
  with big show "2 ^ 149 \<le> ?b * f32_magnitude e" by linarith
qed

section \<open>Receptors\<close>

lemma genes_facts:
  assumes "plasticity_genes_validate p = Inr ()"
  shows "f32_in_range f32_zero f32_one (pg_eligibility_decay p)" "f32_in_range f32_zero f32_one (pg_base_learning_rate p)"
    "\<not> f32_eq (pg_base_learning_rate p) f32_zero" "f32_in_range f32_zero f32_one (pg_normalization_rate p)"
    "f32_in_range f32_zero f32_one (pg_sleep_replay_rate p)"
    "f32_is_finite (pg_fast_min p)" "f32_is_finite (pg_fast_max p)"
    "f32_in_range (f32_neg f32_eight) f32_eight (pg_fast_min p)" "f32_in_range (f32_neg f32_eight) f32_eight (pg_fast_max p)"
    "\<not> f32_le (pg_fast_max p) (pg_fast_min p)"
  using assms by (auto simp: plasticity_genes_validate_def if_Inl_Inr)

lemma receptor_exists:
  assumes "plasticity_genes_validate p = Inr ()"
    and "f32_in_range f32_zero f32_one a" "f32_in_range f32_zero f32_one b" "f32_in_range f32_zero f32_one c"
  shows "receptor_try_new (pg_eligibility_decay p) a b c profile (pg_fast_min p) (pg_fast_max p)
    = Inr \<lparr> pr_eligibility_decay = pg_eligibility_decay p, pr_learning_rate = a, pr_sleep_replay_rate = b,
        pr_normalization_rate = c, pr_receptor_profile = profile, pr_fast_weight_min = pg_fast_min p, pr_fast_weight_max = pg_fast_max p \<rparr>"
  using genes_facts [OF assms(1)] assms(2-4) rate_finite
  by (simp add: receptor_try_new_def Let_def receptor_validate_def)

lemma receptor_for_total:
  assumes "learning_ready inputs" and "f32_in_range f32_zero f32_one scale"
  shows "\<exists>r. receptor_for (li_parameters inputs) disabled kind scale = Inr r
    \<and> (0 < f32_scaled scale \<longrightarrow> 2 ^ 149 \<le> f32_magnitude (pg_base_learning_rate (li_parameters inputs)) * f32_magnitude scale
        \<longrightarrow> is_delta_enabled r)
    \<and> (r = disabled \<or> pr_receptor_profile r = profile_for (li_parameters inputs) kind)"
proof (cases "f32_eq scale f32_zero")
  case True
  then have "\<not> 0 < f32_scaled scale" by (auto simp: f32_eq_def)
  then show ?thesis using True by (simp add: receptor_for_def)
next
  case False
  let ?p = "li_parameters inputs"
  have v: "plasticity_genes_validate ?p = Inr ()" using assms(1) by (simp add: learning_ready_def Let_def)
  note g = genes_facts [OF v]
  have unit: "f32_in_range f32_zero f32_one (f32_clamp f32_zero f32_one (f32_mul x scale))" if "f32_in_range f32_zero f32_one x" for x
    using f32_clamp_unit(1) f32_mul_not_nan rate_finite that assms(2) by blast
  have "f32_scaled (pg_base_learning_rate ?p) > 0" using g(2,3) by (auto simp: f32_in_range_def f32_le_def f32_eq_def)
  then have "\<not> f32_eq (f32_clamp f32_zero f32_one (f32_mul (pg_base_learning_rate ?p) scale)) f32_zero"
    if "0 < f32_scaled scale" "2 ^ 149 \<le> f32_magnitude (pg_base_learning_rate ?p) * f32_magnitude scale"
    using f32_mul_pos [OF rate_finite [OF g(2)] rate_finite [OF assms(2)] _ that] f32_clamp_unit(2) by (force simp: f32_eq_def)
  then show ?thesis
    using False unit [OF g(2)] unit [OF g(4)] unit [OF g(5)] by (simp add: receptor_for_def receptor_exists [OF v] is_delta_enabled_def)
qed

lemma disabled_total:
  assumes "learning_ready inputs"
  shows "\<exists>r. disabled_receptor (li_parameters inputs) = Inr r \<and> pr_receptor_profile r = pg_receptor_profile (li_parameters inputs)"
  using assms unit_zero by (simp add: disabled_receptor_def receptor_exists learning_ready_def Let_def)

lemma intern_total:
  assumes "length rs < 2 ^ 16"
  shows "\<exists>index rs'. intern_receptor r rs = Inr (index, rs') \<and> length rs' \<le> Suc (length rs)"
proof (cases "find (\<lambda>i. receptor_eq (rs ! i) r) [0..<length rs]")
  case None
  then show ?thesis using assms by (simp add: intern_receptor_def try_of_len_def)
next
  case (Some i)
  then have "i < length rs" by (auto simp: find_Some_iff)
  then show ?thesis using Some assms by (simp add: intern_receptor_def try_of_len_def)
qed

section \<open>The pass\<close>

definition finite_profile :: "PlasticityReceptorPlan \<Rightarrow> bool" where
  "finite_profile r \<longleftrightarrow> list_all f32_is_finite (rp_weights (pr_receptor_profile r))"

lemma profile_for_finite:
  assumes "list_all f32_is_finite (rp_weights (pg_receptor_profile p))"
  shows "list_all f32_is_finite (rp_weights (profile_for p kind))"
proof -
  have lit: "f32_is_finite (f32_lit 5 10)" "f32_is_finite (f32_lit 2 10)"
    by (rule f32_bounded_finite [of 149], unfold f32_lit_def, rule f32_round_bounded; simp)+
  have "f32_is_finite f32_minus_one" "f32_is_finite f32_zero"
    by (simp_all add: f32_is_finite_def f32_minus_one_def f32_zero_def f32_exponent_unat)
  then have "list_all f32_is_finite (rp_weights (credit_receptor_profile c))" for c
    using lit f32_one_facts(1) by (simp add: credit_receptor_profile_def)
  then show ?thesis using assms by (auto simp: profile_for_def split: CompiledSynapseKind.splits option.splits)
qed

definition total_inv :: "PlasticityGenomeParameters \<Rightarrow> CompiledSynapse list \<Rightarrow> nat \<Rightarrow> LearningPass \<Rightarrow> bool" where
  "total_inv parameters ss k st \<longleftrightarrow>
     pass_inv ss k st \<and> length (lp_receptors st) \<le> Suc k \<and> (\<forall>r \<in> set (lp_receptors st). finite_profile r)
     \<and> ((\<exists>i < k. decoder_learns parameters (sy_kind (ss ! i))) \<longrightarrow> lp_candidates st \<noteq> [])"

lemma same_wires:
  assumes "map wiring xs = map wiring ss"
  shows "length xs = length ss" and "i < length ss \<Longrightarrow> sy_kind (xs ! i) = sy_kind (ss ! i)"
proof -
  show len: "length xs = length ss" using arg_cong [OF assms, of length] by simp
  assume i: "i < length ss"
  have "wiring (xs ! i) = wiring (ss ! i)" using arg_cong [OF assms, of "\<lambda>zs. zs ! i"] i len by (simp only: nth_map)
  from arg_cong [OF this, of sy_kind] show "sy_kind (xs ! i) = sy_kind (ss ! i)" by simp
qed

lemma learn_synapse_total:
  assumes ready: "learning_ready inputs" and disabled: "receptor_validate disabled = Inr ()" "finite_profile disabled"
    and inv: "total_inv (li_parameters inputs) ss (unat (cp_synapse_start p) + slot) st"
    and room: "unat (cp_synapse_start p) + slot < length ss" "length ss < 2 ^ 16"
  shows "\<exists>st'. learn_synapse inputs disabled p policy (critical_period_multiplier (li_open_critical_periods inputs) p) slot st = Inr st'
    \<and> total_inv (li_parameters inputs) ss (Suc (unat (cp_synapse_start p) + slot)) st'"
proof -
  let ?i = "unat (cp_synapse_start p) + slot" and ?m = "critical_period_multiplier (li_open_critical_periods inputs) p"
  let ?s = "lp_synapses st ! ?i"
  obtain scale band where scale: "receptor_scale inputs p (sy_kind ?s) policy (word_of_nat slot) = (scale, band)" by fastforce
  note scales = finite_scale [OF ready scale]
  let ?e = "f32_clamp f32_zero f32_one (f32_mul scale ?m)"
  have nan: "\<not> f32_is_nan (f32_mul scale ?m)" by (rule f32_mul_not_nan [OF scales(1) multiplier_facts(2) [OF ready]])
  have unit: "f32_in_range f32_zero f32_one ?e" by (rule f32_clamp_unit(1) [OF nan])
  obtain r where r: "receptor_for (li_parameters inputs) disabled (sy_kind ?s) ?e = Inr r"
    and enabled: "0 < f32_scaled ?e \<longrightarrow> 2 ^ 149 \<le> f32_magnitude (pg_base_learning_rate (li_parameters inputs)) * f32_magnitude ?e
      \<longrightarrow> is_delta_enabled r"
    and profile: "r = disabled \<or> pr_receptor_profile r = profile_for (li_parameters inputs) (sy_kind ?s)"
    using receptor_for_total [OF ready unit] by blast
  have fin: "finite_profile r"
    using profile disabled(2) profile_for_finite ready by (auto simp: finite_profile_def learning_ready_def Let_def)
  note i = inv [unfolded total_inv_def]
  have few: "length (lp_receptors st) < 2 ^ 16" using i room by linarith
  obtain index rs where t: "intern_receptor r (lp_receptors st) = Inr (index, rs)" "length rs \<le> Suc (length (lp_receptors st))"
    using intern_total [OF few] by blast
  obtain st' where st': "learn_synapse inputs disabled p policy ?m slot st = Inr st'" "lp_receptors st' = rs"
    "lp_candidates st \<noteq> [] \<or> is_delta_enabled r \<Longrightarrow> lp_candidates st' \<noteq> []"
    unfolding learn_synapse_def Let_def scale prod.case r t(1) and_then_simps by fastforce
  have p: "pass_inv ss (Suc ?i) st'"
    by (rule learn_synapse_inv [OF _ disabled(1) room(1) _ st'(1)]) (use i room(2) in simp_all)
  have "\<forall>x \<in> set rs. finite_profile x" using intern_receptor_Inr [OF t(1)] i fin by auto
  moreover have own: "lp_candidates st' \<noteq> []" if ex: "\<exists>j < Suc ?i. decoder_learns (li_parameters inputs) (sy_kind (ss ! j))"
  proof (cases "decoder_learns (li_parameters inputs) (sy_kind (ss ! ?i))")
    case False
    then have "lp_candidates st \<noteq> []" using ex i by (auto simp: less_Suc_eq)
    then show ?thesis using st'(3) by blast
  next
    case True
    have "map wiring (lp_synapses st) = map wiring ss" using i by (simp only: pass_inv_def)
    then have same: "sy_kind ?s = sy_kind (ss ! ?i)" by (rule same_wires(2) [OF _ room(1)])
    obtain c where c: "sy_kind (ss ! ?i) = DecoderSynapse c"
      using True by (cases "sy_kind (ss ! ?i)") (simp_all add: decoder_learns_def)
    have "decoder_learns (li_parameters inputs) (DecoderSynapse c)" using True c by simp
    from effective_scale [OF ready this, of ?e p] scales(2) [of c] same c have "is_delta_enabled r" using enabled by simp
    then show ?thesis using st'(3) by blast
  qed
  moreover have "length rs \<le> Suc (Suc ?i)" using t(2) i by linarith
  ultimately have "total_inv (li_parameters inputs) ss (Suc ?i) st'" unfolding total_inv_def st'(2) using p by blast
  then show ?thesis using st'(1) by blast
qed

lemma learn_slots_total:
  assumes ready: "learning_ready inputs" and disabled: "receptor_validate disabled = Inr ()" "finite_profile disabled"
    and inv: "total_inv (li_parameters inputs) ss (unat (cp_synapse_start p)) st"
    and room: "unat (cp_synapse_start p) + n \<le> length ss" "length ss < 2 ^ 16"
  shows "\<exists>st'. try_fold (learn_synapse inputs disabled p policy (critical_period_multiplier (li_open_critical_periods inputs) p)) [0..<n] st = Inr st'
    \<and> total_inv (li_parameters inputs) ss (unat (cp_synapse_start p) + n) st'"
  using room(1)
proof (induction n)
  case 0
  then show ?case using inv by simp
next
  case (Suc n)
  then obtain st1 where st1: "try_fold (learn_synapse inputs disabled p policy (critical_period_multiplier (li_open_critical_periods inputs) p)) [0..<n] st = Inr st1"
    "total_inv (li_parameters inputs) ss (unat (cp_synapse_start p) + n) st1" by auto
  have "unat (cp_synapse_start p) + n < length ss" using Suc.prems by simp
  from learn_synapse_total [OF ready disabled st1(2) this room(2)] show ?case using st1(1) by (auto simp: try_fold_append)
qed

lemma learn_projections_total:
  assumes ready: "learning_ready inputs" and disabled: "receptor_validate disabled = Inr ()" "finite_profile disabled"
    and ranges: "range_end k ps = Some n" "n \<le> length ss" "length ss < 2 ^ 16" and inv: "total_inv (li_parameters inputs) ss k st"
  shows "\<exists>st'. try_fold (learn_projection inputs capacity disabled) ps st = Inr st' \<and> total_inv (li_parameters inputs) ss n st'"
  using ranges(1) inv
proof (induction ps arbitrary: k st)
  case (Cons p ps)
  have k: "unat (cp_synapse_start p) = k" and rest: "range_end (k + unat (cp_synapse_len p)) ps = Some n"
    using Cons.prems(1) by (auto split: if_splits)
  have le: "k + unat (cp_synapse_len p) \<le> n" using range_end_le [OF rest] .
  have small: "unat (cp_synapse_start p) + unat (cp_synapse_len p) < 2 ^ 32" using k le ranges(2,3) by simp
  then have e: "checked_add (cp_synapse_start p) (cp_synapse_len p) = Some (cp_synapse_start p + cp_synapse_len p)"
    by (simp add: checked_add_def)
  have "unat (cp_synapse_start p + cp_synapse_len p) = k + unat (cp_synapse_len p)" using small k by (subst unat_plus_no_overflow) simp_all
  moreover have wires: "map wiring (lp_synapses st) = map wiring ss" using Cons.prems(2) by (simp only: total_inv_def pass_inv_def)
  have "length (lp_synapses st) = length ss" by (rule same_wires(1) [OF wires])
  ultimately have slice: "\<not> length (lp_synapses st) < unat (cp_synapse_start p + cp_synapse_len p)"
    using le ranges(2) by linarith
  obtain st1 where st1: "try_fold (learn_synapse inputs disabled p (n2048_section_policy capacity p)
      (critical_period_multiplier (li_open_critical_periods inputs) p)) [0..<unat (cp_synapse_len p)] st = Inr st1"
    "total_inv (li_parameters inputs) ss (k + unat (cp_synapse_len p)) st1"
    using learn_slots_total [OF ready disabled, of ss p st "unat (cp_synapse_len p)"] Cons.prems(2) k le ranges(2,3) by auto
  then have "learn_projection inputs capacity disabled p st = Inr st1"
    unfolding learn_projection_def e ok_or_simps and_then_simps if_not_P [OF slice] by (simp add: may_fail_simps)
  then show ?case using Cons.IH [OF rest st1(2)] by simp
qed simp

lemma learning_pass_total:
  assumes ready: "learning_ready inputs" and ranges: "range_end 0 ps = Some (length ss)" "length ss < 2 ^ 16"
  shows "\<exists>st. learning_pass inputs capacity ps ss = Inr st \<and> total_inv (li_parameters inputs) ss (length ss) st"
proof -
  obtain disabled where d: "disabled_receptor (li_parameters inputs) = Inr disabled"
    and profile: "pr_receptor_profile disabled = pg_receptor_profile (li_parameters inputs)" using disabled_total [OF ready] by blast
  have v: "receptor_validate disabled = Inr ()" using d by (auto simp: disabled_receptor_def dest: receptor_try_new_Inr)
  have f: "finite_profile disabled" using ready by (simp add: finite_profile_def profile learning_ready_def Let_def)
  have "total_inv (li_parameters inputs) ss 0 \<lparr> lp_synapses = ss, lp_receptors = [disabled], lp_candidates = [] \<rparr>"
    using v f by (simp add: total_inv_def pass_inv_def)
  from learn_projections_total [OF ready v f ranges(1) order_refl ranges(2) this]
  show ?thesis using ready d by (simp add: learning_pass_def may_fail_simps learning_ready_def Let_def)
qed

section \<open>The plans\<close>

lemma replay_room:
  assumes "capacity \<in> set supported_classes"
  shows "xb_max_replay_events (bc_execution capacity) \<noteq> 0" "xb_max_replay_events (bc_execution capacity) \<le> 65536"
    "0 < unat (xb_max_replay_eligibility_samples (bc_execution capacity) div xb_max_replay_events (bc_execution capacity))"
  using assms by (auto simp: supported_classes_def capacity_n512_def capacity_n1024_def capacity_n2048_def capacity_n4096_research_def
      budget_production_def Let_def unat_div)

lemma sort_ascends: "distinct ids \<Longrightarrow> \<not> windows2_any (\<lambda>a b. b \<le> a) (sort ids)" for ids :: "u32 list"
  using windows2_sorted_by [of "\<lambda>x. x" "sort ids"] by (simp add: strict_sorted_iff)

lemma capture_plan_total:
  assumes capacity: "capacity \<in> set supported_classes" and some: "cs \<noteq> []" and ids: "distinct (map rc_global_synapse_id cs)"
  shows "\<exists>p. capture_plan capacity cs = Inr p"
proof -
  let ?events = "xb_max_replay_events (bc_execution capacity)" and ?samples = "xb_max_replay_eligibility_samples (bc_execution capacity)"
  define n where "n = min (min (length cs) (unat MAX_REPLAY_CAPTURE_SYNAPSES)) (unat (?samples div ?events))"
  note room = replay_room [OF capacity]
  have facts: "capture_limit capacity cs = Inr n" "n \<noteq> 0" "n \<le> length cs" "n \<le> 64"
    using room some unfolding n_def by (auto simp: capture_limit_def Let_def MAX_REPLAY_CAPTURE_SYNAPSES_def)
  obtain taken where taken: "capture_rounds n (capture_buckets cs) 0 [] = Inr (map rc_global_synapse_id taken)"
    "length taken = n" "fair_capture cs taken" using capture_rounds_fair [OF facts(3)] by blast
  let ?ids = "sort (map rc_global_synapse_id taken)"
  have sub: "mset taken \<subseteq># mset cs" using taken(3) by (simp add: fair_capture_def)
  obtain zs where zs: "mset cs = mset (taken @ zs)" using sub ex_mset by (metis mset_append subset_mset.le_iff_add)
  have "mset (map rc_global_synapse_id cs) = mset (map rc_global_synapse_id (taken @ zs))" unfolding mset_map zs ..
  then have "distinct (map rc_global_synapse_id taken)" using ids mset_eq_imp_distinct_iff by fastforce
  then have ascends: "\<not> windows2_any (\<lambda>a b. b \<le> a) ?ids" by (rule sort_ascends)
  have len: "length ?ids = n" by (simp add: taken(2))
  have count: "try_of_len (length ?ids) = Some (word_of_nat n :: u16)" using facts(4) by (simp add: try_of_len_def taken(2))
  have u: "unat (word_of_nat n :: u16) = n" using facts(4) by (simp add: unat_of_nat)
  then have u': "unat (ucast (word_of_nat n :: u16) :: u32) = n" using facts(4) by (simp add: unsigned_ucast_eq take_bit_nat_eq_self)
  have "unat ?events * n \<le> unat ?events * (unat ?samples div unat ?events)" by (simp add: n_def unat_div)
  also have "\<dots> \<le> unat ?samples" by (rule times_div_less_eq_dividend)
  finally have "unat ?events * n < 2 ^ 32" using unsigned_less [where 'a = nat, of ?samples] by simp
  then have total: "checked_mul ?events (ucast (word_of_nat n :: u16)) = Some (?events * ucast (word_of_nat n :: u16))"
    by (simp add: checked_mul_def u')
  have "?ids \<noteq> []" using len facts(2) by (metis length_0_conv)
  then have shape: "plan_validate_shape \<lparr> cp_schema_version = sv_learning schema_versions_CURRENT, cp_global_synapse_ids = ?ids,
      cp_samples_per_event = word_of_nat n, cp_event_capacity = ?events, cp_sample_capacity = ?events * ucast (word_of_nat n :: u16),
      cp_canonical_digest = zero4 \<rparr> = Inr ()"
    using ascends len facts(4) u room(1,2) total by (simp add: plan_validate_shape_def MAX_REPLAY_CAPTURE_SYNAPSES_def not_less)
  show ?thesis
    unfolding capture_plan_def Let_def facts(1) and_then_simps if_not_P [OF facts(2)] taken(1) count ok_or_simps total plan_try_new_def shape
    by blast
qed

lemma finite_writes: "list_all f32_is_finite xs \<Longrightarrow> \<exists>d'. try_fold write_f32 xs d = Inr d'"
  by (induction xs arbitrary: d) (auto simp: write_f32_def)

lemma plan_digest_total:
  assumes "\<forall>r \<in> set rs. receptor_validate r = Inr () \<and> finite_profile r"
  shows "\<exists>digest. compute_plasticity_plan_digest rs replay sleep = Inr digest"
proof -
  have "\<exists>d'. write_plan_receptor r d = Inr d'" if "r \<in> set rs" for r d
  proof -
    have r: "receptor_validate r = Inr ()" "finite_profile r" using assms that by blast+
    then show ?thesis unfolding write_plan_receptor_def write_receptor_def r(1) and_then_simps
      using r by (intro finite_writes) (auto simp: receptor_validate_def finite_profile_def split: if_splits)
  qed
  then have "\<exists>d'. try_fold write_plan_receptor xs d = Inr d'" if "set xs \<subseteq> set rs" for xs d
    using that by (induction xs arbitrary: d) (auto, metis and_then_simps(2))
  from this [OF order_refl] show ?thesis unfolding compute_plasticity_plan_digest_def by (metis and_then_simps(2))
qed

lemma sleep_plan_total:
  assumes "plasticity_genes_validate p = Inr ()"
  shows "\<exists>q. sleep_plan_try_new_v1 (pg_sleep_staging_rate p) (pg_sleep_weight_limit p) (pg_sleep_fast_decay_rate p) = Inr q"
proof -
  have f: "list_all f32_is_finite [pg_sleep_staging_rate p, pg_sleep_weight_limit p, pg_sleep_fast_decay_rate p]"
    using assms by (auto simp: plasticity_genes_validate_def if_Inl_Inr)
  obtain d where d: "try_fold write_f32 [pg_sleep_staging_rate p, pg_sleep_weight_limit p, pg_sleep_fast_decay_rate p]
      (write_u16 (sv_sleep_consolidation schema_versions_CURRENT) (digest_new SLEEP_PLAN_DOMAIN)) = Inr d"
    using finite_writes [OF f] by blast
  show ?thesis
    unfolding sleep_plan_try_new_v1_def Let_def sleep_plan_recompute_digest_def SleepConsolidationPlan.simps d and_then_simps
    using assms f by (auto simp: sleep_plan_validate_fields_def plasticity_genes_validate_def if_Inl_Inr require_current_version_def
        require_version_def)
qed

lemma plans_exist:
  assumes ready: "learning_ready inputs" and capacity: "capacity \<in> set supported_classes"
    and ranges: "range_end 0 ps = Some (length ss)" "length ss < 2 ^ 16"
  obtains st where "learning_pass inputs capacity ps ss = Inr st"
    "(\<exists>s \<in> set ss. decoder_learns (li_parameters inputs) (sy_kind s)) \<longrightarrow> lp_candidates st \<noteq> []"
    "if lp_candidates st = [] then compile_learning_plans inputs capacity ps ss = Inl (Fails PhenotypeCompile)
     else \<exists>plans ss'. compile_learning_plans inputs capacity ps ss = Inr (plans, ss')"
proof -
  obtain st where st: "learning_pass inputs capacity ps ss = Inr st" "total_inv (li_parameters inputs) ss (length ss) st"
    using learning_pass_total [OF ready ranges] by blast
  note inv = st(2) [unfolded total_inv_def]
  have some: "(\<exists>s \<in> set ss. decoder_learns (li_parameters inputs) (sy_kind s)) \<longrightarrow> lp_candidates st \<noteq> []"
    using inv by (metis in_set_conv_nth)
  have "map (unat \<circ> rc_global_synapse_id) (lp_candidates st) = filter (learns st) [0..<length ss]" using inv by (simp only: pass_inv_def)
  then have "distinct (map (unat \<circ> rc_global_synapse_id) (lp_candidates st))" by simp
  then have ids: "distinct (map rc_global_synapse_id (lp_candidates st))" by (simp add: distinct_map inj_on_def)
  show thesis
  proof (cases "lp_candidates st = []")
    case True
    have "capture_plan capacity [] = Inl PhenotypeCompile"
      using replay_room [OF capacity] by (simp add: capture_plan_def capture_limit_def Let_def)
    then have "compile_learning_plans inputs capacity ps ss = Inl (Fails PhenotypeCompile)"
      using st(1) True by (simp add: compile_learning_plans_def may_fail_simps)
    with True show thesis by (intro that [OF st(1) some]) simp
  next
    case False
    from capture_plan_total [OF capacity False ids] obtain replay where replay: "capture_plan capacity (lp_candidates st) = Inr replay" by blast
    obtain sleep where sleep: "sleep_plan_try_new_v1 (pg_sleep_staging_rate (li_parameters inputs))
        (pg_sleep_weight_limit (li_parameters inputs)) (pg_sleep_fast_decay_rate (li_parameters inputs)) = Inr sleep"
      using sleep_plan_total ready unfolding learning_ready_def Let_def by blast
    have "\<forall>r \<in> set (lp_receptors st). receptor_validate r = Inr () \<and> finite_profile r" using inv by (simp add: pass_inv_def)
    from plan_digest_total [OF this] obtain digest where "compute_plasticity_plan_digest (lp_receptors st) replay sleep = Inr digest" by blast
    then have "\<exists>plans ss'. compile_learning_plans inputs capacity ps ss = Inr (plans, ss')"
      using st(1) replay sleep by (simp add: compile_learning_plans_def may_fail_simps)
    with False show thesis by (intro that [OF st(1) some]) simp
  qed
qed

end
