(* ===== verification/Learning_Examples.thy ===== *)
theory Learning_Examples
  imports Learning_Total Topology_Examples Chemistry_Proofs
begin

text \<open>
  The properties of the learning plans, and a brain of one decoder synapse that has them: the canonical
  parameters on the scaffold genome.
\<close>

section \<open>Properties\<close>

text \<open>
  C38. Capture is fair: the synapses a replay event captures are dealt out in rounds over the groups of synapses
  that learn, so up to one round every group has the same number of slots, or all its synapses when it has
  fewer, for the first of its synapses by band, priority and id; as many are captured as learn, as the class has samples for, and at most 64.
\<close>

theorem capture_is_fair:
  assumes "compile_learning_plans inputs capacity projections synapses = Inr (plans, synapses')"
  shows "\<exists>st taken. learning_pass inputs capacity projections synapses = Inr st \<and> fair_capture (lp_candidates st) taken
    \<and> cp_global_synapse_ids (cl_replay plans) = sort (map rc_global_synapse_id taken)
    \<and> length taken = min (min (length (lp_candidates st)) 64)
        (unat (xb_max_replay_eligibility_samples (bc_execution capacity)) div unat (xb_max_replay_events (bc_execution capacity)))"
proof -
  obtain st where st: "learned inputs capacity projections synapses plans st" by (rule compile_learning_Inr [OF assms])
  then have "capture_plan capacity (lp_candidates st) = Inr (cl_replay plans)" by (simp add: learned_def)
  then show ?thesis using capture_plan_Inr st unfolding learned_def by (metis (no_types, lifting))
qed

text \<open>
  C39. The plans of a brain are accepted: over projections that cut the synapses into consecutive ranges the
  capture plan passes its check against the phenotype, every receptor is valid, every synapse points to one,
  and nothing but the receptor index of a synapse has changed.
\<close>

theorem learning_plans_are_accepted:
  assumes "compile_learning_plans inputs capacity projections synapses = Inr (plans, synapses')"
    and "range_end 0 projections = Some (length synapses)" and "length synapses < 2 ^ 32" and "capacity \<in> set supported_classes"
    and "unat (gb_replay_capture_synapse_count (cb_global budgets)) = length (cp_global_synapse_ids (cl_replay plans))"
  shows "plan_validate_against (bc_id capacity) budgets synapses' (cl_receptors plans) capacity (cl_replay plans) = Inr ()
    \<and> (\<forall>r \<in> set (cl_receptors plans). receptor_validate r = Inr ())
    \<and> (\<forall>s \<in> set synapses'. unat (sy_receptor_index s) < length (cl_receptors plans))
    \<and> map (\<lambda>s. s\<lparr>sy_receptor_index := 0\<rparr>) synapses' = map (\<lambda>s. s\<lparr>sy_receptor_index := 0\<rparr>) synapses"
proof -
  obtain st where st: "learned inputs capacity projections synapses plans st" and out: "synapses' = lp_synapses st"
    by (rule compile_learning_Inr [OF assms(1)])
  from learned_plan_accepted [OF st assms(2-5)] learned_table [OF st assms(2,3)] show ?thesis unfolding out by blast
qed

text \<open>
  C40. A brain gets its plans exactly when something in it learns: with validated parameters, mask scales and
  critical periods, over consecutive ranges of fewer than 65536 synapses in a supported class, the receptor pass
  succeeds; if it finds a synapse that learns the learning compiler succeeds, and if it finds none, as under decoder
  rates of zero, the compiler ends with the compile error. A decoder synapse learns whenever its scale times the base
  rate is at least the least positive \<open>f32\<close>, so without decoder rates every one does.
\<close>

theorem learning_plans_exist:
  assumes "learning_ready inputs" and "capacity \<in> set supported_classes"
    and "range_end 0 projections = Some (length synapses)" and "length synapses < 2 ^ 16"
  shows "\<exists>st. learning_pass inputs capacity projections synapses = Inr st
    \<and> (if lp_candidates st = [] then compile_learning_plans inputs capacity projections synapses = Inl (Fails PhenotypeCompile)
       else \<exists>plans synapses'. compile_learning_plans inputs capacity projections synapses = Inr (plans, synapses'))
    \<and> ((\<exists>s \<in> set synapses. decoder_learns (li_parameters inputs) (sy_kind s)) \<longrightarrow> lp_candidates st \<noteq> [])"
  by (rule plans_exist [OF assms]) blast

section \<open>Witnesses\<close>

definition one_synapse :: "CompiledSynapse list" where
  "one_synapse = [synapse_new 3 3 (f32_lit 1 10) (f32_lit 25 100) 0
     (DecoderSynapse \<lparr> dsc_head = ActionCandidate, dsc_family = FamilyRest, dsc_input_lane = 0, dsc_motor_index = 3 \<rparr>)]"

definition one_projection :: "PlacedProjection list" where "one_projection = [action_projection 0 0 1]"

definition default_learning :: LearningInputs where
  "default_learning = \<lparr> li_genome = scaffold_genome, li_parameters = plasticity_genes_default, li_open_critical_periods = [] \<rparr>"

lemma small_counts:
  "f32_in_range (f32_neg f32_eight) f32_eight (f32_of_nat 2)" "f32_in_range (f32_neg f32_eight) f32_eight (f32_neg (f32_of_nat 2))"
  "f32_in_range f32_zero f32_eight (f32_of_nat 4)" "\<not> f32_eq (f32_of_nat 4) f32_zero" "\<not> f32_le (f32_of_nat 2) (f32_neg (f32_of_nat 2))"
  "f32_is_finite (f32_of_nat 2)" "f32_is_finite (f32_of_nat 4)"
proof -
  have fin: "f32_is_finite (f32_of_nat 2)" "f32_is_finite (f32_of_nat 4)" "f32_is_finite (f32_of_nat 8)"
    by (rule f32_bounded_finite [OF f32_of_nat_bounded [of _ 3]]; simp)+
  have v: "f32_scaled (f32_of_nat n) = int n * 2 ^ 149" if "n \<in> {2, 4, 8}" for n
    using that by (auto simp: f32_scaled_def f32_of_nat_exact)
  show "f32_is_finite (f32_of_nat 2)" "f32_is_finite (f32_of_nat 4)" by (rule fin)+
  show "f32_in_range (f32_neg f32_eight) f32_eight (f32_of_nat 2)" "f32_in_range (f32_neg f32_eight) f32_eight (f32_neg (f32_of_nat 2))"
    "f32_in_range f32_zero f32_eight (f32_of_nat 4)" "\<not> f32_eq (f32_of_nat 4) f32_zero" "\<not> f32_le (f32_of_nat 2) (f32_neg (f32_of_nat 2))"
    using fin by (simp_all add: f32_in_range_def f32_le_def f32_eq_def f32_eight_def v f32_finite_not_nan)
qed

lemma default_ready: "learning_ready default_learning"
proof -
  have unit: "f32_in_range f32_zero f32_one (f32_lit n d)" if "0 < d" "n \<le> d" for n d using f32_lit_unit [OF that] .
  have fin: "f32_is_finite (f32_lit n d)" if "0 < d" "n \<le> d" for n d by (rule rate_finite [OF unit [OF that]])
  have pos: "\<not> f32_eq (f32_lit n d) f32_zero" if "0 < d" "d \<le> n * 2 ^ 149" for n d
  proof -
    have "2 ^ 0 \<le> f32_magnitude (f32_lit n d)" unfolding f32_lit_def by (rule f32_round_lower) (use that in simp_all)
    then have "0 < f32_magnitude (f32_lit n d)" by simp
    moreover have "f32_scaled f32_zero = 0" by simp
    ultimately show ?thesis unfolding f32_eq_def by (auto simp: f32_scaled_def [of "f32_lit n d"])
  qed
  have fixed: "f32_is_finite f32_minus_one" "f32_is_finite f32_zero" "f32_is_finite f32_one"
    by (simp_all add: f32_is_finite_def f32_minus_one_def f32_zero_def f32_one_def f32_exponent_unat)
  show ?thesis
    by (simp add: learning_ready_def Let_def default_learning_def plasticity_genes_default_def plasticity_genes_validate_def
        require_current_version_def require_version_def unit fin pos fixed small_counts scaffold_genome_def)
qed

lemma one_range: "range_end 0 one_projection = Some (length one_synapse)" "length one_synapse = 1"
  by (simp_all add: one_projection_def one_synapse_def action_projection_def projection_new_def)

lemma one_learns: "\<exists>s \<in> set one_synapse. decoder_learns (li_parameters default_learning) (sy_kind s)"
proof -
  have "2 ^ 142 * 100 \<le> (2 :: nat) ^ 149" by simp
  then have "2 ^ 142 \<le> f32_magnitude (f32_lit 1 100)" unfolding f32_lit_def by (intro f32_round_lower) simp_all
  then have "2 ^ 149 \<le> f32_magnitude (f32_lit 1 100) * 2 ^ 149" by simp
  then show ?thesis
    by (simp add: one_synapse_def synapse_new_def decoder_learns_def decoder_scale_def default_learning_def
        plasticity_genes_default_def f32_one_facts)
qed

lemma n512_supported: "capacity_n512 \<in> set supported_classes"
  by (simp add: supported_classes_def)

lemma one_plan:
  obtains plans ss where "compile_learning_plans default_learning capacity_n512 one_projection one_synapse = Inr (plans, ss)"
proof -
  have "length one_synapse < 2 ^ 16" by (simp add: one_range(2))
  then show thesis
  proof (rule plans_exist [OF default_ready n512_supported one_range(1)])
    fix st
    assume "(\<exists>s \<in> set one_synapse. decoder_learns (li_parameters default_learning) (sy_kind s)) \<longrightarrow> lp_candidates st \<noteq> []"
      and "if lp_candidates st = [] then compile_learning_plans default_learning capacity_n512 one_projection one_synapse = Inl (Fails PhenotypeCompile)
        else \<exists>plans ss. compile_learning_plans default_learning capacity_n512 one_projection one_synapse = Inr (plans, ss)"
    then show thesis using that one_learns by auto
  qed
qed

text \<open>The same brain under decoder rates of zero, which pass their validation: nothing in it learns.\<close>

definition silent_learning :: LearningInputs where
  "silent_learning = default_learning\<lparr>li_parameters := plasticity_genes_default\<lparr>pg_rate_policy := Some \<lparr>
     dl_action_candidate_scale = f32_zero, dl_memory_context_scale = f32_zero, dl_speech_payload_scale = f32_zero,
     dl_cognitive_context_scale = f32_zero, dl_family_scales = replicate 8 None \<rparr>\<rparr>\<rparr>"

lemma silent_ready: "learning_ready silent_learning"
proof -
  have rates: "rates_validate \<lparr> dl_action_candidate_scale = f32_zero, dl_memory_context_scale = f32_zero,
     dl_speech_payload_scale = f32_zero, dl_cognitive_context_scale = f32_zero, dl_family_scales = replicate 8 None \<rparr> = Inr ()"
    using unit_zero rate_finite [OF unit_zero] by (auto simp: rates_validate_def check_scale_def List.map_filter_def)
  have "plasticity_genes_validate (p\<lparr>pg_rate_policy := Some policy\<rparr>) = Inr ()"
    if "plasticity_genes_validate p = Inr ()" "rates_validate policy = Inr ()" for p policy
    using that unfolding plasticity_genes_validate_def and_then_Inr_iff
    by (cases p) (simp only: PlasticityGenomeParameters.simps option.case, blast)
  from this [OF _ rates] show ?thesis
    using default_ready by (auto simp: learning_ready_def Let_def silent_learning_def default_learning_def)
qed

lemma silent_pass:
  assumes "learning_pass silent_learning capacity_n512 one_projection one_synapse = Inr st"
  shows "lp_candidates st = []"
proof -
  have zero: "f32_eq (f32_clamp f32_zero f32_one (f32_mul f32_zero x)) f32_zero" if "f32_is_finite x" for x
  proof -
    have z: "f32_is_finite f32_zero" "f32_magnitude f32_zero = 0"
      using rate_finite [OF unit_zero] f32_scaled_abs [of f32_zero] by simp_all
    have "f32_mul f32_zero x = f32_round (f32_is_sign_negative f32_zero \<noteq> f32_is_sign_negative x) 0 (2 ^ 149)"
      using that z by (simp add: f32_mul_def Let_def f32_finite_not_nan f32_finite_not_infinite)
    then have "f32_magnitude (f32_mul f32_zero x) = 0"
      by (simp add: f32_round_magnitude f32_bits_of_def round_even_def bits_value_def)
    then have "f32_scaled (f32_mul f32_zero x) = 0" by (simp add: f32_scaled_def)
    moreover have "\<not> f32_is_nan (f32_mul f32_zero x)" using f32_mul_not_nan [OF rate_finite [OF unit_zero] that] .
    ultimately show ?thesis by (simp add: f32_clamp_def f32_lt_def f32_eq_def)
  qed
  have multiplier: "f32_is_finite (critical_period_multiplier [] p)" for p
    using multiplier_facts(2) [OF default_ready, of p] by (simp add: default_learning_def)
  obtain disabled where d: "disabled_receptor (li_parameters silent_learning) = Inr disabled"
    using disabled_total [OF silent_ready] by blast
  have off: "\<not> is_delta_enabled disabled"
    using d by (auto simp: disabled_receptor_def receptor_try_new_def Let_def is_delta_enabled_def f32_eq_def)
  have genes: "plasticity_genes_validate (li_parameters silent_learning) = Inr ()"
    using silent_ready by (simp add: learning_ready_def Let_def)
  show ?thesis
    using assms zero [OF multiplier] d off genes
    by (auto simp: learning_pass_def may_fail_simps one_projection_def learn_projection_def action_projection_def projection_new_def
        learn_synapse_def receptor_scale_def one_synapse_def synapse_new_def silent_learning_def default_learning_def
        scale_for_def receptor_for_def plasticity_genes_default_def checked_add_def Let_def split: if_splits sum.splits)
qed

theorem learning_plans_exist_witness:
  "(\<exists>plans ss. compile_learning_plans default_learning capacity_n512 one_projection one_synapse = Inr (plans, ss))
   \<and> compile_learning_plans silent_learning capacity_n512 one_projection one_synapse = Inl (Fails PhenotypeCompile)"
proof -
  have few: "length one_synapse < 2 ^ 16" by (simp add: one_range(2))
  show ?thesis
    using learning_plans_exist [OF default_ready n512_supported one_range(1) few] one_learns
      learning_plans_exist [OF silent_ready n512_supported one_range(1) few] silent_pass by auto
qed

theorem capture_is_fair_witness:
  "\<exists>plans ss st taken. compile_learning_plans default_learning capacity_n512 one_projection one_synapse = Inr (plans, ss)
    \<and> learning_pass default_learning capacity_n512 one_projection one_synapse = Inr st \<and> fair_capture (lp_candidates st) taken"
  using one_plan capture_is_fair by metis

theorem learning_plans_are_accepted_witness:
  "\<exists>plans ss. compile_learning_plans default_learning capacity_n512 one_projection one_synapse = Inr (plans, ss)
    \<and> (\<forall>s \<in> set ss. unat (sy_receptor_index s) < length (cl_receptors plans))"
proof -
  obtain plans ss where plans: "compile_learning_plans default_learning capacity_n512 one_projection one_synapse = Inr (plans, ss)"
    by (rule one_plan)
  obtain st where st: "learned default_learning capacity_n512 one_projection one_synapse plans st" by (rule compile_learning_Inr [OF plans])
  then have "length (cp_global_synapse_ids (cl_replay plans)) \<le> 64" using capture_plan_Inr unfolding learned_def
    by (metis (no_types, lifting) length_map length_sort min.cobounded2 min.coboundedI1)
  then have "unat (word_of_nat (length (cp_global_synapse_ids (cl_replay plans))) :: u32) = length (cp_global_synapse_ids (cl_replay plans))"
    by (simp add: unat_of_nat)
  then obtain budgets :: CompiledBudgets where "unat (gb_replay_capture_synapse_count (cb_global budgets)) = length (cp_global_synapse_ids (cl_replay plans))"
    by (metis CompiledBudgets.select_convs(4) GlobalPhenotypeBudgetReceipt.select_convs(14))
  from learning_plans_are_accepted [OF plans one_range(1) _ n512_supported this] one_range(2) plans show ?thesis by auto
qed

end
