(* ===== verification/Spec2Isabelle.thy ===== *)
theory Spec2Isabelle
  imports Activity_Examples Sleep_Examples Scheduler_Examples Session_Examples Routing_Proofs Tracked_Examples
    Language_Proofs Plasticity_Examples Life_Proofs Replay_Examples Replay_Roundtrip Sleep_Liveness
    Topology_Examples Encoder_Examples Construction_Examples Learning_Examples
begin

text \<open>
  A verification library for the deterministic core of A-Life, a Rust workspace (\<open>crates/\<close>) that simulates
  creatures whose brains run on a GPU. The crates around the core render, train and talk to devices;
  the core decides: it compiles a genome into a brain, meters and throttles the work of the brain, keeps
  chemistry, sleep, memory of objects and words, and saves and restores all of it. It is written without
  randomness or threads, so each operation is a function here.

  \<^bold>\<open>Conventions.\<close> A struct is a record and an enum a datatype with the source's constructors. Integers are
  words (\<open>u8\<close> to \<open>u64\<close>) with the source's wrapping, checked and saturating operations (Prelude). \<open>Result\<close> is
  a sum with \<open>Inl\<close> for the error; a method on \<open>&mut self\<close> returns its result with the state it leaves, also
  when it fails. A panic is the value \<open>Panics\<close> (Ring_Buffers), a loop that may not end is \<open>while_option\<close>, so
  that not returning is \<open>None\<close> and becomes \<open>Panics\<close> too. \<open>f32\<close> is its bit pattern with exact integer
  semantics: values are integers in units of \<open>2 ^ -149\<close>, operators compute exactly and round once (F32,
  F32_Arith, F32_Quotient). \<open>BTreeMap\<close> is its sorted list of entries (Collections). Vectors are lists.

  \<^bold>\<open>Shared theories.\<close> Prelude (integers, \<open>Result\<close>, runs of calls), Collections (ordered maps, locale
  \<open>ordered_map\<close>), Ring_Buffers (panics, fallible folds, locale \<open>bounded_queue\<close>), F32 and its companions,
  Contracts (errors, versions, ids, units, geometry), Digest and Digest_Encoding (\<open>canonical_digest.rs\<close>: all its
  typed writers, whose bytes are the typed values up to the sign of a zero float; locale \<open>sealed_record\<close>: a record
  that carries the digest of its other fields).

  \<^bold>\<open>Components, in the order the core runs them.\<close>
  \<^item> \<^bold>\<open>Compiling a brain.\<close> Lobes (\<open>lobe.rs\<close>): apportionment of neurons and validation of layouts. Routing
    (\<open>routing.rs\<close>, \<open>brain_class.rs\<close>). Capacity (\<open>phenotype/capacity.rs\<close>), Tile_Pairs and Topology
    (\<open>phenotype/topology_compile.rs\<close>, the frozen tables of \<open>foundation.rs\<close>), Budgets (\<open>phenotype/budgets.rs\<close>,
    sums of \<open>construction.rs\<close>), Encoder (\<open>phenotype/encoder.rs\<close> and \<open>compile_encoder\<close> of \<open>io_compile.rs\<close>), Decoder_Plans
    (\<open>phenotype/decoder.rs\<close>, \<open>memory_channel.rs\<close>), Decoder_Compile (the decoder compilers of \<open>io_compile.rs\<close>),
    Construction (\<open>construction.rs\<close>), which runs them in order, and Learning_Genes and Learning_Plans
    (\<open>phenotype/learning.rs\<close> and the parameters of \<open>genome.rs\<close>): how fast each synapse learns and which synapses
    a replay event captures. Their properties: lobe lengths add up and are fair, a layout partitions the
    neurons, compiling ends without a panic, synapses join the lobes of their projection and are placed
    once, budgets hold, and a budget receipt is built exactly when its routes fit in the natural numbers
    (Lobe_Proofs, Routing_Proofs, Topology_Proofs, Topology_Safety, Topology_Foundation, Budgets_Proofs); the
    encoder gives every active gene its receptors and finds a free pair for each (Encoder_Proofs,
    Encoder_Total, Encoder_Examples); motor units belong to one family and the frozen memory head is complete
    (Decoder_Proofs, Decoder_Checks, Decoder_Foundation); a brain that compiles passes its own checks,
    if the architecture's motor heads fit its motor lobe, compiling never panics, and the foundation genome becomes a
    brain (Construction_Proofs, Construction_Foundation, Construction_Examples); learning
    plans are found exactly when some synapse learns (rates of zero can silence all of them, and are refused), pass
    their checks, and deal the captured synapses out fairly over the groups that learn (Learning_Capture, Learning_Proofs, Learning_Total, Learning_Examples).
  \<^item> \<^bold>\<open>Running it.\<close> Activity and Throttle (\<open>activity.rs\<close>): price of neural work, pressure samples, throttle
    decisions, work receipts. A receipt conserves ATP, a tighter level runs a subset of the routes, essential
    routes always run (Activity_Proofs, Throttle_Proofs). Session (\<open>alife_runtime/src/session.rs\<close>): the sole
    owner of the GPU backend, whose calls are arguments; its fail-stop is final.
  \<^item> \<^bold>\<open>Body and life.\<close> Chemistry (\<open>chemistry.rs\<close>): drives and hormones, \<open>f32\<close> arithmetic that stays in range on
    every tick. Life_Statistics (\<open>evaluation.rs\<close>): every mean metric is the exact rounded mean of what was
    accepted.
  \<^item> \<^bold>\<open>Learning and memory.\<close> Learning (\<open>learning.rs\<close>): the sequence guard commits nothing twice. Plasticity
    (\<open>structural_plasticity.rs\<close>): connections come from accepted evidence, in budget, whatever the order of the
    evidence. Language (\<open>language.rs\<close>): the grounding ledger is the histogram of its receipts. Tracked_Objects
    (\<open>alife_world/src/tracked_objects.rs\<close>): portable ids, eviction, save states that restore the registry.
  \<^item> \<^bold>\<open>Sleep.\<close> Sleep_Contracts, Sleep_Control and Sleep_Work (\<open>sleep.rs\<close>, \<open>sleep/gpu_contracts.rs\<close>) and
    Sleep_Scheduler (\<open>alife_runtime/src/sleep_scheduler.rs\<close>): the abstract cycle \<open>cycle_move\<close> is the specification
    the controller refines in every reachable state; the stored state is valid until \<open>2 ^ 32\<close> cycles are
    consolidated and never after, cycles are woken in order, commits are the staged output, a sleep that is answered
    ends (Sleep_Proofs, Sleep_Liveness). Replay, Replay_Journal and Replay_Batch (\<open>sleep/replay.rs\<close>): the ring
    journal refines a bounded queue. Replay_Codec (\<open>checkpoint_assets/replay_codec.rs\<close>): the checkpoint of the
    GPU ring is lossless in both directions (Replay_Codec_Proofs, Replay_Roundtrip).

  Theories named \<open>_Proofs\<close> hold lemmas and properties, theories named \<open>_Examples\<close> concrete runs on which the
  properties with hypotheses are applied.

  \<^bold>\<open>Bounds.\<close> No definition runs on fuel. Euclid's loop ends by a measure; the search for a coprime stride ends
  because odd strides reach one (even tile counts) or cycle through every residue (odd counts). The rounds of a capture
  end because each adds a synapse. Loops over a vector are folds that stop at the first error.

  \<^bold>\<open>Parameters.\<close> BLAKE3, the GPU backend, the GPU sleep driver and the verdict of a sealed experience patch's
  own validation are arguments, not definitions.

  \<^bold>\<open>Not modelled.\<close> The GPU backend and its shaders (\<open>alife_gpu_backend\<close> apart from the replay rows), the game
  application and its renderer (\<open>alife_game_app\<close>), the world's physics, organisms and persistence besides the
  registry and the replay journal (\<open>alife_world\<close>), training, archives, storage and tools: they are device, file
  and window input and output around the core, or large numeric simulations over state of the engine. Of
  \<open>alife_core\<close> the final validation of a phenotype, the genome's own validation,
  memory retrieval, the experience and perception contracts and the biochemistry graph remain to be modelled.
\<close>

end
